(* ===== verification/Prelude.thy ===== *)
theory Prelude
  imports Main "HOL-Library.Word"
begin

unbundle bit_operations_syntax

text \<open>
  Shared vocabulary of the development: the machine types of the C code, the rule collections
  the component theories fill, and the generic facts on words, lists and association lists
  that more than one component uses.

  A C \<open>uint32_t\<close> is a \<open>u32\<close>, whose arithmetic wraps around.  A C \<open>char *\<close> that may be
  \<open>NULL\<close> is a \<open>cstring\<close>; a \<open>char *\<close> that the code never lets be \<open>NULL\<close> is a plain
  \<open>string\<close>.  Pointers into the heap are natural numbers (\<open>addr\<close>).
\<close>

type_synonym u32 = "32 word"
type_synonym cstring = "string option"
type_synonym addr = nat

named_theorems step_defs \<open>definitions of the elementary state updates\<close>
named_theorems frame \<open>fields an operation leaves alone\<close>

subsection \<open>Unsigned 32-bit counters\<close>

lemma unat_inc_u32:
  fixes w :: u32
  assumes "w \<noteq> -1"
  shows "unat (w + 1) = Suc (unat w)"
proof -
  from assms have "1 + w \<noteq> 0" by (metis add.commute eq_neg_iff_add_eq_0)
  then show ?thesis by (simp add: unatSuc add.commute)
qed

lemma inc_u32_le:
  fixes v w :: u32
  assumes "v < w"
  shows "v + 1 \<le> w"
  using assms by (simp add: inc_le)

lemma less_inc_u32:
  fixes w :: u32
  assumes "w \<noteq> -1"
  shows "w < w + 1"
  using assms by (simp add: word_less_nat_alt unat_inc_u32)

lemma inc_u32_eq_0_iff [simp]:
  fixes w :: u32
  shows "w + 1 = 0 \<longleftrightarrow> w = -1"
  by (metis add.commute add_eq_0_iff)

lemma le_inc_u32_iff:
  fixes v w :: u32
  assumes "w \<noteq> -1"
  shows "v \<le> w + 1 \<longleftrightarrow> v \<le> w \<or> v = w + 1"
  using assms by (auto simp: word_le_nat_alt unat_inc_u32 le_Suc_eq word_unat_eq_iff)

lemma inc_le_iff_u32:
  fixes v w :: u32
  assumes "v \<noteq> -1"
  shows "v + 1 \<le> w \<longleftrightarrow> v < w"
  using assms by (simp add: word_le_nat_alt word_less_nat_alt unat_inc_u32 Suc_le_eq)

lemma less_inc_iff_u32:
  fixes v w :: u32
  assumes "w \<noteq> -1"
  shows "v < w + 1 \<longleftrightarrow> v \<le> w"
  using assms by (simp add: word_le_nat_alt word_less_nat_alt unat_inc_u32 less_Suc_eq_le)

subsection \<open>Numbers in strings\<close>

definition is_space :: "char \<Rightarrow> bool" where
  "is_space c \<longleftrightarrow> (let n = (of_char c :: nat) in n = 32 \<or> (9 \<le> n \<and> n \<le> 13))"

definition is_digit :: "char \<Rightarrow> bool" where
  "is_digit c \<longleftrightarrow> (let n = (of_char c :: nat) in 48 \<le> n \<and> n \<le> 57)"

definition digits_value :: "string \<Rightarrow> int" where
  "digits_value ds = foldl (\<lambda>v c. 10 * v + (of_char c - 48)) 0 ds"

text \<open>
  \<open>strtol(s, &end, 10)\<close> and \<open>strtoul\<close> of the C library: sign, digits and the rest of the string;
  without digits the value is 0 and the rest is the whole string.
\<close>

definition scan_number :: "string \<Rightarrow> (bool \<times> int \<times> string) option" where
  "scan_number s =
     (let s1 = dropWhile is_space s;
          neg = (s1 \<noteq> [] \<and> hd s1 = CHR ''-'');
          s2 = (if s1 \<noteq> [] \<and> (hd s1 = CHR ''-'' \<or> hd s1 = CHR ''+'') then tl s1 else s1);
          ds = takeWhile is_digit s2
      in if ds = [] then None else Some (neg, digits_value ds, dropWhile is_digit s2))"

definition strtol :: "string \<Rightarrow> int \<times> string" where
  "strtol s =
     (case scan_number s of
        None \<Rightarrow> (0, s)
      | Some (neg, v, rest) \<Rightarrow>
          (max (- (2 ^ 63)) (min (2 ^ 63 - 1) (if neg then - v else v)), rest))"

definition strtoul :: "string \<Rightarrow> int \<times> string" where
  "strtoul s =
     (case scan_number s of
        None \<Rightarrow> (0, s)
      | Some (neg, v, rest) \<Rightarrow>
          (if v \<ge> 2 ^ 64 then (2 ^ 64 - 1, rest)
           else ((if neg then - v else v) mod 2 ^ 64, rest)))"

text \<open>The decimal notation of \<open>snprintf\<close>.\<close>

fun dec_digits :: "nat \<Rightarrow> nat \<Rightarrow> string" where
  "dec_digits 0 n = []"
| "dec_digits (Suc k) n = (if n < 10 then [char_of (48 + n)] else dec_digits k (n div 10) @ [char_of (48 + n mod 10)])"

definition dec_of_int :: "int \<Rightarrow> string" where
  "dec_of_int i = (if i < 0 then CHR ''-'' # dec_digits (nat (- i) + 1) (nat (- i))
     else dec_digits (nat i + 1) (nat i))"


lemma dec_digits_are_digits: "c \<in> set (dec_digits k n) \<Longrightarrow> is_digit c"
proof (induction k n rule: dec_digits.induct)
  case (2 k n)
  have "of_char (char_of (48 + n mod 10) :: char) = 48 + n mod 10" and "n < 10 \<Longrightarrow> of_char (char_of (48 + n) :: char) = 48 + n"
    by (simp_all add: of_char_of)
  then show ?case using 2 by (auto simp: is_digit_def split: if_splits)
qed simp

lemma dec_digits_value: "n < k \<Longrightarrow> dec_digits k n \<noteq> [] \<and> digits_value (dec_digits k n) = int n"
proof (induction k n rule: dec_digits.induct)
  case (2 k n)
  have digit: "of_char (char_of (48 + m) :: char) = (48 + int m)" if "m < 10" for m :: nat
    by (subst of_nat_of_char [symmetric]) (use that in simp)
  have c: "of_char (char_of (48 + n mod 10) :: char) = (48 + int (n mod 10))" "n < 10 \<Longrightarrow> of_char (char_of (48 + n) :: char) = (48 + int n)"
    by (rule digit, simp) (rule digit)
  show ?case
  proof (cases "n < 10")
    case True
    then show ?thesis using c(2) by (simp add: digits_value_def)
  next
    case False
    then have "digits_value (dec_digits k (n div 10)) = int (n div 10)" using 2 by auto
    moreover have "int n = 10 * int (n div 10) + int (n mod 10)" by presburger
    ultimately show ?thesis using False c(1) by (simp add: digits_value_def)
  qed
qed simp

lemma digit_chars:
  assumes "is_digit c" shows "\<not> is_space c" and "c \<noteq> CHR ''-''" and "c \<noteq> CHR ''+''" and "c \<noteq> CHR '' ''"
  using assms by (auto simp: is_digit_def is_space_def Let_def)

text \<open>Reading back what \<open>snprintf\<close> wrote.\<close>

lemma strtoul_dec:
  assumes "n < 2 ^ 64" and rest: "rest = [] \<or> \<not> is_digit (hd rest)"
  shows "strtoul (dec_of_int (int n) @ rest) = (int n, rest)"
proof -
  define ds where "ds = dec_digits (n + 1) n"
  have ds: "ds \<noteq> []" "digits_value ds = int n" "\<And>c. c \<in> set ds \<Longrightarrow> is_digit c"
    using dec_digits_value [of n "n + 1"] dec_digits_are_digits unfolding ds_def using less_add_one by blast+
  have dec: "dec_of_int (int n) = ds" by (simp add: dec_of_int_def ds_def nat_add_distrib)
  obtain d ds' where split: "ds = d # ds'" using ds(1) by (cases ds) auto
  have "d \<in> set ds" by (simp add: split)
  note d = digit_chars [OF ds(3) [OF this]]
  have sp: "dropWhile is_space (ds @ rest) = ds @ rest" using d(1) split by simp
  have take: "takeWhile is_digit (ds @ rest) = ds" "dropWhile is_digit (ds @ rest) = rest"
    using ds(3) rest by (cases rest; simp add: takeWhile_append2 dropWhile_append2)+
  have hd: "hd (ds @ rest) = d" by (simp add: split)
  have "scan_number (ds @ rest) = Some (False, int n, rest)"
    unfolding scan_number_def Let_def sp hd using ds(1,2) d(2,3) take by simp
  then show ?thesis using assms(1) by (simp add: strtoul_def dec)
qed
end
