(* ===== verification/Transaction.thy ===== *)
theory Transaction
  imports Prelude
begin

text \<open>
  The transaction table of the resource plugin (\<open>src/plugins/resource/transaction.c\<close>): a
  fixed array of 1024 slots indexed by the low bits of the transaction id, a reference count per
  slot, and completion callbacks that are delivered in the order of the ids.

  A completion callback (function and user data) is a value of the type parameter \<open>'cb\<close>.  The
  completion function is called by the manager's code only and does not touch the table, so a
  completion is modelled as an entry of the list of calls that \<open>transaction_unref\<close> returns, in
  the order in which the C code makes them.  The allocator is the argument \<open>mem\<close>: whether
  \<open>realloc\<close> succeeds.
\<close>

subsection \<open>State\<close>

definition NO_TRANSACTION :: u32 where
  "NO_TRANSACTION = 0"

definition TX_HASH_BITS :: nat where
  "TX_HASH_BITS = 10"

definition TX_HASH_INDEX :: "u32 \<Rightarrow> nat" where
  "TX_HASH_INDEX i = unat (i AND (push_bit TX_HASH_BITS 1 - 1))"

definition ALLOC_JUNK :: nat where
  "ALLOC_JUNK = 1024 * 4"

record 'cb transaction =
  tx_id :: u32
  refcnt :: int
  junks :: nat
  table :: "u32 list"
  completion :: "'cb option"

record 'cb txstate =
  transactions :: "nat \<Rightarrow> 'cb transaction"
  txwrite :: u32
  txread :: u32
  tx_count :: u32

type_synonym 'cb tx_call = "'cb \<times> u32 list \<times> u32"

definition zero_transaction :: "'cb transaction" where
  "zero_transaction = \<lparr>tx_id = 0, refcnt = 0, junks = 0, table = [], completion = None\<rparr>"

definition init_txstate :: "'cb txstate" where
  "init_txstate = \<lparr>transactions = (\<lambda>_. zero_transaction), txwrite = 0, txread = 1,
     tx_count = NO_TRANSACTION\<rparr>"

subsection \<open>Operations\<close>

definition find_transaction :: "'cb txstate \<Rightarrow> u32 \<Rightarrow> 'cb transaction option" where
  "find_transaction st txid =
     (let tx = transactions st (TX_HASH_INDEX txid)
      in if txid \<noteq> NO_TRANSACTION \<and> txid = tx_id tx then Some tx else None)"

definition set_slot :: "'cb txstate \<Rightarrow> u32 \<Rightarrow> 'cb transaction \<Rightarrow> 'cb txstate" where
  "set_slot st txid tx =
     st\<lparr>transactions := (transactions st)(TX_HASH_INDEX txid := tx)\<rparr>"

definition transaction_create :: "'cb option \<Rightarrow> 'cb txstate \<Rightarrow> u32 \<times> 'cb txstate" where
  "transaction_create cb st =
     (let txid = tx_count st + 1;
          tx = transactions st (TX_HASH_INDEX txid);
          st1 = st\<lparr>tx_count := txid\<rparr>
      in if tx_id tx \<noteq> NO_TRANSACTION then (NO_TRANSACTION, st1)
         else (txid,
           (set_slot st1 txid
             (zero_transaction\<lparr>tx_id := txid, refcnt := 1, completion := cb\<rparr>))
           \<lparr>txwrite := txid\<rparr>))"

definition add_resource_set ::
  "bool \<Rightarrow> u32 \<Rightarrow> 'cb transaction \<Rightarrow> bool \<times> 'cb transaction" where
  "add_resource_set mem rsid tx =
     (let idx = length (table tx);
          needed = (idx + ALLOC_JUNK) div ALLOC_JUNK
      in if rsid \<in> set (table tx) then (True, tx)
         else if needed > junks tx
         then if \<not> mem then (False, tx)
              else (True, tx\<lparr>junks := needed, table := table tx @ [rsid]\<rparr>)
         else (True, tx\<lparr>table := table tx @ [rsid]\<rparr>))"

definition transaction_add_resource_set ::
  "bool \<Rightarrow> u32 \<Rightarrow> u32 \<Rightarrow> 'cb txstate \<Rightarrow> bool \<times> 'cb txstate" where
  "transaction_add_resource_set mem txid rsid st =
     (case find_transaction st txid of
        None \<Rightarrow> (False, st)
      | Some tx \<Rightarrow>
          (let (success, tx') = add_resource_set mem rsid tx
           in (success, set_slot st txid tx')))"

definition transaction_ref :: "u32 \<Rightarrow> 'cb txstate \<Rightarrow> bool \<times> 'cb txstate" where
  "transaction_ref txid st =
     (case find_transaction st txid of
        None \<Rightarrow> (False, st)
      | Some tx \<Rightarrow> (True, set_slot st txid (tx\<lparr>refcnt := refcnt tx + 1\<rparr>)))"

text \<open>
  The loop of \<open>complete_transaction\<close>.  Its counter is a \<open>uint32_t\<close> compared with
  \<open>txwrite\<close>, so it need not stop when \<open>txwrite\<close> is the largest id: \<open>None\<close> is \<open>does not
  return\<close>.
\<close>

definition call_of :: "'cb transaction \<Rightarrow> 'cb tx_call list" where
  "call_of tx = (case completion tx of None \<Rightarrow> [] | Some cb \<Rightarrow> [(cb, table tx, tx_id tx)])"

partial_function (option) complete_loop ::
  "u32 \<Rightarrow> 'cb txstate \<Rightarrow> 'cb tx_call list \<Rightarrow> ('cb txstate \<times> 'cb tx_call list) option" where
  "complete_loop i st calls =
     (if i \<le> txwrite st
      then case find_transaction st i of
             None \<Rightarrow> complete_loop (i + 1) st calls
           | Some tx \<Rightarrow>
               if refcnt tx > 0 then Some (st, calls)
               else complete_loop (i + 1)
                      ((set_slot st i zero_transaction)\<lparr>txread := i + 1\<rparr>)
                      (calls @ call_of tx)
      else Some (st, calls))"

definition complete_transaction ::
  "u32 \<Rightarrow> 'cb txstate \<Rightarrow> ('cb txstate \<times> 'cb tx_call list) option" where
  "complete_transaction txid st =
     (if txid = txread st then complete_loop (txread st) st [] else Some (st, []))"

definition transaction_unref ::
  "u32 \<Rightarrow> 'cb txstate \<Rightarrow> (bool \<times> 'cb txstate \<times> 'cb tx_call list) option" where
  "transaction_unref txid st =
     (case find_transaction st txid of
        None \<Rightarrow> Some (False, st, [])
      | Some tx \<Rightarrow>
          if refcnt tx \<le> 0 then Some (False, st, [])
          else
            (let st1 = set_slot st txid (tx\<lparr>refcnt := refcnt tx - 1\<rparr>)
             in if refcnt tx - 1 \<le> 0
                then map_option (\<lambda>(st2, calls). (True, st2, calls))
                       (complete_transaction txid st1)
                else Some (True, st1, [])))"


subsection \<open>The table as a map\<close>

lemma TX_HASH_INDEX_mod: "TX_HASH_INDEX i = unat i mod 1024"
proof -
  have "i AND (push_bit TX_HASH_BITS 1 - 1) = take_bit 10 i"
    by (simp add: TX_HASH_BITS_def take_bit_eq_mask mask_eq_exp_minus_1 push_bit_eq_mult)
  then have "TX_HASH_INDEX i = unat (take_bit 10 i)"
    by (simp only: TX_HASH_INDEX_def)
  also have "\<dots> = take_bit 10 (unat i)"
    by (rule unsigned_take_bit_eq)
  finally show ?thesis by (simp add: take_bit_eq_mod)
qed

lemma find_transaction_id: "find_transaction st i = Some tx \<Longrightarrow> tx_id tx = i \<and> i \<noteq> 0"
  by (auto simp: find_transaction_def NO_TRANSACTION_def Let_def split: if_splits)

lemma find_transaction_cong:
  "transactions st' = transactions st \<Longrightarrow> find_transaction st' = find_transaction st"
  by (simp add: find_transaction_def fun_eq_iff)

lemma find_set_slot:
  assumes "i \<noteq> 0" and "tx_id tx = i \<or> tx_id tx = 0"
    and "find_transaction st i = Some tx0"
  shows "find_transaction (set_slot st i tx) j =
    (if j = i then (if tx_id tx = 0 then None else Some tx) else find_transaction st j)"
proof (cases "TX_HASH_INDEX j = TX_HASH_INDEX i")
  case True
  from assms(1,3) have "tx_id (transactions st (TX_HASH_INDEX i)) = i"
    by (auto simp: find_transaction_def Let_def split: if_splits)
  with True assms(1,2) show ?thesis
    by (cases "j = i") (auto simp: find_transaction_def set_slot_def Let_def NO_TRANSACTION_def)
next
  case False
  then show ?thesis
    by (auto simp: find_transaction_def set_slot_def Let_def)
qed

lemma set_slot_fields [frame]:
  "txwrite (set_slot st i tx) = txwrite st"
  "txread (set_slot st i tx) = txread st"
  "tx_count (set_slot st i tx) = tx_count st"
  by (simp_all add: set_slot_def)

subsection \<open>Pending transactions\<close>

text \<open>
  The abstract value of the table: the live transactions in the order of their ids, from the id
  \<open>i\<close> on.
\<close>

definition id_range :: "u32 \<Rightarrow> u32 \<Rightarrow> u32 list" where
  "id_range i j = map of_nat [unat i..<Suc (unat j)]"

definition pending :: "'cb txstate \<Rightarrow> u32 \<Rightarrow> 'cb transaction list" where
  "pending st i = List.map_filter (find_transaction st) (id_range i (txwrite st))"

definition tx_done :: "'cb transaction \<Rightarrow> bool" where
  "tx_done tx \<longleftrightarrow> refcnt tx \<le> 0"

lemma id_range_Cons: "i \<le> j \<Longrightarrow> j \<noteq> -1 \<Longrightarrow> id_range i j = i # id_range (i + 1) j"
proof -
  assume le: "i \<le> j" and j: "j \<noteq> -1"
  then have "i \<noteq> -1" by (metis word_order.extremum_unique)
  then have "unat (i + 1) = Suc (unat i)" by (rule unat_inc_u32)
  with le show ?thesis
    by (simp add: id_range_def word_le_nat_alt upt_conv_Cons del: upt_Suc)
qed

lemma id_range_Nil: "j < i \<Longrightarrow> id_range i j = []"
  by (simp add: id_range_def word_less_nat_alt)

lemma set_id_range: "set (id_range i j) = {k. i \<le> k \<and> k \<le> j}"
proof -
  have "k \<in> set (id_range i j)" if "i \<le> k" "k \<le> j" for k :: u32
  proof -
    from that have "unat k \<in> {unat i..<Suc (unat j)}" by (simp add: word_le_nat_alt)
    then have "of_nat (unat k) \<in> set (id_range i j)"
      unfolding id_range_def set_map set_upt by (rule imageI)
    then show ?thesis by simp
  qed
  moreover have "i \<le> k \<and> k \<le> j" if "k \<in> set (id_range i j)" for k :: u32
  proof -
    from that obtain n where n: "unat i \<le> n" "n < Suc (unat j)" "k = of_nat n"
      by (auto simp: id_range_def simp del: upt_Suc)
    moreover have "unat j < 2 ^ LENGTH(32)" by (rule unsigned_less)
    ultimately have "unat k = n" by (simp add: unat_of_nat)
    with n show ?thesis by (simp add: word_le_nat_alt)
  qed
  ultimately show ?thesis by blast
qed

lemma pending_step:
  assumes "i \<le> txwrite st" and "txwrite st \<noteq> -1"
  shows "pending st i =
    (case find_transaction st i of None \<Rightarrow> pending st (i + 1)
     | Some tx \<Rightarrow> tx # pending st (i + 1))"
  using assms by (simp add: pending_def id_range_Cons List.map_filter_simps split: option.split)

lemma pending_empty: "txwrite st < i \<Longrightarrow> pending st i = []"
  by (simp add: pending_def id_range_Nil List.map_filter_simps)

lemma pending_cong:
  assumes "txwrite st' = txwrite st"
    and "\<And>j. i \<le> j \<Longrightarrow> find_transaction st' j = find_transaction st j"
  shows "pending st' i = pending st i"
proof -
  have "List.map_filter (find_transaction st') xs = List.map_filter (find_transaction st) xs"
    if "set xs \<subseteq> {k. i \<le> k}" for xs
    using that assms(2)
    by (induction xs) (auto simp: List.map_filter_simps split: option.split)
  from this [of "id_range i (txwrite st)"] show ?thesis
    using assms(1) by (auto simp: pending_def set_id_range)
qed

lemma set_pending:
  "set (pending st i) = {tx. \<exists>k. i \<le> k \<and> k \<le> txwrite st \<and> find_transaction st k = Some tx}"
  by (force simp: pending_def List.map_filter_def set_id_range)


subsection \<open>Completion\<close>

lemma complete_loop_unfold:
  assumes "i \<le> txwrite st"
  shows "complete_loop i st calls =
    (case find_transaction st i of
       None \<Rightarrow> complete_loop (i + 1) st calls
     | Some tx \<Rightarrow>
         if refcnt tx > 0 then Some (st, calls)
         else complete_loop (i + 1) ((set_slot st i zero_transaction)\<lparr>txread := i + 1\<rparr>)
                (calls @ call_of tx))"
  using assms by (subst complete_loop.simps) simp

lemma complete_loop_stop: "txwrite st < i \<Longrightarrow> complete_loop i st calls = Some (st, calls)"
  by (subst complete_loop.simps) (simp add: word_le_nat_alt word_less_nat_alt)

lemma pending_clear_slot:
  assumes "find_transaction st i = Some tx" and "i < j"
  shows "pending ((set_slot st i zero_transaction)\<lparr>txread := r\<rparr>) j = pending st j"
proof (rule pending_cong)
  show "txwrite ((set_slot st i zero_transaction)\<lparr>txread := r\<rparr>) = txwrite st"
    by (simp add: frame)
next
  fix k assume "j \<le> k"
  with assms(2) have "k \<noteq> i" by auto
  with assms(1) show "find_transaction ((set_slot st i zero_transaction)\<lparr>txread := r\<rparr>) k
      = find_transaction st k"
    using find_set_slot [of i zero_transaction st tx k] find_transaction_id [OF assms(1)]
    by (simp add: zero_transaction_def find_transaction_cong [of "_\<lparr>txread := r\<rparr>"])
qed

text \<open>
  The loop refines the two list functions \<open>takeWhile\<close> and \<open>dropWhile\<close> on the pending
  transactions; it returns whenever \<open>txwrite\<close> is not the largest \<open>uint32_t\<close>.
\<close>

definition next_read :: "u32 \<Rightarrow> 'cb transaction list \<Rightarrow> u32" where
  "next_read r done = (if done = [] then r else tx_id (last done) + 1)"

lemma complete_loop_refines:
  assumes "txwrite st \<noteq> -1"
  shows "\<exists>st'. complete_loop i st calls =
       Some (st', calls @ concat (map call_of (takeWhile tx_done (pending st i))))
     \<and> pending st' i = dropWhile tx_done (pending st i)
     \<and> txwrite st' = txwrite st \<and> tx_count st' = tx_count st
     \<and> txread st' = next_read (txread st) (takeWhile tx_done (pending st i))
     \<and> (\<forall>k. find_transaction st' k =
          (if k \<in> tx_id ` set (takeWhile tx_done (pending st i)) then None
           else find_transaction st k))"
  using assms
proof (induction "Suc (unat (txwrite st)) - unat i" arbitrary: i st calls)
  case 0
  then have "txwrite st < i" by (simp add: word_less_nat_alt)
  then show ?case by (simp add: complete_loop_stop pending_empty next_read_def)
next
  case (Suc n)
  from Suc.hyps(2) have le: "i \<le> txwrite st" by (simp add: word_le_nat_alt)
  with Suc.prems have ni: "i \<noteq> -1" by (metis word_order.extremum_unique)
  then have n: "n = Suc (unat (txwrite st)) - unat (i + 1)"
    using Suc.hyps(2) by (simp add: unat_inc_u32)
  note step = pending_step [OF le Suc.prems]
  show ?case
  proof (cases "find_transaction st i")
    case None
    have "pending st' i = pending st' (i + 1)"
      if "txwrite st' = txwrite st" "find_transaction st' i = None" for st' :: "'a txstate"
      using that le Suc.prems by (simp add: pending_step)
    with None Suc.hyps(1) [OF n Suc.prems, of calls] show ?thesis
      by (auto simp: complete_loop_unfold [OF le] step)
  next
    case (Some tx)
    show ?thesis
    proof (cases "refcnt tx > 0")
      case True
      with Some show ?thesis
        by (simp add: complete_loop_unfold [OF le] step tx_done_def next_read_def)
    next
      case False
      let ?st1 = "(set_slot st i zero_transaction)\<lparr>txread := i + 1\<rparr>"
      have find1: "find_transaction ?st1 k = (if k = i then None else find_transaction st k)" for k
        using find_set_slot [of i zero_transaction st tx k] find_transaction_id [OF Some] Some
        by (simp add: zero_transaction_def find_transaction_cong [of "_\<lparr>txread := i + 1\<rparr>"])
      have pend1: "pending ?st1 (i + 1) = pending st (i + 1)"
        using Some less_inc_u32 [OF ni] by (rule pending_clear_slot)
      have skip: "pending st' i = pending st' (i + 1)"
        if "txwrite st' = txwrite st" "find_transaction st' i = None" for st' :: "'a txstate"
        using that le Suc.prems by (simp add: pending_step)
      have "n = Suc (unat (txwrite ?st1)) - unat (i + 1)" "txwrite ?st1 \<noteq> -1"
        using n Suc.prems by (simp_all add: frame)
      from Suc.hyps(1) [OF this, of "calls @ call_of tx"] obtain st' where IH:
        "complete_loop (i + 1) ?st1 (calls @ call_of tx) =
           Some (st', (calls @ call_of tx) @
             concat (map call_of (takeWhile tx_done (pending st (i + 1)))))"
        "pending st' (i + 1) = dropWhile tx_done (pending st (i + 1))"
        "txwrite st' = txwrite st" "tx_count st' = tx_count st"
        "txread st' = next_read (i + 1) (takeWhile tx_done (pending st (i + 1)))"
        "\<forall>k. find_transaction st' k =
           (if k \<in> tx_id ` set (takeWhile tx_done (pending st (i + 1))) then None
            else find_transaction ?st1 k)"
        unfolding pend1 by (auto simp: frame)
      have "find_transaction st' i = None" using IH(6) find1 by simp
      with IH(2,3) have "pending st' i = dropWhile tx_done (pending st (i + 1))"
        by (simp add: skip)
      moreover have "tx_id tx = i" using find_transaction_id [OF Some] by simp
      ultimately show ?thesis
        using Some False IH(1,3-6) find1
        by (auto simp: complete_loop_unfold [OF le] step tx_done_def next_read_def)
    qed
  qed
qed

subsection \<open>Invariant\<close>

text \<open>
  \<open>tx_inv\<close>: every live slot holds an id between \<open>txread\<close> and \<open>txwrite\<close>, and both counters stay
  behind the id generator.  The id generator must not wrap around, which is the side condition
  \<open>tx_count st < -2\<close> of the creation step.
\<close>

definition tx_inv :: "'cb txstate \<Rightarrow> bool" where
  "tx_inv st \<longleftrightarrow>
     txread st \<noteq> 0 \<and> txread st \<le> txwrite st + 1 \<and> txwrite st \<le> tx_count st \<and>
     tx_count st \<noteq> -1 \<and>
     (\<forall>i tx. find_transaction st i = Some tx \<longrightarrow> txread st \<le> i \<and> i \<le> txwrite st) \<and>
     (\<forall>n. tx_id (transactions st n) \<noteq> 0 \<longrightarrow> TX_HASH_INDEX (tx_id (transactions st n)) = n)"

lemma tx_invD:
  assumes "tx_inv st"
  shows "txread st \<noteq> 0" "txread st \<le> txwrite st + 1" "txwrite st \<le> tx_count st"
    "tx_count st \<noteq> -1" "txwrite st \<noteq> -1"
    "find_transaction st i = Some tx \<Longrightarrow> txread st \<le> i"
    "find_transaction st i = Some tx \<Longrightarrow> i \<le> txwrite st"
  using assms by (auto simp: tx_inv_def)

lemma tx_inv_init: "tx_inv init_txstate"
  by (simp add: tx_inv_def init_txstate_def zero_transaction_def find_transaction_def
      NO_TRANSACTION_def)

lemma slots_set_slot:
  assumes "\<forall>n. tx_id (transactions st n) \<noteq> 0 \<longrightarrow> TX_HASH_INDEX (tx_id (transactions st n)) = n"
    and "tx_id tx = i \<or> tx_id tx = 0"
  shows "\<forall>n. tx_id (transactions (set_slot st i tx) n) \<noteq> 0 \<longrightarrow>
    TX_HASH_INDEX (tx_id (transactions (set_slot st i tx) n)) = n"
  using assms by (auto simp: set_slot_def)

lemma complete_loop_slots:
  assumes "\<forall>n. tx_id (transactions st n) \<noteq> 0 \<longrightarrow> TX_HASH_INDEX (tx_id (transactions st n)) = n"
    and "complete_loop i st calls = Some (st', calls')"
  shows "\<forall>n. tx_id (transactions st' n) \<noteq> 0 \<longrightarrow> TX_HASH_INDEX (tx_id (transactions st' n)) = n"
proof -
  let ?P = "\<lambda>st. \<forall>n. tx_id (transactions st n) \<noteq> 0 \<longrightarrow>
    TX_HASH_INDEX (tx_id (transactions st n)) = n"
  have "?P st \<longrightarrow> ?P (fst r)" if "complete_loop i st calls = Some r" for r
  proof (rule complete_loop.raw_induct [where P = "\<lambda>i st calls r. ?P st \<longrightarrow> ?P (fst r)", OF _ that])
    fix loop :: "u32 \<Rightarrow> 'a txstate \<Rightarrow> 'a tx_call list \<Rightarrow> ('a txstate \<times> 'a tx_call list) option"
    fix i st calls r
    assume IH: "\<And>i st calls r. loop i st calls = Some r \<Longrightarrow> ?P st \<longrightarrow> ?P (fst r)"
      and eq: "(if i \<le> txwrite st
        then case find_transaction st i of None \<Rightarrow> loop (i + 1) st calls
             | Some tx \<Rightarrow> if 0 < refcnt tx then Some (st, calls)
                 else loop (i + 1) (set_slot st i zero_transaction\<lparr>txread := i + 1\<rparr>)
                        (calls @ call_of tx)
        else Some (st, calls)) = Some r"
    show "?P st \<longrightarrow> ?P (fst r)"
    proof
      assume P: "?P st"
      have "?P (set_slot st i zero_transaction\<lparr>txread := i + 1\<rparr>)"
        using slots_set_slot [OF P, of zero_transaction i] by (simp add: zero_transaction_def)
      with P eq IH show "?P (fst r)"
        by (auto split: if_splits option.splits)
    qed
  qed
  with assms show ?thesis by fastforce
qed


subsection \<open>Creation\<close>

definition fresh_transaction :: "u32 \<Rightarrow> 'cb option \<Rightarrow> 'cb transaction" where
  "fresh_transaction txid cb = zero_transaction\<lparr>tx_id := txid, refcnt := 1, completion := cb\<rparr>"

lemma find_create:
  assumes "tx_id (transactions st (TX_HASH_INDEX (tx_count st + 1))) = 0"
    and "tx_count st \<noteq> -1"
  shows "find_transaction (snd (transaction_create cb st)) k =
    (if k = tx_count st + 1 then Some (fresh_transaction k cb) else find_transaction st k)"
  using assms
  by (auto simp: find_transaction_def transaction_create_def set_slot_def fresh_transaction_def
      NO_TRANSACTION_def Let_def)

lemma create_fields:
  "tx_count (snd (transaction_create cb st)) = tx_count st + 1"
  "txread (snd (transaction_create cb st)) = txread st"
  "txwrite (snd (transaction_create cb st)) =
    (if tx_id (transactions st (TX_HASH_INDEX (tx_count st + 1))) = 0 then tx_count st + 1
     else txwrite st)"
  by (simp_all add: transaction_create_def frame NO_TRANSACTION_def Let_def)

lemma create_slots:
  assumes "\<forall>n. tx_id (transactions st n) \<noteq> 0 \<longrightarrow> TX_HASH_INDEX (tx_id (transactions st n)) = n"
  shows "\<forall>n. tx_id (transactions (snd (transaction_create cb st)) n) \<noteq> 0 \<longrightarrow>
    TX_HASH_INDEX (tx_id (transactions (snd (transaction_create cb st)) n)) = n"
  using assms by (auto simp: transaction_create_def set_slot_def Let_def)

lemma find_create_fail:
  assumes "tx_id (transactions st (TX_HASH_INDEX (tx_count st + 1))) \<noteq> 0"
  shows "find_transaction (snd (transaction_create cb st)) = find_transaction st"
    and "fst (transaction_create cb st) = NO_TRANSACTION"
  using assms
  by (auto simp: transaction_create_def NO_TRANSACTION_def Let_def find_transaction_def fun_eq_iff)

lemma tx_inv_create:
  assumes inv: "tx_inv st" and room: "tx_count st < -2"
  shows "tx_inv (snd (transaction_create cb st))"
proof -
  note D = tx_invD [OF inv]
  have c1: "tx_count st + 1 \<noteq> -1"
  proof
    assume "tx_count st + 1 = -1"
    then have "tx_count st = -1 - 1" by (metis add_diff_cancel_right')
    with room show False by simp
  qed
  have lt: "tx_count st < tx_count st + 1" using D(4) by (rule less_inc_u32)
  have rd: "txread st \<le> txwrite st + 1" "txwrite st + 1 \<le> tx_count st + 1"
    using D by (auto simp: inc_le_iff_u32 less_inc_iff_u32)
  show ?thesis
  proof (cases "tx_id (transactions st (TX_HASH_INDEX (tx_count st + 1))) = 0")
    case True
    have "txread st \<le> tx_count st + 1 + 1"
      using rd less_inc_u32 [OF c1] by (meson order.trans less_imp_le)
    moreover have "txread st \<le> tx_count st + 1" using rd by (rule order.trans)
    moreover have "txread st \<le> i \<and> i \<le> tx_count st + 1"
      if "find_transaction st i = Some tx" for i tx
      using D(3,6,7) that lt by (meson order.trans less_imp_le)
    ultimately show ?thesis
      unfolding tx_inv_def create_fields find_create [OF True D(4)]
      using True c1 D(1) create_slots [of st cb] inv
      by (auto simp: tx_inv_def)
  next
    case False
    have "txwrite st \<le> tx_count st + 1" using D(3) lt by (meson order.trans less_imp_le)
    then show ?thesis
      unfolding tx_inv_def create_fields find_create_fail(1) [OF False]
      using False c1 D(1,2,6,7) create_slots [of st cb] inv
      by (auto simp: tx_inv_def)
  qed
qed

subsection \<open>Release\<close>

lemma pending_txread:
  "tx_inv st \<Longrightarrow> set (pending st (txread st)) = {tx. \<exists>k. find_transaction st k = Some tx}"
  by (auto simp: set_pending dest: tx_invD(6,7))

lemma map_tx_id_pending:
  "map tx_id (pending st i) =
    filter (\<lambda>k. find_transaction st k \<noteq> None) (id_range i (txwrite st))"
proof -
  have "tx_id (the (find_transaction st k)) = k" if "find_transaction st k \<noteq> None" for k
    using that by (auto dest: find_transaction_id)
  then show ?thesis
    by (auto simp: pending_def List.map_filter_def intro!: map_idI)
qed

lemma sorted_id_range: "sorted_wrt (<) (id_range i j)"
proof -
  have "of_nat m < (of_nat n :: u32)" if "m < n" "n < Suc (unat j)" for m n
  proof -
    have "unat j < 2 ^ LENGTH(32)" by (rule unsigned_less)
    with that show ?thesis by (simp add: word_less_nat_alt unat_of_nat)
  qed
  then show ?thesis
    unfolding id_range_def sorted_wrt_map
    by (intro sorted_wrt_mono_rel [OF _ sorted_wrt_upt]) auto
qed

lemma sorted_pending: "sorted_wrt (<) (map tx_id (pending st i))"
  unfolding map_tx_id_pending by (rule sorted_wrt_filter) (rule sorted_id_range)

lemma pending_below:
  assumes inv: "tx_inv st" and "i \<le> txread st"
  shows "pending st i = pending st (txread st)"
  using assms(2)
proof (induction "unat (txread st) - unat i" arbitrary: i)
  case 0
  then have "i = txread st" by (simp add: word_le_nat_alt word_unat_eq_iff)
  then show ?case by simp
next
  case (Suc n)
  then have lt: "i < txread st" by (auto simp: word_le_nat_alt word_less_nat_alt)
  then have ni: "i \<noteq> -1" by (metis word_order.extremum_strict)
  have "i < txwrite st + 1"
    using lt tx_invD(2) [OF inv] by (rule less_le_trans)
  then have "i \<le> txwrite st"
    by (simp only: less_inc_iff_u32 [OF tx_invD(5) [OF inv]])
  moreover have "find_transaction st i = None"
    using lt tx_invD(6) [OF inv, of i] by (cases "find_transaction st i") auto
  ultimately have "pending st i = pending st (i + 1)"
    using tx_invD(5) [OF inv] by (simp add: pending_step [of i st])
  also have "\<dots> = pending st (txread st)"
  proof (rule Suc.hyps(1))
    show "n = unat (txread st) - unat (i + 1)"
      unfolding unat_inc_u32 [OF ni] using Suc.hyps(2) by linarith
    show "i + 1 \<le> txread st" using lt by (rule inc_u32_le)
  qed
  finally show ?case .
qed

text \<open>Replacing a live slot by one with the same id changes one element of the pending list.\<close>

definition dec_ref :: "u32 \<Rightarrow> 'cb transaction list \<Rightarrow> 'cb transaction list" where
  "dec_ref txid =
     map (\<lambda>tx. if tx_id tx = txid then tx\<lparr>refcnt := refcnt tx - 1\<rparr> else tx)"

lemma pending_set_slot:
  assumes "find_transaction st k = Some tx" and "tx_id tx' = k" and "k \<noteq> 0"
  shows "pending (set_slot st k tx') i =
    map (\<lambda>t. if tx_id t = k then tx' else t) (pending st i)"
proof -
  have upd: "find_transaction (set_slot st k tx') j =
      (if j = k then Some tx' else find_transaction st j)" for j
    using assms find_set_slot [of k tx' st tx j] by auto
  have "List.map_filter (find_transaction (set_slot st k tx')) xs =
      map (\<lambda>t. if tx_id t = k then tx' else t) (List.map_filter (find_transaction st) xs)" for xs
    using assms by (induction xs) (auto simp: upd dest: find_transaction_id split: option.split)
  then show ?thesis by (simp add: pending_def frame)
qed

lemma tx_inv_set_slot:
  assumes inv: "tx_inv st" and f: "find_transaction st k = Some tx" and i: "tx_id tx' = k"
  shows "tx_inv (set_slot st k tx')"
proof -
  have "k \<noteq> 0" using find_transaction_id [OF f] by simp
  then have upd: "find_transaction (set_slot st k tx') j =
      (if j = k then Some tx' else find_transaction st j)" for j
    using assms find_set_slot [of k tx' st tx j] by auto
  have "\<forall>n. tx_id (transactions (set_slot st k tx') n) \<noteq> 0 \<longrightarrow>
      TX_HASH_INDEX (tx_id (transactions (set_slot st k tx') n)) = n"
    using inv i by (intro slots_set_slot) (auto simp: tx_inv_def)
  with inv f show ?thesis by (simp add: tx_inv_def frame upd)
qed

lemma next_read_bounds:
  assumes inv: "tx_inv st" and d: "ys = takeWhile tx_done (pending st (txread st))"
  shows "txread st \<le> next_read (txread st) ys"
    and "next_read (txread st) ys \<le> txwrite st + 1"
    and "next_read (txread st) ys \<noteq> 0"
    and "tx \<in> set ys \<Longrightarrow> tx_id tx < next_read (txread st) ys"
    and "tx \<in> set (dropWhile tx_done (pending st (txread st))) \<Longrightarrow>
      next_read (txread st) ys \<le> tx_id tx"
proof -
  let ?zs = "dropWhile tx_done (pending st (txread st))"
  have split: "pending st (txread st) = ys @ ?zs" by (simp add: d)
  have ids: "txread st \<le> tx_id t \<and> tx_id t \<le> txwrite st" if "t \<in> set (pending st (txread st))" for t
    using that by (auto simp: set_pending dest: find_transaction_id)
  have w: "tx_id t \<noteq> -1" if "t \<in> set (pending st (txread st))" for t
    using ids [OF that] tx_invD(5) [OF inv] by (metis word_order.extremum_unique)
  have srt: "sorted_wrt (<) (map tx_id ys @ map tx_id ?zs)"
    using sorted_pending [of st "txread st"] split by (metis map_append)
  show "txread st \<le> next_read (txread st) ys"
  proof (cases "ys = []")
    case False
    then have "last ys \<in> set (pending st (txread st))" using split by (metis UnCI last_in_set set_append)
    with ids w have "txread st \<le> tx_id (last ys)" "tx_id (last ys) < tx_id (last ys) + 1"
      by (auto intro: less_inc_u32)
    with False show ?thesis by (simp add: next_read_def)
  qed (simp add: next_read_def)
  show "next_read (txread st) ys \<le> txwrite st + 1"
  proof (cases "ys = []")
    case False
    then have "last ys \<in> set (pending st (txread st))" using split by (metis UnCI last_in_set set_append)
    with ids w False show ?thesis
      using tx_invD(5) [OF inv] by (auto simp: next_read_def inc_le_iff_u32 less_inc_iff_u32)
  qed (simp add: next_read_def tx_invD [OF inv])
  show "next_read (txread st) ys \<noteq> 0"
  proof (cases "ys = []")
    case False
    then have "last ys \<in> set (pending st (txread st))" using split by (metis UnCI last_in_set set_append)
    with w False show ?thesis by (simp add: next_read_def)
  qed (simp add: next_read_def tx_invD [OF inv])
  show "tx_id tx < next_read (txread st) ys" if "tx \<in> set ys"
  proof -
    from that obtain us l where ys: "ys = us @ [l]" by (metis empty_iff empty_set rev_exhaust)
    have "l \<in> set (pending st (txread st))" by (subst split) (simp add: ys)
    then have "tx_id l \<noteq> -1" by (rule w)
    moreover have "tx_id tx \<le> tx_id l"
      using that srt ys by (auto simp: sorted_wrt_append intro: less_imp_le)
    ultimately show ?thesis using ys by (simp add: next_read_def less_inc_iff_u32)
  qed
  show "next_read (txread st) ys \<le> tx_id tx" if "tx \<in> set ?zs"
  proof (cases "ys = []")
    case True
    with that split ids show ?thesis by (simp add: next_read_def)
  next
    case False
    then have l: "last ys \<in> set ys" by simp
    with srt that have "tx_id (last ys) < tx_id tx" by (auto simp: sorted_wrt_append)
    with False show ?thesis by (simp add: next_read_def inc_u32_le)
  qed
qed

subsection \<open>Releasing a reference\<close>

lemma tx_inv_complete:
  assumes inv: "tx_inv st" and r: "complete_loop (txread st) st [] = Some (st', calls)"
  shows "tx_inv st'" and "pending st' (txread st') = dropWhile tx_done (pending st (txread st))"
    and "calls = concat (map call_of (takeWhile tx_done (pending st (txread st))))"
    and "txread st' = next_read (txread st) (takeWhile tx_done (pending st (txread st)))"
    and "tx_count st' = tx_count st" and "txwrite st' = txwrite st"
proof -
  let ?ys = "takeWhile tx_done (pending st (txread st))"
  obtain s2 where s2:
    "complete_loop (txread st) st [] = Some (s2, [] @ concat (map call_of ?ys))"
    "pending s2 (txread st) = dropWhile tx_done (pending st (txread st))"
    "txwrite s2 = txwrite st" "tx_count s2 = tx_count st"
    "txread s2 = next_read (txread st) ?ys"
    "\<forall>k. find_transaction s2 k =
       (if k \<in> tx_id ` set ?ys then None else find_transaction st k)"
    using complete_loop_refines [OF tx_invD(5) [OF inv]] by blast
  have st': "s2 = st'" and calls: "calls = concat (map call_of ?ys)"
    using r s2(1) by simp_all
  note R = s2(2-6) [unfolded st']
  show "calls = concat (map call_of ?ys)" by (rule calls)
  show wr: "txwrite st' = txwrite st" and cnt: "tx_count st' = tx_count st"
    and rd: "txread st' = next_read (txread st) ?ys" by (rule R)+
  have fnd: "find_transaction st' k =
      (if k \<in> tx_id ` set ?ys then None else find_transaction st k)" for k using R(5) by blast
  note B = next_read_bounds [OF inv refl]
  have live: "next_read (txread st) ?ys \<le> k \<and> k \<le> txwrite st"
    if k: "find_transaction st' k = Some tx" for k tx
  proof -
    from k have f: "find_transaction st k = Some tx" and nk: "k \<notin> tx_id ` set ?ys"
      by (auto simp: fnd split: if_splits)
    then have "tx \<in> set (pending st (txread st))" and id: "tx_id tx = k"
      using pending_txread [OF inv] find_transaction_id [OF f] by auto
    have "set (pending st (txread st)) =
        set ?ys \<union> set (dropWhile tx_done (pending st (txread st)))"
      by (metis set_append takeWhile_dropWhile_id)
    with \<open>tx \<in> set (pending st (txread st))\<close> nk id
    have "tx \<in> set (dropWhile tx_done (pending st (txread st)))" by blast
    with B(5) id f tx_invD(7) [OF inv] show ?thesis by blast
  qed
  have "\<forall>n. tx_id (transactions st' n) \<noteq> 0 \<longrightarrow> TX_HASH_INDEX (tx_id (transactions st' n)) = n"
    using inv by (intro complete_loop_slots [OF _ r]) (simp add: tx_inv_def)
  then show inv': "tx_inv st'"
    unfolding tx_inv_def rd wr cnt
    using live B(2,3) tx_invD(3,4) [OF inv] by blast
  have "pending st' (txread st) = pending st' (txread st')"
    using B(1) by (intro pending_below [OF inv']) (simp add: rd)
  with R(1) show "pending st' (txread st') = dropWhile tx_done (pending st (txread st))"
    by metis
qed

lemma complete_loop_returns:
  "tx_inv st \<Longrightarrow> \<exists>st' calls. complete_loop (txread st) st [] = Some (st', calls)"
  using complete_loop_refines [of st "txread st" "[]"] by (auto dest: tx_invD(5))

lemma unref_refines:
  assumes inv: "tx_inv st" and f: "find_transaction st txid = Some tx" and r: "refcnt tx > 0"
    and p: "p = dec_ref txid (pending st (txread st))"
  shows "\<exists>st' calls. transaction_unref txid st = Some (True, st', calls) \<and> tx_inv st' \<and>
    tx_count st' = tx_count st \<and> txwrite st' = txwrite st \<and>
    (if txid = txread st \<and> refcnt tx = 1
     then calls = concat (map call_of (takeWhile tx_done p)) \<and>
       pending st' (txread st') = dropWhile tx_done p \<and>
       txread st' = next_read (txread st) (takeWhile tx_done p) \<and>
       (\<forall>t \<in> set (takeWhile tx_done p). txread st \<le> tx_id t \<and> tx_id t < txread st')
     else calls = [] \<and> pending st' (txread st') = p \<and> txread st' = txread st)"
proof -
  let ?tx' = "tx\<lparr>refcnt := refcnt tx - 1\<rparr>"
  let ?st1 = "set_slot st txid ?tx'"
  have i: "tx_id tx = txid" "txid \<noteq> 0" using find_transaction_id [OF f] by simp_all
  have inv1: "tx_inv ?st1" using inv f i by (intro tx_inv_set_slot) simp_all
  have same: "t = tx" if "t \<in> set (pending st (txread st))" "tx_id t = txid" for t
    using that f find_transaction_id unfolding set_pending by fastforce
  have p1: "pending ?st1 (txread ?st1) = p"
    using same i f
    by (simp add: frame pending_set_slot p dec_ref_def)
  show ?thesis
  proof (cases "txid = txread st \<and> refcnt tx = 1")
    case True
    obtain st' calls where c: "complete_loop (txread ?st1) ?st1 [] = Some (st', calls)"
      using complete_loop_returns [OF inv1] by blast
    note C = tx_inv_complete [OF inv1 c, unfolded p1]
    have "transaction_unref txid st = Some (True, st', calls)"
      using True f c by (simp add: transaction_unref_def complete_transaction_def frame Let_def)
    moreover have "txread st \<le> tx_id t \<and> tx_id t < txread st'"
      if t: "t \<in> set (takeWhile tx_done p)" for t
    proof
      have "t \<in> set (pending ?st1 (txread ?st1))" using t p1 by (auto dest: set_takeWhileD)
      then show "txread st \<le> tx_id t"
        by (auto simp: frame set_pending dest: find_transaction_id)
      show "tx_id t < txread st'"
        using next_read_bounds(4) [OF inv1 refl] t p1 C(4) by simp
    qed
    ultimately show ?thesis using True C by (simp add: frame)
  next
    case False
    with f r i inv1 p1 show ?thesis
      by (auto simp: transaction_unref_def complete_transaction_def frame Let_def)
  qed
qed

text \<open>Every operation keeps the invariant; an \<open>unref\<close> of a dead or released id changes nothing.\<close>

lemma unref_rejects:
  assumes "find_transaction st txid = None \<or>
    (\<exists>tx. find_transaction st txid = Some tx \<and> refcnt tx \<le> 0)"
  shows "transaction_unref txid st = Some (False, st, [])"
  using assms by (auto simp: transaction_unref_def)

lemma unref_total:
  assumes "tx_inv st"
  shows "\<exists>ok st' calls. transaction_unref txid st = Some (ok, st', calls) \<and> tx_inv st'"
proof (cases "\<exists>tx. find_transaction st txid = Some tx \<and> refcnt tx > 0")
  case True
  then show ?thesis using unref_refines [OF assms] by blast
next
  case False
  then have "transaction_unref txid st = Some (False, st, [])"
    by (cases "find_transaction st txid") (auto simp: transaction_unref_def)
  with assms show ?thesis by blast
qed

lemma add_resource_set_id: "tx_id (snd (add_resource_set mem rsid tx)) = tx_id tx"
  by (simp add: add_resource_set_def Let_def)

lemma tx_inv_add:
  assumes "tx_inv st"
  shows "tx_inv (snd (transaction_add_resource_set mem txid rsid st))"
proof (cases "find_transaction st txid")
  case (Some tx)
  obtain ok tx' where a: "add_resource_set mem rsid tx = (ok, tx')" by fastforce
  then have "tx_id tx' = txid"
    using add_resource_set_id [of mem rsid tx] find_transaction_id [OF Some] by simp
  with a Some assms show ?thesis
    by (simp add: transaction_add_resource_set_def tx_inv_set_slot)
qed (use assms in \<open>simp add: transaction_add_resource_set_def\<close>)

lemma tx_inv_ref:
  assumes "tx_inv st"
  shows "tx_inv (snd (transaction_ref txid st))"
  using assms
  by (auto simp: transaction_ref_def intro!: tx_inv_set_slot dest: find_transaction_id
      split: option.split)

subsection \<open>Runs\<close>

datatype 'cb tx_op =
    Op_create "'cb option"
  | Op_add bool u32 u32
  | Op_ref u32
  | Op_unref u32

fun tx_step :: "'cb tx_op \<Rightarrow> 'cb txstate \<Rightarrow> ('cb txstate \<times> 'cb tx_call list) option" where
  "tx_step (Op_create cb) st = Some (snd (transaction_create cb st), [])"
| "tx_step (Op_add mem txid rsid) st = Some (snd (transaction_add_resource_set mem txid rsid st), [])"
| "tx_step (Op_ref txid) st = Some (snd (transaction_ref txid st), [])"
| "tx_step (Op_unref txid) st =
     map_option (\<lambda>(_, st', calls). (st', calls)) (transaction_unref txid st)"

fun tx_run :: "'cb tx_op list \<Rightarrow> 'cb txstate \<Rightarrow> ('cb txstate \<times> 'cb tx_call list) option" where
  "tx_run [] st = Some (st, [])"
| "tx_run (x # xs) st =
     (case tx_step x st of None \<Rightarrow> None
      | Some (st1, c1) \<Rightarrow> map_option (\<lambda>(st2, c2). (st2, c1 @ c2)) (tx_run xs st1))"

definition call_id :: "'cb tx_call \<Rightarrow> u32" where
  "call_id c = snd (snd c)"

lemma call_ids_sorted:
  "sorted_wrt (<) (map tx_id ys) \<Longrightarrow>
    sorted_wrt (<) (map call_id (concat (map call_of ys)))"
  by (induction ys) (auto simp: call_of_def call_id_def split: option.splits)

lemma call_ids_in: "c \<in> set (concat (map call_of ys)) \<Longrightarrow> call_id c \<in> tx_id ` set ys"
  by (auto simp: call_of_def call_id_def split: option.splits)

lemma map_tx_id_dec_ref: "map tx_id (dec_ref txid ts) = map tx_id ts"
  by (simp add: dec_ref_def)

lemma set_slot_counts:
  "tx_count (snd (transaction_add_resource_set mem txid rsid st)) = tx_count st"
  "txread (snd (transaction_add_resource_set mem txid rsid st)) = txread st"
  "tx_count (snd (transaction_ref txid st)) = tx_count st"
  "txread (snd (transaction_ref txid st)) = txread st"
  by (simp_all add: transaction_add_resource_set_def transaction_ref_def frame
      split: option.split prod.split)

lemma tx_unref_step:
  assumes inv: "tx_inv st"
  shows "\<exists>ok st' calls. transaction_unref txid st = Some (ok, st', calls) \<and> tx_inv st' \<and>
    tx_count st' = tx_count st \<and> txwrite st' = txwrite st \<and> txread st \<le> txread st' \<and>
    sorted_wrt (<) (map call_id calls) \<and>
    (\<forall>c \<in> set calls. txread st \<le> call_id c \<and> call_id c < txread st')"
proof (cases "\<exists>tx. find_transaction st txid = Some tx \<and> refcnt tx > 0")
  case True
  then obtain tx where tx: "find_transaction st txid = Some tx" "refcnt tx > 0" by blast
  let ?p = "dec_ref txid (pending st (txread st))"
  have "sorted_wrt (<) (map tx_id (takeWhile tx_done ?p))"
    using sorted_pending [of st "txread st"] map_tx_id_dec_ref [of txid "pending st (txread st)"]
    by (metis map_append sorted_wrt_append takeWhile_dropWhile_id)
  then have srt: "sorted_wrt (<) (map call_id (concat (map call_of (takeWhile tx_done ?p))))"
    by (rule call_ids_sorted)
  obtain st' calls where U: "transaction_unref txid st = Some (True, st', calls)" "tx_inv st'"
    "tx_count st' = tx_count st" "txwrite st' = txwrite st"
    "if txid = txread st \<and> refcnt tx = 1
     then calls = concat (map call_of (takeWhile tx_done ?p)) \<and>
       pending st' (txread st') = dropWhile tx_done ?p \<and>
       txread st' = next_read (txread st) (takeWhile tx_done ?p) \<and>
       (\<forall>t \<in> set (takeWhile tx_done ?p). txread st \<le> tx_id t \<and> tx_id t < txread st')
     else calls = [] \<and> pending st' (txread st') = ?p \<and> txread st' = txread st"
    using unref_refines [OF inv tx refl] by blast
  show ?thesis
  proof (cases "txid = txread st \<and> refcnt tx = 1")
    case False
    with U show ?thesis by auto
  next
    case True
    note T = U(5) [unfolded if_P [OF True]]
    from T have c: "calls = concat (map call_of (takeWhile tx_done ?p))"
      and n: "txread st' = next_read (txread st) (takeWhile tx_done ?p)"
      and b: "\<forall>t \<in> set (takeWhile tx_done ?p). txread st \<le> tx_id t \<and> tx_id t < txread st'"
      by blast+
    have "txread st \<le> txread st'"
    proof (cases "takeWhile tx_done ?p")
      case Nil
      then show ?thesis by (simp add: n next_read_def)
    next
      case (Cons t ts)
      with b show ?thesis by (metis list.set_intros(1) order.strict_trans1 order.strict_implies_order)
    qed
    moreover have "txread st \<le> call_id x \<and> call_id x < txread st'" if "x \<in> set calls" for x
      using call_ids_in [of x "takeWhile tx_done ?p"] that b unfolding c by auto
    ultimately show ?thesis using U(1-4) srt c by blast
  qed
next
  case False
  then have "transaction_unref txid st = Some (False, st, [])"
    by (cases "find_transaction st txid") (auto simp: transaction_unref_def)
  with inv show ?thesis by auto
qed

text \<open>One step of the table: it returns, keeps the invariant, never moves \<open>txread\<close> back, and
  completes only ids between the old and the new \<open>txread\<close>, in increasing order.\<close>

definition tx_room :: "nat \<Rightarrow> 'cb txstate \<Rightarrow> bool" where
  "tx_room n st \<longleftrightarrow> unat (tx_count st) + n < 2 ^ 32 - 1"

lemma tx_room_create: "tx_room (Suc n) st \<Longrightarrow> tx_count st < -2"
  by (simp add: tx_room_def word_less_nat_alt)

lemma tx_step_ok:
  assumes inv: "tx_inv st" and room: "tx_room (Suc n) st"
  shows "\<exists>st' calls. tx_step x st = Some (st', calls) \<and> tx_inv st' \<and> tx_room n st' \<and>
    txread st \<le> txread st' \<and> sorted_wrt (<) (map call_id calls) \<and>
    (\<forall>c \<in> set calls. txread st \<le> call_id c \<and> call_id c < txread st')"
proof (cases x)
  case (Op_create cb)
  have "tx_room n (snd (transaction_create cb st))"
    using room tx_invD(4) [OF inv] by (simp add: tx_room_def create_fields unat_inc_u32)
  with Op_create tx_inv_create [OF inv tx_room_create [OF room]] show ?thesis
    by (simp add: create_fields)
next
  case (Op_add mem txid rsid)
  with inv room show ?thesis by (simp add: tx_inv_add set_slot_counts tx_room_def)
next
  case (Op_ref txid)
  with inv room show ?thesis by (simp add: tx_inv_ref set_slot_counts tx_room_def)
next
  case (Op_unref txid)
  obtain ok st' calls where "transaction_unref txid st = Some (ok, st', calls)" "tx_inv st'"
    "tx_count st' = tx_count st" "txread st \<le> txread st'" "sorted_wrt (<) (map call_id calls)"
    "\<forall>c \<in> set calls. txread st \<le> call_id c \<and> call_id c < txread st'"
    using tx_unref_step [OF inv] by blast
  with Op_unref room show ?thesis by (simp add: tx_room_def)
qed

lemma tx_run_ok:
  assumes "tx_inv st" and "tx_room (length xs) st"
  shows "\<exists>st' calls. tx_run xs st = Some (st', calls) \<and> tx_inv st' \<and>
    sorted_wrt (<) (map call_id calls) \<and> (\<forall>c \<in> set calls. txread st \<le> call_id c)"
  using assms
proof (induction xs arbitrary: st)
  case Nil
  then show ?case by simp
next
  case (Cons x xs)
  obtain st1 c1 where one: "tx_step x st = Some (st1, c1)" "tx_inv st1" "tx_room (length xs) st1"
    "txread st \<le> txread st1" "sorted_wrt (<) (map call_id c1)"
    "\<forall>c \<in> set c1. txread st \<le> call_id c \<and> call_id c < txread st1"
    using tx_step_ok [OF Cons.prems(1), of "length xs" x] Cons.prems(2) by auto
  obtain st2 c2 where two: "tx_run xs st1 = Some (st2, c2)" "tx_inv st2"
    "sorted_wrt (<) (map call_id c2)" "\<forall>c \<in> set c2. txread st1 \<le> call_id c"
    using Cons.IH [OF one(2,3)] by blast
  have "sorted_wrt (<) (map call_id (c1 @ c2))"
    using one(5,6) two(3,4) by (auto simp: sorted_wrt_append intro: less_le_trans)
  moreover have "\<forall>c \<in> set (c1 @ c2). txread st \<le> call_id c"
    using one(4,6) two(4) by (auto intro: order.trans)
  ultimately show ?case using one(1) two(1,2) by simp
qed

text \<open>C1. Completions are delivered in the order of the transaction ids and at most once each:
  every history of fewer than \<open>2^32 - 1\<close> operations on the table returns, and the ids of the
  completion calls it makes are strictly increasing.\<close>

theorem completions_in_order:
  assumes "length xs < 2 ^ 32 - 1"
  shows "\<exists>st calls. tx_run xs init_txstate = Some (st, calls) \<and> tx_inv st \<and>
    sorted_wrt (<) (map call_id calls)"
proof -
  have "tx_room (length xs) init_txstate"
    using assms by (simp add: tx_room_def init_txstate_def NO_TRANSACTION_def)
  with tx_run_ok [OF tx_inv_init] show ?thesis by blast
qed

theorem completions_in_order_witness:
  "\<exists>st. tx_run [Op_create (Some CHR ''a''), Op_create (Some CHR ''b''), Op_unref 2, Op_unref 1]
       init_txstate = Some (st, [(CHR ''a'', [], 1), (CHR ''b'', [], 2)]) \<and> tx_inv st"
proof -
  let ?ops = "[Op_create (Some CHR ''a''), Op_create (Some CHR ''b''), Op_unref 2, Op_unref 1]"
  obtain st calls where r: "tx_run ?ops init_txstate = Some (st, calls)" "tx_inv st"
    using completions_in_order [of ?ops] by auto
  moreover have "map_option snd (tx_run ?ops init_txstate) =
      Some [(CHR ''a'', [], 1), (CHR ''b'', [], 2)]"
    by (simp add: init_txstate_def transaction_create_def transaction_unref_def set_slot_def
        find_transaction_def complete_transaction_def TX_HASH_INDEX_mod NO_TRANSACTION_def
        zero_transaction_def complete_loop.simps call_of_def Let_def)
  ultimately show ?thesis by simp
qed

subsection \<open>Progress without overflow\<close>

text \<open>
  \<open>contig\<close>: every id between \<open>txread\<close> and \<open>txwrite\<close> is live; as long as no creation has
  failed, \<open>txwrite\<close> is also the last id handed out.  \<open>head_busy\<close>: the oldest live transaction is still referenced, so no
  released transaction is left undelivered at the head.
\<close>

definition contig :: "'cb txstate \<Rightarrow> bool" where
  "contig st \<longleftrightarrow>
     {k. txread st \<le> k \<and> k \<le> txwrite st} \<subseteq> tx_id ` set (pending st (txread st))"

definition head_busy :: "'cb txstate \<Rightarrow> bool" where
  "head_busy st \<longleftrightarrow>
     (case pending st (txread st) of [] \<Rightarrow> True | tx # _ \<Rightarrow> \<not> tx_done tx)"

definition create_fails :: "'cb txstate \<Rightarrow> bool" where
  "create_fails st \<longleftrightarrow> fst (transaction_create None st) = NO_TRANSACTION"

lemma create_fails_iff:
  "tx_count st \<noteq> -1 \<Longrightarrow>
    create_fails st \<longleftrightarrow> tx_id (transactions st (TX_HASH_INDEX (tx_count st + 1))) \<noteq> 0"
  by (simp add: create_fails_def transaction_create_def NO_TRANSACTION_def Let_def)

lemma pending_create:
  assumes inv: "tx_inv st" and w: "txwrite st = tx_count st"
    and ok: "\<not> create_fails st"
  shows "pending (snd (transaction_create cb st)) (txread st) =
    pending st (txread st) @ [fresh_transaction (tx_count st + 1) cb]"
proof -
  note D = tx_invD [OF inv]
  have slot: "tx_id (transactions st (TX_HASH_INDEX (tx_count st + 1))) = 0"
    using ok create_fails_iff [OF D(4)] by simp
  note find = find_create [OF slot D(4)]
  have rng: "id_range (txread st) (tx_count st + 1) = id_range (txread st) (tx_count st) @ [tx_count st + 1]"
  proof -
    have "unat (txread st) \<le> Suc (unat (tx_count st))"
      using D(2) w unat_inc_u32 [OF D(4)] by (simp add: word_le_nat_alt)
    moreover have "of_nat (Suc (unat (tx_count st))) = tx_count st + 1" by simp
    ultimately show ?thesis
      unfolding id_range_def unat_inc_u32 [OF D(4)] by (simp add: upt_Suc_append [symmetric])
  qed
  have "List.map_filter (find_transaction (snd (transaction_create cb st))) xs =
      List.map_filter (find_transaction st) xs" if "tx_count st + 1 \<notin> set xs" for xs
    using that by (induction xs) (auto simp: find split: option.split)
  moreover have "tx_count st + 1 \<notin> set (id_range (txread st) (tx_count st))"
    using less_inc_u32 [OF D(4)] by (auto simp: set_id_range)
  ultimately show ?thesis
    by (simp add: pending_def create_fields slot w rng List.map_filter_def find)
qed

lemma contig_create:
  assumes inv: "tx_inv st" and w: "txwrite st = tx_count st"
    and c: "contig st" "head_busy st" and ok: "\<not> create_fails st"
  shows "contig (snd (transaction_create cb st)) \<and> head_busy (snd (transaction_create cb st))"
proof -
  have slot: "tx_id (transactions st (TX_HASH_INDEX (tx_count st + 1))) = 0"
    using ok create_fails_iff [OF tx_invD(4) [OF inv]] by simp
  note p = pending_create [OF inv w ok, of cb]
  have "k \<le> tx_count st \<or> k = tx_count st + 1" if "k \<le> tx_count st + 1" for k
    using that le_inc_u32_iff [OF tx_invD(4) [OF inv]] by blast
  moreover have "k \<in> tx_id ` set (pending st (txread st))" if "txread st \<le> k" "k \<le> tx_count st" for k
    using c(1) that w by (auto simp: contig_def)
  ultimately have "{k. txread st \<le> k \<and> k \<le> tx_count st + 1} \<subseteq>
      insert (tx_count st + 1) (tx_id ` set (pending st (txread st)))"
    by blast
  then have "contig (snd (transaction_create cb st))"
    by (simp add: contig_def create_fields slot p fresh_transaction_def)
  moreover have "head_busy (snd (transaction_create cb st))"
    using c(2) by (auto simp: head_busy_def create_fields p tx_done_def fresh_transaction_def
        split: list.splits)
  ultimately show ?thesis by blast
qed

lemma head_busy_dropWhile:
  "pending st (txread st) = dropWhile tx_done p \<Longrightarrow> head_busy st"
  by (auto simp: head_busy_def split: list.split dest: hd_dropWhile) (metis list.distinct(1) list.sel(1) hd_dropWhile)

lemma head_pending:
  assumes inv: "tx_inv st" and c: "contig st" and p: "pending st (txread st) = tx # ts"
  shows "tx_id tx = txread st"
proof -
  have "tx \<in> set (pending st (txread st))" using p by simp
  then have "txread st \<le> tx_id tx" "tx_id tx \<le> txwrite st"
    by (auto simp: set_pending dest: find_transaction_id)
  then have "txread st \<in> tx_id ` set (tx # ts)"
    using c p by (auto simp: contig_def intro: order.trans)
  moreover have "tx_id tx < tx_id t" if "t \<in> set ts" for t
    using sorted_pending [of st "txread st"] p that by simp
  ultimately show ?thesis using \<open>txread st \<le> tx_id tx\<close> by fastforce
qed

lemma contig_unref:
  assumes inv: "tx_inv st" and c: "contig st" "head_busy st"
    and u: "transaction_unref txid st = Some (ok, st', calls)"
  shows "contig st' \<and> head_busy st'"
proof (cases "\<exists>tx. find_transaction st txid = Some tx \<and> refcnt tx > 0")
  case False
  then have "st' = st" using u by (cases "find_transaction st txid") (auto simp: transaction_unref_def)
  with c show ?thesis by simp
next
  case True
  then obtain tx where tx: "find_transaction st txid = Some tx" "refcnt tx > 0" by blast
  let ?p = "dec_ref txid (pending st (txread st))"
  have R: "tx_inv st'" "tx_count st' = tx_count st" "txwrite st' = txwrite st"
    "if txid = txread st \<and> refcnt tx = 1
     then calls = concat (map call_of (takeWhile tx_done ?p)) \<and>
       pending st' (txread st') = dropWhile tx_done ?p \<and>
       txread st' = next_read (txread st) (takeWhile tx_done ?p) \<and>
       (\<forall>t \<in> set (takeWhile tx_done ?p). txread st \<le> tx_id t \<and> tx_id t < txread st')
     else calls = [] \<and> pending st' (txread st') = ?p \<and> txread st' = txread st"
    using unref_refines [OF inv tx refl] u by auto
  have ids: "tx_id ` set ?p = tx_id ` set (pending st (txread st))"
    using map_tx_id_dec_ref [of txid "pending st (txread st)"] by (metis list.set_map)
  show ?thesis
  proof (cases "txid = txread st \<and> refcnt tx = 1")
    case True
    note T = R(4) [unfolded if_P [OF True]]
    have mono: "txread st \<le> txread st'"
      using tx_unref_step [OF inv, of txid] u by auto
    have "k \<in> tx_id ` set (pending st' (txread st'))" if "txread st' \<le> k" "k \<le> txwrite st" for k
    proof -
      have "k \<in> tx_id ` set ?p" unfolding ids
        using c(1) that mono by (auto simp: contig_def intro: order.trans)
      moreover have "set ?p = set (takeWhile tx_done ?p) \<union> set (dropWhile tx_done ?p)"
        by (metis set_append takeWhile_dropWhile_id)
      moreover have "k \<notin> tx_id ` set (takeWhile tx_done ?p)"
        using T that(1) by (auto dest: bspec leD)
      ultimately show ?thesis using T by auto
    qed
    moreover have "head_busy st'" using T head_busy_dropWhile by blast
    ultimately show ?thesis using c(1) R(2,3) by (auto simp: contig_def)
  next
    case False
    note T = R(4) [unfolded if_not_P [OF False]]
    from T have rd: "txread st' = txread st" by blast
    with T have pe: "pending st' (txread st) = ?p" by simp
    have "contig st'" using c(1) unfolding contig_def rd pe ids R(2,3) .
    moreover have "head_busy st'"
    proof (cases "pending st (txread st)")
      case Nil
      with pe show ?thesis by (simp add: head_busy_def dec_ref_def rd)
    next
      case (Cons t ts)
      have id: "tx_id t = txread st" using head_pending [OF inv c(1) Cons] .
      have f: "find_transaction st (txread st) = Some t"
      proof -
        have "t \<in> set (pending st (txread st))" using Cons by simp
        then obtain k where "find_transaction st k = Some t" by (auto simp: set_pending)
        with id find_transaction_id [OF this] show ?thesis by simp
      qed
      have "\<not> tx_done t" using c(2) Cons by (simp add: head_busy_def)
      then have "\<not> tx_done (if tx_id t = txid then t\<lparr>refcnt := refcnt t - 1\<rparr> else t)"
      proof (cases "tx_id t = txid")
        case True
        then have eq: "txid = txread st" using id by simp
        then have "t = tx" using f tx(1) by simp
        then have "refcnt t \<noteq> 1" "refcnt t > 0" using False eq tx(2) by blast+
        with True show ?thesis by (simp add: tx_done_def)
      qed simp
      then show ?thesis
        unfolding head_busy_def rd pe Cons dec_ref_def list.map list.case .
    qed
    ultimately show ?thesis by blast
  qed
qed

lemma contig_set_slot:
  assumes "contig st" "head_busy st" and f: "find_transaction st k = Some tx"
    and i: "tx_id tx' = k" and r: "refcnt tx \<le> refcnt tx'"
  shows "contig (set_slot st k tx') \<and> head_busy (set_slot st k tx')"
proof -
  let ?f = "\<lambda>t. if tx_id t = k then tx' else t"
  have "k \<noteq> 0" using find_transaction_id [OF f] by simp
  then have p: "pending (set_slot st k tx') (txread st) = map ?f (pending st (txread st))"
    using f i by (simp add: pending_set_slot)
  have same: "t = tx" if "t \<in> set (pending st (txread st))" "tx_id t = k" for t
    using that f find_transaction_id unfolding set_pending by fastforce
  have ids: "tx_id ` set (map ?f xs) = tx_id ` set xs" for xs
  proof -
    have "tx_id \<circ> ?f = tx_id" using i by (simp add: fun_eq_iff)
    then show ?thesis by (simp only: list.set_map image_comp)
  qed
  have "contig (set_slot st k tx')"
    using assms(1) unfolding contig_def set_slot_fields p ids .
  moreover have "head_busy (set_slot st k tx')"
    using assms(2) r same by (fastforce simp: head_busy_def frame p tx_done_def split: list.splits)
  ultimately show ?thesis by blast
qed

lemma contig_add:
  assumes "contig st" "head_busy st"
  shows "contig (snd (transaction_add_resource_set mem txid rsid st)) \<and>
    head_busy (snd (transaction_add_resource_set mem txid rsid st))"
proof (cases "find_transaction st txid")
  case (Some tx)
  have "refcnt (snd (add_resource_set mem rsid tx)) = refcnt tx"
    by (simp add: add_resource_set_def Let_def)
  then show ?thesis
    using contig_set_slot [OF assms Some, of "snd (add_resource_set mem rsid tx)"]
      find_transaction_id [OF Some] Some
    by (simp add: transaction_add_resource_set_def split_beta add_resource_set_id)
qed (use assms in \<open>simp add: transaction_add_resource_set_def\<close>)

lemma contig_ref:
  assumes "contig st" "head_busy st"
  shows "contig (snd (transaction_ref txid st)) \<and> head_busy (snd (transaction_ref txid st))"
proof (cases "find_transaction st txid")
  case (Some tx)
  then show ?thesis
    using contig_set_slot [OF assms Some, of "tx\<lparr>refcnt := refcnt tx + 1\<rparr>"]
      find_transaction_id [OF Some]
    by (simp add: transaction_ref_def)
qed (use assms in \<open>simp add: transaction_ref_def\<close>)

text \<open>The states reachable without a failed creation.\<close>

inductive tx_reach :: "'cb txstate \<Rightarrow> bool" where
  tx_init: "tx_reach init_txstate"
| tx_next: "tx_reach st \<Longrightarrow> tx_room 1 st \<Longrightarrow> (\<And>cb. x = Op_create cb \<Longrightarrow> \<not> create_fails st) \<Longrightarrow>
    tx_step x st = Some (st', calls) \<Longrightarrow> tx_reach st'"

lemma init_fields:
  "txread init_txstate = 1" "txwrite init_txstate = 0" "tx_count init_txstate = 0"
  by (simp_all add: init_txstate_def NO_TRANSACTION_def)

lemma pending_init: "pending init_txstate 1 = []"
  by (rule pending_empty) (simp add: init_fields)

lemma tx_step_counts:
  assumes "tx_inv st" and "tx_step x st = Some (st', calls)" and "\<forall>cb. x \<noteq> Op_create cb"
  shows "txwrite st' = txwrite st \<and> tx_count st' = tx_count st"
proof (cases x)
  case (Op_unref txid)
  then obtain ok where u: "transaction_unref txid st = Some (ok, st', calls)" using assms(2) by auto
  then show ?thesis using tx_unref_step [OF assms(1), of txid] by auto
qed (use assms in \<open>auto simp: transaction_add_resource_set_def transaction_ref_def frame split_beta
    split: option.splits\<close>)

lemma contig_step:
  assumes "tx_inv st" "contig st" "head_busy st" and "tx_step x st = Some (st', calls)"
    and "\<forall>cb. x \<noteq> Op_create cb"
  shows "contig st' \<and> head_busy st'"
proof (cases x)
  case (Op_unref txid)
  then obtain ok where "transaction_unref txid st = Some (ok, st', calls)" using assms(4) by auto
  with assms(1-3) contig_unref show ?thesis by blast
qed (use assms in \<open>auto simp: contig_add contig_ref\<close>)

lemma tx_reach_inv:
  "tx_reach st \<Longrightarrow> tx_inv st \<and> contig st \<and> head_busy st \<and> txwrite st = tx_count st"
proof (induction rule: tx_reach.induct)
  case tx_init
  show ?case
    using tx_inv_init
    by (auto simp: contig_def head_busy_def init_fields pending_init word_le_nat_alt)
next
  case (tx_next st x st' calls)
  then have inv: "tx_inv st'" using tx_step_ok [of st 0 x] by auto
  have "contig st' \<and> head_busy st' \<and> txwrite st' = tx_count st'"
  proof (cases "\<exists>cb. x = Op_create cb")
    case True
    then obtain cb where x: "x = Op_create cb" by blast
    with tx_next have nf: "\<not> create_fails st" and st': "st' = snd (transaction_create cb st)" by auto
    then have "tx_id (transactions st (TX_HASH_INDEX (tx_count st + 1))) = 0"
      using tx_next.IH create_fails_iff tx_invD(4) by blast
    then show ?thesis
      using contig_create [OF _ _ _ _ nf, of cb] tx_next.IH by (simp add: st' create_fields)
  next
    case False
    with tx_next contig_step tx_step_counts show ?thesis by metis
  qed
  with inv show ?case by blast
qed

lemma tx_reach_delivers:
  assumes "tx_reach st" and "\<forall>tx \<in> set (pending st (txread st)). refcnt tx \<le> 0"
  shows "pending st (txread st) = []"
  using tx_reach_inv [OF assms(1)] assms(2)
  by (auto simp: head_busy_def tx_done_def split: list.splits)

subsection \<open>Overflow\<close>

text \<open>
  A failed creation consumes an id without a transaction.  When \<open>txread\<close> reaches such an id no
  later \<open>unref\<close> starts the completion loop any more.
\<close>

definition stalled :: "'cb txstate \<Rightarrow> bool" where
  "stalled st \<longleftrightarrow> find_transaction st (txread st) = None \<and> txread st \<le> tx_count st"

lemma stalled_step:
  assumes inv: "tx_inv st" and room: "tx_room (Suc n) st" and s: "stalled st"
  shows "\<exists>st'. tx_step x st = Some (st', []) \<and> stalled st' \<and> txread st' = txread st"
proof (cases x)
  case (Op_create cb)
  have "txread st < tx_count st + 1"
    using s less_inc_u32 [OF tx_invD(4) [OF inv]] by (auto simp: stalled_def)
  with s Op_create show ?thesis
    using find_create [OF _ tx_invD(4) [OF inv], of cb "txread st"]
      find_create_fail(1) [of st cb]
    by (cases "tx_id (transactions st (TX_HASH_INDEX (tx_count st + 1))) = 0")
      (auto simp: stalled_def create_fields)
next
  case (Op_add mem txid rsid)
  have "find_transaction (snd (transaction_add_resource_set mem txid rsid st)) (txread st) = None"
  proof (cases "find_transaction st txid")
    case (Some tx)
    then show ?thesis
      using s find_set_slot [of txid "snd (add_resource_set mem rsid tx)" st tx "txread st"]
        find_transaction_id [OF Some]
      by (auto simp: transaction_add_resource_set_def stalled_def split_beta add_resource_set_id)
  qed (use s in \<open>simp add: transaction_add_resource_set_def stalled_def\<close>)
  with Op_add s show ?thesis by (simp add: stalled_def set_slot_counts)
next
  case (Op_ref txid)
  have "find_transaction (snd (transaction_ref txid st)) (txread st) = None"
  proof (cases "find_transaction st txid")
    case (Some tx)
    then show ?thesis
      using s find_set_slot [of txid "tx\<lparr>refcnt := refcnt tx + 1\<rparr>" st tx "txread st"]
        find_transaction_id [OF Some]
      by (auto simp: transaction_ref_def stalled_def)
  qed (use s in \<open>simp add: transaction_ref_def stalled_def\<close>)
  with Op_ref s show ?thesis by (simp add: stalled_def set_slot_counts)
next
  case (Op_unref txid)
  show ?thesis
  proof (cases "\<exists>tx. find_transaction st txid = Some tx \<and> refcnt tx > 0")
    case True
    then obtain tx where tx: "find_transaction st txid = Some tx" "refcnt tx > 0" by blast
    then have ne: "txid \<noteq> txread st" using s by (auto simp: stalled_def)
    let ?st' = "set_slot st txid (tx\<lparr>refcnt := refcnt tx - 1\<rparr>)"
    have "find_transaction ?st' (txread st) = None"
      using find_set_slot [of txid _ st tx "txread st"] find_transaction_id [OF tx(1)] tx(1) ne s
      by (simp add: stalled_def)
    moreover have "transaction_unref txid st = Some (True, ?st', [])"
      using tx ne by (simp add: transaction_unref_def complete_transaction_def Let_def frame)
    ultimately show ?thesis using Op_unref s by (simp add: stalled_def frame)
  next
    case False
    then have "transaction_unref txid st = Some (False, st, [])"
      by (cases "find_transaction st txid") (auto simp: transaction_unref_def)
    with Op_unref s show ?thesis by simp
  qed
qed

lemma stalled_run:
  assumes "tx_inv st" and "tx_room (length xs) st" and "stalled st"
  shows "\<exists>st'. tx_run xs st = Some (st', []) \<and> stalled st'"
  using assms
proof (induction xs arbitrary: st)
  case (Cons x xs)
  obtain st1 where one: "tx_step x st = Some (st1, [])" "stalled st1"
    using stalled_step [of st "length xs" x] Cons.prems by auto
  moreover have "tx_inv st1" "tx_room (length xs) st1"
    using tx_step_ok [of st "length xs" x] Cons.prems one by auto
  ultimately show ?case using Cons.IH by fastforce
qed simp

text \<open>
  How a history gets there: a creation in a full table fails; once the transactions created
  before it are all delivered, \<open>txread\<close> is the id that creation consumed.
\<close>

definition no_create :: "'cb tx_op list \<Rightarrow> bool" where
  "no_create xs \<longleftrightarrow> (\<forall>x \<in> set xs. \<forall>cb. x \<noteq> Op_create cb)"

lemma no_create_run:
  assumes "tx_inv st" "contig st" "head_busy st" "tx_room (length xs) st" "no_create xs"
    and "tx_run xs st = Some (st', calls)"
  shows "tx_inv st' \<and> contig st' \<and> head_busy st' \<and> txwrite st' = txwrite st \<and>
    tx_count st' = tx_count st"
  using assms
proof (induction xs arbitrary: st calls)
  case (Cons x xs)
  obtain st1 c1 where one: "tx_step x st = Some (st1, c1)" "tx_inv st1" "tx_room (length xs) st1"
    using tx_step_ok [OF Cons.prems(1), of "length xs" x] Cons.prems(4) by auto
  have nx: "\<forall>cb. x \<noteq> Op_create cb" and nxs: "no_create xs" using Cons.prems(5) by (auto simp: no_create_def)
  obtain c2 where "tx_run xs st1 = Some (st', c2)" using Cons.prems(6) one(1) by auto
  with Cons.IH [OF one(2) _ _ one(3) nxs]
    contig_step [OF Cons.prems(1-3) one(1) nx] tx_step_counts [OF Cons.prems(1) one(1) nx]
  show ?case by metis
qed simp

lemma drained_stalled:
  assumes inv: "tx_inv st" and "contig st" and p: "pending st (txread st) = []"
    and lost: "txwrite st < tx_count st"
  shows "stalled st"
proof -
  have "find_transaction st (txread st) = None"
    using p pending_txread [OF inv] by (cases "find_transaction st (txread st)") auto
  moreover have "txread st \<le> tx_count st"
  proof -
    have "txread st \<le> txwrite st + 1" using tx_invD(2) [OF inv] .
    also have "\<dots> \<le> tx_count st" using lost by (rule inc_u32_le)
    finally show ?thesis .
  qed
  ultimately show ?thesis by (simp add: stalled_def)
qed

lemma create_fails_state:
  assumes "create_fails st" and "tx_inv st" and "tx_count st < -2"
  shows "find_transaction (snd (transaction_create cb st)) = find_transaction st"
    "txread (snd (transaction_create cb st)) = txread st"
    "txwrite (snd (transaction_create cb st)) = txwrite st"
    "tx_count (snd (transaction_create cb st)) = tx_count st + 1"
    "tx_inv (snd (transaction_create cb st))"
    "pending (snd (transaction_create cb st)) i = pending st i"
proof -
  have slot: "tx_id (transactions st (TX_HASH_INDEX (tx_count st + 1))) \<noteq> 0"
    using assms(1) create_fails_iff [OF tx_invD(4) [OF assms(2)]] by simp
  show *: "find_transaction (snd (transaction_create cb st)) = find_transaction st"
    "txread (snd (transaction_create cb st)) = txread st"
    "txwrite (snd (transaction_create cb st)) = txwrite st"
    "tx_count (snd (transaction_create cb st)) = tx_count st + 1"
    using find_create_fail(1) [OF slot] slot by (simp_all add: create_fields)
  show "tx_inv (snd (transaction_create cb st))" using tx_inv_create assms(2,3) by blast
  show "pending (snd (transaction_create cb st)) i = pending st i" by (simp add: pending_def *)
qed

lemma overflow_then_drained:
  assumes reach: "tx_reach st" and full: "create_fails st"
    and room: "tx_room (Suc (length xs + length ys)) st"
    and run: "no_create xs" "tx_run xs (snd (transaction_create cb st)) = Some (st2, calls)"
    and empty: "pending st2 (txread st2) = []"
  shows "\<exists>st3. tx_run ys st2 = Some (st3, [])"
proof -
  let ?st1 = "snd (transaction_create cb st)"
  note I = tx_reach_inv [OF reach]
  then have inv: "tx_inv st" by blast
  have "tx_count st < -2" using room by (intro tx_room_create [of "length xs + length ys"])
  note F = create_fails_state [OF full inv this, of cb]
  have 1: "contig ?st1" "head_busy ?st1"
    using I unfolding contig_def head_busy_def F by blast+
  have r1: "tx_room (length xs + length ys) ?st1"
    using room tx_invD(4) [OF inv] by (simp add: tx_room_def F unat_inc_u32)
  then have "tx_room (length xs) ?st1" by (simp add: tx_room_def)
  note R = no_create_run [OF F(5) 1 this run]
  have "txwrite st2 < tx_count st2"
    using R I less_inc_u32 [OF tx_invD(4) [OF inv]] by (simp add: F)
  with R empty have "stalled st2" by (intro drained_stalled) auto
  moreover have "tx_room (length ys) st2" using R r1 by (simp add: tx_room_def)
  ultimately show ?thesis using stalled_run R by blast
qed

lemma find_in_pending: "t \<in> set (pending st i) \<Longrightarrow> find_transaction st (tx_id t) = Some t"
  by (auto simp: set_pending dest: find_transaction_id)

text \<open>The shortest such history: 1024 creations, one more, and the release of the first 1024.\<close>

lemma room_for_create:
  assumes inv: "tx_inv st" and n: "tx_count st = of_nat n" "n < 1024" and r: "txread st = 1"
  shows "\<not> create_fails st"
proof
  assume "create_fails st"
  have un: "unat (tx_count st) = n" using n by (simp add: unat_of_nat)
  have c1: "unat (tx_count st + 1) = Suc n"
    using unat_inc_u32 [OF tx_invD(4) [OF inv]] un by simp
  define i where "i = TX_HASH_INDEX (tx_count st + 1)"
  define j where "j = tx_id (transactions st i)"
  have "j \<noteq> 0"
    using \<open>create_fails st\<close> create_fails_iff [OF tx_invD(4) [OF inv]] by (simp add: i_def j_def)
  then have hash: "TX_HASH_INDEX j = i" using inv by (simp add: tx_inv_def j_def)
  then have "find_transaction st j = Some (transactions st i)"
    using \<open>j \<noteq> 0\<close> by (simp add: find_transaction_def j_def NO_TRANSACTION_def)
  from tx_invD(6) [OF inv this] tx_invD(7) [OF inv this] tx_invD(3) [OF inv]
  have "1 \<le> j" "j \<le> tx_count st" using r by (simp, simp)
  then have "1 \<le> unat j" "unat j \<le> n" using un by (simp_all add: word_le_nat_alt)
  moreover have "unat j mod 1024 = Suc n mod 1024"
    using hash c1 by (simp add: i_def TX_HASH_INDEX_mod)
  moreover from \<open>unat j \<le> n\<close> n(2) have "unat j mod 1024 = unat j" by simp
  moreover have "Suc n mod 1024 = (if Suc n = 1024 then 0 else Suc n)"
    using n(2) by auto
  ultimately show False by (auto split: if_splits)
qed

lemma creates_reach:
  fixes cb :: "'cb option"
  assumes "n \<le> 1024"
  shows "\<exists>st :: 'cb txstate. tx_reach st \<and> tx_count st = of_nat n \<and> txread st = 1 \<and>
    (\<forall>t \<in> set (pending st 1). refcnt t = 1)"
  using assms
proof (induction n)
  case 0
  show ?case
    by (rule exI [of _ init_txstate]) (simp add: tx_init init_fields pending_init)
next
  case (Suc n)
  then obtain st :: "'cb txstate" where st: "tx_reach st" "tx_count st = of_nat n" "txread st = 1"
    "\<forall>t \<in> set (pending st 1). refcnt t = 1" by auto
  note I = tx_reach_inv [OF st(1)]
  have nf: "\<not> create_fails st" using I Suc.prems
    by (intro room_for_create [OF _ st(2) _ st(3)]) (simp_all add: Suc_le_eq)
  let ?st' = "snd (transaction_create cb st)"
  have "unat (tx_count st) = n" using Suc.prems st(2) by (simp add: unat_of_nat)
  then have "tx_room 1 st" using Suc.prems by (simp add: tx_room_def)
  then have "tx_reach ?st'"
    using tx_next [OF st(1), of "Op_create cb" ?st' "[]"] nf by simp
  moreover have "tx_count ?st' = of_nat (Suc n)" "txread ?st' = 1"
    using st by (simp_all add: create_fields)
  moreover have "\<forall>t \<in> set (pending ?st' 1). refcnt t = 1"
    using pending_create [of st cb] I nf st(3,4) by (auto simp: fresh_transaction_def)
  ultimately show ?case by blast
qed

lemma full_table: "\<exists>st :: 'cb txstate. tx_reach st \<and> create_fails st \<and> tx_count st = 1024 \<and> txread st = 1 \<and>
    (\<forall>t \<in> set (pending st 1). refcnt t = 1)"
proof -
  obtain st :: "'cb txstate" where st: "tx_reach st" "tx_count st = of_nat 1024" "txread st = 1"
    "\<forall>t \<in> set (pending st 1). refcnt t = 1" using creates_reach [of 1024] by auto
  note I = tx_reach_inv [OF st(1)]
  then have "1 \<in> tx_id ` set (pending st 1)" using st by (auto simp: contig_def)
  then obtain t where "find_transaction st 1 = Some t"
    using find_in_pending by force
  then have "tx_id (transactions st (TX_HASH_INDEX 1)) = 1"
    by (auto simp: find_transaction_def Let_def split: if_splits)
  moreover have "TX_HASH_INDEX (tx_count st + 1) = TX_HASH_INDEX 1"
    using st(2) by (simp add: TX_HASH_INDEX_mod)
  ultimately have "create_fails st"
    using create_fails_iff [of st] I tx_invD(4) [of st] by simp
  with st show ?thesis by (intro exI [of _ st]) simp
qed

text \<open>Releasing the live transactions in order empties the table.\<close>

lemma drain:
  assumes "tx_inv st" "contig st" and "pending st (txread st) = ts"
    and "\<forall>t \<in> set ts. refcnt t = 1"
  shows "\<exists>st' calls. tx_run (map Op_unref (map tx_id ts)) st = Some (st', calls) \<and>
    pending st' (txread st') = []"
  using assms
proof (induction ts arbitrary: st)
  case Nil
  then show ?case by simp
next
  case (Cons t ts)
  have id: "tx_id t = txread st" using head_pending Cons.prems by blast
  have "t \<in> set (pending st (txread st))" using Cons.prems(3) by simp
  then have f: "find_transaction st (txread st) = Some t"
    using find_in_pending [of t] id by simp
  have r: "refcnt t = 1" "refcnt t > 0" using Cons.prems(4) by simp_all
  have srt: "\<forall>u \<in> set ts. tx_id u \<noteq> txread st"
    using sorted_pending [of st "txread st"] Cons.prems(3) id by auto
  let ?p = "dec_ref (txread st) (pending st (txread st))"
  have p: "?p = t\<lparr>refcnt := 0\<rparr> # ts"
    using Cons.prems(3) id r(1) srt by (auto simp: dec_ref_def intro: map_idI)
  have d: "dropWhile tx_done ?p = ts"
    unfolding p using Cons.prems(4) by (cases ts) (auto simp: tx_done_def)
  obtain st1 calls where U: "transaction_unref (txread st) st = Some (True, st1, calls)"
    "tx_inv st1" "pending st1 (txread st1) = ts"
    using unref_refines [OF Cons.prems(1) f r(2) refl] d r(1) by auto
  have "head_busy st"
    using Cons.prems(3) r(1) by (simp add: head_busy_def tx_done_def)
  then have "contig st1" using contig_unref Cons.prems(1,2) U(1) by blast
  then obtain st2 calls2 where "tx_run (map Op_unref (map tx_id ts)) st1 = Some (st2, calls2)"
    "pending st2 (txread st2) = []"
    using Cons.IH [OF U(2) _ U(3)] Cons.prems(4) by auto
  with U(1) id show ?case by auto
qed

subsection \<open>The table of one transaction\<close>

lemma add_resource_set_ok:
  assumes "length (table tx) \<le> junks tx * ALLOC_JUNK" and "distinct (table tx)"
    and "add_resource_set mem rsid tx = (ok, tx')"
  shows "length (table tx') \<le> junks tx' * ALLOC_JUNK" "distinct (table tx')"
    "ok \<Longrightarrow> set (table tx') = insert rsid (set (table tx))"
    "\<not> ok \<Longrightarrow> tx' = tx \<and> \<not> mem"
    "refcnt tx' = refcnt tx \<and> tx_id tx' = tx_id tx \<and> completion tx' = completion tx"
proof -
  have fit: "Suc n \<le> (n + ALLOC_JUNK) div ALLOC_JUNK * ALLOC_JUNK" for n
    by (simp add: ALLOC_JUNK_def)
  have "Suc (length (table tx)) \<le> junks tx * ALLOC_JUNK"
    if "\<not> (length (table tx) + ALLOC_JUNK) div ALLOC_JUNK > junks tx"
    using that fit [of "length (table tx)"] by (meson le_trans mult_le_mono1 not_le)
  with assms fit [of "length (table tx)"]
  show "length (table tx') \<le> junks tx' * ALLOC_JUNK"
    by (auto simp: add_resource_set_def Let_def split: if_splits)
qed (use assms in \<open>auto simp: add_resource_set_def Let_def split: if_splits\<close>)

subsection \<open>Properties\<close>

text \<open>C26. Releasing a live transaction refines two list functions.  With the live transactions
  listed in the order of their ids, \<open>transaction_unref\<close> decrements the reference count of one of
  them; if this releases the transaction at \<open>txread\<close>, the longest released prefix is removed and
  its completions are called in order, and otherwise nothing is delivered.\<close>

theorem transaction_unref_refinement:
  assumes "tx_inv st" and "find_transaction st txid = Some tx" and "refcnt tx > 0"
  defines "p \<equiv> dec_ref txid (pending st (txread st))"
  shows "\<exists>st' calls. transaction_unref txid st = Some (True, st', calls) \<and> tx_inv st' \<and>
    (if txid = txread st \<and> refcnt tx = 1
     then calls = concat (map call_of (takeWhile tx_done p)) \<and>
       pending st' (txread st') = dropWhile tx_done p
     else calls = [] \<and> pending st' (txread st') = p)"
proof -
  from unref_refines [OF assms(1-3) meta_eq_to_obj_eq [OF p_def]]
  obtain st' calls where U: "transaction_unref txid st = Some (True, st', calls)" "tx_inv st'"
    "if txid = txread st \<and> refcnt tx = 1
     then calls = concat (map call_of (takeWhile tx_done p)) \<and>
       pending st' (txread st') = dropWhile tx_done p \<and>
       txread st' = next_read (txread st) (takeWhile tx_done p) \<and>
       (\<forall>t \<in> set (takeWhile tx_done p). txread st \<le> tx_id t \<and> tx_id t < txread st')
     else calls = [] \<and> pending st' (txread st') = p \<and> txread st' = txread st"
    by blast
  show ?thesis
  proof (cases "txid = txread st \<and> refcnt tx = 1")
    case True
    from U(1,2) U(3) [unfolded if_P [OF True]] show ?thesis unfolding if_P [OF True] by blast
  next
    case False
    from U(1,2) U(3) [unfolded if_not_P [OF False]] show ?thesis
      unfolding if_not_P [OF False] by blast
  qed
qed

theorem transaction_unref_refinement_witness:
  "\<exists>st tx st'. tx_inv st \<and> find_transaction st 1 = Some tx \<and>
     transaction_unref 1 st = Some (True, st', [(CHR ''a'', [], 1)])"
proof -
  let ?st = "snd (transaction_create (Some CHR ''a'') init_txstate)"
  let ?tx = "fresh_transaction 1 (Some CHR ''a'')"
  have inv: "tx_inv ?st"
    by (rule tx_inv_create [OF tx_inv_init]) (simp add: init_fields word_less_nat_alt)
  have find: "find_transaction ?st k = (if k = 1 then Some ?tx else find_transaction init_txstate k)" for k
    using find_create [of init_txstate "Some CHR ''a''" k]
    by (auto simp: init_fields) (simp_all add: init_txstate_def zero_transaction_def)
  have rd: "txread ?st = 1" "txwrite ?st = 1"
    by (simp_all add: create_fields init_fields) (simp add: init_txstate_def zero_transaction_def)
  have f: "find_transaction ?st 1 = Some ?tx" using find by simp
  have pend: "pending ?st 1 = [?tx]"
    using f rd pending_empty [of ?st 2] by (simp add: pending_step [of 1 ?st])
  have r: "refcnt ?tx > 0" by (simp add: fresh_transaction_def)
  have "\<exists>st' calls. transaction_unref 1 ?st = Some (True, st', calls) \<and>
      calls = [(CHR ''a'', [], 1)]"
    using transaction_unref_refinement [OF inv f r] rd pend
    by (auto simp: dec_ref_def fresh_transaction_def zero_transaction_def tx_done_def call_of_def)
  with inv f show ?thesis by blast
qed

text \<open>C28. Nothing is withheld: in every state reached without a failed creation, if all live
  transactions have been released then none is left undelivered.\<close>

theorem released_are_delivered:
  assumes "tx_reach st" and "\<forall>tx \<in> set (pending st (txread st)). refcnt tx \<le> 0"
  shows "pending st (txread st) = []"
  using tx_reach_delivers [OF assms] .

theorem released_are_delivered_witness:
  "\<exists>st :: char txstate. tx_reach st \<and> tx_count st = 1 \<and> pending st (txread st) = []"
proof -
  obtain st0 :: "char txstate" where st0: "tx_reach st0" "tx_count st0 = of_nat 1"
    "txread st0 = 1" "\<forall>t \<in> set (pending st0 1). refcnt t = 1" using creates_reach [of 1] by auto
  note I = tx_reach_inv [OF st0(1)]
  then have "1 \<in> tx_id ` set (pending st0 1)" using st0(2,3) by (auto simp: contig_def)
  then obtain t where t: "t \<in> set (pending st0 1)" "tx_id t = 1" by auto
  then have f: "find_transaction st0 1 = Some t" using find_in_pending by force
  have len: "map tx_id (pending st0 1) = [1]"
    using map_tx_id_pending [of st0 1] I st0(2) f by (simp add: id_range_def)
  then have p: "pending st0 1 = [t]" using t by auto
  have "refcnt t = 1" "refcnt t > 0" using st0(4) t(1) by simp_all
  then obtain st calls where u: "transaction_unref 1 st0 = Some (True, st, calls)"
    "tx_count st = 1" "pending st (txread st) = []"
    using unref_refines [OF _ f _ refl] I st0(2,3) p
    by (auto simp: dec_ref_def tx_done_def t(2))
  have "tx_step (Op_unref 1) st0 = Some (st, calls)" using u(1) by simp
  then have reach: "tx_reach st"
    using st0(2) by (intro tx_next [OF st0(1) _ _ \<open>tx_step (Op_unref 1) st0 = Some (st, calls)\<close>])
      (simp_all add: tx_room_def)
  moreover have "pending st (txread st) = []"
    by (rule released_are_delivered [OF reach]) (simp add: u(3))
  ultimately show ?thesis using u(2) by blast
qed

text \<open>C29. A failed creation stops the delivery for good: once the transactions created before the
  failure are all delivered, no history of later creations and releases delivers anything.\<close>

theorem overflow_stops_delivery:
  assumes "tx_reach st" and "create_fails st"
    and "tx_room (Suc (length xs + length ys)) st" and "no_create xs"
    and "tx_run xs (snd (transaction_create cb st)) = Some (st2, calls)"
    and "pending st2 (txread st2) = []"
  shows "\<exists>st3. tx_run ys st2 = Some (st3, [])"
  using overflow_then_drained [OF assms] .

theorem overflow_stops_delivery_witness:
  "\<exists>(st :: char txstate) st2 st3. tx_reach st \<and> create_fails st \<and>
     tx_run [Op_create (Some CHR ''a''), Op_unref 1026] st2 = Some (st3, [])"
proof -
  obtain st :: "char txstate" where st: "tx_reach st" "create_fails st" "tx_count st = 1024"
    "txread st = 1" "\<forall>t \<in> set (pending st 1). refcnt t = 1" using full_table by blast
  note I = tx_reach_inv [OF st(1)]
  let ?st1 = "snd (transaction_create None st)"
  have F: "txread ?st1 = 1" "tx_inv ?st1" "pending ?st1 i = pending st i" for i
    using create_fails_state [OF st(2), of None] I st(3,4) by (auto simp: word_less_nat_alt)
  have w: "txwrite ?st1 = txwrite st"
    using create_fails_state(3) [OF st(2), of None] I st(3) by (auto simp: word_less_nat_alt)
  have c: "contig ?st1" using I unfolding contig_def F(1,3) st(4) w by blast
  let ?xs = "map Op_unref (map tx_id (pending st 1)) :: char tx_op list"
  obtain st2 calls where r: "tx_run ?xs ?st1 = Some (st2, calls)" "pending st2 (txread st2) = []"
    using drain [OF F(2) c, of "pending st 1"] F(1,3) st(5) by auto
  have "length (pending st 1) \<le> length (id_range 1 (txwrite st))"
    using map_tx_id_pending [of st 1] by (metis length_filter_le length_map)
  also have "\<dots> = 1024" using I st(3) by (simp add: id_range_def)
  finally have room: "tx_room (Suc (length ?xs +
      length [Op_create (Some CHR ''a''), Op_unref 1026 :: char tx_op])) st"
    using st(3) by (simp add: tx_room_def)
  have "no_create ?xs" by (auto simp: no_create_def)
  from overflow_stops_delivery [OF st(1,2) room this r] st(1,2) show ?thesis by blast
qed

text \<open>Adding a resource set to a transaction: on success the set is recorded exactly once and
  the table still fits the memory allocated for it; on failure, which needs a failing
  allocation, the transaction is unchanged.\<close>

theorem add_resource_set_table:
  assumes "length (table tx) \<le> junks tx * ALLOC_JUNK" and "distinct (table tx)"
    and "add_resource_set mem rsid tx = (ok, tx')"
  shows "length (table tx') \<le> junks tx' * ALLOC_JUNK \<and> distinct (table tx') \<and>
    (if ok then set (table tx') = insert rsid (set (table tx)) else tx' = tx \<and> \<not> mem)"
  using add_resource_set_ok [OF assms] by auto

theorem add_resource_set_table_witness:
  "length (table (snd (add_resource_set True 7 (fresh_transaction 1 (None :: char option)))))
     \<le> ALLOC_JUNK \<and>
   fst (add_resource_set True 7 (fresh_transaction 1 (None :: char option)))"
proof -
  let ?tx = "fresh_transaction 1 (None :: char option)"
  have h: "length (table ?tx) \<le> junks ?tx * ALLOC_JUNK" "distinct (table ?tx)"
    by (simp_all add: fresh_transaction_def zero_transaction_def)
  have e: "add_resource_set True 7 ?tx = (True, ?tx\<lparr>junks := 1, table := [7]\<rparr>)"
    by (simp add: add_resource_set_def fresh_transaction_def zero_transaction_def ALLOC_JUNK_def)
  show ?thesis using add_resource_set_table [OF h e] e by simp
qed

subsection \<open>A table with at most one transaction\<close>

text \<open>
  The manager has at most one open transaction: between requests the table is idle, and while a
  request is processed it holds one transaction with one reference.
\<close>

definition idle_tx :: "'cb txstate \<Rightarrow> bool" where
  "idle_tx st \<longleftrightarrow> (\<forall>n. tx_id (transactions st n) = 0) \<and> txread st = tx_count st + 1 \<and>
     txwrite st = tx_count st \<and> tx_count st \<noteq> -1"

definition open_tx :: "u32 \<Rightarrow> 'cb \<Rightarrow> u32 list \<Rightarrow> 'cb txstate \<Rightarrow> bool" where
  "open_tx i cb tab st \<longleftrightarrow> i \<noteq> 0 \<and> i \<noteq> -1 \<and> tx_count st = i \<and> txwrite st = i \<and> txread st = i \<and>
     (let tx = transactions st (TX_HASH_INDEX i)
      in tx_id tx = i \<and> refcnt tx = 1 \<and> completion tx = Some cb \<and> table tx = tab) \<and>
     (\<forall>n. n \<noteq> TX_HASH_INDEX i \<longrightarrow> tx_id (transactions st n) = 0)"

lemma idle_tx_init: "idle_tx init_txstate"
  by (simp add: idle_tx_def init_txstate_def zero_transaction_def NO_TRANSACTION_def)

lemma open_tx_create:
  assumes "idle_tx st" and "tx_count st < -2"
  shows "\<exists>st'. transaction_create (Some cb) st = (tx_count st + 1, st') \<and>
    open_tx (tx_count st + 1) cb [] st'"
proof -
  have "tx_count st + 1 \<noteq> -1"
  proof
    assume "tx_count st + 1 = -1"
    then have "tx_count st = -1 - 1" by (metis add_diff_cancel_right')
    with assms(2) show False by simp
  qed
  with assms show ?thesis
    by (simp add: transaction_create_def idle_tx_def open_tx_def Let_def NO_TRANSACTION_def
        set_slot_def zero_transaction_def)
qed

lemma open_tx_find:
  assumes "open_tx i cb tab st"
  shows "\<exists>tx. find_transaction st i = Some tx \<and> tx_id tx = i \<and> refcnt tx = 1 \<and>
    completion tx = Some cb \<and> table tx = tab"
  using assms by (auto simp: open_tx_def find_transaction_def Let_def NO_TRANSACTION_def)

lemma open_tx_add:
  assumes "open_tx i cb tab st"
  shows "\<exists>tab'. open_tx i cb tab' (snd (transaction_add_resource_set mem i rsid st)) \<and>
    set tab \<subseteq> set tab' \<and> (fst (transaction_add_resource_set mem i rsid st) \<longrightarrow> rsid \<in> set tab')"
proof -
  obtain tx where tx: "find_transaction st i = Some tx" "tx_id tx = i" "refcnt tx = 1"
    "completion tx = Some cb" "table tx = tab" using open_tx_find [OF assms] by blast
  obtain ok tx' where a: "add_resource_set mem rsid tx = (ok, tx')" by fastforce
  then have "tx_id tx' = i \<and> refcnt tx' = 1 \<and> completion tx' = Some cb \<and> set tab \<subseteq> set (table tx') \<and>
      (ok \<longrightarrow> rsid \<in> set (table tx'))"
    using tx(2-5) by (auto simp: add_resource_set_def Let_def split: if_splits)
  with assms tx a show ?thesis
    by (auto simp: transaction_add_resource_set_def open_tx_def set_slot_def Let_def)
qed

lemma open_tx_unref:
  assumes "open_tx i cb tab st"
  shows "\<exists>st'. transaction_unref i st = Some (True, st', [(cb, tab, i)]) \<and> idle_tx st' \<and>
    tx_count st' = i"
proof -
  obtain tx where tx: "find_transaction st i = Some tx" "tx_id tx = i" "refcnt tx = 1"
    "completion tx = Some cb" "table tx = tab" using open_tx_find [OF assms] by blast
  have f: "tx_count st = i" "txwrite st = i" "txread st = i" "i \<noteq> 0" "i \<noteq> -1"
    "\<And>n. n \<noteq> TX_HASH_INDEX i \<Longrightarrow> tx_id (transactions st n) = 0"
    using assms by (auto simp: open_tx_def)
  let ?tx = "tx\<lparr>refcnt := 0\<rparr>"
  let ?st1 = "set_slot st i ?tx"
  let ?st2 = "(set_slot ?st1 i zero_transaction)\<lparr>txread := i + 1\<rparr>"
  have f1: "find_transaction ?st1 i = Some ?tx"
    using tx(2) f(4) by (simp add: find_transaction_def set_slot_def NO_TRANSACTION_def)
  have "i < i + 1" by (rule less_inc_u32 [OF f(5)])
  then have stop: "complete_loop (i + 1) ?st2 cs = Some (?st2, cs)" for cs
    by (intro complete_loop_stop) (simp add: frame f(2))
  have "complete_loop i ?st1 [] = Some (?st2, [(cb, tab, i)])"
    using f1 stop tx by (simp add: complete_loop_unfold frame f(2) call_of_def)
  then have "transaction_unref i st = Some (True, ?st2, [(cb, tab, i)])"
    using tx f(3) by (simp add: transaction_unref_def complete_transaction_def frame)
  moreover have "idle_tx ?st2"
    using f by (auto simp: idle_tx_def set_slot_def zero_transaction_def)
  ultimately show ?thesis using f(1) by (auto simp: frame)
qed
end
