(* ===== verification/Ptr_Queue.thy ===== *)
theory Ptr_Queue
  imports Prelude
begin

text \<open>
  The linked queue of \<open>src/plugins/resource/resource-set.c\<close> (\<open>queue_pop_head\<close> and
  \<open>queue_push_tail\<close> on \<open>resource_set_qhead_t\<close>) at the level of its pointers, and its refinement
  to a list.  The heap of queue nodes is a partial map from addresses; \<open>NULL\<close> is \<open>None\<close>.

  The locale \<open>fifo\<close> is what the resource sets need from a queue.  It is interpreted on the
  linked queue here and on lists in the theory of the resource sets.
\<close>

subsection \<open>Nodes, heads and operations\<close>

record qentry =
  q_txid :: u32
  q_reqno :: u32
  q_value :: u32

record qnode =
  q_next :: "addr option"
  q_prev :: "addr option"
  entry :: qentry

record qhead =
  q_head :: "addr option"
  q_tail :: "addr option"

type_synonym qheap = "addr \<rightharpoonup> qnode"
type_synonym lqueue = "qheap \<times> qhead"

definition set_next :: "addr \<Rightarrow> addr option \<Rightarrow> qheap \<Rightarrow> qheap" where
  "set_next a n h = (case h a of None \<Rightarrow> h | Some x \<Rightarrow> h(a \<mapsto> x\<lparr>q_next := n\<rparr>))"

definition set_prev :: "addr \<Rightarrow> addr option \<Rightarrow> qheap \<Rightarrow> qheap" where
  "set_prev a p h = (case h a of None \<Rightarrow> h | Some x \<Rightarrow> h(a \<mapsto> x\<lparr>q_prev := p\<rparr>))"

text \<open>
  \<open>queue_pop_head\<close>: the popped node stays allocated, the caller frees it.
\<close>

definition queue_pop_head :: "lqueue \<Rightarrow> addr option \<times> lqueue" where
  "queue_pop_head q =
     (let (h, qh) = q in
      case q_head qh of
        None \<Rightarrow> (None, (h, qh))
      | Some a \<Rightarrow>
          (let nx = (case h a of None \<Rightarrow> None | Some x \<Rightarrow> q_next x) in
           case nx of
             Some b \<Rightarrow> (Some a, (set_prev b None h, qh\<lparr>q_head := Some b\<rparr>))
           | None \<Rightarrow> (Some a, (h, qh\<lparr>q_head := None, q_tail := None\<rparr>))))"

definition queue_push_tail :: "lqueue \<Rightarrow> addr \<Rightarrow> lqueue" where
  "queue_push_tail q a =
     (let (h, qh) = q in
      case q_tail qh of
        Some t \<Rightarrow> (set_prev a (Some t) (set_next t (Some a) h), qh\<lparr>q_tail := Some a\<rparr>)
      | None \<Rightarrow> (h, qh\<lparr>q_head := Some a, q_tail := Some a\<rparr>))"

text \<open>
  The two ways the resource set uses the queue: \<open>enq\<close> allocates a cleared node at a free
  address and pushes it, \<open>deq\<close> pops a node, reads its entry and frees it.
\<close>

definition enq :: "addr \<Rightarrow> qentry \<Rightarrow> lqueue \<Rightarrow> lqueue" where
  "enq a e q =
     queue_push_tail ((fst q)(a \<mapsto> \<lparr>q_next = None, q_prev = None, entry = e\<rparr>), snd q) a"

definition deq :: "lqueue \<Rightarrow> qentry option \<times> lqueue" where
  "deq q =
     (case queue_pop_head q of
        (None, q') \<Rightarrow> (None, q')
      | (Some a, (h, qh)) \<Rightarrow> (map_option entry (h a), (h(a := None), qh)))"

definition empty_queue :: lqueue where
  "empty_queue = (Map.empty, \<lparr>q_head = None, q_tail = None\<rparr>)"

subsection \<open>Representation\<close>

text \<open>
  \<open>chain h p as n\<close>: the nodes \<open>as\<close> are linked in this order, the first with predecessor \<open>p\<close>,
  the last with successor \<open>n\<close>.
\<close>

fun chain :: "qheap \<Rightarrow> addr option \<Rightarrow> addr list \<Rightarrow> addr option \<Rightarrow> bool" where
  "chain h p [] n = True"
| "chain h p (a # as) n =
     (case h a of None \<Rightarrow> False
      | Some x \<Rightarrow> q_prev x = p \<and> q_next x = (if as = [] then n else Some (hd as)) \<and>
          chain h (Some a) as n)"

definition first_of :: "addr list \<Rightarrow> addr option" where
  "first_of as = (if as = [] then None else Some (hd as))"

definition last_of :: "addr list \<Rightarrow> addr option" where
  "last_of as = (if as = [] then None else Some (last as))"

definition represents :: "lqueue \<Rightarrow> addr list \<Rightarrow> bool" where
  "represents q as \<longleftrightarrow>
     distinct as \<and> dom (fst q) = set as \<and> chain (fst q) None as None \<and>
     q_head (snd q) = first_of as \<and> q_tail (snd q) = last_of as"

definition queue_inv :: "lqueue \<Rightarrow> bool" where
  "queue_inv q \<longleftrightarrow> (\<exists>as. represents q as)"

text \<open>Reading the queue from its head; the fuel bounds the number of nodes.\<close>

fun walk :: "qheap \<Rightarrow> nat \<Rightarrow> addr option \<Rightarrow> qentry list" where
  "walk h n None = []"
| "walk h 0 (Some a) = []"
| "walk h (Suc n) (Some a) =
     (case h a of None \<Rightarrow> [] | Some x \<Rightarrow> entry x # walk h n (q_next x))"

definition queue_list :: "lqueue \<Rightarrow> qentry list" where
  "queue_list q = walk (fst q) (card (dom (fst q))) (q_head (snd q))"

lemma walk_chain:
  "chain h p as None \<Longrightarrow> length as \<le> n \<Longrightarrow>
    walk h n (first_of as) = map (\<lambda>a. entry (the (h a))) as"
proof (induction as arbitrary: p n)
  case (Cons a as)
  then obtain x where x: "h a = Some x" "q_next x = first_of as" "chain h (Some a) as None"
    by (auto simp: first_of_def split: option.splits)
  from Cons.prems(2) obtain m where n: "n = Suc m" "length as \<le> m" by (cases n) auto
  from Cons.IH [OF x(3) n(2)] x n show ?case by (simp add: first_of_def)
qed (simp add: first_of_def)

lemma queue_list_represents:
  assumes "represents q as"
  shows "queue_list q = map (\<lambda>a. entry (the (fst q a))) as"
proof -
  have "card (dom (fst q)) = length as"
    using assms by (simp add: represents_def distinct_card)
  with assms show ?thesis
    by (auto simp: queue_list_def represents_def intro: walk_chain)
qed

text \<open>Only the nodes of the chain matter, and a chain ends in its last node.\<close>

lemma chain_cong:
  "\<forall>a \<in> set as. h' a = h a \<Longrightarrow> chain h' p as n = chain h p as n"
  by (induction as arbitrary: p) (auto split: option.splits)

lemma chain_snoc:
  "chain h p (as @ [t]) n \<longleftrightarrow> chain h p as (Some t) \<and>
     (\<exists>x. h t = Some x \<and> q_prev x = (if as = [] then p else Some (last as)) \<and> q_next x = n)"
  by (induction as arbitrary: p) (auto split: option.splits)

lemma represents_empty: "represents empty_queue []"
  by (simp add: represents_def empty_queue_def first_of_def last_of_def)

lemma represents_enq:
  assumes r: "represents q as" and a: "a \<notin> dom (fst q)"
  shows "represents (enq a e q) (as @ [a])"
    and "\<forall>b \<in> set as. entry (the (fst (enq a e q) b)) = entry (the (fst q b))"
    and "entry (the (fst (enq a e q) a)) = e"
proof -
  obtain h qh where q: "q = (h, qh)" by (cases q)
  have R: "distinct as" "dom h = set as" "chain h None as None" "q_head qh = first_of as"
    "q_tail qh = last_of as" "a \<notin> set as"
    using r a by (auto simp: represents_def q)
  have "represents (enq a e q) (as @ [a]) \<and>
    (\<forall>b \<in> set as. entry (the (fst (enq a e q) b)) = entry (the (fst q b))) \<and>
    entry (the (fst (enq a e q) a)) = e"
  proof (cases as rule: rev_cases)
    case Nil
    with R show ?thesis
      by (simp add: represents_def q enq_def queue_push_tail_def first_of_def last_of_def)
  next
    case (snoc bs t)
    from R(3) snoc obtain x where x: "h t = Some x" "chain h None bs (Some t)"
      "q_prev x = (if bs = [] then None else Some (last bs))" by (auto simp: chain_snoc)
    have nt: "t \<noteq> a" "t \<notin> set bs" "a \<notin> set bs" using R(1,6) snoc by auto
    let ?h' = "h(a \<mapsto> \<lparr>q_next = None, q_prev = Some t, entry = e\<rparr>,
      t \<mapsto> x\<lparr>q_next := Some a\<rparr>)"
    have e: "enq a e q = (?h', qh\<lparr>q_tail := Some a\<rparr>)"
      using R(5) snoc x(1) nt
      by (simp add: q enq_def queue_push_tail_def last_of_def set_next_def set_prev_def
          fun_upd_twist)
    have "chain ?h' None bs (Some t) = chain h None bs (Some t)"
      by (rule chain_cong) (use nt in auto)
    with x(2) have "chain ?h' None bs (Some t)" by blast
    then have "chain ?h' None (as @ [a]) None"
      using x(3) nt unfolding snoc chain_snoc by simp
    moreover have "dom ?h' = set (as @ [a])" using R(2) snoc by auto
    moreover have "q_head qh = first_of (as @ [a])"
      using R(4) snoc by (simp add: first_of_def hd_append)
    ultimately have "represents (enq a e q) (as @ [a])"
      using R(1,6) by (simp add: represents_def e last_of_def)
    moreover have "\<forall>b \<in> set as. entry (the (?h' b)) = entry (the (h b))"
      using R(6) x(1) by auto
    moreover have "entry (the (?h' a)) = e" using nt(1) by simp
    ultimately show ?thesis unfolding e unfolding q fst_conv by blast
  qed
  then show "represents (enq a e q) (as @ [a])"
    and "\<forall>b \<in> set as. entry (the (fst (enq a e q) b)) = entry (the (fst q b))"
    and "entry (the (fst (enq a e q) a)) = e" by blast+
qed

lemma represents_deq_Nil:
  assumes "represents q []"
  shows "deq q = (None, q)"
  using assms
  by (cases q) (simp add: represents_def deq_def queue_pop_head_def first_of_def Let_def)

lemma represents_deq_Cons:
  assumes r: "represents q (a # as)"
  shows "fst (deq q) = Some (entry (the (fst q a)))" and "represents (snd (deq q)) as"
    and "\<forall>b \<in> set as. entry (the (fst (snd (deq q)) b)) = entry (the (fst q b))"
proof -
  obtain h qh where q: "q = (h, qh)" by (cases q)
  have R: "distinct (a # as)" "dom h = set (a # as)" "chain h None (a # as) None"
    "q_head qh = Some a" "q_tail qh = last_of (a # as)"
    using r by (auto simp: represents_def q first_of_def)
  then obtain x where x: "h a = Some x" "q_next x = (if as = [] then None else Some (hd as))"
    "chain h (Some a) as None" by (auto split: option.splits)
  have "fst (deq q) = Some (entry (the (fst q a))) \<and> represents (snd (deq q)) as \<and>
    (\<forall>b \<in> set as. entry (the (fst (snd (deq q)) b)) = entry (the (fst q b)))"
  proof (cases as)
    case Nil
    with R x show ?thesis
      by (auto simp: q deq_def queue_pop_head_def represents_def first_of_def last_of_def Let_def)
  next
    case (Cons b bs)
    from x(3) Cons obtain y where y: "h b = Some y" "q_prev y = Some a"
      "q_next y = (if bs = [] then None else Some (hd bs))" "chain h (Some b) bs None"
      by (auto split: option.splits)
    have nb: "b \<noteq> a" "b \<notin> set bs" "a \<notin> set bs" using R(1) Cons by auto
    let ?h' = "h(b \<mapsto> y\<lparr>q_prev := None\<rparr>, a := None)"
    have d: "deq q = (Some (entry x), (?h', qh\<lparr>q_head := Some b\<rparr>))"
      using R(4) x Cons y(1) nb
      by (simp add: q deq_def queue_pop_head_def set_prev_def Let_def)
    have "chain ?h' (Some b) bs None = chain h (Some b) bs None"
      by (rule chain_cong) (use nb in auto)
    with y(4) have "chain ?h' (Some b) bs None" by blast
    then have "chain ?h' None as None"
      using y(3) nb Cons by simp
    moreover have "dom ?h' = set as" using R(1,2) nb Cons by auto
    moreover have "Some b = first_of as" "q_tail qh = last_of as"
      using R(5) Cons by (simp_all add: first_of_def last_of_def)
    ultimately have "represents (snd (deq q)) as"
      using R(1) by (simp add: represents_def d)
    moreover have "\<forall>c \<in> set as. entry (the (?h' c)) = entry (the (h c))"
      using y(1) R(1) by auto
    moreover have "fst (deq q) = Some (entry (the (fst q a)))"
      using x(1) unfolding d unfolding q by simp
    ultimately show ?thesis unfolding d unfolding q fst_conv snd_conv by blast
  qed
  then show "fst (deq q) = Some (entry (the (fst q a)))" and "represents (snd (deq q)) as"
    and "\<forall>b \<in> set as. entry (the (fst (snd (deq q)) b)) = entry (the (fst q b))" by blast+
qed

lemma queue_list_enq:
  assumes "queue_inv q" and "a \<notin> dom (fst q)"
  shows "queue_list (enq a e q) = queue_list q @ [e]" and "queue_inv (enq a e q)"
proof -
  obtain as where r: "represents q as" using assms(1) by (auto simp: queue_inv_def)
  note E = represents_enq [OF r assms(2), of e]
  show "queue_inv (enq a e q)" using E(1) by (auto simp: queue_inv_def)
  show "queue_list (enq a e q) = queue_list q @ [e]"
    using E(2,3) by (simp add: queue_list_represents [OF E(1)] queue_list_represents [OF r])
qed

lemma queue_list_deq:
  assumes "queue_inv q"
  shows "fst (deq q) = (case queue_list q of [] \<Rightarrow> None | e # _ \<Rightarrow> Some e)"
    and "queue_list (snd (deq q)) = tl (queue_list q)" and "queue_inv (snd (deq q))"
proof -
  obtain as where r: "represents q as" using assms by (auto simp: queue_inv_def)
  have "fst (deq q) = (case queue_list q of [] \<Rightarrow> None | e # _ \<Rightarrow> Some e) \<and>
    queue_list (snd (deq q)) = tl (queue_list q) \<and> queue_inv (snd (deq q))"
  proof (cases as)
    case Nil
    with r assms represents_deq_Nil [of q] queue_list_represents [OF r] show ?thesis by simp
  next
    case (Cons a as')
    note D = represents_deq_Cons [OF r [unfolded Cons]]
    have "queue_inv (snd (deq q))" using D(2) by (auto simp: queue_inv_def)
    with D(1,3) queue_list_represents [OF r] queue_list_represents [OF D(2)] Cons show ?thesis
      by simp
  qed
  then show "fst (deq q) = (case queue_list q of [] \<Rightarrow> None | e # _ \<Rightarrow> Some e)"
    and "queue_list (snd (deq q)) = tl (queue_list q)" and "queue_inv (snd (deq q))" by blast+
qed


subsection \<open>The queue interface\<close>

text \<open>
  What a client relies on: a queue holds a list of items, a push at a fresh place appends, a pop
  returns the first item.  \<open>drain\<close> is the client's loop \<open>while ((qentry = queue_pop_head(q)))\<close>
  and \<open>feed\<close> a sequence of pushes.
\<close>

fun scan_list :: "('e \<Rightarrow> bool) \<Rightarrow> ('e \<Rightarrow> 'x \<Rightarrow> 'x) \<Rightarrow> 'e list \<Rightarrow> 'x \<Rightarrow> 'e list \<times> 'x" where
  "scan_list stop f [] x = ([], x)"
| "scan_list stop f (e # es) x = (if stop e then (es, x) else scan_list stop f es (f e x))"

locale fifo =
  fixes push :: "'k \<Rightarrow> 'e \<Rightarrow> 'q \<Rightarrow> 'q"
    and pop :: "'q \<Rightarrow> 'e option \<times> 'q"
    and items :: "'q \<Rightarrow> 'e list"
    and inv :: "'q \<Rightarrow> bool"
    and fresh :: "'k \<Rightarrow> 'q \<Rightarrow> bool"
  assumes items_push: "inv q \<Longrightarrow> fresh k q \<Longrightarrow> items (push k e q) = items q @ [e]"
    and inv_push: "inv q \<Longrightarrow> fresh k q \<Longrightarrow> inv (push k e q)"
    and pop_Nil: "inv q \<Longrightarrow> items q = [] \<Longrightarrow> fst (pop q) = None"
    and pop_Cons: "inv q \<Longrightarrow> items q = e # es \<Longrightarrow> fst (pop q) = Some e"
    and items_pop: "inv q \<Longrightarrow> items (snd (pop q)) = tl (items q)"
    and inv_pop: "inv q \<Longrightarrow> inv (snd (pop q))"
begin

fun drain :: "nat \<Rightarrow> 'q \<Rightarrow> 'e list \<times> 'q" where
  "drain 0 q = ([], q)"
| "drain (Suc n) q =
     (case pop q of (None, q') \<Rightarrow> ([], q')
      | (Some e, q') \<Rightarrow> (let (es, q'') = drain n q' in (e # es, q'')))"

fun feed :: "('k \<times> 'e) list \<Rightarrow> 'q \<Rightarrow> 'q" where
  "feed [] q = q"
| "feed ((k, e) # xs) q = feed xs (push k e q)"

fun all_fresh :: "('k \<times> 'e) list \<Rightarrow> 'q \<Rightarrow> bool" where
  "all_fresh [] q = True"
| "all_fresh ((k, e) # xs) q = (fresh k q \<and> all_fresh xs (push k e q))"

lemma drain_items:
  "inv q \<Longrightarrow> length (items q) \<le> n \<Longrightarrow>
    fst (drain n q) = items q \<and> items (snd (drain n q)) = [] \<and> inv (snd (drain n q))"
proof (induction n arbitrary: q)
  case (Suc n)
  obtain x q' where p: "pop q = (x, q')" by (cases "pop q")
  show ?case
  proof (cases "items q")
    case Nil
    with p pop_Nil [OF Suc.prems(1)] items_pop [OF Suc.prems(1)] inv_pop [OF Suc.prems(1)]
    show ?thesis by simp
  next
    case (Cons e es)
    with p pop_Cons [OF Suc.prems(1)] items_pop [OF Suc.prems(1)] inv_pop [OF Suc.prems(1)]
    have x: "x = Some e" and q': "items q' = es" "inv q'" by simp_all
    with Suc.IH [OF q'(2)] Suc.prems(2) Cons p show ?thesis by (simp add: split_beta)
  qed
qed simp

text \<open>A loop that stops at, and drops, the first item with a property.\<close>

fun scan :: "('e \<Rightarrow> bool) \<Rightarrow> ('e \<Rightarrow> 'x \<Rightarrow> 'x) \<Rightarrow> nat \<Rightarrow> 'q \<Rightarrow> 'x \<Rightarrow> 'q \<times> 'x" where
  "scan stop f 0 q x = (q, x)"
| "scan stop f (Suc n) q x =
     (case pop q of (None, q') \<Rightarrow> (q', x)
      | (Some e, q') \<Rightarrow> if stop e then (q', x) else scan stop f n q' (f e x))"

lemma scan_items:
  "inv q \<Longrightarrow> length (items q) \<le> n \<Longrightarrow>
    items (fst (scan stop f n q x)) = fst (scan_list stop f (items q) x) \<and>
    snd (scan stop f n q x) = snd (scan_list stop f (items q) x) \<and>
    inv (fst (scan stop f n q x))"
proof (induction n arbitrary: q x)
  case (Suc n)
  obtain p q' where p: "pop q = (p, q')" by (cases "pop q")
  show ?case
  proof (cases "items q")
    case Nil
    with p pop_Nil [OF Suc.prems(1)] items_pop [OF Suc.prems(1)] inv_pop [OF Suc.prems(1)]
    show ?thesis by simp
  next
    case (Cons e es)
    with p pop_Cons [OF Suc.prems(1)] items_pop [OF Suc.prems(1)] inv_pop [OF Suc.prems(1)]
    have "p = Some e" "items q' = es" "inv q'" by simp_all
    with Suc.IH [of q' "f e x"] Suc.prems(2) Cons p show ?thesis by simp
  qed
qed simp

lemma feed_items:
  "inv q \<Longrightarrow> all_fresh xs q \<Longrightarrow> items (feed xs q) = items q @ map snd xs \<and> inv (feed xs q)"
  by (induction xs q rule: feed.induct) (auto simp: items_push inv_push)

lemma feed_drain:
  assumes "inv q" and "items q = []" and "all_fresh xs q"
  shows "fst (drain (length xs) (feed xs q)) = map snd xs"
  using drain_items [of "feed xs q" "length xs"] feed_items [OF assms(1,3)] assms(2) by simp

end

interpretation ptrq: fifo enq deq queue_list queue_inv "\<lambda>a q. a \<notin> dom (fst q)"
proof (unfold_locales, goal_cases)
  case (3 q) then show ?case by (simp add: queue_list_deq(1))
next
  case (4 q e es) then show ?case by (simp add: queue_list_deq(1))
qed (simp_all add: queue_list_enq queue_list_deq)

lemma queue_inv_empty: "queue_inv empty_queue" "queue_list empty_queue = []"
  using represents_empty queue_list_represents [OF represents_empty] by (auto simp: queue_inv_def)

subsection \<open>Properties\<close>

text \<open>C30. The doubly linked queue refines a list: on every well-linked queue, pushing a fresh
  node appends its entry and popping returns and removes the first entry, and both keep the
  links well formed.\<close>

theorem linked_queue_refines_list:
  assumes "queue_inv q" and "a \<notin> dom (fst q)"
  shows "queue_inv (enq a e q) \<and> queue_list (enq a e q) = queue_list q @ [e] \<and>
    queue_inv (snd (deq q)) \<and> queue_list (snd (deq q)) = tl (queue_list q) \<and>
    fst (deq q) = (case queue_list q of [] \<Rightarrow> None | x # _ \<Rightarrow> Some x)"
  using ptrq.items_push [OF assms] ptrq.inv_push [OF assms] ptrq.items_pop [OF assms(1)]
    ptrq.inv_pop [OF assms(1)] ptrq.pop_Nil [OF assms(1)] ptrq.pop_Cons [OF assms(1)]
  by (simp split: list.split)

theorem linked_queue_refines_list_witness:
  "queue_list (enq 7 \<lparr>q_txid = 3, q_reqno = 1, q_value = 5\<rparr> empty_queue) =
     [\<lparr>q_txid = 3, q_reqno = 1, q_value = 5\<rparr>] \<and> fst (deq empty_queue) = None"
proof -
  have "7 \<notin> dom (fst empty_queue)" by (simp add: empty_queue_def)
  from linked_queue_refines_list [OF queue_inv_empty(1) this,
      of "\<lparr>q_txid = 3, q_reqno = 1, q_value = 5\<rparr>"] show ?thesis
    by (simp add: queue_inv_empty(2))
qed

end
