(* ===== verification/Fsif.thy ===== *)
theory Fsif
  imports Prelude Complex_Main "HOL-Library.Multiset"
begin

text \<open>
  The fact store interface of the plugins, \<open>src/plugins/fsif/fsif.c\<close>: typed fields, entries
  selected by field values, and watch points on facts and fields.

  The OHM fact store itself (libohmfact) is not part of the repository.  It is the parameter
  \<open>L\<close>, a record of the functions the code calls, over the type \<open>'s\<close> of library states and the
  type \<open>'f\<close> of fact pointers; \<open>ohmlib_ok\<close> states the documented behaviour the code relies on.
  A watch callback with its user data is a value of the type \<open>'cb\<close>.  Where the C code would
  pass a \<open>NULL\<close> string to \<open>strcmp\<close> or \<open>strdup\<close> the result is \<open>None\<close>.
\<close>

subsection \<open>Values and fields\<close>

text \<open>
  A C \<open>double\<close> is a real number or \<open>None\<close>, the not-a-number that equals nothing.  A \<open>GValue\<close>
  carries its type; \<open>GOther\<close> stands for every type the code does not handle.
\<close>

type_synonym double = "real option"

definition double_eq :: "double \<Rightarrow> double \<Rightarrow> bool" where
  "double_eq x y \<longleftrightarrow> x \<noteq> None \<and> x = y"

datatype gvalue =
    GString cstring
  | GInt int
  | GLong int
  | GULong nat
  | GDouble double
  | GUInt64 nat
  | GPointer "addr option"
  | GOther

datatype fldtype = fldtype_invalid | fldtype_string | fldtype_integer | fldtype_unsignd
  | fldtype_floating | fldtype_time | fldtype_pointer

text \<open>
  A value of the union \<open>fsif_value_t\<close> with its type tag; a field list ends where the C array
  has the tag \<open>fldtype_invalid\<close>.
\<close>

datatype fvalue =
    VString cstring
  | VInteger int
  | VUnsignd nat
  | VFloating double
  | VTime nat
  | VPointer "addr option"

type_synonym field = "string \<times> fvalue"

fun fvalue_type :: "fvalue \<Rightarrow> fldtype" where
  "fvalue_type (VString _) = fldtype_string"
| "fvalue_type (VInteger _) = fldtype_integer"
| "fvalue_type (VUnsignd _) = fldtype_unsignd"
| "fvalue_type (VFloating _) = fldtype_floating"
| "fvalue_type (VTime _) = fldtype_time"
| "fvalue_type (VPointer _) = fldtype_pointer"

subsection \<open>The fact store library\<close>

record ('s, 'f) ohmlib =
  get_facts_by_name :: "'s \<Rightarrow> string \<Rightarrow> 'f list"
  store_insert :: "'f \<Rightarrow> 's \<Rightarrow> bool \<times> 's"
  store_remove :: "'f \<Rightarrow> 's \<Rightarrow> 's"
  object_unref :: "'f \<Rightarrow> 's \<Rightarrow> 's"
  fact_new :: "string \<Rightarrow> 's \<Rightarrow> 'f option \<times> 's"
  fact_name :: "'s \<Rightarrow> 'f \<Rightarrow> string"
  fact_get :: "'s \<Rightarrow> 'f \<Rightarrow> string \<Rightarrow> gvalue option"
  fact_set :: "'f \<Rightarrow> string \<Rightarrow> gvalue \<Rightarrow> 's \<Rightarrow> 's"
  value_from_string :: "cstring \<Rightarrow> gvalue"
  value_from_int :: "int \<Rightarrow> gvalue"
  value_from_unsigned :: "nat \<Rightarrow> gvalue"
  value_from_double :: "double \<Rightarrow> gvalue"
  value_from_time :: "nat \<Rightarrow> gvalue"
  value_from_pointer :: "addr option \<Rightarrow> gvalue"

subsection \<open>Fields of a fact\<close>

text \<open>
  \<open>get_field\<close> returns the C result and the value written to \<open>*vptr\<close>, \<open>None\<close> when nothing is
  written.
\<close>

fun empty_value :: "fldtype \<Rightarrow> fvalue option" where
  "empty_value fldtype_string = Some (VString None)"
| "empty_value fldtype_integer = Some (VInteger 0)"
| "empty_value fldtype_unsignd = Some (VUnsignd 0)"
| "empty_value fldtype_floating = Some (VFloating (Some 0))"
| "empty_value fldtype_time = Some (VTime 0)"
| "empty_value fldtype_pointer = Some (VPointer None)"
| "empty_value fldtype_invalid = None"

definition read_gvalue :: "fldtype \<Rightarrow> gvalue \<Rightarrow> bool \<times> fvalue option" where
  "read_gvalue type gv =
     (case type of
        fldtype_string \<Rightarrow> (case gv of GString x \<Rightarrow> (True, Some (VString x))
                                    | _ \<Rightarrow> (False, empty_value type))
      | fldtype_integer \<Rightarrow> (case gv of GLong x \<Rightarrow> (True, Some (VInteger x))
                                     | GInt x \<Rightarrow> (True, Some (VInteger x))
                                     | _ \<Rightarrow> (False, empty_value type))
      | fldtype_unsignd \<Rightarrow> (case gv of GULong x \<Rightarrow> (True, Some (VUnsignd x))
                                     | _ \<Rightarrow> (False, empty_value type))
      | fldtype_floating \<Rightarrow> (case gv of GDouble x \<Rightarrow> (True, Some (VFloating x))
                                      | _ \<Rightarrow> (False, empty_value type))
      | fldtype_time \<Rightarrow> (case gv of GUInt64 x \<Rightarrow> (True, Some (VTime x))
                                  | _ \<Rightarrow> (False, empty_value type))
      | fldtype_pointer \<Rightarrow> (case gv of GPointer x \<Rightarrow> (True, Some (VPointer x))
                                     | _ \<Rightarrow> (False, empty_value type))
      | fldtype_invalid \<Rightarrow> (True, None))"

definition get_field ::
  "('s, 'f) ohmlib \<Rightarrow> 's \<Rightarrow> 'f option \<Rightarrow> fldtype \<Rightarrow> cstring \<Rightarrow> bool \<times> fvalue option" where
  "get_field L s fct type name =
     (case (fct, name) of
        (Some f, Some n) \<Rightarrow>
          (case fact_get L s f n of
             None \<Rightarrow> (False, empty_value type)
           | Some gv \<Rightarrow> read_gvalue type gv)
      | _ \<Rightarrow> (False, empty_value type))"

definition set_field :: "('s, 'f) ohmlib \<Rightarrow> 'f \<Rightarrow> string \<Rightarrow> fvalue \<Rightarrow> 's \<Rightarrow> 's" where
  "set_field L f name v s =
     (let gv = (case v of
                  VString x \<Rightarrow> value_from_string L x
                | VInteger x \<Rightarrow> value_from_int L x
                | VUnsignd x \<Rightarrow> value_from_unsigned L x
                | VFloating x \<Rightarrow> value_from_double L x
                | VTime x \<Rightarrow> value_from_time L x
                | VPointer x \<Rightarrow> value_from_pointer L x)
      in fact_set L f name gv s)"

fun set_fields :: "('s, 'f) ohmlib \<Rightarrow> 'f \<Rightarrow> field list \<Rightarrow> 's \<Rightarrow> 's" where
  "set_fields L f [] s = s"
| "set_fields L f ((n, v) # fs) s = set_fields L f fs (set_field L f n v s)"

subsection \<open>Selecting entries\<close>

text \<open>One iteration of the loop of \<open>matching_entry\<close>: \<open>None\<close> is \<open>strcmp\<close> on \<open>NULL\<close>.\<close>

definition match_field :: "('s, 'f) ohmlib \<Rightarrow> 's \<Rightarrow> 'f option \<Rightarrow> field \<Rightarrow> bool option" where
  "match_field L s fct se =
     (let (name, want) = se;
          got = snd (get_field L s fct (fvalue_type want) (Some name))
      in case (got, want) of
           (Some (VString None), VString _) \<Rightarrow> Some False
         | (Some (VString (Some x)), VString None) \<Rightarrow> None
         | (Some (VString (Some x)), VString (Some y)) \<Rightarrow> Some (x = y)
         | (Some (VInteger x), VInteger y) \<Rightarrow> Some (x = y)
         | (Some (VUnsignd x), VUnsignd y) \<Rightarrow> Some (x = y)
         | (Some (VFloating x), VFloating y) \<Rightarrow> Some (double_eq x y)
         | (Some (VTime x), VTime y) \<Rightarrow> Some (x = y)
         | (Some (VPointer x), VPointer y) \<Rightarrow> Some (x = y)
         | _ \<Rightarrow> Some False)"

fun match_fields :: "('s, 'f) ohmlib \<Rightarrow> 's \<Rightarrow> 'f option \<Rightarrow> field list \<Rightarrow> bool option" where
  "match_fields L s fct [] = Some True"
| "match_fields L s fct (se # ses) =
     (case match_field L s fct se of
        None \<Rightarrow> None
      | Some False \<Rightarrow> Some False
      | Some True \<Rightarrow> match_fields L s fct ses)"

definition matching_entry ::
  "('s, 'f) ohmlib \<Rightarrow> 's \<Rightarrow> 'f option \<Rightarrow> field list option \<Rightarrow> bool option" where
  "matching_entry L s fct selist =
     (case selist of None \<Rightarrow> Some True | Some ses \<Rightarrow> match_fields L s fct ses)"

fun first_match ::
  "('s, 'f) ohmlib \<Rightarrow> 's \<Rightarrow> field list option \<Rightarrow> 'f list \<Rightarrow> 'f option option" where
  "first_match L s selist [] = Some None"
| "first_match L s selist (f # fs) =
     (case matching_entry L s (Some f) selist of
        None \<Rightarrow> None
      | Some True \<Rightarrow> Some (Some f)
      | Some False \<Rightarrow> first_match L s selist fs)"

definition find_entry ::
  "('s, 'f) ohmlib \<Rightarrow> 's \<Rightarrow> string \<Rightarrow> field list option \<Rightarrow> 'f option option" where
  "find_entry L s name selist = first_match L s selist (get_facts_by_name L s name)"


subsection \<open>Entries of the fact store\<close>

definition fsif_add_factstore_entry ::
  "('s, 'f) ohmlib \<Rightarrow> cstring \<Rightarrow> field list option \<Rightarrow> 's \<Rightarrow> bool \<times> 's" where
  "fsif_add_factstore_entry L name fldlist s =
     (case (name, fldlist) of
        (Some n, Some flds) \<Rightarrow>
          (case fact_new L n s of
             (None, s1) \<Rightarrow> (False, s1)
           | (Some f, s1) \<Rightarrow>
               (let (ok, s2) = store_insert L f (set_fields L f flds s1)
                in if ok then (True, s2) else (False, s2)))
      | _ \<Rightarrow> (False, s))"

definition fsif_delete_factstore_entry ::
  "('s, 'f) ohmlib \<Rightarrow> string \<Rightarrow> field list option \<Rightarrow> 's \<Rightarrow> (bool \<times> 's) option" where
  "fsif_delete_factstore_entry L name selist s =
     (case find_entry L s name selist of
        None \<Rightarrow> None
      | Some None \<Rightarrow> Some (False, s)
      | Some (Some f) \<Rightarrow> Some (True, object_unref L f (store_remove L f s)))"

definition fsif_update_factstore_entry ::
  "('s, 'f) ohmlib \<Rightarrow> string \<Rightarrow> field list option \<Rightarrow> field list \<Rightarrow> 's \<Rightarrow> (bool \<times> 's) option" where
  "fsif_update_factstore_entry L name selist fldlist s =
     (case find_entry L s name selist of
        None \<Rightarrow> None
      | Some None \<Rightarrow> Some (False, s)
      | Some (Some f) \<Rightarrow> Some (True, set_fields L f fldlist s))"

definition fsif_destroy_factstore_entry ::
  "('s, 'f) ohmlib \<Rightarrow> 'f option \<Rightarrow> 's \<Rightarrow> bool \<times> 's" where
  "fsif_destroy_factstore_entry L fct s =
     (case fct of
        None \<Rightarrow> (False, s)
      | Some f \<Rightarrow> (True, object_unref L f (store_remove L f s)))"

definition fsif_get_entry ::
  "('s, 'f) ohmlib \<Rightarrow> 's \<Rightarrow> string \<Rightarrow> field list option \<Rightarrow> 'f option option" where
  "fsif_get_entry L s name selist = find_entry L s name selist"

text \<open>The last argument of the accessors tells whether the caller passes a value pointer.\<close>

definition fsif_get_field_by_entry ::
  "('s, 'f) ohmlib \<Rightarrow> 's \<Rightarrow> 'f option \<Rightarrow> fldtype \<Rightarrow> cstring \<Rightarrow> bool \<Rightarrow> bool \<times> fvalue option" where
  "fsif_get_field_by_entry L s fct type name vptr =
     (if fct = None \<or> name = None \<or> \<not> vptr then (False, None)
      else get_field L s fct type name)"

definition fsif_set_field_by_entry ::
  "('s, 'f) ohmlib \<Rightarrow> 'f option \<Rightarrow> cstring \<Rightarrow> fvalue option \<Rightarrow> 's \<Rightarrow> 's" where
  "fsif_set_field_by_entry L fct name vptr s =
     (case (fct, name, vptr) of
        (Some f, Some n, Some v) \<Rightarrow> set_field L f n v s
      | _ \<Rightarrow> s)"

definition fsif_get_field_by_name ::
  "('s, 'f) ohmlib \<Rightarrow> 's \<Rightarrow> cstring \<Rightarrow> fldtype \<Rightarrow> cstring \<Rightarrow> bool \<Rightarrow> bool \<times> fvalue option" where
  "fsif_get_field_by_name L s name type field vptr =
     (case (name, field) of
        (Some n, Some _) \<Rightarrow>
          if \<not> vptr then (False, None)
          else (case get_facts_by_name L s n of
                  [f] \<Rightarrow> get_field L s (Some f) type field
                | _ \<Rightarrow> (False, None))
      | _ \<Rightarrow> (False, None))"

definition fsif_get_entries_by_name :: "('s, 'f) ohmlib \<Rightarrow> 's \<Rightarrow> cstring \<Rightarrow> 'f list" where
  "fsif_get_entries_by_name L s name =
     (case name of None \<Rightarrow> [] | Some n \<Rightarrow> get_facts_by_name L s n)"

subsection \<open>Watch points\<close>

datatype watch_type = watch_unknown | watch_insert | watch_remove | watch_update

record 'cb watch_entry =
  w_id :: int
  w_selist :: "field list option"
  w_fldname :: cstring
  w_callback :: 'cb

record 'cb watch_fact =
  wf_name :: string
  wf_entries :: "'cb watch_entry list"

record 'cb watches =
  watch_id :: int
  wfact_inserts :: "'cb watch_fact list"
  wfact_removes :: "'cb watch_fact list"
  wfact_updates :: "'cb watch_fact list"

definition init_watches :: "'cb watches" where
  "init_watches = \<lparr>watch_id = 1, wfact_inserts = [], wfact_removes = [], wfact_updates = []\<rparr>"

definition watch_facts :: "watch_type \<Rightarrow> 'cb watches \<Rightarrow> 'cb watch_fact list" where
  "watch_facts type w =
     (case type of watch_insert \<Rightarrow> wfact_inserts w | watch_remove \<Rightarrow> wfact_removes w
      | watch_update \<Rightarrow> wfact_updates w | watch_unknown \<Rightarrow> [])"

definition set_watch_facts ::
  "watch_type \<Rightarrow> 'cb watch_fact list \<Rightarrow> 'cb watches \<Rightarrow> 'cb watches" where
  "set_watch_facts type fs w =
     (case type of watch_insert \<Rightarrow> w\<lparr>wfact_inserts := fs\<rparr>
      | watch_remove \<Rightarrow> w\<lparr>wfact_removes := fs\<rparr>
      | watch_update \<Rightarrow> w\<lparr>wfact_updates := fs\<rparr> | watch_unknown \<Rightarrow> w)"

definition find_watch :: "cstring \<Rightarrow> watch_type \<Rightarrow> 'cb watches \<Rightarrow> 'cb watch_fact option" where
  "find_watch name type w =
     (case name of
        None \<Rightarrow> None
      | Some n \<Rightarrow> find (\<lambda>wft. n = wf_name wft) (watch_facts type w))"

text \<open>\<open>wentry->next = wfact->entries; wfact->entries = wentry\<close> on the watch of a name.\<close>

fun push_entry :: "string \<Rightarrow> 'cb watch_entry \<Rightarrow> 'cb watch_fact list \<Rightarrow> 'cb watch_fact list" where
  "push_entry n e [] = []"
| "push_entry n e (wft # wfs) =
     (if n = wf_name wft then wft\<lparr>wf_entries := e # wf_entries wft\<rparr> # wfs
      else wft # push_entry n e wfs)"

text \<open>
  The part the two registrations share: find or allocate the watch of the fact name (\<open>mem1\<close>),
  allocate the entry (\<open>mem2\<close>), number it and put it in front.
\<close>

definition add_watch ::
  "string \<Rightarrow> watch_type \<Rightarrow> field list option \<Rightarrow> cstring \<Rightarrow> 'cb \<Rightarrow> bool \<Rightarrow> bool \<Rightarrow> 'cb watches \<Rightarrow>
    int \<times> 'cb watches" where
  "add_watch factname type selist fldname cb mem1 mem2 w =
     (if find_watch (Some factname) type w = None \<and> \<not> mem1 then (-1, w)
      else
        (let w1 = (if find_watch (Some factname) type w = None
                   then set_watch_facts type
                          (\<lparr>wf_name = factname, wf_entries = []\<rparr> # watch_facts type w) w
                   else w)
         in if \<not> mem2 then (-1, w1)
            else
              (let e = \<lparr>w_id = watch_id w1, w_selist = selist, w_fldname = fldname,
                        w_callback = cb\<rparr>
               in (w_id e,
                   (set_watch_facts type (push_entry factname e (watch_facts type w1)) w1)
                   \<lparr>watch_id := watch_id w1 + 1\<rparr>))))"

definition fsif_add_fact_watch ::
  "cstring \<Rightarrow> watch_type \<Rightarrow> 'cb option \<Rightarrow> bool \<Rightarrow> bool \<Rightarrow> 'cb watches \<Rightarrow> int \<times> 'cb watches" where
  "fsif_add_fact_watch factname type callback mem1 mem2 w =
     (case (factname, callback) of
        (Some n, Some cb) \<Rightarrow>
          if type = watch_insert \<or> type = watch_remove
          then add_watch n type None None cb mem1 mem2 w
          else (-1, w)
      | _ \<Rightarrow> (-1, w))"

text \<open>
  \<open>copy_selector\<close> returns \<open>NULL\<close>, which selects everything, when its allocation fails;
  \<open>strdup\<close> of a \<open>NULL\<close> string crashes.
\<close>

definition copy_selector :: "bool \<Rightarrow> field list option \<Rightarrow> field list option option" where
  "copy_selector mem selist =
     (case selist of
        None \<Rightarrow> Some None
      | Some ses \<Rightarrow>
          if \<not> mem then Some None
          else if \<exists>se \<in> set ses. snd se = VString None then None
          else Some (Some ses))"

definition fsif_add_field_watch ::
  "cstring \<Rightarrow> field list option \<Rightarrow> cstring \<Rightarrow> 'cb option \<Rightarrow> bool \<Rightarrow> bool \<Rightarrow> bool \<Rightarrow> 'cb watches \<Rightarrow>
    (int \<times> 'cb watches) option" where
  "fsif_add_field_watch factname selist fldname callback mem1 mem2 mem3 w =
     (case (factname, callback) of
        (Some n, Some cb) \<Rightarrow>
          if (find_watch (Some n) watch_update w = None \<and> \<not> mem1) \<or> \<not> mem2
          then Some (add_watch n watch_update None None cb mem1 mem2 w)
          else (case copy_selector mem3 selist of
                  None \<Rightarrow> None
                | Some cp \<Rightarrow> Some (add_watch n watch_update cp fldname cb mem1 mem2 w))
      | _ \<Rightarrow> Some (-1, w))"

text \<open>The signal handlers return the callbacks they call, in order.\<close>

type_synonym ('cb, 'f) fact_call = "'cb \<times> 'f \<times> string"
type_synonym ('cb, 'f) field_call = "'cb \<times> 'f \<times> string \<times> field"

definition watch_cb ::
  "watch_type \<Rightarrow> ('s, 'f) ohmlib \<Rightarrow> 's \<Rightarrow> 'cb watches \<Rightarrow> 'f option \<Rightarrow> ('cb, 'f) fact_call list" where
  "watch_cb type L s w fct =
     (case fct of
        None \<Rightarrow> []
      | Some f \<Rightarrow>
          (case find_watch (Some (fact_name L s f)) type w of
             None \<Rightarrow> []
           | Some wft \<Rightarrow> map (\<lambda>e. (w_callback e, f, fact_name L s f)) (wf_entries wft)))"

definition inserted_cb ::
  "('s, 'f) ohmlib \<Rightarrow> 's \<Rightarrow> 'cb watches \<Rightarrow> 'f option \<Rightarrow> ('cb, 'f) fact_call list" where
  "inserted_cb = watch_cb watch_insert"

definition removed_cb ::
  "('s, 'f) ohmlib \<Rightarrow> 's \<Rightarrow> 'cb watches \<Rightarrow> 'f option \<Rightarrow> ('cb, 'f) fact_call list" where
  "removed_cb = watch_cb watch_remove"

fun gvalue_field :: "gvalue \<Rightarrow> fvalue option" where
  "gvalue_field (GString x) = Some (VString x)"
| "gvalue_field (GLong x) = Some (VInteger x)"
| "gvalue_field (GInt x) = Some (VInteger x)"
| "gvalue_field (GULong x) = Some (VUnsignd x)"
| "gvalue_field (GDouble x) = Some (VFloating x)"
| "gvalue_field (GUInt64 x) = Some (VTime x)"
| "gvalue_field (GPointer x) = Some (VPointer x)"
| "gvalue_field GOther = None"

fun updated_loop ::
  "('s, 'f) ohmlib \<Rightarrow> 's \<Rightarrow> 'f \<Rightarrow> string \<Rightarrow> gvalue \<Rightarrow> 'cb watch_entry list \<Rightarrow>
    ('cb, 'f) field_call option option" where
  "updated_loop L s f fname gval [] = Some None"
| "updated_loop L s f fname gval (e # es) =
     (case matching_entry L s (Some f) (w_selist e) of
        None \<Rightarrow> None
      | Some m \<Rightarrow>
          if m \<and> (w_fldname e = None \<or> w_fldname e = Some fname)
          then Some (case gvalue_field gval of
                       None \<Rightarrow> None
                     | Some v \<Rightarrow> Some (w_callback e, f, fact_name L s f, (fname, v)))
          else updated_loop L s f fname gval es)"

definition updated_cb ::
  "('s, 'f) ohmlib \<Rightarrow> 's \<Rightarrow> 'cb watches \<Rightarrow> 'f option \<Rightarrow> string \<Rightarrow> gvalue option \<Rightarrow>
    ('cb, 'f) field_call option option" where
  "updated_cb L s w fct fname value =
     (case (fct, value) of
        (Some f, Some gval) \<Rightarrow>
          (case find_watch (Some (fact_name L s f)) watch_update w of
             None \<Rightarrow> Some None
           | Some wft \<Rightarrow> updated_loop L s f fname gval (wf_entries wft))
      | _ \<Rightarrow> Some None)"


subsection \<open>What the code relies on\<close>

text \<open>
  Documented behaviour of libohmfact: a field that is set reads back, a new fact has no fields
  and is in no list, insertion and removal change the list of one name only, the facts listed
  under a name have this name, and the value
  constructors keep an \<open>int\<close>-sized integer and the other types as they are.
\<close>

definition ohmlib_fields_ok :: "('s, 'f) ohmlib \<Rightarrow> bool" where
  "ohmlib_fields_ok L \<longleftrightarrow>
     (\<forall>f n v s g m. fact_get L (fact_set L f n v s) g m =
        (if g = f \<and> m = n then Some v else fact_get L s g m)) \<and>
     (\<forall>f n v s. get_facts_by_name L (fact_set L f n v s) = get_facts_by_name L s) \<and>
     (\<forall>f n v s. fact_name L (fact_set L f n v s) = fact_name L s)"

definition ohmlib_store_ok :: "('s, 'f) ohmlib \<Rightarrow> bool" where
  "ohmlib_store_ok L \<longleftrightarrow>
     (\<forall>n s s'. fact_new L n s = (None, s') \<longrightarrow> s' = s) \<and>
     (\<forall>n s f s'. fact_new L n s = (Some f, s') \<longrightarrow>
        fact_name L s' f = n \<and> (\<forall>m. f \<notin> set (get_facts_by_name L s m)) \<and>
        fact_get L s' f = Map.empty \<and> get_facts_by_name L s' = get_facts_by_name L s \<and>
        (\<forall>g. g \<noteq> f \<longrightarrow> fact_get L s' g = fact_get L s g \<and> fact_name L s' g = fact_name L s g)) \<and>
     (\<forall>f s ok s'. store_insert L f s = (ok, s') \<longrightarrow>
        fact_get L s' = fact_get L s \<and> fact_name L s' = fact_name L s \<and>
        (\<forall>n. set (get_facts_by_name L s' n) =
           (if ok \<and> n = fact_name L s f then insert f (set (get_facts_by_name L s n))
            else set (get_facts_by_name L s n)))) \<and>
     (\<forall>f s n. set (get_facts_by_name L (store_remove L f s) n) =
        set (get_facts_by_name L s n) - {f}) \<and>
     (\<forall>f s. fact_get L (store_remove L f s) = fact_get L s) \<and>
     (\<forall>f s n. get_facts_by_name L (object_unref L f s) n = get_facts_by_name L s n) \<and>
     (\<forall>f s g. g \<noteq> f \<longrightarrow> fact_get L (object_unref L f s) g = fact_get L s g) \<and>
     (\<forall>s n f. f \<in> set (get_facts_by_name L s n) \<longrightarrow> fact_name L s f = n)"

definition ohmlib_values_ok :: "('s, 'f) ohmlib \<Rightarrow> bool" where
  "ohmlib_values_ok L \<longleftrightarrow>
     (\<forall>x. value_from_string L x = GString x) \<and>
     (\<forall>x. - (2 ^ 31) \<le> x \<and> x < 2 ^ 31 \<longrightarrow> value_from_int L x = GInt x) \<and>
     (\<forall>x. x < 2 ^ 64 \<longrightarrow> value_from_unsigned L x = GULong x) \<and>
     (\<forall>x. value_from_double L x = GDouble x) \<and>
     (\<forall>x. x < 2 ^ 64 \<longrightarrow> value_from_time L x = GUInt64 x) \<and>
     (\<forall>x. value_from_pointer L x = GPointer x)"

definition ohmlib_ok :: "('s, 'f) ohmlib \<Rightarrow> bool" where
  "ohmlib_ok L \<longleftrightarrow> ohmlib_fields_ok L \<and> ohmlib_store_ok L \<and> ohmlib_values_ok L"

text \<open>The values that survive the conversion to a \<open>GValue\<close>, and the fields they become.\<close>

fun storable :: "fvalue \<Rightarrow> bool" where
  "storable (VInteger x) = (- (2 ^ 31) \<le> x \<and> x < 2 ^ 31)"
| "storable (VUnsignd x) = (x < 2 ^ 64)"
| "storable (VTime x) = (x < 2 ^ 64)"
| "storable _ = True"

fun gvalue_of :: "fvalue \<Rightarrow> gvalue" where
  "gvalue_of (VString x) = GString x"
| "gvalue_of (VInteger x) = GInt x"
| "gvalue_of (VUnsignd x) = GULong x"
| "gvalue_of (VFloating x) = GDouble x"
| "gvalue_of (VTime x) = GUInt64 x"
| "gvalue_of (VPointer x) = GPointer x"

definition gfields :: "field list \<Rightarrow> string \<rightharpoonup> gvalue" where
  "gfields flds = map_of (map (\<lambda>(n, v). (n, gvalue_of v)) flds)"

subsection \<open>Reading back what was written\<close>

lemma read_gvalue_of: "read_gvalue (fvalue_type v) (gvalue_of v) = (True, Some v)"
  by (cases v) (simp_all add: read_gvalue_def)

lemma gvalue_field_of: "gvalue_field (gvalue_of v) = Some v"
  by (cases v) simp_all

lemma set_field_fact_set:
  assumes "ohmlib_values_ok L" and "storable v"
  shows "set_field L f n v s = fact_set L f n (gvalue_of v) s"
  using assms by (cases v) (simp_all add: set_field_def ohmlib_values_ok_def)

lemma gfields_Cons: "gfields ((n, v) # fs) = (gfields fs)(n \<mapsto> gvalue_of v)"
  by (simp add: gfields_def)

lemma gfields_append: "gfields (fs @ gs) = gfields gs ++ gfields fs"
  by (simp add: gfields_def)

lemma gfields_map_of: "gfields fs = map_option gvalue_of \<circ> map_of fs"
  by (induction fs) (auto simp: gfields_def fun_eq_iff)

lemma gfields_rev: "distinct (map fst fs) \<Longrightarrow> gfields (rev fs) = gfields fs"
proof (induction fs)
  case (Cons p fs)
  obtain n v where p: "p = (n, v)" by (cases p)
  from Cons.prems have "map_of fs n = None" by (auto simp: p map_of_eq_None_iff)
  then have "gfields fs n = None" by (simp add: gfields_map_of)
  with Cons show ?case
    by (auto simp: p gfields_append gfields_Cons gfields_def fun_eq_iff map_add_def
        split: option.split)
qed simp

lemma set_fields_frame:
  assumes "ohmlib_fields_ok L"
  shows "get_facts_by_name L (set_fields L f fs s) = get_facts_by_name L s"
    and "fact_name L (set_fields L f fs s) = fact_name L s"
    and "g \<noteq> f \<Longrightarrow> fact_get L (set_fields L f fs s) g = fact_get L s g"
  using assms
  by (induction L f fs s rule: set_fields.induct)
    (simp_all add: set_field_def ohmlib_fields_ok_def fun_eq_iff)

lemma set_fields_get:
  assumes "ohmlib_ok L" and "\<forall>(n, v) \<in> set fs. storable v"
  shows "fact_get L (set_fields L f fs s) f = fact_get L s f ++ gfields (rev fs)"
  using assms(2)
proof (induction fs arbitrary: s)
  case Nil then show ?case by (simp add: gfields_def)
next
  case (Cons p fs)
  obtain n v where p: "p = (n, v)" by (cases p)
  have "set_field L f n v s = fact_set L f n (gvalue_of v) s"
    using assms(1) Cons.prems by (intro set_field_fact_set) (auto simp: p ohmlib_ok_def)
  then have "fact_get L (set_field L f n v s) f = (fact_get L s f)(n \<mapsto> gvalue_of v)"
    using assms(1) by (auto simp: ohmlib_ok_def ohmlib_fields_ok_def)
  with Cons show ?case
    by (auto simp: p gfields_append gfields_Cons gfields_def fun_eq_iff map_add_def
        split: option.split)
qed

subsection \<open>The fact store as a keyed store\<close>

text \<open>
  Clients that keep one fact per key (the resource sets, keyed by their manager id) see the
  facts of one name as a map from keys to fields.
\<close>

definition key_sel :: "string \<Rightarrow> int \<Rightarrow> field list" where
  "key_sel key k = [(key, VInteger k)]"

definition key_of :: "('s, 'f) ohmlib \<Rightarrow> string \<Rightarrow> 's \<Rightarrow> 'f \<Rightarrow> fvalue option" where
  "key_of L key s f = snd (get_field L s (Some f) fldtype_integer (Some key))"

definition keyed_inv :: "('s, 'f) ohmlib \<Rightarrow> string \<Rightarrow> string \<Rightarrow> 's \<Rightarrow> bool" where
  "keyed_inv L name key s \<longleftrightarrow>
     ohmlib_ok L \<and> inj_on (key_of L key s) (set (get_facts_by_name L s name))"

definition keyed_view ::
  "('s, 'f) ohmlib \<Rightarrow> string \<Rightarrow> string \<Rightarrow> 's \<Rightarrow> int \<Rightarrow> (string \<rightharpoonup> gvalue) option" where
  "keyed_view L name key s k =
     (case find_entry L s name (Some (key_sel key k)) of
        Some (Some f) \<Rightarrow> Some (fact_get L s f)
      | _ \<Rightarrow> None)"

lemma key_of_integer: "\<exists>i. key_of L key s f = Some (VInteger i)"
  by (auto simp: key_of_def get_field_def read_gvalue_def split: option.splits gvalue.splits)

lemma match_key: "matching_entry L s (Some f) (Some (key_sel key k)) =
    Some (key_of L key s f = Some (VInteger k))"
proof -
  obtain i where "key_of L key s f = Some (VInteger i)" using key_of_integer [of L key s f] ..
  then show ?thesis
    by (simp add: matching_entry_def key_sel_def match_field_def key_of_def split: bool.split)
qed

lemma find_entry_key:
  "find_entry L s name (Some (key_sel key k)) =
    Some (find (\<lambda>f. key_of L key s f = Some (VInteger k)) (get_facts_by_name L s name))"
proof -
  have "first_match L s (Some (key_sel key k)) fs =
      Some (find (\<lambda>f. key_of L key s f = Some (VInteger k)) fs)" for fs
    by (induction fs) (simp_all add: match_key)
  then show ?thesis by (simp add: find_entry_def)
qed

lemma find_inj:
  assumes "inj_on g (set xs)"
  shows "find (\<lambda>x. g x = y) xs = Some x \<longleftrightarrow> x \<in> set xs \<and> g x = y"
proof
  show "find (\<lambda>x. g x = y) xs = Some x \<Longrightarrow> x \<in> set xs \<and> g x = y"
    by (auto simp: find_Some_iff)
next
  assume x: "x \<in> set xs \<and> g x = y"
  then obtain z where z: "find (\<lambda>x. g x = y) xs = Some z"
    by (cases "find (\<lambda>x. g x = y) xs") (auto simp: find_None_iff)
  then have "z \<in> set xs \<and> g z = y" by (auto simp: find_Some_iff)
  with x assms z show "find (\<lambda>x. g x = y) xs = Some x" by (auto dest: inj_onD)
qed

lemma find_entry_key_iff:
  assumes "keyed_inv L name key s"
  shows "find_entry L s name (Some (key_sel key k)) = Some (Some f) \<longleftrightarrow>
    f \<in> set (get_facts_by_name L s name) \<and> key_of L key s f = Some (VInteger k)"
  using assms find_inj [of "key_of L key s" "get_facts_by_name L s name" "Some (VInteger k)" f]
  by (simp add: find_entry_key keyed_inv_def)

lemma keyed_view_Some_iff:
  assumes "keyed_inv L name key s"
  shows "keyed_view L name key s k = Some m \<longleftrightarrow>
    (\<exists>f \<in> set (get_facts_by_name L s name).
       key_of L key s f = Some (VInteger k) \<and> m = fact_get L s f)"
proof (cases "find_entry L s name (Some (key_sel key k))")
  case None then show ?thesis by (simp add: find_entry_key)
next
  case (Some r)
  note iff = find_entry_key_iff [OF assms, of k, unfolded Some]
  show ?thesis
  proof (cases r)
    case None
    with iff show ?thesis by (auto simp: keyed_view_def Some)
  next
    case (Some f')
    then have "keyed_view L name key s k = Some (fact_get L s f')"
      using \<open>find_entry L s name (Some (key_sel key k)) = Some r\<close> by (simp add: keyed_view_def)
    with iff Some show ?thesis by (metis option.inject)
  qed
qed

lemma keyed_view_eqI:
  assumes "keyed_inv L name key s"
    and "\<And>m. v k = Some m \<longleftrightarrow> (\<exists>f \<in> set (get_facts_by_name L s name).
       key_of L key s f = Some (VInteger k) \<and> m = fact_get L s f)"
  shows "keyed_view L name key s k = v k"
  using keyed_view_Some_iff [OF assms(1), of k] assms(2)
  by (metis not_Some_eq option.exhaust)

lemma key_of_cong:
  "fact_get L s' f = fact_get L s f \<Longrightarrow> key_of L key s' f = key_of L key s f"
  by (simp add: key_of_def get_field_def)

lemma key_of_set_fields:
  assumes "ohmlib_ok L" and "\<forall>(n, v) \<in> set fs. storable v" and "key \<notin> fst ` set fs"
  shows "key_of L key (set_fields L f fs s) g = key_of L key s g"
proof -
  have "gfields (rev fs) key = None"
    using assms(3) by (simp add: gfields_map_of map_of_eq_None_iff)
  then have "fact_get L (set_fields L f fs s) g key = fact_get L s g key"
    using set_fields_get [OF assms(1,2), of f s] set_fields_frame(3) [of L g f fs s] assms(1)
    by (cases "g = f") (simp_all add: ohmlib_ok_def map_add_dom_app_simps domIff)
  then show ?thesis by (simp add: key_of_def get_field_def)
qed

lemma keyed_unique:
  assumes "keyed_inv L name key s"
    and "f \<in> set (get_facts_by_name L s name)" and "g \<in> set (get_facts_by_name L s name)"
    and "key_of L key s f = key_of L key s g"
  shows "f = g"
  using assms by (auto simp: keyed_inv_def dest: inj_onD)

lemma keyed_invI:
  assumes "keyed_inv L name key s"
    and "set (get_facts_by_name L s' name) \<subseteq> set (get_facts_by_name L s name)"
    and "\<And>f. f \<in> set (get_facts_by_name L s' name) \<Longrightarrow> key_of L key s' f = key_of L key s f"
  shows "keyed_inv L name key s'"
  using assms unfolding keyed_inv_def inj_on_def by (metis subsetD)

lemma keyed_update:
  assumes inv: "keyed_inv L name key s" and flds: "\<forall>(n, v) \<in> set flds. storable v"
    and key: "key \<notin> fst ` set flds"
  shows "case keyed_view L name key s k of
      None \<Rightarrow> fsif_update_factstore_entry L name (Some (key_sel key k)) flds s = Some (False, s)
    | Some m \<Rightarrow> \<exists>s'. fsif_update_factstore_entry L name (Some (key_sel key k)) flds s =
          Some (True, s') \<and> keyed_inv L name key s' \<and>
        keyed_view L name key s' = (keyed_view L name key s)(k \<mapsto> m ++ gfields (rev flds))"
proof (cases "keyed_view L name key s k")
  case None
  then show ?thesis
    by (auto simp: fsif_update_factstore_entry_def keyed_view_def find_entry_key
        split: option.splits)
next
  case (Some m)
  have ok: "ohmlib_ok L" "ohmlib_fields_ok L" using inv by (auto simp: keyed_inv_def ohmlib_ok_def)
  from Some obtain f where f: "find_entry L s name (Some (key_sel key k)) = Some (Some f)"
    "m = fact_get L s f" by (auto simp: keyed_view_def split: option.splits)
  let ?s = "set_fields L f flds s"
  note kf = key_of_set_fields [OF ok(1) flds key]
  have inv': "keyed_inv L name key ?s"
    by (rule keyed_invI [OF inv]) (simp_all add: set_fields_frame(1) [OF ok(2)] kf)
  have fs: "f \<in> set (get_facts_by_name L s name)" "key_of L key s f = Some (VInteger k)"
    using f(1) by (simp_all add: find_entry_key_iff [OF inv])
  have get: "fact_get L ?s g =
      (if g = f then m ++ gfields (rev flds) else fact_get L s g)" for g
    using set_fields_get [OF ok(1) flds] set_fields_frame(3) [OF ok(2)] f(2) by simp
  have "keyed_view L name key ?s j =
      ((keyed_view L name key s)(k \<mapsto> m ++ gfields (rev flds))) j" for j
  proof (rule keyed_view_eqI [OF inv'])
    fix m'
    have uniq: "g = f" if "g \<in> set (get_facts_by_name L s name)"
      "key_of L key s g = Some (VInteger k)" for g
      by (rule keyed_unique [OF inv]) (use that fs in simp_all)
    show "((keyed_view L name key s)(k \<mapsto> m ++ gfields (rev flds))) j = Some m' \<longleftrightarrow>
        (\<exists>g \<in> set (get_facts_by_name L ?s name).
           key_of L key ?s g = Some (VInteger j) \<and> m' = fact_get L ?s g)"
    proof (cases "j = k")
      case True
      have "(\<exists>g \<in> set (get_facts_by_name L s name). key_of L key s g = Some (VInteger k) \<and>
          m' = fact_get L ?s g) = (m' = fact_get L ?s f)" using fs uniq by blast
      with True show ?thesis by (auto simp: set_fields_frame(1) [OF ok(2)] kf get)
    next
      case False
      with fs(2) have "fact_get L ?s g = fact_get L s g" if "key_of L key s g = Some (VInteger j)"
        for g using that by (auto simp: get)
      with False show ?thesis
        by (auto simp: set_fields_frame(1) [OF ok(2)] kf keyed_view_Some_iff [OF inv])
    qed
  qed
  then have "keyed_view L name key ?s =
      (keyed_view L name key s)(k \<mapsto> m ++ gfields (rev flds))" by (rule ext)
  with f(1) Some inv' show ?thesis by (simp add: fsif_update_factstore_entry_def)
qed

lemma keyed_delete:
  assumes inv: "keyed_inv L name key s"
  shows "case keyed_view L name key s k of
      None \<Rightarrow> fsif_delete_factstore_entry L name (Some (key_sel key k)) s = Some (False, s)
    | Some m \<Rightarrow> \<exists>s'. fsif_delete_factstore_entry L name (Some (key_sel key k)) s =
          Some (True, s') \<and> keyed_inv L name key s' \<and>
        keyed_view L name key s' = (keyed_view L name key s)(k := None)"
proof (cases "keyed_view L name key s k")
  case None
  then show ?thesis
    by (auto simp: fsif_delete_factstore_entry_def keyed_view_def find_entry_key
        split: option.splits)
next
  case (Some m)
  from Some obtain f where f: "find_entry L s name (Some (key_sel key k)) = Some (Some f)"
    by (auto simp: keyed_view_def split: option.splits)
  let ?s = "object_unref L f (store_remove L f s)"
  have st: "ohmlib_store_ok L" using inv by (simp add: keyed_inv_def ohmlib_ok_def)
  have facts: "set (get_facts_by_name L ?s name) = set (get_facts_by_name L s name) - {f}"
    using st by (simp add: ohmlib_store_ok_def)
  have get: "fact_get L ?s g = fact_get L s g" if "g \<noteq> f" for g
    using st that unfolding ohmlib_store_ok_def by metis
  have kf: "key_of L key ?s g = key_of L key s g" if "g \<noteq> f" for g
    by (rule key_of_cong) (rule get [OF that])
  have fs: "f \<in> set (get_facts_by_name L s name)" "key_of L key s f = Some (VInteger k)"
    using f by (simp_all add: find_entry_key_iff [OF inv])
  have uniq: "g = f" if "g \<in> set (get_facts_by_name L s name)"
    "key_of L key s g = Some (VInteger k)" for g
    by (rule keyed_unique [OF inv]) (use that fs in simp_all)
  have inv': "keyed_inv L name key ?s"
    by (rule keyed_invI [OF inv]) (use facts kf in auto)
  have "keyed_view L name key ?s j = ((keyed_view L name key s)(k := None)) j" for j
  proof (rule keyed_view_eqI [OF inv'])
    fix m'
    show "((keyed_view L name key s)(k := None)) j = Some m' \<longleftrightarrow>
        (\<exists>g \<in> set (get_facts_by_name L ?s name).
           key_of L key ?s g = Some (VInteger j) \<and> m' = fact_get L ?s g)"
    proof (cases "j = k")
      case True
      with uniq kf show ?thesis by (auto simp: facts)
    next
      case False
      with fs(2) have neq: "g \<noteq> f" if "key_of L key s g = Some (VInteger j)" for g
        using that by auto
      have "(\<exists>g \<in> set (get_facts_by_name L s name) - {f}.
           key_of L key ?s g = Some (VInteger j) \<and> m' = fact_get L ?s g) =
         (\<exists>g \<in> set (get_facts_by_name L s name) - {f}.
           key_of L key s g = Some (VInteger j) \<and> m' = fact_get L s g)"
        by (rule bex_cong [OF refl]) (simp add: kf get)
      also have "\<dots> = (\<exists>g \<in> set (get_facts_by_name L s name).
           key_of L key s g = Some (VInteger j) \<and> m' = fact_get L s g)"
        using neq by blast
      finally show ?thesis using False by (simp add: facts keyed_view_Some_iff [OF inv])
    qed
  qed
  then have "keyed_view L name key ?s = (keyed_view L name key s)(k := None)" by (rule ext)
  with f Some inv' show ?thesis by (simp add: fsif_delete_factstore_entry_def)
qed

lemma keyed_view_None:
  assumes "keyed_inv L name key s"
  shows "keyed_view L name key s k = None \<longleftrightarrow>
    (\<forall>f \<in> set (get_facts_by_name L s name). key_of L key s f \<noteq> Some (VInteger k))"
  using keyed_view_Some_iff [OF assms, of k] by (metis not_None_eq)

lemma keyed_extend:
  assumes inv: "keyed_inv L name key s" and new: "keyed_view L name key s k = None"
    and facts: "set (get_facts_by_name L s' name) = insert f (set (get_facts_by_name L s name))"
    and f: "f \<notin> set (get_facts_by_name L s name)" "key_of L key s' f = Some (VInteger k)"
    and get: "\<And>g. g \<noteq> f \<Longrightarrow> fact_get L s' g = fact_get L s g"
  shows "keyed_inv L name key s' \<and>
    keyed_view L name key s' = (keyed_view L name key s)(k \<mapsto> fact_get L s' f)"
proof -
  have kf: "key_of L key s' g = key_of L key s g" if "g \<noteq> f" for g
    by (rule key_of_cong) (rule get [OF that])
  have other: "key_of L key s' g = key_of L key s g \<and> fact_get L s' g = fact_get L s g \<and>
      key_of L key s g \<noteq> Some (VInteger k)" if "g \<in> set (get_facts_by_name L s name)" for g
  proof -
    have "g \<noteq> f" using that f(1) by auto
    then show ?thesis using kf get new that by (simp add: keyed_view_None [OF inv])
  qed
  have "inj_on (key_of L key s') (set (get_facts_by_name L s name))"
    using inv other unfolding keyed_inv_def inj_on_def by metis
  moreover have "key_of L key s' f \<notin> key_of L key s' ` set (get_facts_by_name L s name)"
    using other f(2) by force
  ultimately have inv': "keyed_inv L name key s'"
    using inv facts by (auto simp: keyed_inv_def)
  have "keyed_view L name key s' j =
      ((keyed_view L name key s)(k \<mapsto> fact_get L s' f)) j" for j
  proof (rule keyed_view_eqI [OF inv'])
    fix m
    have "(\<exists>g \<in> set (get_facts_by_name L s name).
        key_of L key s' g = Some (VInteger j) \<and> m = fact_get L s' g) =
      (\<exists>g \<in> set (get_facts_by_name L s name).
        key_of L key s g = Some (VInteger j) \<and> m = fact_get L s g)"
      by (rule bex_cong [OF refl]) (simp add: other)
    then show "((keyed_view L name key s)(k \<mapsto> fact_get L s' f)) j = Some m \<longleftrightarrow>
        (\<exists>g \<in> set (get_facts_by_name L s' name).
           key_of L key s' g = Some (VInteger j) \<and> m = fact_get L s' g)"
      using f(2) other by (auto simp: facts keyed_view_Some_iff [OF inv])
  qed
  with inv' show ?thesis by (intro conjI ext) simp_all
qed

lemma keyed_same:
  assumes inv: "keyed_inv L name key s"
    and facts: "set (get_facts_by_name L s' name) = set (get_facts_by_name L s name)"
    and get: "\<And>g. g \<in> set (get_facts_by_name L s name) \<Longrightarrow> fact_get L s' g = fact_get L s g"
  shows "keyed_inv L name key s' \<and> keyed_view L name key s' = keyed_view L name key s"
proof -
  have kf: "key_of L key s' g = key_of L key s g" if "g \<in> set (get_facts_by_name L s name)" for g
    by (rule key_of_cong) (rule get [OF that])
  have inv': "keyed_inv L name key s'" by (rule keyed_invI [OF inv]) (simp_all add: facts kf)
  have "keyed_view L name key s' j = keyed_view L name key s j" for j
    by (rule keyed_view_eqI [OF inv']) (auto simp: facts kf get keyed_view_Some_iff [OF inv])
  with inv' show ?thesis by (intro conjI ext) simp_all
qed

lemma fact_new_None: "ohmlib_store_ok L \<Longrightarrow> fact_new L n s = (None, s') \<Longrightarrow> s' = s"
  by (simp add: ohmlib_store_ok_def)

lemma fact_new_Some:
  assumes "ohmlib_store_ok L" and "fact_new L n s = (Some f, s')"
  shows "fact_name L s' f = n \<and> (\<forall>m. f \<notin> set (get_facts_by_name L s m)) \<and>
    fact_get L s' f = Map.empty \<and> get_facts_by_name L s' = get_facts_by_name L s \<and>
    (\<forall>g. g \<noteq> f \<longrightarrow> fact_get L s' g = fact_get L s g \<and> fact_name L s' g = fact_name L s g)"
  using assms(2) assms(1) [unfolded ohmlib_store_ok_def, THEN conjunct2, THEN conjunct1] by simp

lemma store_insert_ok:
  assumes "ohmlib_store_ok L" and "store_insert L f s = (ok, s')"
  shows "fact_get L s' = fact_get L s \<and> fact_name L s' = fact_name L s \<and>
    (\<forall>n. set (get_facts_by_name L s' n) =
       (if ok \<and> n = fact_name L s f then insert f (set (get_facts_by_name L s n))
        else set (get_facts_by_name L s n)))"
  using assms(2)
    assms(1) [unfolded ohmlib_store_ok_def, THEN conjunct2, THEN conjunct2, THEN conjunct1]
  by simp

lemma keyed_add:
  assumes inv: "keyed_inv L name key s" and new: "keyed_view L name key s k = None"
    and flds: "\<forall>(n, v) \<in> set flds. storable v" and dist: "distinct (map fst flds)"
    and key: "(key, VInteger k) \<in> set flds"
    and add: "fsif_add_factstore_entry L (Some name) (Some flds) s = (ok, s')"
  shows "keyed_inv L name key s' \<and> keyed_view L name key s' =
    (if ok then (keyed_view L name key s)(k \<mapsto> gfields flds) else keyed_view L name key s)"
proof -
  have lib: "ohmlib_ok L" "ohmlib_fields_ok L" "ohmlib_store_ok L"
    using inv by (auto simp: keyed_inv_def ohmlib_ok_def)
  show ?thesis
  proof (cases "fact_new L name s")
    case (Pair r s1)
    show ?thesis
    proof (cases r)
      case None
      with Pair lib(3) have "s1 = s" by (simp add: fact_new_None)
      with add inv Pair None show ?thesis by (simp add: fsif_add_factstore_entry_def)
    next
      case (Some f)
      let ?s2 = "set_fields L f flds s1"
      note s1 = fact_new_Some [OF lib(3) Pair [unfolded Some]]
      from add Pair Some have "store_insert L f ?s2 = (ok, s')"
        by (cases "store_insert L f ?s2")
          (auto simp: fsif_add_factstore_entry_def split: if_splits)
      note s' = store_insert_ok [OF lib(3) this]
      have get: "fact_get L s' f = gfields flds"
        using s' s1 set_fields_get [OF lib(1) flds] by (simp add: gfields_rev [OF dist])
      have other: "fact_get L s' g = fact_get L s g" if "g \<noteq> f" for g
        using s' s1 set_fields_frame(3) [OF lib(2) that] that by simp
      have facts: "set (get_facts_by_name L s' name) =
          (if ok then insert f (set (get_facts_by_name L s name))
           else set (get_facts_by_name L s name))"
        using s' s1 set_fields_frame(1,2) [OF lib(2)] by simp
      have "gfields flds key = Some (GInt k)"
        using key dist by (simp add: gfields_map_of)
      then have kf: "key_of L key s' f = Some (VInteger k)"
        by (simp add: key_of_def get_field_def get read_gvalue_def)
      have fresh: "f \<notin> set (get_facts_by_name L s name)" using s1 by simp
      show ?thesis
      proof (cases ok)
        case True
        with facts keyed_extend [OF inv new _ fresh kf other] get show ?thesis by simp
      next
        case False
        with facts fresh have "keyed_inv L name key s' \<and>
            keyed_view L name key s' = keyed_view L name key s"
          by (intro keyed_same [OF inv]) (auto intro: other)
        with False show ?thesis by simp
      qed
    qed
  qed
qed

text \<open>The contract a client with one fact per key relies on.\<close>

definition fields_ok :: "string \<Rightarrow> field list \<Rightarrow> bool" where
  "fields_ok key flds \<longleftrightarrow>
     (\<forall>(n, v) \<in> set flds. storable v) \<and> distinct (map fst flds) \<and> key \<notin> fst ` set flds"

locale keyed_store =
  fixes key :: string
    and inv :: "'s \<Rightarrow> bool"
    and view :: "'s \<Rightarrow> int \<Rightarrow> (string \<rightharpoonup> gvalue) option"
    and add :: "field list \<Rightarrow> 's \<Rightarrow> bool \<times> 's"
    and upd :: "int \<Rightarrow> field list \<Rightarrow> 's \<Rightarrow> (bool \<times> 's) option"
    and del :: "int \<Rightarrow> 's \<Rightarrow> (bool \<times> 's) option"
  assumes add_new: "inv s \<Longrightarrow> view s k = None \<Longrightarrow> fields_ok key flds \<Longrightarrow> storable (VInteger k) \<Longrightarrow>
      add ((key, VInteger k) # flds) s = (ok, s') \<Longrightarrow>
      inv s' \<and> view s' = (if ok then (view s)(k \<mapsto> gfields ((key, VInteger k) # flds)) else view s)"
    and upd_None: "inv s \<Longrightarrow> view s k = None \<Longrightarrow> fields_ok key flds \<Longrightarrow> upd k flds s = Some (False, s)"
    and upd_Some: "inv s \<Longrightarrow> view s k = Some m \<Longrightarrow> fields_ok key flds \<Longrightarrow>
      \<exists>s'. upd k flds s = Some (True, s') \<and> inv s' \<and> view s' = (view s)(k \<mapsto> m ++ gfields flds)"
    and del_None: "inv s \<Longrightarrow> view s k = None \<Longrightarrow> del k s = Some (False, s)"
    and del_Some: "inv s \<Longrightarrow> view s k = Some m \<Longrightarrow>
      \<exists>s'. del k s = Some (True, s') \<and> inv s' \<and> view s' = (view s)(k := None)"
begin

lemma upd_total:
  assumes "inv s" and "fields_ok key flds"
  shows "\<exists>ok s'. upd k flds s = Some (ok, s') \<and> inv s' \<and> ok = (view s k \<noteq> None) \<and>
    view s' = (view s)(k := map_option (\<lambda>m. m ++ gfields flds) (view s k))"
proof (cases "view s k")
  case None
  then have "(view s)(k := None) = view s" by auto
  with upd_None [OF assms(1) None assms(2)] assms(1) None show ?thesis by auto
next
  case (Some m)
  with upd_Some [OF assms(1) Some assms(2)] show ?thesis by auto
qed

lemma del_total:
  assumes "inv s"
  shows "\<exists>ok s'. del k s = Some (ok, s') \<and> inv s' \<and> ok = (view s k \<noteq> None) \<and>
    view s' = (view s)(k := None)"
proof (cases "view s k")
  case None
  then have "(view s)(k := None) = view s" by auto
  with del_None [OF assms None] assms None show ?thesis by auto
next
  case (Some m)
  with del_Some [OF assms Some] show ?thesis by auto
qed

text \<open>An added entry reads back, and deleting it undoes the addition.\<close>

lemma add_del:
  assumes "inv s" and "view s k = None" and "fields_ok key flds" and "storable (VInteger k)"
    and "add ((key, VInteger k) # flds) s = (True, s1)"
  shows "\<exists>s2. del k s1 = Some (True, s2) \<and> inv s2 \<and> view s2 = view s"
proof -
  from add_new [OF assms] have s1: "inv s1"
    "view s1 = (view s)(k \<mapsto> gfields ((key, VInteger k) # flds))" by simp_all
  from s1(2) have "view s1 k = Some (gfields ((key, VInteger k) # flds))" by simp
  from del_Some [OF s1(1) this] obtain s2 where "del k s1 = Some (True, s2)" "inv s2"
    "view s2 = (view s1)(k := None)" by blast
  with s1(2) assms(2) show ?thesis by (auto simp: fun_upd_idem)
qed

end

interpretation fsif_keyed: keyed_store key "keyed_inv L name key" "keyed_view L name key"
    "\<lambda>flds. fsif_add_factstore_entry L (Some name) (Some flds)"
    "\<lambda>k flds. fsif_update_factstore_entry L name (Some (key_sel key k)) flds"
    "\<lambda>k. fsif_delete_factstore_entry L name (Some (key_sel key k))"
  for L :: "('s, 'f) ohmlib" and name key :: string
proof (unfold_locales, goal_cases)
  case (1 s k flds ok s')
  then show ?case
    by (intro keyed_add) (auto simp: fields_ok_def image_iff)
next
  case (2 s k flds)
  then show ?case using keyed_update [of L name key s flds k] by (simp add: fields_ok_def)
next
  case (3 s k m flds)
  then show ?case
    using keyed_update [of L name key s flds k] by (simp add: fields_ok_def gfields_rev)
next
  case (4 s k) then show ?case using keyed_delete [of L name key s k] by simp
next
  case (5 s k m) then show ?case using keyed_delete [of L name key s k] by simp
qed

subsection \<open>A library that meets the contract\<close>

text \<open>
  A fact store in memory, the concrete instance at which the hypotheses on the library are
  shown to be satisfiable.
\<close>

record mem_store =
  cells :: "nat \<Rightarrow> string \<times> (string \<rightharpoonup> gvalue)"
  listed :: "nat list"

definition mem_fresh :: "mem_store \<Rightarrow> nat" where
  "mem_fresh s = Suc (foldr max (listed s) 0)"

definition mem_lib :: "(mem_store, nat) ohmlib" where
  "mem_lib = \<lparr>
     get_facts_by_name = (\<lambda>s n. filter (\<lambda>f. fst (cells s f) = n) (listed s)),
     store_insert = (\<lambda>f s. (True, s\<lparr>listed := f # listed s\<rparr>)),
     store_remove = (\<lambda>f s. s\<lparr>listed := filter (\<lambda>g. g \<noteq> f) (listed s)\<rparr>),
     object_unref = (\<lambda>f s. s),
     fact_new = (\<lambda>n s. (Some (mem_fresh s),
                        s\<lparr>cells := (cells s)(mem_fresh s := (n, Map.empty))\<rparr>)),
     fact_name = (\<lambda>s f. fst (cells s f)),
     fact_get = (\<lambda>s f. snd (cells s f)),
     fact_set = (\<lambda>f n v s. s\<lparr>cells := (cells s)(f := (fst (cells s f), (snd (cells s f))(n \<mapsto> v)))\<rparr>),
     value_from_string = GString, value_from_int = GInt, value_from_unsigned = GULong,
     value_from_double = GDouble, value_from_time = GUInt64, value_from_pointer = GPointer\<rparr>"

definition mem_empty :: mem_store where
  "mem_empty = \<lparr>cells = (\<lambda>_. ([], Map.empty)), listed = []\<rparr>"

lemma mem_fresh: "f \<in> set (listed s) \<Longrightarrow> f < mem_fresh s"
proof -
  have "f \<in> set xs \<Longrightarrow> f \<le> foldr max xs 0" for xs :: "nat list" by (induction xs) auto
  then show "f \<in> set (listed s) \<Longrightarrow> f < mem_fresh s" by (simp add: mem_fresh_def less_Suc_eq_le)
qed

lemma mem_fresh_notin: "mem_fresh s \<notin> set (listed s)"
  using mem_fresh [of "mem_fresh s" s] by blast

lemma mem_filter:
  "filter (\<lambda>f. fst (((cells s)(mem_fresh s := c)) f) = n) (listed s) =
    filter (\<lambda>f. fst (cells s f) = n) (listed s)"
  by (rule filter_cong) (use mem_fresh_notin in auto)

lemma mem_lib_ok: "ohmlib_ok mem_lib"
proof -
  have "ohmlib_fields_ok mem_lib"
    unfolding ohmlib_fields_ok_def
    by (auto simp: mem_lib_def fun_eq_iff intro!: filter_cong)
  moreover have "ohmlib_store_ok mem_lib"
    unfolding ohmlib_store_ok_def
    using mem_fresh_notin mem_filter by (auto simp: mem_lib_def fun_eq_iff)
  moreover have "ohmlib_values_ok mem_lib" by (simp add: ohmlib_values_ok_def mem_lib_def)
  ultimately show ?thesis by (simp add: ohmlib_ok_def)
qed

lemma mem_empty_inv: "keyed_inv mem_lib name key mem_empty"
  by (simp add: keyed_inv_def mem_lib_ok) (simp add: mem_lib_def mem_empty_def)

subsection \<open>Watch points: ids and order of the calls\<close>

definition all_entries :: "'cb watches \<Rightarrow> 'cb watch_entry list" where
  "all_entries w = concat (map wf_entries (wfact_inserts w @ wfact_removes w @ wfact_updates w))"

definition watch_inv :: "'cb watches \<Rightarrow> bool" where
  "watch_inv w \<longleftrightarrow>
     (\<forall>t. distinct (map wf_name (watch_facts t w))) \<and>
     distinct (map w_id (all_entries w)) \<and>
     (\<forall>e \<in> set (all_entries w). 1 \<le> w_id e \<and> w_id e < watch_id w) \<and> 1 \<le> watch_id w"

lemma watch_facts_set [simp]:
  "t \<noteq> watch_unknown \<Longrightarrow>
    watch_facts u (set_watch_facts t fs w) = (if u = t then fs else watch_facts u w)"
  "watch_facts t (w\<lparr>watch_id := i\<rparr>) = watch_facts t w"
  "watch_id (set_watch_facts t fs w) = watch_id w"
  by (cases t; cases u; simp add: watch_facts_def set_watch_facts_def)
    (cases t; simp add: watch_facts_def set_watch_facts_def)+

lemma find_watch_facts:
  "find_watch (Some n) t w = find (\<lambda>wft. n = wf_name wft) (watch_facts t w)"
  by (simp add: find_watch_def)

lemma push_entry_names: "map wf_name (push_entry n e fs) = map wf_name fs"
  by (induction fs) simp_all

lemma find_push_entry:
  "find (\<lambda>wft. m = wf_name wft) (push_entry n e fs) =
    (case find (\<lambda>wft. m = wf_name wft) fs of
       None \<Rightarrow> None
     | Some wft \<Rightarrow> Some (if m = n then wft\<lparr>wf_entries := e # wf_entries wft\<rparr> else wft))"
  by (induction fs) (auto split: option.split)

lemma find_name_None: "find (\<lambda>wft. n = wf_name wft) fs = None \<longleftrightarrow> n \<notin> wf_name ` set fs"
  by (auto simp: find_None_iff)

lemma push_entry_entries:
  "n \<in> wf_name ` set fs \<Longrightarrow>
    mset (concat (map wf_entries (push_entry n e fs))) =
    add_mset e (mset (concat (map wf_entries fs)))"
  by (induction fs) auto

text \<open>The entries registered for a fact name, newest first.\<close>

definition entries_for :: "watch_type \<Rightarrow> string \<Rightarrow> 'cb watches \<Rightarrow> 'cb watch_entry list" where
  "entries_for t n w = (case find_watch (Some n) t w of None \<Rightarrow> [] | Some wft \<Rightarrow> wf_entries wft)"

lemma watch_cb_entries:
  "watch_cb t L s w (Some f) =
    map (\<lambda>e. (w_callback e, f, fact_name L s f)) (entries_for t (fact_name L s f) w)"
  by (simp add: watch_cb_def entries_for_def split: option.split)

lemma updated_cb_entries:
  "updated_cb L s w (Some f) fname (Some gval) =
    updated_loop L s f fname gval (entries_for watch_update (fact_name L s f) w)"
  by (simp add: updated_cb_def entries_for_def split: option.split)

lemma add_watch_entries:
  assumes "t \<noteq> watch_unknown" and "add_watch n t sel fld cb mem1 mem2 w = (i, w')" and "i \<noteq> -1"
  shows "i = watch_id w \<and> watch_id w' = watch_id w + 1 \<and>
    entries_for u m w' = (if u = t \<and> m = n
      then \<lparr>w_id = i, w_selist = sel, w_fldname = fld, w_callback = cb\<rparr> # entries_for u m w
      else entries_for u m w)"
proof (cases "find_watch (Some n) t w")
  case None
  with assms show ?thesis
    by (auto simp: add_watch_def Let_def entries_for_def find_watch_facts find_push_entry
        split: if_splits option.split) (metis watch_fact.select_convs(2))
next
  case (Some wft)
  with assms show ?thesis
    by (auto simp: add_watch_def Let_def entries_for_def find_watch_facts find_push_entry
        split: if_splits option.split)
qed

lemma all_entries_set:
  "t \<noteq> watch_unknown \<Longrightarrow>
    mset (all_entries (set_watch_facts t fs w)) + mset (concat (map wf_entries (watch_facts t w))) =
    mset (all_entries w) + mset (concat (map wf_entries fs))"
  by (cases t) (simp_all add: all_entries_def set_watch_facts_def watch_facts_def)

lemma all_entries_id [simp]: "all_entries (w\<lparr>watch_id := i\<rparr>) = all_entries w"
  by (simp add: all_entries_def)

lemma watch_inv_name:
  assumes "watch_inv w" and "t \<noteq> watch_unknown" and "find_watch (Some n) t w = None"
  shows "watch_inv (set_watch_facts t (\<lparr>wf_name = n, wf_entries = []\<rparr> # watch_facts t w) w)"
proof -
  let ?w = "set_watch_facts t (\<lparr>wf_name = n, wf_entries = []\<rparr> # watch_facts t w) w"
  have m: "mset (all_entries ?w) = mset (all_entries w)"
    using all_entries_set [OF assms(2), of "\<lparr>wf_name = n, wf_entries = []\<rparr> # watch_facts t w" w]
    by simp
  then have "mset (map w_id (all_entries ?w)) = mset (map w_id (all_entries w))" by simp
  then have "distinct (map w_id (all_entries ?w)) = distinct (map w_id (all_entries w))"
    by (rule mset_eq_imp_distinct_iff)
  moreover from m have "set (all_entries ?w) = set (all_entries w)" by (rule mset_eq_setD)
  ultimately show ?thesis
    using assms by (auto simp: watch_inv_def find_watch_facts find_name_None)
qed

lemma watch_inv_push:
  assumes "watch_inv w" and "t \<noteq> watch_unknown" and "n \<in> wf_name ` set (watch_facts t w)"
    and "w_id e = watch_id w"
  shows "watch_inv ((set_watch_facts t (push_entry n e (watch_facts t w)) w)
    \<lparr>watch_id := watch_id w + 1\<rparr>)"
proof -
  let ?w = "set_watch_facts t (push_entry n e (watch_facts t w)) w"
  have m: "mset (all_entries ?w) = mset (e # all_entries w)"
    using all_entries_set [OF assms(2), of "push_entry n e (watch_facts t w)" w]
      push_entry_entries [OF assms(3), of e] by simp
  then have "mset (map w_id (all_entries ?w)) = mset (w_id e # map w_id (all_entries w))" by simp
  then have "distinct (map w_id (all_entries ?w)) = distinct (w_id e # map w_id (all_entries w))"
    by (rule mset_eq_imp_distinct_iff)
  moreover from mset_eq_setD [OF m] have "set (all_entries ?w) = insert e (set (all_entries w))"
    by simp
  moreover have "w_id e \<notin> w_id ` set (all_entries w)"
    using assms(1,4) by (force simp: watch_inv_def)
  ultimately show ?thesis
    using assms by (auto simp: watch_inv_def push_entry_names)
qed

lemma add_watch_inv:
  assumes "watch_inv w" and "t \<noteq> watch_unknown"
  shows "watch_inv (snd (add_watch n t sel fld cb mem1 mem2 w))"
proof -
  let ?e = "\<lparr>w_id = watch_id w, w_selist = sel, w_fldname = fld, w_callback = cb\<rparr>"
  show ?thesis
  proof (cases "find_watch (Some n) t w")
    case None
    let ?w = "set_watch_facts t (\<lparr>wf_name = n, wf_entries = []\<rparr> # watch_facts t w) w"
    have "watch_inv ?w" by (rule watch_inv_name [OF assms None])
    from this watch_inv_push [OF this assms(2), of n ?e] assms None show ?thesis
      by (simp add: add_watch_def Let_def)
  next
    case (Some wft)
    then have "n \<in> wf_name ` set (watch_facts t w)"
      by (force simp: find_watch_facts find_Some_iff)
    from watch_inv_push [OF assms this, of ?e] assms Some show ?thesis
      by (simp add: add_watch_def Let_def)
  qed
qed

lemma init_watch_inv: "watch_inv (init_watches :: 'a watches)"
proof -
  have "watch_facts t (init_watches :: 'a watches) = []" for t :: watch_type
    by (cases t) (simp_all add: init_watches_def watch_facts_def)
  then show ?thesis by (simp add: watch_inv_def all_entries_def) (simp add: init_watches_def)
qed

text \<open>Registration by the two exported functions.\<close>

lemma fsif_add_fact_watch_inv:
  "watch_inv w \<Longrightarrow> watch_inv (snd (fsif_add_fact_watch n t cb m1 m2 w))"
  by (auto simp: fsif_add_fact_watch_def add_watch_inv split: option.split)

lemma fsif_add_field_watch_inv:
  "watch_inv w \<Longrightarrow> fsif_add_field_watch n sel fld cb m1 m2 m3 w = Some (i, w') \<Longrightarrow> watch_inv w'"
  using add_watch_inv [of w watch_update]
  by (auto simp: fsif_add_field_watch_def split: option.splits if_splits)
    (metis snd_conv watch_type.distinct)+

lemma add_watch_ok:
  "fst (add_watch n t sel fld cb True True w) = watch_id w"
  "t \<noteq> watch_unknown \<Longrightarrow> watch_id (snd (add_watch n t sel fld cb True True w)) = watch_id w + 1"
  by (simp_all add: add_watch_def Let_def)

lemma get_field_by_entry_of:
  assumes "fact_get L s f n = Some (gvalue_of v)"
  shows "fsif_get_field_by_entry L s (Some f) (fvalue_type v) (Some n) True = (True, Some v) \<and>
    (\<forall>ty. ty \<noteq> fvalue_type v \<and> ty \<noteq> fldtype_invalid \<longrightarrow>
       fsif_get_field_by_entry L s (Some f) ty (Some n) True = (False, empty_value ty))"
proof -
  have "read_gvalue ty (gvalue_of v) = (False, empty_value ty)"
    if "ty \<noteq> fvalue_type v" "ty \<noteq> fldtype_invalid" for ty
    using that by (cases v; cases ty) (simp_all add: read_gvalue_def)
  with assms show ?thesis
    by (simp add: fsif_get_field_by_entry_def get_field_def read_gvalue_of)
qed

lemma get_field_by_entry_None:
  "fact_get L s f n = None \<Longrightarrow>
    fsif_get_field_by_entry L s (Some f) ty (Some n) True = (False, empty_value ty)"
  by (simp add: fsif_get_field_by_entry_def get_field_def)

subsection \<open>Properties\<close>

text \<open>C31. Facts selected by an integer key refine a map from keys to fields: on every store whose
  facts of a name have different keys, adding an entry inserts its fields under its key (or
  changes nothing when the library refuses it), an update overrides the given fields of that key
  only and reports whether the key exists, a deletion removes that key only, and the keys stay
  unique.\<close>

theorem fact_store_refines_map:
  assumes "keyed_inv L name key s" and "fields_ok key flds" and "storable (VInteger k)"
  defines "v \<equiv> keyed_view L name key s"
  shows "(\<exists>s'. fsif_update_factstore_entry L name (Some (key_sel key k)) flds s =
        Some (v k \<noteq> None, s') \<and> keyed_inv L name key s' \<and>
        keyed_view L name key s' = v(k := map_option (\<lambda>m. m ++ gfields flds) (v k))) \<and>
    (\<exists>s'. fsif_delete_factstore_entry L name (Some (key_sel key k)) s =
        Some (v k \<noteq> None, s') \<and> keyed_inv L name key s' \<and>
        keyed_view L name key s' = v(k := None)) \<and>
    (v k = None \<longrightarrow> (\<exists>ok s'.
        fsif_add_factstore_entry L (Some name) (Some ((key, VInteger k) # flds)) s = (ok, s') \<and>
        keyed_inv L name key s' \<and> keyed_view L name key s' =
          (if ok then v(k \<mapsto> gfields ((key, VInteger k) # flds)) else v)))"
proof (intro conjI impI)
  show "\<exists>s'. fsif_update_factstore_entry L name (Some (key_sel key k)) flds s =
        Some (v k \<noteq> None, s') \<and> keyed_inv L name key s' \<and>
        keyed_view L name key s' = v(k := map_option (\<lambda>m. m ++ gfields flds) (v k))"
    using fsif_keyed.upd_total [OF assms(1,2), of k] by (auto simp: v_def)
  show "\<exists>s'. fsif_delete_factstore_entry L name (Some (key_sel key k)) s =
        Some (v k \<noteq> None, s') \<and> keyed_inv L name key s' \<and>
        keyed_view L name key s' = v(k := None)"
    using fsif_keyed.del_total [OF assms(1), of k] by (auto simp: v_def)
next
  assume "v k = None"
  then show "\<exists>ok s'.
        fsif_add_factstore_entry L (Some name) (Some ((key, VInteger k) # flds)) s = (ok, s') \<and>
        keyed_inv L name key s' \<and> keyed_view L name key s' =
          (if ok then v(k \<mapsto> gfields ((key, VInteger k) # flds)) else v)"
    using fsif_keyed.add_new [OF assms(1) _ assms(2,3)]
    by (cases "fsif_add_factstore_entry L (Some name) (Some ((key, VInteger k) # flds)) s")
      (auto simp: v_def)
qed

theorem fact_store_refines_map_witness:
  "\<exists>ok s'. fsif_add_factstore_entry mem_lib (Some ''set'')
       (Some [(''id'', VInteger 3), (''mask'', VInteger 5)]) mem_empty = (ok, s') \<and>
     keyed_view mem_lib ''set'' ''id'' s' 3 =
       (if ok then Some [''id'' \<mapsto> GInt 3, ''mask'' \<mapsto> GInt 5] else None)"
proof -
  have none: "keyed_view mem_lib ''set'' ''id'' mem_empty 3 = None"
    by (simp add: keyed_view_def find_entry_key mem_lib_def mem_empty_def)
  have "fields_ok ''id'' [(''mask'', VInteger 5)]" "storable (VInteger 3)"
    by (simp_all add: fields_ok_def)
  from fact_store_refines_map [OF mem_empty_inv this, of "''set''"] none show ?thesis
    by (auto simp: gfields_def fun_eq_iff)
qed

text \<open>What is written into a new entry is read back: after a successful
  \<open>fsif_add_factstore_entry\<close>, selecting the entry by its key finds a fact on which every field
  reads as it was written, and reading a field with another type, or a field that was not
  written, fails and yields the empty value.\<close>

theorem entry_read_back:
  assumes "keyed_inv L name key s" and "fields_ok key flds" and "storable (VInteger k)"
    and "keyed_view L name key s k = None"
    and "fsif_add_factstore_entry L (Some name) (Some ((key, VInteger k) # flds)) s = (True, s')"
  shows "\<exists>f. fsif_get_entry L s' name (Some (key_sel key k)) = Some (Some f) \<and>
    (\<forall>(n, v) \<in> set ((key, VInteger k) # flds).
       fsif_get_field_by_entry L s' (Some f) (fvalue_type v) (Some n) True = (True, Some v) \<and>
       (\<forall>ty. ty \<noteq> fvalue_type v \<and> ty \<noteq> fldtype_invalid \<longrightarrow>
          fsif_get_field_by_entry L s' (Some f) ty (Some n) True = (False, empty_value ty))) \<and>
    (\<forall>n ty. n \<notin> fst ` set ((key, VInteger k) # flds) \<longrightarrow>
       fsif_get_field_by_entry L s' (Some f) ty (Some n) True = (False, empty_value ty))"
proof -
  let ?flds = "(key, VInteger k) # flds"
  from fsif_keyed.add_new [OF assms(1,4,2,3,5)]
  have "keyed_view L name key s' k = Some (gfields ?flds)" by simp
  then obtain f where f: "fsif_get_entry L s' name (Some (key_sel key k)) = Some (Some f)"
    "fact_get L s' f = gfields ?flds"
    by (auto simp: keyed_view_def fsif_get_entry_def split: option.splits)
  have dist: "distinct (map fst ?flds)" using assms(2) by (auto simp: fields_ok_def)
  have "fact_get L s' f n = Some (gvalue_of v)" if "(n, v) \<in> set ?flds" for n v
    using map_of_is_SomeI [OF dist that] by (simp only: f(2) gfields_map_of comp_def option.map)
  then have "\<forall>(n, v) \<in> set ?flds.
       fsif_get_field_by_entry L s' (Some f) (fvalue_type v) (Some n) True = (True, Some v) \<and>
       (\<forall>ty. ty \<noteq> fvalue_type v \<and> ty \<noteq> fldtype_invalid \<longrightarrow>
          fsif_get_field_by_entry L s' (Some f) ty (Some n) True = (False, empty_value ty))"
    by (intro ballI case_prodI2 get_field_by_entry_of) blast
  moreover have "fact_get L s' f n = None" if "n \<notin> fst ` set ?flds" for n
    using that [folded map_of_eq_None_iff] by (simp only: f(2) gfields_map_of comp_def option.map)
  then have "\<forall>n ty. n \<notin> fst ` set ?flds \<longrightarrow>
       fsif_get_field_by_entry L s' (Some f) ty (Some n) True = (False, empty_value ty)"
    by (intro allI impI get_field_by_entry_None)
  ultimately show ?thesis using f(1) by - (intro exI [of _ f] conjI; assumption)
qed

theorem entry_read_back_witness:
  "\<exists>f s'. snd (fsif_add_factstore_entry mem_lib (Some ''set'')
        (Some [(''id'', VInteger 3), (''app'', VString (Some ''x''))]) mem_empty) = s' \<and>
     fsif_get_entry mem_lib s' ''set'' (Some (key_sel ''id'' 3)) = Some (Some f) \<and>
     fsif_get_field_by_entry mem_lib s' (Some f) fldtype_string (Some ''app'') True =
       (True, Some (VString (Some ''x'')))"
proof -
  have none: "keyed_view mem_lib ''set'' ''id'' mem_empty 3 = None"
    by (simp add: keyed_view_def find_entry_key mem_lib_def mem_empty_def)
  have ok: "fields_ok ''id'' [(''app'', VString (Some ''x''))]" "storable (VInteger 3)"
    by (simp_all add: fields_ok_def)
  obtain s' where "fsif_add_factstore_entry mem_lib (Some ''set'')
      (Some [(''id'', VInteger 3), (''app'', VString (Some ''x''))]) mem_empty = (True, s')"
    by (simp add: fsif_add_factstore_entry_def mem_lib_def split_beta)
  from entry_read_back [OF mem_empty_inv ok none this] this show ?thesis by auto
qed

text \<open>A fact watch is called for every insertion (or removal) of a fact with its name, the
  newest watch first, and registering one changes the calls of no other name and of no other
  kind of watch; the ids of the watches are distinct positive numbers.\<close>

theorem fact_watch_calls:
  assumes "watch_inv w" and "fsif_add_fact_watch (Some n) t (Some cb) mem1 mem2 w = (i, w')"
    and "i \<noteq> -1"
  shows "watch_inv w' \<and> i \<notin> w_id ` set (all_entries w) \<and> 1 \<le> i \<and>
    inserted_cb L s w' (Some f) =
      (if t = watch_insert \<and> fact_name L s f = n then (cb, f, n) # inserted_cb L s w (Some f)
       else inserted_cb L s w (Some f)) \<and>
    removed_cb L s w' (Some f) =
      (if t = watch_remove \<and> fact_name L s f = n then (cb, f, n) # removed_cb L s w (Some f)
       else removed_cb L s w (Some f)) \<and>
    updated_cb L s w' (Some f) fld (Some g) = updated_cb L s w (Some f) fld (Some g)"
proof -
  from assms(2,3) have t: "t = watch_insert \<or> t = watch_remove"
    and "add_watch n t None None cb mem1 mem2 w = (i, w')"
    by (auto simp: fsif_add_fact_watch_def split: if_splits)
  then have e: "i = watch_id w" "\<And>u m. entries_for u m w' = (if u = t \<and> m = n
      then \<lparr>w_id = i, w_selist = None, w_fldname = None, w_callback = cb\<rparr> # entries_for u m w
      else entries_for u m w)"
    using add_watch_entries [of t n None None cb mem1 mem2 w i w'] assms(3) by auto
  have "watch_inv w'"
    using fsif_add_fact_watch_inv [OF assms(1), of "Some n" t "Some cb" mem1 mem2] assms(2) by simp
  moreover have "i \<notin> w_id ` set (all_entries w) \<and> 1 \<le> i"
    using assms(1) e(1) by (force simp: watch_inv_def)
  ultimately show ?thesis
    using t by (auto simp: inserted_cb_def removed_cb_def watch_cb_entries updated_cb_entries e(2))
qed

theorem fact_watch_calls_witness:
  "inserted_cb mem_lib mem_empty
     (snd (fsif_add_fact_watch (Some []) watch_insert (Some (1::nat)) True True init_watches))
     (Some 0) = [(1, 0, [])]"
proof -
  have init: "watch_inv (init_watches :: nat watches)" by (rule init_watch_inv)
  obtain i and w' :: "nat watches" where w: "fsif_add_fact_watch (Some []) watch_insert
      (Some (1::nat)) True True init_watches = (i, w')" by fastforce
  moreover have "fst (fsif_add_fact_watch (Some []) watch_insert (Some (1::nat)) True True
      init_watches) = 1"
    by (simp add: fsif_add_fact_watch_def add_watch_ok) (simp add: init_watches_def)
  ultimately have i: "i \<noteq> -1" by simp
  have "inserted_cb mem_lib mem_empty (init_watches :: nat watches) (Some 0) = []"
    by (simp add: inserted_cb_def watch_cb_def find_watch_def watch_facts_def init_watches_def)
  moreover have "fact_name mem_lib mem_empty 0 = []" by (simp add: mem_lib_def mem_empty_def)
  ultimately show ?thesis
    using fact_watch_calls [OF init w i, of mem_lib mem_empty 0] w by simp
qed

text \<open>A field update reaches one watch only: when a newly registered field watch matches the
  updated fact and field, it is the only one called, whatever watches of the same fact match as
  well; when it does not match, the call is the one made without it.\<close>

theorem field_watch_latest:
  assumes "fsif_add_field_watch (Some n) sel fld (Some cb) mem1 mem2 True w = Some (i, w')"
    and "i \<noteq> -1" and "fact_name L s f = n" and "gvalue_field gval = Some v"
    and "matching_entry L s (Some f) sel = Some m"
  shows "updated_cb L s w' (Some f) fname (Some gval) =
    (if m \<and> (fld = None \<or> fld = Some fname) then Some (Some (cb, f, n, (fname, v)))
     else updated_cb L s w (Some f) fname (Some gval))"
proof -
  from assms(1,2) have "add_watch n watch_update sel fld cb mem1 mem2 w = (i, w')"
    by (auto simp: fsif_add_field_watch_def copy_selector_def add_watch_def
        split: option.splits if_splits)
  then have "entries_for watch_update n w' =
      \<lparr>w_id = i, w_selist = sel, w_fldname = fld, w_callback = cb\<rparr> #
        entries_for watch_update n w"
    using add_watch_entries [of watch_update n sel fld cb mem1 mem2 w i w'] assms(2) by auto
  with assms(3-5) show ?thesis by (auto simp: updated_cb_entries)
qed

theorem field_watch_latest_witness:
  "\<exists>w1 w2. fsif_add_field_watch (Some []) None None (Some (1::nat)) True True True init_watches
       = Some (1, w1) \<and>
     fsif_add_field_watch (Some []) None None (Some 2) True True True w1 = Some (2, w2) \<and>
     updated_cb mem_lib mem_empty w2 (Some 0) ''value'' (Some (GInt 4)) =
       Some (Some (2, 0, [], (''value'', VInteger 4)))"
proof -
  let ?w1 = "snd (add_watch [] watch_update None None (1::nat) True True init_watches)"
  let ?w2 = "snd (add_watch [] watch_update None None (2::nat) True True ?w1)"
  have w1: "fsif_add_field_watch (Some []) None None (Some (1::nat)) True True True init_watches
      = Some (1, ?w1)"
    by (simp add: fsif_add_field_watch_def copy_selector_def prod_eq_iff add_watch_ok)
      (simp add: init_watches_def)
  have w2: "fsif_add_field_watch (Some []) None None (Some (2::nat)) True True True ?w1
      = Some (2, ?w2)"
    by (simp add: fsif_add_field_watch_def copy_selector_def prod_eq_iff add_watch_ok)
      (simp add: init_watches_def)
  have "fact_name mem_lib mem_empty 0 = []" by (simp add: mem_lib_def mem_empty_def)
  moreover have "matching_entry mem_lib mem_empty (Some 0) None = Some True"
    by (simp add: matching_entry_def)
  ultimately show ?thesis
    using w1 w2 field_watch_latest [OF w2, of mem_lib mem_empty 0 "GInt 4" "VInteger 4" True]
    by simp
qed
end
