(* ===== verification/Resource_Spec.thy ===== *)
theory Resource_Spec
  imports Fsif "HOL-Library.Monad_Syntax"
begin

text \<open>
  Stream specifications of a resource set, \<open>src/plugins/resource/resource-spec.c\<close>: an audio
  or video stream, mirrored as a fact of the fact store while it lives.

  The enumeration of the match methods belongs to libresource: a method is a number and
  \<open>mstr\<close> is libresource's \<open>resmsg_match_method_str\<close>.  \<open>None\<close> as the result of an operation is
  a crash (\<open>strdup\<close> of \<open>NULL\<close>).
\<close>

subsection \<open>Facts and fields\<close>

definition FACTSTORE_RESOURCE_SET :: string where
  "FACTSTORE_RESOURCE_SET = ''com.nokia.policy.resource_set''"

definition FACTSTORE_AUDIO_STREAM :: string where
  "FACTSTORE_AUDIO_STREAM = ''com.nokia.policy.audio_stream''"

definition FACTSTORE_VIDEO_STREAM :: string where
  "FACTSTORE_VIDEO_STREAM = ''com.nokia.policy.video_stream''"

definition INTEGER_FIELD :: "string \<Rightarrow> int \<Rightarrow> field" where
  "INTEGER_FIELD n v = (n, VInteger v)"

definition STRING_FIELD :: "string \<Rightarrow> cstring \<Rightarrow> field" where
  "STRING_FIELD n v = (n, VString (Some (case v of None \<Rightarrow> [] | Some x \<Rightarrow> x)))"

subsection \<open>Specifications\<close>

datatype resource_spec_type = resource_unknown | resource_audio | resource_video

record audio_stream =
  a_group :: cstring
  a_app_id :: cstring
  property_name :: cstring
  match_method :: nat
  match_pattern :: cstring

datatype resource_spec = AudioSpec audio_stream | VideoSpec u32

fun spec_type :: "resource_spec \<Rightarrow> resource_spec_type" where
  "spec_type (AudioSpec _) = resource_audio"
| "spec_type (VideoSpec _) = resource_video"

text \<open>The variable arguments, in the order in which \<open>va_arg\<close> reads them.\<close>

datatype spec_args =
    AudioArgs cstring cstring cstring nat cstring
  | VideoArgs u32
  | NoArgs

fun args_type :: "spec_args \<Rightarrow> resource_spec_type" where
  "args_type (AudioArgs _ _ _ _ _) = resource_audio"
| "args_type (VideoArgs _) = resource_video"
| "args_type NoArgs = resource_unknown"

definition zero_audio :: audio_stream where
  "zero_audio = \<lparr>a_group = None, a_app_id = None, property_name = None, match_method = 0,
     match_pattern = None\<rparr>"

subsection \<open>Audio streams\<close>

definition audio_fields ::
  "(nat \<Rightarrow> cstring) \<Rightarrow> cstring \<Rightarrow> cstring \<Rightarrow> cstring \<Rightarrow> nat \<Rightarrow> cstring \<Rightarrow> field list" where
  "audio_fields mstr app_id grp propnam method pattern =
     [STRING_FIELD ''app_id'' app_id, STRING_FIELD ''group'' grp,
      STRING_FIELD ''property'' propnam, STRING_FIELD ''method'' (mstr method),
      STRING_FIELD ''pattern'' pattern]"

text \<open>
  The field list is built from the caller's \<open>group\<close>, before an empty group is replaced by the
  class of the resource set.
\<close>

definition create_audio_stream_spec ::
  "('s, 'f) ohmlib \<Rightarrow> (nat \<Rightarrow> cstring) \<Rightarrow> cstring \<Rightarrow> cstring \<Rightarrow> cstring \<Rightarrow> cstring \<Rightarrow> nat \<Rightarrow> cstring \<Rightarrow>
    audio_stream \<Rightarrow> 's \<Rightarrow> (bool \<times> audio_stream \<times> 's) option" where
  "create_audio_stream_spec L mstr klass grp app_id propnam method pattern audio s =
     (let fldlist = audio_fields mstr app_id grp propnam method pattern;
          eff = (if grp = None \<or> grp = Some [] then klass else grp)
      in case eff of
           None \<Rightarrow> Some (False, audio, s)
         | Some g \<Rightarrow>
             (case app_id of
                None \<Rightarrow> None
              | Some app \<Rightarrow>
                  (let (success, s') =
                         fsif_add_factstore_entry L (Some FACTSTORE_AUDIO_STREAM) (Some fldlist) s
                   in Some (success,
                        \<lparr>a_group = Some g, a_app_id = Some app,
                         property_name = Some (case propnam of None \<Rightarrow> [] | Some x \<Rightarrow> x),
                         match_method = method,
                         match_pattern = Some (case pattern of None \<Rightarrow> [] | Some x \<Rightarrow> x)\<rparr>, s'))))"

definition destroy_audio_stream_spec ::
  "('s, 'f) ohmlib \<Rightarrow> (nat \<Rightarrow> cstring) \<Rightarrow> audio_stream \<Rightarrow> 's \<Rightarrow> (audio_stream \<times> 's) option" where
  "destroy_audio_stream_spec L mstr audio s =
     do {
       (_, s') \<leftarrow> fsif_delete_factstore_entry L FACTSTORE_AUDIO_STREAM
         (Some (audio_fields mstr (a_app_id audio) (a_group audio) (property_name audio)
            (match_method audio) (match_pattern audio))) s;
       Some (audio\<lparr>a_app_id := None, a_group := None, property_name := None,
         match_pattern := None\<rparr>, s')
     }"

subsection \<open>Video streams\<close>

definition create_video_stream_spec ::
  "('s, 'f) ohmlib \<Rightarrow> cstring \<Rightarrow> u32 \<Rightarrow> 's \<Rightarrow> bool \<times> u32 \<times> 's" where
  "create_video_stream_spec L klass pid s =
     (let (success, s') = fsif_add_factstore_entry L (Some FACTSTORE_VIDEO_STREAM)
            (Some [INTEGER_FIELD ''videopid'' (uint pid), STRING_FIELD ''class'' klass]) s
      in (success, pid, s'))"

definition destroy_video_stream_spec ::
  "('s, 'f) ohmlib \<Rightarrow> u32 \<Rightarrow> 's \<Rightarrow> 's option" where
  "destroy_video_stream_spec L pid s =
     map_option snd (fsif_delete_factstore_entry L FACTSTORE_VIDEO_STREAM
       (Some [INTEGER_FIELD ''videopid'' (uint pid)]) s)"

subsection \<open>The public operations\<close>

text \<open>\<open>mem\<close> tells whether \<open>malloc\<close> succeeds; the created specification is \<open>None\<close> for \<open>NULL\<close>.\<close>

definition resource_spec_create ::
  "('s, 'f) ohmlib \<Rightarrow> (nat \<Rightarrow> cstring) \<Rightarrow> bool \<Rightarrow> cstring \<Rightarrow> spec_args \<Rightarrow> 's \<Rightarrow>
    (resource_spec option \<times> 's) option" where
  "resource_spec_create L mstr mem klass args s =
     (if \<not> mem then Some (None, s)
      else case args of
        AudioArgs grp app_id propnam method pattern \<Rightarrow>
          do {
            (success, audio, s') \<leftarrow> create_audio_stream_spec L mstr klass grp app_id propnam
              method pattern zero_audio s;
            Some (if success then Some (AudioSpec audio) else None, s')
          }
      | VideoArgs pid \<Rightarrow>
          (let (success, p, s') = create_video_stream_spec L klass pid s
           in Some (if success then Some (VideoSpec p) else None, s'))
      | NoArgs \<Rightarrow> Some (None, s))"

definition resource_spec_destroy ::
  "('s, 'f) ohmlib \<Rightarrow> (nat \<Rightarrow> cstring) \<Rightarrow> resource_spec \<Rightarrow> 's \<Rightarrow> 's option" where
  "resource_spec_destroy L mstr spec s =
     (case spec of
        AudioSpec audio \<Rightarrow> map_option snd (destroy_audio_stream_spec L mstr audio s)
      | VideoSpec pid \<Rightarrow> destroy_video_stream_spec L pid s)"

text \<open>
  The caller passes arguments of the specification's own type, the types of the union do not
  mix; other combinations would read the wrong member and have no result here.
\<close>

definition resource_spec_update ::
  "('s, 'f) ohmlib \<Rightarrow> (nat \<Rightarrow> cstring) \<Rightarrow> cstring \<Rightarrow> resource_spec \<Rightarrow> spec_args \<Rightarrow> 's \<Rightarrow>
    (bool \<times> resource_spec \<times> 's) option" where
  "resource_spec_update L mstr klass spec args s =
     (case (spec, args) of
        (AudioSpec audio, AudioArgs grp app_id propnam method pattern) \<Rightarrow>
          do {
            (audio1, s1) \<leftarrow> destroy_audio_stream_spec L mstr audio s;
            (_, audio2, s2) \<leftarrow> create_audio_stream_spec L mstr klass grp app_id propnam
              method pattern audio1 s1;
            Some (True, AudioSpec audio2, s2)
          }
      | (VideoSpec pid, VideoArgs pid') \<Rightarrow>
          do {
            s1 \<leftarrow> destroy_video_stream_spec L pid s;
            (let (_, p, s2) = create_video_stream_spec L klass pid' s1
             in Some (True, VideoSpec p, s2))
          }
      | (_, NoArgs) \<Rightarrow> Some (False, spec, s)
      | _ \<Rightarrow> None)"


subsection \<open>String selectors\<close>

definition has_fields :: "('s, 'f) ohmlib \<Rightarrow> 's \<Rightarrow> field list \<Rightarrow> 'f \<Rightarrow> bool" where
  "has_fields L s flds f \<longleftrightarrow> (\<forall>(n, v) \<in> set flds. fact_get L s f n = Some (gvalue_of v))"

definition string_fields :: "field list \<Rightarrow> bool" where
  "string_fields flds \<longleftrightarrow> (\<forall>fld \<in> set flds. \<exists>y. snd fld = VString (Some y))"

lemma match_field_string:
  "match_field L s (Some f) (n, VString (Some y)) =
    Some (fact_get L s f n = Some (GString (Some y)))"
  by (auto simp: match_field_def get_field_def read_gvalue_def
      split: option.split gvalue.split)

lemma match_fields_string:
  "string_fields flds \<Longrightarrow> match_fields L s (Some f) flds = Some (has_fields L s flds f)"
proof (induction flds)
  case (Cons fld flds)
  then obtain n y where fld: "fld = (n, VString (Some y))"
    by (cases fld) (auto simp: string_fields_def)
  from Cons have "match_fields L s (Some f) flds = Some (has_fields L s flds f)"
    by (simp add: string_fields_def)
  with fld show ?case by (simp add: match_field_string has_fields_def split: bool.split)
qed (simp add: has_fields_def)

lemma find_entry_string:
  assumes "string_fields flds"
  shows "find_entry L s name (Some flds) =
    Some (find (has_fields L s flds) (get_facts_by_name L s name))"
proof -
  have "first_match L s (Some flds) fs = Some (find (has_fields L s flds) fs)" for fs
    by (induction fs) (simp_all add: matching_entry_def match_fields_string [OF assms])
  then show ?thesis by (simp add: find_entry_def)
qed

lemma fsif_delete_string:
  assumes "ohmlib_ok L" and "string_fields flds"
  shows "if \<exists>f \<in> set (get_facts_by_name L s name). has_fields L s flds f
    then \<exists>f s'. f \<in> set (get_facts_by_name L s name) \<and> has_fields L s flds f \<and>
      fsif_delete_factstore_entry L name (Some flds) s = Some (True, s') \<and>
      (\<forall>n. set (get_facts_by_name L s' n) = set (get_facts_by_name L s n) - {f})
    else fsif_delete_factstore_entry L name (Some flds) s = Some (False, s)"
proof (cases "find (has_fields L s flds) (get_facts_by_name L s name)")
  case None
  moreover from None have "\<not> (\<exists>f \<in> set (get_facts_by_name L s name). has_fields L s flds f)"
    by (auto simp: find_None_iff)
  ultimately show ?thesis
    by (simp add: fsif_delete_factstore_entry_def find_entry_string [OF assms(2)])
next
  case (Some f)
  then have f: "f \<in> set (get_facts_by_name L s name)" "has_fields L s flds f"
    by (auto simp: find_Some_iff)
  have "ohmlib_store_ok L" using assms(1) by (simp add: ohmlib_ok_def)
  then have "set (get_facts_by_name L (object_unref L f (store_remove L f s)) n) =
      set (get_facts_by_name L s n) - {f}" for n by (simp add: ohmlib_store_ok_def)
  with Some f show ?thesis
    by (auto simp: fsif_delete_factstore_entry_def find_entry_string [OF assms(2)])
qed

lemma fsif_add_entry:
  assumes lib: "ohmlib_ok L" and flds: "\<forall>(n, v) \<in> set flds. storable v"
    and dist: "distinct (map fst flds)"
    and add: "fsif_add_factstore_entry L (Some name) (Some flds) s = (True, s')"
  shows "\<exists>f. (\<forall>n. f \<notin> set (get_facts_by_name L s n)) \<and>
    (\<forall>n. set (get_facts_by_name L s' n) =
       (if n = name then insert f (set (get_facts_by_name L s n))
        else set (get_facts_by_name L s n))) \<and>
    fact_get L s' f = gfields flds \<and> (\<forall>g. g \<noteq> f \<longrightarrow> fact_get L s' g = fact_get L s g)"
proof -
  have ok: "ohmlib_fields_ok L" "ohmlib_store_ok L" using lib by (auto simp: ohmlib_ok_def)
  obtain f s1 where new: "fact_new L name s = (Some f, s1)"
    and ins: "store_insert L f (set_fields L f flds s1) = (True, s')"
    using add by (auto simp: fsif_add_factstore_entry_def Let_def
        split: prod.splits option.splits if_splits)
  note s1 = fact_new_Some [OF ok(2) new] and s' = store_insert_ok [OF ok(2) ins]
  have "fact_get L s' f = gfields flds"
    using s1 s' set_fields_get [OF lib flds] by (simp add: gfields_rev [OF dist])
  moreover have "fact_get L s' g = fact_get L s g" if "g \<noteq> f" for g
    using s1 s' set_fields_frame(3) [OF ok(1) that] that by simp
  moreover have "set (get_facts_by_name L s' n) =
       (if n = name then insert f (set (get_facts_by_name L s n))
        else set (get_facts_by_name L s n))" for n
    using s1 s' set_fields_frame(1,2) [OF ok(1)] by simp
  ultimately show ?thesis using s1 by blast
qed

lemma audio_fields_ok:
  "string_fields (audio_fields mstr app_id grp propnam method pattern)"
  "\<forall>(n, v) \<in> set (audio_fields mstr app_id grp propnam method pattern). storable v"
  "distinct (map fst (audio_fields mstr app_id grp propnam method pattern))"
  by (auto simp: string_fields_def audio_fields_def STRING_FIELD_def)

lemma has_fields_gfields:
  assumes "fact_get L s f = gfields flds" and "distinct (map fst flds')" and "set flds' \<subseteq> set flds"
    and "distinct (map fst flds)"
  shows "has_fields L s flds' f"
proof -
  have "fact_get L s f n = Some (gvalue_of v)" if "(n, v) \<in> set flds'" for n v
    using map_of_is_SomeI [OF assms(4), of n v] that assms(1,3) by (auto simp: gfields_map_of)
  then show ?thesis by (auto simp: has_fields_def)
qed

lemma fsif_delete_found:
  assumes "ohmlib_ok L" and "string_fields flds"
    and "\<exists>f \<in> set (get_facts_by_name L s name). has_fields L s flds f"
  obtains f s' where "f \<in> set (get_facts_by_name L s name)" and "has_fields L s flds f"
    and "fsif_delete_factstore_entry L name (Some flds) s = Some (True, s')"
    and "\<And>n. set (get_facts_by_name L s' n) = set (get_facts_by_name L s n) - {f}"
  using fsif_delete_string [OF assms(1,2), of s name] assms(3) that by (simp only: if_True) blast

lemma fsif_delete_missing:
  assumes "ohmlib_ok L" and "string_fields flds"
    and "\<not> (\<exists>f \<in> set (get_facts_by_name L s name). has_fields L s flds f)"
  shows "fsif_delete_factstore_entry L name (Some flds) s = Some (False, s)"
  using fsif_delete_string [OF assms(1,2), of s name] assms(3) by (simp only: if_False)

lemma create_audio_stream_specE:
  assumes "ohmlib_ok L"
    and "create_audio_stream_spec L mstr klass grp app_id propnam method pattern audio0 s =
      Some (True, audio, s1)"
  obtains f where "\<And>n. f \<notin> set (get_facts_by_name L s n)"
    and "\<And>n. set (get_facts_by_name L s1 n) =
       (if n = FACTSTORE_AUDIO_STREAM then insert f (set (get_facts_by_name L s n))
        else set (get_facts_by_name L s n))"
    and "fact_get L s1 f = gfields (audio_fields mstr app_id grp propnam method pattern)"
    and "\<And>g. g \<noteq> f \<Longrightarrow> fact_get L s1 g = fact_get L s g"
    and "audio_fields mstr (a_app_id audio) (a_group audio) (property_name audio)
        (match_method audio) (match_pattern audio) =
      audio_fields mstr app_id (if grp = None \<or> grp = Some [] then klass else grp) propnam method
        pattern"
proof -
  let ?flds = "audio_fields mstr app_id grp propnam method pattern"
  from assms(2) obtain g app where g: "(if grp = None \<or> grp = Some [] then klass else grp) = Some g"
    "app_id = Some app"
    and add: "fsif_add_factstore_entry L (Some FACTSTORE_AUDIO_STREAM) (Some ?flds) s = (True, s1)"
    and audio: "audio = \<lparr>a_group = Some g, a_app_id = Some app,
      property_name = Some (case propnam of None \<Rightarrow> [] | Some x \<Rightarrow> x), match_method = method,
      match_pattern = Some (case pattern of None \<Rightarrow> [] | Some x \<Rightarrow> x)\<rparr>"
    by (auto simp: create_audio_stream_spec_def Let_def split: option.splits prod.splits)
  have "audio_fields mstr (a_app_id audio) (a_group audio) (property_name audio)
      (match_method audio) (match_pattern audio) =
    audio_fields mstr app_id (if grp = None \<or> grp = Some [] then klass else grp) propnam method
      pattern"
    unfolding g audio by (simp add: audio_fields_def STRING_FIELD_def)
  moreover note fsif_add_entry [OF assms(1) audio_fields_ok(2,3) add]
  ultimately show thesis using that by (elim exE conjE) blast
qed

subsection \<open>Properties\<close>

text \<open>An audio stream specification with a group of its own leaves no trace: when no other
  fact has the same fields, creating the specification adds one fact and destroying it removes
  exactly this fact, so that every list of facts is what it was.\<close>

theorem audio_spec_roundtrip:
  assumes lib: "ohmlib_ok L" and grp: "grp \<noteq> None" "grp \<noteq> Some []"
    and create: "create_audio_stream_spec L mstr klass grp app_id propnam method pattern audio0 s =
      Some (True, audio, s1)"
    and free: "\<And>f. f \<in> set (get_facts_by_name L s FACTSTORE_AUDIO_STREAM) \<Longrightarrow>
      \<not> has_fields L s (audio_fields mstr app_id grp propnam method pattern) f"
  shows "(\<exists>f. set (get_facts_by_name L s1 FACTSTORE_AUDIO_STREAM) =
        insert f (set (get_facts_by_name L s FACTSTORE_AUDIO_STREAM)) \<and>
        f \<notin> set (get_facts_by_name L s FACTSTORE_AUDIO_STREAM)) \<and>
    (\<exists>audio2 s2. destroy_audio_stream_spec L mstr audio s1 = Some (audio2, s2) \<and>
      (\<forall>n. set (get_facts_by_name L s2 n) = set (get_facts_by_name L s n)))"
proof -
  let ?flds = "audio_fields mstr app_id grp propnam method pattern"
  obtain f where f: "\<And>n. f \<notin> set (get_facts_by_name L s n)"
    "\<And>n. set (get_facts_by_name L s1 n) =
       (if n = FACTSTORE_AUDIO_STREAM then insert f (set (get_facts_by_name L s n))
        else set (get_facts_by_name L s n))"
    "fact_get L s1 f = gfields ?flds" "\<And>g. g \<noteq> f \<Longrightarrow> fact_get L s1 g = fact_get L s g"
    "audio_fields mstr (a_app_id audio) (a_group audio) (property_name audio)
        (match_method audio) (match_pattern audio) =
      audio_fields mstr app_id (if grp = None \<or> grp = Some [] then klass else grp) propnam method
        pattern"
    by (rule create_audio_stream_specE [OF lib create], rule that, assumption+)
  have sel: "audio_fields mstr (a_app_id audio) (a_group audio) (property_name audio)
        (match_method audio) (match_pattern audio) = ?flds"
    using f(5) grp by simp
  have has: "has_fields L s1 ?flds f"
    by (rule has_fields_gfields [OF f(3)]) (auto simp: audio_fields_ok)
  have only: "g = f" if "g \<in> set (get_facts_by_name L s1 FACTSTORE_AUDIO_STREAM)"
    "has_fields L s1 ?flds g" for g
  proof (rule ccontr)
    assume "g \<noteq> f"
    with that f(2,4) have "g \<in> set (get_facts_by_name L s FACTSTORE_AUDIO_STREAM)"
      "has_fields L s ?flds g" by (auto simp: has_fields_def)
    then show False using free by blast
  qed
  have "f \<in> set (get_facts_by_name L s1 FACTSTORE_AUDIO_STREAM)" using f(2) by simp
  with has have ex: "\<exists>g \<in> set (get_facts_by_name L s1 FACTSTORE_AUDIO_STREAM).
      has_fields L s1 ?flds g" by blast
  obtain g s2 where "g \<in> set (get_facts_by_name L s1 FACTSTORE_AUDIO_STREAM)"
    "has_fields L s1 ?flds g"
    and s2: "fsif_delete_factstore_entry L FACTSTORE_AUDIO_STREAM (Some ?flds) s1 = Some (True, s2)"
      "\<And>n. set (get_facts_by_name L s2 n) = set (get_facts_by_name L s1 n) - {g}"
    using fsif_delete_found [OF lib audio_fields_ok(1) ex] by blast
  then have "g = f" using only by simp
  then have "set (get_facts_by_name L s2 n) = set (get_facts_by_name L s n)" for n
    using s2(2) [of n] f(1,2) by auto
  with s2(1) f(1,2) sel show ?thesis by (auto simp: destroy_audio_stream_spec_def)
qed

text \<open>With an empty group the fact leaks: the fact is written with the empty group while the
  specification remembers the class of the resource set, so the deletion finds no fact and the
  fact created for the stream stays in the store.\<close>

theorem audio_spec_empty_group_leaks:
  assumes lib: "ohmlib_ok L" and grp: "grp = None \<or> grp = Some []"
    and klass: "klass = Some k" "k \<noteq> []"
    and create: "create_audio_stream_spec L mstr klass grp app_id propnam method pattern audio0 s =
      Some (True, audio, s1)"
    and free: "\<And>f. f \<in> set (get_facts_by_name L s FACTSTORE_AUDIO_STREAM) \<Longrightarrow>
      \<not> has_fields L s (audio_fields mstr app_id klass propnam method pattern) f"
  shows "\<exists>f audio2. f \<notin> set (get_facts_by_name L s FACTSTORE_AUDIO_STREAM) \<and>
    f \<in> set (get_facts_by_name L s1 FACTSTORE_AUDIO_STREAM) \<and>
    destroy_audio_stream_spec L mstr audio s1 = Some (audio2, s1)"
proof -
  let ?flds = "audio_fields mstr app_id klass propnam method pattern"
  obtain f where f: "\<And>n. f \<notin> set (get_facts_by_name L s n)"
    "\<And>n. set (get_facts_by_name L s1 n) =
       (if n = FACTSTORE_AUDIO_STREAM then insert f (set (get_facts_by_name L s n))
        else set (get_facts_by_name L s n))"
    "fact_get L s1 f = gfields (audio_fields mstr app_id grp propnam method pattern)"
    "\<And>g. g \<noteq> f \<Longrightarrow> fact_get L s1 g = fact_get L s g"
    "audio_fields mstr (a_app_id audio) (a_group audio) (property_name audio)
        (match_method audio) (match_pattern audio) =
      audio_fields mstr app_id (if grp = None \<or> grp = Some [] then klass else grp) propnam method
        pattern"
    by (rule create_audio_stream_specE [OF lib create], rule that, assumption+)
  have sel: "audio_fields mstr (a_app_id audio) (a_group audio) (property_name audio)
        (match_method audio) (match_pattern audio) = ?flds"
    using f(5) grp by simp
  have "fact_get L s1 f ''group'' = Some (GString (Some []))"
    using grp by (auto simp: f(3) gfields_def audio_fields_def STRING_FIELD_def)
  then have "\<not> has_fields L s1 ?flds f"
    using klass by (simp add: has_fields_def audio_fields_def STRING_FIELD_def)
  moreover have "\<not> has_fields L s1 ?flds g"
    if "g \<in> set (get_facts_by_name L s1 FACTSTORE_AUDIO_STREAM)" "g \<noteq> f" for g
    using that free [of g] f(2,4) by (auto simp: has_fields_def)
  ultimately have "\<not> (\<exists>g \<in> set (get_facts_by_name L s1 FACTSTORE_AUDIO_STREAM).
      has_fields L s1 ?flds g)" by blast
  from fsif_delete_missing [OF lib audio_fields_ok(1) this]
  have "fsif_delete_factstore_entry L FACTSTORE_AUDIO_STREAM (Some ?flds) s1 = Some (False, s1)"
    by simp
  with f(1,2) sel show ?thesis by (auto simp: destroy_audio_stream_spec_def)
qed

lemma mem_audio_created:
  "\<exists>audio s1. create_audio_stream_spec mem_lib mstr klass (Some g) (Some app) propnam method pattern
     zero_audio mem_empty = Some (True, audio, s1)" if "g \<noteq> [] \<or> klass \<noteq> None"
  using that
  by (auto simp: create_audio_stream_spec_def Let_def fsif_add_factstore_entry_def mem_lib_def)

lemma mem_empty_facts: "get_facts_by_name mem_lib mem_empty n = []"
  by (simp add: mem_lib_def mem_empty_def)

theorem audio_spec_roundtrip_witness:
  "\<exists>audio s1 audio2 s2. create_audio_stream_spec mem_lib (\<lambda>_. Some ''equals'') (Some ''player'')
      (Some ''alarm'') (Some ''clock'') None 1 None zero_audio mem_empty = Some (True, audio, s1) \<and>
    destroy_audio_stream_spec mem_lib (\<lambda>_. Some ''equals'') audio s1 = Some (audio2, s2) \<and>
    get_facts_by_name mem_lib s2 FACTSTORE_AUDIO_STREAM = []"
proof -
  obtain audio s1 where c: "create_audio_stream_spec mem_lib (\<lambda>_. Some ''equals'') (Some ''player'')
      (Some ''alarm'') (Some ''clock'') None 1 None zero_audio mem_empty = Some (True, audio, s1)"
    using mem_audio_created [of "''alarm''" "Some ''player''" "\<lambda>_. Some ''equals''" "''clock''"
        None 1 None] by auto
  from audio_spec_roundtrip [OF mem_lib_ok _ _ c] c show ?thesis
    by (auto simp: mem_empty_facts)
qed

theorem audio_spec_empty_group_leaks_witness:
  "\<exists>audio s1 audio2 f. create_audio_stream_spec mem_lib (\<lambda>_. Some ''equals'') (Some ''player'')
      (Some []) (Some ''clock'') None 1 None zero_audio mem_empty = Some (True, audio, s1) \<and>
    destroy_audio_stream_spec mem_lib (\<lambda>_. Some ''equals'') audio s1 = Some (audio2, s1) \<and>
    f \<in> set (get_facts_by_name mem_lib s1 FACTSTORE_AUDIO_STREAM)"
proof -
  obtain audio s1 where c: "create_audio_stream_spec mem_lib (\<lambda>_. Some ''equals'') (Some ''player'')
      (Some []) (Some ''clock'') None 1 None zero_audio mem_empty = Some (True, audio, s1)"
    using mem_audio_created [of "[]" "Some ''player''" "\<lambda>_. Some ''equals''" "''clock''"
        None 1 None] by auto
  from audio_spec_empty_group_leaks [OF mem_lib_ok _ refl _ c] c show ?thesis
    by (auto simp: mem_empty_facts)
qed
end
