(* ===== verification/Resource_Set.thy ===== *)
theory Resource_Set
  imports Resource_Spec Transaction Ptr_Queue
begin

text \<open>
  Resource sets, \<open>src/plugins/resource/resource-set.c\<close>: the manager's side of a client's
  resource set, found by its manager id through a hash table of 256 chains and mirrored as a
  fact of the fact store.

  Heap objects are kept in maps from addresses: \<open>ressets\<close> are the \<open>resset_t\<close> of libresource,
  \<open>rsets\<close> the \<open>resource_set_t\<close> of the plugin; the chains of the hash table are lists of
  addresses, most recent first.  The queues of values waiting for an acknowledgement are lists;
  the theory \<open>Ptr_Queue\<close> shows that the linked queue of the code behaves as such a list.  What
  the code does through libresource (sending, replying) is recorded in \<open>rlog\<close>.  The result
  \<open>None\<close> of an operation is a crash or a loop that does not end.
\<close>

subsection \<open>State\<close>

datatype resource_set_field_id = resource_set_unknown_field | resource_set_granted
  | resource_set_advice

datatype resource_set_update = update_nothing | update_flags | update_request | update_block

datatype resmsg_type = RESMSG_REGISTER | RESMSG_UNREGISTER | RESMSG_UPDATE | RESMSG_ACQUIRE
  | RESMSG_RELEASE | RESMSG_GRANT | RESMSG_ADVICE | RESMSG_AUDIO | RESMSG_VIDEO | RESMSG_OTHER

datatype transport = RESPROTO_TRANSPORT_DBUS | RESPROTO_TRANSPORT_INTERNAL
  | RESPROTO_TRANSPORT_OTHER

record resset =
  peer :: cstring
  rs_id :: u32
  klass :: string
  app_id :: cstring
  rs_mode :: u32
  flags_all :: u32
  flags_opt :: u32
  flags_share :: u32
  flags_mask :: u32
  userdata :: "addr option"
  transp :: transport

record rs_output =
  o_client :: u32
  o_queue :: "qentry list"
  o_factstore :: u32

datatype idle_fn = Forced_auto_release

record resource_set =
  client_pid :: int
  manager_id :: u32
  rs_resset :: "addr option"
  specs :: "resource_spec list"
  request :: cstring
  block :: int
  granted :: rs_output
  advice :: rs_output
  reqno :: u32
  idle_srcid :: u32
  idle_fn :: "idle_fn option"

text \<open>What the plugin asks of libresource, the resolver and the authorisation service.\<close>

datatype action =
    Send addr resmsg_type u32 u32 u32
  | Reply addr int
  | Resolve u32 string
  | Query_pid cstring addr
  | Auth_request int string "string list" addr

record 's rstate =
  fs :: 's
  ressets :: "addr \<rightharpoonup> resset"
  rsets :: "addr \<rightharpoonup> resource_set"
  hash_table :: "nat \<Rightarrow> addr list"
  next_manager_id :: u32
  request_reqno :: int
  txs :: "unit txstate"
  idle_sources :: "(u32 \<times> addr) list"
  nalloc :: nat
  rlog :: "action list"

text \<open>
  The environment: the fact store library, libresource's name of a match method, whether the
  \<open>n\<close>-th allocation succeeds, whether a message can be sent after the actions so far, and the id
  the main loop gives to an idle source (0 when it fails).
\<close>

record ('s, 'f) renv =
  lib :: "('s, 'f) ohmlib"
  method_str :: "nat \<Rightarrow> cstring"
  malloc_ok :: "nat \<Rightarrow> bool"
  send_ok :: "action list \<Rightarrow> bool"
  idle_add :: "(u32 \<times> addr) list \<Rightarrow> u32"

definition RS_HASH_BITS :: nat where
  "RS_HASH_BITS = 8"

definition RS_HASH_INDEX :: "u32 \<Rightarrow> nat" where
  "RS_HASH_INDEX i = unat (i AND (push_bit RS_HASH_BITS 1 - 1))"

definition INVALID_MANAGER_ID :: u32 where
  "INVALID_MANAGER_ID = NOT 0"

definition zero_output :: rs_output where
  "zero_output = \<lparr>o_client = 0, o_queue = [], o_factstore = 0\<rparr>"

definition upd_rset ::
  "addr \<Rightarrow> (resource_set \<Rightarrow> resource_set) \<Rightarrow> ('s, 'z) rstate_scheme \<Rightarrow> ('s, 'z) rstate_scheme" where
  "upd_rset a f st = st\<lparr>rsets := (rsets st)(a := map_option f (rsets st a))\<rparr>"

definition upd_resset ::
  "addr \<Rightarrow> (resset \<Rightarrow> resset) \<Rightarrow> ('s, 'z) rstate_scheme \<Rightarrow> ('s, 'z) rstate_scheme" where
  "upd_resset r f st = st\<lparr>ressets := (ressets st)(r := map_option f (ressets st r))\<rparr>"

definition log_action :: "action \<Rightarrow> ('s, 'z) rstate_scheme \<Rightarrow> ('s, 'z) rstate_scheme" where
  "log_action x st = st\<lparr>rlog := rlog st @ [x]\<rparr>"

text \<open>An allocation: its address, or \<open>None\<close> when it fails.\<close>

definition alloc ::
  "('s, 'f, 'e) renv_scheme \<Rightarrow> ('s, 'z) rstate_scheme \<Rightarrow> addr option \<times> ('s, 'z) rstate_scheme" where
  "alloc E st = (if malloc_ok E (nalloc st) then Some (nalloc st) else None,
                 st\<lparr>nalloc := nalloc st + 1\<rparr>)"

text \<open>\<open>resproto_send_message\<close> of libresource: the message is recorded when it could be sent.\<close>

definition send_message ::
  "('s, 'f, 'e) renv_scheme \<Rightarrow> action \<Rightarrow> ('s, 'z) rstate_scheme \<Rightarrow> bool \<times> ('s, 'z) rstate_scheme" where
  "send_message E m st = (if send_ok E (rlog st) then (True, log_action m st) else (False, st))"

subsection \<open>The hash table\<close>

definition add_to_hash_table ::
  "addr \<Rightarrow> resource_set \<Rightarrow> ('s, 'z) rstate_scheme \<Rightarrow> ('s, 'z) rstate_scheme" where
  "add_to_hash_table a rs st =
     (let index = RS_HASH_INDEX (manager_id rs)
      in st\<lparr>hash_table := (hash_table st)(index := a # hash_table st index)\<rparr>)"

definition delete_from_hash_table ::
  "addr \<Rightarrow> resource_set \<Rightarrow> ('s, 'z) rstate_scheme \<Rightarrow> ('s, 'z) rstate_scheme" where
  "delete_from_hash_table a rs st =
     (let index = RS_HASH_INDEX (manager_id rs)
      in st\<lparr>hash_table := (hash_table st)(index := remove1 a (hash_table st index))\<rparr>)"

definition find_in_hash_table :: "u32 \<Rightarrow> ('s, 'z) rstate_scheme \<Rightarrow> addr option" where
  "find_in_hash_table mid st =
     find (\<lambda>a. map_option manager_id (rsets st a) = Some mid) (hash_table st (RS_HASH_INDEX mid))"

subsection \<open>The fact of a resource set\<close>

definition mandatory_of :: "resset \<Rightarrow> u32" where
  "mandatory_of x = flags_all x AND NOT (flags_opt x)"

definition set_selist :: "resource_set \<Rightarrow> field list" where
  "set_selist rs = [INTEGER_FIELD ''manager_id'' (uint (manager_id rs))]"

definition set_fields_of :: "resource_set \<Rightarrow> resset \<Rightarrow> field list" where
  "set_fields_of rs x =
     (let audiogr = (if klass x \<noteq> ''proclaimer'' then klass x else ''alwayson'')
      in [INTEGER_FIELD ''manager_id'' (uint (manager_id rs)),
          INTEGER_FIELD ''client_pid'' (client_pid rs),
          STRING_FIELD ''client_name'' (peer x),
          INTEGER_FIELD ''client_id'' (uint (rs_id x)),
          STRING_FIELD ''app_id'' (app_id x),
          STRING_FIELD ''class'' (Some (klass x)),
          INTEGER_FIELD ''mode'' (uint (rs_mode x)),
          INTEGER_FIELD ''mandatory'' (uint (mandatory_of x)),
          INTEGER_FIELD ''optional'' (uint (flags_opt x)),
          INTEGER_FIELD ''shared'' (uint (flags_share x)),
          INTEGER_FIELD ''mask'' (uint (flags_mask x)),
          INTEGER_FIELD ''granted'' (uint (o_factstore (granted rs))),
          INTEGER_FIELD ''advice'' (uint (o_factstore (advice rs))),
          STRING_FIELD ''request'' (request rs),
          INTEGER_FIELD ''block'' (block rs),
          INTEGER_FIELD ''reqno'' 0,
          STRING_FIELD ''audiogr'' (Some audiogr),
          INTEGER_FIELD ''videopid'' (client_pid rs)])"

definition add_factstore_entry ::
  "('s, 'f, 'e) renv_scheme \<Rightarrow> resource_set \<Rightarrow> resset \<Rightarrow> ('s, 'z) rstate_scheme \<Rightarrow>
    bool \<times> ('s, 'z) rstate_scheme" where
  "add_factstore_entry E rs x st =
     (let (ok, s') = fsif_add_factstore_entry (lib E) (Some FACTSTORE_RESOURCE_SET)
            (Some (set_fields_of rs x)) (fs st)
      in (ok, st\<lparr>fs := s'\<rparr>))"

definition delete_factstore_entry ::
  "('s, 'f, 'e) renv_scheme \<Rightarrow> resource_set \<Rightarrow> ('s, 'z) rstate_scheme \<Rightarrow>
    (bool \<times> ('s, 'z) rstate_scheme) option" where
  "delete_factstore_entry E rs st =
     do {
       (ok, s') \<leftarrow> fsif_delete_factstore_entry (lib E) FACTSTORE_RESOURCE_SET
         (Some (set_selist rs)) (fs st);
       Some (ok, st\<lparr>fs := s'\<rparr>)
     }"

text \<open>The common form of the \<open>update_factstore_\<close> functions.\<close>

definition update_factstore ::
  "('s, 'f, 'e) renv_scheme \<Rightarrow> resource_set \<Rightarrow> field list \<Rightarrow> ('s, 'z) rstate_scheme \<Rightarrow>
    (bool \<times> ('s, 'z) rstate_scheme) option" where
  "update_factstore E rs fldlist st =
     do {
       (ok, s') \<leftarrow> fsif_update_factstore_entry (lib E) FACTSTORE_RESOURCE_SET
         (Some (set_selist rs)) fldlist (fs st);
       Some (ok, st\<lparr>fs := s'\<rparr>)
     }"

definition update_factstore_flags ::
  "('s, 'f, 'e) renv_scheme \<Rightarrow> resource_set \<Rightarrow> resset \<Rightarrow> ('s, 'z) rstate_scheme \<Rightarrow>
    (bool \<times> ('s, 'z) rstate_scheme) option" where
  "update_factstore_flags E rs x st =
     update_factstore E rs
       [INTEGER_FIELD ''mandatory'' (uint (mandatory_of x)),
        INTEGER_FIELD ''optional'' (uint (flags_opt x)),
        INTEGER_FIELD ''shared'' (uint (flags_share x)),
        INTEGER_FIELD ''mask'' (uint (flags_mask x))] st"

definition update_factstore_request ::
  "('s, 'f, 'e) renv_scheme \<Rightarrow> resource_set \<Rightarrow> ('s, 'z) rstate_scheme \<Rightarrow>
    (bool \<times> ('s, 'z) rstate_scheme) option" where
  "update_factstore_request E rs st =
     update_factstore E rs
       [STRING_FIELD ''request'' (request rs), INTEGER_FIELD ''reqno'' (request_reqno st)]
       (st\<lparr>request_reqno := request_reqno st + 1\<rparr>)"

definition update_factstore_block ::
  "('s, 'f, 'e) renv_scheme \<Rightarrow> resource_set \<Rightarrow> ('s, 'z) rstate_scheme \<Rightarrow>
    (bool \<times> ('s, 'z) rstate_scheme) option" where
  "update_factstore_block E rs st = update_factstore E rs [INTEGER_FIELD ''block'' (block rs)] st"

definition update_factstore_audio ::
  "('s, 'f, 'e) renv_scheme \<Rightarrow> resource_set \<Rightarrow> audio_stream \<Rightarrow> ('s, 'z) rstate_scheme \<Rightarrow>
    (bool \<times> ('s, 'z) rstate_scheme) option" where
  "update_factstore_audio E rs audio st =
     update_factstore E rs [STRING_FIELD ''audiogr'' (a_group audio)] st"

definition update_factstore_video ::
  "('s, 'f, 'e) renv_scheme \<Rightarrow> resource_set \<Rightarrow> u32 \<Rightarrow> ('s, 'z) rstate_scheme \<Rightarrow>
    (bool \<times> ('s, 'z) rstate_scheme) option" where
  "update_factstore_video E rs pid st =
     update_factstore E rs [INTEGER_FIELD ''videopid'' (uint pid)] st"


subsection \<open>Creation, specifications and destruction\<close>

definition zero_resource_set :: resource_set where
  "zero_resource_set = \<lparr>client_pid = 0, manager_id = 0, rs_resset = None, specs = [],
     request = None, block = 0, granted = zero_output, advice = zero_output, reqno = 0,
     idle_srcid = 0, idle_fn = None\<rparr>"

definition new_resource_set :: "int \<Rightarrow> u32 \<Rightarrow> addr \<Rightarrow> resource_set" where
  "new_resource_set pid mid r = zero_resource_set\<lparr>client_pid := pid, manager_id := mid,
     rs_resset := Some r, request := Some ''release''\<rparr>"

text \<open>\<open>resource_set_create\<close> with the address of the \<open>resset_t\<close>; the result is the resource set.\<close>

definition resource_set_create ::
  "('s, 'f, 'e) renv_scheme \<Rightarrow> int \<Rightarrow> addr \<Rightarrow> ('s, 'z) rstate_scheme \<Rightarrow>
    (addr option \<times> ('s, 'z) rstate_scheme) option" where
  "resource_set_create E pid r st =
     (case ressets st r of
        None \<Rightarrow> None
      | Some x \<Rightarrow>
          (case userdata x of
             Some a \<Rightarrow> Some (Some a, st)
           | None \<Rightarrow>
               (case alloc E st of
                  (None, st1) \<Rightarrow> Some (None, st1)
                | (Some a, st1) \<Rightarrow>
                    (let rs = new_resource_set pid (next_manager_id st1) r;
                         st2 = st1\<lparr>next_manager_id := next_manager_id st1 + 1,
                                   rsets := (rsets st1)(a \<mapsto> rs)\<rparr>;
                         st3 = upd_resset r (userdata_update (\<lambda>_. Some a)) st2;
                         st4 = add_to_hash_table a rs st3
                     in Some (Some a, snd (add_factstore_entry E rs x st4))))))"

fun destroy_specs ::
  "('s, 'f) ohmlib \<Rightarrow> (nat \<Rightarrow> cstring) \<Rightarrow> resource_spec list \<Rightarrow> 's \<Rightarrow> 's option" where
  "destroy_specs L mstr [] s = Some s"
| "destroy_specs L mstr (spec # sps) s =
     do { s' \<leftarrow> resource_spec_destroy L mstr spec s; destroy_specs L mstr sps s' }"

definition destroy_queue :: "resource_set_field_id \<Rightarrow> resource_set \<Rightarrow> resource_set" where
  "destroy_queue what rs =
     (case what of
        resource_set_granted \<Rightarrow> rs\<lparr>granted := (granted rs)\<lparr>o_queue := []\<rparr>\<rparr>
      | resource_set_advice \<Rightarrow> rs\<lparr>advice := (advice rs)\<lparr>o_queue := []\<rparr>\<rparr>
      | resource_set_unknown_field \<Rightarrow> rs)"

definition source_remove :: "u32 \<Rightarrow> ('s, 'z) rstate_scheme \<Rightarrow> ('s, 'z) rstate_scheme" where
  "source_remove i st = st\<lparr>idle_sources := filter (\<lambda>p. fst p \<noteq> i) (idle_sources st)\<rparr>"

definition resource_set_destroy ::
  "('s, 'f, 'e) renv_scheme \<Rightarrow> addr option \<Rightarrow> ('s, 'z) rstate_scheme \<Rightarrow> ('s, 'z) rstate_scheme option" where
  "resource_set_destroy E ro st =
     (case ro of
        None \<Rightarrow> Some st
      | Some r \<Rightarrow>
          do {
            x \<leftarrow> ressets st r;
            (case userdata x of
               None \<Rightarrow> Some st
             | Some a \<Rightarrow>
                 do {
                   rs \<leftarrow> rsets st a;
                   (if rs_resset rs \<noteq> Some r then Some st
                    else do {
                      s1 \<leftarrow> destroy_specs (lib E) (method_str E) (specs rs) (fs st);
                      (let st1 = upd_rset a (\<lambda>y. destroy_queue resource_set_advice
                             (destroy_queue resource_set_granted (y\<lparr>specs := []\<rparr>)))
                             (st\<lparr>fs := s1\<rparr>);
                           st2 = (if idle_srcid rs \<noteq> 0 then source_remove (idle_srcid rs) st1
                                  else st1)
                       in do {
                         (_, st3) \<leftarrow> delete_factstore_entry E rs st2;
                         (let st4 = delete_from_hash_table a rs st3;
                              st5 = st4\<lparr>rsets := (rsets st4)(a := None)\<rparr>
                          in Some (upd_resset r (userdata_update (\<lambda>_. None)) st5))
                       })
                    })
                 })
          })"

text \<open>The loop of \<open>resource_set_add_spec\<close> that updates the first specification of the type.\<close>

fun update_spec ::
  "('s, 'f) ohmlib \<Rightarrow> (nat \<Rightarrow> cstring) \<Rightarrow> cstring \<Rightarrow> spec_args \<Rightarrow> resource_spec list \<Rightarrow> 's \<Rightarrow>
    (resource_spec list \<times> resource_spec option \<times> 's) option" where
  "update_spec L mstr kl args [] s = Some ([], None, s)"
| "update_spec L mstr kl args (spec # sps) s =
     (if args_type args = spec_type spec
      then do {
        (_, spec', s') \<leftarrow> resource_spec_update L mstr kl spec args s;
        Some (spec' # sps, Some spec', s')
      }
      else do {
        (sps', found, s') \<leftarrow> update_spec L mstr kl args sps s;
        Some (spec # sps', found, s')
      })"

text \<open>
  \<open>spec->any.next = rs->specs\<close> writes through the pointer that \<open>resource_spec_create\<close> returned,
  which may be \<open>NULL\<close>.
\<close>

definition resource_set_add_spec ::
  "('s, 'f, 'e) renv_scheme \<Rightarrow> addr option \<Rightarrow> spec_args \<Rightarrow> ('s, 'z) rstate_scheme \<Rightarrow>
    (bool \<times> ('s, 'z) rstate_scheme) option" where
  "resource_set_add_spec E ro args st =
     (case ro of
        None \<Rightarrow> Some (False, st)
      | Some r \<Rightarrow>
          do {
            x \<leftarrow> ressets st r;
            (case userdata x of
               None \<Rightarrow> Some (False, st)
             | Some a \<Rightarrow>
                 do {
                   rs \<leftarrow> rsets st a;
                   (if rs_resset rs \<noteq> Some r then Some (False, st)
                    else do {
                      (sps, found, s1) \<leftarrow> update_spec (lib E) (method_str E) (Some (klass x)) args
                        (specs rs) (fs st);
                      (spec, sps', st2) \<leftarrow>
                        (case found of
                           Some spec \<Rightarrow> Some (spec, sps, st\<lparr>fs := s1\<rparr>)
                         | None \<Rightarrow>
                             (let (m, st1) = alloc E (st\<lparr>fs := s1\<rparr>)
                              in do {
                                (created, s2) \<leftarrow> resource_spec_create (lib E) (method_str E)
                                  (m \<noteq> None) (Some (klass x)) args (fs st1);
                                spec \<leftarrow> created;
                                Some (spec, spec # sps, st1\<lparr>fs := s2\<rparr>)
                              }));
                      (let st3 = upd_rset a (specs_update (\<lambda>_. sps')) st2
                       in case spec of
                            AudioSpec audio \<Rightarrow> update_factstore_audio E rs audio st3
                          | VideoSpec pid \<Rightarrow> update_factstore_video E rs pid st3)
                    })
                 })
          })"

definition resource_set_update_factstore ::
  "('s, 'f, 'e) renv_scheme \<Rightarrow> addr option \<Rightarrow> resource_set_update \<Rightarrow> ('s, 'z) rstate_scheme \<Rightarrow>
    (bool \<times> ('s, 'z) rstate_scheme) option" where
  "resource_set_update_factstore E ro what st =
     (case ro of
        None \<Rightarrow> Some (False, st)
      | Some r \<Rightarrow>
          do {
            x \<leftarrow> ressets st r;
            (case userdata x of
               None \<Rightarrow> Some (False, st)
             | Some a \<Rightarrow>
                 do {
                   rs \<leftarrow> rsets st a;
                   (if rs_resset rs \<noteq> Some r then Some (False, st)
                    else case what of
                      update_flags \<Rightarrow> update_factstore_flags E rs x st
                    | update_request \<Rightarrow> update_factstore_request E rs st
                    | update_block \<Rightarrow> update_factstore_block E rs st
                    | update_nothing \<Rightarrow> Some (False, st))
                 })
          })"

subsection \<open>Queued changes and messages\<close>

definition output_of :: "resource_set_field_id \<Rightarrow> resource_set \<Rightarrow> rs_output option" where
  "output_of what rs =
     (case what of resource_set_granted \<Rightarrow> Some (granted rs)
      | resource_set_advice \<Rightarrow> Some (advice rs) | resource_set_unknown_field \<Rightarrow> None)"

definition set_output ::
  "resource_set_field_id \<Rightarrow> rs_output \<Rightarrow> resource_set \<Rightarrow> resource_set" where
  "set_output what out rs =
     (case what of resource_set_granted \<Rightarrow> rs\<lparr>granted := out\<rparr>
      | resource_set_advice \<Rightarrow> rs\<lparr>advice := out\<rparr> | resource_set_unknown_field \<Rightarrow> rs)"

definition enqueue_send_request ::
  "('s, 'f, 'e) renv_scheme \<Rightarrow> addr option \<Rightarrow> resource_set_field_id \<Rightarrow> u32 \<Rightarrow> u32 \<Rightarrow>
    ('s, 'z) rstate_scheme \<Rightarrow> ('s, 'z) rstate_scheme option" where
  "enqueue_send_request E ao what txid rq st =
     (case ao of
        None \<Rightarrow> Some st
      | Some a \<Rightarrow>
          do {
            rs \<leftarrow> rsets st a;
            (if rs_resset rs = None then Some st
             else case output_of what rs of
               None \<Rightarrow> Some st
             | Some val \<Rightarrow>
                 (case alloc E st of
                    (None, st1) \<Rightarrow> Some st1
                  | (Some _, st1) \<Rightarrow>
                      (let e = \<lparr>q_txid = txid, q_reqno = rq, q_value = o_factstore val\<rparr>
                       in Some (upd_rset a
                            (set_output what (val\<lparr>o_queue := o_queue val @ [e]\<rparr>)) st1))))
          })"

text \<open>
  The loop of \<open>dequeue_and_send\<close>: a later entry ends the loop after it has been popped.
\<close>

fun dequeue_loop ::
  "('s, 'f, 'e) renv_scheme \<Rightarrow> addr \<Rightarrow> u32 \<Rightarrow> int \<Rightarrow> resmsg_type \<Rightarrow> u32 \<Rightarrow> qentry list \<Rightarrow> rs_output \<Rightarrow>
    ('s, 'z) rstate_scheme \<Rightarrow> rs_output \<times> ('s, 'z) rstate_scheme" where
  "dequeue_loop E r rid blk type txid [] val st = (val\<lparr>o_queue := []\<rparr>, st)"
| "dequeue_loop E r rid blk type txid (e # es) val st =
     (if q_txid e > txid then (val\<lparr>o_queue := es\<rparr>, st)
      else if q_txid e = txid \<and> (q_reqno e \<noteq> 0 \<or> o_client val \<noteq> q_value e) \<and>
          \<not> (blk \<noteq> 0 \<and> type = RESMSG_GRANT)
      then (let (sent, st1) = send_message E (Send r type rid (q_reqno e) (q_value e)) st
            in dequeue_loop E r rid blk type txid es
                 (if sent then val\<lparr>o_client := q_value e\<rparr> else val) st1)
      else dequeue_loop E r rid blk type txid es val st)"

definition dequeue_and_send ::
  "('s, 'f, 'e) renv_scheme \<Rightarrow> addr option \<Rightarrow> resource_set_field_id \<Rightarrow> u32 \<Rightarrow> ('s, 'z) rstate_scheme \<Rightarrow>
    ('s, 'z) rstate_scheme option" where
  "dequeue_and_send E ao what txid st =
     (case ao of
        None \<Rightarrow> Some st
      | Some a \<Rightarrow>
          do {
            rs \<leftarrow> rsets st a;
            (case (rs_resset rs, output_of what rs) of
               (Some r, Some val) \<Rightarrow>
                 do {
                   x \<leftarrow> ressets st r;
                   (let type = (if what = resource_set_granted then RESMSG_GRANT
                                else RESMSG_ADVICE);
                        (val', st1) = dequeue_loop E r (rs_id x) (block rs) type txid
                          (o_queue val) val st
                    in Some (upd_rset a (set_output what val') st1))
                 }
             | _ \<Rightarrow> Some st)
          })"

definition resource_set_queue_change ::
  "('s, 'f, 'e) renv_scheme \<Rightarrow> addr option \<Rightarrow> u32 \<Rightarrow> u32 \<Rightarrow> resource_set_field_id \<Rightarrow>
    ('s, 'z) rstate_scheme \<Rightarrow> ('s, 'z) rstate_scheme option" where
  "resource_set_queue_change E ao txid rq what st =
     (case ao of
        None \<Rightarrow> Some st
      | Some a \<Rightarrow>
          do {
            rs \<leftarrow> rsets st a;
            (if rs_resset rs = None then Some st
             else
               (let (m, st1) = alloc E st;
                    (added, tx') = transaction_add_resource_set (m \<noteq> None) txid (manager_id rs)
                      (txs st1);
                    st2 = st1\<lparr>txs := tx'\<rparr>
                in if added then enqueue_send_request E (Some a) what txid rq st2 else Some st2))
          })"

definition resource_set_send_queued_changes ::
  "('s, 'f, 'e) renv_scheme \<Rightarrow> u32 \<Rightarrow> u32 \<Rightarrow> ('s, 'z) rstate_scheme \<Rightarrow> ('s, 'z) rstate_scheme option" where
  "resource_set_send_queued_changes E mid txid st =
     (case find_in_hash_table mid st of
        None \<Rightarrow> Some st
      | Some a \<Rightarrow>
          do {
            st1 \<leftarrow> dequeue_and_send E (Some a) resource_set_granted txid st;
            dequeue_and_send E (Some a) resource_set_advice txid st1
          })"

definition resource_set_send_release_request ::
  "('s, 'f, 'e) renv_scheme \<Rightarrow> addr option \<Rightarrow> ('s, 'z) rstate_scheme \<Rightarrow> ('s, 'z) rstate_scheme option" where
  "resource_set_send_release_request E ao st =
     (case ao of
        None \<Rightarrow> Some st
      | Some a \<Rightarrow>
          do {
            rs \<leftarrow> rsets st a;
            (case rs_resset rs of
               None \<Rightarrow> Some st
             | Some r \<Rightarrow>
                 do {
                   x \<leftarrow> ressets st r;
                   Some (snd (send_message E (Send r RESMSG_RELEASE (rs_id x) 0 0) st))
                 })
          })"

subsection \<open>Idle tasks and lookup\<close>

definition resource_set_add_idle_task ::
  "('s, 'f, 'e) renv_scheme \<Rightarrow> addr \<Rightarrow> idle_fn \<Rightarrow> ('s, 'z) rstate_scheme \<Rightarrow>
    (bool \<times> ('s, 'z) rstate_scheme) option" where
  "resource_set_add_idle_task E a task st =
     do {
       rs \<leftarrow> rsets st a;
       (if idle_srcid rs \<noteq> 0 then Some (False, st)
        else
          (let i = idle_add E (idle_sources st);
               st1 = (if i \<noteq> 0 then st\<lparr>idle_sources := idle_sources st @ [(i, a)]\<rparr> else st)
           in Some (i \<noteq> 0,
                upd_rset a (\<lambda>y. y\<lparr>idle_srcid := i, idle_fn := Some task\<rparr>) st1)))
     }"

text \<open>
  The main loop's callback for an idle source; \<open>run\<close> is the call through the task pointer.
\<close>

definition idle_task ::
  "(idle_fn \<Rightarrow> addr \<Rightarrow> ('s, 'z) rstate_scheme \<Rightarrow> ('s, 'z) rstate_scheme option) \<Rightarrow> addr \<Rightarrow>
    ('s, 'z) rstate_scheme \<Rightarrow> ('s, 'z) rstate_scheme option" where
  "idle_task run a st =
     do {
       rs \<leftarrow> rsets st a;
       st1 \<leftarrow> (case idle_fn rs of None \<Rightarrow> Some st | Some task \<Rightarrow> run task a st);
       rs1 \<leftarrow> rsets st1 a;
       Some (if idle_srcid rs1 \<noteq> 0
             then upd_rset a (idle_srcid_update (\<lambda>_. 0)) (source_remove (idle_srcid rs1) st1)
             else st1)
     }"

definition resource_set_find ::
  "('s, 'f, 'e) renv_scheme \<Rightarrow> 'f option \<Rightarrow> ('s, 'z) rstate_scheme \<Rightarrow> addr option" where
  "resource_set_find E ent st =
     (let got = fsif_get_field_by_entry (lib E) (fs st) ent fldtype_integer
            (Some ''manager_id'') True;
          mid = (case snd got of Some (VInteger i) \<Rightarrow> i | _ \<Rightarrow> uint INVALID_MANAGER_ID)
      in if mid = uint INVALID_MANAGER_ID then None
         else find_in_hash_table (word_of_int mid) st)"


subsection \<open>What the queues deliver\<close>

definition dequeue_step ::
  "('s, 'f, 'e) renv_scheme \<Rightarrow> addr \<Rightarrow> u32 \<Rightarrow> int \<Rightarrow> resmsg_type \<Rightarrow> u32 \<Rightarrow> qentry \<Rightarrow>
    rs_output \<times> ('s, 'z) rstate_scheme \<Rightarrow> rs_output \<times> ('s, 'z) rstate_scheme" where
  "dequeue_step E r rid blk type txid e p =
     (if q_txid e = txid \<and> (q_reqno e \<noteq> 0 \<or> o_client (fst p) \<noteq> q_value e) \<and>
          \<not> (blk \<noteq> 0 \<and> type = RESMSG_GRANT)
      then (let (sent, st1) = send_message E (Send r type rid (q_reqno e) (q_value e)) (snd p)
            in (if sent then (fst p)\<lparr>o_client := q_value e\<rparr> else fst p, st1))
      else p)"

lemma dequeue_loop_scan:
  "dequeue_loop E r rid blk type txid q val st =
    (let (q', val', st') = scan_list (\<lambda>e. q_txid e > txid)
           (dequeue_step E r rid blk type txid) q (val, st)
     in (val'\<lparr>o_queue := q'\<rparr>, st'))"
proof (induction q arbitrary: val st)
  case (Cons e q)
  then show ?case by (auto simp: dequeue_step_def Let_def split_beta)
qed simp

lemma scan_no_match:
  "(\<forall>e \<in> set q. q_txid e \<noteq> txid) \<Longrightarrow>
    scan_list (\<lambda>e. q_txid e > txid) (dequeue_step E r rid blk type txid) q p =
    (tl (dropWhile (\<lambda>e. q_txid e \<le> txid) q), p)"
  by (induction q) (auto simp: dequeue_step_def not_le)

lemma scan_sorted:
  assumes "sorted_wrt (<) (map q_txid q)"
  shows "scan_list (\<lambda>e. q_txid e > txid) (dequeue_step E r rid blk type txid) q p =
    (tl (dropWhile (\<lambda>e. q_txid e \<le> txid) q),
     case find (\<lambda>e. q_txid e = txid) q of None \<Rightarrow> p
     | Some e \<Rightarrow> dequeue_step E r rid blk type txid e p)"
  using assms
proof (induction q)
  case (Cons e q)
  show ?case
  proof (cases "q_txid e = txid")
    case True
    with Cons.prems have "\<forall>e' \<in> set q. q_txid e' \<noteq> txid" by force
    from scan_no_match [OF this] True show ?thesis by simp
  next
    case False
    have "find (\<lambda>e. q_txid e = txid) q = None" if "q_txid e > txid"
      using Cons.prems that by (force simp: find_None_iff)
    with False Cons show ?thesis by (cases "q_txid e > txid") (auto simp: dequeue_step_def not_le)
  qed
qed simp

lemma dropWhile_sorted:
  fixes q :: "qentry list"
  shows "sorted_wrt (<) (map q_txid q) \<Longrightarrow>
    dropWhile (\<lambda>e. q_txid e \<le> txid) q = filter (\<lambda>e. q_txid e > txid) q"
proof (induction q)
  case (Cons e q)
  then have "filter (\<lambda>e. q_txid e > txid) q = q" if "q_txid e > txid"
    using that by (auto intro!: filter_True dest: less_trans)
  with Cons show ?case by (auto simp: not_le)
qed simp

text \<open>The message the entry of a transaction makes, if any.\<close>

definition change_sent :: "('s, 'f, 'e) renv_scheme \<Rightarrow> int \<Rightarrow> resmsg_type \<Rightarrow> u32 \<Rightarrow> qentry \<Rightarrow> action list \<Rightarrow> bool" where
  "change_sent E blk type client e lg \<longleftrightarrow>
     (q_reqno e \<noteq> 0 \<or> client \<noteq> q_value e) \<and> \<not> (blk \<noteq> 0 \<and> type = RESMSG_GRANT) \<and> send_ok E lg"

lemma dequeue_loop_sorted:
  assumes "sorted_wrt (<) (map q_txid q)"
    and "dequeue_loop E r rid blk type txid q val st = (val', st')"
  shows "o_queue val' = tl (dropWhile (\<lambda>e. q_txid e \<le> txid) q) \<and>
    o_factstore val' = o_factstore val \<and>
    (case find (\<lambda>e. q_txid e = txid) q of
       None \<Rightarrow> st' = st \<and> o_client val' = o_client val
     | Some e \<Rightarrow>
         if change_sent E blk type (o_client val) e (rlog st)
         then st' = log_action (Send r type rid (q_reqno e) (q_value e)) st \<and>
           o_client val' = q_value e
         else st' = st \<and> o_client val' = o_client val)"
proof (cases "find (\<lambda>e. q_txid e = txid) q")
  case None
  with assms(2) show ?thesis by (auto simp: dequeue_loop_scan scan_sorted [OF assms(1)])
next
  case (Some e)
  then have "q_txid e = txid" by (auto simp: find_Some_iff)
  moreover have "dequeue_loop E r rid blk type txid q val st =
      (let (v, s) = dequeue_step E r rid blk type txid e (val, st)
       in (v\<lparr>o_queue := tl (dropWhile (\<lambda>e. q_txid e \<le> txid) q)\<rparr>, s))"
    by (simp add: dequeue_loop_scan scan_sorted [OF assms(1)] Some)
  ultimately show ?thesis
    using assms(2) Some
    by (auto simp: dequeue_step_def send_message_def change_sent_def split: if_splits)
qed

subsection \<open>Properties of the queues\<close>

text \<open>The loop of \<open>dequeue_and_send\<close> is the same on the linked queue and on the list it
  represents: it sends the same messages, and what is left in the linked queue is the list that
  is left.\<close>

theorem dequeue_linked_queue:
  assumes "queue_inv q" and "length (queue_list q) \<le> n"
    and "ptrq.scan (\<lambda>e. q_txid e > txid) (dequeue_step E r rid blk type txid) n q (val, st) =
      (q', val', st')"
  shows "queue_inv q' \<and>
    dequeue_loop E r rid blk type txid (queue_list q) val st = (val'\<lparr>o_queue := queue_list q'\<rparr>, st')"
  using ptrq.scan_items [OF assms(1,2), of "\<lambda>e. q_txid e > txid"
      "dequeue_step E r rid blk type txid" "(val, st)"] assms(3)
  by (cases "scan_list (\<lambda>e. q_txid e > txid) (dequeue_step E r rid blk type txid) (queue_list q)
      (val, st)") (auto simp: dequeue_loop_scan)

text \<open>With the transaction ids of a queue strictly increasing, completing the transaction
  \<open>txid\<close> sends the value queued for it exactly when it answers a request or differs from what the
  client knows, the set is not blocked (for grants) and the message can be sent; the client's
  value is updated with the message, and the queue keeps the entries of later transactions
  except for the first one, which is lost.\<close>

theorem dequeue_sends_and_drops:
  assumes "sorted_wrt (<) (map q_txid (o_queue val))"
    and "dequeue_loop E r rid blk type txid (o_queue val) val st = (val', st')"
  shows "o_queue val' = tl (filter (\<lambda>e. q_txid e > txid) (o_queue val)) \<and>
    (case find (\<lambda>e. q_txid e = txid) (o_queue val) of
       None \<Rightarrow> st' = st \<and> o_client val' = o_client val
     | Some e \<Rightarrow>
         if change_sent E blk type (o_client val) e (rlog st)
         then st' = log_action (Send r type rid (q_reqno e) (q_value e)) st \<and>
           o_client val' = q_value e
         else st' = st \<and> o_client val' = o_client val)"
  using dequeue_loop_sorted [OF assms] dropWhile_sorted [OF assms(1)] by simp

text \<open>A value queued by the next transaction is never sent: when two transactions have each
  queued a value, completing the first one discards the value of the second, and completing the
  second one sends nothing.\<close>

theorem later_change_is_lost:
  assumes "o_queue val = [e1, e2]" and "q_txid e1 < q_txid e2"
    and "dequeue_loop E r rid blk type (q_txid e1) (o_queue val) val st = (val1, st1)"
    and "dequeue_loop E r rid blk type (q_txid e2) (o_queue val1) val1 st1 = (val2, st2)"
  shows "o_queue val1 = [] \<and> st2 = st1 \<and> o_client val2 = o_client val1"
proof -
  have "sorted_wrt (<) (map q_txid (o_queue val))" using assms(1,2) by simp
  from dequeue_loop_sorted [OF this assms(3)] assms(1,2) have "o_queue val1 = []"
    by (simp add: not_le)
  with dequeue_loop_sorted [OF _ assms(4)] show ?thesis by simp
qed

text \<open>A concrete environment: the fact store in memory, every allocation and message succeeds.\<close>

definition mem_env :: "(mem_store, nat) renv" where
  "mem_env = \<lparr>lib = mem_lib, method_str = (\<lambda>_. Some ''equals''), malloc_ok = (\<lambda>_. True),
     send_ok = (\<lambda>_. True), idle_add = (\<lambda>xs. of_nat (length xs) + 1)\<rparr>"

definition init_rstate :: "'s \<Rightarrow> 's rstate" where
  "init_rstate s = \<lparr>fs = s, ressets = Map.empty, rsets = Map.empty, hash_table = (\<lambda>_. []),
     next_manager_id = 0, request_reqno = 0, txs = init_txstate, idle_sources = [], nalloc = 0,
     rlog = []\<rparr>"

theorem dequeue_linked_queue_witness:
  "dequeue_loop mem_env 1 2 0 RESMSG_GRANT 3
     (queue_list (enq 7 \<lparr>q_txid = 3, q_reqno = 1, q_value = 5\<rparr> empty_queue)) zero_output
     (init_rstate mem_empty) =
   (zero_output\<lparr>o_client := 5\<rparr>, log_action (Send 1 RESMSG_GRANT 2 1 5) (init_rstate mem_empty))"
proof -
  let ?e = "\<lparr>q_txid = 3, q_reqno = 1, q_value = 5\<rparr>"
  let ?q = "enq 7 ?e empty_queue"
  let ?s = "ptrq.scan (\<lambda>e. q_txid e > 3) (dequeue_step mem_env 1 2 0 RESMSG_GRANT 3) 1 ?q
    (zero_output, init_rstate mem_empty)"
  have dom: "7 \<notin> dom (fst empty_queue)" by (simp add: empty_queue_def)
  have q: "queue_inv ?q" "queue_list ?q = [?e]"
    using ptrq.inv_push [OF queue_inv_empty(1) dom] ptrq.items_push [OF queue_inv_empty(1) dom]
    by (simp_all add: queue_inv_empty(2))
  obtain q' val' st' where s: "?s = (q', val', st')" by (cases ?s)
  have "length (queue_list ?q) \<le> 1" by (simp add: q(2))
  from dequeue_linked_queue [OF q(1) this s] show ?thesis
    by (cases val') (simp add: q(2) zero_output_def mem_env_def send_message_def)
qed

theorem dequeue_sends_and_drops_witness:
  "\<exists>val' st'. dequeue_loop mem_env 1 2 0 RESMSG_GRANT 3
      [\<lparr>q_txid = 3, q_reqno = 1, q_value = 5\<rparr>, \<lparr>q_txid = 4, q_reqno = 0, q_value = 6\<rparr>]
      zero_output (init_rstate mem_empty) = (val', st') \<and> o_queue val' = [] \<and>
    rlog st' = [Send 1 RESMSG_GRANT 2 1 5]"
proof -
  let ?q = "[\<lparr>q_txid = 3, q_reqno = 1, q_value = 5\<rparr>, \<lparr>q_txid = 4, q_reqno = 0, q_value = 6\<rparr>]"
  let ?val = "zero_output\<lparr>o_queue := ?q\<rparr>"
  obtain val' st' where d: "dequeue_loop mem_env 1 2 0 RESMSG_GRANT 3 (o_queue ?val) ?val
      (init_rstate mem_empty) = (val', st')" by fastforce
  have "sorted_wrt (<) (map q_txid (o_queue ?val))" by simp
  from dequeue_sends_and_drops [OF this d] d show ?thesis
    by (auto simp: change_sent_def mem_env_def zero_output_def log_action_def init_rstate_def
        send_message_def)
qed

theorem later_change_is_lost_witness:
  "\<exists>val1 st1 val2 st2. dequeue_loop mem_env 1 2 0 RESMSG_GRANT 3
      [\<lparr>q_txid = 3, q_reqno = 1, q_value = 5\<rparr>, \<lparr>q_txid = 4, q_reqno = 8, q_value = 6\<rparr>]
      (zero_output\<lparr>o_queue := [\<lparr>q_txid = 3, q_reqno = 1, q_value = 5\<rparr>,
         \<lparr>q_txid = 4, q_reqno = 8, q_value = 6\<rparr>]\<rparr>) (init_rstate mem_empty) = (val1, st1) \<and>
    dequeue_loop mem_env 1 2 0 RESMSG_GRANT 4 (o_queue val1) val1 st1 = (val2, st2) \<and> st2 = st1"
proof -
  let ?e1 = "\<lparr>q_txid = 3, q_reqno = 1, q_value = 5\<rparr>"
  let ?e2 = "\<lparr>q_txid = 4, q_reqno = 8, q_value = 6\<rparr>"
  let ?val = "zero_output\<lparr>o_queue := [?e1, ?e2]\<rparr>"
  obtain val1 st1 where d1: "dequeue_loop mem_env 1 2 0 RESMSG_GRANT (q_txid ?e1) (o_queue ?val)
      ?val (init_rstate mem_empty) = (val1, st1)" by fastforce
  obtain val2 st2 where d2: "dequeue_loop mem_env 1 2 0 RESMSG_GRANT (q_txid ?e2) (o_queue val1)
      val1 st1 = (val2, st2)" by fastforce
  from later_change_is_lost [OF _ _ d1 d2] d1 d2 show ?thesis by simp
qed

subsection \<open>Well-formed states\<close>

text \<open>
  Every resource set is in the chain of its id, ids are unique and below the counter, and a
  resource set and its \<open>resset_t\<close> point at each other.
\<close>

definition hash_ok :: "('s, 'z) rstate_scheme \<Rightarrow> bool" where
  "hash_ok st \<longleftrightarrow>
     (\<forall>i. distinct (hash_table st i)) \<and>
     (\<forall>i a. a \<in> set (hash_table st i) \<longleftrightarrow>
        (\<exists>rs. rsets st a = Some rs \<and> RS_HASH_INDEX (manager_id rs) = i))"

definition ids_ok :: "('s, 'z) rstate_scheme \<Rightarrow> bool" where
  "ids_ok st \<longleftrightarrow>
     (\<forall>a b rs rt. rsets st a = Some rs \<and> rsets st b = Some rt \<and> manager_id rs = manager_id rt
        \<longrightarrow> a = b) \<and>
     (\<forall>a rs. rsets st a = Some rs \<longrightarrow> manager_id rs < next_manager_id st \<and> a < nalloc st)"

definition links_ok :: "('s, 'z) rstate_scheme \<Rightarrow> bool" where
  "links_ok st \<longleftrightarrow>
     (\<forall>a rs. rsets st a = Some rs \<longrightarrow>
        (\<exists>r x. rs_resset rs = Some r \<and> ressets st r = Some x \<and> userdata x = Some a)) \<and>
     (\<forall>r x a. ressets st r = Some x \<and> userdata x = Some a \<longrightarrow>
        (\<exists>rs. rsets st a = Some rs \<and> rs_resset rs = Some r))"

definition rs_inv :: "('s, 'z) rstate_scheme \<Rightarrow> bool" where
  "rs_inv st \<longleftrightarrow> hash_ok st \<and> ids_ok st \<and> links_ok st"

text \<open>
  Two states with the same resource sets, whatever these hold otherwise; the later one has sent
  messages but no replies, no set has lost its request, and the fields of an extended state are
  the same.
\<close>

fun is_reply :: "action \<Rightarrow> bool" where
  "is_reply (Reply r e) = True"
| "is_reply _ = False"

definition replies :: "action list \<Rightarrow> action list" where
  "replies = filter is_reply"

definition requests_ok :: "('s, 'z) rstate_scheme \<Rightarrow> bool" where
  "requests_ok st \<longleftrightarrow> (\<forall>a rs. rsets st a = Some rs \<longrightarrow> request rs \<noteq> None)"

definition same_sets :: "('s, 'z) rstate_scheme \<Rightarrow> ('s, 'z) rstate_scheme \<Rightarrow> bool" where
  "same_sets st st' \<longleftrightarrow>
     hash_table st' = hash_table st \<and> next_manager_id st' = next_manager_id st \<and>
     nalloc st \<le> nalloc st' \<and> rstate.more st' = rstate.more st \<and>
     replies (rlog st') = replies (rlog st) \<and> (requests_ok st \<longrightarrow> requests_ok st') \<and>
     (\<forall>a. map_option (\<lambda>rs. (manager_id rs, rs_resset rs)) (rsets st' a) =
          map_option (\<lambda>rs. (manager_id rs, rs_resset rs)) (rsets st a)) \<and>
     (\<forall>r. map_option userdata (ressets st' r) = map_option userdata (ressets st r))"

lemma same_sets_refl [simp]: "same_sets st st"
  by (simp add: same_sets_def)

lemma same_sets_trans [trans]: "same_sets st1 st2 \<Longrightarrow> same_sets st2 st3 \<Longrightarrow> same_sets st1 st3"
  by (simp add: same_sets_def)

lemma same_sets_sym_rset:
  assumes "same_sets st st'" and "rsets st' a = Some rs'"
  shows "\<exists>rs. rsets st a = Some rs \<and> manager_id rs = manager_id rs' \<and> rs_resset rs = rs_resset rs'"
proof -
  have "map_option (\<lambda>rs. (manager_id rs, rs_resset rs)) (rsets st' a) =
      map_option (\<lambda>rs. (manager_id rs, rs_resset rs)) (rsets st a)"
    using assms(1) by (simp add: same_sets_def)
  with assms(2) show ?thesis by (cases "rsets st a") auto
qed

lemma same_sets_rset:
  assumes "same_sets st st'" and "rsets st a = Some rs"
  shows "\<exists>rs'. rsets st' a = Some rs' \<and> manager_id rs' = manager_id rs \<and>
    rs_resset rs' = rs_resset rs"
proof -
  have "map_option (\<lambda>rs. (manager_id rs, rs_resset rs)) (rsets st' a) =
      map_option (\<lambda>rs. (manager_id rs, rs_resset rs)) (rsets st a)"
    using assms(1) by (simp add: same_sets_def)
  with assms(2) show ?thesis by (cases "rsets st' a") auto
qed

lemma same_sets_resset:
  assumes "same_sets st st'"
  shows "(\<exists>x. ressets st' r = Some x \<and> userdata x = u) \<longleftrightarrow>
    (\<exists>x. ressets st r = Some x \<and> userdata x = u)"
proof -
  have "map_option userdata (ressets st' r) = map_option userdata (ressets st r)"
    using assms by (simp add: same_sets_def)
  then show ?thesis by (cases "ressets st r"; cases "ressets st' r") auto
qed

lemma rs_inv_same:
  assumes inv: "rs_inv st" and same: "same_sets st st'"
  shows "rs_inv st'"
proof -
  note D = same_sets_sym_rset [OF same] and U = same_sets_rset [OF same]
  have tab: "hash_table st' = hash_table st" "next_manager_id st' = next_manager_id st"
    "nalloc st \<le> nalloc st'" using same by (simp_all add: same_sets_def)
  have "(\<exists>rs. rsets st' a = Some rs \<and> RS_HASH_INDEX (manager_id rs) = i) \<longleftrightarrow>
      (\<exists>rs. rsets st a = Some rs \<and> RS_HASH_INDEX (manager_id rs) = i)" for a i
    using D U by metis
  then have "hash_ok st'" using inv by (simp add: rs_inv_def hash_ok_def tab(1))
  moreover have "ids_ok st'"
  proof -
    have ids: "ids_ok st" using inv by (simp add: rs_inv_def)
    show ?thesis
      unfolding ids_ok_def
    proof (intro conjI allI impI)
      fix a b rs' rt' assume h: "rsets st' a = Some rs' \<and> rsets st' b = Some rt' \<and>
        manager_id rs' = manager_id rt'"
      from D h obtain rs rt where "rsets st a = Some rs" "rsets st b = Some rt"
        "manager_id rs = manager_id rt" by metis
      with ids show "a = b" by (auto simp: ids_ok_def)
    next
      fix a rs' assume "rsets st' a = Some rs'"
      from D [OF this] obtain rs where rs: "rsets st a = Some rs" "manager_id rs = manager_id rs'"
        by blast
      from ids rs(1) have "manager_id rs < next_manager_id st" "a < nalloc st"
        by (auto simp: ids_ok_def)
      with tab(2,3) rs(2) show "manager_id rs' < next_manager_id st'" "a < nalloc st'" by simp_all
    qed
  qed
  moreover have "links_ok st'"
    unfolding links_ok_def
  proof (intro conjI allI impI)
    fix a rs' assume "rsets st' a = Some rs'"
    from D [OF this] obtain rs where "rsets st a = Some rs" "rs_resset rs = rs_resset rs'" by blast
    moreover have "links_ok st" using inv by (simp add: rs_inv_def)
    ultimately obtain r where "rs_resset rs' = Some r"
      "\<exists>x. ressets st r = Some x \<and> userdata x = Some a" unfolding links_ok_def by metis
    then show "\<exists>r x. rs_resset rs' = Some r \<and> ressets st' r = Some x \<and> userdata x = Some a"
      using same_sets_resset [OF same] by blast
  next
    fix r x a assume "ressets st' r = Some x \<and> userdata x = Some a"
    then have "\<exists>x. ressets st r = Some x \<and> userdata x = Some a"
      using same_sets_resset [OF same] by blast
    moreover have "links_ok st" using inv by (simp add: rs_inv_def)
    ultimately obtain rs where "rsets st a = Some rs" "rs_resset rs = Some r"
      unfolding links_ok_def by metis
    from U [OF this(1)] this(2) show "\<exists>rs. rsets st' a = Some rs \<and> rs_resset rs = Some r" by auto
  qed
  ultimately show ?thesis by (simp add: rs_inv_def)
qed

text \<open>The table as a map from ids.\<close>

lemma find_in_hash_table_iff:
  assumes "rs_inv st"
  shows "find_in_hash_table mid st = Some a \<longleftrightarrow>
    (\<exists>rs. rsets st a = Some rs \<and> manager_id rs = mid)"
proof -
  let ?p = "\<lambda>a. map_option manager_id (rsets st a) = Some mid"
  let ?l = "hash_table st (RS_HASH_INDEX mid)"
  have mem: "a \<in> set ?l \<and> ?p a \<longleftrightarrow> (\<exists>rs. rsets st a = Some rs \<and> manager_id rs = mid)" for a
    using assms by (auto simp: rs_inv_def hash_ok_def)
  have uniq: "a = b" if "?p a" "?p b" for a b
    using that assms by (auto simp: rs_inv_def ids_ok_def)
  show ?thesis
  proof (cases "find ?p ?l")
    case None
    then have "\<not> (a \<in> set ?l \<and> ?p a)" by (auto simp: find_None_iff)
    with mem None show ?thesis by (simp add: find_in_hash_table_def)
  next
    case (Some b)
    then have "b \<in> set ?l \<and> ?p b" by (auto simp: find_Some_iff)
    with mem [of a] mem [of b] uniq [of a b] Some show ?thesis
      unfolding find_in_hash_table_def by (metis option.inject)
  qed
qed


subsection \<open>Creation and destruction keep the state well formed\<close>

lemma rs_inv_init: "rs_inv (init_rstate s)"
  by (simp add: rs_inv_def hash_ok_def ids_ok_def links_ok_def init_rstate_def)

text \<open>The changes of the fact store, the log and other fields are invisible to \<open>rs_inv\<close>.\<close>

lemma same_sets_frame [simp]:
  "same_sets st (st\<lparr>fs := s\<rparr>)"
  "same_sets st (st\<lparr>txs := t\<rparr>)"
  "same_sets st (st\<lparr>request_reqno := n\<rparr>)"
  "same_sets st (st\<lparr>idle_sources := xs\<rparr>)"
  "\<not> is_reply x \<Longrightarrow> same_sets st (log_action x st)"
  "same_sets st (source_remove i st)"
  by (simp_all add: same_sets_def log_action_def source_remove_def replies_def requests_ok_def)

lemma same_sets_alloc: "alloc E st = (m, st') \<Longrightarrow> same_sets st st'"
  by (auto simp: alloc_def same_sets_def requests_ok_def)

lemma same_sets_send: "\<not> is_reply m \<Longrightarrow> same_sets st (snd (send_message E m st))"
  by (simp add: send_message_def)

lemma same_sets_upd_rset:
  assumes "\<And>rs. manager_id (f rs) = manager_id rs \<and> rs_resset (f rs) = rs_resset rs \<and>
    (request rs \<noteq> None \<longrightarrow> request (f rs) \<noteq> None)"
  shows "same_sets st (upd_rset a f st)"
  using assms
  by (auto simp: same_sets_def upd_rset_def option.map_comp comp_def requests_ok_def)

lemma same_sets_upd_resset:
  assumes "\<And>x. userdata (f x) = userdata x"
  shows "same_sets st (upd_resset r f st)"
  using assms
  by (auto simp: same_sets_def upd_resset_def option.map_comp comp_def requests_ok_def)

lemma same_sets_update_factstore:
  "update_factstore E rs flds st = Some (ok, st') \<Longrightarrow> same_sets st st'"
  by (auto simp: update_factstore_def bind_eq_Some_conv)

lemma same_sets_update_request:
  assumes "update_factstore_request E rs st = Some (ok, st')"
  shows "same_sets st st'"
  using same_sets_trans [OF same_sets_frame(3) same_sets_update_factstore] assms
  by (auto simp: update_factstore_request_def)

lemma same_sets_updates:
  "update_factstore_flags E rs x st = Some (ok, st') \<Longrightarrow> same_sets st st'"
  "update_factstore_block E rs st = Some (ok, st') \<Longrightarrow> same_sets st st'"
  "update_factstore_audio E rs audio st = Some (ok, st') \<Longrightarrow> same_sets st st'"
  "update_factstore_video E rs pid st = Some (ok, st') \<Longrightarrow> same_sets st st'"
  by (simp_all add: update_factstore_flags_def update_factstore_block_def
      update_factstore_audio_def update_factstore_video_def same_sets_update_factstore)

lemma add_factstore_entry_state:
  "\<exists>s'. snd (add_factstore_entry E rs x st) = st\<lparr>fs := s'\<rparr>"
  by (cases "fsif_add_factstore_entry (lib E) (Some FACTSTORE_RESOURCE_SET)
      (Some (set_fields_of rs x)) (fs st)") (auto simp: add_factstore_entry_def)

lemma resource_set_create_cases:
  assumes "resource_set_create E pid r st = Some (ao, st')"
  obtains (exists) x a where "ressets st r = Some x" "userdata x = Some a" "ao = Some a" "st' = st"
  | (no_memory) x where "ressets st r = Some x" "userdata x = None" "ao = None"
      "\<not> malloc_ok E (nalloc st)" "st' = st\<lparr>nalloc := nalloc st + 1\<rparr>"
  | (created) x rs st4 where "ressets st r = Some x" "userdata x = None" "ao = Some (nalloc st)"
      "malloc_ok E (nalloc st)" "rs = new_resource_set pid (next_manager_id st) r"
      "st4 = add_to_hash_table (nalloc st) rs (upd_resset r (userdata_update (\<lambda>_. Some (nalloc st)))
         (st\<lparr>nalloc := nalloc st + 1, next_manager_id := next_manager_id st + 1,
             rsets := (rsets st)(nalloc st \<mapsto> rs)\<rparr>))"
      "st' = snd (add_factstore_entry E rs x st4)"
proof (cases "ressets st r")
  case None
  with assms show thesis by (simp add: resource_set_create_def)
next
  case (Some x)
  show thesis
  proof (cases "userdata x")
    case None
    show thesis
    proof (cases "malloc_ok E (nalloc st)")
      case True
      with assms Some None show thesis
        by (intro created [OF Some None _ True refl refl])
          (auto simp: resource_set_create_def alloc_def Let_def)
    next
      case False
      with assms Some None show thesis
        by (intro no_memory [OF Some None _ False]) (simp_all add: resource_set_create_def alloc_def)
    qed
  next
    case (Some a)
    with assms \<open>ressets st r = Some x\<close> show thesis
      by (intro exists [of x a]) (simp_all add: resource_set_create_def)
  qed
qed

lemma rs_inv_created:
  assumes inv: "rs_inv st" and more: "next_manager_id st \<noteq> -1"
    and x: "ressets st r = Some x" "userdata x = None"
    and rs: "rs = new_resource_set pid (next_manager_id st) r"
    and st4: "st4 = add_to_hash_table (nalloc st) rs
      (upd_resset r (userdata_update (\<lambda>_. Some (nalloc st)))
         (st\<lparr>nalloc := nalloc st + 1, next_manager_id := next_manager_id st + 1,
             rsets := (rsets st)(nalloc st \<mapsto> rs)\<rparr>))"
  shows "rs_inv st4"
proof -
  let ?a = "nalloc st"
  have ok: "hash_ok st" "ids_ok st" "links_ok st" using inv by (simp_all add: rs_inv_def)
  have new: "manager_id rs = next_manager_id st" "rs_resset rs = Some r"
    by (simp_all add: rs new_resource_set_def)
  have sets: "rsets st4 = (rsets st)(?a \<mapsto> rs)" "nalloc st4 = Suc ?a"
    "next_manager_id st4 = next_manager_id st + 1"
    "ressets st4 = (ressets st)(r \<mapsto> x\<lparr>userdata := Some ?a\<rparr>)"
    "hash_table st4 = (hash_table st)(RS_HASH_INDEX (manager_id rs) :=
       ?a # hash_table st (RS_HASH_INDEX (manager_id rs)))"
    using x by (simp_all add: st4 add_to_hash_table_def upd_resset_def Let_def)
  have fresh: "rsets st ?a = None"
  proof (cases "rsets st ?a")
    case (Some y)
    with ok(2) have "?a < ?a" unfolding ids_ok_def by blast
    then show ?thesis by simp
  qed simp
  have "hash_ok st4"
  proof -
    have "?a \<notin> set (hash_table st i)" for i using ok(1) fresh by (simp add: hash_ok_def)
    with ok(1) fresh show ?thesis by (auto simp: hash_ok_def sets)
  qed
  moreover have "ids_ok st4"
  proof -
    have old: "manager_id y < next_manager_id st \<and> b < ?a" if "rsets st b = Some y" for b y
      using ok(2) that by (auto simp: ids_ok_def)
    have same: "a = b" if "rsets st a = Some y" "rsets st b = Some z"
      "manager_id y = manager_id z" for a b y z
      using ok(2) that unfolding ids_ok_def by blast
    have less: "next_manager_id st < next_manager_id st + 1" by (rule less_inc_u32 [OF more])
    show ?thesis
      unfolding ids_ok_def
    proof (intro conjI allI impI)
      fix a b y z
      assume h: "rsets st4 a = Some y \<and> rsets st4 b = Some z \<and> manager_id y = manager_id z"
      show "a = b"
        using h old [of a y] old [of b z] same [of a y b z] new(1)
        by (cases "a = ?a"; cases "b = ?a") (auto simp: sets)
    next
      fix a y assume h: "rsets st4 a = Some y"
      show "manager_id y < next_manager_id st4"
        using h old [of a y] less new(1) by (cases "a = ?a") (auto simp: sets dest: less_trans)
      show "a < nalloc st4"
        using h old [of a y] by (cases "a = ?a") (auto simp: sets)
    qed
  qed
  moreover have "links_ok st4"
    unfolding links_ok_def
  proof (intro conjI allI impI)
    fix b y assume y: "rsets st4 b = Some y"
    show "\<exists>r' z. rs_resset y = Some r' \<and> ressets st4 r' = Some z \<and> userdata z = Some b"
    proof (cases "b = ?a")
      case True
      with y new(2) show ?thesis by (simp add: sets)
    next
      case False
      with y have "rsets st b = Some y" by (simp add: sets)
      with ok(3) obtain r' z where "rs_resset y = Some r'" "ressets st r' = Some z"
        "userdata z = Some b" unfolding links_ok_def by blast
      with x show ?thesis by (cases "r' = r") (auto simp: sets)
    qed
  next
    fix r' z b assume z: "ressets st4 r' = Some z \<and> userdata z = Some b"
    show "\<exists>y. rsets st4 b = Some y \<and> rs_resset y = Some r'"
    proof (cases "r' = r")
      case True
      with z new(2) show ?thesis by (auto simp: sets)
    next
      case False
      with z have "ressets st r' = Some z \<and> userdata z = Some b" by (simp add: sets)
      with ok(3) obtain y where "rsets st b = Some y" "rs_resset y = Some r'"
        unfolding links_ok_def by blast
      with fresh show ?thesis by (cases "b = ?a") (auto simp: sets)
    qed
  qed
  ultimately show ?thesis by (simp add: rs_inv_def)
qed

lemma rs_inv_create:
  assumes "rs_inv st" and "next_manager_id st \<noteq> -1"
    and "resource_set_create E pid r st = Some (ao, st')"
  shows "rs_inv st' \<and> (case ao of None \<Rightarrow> True
    | Some a \<Rightarrow> \<exists>rs. rsets st' a = Some rs \<and> rs_resset rs = Some r)"
  using assms(3)
proof (cases rule: resource_set_create_cases)
  case (exists x a)
  with assms(1) show ?thesis by (auto simp: rs_inv_def links_ok_def)
next
  case (no_memory x)
  have "same_sets st st'" using no_memory by (simp add: same_sets_def requests_ok_def)
  with assms(1) no_memory show ?thesis by (auto dest: rs_inv_same)
next
  case (created x rs st4)
  have "rs_inv st4" by (rule rs_inv_created [OF assms(1,2) created(1,2,5,6)])
  moreover obtain s' where "st' = st4\<lparr>fs := s'\<rparr>"
    using add_factstore_entry_state [of E rs x st4] created(7) by auto
  moreover have "rsets st4 (nalloc st) = Some rs" "rs_resset rs = Some r"
    using created by (simp_all add: add_to_hash_table_def upd_resset_def new_resource_set_def Let_def)
  ultimately show ?thesis using created(3) rs_inv_same [of st4 st'] by simp
qed

lemma set_selist_key: "set_selist rs = key_sel ''manager_id'' (uint (manager_id rs))"
  by (simp add: set_selist_def key_sel_def INTEGER_FIELD_def)

lemma delete_factstore_entry_total:
  "\<exists>ok s'. fsif_delete_factstore_entry (lib E) FACTSTORE_RESOURCE_SET (Some (set_selist rs)) s =
      Some (ok, s')"
  by (auto simp: fsif_delete_factstore_entry_def set_selist_key find_entry_key split: option.split)

lemma resource_spec_destroy_total: "\<exists>s'. resource_spec_destroy L mstr spec s = Some s'"
proof (cases spec)
  case (AudioSpec audio)
  have "\<exists>ok s'. fsif_delete_factstore_entry L FACTSTORE_AUDIO_STREAM
      (Some (audio_fields mstr (a_app_id audio) (a_group audio) (property_name audio)
         (match_method audio) (match_pattern audio))) s = Some (ok, s')"
    by (auto simp: fsif_delete_factstore_entry_def find_entry_string [OF audio_fields_ok(1)]
        split: option.split)
  with AudioSpec show ?thesis
    by (auto simp: resource_spec_destroy_def destroy_audio_stream_spec_def)
next
  case (VideoSpec pid)
  have "[INTEGER_FIELD ''videopid'' (uint pid)] = key_sel ''videopid'' (uint pid)"
    by (simp add: INTEGER_FIELD_def key_sel_def)
  with VideoSpec show ?thesis
    by (auto simp: resource_spec_destroy_def destroy_video_stream_spec_def
        fsif_delete_factstore_entry_def find_entry_key split: option.split)
qed

lemma destroy_specs_total: "\<exists>s'. destroy_specs L mstr sps s = Some s'"
proof (induction sps arbitrary: s)
  case (Cons spec sps)
  obtain s1 where "resource_spec_destroy L mstr spec s = Some s1"
    using resource_spec_destroy_total [of L mstr spec s] by blast
  with Cons [of s1] show ?case by auto
qed simp

text \<open>The state after the destruction of the set \<open>a\<close>, up to the fact store.\<close>

definition unlink_set :: "addr \<Rightarrow> addr \<Rightarrow> resource_set \<Rightarrow> 's \<Rightarrow> ('s, 'z) rstate_scheme \<Rightarrow>
    ('s, 'z) rstate_scheme" where
  "unlink_set a r rs s st =
     (let st1 = (if idle_srcid rs \<noteq> 0 then source_remove (idle_srcid rs) st else st);
          st2 = delete_from_hash_table a rs (st1\<lparr>fs := s\<rparr>)
      in upd_resset r (userdata_update (\<lambda>_. None)) (st2\<lparr>rsets := (rsets st2)(a := None)\<rparr>))"

lemma resource_set_destroy_set:
  assumes "ressets st r = Some x" and "userdata x = Some a" and "rsets st a = Some rs"
    and "rs_resset rs = Some r"
  shows "\<exists>s1 ok s2. destroy_specs (lib E) (method_str E) (specs rs) (fs st) = Some s1 \<and>
    fsif_delete_factstore_entry (lib E) FACTSTORE_RESOURCE_SET (Some (set_selist rs)) s1 =
      Some (ok, s2) \<and>
    resource_set_destroy E (Some r) st = Some (unlink_set a r rs s2 st)"
proof -
  obtain s1 where s1: "destroy_specs (lib E) (method_str E) (specs rs) (fs st) = Some s1"
    using destroy_specs_total [of "lib E" "method_str E" "specs rs" "fs st"] by blast
  obtain ok s2 where s2: "fsif_delete_factstore_entry (lib E) FACTSTORE_RESOURCE_SET
      (Some (set_selist rs)) s1 = Some (ok, s2)"
    using delete_factstore_entry_total [of E rs s1] by blast
  have "resource_set_destroy E (Some r) st = Some (unlink_set a r rs s2 st)"
    using assms s1 s2
    by (simp add: resource_set_destroy_def delete_factstore_entry_def unlink_set_def Let_def
        source_remove_def delete_from_hash_table_def upd_rset_def upd_resset_def)
  with s1 s2 show ?thesis by blast
qed

lemma rs_inv_unlink:
  assumes inv: "rs_inv st" and x: "ressets st r = Some x" "userdata x = Some a"
    and rs: "rsets st a = Some rs" "rs_resset rs = Some r"
  shows "rs_inv (unlink_set a r rs s st)"
proof -
  let ?st = "unlink_set a r rs s st"
  have ok: "hash_ok st" "ids_ok st" "links_ok st" using inv by (simp_all add: rs_inv_def)
  have sets: "rsets ?st = (rsets st)(a := None)" "nalloc ?st = nalloc st"
    "next_manager_id ?st = next_manager_id st"
    "ressets ?st = (ressets st)(r \<mapsto> x\<lparr>userdata := None\<rparr>)"
    "hash_table ?st = (hash_table st)(RS_HASH_INDEX (manager_id rs) :=
       remove1 a (hash_table st (RS_HASH_INDEX (manager_id rs))))"
    using x by (simp_all add: unlink_set_def delete_from_hash_table_def upd_resset_def Let_def
        source_remove_def)
  have "hash_ok ?st"
    unfolding hash_ok_def
  proof (intro conjI allI)
    fix i show "distinct (hash_table ?st i)" using ok(1) by (simp add: hash_ok_def sets)
    fix b
    have d: "distinct (hash_table st (RS_HASH_INDEX (manager_id rs)))"
      using ok(1) by (simp add: hash_ok_def)
    have m: "b \<in> set (hash_table st i) \<longleftrightarrow>
        (\<exists>y. rsets st b = Some y \<and> RS_HASH_INDEX (manager_id y) = i)"
      using ok(1) by (simp add: hash_ok_def)
    show "b \<in> set (hash_table ?st i) \<longleftrightarrow>
        (\<exists>y. rsets ?st b = Some y \<and> RS_HASH_INDEX (manager_id y) = i)"
      using d m rs(1) by (auto simp: sets)
  qed
  moreover have "ids_ok ?st"
    using ok(2) unfolding ids_ok_def sets by (metis fun_upd_other fun_upd_same option.discI)
  moreover have "links_ok ?st"
    unfolding links_ok_def
  proof (intro conjI allI impI)
    fix b y assume "rsets ?st b = Some y"
    then have y: "rsets st b = Some y" "b \<noteq> a" by (auto simp: sets split: if_splits)
    with ok(3) obtain r' z where z: "rs_resset y = Some r'" "ressets st r' = Some z"
      "userdata z = Some b" unfolding links_ok_def by blast
    with x y(2) have "r' \<noteq> r" by auto
    with z show "\<exists>r' z. rs_resset y = Some r' \<and> ressets ?st r' = Some z \<and> userdata z = Some b"
      by (auto simp: sets)
  next
    fix r' z b assume "ressets ?st r' = Some z \<and> userdata z = Some b"
    then have z: "ressets st r' = Some z \<and> userdata z = Some b" "r' \<noteq> r"
      by (auto simp: sets split: if_splits)
    with ok(3) obtain y where "rsets st b = Some y" "rs_resset y = Some r'"
      unfolding links_ok_def by blast
    with z(2) rs show "\<exists>y. rsets ?st b = Some y \<and> rs_resset y = Some r'"
      by (cases "b = a") (auto simp: sets)
  qed
  ultimately show ?thesis by (simp add: rs_inv_def)
qed

lemma rs_inv_destroy:
  assumes "rs_inv st" and "ressets st r \<noteq> None"
  shows "\<exists>st'. resource_set_destroy E (Some r) st = Some st' \<and> rs_inv st' \<and>
    (\<forall>a rs. rsets st' a = Some rs \<longrightarrow> rs_resset rs \<noteq> Some r)"
proof -
  from assms(2) obtain x where x: "ressets st r = Some x" by blast
  have links: "links_ok st" using assms(1) by (simp add: rs_inv_def)
  show ?thesis
  proof (cases "userdata x")
    case None
    then have "resource_set_destroy E (Some r) st = Some st"
      by (simp add: resource_set_destroy_def x)
    moreover have "rs_resset rs \<noteq> Some r" if "rsets st a = Some rs" for a rs
    proof
      assume "rs_resset rs = Some r"
      with links that x have "userdata x = Some a" by (force simp: links_ok_def)
      with None show False by simp
    qed
    ultimately show ?thesis using assms(1) by blast
  next
    case (Some a)
    with links x obtain rs where rs: "rsets st a = Some rs" "rs_resset rs = Some r"
      unfolding links_ok_def by blast
    from resource_set_destroy_set [OF x Some rs, of E] obtain s2
      where d: "resource_set_destroy E (Some r) st = Some (unlink_set a r rs s2 st)" by blast
    have "rs_resset y \<noteq> Some r" if "rsets (unlink_set a r rs s2 st) b = Some y" for b y
    proof
      assume "rs_resset y = Some r"
      moreover have "rsets st b = Some y" "b \<noteq> a"
        using that by (auto simp: unlink_set_def delete_from_hash_table_def upd_resset_def Let_def
            source_remove_def split: if_splits)
      ultimately have "userdata x = Some b" using links x by (force simp: links_ok_def)
      with Some \<open>b \<noteq> a\<close> show False by simp
    qed
    with d rs_inv_unlink [OF assms(1) x Some rs] show ?thesis by blast
  qed
qed

subsection \<open>The other operations keep the resource sets\<close>

lemma dequeue_step_same: "same_sets (snd p) (snd (dequeue_step E r rid blk type txid e p))"
  using same_sets_send [of "Send r type rid (q_reqno e) (q_value e)" "snd p" E]
  by (auto simp: dequeue_step_def split_beta)

lemma dequeue_loop_same:
  "dequeue_loop E r rid blk type txid q val st = (val', st') \<Longrightarrow> same_sets st st'"
proof (induction q arbitrary: val st)
  case (Cons e q)
  show ?case
  proof (cases "q_txid e > txid")
    case True
    with Cons.prems show ?thesis by simp
  next
    case False
    obtain val1 st1 where s: "dequeue_step E r rid blk type txid e (val, st) = (val1, st1)"
      by fastforce
    have "dequeue_loop E r rid blk type txid q val1 st1 = (val', st')"
      using Cons.prems False s by (simp add: dequeue_loop_scan split_beta)
    from Cons.IH [OF this] dequeue_step_same [of "(val, st)" E r rid blk type txid e] s
    show ?thesis by (auto intro: same_sets_trans)
  qed
qed simp

lemma set_output_ids [simp]:
  "manager_id (set_output what out rs) = manager_id rs"
  "rs_resset (set_output what out rs) = rs_resset rs"
  "request (set_output what out rs) = request rs"
  by (cases what; simp add: set_output_def)+

lemma same_sets_set_output:
  "same_sets st st1 \<Longrightarrow> same_sets st (upd_rset a (set_output what val) st1)"
  by (rule same_sets_trans, assumption) (rule same_sets_upd_rset, simp)

lemma same_sets_snd:
  "same_sets st (snd (alloc E st))"
  "same_sets st (snd (dequeue_loop E r rid blk type txid q val st))"
  using same_sets_alloc [of E st] dequeue_loop_same [of E r rid blk type txid q val st]
  by (metis prod.collapse)+

lemma same_sets_dequeue:
  assumes "dequeue_and_send E ao what txid st = Some st'"
  shows "same_sets st st'"
  using assms
  by (auto simp: dequeue_and_send_def bind_eq_Some_conv Let_def split_beta
      split: option.splits intro!: same_sets_set_output same_sets_snd)

lemma same_sets_enqueue:
  assumes "enqueue_send_request E ao what txid rq st = Some st'"
  shows "same_sets st st'"
proof -
  have alloc: "same_sets st (snd (alloc E st))" by (rule same_sets_snd)
  with assms show ?thesis
    by (cases "alloc E st")
      (auto simp: enqueue_send_request_def bind_eq_Some_conv Let_def
        split: option.splits if_splits intro!: same_sets_set_output)
qed

lemma same_sets_queue_change:
  assumes "resource_set_queue_change E ao txid rq what st = Some st'"
  shows "same_sets st st'"
proof (cases ao)
  case None
  with assms show ?thesis by (simp add: resource_set_queue_change_def)
next
  case (Some a)
  let ?st1 = "snd (alloc E st)"
  from assms Some obtain t where "st' = st \<or> st' = ?st1\<lparr>txs := t\<rparr> \<or>
      enqueue_send_request E (Some a) what txid rq (?st1\<lparr>txs := t\<rparr>) = Some st'"
    by (auto simp: resource_set_queue_change_def bind_eq_Some_conv Let_def split_beta
        split: if_splits)
  moreover have "same_sets st (?st1\<lparr>txs := t\<rparr>)" for t
    using same_sets_trans [OF same_sets_snd(1) same_sets_frame(2)] by blast
  ultimately show ?thesis by (auto dest: same_sets_enqueue intro: same_sets_trans)
qed

lemma same_sets_send_queued:
  "resource_set_send_queued_changes E mid txid st = Some st' \<Longrightarrow> same_sets st st'"
  by (auto simp: resource_set_send_queued_changes_def bind_eq_Some_conv split: option.splits
      dest!: same_sets_dequeue intro: same_sets_trans)

lemma same_sets_send_release:
  "resource_set_send_release_request E ao st = Some st' \<Longrightarrow> same_sets st st'"
  by (auto simp: resource_set_send_release_request_def bind_eq_Some_conv same_sets_send
      split: option.splits)

lemma same_sets_add_idle:
  assumes "resource_set_add_idle_task E a task st = Some (ok, st')"
  shows "same_sets st st'"
proof -
  have "same_sets st (upd_rset a (\<lambda>y. y\<lparr>idle_srcid := i, idle_fn := Some task\<rparr>) st1)"
    if "same_sets st st1" for i st1
    by (rule same_sets_trans [OF that]) (rule same_sets_upd_rset, simp)
  with assms show ?thesis
    by (auto simp: resource_set_add_idle_task_def bind_eq_Some_conv Let_def split: if_splits)
qed

lemma same_sets_resource_set_update:
  assumes "resource_set_update_factstore E ro what st = Some (ok, st')"
  shows "same_sets st st'"
  using assms
  by (cases what) (auto simp: resource_set_update_factstore_def bind_eq_Some_conv
      split: option.splits if_splits intro: same_sets_updates same_sets_update_request)

lemma same_sets_add_spec:
  assumes "resource_set_add_spec E ro args st = Some (ok, st')"
  shows "same_sets st st'"
proof -
  have specs: "same_sets st1 (upd_rset a (specs_update f) st1)" for a f st1
    by (rule same_sets_upd_rset) simp
  have alloc: "same_sets st ((snd (alloc E (st\<lparr>fs := s1\<rparr>)))\<lparr>fs := s2\<rparr>)" for s1 s2
    by (rule same_sets_trans [OF same_sets_frame(1) same_sets_trans [OF same_sets_snd(1)
        same_sets_frame(1)]])
  have spec_case: "same_sets st st2"
    if "(case found of Some spec \<Rightarrow> Some (spec, sps, st\<lparr>fs := s1\<rparr>)
        | None \<Rightarrow> (let (m, st1) = alloc E (st\<lparr>fs := s1\<rparr>)
           in do { (created, s2) \<leftarrow> resource_spec_create L mstr (m \<noteq> None) kl args (fs st1);
                spec \<leftarrow> created; Some (spec, spec # sps, st1\<lparr>fs := s2\<rparr>) })) = Some (spec, sps', st2)"
    for found s1 L mstr kl sps spec sps' st2
    using that alloc
    by (cases found) (auto simp: Let_def split_beta bind_eq_Some_conv)
  have final: "same_sets st st'"
    if "(case spec of AudioSpec audio \<Rightarrow> update_factstore_audio E rs audio (upd_rset a f st2)
         | VideoSpec pid \<Rightarrow> update_factstore_video E rs pid (upd_rset a f st2)) = Some (ok, st')"
      "f = specs_update g" "same_sets st st2" for spec rs a f st2 g
  proof -
    have "same_sets st (upd_rset a f st2)"
      using same_sets_trans [OF that(3) specs] that(2) by simp
    moreover have "same_sets (upd_rset a f st2) st'"
      using that(1) by (cases spec) (auto intro: same_sets_updates)
    ultimately show ?thesis by (rule same_sets_trans)
  qed
  show ?thesis
  proof (cases ro)
    case None
    with assms show ?thesis by (simp add: resource_set_add_spec_def)
  next
    case (Some r)
    with assms obtain x where x: "ressets st r = Some x"
      by (auto simp: resource_set_add_spec_def bind_eq_Some_conv)
    show ?thesis
    proof (cases "userdata x")
      case None
      with assms Some x show ?thesis by (simp add: resource_set_add_spec_def)
    next
      case (Some a)
      with assms \<open>ro = Some r\<close> x obtain rs where rs: "rsets st a = Some rs"
        by (auto simp: resource_set_add_spec_def bind_eq_Some_conv)
      show ?thesis
      proof (cases "rs_resset rs = Some r")
        case False
        with assms \<open>ro = Some r\<close> x Some rs show ?thesis by (simp add: resource_set_add_spec_def)
      next
        case True
        note A = assms [unfolded resource_set_add_spec_def \<open>ro = Some r\<close> option.case x bind.bind_lunit
            Some rs]
        with True obtain sps found s1 where
          "update_spec (lib E) (method_str E) (Some (klass x)) args (specs rs) (fs st) =
            Some (sps, found, s1)"
          by (auto simp: bind_eq_Some_conv)
        with A True obtain spec sps' st2 where
          found: "(case found of Some spec \<Rightarrow> Some (spec, sps, st\<lparr>fs := s1\<rparr>)
             | None \<Rightarrow> (let (m, st1) = alloc E (st\<lparr>fs := s1\<rparr>)
                 in do { (created, s2) \<leftarrow> resource_spec_create (lib E) (method_str E) (m \<noteq> None)
                         (Some (klass x)) args (fs st1);
                      spec \<leftarrow> created; Some (spec, spec # sps, st1\<lparr>fs := s2\<rparr>) })) =
            Some (spec, sps', st2)"
          and upd: "(case spec of
              AudioSpec audio \<Rightarrow>
                update_factstore_audio E rs audio (upd_rset a (specs_update (\<lambda>_. sps')) st2)
            | VideoSpec pid \<Rightarrow>
                update_factstore_video E rs pid (upd_rset a (specs_update (\<lambda>_. sps')) st2)) =
            Some (ok, st')"
          by (auto simp: bind_eq_Some_conv Let_def simp del: option.case)
        show ?thesis by (rule final [OF upd refl spec_case [OF found]])
      qed
    qed
  qed
qed

subsection \<open>Properties of the table\<close>


lemma created_rsets:
  assumes "ressets st r = Some x" and "userdata x = None"
    and "resource_set_create E pid r st = Some (Some a, st')"
  shows "a = nalloc st \<and> next_manager_id st' = next_manager_id st + 1 \<and>
    rsets st' = (rsets st)(a \<mapsto> new_resource_set pid (next_manager_id st) r) \<and>
    ressets st' = (ressets st)(r \<mapsto> x\<lparr>userdata := Some a\<rparr>)"
  using assms(3)
proof (cases rule: resource_set_create_cases)
  case (created y rs st4)
  obtain s' where "st' = st4\<lparr>fs := s'\<rparr>"
    using add_factstore_entry_state [of E rs y st4] created(7) by auto
  then have "rsets st' = rsets st4" "ressets st' = ressets st4"
    "next_manager_id st' = next_manager_id st4" by simp_all
  with created(1,3,5,6) assms(1) show ?thesis
    by (simp add: add_to_hash_table_def upd_resset_def Let_def)
qed (use assms in auto)


text \<open>A fact without a manager id finds the resource set 0: the default written before the
  lookup is overwritten with 0 when the field is missing, so that a change of a foreign fact is
  taken for a change of the first resource set.\<close>

theorem missing_manager_id_finds_first_set:
  assumes "rs_inv st" and "fact_get (lib E) (fs st) f ''manager_id'' = None"
    and "rsets st a = Some rs" and "manager_id rs = 0"
  shows "resource_set_find E (Some f) st = Some a"
proof -
  have "uint INVALID_MANAGER_ID \<noteq> 0" by (simp add: INVALID_MANAGER_ID_def uint_0_iff)
  then have "resource_set_find E (Some f) st = find_in_hash_table 0 st"
    using assms(2)
    by (simp add: resource_set_find_def fsif_get_field_by_entry_def get_field_def)
  with assms(3,4) find_in_hash_table_iff [OF assms(1)] show ?thesis by simp
qed

definition test_resset :: resset where
  "test_resset = \<lparr>peer = Some '':1.7'', rs_id = 4, klass = ''player'', app_id = None, rs_mode = 0,
     flags_all = 3, flags_opt = 1, flags_share = 0, flags_mask = 0, userdata = None,
     transp = RESPROTO_TRANSPORT_DBUS\<rparr>"

definition test_rstate :: "mem_store rstate" where
  "test_rstate = (init_rstate mem_empty)\<lparr>ressets := [5 \<mapsto> test_resset]\<rparr>"

lemma test_rstate_inv: "rs_inv test_rstate"
  by (simp add: rs_inv_def hash_ok_def ids_ok_def links_ok_def test_rstate_def init_rstate_def
      test_resset_def)

lemma test_create: "\<exists>st'. resource_set_create mem_env 99 5 test_rstate = Some (Some 0, st')"
  by (simp add: resource_set_create_def test_rstate_def test_resset_def alloc_def mem_env_def
      init_rstate_def Let_def)


theorem missing_manager_id_finds_first_set_witness:
  "\<exists>st :: mem_store rstate. resource_set_find mem_env (Some 8) st = Some (0::addr) \<and>
    fact_get mem_lib (fs st) 8 ''manager_id'' = None"
proof -
  obtain st1 where c: "resource_set_create mem_env 99 5 test_rstate = Some (Some 0, st1)"
    using test_create by blast
  have s: "next_manager_id test_rstate = 0" "ressets test_rstate 5 = Some test_resset"
    "userdata test_resset = None"
    by (simp_all add: test_rstate_def init_rstate_def test_resset_def)
  let ?st = "st1\<lparr>fs := mem_empty\<rparr>"
  have "rs_inv st1" using rs_inv_create [OF test_rstate_inv _ c] s(1) by simp
  then have "rs_inv ?st" by (rule rs_inv_same) (rule same_sets_frame)
  moreover have f: "fact_get mem_lib mem_empty 8 ''manager_id'' = None"
    by (simp add: mem_lib_def mem_empty_def)
  moreover have "rsets ?st 0 = Some (new_resource_set 99 0 5)"
    using created_rsets [OF s(2,3) c] s(1) by simp
  moreover have "manager_id (new_resource_set 99 0 5) = 0" by (simp add: new_resource_set_def)
  ultimately have "resource_set_find mem_env (Some 8) ?st = Some 0"
    by (intro missing_manager_id_finds_first_set) (simp_all add: mem_env_def)
  with f show ?thesis by (intro exI [of _ ?st]) simp
qed

subsection \<open>The operations return\<close>

lemma links_resset:
  assumes "rs_inv st" and "rsets st a = Some rs"
  obtains r x where "rs_resset rs = Some r" and "ressets st r = Some x" and "userdata x = Some a"
  using assms unfolding rs_inv_def links_ok_def by blast

lemma links_userdata:
  assumes "rs_inv st" and "ressets st r = Some x" and "userdata x = Some a"
  obtains rs where "rsets st a = Some rs" and "rs_resset rs = Some r"
  using assms unfolding rs_inv_def links_ok_def by blast

lemma txs_simps [simp]:
  "txs (upd_rset a f st) = txs st" "txs (upd_resset r g st) = txs st"
  "txs (log_action x st) = txs st" "txs (snd (alloc E st)) = txs st"
  "txs (snd (send_message E m st)) = txs st" "txs (source_remove i st) = txs st"
  by (simp_all add: upd_rset_def upd_resset_def log_action_def alloc_def send_message_def
      source_remove_def)

lemma txs_dequeue_loop [simp]: "txs (snd (dequeue_loop E r rid blk type txid q val st)) = txs st"
proof (induction q arbitrary: val st)
  case (Cons e q)
  then show ?case by (simp add: Let_def split_beta)
qed simp

lemma dequeue_and_send_total:
  assumes "rs_inv st" and "rsets st a = Some rs"
  shows "\<exists>st'. dequeue_and_send E (Some a) what txid st = Some st' \<and> txs st' = txs st"
proof -
  obtain r x where "rs_resset rs = Some r" "ressets st r = Some x"
    by (rule links_resset [OF assms])
  then show ?thesis
    using assms(2) by (cases "output_of what rs") (auto simp: dequeue_and_send_def split_beta)
qed

lemma send_queued_changes_total:
  assumes "rs_inv st"
  shows "\<exists>st'. resource_set_send_queued_changes E mid txid st = Some st' \<and> txs st' = txs st"
proof (cases "find_in_hash_table mid st")
  case None
  then show ?thesis by (simp add: resource_set_send_queued_changes_def)
next
  case (Some a)
  then obtain rs where "rsets st a = Some rs" by (auto simp: find_in_hash_table_iff [OF assms])
  then obtain st1 where st1: "dequeue_and_send E (Some a) resource_set_granted txid st = Some st1"
    "txs st1 = txs st" using dequeue_and_send_total [OF assms] by blast
  note same = same_sets_dequeue [OF st1(1)]
  obtain rs1 where "rsets st1 a = Some rs1"
    using same_sets_rset [OF same \<open>rsets st a = Some rs\<close>] by blast
  then obtain st2 where "dequeue_and_send E (Some a) resource_set_advice txid st1 = Some st2"
    "txs st2 = txs st1" using dequeue_and_send_total [OF rs_inv_same [OF assms same]] by blast
  with st1 Some show ?thesis by (simp add: resource_set_send_queued_changes_def)
qed

lemma enqueue_total:
  assumes "rsets st a = Some rs"
  shows "\<exists>st'. enqueue_send_request E (Some a) what txid rq st = Some st' \<and> txs st' = txs st"
  using assms
  by (auto simp: enqueue_send_request_def alloc_def Let_def split: option.split)

lemma queue_change_total:
  assumes "rsets st a = Some rs"
  shows "\<exists>st'. resource_set_queue_change E (Some a) txid rq what st = Some st' \<and>
    (txs st' = txs st \<or>
     (\<exists>mem. txs st' = snd (transaction_add_resource_set mem txid (manager_id rs) (txs st))))"
proof (cases "rs_resset rs")
  case None
  with assms show ?thesis by (simp add: resource_set_queue_change_def)
next
  case (Some r)
  let ?st1 = "snd (alloc E st)" and ?m = "fst (alloc E st) \<noteq> None"
  obtain added t where t: "transaction_add_resource_set ?m txid (manager_id rs) (txs st) = (added, t)"
    by fastforce
  have "rsets (?st1\<lparr>txs := t\<rparr>) a = Some rs" using assms by (simp add: alloc_def)
  from enqueue_total [OF this, of E what txid rq] obtain st2 where
    "enqueue_send_request E (Some a) what txid rq (?st1\<lparr>txs := t\<rparr>) = Some st2" "txs st2 = t" by auto
  with assms Some t have "\<exists>st'. resource_set_queue_change E (Some a) txid rq what st = Some st' \<and>
      txs st' = t"
    by (cases added) (simp_all add: resource_set_queue_change_def Let_def split_beta)
  with t show ?thesis by (metis snd_conv)
qed

lemma send_release_total:
  assumes "rs_inv st" and "rsets st a = Some rs"
  shows "\<exists>st'. resource_set_send_release_request E (Some a) st = Some st' \<and> txs st' = txs st"
proof -
  obtain r x where "rs_resset rs = Some r" "ressets st r = Some x"
    by (rule links_resset [OF assms])
  with assms(2) show ?thesis by (simp add: resource_set_send_release_request_def)
qed

lemma add_idle_total:
  "rsets st a = Some rs \<Longrightarrow>
    \<exists>ok st'. resource_set_add_idle_task E a task st = Some (ok, st') \<and> txs st' = txs st"
  by (auto simp: resource_set_add_idle_task_def Let_def)

lemma update_factstore_total:
  "\<exists>ok st'. update_factstore E rs flds st = Some (ok, st') \<and> txs st' = txs st"
  by (auto simp: update_factstore_def fsif_update_factstore_entry_def set_selist_key find_entry_key
      split: option.split)

lemma resource_set_update_total:
  assumes "rs_inv st" and "ressets st r = Some x"
  shows "\<exists>ok st'. resource_set_update_factstore E (Some r) what st = Some (ok, st') \<and>
    txs st' = txs st"
proof (cases "userdata x")
  case None
  with assms(2) show ?thesis by (auto simp: resource_set_update_factstore_def)
next
  case (Some a)
  obtain rs where rs: "rsets st a = Some rs" "rs_resset rs = Some r"
    by (rule links_userdata [OF assms Some])
  have "\<exists>ok st'. update_factstore_request E rs st = Some (ok, st') \<and> txs st' = txs st"
    using update_factstore_total [of E rs _ "st\<lparr>request_reqno := request_reqno st + 1\<rparr>"]
    by (simp add: update_factstore_request_def)
  with assms(2) Some rs show ?thesis
    using update_factstore_total [of E rs _ st]
    by (cases what) (simp_all add: resource_set_update_factstore_def update_factstore_flags_def
        update_factstore_block_def ex_bool_eq)
qed
end
