(* ===== verification/Resource_Auth.thy ===== *)
theory Resource_Auth
  imports Prelude
begin

text \<open>
  The security configuration of the resource plugin, \<open>src/plugins/resource/auth.c\<close>, and the
  splitting of a list of credentials (\<open>keyword_list\<close> of \<open>manager.c\<close>).

  \<open>param\<close> is \<open>ohm_plugin_get_param\<close> for the plugin.  The configuration table of GLib is a map;
  the result \<open>None\<close> of \<open>auth_init\<close> is a crash (\<open>strdup\<close> of \<open>NULL\<close>, when the configuration of a
  class has no \<open>:\<close>).
\<close>

subsection \<open>Tokens\<close>

text \<open>\<open>strtok_r\<close> with one delimiter: the non-empty pieces of the string.\<close>

function tokens :: "char \<Rightarrow> string \<Rightarrow> string list" where
  "tokens d s =
     (case dropWhile (\<lambda>c. c = d) s of
        [] \<Rightarrow> []
      | c # t \<Rightarrow> (c # takeWhile (\<lambda>c. c \<noteq> d) t) # tokens d (dropWhile (\<lambda>c. c \<noteq> d) t))"
  by pat_completeness auto
termination
proof (relation "measure (\<lambda>(d, s). length s)", simp)
  fix d :: char and s c t assume "dropWhile (\<lambda>c. c = d) s = c # t"
  then have "length (c # t) \<le> length s" by (metis length_dropWhile_le)
  then show "((d, dropWhile (\<lambda>c. c \<noteq> d) t), d, s) \<in> measure (\<lambda>(d, s). length s)"
    using length_dropWhile_le [of "\<lambda>c. c \<noteq> d" t] by simp
qed

declare tokens.simps [simp del]

text \<open>\<open>strncpy\<close> into a buffer of \<open>n\<close> bytes whose last byte is then cleared.\<close>

definition strncpy_buf :: "nat \<Rightarrow> string \<Rightarrow> string" where
  "strncpy_buf n s = take (n - 1) s"

subsection \<open>Configuration\<close>

datatype auth_policy = auth_reject | auth_accept

record auth_conf =
  security_configuration :: "string \<rightharpoonup> string \<times> string"
  default_policy :: auth_policy

definition class_entry :: "string \<Rightarrow> (string \<times> string) option" where
  "class_entry conf =
     (case tokens CHR '':'' (strncpy_buf 512 conf) of
        m # a # _ \<Rightarrow> Some (m, a)
      | _ \<Rightarrow> None)"

fun auth_classes ::
  "(string \<Rightarrow> cstring) \<Rightarrow> string list \<Rightarrow> (string \<rightharpoonup> string \<times> string) \<Rightarrow>
    (string \<rightharpoonup> string \<times> string) option" where
  "auth_classes param [] tab = Some tab"
| "auth_classes param (k # ks) tab =
     (case param k of
        None \<Rightarrow> auth_classes param ks tab
      | Some conf \<Rightarrow>
          (case class_entry conf of
             None \<Rightarrow> None
           | Some e \<Rightarrow> auth_classes param ks (tab(k \<mapsto> e))))"

definition auth_init :: "(string \<Rightarrow> cstring) \<Rightarrow> auth_conf option" where
  "auth_init param =
     (let policy = (if param ''default'' = Some ''reject'' then auth_reject else auth_accept)
      in case param ''classes'' of
           None \<Rightarrow> Some \<lparr>security_configuration = Map.empty, default_policy = policy\<rparr>
         | Some classes \<Rightarrow>
             map_option (\<lambda>tab. \<lparr>security_configuration = tab, default_policy = policy\<rparr>)
               (auth_classes param (tokens CHR '','' (strncpy_buf 512 classes)) Map.empty))"

definition auth_query :: "auth_conf \<Rightarrow> string \<Rightarrow> cstring \<times> cstring" where
  "auth_query conf kl =
     (case security_configuration conf kl of
        None \<Rightarrow> (None, None)
      | Some (m, a) \<Rightarrow> (Some m, Some a))"

definition auth_get_default_policy :: "auth_conf \<Rightarrow> auth_policy" where
  "auth_get_default_policy conf = default_policy conf"

subsection \<open>Credentials\<close>

text \<open>\<open>keyword_list\<close> for a list of \<open>n + 1\<close> pointers, the last one being \<open>NULL\<close>.\<close>

fun keyword_list :: "nat \<Rightarrow> string \<Rightarrow> string list" where
  "keyword_list 0 p = []"
| "keyword_list (Suc n) [] = []"
| "keyword_list (Suc n) (c # cs) =
     takeWhile (\<lambda>c. c \<noteq> CHR '','') (c # cs) #
       keyword_list n (drop 1 (dropWhile (\<lambda>c. c \<noteq> CHR '','') (c # cs)))"


subsection \<open>Splitting undoes joining\<close>

fun join :: "char \<Rightarrow> string list \<Rightarrow> string" where
  "join d [] = []"
| "join d [k] = k"
| "join d (k # ks) = k @ d # join d ks"

lemma join_Cons: "ks \<noteq> [] \<Longrightarrow> join d (k # ks) = k @ d # join d ks"
  by (cases ks) simp_all

lemma takeWhile_sep: "d \<notin> set k \<Longrightarrow> takeWhile (\<lambda>c. c \<noteq> d) (k @ d # s) = k"
  by (induction k) auto

lemma dropWhile_sep: "d \<notin> set k \<Longrightarrow> dropWhile (\<lambda>c. c \<noteq> d) (k @ d # s) = d # s"
  by (induction k) auto

lemma keyword_list_unfold:
  "p \<noteq> [] \<Longrightarrow> keyword_list (Suc n) p = takeWhile (\<lambda>c. c \<noteq> CHR '','') p #
     keyword_list n (drop 1 (dropWhile (\<lambda>c. c \<noteq> CHR '','') p))"
  by (cases p) simp_all

lemma join_nonempty: "ks \<noteq> [] \<Longrightarrow> last ks \<noteq> [] \<Longrightarrow> join d ks \<noteq> []"
  by (induction d ks rule: join.induct) auto

lemma keyword_list_join:
  assumes "\<forall>k \<in> set ks. CHR '','' \<notin> set k" and "ks \<noteq> [] \<longrightarrow> last ks \<noteq> []"
  shows "keyword_list n (join CHR '','' ks) = take n ks"
  using assms
proof (induction ks arbitrary: n)
  case Nil then show ?case by (cases n) simp_all
next
  case (Cons k ks)
  show ?case
  proof (cases n)
    case (Suc m)
    show ?thesis
    proof (cases "ks = []")
      case True
      with Cons.prems have k: "takeWhile (\<lambda>c. c \<noteq> CHR '','') k = k"
        "dropWhile (\<lambda>c. c \<noteq> CHR '','') k = []" "k \<noteq> []" by auto
      have "keyword_list (Suc m) k = [k]"
        unfolding keyword_list_unfold [OF k(3)] k(1,2) by (cases m) simp_all
      then show ?thesis using True Suc by simp
    next
      case False
      from Cons.prems False have "CHR '','' \<notin> set k" "last ks \<noteq> []" by simp_all
      with False Cons.IH [of m] Cons.prems Suc show ?thesis
        by (simp add: join_Cons keyword_list_unfold takeWhile_sep dropWhile_sep)
    qed
  qed simp
qed

lemma length_keyword_list: "length (keyword_list n p) \<le> n"
  by (induction n p rule: keyword_list.induct) auto

subsection \<open>The configuration table\<close>

lemma auth_classes_lookup:
  "auth_classes param ks tab = Some tab' \<Longrightarrow>
    tab' k = (if k \<in> set ks \<and> param k \<noteq> None then class_entry (the (param k)) else tab k)"
  by (induction param ks tab rule: auth_classes.induct) (auto split: option.splits)

lemma auth_classes_None:
  "auth_classes param ks tab = None \<longleftrightarrow>
    (\<exists>k \<in> set ks. \<exists>conf. param k = Some conf \<and> class_entry conf = None)"
  by (induction ks arbitrary: tab) (auto split: option.split)

subsection \<open>Properties\<close>

text \<open>The configuration answers for exactly the configured classes: initialisation fails
  exactly when a listed class has a configuration without a method and an argument, and
  otherwise \<open>auth_query\<close> yields the first two tokens of the configuration of a listed class and
  nothing for any other class.\<close>

theorem auth_configuration:
  assumes "param ''classes'' = Some classes"
  defines "ks \<equiv> tokens CHR '','' (strncpy_buf 512 classes)"
  shows "case auth_init param of
      None \<Rightarrow> \<exists>k \<in> set ks. \<exists>conf. param k = Some conf \<and> class_entry conf = None
    | Some conf \<Rightarrow> (\<forall>k. auth_query conf k =
          (if k \<in> set ks \<and> param k \<noteq> None
           then (case class_entry (the (param k)) of None \<Rightarrow> (None, None)
                 | Some (m, a) \<Rightarrow> (Some m, Some a))
           else (None, None))) \<and>
        (auth_get_default_policy conf = auth_reject \<longleftrightarrow> param ''default'' = Some ''reject'')"
proof (cases "auth_classes param ks Map.empty")
  case None
  then have "auth_init param = None"
    using assms(1) by (simp add: auth_init_def ks_def [symmetric])
  with None show ?thesis by (simp add: auth_classes_None)
next
  case (Some tab)
  from auth_classes_lookup [OF this] Some assms(1) show ?thesis
    by (auto simp: auth_init_def ks_def [symmetric] auth_query_def auth_get_default_policy_def
        split: option.splits)
qed

theorem auth_configuration_witness:
  "\<exists>conf. auth_init [''classes'' \<mapsto> ''call,player'', ''call'' \<mapsto> ''creds:tcb:x''] = Some conf \<and>
    auth_query conf ''call'' = (Some ''creds'', Some ''tcb'') \<and>
    auth_query conf ''player'' = (None, None)"
proof -
  let ?p = "[''classes'' \<mapsto> ''call,player'', ''call'' \<mapsto> ''creds:tcb:x'']"
  have t: "tokens CHR '','' (strncpy_buf 512 ''call,player'') = [''call'', ''player'']"
    "tokens CHR '':'' (strncpy_buf 512 ''creds:tcb:x'') = [''creds'', ''tcb'', ''x'']"
    by (simp_all add: strncpy_buf_def tokens.simps)
  have e: "class_entry ''creds:tcb:x'' = Some (''creds'', ''tcb'')"
    by (simp add: class_entry_def t(2))
  then obtain conf where c: "auth_init ?p = Some conf" by (simp add: auth_init_def t(1))
  have "?p ''classes'' = Some ''call,player''" by simp
  from auth_configuration [where param = ?p and classes = "''call,player''", OF this] c e
  show ?thesis by (simp add: t(1))
qed

text \<open>Splitting a comma separated list of credentials gives back the credentials, cut after
  the fifteen that fit the array of the authorisation request.\<close>

theorem keyword_list_roundtrip:
  assumes "\<forall>k \<in> set ks. CHR '','' \<notin> set k" and "ks \<noteq> []" and "last ks \<noteq> []"
  shows "keyword_list 15 (join CHR '','' ks) = take 15 ks \<and>
    length (keyword_list 15 p) \<le> 15"
  using keyword_list_join [OF assms(1)] assms(2,3) length_keyword_list by simp

theorem keyword_list_roundtrip_witness:
  "keyword_list 15 ''tcb,cellular'' = [''tcb'', ''cellular'']"
  using keyword_list_roundtrip [of "[''tcb'', ''cellular'']"] by simp
end
