(* ===== verification/Resource_Rule.thy ===== *)
theory Resource_Rule
  imports Fsif
begin

text \<open>
  The interface to the rule engine, \<open>src/plugins/resource/ruleif.c\<close>, and the validation of a
  resource request built on it (\<open>validate_resource_request\<close> of \<open>manager.c\<close>).

  The rule engine is a plugin of another package, a parameter: \<open>find_methods\<close> tells whether its
  methods are found, \<open>rule_find\<close> numbers a rule, \<open>rule_eval\<close> evaluates it.  A result row is a
  \<open>NULL\<close>-terminated array of triples (name, type, value), the first one naming the row; a type
  letter always comes with a value of this type.
\<close>

datatype rvalue = RString string | RInteger int | RDouble double

fun rvalue_type :: "rvalue \<Rightarrow> char" where
  "rvalue_type (RString _) = CHR ''s''"
| "rvalue_type (RInteger _) = CHR ''i''"
| "rvalue_type (RDouble _) = CHR ''d''"

type_synonym row = "(string \<times> rvalue) list"

record rule_env =
  find_methods :: bool
  rule_find :: "string \<Rightarrow> nat \<Rightarrow> int"
  rule_eval :: "int \<Rightarrow> rvalue list \<Rightarrow> int \<times> row list option"

text \<open>\<open>lookup_rules\<close>: the new value of \<open>resource_class_req\<close> and the result.\<close>

definition lookup_rules :: "rule_env \<Rightarrow> int \<Rightarrow> bool \<times> int" where
  "lookup_rules R req =
     (if \<not> find_methods R then (False, req)
      else (let r = rule_find R ''resource_class_request'' 4 in (r \<ge> 0, r)))"

text \<open>\<open>copy_value\<close>: the result and the value written, \<open>None\<close> when nothing is written.\<close>

definition zero_value :: "char \<Rightarrow> rvalue option option" where
  "zero_value type =
     (if type = CHR ''s'' then Some None
      else if type = CHR ''i'' then Some (Some (RInteger 0))
      else if type = CHR ''d'' then Some (Some (RDouble (Some 0)))
      else None)"

definition copy_value :: "string \<Rightarrow> char \<Rightarrow> row \<Rightarrow> bool \<times> rvalue option" where
  "copy_value name type entry =
     (case zero_value type of
        None \<Rightarrow> (False, None)
      | Some zero \<Rightarrow>
          (case entry of
             (n, _) # flds \<Rightarrow>
               if n = ''name''
               then (case find (\<lambda>(f, v). name = f \<and> type = rvalue_type v) flds of
                       None \<Rightarrow> (False, zero)
                     | Some (_, v) \<Rightarrow> (True, Some v))
               else (False, zero)
           | [] \<Rightarrow> (False, zero)))"

text \<open>The loop over the output arguments; it stops at the first one that fails.\<close>

fun copy_values :: "(string \<times> char) list \<Rightarrow> row \<Rightarrow> bool \<times> rvalue option list" where
  "copy_values [] entry = (True, [])"
| "copy_values ((name, type) # args) entry =
     (case copy_value name type entry of
        (False, v) \<Rightarrow> (False, [v])
      | (True, v) \<Rightarrow> (let (ok, vs) = copy_values args entry in (ok, v # vs)))"

definition ruleif_valid_resource_request ::
  "rule_env \<Rightarrow> int \<Rightarrow> string \<Rightarrow> int \<Rightarrow> int \<Rightarrow> (string \<times> char) list \<Rightarrow>
    (bool \<times> rvalue option list) \<times> int" where
  "ruleif_valid_resource_request R req kl mandatory optional args =
     (let req' = (if req < 0 then snd (lookup_rules R req) else req)
      in (if req' \<ge> 0
          then (let (status, retval) =
                  rule_eval R req' [RString kl, RInteger mandatory, RInteger optional]
                in case retval of
                     None \<Rightarrow> (False, [])
                   | Some rows \<Rightarrow>
                       if status \<le> 0 then (False, [])
                       else (case rows of
                               [entry] \<Rightarrow> copy_values args entry
                             | _ \<Rightarrow> (False, [])))
          else (False, []),
          req'))"

text \<open>
  \<open>validate_resource_request\<close>: the verdict, the possibly adjusted optional resources, and the
  rule number.  The masks are passed to the rule engine as \<open>int\<close>s.
\<close>

definition mask_of :: "rvalue option \<Rightarrow> u32" where
  "mask_of v = (case v of Some (RInteger i) \<Rightarrow> word_of_int i | _ \<Rightarrow> 0)"

definition validate_resource_request ::
  "rule_env \<Rightarrow> int \<Rightarrow> string \<Rightarrow> u32 \<Rightarrow> u32 \<Rightarrow> (bool \<times> u32) \<times> int" where
  "validate_resource_request R req kl all opt =
     (let mandatory = all AND NOT opt;
          ((status, vals), req') = ruleif_valid_resource_request R req kl (sint mandatory)
            (sint opt) [(''mandatory'', CHR ''i''), (''optional'', CHR ''i'')]
      in (if \<not> status then (False, opt)
          else if mask_of (vals ! 0) \<noteq> mandatory then (False, opt)
          else (True, mask_of (vals ! 1)),
          req'))"

subsection \<open>Reading a row\<close>

lemma copy_value_True:
  assumes "copy_value name type entry = (True, v)"
  shows "\<exists>x. v = Some x \<and> rvalue_type x = type \<and> (name, x) \<in> set (tl entry) \<and>
    (\<exists>hv. hd entry = (''name'', hv)) \<and> entry \<noteq> []"
  using assms
  by (auto simp: copy_value_def find_Some_iff zero_value_def
      split: option.splits list.splits if_splits) (metis nth_mem)+

lemma copy_values_True:
  "copy_values args entry = (True, vs) \<Longrightarrow>
    list_all2 (\<lambda>(name, type) v. copy_value name type entry = (True, v)) args vs"
  by (induction args arbitrary: vs) (auto split: prod.splits bool.splits)

subsection \<open>Properties\<close>

text \<open>C39. A request is accepted only on one answer row of the rule engine that confirms the
  mandatory resources exactly; the optional resources become those of the answer, and a rejected
  request leaves them unchanged.\<close>

theorem validate_accepts_confirmed:
  assumes "validate_resource_request R req kl all opt = ((ok, opt'), req')"
  shows "if ok
    then req' \<ge> 0 \<and> (\<exists>status entry m p.
        rule_eval R req' [RString kl, RInteger (sint (all AND NOT opt)), RInteger (sint opt)] =
          (status, Some [entry]) \<and> status > 0 \<and>
        (''mandatory'', RInteger m) \<in> set entry \<and> word_of_int m = all AND NOT opt \<and>
        (''optional'', RInteger p) \<in> set entry \<and> opt' = word_of_int p)
    else opt' = opt"
proof -
  let ?args = "[(''mandatory'', CHR ''i''), (''optional'', CHR ''i'')]"
  let ?mand = "all AND NOT opt"
  obtain status vals where r: "ruleif_valid_resource_request R req kl (sint ?mand) (sint opt) ?args =
      ((status, vals), req')"
    using assms by (auto simp: validate_resource_request_def Let_def split: prod.splits)
  show ?thesis
  proof (cases ok)
    case False
    with assms r show ?thesis
      by (auto simp: validate_resource_request_def Let_def split: if_splits)
  next
    case True
    with assms r have v: "status" "mask_of (vals ! 0) = ?mand" "opt' = mask_of (vals ! 1)"
      by (auto simp: validate_resource_request_def Let_def split: if_splits)
    with r obtain s entry where e: "req' \<ge> 0" "s > 0"
      "rule_eval R req' [RString kl, RInteger (sint ?mand), RInteger (sint opt)] = (s, Some [entry])"
      "copy_values ?args entry = (True, vals)"
      by (auto simp: ruleif_valid_resource_request_def Let_def not_le
          split: if_splits prod.splits option.splits list.splits)
    from copy_values_True [OF e(4)] obtain a b where vals: "vals = [a, b]"
      "copy_value ''mandatory'' CHR ''i'' entry = (True, a)"
      "copy_value ''optional'' CHR ''i'' entry = (True, b)"
      by (auto simp: list_all2_Cons1)
    from copy_value_True [OF vals(2)] obtain x where x: "a = Some x" "rvalue_type x = CHR ''i''"
      "(''mandatory'', x) \<in> set entry" by (cases entry) auto
    from copy_value_True [OF vals(3)] obtain y where y: "b = Some y" "rvalue_type y = CHR ''i''"
      "(''optional'', y) \<in> set entry" by (cases entry) auto
    from x(2) y(2) obtain m p where "x = RInteger m" "y = RInteger p" by (cases x; cases y) auto
    with x y v vals(1) e True show ?thesis by (auto simp: mask_of_def)
  qed
qed

theorem validate_accepts_confirmed_witness:
  "validate_resource_request \<lparr>find_methods = True, rule_find = (\<lambda>_ _. 2),
      rule_eval = (\<lambda>_ _. (1, Some [[(''name'', RString ''r''), (''mandatory'', RInteger 2),
        (''optional'', RInteger 1)]]))\<rparr> (-1) ''player'' 3 1 = ((True, 1), 2)"
proof -
  let ?R = "\<lparr>find_methods = True, rule_find = (\<lambda>_ _. 2),
      rule_eval = (\<lambda>_ _. (1, Some [[(''name'', RString ''r''), (''mandatory'', RInteger 2),
        (''optional'', RInteger 1)]]))\<rparr>"
  obtain ok opt' req' where v: "validate_resource_request ?R (-1) ''player'' 3 1 =
      ((ok, opt'), req')" by (metis prod.collapse)
  then have "ok" "req' = 2"
    by (auto simp: validate_resource_request_def ruleif_valid_resource_request_def Let_def
        lookup_rules_def copy_value_def zero_value_def mask_of_def split: if_splits)
  with validate_accepts_confirmed [OF v] v show ?thesis by auto
qed

end
