(* ===== verification/Resource_Manager.thy ===== *)
theory Resource_Manager
  imports Resource_Set Resource_Auth Resource_Rule "HOL-Library.AList"
begin

text \<open>
  The resource manager, \<open>src/plugins/resource/manager.c\<close>: the handlers of the client's
  requests, the registration with its authorisation, the callbacks on changed facts, and the
  transactions that hold back notifications (with \<open>dresif.c\<close> for the calls of the resolver).

  The resolver is a plugin of another package.  A call of it evaluates a policy, which changes
  facts; each change runs the watch callbacks registered for it before the resolver goes on.  The
  parameter \<open>resolve\<close> gives, for the actions so far and a request, the status and the list of
  the changed fields.  A registration request that waits for an answer from D-Bus is kept in
  \<open>reg_reqs\<close>; the answers are the operations \<open>pid_cb\<close> and \<open>authorize_cb\<close>.
\<close>

subsection \<open>Messages, state and environment\<close>

record resmsg =
  m_type :: resmsg_type
  m_reqno :: u32
  m_klass :: string
  m_all :: u32
  m_opt :: u32
  m_share :: u32
  m_group :: cstring
  m_app_id :: cstring
  m_property :: cstring
  m_method :: nat
  m_pattern :: cstring
  m_pid :: u32

record reg_data =
  canceled :: bool
  authorize :: bool
  rd_msg :: resmsg
  rd_resset :: "addr option"
  rd_pid :: int
  rd_method :: cstring
  rd_arg :: cstring

datatype manager_cb = Granted_cb | Advice_cb | Request_cb | Block_cb

record 's mstate = "'s rstate" +
  trans_id :: u32
  reg_reqs :: "(addr \<times> reg_data) list"
  watching :: "manager_cb watches"
  auth :: auth_conf
  resource_class_req :: int

type_synonym 'f fact_change = "'f \<times> string \<times> gvalue"

record ('s, 'f) menv = "('s, 'f) renv" +
  rules :: rule_env
  resolve :: "action list \<Rightarrow> u32 \<Rightarrow> string \<Rightarrow> int \<times> 'f fact_change list"
  mode_always_reply :: u32
  resource_auto_release :: u32
  getpid :: int
  query_ok :: "action list \<Rightarrow> bool"

definition EPERM :: int where "EPERM = 1"
definition EIO :: int where "EIO = 5"
definition ENOMEM :: int where "ENOMEM = 12"
definition EACCES :: int where "EACCES = 13"
definition EINVAL :: int where "EINVAL = 22"
definition EUCLEAN :: int where "EUCLEAN = 117"

definition reply_message :: "addr \<Rightarrow> int \<Rightarrow> 's mstate \<Rightarrow> 's mstate" where
  "reply_message r errcod st = log_action (Reply r errcod) st"

subsection \<open>Transactions\<close>

definition transaction_start :: "addr option \<Rightarrow> resmsg option \<Rightarrow> 's mstate \<Rightarrow> 's mstate" where
  "transaction_start ao msg st =
     (let (txid, t) = transaction_create (Some ()) (txs st);
          st1 = st\<lparr>txs := t, trans_id := txid\<rparr>
      in case (ao, msg) of
           (Some a, Some m) \<Rightarrow>
             if txid \<noteq> NO_TRANSACTION then upd_rset a (reqno_update (\<lambda>_. m_reqno m)) st1 else st1
         | _ \<Rightarrow> st1)"

fun transaction_complete ::
  "('s, 'f) menv \<Rightarrow> u32 list \<Rightarrow> u32 \<Rightarrow> 's mstate \<Rightarrow> 's mstate option" where
  "transaction_complete E [] txid st = Some st"
| "transaction_complete E (i # ids) txid st =
     do {
       st1 \<leftarrow> resource_set_send_queued_changes E i txid st;
       transaction_complete E ids txid st1
     }"

fun run_completions ::
  "('s, 'f) menv \<Rightarrow> unit tx_call list \<Rightarrow> 's mstate \<Rightarrow> 's mstate option" where
  "run_completions E [] st = Some st"
| "run_completions E ((_, ids, txid) # calls) st =
     do { st1 \<leftarrow> transaction_complete E ids txid st; run_completions E calls st1 }"

definition transaction_end :: "('s, 'f) menv \<Rightarrow> addr option \<Rightarrow> 's mstate \<Rightarrow> 's mstate option" where
  "transaction_end E ao st =
     (if trans_id st = NO_TRANSACTION then Some st
      else do {
        (_, t, calls) \<leftarrow> transaction_unref (trans_id st) (txs st);
        st1 \<leftarrow> run_completions E calls (st\<lparr>txs := t\<rparr>);
        (let st2 = st1\<lparr>trans_id := NO_TRANSACTION\<rparr>
         in Some (case ao of None \<Rightarrow> st2
                  | Some a \<Rightarrow> upd_rset a (reqno_update (\<lambda>_. 0)) st2))
      })"

subsection \<open>Callbacks on changed facts\<close>

definition granted_cb ::
  "('s, 'f) menv \<Rightarrow> 'f option \<Rightarrow> field \<Rightarrow> 's mstate \<Rightarrow> 's mstate option" where
  "granted_cb E ent fld st =
     (case snd fld of
        VInteger i \<Rightarrow>
          (case resource_set_find E ent st of
             None \<Rightarrow> Some st
           | Some a \<Rightarrow>
               do {
                 rs \<leftarrow> rsets st a;
                 (case rs_resset rs of
                    None \<Rightarrow> Some st
                  | Some r \<Rightarrow>
                      do {
                        x \<leftarrow> ressets st r;
                        (let st1 = upd_rset a (\<lambda>y. y\<lparr>granted := (granted y)
                               \<lparr>o_factstore := word_of_int i\<rparr>\<rparr>) st
                         in if rs_mode x AND mode_always_reply E = 0 \<or> reqno rs = 0
                            then
                              if trans_id st1 \<noteq> NO_TRANSACTION
                              then resource_set_queue_change E (Some a) (trans_id st1) (reqno rs)
                                     resource_set_granted st1
                              else
                                (let st2 = transaction_start (Some a) None st1
                                 in do {
                                   st3 \<leftarrow> resource_set_queue_change E (Some a) (trans_id st2)
                                     (reqno rs) resource_set_granted st2;
                                   transaction_end E (Some a) st3
                                 })
                            else Some st1)
                      })
               })
      | _ \<Rightarrow> Some st)"

definition advice_cb ::
  "('s, 'f) menv \<Rightarrow> 'f option \<Rightarrow> field \<Rightarrow> 's mstate \<Rightarrow> 's mstate option" where
  "advice_cb E ent fld st =
     (case snd fld of
        VInteger i \<Rightarrow>
          (case resource_set_find E ent st of
             None \<Rightarrow> Some st
           | Some a \<Rightarrow>
               do {
                 rs \<leftarrow> rsets st a;
                 (if rs_resset rs = None then Some st
                  else
                    (let st1 = upd_rset a (\<lambda>y. y\<lparr>advice := (advice y)
                           \<lparr>o_factstore := word_of_int i\<rparr>\<rparr>) st
                     in if trans_id st1 \<noteq> NO_TRANSACTION
                        then resource_set_queue_change E (Some a) (trans_id st1) 0
                               resource_set_advice st1
                        else
                          (let st2 = transaction_start (Some a) None st1
                           in do {
                             st3 \<leftarrow> resource_set_queue_change E (Some a) (trans_id st2) 0
                               resource_set_advice st2;
                             transaction_end E (Some a) st3
                           })))
               })
      | _ \<Rightarrow> Some st)"

definition request_cb ::
  "('s, 'f) menv \<Rightarrow> 'f option \<Rightarrow> field \<Rightarrow> 's mstate \<Rightarrow> 's mstate option" where
  "request_cb E ent fld st =
     (case snd fld of
        VString (Some req) \<Rightarrow>
          (case resource_set_find E ent st of
             None \<Rightarrow> Some st
           | Some a \<Rightarrow>
               do {
                 rs \<leftarrow> rsets st a;
                 (if rs_resset rs = None then Some st
                  else do {
                    old \<leftarrow> request rs;
                    Some (if req \<noteq> old then upd_rset a (request_update (\<lambda>_. Some req)) st else st)
                  })
               })
      | _ \<Rightarrow> Some st)"

definition block_cb ::
  "('s, 'f) menv \<Rightarrow> 'f option \<Rightarrow> field \<Rightarrow> 's mstate \<Rightarrow> 's mstate option" where
  "block_cb E ent fld st =
     (case snd fld of
        VInteger i \<Rightarrow>
          (let blk = sint (word_of_int i :: u32)
           in case resource_set_find E ent st of
                None \<Rightarrow> Some st
              | Some a \<Rightarrow>
                  do {
                    rs \<leftarrow> rsets st a;
                    (case rs_resset rs of
                       None \<Rightarrow> Some st
                     | Some r \<Rightarrow>
                         do {
                           x \<leftarrow> ressets st r;
                           (if blk = block rs then Some st
                            else do {
                              st1 \<leftarrow>
                                (if blk = 0 then Some st
                                 else if rs_mode x AND resource_auto_release E = 0
                                 then resource_set_send_release_request E (Some a) st
                                 else map_option snd
                                        (resource_set_add_idle_task E a Forced_auto_release st));
                              Some (upd_rset a (block_update (\<lambda>_. blk)) st1)
                            })
                         })
                  })
      | _ \<Rightarrow> Some st)"

definition run_callback ::
  "('s, 'f) menv \<Rightarrow> manager_cb \<Rightarrow> 'f option \<Rightarrow> field \<Rightarrow> 's mstate \<Rightarrow> 's mstate option" where
  "run_callback E cb ent fld st =
     (case cb of
        Granted_cb \<Rightarrow> granted_cb E ent fld st
      | Advice_cb \<Rightarrow> advice_cb E ent fld st
      | Request_cb \<Rightarrow> request_cb E ent fld st
      | Block_cb \<Rightarrow> block_cb E ent fld st)"

text \<open>One field of a fact changes in the store, and the fact store interface calls the watch.\<close>

definition fact_changed ::
  "('s, 'f) menv \<Rightarrow> 'f fact_change \<Rightarrow> 's mstate \<Rightarrow> 's mstate option" where
  "fact_changed E ch st =
     (let (f, n, gv) = ch;
          s' = fact_set (lib E) f n gv (fs st);
          st1 = st\<lparr>fs := s'\<rparr>
      in do {
        call \<leftarrow> updated_cb (lib E) s' (watching st) (Some f) n (Some gv);
        (case call of
           None \<Rightarrow> Some st1
         | Some (cb, f', name, fld) \<Rightarrow> run_callback E cb (Some f') fld st1)
      })"

fun facts_changed ::
  "('s, 'f) menv \<Rightarrow> 'f fact_change list \<Rightarrow> 's mstate \<Rightarrow> 's mstate option" where
  "facts_changed E [] st = Some st"
| "facts_changed E (ch # chs) st =
     do { st1 \<leftarrow> fact_changed E ch st; facts_changed E chs st1 }"

text \<open>\<open>dresif_resource_request\<close>: the client's name and id are used in debug messages only.\<close>

definition dresif_resource_request ::
  "('s, 'f) menv \<Rightarrow> u32 \<Rightarrow> string \<Rightarrow> 's mstate \<Rightarrow> (bool \<times> 's mstate) option" where
  "dresif_resource_request E mid req st =
     (let (status, changes) = resolve E (rlog st) mid req
      in do {
        st1 \<leftarrow> facts_changed E changes (log_action (Resolve mid req) st);
        Some (status > 0, st1)
      })"


subsection \<open>Registration\<close>

definition upd_reg :: "addr \<Rightarrow> (reg_data \<Rightarrow> reg_data) \<Rightarrow> 's mstate \<Rightarrow> 's mstate" where
  "upd_reg q f st = st\<lparr>reg_reqs := map (\<lambda>(k, d). if k = q then (k, f d) else (k, d)) (reg_reqs st)\<rparr>"

definition reg_request_destroy :: "addr \<Rightarrow> 's mstate \<Rightarrow> 's mstate" where
  "reg_request_destroy q st = st\<lparr>reg_reqs := AList.delete q (reg_reqs st)\<rparr>"

definition reg_request_cancel :: "addr \<Rightarrow> 's mstate \<Rightarrow> 's mstate" where
  "reg_request_cancel r st =
     st\<lparr>reg_reqs := map (\<lambda>(k, d). if rd_resset d = Some r
                                 then (k, d\<lparr>canceled := True, rd_resset := None\<rparr>) else (k, d))
                      (reg_reqs st)\<rparr>"

text \<open>\<open>validate_resource_request\<close> on the flags of a resource set; the rule number is cached.\<close>

definition validate_request ::
  "('s, 'f) menv \<Rightarrow> string \<Rightarrow> u32 \<Rightarrow> u32 \<Rightarrow> 's mstate \<Rightarrow> bool \<times> u32 \<times> 's mstate" where
  "validate_request E kl all opt st =
     (let ((ok, opt'), req) =
            validate_resource_request (rules E) (resource_class_req st) kl all opt
      in (ok, opt', st\<lparr>resource_class_req := req\<rparr>))"

definition register_cb :: "('s, 'f) menv \<Rightarrow> int \<Rightarrow> addr \<Rightarrow> 's mstate \<Rightarrow> 's mstate option" where
  "register_cb E errcod q st =
     do {
       d \<leftarrow> map_of (reg_reqs st) q;
       (if canceled d then Some (reg_request_destroy q st)
        else do {
          r \<leftarrow> rd_resset d;
          (if errcod \<noteq> 0 then Some (reg_request_destroy q (reply_message r errcod st))
           else do {
             x \<leftarrow> ressets st r;
             (let (ok, opt', st1) = validate_request E (klass x) (flags_all x) (flags_opt x) st;
                  st2 = upd_resset r (flags_opt_update (\<lambda>_. opt')) st1
              in if \<not> ok then Some (reg_request_destroy q (reply_message r EACCES st2))
                 else do {
                   (created, st3) \<leftarrow> resource_set_create E (rd_pid d) r st2;
                   (case created of
                      None \<Rightarrow> Some (reg_request_destroy q (reply_message r ENOMEM st3))
                    | Some a \<Rightarrow>
                        (let st4 = transaction_start (Some a) (Some (rd_msg d)) st3
                         in do {
                           rs \<leftarrow> rsets st4 a;
                           (_, st5) \<leftarrow> dresif_resource_request E (manager_id rs) ''register'' st4;
                           st6 \<leftarrow> transaction_end E (Some a) (reply_message r 0 st5);
                           Some (reg_request_destroy q st6)
                         }))
                 })
           })
        })
     }"

definition authorize_cb :: "('s, 'f) menv \<Rightarrow> bool \<Rightarrow> addr \<Rightarrow> 's mstate \<Rightarrow> 's mstate option" where
  "authorize_cb E authorized q st = register_cb E (if authorized then 0 else EPERM) q st"

definition pid_cb :: "('s, 'f) menv \<Rightarrow> int \<Rightarrow> addr \<Rightarrow> 's mstate \<Rightarrow> 's mstate option" where
  "pid_cb E pid q st =
     do {
       d \<leftarrow> map_of (reg_reqs st) q;
       (let st1 = upd_reg q (rd_pid_update (\<lambda>_. pid)) st
        in if pid = 0 then register_cb E EIO q st1
           else if \<not> authorize d \<or> canceled d then register_cb E 0 q st1
           else do {
             m \<leftarrow> rd_method d;
             arg \<leftarrow> rd_arg d;
             Some (log_action (Auth_request pid m (keyword_list 15 (strncpy_buf 512 arg)) q) st1)
           })
     }"

text \<open>\<open>dbusif_query_pid\<close>: a query that cannot be made answers at once.\<close>

definition dbusif_query_pid ::
  "('s, 'f) menv \<Rightarrow> cstring \<Rightarrow> addr \<Rightarrow> 's mstate \<Rightarrow> 's mstate option" where
  "dbusif_query_pid E dest q st =
     (if query_ok E (rlog st) then Some (log_action (Query_pid dest q) st) else pid_cb E 0 q st)"

text \<open>\<open>reg_request_create\<close>: \<open>None\<close> for success, otherwise the error code left in \<open>errno\<close>.\<close>

definition reg_request_create ::
  "('s, 'f) menv \<Rightarrow> resmsg \<Rightarrow> addr \<Rightarrow> 's mstate \<Rightarrow> (int option \<times> 's mstate) option" where
  "reg_request_create E msg r st =
     do {
       x \<leftarrow> ressets st r;
       (case alloc E st of
          (None, st1) \<Rightarrow> Some (Some ENOMEM, st1)
        | (Some _, st1) \<Rightarrow>
            (case alloc E st1 of
               (None, st2) \<Rightarrow> Some (Some ENOMEM, st2)
             | (Some q, st2) \<Rightarrow>
                 (let d = \<lparr>canceled = False, authorize = False, rd_msg = msg,
                           rd_resset = Some r, rd_pid = 0, rd_method = None, rd_arg = None\<rparr>;
                      st3 = st2\<lparr>reg_reqs := reg_reqs st2 @ [(q, d)]\<rparr>
                  in case transp x of
                       RESPROTO_TRANSPORT_INTERNAL \<Rightarrow>
                         do { st4 \<leftarrow> pid_cb E (getpid E) q st3; Some (None, st4) }
                     | RESPROTO_TRANSPORT_DBUS \<Rightarrow>
                         if m_type msg \<noteq> RESMSG_REGISTER
                         then Some (Some EINVAL, reg_request_destroy q st3)
                         else do {
                           st4 \<leftarrow>
                             (if peer x = None then authorize_cb E False q st3
                              else case auth_query (auth st3) (klass x) of
                                (Some m, Some arg) \<Rightarrow>
                                  if m = ''creds''
                                  then dbusif_query_pid E (peer x) q
                                         (upd_reg q (\<lambda>d. d\<lparr>rd_method := Some m,
                                            rd_arg := Some arg, authorize := True\<rparr>) st3)
                                  else authorize_cb E False q st3
                              | _ \<Rightarrow>
                                  if auth_get_default_policy (auth st3) = auth_accept
                                  then dbusif_query_pid E (peer x) q st3
                                  else authorize_cb E False q st3);
                           Some (None, st4)
                         }
                     | RESPROTO_TRANSPORT_OTHER \<Rightarrow>
                         Some (Some EINVAL, reg_request_destroy q st3))))
     }"

subsection \<open>Handlers of the client's messages\<close>

definition manager_register ::
  "('s, 'f) menv \<Rightarrow> resmsg \<Rightarrow> addr \<Rightarrow> 's mstate \<Rightarrow> 's mstate option" where
  "manager_register E msg r st =
     do {
       (err, st1) \<leftarrow> reg_request_create E msg r st;
       Some (case err of None \<Rightarrow> st1 | Some e \<Rightarrow> reply_message r e st1)
     }"

definition manager_unregister ::
  "('s, 'f) menv \<Rightarrow> addr \<Rightarrow> 's mstate \<Rightarrow> 's mstate option" where
  "manager_unregister E r st =
     do {
       x \<leftarrow> ressets st r;
       client_name \<leftarrow> peer x;
       mid \<leftarrow> (case userdata x of
                None \<Rightarrow> Some 0
              | Some a \<Rightarrow> map_option manager_id (rsets st a));
       (let st1 = reg_request_cancel r st
        in do {
          st2 \<leftarrow> (if userdata x \<noteq> None then resource_set_destroy E (Some r) st1 else Some st1);
          st3 \<leftarrow> (if mid \<noteq> 0 then map_option snd (dresif_resource_request E mid ''unregister'' st2)
                 else Some st2);
          Some (reply_message r 0 st3)
        })
     }"

text \<open>
  The last steps the handlers share: a client that wants every request answered gets the granted
  resources queued, and the transaction ends.
\<close>

definition finish_request ::
  "('s, 'f) menv \<Rightarrow> addr \<Rightarrow> addr option \<Rightarrow> 's mstate \<Rightarrow> 's mstate option" where
  "finish_request E r ao st =
     do {
       x \<leftarrow> ressets st r;
       st1 \<leftarrow>
         (if trans_id st \<noteq> NO_TRANSACTION \<and> rs_mode x AND mode_always_reply E \<noteq> 0
          then (case ao of
                  None \<Rightarrow> None
                | Some a \<Rightarrow>
                    do {
                      rs \<leftarrow> rsets st a;
                      resource_set_queue_change E (Some a) (trans_id st) (reqno rs)
                        resource_set_granted st
                    })
          else Some st);
       transaction_end E ao st1
     }"

definition update_fact ::
  "('s, 'f) menv \<Rightarrow> addr \<Rightarrow> resource_set_update \<Rightarrow> 's mstate \<Rightarrow> 's mstate option" where
  "update_fact E r what st = map_option snd (resource_set_update_factstore E (Some r) what st)"

definition manager_update ::
  "('s, 'f) menv \<Rightarrow> resmsg \<Rightarrow> addr \<Rightarrow> 's mstate \<Rightarrow> 's mstate option" where
  "manager_update E msg r st =
     do {
       x \<leftarrow> ressets st r;
       (case userdata x of
          None \<Rightarrow> finish_request E r None (reply_message r EUCLEAN st)
        | Some a \<Rightarrow>
            if m_klass msg \<noteq> klass x
            then finish_request E r (Some a) (reply_message r EINVAL st)
            else
              (let (ok, opt', st1) = validate_request E (m_klass msg) (m_all msg) (m_opt msg) st
               in if \<not> ok then finish_request E r (Some a) (reply_message r EACCES st1)
                  else if flags_all x = m_all msg \<and> flags_opt x = opt' \<and>
                      flags_share x = m_share msg
                  then finish_request E r (Some a) (reply_message r 0 st1)
                  else
                    (let st2 = upd_resset r (\<lambda>y. y\<lparr>flags_all := m_all msg, flags_opt := opt',
                                   flags_share := m_share msg\<rparr>) st1;
                         st3 = transaction_start (Some a) (Some msg) st2
                     in do {
                       st4 \<leftarrow> update_fact E r update_flags st3;
                       rs \<leftarrow> rsets st4 a;
                       st5 \<leftarrow> (if request rs = Some ''acquire'' \<and> o_client (granted rs) \<noteq> 0
                              then update_fact E r update_request st4 else Some st4);
                       (_, st6) \<leftarrow> dresif_resource_request E (manager_id rs) ''update'' st5;
                       finish_request E r (Some a) (reply_message r 0 st6)
                     })))
     }"

definition manager_acquire ::
  "('s, 'f) menv \<Rightarrow> resmsg \<Rightarrow> addr \<Rightarrow> 's mstate \<Rightarrow> 's mstate option" where
  "manager_acquire E msg r st =
     do {
       x \<leftarrow> ressets st r;
       (case userdata x of
          None \<Rightarrow> transaction_end E None (reply_message r EUCLEAN st)
        | Some a \<Rightarrow>
            (let st1 = transaction_start (Some a) (Some msg) st
             in do {
               rs \<leftarrow> rsets st1 a;
               (let (acquire, st2) =
                      (if request rs \<noteq> Some ''acquire''
                       then (True, upd_rset a (request_update (\<lambda>_. Some ''acquire'')) st1)
                       else (o_client (advice rs) AND NOT (o_client (granted rs)) \<noteq> 0, st1))
                in do {
                  st4 \<leftarrow>
                    (if acquire
                     then do {
                       st3 \<leftarrow> update_fact E r update_request st2;
                       map_option snd (dresif_resource_request E (manager_id rs) ''acquire'' st3)
                     }
                     else Some st2);
                  finish_request E r (Some a) (reply_message r 0 st4)
                })
             }))
     }"

definition manager_release ::
  "('s, 'f) menv \<Rightarrow> resmsg \<Rightarrow> addr \<Rightarrow> 's mstate \<Rightarrow> 's mstate option" where
  "manager_release E msg r st =
     do {
       x \<leftarrow> ressets st r;
       (case userdata x of
          None \<Rightarrow> transaction_end E None (reply_message r EUCLEAN st)
        | Some a \<Rightarrow>
            (let st1 = transaction_start (Some a) (Some msg) st
             in do {
               rs \<leftarrow> rsets st1 a;
               (let (release, st2) =
                      (if request rs \<noteq> Some ''release''
                       then (True, upd_rset a (request_update (\<lambda>_. Some ''release'')) st1)
                       else (o_client (granted rs) \<noteq> 0, st1))
                in do {
                  st3 \<leftarrow>
                    (if block rs \<noteq> 0
                     then update_fact E r update_block (upd_rset a (block_update (\<lambda>_. 0)) st2)
                     else Some st2);
                  st5 \<leftarrow>
                    (if release
                     then do {
                       st4 \<leftarrow> update_fact E r update_request st3;
                       map_option snd (dresif_resource_request E (manager_id rs) ''release'' st4)
                     }
                     else Some st3);
                  finish_request E r (Some a) (reply_message r 0 st5)
                })
             }))
     }"

definition manager_stream ::
  "('s, 'f) menv \<Rightarrow> spec_args \<Rightarrow> string \<Rightarrow> addr \<Rightarrow> 's mstate \<Rightarrow> 's mstate option" where
  "manager_stream E args req r st =
     do {
       x \<leftarrow> ressets st r;
       (case userdata x of
          None \<Rightarrow> Some (reply_message r EUCLEAN st)
        | Some a \<Rightarrow>
            do {
              (ok, st1) \<leftarrow> resource_set_add_spec E (Some r) args st;
              rs \<leftarrow> rsets st1 a;
              st2 \<leftarrow> (if ok then map_option snd (dresif_resource_request E (manager_id rs) req st1)
                     else Some st1);
              Some (reply_message r 0 st2)
            })
     }"

definition manager_audio ::
  "('s, 'f) menv \<Rightarrow> resmsg \<Rightarrow> addr \<Rightarrow> 's mstate \<Rightarrow> 's mstate option" where
  "manager_audio E msg r st =
     manager_stream E (AudioArgs (m_group msg) (m_app_id msg) (m_property msg) (m_method msg)
       (m_pattern msg)) ''audio'' r st"

definition manager_video ::
  "('s, 'f) menv \<Rightarrow> resmsg \<Rightarrow> addr \<Rightarrow> 's mstate \<Rightarrow> 's mstate option" where
  "manager_video E msg r st = manager_stream E (VideoArgs (m_pid msg)) ''video'' r st"

subsection \<open>Forced release\<close>

definition zeromsg :: resmsg where
  "zeromsg = \<lparr>m_type = RESMSG_REGISTER, m_reqno = 0, m_klass = [], m_all = 0, m_opt = 0,
     m_share = 0, m_group = None, m_app_id = None, m_property = None, m_method = 0,
     m_pattern = None, m_pid = 0\<rparr>"

definition forced_auto_release :: "('s, 'f) menv \<Rightarrow> addr \<Rightarrow> 's mstate \<Rightarrow> 's mstate option" where
  "forced_auto_release E a st =
     do {
       rs \<leftarrow> rsets st a;
       (case rs_resset rs of
          None \<Rightarrow> Some st
        | Some r \<Rightarrow>
            if block rs = 0 then Some st
            else if request rs \<noteq> Some ''acquire''
            then resource_set_send_release_request E (Some a) st
            else
              (let st1 = transaction_start (Some a) (Some zeromsg) st;
                   st2 = upd_rset a (\<lambda>y. y\<lparr>request := Some ''release'', block := 0\<rparr>) st1
               in do {
                 st3 \<leftarrow> update_fact E r update_block st2;
                 st4 \<leftarrow> update_fact E r update_request st3;
                 (_, st5) \<leftarrow> dresif_resource_request E (manager_id rs) ''release'' st4;
                 transaction_end E (Some a) st5
               }))
     }"

definition run_task :: "('s, 'f) menv \<Rightarrow> idle_fn \<Rightarrow> addr \<Rightarrow> 's mstate \<Rightarrow> 's mstate option" where
  "run_task E f a st = (case f of Forced_auto_release \<Rightarrow> forced_auto_release E a st)"

definition idle_dispatch :: "('s, 'f) menv \<Rightarrow> addr \<Rightarrow> 's mstate \<Rightarrow> 's mstate option" where
  "idle_dispatch E a st = idle_task (run_task E) a st"

subsection \<open>Initialisation\<close>

text \<open>\<open>manager_init\<close> registers the four watches, most recent first.\<close>

definition manager_watches :: "manager_cb watches" where
  "manager_watches =
     foldl (\<lambda>w (fld, cb). snd (add_watch FACTSTORE_RESOURCE_SET watch_update None (Some fld) cb
              True True w))
       init_watches
       [(''granted'', Granted_cb), (''advice'', Advice_cb), (''request'', Request_cb),
        (''block'', Block_cb)]"

definition manager_init :: "auth_conf \<Rightarrow> 's \<Rightarrow> 's mstate" where
  "manager_init conf s =
     \<lparr>fs = s, ressets = Map.empty, rsets = Map.empty, hash_table = (\<lambda>_. []),
      next_manager_id = 0, request_reqno = 0, txs = init_txstate, idle_sources = [], nalloc = 0,
      rlog = [], trans_id = NO_TRANSACTION, reg_reqs = [], watching = manager_watches,
      auth = conf, resource_class_req = -1\<rparr>"

subsection \<open>States between and inside requests\<close>

definition good :: "'s mstate \<Rightarrow> bool" where
  "good st \<longleftrightarrow> rs_inv st \<and> requests_ok st \<and> watching st = manager_watches"

definition in_tx :: "'s mstate \<Rightarrow> bool" where
  "in_tx st \<longleftrightarrow> (\<exists>tab. open_tx (trans_id st) () tab (txs st))"

definition between :: "'s mstate \<Rightarrow> bool" where
  "between st \<longleftrightarrow> trans_id st = NO_TRANSACTION \<and> idle_tx (txs st)"

text \<open>What every step inside a request keeps.\<close>

definition keeps :: "'s mstate \<Rightarrow> 's mstate \<Rightarrow> bool" where
  "keeps st st' \<longleftrightarrow> same_sets (rstate.truncate st) (rstate.truncate st') \<and>
     watching st' = watching st \<and> reg_reqs st' = reg_reqs st"

definition keeps_tx :: "'s mstate \<Rightarrow> 's mstate \<Rightarrow> bool" where
  "keeps_tx st st' \<longleftrightarrow> keeps st st' \<and> trans_id st' = trans_id st \<and>
     tx_count (txs st') = tx_count (txs st) \<and> (in_tx st \<longrightarrow> in_tx st') \<and>
     (idle_tx (txs st) \<longrightarrow> idle_tx (txs st'))"

lemma truncate_simps [simp]:
  "rsets (rstate.truncate st) = rsets st" "ressets (rstate.truncate st) = ressets st"
  "hash_table (rstate.truncate st) = hash_table st"
  "next_manager_id (rstate.truncate st) = next_manager_id st"
  "nalloc (rstate.truncate st) = nalloc st" "rlog (rstate.truncate st) = rlog st"
  "requests_ok (rstate.truncate st) = requests_ok st" "rs_inv (rstate.truncate st) = rs_inv st"
  by (simp_all add: rstate.truncate_def requests_ok_def rs_inv_def hash_ok_def ids_ok_def
      links_ok_def)

lemma keeps_refl [simp]: "keeps st st"
  by (simp add: keeps_def)

lemma keeps_tx_refl [simp]: "keeps_tx st st"
  by (simp add: keeps_tx_def)

lemma keeps_trans [trans]: "keeps st1 st2 \<Longrightarrow> keeps st2 st3 \<Longrightarrow> keeps st1 st3"
  by (auto simp: keeps_def intro: same_sets_trans)

lemma keeps_tx_trans [trans]: "keeps_tx st1 st2 \<Longrightarrow> keeps_tx st2 st3 \<Longrightarrow> keeps_tx st1 st3"
  by (auto simp: keeps_tx_def intro: keeps_trans)

lemma good_keeps: "good st \<Longrightarrow> keeps st st' \<Longrightarrow> good st'"
  using rs_inv_same [of "rstate.truncate st" "rstate.truncate st'"]
  by (auto simp: good_def keeps_def same_sets_def)

lemma keeps_rset:
  assumes "keeps st st'" and "rsets st a = Some rs"
  shows "\<exists>rs'. rsets st' a = Some rs' \<and> manager_id rs' = manager_id rs \<and> rs_resset rs' = rs_resset rs"
  using same_sets_rset [of "rstate.truncate st" "rstate.truncate st'" a rs] assms
  by (simp add: keeps_def)

lemma keeps_resset:
  assumes "keeps st st'" and "ressets st r = Some x"
  shows "\<exists>x'. ressets st' r = Some x' \<and> userdata x' = userdata x"
  using same_sets_resset [of "rstate.truncate st" "rstate.truncate st'" r "userdata x"] assms
  by (auto simp: keeps_def)

lemma keeps_replies: "keeps st st' \<Longrightarrow> replies (rlog st') = replies (rlog st)"
  by (simp add: keeps_def same_sets_def)

lemma same_sets_keeps: "same_sets st st' \<Longrightarrow> keeps st st' \<and> trans_id st' = trans_id st"
  by (cases st; cases st')
    (auto simp: keeps_def same_sets_def rstate.truncate_def requests_ok_def)

lemma same_keeps_tx:
  assumes "same_sets st st'" and "txs st' = txs st"
  shows "keeps_tx st st'"
  using same_sets_keeps [OF assms(1)] assms(2) by (simp add: keeps_tx_def in_tx_def)

lemma keeps_upd_rset:
  assumes "\<And>rs. manager_id (f rs) = manager_id rs \<and> rs_resset (f rs) = rs_resset rs \<and>
    (request rs \<noteq> None \<longrightarrow> request (f rs) \<noteq> None)"
  shows "keeps_tx st (upd_rset a f st)"
  by (rule same_keeps_tx [OF same_sets_upd_rset [OF assms]]) simp

lemma keeps_txs: "keeps st (st\<lparr>txs := t, trans_id := i\<rparr>)"
  by (simp add: keeps_def same_sets_def rstate.truncate_def requests_ok_def)

lemma idle_tx_find: "idle_tx st \<Longrightarrow> find_transaction st i = None"
  by (auto simp: idle_tx_def find_transaction_def Let_def NO_TRANSACTION_def)

lemma add_resource_set_count:
  "tx_count (snd (transaction_add_resource_set mem i rsid st)) = tx_count st"
  by (simp add: transaction_add_resource_set_def split_beta frame split: option.split)

lemma queue_change_keeps:
  assumes "rsets st a = Some rs"
  shows "\<exists>st'. resource_set_queue_change E (Some a) (trans_id st) rq what st = Some st' \<and>
    keeps_tx st st'"
proof -
  obtain st' where q: "resource_set_queue_change E (Some a) (trans_id st) rq what st = Some st'"
    and t: "txs st' = txs st \<or> (\<exists>mem. txs st' =
      snd (transaction_add_resource_set mem (trans_id st) (manager_id rs) (txs st)))"
    using queue_change_total [OF assms] by blast
  note k = same_sets_keeps [OF same_sets_queue_change [OF q]]
  have "in_tx st'" if "in_tx st"
    using that t k open_tx_add unfolding in_tx_def by metis
  moreover have "idle_tx (txs st')" if "idle_tx (txs st)"
    using that t idle_tx_find [OF that]
    by (auto simp: transaction_add_resource_set_def)
  moreover have "tx_count (txs st') = tx_count (txs st)"
    using t add_resource_set_count by metis
  ultimately show ?thesis using q k by (auto simp: keeps_tx_def)
qed

subsection \<open>Starting and ending a transaction\<close>

lemma start_ok:
  assumes "between st" and "tx_count (txs st) < -2"
  shows "keeps st (transaction_start ao msg st) \<and> in_tx (transaction_start ao msg st) \<and>
    tx_count (txs (transaction_start ao msg st)) = tx_count (txs st) + 1"
proof -
  have "idle_tx (txs st)" using assms(1) by (simp add: between_def)
  from open_tx_create [OF this assms(2)] obtain t where
    c: "transaction_create (Some ()) (txs st) = (tx_count (txs st) + 1, t)"
    "open_tx (tx_count (txs st) + 1) () [] t" by blast
  let ?st1 = "st\<lparr>txs := t, trans_id := tx_count (txs st) + 1\<rparr>"
  have "transaction_start ao msg st = ?st1 \<or> (\<exists>a n. transaction_start ao msg st =
      upd_rset a (reqno_update (\<lambda>_. n)) ?st1)"
    by (auto simp: transaction_start_def c(1) Let_def split: option.split)
  moreover have "keeps st ?st1" by (rule keeps_txs)
  moreover have "keeps_tx ?st1 (upd_rset a (reqno_update (\<lambda>_. n)) ?st1)" for a n
    by (rule keeps_upd_rset) simp
  moreover have "in_tx ?st1" using c(2) by (auto simp: in_tx_def)
  moreover have "tx_count t = tx_count (txs st) + 1" using c(2) by (simp add: open_tx_def)
  ultimately show ?thesis by (auto simp: keeps_tx_def intro: keeps_trans)
qed

lemma transaction_complete_ok:
  "rs_inv st \<Longrightarrow> \<exists>st'. transaction_complete E ids txid st = Some st' \<and> same_sets st st' \<and>
    txs st' = txs st"
proof (induction ids arbitrary: st)
  case (Cons i ids)
  obtain st1 where st1: "resource_set_send_queued_changes E i txid st = Some st1" "txs st1 = txs st"
    using send_queued_changes_total [OF Cons.prems] by blast
  note same = same_sets_send_queued [OF st1(1)]
  obtain st2 where "transaction_complete E ids txid st1 = Some st2" "same_sets st1 st2"
    "txs st2 = txs st1" using Cons.IH [OF rs_inv_same [OF Cons.prems same]] by blast
  with st1 same show ?case by (auto intro: same_sets_trans)
qed simp

lemma end_ok:
  assumes "good st" and "in_tx st"
  shows "\<exists>st'. transaction_end E ao st = Some st' \<and> keeps st st' \<and> between st' \<and>
    tx_count (txs st') = tx_count (txs st)"
proof -
  obtain tab where o: "open_tx (trans_id st) () tab (txs st)"
    using assms(2) by (auto simp: in_tx_def)
  from open_tx_unref [OF o] obtain t where
    u: "transaction_unref (trans_id st) (txs st) = Some (True, t, [((), tab, trans_id st)])"
    "idle_tx t" "tx_count t = trans_id st" by blast
  have i: "trans_id st \<noteq> NO_TRANSACTION" "tx_count (txs st) = trans_id st"
    using o by (simp_all add: open_tx_def NO_TRANSACTION_def)
  have same: "same_sets st (st\<lparr>txs := t\<rparr>)" by simp
  have "rs_inv st" using assms(1) by (simp add: good_def)
  then obtain st1 where c: "transaction_complete E tab (trans_id st) (st\<lparr>txs := t\<rparr>) = Some st1"
    "same_sets (st\<lparr>txs := t\<rparr>) st1" "txs st1 = t"
    using transaction_complete_ok [OF rs_inv_same [OF _ same]] by fastforce
  let ?st2 = "st1\<lparr>trans_id := NO_TRANSACTION\<rparr>"
  define st3 where "st3 = (case ao of None \<Rightarrow> ?st2 | Some a \<Rightarrow> upd_rset a (reqno_update (\<lambda>_. 0)) ?st2)"
  have "keeps st st1" using same_sets_keeps [OF same_sets_trans [OF same c(2)]] by simp
  moreover have "keeps st1 ?st2" using keeps_txs [where st = st1 and t = "txs st1" and i = NO_TRANSACTION] by simp
  moreover have "keeps_tx ?st2 (upd_rset a (reqno_update (\<lambda>_. 0)) ?st2)" for a
    by (rule keeps_upd_rset) simp
  ultimately have "keeps st st3" by (auto simp: st3_def keeps_tx_def split: option.split intro: keeps_trans)
  moreover have "between st3 \<and> txs st3 = t"
    using u(2) c(3) by (auto simp: st3_def between_def upd_rset_def split: option.split)
  moreover have "transaction_end E ao st = Some st3"
    using i(1) u(1) c(1) by (simp add: transaction_end_def st3_def Let_def)
  ultimately show ?thesis using u(3) i(2) by auto
qed

subsection \<open>Callbacks keep a request going\<close>

definition usable :: "'s mstate \<Rightarrow> bool" where
  "usable st \<longleftrightarrow> in_tx st \<or> between st"

definition room :: "nat \<Rightarrow> 's mstate \<Rightarrow> bool" where
  "room n st \<longleftrightarrow> unat (tx_count (txs st)) + n < 2 ^ 32 - 2"

definition stays :: "nat \<Rightarrow> 's mstate \<Rightarrow> 's mstate \<Rightarrow> bool" where
  "stays n st st' \<longleftrightarrow> keeps st st' \<and> (in_tx st \<longrightarrow> in_tx st' \<and> trans_id st' = trans_id st) \<and>
     (between st \<longrightarrow> between st') \<and> unat (tx_count (txs st')) \<le> unat (tx_count (txs st)) + n"

lemma stays_refl [simp]: "stays n st st"
  by (simp add: stays_def)

lemma stays_trans: "stays m st1 st2 \<Longrightarrow> stays n st2 st3 \<Longrightarrow> stays (m + n) st1 st3"
  by (auto simp: stays_def intro: keeps_trans)

lemma stays_mono: "stays m st st' \<Longrightarrow> m \<le> n \<Longrightarrow> stays n st st'"
  by (auto simp: stays_def)

lemma stays_usable: "usable st \<Longrightarrow> stays n st st' \<Longrightarrow> usable st'"
  by (auto simp: usable_def stays_def)

lemma stays_room: "room (n + m) st \<Longrightarrow> stays n st st' \<Longrightarrow> room m st'"
  by (auto simp: room_def stays_def)

lemma keeps_tx_stays: "keeps_tx st st' \<Longrightarrow> stays n st st'"
  by (auto simp: keeps_tx_def stays_def between_def)

lemma room_Suc: "room (Suc n) st \<Longrightarrow> tx_count (txs st) < -2 \<and> unat (tx_count (txs st) + 1) = unat (tx_count (txs st)) + 1"
  unfolding room_def by (auto simp: word_less_nat_alt unat_word_ariths)

lemma announce_ok:
  assumes "good st" and "usable st" and "room 1 st" and "rsets st a = Some rs"
  shows "\<exists>st'. (if trans_id st \<noteq> NO_TRANSACTION
      then resource_set_queue_change E (Some a) (trans_id st) rq what st
      else (let st2 = transaction_start (Some a) None st
            in do {
              st3 \<leftarrow> resource_set_queue_change E (Some a) (trans_id st2) rq what st2;
              transaction_end E (Some a) st3
            })) = Some st' \<and> stays 1 st st'"
proof (cases "trans_id st = NO_TRANSACTION")
  case False
  with queue_change_keeps [OF assms(4), of E rq what] show ?thesis
    by (auto intro: keeps_tx_stays)
next
  case True
  with assms(2) have b: "between st"
    by (auto simp: usable_def in_tx_def open_tx_def NO_TRANSACTION_def)
  have c: "tx_count (txs st) < -2" "unat (tx_count (txs st) + 1) = unat (tx_count (txs st)) + 1"
    using room_Suc [of 0 st] assms(3) by simp_all
  let ?st2 = "transaction_start (Some a) None st"
  note st2 = start_ok [OF b c(1), of "Some a" None]
  obtain rs2 where "rsets ?st2 a = Some rs2" using keeps_rset assms(4) st2 by blast
  from queue_change_keeps [OF this, of E rq what] obtain st3 where
    st3: "resource_set_queue_change E (Some a) (trans_id ?st2) rq what ?st2 = Some st3"
    "keeps_tx ?st2 st3" by blast
  have k3: "keeps st st3" using st2 st3(2) by (auto simp: keeps_tx_def intro: keeps_trans)
  have "in_tx st3" using st2 st3(2) by (auto simp: keeps_tx_def)
  from end_ok [OF good_keeps [OF assms(1) k3] this] obtain st4 where
    st4: "transaction_end E (Some a) st3 = Some st4" "keeps st3 st4" "between st4"
    "tx_count (txs st4) = tx_count (txs st3)" by blast
  have "tx_count (txs st4) = tx_count (txs st) + 1"
    using st4(4) st3(2) st2 by (simp add: keeps_tx_def)
  moreover have "\<not> in_tx st" using True by (auto simp: in_tx_def open_tx_def NO_TRANSACTION_def)
  ultimately have "stays 1 st st4" using c(2) k3 st4 by (auto simp: stays_def intro: keeps_trans)
  with True st3(1) st4(1) show ?thesis by (simp add: Let_def)
qed

lemma find_set:
  assumes "good st" and "resource_set_find E ent st = Some a"
  obtains rs r x where "rsets st a = Some rs" and "rs_resset rs = Some r" and "ressets st r = Some x"
proof -
  have inv: "rs_inv st" using assms(1) by (simp add: good_def)
  from assms(2) obtain m where "find_in_hash_table m st = Some a"
    by (auto simp: resource_set_find_def Let_def split: if_splits)
  then obtain rs where "rsets st a = Some rs" by (auto simp: find_in_hash_table_iff [OF inv])
  with links_resset [OF inv this] that show thesis by blast
qed

lemma good_upd:
  assumes "good st" and "\<And>rs. manager_id (f rs) = manager_id rs \<and> rs_resset (f rs) = rs_resset rs \<and>
    (request rs \<noteq> None \<longrightarrow> request (f rs) \<noteq> None)"
  shows "good (upd_rset a f st)" and "stays n st (upd_rset a f st)"
  using keeps_upd_rset [OF assms(2), of st a] good_keeps [OF assms(1)]
  by (auto simp: keeps_tx_def intro: keeps_tx_stays)

lemma announce_after:
  assumes "good st" and "usable st" and "room 1 st" and "rsets st a = Some rs"
    and "\<And>y. manager_id (f y) = manager_id y \<and> rs_resset (f y) = rs_resset y \<and>
      (request y \<noteq> None \<longrightarrow> request (f y) \<noteq> None)"
  shows "\<exists>st'. (let st1 = upd_rset a f st
      in if trans_id st1 \<noteq> NO_TRANSACTION
         then resource_set_queue_change E (Some a) (trans_id st1) rq what st1
         else (let st2 = transaction_start (Some a) None st1
               in do {
                 st3 \<leftarrow> resource_set_queue_change E (Some a) (trans_id st2) rq what st2;
                 transaction_end E (Some a) st3
               })) = Some st' \<and> stays 1 st st'"
proof -
  let ?st1 = "upd_rset a f st"
  have s: "stays 0 st ?st1" and g: "good ?st1"
    using good_upd [OF assms(1,5)] by blast+
  have "rsets ?st1 a = Some (f rs)" using assms(4) by (simp add: upd_rset_def)
  from announce_ok [OF g stays_usable [OF assms(2) s] _ this, of E rq what] obtain st' where
    "(if trans_id ?st1 \<noteq> NO_TRANSACTION
      then resource_set_queue_change E (Some a) (trans_id ?st1) rq what ?st1
      else (let st2 = transaction_start (Some a) None ?st1
            in do {
              st3 \<leftarrow> resource_set_queue_change E (Some a) (trans_id st2) rq what st2;
              transaction_end E (Some a) st3
            })) = Some st'" "stays 1 ?st1 st'"
    using stays_room [of 0 1 st ?st1] s assms(3) by auto
  with stays_trans [OF s this(2)] show ?thesis by (simp add: Let_def)
qed

lemma granted_ok:
  assumes "good st" and "usable st" and "room 1 st"
  shows "\<exists>st'. granted_cb E ent fld st = Some st' \<and> stays 1 st st'"
proof (cases "snd fld")
  case (VInteger i)
  show ?thesis
  proof (cases "resource_set_find E ent st")
    case None
    with VInteger show ?thesis by (simp add: granted_cb_def)
  next
    case (Some a)
    obtain rs r x where rs: "rsets st a = Some rs" "rs_resset rs = Some r" "ressets st r = Some x"
      by (rule find_set [OF assms(1) Some])
    let ?f = "\<lambda>y. y\<lparr>granted := (granted y)\<lparr>o_factstore := word_of_int i\<rparr>\<rparr>"
    have "stays 1 st (upd_rset a ?f st)" by (rule good_upd [OF assms(1)]) simp
    with announce_after [OF assms rs(1), of ?f E "reqno rs" resource_set_granted]
    show ?thesis using VInteger Some rs
      by (auto simp: granted_cb_def Let_def)
  qed
qed (simp_all add: granted_cb_def)

lemma advice_ok:
  assumes "good st" and "usable st" and "room 1 st"
  shows "\<exists>st'. advice_cb E ent fld st = Some st' \<and> stays 1 st st'"
proof (cases "snd fld")
  case (VInteger i)
  show ?thesis
  proof (cases "resource_set_find E ent st")
    case None
    with VInteger show ?thesis by (simp add: advice_cb_def)
  next
    case (Some a)
    obtain rs r x where rs: "rsets st a = Some rs" "rs_resset rs = Some r" "ressets st r = Some x"
      by (rule find_set [OF assms(1) Some])
    let ?f = "\<lambda>y. y\<lparr>advice := (advice y)\<lparr>o_factstore := word_of_int i\<rparr>\<rparr>"
    from announce_after [OF assms rs(1), of ?f E 0 resource_set_advice]
    show ?thesis using VInteger Some rs by (simp add: advice_cb_def Let_def)
  qed
qed (simp_all add: advice_cb_def)

lemma request_ok:
  assumes "good st"
  shows "\<exists>st'. request_cb E ent fld st = Some st' \<and> stays 1 st st'"
proof (cases "\<exists>req. snd fld = VString (Some req)")
  case True
  then obtain req where req: "snd fld = VString (Some req)" by blast
  show ?thesis
  proof (cases "resource_set_find E ent st")
    case None
    with req show ?thesis by (simp add: request_cb_def)
  next
    case (Some a)
    obtain rs r x where rs: "rsets st a = Some rs" "rs_resset rs = Some r" "ressets st r = Some x"
      by (rule find_set [OF assms Some])
    obtain old where "request rs = Some old"
      using assms rs(1) by (auto simp: good_def requests_ok_def)
    moreover have "stays 1 st (upd_rset a (request_update (\<lambda>_. Some req)) st)"
      by (rule good_upd [OF assms]) simp
    ultimately show ?thesis using req Some rs by (simp add: request_cb_def)
  qed
next
  case False
  then show ?thesis by (simp add: request_cb_def split: fvalue.split option.split)
qed

lemma block_ok:
  assumes "good st"
  shows "\<exists>st'. block_cb E ent fld st = Some st' \<and> stays 1 st st'"
proof (cases "snd fld")
  case (VInteger i)
  show ?thesis
  proof (cases "resource_set_find E ent st")
    case None
    with VInteger show ?thesis by (simp add: block_cb_def Let_def)
  next
    case (Some a)
    obtain rs r x where rs: "rsets st a = Some rs" "rs_resset rs = Some r" "ressets st r = Some x"
      by (rule find_set [OF assms Some])
    let ?blk = "sint (word_of_int i :: u32)"
    have inv: "rs_inv st" using assms by (simp add: good_def)
    obtain st1 where st1: "resource_set_send_release_request E (Some a) st = Some st1"
      "txs st1 = txs st" using send_release_total [OF inv rs(1)] by blast
    obtain ok st2 where st2: "resource_set_add_idle_task E a Forced_auto_release st = Some (ok, st2)"
      "txs st2 = txs st" using add_idle_total [OF rs(1)] by blast
    have k: "keeps_tx st st1" "keeps_tx st st2"
      using same_keeps_tx [OF same_sets_send_release [OF st1(1)] st1(2)]
        same_keeps_tx [OF same_sets_add_idle [OF st2(1)] st2(2)] by simp_all
    have u: "keeps_tx s (upd_rset a (block_update (\<lambda>_. b)) s)" for b and s :: "'a mstate"
      by (rule keeps_upd_rset) simp
    show ?thesis using VInteger Some rs st1(1) st2(1)
      keeps_tx_stays [OF keeps_tx_trans [OF k(1) u]] keeps_tx_stays [OF keeps_tx_trans [OF k(2) u]]
      keeps_tx_stays [OF u]
      by (simp add: block_cb_def Let_def)
  qed
qed (simp_all add: block_cb_def)

lemma callback_ok:
  assumes "good st" and "usable st" and "room 1 st"
  shows "\<exists>st'. run_callback E cb ent fld st = Some st' \<and> stays 1 st st'"
  using granted_ok [OF assms] advice_ok [OF assms] request_ok [OF assms(1)] block_ok [OF assms(1)]
  by (cases cb) (simp_all add: run_callback_def)

lemma updated_no_selectors:
  assumes "\<forall>e \<in> set es. w_selist e = None"
  shows "\<exists>call. updated_loop L s f n gv es = Some call \<and>
    (\<forall>cb f' nm fld. call = Some (cb, f', nm, fld) \<longrightarrow> f' = f \<and> fst fld = n)"
  using assms
proof (induction es)
  case (Cons e es)
  then show ?case by (auto simp: matching_entry_def split: option.split)
qed simp

definition watch_of :: "int \<Rightarrow> string \<Rightarrow> manager_cb \<Rightarrow> manager_cb watch_entry" where
  "watch_of i fld cb = \<lparr>w_id = i, w_selist = None, w_fldname = Some fld, w_callback = cb\<rparr>"

lemma manager_watches_eq:
  "manager_watches = \<lparr>watch_id = 5, wfact_inserts = [], wfact_removes = [],
     wfact_updates = [\<lparr>wf_name = FACTSTORE_RESOURCE_SET,
       wf_entries = [watch_of 4 ''block'' Block_cb, watch_of 3 ''request'' Request_cb,
         watch_of 2 ''advice'' Advice_cb, watch_of 1 ''granted'' Granted_cb]\<rparr>]\<rparr>"
  by code_simp

lemma manager_watch_entries:
  "find_watch name watch_update manager_watches = Some wft \<Longrightarrow>
    \<forall>e \<in> set (wf_entries wft). w_selist e = None"
  by (auto simp: manager_watches_eq watch_of_def find_watch_def watch_facts_def
      split: option.splits if_splits)

lemma updated_manager_watches:
  "\<exists>call. updated_cb L s manager_watches (Some f) n (Some gv) = Some call \<and>
    (\<forall>cb f' nm fld. call = Some (cb, f', nm, fld) \<longrightarrow> f' = f \<and> fst fld = n)"
proof (cases "find_watch (Some (fact_name L s f)) watch_update manager_watches")
  case None
  then show ?thesis by (simp add: updated_cb_def)
next
  case (Some wft)
  with updated_no_selectors [OF manager_watch_entries [OF Some]] show ?thesis
    by (simp add: updated_cb_def)
qed

lemma fact_changed_ok:
  assumes "good st" and "usable st" and "room 1 st"
  shows "\<exists>st'. fact_changed E ch st = Some st' \<and> stays 1 st st'"
proof -
  obtain f n gv where ch: "ch = (f, n, gv)" by (cases ch)
  let ?s = "fact_set (lib E) f n gv (fs st)"
  let ?st1 = "st\<lparr>fs := ?s\<rparr>"
  have s: "stays 0 st ?st1" by (rule keeps_tx_stays [OF same_keeps_tx]) simp_all
  have g: "good ?st1" using assms(1) s good_keeps by (auto simp: stays_def)
  obtain call where call: "updated_cb (lib E) ?s manager_watches (Some f) n (Some gv) = Some call"
    using updated_manager_watches [of "lib E" ?s f n gv] by (elim exE conjE)
  have w: "watching st = manager_watches" using assms(1) by (simp add: good_def)
  have r: "room 1 ?st1" using assms(3) by (simp add: room_def)
  show ?thesis
  proof (cases call)
    case None
    with call w stays_mono [OF s, of 1] show ?thesis by (simp add: fact_changed_def ch)
  next
    case (Some c)
    obtain cb f' nm fld where c: "c = (cb, f', nm, fld)" by (cases c)
    from callback_ok [OF g stays_usable [OF assms(2) s] r, of E cb "Some f'" fld] obtain st2 where
      "run_callback E cb (Some f') fld ?st1 = Some st2" "stays 1 ?st1 st2" by blast
    with call w c Some stays_trans [OF s this(2)] show ?thesis by (simp add: fact_changed_def ch)
  qed
qed

lemma facts_changed_ok:
  assumes "good st" and "usable st" and "room (length chs) st"
  shows "\<exists>st'. facts_changed E chs st = Some st' \<and> stays (length chs) st st'"
  using assms
proof (induction chs arbitrary: st)
  case (Cons ch chs)
  have r1: "room 1 st" using Cons.prems(3) by (simp add: room_def)
  from fact_changed_ok [OF Cons.prems(1,2) r1, of E ch] obtain st1 where
    st1: "fact_changed E ch st = Some st1" "stays 1 st st1" by blast
  have "good st1" using st1(2) Cons.prems(1) good_keeps by (auto simp: stays_def)
  moreover have "room (length chs) st1"
    using stays_room [of 1 "length chs" st st1] st1(2) Cons.prems(3) by simp
  ultimately obtain st2 where "facts_changed E chs st1 = Some st2" "stays (length chs) st1 st2"
    using Cons.IH stays_usable [OF Cons.prems(2) st1(2)] by blast
  with st1 stays_trans [OF st1(2)] show ?case by fastforce
qed simp

lemma dresif_ok:
  assumes "good st" and "usable st" and "room n st"
    and "length (snd (resolve E (rlog st) mid req)) \<le> n"
  shows "\<exists>ok st'. dresif_resource_request E mid req st = Some (ok, st') \<and> stays n st st'"
proof -
  obtain status chs where r: "resolve E (rlog st) mid req = (status, chs)" by fastforce
  let ?st1 = "log_action (Resolve mid req) st"
  have s: "stays 0 st ?st1"
    by (rule keeps_tx_stays [OF same_keeps_tx]) (simp_all add: same_sets_def log_action_def replies_def requests_ok_def)
  have g: "good ?st1" using assms(1) s good_keeps by (auto simp: stays_def)
  have "room (length chs) ?st1" using assms(3,4) r by (simp add: room_def)
  from facts_changed_ok [OF g stays_usable [OF assms(2) s] this, of E] obtain st2 where
    "facts_changed E chs ?st1 = Some st2" "stays (length chs) ?st1 st2" by blast
  with stays_mono [OF stays_trans [OF s this(2)], of n] assms(4) r show ?thesis
    by (simp add: dresif_resource_request_def ex_bool_eq)
qed

subsection \<open>Handlers answer once\<close>

definition resolver_bound :: "('s, 'f) menv \<Rightarrow> nat \<Rightarrow> bool" where
  "resolver_bound E K \<longleftrightarrow> (\<forall>lg mid req. length (snd (resolve E lg mid req)) \<le> K)"

definition answered :: "addr \<Rightarrow> int \<Rightarrow> 's mstate \<Rightarrow> 's mstate \<Rightarrow> bool" where
  "answered r e st st' \<longleftrightarrow> good st' \<and> between st' \<and>
     replies (rlog st') = replies (rlog st) @ [Reply r e]"

lemma reply_simps [simp]:
  "good (reply_message r e st) = good st" "in_tx (reply_message r e st) = in_tx st"
  "between (reply_message r e st) = between st" "trans_id (reply_message r e st) = trans_id st"
  "ressets (reply_message r e st) = ressets st" "rsets (reply_message r e st) = rsets st"
  "replies (rlog (reply_message r e st)) = replies (rlog st) @ [Reply r e]"
  by (simp_all add: reply_message_def log_action_def good_def in_tx_def between_def replies_def
      rs_inv_def hash_ok_def ids_ok_def links_ok_def requests_ok_def)

lemma update_fact_ok:
  assumes "good st" and "ressets st r = Some x"
  shows "\<exists>st'. update_fact E r what st = Some st' \<and> keeps_tx st st'"
proof -
  have "rs_inv st" using assms(1) by (simp add: good_def)
  from resource_set_update_total [OF this assms(2), of E what] obtain ok st' where
    u: "resource_set_update_factstore E (Some r) what st = Some (ok, st')" "txs st' = txs st" by blast
  then show ?thesis using same_keeps_tx [OF same_sets_resource_set_update [OF u(1)] u(2)]
    by (simp add: update_fact_def)
qed

lemma finish_ok:
  assumes "good st" and "usable st" and "ressets st r = Some x" and "rsets st a = Some rs"
  shows "\<exists>st'. finish_request E r (Some a) st = Some st' \<and> keeps st st' \<and> between st'"
proof (cases "trans_id st = NO_TRANSACTION")
  case True
  with assms(2) have "between st"
    by (auto simp: usable_def in_tx_def open_tx_def NO_TRANSACTION_def)
  with True assms(3) show ?thesis by (simp add: finish_request_def transaction_end_def)
next
  case False
  with assms(2) have t: "in_tx st" by (auto simp: usable_def between_def)
  from queue_change_keeps [OF assms(4), of E "reqno rs" resource_set_granted] obtain st1 where
    q: "resource_set_queue_change E (Some a) (trans_id st) (reqno rs) resource_set_granted st = Some st1"
    "keeps_tx st st1" by blast
  have k1: "keeps st st1" "in_tx st1" using q(2) t by (simp_all add: keeps_tx_def)
  from end_ok [OF good_keeps [OF assms(1) k1(1)] k1(2), of E "Some a"] end_ok [OF assms(1) t, of E "Some a"]
  obtain st2 st3 where "transaction_end E (Some a) st1 = Some st2" "keeps st1 st2" "between st2"
    "transaction_end E (Some a) st = Some st3" "keeps st st3" "between st3" by blast
  with q(1) k1(1) assms(3,4) keeps_trans [OF k1(1)] show ?thesis by (simp add: finish_request_def)
qed

lemma reply_finish:
  assumes "good st" and "keeps st st1" and "usable st1" and "ressets st r = Some x"
    and "userdata x = Some a"
  shows "\<exists>st'. finish_request E r (Some a) (reply_message r e st1) = Some st' \<and> answered r e st st'"
proof -
  let ?st2 = "reply_message r e st1"
  have g: "good ?st2" using good_keeps [OF assms(1,2)] by simp
  obtain x1 where x1: "ressets ?st2 r = Some x1" "userdata x1 = Some a"
    using keeps_resset [OF assms(2,4)] assms(5) by auto
  moreover have "rs_inv ?st2" using g by (simp add: good_def)
  ultimately obtain rs where "rsets ?st2 a = Some rs" by (metis links_userdata)
  moreover have "usable ?st2" using assms(3) by (simp add: usable_def)
  ultimately obtain st' where f: "finish_request E r (Some a) ?st2 = Some st'" "keeps ?st2 st'"
    "between st'" using finish_ok [OF g _ x1(1)] by blast
  have "replies (rlog st') = replies (rlog st) @ [Reply r e]"
    using keeps_replies [OF f(2)] keeps_replies [OF assms(2)] by simp
  with f good_keeps [OF g f(2)] show ?thesis by (simp add: answered_def)
qed

lemma set_of_userdata:
  assumes "good st" and "keeps st st'" and "ressets st r = Some x" and "userdata x = Some a"
  obtains rs x' where "rsets st' a = Some rs" and "rs_resset rs = Some r" and
    "ressets st' r = Some x'" and "userdata x' = Some a"
proof -
  have inv: "rs_inv st'" using good_keeps [OF assms(1,2)] by (simp add: good_def)
  obtain x' where x': "ressets st' r = Some x'" "userdata x' = Some a"
    using keeps_resset [OF assms(2,3)] assms(4) by auto
  from links_userdata [OF inv x'] that x' show thesis by blast
qed

text \<open>A request is written to the fact store and passed to the resolver.\<close>

lemma ask_ok:
  assumes "good st" and "in_tx st" and "ressets st r = Some x" and "room K st"
    and "resolver_bound E K"
  shows "\<exists>st'. do { st3 \<leftarrow> update_fact E r what st;
      map_option snd (dresif_resource_request E mid req st3) } = Some st' \<and> keeps st st' \<and> in_tx st'"
proof -
  obtain st3 where st3: "update_fact E r what st = Some st3" "keeps_tx st st3"
    using update_fact_ok [OF assms(1,3)] by blast
  have k: "keeps st st3" "in_tx st3" "room K st3"
    using st3(2) assms(2,4) by (auto simp: keeps_tx_def room_def)
  have "usable st3" using k(2) by (simp add: usable_def)
  with dresif_ok [OF good_keeps [OF assms(1) k(1)] _ k(3), of E mid req] obtain ok st4 where
    "dresif_resource_request E mid req st3 = Some (ok, st4)" "stays K st3 st4"
    using assms(5) by (auto simp: resolver_bound_def)
  with st3(1) k show ?thesis by (auto simp: stays_def intro: keeps_trans)
qed

lemma ask_if:
  assumes "good st0" and "keeps st0 st" and "in_tx st" and "room K st"
    and "resolver_bound E K" and "ressets st0 r = Some x"
  shows "\<exists>st'. (if c then do { st3 \<leftarrow> update_fact E r what st;
      map_option snd (dresif_resource_request E mid req st3) } else Some st) = Some st' \<and>
    keeps st0 st' \<and> in_tx st'"
proof (cases c)
  case True
  obtain x1 where "ressets st r = Some x1" using keeps_resset [OF assms(2,6)] by blast
  from ask_ok [OF good_keeps [OF assms(1,2)] assms(3) this assms(4,5), of what mid req]
  obtain st' where "do { st3 \<leftarrow> update_fact E r what st;
      map_option snd (dresif_resource_request E mid req st3) } = Some st'" "keeps st st'" "in_tx st'"
    by blast
  with True keeps_trans [OF assms(2)] show ?thesis by simp
next
  case False
  with assms(2,3) show ?thesis by simp
qed

lemma fact_if:
  assumes "good st0" and "keeps st0 st" and "in_tx st" and "room K st"
    and "keeps st0 st1" and "in_tx st1" and "room K st1" and "ressets st0 r = Some x"
  shows "\<exists>st'. (if c then update_fact E r what st1 else Some st) = Some st' \<and>
    keeps st0 st' \<and> in_tx st' \<and> room K st'"
proof (cases c)
  case True
  obtain x1 where "ressets st1 r = Some x1" using keeps_resset [OF assms(5,8)] by blast
  from update_fact_ok [OF good_keeps [OF assms(1,5)] this, of E what] obtain st' where
    "update_fact E r what st1 = Some st'" "keeps_tx st1 st'" by blast
  with True assms(6,7) keeps_trans [OF assms(5)] show ?thesis by (simp add: keeps_tx_def room_def)
next
  case False
  with assms(2-4) show ?thesis by simp
qed

lemma begin_request:
  assumes "good st" and "between st" and "room (Suc K) st" and "ressets st r = Some x"
    and "userdata x = Some a"
  obtains rs x1 where "rsets (transaction_start (Some a) m st) a = Some rs"
    and "ressets (transaction_start (Some a) m st) r = Some x1"
    and "keeps st (transaction_start (Some a) m st)" and "in_tx (transaction_start (Some a) m st)"
    and "room K (transaction_start (Some a) m st)"
proof -
  let ?st1 = "transaction_start (Some a) m st"
  have c: "tx_count (txs st) < -2" "unat (tx_count (txs st) + 1) = unat (tx_count (txs st)) + 1"
    using room_Suc [of K st] assms(3) by simp_all
  note s = start_ok [OF assms(2) c(1), of "Some a" m]
  have "room K ?st1" using s c(2) assms(3) by (simp add: room_def)
  with s that show thesis
    using set_of_userdata [OF assms(1) _ assms(4,5), of ?st1] by metis
qed

lemma upd_step:
  assumes "keeps st st1" and "in_tx st1" and "room K st1"
    and "\<And>rs. manager_id (f rs) = manager_id rs \<and> rs_resset (f rs) = rs_resset rs \<and>
      (request rs \<noteq> None \<longrightarrow> request (f rs) \<noteq> None)"
  shows "keeps st (upd_rset a f st1) \<and> in_tx (upd_rset a f st1) \<and> room K (upd_rset a f st1)"
  using keeps_upd_rset [OF assms(4), of st1 a] assms(1-3)
  by (auto simp: keeps_tx_def room_def intro: keeps_trans)

lemma answered_now: "good st \<Longrightarrow> between st \<Longrightarrow> answered r e st (reply_message r e st)"
  by (simp add: answered_def)

lemma between_id: "between st \<Longrightarrow> trans_id st = NO_TRANSACTION"
  by (simp add: between_def)

lemma acquire_answered:
  assumes "good st" and "between st" and "room (Suc K) st" and "resolver_bound E K"
    and "ressets st r = Some x"
  shows "\<exists>st'. manager_acquire E msg r st = Some st' \<and>
    answered r (if userdata x = None then EUCLEAN else 0) st st'"
proof (cases "userdata x")
  case None
  with assms answered_now [OF assms(1,2)] between_id [OF assms(2)] show ?thesis
    by (simp add: manager_acquire_def transaction_end_def)
next
  case (Some a)
  let ?st1 = "transaction_start (Some a) (Some msg) st"
  obtain rs x1 where b: "rsets ?st1 a = Some rs" "keeps st ?st1" "in_tx ?st1" "room K ?st1"
    by (rule begin_request [OF assms(1-3,5) Some])
  obtain acq st2 where st2: "(if request rs \<noteq> Some ''acquire''
      then (True, upd_rset a (request_update (\<lambda>_. Some ''acquire'')) ?st1)
      else (o_client (advice rs) AND NOT (o_client (granted rs)) \<noteq> 0, ?st1)) = (acq, st2)" by fastforce
  have k2: "keeps st st2" "in_tx st2" "room K st2"
    using st2 b upd_step [OF b(2-4), of "request_update (\<lambda>_. Some ''acquire'')" a]
    by (auto split: if_splits)
  obtain st4 where st4: "(if acq then do { st3 \<leftarrow> update_fact E r update_request st2;
      map_option snd (dresif_resource_request E (manager_id rs) ''acquire'' st3) }
      else Some st2) = Some st4" "keeps st st4" "in_tx st4"
    using ask_if [OF assms(1) k2 assms(4,5)] by blast
  have "usable st4" using st4(3) by (simp add: usable_def)
  from reply_finish [OF assms(1) st4(2) this assms(5) Some, of E 0] obtain st5 where
    "finish_request E r (Some a) (reply_message r 0 st4) = Some st5" "answered r 0 st st5" by blast
  with assms(5) Some b(1) st2 st4(1) show ?thesis
    by (simp add: manager_acquire_def Let_def)
qed

lemma release_answered:
  assumes "good st" and "between st" and "room (Suc K) st" and "resolver_bound E K"
    and "ressets st r = Some x"
  shows "\<exists>st'. manager_release E msg r st = Some st' \<and>
    answered r (if userdata x = None then EUCLEAN else 0) st st'"
proof (cases "userdata x")
  case None
  with assms answered_now [OF assms(1,2)] between_id [OF assms(2)] show ?thesis
    by (simp add: manager_release_def transaction_end_def)
next
  case (Some a)
  let ?st1 = "transaction_start (Some a) (Some msg) st"
  obtain rs x1 where b: "rsets ?st1 a = Some rs" "keeps st ?st1" "in_tx ?st1" "room K ?st1"
    by (rule begin_request [OF assms(1-3,5) Some])
  obtain rel st2 where st2: "(if request rs \<noteq> Some ''release''
      then (True, upd_rset a (request_update (\<lambda>_. Some ''release'')) ?st1)
      else (o_client (granted rs) \<noteq> 0, ?st1)) = (rel, st2)" by fastforce
  have k2: "keeps st st2" "in_tx st2" "room K st2"
    using st2 b upd_step [OF b(2-4), of "request_update (\<lambda>_. Some ''release'')" a]
    by (auto split: if_splits)
  let ?st2' = "upd_rset a (block_update (\<lambda>_. 0)) st2"
  have k2': "keeps st ?st2'" "in_tx ?st2'" "room K ?st2'"
    using upd_step [OF k2, of "block_update (\<lambda>_. 0)" a] by simp_all
  obtain st3 where st3: "(if block rs \<noteq> 0 then update_fact E r update_block ?st2' else Some st2) = Some st3"
    "keeps st st3" "in_tx st3" "room K st3"
    using fact_if [OF assms(1) k2 k2' assms(5)] by blast
  obtain st5 where st5: "(if rel then do { st4 \<leftarrow> update_fact E r update_request st3;
      map_option snd (dresif_resource_request E (manager_id rs) ''release'' st4) }
      else Some st3) = Some st5" "keeps st st5" "in_tx st5"
    using ask_if [OF assms(1) st3(2-4) assms(4,5)] by blast
  have "usable st5" using st5(3) by (simp add: usable_def)
  from reply_finish [OF assms(1) st5(2) this assms(5) Some, of E 0] obtain st6 where
    "finish_request E r (Some a) (reply_message r 0 st5) = Some st6" "answered r 0 st st6" by blast
  with assms(5) Some b(1) st2 st3(1) st5(1) show ?thesis
    by (simp add: manager_release_def Let_def)
qed

definition update_code :: "('s, 'f) menv \<Rightarrow> resmsg \<Rightarrow> addr \<Rightarrow> 's mstate \<Rightarrow> int" where
  "update_code E msg r st =
     (case ressets st r of
        None \<Rightarrow> 0
      | Some x \<Rightarrow>
          if userdata x = None then EUCLEAN
          else if m_klass msg \<noteq> klass x then EINVAL
          else if \<not> fst (validate_request E (m_klass msg) (m_all msg) (m_opt msg) st) then EACCES
          else 0)"

lemma validate_keeps:
  assumes "validate_request E kl all opt st = (ok, opt', st1)"
  shows "keeps_tx st st1 \<and> ressets st1 = ressets st"
proof -
  from assms obtain req where "st1 = st\<lparr>resource_class_req := req\<rparr>"
    by (auto simp: validate_request_def split_beta)
  then show ?thesis
    by (simp add: keeps_tx_def keeps_def same_sets_def rstate.truncate_def in_tx_def requests_ok_def)
qed

lemma update_answered:
  assumes "good st" and "between st" and "room (Suc K) st" and "resolver_bound E K"
    and "ressets st r = Some x"
  shows "\<exists>st'. manager_update E msg r st = Some st' \<and> answered r (update_code E msg r st) st st'"
proof (cases "userdata x")
  case None
  with assms answered_now [OF assms(1,2)] between_id [OF assms(2)] show ?thesis
    by (simp add: manager_update_def finish_request_def transaction_end_def update_code_def)
next
  case (Some a)
  note finish = reply_finish [OF assms(1) _ _ assms(5) Some, of _ E]
  have u: "usable st" using assms(2) by (simp add: usable_def)
  obtain ok opt' st1 where v: "validate_request E (m_klass msg) (m_all msg) (m_opt msg) st = (ok, opt', st1)"
    by (metis prod_cases3)
  have k1: "keeps st st1" "between st1" "room (Suc K) st1" "usable st1"
    using validate_keeps [OF v] assms(2,3)
    by (auto simp: keeps_tx_def between_def room_def usable_def)
  let ?g = "\<lambda>y. y\<lparr>flags_all := m_all msg, flags_opt := opt', flags_share := m_share msg\<rparr>"
  let ?st2 = "upd_resset r ?g st1"
  have k2: "keeps st ?st2" "between ?st2" "room (Suc K) ?st2"
    using same_keeps_tx [OF same_sets_upd_resset, of ?g r st1] k1
    by (auto simp: keeps_tx_def between_def room_def intro: keeps_trans)
  obtain x2 where x2: "ressets ?st2 r = Some x2" "userdata x2 = Some a"
    using keeps_resset [OF k2(1) assms(5)] Some by auto
  let ?st3 = "transaction_start (Some a) (Some msg) ?st2"
  obtain rs3 where b: "keeps ?st2 ?st3" "in_tx ?st3" "room K ?st3"
    by (rule begin_request [OF good_keeps [OF assms(1) k2(1)] k2(2,3) x2])
  note k3 = keeps_trans [OF k2(1) b(1)] b(2,3)
  obtain st4 where st4: "update_fact E r update_flags ?st3 = Some st4" "keeps st st4" "in_tx st4"
    "room K st4" using fact_if [OF assms(1) k3 k3 assms(5), of True E update_flags] by auto
  obtain rs x4 where rs: "rsets st4 a = Some rs"
    by (rule set_of_userdata [OF assms(1) st4(2) assms(5) Some])
  obtain st5 where st5: "(if request rs = Some ''acquire'' \<and> o_client (granted rs) \<noteq> 0
      then update_fact E r update_request st4 else Some st4) = Some st5" "keeps st st5" "in_tx st5"
    "room K st5" using fact_if [OF assms(1) st4(2-4) st4(2-4) assms(5)] by blast
  have "usable st5" using st5(3) by (simp add: usable_def)
  from dresif_ok [OF good_keeps [OF assms(1) st5(2)] this st5(4), of E "manager_id rs" "''update''"]
  obtain ok6 st6 where st6: "dresif_resource_request E (manager_id rs) ''update'' st5 = Some (ok6, st6)"
    "stays K st5 st6" using assms(4) by (auto simp: resolver_bound_def)
  have k6: "keeps st st6" "usable st6"
    using st6(2) st5(2,3) by (auto simp: stays_def usable_def intro: keeps_trans)
  show ?thesis
  proof (cases "m_klass msg = klass x")
    case False
    with assms(5) Some finish [OF keeps_refl u] show ?thesis
      by (simp add: manager_update_def update_code_def)
  next
    case True
    with assms(5) Some v st4(1) rs st5(1) st6(1) finish [OF k1(1,4)] finish [OF k6]
    show ?thesis by (cases ok) (simp_all add: manager_update_def update_code_def Let_def)
  qed
qed

text \<open>C2. Every request is answered once: between two requests, a request to update, acquire or
  release returns whatever facts the resolver changes, sends exactly one reply to the client, with
  the error code of the first check that fails (a client without a resource set, another class, a
  request the rules reject) and 0 otherwise, and leaves no transaction open, so that the next
  request meets the same condition.\<close>

theorem requests_answered_once:
  assumes "good st" and "between st" and "room (Suc K) st" and "resolver_bound E K"
    and "ressets st r = Some x"
  shows "(\<exists>st'. manager_update E msg r st = Some st' \<and> answered r (update_code E msg r st) st st') \<and>
    (\<exists>st'. manager_acquire E msg r st = Some st' \<and>
       answered r (if userdata x = None then EUCLEAN else 0) st st') \<and>
    (\<exists>st'. manager_release E msg r st = Some st' \<and>
       answered r (if userdata x = None then EUCLEAN else 0) st st')"
  using update_answered [OF assms] acquire_answered [OF assms] release_answered [OF assms] by blast

definition test_menv :: "(mem_store, nat) menv" where
  "test_menv = renv.extend mem_env
     \<lparr>rules = \<lparr>find_methods = True, rule_find = (\<lambda>_ _. 1),
        rule_eval = (\<lambda>_ args. (1, Some [[(''name'', RString ''resource_class_request''),
           (''mandatory'', args ! 1), (''optional'', args ! 2)]]))\<rparr>,
      resolve = (\<lambda>_ mid req. (1, if req = ''acquire''
        then [(0, ''advice'', GInt 3), (0, ''granted'', GInt 3)] else [(0, ''granted'', GInt 0)])),
      mode_always_reply = 1, resource_auto_release = 2, getpid = 77, query_ok = (\<lambda>_. True)\<rparr>"

definition test_mstate :: "mem_store mstate" where
  "test_mstate = (manager_init \<lparr>security_configuration = Map.empty, default_policy = auth_accept\<rparr> mem_empty)
     \<lparr>ressets := [5 \<mapsto> test_resset\<lparr>userdata := Some 0\<rparr>], rsets := [0 \<mapsto> new_resource_set 100 0 5],
      hash_table := (\<lambda>_. [])(0 := [0]), next_manager_id := 1, nalloc := 1\<rparr>"

lemma good_test: "good test_mstate"
  by (auto simp: good_def rs_inv_def hash_ok_def ids_ok_def links_ok_def requests_ok_def test_mstate_def
      manager_init_def new_resource_set_def zero_resource_set_def RS_HASH_INDEX_def split: if_splits)

theorem requests_answered_once_witness:
  "(\<exists>st'. manager_acquire test_menv zeromsg 5 test_mstate = Some st' \<and>
      answered 5 0 test_mstate st') \<and>
   (\<exists>st'. manager_update test_menv zeromsg 5 test_mstate = Some st' \<and>
      answered 5 EINVAL test_mstate st')"
proof -
  have b: "between test_mstate" "room (Suc 2) test_mstate"
    using idle_tx_init
    by (simp_all add: between_def room_def test_mstate_def manager_init_def init_txstate_def NO_TRANSACTION_def)
  have "resolver_bound test_menv 2"
    by (simp add: resolver_bound_def test_menv_def renv.defs)
  moreover have "ressets test_mstate 5 = Some (test_resset\<lparr>userdata := Some 0\<rparr>)"
    by (simp add: test_mstate_def)
  ultimately show ?thesis
    using requests_answered_once [OF good_test b, of test_menv 5 _ zeromsg]
    by (simp add: update_code_def test_resset_def zeromsg_def)
qed

text \<open>
  The fact store also calls the watches when the manager itself updates the request or the block
  of a set; the value is then the one the set holds, and the callback changes nothing.
\<close>

lemma own_update_silent:
  assumes "good st" and "resource_set_find E ent st = Some a" and "rsets st a = Some rs"
    and "- (2 ^ 31) \<le> block rs" and "block rs < 2 ^ 31"
  shows "request_cb E ent (n, VString (request rs)) st = Some st"
    and "block_cb E ent (n, VInteger (block rs)) st = Some st"
proof -
  obtain r x where rs: "rs_resset rs = Some r" "ressets st r = Some x"
    by (rule find_set [OF assms(1,2)]) (use assms(3) in auto)
  obtain req where "request rs = Some req"
    using assms(1,3) by (auto simp: good_def requests_ok_def)
  with assms(2,3) rs show "request_cb E ent (n, VString (request rs)) st = Some st"
    by (simp add: request_cb_def)
  have "sint (word_of_int (block rs) :: u32) = block rs"
    using assms(4,5) by (simp add: signed_of_int signed_take_bit_int_eq_self)
  with assms(2,3) rs show "block_cb E ent (n, VInteger (block rs)) st = Some st"
    by (simp add: block_cb_def)
qed
end
