(* ===== verification/Playback_Client.thy ===== *)
theory Playback_Client
  imports Fsif "HOL-Library.Monad_Syntax"
begin

text \<open>
  The data of the playback plugin and the operations on clients and playback requests,
  \<open>src/plugins/playback/client.c\<close> and \<open>pbreq.c\<close>, with the outgoing half of \<open>dbusif.c\<close>.

  The plugin's state is one record: the fact store, the list of clients and the list of queued
  playback requests (both in list order, with the addresses of the C structs), the idle sources of
  the main loop, the pending D-Bus calls, and the log of what the plugin sent.  The environment
  holds the fact store library, the outcome of allocations and of sending, the ids of idle sources
  and the policy resolver.  A result \<open>None\<close> is a crash.
\<close>

subsection \<open>Events, states and the records of sm.h, client.h and pbreq.h\<close>

datatype sm_evid = evid_invalid | evid_hello_signal | evid_state_signal | evid_property_received
  | evid_setup_complete | evid_setup_state_denied | evid_playback_request | evid_playback_complete
  | evid_playback_failed | evid_setstate_changed | evid_playhint_changed | evid_setprop_succeeded
  | evid_setprop_failed | evid_client_gone

datatype sm_stid = stid_invalid | stid_setup | stid_idle | stid_pbreq | stid_acked_pbreq
  | stid_setstreq | stid_sethintreq | stid_waitack

text \<open>The union \<open>sm_evdata_t\<close>; every member starts with the event id.\<close>

datatype sm_evdata =
    Ev sm_evid
  | Ev_property sm_evid cstring cstring
  | Ev_watch sm_evid cstring
  | Ev_pbreply sm_evid addr

fun ev_id :: "sm_evdata \<Rightarrow> sm_evid" where
  "ev_id (Ev i) = i"
| "ev_id (Ev_property i _ _) = i"
| "ev_id (Ev_watch i _) = i"
| "ev_id (Ev_pbreply i _) = i"

record sm =
  sm_name :: string
  stid :: sm_stid
  busy :: bool
  sched :: u32

record client_evfire =
  evsrc :: u32
  ev_value :: cstring

record client =
  cl_dbusid :: cstring
  cl_object :: cstring
  cl_pid :: cstring
  cl_stream :: cstring
  cl_group :: cstring
  cl_flags :: int
  cl_reqstate :: cstring
  cl_state :: cstring
  cl_setstate :: cstring
  cl_playhint :: cstring
  cl_rqsetst :: client_evfire
  cl_rqplayhint :: client_evfire
  cl_sm :: sm

datatype client_stype = client_st_invalid | client_reqstate | client_state | client_setstate
  | client_rqsetst

datatype client_htype = client_ph_invalid | client_playhint | client_rqplayhint

datatype pbreq_type = pbreq_invalid | pbreq_state

record pbreq =
  rq_cl :: addr
  rq_msg :: nat
  rq_trid :: int
  rq_waiting :: bool
  rq_type :: pbreq_type
  rq_name :: cstring
  rq_pid :: cstring
  rq_stream :: cstring

text \<open>Idle sources: the callback and its user data.\<close>

datatype pb_task =
    Fire_scheduled addr sm_evdata
  | Fire_setstate addr
  | Fire_playhint addr

datatype pending_call =
    Get_pending string string string
  | Set_pending string string string string

datatype dres_var = DStr cstring | DInt int

datatype pb_action =
    Watch_client cstring bool
  | Get_call string string string
  | Set_call string string string "string list"
  | Reply_state nat cstring
  | Reply_ok nat
  | Reply_error nat string string
  | Reply_allowed nat "string list"
  | Stream_info u32 string string u32 string
  | Signal_privacy bool
  | Signal_bluetooth int
  | Signal_mute bool
  | Pb_resolve string "(string \<times> dres_var) list"

datatype pb_cb = Setstate_cb | Playhint_cb | Privacy_cb | Bluetooth_cb | Mute_cb

record media =
  media_type :: string
  media_group :: string

record ep =
  ep_id :: string
  ep_name :: string
  ep_media :: "media list option"

record 's pstate =
  pb_fs :: 's
  pb_clients :: "(addr \<times> client) list"
  pb_reqs :: "(addr \<times> pbreq) list"
  pb_trid :: int
  pb_txid :: u32
  pb_idle :: "(u32 \<times> pb_task) list"
  pb_pending :: "pending_call list"
  enforcement_points :: "ep list"
  pb_nalloc :: nat
  pb_log :: "pb_action list"

type_synonym 'f pb_change = "'f \<times> string \<times> gvalue"

record ('s, 'f) penv =
  pb_lib :: "('s, 'f) ohmlib"
  pb_malloc :: "nat \<Rightarrow> bool"
  pb_idle_add :: "(u32 \<times> pb_task) list \<Rightarrow> u32"
  pb_send_ok :: "pb_action list \<Rightarrow> bool"
  pb_resolve :: "pb_action list \<Rightarrow> string \<Rightarrow> (string \<times> dres_var) list \<Rightarrow> int \<times> 'f pb_change list"

subsection \<open>Elementary state updates\<close>

definition get_client :: "'s pstate \<Rightarrow> addr \<Rightarrow> client option" where
  "get_client st a = map_of (pb_clients st) a"

definition upd_client :: "addr \<Rightarrow> (client \<Rightarrow> client) \<Rightarrow> 's pstate \<Rightarrow> 's pstate" where
  "upd_client a f st =
     st\<lparr>pb_clients := map (\<lambda>(k, c). (k, if k = a then f c else c)) (pb_clients st)\<rparr>"

definition upd_sm :: "addr \<Rightarrow> (sm \<Rightarrow> sm) \<Rightarrow> 's pstate \<Rightarrow> 's pstate" where
  "upd_sm a f st = upd_client a (cl_sm_update f) st"

definition upd_req :: "addr \<Rightarrow> (pbreq \<Rightarrow> pbreq) \<Rightarrow> 's pstate \<Rightarrow> 's pstate" where
  "upd_req q f st = st\<lparr>pb_reqs := map (\<lambda>(k, r). (k, if k = q then f r else r)) (pb_reqs st)\<rparr>"

definition pb_note :: "pb_action \<Rightarrow> 's pstate \<Rightarrow> 's pstate" where
  "pb_note x st = st\<lparr>pb_log := pb_log st @ [x]\<rparr>"

definition pb_alloc :: "('s, 'f) penv \<Rightarrow> 's pstate \<Rightarrow> addr option \<times> 's pstate" where
  "pb_alloc E st = (if pb_malloc E (pb_nalloc st) then Some (pb_nalloc st) else None,
                    st\<lparr>pb_nalloc := pb_nalloc st + 1\<rparr>)"

text \<open>\<open>g_idle_add\<close>: the id of the new source, 0 when it fails.\<close>

definition g_idle_add :: "('s, 'f) penv \<Rightarrow> pb_task \<Rightarrow> 's pstate \<Rightarrow> u32 \<times> 's pstate" where
  "g_idle_add E t st =
     (let i = pb_idle_add E (pb_idle st)
      in (i, if i = 0 then st else st\<lparr>pb_idle := pb_idle st @ [(i, t)]\<rparr>))"

definition g_source_remove :: "u32 \<Rightarrow> 's pstate \<Rightarrow> 's pstate" where
  "g_source_remove i st = st\<lparr>pb_idle := filter (\<lambda>p. fst p \<noteq> i) (pb_idle st)\<rparr>"

subsection \<open>String helpers\<close>

definition tolower :: "char \<Rightarrow> char" where
  "tolower c =
     (let n = (of_char c :: nat) in if 65 \<le> n \<and> n \<le> 90 then char_of (n + 32) else c)"

definition toupper :: "char \<Rightarrow> char" where
  "toupper c =
     (let n = (of_char c :: nat) in if 97 \<le> n \<and> n \<le> 122 then char_of (n - 32) else c)"

text \<open>\<open>strncpylower(to, from, len)\<close>: what is in the buffer afterwards.\<close>

definition strncpylower :: "string \<Rightarrow> nat \<Rightarrow> string" where
  "strncpylower from len = take (len - 1) (map tolower from)"

text \<open>\<open>strncpy\<close> into a buffer of the given size whose last byte is then set to 0.\<close>

definition buf_copy :: "string \<Rightarrow> nat \<Rightarrow> string" where
  "buf_copy from len = take (len - 1) from"

subsection \<open>Facts of a client\<close>

definition FACTSTORE_PLAYBACK :: string where
  "FACTSTORE_PLAYBACK = ''com.nokia.policy.playback''"

definition FACTSTORE_PRIVACY :: string where
  "FACTSTORE_PRIVACY = ''com.nokia.policy.privacy_override''"

definition FACTSTORE_BLUETOOTH :: string where
  "FACTSTORE_BLUETOOTH = ''com.nokia.policy.bluetooth_override''"

definition FACTSTORE_MUTE :: string where
  "FACTSTORE_MUTE = ''com.nokia.policy.audio_mute''"

definition FACTSTORE_GENERAL_MUTE :: string where
  "FACTSTORE_GENERAL_MUTE = ''com.nokia.policy.mute''"

definition FACTSTORE_ACTIVE_POLICY_GROUP :: string where
  "FACTSTORE_ACTIVE_POLICY_GROUP = ''com.nokia.policy.active_media_group''"

definition FACTSTORE_ENFORCEMENT_POINT :: string where
  "FACTSTORE_ENFORCEMENT_POINT = ''com.nokia.policy.enforcement_point''"

definition string_or_empty :: "cstring \<Rightarrow> string" where
  "string_or_empty s = (case s of None \<Rightarrow> [] | Some x \<Rightarrow> x)"

definition client_add_factstore_entry ::
  "('s, 'f) penv \<Rightarrow> cstring \<Rightarrow> cstring \<Rightarrow> cstring \<Rightarrow> cstring \<Rightarrow> 's pstate \<Rightarrow> bool \<times> 's pstate" where
  "client_add_factstore_entry E dbusid object pid stream st =
     (let fldlist = [(''dbusid'', VString (Some (string_or_empty dbusid))),
            (''object'', VString (Some (string_or_empty object))),
            (''pid'', VString (Some (string_or_empty pid))),
            (''stream'', VString (Some (string_or_empty stream))),
            (''group'', VString (Some ''othermedia'')),
            (''flags'', VInteger 0),
            (''state'', VString (Some ''none'')),
            (''reqstate'', VString (Some ''none'')),
            (''setstate'', VString (Some ''stop'')),
            (''playhint'', VString (Some ''play''))];
          (ok, s') = fsif_add_factstore_entry (pb_lib E) (Some FACTSTORE_PLAYBACK) (Some fldlist)
            (pb_fs st)
      in (ok, st\<lparr>pb_fs := s'\<rparr>))"

definition SELIST_DIM :: nat where
  "SELIST_DIM = 3"

text \<open>\<open>init_selist\<close>: the selector, or \<open>None\<close> when it returns \<open>FALSE\<close>.\<close>

definition init_selist :: "client \<Rightarrow> nat \<Rightarrow> field list option" where
  "init_selist cl n =
     (if n = 0 then None
      else case (cl_dbusid cl, cl_object cl) of
        (Some d, Some p) \<Rightarrow>
          if n \<ge> 3 then Some [(''dbusid'', VString (Some d)), (''object'', VString (Some p))]
          else (case cl_pid cl of
                  None \<Rightarrow> None
                | Some pid \<Rightarrow>
                    (case cl_stream cl of
                       None \<Rightarrow> if n \<ge> 2 then Some [(''pid'', VString (Some pid))] else None
                     | Some _ \<Rightarrow> None))
      | _ \<Rightarrow>
          (case cl_pid cl of
             None \<Rightarrow> None
           | Some pid \<Rightarrow>
               (case cl_stream cl of
                  None \<Rightarrow> if n \<ge> 2 then Some [(''pid'', VString (Some pid))] else None
                | Some s \<Rightarrow>
                    if n \<ge> 3
                    then Some [(''pid'', VString (Some pid)), (''stream'', VString (Some s))]
                    else None)))"

definition client_delete_factsore_entry ::
  "('s, 'f) penv \<Rightarrow> client \<Rightarrow> 's pstate \<Rightarrow> 's pstate option" where
  "client_delete_factsore_entry E cl st =
     (case init_selist cl SELIST_DIM of
        None \<Rightarrow> Some st
      | Some sel \<Rightarrow>
          do {
            (_, s') \<leftarrow> fsif_delete_factstore_entry (pb_lib E) FACTSTORE_PLAYBACK (Some sel)
              (pb_fs st);
            Some (st\<lparr>pb_fs := s'\<rparr>)
          })"

definition client_update_factstore_entry ::
  "('s, 'f) penv \<Rightarrow> client \<Rightarrow> field \<Rightarrow> 's pstate \<Rightarrow> 's pstate option" where
  "client_update_factstore_entry E cl fld st =
     (case init_selist cl SELIST_DIM of
        None \<Rightarrow> Some st
      | Some sel \<Rightarrow>
          do {
            (_, s') \<leftarrow> fsif_update_factstore_entry (pb_lib E) FACTSTORE_PLAYBACK (Some sel) [fld]
              (pb_fs st);
            Some (st\<lparr>pb_fs := s'\<rparr>)
          })"

text \<open>The same for the client at an address, with a string value.\<close>

definition update_client_fact ::
  "('s, 'f) penv \<Rightarrow> addr \<Rightarrow> string \<Rightarrow> cstring \<Rightarrow> 's pstate \<Rightarrow> 's pstate option" where
  "update_client_fact E a field v st =
     do {
       cl \<leftarrow> get_client st a;
       client_update_factstore_entry E cl (field, VString v) st
     }"

subsection \<open>Finding clients, and their states and hints\<close>

definition client_find_by_dbus :: "cstring \<Rightarrow> cstring \<Rightarrow> 's pstate \<Rightarrow> addr option" where
  "client_find_by_dbus dbusid object st =
     (if dbusid = None \<or> object = None then None
      else map_option fst (find (\<lambda>(a, cl). cl_dbusid cl = dbusid \<and> cl_object cl = object)
             (pb_clients st)))"

definition client_find_by_stream :: "cstring \<Rightarrow> cstring \<Rightarrow> 's pstate \<Rightarrow> addr option" where
  "client_find_by_stream pid stream st =
     (if pid = None then None
      else map_option fst (find (\<lambda>(a, cl). cl_pid cl = pid \<and>
             (stream = None \<or> cl_stream cl = stream)) (pb_clients st)))"

definition client_get_state :: "client \<Rightarrow> client_stype \<Rightarrow> string" where
  "client_get_state cl type =
     string_or_empty
       (case type of
          client_reqstate \<Rightarrow> cl_reqstate cl
        | client_state \<Rightarrow> cl_state cl
        | client_setstate \<Rightarrow> cl_setstate cl
        | client_rqsetst \<Rightarrow> ev_value (cl_rqsetst cl)
        | client_st_invalid \<Rightarrow> None)"

definition client_save_state :: "client_stype \<Rightarrow> cstring \<Rightarrow> client \<Rightarrow> client" where
  "client_save_state type v cl =
     (case type of
        client_reqstate \<Rightarrow> cl\<lparr>cl_reqstate := v\<rparr>
      | client_state \<Rightarrow> cl\<lparr>cl_state := v\<rparr>
      | client_setstate \<Rightarrow> cl\<lparr>cl_setstate := v\<rparr>
      | client_rqsetst \<Rightarrow> cl\<lparr>cl_rqsetst := (cl_rqsetst cl)\<lparr>ev_value := v\<rparr>\<rparr>
      | client_st_invalid \<Rightarrow> cl)"

definition client_get_playback_hint :: "client \<Rightarrow> client_htype \<Rightarrow> string" where
  "client_get_playback_hint cl type =
     string_or_empty
       (case type of
          client_playhint \<Rightarrow> cl_playhint cl
        | client_rqplayhint \<Rightarrow> ev_value (cl_rqplayhint cl)
        | client_ph_invalid \<Rightarrow> None)"

definition client_save_playback_hint :: "client_htype \<Rightarrow> cstring \<Rightarrow> client \<Rightarrow> client" where
  "client_save_playback_hint type v cl =
     (case type of
        client_playhint \<Rightarrow> cl\<lparr>cl_playhint := v\<rparr>
      | client_rqplayhint \<Rightarrow> cl\<lparr>cl_rqplayhint := (cl_rqplayhint cl)\<lparr>ev_value := v\<rparr>\<rparr>
      | client_ph_invalid \<Rightarrow> cl)"

subsection \<open>Playback requests\<close>

text \<open>\<open>pbreq_create\<close> with a message; the counter of transaction ids is an \<open>int\<close>.\<close>

definition pbreq_create :: "('s, 'f) penv \<Rightarrow> addr \<Rightarrow> nat \<Rightarrow> 's pstate \<Rightarrow> addr option \<times> 's pstate" where
  "pbreq_create E a msg st =
     (case pb_alloc E st of
        (None, st1) \<Rightarrow> (None, st1)
      | (Some q, st1) \<Rightarrow>
          (Some q, st1\<lparr>pb_reqs := pb_reqs st1 @
             [(q, \<lparr>rq_cl = a, rq_msg = msg, rq_trid = pb_trid st1, rq_waiting = False,
                   rq_type = pbreq_invalid, rq_name = None, rq_pid = None, rq_stream = None\<rparr>)],
             pb_trid := pb_trid st1 + 1\<rparr>))"

definition pbreq_destroy :: "addr option \<Rightarrow> 's pstate \<Rightarrow> 's pstate" where
  "pbreq_destroy qo st =
     (case qo of
        None \<Rightarrow> st
      | Some q \<Rightarrow> st\<lparr>pb_reqs := filter (\<lambda>(k, r). k \<noteq> q) (pb_reqs st)\<rparr>)"

definition pbreq_get_first :: "addr \<Rightarrow> 's pstate \<Rightarrow> (addr \<times> pbreq) option" where
  "pbreq_get_first a st = find (\<lambda>(q, r). rq_cl r = a) (pb_reqs st)"

definition pbreq_get_by_trid :: "int \<Rightarrow> 's pstate \<Rightarrow> (addr \<times> pbreq) option" where
  "pbreq_get_by_trid i st = find (\<lambda>(q, r). rq_trid r = i) (pb_reqs st)"

definition pbreq_purge :: "addr \<Rightarrow> 's pstate \<Rightarrow> 's pstate" where
  "pbreq_purge a st = st\<lparr>pb_reqs := filter (\<lambda>(q, r). rq_cl r \<noteq> a) (pb_reqs st)\<rparr>"

subsection \<open>Outgoing D-Bus messages\<close>

definition DBUS_MAEMO_ERROR_FAILED :: string where
  "DBUS_MAEMO_ERROR_FAILED = ''org.maemo.Error.Failed''"

definition DBUS_MAEMO_ERROR_DENIED :: string where
  "DBUS_MAEMO_ERROR_DENIED = ''org.maemo.Error.RequestDenied''"

text \<open>A message is recorded when libdbus builds and sends it.\<close>

definition pb_send :: "('s, 'f) penv \<Rightarrow> pb_action \<Rightarrow> 's pstate \<Rightarrow> bool \<times> 's pstate" where
  "pb_send E m st = (if pb_send_ok E (pb_log st) then (True, pb_note m st) else (False, st))"

definition dbusif_watch_client :: "('s, 'f) penv \<Rightarrow> cstring \<Rightarrow> bool \<Rightarrow> 's pstate \<Rightarrow> 's pstate" where
  "dbusif_watch_client E dbusid watchit st = snd (pb_send E (Watch_client dbusid watchit) st)"

definition dbusif_reply_to_req_state :: "('s, 'f) penv \<Rightarrow> nat \<Rightarrow> cstring \<Rightarrow> 's pstate \<Rightarrow> 's pstate" where
  "dbusif_reply_to_req_state E msg state st = snd (pb_send E (Reply_state msg state) st)"

definition dbusif_reply :: "('s, 'f) penv \<Rightarrow> nat \<Rightarrow> 's pstate \<Rightarrow> 's pstate" where
  "dbusif_reply E msg st = snd (pb_send E (Reply_ok msg) st)"

definition dbusif_reply_with_error ::
  "('s, 'f) penv \<Rightarrow> nat \<Rightarrow> cstring \<Rightarrow> string \<Rightarrow> 's pstate \<Rightarrow> 's pstate" where
  "dbusif_reply_with_error E msg err description st =
     snd (pb_send E (Reply_error msg
       (case err of None \<Rightarrow> DBUS_MAEMO_ERROR_FAILED | Some e \<Rightarrow> e) description) st)"

text \<open>A method call with a reply callback; the user callbacks are those of \<open>sm.c\<close>.\<close>

definition dbusif_get_property ::
  "('s, 'f) penv \<Rightarrow> cstring \<Rightarrow> cstring \<Rightarrow> string \<Rightarrow> 's pstate \<Rightarrow> 's pstate option" where
  "dbusif_get_property E dbusid object prname st =
     (case pb_alloc E st of
        (None, st1) \<Rightarrow> Some st1
      | (Some _, st1) \<Rightarrow>
          do {
            d \<leftarrow> dbusid;
            p \<leftarrow> object;
            (let (ok, st2) = pb_send E (Get_call d p prname) st1
             in Some (if ok then st2\<lparr>pb_pending := pb_pending st2 @ [Get_pending d p prname]\<rparr>
                      else st2))
          })"

definition dbusif_set_property ::
  "('s, 'f) penv \<Rightarrow> cstring \<Rightarrow> cstring \<Rightarrow> string \<Rightarrow> string \<Rightarrow> 's pstate \<Rightarrow> 's pstate option" where
  "dbusif_set_property E dbusid object prname prvalue st =
     (case pb_alloc E st of
        (None, st1) \<Rightarrow> Some st1
      | (Some _, st1) \<Rightarrow>
          do {
            d \<leftarrow> dbusid;
            p \<leftarrow> object;
            (let vals = (if prname = ''AllowedState''
                         then ''Stop'' # (if prvalue \<noteq> ''Stop'' then [prvalue] else [])
                         else [prvalue]);
                 (ok, st2) = pb_send E (Set_call d p prname vals) st1
             in Some (if ok
                      then st2\<lparr>pb_pending := pb_pending st2 @ [Set_pending d p prname prvalue]\<rparr>
                      else st2))
          })"

definition client_get_property ::
  "('s, 'f) penv \<Rightarrow> addr \<Rightarrow> string \<Rightarrow> 's pstate \<Rightarrow> 's pstate option" where
  "client_get_property E a prname st =
     do { cl \<leftarrow> get_client st a; dbusif_get_property E (cl_dbusid cl) (cl_object cl) prname st }"

definition client_set_property ::
  "('s, 'f) penv \<Rightarrow> addr \<Rightarrow> string \<Rightarrow> string \<Rightarrow> 's pstate \<Rightarrow> 's pstate option" where
  "client_set_property E a prname prvalue st =
     do {
       cl \<leftarrow> get_client st a;
       dbusif_set_property E (cl_dbusid cl) (cl_object cl) prname prvalue st
     }"

definition dbusif_signal_privacy_override :: "('s, 'f) penv \<Rightarrow> int \<Rightarrow> 's pstate \<Rightarrow> 's pstate" where
  "dbusif_signal_privacy_override E state st = snd (pb_send E (Signal_privacy (state \<noteq> 0)) st)"

definition dbusif_signal_bluetooth_override :: "('s, 'f) penv \<Rightarrow> int \<Rightarrow> 's pstate \<Rightarrow> 's pstate" where
  "dbusif_signal_bluetooth_override E state st = snd (pb_send E (Signal_bluetooth state) st)"

definition dbusif_signal_mute :: "('s, 'f) penv \<Rightarrow> int \<Rightarrow> 's pstate \<Rightarrow> 's pstate" where
  "dbusif_signal_mute E state st = snd (pb_send E (Signal_mute (state \<noteq> 0)) st)"

definition dbusif_send_stream_info_to_pep ::
  "('s, 'f) penv \<Rightarrow> string \<Rightarrow> cstring \<Rightarrow> cstring \<Rightarrow> cstring \<Rightarrow> 's pstate \<Rightarrow> 's pstate" where
  "dbusif_send_stream_info_to_pep E oper grp pidstr stream st =
     (case (grp, pidstr) of
        (Some g, Some p) \<Rightarrow>
          (let (n, rest) = strtoul p;
               pid = (word_of_int n :: u32)
           in if pid = 0 \<or> rest \<noteq> [] then st
              else
                (let s = (case stream of None \<Rightarrow> ''<unknown>''
                          | Some x \<Rightarrow> if x = [] then ''<unknown>'' else x);
                     (ok, st1) = pb_send E (Stream_info (pb_txid st) oper g pid s) st
                 in if ok then st1\<lparr>pb_txid := pb_txid st1 + 1\<rparr> else st1))
      | _ \<Rightarrow> st)"
end
