(* ===== verification/Playback_Sm.thy ===== *)
theory Playback_Sm
  imports Playback_Client
begin

text \<open>
  The client state machine of the playback plugin, \<open>src/plugins/playback/sm.c\<close>, with the resolver
  requests of \<open>dresif.c\<close>: the transition table, the transition functions, event processing and
  scheduling, the fact watches, and the creation and destruction of clients.

  A policy request changes facts while it runs, and the fact store then calls the watches; the
  changes are the environment's answer.  Completions of a request arrive later from the main loop:
  the signaling plugin defers every transaction with an id to an idle task.
\<close>

subsection \<open>The transition table\<close>

datatype trfunc = Read_property | Save_property | Write_property | Write_property_err
  | Process_pbreq | Reply_pbreq | Reply_pbreq_deq | Abort_pbreq_deq | Check_queue | Update_state
  | Update_state_deq | Update_playhint_deq | Fake_stop_pbreq

text \<open>The row of a state as a function of the event; events not listed only stay in the state.\<close>

definition sm_def :: "sm_stid \<Rightarrow> sm_evid \<Rightarrow> trfunc option \<times> sm_stid" where
  "sm_def s e =
     (case s of
        stid_invalid \<Rightarrow>
          (case e of
             evid_hello_signal \<Rightarrow> (Some Read_property, stid_setup)
           | _ \<Rightarrow> (None, stid_invalid))
      | stid_setup \<Rightarrow>
          (case e of
             evid_property_received \<Rightarrow> (Some Save_property, stid_setup)
           | evid_setup_complete \<Rightarrow> (Some Check_queue, stid_idle)
           | evid_setup_state_denied \<Rightarrow> (Some Write_property, stid_setstreq)
           | evid_client_gone \<Rightarrow> (None, stid_invalid)
           | _ \<Rightarrow> (None, stid_setup))
      | stid_idle \<Rightarrow>
          (case e of
             evid_playback_request \<Rightarrow> (Some Process_pbreq, stid_pbreq)
           | evid_setstate_changed \<Rightarrow> (Some Write_property, stid_setstreq)
           | evid_playhint_changed \<Rightarrow> (Some Write_property, stid_sethintreq)
           | evid_client_gone \<Rightarrow> (Some Fake_stop_pbreq, stid_invalid)
           | _ \<Rightarrow> (None, stid_idle))
      | stid_pbreq \<Rightarrow>
          (case e of
             evid_state_signal \<Rightarrow> (Some Update_state, stid_acked_pbreq)
           | evid_playback_complete \<Rightarrow> (Some Reply_pbreq, stid_waitack)
           | evid_playback_failed \<Rightarrow> (Some Abort_pbreq_deq, stid_idle)
           | evid_client_gone \<Rightarrow> (Some Fake_stop_pbreq, stid_invalid)
           | _ \<Rightarrow> (None, stid_pbreq))
      | stid_acked_pbreq \<Rightarrow>
          (case e of
             evid_playback_complete \<Rightarrow> (Some Reply_pbreq_deq, stid_idle)
           | evid_playback_failed \<Rightarrow> (Some Abort_pbreq_deq, stid_idle)
           | evid_client_gone \<Rightarrow> (Some Fake_stop_pbreq, stid_invalid)
           | _ \<Rightarrow> (None, stid_acked_pbreq))
      | stid_setstreq \<Rightarrow>
          (case e of
             evid_setprop_succeeded \<Rightarrow> (None, stid_waitack)
           | evid_setprop_failed \<Rightarrow> (Some Write_property_err, stid_idle)
           | evid_client_gone \<Rightarrow> (Some Fake_stop_pbreq, stid_invalid)
           | _ \<Rightarrow> (None, stid_setstreq))
      | stid_sethintreq \<Rightarrow>
          (case e of
             evid_setprop_succeeded \<Rightarrow> (Some Update_playhint_deq, stid_idle)
           | evid_setprop_failed \<Rightarrow> (Some Check_queue, stid_idle)
           | evid_client_gone \<Rightarrow> (Some Fake_stop_pbreq, stid_invalid)
           | _ \<Rightarrow> (None, stid_sethintreq))
      | stid_waitack \<Rightarrow>
          (case e of
             evid_state_signal \<Rightarrow> (Some Update_state_deq, stid_idle)
           | evid_property_received \<Rightarrow> (None, stid_acked_pbreq)
           | evid_setup_complete \<Rightarrow> (None, stid_acked_pbreq)
           | evid_client_gone \<Rightarrow> (Some Fake_stop_pbreq, stid_invalid)
           | _ \<Rightarrow> (None, stid_waitack)))"

subsection \<open>Scheduling events\<close>

definition sm_schedule_event ::
  "('s, 'f) penv \<Rightarrow> addr \<Rightarrow> sm_evdata \<Rightarrow> 's pstate \<Rightarrow> 's pstate option" where
  "sm_schedule_event E a evdata st =
     do {
       cl \<leftarrow> get_client st a;
       (if sched (cl_sm cl) \<noteq> 0 then Some st
        else case pb_alloc E st of
          (None, st1) \<Rightarrow> Some st1
        | (Some _, st1) \<Rightarrow>
            (let (i, st2) = g_idle_add E (Fire_scheduled a evdata) st1
             in Some (upd_sm a (sched_update (\<lambda>_. i)) st2)))
     }"

definition schedule_deferred_request :: "('s, 'f) penv \<Rightarrow> addr \<Rightarrow> 's pstate \<Rightarrow> 's pstate option" where
  "schedule_deferred_request E a st =
     do {
       cl \<leftarrow> get_client st a;
       (if (case pbreq_get_first a st of None \<Rightarrow> False | Some (_, r) \<Rightarrow> \<not> rq_waiting r)
        then sm_schedule_event E a (Ev evid_playback_request) st
        else if ev_value (cl_rqsetst cl) \<noteq> None \<and> evsrc (cl_rqsetst cl) = 0
        then (let (i, st1) = g_idle_add E (Fire_setstate a) st
              in Some (upd_client a (\<lambda>c. c\<lparr>cl_rqsetst := (cl_rqsetst c)\<lparr>evsrc := i\<rparr>\<rparr>) st1))
        else if ev_value (cl_rqplayhint cl) \<noteq> None \<and> evsrc (cl_rqplayhint cl) = 0
        then (let (i, st1) = g_idle_add E (Fire_playhint a) st
              in Some (upd_client a (\<lambda>c. c\<lparr>cl_rqplayhint := (cl_rqplayhint c)\<lparr>evsrc := i\<rparr>\<rparr>) st1))
        else Some st)
     }"

definition schedule_fake_setprop_succeeded_event ::
  "('s, 'f) penv \<Rightarrow> addr \<Rightarrow> string \<Rightarrow> string \<Rightarrow> 's pstate \<Rightarrow> 's pstate option" where
  "schedule_fake_setprop_succeeded_event E a prname prvalue st =
     (case pb_alloc E st of
        (None, st1) \<Rightarrow> Some st1
      | (Some _, st1) \<Rightarrow>
          sm_schedule_event E a
            (Ev_property evid_setprop_succeeded (Some prname) (Some prvalue)) st1)"

subsection \<open>Watches on facts\<close>

definition find_client_by_fact :: "('s, 'f) penv \<Rightarrow> 'f option \<Rightarrow> 's pstate \<Rightarrow> addr option" where
  "find_client_by_fact E entr st =
     (let get = (\<lambda>n. case snd (fsif_get_field_by_entry (pb_lib E) (pb_fs st) entr fldtype_string
                (Some n) True) of Some (VString v) \<Rightarrow> v | _ \<Rightarrow> None);
          dbusid = get ''dbusid'';
          object = get ''object''
      in if dbusid = None \<or> dbusid = Some [] then None
         else if object = None \<or> object = Some [] then None
         else client_find_by_dbus dbusid object st)"

definition setstate_cb ::
  "('s, 'f) penv \<Rightarrow> 'f option \<Rightarrow> field \<Rightarrow> 's pstate \<Rightarrow> 's pstate option" where
  "setstate_cb E entr fld st =
     (case snd fld of
        VString (Some setstate) \<Rightarrow>
          (case find_client_by_fact E entr st of
             None \<Rightarrow> Some st
           | Some a \<Rightarrow>
               do {
                 cl \<leftarrow> get_client st a;
                 (let st1 = upd_client a (client_save_state client_rqsetst (Some setstate)) st
                  in if evsrc (cl_rqsetst cl) = 0 \<and> evsrc (cl_rqplayhint cl) = 0
                     then (let (i, st2) = g_idle_add E (Fire_setstate a) st1
                           in Some (upd_client a
                                (\<lambda>c. c\<lparr>cl_rqsetst := (cl_rqsetst c)\<lparr>evsrc := i\<rparr>\<rparr>) st2))
                     else Some st1)
               })
      | _ \<Rightarrow> Some st)"

definition playhint_cb ::
  "('s, 'f) penv \<Rightarrow> 'f option \<Rightarrow> field \<Rightarrow> 's pstate \<Rightarrow> 's pstate option" where
  "playhint_cb E entr fld st =
     (case snd fld of
        VString (Some playhint) \<Rightarrow>
          (case find_client_by_fact E entr st of
             None \<Rightarrow> Some st
           | Some a \<Rightarrow>
               do {
                 cl \<leftarrow> get_client st a;
                 (let st1 = upd_client a (client_save_playback_hint client_rqplayhint (Some playhint)) st
                  in if evsrc (cl_rqsetst cl) = 0 \<and> evsrc (cl_rqplayhint cl) = 0
                     then (let (i, st2) = g_idle_add E (Fire_playhint a) st1
                           in Some (upd_client a
                                (\<lambda>c. c\<lparr>cl_rqplayhint := (cl_rqplayhint c)\<lparr>evsrc := i\<rparr>\<rparr>) st2))
                     else Some st1)
               })
      | _ \<Rightarrow> Some st)"

definition privacy_cb :: "('s, 'f) penv \<Rightarrow> field \<Rightarrow> 's pstate \<Rightarrow> 's pstate" where
  "privacy_cb E fld st =
     (case snd fld of
        VString (Some privacy) \<Rightarrow>
          if privacy = ''public'' then dbusif_signal_privacy_override E 1 st
          else if privacy = ''private'' then dbusif_signal_privacy_override E 0 st
          else if privacy = ''default'' then dbusif_signal_privacy_override E 0 st
          else st
      | _ \<Rightarrow> st)"

definition bluetooth_state :: "string \<Rightarrow> int" where
  "bluetooth_state b = (if b = ''disconnected'' then -1 else if b = ''default'' then 0 else 1)"

definition bluetooth_cb :: "('s, 'f) penv \<Rightarrow> field \<Rightarrow> 's pstate \<Rightarrow> 's pstate" where
  "bluetooth_cb E fld st =
     (case snd fld of
        VString (Some b) \<Rightarrow> dbusif_signal_bluetooth_override E (bluetooth_state b) st
      | _ \<Rightarrow> st)"

definition mute_cb :: "('s, 'f) penv \<Rightarrow> 'f option \<Rightarrow> 's pstate \<Rightarrow> 's pstate" where
  "mute_cb E entr st =
     (let forced = (case snd (fsif_get_field_by_entry (pb_lib E) (pb_fs st) entr fldtype_integer
                (Some ''forced'') True) of Some (VInteger i) \<Rightarrow> i | _ \<Rightarrow> 0);
          mute = (case snd (fsif_get_field_by_entry (pb_lib E) (pb_fs st) entr fldtype_string
                (Some ''mute'') True) of Some (VString v) \<Rightarrow> v | _ \<Rightarrow> None)
      in if forced \<noteq> 0 then st
         else if mute = Some ''muted'' then dbusif_signal_mute E 1 st
         else if mute = Some ''unmuted'' then dbusif_signal_mute E 0 st
         else st)"

text \<open>\<open>sm_init\<close>: the watches, the latest first.\<close>

definition playback_watches :: "pb_cb watches" where
  "playback_watches =
     foldl (\<lambda>w (n, sel, fld, cb). snd (add_watch n watch_update sel (Some fld) cb True True w))
       init_watches
       [(FACTSTORE_PLAYBACK, None, ''setstate'', Setstate_cb),
        (FACTSTORE_PLAYBACK, None, ''playhint'', Playhint_cb),
        (FACTSTORE_PRIVACY, None, ''value'', Privacy_cb),
        (FACTSTORE_BLUETOOTH, None, ''value'', Bluetooth_cb),
        (FACTSTORE_MUTE, Some [(''device'', VString (Some ''microphone''))], ''mute'', Mute_cb),
        (FACTSTORE_MUTE, Some [(''device'', VString (Some ''microphone''))], ''forced'', Mute_cb)]"

definition run_pb_cb ::
  "('s, 'f) penv \<Rightarrow> pb_cb \<Rightarrow> 'f option \<Rightarrow> field \<Rightarrow> 's pstate \<Rightarrow> 's pstate option" where
  "run_pb_cb E cb entr fld st =
     (case cb of
        Setstate_cb \<Rightarrow> setstate_cb E entr fld st
      | Playhint_cb \<Rightarrow> playhint_cb E entr fld st
      | Privacy_cb \<Rightarrow> Some (privacy_cb E fld st)
      | Bluetooth_cb \<Rightarrow> Some (bluetooth_cb E fld st)
      | Mute_cb \<Rightarrow> Some (mute_cb E entr st))"

text \<open>A fact changes: the store is written and the watch called.\<close>

definition pb_fact_changed :: "('s, 'f) penv \<Rightarrow> 'f pb_change \<Rightarrow> 's pstate \<Rightarrow> 's pstate option" where
  "pb_fact_changed E ch st =
     (let (f, n, gv) = ch;
          s' = fact_set (pb_lib E) f n gv (pb_fs st);
          st1 = st\<lparr>pb_fs := s'\<rparr>
      in do {
        call \<leftarrow> updated_cb (pb_lib E) s' playback_watches (Some f) n (Some gv);
        (case call of
           None \<Rightarrow> Some st1
         | Some (cb, f', name, fld) \<Rightarrow> run_pb_cb E cb (Some f') fld st1)
      })"

fun pb_facts_changed :: "('s, 'f) penv \<Rightarrow> 'f pb_change list \<Rightarrow> 's pstate \<Rightarrow> 's pstate option" where
  "pb_facts_changed E [] st = Some st"
| "pb_facts_changed E (ch # chs) st =
     do { st1 \<leftarrow> pb_fact_changed E ch st; pb_facts_changed E chs st1 }"


subsection \<open>Requests to the resolver\<close>

definition pb_request ::
  "('s, 'f) penv \<Rightarrow> string \<Rightarrow> (string \<times> dres_var) list \<Rightarrow> 's pstate \<Rightarrow> (bool \<times> 's pstate) option" where
  "pb_request E goal vars st =
     (let (status, chs) = pb_resolve E (pb_log st) goal vars
      in do {
        st1 \<leftarrow> pb_facts_changed E chs (pb_note (Pb_resolve goal vars) st);
        Some (status > 0, st1)
      })"

definition dresif_group_request ::
  "('s, 'f) penv \<Rightarrow> cstring \<Rightarrow> int \<Rightarrow> 's pstate \<Rightarrow> (bool \<times> 's pstate) option" where
  "dresif_group_request E grp m st =
     pb_request E ''group_request''
       [(''active_group'', DStr (Some (string_or_empty grp))), (''active_media'', DInt m)] st"

definition dresif_playback_state_request ::
  "('s, 'f) penv \<Rightarrow> addr \<Rightarrow> string \<Rightarrow> int \<Rightarrow> 's pstate \<Rightarrow> (bool \<times> 's pstate) option" where
  "dresif_playback_state_request E a state transid st =
     do {
       cl \<leftarrow> get_client st a;
       pb_request E ''playback_request''
         ([(''playback_dbusid'', DStr (Some (string_or_empty (cl_dbusid cl)))),
           (''playback_object'', DStr (Some (string_or_empty (cl_object cl)))),
           (''playback_state'', DStr (Some state)),
           (''playback_group'', DStr (cl_group cl)),
           (''playback_media'', DInt (cl_flags cl))] @
          (if transid > 0
           then [(''completion_callback'', DStr (Some ''playback.completion_cb'')),
                 (''transaction_id'', DInt transid)]
           else [])) st
     }"

definition dresif_privacy_override_request ::
  "('s, 'f) penv \<Rightarrow> bool \<Rightarrow> 's pstate \<Rightarrow> (bool \<times> 's pstate) option" where
  "dresif_privacy_override_request E privacy st =
     pb_request E ''privacy_override_request''
       [(''privacy_override_state'', DStr (Some (if privacy then ''public'' else ''default'')))] st"

definition dresif_bluetooth_override_request ::
  "('s, 'f) penv \<Rightarrow> bool \<Rightarrow> 's pstate \<Rightarrow> (bool \<times> 's pstate) option" where
  "dresif_bluetooth_override_request E bluetooth st =
     (if bluetooth
      then pb_request E ''bluetooth_override_request''
             [(''bluetooth_override_state'', DStr (Some ''earpiece''))] st
      else pb_request E ''reset_bluetooth_override'' [] st)"

definition dresif_mute_request :: "('s, 'f) penv \<Rightarrow> int \<Rightarrow> 's pstate \<Rightarrow> (bool \<times> 's pstate) option" where
  "dresif_mute_request E mute st = pb_request E ''audio_mute_request'' [(''mute_state'', DInt mute)] st"

subsection \<open>Transition functions\<close>

text \<open>The group of a class; an unknown class has the group \<open>NULL\<close>.\<close>

definition class_to_group :: "string \<Rightarrow> cstring" where
  "class_to_group klass =
     map_of [(''None'', ''idle''), (''Test'', ''idle''), (''Event'', ''event''), (''VoIP'', ''ipcall''),
       (''Media'', ''player''), (''Background'', ''background''), (''Ringtone'', ''ringtone''),
       (''VoiceUI'', ''voiceui''), (''Camera'', ''camera''), (''Game'', ''game''),
       (''Alarm'', ''alarm''), (''Flash'', ''flash''), (''System'', ''systemsound''),
       (''Input'', ''inputsound'')] klass"

definition read_property :: "('s, 'f) penv \<Rightarrow> addr \<Rightarrow> 's pstate \<Rightarrow> 's pstate option" where
  "read_property E a st = client_get_property E a ''Pid'' st"

text \<open>The value of the \<open>Flags\<close> property, with the adjustment for flash and ringtones.\<close>

definition parse_flags :: "string \<Rightarrow> int" where
  "parse_flags v =
     (if scan_number v = None \<or> snd (strtol v) \<noteq> [] then 0
      else sint (word_of_int (fst (strtol v)) :: u32))"

definition flash_hack :: "cstring \<Rightarrow> int \<Rightarrow> int option" where
  "flash_hack grp flags =
     (if flags AND 1 = 0 then Some flags
      else case grp of
        None \<Rightarrow> None
      | Some g \<Rightarrow>
          if g = ''flash'' then Some ((flags AND NOT 1) OR 16)
          else if g = ''ringtone'' then Some (flags OR 16)
          else Some flags)"

text \<open>The first half of \<open>save_property\<close>: the property is stored and the next one queried.\<close>

definition store_property ::
  "('s, 'f) penv \<Rightarrow> string \<Rightarrow> cstring \<Rightarrow> addr \<Rightarrow> 's pstate \<Rightarrow> 's pstate option" where
  "store_property E name valu a st =
     (if name = ''Pid'' then
        do {
          v \<leftarrow> valu;
          st1 \<leftarrow> update_client_fact E a ''pid'' (Some v) (upd_client a (cl_pid_update (\<lambda>_. Some v)) st);
          client_get_property E a ''Class'' st1
        }
      else if name = ''Class'' then
        do {
          v \<leftarrow> valu;
          g \<leftarrow> class_to_group v;
          st1 \<leftarrow> update_client_fact E a ''group'' (Some g)
            (upd_client a (cl_group_update (\<lambda>_. Some g)) st);
          client_get_property E a ''State'' st1
        }
      else if name = ''State'' then
        do {
          v \<leftarrow> valu;
          (let s = strncpylower v 64
           in do {
             st1 \<leftarrow> update_client_fact E a ''state'' (Some s)
               (upd_client a (client_save_state client_state (Some s)) st);
             client_get_property E a ''Flags'' st1
           })
        }
      else if name = ''Flags'' then
        do {
          v \<leftarrow> valu;
          cl \<leftarrow> get_client st a;
          flags \<leftarrow> flash_hack (cl_group cl) (parse_flags v);
          client_update_factstore_entry E cl (''flags'', VInteger flags)
            (upd_client a (cl_flags_update (\<lambda>_. flags)) st)
        }
      else Some st)"

text \<open>The second half: with all properties known the client is set up.\<close>

definition setup_client :: "('s, 'f) penv \<Rightarrow> addr \<Rightarrow> 's pstate \<Rightarrow> 's pstate option" where
  "setup_client E a st =
     do {
       cl \<leftarrow> get_client st a;
       (case (cl_pid cl, cl_group cl, cl_state cl) of
          (Some pid, Some g, Some _) \<Rightarrow>
            if cl_flags cl = 0 then Some st
            else
              (let name = take 255 (case cl_stream cl of
                     None \<Rightarrow> sm_name (cl_sm cl) @ '' '' @ pid
                   | Some s \<Rightarrow> sm_name (cl_sm cl) @ '' '' @ pid @ ''/'' @ s);
                   st1 = upd_sm a (sm_name_update (\<lambda>_. name)) st;
                   st2 = dbusif_send_stream_info_to_pep E ''register'' (Some g) (Some pid)
                     (cl_stream cl) st1;
                   state = buf_copy (client_get_state cl client_state) 64
               in do {
                 (accepted, st3) \<leftarrow>
                   (if state \<noteq> ''play'' then Some (True, st2)
                    else do {
                      s1 \<leftarrow> update_client_fact E a ''reqstate'' (Some state)
                        (upd_client a (client_save_state client_reqstate (Some state)) st2);
                      (ok, s2) \<leftarrow> dresif_playback_state_request E a state 0
                        (upd_client a (\<lambda>c. c\<lparr>cl_rqsetst := (cl_rqsetst c)\<lparr>evsrc := -1\<rparr>\<rparr>) s1);
                      s3 \<leftarrow>
                        (if ok then Some s2
                         else update_client_fact E a ''reqstate'' (Some ''stop'')
                                (upd_client a (client_save_state client_reqstate (Some ''stop''))
                                  (upd_client a (client_save_state client_rqsetst (Some ''stop''))
                                    s2)));
                      Some (ok,
                        upd_client a (\<lambda>c. c\<lparr>cl_rqsetst := (cl_rqsetst c)\<lparr>evsrc := 0\<rparr>\<rparr>) s3)
                    });
                 sm_schedule_event E a
                   (if accepted then Ev evid_setup_complete
                    else Ev_watch evid_setup_state_denied (Some ''stop'')) st3
               })
        | _ \<Rightarrow> Some st)
     }"

definition save_property ::
  "('s, 'f) penv \<Rightarrow> sm_evdata \<Rightarrow> addr \<Rightarrow> 's pstate \<Rightarrow> 's pstate option" where
  "save_property E evdata a st =
     (case evdata of
        Ev_property _ (Some name) valu \<Rightarrow>
          do { st1 \<leftarrow> store_property E name valu a st; setup_client E a st1 }
      | _ \<Rightarrow> None)"

definition capitalize :: "string \<Rightarrow> string" where
  "capitalize v = (case buf_copy v 64 of [] \<Rightarrow> [] | c # cs \<Rightarrow> toupper c # cs)"

definition write_property ::
  "('s, 'f) penv \<Rightarrow> sm_evdata \<Rightarrow> addr \<Rightarrow> 's pstate \<Rightarrow> 's pstate option" where
  "write_property E evdata a st =
     do {
       cl \<leftarrow> get_client st a;
       (if ev_id evdata = evid_setstate_changed \<or> ev_id evdata = evid_setup_state_denied then
          (case evdata of
             Ev_watch _ (Some setstate) \<Rightarrow>
               if cl_state cl = Some setstate
               then schedule_fake_setprop_succeeded_event E a ''State'' (capitalize setstate) st
               else do {
                 st1 \<leftarrow> client_set_property E a ''State'' (capitalize setstate)
                   (upd_client a (client_save_state client_setstate (Some setstate)) st);
                 Some (upd_client a (client_save_state client_rqsetst None) st1)
               }
           | _ \<Rightarrow> None)
        else if ev_id evdata = evid_playhint_changed then
          (case evdata of
             Ev_watch _ (Some playhint) \<Rightarrow>
               if cl_playhint cl = Some playhint
               then schedule_fake_setprop_succeeded_event E a ''AllowedState'' (capitalize playhint) st
               else do {
                 st1 \<leftarrow> client_set_property E a ''AllowedState'' (capitalize playhint)
                   (upd_client a (client_save_playback_hint client_playhint (Some playhint)) st);
                 Some (upd_client a (client_save_playback_hint client_rqplayhint None) st1)
               }
           | _ \<Rightarrow> None)
        else Some st)
     }"

definition update_state ::
  "('s, 'f) penv \<Rightarrow> sm_evdata \<Rightarrow> addr \<Rightarrow> 's pstate \<Rightarrow> (bool \<times> 's pstate) option" where
  "update_state E evdata a st =
     do {
       cl \<leftarrow> get_client st a;
       (let save = (\<lambda>state. do {
              st1 \<leftarrow> update_client_fact E a ''state'' (Some state)
                (upd_client a (client_save_state client_state (Some state)) st);
              Some (True, st1) })
        in case ev_id evdata of
             evid_setprop_failed \<Rightarrow>
               (case evdata of Ev_property _ _ (Some v) \<Rightarrow> save (strncpylower v 64) | _ \<Rightarrow> None)
           | evid_state_signal \<Rightarrow>
               (case evdata of Ev_property _ _ (Some v) \<Rightarrow> save (strncpylower v 64) | _ \<Rightarrow> None)
           | evid_playback_failed \<Rightarrow> save (buf_copy (client_get_state cl client_setstate) 64)
           | evid_playback_complete \<Rightarrow>
               (case evdata of
                  Ev_pbreply _ q \<Rightarrow>
                    do {
                      r \<leftarrow> map_of (pb_reqs st) q;
                      v \<leftarrow> rq_name r;
                      save (strncpylower v 64)
                    }
                | _ \<Rightarrow> None)
           | _ \<Rightarrow> Some (False, st))
     }"

definition write_property_err ::
  "('s, 'f) penv \<Rightarrow> sm_evdata \<Rightarrow> addr \<Rightarrow> 's pstate \<Rightarrow> 's pstate option" where
  "write_property_err E evdata a st =
     do {
       st1 \<leftarrow>
         (if ev_id evdata = evid_setprop_failed
          then (case evdata of
                  Ev_property _ (Some name) _ \<Rightarrow>
                    if name = ''State'' then map_option snd (update_state E evdata a st) else Some st
                | _ \<Rightarrow> None)
          else Some st);
       schedule_deferred_request E a st1
     }"

text \<open>A changed pid or stream of the requesting client is announced to the enforcement points.\<close>

definition update_stream ::
  "('s, 'f) penv \<Rightarrow> cstring \<Rightarrow> cstring \<Rightarrow> string \<Rightarrow> addr \<Rightarrow> 's pstate \<Rightarrow> 's pstate option" where
  "update_stream E pid stream state a st =
     do {
       cl \<leftarrow> get_client st a;
       (if pid \<noteq> None \<and> (cl_pid cl \<noteq> pid \<or> (stream \<noteq> None \<and> cl_stream cl \<noteq> stream))
        then
          (let st1 = (if cl_pid cl \<noteq> None
                      then dbusif_send_stream_info_to_pep E ''unregister'' (cl_group cl) (cl_pid cl)
                             (Some (case cl_stream cl of None \<Rightarrow> ''<unknown>'' | Some s \<Rightarrow> s)) st
                      else st);
               st2 = upd_client a (\<lambda>c. c\<lparr>cl_pid := pid, cl_stream := stream\<rparr>) st1
           in do {
             st3 \<leftarrow> update_client_fact E a ''pid'' pid st2;
             st4 \<leftarrow> (if stream \<noteq> None then update_client_fact E a ''stream'' stream st3 else Some st3);
             st5 \<leftarrow> update_client_fact E a ''state'' (Some state) st4;
             Some (dbusif_send_stream_info_to_pep E ''register'' (cl_group cl) pid
               (Some (case stream of None \<Rightarrow> ''<unknown>'' | Some s \<Rightarrow> s)) st5)
           })
        else Some st)
     }"

text \<open>The reply event of a request that is decided at once.\<close>

definition schedule_reply_event ::
  "('s, 'f) penv \<Rightarrow> sm_evid \<Rightarrow> addr \<Rightarrow> addr \<Rightarrow> 's pstate \<Rightarrow> (bool \<times> 's pstate) option" where
  "schedule_reply_event E evid q a st =
     (case pb_alloc E st of
        (None, st1) \<Rightarrow> Some (False, st1)
      | (Some _, st1) \<Rightarrow>
          do { st2 \<leftarrow> sm_schedule_event E a (Ev_pbreply evid q) st1; Some (True, st2) })"

definition process_pbreq :: "('s, 'f) penv \<Rightarrow> addr \<Rightarrow> 's pstate \<Rightarrow> (bool \<times> 's pstate) option" where
  "process_pbreq E a st =
     (case pbreq_get_first a st of
        None \<Rightarrow> Some (False, st)
      | Some (q, req) \<Rightarrow>
          if rq_waiting req then Some (False, st)
          else if rq_type req \<noteq> pbreq_state
          then schedule_reply_event E evid_playback_failed q a st
          else do {
            name \<leftarrow> rq_name req;
            cl \<leftarrow> get_client st a;
            (let state = strncpylower name 64;
                 origst = buf_copy (client_get_state cl client_reqstate) 64
             in do {
               st1 \<leftarrow> update_stream E (rq_pid req) (rq_stream req) state a st;
               (if state = client_get_state cl client_setstate
                then schedule_reply_event E evid_playback_complete q a st1
                else do {
                  st2 \<leftarrow> update_client_fact E a ''reqstate'' (Some state)
                    (upd_client a (client_save_state client_reqstate (Some state)) st1);
                  (ok, st3) \<leftarrow> dresif_playback_state_request E a state (rq_trid req) st2;
                  (if ok
                   then do {
                     st4 \<leftarrow> update_client_fact E a ''state'' (Some state)
                       (upd_client a (client_save_state client_state (Some state))
                         (upd_client a (client_save_state client_setstate (Some state))
                           (upd_req q (rq_waiting_update (\<lambda>_. True)) st3)));
                     Some (True, st4)
                   }
                   else do {
                     st4 \<leftarrow> update_client_fact E a ''reqstate'' (Some origst)
                       (upd_client a (client_save_state client_reqstate (Some origst)) st3);
                     schedule_reply_event E evid_playback_failed q a st4
                   })
                })
             })
          })"

definition reply_pbreq ::
  "('s, 'f) penv \<Rightarrow> sm_evdata \<Rightarrow> addr \<Rightarrow> 's pstate \<Rightarrow> 's pstate option" where
  "reply_pbreq E evdata a st =
     (case evdata of
        Ev_pbreply _ q \<Rightarrow>
          do {
            req \<leftarrow> map_of (pb_reqs st) q;
            (let st1 = (if rq_type req = pbreq_state
                        then dbusif_reply_to_req_state E (rq_msg req) (rq_name req) st else st)
             in Some (pbreq_destroy (Some q) st1))
          }
      | _ \<Rightarrow> None)"

definition reply_pbreq_deq ::
  "('s, 'f) penv \<Rightarrow> sm_evdata \<Rightarrow> addr \<Rightarrow> 's pstate \<Rightarrow> 's pstate option" where
  "reply_pbreq_deq E evdata a st =
     do { st1 \<leftarrow> reply_pbreq E evdata a st; schedule_deferred_request E a st1 }"

definition abort_pbreq_deq ::
  "('s, 'f) penv \<Rightarrow> sm_evdata \<Rightarrow> addr \<Rightarrow> 's pstate \<Rightarrow> 's pstate option" where
  "abort_pbreq_deq E evdata a st =
     (case evdata of
        Ev_pbreply _ q \<Rightarrow>
          do {
            req \<leftarrow> map_of (pb_reqs st) q;
            st1 \<leftarrow>
              (if rq_type req = pbreq_state
               then do {
                 (_, s1) \<leftarrow> update_state E evdata a st;
                 Some (dbusif_reply_with_error E (rq_msg req) (Some DBUS_MAEMO_ERROR_DENIED)
                   ''state request change denied by policy'' s1)
               }
               else Some st);
            schedule_deferred_request E a (pbreq_destroy (Some q) st1)
          }
      | _ \<Rightarrow> None)"

definition fake_stop_pbreq :: "('s, 'f) penv \<Rightarrow> addr \<Rightarrow> 's pstate \<Rightarrow> 's pstate option" where
  "fake_stop_pbreq E a st =
     do {
       cl \<leftarrow> get_client st a;
       (let st1 = dbusif_send_stream_info_to_pep E ''unregister'' (cl_group cl) (cl_pid cl)
              (cl_stream cl) st
        in if client_get_state cl client_state = ''stop'' then Some st1
           else do {
             st2 \<leftarrow> update_client_fact E a ''reqstate'' (Some ''stop'')
               (upd_client a (client_save_state client_reqstate (Some ''stop'')) st1);
             map_option snd (dresif_playback_state_request E a ''stop'' 0 st2)
           })
     }"

definition check_queue :: "('s, 'f) penv \<Rightarrow> addr \<Rightarrow> 's pstate \<Rightarrow> 's pstate option" where
  "check_queue E a st = schedule_deferred_request E a st"

definition update_state_deq ::
  "('s, 'f) penv \<Rightarrow> sm_evdata \<Rightarrow> addr \<Rightarrow> 's pstate \<Rightarrow> 's pstate option" where
  "update_state_deq E evdata a st =
     do { (_, st1) \<leftarrow> update_state E evdata a st; schedule_deferred_request E a st1 }"

text \<open>\<open>update_playhint\<close> does nothing.\<close>

definition update_playhint_deq :: "('s, 'f) penv \<Rightarrow> addr \<Rightarrow> 's pstate \<Rightarrow> 's pstate option" where
  "update_playhint_deq E a st = schedule_deferred_request E a st"

definition run_transition ::
  "('s, 'f) penv \<Rightarrow> trfunc \<Rightarrow> sm_evdata \<Rightarrow> addr \<Rightarrow> 's pstate \<Rightarrow> (bool \<times> 's pstate) option" where
  "run_transition E f evdata a st =
     (case f of
        Read_property \<Rightarrow> map_option (Pair True) (read_property E a st)
      | Save_property \<Rightarrow> map_option (Pair True) (save_property E evdata a st)
      | Write_property \<Rightarrow> map_option (Pair True) (write_property E evdata a st)
      | Write_property_err \<Rightarrow> map_option (Pair True) (write_property_err E evdata a st)
      | Process_pbreq \<Rightarrow> process_pbreq E a st
      | Reply_pbreq \<Rightarrow> map_option (Pair True) (reply_pbreq E evdata a st)
      | Reply_pbreq_deq \<Rightarrow> map_option (Pair True) (reply_pbreq_deq E evdata a st)
      | Abort_pbreq_deq \<Rightarrow> map_option (Pair True) (abort_pbreq_deq E evdata a st)
      | Check_queue \<Rightarrow> map_option (Pair True) (check_queue E a st)
      | Update_state \<Rightarrow> update_state E evdata a st
      | Update_state_deq \<Rightarrow> map_option (Pair True) (update_state_deq E evdata a st)
      | Update_playhint_deq \<Rightarrow> map_option (Pair True) (update_playhint_deq E a st)
      | Fake_stop_pbreq \<Rightarrow> map_option (Pair True) (fake_stop_pbreq E a st))"

subsection \<open>Processing events\<close>

definition sm_process_event ::
  "('s, 'f) penv \<Rightarrow> addr \<Rightarrow> sm_evdata \<Rightarrow> 's pstate \<Rightarrow> (bool \<times> 's pstate) option" where
  "sm_process_event E a evdata st =
     do {
       cl \<leftarrow> get_client st a;
       (if busy (cl_sm cl) \<or> ev_id evdata = evid_invalid then Some (False, st)
        else
          (let cur = stid (cl_sm cl);
               (func, nxt) = sm_def cur (ev_id evdata);
               st1 = upd_sm a (busy_update (\<lambda>_. True)) st
           in do {
             (ok, st2) \<leftarrow> (case func of
                            None \<Rightarrow> Some (True, st1)
                          | Some f \<Rightarrow> run_transition E f evdata a st1);
             Some (True, upd_sm a (\<lambda>s. s\<lparr>stid := if ok then nxt else cur, busy := False\<rparr>) st2)
           }))
     }"

definition process :: "('s, 'f) penv \<Rightarrow> addr \<Rightarrow> sm_evdata \<Rightarrow> 's pstate \<Rightarrow> 's pstate option" where
  "process E a evdata st = map_option snd (sm_process_event E a evdata st)"

subsection \<open>Creation and destruction of clients\<close>

text \<open>\<open>sm_destroy\<close>: the event source is removed; freeing the struct is part of the client's.\<close>

definition sm_destroy :: "addr \<Rightarrow> 's pstate \<Rightarrow> (bool \<times> 's pstate) option" where
  "sm_destroy a st =
     do {
       cl \<leftarrow> get_client st a;
       Some (if busy (cl_sm cl) then (False, st)
             else (True, if sched (cl_sm cl) \<noteq> 0 then g_source_remove (sched (cl_sm cl)) st else st))
     }"

definition client_destroy :: "('s, 'f) penv \<Rightarrow> addr \<Rightarrow> 's pstate \<Rightarrow> 's pstate option" where
  "client_destroy E a st =
     do {
       st1 \<leftarrow> process E a (Ev evid_client_gone) st;
       (_, st2) \<leftarrow> sm_destroy a st1;
       cl \<leftarrow> get_client st2 a;
       st3 \<leftarrow> client_delete_factsore_entry E cl st2;
       (let st4 = dbusif_watch_client E (cl_dbusid cl) False (pbreq_purge a st3);
            st5 = (if evsrc (cl_rqsetst cl) \<noteq> 0 then g_source_remove (evsrc (cl_rqsetst cl)) st4
                   else st4);
            st6 = (if evsrc (cl_rqplayhint cl) \<noteq> 0
                   then g_source_remove (evsrc (cl_rqplayhint cl)) st5 else st5)
        in Some (st6\<lparr>pb_clients := filter (\<lambda>(k, c). k \<noteq> a) (pb_clients st6)\<rparr>))
     }"

text \<open>\<open>strrchr(object, '/')\<close> and the name of the state machine, cut to the buffer.\<close>

definition after_slash :: "string \<Rightarrow> string" where
  "after_slash s = rev (takeWhile (\<lambda>c. c \<noteq> CHR ''/'') (rev s))"

definition new_client :: "cstring \<Rightarrow> cstring \<Rightarrow> cstring \<Rightarrow> cstring \<Rightarrow> string \<Rightarrow> client" where
  "new_client dbusid object pid stream name =
     \<lparr>cl_dbusid = dbusid, cl_object = object, cl_pid = pid, cl_stream = stream, cl_group = None,
      cl_flags = 0, cl_reqstate = None, cl_state = None, cl_setstate = None,
      cl_playhint = Some ''Play'', cl_rqsetst = \<lparr>evsrc = 0, ev_value = None\<rparr>,
      cl_rqplayhint = \<lparr>evsrc = 0, ev_value = None\<rparr>,
      cl_sm = \<lparr>sm_name = name, stid = stid_invalid, busy = False, sched = 0\<rparr>\<rparr>"

definition client_create ::
  "('s, 'f) penv \<Rightarrow> string \<Rightarrow> string \<Rightarrow> cstring \<Rightarrow> cstring \<Rightarrow> 's pstate \<Rightarrow> (addr option \<times> 's pstate) option" where
  "client_create E dbusid object pid stream st =
     (case client_find_by_dbus (Some dbusid) (Some object) st of
        Some a \<Rightarrow> Some (Some a, st)
      | None \<Rightarrow>
          (case pb_alloc E st of
             (None, st1) \<Rightarrow> Some (None, st1)
           | (Some a, st1) \<Rightarrow>
               (case pb_alloc E st1 of
                  (None, st2) \<Rightarrow> Some (None, st2)
                | (Some _, st2) \<Rightarrow>
                    (let cl = new_client (Some dbusid) (Some object) pid stream
                           (take 255 (dbusid @ '':'' @ after_slash object));
                         st3 = dbusif_watch_client E (Some dbusid) True
                           (st2\<lparr>pb_clients := pb_clients st2 @ [(a, cl)]\<rparr>);
                         (ok, st4) = client_add_factstore_entry E (Some dbusid) (Some object) pid
                           stream st3
                     in if ok then Some (Some a, st4)
                        else do { st5 \<leftarrow> client_destroy E a st4; Some (None, st5) }))))"

text \<open>\<open>client_purge\<close> goes through the list and destroys every client of the D-Bus name.\<close>

fun purge_loop :: "('s, 'f) penv \<Rightarrow> string \<Rightarrow> addr list \<Rightarrow> 's pstate \<Rightarrow> 's pstate option" where
  "purge_loop E dbusid [] st = Some st"
| "purge_loop E dbusid (a # as) st =
     do {
       cl \<leftarrow> get_client st a;
       st1 \<leftarrow> (if cl_dbusid cl = Some dbusid then client_destroy E a st else Some st);
       purge_loop E dbusid as st1
     }"

definition client_purge :: "('s, 'f) penv \<Rightarrow> string \<Rightarrow> 's pstate \<Rightarrow> 's pstate option" where
  "client_purge E dbusid st = purge_loop E dbusid (map fst (pb_clients st)) st"

subsection \<open>Firing events\<close>

definition fire_scheduled_event ::
  "('s, 'f) penv \<Rightarrow> addr \<Rightarrow> sm_evdata \<Rightarrow> 's pstate \<Rightarrow> 's pstate option" where
  "fire_scheduled_event E a evdata st =
     (if get_client st a = None then None
      else process E a evdata (upd_sm a (sched_update (\<lambda>_. 0)) st))"

definition fire_setstate_changed_event :: "('s, 'f) penv \<Rightarrow> addr \<Rightarrow> 's pstate \<Rightarrow> 's pstate option" where
  "fire_setstate_changed_event E a st =
     do {
       cl \<leftarrow> get_client st a;
       (let state = client_get_state cl client_state;
            rqsetst = client_get_state cl client_rqsetst;
            st1 = upd_client a (\<lambda>c. c\<lparr>cl_rqsetst := (cl_rqsetst c)\<lparr>evsrc := 0\<rparr>\<rparr>) st
        in if rqsetst = [] then Some st1
           else if state = rqsetst
           then schedule_deferred_request E a
                  (upd_client a (client_save_state client_rqsetst None) st1)
           else process E a (Ev_watch evid_setstate_changed (Some rqsetst)) st1)
     }"

definition fire_playhint_changed_event :: "('s, 'f) penv \<Rightarrow> addr \<Rightarrow> 's pstate \<Rightarrow> 's pstate option" where
  "fire_playhint_changed_event E a st =
     do {
       cl \<leftarrow> get_client st a;
       (let playhint = client_get_playback_hint cl client_playhint;
            rqplayhint = client_get_playback_hint cl client_rqplayhint;
            st1 = upd_client a (\<lambda>c. c\<lparr>cl_rqplayhint := (cl_rqplayhint c)\<lparr>evsrc := 0\<rparr>\<rparr>) st
        in if rqplayhint = [] then Some st1
           else if playhint = rqplayhint
           then schedule_deferred_request E a
                  (upd_client a (client_save_playback_hint client_rqplayhint None) st1)
           else process E a (Ev_watch evid_playhint_changed (Some rqplayhint)) st1)
     }"

text \<open>A failed creation is dereferenced here.\<close>

definition fire_hello_signal_event ::
  "('s, 'f) penv \<Rightarrow> string \<Rightarrow> string \<Rightarrow> 's pstate \<Rightarrow> 's pstate option" where
  "fire_hello_signal_event E dbusid object st =
     do {
       (ao, st1) \<leftarrow> client_create E dbusid object None None st;
       a \<leftarrow> ao;
       process E a (Ev evid_hello_signal) st1
     }"

definition fire_client_gone_event ::
  "('s, 'f) penv \<Rightarrow> string \<Rightarrow> string \<Rightarrow> 's pstate \<Rightarrow> 's pstate option" where
  "fire_client_gone_event E dbusid object st =
     (case client_find_by_dbus (Some dbusid) (Some object) st of
        None \<Rightarrow> Some st
      | Some a \<Rightarrow> client_destroy E a st)"

definition fire_state_signal_event ::
  "('s, 'f) penv \<Rightarrow> string \<Rightarrow> string \<Rightarrow> string \<Rightarrow> string \<Rightarrow> 's pstate \<Rightarrow> 's pstate option" where
  "fire_state_signal_event E dbusid object prname valu st =
     (case client_find_by_dbus (Some dbusid) (Some object) st of
        None \<Rightarrow> Some st
      | Some a \<Rightarrow> process E a (Ev_property evid_state_signal (Some prname) (Some valu)) st)"

definition read_property_cb ::
  "('s, 'f) penv \<Rightarrow> string \<Rightarrow> string \<Rightarrow> string \<Rightarrow> string \<Rightarrow> 's pstate \<Rightarrow> 's pstate option" where
  "read_property_cb E dbusid object prname prvalue st =
     (case client_find_by_dbus (Some dbusid) (Some object) st of
        None \<Rightarrow> Some st
      | Some a \<Rightarrow> process E a (Ev_property evid_property_received (Some prname) (Some prvalue)) st)"

definition write_property_cb ::
  "('s, 'f) penv \<Rightarrow> string \<Rightarrow> string \<Rightarrow> string \<Rightarrow> string \<Rightarrow> bool \<Rightarrow> 's pstate \<Rightarrow> 's pstate option" where
  "write_property_cb E dbusid object prname prvalue success st =
     (case client_find_by_dbus (Some dbusid) (Some object) st of
        None \<Rightarrow> Some st
      | Some a \<Rightarrow>
          process E a (Ev_property (if success then evid_setprop_succeeded else evid_setprop_failed)
            (Some prname) (Some prvalue)) st)"

definition completion_cb :: "('s, 'f) penv \<Rightarrow> int \<Rightarrow> bool \<Rightarrow> 's pstate \<Rightarrow> 's pstate option" where
  "completion_cb E trid success st =
     (case pbreq_get_by_trid trid st of
        None \<Rightarrow> Some st
      | Some (q, req) \<Rightarrow>
          process E (rq_cl req)
            (Ev_pbreply (if success then evid_playback_complete else evid_playback_failed) q) st)"

end
