(* ===== verification/Playback_Media.thy ===== *)
theory Playback_Media
  imports Playback_Sm
begin

text \<open>
  The enforcement points and the media they report, \<open>src/plugins/playback/media.c\<close>, and the
  incoming half of \<open>dbusif.c\<close>: signals, method calls and replies.  A D-Bus message is given by the
  values its handler reads; \<open>None\<close> stands for arguments that do not parse.
\<close>

subsection \<open>Media of enforcement points\<close>

definition media_enum :: "string \<Rightarrow> int" where
  "media_enum m =
     (if m = ''audio_playback'' then 1
      else if m = ''video_playback'' then 2
      else if m = ''audio_recording'' then 4
      else if m = ''video_recording'' then 8
      else 0)"

definition group_request ::
  "('s, 'f) penv \<Rightarrow> string \<Rightarrow> string \<Rightarrow> string \<Rightarrow> 's pstate \<Rightarrow> (bool \<times> 's pstate) option" where
  "group_request E m grp reqstate st =
     do {
       (success, s') \<leftarrow> fsif_update_factstore_entry (pb_lib E) FACTSTORE_ACTIVE_POLICY_GROUP
         (Some [(''media'', VString (Some m)), (''group'', VString (Some grp))])
         [(''reqstate'', VString (Some reqstate))] (pb_fs st);
       (let st1 = st\<lparr>pb_fs := s'\<rparr>
        in if success \<and> media_enum m > 0
           then map_option (\<lambda>p. (success, snd p)) (dresif_group_request E (Some grp) (media_enum m) st1)
           else Some (success, st1))
     }"

definition find_enforcement_point :: "string \<Rightarrow> 's pstate \<Rightarrow> ep option" where
  "find_enforcement_point i st = find (\<lambda>e. ep_id e = i) (enforcement_points st)"

text \<open>
  The media of an enforcement point are \<open>None\<close> when its list points to freed structs; walking such
  a list has no result.
\<close>

definition insert_media ::
  "('s, 'f) penv \<Rightarrow> string \<Rightarrow> string \<Rightarrow> string \<Rightarrow> 's pstate \<Rightarrow> 's pstate option" where
  "insert_media E epid type grp st =
     (case find_enforcement_point epid st of
        None \<Rightarrow> Some st
      | Some e \<Rightarrow>
          do {
            ms \<leftarrow> ep_media e;
            Some (if \<exists>m \<in> set ms. media_type m = type \<and> media_group m = grp then st
                  else (case pb_alloc E st of
                    (None, st1) \<Rightarrow> st1
                  | (Some _, st1) \<Rightarrow>
                      st1\<lparr>enforcement_points :=
                        map (\<lambda>x. if ep_id x = epid
                                 then x\<lparr>ep_media := Some (ms @
                                   [\<lparr>media_type = type, media_group = grp\<rparr>])\<rparr> else x)
                          (enforcement_points st1)\<rparr>))
          })"

definition media_state_request ::
  "('s, 'f) penv \<Rightarrow> cstring \<Rightarrow> string \<Rightarrow> string \<Rightarrow> string \<Rightarrow> 's pstate \<Rightarrow> 's pstate option" where
  "media_state_request E epid m grp reqstate st =
     (case epid of
        None \<Rightarrow> Some st
      | Some i \<Rightarrow>
          if find_enforcement_point i st = None then Some st
          else do {
            (ok, st1) \<leftarrow> group_request E m grp reqstate st;
            (if ok then insert_media E i m grp st1 else Some st1)
          })"

definition insert_enforcement_point :: "('s, 'f) penv \<Rightarrow> string \<Rightarrow> string \<Rightarrow> 's pstate \<Rightarrow> 's pstate" where
  "insert_enforcement_point E i name st =
     (if find_enforcement_point i st \<noteq> None then st
      else (case pb_alloc E st of
              (None, st1) \<Rightarrow> st1
            | (Some _, st1) \<Rightarrow>
                st1\<lparr>enforcement_points :=
                  \<lparr>ep_id = i, ep_name = name, ep_media = Some []\<rparr> # enforcement_points st1\<rparr>))"

definition destroy_media :: "('s, 'f) penv \<Rightarrow> media \<Rightarrow> 's pstate \<Rightarrow> 's pstate option" where
  "destroy_media E m st =
     map_option snd (group_request E (media_type m) (media_group m) ''off'' st)"

fun destroy_medias :: "('s, 'f) penv \<Rightarrow> media list \<Rightarrow> 's pstate \<Rightarrow> 's pstate option" where
  "destroy_medias E [] st = Some st"
| "destroy_medias E (m # ms) st = do { st1 \<leftarrow> destroy_media E m st; destroy_medias E ms st1 }"

text \<open>The media are freed, but the enforcement point stays in the list and keeps its pointer.\<close>

definition remove_enforcement_point :: "('s, 'f) penv \<Rightarrow> string \<Rightarrow> 's pstate \<Rightarrow> 's pstate option" where
  "remove_enforcement_point E i st =
     (case find_enforcement_point i st of
        None \<Rightarrow> Some st
      | Some e \<Rightarrow>
          do {
            ms \<leftarrow> ep_media e;
            st1 \<leftarrow> destroy_medias E ms st;
            Some (st1\<lparr>enforcement_points :=
              map (\<lambda>x. if ep_id x = i \<and> ms \<noteq> [] then x\<lparr>ep_media := None\<rparr> else x)
                (enforcement_points st1)\<rparr>)
          })"

definition PULSEAUDIO_ENFORCEMENT_POINT :: string where
  "PULSEAUDIO_ENFORCEMENT_POINT = ''pulseaudio''"

text \<open>The watch on enforcement point facts; a fact without a name or an id crashes.\<close>

definition enforcement_point_cb ::
  "('s, 'f) penv \<Rightarrow> 'f option \<Rightarrow> string \<Rightarrow> watch_type \<Rightarrow> 's pstate \<Rightarrow> 's pstate option" where
  "enforcement_point_cb E entr name evnt st =
     (let get = (\<lambda>n. case snd (fsif_get_field_by_entry (pb_lib E) (pb_fs st) entr fldtype_string
                (Some n) True) of Some (VString v) \<Rightarrow> v | _ \<Rightarrow> None)
      in if name \<noteq> FACTSTORE_ENFORCEMENT_POINT then Some st
         else do {
           epnam \<leftarrow> get ''name'';
           (if epnam \<noteq> PULSEAUDIO_ENFORCEMENT_POINT then Some st
            else case evnt of
              watch_insert \<Rightarrow>
                (case get ''id'' of
                   Some epid \<Rightarrow> Some (insert_enforcement_point E epid epnam st)
                 | None \<Rightarrow> if enforcement_points st = [] \<and> fst (pb_alloc E st) = None
                           then Some (snd (pb_alloc E st)) else None)
            | watch_remove \<Rightarrow>
                (case get ''id'' of
                   Some epid \<Rightarrow> remove_enforcement_point E epid st
                 | None \<Rightarrow> if enforcement_points st = [] then Some st else None)
            | _ \<Rightarrow> Some st)
         })"

end
