(* ===== verification/Playback_Dbusif.thy ===== *)
theory Playback_Dbusif
  imports Playback_Media
begin

text \<open>
  The incoming half of \<open>src/plugins/playback/dbusif.c\<close>: signals, method calls and replies, and the
  main loop that runs the plugin.  A D-Bus message is given by the values its handler reads, \<open>None\<close>
  for arguments that do not parse.  The result of a handler tells whether the message is handled.
\<close>

subsection \<open>Signals\<close>

text \<open>The policy's information signal: sender, type, media, group and state.\<close>

definition info ::
  "('s, 'f) penv \<Rightarrow> cstring \<Rightarrow> (string \<times> string \<times> string \<times> string) option \<Rightarrow> 's pstate \<Rightarrow>
    (bool \<times> 's pstate) option" where
  "info E epid args st =
     (case args of
        None \<Rightarrow> Some (False, st)
      | Some (type, m, grp, state) \<Rightarrow>
          if type \<noteq> ''media'' then Some (False, st)
          else if m \<in> {''audio_playback'', ''audio_recording'', ''video_playback'', ''video_recording''}
              \<and> (state = ''active'' \<or> state = ''inactive'')
          then map_option (Pair True)
                 (media_state_request E epid m grp (if state = ''active'' then ''on'' else ''off'') st)
          else Some (True, st))"

text \<open>A name without an owner after the change is a client that is gone.\<close>

definition name_changed ::
  "('s, 'f) penv \<Rightarrow> (string \<times> string \<times> string) option \<Rightarrow> 's pstate \<Rightarrow> (bool \<times> 's pstate) option" where
  "name_changed E args st =
     (case args of
        None \<Rightarrow> Some (False, st)
      | Some (sender, before, after) \<Rightarrow>
          if after = [] then map_option (Pair False) (client_purge E sender st) else Some (False, st))"

definition hello ::
  "('s, 'f) penv \<Rightarrow> string \<Rightarrow> string \<Rightarrow> 's pstate \<Rightarrow> (bool \<times> 's pstate) option" where
  "hello E sender path st = map_option (Pair True) (fire_hello_signal_event E sender path st)"

definition goodbye ::
  "('s, 'f) penv \<Rightarrow> string \<Rightarrow> string \<Rightarrow> 's pstate \<Rightarrow> (bool \<times> 's pstate) option" where
  "goodbye E sender path st = map_option (Pair True) (fire_client_gone_event E sender path st)"

definition DBUS_PLAYBACK_INTERFACE :: string where
  "DBUS_PLAYBACK_INTERFACE = ''org.maemo.Playback''"

text \<open>The registry of property notifications, filled by \<open>sm_init\<close>.\<close>

definition add_property_notification :: "string \<Rightarrow> string list \<Rightarrow> string list" where
  "add_property_notification prname reg = (if prname \<in> set reg then reg else reg @ [prname])"

definition find_property_notifier :: "string \<Rightarrow> string list \<Rightarrow> string option" where
  "find_property_notifier prname reg = find (\<lambda>n. prname = n) reg"

definition notif_reg :: "string list" where
  "notif_reg = add_property_notification ''State'' []"

definition notify ::
  "('s, 'f) penv \<Rightarrow> string \<Rightarrow> string \<Rightarrow> (string \<times> string \<times> string) option \<Rightarrow> 's pstate \<Rightarrow>
    (bool \<times> 's pstate) option" where
  "notify E dbusid object args st =
     (if client_find_by_dbus (Some dbusid) (Some object) st = None then Some (True, st)
      else case args of
        None \<Rightarrow> Some (True, st)
      | Some (iface, prop, valu) \<Rightarrow>
          if iface = DBUS_PLAYBACK_INTERFACE \<and> find_property_notifier prop notif_reg \<noteq> None
          then map_option (Pair True) (fire_state_signal_event E dbusid object prop valu st)
          else Some (True, st))"

subsection \<open>Method calls\<close>

datatype pb_method =
    Req_state "(string \<times> string \<times> string \<times> string) option"
  | Req_privacy "bool option"
  | Req_bluetooth "bool option"
  | Req_mute "bool option"
  | Get_allowed "string option"
  | Get_privacy
  | Get_bluetooth
  | Get_mute
  | Other_method

text \<open>A state request: object path, new state, pid and stream.\<close>

definition request_state ::
  "('s, 'f) penv \<Rightarrow> nat \<Rightarrow> string \<Rightarrow> (string \<times> string \<times> string \<times> string) option \<Rightarrow> 's pstate \<Rightarrow>
    's pstate option" where
  "request_state E msg sender args st =
     (case args of
        None \<Rightarrow>
          Some (dbusif_reply_with_error E msg None
            ''failed to parse playback request for state change'' st)
      | Some (objpath, new_state, pid, stream) \<Rightarrow>
          (case client_find_by_dbus (Some sender) (Some objpath) st of
             None \<Rightarrow> Some (dbusif_reply_with_error E msg None ''unable to find playback object'' st)
           | Some a \<Rightarrow>
               (case pbreq_create E a msg st of
                  (None, st1) \<Rightarrow>
                    Some (dbusif_reply_with_error E msg None ''internal server error'' st1)
                | (Some q, st1) \<Rightarrow>
                    process E a (Ev evid_playback_request)
                      (upd_req q (\<lambda>r. r\<lparr>rq_type := pbreq_state, rq_name := Some new_state,
                         rq_pid := Some pid, rq_stream := if stream = [] then None else Some stream\<rparr>)
                         st1))))"

text \<open>The answer to a request that the resolver decides at once.\<close>

definition reply_policy ::
  "('s, 'f) penv \<Rightarrow> nat \<Rightarrow> string \<Rightarrow> (bool \<times> 's pstate) option option \<Rightarrow> 's pstate \<Rightarrow> 's pstate option" where
  "reply_policy E msg errmsg result st =
     (case result of
        None \<Rightarrow> Some (dbusif_reply_with_error E msg None errmsg st)
      | Some r \<Rightarrow>
          do {
            (ok, st1) \<leftarrow> r;
            Some (if ok then dbusif_reply E msg st1
                  else dbusif_reply_with_error E msg (Some DBUS_MAEMO_ERROR_FAILED) ''Policy error'' st1)
          })"

definition get_allowed ::
  "('s, 'f) penv \<Rightarrow> nat \<Rightarrow> string \<Rightarrow> string option \<Rightarrow> 's pstate \<Rightarrow> 's pstate option" where
  "get_allowed E msg sender args st =
     (case args of
        None \<Rightarrow>
          Some (dbusif_reply_with_error E msg None
            ''failed to parse playback request for allowed state'' st)
      | Some objpath \<Rightarrow>
          (case client_find_by_dbus (Some sender) (Some objpath) st of
             None \<Rightarrow> Some (dbusif_reply_with_error E msg None ''unable to find playback object'' st)
           | Some a \<Rightarrow>
               do {
                 cl \<leftarrow> get_client st a;
                 Some (snd (pb_send E (Reply_allowed msg (''Stop'' #
                   (case cl_playhint cl of None \<Rightarrow> []
                    | Some h \<Rightarrow> if h \<noteq> ''Stop'' then [h] else []))) st))
               }))"

definition field_by_name ::
  "('s, 'f) penv \<Rightarrow> string \<Rightarrow> fldtype \<Rightarrow> 's pstate \<Rightarrow> fvalue option option" where
  "field_by_name E name type st =
     (let (ok, v) = fsif_get_field_by_name (pb_lib E) (pb_fs st) (Some name) type (Some ''value'') True
      in if ok then Some v else None)"

definition policy_error :: "('s, 'f) penv \<Rightarrow> nat \<Rightarrow> 's pstate \<Rightarrow> 's pstate" where
  "policy_error E msg st =
     dbusif_reply_with_error E msg (Some DBUS_MAEMO_ERROR_FAILED) ''Policy error'' st"

definition get_privacy :: "('s, 'f) penv \<Rightarrow> nat \<Rightarrow> 's pstate \<Rightarrow> 's pstate option" where
  "get_privacy E msg st =
     (case field_by_name E FACTSTORE_PRIVACY fldtype_string st of
        None \<Rightarrow> Some (policy_error E msg st)
      | Some v \<Rightarrow>
          (let state = (case v of Some (VString (Some p)) \<Rightarrow> if p \<noteq> ''default'' then 1 else 0
                        | _ \<Rightarrow> 0)
           in Some (dbusif_signal_privacy_override E state (dbusif_reply E msg st))))"

definition get_bluetooth :: "('s, 'f) penv \<Rightarrow> nat \<Rightarrow> 's pstate \<Rightarrow> 's pstate option" where
  "get_bluetooth E msg st =
     (case field_by_name E FACTSTORE_BLUETOOTH fldtype_string st of
        None \<Rightarrow> Some (policy_error E msg st)
      | Some (Some (VString (Some b))) \<Rightarrow>
          Some (dbusif_signal_bluetooth_override E (bluetooth_state b) (dbusif_reply E msg st))
      | Some _ \<Rightarrow> None)"

definition get_mute :: "('s, 'f) penv \<Rightarrow> nat \<Rightarrow> 's pstate \<Rightarrow> 's pstate option" where
  "get_mute E msg st =
     (case field_by_name E FACTSTORE_GENERAL_MUTE fldtype_integer st of
        None \<Rightarrow> Some (policy_error E msg st)
      | Some (Some (VInteger i)) \<Rightarrow>
          Some (dbusif_signal_mute E (sint (word_of_int i :: u32)) (dbusif_reply E msg st))
      | Some _ \<Rightarrow> None)"

text \<open>The queries of the override states answer, but then report the message as not handled.\<close>

definition method_call ::
  "('s, 'f) penv \<Rightarrow> nat \<Rightarrow> string \<Rightarrow> pb_method \<Rightarrow> 's pstate \<Rightarrow> (bool \<times> 's pstate) option" where
  "method_call E msg sender m st =
     (case m of
        Req_state args \<Rightarrow> map_option (Pair True) (request_state E msg sender args st)
      | Req_privacy args \<Rightarrow>
          map_option (Pair True)
            (reply_policy E msg ''failed to parse set privacy override message''
              (map_option (\<lambda>b. dresif_privacy_override_request E b st) args) st)
      | Req_bluetooth args \<Rightarrow>
          map_option (Pair True)
            (reply_policy E msg ''failed to parse set bluetooth override message''
              (map_option (\<lambda>b. dresif_bluetooth_override_request E b st) args) st)
      | Req_mute args \<Rightarrow>
          map_option (Pair True)
            (reply_policy E msg ''failed to parse set mute message''
              (map_option (\<lambda>b. dresif_mute_request E (if b then 1 else 0) st) args) st)
      | Get_allowed args \<Rightarrow> map_option (Pair True) (get_allowed E msg sender args st)
      | Get_privacy \<Rightarrow> map_option (Pair False) (get_privacy E msg st)
      | Get_bluetooth \<Rightarrow> map_option (Pair False) (get_bluetooth E msg st)
      | Get_mute \<Rightarrow> map_option (Pair False) (get_mute E msg st)
      | Other_method \<Rightarrow> Some (False, st))"

subsection \<open>Replies to the plugin's own calls\<close>

datatype get_reply = Reply_is_error | Reply_malformed | Reply_value string

definition get_property_cb ::
  "('s, 'f) penv \<Rightarrow> string \<Rightarrow> string \<Rightarrow> string \<Rightarrow> get_reply \<Rightarrow> 's pstate \<Rightarrow> 's pstate option" where
  "get_property_cb E dbusid object prname rply st =
     (if client_find_by_dbus (Some dbusid) (Some object) st = None then Some st
      else case rply of
        Reply_value v \<Rightarrow> read_property_cb E dbusid object prname v st
      | _ \<Rightarrow> Some st)"

definition set_property_cb ::
  "('s, 'f) penv \<Rightarrow> string \<Rightarrow> string \<Rightarrow> string \<Rightarrow> string \<Rightarrow> bool \<Rightarrow> 's pstate \<Rightarrow> 's pstate option" where
  "set_property_cb E dbusid object prname prvalue success st =
     (if client_find_by_dbus (Some dbusid) (Some object) st = None then Some st
      else write_property_cb E dbusid object prname prvalue success st)"

subsection \<open>The main loop\<close>

text \<open>Everything that can happen next: a message, a reply, an idle source, a completed policy
  transaction, or a fact changed or enforcement point come and gone elsewhere.\<close>

datatype 'f pb_event =
    On_info cstring "(string \<times> string \<times> string \<times> string) option"
  | On_name_changed "(string \<times> string \<times> string) option"
  | On_hello string string
  | On_goodbye string string
  | On_notify string string "(string \<times> string \<times> string) option"
  | On_method nat string pb_method
  | On_get_reply nat get_reply
  | On_set_reply nat bool
  | On_idle u32
  | On_completion int bool
  | On_fact "'f pb_change"
  | On_enforcement_point "'f option" string watch_type

definition idle_source :: "('s, 'f) penv \<Rightarrow> pb_task \<Rightarrow> 's pstate \<Rightarrow> 's pstate option" where
  "idle_source E t st =
     (case t of
        Fire_scheduled a evdata \<Rightarrow> fire_scheduled_event E a evdata st
      | Fire_setstate a \<Rightarrow> fire_setstate_changed_event E a st
      | Fire_playhint a \<Rightarrow> fire_playhint_changed_event E a st)"

definition pb_step :: "('s, 'f) penv \<Rightarrow> 'f pb_event \<Rightarrow> 's pstate \<Rightarrow> 's pstate option" where
  "pb_step E e st =
     (case e of
        On_info epid args \<Rightarrow> map_option snd (info E epid args st)
      | On_name_changed args \<Rightarrow> map_option snd (name_changed E args st)
      | On_hello sender path \<Rightarrow> map_option snd (hello E sender path st)
      | On_goodbye sender path \<Rightarrow> map_option snd (goodbye E sender path st)
      | On_notify sender path args \<Rightarrow> map_option snd (notify E sender path args st)
      | On_method msg sender m \<Rightarrow> map_option snd (method_call E msg sender m st)
      | On_get_reply i rply \<Rightarrow>
          (if i < length (pb_pending st)
           then (let st1 = st\<lparr>pb_pending := take i (pb_pending st) @ drop (Suc i) (pb_pending st)\<rparr>
                 in case pb_pending st ! i of
                      Get_pending d p n \<Rightarrow> get_property_cb E d p n rply st1
                    | Set_pending _ _ _ _ \<Rightarrow> Some st)
           else Some st)
      | On_set_reply i ok \<Rightarrow>
          (if i < length (pb_pending st)
           then (let st1 = st\<lparr>pb_pending := take i (pb_pending st) @ drop (Suc i) (pb_pending st)\<rparr>
                 in case pb_pending st ! i of
                      Set_pending d p n v \<Rightarrow> set_property_cb E d p n v ok st1
                    | Get_pending _ _ _ \<Rightarrow> Some st)
           else Some st)
      | On_idle i \<Rightarrow>
          (case map_of (pb_idle st) i of
             None \<Rightarrow> Some st
           | Some t \<Rightarrow> idle_source E t (g_source_remove i st))
      | On_completion trid ok \<Rightarrow> completion_cb E trid ok st
      | On_fact ch \<Rightarrow> pb_fact_changed E ch st
      | On_enforcement_point entr name w \<Rightarrow> enforcement_point_cb E entr name w st)"

definition pb_init :: "'s \<Rightarrow> 's pstate" where
  "pb_init s = \<lparr>pb_fs = s, pb_clients = [], pb_reqs = [], pb_trid = 1, pb_txid = 1, pb_idle = [],
     pb_pending = [], enforcement_points = [], pb_nalloc = 0, pb_log = []\<rparr>"

text \<open>
  A completion arrives for a request that the resolver has accepted: the callback is registered with
  the request and the signaling plugin calls it once, from an idle task of its own.
\<close>

definition pb_allowed :: "'f pb_event \<Rightarrow> 's pstate \<Rightarrow> bool" where
  "pb_allowed e st \<longleftrightarrow>
     (case e of
        On_completion trid ok \<Rightarrow>
          (case pbreq_get_by_trid trid st of None \<Rightarrow> True | Some (q, r) \<Rightarrow> rq_waiting r)
      | _ \<Rightarrow> True)"

text \<open>The states the plugin can be in.\<close>

inductive pb_reachable :: "('s, 'f) penv \<Rightarrow> 's \<Rightarrow> 's pstate \<Rightarrow> bool" for E s0 where
  init: "pb_reachable E s0 (pb_init s0)"
| step: "pb_reachable E s0 st \<Longrightarrow> pb_allowed e st \<Longrightarrow> pb_step E e st = Some st' \<Longrightarrow>
    pb_reachable E s0 st'"

end
