(* ===== verification/Option_Post.thy ===== *)
theory Option_Post
  imports Main "HOL-Library.Monad_Syntax"
begin

text \<open>
  Partial correctness of computations in the option monad: \<open>post P m\<close> says that every result of
  \<open>m\<close> satisfies \<open>P\<close>.  The rules follow the syntax of the program, so that a proof about an
  operation applies them with \<open>rule\<close> and uses one rule per operation it calls, collected in
  \<open>post_ops\<close>.
\<close>

definition post :: "('a \<Rightarrow> bool) \<Rightarrow> 'a option \<Rightarrow> bool" where
  "post P m \<longleftrightarrow> (\<forall>x. m = Some x \<longrightarrow> P x)"

named_theorems post_rules \<open>rules for the constructs of the option monad\<close>
named_theorems post_ops \<open>one rule per operation\<close>

lemma postD: "post P m \<Longrightarrow> m = Some x \<Longrightarrow> P x"
  by (simp add: post_def)

lemma postI: "(\<And>x. m = Some x \<Longrightarrow> P x) \<Longrightarrow> post P m"
  by (simp add: post_def)

lemma post_mono: "post P m \<Longrightarrow> (\<And>x. P x \<Longrightarrow> Q x) \<Longrightarrow> post Q m"
  by (simp add: post_def)

lemma post_Some [post_rules]: "P x \<Longrightarrow> post P (Some x)"
  by (simp add: post_def)

lemma post_None [post_rules]: "post P None"
  by (simp add: post_def)

lemma post_any: "post (\<lambda>_. True) m"
  by (simp add: post_def)

lemma post_bind:
  "post Q m \<Longrightarrow> (\<And>x. m = Some x \<Longrightarrow> Q x \<Longrightarrow> post P (f x)) \<Longrightarrow> post P (m \<bind> f)"
  by (cases m) (simp_all add: post_def)

text \<open>A computation that returns a value beside the state.\<close>

lemma post_bind_pair:
  "post (\<lambda>p. Q (snd p)) m \<Longrightarrow> (\<And>x y. m = Some (x, y) \<Longrightarrow> Q y \<Longrightarrow> post P (f x y)) \<Longrightarrow>
    post P (m \<bind> (\<lambda>(x, y). f x y))"
  by (cases m) (auto simp: post_def)

lemma post_if [post_rules]:
  "(b \<Longrightarrow> post P m) \<Longrightarrow> (\<not> b \<Longrightarrow> post P n) \<Longrightarrow> post P (if b then m else n)"
  by simp

lemma post_option [post_rules]:
  "(x = None \<Longrightarrow> post P m) \<Longrightarrow> (\<And>y. x = Some y \<Longrightarrow> post P (f y)) \<Longrightarrow>
    post P (case x of None \<Rightarrow> m | Some y \<Rightarrow> f y)"
  by (cases x) simp_all

lemma post_prod [post_rules]:
  "(\<And>a b. p = (a, b) \<Longrightarrow> post P (f a b)) \<Longrightarrow> post P (case p of (a, b) \<Rightarrow> f a b)"
  by (cases p) simp

lemma post_Let [post_rules]: "(\<And>y. y = x \<Longrightarrow> post P (f y)) \<Longrightarrow> post P (let y = x in f y)"
  by simp

lemma post_map_option [post_rules]: "post (\<lambda>x. P (f x)) m \<Longrightarrow> post P (map_option f m)"
  by (auto simp: post_def)

text \<open>Total correctness: the computation has a result, which satisfies \<open>P\<close>.\<close>

definition returns :: "('a \<Rightarrow> bool) \<Rightarrow> 'a option \<Rightarrow> bool" where
  "returns P m \<longleftrightarrow> (\<exists>x. m = Some x \<and> P x)"

lemma returnsE: "returns P m \<Longrightarrow> (\<And>x. m = Some x \<Longrightarrow> P x \<Longrightarrow> Q) \<Longrightarrow> Q"
  by (auto simp: returns_def)

lemma returnsD: "returns P m \<Longrightarrow> m = Some x \<Longrightarrow> P x"
  by (simp add: returns_def)

lemma returns_Some [simp]: "returns P (Some x) = P x"
  by (simp add: returns_def)

lemma returns_map_option [simp]: "returns P (map_option f m) = returns (\<lambda>x. P (f x)) m"
  by (auto simp: returns_def)

lemma returns_bind: "returns Q m \<Longrightarrow> (\<And>x. m = Some x \<Longrightarrow> Q x \<Longrightarrow> returns P (f x)) \<Longrightarrow> returns P (m \<bind> f)"
  by (auto simp: returns_def)

lemma returns_mono: "returns P m \<Longrightarrow> (\<And>x. m = Some x \<Longrightarrow> P x \<Longrightarrow> Q x) \<Longrightarrow> returns Q m"
  by (auto simp: returns_def)

subsection \<open>Outcomes\<close>

text \<open>A computation either has a result that satisfies \<open>P\<close>, or it crashes, and then \<open>H\<close> tells why.\<close>

definition outcome :: "bool \<Rightarrow> ('a \<Rightarrow> bool) \<Rightarrow> 'a option \<Rightarrow> bool" where
  "outcome H P m \<longleftrightarrow> (case m of None \<Rightarrow> H | Some x \<Rightarrow> P x)"

lemma outcome_Some [simp]: "outcome H P (Some x) = P x"
  by (simp add: outcome_def)

lemma outcome_None [simp]: "outcome H P None = H"
  by (simp add: outcome_def)

lemma outcome_map_option [simp]: "outcome H P (map_option f m) = outcome H (\<lambda>x. P (f x)) m"
  by (simp add: outcome_def split: option.split)

lemma outcome_returns: "returns P m \<Longrightarrow> outcome H P m"
  by (auto simp: outcome_def elim: returnsE)

lemma outcome_bind:
  "outcome H Q m \<Longrightarrow> (\<And>x. m = Some x \<Longrightarrow> Q x \<Longrightarrow> outcome H P (f x)) \<Longrightarrow> outcome H P (m \<bind> f)"
  by (auto simp: outcome_def split: option.splits)

lemma outcome_mono: "outcome H P m \<Longrightarrow> (\<And>x. P x \<Longrightarrow> Q x) \<Longrightarrow> outcome H Q m"
  by (auto simp: outcome_def split: option.splits)

lemma outcome_weaken: "outcome H P m \<Longrightarrow> (H \<Longrightarrow> H') \<Longrightarrow> outcome H' P m"
  by (auto simp: outcome_def split: option.splits)

lemma outcome_if: "(b \<Longrightarrow> outcome H P m) \<Longrightarrow> (\<not> b \<Longrightarrow> outcome H P n) \<Longrightarrow> outcome H P (if b then m else n)"
  by simp

lemma outcome_option:
  "(x = None \<Longrightarrow> outcome H P m) \<Longrightarrow> (\<And>y. x = Some y \<Longrightarrow> outcome H P (f y)) \<Longrightarrow>
    outcome H P (case x of None \<Rightarrow> m | Some y \<Rightarrow> f y)"
  by (cases x) simp_all

subsection \<open>Loops over a list\<close>

text \<open>A loop over a list whose body may fail; the rest of the list is then not looked at.\<close>

fun foldM :: "('a \<Rightarrow> 's \<Rightarrow> 's option) \<Rightarrow> 'a list \<Rightarrow> 's \<Rightarrow> 's option" where
  "foldM f [] s = Some s"
| "foldM f (x # xs) s = f x s \<bind> foldM f xs"

lemma foldM_mono [partial_function_mono]:
  assumes "\<And>x s. mono_option (\<lambda>f. F f x s)"
  shows "mono_option (\<lambda>f. foldM (F f) xs s)"
proof (induction xs arbitrary: s)
  case (Cons x xs)
  show ?case unfolding foldM.simps by (rule bind_mono [OF assms Cons.IH])
qed (simp add: monotone_def option.leq_refl)

lemma foldM_post:
  assumes "\<And>x s. P s \<Longrightarrow> x \<in> set xs \<Longrightarrow> post P (f x s)" and "P s"
  shows "post P (foldM f xs s)"
  using assms
proof (induction xs arbitrary: s)
  case (Cons x xs)
  show ?case unfolding foldM.simps
    by (rule post_bind [where Q = P]) (use Cons in auto)
qed (simp add: post_Some)

lemma foldM_returns:
  assumes "\<And>x s. P s \<Longrightarrow> x \<in> set xs \<Longrightarrow> returns P (f x s)" and "P s"
  shows "returns P (foldM f xs s)"
  using assms
proof (induction xs arbitrary: s)
  case (Cons x xs)
  show ?case unfolding foldM.simps
    by (rule returns_bind [where Q = P]) (use Cons in auto)
qed simp

lemma foldM_outcome:
  assumes "\<And>x s. P s \<Longrightarrow> x \<in> set xs \<Longrightarrow> outcome H P (f x s)" and "P s"
  shows "outcome H P (foldM f xs s)"
  using assms
proof (induction xs arbitrary: s)
  case (Cons x xs)
  show ?case unfolding foldM.simps
    by (rule outcome_bind [where Q = P]) (use Cons in auto)
qed simp

end
