(* ===== verification/Playback_Inv.thy ===== *)
theory Playback_Inv
  imports Playback_Dbusif Option_Post
begin

text \<open>
  What the playback plugin keeps true while it runs, and what follows for its clients.
\<close>

subsection \<open>What most operations leave alone\<close>

text \<open>The clients with their states, the queued requests, and the scheduled replies.\<close>

definition core_client :: "addr \<times> client \<Rightarrow> addr \<times> cstring \<times> cstring \<times> sm_stid \<times> bool" where
  "core_client p = (fst p, cl_dbusid (snd p), cl_object (snd p), stid (cl_sm (snd p)),
     busy (cl_sm (snd p)))"

fun reply_task :: "u32 \<times> pb_task \<Rightarrow> (addr \<times> addr) option" where
  "reply_task (i, Fire_scheduled a (Ev_pbreply _ q)) = Some (a, q)"
| "reply_task _ = None"

definition rtasks :: "'s pstate \<Rightarrow> (addr \<times> addr) list" where
  "rtasks st = List.map_filter reply_task (pb_idle st)"

text \<open>The events the state machine schedules for itself.\<close>

fun sched_event :: "sm_evdata \<Rightarrow> bool" where
  "sched_event (Ev i) \<longleftrightarrow> i = evid_playback_request \<or> i = evid_setup_complete"
| "sched_event (Ev_property i _ _) \<longleftrightarrow> i = evid_setprop_succeeded"
| "sched_event (Ev_watch i _) \<longleftrightarrow> i = evid_setup_state_denied"
| "sched_event (Ev_pbreply i _) \<longleftrightarrow> i = evid_playback_complete \<or> i = evid_playback_failed"

text \<open>A scheduled event belongs to a client that knows its source.\<close>

definition sched_ok :: "'s pstate \<Rightarrow> bool" where
  "sched_ok st \<longleftrightarrow>
     (\<forall>i a ev. (i, Fire_scheduled a ev) \<in> set (pb_idle st) \<longrightarrow>
        i \<noteq> 0 \<and> sched_event ev \<and> (\<exists>cl. get_client st a = Some cl \<and> sched (cl_sm cl) = i))"

definition calm :: "'s pstate \<Rightarrow> 's pstate \<Rightarrow> bool" where
  "calm st st' \<longleftrightarrow>
     map core_client (pb_clients st') = map core_client (pb_clients st) \<and>
     pb_reqs st' = pb_reqs st \<and> pb_trid st' = pb_trid st \<and> pb_nalloc st \<le> pb_nalloc st' \<and>
     rtasks st' = rtasks st \<and> (sched_ok st \<longrightarrow> sched_ok st')"

lemma calm_refl [simp]: "calm st st"
  by (simp add: calm_def)

lemma calm_trans: "calm st1 st2 \<Longrightarrow> calm st2 st3 \<Longrightarrow> calm st1 st3"
  by (auto simp: calm_def)

lemma get_client_upd:
  "get_client (upd_client a f st) b =
    (if b = a then map_option f (get_client st a) else get_client st b)"
proof -
  have "map_of (map (\<lambda>(k, c). (k, if k = a then f c else c)) cs) b =
      (if b = a then map_option f (map_of cs a) else map_of cs b)" for cs
    by (induction cs) auto
  then show ?thesis by (simp add: get_client_def upd_client_def)
qed

lemma upd_client_frame [simp]:
  "pb_reqs (upd_client a f st) = pb_reqs st" "pb_trid (upd_client a f st) = pb_trid st"
  "pb_nalloc (upd_client a f st) = pb_nalloc st" "pb_idle (upd_client a f st) = pb_idle st"
  "pb_fs (upd_client a f st) = pb_fs st" "pb_log (upd_client a f st) = pb_log st"
  "rtasks (upd_client a f st) = rtasks st"
  by (simp_all add: upd_client_def rtasks_def)

lemma calm_upd_client:
  assumes "calm s0 st"
    and "\<And>c. cl_dbusid (f c) = cl_dbusid c \<and> cl_object (f c) = cl_object c \<and>
      stid (cl_sm (f c)) = stid (cl_sm c) \<and> busy (cl_sm (f c)) = busy (cl_sm c) \<and>
      sched (cl_sm (f c)) = sched (cl_sm c)"
  shows "calm s0 (upd_client a f st)"
proof -
  have "core_client (case p of (k, c) \<Rightarrow> (k, if k = a then f c else c)) = core_client p" for p
    using assms(2) by (cases p) (simp add: core_client_def)
  then have "map core_client (pb_clients (upd_client a f st)) = map core_client (pb_clients st)"
    by (simp add: upd_client_def)
  moreover have "\<exists>cl. get_client (upd_client a f st) b = Some cl \<and> sched (cl_sm cl) = i"
    if "\<exists>cl. get_client st b = Some cl \<and> sched (cl_sm cl) = i" for b i
    using that assms(2) by (auto simp: get_client_upd)
  then have "sched_ok (upd_client a f st)" if "sched_ok st"
    using that by (simp add: sched_ok_def)
  ultimately show ?thesis using assms(1) by (simp add: calm_def)
qed

lemma calm_frame:
  assumes "calm s0 st" and "pb_clients st' = pb_clients st" and "pb_reqs st' = pb_reqs st"
    and "pb_trid st' = pb_trid st" and "pb_idle st' = pb_idle st" and "pb_nalloc st \<le> pb_nalloc st'"
  shows "calm s0 st'"
proof -
  have "rtasks st' = rtasks st" using assms(5) by (simp add: rtasks_def)
  moreover have "sched_ok st' = sched_ok st"
    using assms(2,5) by (simp add: sched_ok_def get_client_def)
  ultimately show ?thesis using assms unfolding calm_def by simp
qed


lemma calm_pb_fs: "calm s0 st \<Longrightarrow> calm s0 (st\<lparr>pb_fs := s\<rparr>)"
  by (rule calm_frame [where st = st]) simp_all

lemma calm_pending: "calm s0 st \<Longrightarrow> calm s0 (st\<lparr>pb_pending := ps\<rparr>)"
  by (rule calm_frame [where st = st]) simp_all

lemma calm_eps: "calm s0 st \<Longrightarrow> calm s0 (st\<lparr>enforcement_points := ps\<rparr>)"
  by (rule calm_frame [where st = st]) simp_all

lemma calm_alloc: "calm s0 st \<Longrightarrow> pb_alloc E st = (m, st') \<Longrightarrow> calm s0 st'"
  by (rule calm_frame [where st = st]) (auto simp: pb_alloc_def)

lemma calm_note: "calm s0 st \<Longrightarrow> calm s0 (pb_note m st)"
  by (rule calm_frame [where st = st]) (simp_all add: pb_note_def)

lemma calm_send: "calm s0 st \<Longrightarrow> calm s0 (snd (pb_send E m st))"
  by (simp add: pb_send_def calm_note)

lemma calm_senders:
  assumes "calm s0 st"
  shows "calm s0 (dbusif_watch_client E d w st)" "calm s0 (dbusif_reply_to_req_state E msg s st)"
    "calm s0 (dbusif_reply E msg st)" "calm s0 (dbusif_reply_with_error E msg err d' st)"
    "calm s0 (dbusif_signal_privacy_override E i st)"
    "calm s0 (dbusif_signal_bluetooth_override E i st)" "calm s0 (dbusif_signal_mute E i st)"
  using calm_send [OF assms]
  by (simp_all add: dbusif_watch_client_def dbusif_reply_to_req_state_def dbusif_reply_def
      dbusif_reply_with_error_def dbusif_signal_privacy_override_def
      dbusif_signal_bluetooth_override_def dbusif_signal_mute_def)

lemma calm_txid: "calm s0 st \<Longrightarrow> calm s0 (st\<lparr>pb_txid := x\<rparr>)"
  by (rule calm_frame [where st = st]) simp_all

lemma calm_stream_info:
  assumes "calm s0 st"
  shows "calm s0 (dbusif_send_stream_info_to_pep E oper grp pid stream st)"
proof (cases "grp = None \<or> pid = None")
  case True
  then show ?thesis
    using assms by (auto simp: dbusif_send_stream_info_to_pep_def split: option.split)
next
  case False
  then obtain g p where gp: "grp = Some g" "pid = Some p" by auto
  show ?thesis
    unfolding dbusif_send_stream_info_to_pep_def gp option.case Let_def split_beta
    by (simp add: assms calm_send calm_txid)
qed

lemma rtasks_append [simp]:
  "rtasks (st\<lparr>pb_idle := ts @ [t]\<rparr>) =
    rtasks (st\<lparr>pb_idle := ts\<rparr>) @ (case reply_task t of None \<Rightarrow> [] | Some p \<Rightarrow> [p])"
  by (simp add: rtasks_def map_filter_def split: option.split)

lemma rtasks_idle [simp]: "rtasks (st\<lparr>pb_idle := pb_idle st\<rparr>) = rtasks st"
  by (simp add: rtasks_def)

lemma calm_idle_add:
  assumes "calm s0 st" and "t = Fire_setstate a \<or> t = Fire_playhint a"
  shows "calm s0 (snd (g_idle_add E t st))"
proof (cases "pb_idle_add E (pb_idle st) = 0")
  case True
  then show ?thesis using assms(1) by (simp add: g_idle_add_def)
next
  case False
  let ?s = "st\<lparr>pb_idle := pb_idle st @ [(pb_idle_add E (pb_idle st), t)]\<rparr>"
  have "rtasks ?s = rtasks st" using assms(2) by auto
  moreover have "sched_ok ?s" if "sched_ok st"
    using that assms(2) by (auto simp: sched_ok_def get_client_def)
  ultimately have "calm st ?s" by (simp add: calm_def)
  then have "calm s0 ?s" by (rule calm_trans [OF assms(1)])
  then show ?thesis using False by (simp add: g_idle_add_def Let_def)
qed

text \<open>Updates of the fact store through the client.\<close>

lemma post_calm_update [post_ops]:
  "calm s0 st \<Longrightarrow> post (calm s0) (client_update_factstore_entry E cl fld st)"
  unfolding client_update_factstore_entry_def
  by (rule post_rules post_bind [OF post_any] calm_pb_fs | assumption)+

lemma post_calm_update_fact [post_ops]:
  "calm s0 st \<Longrightarrow> post (calm s0) (update_client_fact E a n v st)"
  unfolding update_client_fact_def
  by (rule post_ops post_rules post_bind [OF post_any] | assumption)+

lemma post_calm_delete [post_ops]:
  "calm s0 st \<Longrightarrow> post (calm s0) (client_delete_factsore_entry E cl st)"
  unfolding client_delete_factsore_entry_def
  by (rule post_rules post_bind [OF post_any] calm_pb_fs | assumption)+

lemma calm_alloc_snd: "calm s0 st \<Longrightarrow> calm s0 (snd (pb_alloc E st))"
  by (metis calm_alloc prod.collapse)

lemma post_calm_property [post_ops]:
  assumes "calm s0 st"
  shows "post (calm s0) (dbusif_get_property E d p n st)"
    and "post (calm s0) (dbusif_set_property E d p n v st)"
  using calm_alloc_snd [OF assms, of E]
  unfolding dbusif_get_property_def dbusif_set_property_def
  by (auto simp: post_def bind_eq_Some_conv Let_def split_beta calm_send calm_pending
      split: option.splits if_splits)

lemma post_calm_client_property [post_ops]:
  "calm s0 st \<Longrightarrow> post (calm s0) (client_get_property E a n st)"
  "calm s0 st \<Longrightarrow> post (calm s0) (client_set_property E a n v st)"
  unfolding client_get_property_def client_set_property_def
  by (rule post_ops post_rules post_bind [OF post_any] | assumption)+
subsection \<open>Scheduling\<close>

lemma core_upd_client:
  assumes "\<And>c. cl_dbusid (f c) = cl_dbusid c \<and> cl_object (f c) = cl_object c \<and>
      stid (cl_sm (f c)) = stid (cl_sm c) \<and> busy (cl_sm (f c)) = busy (cl_sm c)"
  shows "map core_client (pb_clients (upd_client a f st)) = map core_client (pb_clients st)"
proof -
  have "core_client (case p of (k, c) \<Rightarrow> (k, if k = a then f c else c)) = core_client p" for p
    using assms by (cases p) (simp add: core_client_def)
  then show ?thesis by (simp add: upd_client_def)
qed

lemma sched_okD:
  "sched_ok st \<Longrightarrow> (i, Fire_scheduled a ev) \<in> set (pb_idle st) \<Longrightarrow>
    i \<noteq> 0 \<and> sched_event ev \<and> (\<exists>cl. get_client st a = Some cl \<and> sched (cl_sm cl) = i)"
  by (simp add: sched_ok_def)

text \<open>The source of a client without scheduled events can be set freely.\<close>

lemma sched_ok_set:
  assumes "sched_ok st" and "\<And>i ev. (i, Fire_scheduled a ev) \<notin> set (pb_idle st)"
  shows "sched_ok (upd_sm a f st)"
  unfolding sched_ok_def upd_sm_def upd_client_frame
proof (intro allI impI)
  fix i b ev assume t: "(i, Fire_scheduled b ev) \<in> set (pb_idle st)"
  with assms(2) have "b \<noteq> a" by auto
  then show "i \<noteq> 0 \<and> sched_event ev \<and>
      (\<exists>cl. get_client (upd_client a (cl_sm_update f) st) b = Some cl \<and> sched (cl_sm cl) = i)"
    using sched_okD [OF assms(1) t] by (simp add: get_client_upd)
qed

lemma no_scheduled_task:
  "sched_ok st \<Longrightarrow> get_client st a = Some cl \<Longrightarrow> sched (cl_sm cl) = 0 \<Longrightarrow>
    (i, Fire_scheduled a ev) \<notin> set (pb_idle st)"
  using sched_okD by fastforce

lemma sched_ok_add:
  assumes "sched_ok st" and "get_client st a = Some cl" and "i \<noteq> 0" and "sched_event ev"
    and "\<And>j ev. (j, Fire_scheduled a ev) \<notin> set (pb_idle st)"
  shows "sched_ok (upd_sm a (sched_update (\<lambda>_. i))
    (st\<lparr>pb_idle := pb_idle st @ [(i, Fire_scheduled a ev)]\<rparr>))"
  unfolding sched_ok_def upd_sm_def upd_client_frame
proof (intro allI impI)
  fix j b e
  assume "(j, Fire_scheduled b e) \<in>
    set (pb_idle (st\<lparr>pb_idle := pb_idle st @ [(i, Fire_scheduled a ev)]\<rparr>))"
  then consider "(j, Fire_scheduled b e) \<in> set (pb_idle st)" "b \<noteq> a" | "j = i" "b = a" "e = ev"
    using assms(5) by auto
  then show "j \<noteq> 0 \<and> sched_event e \<and> (\<exists>cl. get_client (upd_client a (cl_sm_update
      (sched_update (\<lambda>_. i))) (st\<lparr>pb_idle := pb_idle st @ [(i, Fire_scheduled a ev)]\<rparr>)) b = Some cl
      \<and> sched (cl_sm cl) = j)"
  proof cases
    case 1
    then show ?thesis
      using sched_okD [OF assms(1) 1(1)] by (simp add: get_client_upd) (simp add: get_client_def)
  next
    case 2
    then show ?thesis
      using assms(2,3,4) by (simp add: get_client_upd) (simp add: get_client_def)
  qed
qed

text \<open>What \<open>sm_schedule_event\<close> does: nothing, or one more idle source.\<close>

definition scheduled :: "'s pstate \<Rightarrow> addr \<Rightarrow> sm_evdata \<Rightarrow> 's pstate \<Rightarrow> bool" where
  "scheduled st a ev st' \<longleftrightarrow>
     map core_client (pb_clients st') = map core_client (pb_clients st) \<and>
     pb_reqs st' = pb_reqs st \<and> pb_trid st' = pb_trid st \<and> pb_nalloc st \<le> pb_nalloc st' \<and>
     (rtasks st' = rtasks st \<or>
      rtasks st' = rtasks st @ (case reply_task (0, Fire_scheduled a ev) of None \<Rightarrow> [] | Some p \<Rightarrow> [p])) \<and>
     (sched_ok st \<longrightarrow> sched_ok st') \<and> pb_log st' = pb_log st"

lemma reply_task_id: "reply_task (i, t) = reply_task (j, t)"
  by (cases "(i, t)" rule: reply_task.cases) simp_all

lemma sm_schedule_event_scheduled:
  assumes "sched_event ev"
  shows "post (scheduled st a ev) (sm_schedule_event E a ev st)"
proof (cases "get_client st a")
  case None
  then show ?thesis by (simp add: sm_schedule_event_def post_rules)
next
  case (Some cl)
  show ?thesis
  proof (cases "sched (cl_sm cl) \<noteq> 0 \<or> fst (pb_alloc E st) = None")
    case True
    then show ?thesis
      using Some by (auto simp: sm_schedule_event_def post_def scheduled_def pb_alloc_def rtasks_def
          sched_ok_def get_client_def split: option.splits)
  next
    case False
    let ?s = "st\<lparr>pb_nalloc := pb_nalloc st + 1\<rparr>"
    let ?i = "pb_idle_add E (pb_idle st)"
    have s: "sched_ok ?s = sched_ok st" by (simp add: sched_ok_def get_client_def)
    have g: "get_client ?s a = Some cl" using Some by (simp add: get_client_def)
    have z: "sched (cl_sm cl) = 0" using False by simp
    have c: "map core_client (pb_clients (upd_sm a (sched_update f) t)) =
        map core_client (pb_clients t)" for f and t :: "'a pstate"
      unfolding upd_sm_def by (rule core_upd_client) simp
    have r: "sm_schedule_event E a ev st = Some (upd_sm a (sched_update (\<lambda>_. ?i))
        (if ?i = 0 then ?s else ?s\<lparr>pb_idle := pb_idle ?s @ [(?i, Fire_scheduled a ev)]\<rparr>))"
      using Some False by (auto simp: sm_schedule_event_def pb_alloc_def g_idle_add_def Let_def
          split: if_splits)
    have k: "sched_ok (upd_sm a (sched_update (\<lambda>_. ?i))
        (if ?i = 0 then ?s else ?s\<lparr>pb_idle := pb_idle ?s @ [(?i, Fire_scheduled a ev)]\<rparr>))"
      if "sched_ok st"
    proof -
      have n: "(j, Fire_scheduled a e) \<notin> set (pb_idle ?s)" for j e
        using no_scheduled_task [OF that Some z] by simp
      have ok: "sched_ok ?s" using that s by simp
      show ?thesis
      proof (cases "?i = 0")
        case True
        then show ?thesis using sched_ok_set [OF ok n] by simp
      next
        case nz: False
        then show ?thesis using sched_ok_add [OF ok g nz assms n] by simp
      qed
    qed
    have t: "rtasks (?s\<lparr>pb_idle := pb_idle st\<rparr>) = rtasks st" "rtasks ?s = rtasks st"
      by (simp_all add: rtasks_def)
    show ?thesis
      unfolding r
      by (rule post_Some) (use k c t reply_task_id [of ?i "Fire_scheduled a ev" 0] in
          \<open>simp add: scheduled_def upd_sm_def\<close>)
  qed
qed

lemma scheduled_calm:
  assumes "scheduled st a ev st'" and "calm s0 st" and "\<And>i q. ev \<noteq> Ev_pbreply i q"
  shows "calm s0 st'"
proof -
  have "reply_task (0, Fire_scheduled a ev) = None" using assms(3) by (cases ev) auto
  then have "calm st st'" using assms(1) by (auto simp: scheduled_def calm_def)
  then show ?thesis by (rule calm_trans [OF assms(2)])
qed

lemma post_calm_schedule:
  assumes "calm s0 st" and "sched_event ev" and "\<And>i q. ev \<noteq> Ev_pbreply i q"
  shows "post (calm s0) (sm_schedule_event E a ev st)"
  using sm_schedule_event_scheduled [OF assms(2)]
  by (rule post_mono) (rule scheduled_calm [OF _ assms(1,3)])
lemma calm_set_evsrc:
  "calm s0 st \<Longrightarrow> calm s0 (upd_client a (\<lambda>c. c\<lparr>cl_rqsetst := (cl_rqsetst c)\<lparr>evsrc := i\<rparr>\<rparr>) st)"
  "calm s0 st \<Longrightarrow> calm s0 (upd_client a (\<lambda>c. c\<lparr>cl_rqplayhint := (cl_rqplayhint c)\<lparr>evsrc := i\<rparr>\<rparr>) st)"
  by (erule calm_upd_client, simp)+

lemma calm_save [simp]:
  "calm s0 st \<Longrightarrow> calm s0 (upd_client a (client_save_state t v) st)"
  "calm s0 st \<Longrightarrow> calm s0 (upd_client a (client_save_playback_hint h v) st)"
  by (erule calm_upd_client, simp add: client_save_state_def client_save_playback_hint_def
      split: client_stype.split client_htype.split)+

lemma calm_fields:
  "calm s0 st \<Longrightarrow> calm s0 (upd_client a (cl_pid_update f) st)"
  "calm s0 st \<Longrightarrow> calm s0 (upd_client a (cl_group_update f) st)"
  "calm s0 st \<Longrightarrow> calm s0 (upd_client a (cl_flags_update g) st)"
  "calm s0 st \<Longrightarrow> calm s0 (upd_client a (\<lambda>c. c\<lparr>cl_pid := p, cl_stream := s\<rparr>) st)"
  by (erule calm_upd_client, simp)+

lemma calm_rename: "calm s0 st \<Longrightarrow> calm s0 (upd_sm a (sm_name_update f) st)"
  unfolding upd_sm_def by (erule calm_upd_client) simp

lemmas calm_intros = calm_set_evsrc calm_save calm_fields calm_rename calm_pb_fs calm_senders
  calm_stream_info calm_send calm_note calm_alloc_snd

lemma post_calm_deferred [post_ops]:
  assumes "calm s0 st"
  shows "post (calm s0) (schedule_deferred_request E a st)"
proof -
  have e: "post (calm s0) (sm_schedule_event E a (Ev evid_playback_request) st)"
    by (rule post_calm_schedule [OF assms]) simp_all
  show ?thesis
    unfolding schedule_deferred_request_def Let_def split_beta
    by (rule e post_bind [OF post_any] post_if post_Some calm_set_evsrc calm_idle_add assms | simp)+
qed

lemma post_calm_fake [post_ops]:
  assumes "calm s0 st"
  shows "post (calm s0) (schedule_fake_setprop_succeeded_event E a n v st)"
proof -
  have "post (calm s0) (sm_schedule_event E a (Ev_property evid_setprop_succeeded (Some n) (Some v))
      (snd (pb_alloc E st)))"
    by (rule post_calm_schedule [OF calm_alloc_snd [OF assms]]) simp_all
  then show ?thesis
    using calm_alloc_snd [OF assms, of E]
    by (auto simp: schedule_fake_setprop_succeeded_event_def post_def split: option.splits prod.splits)
qed

lemma post_calm_setstate [post_ops]:
  assumes "calm s0 st"
  shows "post (calm s0) (setstate_cb E e fld st)"
proof (cases "\<exists>s. snd fld = VString (Some s)")
  case False
  then show ?thesis
    using assms by (auto simp: setstate_cb_def post_def split: fvalue.splits option.splits)
next
  case True
  then obtain s where s: "snd fld = VString (Some s)" by auto
  show ?thesis
    unfolding setstate_cb_def s fvalue.case option.case Let_def split_beta
    apply (rule post_option, rule post_Some, rule assms)
    apply (rule post_bind [OF post_any])
    apply (rule post_if, rule post_Some)
     apply (rule calm_set_evsrc calm_idle_add calm_save assms | simp)+
    apply (rule post_Some, rule calm_save, rule assms)
    done
qed

lemma post_calm_playhint [post_ops]:
  assumes "calm s0 st"
  shows "post (calm s0) (playhint_cb E e fld st)"
proof (cases "\<exists>s. snd fld = VString (Some s)")
  case False
  then show ?thesis
    using assms by (auto simp: playhint_cb_def post_def split: fvalue.splits option.splits)
next
  case True
  then obtain s where s: "snd fld = VString (Some s)" by auto
  show ?thesis
    unfolding playhint_cb_def s fvalue.case option.case Let_def split_beta
    apply (rule post_option, rule post_Some, rule assms)
    apply (rule post_bind [OF post_any])
    apply (rule post_if, rule post_Some)
     apply (rule calm_set_evsrc calm_idle_add calm_save assms | simp)+
    apply (rule post_Some, rule calm_save, rule assms)
    done
qed

lemma calm_callbacks:
  assumes "calm s0 st"
  shows "calm s0 (privacy_cb E fld st)" "calm s0 (bluetooth_cb E fld st)" "calm s0 (mute_cb E e st)"
  using assms
  by (auto simp: privacy_cb_def bluetooth_cb_def mute_cb_def Let_def calm_senders
      split: fvalue.split option.split)

lemma post_calm_cb [post_ops]:
  "calm s0 st \<Longrightarrow> post (calm s0) (run_pb_cb E cb e fld st)"
  unfolding run_pb_cb_def
  by (cases cb) (simp_all add: post_ops post_Some calm_callbacks)

lemma post_calm_fact_changed [post_ops]:
  assumes "calm s0 st"
  shows "post (calm s0) (pb_fact_changed E ch st)"
  unfolding pb_fact_changed_def Let_def
  by (rule post_prod post_bind [OF post_any] post_option post_Some calm_pb_fs post_calm_cb assms)+

lemma post_calm_facts_changed [post_ops]:
  "calm s0 st \<Longrightarrow> post (calm s0) (pb_facts_changed E chs st)"
proof (induction chs arbitrary: st)
  case (Cons ch chs)
  then show ?case
    unfolding pb_facts_changed.simps by (blast intro: post_bind [OF post_calm_fact_changed])
qed (simp add: post_Some)

lemma post_calm_request [post_ops]:
  assumes "calm s0 st"
  shows "post (\<lambda>p. calm s0 (snd p)) (pb_request E g vs st)"
  unfolding pb_request_def Let_def
  by (rule post_prod post_bind post_calm_facts_changed post_Some calm_note assms | simp)+
lemma post_calm_dresif [post_ops]:
  assumes "calm s0 st"
  shows "post (\<lambda>p. calm s0 (snd p)) (dresif_playback_state_request E a s i st)"
    and "post (\<lambda>p. calm s0 (snd p)) (dresif_group_request E g m st)"
    and "post (\<lambda>p. calm s0 (snd p)) (dresif_privacy_override_request E b st)"
    and "post (\<lambda>p. calm s0 (snd p)) (dresif_bluetooth_override_request E b st)"
    and "post (\<lambda>p. calm s0 (snd p)) (dresif_mute_request E k st)"
  unfolding dresif_playback_state_request_def dresif_group_request_def
    dresif_privacy_override_request_def dresif_bluetooth_override_request_def dresif_mute_request_def
  by (rule post_calm_request post_if post_bind [OF post_any] assms)+

subsection \<open>Transition functions that leave the requests alone\<close>

lemma post_calm_read [post_ops]: "calm s0 st \<Longrightarrow> post (calm s0) (read_property E a st)"
  unfolding read_property_def by (rule post_ops)

lemma post_calm_store [post_ops]:
  assumes "calm s0 st"
  shows "post (calm s0) (store_property E n v a st)"
  unfolding store_property_def Let_def
  by (rule post_if post_bind [OF post_any] post_bind [OF post_calm_update_fact] post_Some
      post_calm_client_property post_calm_update calm_intros assms | assumption)+

lemma post_calm_setup [post_ops]:
  assumes "calm s0 st"
  shows "post (calm s0) (setup_client E a st)"
proof -
  have "post (\<lambda>p. calm s0 (snd p)) (if b then Some (True, s) else do {
      s1 \<leftarrow> update_client_fact E a n v (upd_client a (client_save_state client_reqstate w) s);
      (ok, s2) \<leftarrow> dresif_playback_state_request E a r 0
        (upd_client a (\<lambda>c. c\<lparr>cl_rqsetst := (cl_rqsetst c)\<lparr>evsrc := -1\<rparr>\<rparr>) s1);
      s3 \<leftarrow> (if ok then Some s2
             else update_client_fact E a n2 v2 (upd_client a (client_save_state client_reqstate x)
               (upd_client a (client_save_state client_rqsetst y) s2)));
      Some (ok, upd_client a (\<lambda>c. c\<lparr>cl_rqsetst := (cl_rqsetst c)\<lparr>evsrc := 0\<rparr>\<rparr>) s3) })"
    if "calm s0 s" for b s n v w r n2 v2 x y
    apply (rule post_if, rule post_Some, simp add: that)
    apply (rule post_bind [OF post_calm_update_fact], rule calm_save, rule that)
    apply (rule post_bind_pair [OF post_calm_dresif(1)], rule calm_set_evsrc, assumption)
    apply (rule post_bind [where Q = "calm s0"], rule post_if, rule post_Some, assumption)
     apply (rule post_calm_update_fact, rule calm_save, rule calm_save, assumption)
    apply (rule post_Some, simp add: calm_set_evsrc)
    done
  note p = this
  have ev: "post (calm s0) (sm_schedule_event E a (if ok then Ev evid_setup_complete
      else Ev_watch evid_setup_state_denied (Some v)) s)" if "calm s0 s" for ok v s
    by (rule post_calm_schedule [OF that]) (cases ok; simp)+
  show ?thesis
    unfolding setup_client_def Let_def
    apply (rule post_bind [OF post_any])
    apply (split prod.split option.split)+
    apply (intro conjI allI impI post_Some post_if assms)
     apply (rule post_bind_pair [OF p ev], (rule calm_intros assms | assumption)+)+
    done
qed
lemma post_calm_save_property [post_ops]:
  assumes "calm s0 st"
  shows "post (calm s0) (save_property E ev a st)"
  unfolding save_property_def
  by (split sm_evdata.split option.split, intro conjI allI impI post_None
      post_bind [OF post_calm_store [OF assms]])
    (split option.split, intro conjI allI impI post_None
      post_bind [OF post_calm_store [OF assms]] post_calm_setup; assumption)

lemma post_calm_write_property [post_ops]:
  assumes "calm s0 st"
  shows "post (calm s0) (write_property E ev a st)"
proof -
  have w: "post (calm s0) (do { s1 \<leftarrow> client_set_property E a n v s; Some (upd_client a (f s1) s1) })"
    if "calm s0 s" and "\<And>s1. calm s0 s1 \<Longrightarrow> calm s0 (upd_client a (f s1) s1)" for n v s f
    by (rule post_bind [OF post_calm_client_property(2) [OF that(1)]]) (rule post_Some, rule that(2))
  show ?thesis
    unfolding write_property_def
    apply (rule post_bind [OF post_any])
    apply (split sm_evdata.split option.split)+
    apply (intro conjI allI impI post_None post_if post_Some post_calm_fake w calm_save assms)
    apply assumption+
    done
qed

lemma post_calm_update_state [post_ops]:
  assumes "calm s0 st"
  shows "post (\<lambda>p. calm s0 (snd p)) (update_state E ev a st)"
proof -
  have s: "post (\<lambda>p. calm s0 (snd p)) (do {
      st1 \<leftarrow> update_client_fact E a ''state'' (Some state)
        (upd_client a (client_save_state client_state (Some state)) st);
      Some (True, st1) })" for state
    by (rule post_bind [OF post_calm_update_fact], rule calm_save, rule assms) (simp add: post_Some)
  have p: "post (\<lambda>p. calm s0 (snd p)) (do { r \<leftarrow> m; v \<leftarrow> h r; (do {
      st1 \<leftarrow> update_client_fact E a ''state'' (Some (g v))
        (upd_client a (client_save_state client_state (Some (g v))) st);
      Some (True, st1) }) })" for m :: "pbreq option" and h g
    by (rule post_bind [OF post_any] s)+
  show ?thesis
    unfolding update_state_def Let_def
    apply (rule post_bind [OF post_any])
    apply (cases ev; cases "ev_id ev")
    apply (simp_all add: post_None post_Some assms s p [unfolded bind_assoc] split: option.split)
    done
qed

lemma post_calm_write_err [post_ops]:
  assumes "calm s0 st"
  shows "post (calm s0) (write_property_err E ev a st)"
proof -
  have u: "post (calm s0) (map_option snd (update_state E ev a st))"
    by (rule post_map_option) (rule post_calm_update_state [OF assms])
  have "post (calm s0) (if ev_id ev = evid_setprop_failed then (case ev of
       Ev_property _ (Some name) _ \<Rightarrow>
         if name = ''State'' then map_option snd (update_state E ev a st) else Some st
     | _ \<Rightarrow> None) else Some st)"
    using u assms by (auto simp: post_None post_Some split: sm_evdata.split option.split)
  then show ?thesis
    unfolding write_property_err_def by (rule post_bind) (rule post_calm_deferred)
qed

lemma post_calm_deq [post_ops]:
  assumes "calm s0 st"
  shows "post (calm s0) (check_queue E a st)" and "post (calm s0) (update_playhint_deq E a st)"
    and "post (calm s0) (update_state_deq E ev a st)"
  unfolding check_queue_def update_playhint_deq_def update_state_deq_def
  by (rule post_calm_deferred [OF assms] post_bind_pair [OF post_calm_update_state [OF assms]]
      post_calm_deferred | assumption)+

lemma post_calm_stream [post_ops]:
  assumes "calm s0 st"
  shows "post (calm s0) (update_stream E p s v a st)"
  unfolding update_stream_def Let_def
  apply (rule post_bind [OF post_any])
  apply (rule post_if [rotated], rule post_Some, rule assms)
  apply (rule post_bind [where Q = "calm s0", OF post_calm_update_fact])
   apply (rule calm_fields, simp add: assms calm_stream_info)
  apply (rule post_bind [where Q = "calm s0"], rule post_if, rule post_calm_update_fact, assumption,
      rule post_Some, assumption)
  apply (rule post_bind [OF post_calm_update_fact], assumption)
  apply (rule post_Some, rule calm_stream_info, assumption)
  done

lemma post_calm_fake_stop [post_ops]:
  assumes "calm s0 st"
  shows "post (calm s0) (fake_stop_pbreq E a st)"
  unfolding fake_stop_pbreq_def Let_def
  apply (rule post_bind [OF post_any])
  apply (rule post_if, rule post_Some, rule calm_stream_info, rule assms)
  apply (rule post_bind [OF post_calm_update_fact], rule calm_save, rule calm_stream_info, rule assms)
  apply (rule post_map_option, rule post_calm_dresif(1), assumption)
  done
subsection \<open>Media, queries and policy requests\<close>

lemma post_calm_group_request [post_ops]:
  assumes "calm s0 st"
  shows "post (\<lambda>p. calm s0 (snd p)) (group_request E m g r st)"
  unfolding group_request_def
  apply (rule post_bind [OF post_any])
  apply (rule post_prod, unfold Let_def)
  apply (rule post_if, rule post_map_option, unfold snd_conv)
   apply (rule post_calm_dresif(2), rule calm_pb_fs, rule assms)
  apply (rule post_Some, simp add: calm_pb_fs assms)
  done

lemma post_calm_insert_media [post_ops]:
  assumes "calm s0 st"
  shows "post (calm s0) (insert_media E i t g st)"
  unfolding insert_media_def
  apply (rule post_option, rule post_Some, rule assms)
  apply (rule post_bind [OF post_any])
  apply (rule post_Some)
  apply (cases "pb_alloc E st")
  apply (simp add: assms calm_alloc [OF assms] calm_eps split: option.split)
  done

lemma post_calm_media_state [post_ops]:
  assumes "calm s0 st"
  shows "post (calm s0) (media_state_request E i m g r st)"
  unfolding media_state_request_def
  by (rule post_option post_if post_Some assms post_bind_pair [OF post_calm_group_request]
      post_calm_insert_media | assumption)+

lemma calm_insert_ep:
  assumes "calm s0 st"
  shows "calm s0 (insert_enforcement_point E i n st)"
  using calm_alloc_snd [OF assms, of E] assms calm_eps
  by (auto simp: insert_enforcement_point_def split: option.splits prod.splits)

lemma post_calm_destroy_medias [post_ops]:
  "calm s0 st \<Longrightarrow> post (calm s0) (destroy_medias E ms st)"
proof (induction ms arbitrary: st)
  case (Cons m ms)
  have "post (calm s0) (destroy_media E m st)"
    unfolding destroy_media_def
    by (rule post_map_option) (rule post_calm_group_request [OF Cons.prems])
  then show ?case unfolding destroy_medias.simps by (rule post_bind) (rule Cons.IH)
qed (simp add: post_Some)

lemma post_calm_remove_ep [post_ops]:
  assumes "calm s0 st"
  shows "post (calm s0) (remove_enforcement_point E i st)"
  unfolding remove_enforcement_point_def
  apply (rule post_option, rule post_Some, rule assms)
  apply (rule post_bind [OF post_any])
  apply (rule post_bind [OF post_calm_destroy_medias [OF assms]])
  apply (rule post_Some, rule calm_eps, assumption)
  done

lemma post_calm_ep_cb [post_ops]:
  assumes "calm s0 st"
  shows "post (calm s0) (enforcement_point_cb E e n w st)"
proof -
  have i: "post (calm s0) (case x of Some epid \<Rightarrow> Some (insert_enforcement_point E epid nam st)
      | None \<Rightarrow> if b then Some (snd (pb_alloc E st)) else None)" for x nam b
    using calm_insert_ep [OF assms] calm_alloc_snd [OF assms, of E] by (auto simp: post_def split: option.splits)
  have r: "post (calm s0) (case x of Some epid \<Rightarrow> remove_enforcement_point E epid st
      | None \<Rightarrow> if b then Some st else None)" for x b
    using post_calm_remove_ep [OF assms] assms by (auto simp: post_def split: option.splits)
  show ?thesis
    unfolding enforcement_point_cb_def Let_def
    apply (rule post_if, rule post_Some, rule assms)
    apply (rule post_bind [OF post_any])
    apply (rule post_if, rule post_Some, rule assms)
    apply (cases w; simp only: watch_type.case)
    apply (rule i r post_Some assms)+
    done
qed

lemma post_calm_info [post_ops]:
  assumes "calm s0 st"
  shows "post (\<lambda>p. calm s0 (snd p)) (info E i args st)"
  unfolding info_def
  apply (rule post_option, rule post_Some, simp add: assms)
  apply (rule post_prod)+
  apply (rule post_if, rule post_Some, simp add: assms)
  apply (rule post_if, rule post_map_option, simp add: post_calm_media_state assms)
  apply (rule post_Some, simp add: assms)
  done

lemma post_calm_reply_policy [post_ops]:
  assumes "calm s0 st" and "\<And>r. result = Some r \<Longrightarrow> post (\<lambda>p. calm s0 (snd p)) r"
  shows "post (calm s0) (reply_policy E msg err result st)"
  unfolding reply_policy_def
  apply (rule post_option, rule post_Some, simp add: assms calm_senders)
  apply (rule post_bind_pair [OF assms(2)], assumption)
  apply (rule post_Some, simp add: calm_senders)
  done

lemma post_calm_queries [post_ops]:
  assumes "calm s0 st"
  shows "post (calm s0) (get_allowed E msg sender arg st)"
    and "post (calm s0) (get_privacy E msg st)" and "post (calm s0) (get_bluetooth E msg st)"
    and "post (calm s0) (get_mute E msg st)"
proof -
  note c = calm_senders calm_send assms
  show "post (calm s0) (get_allowed E msg sender arg st)"
    unfolding get_allowed_def
    by (rule post_option post_Some post_bind [OF post_any] c)+
  show "post (calm s0) (get_privacy E msg st)"
    unfolding get_privacy_def policy_error_def Let_def by (rule post_option post_Some c)+
  show "post (calm s0) (get_bluetooth E msg st)"
    unfolding get_bluetooth_def policy_error_def
    by (split option.split fvalue.split, intro conjI allI impI post_Some post_None c)+
  show "post (calm s0) (get_mute E msg st)"
    unfolding get_mute_def policy_error_def
    by (split option.split fvalue.split, intro conjI allI impI post_Some post_None c)+
qed
subsection \<open>Effects on the requests\<close>

definition cores :: "'s pstate \<Rightarrow> (addr \<times> cstring \<times> cstring \<times> sm_stid \<times> bool) list" where
  "cores st = map core_client (pb_clients st)"

text \<open>Like \<open>calm\<close>, with the requests and the scheduled replies afterwards.\<close>

definition changes ::
  "'s pstate \<Rightarrow> (addr \<times> pbreq) list \<Rightarrow> (addr \<times> addr) list \<Rightarrow> 's pstate \<Rightarrow> bool" where
  "changes st rs ks st' \<longleftrightarrow>
     cores st' = cores st \<and> pb_reqs st' = rs \<and> pb_trid st' = pb_trid st \<and>
     pb_nalloc st \<le> pb_nalloc st' \<and> rtasks st' = ks \<and> (sched_ok st \<longrightarrow> sched_ok st')"

lemma calm_changes: "calm st st' \<longleftrightarrow> changes st (pb_reqs st) (rtasks st) st'"
  by (simp add: calm_def changes_def cores_def)

lemma changes_calm: "changes st rs ks s1 \<Longrightarrow> calm s1 s2 \<Longrightarrow> changes st rs ks s2"
  by (auto simp: calm_def changes_def cores_def)

lemma calm_then_changes:
  "calm st s1 \<Longrightarrow> changes s1 rs ks s2 \<Longrightarrow> changes st rs ks s2"
  by (auto simp: calm_def changes_def cores_def)

lemma changes_reqs:
  "changes st rs (rtasks st) (st\<lparr>pb_reqs := rs\<rparr>)"
  by (simp add: changes_def cores_def rtasks_def sched_ok_def get_client_def)

lemma scheduled_changes:
  "scheduled st a (Ev_pbreply i q) st' \<Longrightarrow>
    changes st (pb_reqs st) (rtasks st) st' \<or> changes st (pb_reqs st) (rtasks st @ [(a, q)]) st'"
  by (auto simp: scheduled_def changes_def cores_def)

text \<open>The transition functions that answer a request remove it.\<close>

lemma changes_destroy:
  assumes "calm st st1"
  shows "changes st (filter (\<lambda>p. fst p \<noteq> q) (pb_reqs st)) (rtasks st) (pbreq_destroy (Some q) st1)"
proof -
  have "(\<lambda>(k, r). k \<noteq> q) = (\<lambda>p :: addr \<times> pbreq. fst p \<noteq> q)" by auto
  then have "pbreq_destroy (Some q) st1 =
      st1\<lparr>pb_reqs := filter (\<lambda>p. fst p \<noteq> q) (pb_reqs st1)\<rparr>"
    by (simp add: pbreq_destroy_def)
  with calm_then_changes [OF assms changes_reqs] assms show ?thesis
    by (auto simp: calm_def)
qed

abbreviation answers :: "addr \<Rightarrow> 's pstate \<Rightarrow> 's pstate \<Rightarrow> bool" where
  "answers q st st' \<equiv> changes st (filter (\<lambda>p. fst p \<noteq> q) (pb_reqs st)) (rtasks st) st'"

lemma post_reply_pbreq: "post (answers q st) (reply_pbreq E (Ev_pbreply i q) a st)"
  unfolding reply_pbreq_def sm_evdata.case Let_def
  by (rule post_bind [OF post_any] post_Some changes_destroy)+ (simp add: calm_senders)

lemma post_reply_deq: "post (answers q st) (reply_pbreq_deq E (Ev_pbreply i q) a st)"
  unfolding reply_pbreq_deq_def
proof (rule post_bind [OF post_reply_pbreq])
  fix s1 assume "answers q st s1"
  then show "post (answers q st) (schedule_deferred_request E a s1)"
    using post_calm_deferred [OF calm_refl, of s1 E a] by (blast intro: post_mono changes_calm)
qed

lemma post_abort: "post (answers q st) (abort_pbreq_deq E (Ev_pbreply i q) a st)"
  unfolding abort_pbreq_deq_def sm_evdata.case
proof (rule post_bind [OF post_any])
  fix r
  have u: "post (\<lambda>p. calm st (snd p)) (update_state E (Ev_pbreply i q) a st)"
    by (rule post_calm_update_state) simp
  have "post (calm st) (if rq_type r = pbreq_state then do {
      (_, s1) \<leftarrow> update_state E (Ev_pbreply i q) a st;
      Some (dbusif_reply_with_error E (rq_msg r) (Some DBUS_MAEMO_ERROR_DENIED)
        ''state request change denied by policy'' s1) } else Some st)"
    by (rule post_if post_bind_pair [OF u] post_Some calm_senders | assumption | simp)+
  then show "post (answers q st) (do {
      st1 \<leftarrow> (if rq_type r = pbreq_state then do {
        (_, s1) \<leftarrow> update_state E (Ev_pbreply i q) a st;
        Some (dbusif_reply_with_error E (rq_msg r) (Some DBUS_MAEMO_ERROR_DENIED)
          ''state request change denied by policy'' s1) } else Some st);
      schedule_deferred_request E a (pbreq_destroy (Some q) st1) })"
  proof (rule post_bind)
    fix s1 assume "calm st s1"
    then have "answers q st (pbreq_destroy (Some q) s1)" by (rule changes_destroy)
    then show "post (answers q st) (schedule_deferred_request E a (pbreq_destroy (Some q) s1))"
      using post_calm_deferred [OF calm_refl] by (blast intro: post_mono changes_calm)
  qed
qed

lemma reply_transition:
  assumes "f = Reply_pbreq \<or> f = Reply_pbreq_deq \<or> f = Abort_pbreq_deq"
  shows "post (\<lambda>p. fst p \<and> answers q st (snd p)) (run_transition E f (Ev_pbreply i q) a st)"
  using assms post_reply_pbreq post_reply_deq post_abort
  by (auto simp: run_transition_def intro!: post_map_option)

text \<open>Most transition functions are calm.\<close>

lemma calm_transition:
  assumes "f \<notin> {Process_pbreq, Reply_pbreq, Reply_pbreq_deq, Abort_pbreq_deq}"
  shows "post (\<lambda>p. calm st (snd p)) (run_transition E f ev a st)"
  using assms unfolding run_transition_def
  by (cases f) (simp_all add: post_map_option post_calm_read post_calm_save_property
      post_calm_write_property post_calm_write_err post_calm_deq post_calm_update_state
      post_calm_fake_stop)
definition wait_on :: "addr \<Rightarrow> (addr \<times> pbreq) list \<Rightarrow> (addr \<times> pbreq) list" where
  "wait_on q rs = map (\<lambda>p. if fst p = q then (q, (snd p)\<lparr>rq_waiting := True\<rparr>) else p) rs"

text \<open>What a processed request can be: waiting for the policy, or answered by a scheduled event.
  In the third case the event was dropped.\<close>

definition processed :: "addr \<Rightarrow> addr \<Rightarrow> 's pstate \<Rightarrow> 's pstate \<Rightarrow> bool" where
  "processed a q st st' \<longleftrightarrow>
     changes st (wait_on q (pb_reqs st)) (rtasks st) st' \<or>
     changes st (pb_reqs st) (rtasks st @ [(a, q)]) st' \<or>
     changes st (pb_reqs st) (rtasks st) st'"

lemma processed_calm: "calm st s1 \<Longrightarrow> processed a q s1 s2 \<Longrightarrow> processed a q st s2"
  unfolding processed_def using calm_then_changes [of st s1]
  by (auto simp: calm_def)

lemma post_schedule_reply:
  assumes "calm st s1" and "i = evid_playback_complete \<or> i = evid_playback_failed"
  shows "post (\<lambda>(ok, st'). if ok then processed a q st st' else calm st st')
    (schedule_reply_event E i q a s1)"
proof (cases "pb_alloc E s1")
  case (Pair m s2)
  have c: "calm st s2" by (rule calm_alloc [OF assms(1) Pair])
  show ?thesis
  proof (cases m)
    case None
    then show ?thesis using c Pair by (simp add: schedule_reply_event_def post_Some)
  next
    case (Some x)
    have "post (processed a q st) (sm_schedule_event E a (Ev_pbreply i q) s2)"
    proof (rule post_mono [OF sm_schedule_event_scheduled])
      show "sched_event (Ev_pbreply i q)" using assms(2) by simp
      fix st' assume "scheduled s2 a (Ev_pbreply i q) st'"
      then have "processed a q s2 st'" unfolding processed_def by (blast dest: scheduled_changes)
      then show "processed a q st st'" by (rule processed_calm [OF c])
    qed
    then have "post (\<lambda>(ok, st'). if ok then processed a q st st' else calm st st')
        (do { st2 \<leftarrow> sm_schedule_event E a (Ev_pbreply i q) s2; Some (True, st2) })"
      by (rule post_bind) (simp add: post_Some)
    then show ?thesis using Some Pair by (simp add: schedule_reply_event_def)
  qed
qed

lemma upd_req_wait:
  "changes st (wait_on q (pb_reqs st)) (rtasks st) (upd_req q (rq_waiting_update (\<lambda>_. True)) st)"
proof -
  have "(\<lambda>(k, r :: pbreq). (k, if k = q then rq_waiting_update (\<lambda>_. True) r else r)) =
      (\<lambda>p. if fst p = q then (q, (snd p)\<lparr>rq_waiting := True\<rparr>) else p)"
    by (simp add: fun_eq_iff)
  then have "upd_req q (rq_waiting_update (\<lambda>_. True)) st = st\<lparr>pb_reqs := wait_on q (pb_reqs st)\<rparr>"
    unfolding upd_req_def wait_on_def by (simp only:)
  then show ?thesis by (simp add: changes_reqs)
qed

lemma post_process_pbreq:
  "post (\<lambda>(ok, st'). if ok
      then \<exists>q r. pbreq_get_first a st = Some (q, r) \<and> \<not> rq_waiting r \<and> processed a q st st'
      else calm st st') (process_pbreq E a st)"
    (is "post ?Q _")
proof (cases "pbreq_get_first a st")
  case None
  then show ?thesis by (simp add: process_pbreq_def post_Some)
next
  case (Some p)
  obtain q r where p: "p = (q, r)" by (cases p)
  show ?thesis
  proof (cases "rq_waiting r")
    case True
    then show ?thesis using Some p by (simp add: process_pbreq_def post_Some)
  next
    case False
    have sr: "post ?Q (schedule_reply_event E i q a s1)"
      if "calm st s1" "i = evid_playback_complete \<or> i = evid_playback_failed" for i s1
      by (rule post_mono [OF post_schedule_reply [OF that, where q = q]])
        (use Some p False in \<open>auto split: if_splits\<close>)
    have w: "?Q (True, s2)" if c: "calm st s1" and
      "calm (upd_req q (rq_waiting_update (\<lambda>_. True)) s1) s2" for s1 s2
    proof -
      have "changes s1 (wait_on q (pb_reqs s1)) (rtasks s1) s2"
        using changes_calm [OF upd_req_wait that(2)] .
      then have "changes st (wait_on q (pb_reqs st)) (rtasks st) s2"
        using calm_then_changes [OF c] c by (simp add: calm_def)
      then show ?thesis using Some p False by (auto simp: processed_def)
    qed
    note sr = sr [unfolded Some p] and w = w [unfolded Some p]
    show ?thesis
      unfolding process_pbreq_def Some p option.case prod.case Let_def
      apply (rule post_if, simp add: False)
      apply (rule post_if, rule sr, simp, simp)
      apply (rule post_bind [OF post_any], rule post_bind [OF post_any])
      apply (rule post_bind [OF post_calm_stream [OF calm_refl]])
      apply (rule post_if, rule sr, assumption, simp)
      apply (rule post_bind [OF post_calm_update_fact], rule calm_save, assumption)
      apply (rule post_bind_pair [OF post_calm_dresif(1)], assumption)
      apply (rule post_if)
       apply (rule post_bind [OF post_calm_update_fact])
        apply (intro calm_save, rule calm_refl)
       apply (rule post_Some, rule w, assumption, assumption)
      apply (rule post_bind [OF post_calm_update_fact], rule calm_save, assumption)
      apply (rule sr, assumption, simp)
      done
  qed
qed
end
