(* ===== verification/Playback_Requests.thy ===== *)
theory Playback_Requests
  imports Playback_Inv
begin

text \<open>
  The invariant of the playback plugin about its queued requests, that every step of the main loop
  keeps it, and that a request which waits for a policy decision is answered by the decision.
\<close>

subsection \<open>The invariant\<close>

type_synonym core = "addr \<times> cstring \<times> cstring \<times> sm_stid \<times> bool"

definition setcore :: "addr \<Rightarrow> sm_stid \<Rightarrow> core list \<Rightarrow> core list" where
  "setcore a s cs = map (\<lambda>(b, d, p, t, z). if b = a then (b, d, p, s, False) else (b, d, p, t, z)) cs"

text \<open>A client in one of the two states in which a request is being decided.\<close>

definition deciding :: "core list \<Rightarrow> addr \<Rightarrow> bool" where
  "deciding cs a \<longleftrightarrow>
     (\<exists>d p s z. (a, d, p, s, z) \<in> set cs \<and> (s = stid_pbreq \<or> s = stid_acked_pbreq))"

text \<open>The decisions under way for a client: requests that wait and replies that are scheduled.\<close>

definition opens :: "(addr \<times> pbreq) list \<Rightarrow> (addr \<times> addr) list \<Rightarrow> addr \<Rightarrow> nat" where
  "opens rs ks a =
     length (filter (\<lambda>(q, r). rq_waiting r \<and> rq_cl r = a) rs) + length (filter (\<lambda>(b, q). b = a) ks)"

definition clients_ok :: "core list \<Rightarrow> nat \<Rightarrow> bool" where
  "clients_ok cs n \<longleftrightarrow>
     distinct (map fst cs) \<and> (\<forall>a \<in> fst ` set cs. a < n) \<and>
     distinct (map (\<lambda>(a, d, p, x). (d, p)) cs)"

definition reqs_ok :: "core list \<Rightarrow> (addr \<times> pbreq) list \<Rightarrow> int \<Rightarrow> nat \<Rightarrow> bool" where
  "reqs_ok cs rs t n \<longleftrightarrow>
     distinct (map fst rs) \<and> (\<forall>q \<in> fst ` set rs. q < n) \<and>
     distinct (map (\<lambda>(q, r). rq_trid r) rs) \<and> 0 < t \<and>
     (\<forall>(q, r) \<in> set rs. 0 < rq_trid r \<and> rq_trid r < t \<and> rq_type r = pbreq_state \<and>
        rq_name r \<noteq> None \<and> rq_cl r \<in> fst ` set cs)"

definition replies_ok :: "(addr \<times> pbreq) list \<Rightarrow> (addr \<times> addr) list \<Rightarrow> bool" where
  "replies_ok rs ks \<longleftrightarrow>
     (\<forall>(b, q) \<in> set ks. \<exists>r. (q, r) \<in> set rs \<and> rq_cl r = b \<and> \<not> rq_waiting r)"

definition one_open :: "core list \<Rightarrow> (addr \<times> pbreq) list \<Rightarrow> (addr \<times> addr) list \<Rightarrow> bool" where
  "one_open cs rs ks \<longleftrightarrow> (\<forall>a. opens rs ks a \<le> (if deciding cs a then 1 else 0))"

definition pb_inv :: "'s pstate \<Rightarrow> bool" where
  "pb_inv st \<longleftrightarrow>
     clients_ok (cores st) (pb_nalloc st) \<and> reqs_ok (cores st) (pb_reqs st) (pb_trid st) (pb_nalloc st) \<and>
     replies_ok (pb_reqs st) (rtasks st) \<and> one_open (cores st) (pb_reqs st) (rtasks st) \<and> sched_ok st"

text \<open>No event is being processed.\<close>

definition resting :: "'s pstate \<Rightarrow> bool" where
  "resting st \<longleftrightarrow> (\<forall>(a, d, p, s, z) \<in> set (cores st). \<not> z)"

subsection \<open>The effect of an event\<close>

definition enters ::
  "'s pstate \<Rightarrow> addr \<Rightarrow> sm_stid \<Rightarrow> (addr \<times> pbreq) list \<Rightarrow> (addr \<times> addr) list \<Rightarrow> 's pstate \<Rightarrow> bool" where
  "enters st a s rs ks st' \<longleftrightarrow>
     cores st' = setcore a s (cores st) \<and> pb_reqs st' = rs \<and> pb_trid st' = pb_trid st \<and>
     pb_nalloc st \<le> pb_nalloc st' \<and> rtasks st' = ks \<and> (sched_ok st \<longrightarrow> sched_ok st')"

lemma core_of_client:
  "get_client st a = Some cl \<Longrightarrow>
    (a, cl_dbusid cl, cl_object cl, stid (cl_sm cl), busy (cl_sm cl)) \<in> set (cores st)"
  by (force simp: get_client_def cores_def core_client_def dest: map_of_SomeD)

lemma client_of_core:
  "(a, d, p, s, z) \<in> set (cores st) \<Longrightarrow> \<exists>cl. get_client st a = Some cl"
proof -
  assume "(a, d, p, s, z) \<in> set (cores st)"
  then have "a \<in> fst ` set (pb_clients st)" by (force simp: cores_def core_client_def)
  then show ?thesis by (simp add: get_client_def map_of_eq_None_iff [symmetric] not_None_eq [symmetric]
        del: not_None_eq) (metis map_of_eq_None_iff not_Some_eq)
qed

lemma sched_ok_upd:
  assumes "sched_ok st" and "\<And>c. sched (cl_sm (f c)) = sched (cl_sm c)"
  shows "sched_ok (upd_client a f st)"
  unfolding sched_ok_def upd_client_frame
proof (intro allI impI)
  fix i b ev assume "(i, Fire_scheduled b ev) \<in> set (pb_idle st)"
  from sched_okD [OF assms(1) this]
  show "i \<noteq> 0 \<and> sched_event ev \<and>
      (\<exists>cl. get_client (upd_client a f st) b = Some cl \<and> sched (cl_sm cl) = i)"
    using assms(2) by (auto simp: get_client_upd)
qed

lemma enters_after:
  assumes "changes (upd_sm a (busy_update (\<lambda>_. True)) st) rs ks s2"
  shows "enters st a s rs ks (upd_sm a (\<lambda>x. x\<lparr>stid := s, busy := False\<rparr>) s2)"
proof -
  have e: "cores (upd_sm a f t) = map (\<lambda>(b, d, p, u, z). if b = a
      then (b, d, p, s, False) else (b, d, p, u, z)) (cores t)"
    if "\<And>m. stid (f m) = s \<and> \<not> busy (f m)" for f and t :: "'a pstate"
    using that by (auto simp: cores_def upd_sm_def upd_client_def core_client_def)
  have b: "cores (upd_sm a (busy_update (\<lambda>_. True)) st) = map (\<lambda>(b, d, p, u, z). if b = a
      then (b, d, p, u, True) else (b, d, p, u, z)) (cores st)"
    by (auto simp: cores_def upd_sm_def upd_client_def core_client_def)
  have k: "sched_ok (upd_sm a (\<lambda>x. x\<lparr>stid := s, busy := False\<rparr>) s2)" if "sched_ok st"
  proof -
    have "sched_ok (upd_sm a (busy_update (\<lambda>_. True)) st)"
      unfolding upd_sm_def by (rule sched_ok_upd [OF that]) simp
    then have "sched_ok s2" using assms by (simp add: changes_def)
    then show ?thesis unfolding upd_sm_def by (rule sched_ok_upd) simp
  qed
  have c: "cores (upd_sm a (\<lambda>x. x\<lparr>stid := s, busy := False\<rparr>) s2) = setcore a s (cores st)"
    using assms by (subst e) (auto simp: changes_def b setcore_def)
  show ?thesis
    using assms k c by (simp add: enters_def changes_def upd_sm_def)
qed

lemma sm_def_calm:
  assumes "sm_def s e = (Some f, n)" and "e \<noteq> evid_playback_complete" "e \<noteq> evid_playback_failed"
    and "s = stid_idle \<Longrightarrow> e \<noteq> evid_playback_request"
  shows "f \<notin> {Process_pbreq, Reply_pbreq, Reply_pbreq_deq, Abort_pbreq_deq}"
  using assms by (cases s; cases e) (simp_all add: sm_def_def split: if_splits)

lemma sm_def_deciding:
  assumes "e \<noteq> evid_playback_complete" "e \<noteq> evid_playback_failed" "e \<noteq> evid_client_gone"
    and "s = stid_pbreq \<or> s = stid_acked_pbreq"
  shows "snd (sm_def s e) = stid_pbreq \<or> snd (sm_def s e) = stid_acked_pbreq"
  using assms by (cases s; cases e) (simp_all add: sm_def_def)

lemma sm_def_answer:
  assumes "e = evid_playback_complete \<or> e = evid_playback_failed"
    and "s = stid_pbreq \<or> s = stid_acked_pbreq"
  obtains f n where "sm_def s e = (Some f, n)"
    and "f = Reply_pbreq \<or> f = Reply_pbreq_deq \<or> f = Abort_pbreq_deq"
  using assms by (cases s; cases e) (auto simp: sm_def_def)

lemma process_post:
  assumes "get_client st a = Some cl" and "\<not> busy (cl_sm cl)" and "ev_id ev \<noteq> evid_invalid"
    and "\<And>n. sm_def (stid (cl_sm cl)) (ev_id ev) = (None, n) \<Longrightarrow>
      P (upd_sm a (\<lambda>x. x\<lparr>stid := n, busy := False\<rparr>) (upd_sm a (busy_update (\<lambda>_. True)) st))"
    and "\<And>f n. sm_def (stid (cl_sm cl)) (ev_id ev) = (Some f, n) \<Longrightarrow>
      post (\<lambda>(ok, s2). P (upd_sm a (\<lambda>x. x\<lparr>stid := if ok then n else stid (cl_sm cl), busy := False\<rparr>) s2))
        (run_transition E f ev a (upd_sm a (busy_update (\<lambda>_. True)) st))"
  shows "post P (process E a ev st)"
proof (cases "sm_def (stid (cl_sm cl)) (ev_id ev)")
  case (Pair fo n)
  show ?thesis
  proof (cases fo)
    case None
    then show ?thesis
      using assms(1-4) Pair by (simp add: process_def sm_process_event_def Let_def post_Some)
  next
    case (Some f)
    have p: "sm_process_event E a ev st = (do {
        (ok, s2) \<leftarrow> run_transition E f ev a (upd_sm a (busy_update (\<lambda>_. True)) st);
        Some (True, upd_sm a (\<lambda>x. x\<lparr>stid := if ok then n else stid (cl_sm cl), busy := False\<rparr>) s2) })"
      using assms(1-3) Pair Some by (simp add: sm_process_event_def Let_def)
    show ?thesis
      unfolding process_def p
      by (rule post_map_option, rule post_bind [OF assms(5) [OF Pair [unfolded Some]]])
        (auto simp: post_Some)
  qed
qed

lemma process_calm:
  assumes "get_client st a = Some cl" and "\<not> busy (cl_sm cl)" and "ev_id ev \<noteq> evid_invalid"
    and e: "ev_id ev \<noteq> evid_playback_complete" "ev_id ev \<noteq> evid_playback_failed"
      "stid (cl_sm cl) = stid_idle \<Longrightarrow> ev_id ev \<noteq> evid_playback_request"
  shows "post (\<lambda>st'. \<exists>s. (s = stid (cl_sm cl) \<or> s = snd (sm_def (stid (cl_sm cl)) (ev_id ev))) \<and>
      enters st a s (pb_reqs st) (rtasks st) st') (process E a ev st)"
proof (rule process_post [OF assms(1-3)])
  let ?b = "upd_sm a (busy_update (\<lambda>_. True)) st"
  have b: "pb_reqs ?b = pb_reqs st" "rtasks ?b = rtasks st" by (simp_all add: upd_sm_def)
  {
    fix n assume "sm_def (stid (cl_sm cl)) (ev_id ev) = (None, n)"
    moreover have "changes ?b (pb_reqs ?b) (rtasks ?b) ?b" using calm_refl calm_changes by blast
    ultimately show "\<exists>s. (s = stid (cl_sm cl) \<or> s = snd (sm_def (stid (cl_sm cl)) (ev_id ev))) \<and>
        enters st a s (pb_reqs st) (rtasks st) (upd_sm a (\<lambda>x. x\<lparr>stid := n, busy := False\<rparr>) ?b)"
      using enters_after unfolding b by (intro exI [of _ n]) auto
  }
  fix f n assume f: "sm_def (stid (cl_sm cl)) (ev_id ev) = (Some f, n)"
  have "post (\<lambda>p. calm ?b (snd p)) (run_transition E f ev a ?b)"
    by (rule calm_transition [OF sm_def_calm [OF f e]])
  then show "post (\<lambda>(ok, s2). \<exists>s. (s = stid (cl_sm cl) \<or>
      s = snd (sm_def (stid (cl_sm cl)) (ev_id ev))) \<and> enters st a s (pb_reqs st) (rtasks st)
        (upd_sm a (\<lambda>x. x\<lparr>stid := if ok then n else stid (cl_sm cl), busy := False\<rparr>) s2))
      (run_transition E f ev a ?b)"
  proof (rule post_mono)
    fix p :: "bool \<times> 'a pstate" assume "calm ?b (snd p)"
    then have "changes ?b (pb_reqs st) (rtasks st) (snd p)" by (simp add: calm_changes b)
    from enters_after [OF this, of "if fst p then n else stid (cl_sm cl)"]
    show "case p of (ok, s2) \<Rightarrow> \<exists>s. (s = stid (cl_sm cl) \<or>
      s = snd (sm_def (stid (cl_sm cl)) (ev_id ev))) \<and> enters st a s (pb_reqs st) (rtasks st)
        (upd_sm a (\<lambda>x. x\<lparr>stid := if ok then n else stid (cl_sm cl), busy := False\<rparr>) s2)"
      using f by (cases p) auto
  qed
qed

lemma process_answer:
  assumes "get_client st a = Some cl" and "\<not> busy (cl_sm cl)"
    and e: "i = evid_playback_complete \<or> i = evid_playback_failed"
    and s: "stid (cl_sm cl) = stid_pbreq \<or> stid (cl_sm cl) = stid_acked_pbreq"
  shows "post (\<lambda>st'. \<exists>s. enters st a s (filter (\<lambda>p. fst p \<noteq> q) (pb_reqs st)) (rtasks st) st')
    (process E a (Ev_pbreply i q) st)"
proof -
  let ?b = "upd_sm a (busy_update (\<lambda>_. True)) st"
  have b: "pb_reqs ?b = pb_reqs st" "rtasks ?b = rtasks st" by (simp_all add: upd_sm_def)
  obtain f n where f: "sm_def (stid (cl_sm cl)) i = (Some f, n)"
    and fs: "f = Reply_pbreq \<or> f = Reply_pbreq_deq \<or> f = Abort_pbreq_deq"
    using sm_def_answer [OF e s] .
  show ?thesis
  proof (rule process_post [OF assms(1,2)])
    show "ev_id (Ev_pbreply i q) \<noteq> evid_invalid" using e by auto
  next
    fix n assume "sm_def (stid (cl_sm cl)) (ev_id (Ev_pbreply i q)) = (None, n)"
    then show "\<exists>s. enters st a s (filter (\<lambda>p. fst p \<noteq> q) (pb_reqs st)) (rtasks st)
        (upd_sm a (\<lambda>x. x\<lparr>stid := n, busy := False\<rparr>) ?b)"
      using f by simp
  next
    fix g n' assume "sm_def (stid (cl_sm cl)) (ev_id (Ev_pbreply i q)) = (Some g, n')"
    then have g: "g = f" "n' = n" using f by simp_all
    show "post (\<lambda>(ok, s2). \<exists>s. enters st a s (filter (\<lambda>p. fst p \<noteq> q) (pb_reqs st)) (rtasks st)
        (upd_sm a (\<lambda>x. x\<lparr>stid := if ok then n' else stid (cl_sm cl), busy := False\<rparr>) s2))
        (run_transition E g (Ev_pbreply i q) a ?b)"
      unfolding g
      by (rule post_mono [OF reply_transition [OF fs]]) (use enters_after b in \<open>fastforce\<close>)
  qed
qed

lemma process_request:
  assumes "get_client st a = Some cl" and "\<not> busy (cl_sm cl)" and "ev_id ev = evid_playback_request"
    and "stid (cl_sm cl) = stid_idle"
  shows "post (\<lambda>st'. enters st a stid_idle (pb_reqs st) (rtasks st) st' \<or>
      (\<exists>q r. pbreq_get_first a st = Some (q, r) \<and> \<not> rq_waiting r \<and>
        (enters st a stid_pbreq (wait_on q (pb_reqs st)) (rtasks st) st' \<or>
         enters st a stid_pbreq (pb_reqs st) (rtasks st @ [(a, q)]) st' \<or>
         enters st a stid_pbreq (pb_reqs st) (rtasks st) st'))) (process E a ev st)"
proof -
  let ?b = "upd_sm a (busy_update (\<lambda>_. True)) st"
  have b: "pb_reqs ?b = pb_reqs st" "rtasks ?b = rtasks st" by (simp_all add: upd_sm_def)
  have g: "pbreq_get_first a ?b = pbreq_get_first a st" by (simp add: pbreq_get_first_def b)
  have d: "sm_def (stid (cl_sm cl)) (ev_id ev) = (Some Process_pbreq, stid_pbreq)"
    using assms by (simp add: sm_def_def)
  have p: "enters st a s (wait_on q (pb_reqs st)) (rtasks st) s3 \<or>
      enters st a s (pb_reqs st) (rtasks st @ [(a, q)]) s3 \<or>
      enters st a s (pb_reqs st) (rtasks st) s3"
    if "processed a q ?b s2" and "s3 = upd_sm a (\<lambda>x. x\<lparr>stid := s, busy := False\<rparr>) s2" for q s s2 s3
    using that enters_after [of a st _ _ s2 s] unfolding processed_def b by blast
  let ?P = "\<lambda>st'. enters st a stid_idle (pb_reqs st) (rtasks st) st' \<or>
      (\<exists>q r. pbreq_get_first a st = Some (q, r) \<and> \<not> rq_waiting r \<and>
        (enters st a stid_pbreq (wait_on q (pb_reqs st)) (rtasks st) st' \<or>
         enters st a stid_pbreq (pb_reqs st) (rtasks st @ [(a, q)]) st' \<or>
         enters st a stid_pbreq (pb_reqs st) (rtasks st) st'))"
  let ?f = "\<lambda>ok. upd_sm a (\<lambda>x. x\<lparr>stid := if ok then stid_pbreq else stid (cl_sm cl), busy := False\<rparr>)"
  have m: "post (\<lambda>(ok, s2). ?P (?f ok s2)) (process_pbreq E a ?b)"
  proof (rule post_mono [OF post_process_pbreq])
    fix x :: "bool \<times> 'a pstate"
    assume x: "case x of (ok, s2) \<Rightarrow> if ok then \<exists>q r. pbreq_get_first a ?b = Some (q, r) \<and>
      \<not> rq_waiting r \<and> processed a q ?b s2 else calm ?b s2"
    obtain ok s2 where xs: "x = (ok, s2)" by (cases x)
    show "case x of (ok, s2) \<Rightarrow> ?P (?f ok s2)"
    proof (cases ok)
      case True
      then obtain q r where q: "pbreq_get_first a st = Some (q, r)" "\<not> rq_waiting r"
        "processed a q ?b s2" using x xs g by auto
      from p [OF q(3), of "?f True s2" stid_pbreq] q(1,2) True xs show ?thesis by auto
    next
      case False
      then have "changes ?b (pb_reqs st) (rtasks st) s2" using x xs by (simp add: calm_changes b)
      from enters_after [OF this, of stid_idle] False assms(4) xs show ?thesis by simp
    qed
  qed
  show ?thesis
  proof (rule process_post [OF assms(1,2)])
    fix f n assume "sm_def (stid (cl_sm cl)) (ev_id ev) = (Some f, n)"
    then have f: "f = Process_pbreq" "n = stid_pbreq" using d by simp_all
    show "post (\<lambda>(ok, s2). ?P (upd_sm a (\<lambda>x. x\<lparr>stid := if ok then n else stid (cl_sm cl),
        busy := False\<rparr>) s2)) (run_transition E f ev a ?b)"
      unfolding f run_transition_def trfunc.case by (rule m)
  qed (use d assms(3) in simp_all)
qed

subsection \<open>The parts of the invariant\<close>

lemma setcore_simps [simp]:
  "map fst (setcore a s cs) = map fst cs" "fst ` set (setcore a s cs) = fst ` set cs"
  "map (\<lambda>(a, d, p, x). (d, p)) (setcore a s cs) = map (\<lambda>(a, d, p, x). (d, p)) cs"
proof -
  show "map fst (setcore a s cs) = map fst cs" by (induction cs) (auto simp: setcore_def split: if_splits)
  then show "fst ` set (setcore a s cs) = fst ` set cs" by (metis list.set_map)
  show "map (\<lambda>(a, d, p, x). (d, p)) (setcore a s cs) = map (\<lambda>(a, d, p, x). (d, p)) cs"
    by (induction cs) (auto simp: setcore_def split: if_splits)
qed

lemma clients_ok_setcore: "clients_ok cs n \<Longrightarrow> n \<le> m \<Longrightarrow> clients_ok (setcore a s cs) m"
  by (auto simp: clients_ok_def)

lemma clients_ok_mono: "clients_ok cs n \<Longrightarrow> n \<le> m \<Longrightarrow> clients_ok cs m"
  by (auto simp: clients_ok_def)

lemma reqs_ok_mono:
  "reqs_ok cs rs t n \<Longrightarrow> n \<le> m \<Longrightarrow> fst ` set cs = fst ` set cs' \<Longrightarrow> reqs_ok cs' rs t m"
  by (fastforce simp: reqs_ok_def)

lemma reqs_ok_filter: "reqs_ok cs rs t n \<Longrightarrow> reqs_ok cs (filter P rs) t n"
  by (auto simp: reqs_ok_def distinct_map_filter)

lemma wait_on_simps [simp]:
  "map fst (wait_on q rs) = map fst rs" "fst ` set (wait_on q rs) = fst ` set rs"
  "map (\<lambda>(q, r). rq_trid r) (wait_on q rs) = map (\<lambda>(q, r). rq_trid r) rs"
proof -
  show "map fst (wait_on q rs) = map fst rs" by (induction rs) (auto simp: wait_on_def)
  then show "fst ` set (wait_on q rs) = fst ` set rs" by (metis list.set_map)
  show "map (\<lambda>(q, r). rq_trid r) (wait_on q rs) = map (\<lambda>(q, r). rq_trid r) rs"
    by (induction rs) (auto simp: wait_on_def)
qed

lemma reqs_ok_wait: "reqs_ok cs rs t n \<Longrightarrow> reqs_ok cs (wait_on q rs) t n"
proof -
  assume r: "reqs_ok cs rs t n"
  then have "\<forall>p \<in> set (wait_on q rs). 0 < rq_trid (snd p) \<and> rq_trid (snd p) < t \<and>
      rq_type (snd p) = pbreq_state \<and> rq_name (snd p) \<noteq> None \<and> rq_cl (snd p) \<in> fst ` set cs"
    by (fastforce simp: wait_on_def reqs_ok_def)
  with r show ?thesis by (simp add: reqs_ok_def split_beta)
qed

lemma filter_swap: "filter P (filter Q xs) = filter Q (filter P xs)"
  by (simp add: conj_commute)

lemma opens_filter: "opens (filter P rs) ks a \<le> opens rs ks a"
  unfolding opens_def filter_swap [of _ P] by (rule add_right_mono) (rule length_filter_le)

lemma opens_answered:
  assumes "(q, r) \<in> set rs" and "rq_waiting r" and "rq_cl r = a"
  shows "opens (filter (\<lambda>p. fst p \<noteq> q) rs) ks a < opens rs ks a"
proof -
  let ?w = "filter (\<lambda>(q, r). rq_waiting r \<and> rq_cl r = a) rs"
  have "(q, r) \<in> set ?w" using assms by simp
  then have "length (filter (\<lambda>p. fst p \<noteq> q) ?w) < length ?w"
    by (rule length_filter_less) simp
  then show ?thesis unfolding opens_def filter_swap [of _ "\<lambda>p. fst p \<noteq> q"] by simp
qed

lemma opens_wait_on:
  assumes "distinct (map fst rs)" and "\<And>r. (q, r) \<in> set rs \<Longrightarrow> rq_cl r = a"
  shows "opens (wait_on q rs) ks b \<le> opens rs ks b + (if b = a then 1 else 0)"
proof -
  let ?W = "\<lambda>(q, r). rq_waiting r \<and> rq_cl r = b"
  have "length (filter ?W (wait_on q rs)) \<le> length (filter ?W rs) + (if b = a then 1 else 0)"
    using assms
  proof (induction rs)
    case (Cons p rs)
    obtain k r where p: "p = (k, r)" by (cases p)
    show ?case
    proof (cases "k = q")
      case True
      have "wait_on q rs = rs"
        unfolding wait_on_def using Cons.prems(1) True p by (intro map_idI) force
      moreover have "wait_on q (p # rs) = (q, r\<lparr>rq_waiting := True\<rparr>) # wait_on q rs"
        using True p by (simp add: wait_on_def)
      moreover have "rq_cl r = a" using Cons.prems(2) True p by simp
      ultimately show ?thesis using p by simp
    next
      case False
      then have "wait_on q (p # rs) = p # wait_on q rs" using p by (simp add: wait_on_def)
      moreover have "length (filter ?W (wait_on q rs)) \<le> length (filter ?W rs) + (if b = a then 1 else 0)"
        using Cons.prems by (intro Cons.IH) simp_all
      ultimately show ?thesis by (cases "b = a") simp_all
    qed
  qed (simp add: wait_on_def)
  then show ?thesis by (simp add: opens_def)
qed

lemma deciding_setcore_other: "b \<noteq> a \<Longrightarrow> deciding (setcore a s cs) b \<longleftrightarrow> deciding cs b"
proof -
  assume "b \<noteq> a"
  then have "(b, x) \<in> set (setcore a s cs) \<longleftrightarrow> (b, x) \<in> set cs" for x
    by (induction cs) (auto simp: setcore_def split: if_splits)
  then show ?thesis unfolding deciding_def by simp
qed

lemma deciding_setcore:
  "a \<in> fst ` set cs \<Longrightarrow> s = stid_pbreq \<or> s = stid_acked_pbreq \<Longrightarrow> deciding (setcore a s cs) a"
proof -
  assume "a \<in> fst ` set cs" and s: "s = stid_pbreq \<or> s = stid_acked_pbreq"
  then obtain d p u z where "(a, d, p, u, z) \<in> set cs" by force
  from imageI [OF this, of "\<lambda>(b, d, p, t, z). if b = a then (b, d, p, s, False) else (b, d, p, t, z)"]
  have "(a, d, p, s, False) \<in> set (setcore a s cs)" by (simp add: setcore_def)
  then show ?thesis using s unfolding deciding_def by blast
qed

lemma deciding_iff:
  assumes "distinct (map fst cs)" and "(a, d, p, s, z) \<in> set cs"
  shows "deciding cs a \<longleftrightarrow> s = stid_pbreq \<or> s = stid_acked_pbreq"
proof -
  have "d' = d \<and> p' = p \<and> s' = s" if "(a, d', p', s', z') \<in> set cs" for d' p' s' z'
    using map_of_is_SomeI [OF assms(1) assms(2)] map_of_is_SomeI [OF assms(1) that] by simp
  then show ?thesis unfolding deciding_def using assms(2) by blast
qed

text \<open>A client whose decision is over may go to any state.\<close>

lemma one_open_none:
  assumes "one_open cs rs ks" and "\<And>b. opens rs' ks' b \<le> opens rs ks b" and "opens rs' ks' a = 0"
  shows "one_open (setcore a s cs) rs' ks'"
  unfolding one_open_def
proof
  fix b
  show "opens rs' ks' b \<le> (if deciding (setcore a s cs) b then 1 else 0)"
  proof (cases "b = a")
    case False
    then show ?thesis
      using le_trans [OF assms(2) assms(1) [unfolded one_open_def, rule_format]]
        deciding_setcore_other [OF False, of s cs] by simp
  qed (simp add: assms(3))
qed

lemma one_open_deciding:
  assumes "one_open cs rs ks" and "a \<in> fst ` set cs" and "s = stid_pbreq \<or> s = stid_acked_pbreq"
    and "\<And>b. b \<noteq> a \<Longrightarrow> opens rs' ks' b \<le> opens rs ks b" and "opens rs' ks' a \<le> 1"
  shows "one_open (setcore a s cs) rs' ks'"
  unfolding one_open_def
proof
  fix b
  show "opens rs' ks' b \<le> (if deciding (setcore a s cs) b then 1 else 0)"
  proof (cases "b = a")
    case False
    then show ?thesis
      using le_trans [OF assms(4) assms(1) [unfolded one_open_def, rule_format]]
        deciding_setcore_other [OF False, of s cs] by simp
  qed (use assms(5) deciding_setcore [OF assms(2,3)] in simp)
qed

lemma inv_enters:
  assumes "pb_inv st" and "enters st a s rs ks st'"
    and "reqs_ok (cores st) rs (pb_trid st) (pb_nalloc st)" and "replies_ok rs ks"
    and "one_open (setcore a s (cores st)) rs ks"
  shows "pb_inv st'"
proof -
  have n: "pb_nalloc st \<le> pb_nalloc st'" using assms(2) by (simp add: enters_def)
  have "reqs_ok (setcore a s (cores st)) rs (pb_trid st) (pb_nalloc st')"
    by (rule reqs_ok_mono [OF assms(3) n]) simp
  then show ?thesis
    using assms n clients_ok_setcore [of "cores st" "pb_nalloc st"]
    by (simp add: pb_inv_def enters_def)
qed

lemma resting_enters:
  assumes "resting st" and "enters st a s rs ks st'"
  shows "resting st'"
proof -
  have "\<forall>(b, d, p, t, z) \<in> set (setcore a s cs). \<not> z" if "\<forall>(b, d, p, t, z) \<in> set cs. \<not> z" for cs
    using that by (induction cs) (auto simp: setcore_def split: if_splits)
  with assms show ?thesis by (simp add: resting_def enters_def)
qed
subsection \<open>Events keep the invariant\<close>

definition pb_good :: "'s pstate \<Rightarrow> bool" where
  "pb_good st \<longleftrightarrow> pb_inv st \<and> resting st"

lemma good_client:
  assumes "pb_good st" and "get_client st a = Some cl"
  shows "\<not> busy (cl_sm cl)" and "a \<in> fst ` set (cores st)"
    and "deciding (cores st) a \<longleftrightarrow> stid (cl_sm cl) = stid_pbreq \<or> stid (cl_sm cl) = stid_acked_pbreq"
proof -
  note m = core_of_client [OF assms(2)]
  show "\<not> busy (cl_sm cl)" using m assms(1) by (fastforce simp: pb_good_def resting_def)
  show "a \<in> fst ` set (cores st)" using m by force
  have "distinct (map fst (cores st))" using assms(1) by (simp add: pb_good_def pb_inv_def clients_ok_def)
  from deciding_iff [OF this m]
  show "deciding (cores st) a \<longleftrightarrow> stid (cl_sm cl) = stid_pbreq \<or> stid (cl_sm cl) = stid_acked_pbreq" .
qed

lemma good_enters:
  assumes "pb_good st" and "enters st a s rs ks st'"
    and "reqs_ok (cores st) rs (pb_trid st) (pb_nalloc st)" and "replies_ok rs ks"
    and "one_open (setcore a s (cores st)) rs ks"
  shows "pb_good st'"
  using assms inv_enters [OF _ assms(2-5)] resting_enters [OF _ assms(2)] by (simp add: pb_good_def)

lemma good_parts:
  assumes "pb_good st"
  shows "clients_ok (cores st) (pb_nalloc st)"
    and "reqs_ok (cores st) (pb_reqs st) (pb_trid st) (pb_nalloc st)"
    and "replies_ok (pb_reqs st) (rtasks st)" and "one_open (cores st) (pb_reqs st) (rtasks st)"
    and "sched_ok st"
  using assms by (simp_all add: pb_good_def pb_inv_def)

lemma one_openD: "one_open cs rs ks \<Longrightarrow> opens rs ks a \<le> (if deciding cs a then 1 else 0)"
  unfolding one_open_def by blast

lemma opens_none: "one_open cs rs ks \<Longrightarrow> \<not> deciding cs a \<Longrightarrow> opens rs ks a = 0"
  by (drule one_openD [of _ _ _ a]) simp

lemma opens_one: "one_open cs rs ks \<Longrightarrow> opens rs ks a \<le> 1"
  by (drule one_openD [of _ _ _ a]) (simp split: if_splits)

text \<open>A change of the state alone.\<close>

lemma good_moves:
  assumes "pb_good st" and "enters st a s (pb_reqs st) (rtasks st) st'"
    and "deciding (cores st) a \<Longrightarrow> a \<in> fst ` set (cores st) \<and> (s = stid_pbreq \<or> s = stid_acked_pbreq)"
  shows "pb_good st'"
proof (rule good_enters [OF assms(1,2)])
  note g = good_parts [OF assms(1)]
  show "one_open (setcore a s (cores st)) (pb_reqs st) (rtasks st)"
  proof (cases "deciding (cores st) a")
    case True
    from assms(3) [OF this] show ?thesis
      by (intro one_open_deciding [OF g(4)] opens_one [OF g(4)]) simp_all
  next
    case False
    then show ?thesis using one_open_none [OF g(4) _ opens_none [OF g(4)]] by simp
  qed
qed (rule good_parts [OF assms(1)])+

lemma get_first_mem:
  "pbreq_get_first a st = Some (q, r) \<Longrightarrow> (q, r) \<in> set (pb_reqs st) \<and> rq_cl r = a"
proof -
  have "find P xs = Some x \<Longrightarrow> x \<in> set xs \<and> P x" for P and xs :: "'b list" and x
    by (induction xs) (auto split: if_splits)
  then show "pbreq_get_first a st = Some (q, r) \<Longrightarrow> (q, r) \<in> set (pb_reqs st) \<and> rq_cl r = a"
    unfolding pbreq_get_first_def by fastforce
qed

lemma req_unique:
  assumes "reqs_ok cs rs t n" and "(q, r) \<in> set rs" and "(q, r') \<in> set rs"
  shows "r' = r"
  using assms map_of_is_SomeI [of rs q] by (fastforce simp: reqs_ok_def)

lemma good_event:
  assumes "pb_good st" and "get_client st a = Some cl"
    and e: "ev_id ev \<notin> {evid_invalid, evid_playback_complete, evid_playback_failed, evid_client_gone}"
  shows "post pb_good (process E a ev st)"
proof (cases "stid (cl_sm cl) = stid_idle \<and> ev_id ev = evid_playback_request")
  case False
  note c = good_client [OF assms(1,2)]
  have "post (\<lambda>st'. \<exists>s. (s = stid (cl_sm cl) \<or> s = snd (sm_def (stid (cl_sm cl)) (ev_id ev))) \<and>
      enters st a s (pb_reqs st) (rtasks st) st') (process E a ev st)"
    by (rule process_calm [OF assms(2) c(1)]) (use e False in auto)
  then show ?thesis
  proof (rule post_mono)
    fix st' assume "\<exists>s. (s = stid (cl_sm cl) \<or> s = snd (sm_def (stid (cl_sm cl)) (ev_id ev))) \<and>
      enters st a s (pb_reqs st) (rtasks st) st'"
    then obtain s where s: "s = stid (cl_sm cl) \<or> s = snd (sm_def (stid (cl_sm cl)) (ev_id ev))"
      "enters st a s (pb_reqs st) (rtasks st) st'" by blast
    have "s = stid_pbreq \<or> s = stid_acked_pbreq" if "deciding (cores st) a"
      using that c(3) s(1) sm_def_deciding [of "ev_id ev" "stid (cl_sm cl)"] e by auto
    then show "pb_good st'" using good_moves [OF assms(1) s(2)] c(2) by blast
  qed
next
  case True
  note c = good_client [OF assms(1,2)] and g = good_parts [OF assms(1)]
  have nd: "\<not> deciding (cores st) a" using c(3) True by simp
  have z: "opens (pb_reqs st) (rtasks st) a = 0" by (rule opens_none [OF g(4) nd])
  show ?thesis
  proof (rule post_mono [OF process_request [OF assms(2) c(1)]])
    show "ev_id ev = evid_playback_request" "stid (cl_sm cl) = stid_idle" using True by simp_all
    fix st' assume "enters st a stid_idle (pb_reqs st) (rtasks st) st' \<or>
      (\<exists>q r. pbreq_get_first a st = Some (q, r) \<and> \<not> rq_waiting r \<and>
        (enters st a stid_pbreq (wait_on q (pb_reqs st)) (rtasks st) st' \<or>
         enters st a stid_pbreq (pb_reqs st) (rtasks st @ [(a, q)]) st' \<or>
         enters st a stid_pbreq (pb_reqs st) (rtasks st) st'))"
    then consider (move) s where "enters st a s (pb_reqs st) (rtasks st) st'"
      | (wait) q r where "pbreq_get_first a st = Some (q, r)" "\<not> rq_waiting r"
          "enters st a stid_pbreq (wait_on q (pb_reqs st)) (rtasks st) st'"
      | (reply) q r where "pbreq_get_first a st = Some (q, r)" "\<not> rq_waiting r"
          "enters st a stid_pbreq (pb_reqs st) (rtasks st @ [(a, q)]) st'"
      by blast
    then show "pb_good st'"
    proof cases
      case move
      then show ?thesis using good_moves [OF assms(1)] nd by blast
    next
      case wait
      note m = get_first_mem [OF wait(1)]
      have o: "opens (wait_on q (pb_reqs st)) (rtasks st) b \<le>
          opens (pb_reqs st) (rtasks st) b + (if b = a then 1 else 0)" for b
        using g(2) m req_unique [OF g(2)]
        by (intro opens_wait_on) (auto simp: reqs_ok_def)
      have "\<exists>r'. (k, r') \<in> set (wait_on q (pb_reqs st)) \<and> rq_cl r' = b \<and> \<not> rq_waiting r'"
        if k: "(b, k) \<in> set (rtasks st)" for b k
      proof -
        obtain r' where r': "(k, r') \<in> set (pb_reqs st)" "rq_cl r' = b" "\<not> rq_waiting r'"
          using g(3) k by (auto simp: replies_ok_def)
        have "b \<noteq> a" using z k by (auto simp: opens_def filter_empty_conv)
        then have "k \<noteq> q" using m r' req_unique [OF g(2), of q r r'] by auto
        then have "(k, r') \<in> set (wait_on q (pb_reqs st))"
          using r'(1) by (force simp: wait_on_def)
        then show ?thesis using r' by blast
      qed
      then have "replies_ok (wait_on q (pb_reqs st)) (rtasks st)" by (auto simp: replies_ok_def)
      moreover have "one_open (setcore a stid_pbreq (cores st)) (wait_on q (pb_reqs st)) (rtasks st)"
      proof (intro one_open_deciding [OF g(4) c(2)])
        show "opens (wait_on q (pb_reqs st)) (rtasks st) a \<le> 1" using o [of a] z by simp
        show "opens (wait_on q (pb_reqs st)) (rtasks st) b \<le> opens (pb_reqs st) (rtasks st) b"
          if "b \<noteq> a" for b using o [of b] that by simp
      qed simp
      ultimately show ?thesis
        by (intro good_enters [OF assms(1) wait(3) reqs_ok_wait [OF g(2)]])
    next
      case reply
      note m = get_first_mem [OF reply(1)]
      have "replies_ok (pb_reqs st) (rtasks st @ [(a, q)])"
        using g(3) m reply(2) by (auto simp: replies_ok_def)
      moreover have "one_open (setcore a stid_pbreq (cores st)) (pb_reqs st) (rtasks st @ [(a, q)])"
        using z by (intro one_open_deciding [OF g(4) c(2)]) (simp_all add: opens_def)
      ultimately show ?thesis by (intro good_enters [OF assms(1) reply(3) g(2)])
    qed
  qed
qed
subsection \<open>Answers\<close>

lemma replies_okD:
  "replies_ok rs ks \<Longrightarrow> (b, k) \<in> set ks \<Longrightarrow> \<exists>r. (k, r) \<in> set rs \<and> rq_cl r = b \<and> \<not> rq_waiting r"
  unfolding replies_ok_def by blast

lemma good_answer:
  assumes "pb_good st" and "get_client st a = Some cl" and d: "deciding (cores st) a"
    and q: "(q, r) \<in> set (pb_reqs st)" "rq_cl r = a"
    and "i = evid_playback_complete \<or> i = evid_playback_failed"
    and "rq_waiting r \<or> opens (pb_reqs st) (rtasks st) a = 0"
  shows "post pb_good (process E a (Ev_pbreply i q) st)"
proof -
  note c = good_client [OF assms(1,2)] and g = good_parts [OF assms(1)]
  let ?rs = "filter (\<lambda>p. fst p \<noteq> q) (pb_reqs st)"
  have z: "opens ?rs (rtasks st) a = 0"
    using assms(7)
  proof
    assume "rq_waiting r"
    from opens_answered [OF q(1) this q(2), of "rtasks st"] opens_one [OF g(4), of a]
    show ?thesis by simp
  next
    assume "opens (pb_reqs st) (rtasks st) a = 0"
    then show ?thesis using opens_filter [of "\<lambda>p. fst p \<noteq> q" "pb_reqs st" "rtasks st" a] by simp
  qed
  have k: "(b, q) \<notin> set (rtasks st)" for b
  proof
    assume b: "(b, q) \<in> set (rtasks st)"
    then obtain r' where r': "(q, r') \<in> set (pb_reqs st)" "rq_cl r' = b" "\<not> rq_waiting r'"
      using g(3) by (auto simp: replies_ok_def)
    have "r' = r" by (rule req_unique [OF g(2) q(1) r'(1)])
    then have "opens ?rs (rtasks st) a \<noteq> 0"
      using b r' q(2) by (auto simp: opens_def filter_empty_conv)
    then show False using z by simp
  qed
  have "\<exists>r. (k, r) \<in> set ?rs \<and> rq_cl r = b \<and> \<not> rq_waiting r" if bk: "(b, k) \<in> set (rtasks st)" for b k
  proof -
    obtain r' where r': "(k, r') \<in> set (pb_reqs st)" "rq_cl r' = b" "\<not> rq_waiting r'"
      using replies_okD [OF g(3) bk] by blast
    moreover have "k \<noteq> q" using k [of b] bk by auto
    ultimately show ?thesis by auto
  qed
  then have rep: "replies_ok ?rs (rtasks st)" by (auto simp: replies_ok_def)
  have "post (\<lambda>st'. \<exists>s. enters st a s ?rs (rtasks st) st') (process E a (Ev_pbreply i q) st)"
    by (rule process_answer [OF assms(2) c(1) assms(6)]) (use c(3) d in simp)
  then show ?thesis
  proof (rule post_mono)
    fix st' assume "\<exists>s. enters st a s ?rs (rtasks st) st'"
    then obtain s where e: "enters st a s ?rs (rtasks st) st'" ..
    show "pb_good st'"
      by (rule good_enters [OF assms(1) e reqs_ok_filter [OF g(2)] rep])
        (rule one_open_none [OF g(4) opens_filter z])
  qed
qed

subsection \<open>Idle sources\<close>

lemma rtasks_source_remove:
  "length (filter P (rtasks (g_source_remove i st))) \<le> length (filter P (rtasks st))"
proof -
  have "length (filter P (List.map_filter reply_task (filter (\<lambda>p. fst p \<noteq> i) ts))) \<le>
      length (filter P (List.map_filter reply_task ts))" for ts
    by (induction ts) (auto simp: List.map_filter_simps split: option.split)
  then show ?thesis by (simp add: rtasks_def g_source_remove_def)
qed

lemma rtasks_source_subset: "set (rtasks (g_source_remove i st)) \<subseteq> set (rtasks st)"
  by (auto simp: rtasks_def g_source_remove_def List.map_filter_def)

lemma rtasks_source_less:
  assumes "(i, t) \<in> set (pb_idle st)" and "reply_task (i, t) = Some p" and "P p"
  shows "length (filter P (rtasks (g_source_remove i st))) < length (filter P (rtasks st))"
proof -
  have le: "length (filter P (List.map_filter reply_task (filter (\<lambda>p. fst p \<noteq> i) ts))) \<le>
      length (filter P (List.map_filter reply_task ts))" for ts
    by (induction ts) (auto simp: List.map_filter_simps split: option.split)
  have "length (filter P (List.map_filter reply_task (filter (\<lambda>p. fst p \<noteq> i) ts))) <
      length (filter P (List.map_filter reply_task ts))" if "(i, t) \<in> set ts" for ts
    using that
  proof (induction ts)
    case (Cons x ts)
    then show ?case
      using assms(2,3) le [of ts] by (auto simp: List.map_filter_simps less_Suc_eq_le split: option.split)
  qed simp
  then show ?thesis using assms(1) by (simp add: rtasks_def g_source_remove_def)
qed

lemma source_remove_frame [simp]:
  "cores (g_source_remove i st) = cores st" "pb_reqs (g_source_remove i st) = pb_reqs st"
  "pb_trid (g_source_remove i st) = pb_trid st" "pb_nalloc (g_source_remove i st) = pb_nalloc st"
  "get_client (g_source_remove i st) a = get_client st a" "pb_log (g_source_remove i st) = pb_log st"
  "pb_clients (g_source_remove i st) = pb_clients st" "pb_fs (g_source_remove i st) = pb_fs st"
  by (simp_all add: g_source_remove_def cores_def get_client_def)

lemma opens_source_remove: "opens rs (rtasks (g_source_remove i st)) a \<le> opens rs (rtasks st) a"
  using rtasks_source_remove by (simp add: opens_def)

lemma sched_ok_source_remove: "sched_ok st \<Longrightarrow> sched_ok (g_source_remove i st)"
  by (auto simp: sched_ok_def g_source_remove_def get_client_def)

lemma good_source_remove:
  assumes "pb_good st"
  shows "pb_good (g_source_remove i st)"
proof -
  note g = good_parts [OF assms]
  have "replies_ok (pb_reqs st) (rtasks (g_source_remove i st))"
    using g(3) rtasks_source_subset [of i st] unfolding replies_ok_def by blast
  moreover have "one_open (cores st) (pb_reqs st) (rtasks (g_source_remove i st))"
    unfolding one_open_def using le_trans [OF opens_source_remove one_openD [OF g(4)]] by blast
  ultimately show ?thesis
    using assms g sched_ok_source_remove by (simp add: pb_good_def pb_inv_def resting_def)
qed

lemma good_fire_scheduled:
  assumes "pb_good st" and t: "(i, Fire_scheduled a ev) \<in> set (pb_idle st)"
  shows "post pb_good (fire_scheduled_event E a ev (g_source_remove i st))"
proof -
  note g = good_parts [OF assms(1)]
  let ?r = "g_source_remove i st" and ?s = "upd_sm a (sched_update (\<lambda>_. 0)) (g_source_remove i st)"
  obtain cl where cl: "get_client st a = Some cl" "sched (cl_sm cl) = i" and ev: "sched_event ev"
    using sched_okD [OF g(5) t] by blast
  have nt: "(j, Fire_scheduled a e) \<notin> set (pb_idle ?r)" for j e
    using sched_okD [OF g(5), of j a e] cl by (auto simp: g_source_remove_def)
  have "sched_ok ?s"
    using good_parts(5) [OF good_source_remove [OF assms(1)]] nt by (rule sched_ok_set)
  moreover have cs: "cores ?s = cores st"
    unfolding cores_def upd_sm_def using core_upd_client [of "cl_sm_update (sched_update (\<lambda>_. 0))" a ?r]
    by (simp add: cores_def)
  moreover have f: "pb_reqs ?s = pb_reqs st" "rtasks ?s = rtasks ?r" "pb_trid ?s = pb_trid st"
    "pb_nalloc ?s = pb_nalloc st" by (simp_all add: upd_sm_def)
  ultimately have gs: "pb_good ?s"
    using good_source_remove [OF assms(1), of i] by (simp add: pb_good_def pb_inv_def resting_def)
  obtain cl' where cl': "get_client ?s a = Some cl'" using cl by (simp add: upd_sm_def get_client_upd)
  have "post pb_good (process E a ev ?s)"
  proof (cases "\<exists>e q. ev = Ev_pbreply e q")
    case True
    then obtain e q where eq: "ev = Ev_pbreply e q" by blast
    then have e: "e = evid_playback_complete \<or> e = evid_playback_failed" using ev by simp
    have k: "(a, q) \<in> set (rtasks st)" using t unfolding eq rtasks_def map_filter_def by force
    then obtain r where r: "(q, r) \<in> set (pb_reqs st)" "rq_cl r = a"
      using g(3) by (auto simp: replies_ok_def)
    have "length (filter (\<lambda>(b, q). b = a) (rtasks ?r)) < length (filter (\<lambda>(b, q). b = a) (rtasks st))"
      by (rule rtasks_source_less [OF t, where p = "(a, q)"]) (simp_all add: eq)
    then have lt: "opens (pb_reqs st) (rtasks ?r) a < opens (pb_reqs st) (rtasks st) a"
      by (simp add: opens_def)
    then have "opens (pb_reqs ?s) (rtasks ?s) a = 0"
      unfolding f using opens_one [OF g(4), of a] by simp
    moreover have "deciding (cores ?s) a"
      using lt opens_none [OF g(4), of a] unfolding cs by fastforce
    ultimately show ?thesis
      unfolding eq using r by (intro good_answer [OF gs cl' _ _ _ e]) (simp_all add: f)
  next
    case False
    then have "ev_id ev \<notin> {evid_invalid, evid_playback_complete, evid_playback_failed, evid_client_gone}"
      using ev by (cases ev) auto
    then show ?thesis by (rule good_event [OF gs cl'])
  qed
  then show ?thesis
    using cl by (simp add: fire_scheduled_event_def)
qed
subsection \<open>Creation and destruction\<close>

lemma good_calm: "pb_good st \<Longrightarrow> calm st st' \<Longrightarrow> pb_good st'"
  by (auto simp: pb_good_def pb_inv_def resting_def calm_def cores_def clients_ok_mono
      intro: reqs_ok_mono)

lemma good_then_calm: "pb_good st \<Longrightarrow> post (calm st) m \<Longrightarrow> post pb_good m"
  using good_calm by (blast intro: post_mono)

lemma calm_cores: "calm st st' \<Longrightarrow> cores st' = cores st"
  by (simp add: calm_def cores_def)

text \<open>The requests and tasks of a client go with it.\<close>

lemma good_remove:
  assumes "pb_good st" and cs: "cores st' = filter (\<lambda>p. fst p \<noteq> a) (cores st)"
    and rs: "pb_reqs st' = filter (\<lambda>p. rq_cl (snd p) \<noteq> a) (pb_reqs st)"
    and "pb_trid st' = pb_trid st" and n: "pb_nalloc st \<le> pb_nalloc st'"
    and ks: "set (rtasks st') \<subseteq> set (rtasks st)"
      "\<And>b. opens (pb_reqs st) (rtasks st') b \<le> opens (pb_reqs st) (rtasks st) b"
      "\<And>q. (a, q) \<notin> set (rtasks st')"
    and "sched_ok st'"
  shows "pb_good st'"
proof -
  note g = good_parts [OF assms(1)]
  have "clients_ok (cores st') (pb_nalloc st')"
    using clients_ok_mono [OF g(1) n] unfolding cs by (auto simp: clients_ok_def distinct_map_filter)
  moreover have "reqs_ok (cores st') (pb_reqs st') (pb_trid st') (pb_nalloc st')"
  proof -
    have "reqs_ok (cores st) (pb_reqs st') (pb_trid st) (pb_nalloc st')"
      unfolding rs by (rule reqs_ok_filter [OF reqs_ok_mono [OF g(2) n refl]])
    moreover have "rq_cl r \<in> fst ` set (cores st')"
      if "(q, r) \<in> set (pb_reqs st')" and "rq_cl r \<in> fst ` set (cores st)" for q r
      using that unfolding rs cs by force
    ultimately show ?thesis unfolding reqs_ok_def assms(4) by fast
  qed
  moreover have "replies_ok (pb_reqs st') (rtasks st')"
    unfolding replies_ok_def
  proof (clarify)
    fix b q assume k: "(b, q) \<in> set (rtasks st')"
    then obtain r where "(q, r) \<in> set (pb_reqs st)" "rq_cl r = b" "\<not> rq_waiting r"
      using replies_okD [OF g(3)] ks(1) by blast
    moreover have "b \<noteq> a" using k ks(3) by auto
    ultimately show "\<exists>r. (q, r) \<in> set (pb_reqs st') \<and> rq_cl r = b \<and> \<not> rq_waiting r"
      unfolding rs by auto
  qed
  moreover have "one_open (cores st') (pb_reqs st') (rtasks st')"
    unfolding one_open_def
  proof
    fix b
    show "opens (pb_reqs st') (rtasks st') b \<le> (if deciding (cores st') b then 1 else 0)"
    proof (cases "b = a")
      case True
      then have "opens (pb_reqs st') (rtasks st') b = 0"
        using ks(3) unfolding rs opens_def by (auto simp: filter_empty_conv)
      then show ?thesis by simp
    next
      case False
      have "opens (pb_reqs st') (rtasks st') b \<le> opens (pb_reqs st) (rtasks st) b"
        unfolding rs by (rule le_trans [OF opens_filter ks(2)])
      moreover have "deciding (cores st') b = deciding (cores st) b"
        using False unfolding cs deciding_def by simp
      ultimately show ?thesis using one_openD [OF g(4), of b] by simp
    qed
  qed
  moreover have "resting st'" using assms(1) unfolding cs pb_good_def resting_def by auto
  ultimately show ?thesis using assms(9) by (simp add: pb_good_def pb_inv_def)
qed

lemma process_gone:
  assumes "pb_good st" and "get_client st a = Some cl"
  shows "post (\<lambda>st'. \<exists>s. enters st a s (pb_reqs st) (rtasks st) st') (process E a (Ev evid_client_gone) st)"
proof -
  note c = good_client [OF assms]
  show ?thesis
    by (rule post_mono [OF process_calm [OF assms(2) c(1)]]) auto
qed

text \<open>Steps that touch neither the clients nor the idle sources.\<close>

definition quietly :: "'s pstate \<Rightarrow> 's pstate \<Rightarrow> bool" where
  "quietly st st' \<longleftrightarrow>
     pb_clients st' = pb_clients st \<and> pb_idle st' = pb_idle st \<and> pb_reqs st' = pb_reqs st \<and>
     pb_trid st' = pb_trid st \<and> pb_nalloc st' = pb_nalloc st"

lemma quietly_delete: "post (quietly st) (client_delete_factsore_entry E cl st)"
  unfolding client_delete_factsore_entry_def
  by (rule post_option post_bind [OF post_any] post_prod post_Some | simp add: quietly_def)+

lemma quietly_watch: "quietly st (dbusif_watch_client E d w st)"
  by (simp add: quietly_def dbusif_watch_client_def pb_send_def pb_note_def)

lemma sched_ok_subset:
  assumes "sched_ok st" and "set (pb_idle st') \<subseteq> set (pb_idle st)"
    and "\<And>i b ev. (i, Fire_scheduled b ev) \<in> set (pb_idle st') \<Longrightarrow> get_client st' b = get_client st b"
  shows "sched_ok st'"
  unfolding sched_ok_def
proof (intro allI impI)
  fix i b ev assume t: "(i, Fire_scheduled b ev) \<in> set (pb_idle st')"
  then have "(i, Fire_scheduled b ev) \<in> set (pb_idle st)" using assms(2) by blast
  from sched_okD [OF assms(1) this] assms(3) [OF t]
  show "i \<noteq> 0 \<and> sched_event ev \<and> (\<exists>cl. get_client st' b = Some cl \<and> sched (cl_sm cl) = i)" by simp
qed

text \<open>The end of \<open>client_destroy\<close>, from the state without the client's scheduled event.\<close>

lemma good_drop:
  assumes "pb_good st" and e: "enters st a s (pb_reqs st) (rtasks st) st1"
    and idle: "\<exists>P. pb_idle st' = filter P (pb_idle st1)" and cl: "get_client st1 a = Some cl"
    and nt: "\<And>ev. (sched (cl_sm cl), Fire_scheduled a ev) \<notin> set (pb_idle st')"
    and f: "pb_clients st' = filter (\<lambda>(k, c). k \<noteq> a) (pb_clients st1)"
      "pb_reqs st' = filter (\<lambda>(q, r). rq_cl r \<noteq> a) (pb_reqs st1)" "pb_trid st' = pb_trid st1"
      "pb_nalloc st' = pb_nalloc st1"
  shows "pb_good st'"
proof (rule good_remove [OF assms(1), where a = a])
  have so: "sched_ok st1" using e good_parts(5) [OF assms(1)] by (simp add: enters_def)
  obtain P where P: "pb_idle st' = filter P (pb_idle st1)" using idle by blast
  then have sub: "set (pb_idle st') \<subseteq> set (pb_idle st1)" by auto
  have na: "(i, Fire_scheduled a ev) \<notin> set (pb_idle st')" for i ev
  proof
    assume t: "(i, Fire_scheduled a ev) \<in> set (pb_idle st')"
    then have "sched (cl_sm cl) = i" using sched_okD [OF so] sub cl by fastforce
    then show False using nt t by blast
  qed
  have r1: "rtasks st1 = rtasks st" using e by (simp add: enters_def)
  have rt: "rtasks st' = List.map_filter reply_task (filter P (pb_idle st1))"
    unfolding rtasks_def P ..
  have "cores st' = filter (\<lambda>p. fst p \<noteq> a) (cores st1)"
    unfolding cores_def f(1) filter_map by (rule arg_cong [where f = "map core_client"])
      (simp add: o_def core_client_def split_beta')
  also have "\<dots> = filter (\<lambda>p. fst p \<noteq> a) (cores st)"
  proof -
    have "filter (\<lambda>p. fst p \<noteq> a) (setcore a s cs) = filter (\<lambda>p. fst p \<noteq> a) cs" for cs
      by (induction cs) (auto simp: setcore_def split: if_splits)
    then show ?thesis using e by (simp add: enters_def)
  qed
  finally show "cores st' = filter (\<lambda>p. fst p \<noteq> a) (cores st)" .
  show "pb_reqs st' = filter (\<lambda>p. rq_cl (snd p) \<noteq> a) (pb_reqs st)"
    using e f(2) by (simp add: enters_def split_beta')
  show "pb_trid st' = pb_trid st" "pb_nalloc st \<le> pb_nalloc st'"
    using e f by (simp_all add: enters_def)
  show "set (rtasks st') \<subseteq> set (rtasks st)"
    unfolding r1 [symmetric] rt unfolding rtasks_def by (auto simp: List.map_filter_def)
  show "opens (pb_reqs st) (rtasks st') b \<le> opens (pb_reqs st) (rtasks st) b" for b
  proof -
    have "length (filter Q (List.map_filter reply_task (filter P ts))) \<le>
        length (filter Q (List.map_filter reply_task ts))" for Q ts
      by (induction ts) (auto simp: List.map_filter_simps split: option.split)
    then show ?thesis unfolding opens_def r1 [symmetric] rt by (simp add: rtasks_def)
  qed
  show "(a, q) \<notin> set (rtasks st')" for q
  proof
    assume "(a, q) \<in> set (rtasks st')"
    then obtain x where x: "x \<in> set (pb_idle st')" "reply_task x = Some (a, q)"
      by (auto simp: rtasks_def List.map_filter_def)
    then show False using na by (cases x rule: reply_task.cases) auto
  qed
  show "sched_ok st'"
  proof (rule sched_ok_subset [OF so sub])
    fix i b ev assume "(i, Fire_scheduled b ev) \<in> set (pb_idle st')"
    then have "b \<noteq> a" using na by auto
    moreover have "map_of (filter (\<lambda>(k, c). k \<noteq> a) cs) b = map_of cs b" if "b \<noteq> a" for cs :: "(addr \<times> client) list"
      using that by (induction cs) auto
    ultimately show "get_client st' b = get_client st1 b" by (simp add: get_client_def f(1))
  qed
qed

lemma good_destroy:
  assumes "pb_good st" and "get_client st a = Some c0"
  shows "post pb_good (client_destroy E a st)"
  unfolding client_destroy_def
proof (rule post_bind [OF process_gone [OF assms]], elim exE)
  fix st1 s assume e: "enters st a s (pb_reqs st) (rtasks st) st1"
  have g1: "\<exists>cl. get_client st1 a = Some cl \<and> \<not> busy (cl_sm cl)"
  proof -
    have "fst ` set (cores st1) = fst ` set (cores st)" using e by (simp add: enters_def)
    then obtain d p u z where m: "(a, d, p, u, z) \<in> set (cores st1)"
      using good_client(2) [OF assms] by force
    obtain cl where cl: "get_client st1 a = Some cl" using client_of_core [OF m] ..
    have "\<not> busy (cl_sm cl)"
      using core_of_client [OF cl] resting_enters [OF _ e] assms(1)
      by (auto simp: pb_good_def resting_def)
    with cl show ?thesis by blast
  qed
  then obtain cl where cl: "get_client st1 a = Some cl" "\<not> busy (cl_sm cl)" by blast
  define st2 where "st2 = (if sched (cl_sm cl) \<noteq> 0 then g_source_remove (sched (cl_sm cl)) st1 else st1)"
  have d: "sm_destroy a st1 = Some (True, st2)" using cl by (simp add: sm_destroy_def st2_def)
  have c2: "get_client st2 a = Some cl" "pb_clients st2 = pb_clients st1" "pb_reqs st2 = pb_reqs st1"
    "pb_trid st2 = pb_trid st1" "pb_nalloc st2 = pb_nalloc st1"
    using cl by (simp_all add: st2_def)
  have so: "sched_ok st1" using e good_parts(5) [OF assms(1)] by (simp add: enters_def)
  have i2: "\<exists>P. pb_idle st2 = filter P (pb_idle st1)"
    unfolding st2_def by (auto simp: g_source_remove_def intro: exI [of _ "\<lambda>_. True"])
  have n2: "(sched (cl_sm cl), Fire_scheduled a ev) \<notin> set (pb_idle st2)" for ev
    using sched_okD [OF so] by (auto simp: st2_def g_source_remove_def)
  show "post pb_good (do {
       (_, st2) \<leftarrow> sm_destroy a st1;
       cl \<leftarrow> get_client st2 a;
       st3 \<leftarrow> client_delete_factsore_entry E cl st2;
       (let st4 = dbusif_watch_client E (cl_dbusid cl) False (pbreq_purge a st3);
            st5 = (if evsrc (cl_rqsetst cl) \<noteq> 0 then g_source_remove (evsrc (cl_rqsetst cl)) st4
                   else st4);
            st6 = (if evsrc (cl_rqplayhint cl) \<noteq> 0
                   then g_source_remove (evsrc (cl_rqplayhint cl)) st5 else st5)
        in Some (st6\<lparr>pb_clients := filter (\<lambda>(k, c). k \<noteq> a) (pb_clients st6)\<rparr>)) })"
    unfolding d c2(1) bind.bind_lunit prod.case
  proof (rule post_bind [OF quietly_delete], unfold Let_def, rule post_Some)
    fix st3 assume q3: "quietly st2 st3"
    let ?s4 = "dbusif_watch_client E (cl_dbusid cl) False (pbreq_purge a st3)"
    let ?r = "\<lambda>i t. if i \<noteq> 0 then g_source_remove i t else t"
    let ?s6 = "?r (evsrc (cl_rqplayhint cl)) (?r (evsrc (cl_rqsetst cl)) ?s4)"
    have q4: "quietly (pbreq_purge a st3) ?s4" by (rule quietly_watch)
    obtain P where P: "pb_idle st2 = filter P (pb_idle st1)" using i2 by blast
    have i6: "\<exists>Q. pb_idle ?s6 = filter Q (pb_idle ?s4)"
      by (auto simp: g_source_remove_def intro: exI [of _ "\<lambda>_. True"])
    then obtain Q where Q: "pb_idle ?s6 = filter Q (pb_idle ?s4)" by blast
    have i4: "pb_idle ?s4 = pb_idle st2"
      using q3 q4 by (simp add: quietly_def pbreq_purge_def)
    show "pb_good (?s6\<lparr>pb_clients := filter (\<lambda>(k, c). k \<noteq> a) (pb_clients ?s6)\<rparr>)"
    proof (rule good_drop [OF assms(1) e _ cl(1)])
      have f: "pb_idle (?s6\<lparr>pb_clients := cs\<rparr>) = filter Q (pb_idle st2)" for cs
        using Q i4 by simp
      show "\<exists>P. pb_idle (?s6\<lparr>pb_clients := filter (\<lambda>(k, c). k \<noteq> a) (pb_clients ?s6)\<rparr>) =
          filter P (pb_idle st1)"
        unfolding f P filter_filter by blast
      show "(sched (cl_sm cl), Fire_scheduled a ev) \<notin>
          set (pb_idle (?s6\<lparr>pb_clients := filter (\<lambda>(k, c). k \<noteq> a) (pb_clients ?s6)\<rparr>))" for ev
        unfolding f using n2 by auto
    qed (use q3 q4 c2 in \<open>simp_all add: quietly_def pbreq_purge_def split_beta'\<close>)
  qed
qed
lemma find_by_dbus_client:
  assumes "client_find_by_dbus d p st = Some a"
  obtains cl where "get_client st a = Some cl"
proof -
  have "a \<in> fst ` set (pb_clients st)"
    using assms by (force simp: client_find_by_dbus_def find_Some_iff split: if_splits dest: nth_mem)
  then obtain cl where "get_client st a = Some cl"
    unfolding get_client_def by (metis map_of_eq_None_iff not_None_eq)
  then show thesis by (rule that)
qed

lemma find_by_dbus_none:
  assumes "client_find_by_dbus (Some d) (Some p) st = None"
  shows "(Some d, Some p) \<notin> set (map (\<lambda>(a, d, p, x). (d, p)) (cores st))"
proof
  assume "(Some d, Some p) \<in> set (map (\<lambda>(a, d, p, x). (d, p)) (cores st))"
  then obtain a c where "(a, c) \<in> set (pb_clients st)" "cl_dbusid c = Some d" "cl_object c = Some p"
    by (auto simp: cores_def core_client_def)
  then show False
    using assms by (fastforce simp: client_find_by_dbus_def find_None_iff)
qed

lemma good_new_client:
  assumes "pb_good st" and "pb_nalloc st = a" and "client_find_by_dbus (Some d) (Some p) st = None"
    and cl: "cl_dbusid cl = Some d" "cl_object cl = Some p" "stid (cl_sm cl) = stid_invalid"
      "\<not> busy (cl_sm cl)"
    and n: "a < n"
  shows "pb_good (st\<lparr>pb_nalloc := n, pb_clients := pb_clients st @ [(a, cl)]\<rparr>)"
proof -
  note g = good_parts [OF assms(1)]
  let ?s = "st\<lparr>pb_nalloc := n, pb_clients := pb_clients st @ [(a, cl)]\<rparr>"
  have cs: "cores ?s = cores st @ [(a, Some d, Some p, stid_invalid, False)]"
    by (simp add: cores_def core_client_def cl)
  have na: "a \<notin> fst ` set (cores st)" using g(1) assms(2) by (auto simp: clients_ok_def)
  have c: "clients_ok (cores ?s) n"
    using g(1) na n assms(2) find_by_dbus_none [OF assms(3)] unfolding cs
    by (auto simp: clients_ok_def)
  have "reqs_ok (cores st) (pb_reqs st) (pb_trid st) n"
    by (rule reqs_ok_mono [OF g(2)]) (use n assms(2) in simp_all)
  then have r: "reqs_ok (cores ?s) (pb_reqs st) (pb_trid st) n"
    unfolding cs reqs_ok_def by fastforce
  have d: "deciding (cores ?s) b = deciding (cores st) b" for b
    unfolding cs deciding_def by auto
  have "sched_ok ?s"
    unfolding sched_ok_def
  proof (intro allI impI)
    fix i b ev assume "(i, Fire_scheduled b ev) \<in> set (pb_idle ?s)"
    then have "(i, Fire_scheduled b ev) \<in> set (pb_idle st)" by simp
    from sched_okD [OF g(5) this]
    show "i \<noteq> 0 \<and> sched_event ev \<and> (\<exists>cl. get_client ?s b = Some cl \<and> sched (cl_sm cl) = i)"
      by (auto simp: get_client_def map_add_def)
  qed
  moreover have "resting ?s" using assms(1) cs by (auto simp: pb_good_def resting_def)
  moreover have "one_open (cores ?s) (pb_reqs st) (rtasks st)"
    using g(4) by (simp add: one_open_def d)
  moreover have "rtasks ?s = rtasks st" by (simp add: rtasks_def)
  ultimately show ?thesis using c r g(3) by (simp add: pb_good_def pb_inv_def)
qed

lemma good_create:
  assumes "pb_good st"
  shows "post (\<lambda>(ao, st'). pb_good st' \<and> (\<forall>a. ao = Some a \<longrightarrow> get_client st' a \<noteq> None))
    (client_create E d p pid stream st)"
proof (cases "client_find_by_dbus (Some d) (Some p) st")
  case (Some a)
  then show ?thesis
    using assms by (auto simp: client_create_def post_Some elim: find_by_dbus_client)
next
  case None
  let ?s1 = "st\<lparr>pb_nalloc := pb_nalloc st + 1\<rparr>" and ?s2 = "st\<lparr>pb_nalloc := pb_nalloc st + 2\<rparr>"
  have c: "calm st ?s1" "calm st ?s2"
    by (simp_all add: calm_def rtasks_def sched_ok_def get_client_def)
  note gs = good_calm [OF assms c(1)] good_calm [OF assms c(2)]
  show ?thesis
  proof (cases "pb_malloc E (pb_nalloc st) \<and> pb_malloc E (pb_nalloc st + 1)")
    case False
    then show ?thesis
      using None gs by (auto simp: client_create_def pb_alloc_def post_Some split: option.split)
  next
    case True
    let ?cl = "new_client (Some d) (Some p) pid stream (take 255 (d @ '':'' @ after_slash p))"
    let ?a = "pb_nalloc st"
    let ?s3 = "dbusif_watch_client E (Some d) True
      (?s2\<lparr>pb_clients := pb_clients ?s2 @ [(?a, ?cl)]\<rparr>)"
    let ?s4 = "snd (client_add_factstore_entry E (Some d) (Some p) pid stream ?s3)"
    have g3: "pb_good (st\<lparr>pb_nalloc := ?a + 2, pb_clients := pb_clients st @ [(?a, ?cl)]\<rparr>)"
      by (rule good_new_client [OF assms refl None]) (simp_all add: new_client_def)
    have c4: "calm (st\<lparr>pb_nalloc := ?a + 2, pb_clients := pb_clients st @ [(?a, ?cl)]\<rparr>) ?s4"
      unfolding client_add_factstore_entry_def Let_def split_beta snd_conv
      by (rule calm_pb_fs, rule calm_senders) simp
    have g4: "pb_good ?s4" by (rule good_calm [OF g3 c4])
    have "?a \<in> fst ` set (cores ?s4)"
      unfolding calm_cores [OF c4] by (simp add: cores_def core_client_def)
    then obtain cl4 where cl4: "get_client ?s4 ?a = Some cl4"
      using client_of_core [of ?a _ _ _ _ ?s4] by fastforce
    have r: "client_create E d p pid stream st =
        (if fst (client_add_factstore_entry E (Some d) (Some p) pid stream ?s3)
         then Some (Some ?a, ?s4) else do { st5 \<leftarrow> client_destroy E ?a ?s4; Some (None, st5) })"
      using None True by (simp add: client_create_def pb_alloc_def Let_def split_beta)
    show ?thesis
      unfolding r
      apply (rule post_if, rule post_Some)
      using g4 cl4 apply blast
      apply (rule post_bind [OF good_destroy [OF g4 cl4]], rule post_Some, simp)
      done
  qed
qed

lemma good_purge: "pb_good st \<Longrightarrow> post pb_good (purge_loop E d as st)"
proof (induction as arbitrary: st)
  case (Cons a as)
  show ?case
  proof (cases "get_client st a")
    case (Some cl)
    have "post pb_good (if cl_dbusid cl = Some d then client_destroy E a st else Some st)"
      by (rule post_if, rule good_destroy [OF Cons.prems Some], rule post_Some, rule Cons.prems)
    then have "post pb_good (do { st1 \<leftarrow> (if cl_dbusid cl = Some d then client_destroy E a st else Some st);
        purge_loop E d as st1 })"
      by (rule post_bind) (rule Cons.IH)
    then show ?thesis by (simp add: Some)
  qed (simp add: post_None)
qed (simp add: post_Some)

lemma good_new_request:
  assumes "pb_good st" and "pb_nalloc st = q" and "q < n" and "get_client st (rq_cl r) \<noteq> None"
    and r: "rq_trid r = pb_trid st" "rq_type r = pbreq_state" "rq_name r \<noteq> None" "\<not> rq_waiting r"
  shows "pb_good (st\<lparr>pb_nalloc := n, pb_reqs := pb_reqs st @ [(q, r)], pb_trid := pb_trid st + 1\<rparr>)"
proof -
  note g = good_parts [OF assms(1)]
  let ?s = "st\<lparr>pb_nalloc := n, pb_reqs := pb_reqs st @ [(q, r)], pb_trid := pb_trid st + 1\<rparr>"
  obtain cl where "get_client st (rq_cl r) = Some cl" using assms(4) by blast
  then have m: "rq_cl r \<in> fst ` set (cores st)" by (rule good_client(2) [OF assms(1)])
  have cs: "cores ?s = cores st" "rtasks ?s = rtasks st" by (simp_all add: cores_def rtasks_def)
  have "reqs_ok (cores st) (pb_reqs st) (pb_trid st) n"
    by (rule reqs_ok_mono [OF g(2)]) (use assms(2,3) in simp_all)
  then have r0: "reqs_ok (cores st) (pb_reqs st) (pb_trid st) n" .
  have "reqs_ok (cores st) (pb_reqs st @ [(q, r)]) (pb_trid st + 1) n"
  proof -
    have k: "q \<notin> fst ` set (pb_reqs st)" using g(2) assms(2) by (auto simp: reqs_ok_def)
    have t: "pb_trid st \<notin> set (map (\<lambda>(q, r). rq_trid r) (pb_reqs st))"
      using g(2) by (auto simp: reqs_ok_def)
    have t0: "0 < pb_trid st" using g(2) by (simp add: reqs_ok_def)
    have a: "\<forall>(q, r) \<in> set (pb_reqs st). 0 < rq_trid r \<and> rq_trid r < pb_trid st + 1 \<and>
        rq_type r = pbreq_state \<and> rq_name r \<noteq> None \<and> rq_cl r \<in> fst ` set (cores st)"
      using g(2) by (auto simp: reqs_ok_def)
    show ?thesis
      using r0 k t t0 a m r assms(3) unfolding reqs_ok_def by simp
  qed
  moreover have "replies_ok (pb_reqs st @ [(q, r)]) (rtasks st)"
    using g(3) by (fastforce simp: replies_ok_def)
  moreover have "opens (pb_reqs st @ [(q, r)]) (rtasks st) a = opens (pb_reqs st) (rtasks st) a" for a
    using r(4) by (simp add: opens_def)
  moreover have "clients_ok (cores st) n"
    by (rule clients_ok_mono [OF g(1)]) (use assms(2,3) in simp)
  moreover have "sched_ok ?s" using g(5) by (simp add: sched_ok_def get_client_def)
  moreover have "resting ?s" using assms(1) by (simp add: pb_good_def resting_def cs)
  ultimately show ?thesis
    using g(4) by (simp add: pb_good_def pb_inv_def cs one_open_def)
qed
subsection \<open>Every step keeps the invariant\<close>

lemma good_found:
  assumes "pb_good st" and "ev_id ev \<notin> {evid_invalid, evid_playback_complete, evid_playback_failed, evid_client_gone}"
  shows "post pb_good (case client_find_by_dbus d p st of None \<Rightarrow> Some st | Some a \<Rightarrow> process E a ev st)"
proof (rule post_option, rule post_Some, rule assms(1))
  fix a assume "client_find_by_dbus d p st = Some a"
  then obtain cl where "get_client st a = Some cl" by (rule find_by_dbus_client)
  then show "post pb_good (process E a ev st)" by (rule good_event [OF assms(1) _ assms(2)])
qed

lemma good_hello:
  assumes "pb_good st"
  shows "post pb_good (fire_hello_signal_event E d p st)"
  unfolding fire_hello_signal_event_def
proof (rule post_bind [OF good_create [OF assms]], clarsimp split: prod.splits)
  fix ao and st1 :: "'a pstate" assume a: "pb_good st1" "\<forall>a. ao = Some a \<longrightarrow> (\<exists>y. get_client st1 a = Some y)"
  show "post pb_good (ao \<bind> (\<lambda>a. process E a (Ev evid_hello_signal) st1))"
  proof (cases ao)
    case (Some b)
    then obtain cl where cl: "get_client st1 b = Some cl" using a(2) by blast
    have "post pb_good (process E b (Ev evid_hello_signal) st1)"
      by (rule good_event [OF a(1) cl]) simp
    then show ?thesis using Some by simp
  qed (simp add: post_None)
qed

lemma good_goodbye:
  assumes "pb_good st"
  shows "post pb_good (fire_client_gone_event E d p st)"
  unfolding fire_client_gone_event_def
proof (rule post_option, rule post_Some, rule assms)
  fix a assume "client_find_by_dbus (Some d) (Some p) st = Some a"
  then obtain cl where "get_client st a = Some cl" by (rule find_by_dbus_client)
  then show "post pb_good (client_destroy E a st)" by (rule good_destroy [OF assms])
qed

lemma good_state_signal:
  "pb_good st \<Longrightarrow> post pb_good (fire_state_signal_event E d p n v st)"
  unfolding fire_state_signal_event_def by (rule good_found) simp_all

lemma good_property_replies:
  assumes "pb_good st"
  shows "post pb_good (get_property_cb E d p n rply st)" and "post pb_good (set_property_cb E d p n v ok st)"
  unfolding get_property_cb_def set_property_cb_def read_property_cb_def write_property_cb_def
  by (cases rply; simp add: post_Some assms good_found) (simp add: post_Some assms good_found)

lemma good_request_state:
  assumes "pb_good st"
  shows "post pb_good (request_state E msg sender args st)"
proof (cases args)
  case None
  have "calm st (dbusif_reply_with_error E msg e d st)" for e d by (simp add: calm_senders)
  then show ?thesis using None good_calm [OF assms] by (simp add: request_state_def post_Some)
next
  case (Some x)
  obtain objpath new_state pid stream where x: "x = (objpath, new_state, pid, stream)" by (cases x)
  show ?thesis
  proof (cases "client_find_by_dbus (Some sender) (Some objpath) st")
    case None
    have "calm st (dbusif_reply_with_error E msg e d st)" for e d by (simp add: calm_senders)
    then show ?thesis using Some x None good_calm [OF assms] by (simp add: request_state_def post_Some)
  next
    case a: (Some a)
    obtain cl where cl: "get_client st a = Some cl" using a by (rule find_by_dbus_client)
    show ?thesis
    proof (cases "pb_malloc E (pb_nalloc st)")
      case False
      let ?s1 = "st\<lparr>pb_nalloc := pb_nalloc st + 1\<rparr>"
      have "calm st ?s1" by (simp add: calm_def rtasks_def sched_ok_def get_client_def)
      then have "calm st (dbusif_reply_with_error E msg e d ?s1)" for e d by (rule calm_senders)
      then show ?thesis using Some x a False good_calm [OF assms]
        by (simp add: request_state_def pbreq_create_def pb_alloc_def post_Some)
    next
      case True
      let ?q = "pb_nalloc st"
      let ?r = "\<lparr>rq_cl = a, rq_msg = msg, rq_trid = pb_trid st, rq_waiting = False,
        rq_type = pbreq_state, rq_name = Some new_state, rq_pid = Some pid,
        rq_stream = (if stream = [] then None else Some stream)\<rparr>"
      let ?s = "st\<lparr>pb_nalloc := ?q + 1, pb_reqs := pb_reqs st @ [(?q, ?r)], pb_trid := pb_trid st + 1\<rparr>"
      have gs: "pb_good ?s"
        by (rule good_new_request [OF assms refl]) (simp_all add: cl)
      have fresh: "(k, r) \<in> set (pb_reqs st) \<Longrightarrow> k \<noteq> ?q" for k r
        using good_parts(2) [OF assms] by (force simp: reqs_ok_def)
      have m: "map (\<lambda>(k, r). (k, if k = ?q then f r else r)) (pb_reqs st) = pb_reqs st" for f
        using fresh by (intro map_idI) auto
      have e: "request_state E msg sender args st = process E a (Ev evid_playback_request) ?s"
      proof -
        have o: "st\<lparr>pb_nalloc := n, pb_trid := t, pb_reqs := rs\<rparr> =
            st\<lparr>pb_nalloc := n, pb_reqs := rs, pb_trid := t\<rparr>" for n t rs
          by (cases st) simp
        show ?thesis
          using Some x a True
          by (simp add: request_state_def pbreq_create_def pb_alloc_def upd_req_def m o)
      qed
      have "get_client ?s a = Some cl" using cl by (simp add: get_client_def)
      then show ?thesis unfolding e by (rule good_event [OF gs]) simp
    qed
  qed
qed

lemma good_method:
  assumes "pb_good st"
  shows "post (\<lambda>p. pb_good (snd p)) (method_call E msg sender m st)"
proof -
  have p: "post (\<lambda>p. pb_good (snd p)) (map_option (Pair b) r)" if "post pb_good r" for b r
    using that by (simp add: post_map_option)
  have rp: "post pb_good (reply_policy E msg e res st)"
    if "\<And>r. res = Some r \<Longrightarrow> post (\<lambda>p. calm st (snd p)) r" for e res
    by (rule good_then_calm [OF assms post_calm_reply_policy [OF calm_refl that]])
  have pol: "post pb_good (reply_policy E msg e (map_option (\<lambda>b. dresif_privacy_override_request E b st) x) st)"
    "post pb_good (reply_policy E msg e (map_option (\<lambda>b. dresif_bluetooth_override_request E b st) x) st)"
    "post pb_good (reply_policy E msg e (map_option (\<lambda>b. dresif_mute_request E (if b then 1 else 0) st) x) st)"
    for e x
    by (rule rp, cases x, simp, force intro: post_calm_dresif [OF calm_refl])+
  note q = post_calm_queries [OF calm_refl, THEN good_then_calm [OF assms]]
  show ?thesis
    unfolding method_call_def
    by (cases m) (simp_all add: p q pol good_request_state [OF assms] post_Some assms)
qed

lemma good_idle_source:
  assumes "pb_good st" and t: "(i, t) \<in> set (pb_idle st)"
  shows "post pb_good (idle_source E t (g_source_remove i st))"
proof -
  let ?r = "g_source_remove i st"
  have r: "pb_good ?r" by (rule good_source_remove [OF assms(1)])
  show ?thesis
  proof (cases t)
    case (Fire_scheduled a ev)
    then show ?thesis using good_fire_scheduled [OF assms(1)] t by (simp add: idle_source_def)
  next
    case (Fire_setstate a)
    let ?s = "upd_client a (\<lambda>c. c\<lparr>cl_rqsetst := (cl_rqsetst c)\<lparr>evsrc := 0\<rparr>\<rparr>) ?r"
    have c: "calm ?r ?s" by (rule calm_set_evsrc) simp
    show ?thesis
    proof (cases "get_client ?r a")
      case (Some cl)
      then obtain cl' where cl': "get_client ?s a = Some cl'" by (simp add: get_client_upd)
      have "post pb_good (process E a (Ev_watch evid_setstate_changed v) ?s)" for v
        by (rule good_event [OF good_calm [OF r c] cl']) simp
      moreover have "post pb_good (schedule_deferred_request E a
          (upd_client a (client_save_state client_rqsetst None) ?s))"
        by (rule good_then_calm [OF good_calm [OF r c]], rule post_calm_deferred) simp
      ultimately show ?thesis
        using Fire_setstate Some good_calm [OF r c]
        by (simp add: idle_source_def fire_setstate_changed_event_def Let_def post_Some)
    qed (simp add: Fire_setstate idle_source_def fire_setstate_changed_event_def post_None)
  next
    case (Fire_playhint a)
    let ?s = "upd_client a (\<lambda>c. c\<lparr>cl_rqplayhint := (cl_rqplayhint c)\<lparr>evsrc := 0\<rparr>\<rparr>) ?r"
    have c: "calm ?r ?s" by (rule calm_set_evsrc) simp
    show ?thesis
    proof (cases "get_client ?r a")
      case (Some cl)
      then obtain cl' where cl': "get_client ?s a = Some cl'" by (simp add: get_client_upd)
      have "post pb_good (process E a (Ev_watch evid_playhint_changed v) ?s)" for v
        by (rule good_event [OF good_calm [OF r c] cl']) simp
      moreover have "post pb_good (schedule_deferred_request E a
          (upd_client a (client_save_playback_hint client_rqplayhint None) ?s))"
        by (rule good_then_calm [OF good_calm [OF r c]], rule post_calm_deferred) simp
      ultimately show ?thesis
        using Fire_playhint Some good_calm [OF r c]
        by (simp add: idle_source_def fire_playhint_changed_event_def Let_def post_Some)
    qed (simp add: Fire_playhint idle_source_def fire_playhint_changed_event_def post_None)
  qed
qed

lemma by_trid_mem: "pbreq_get_by_trid i st = Some (q, r) \<Longrightarrow> (q, r) \<in> set (pb_reqs st) \<and> rq_trid r = i"
proof -
  have "find P xs = Some x \<Longrightarrow> x \<in> set xs \<and> P x" for P and xs :: "'b list" and x
    by (induction xs) (auto split: if_splits)
  then show "pbreq_get_by_trid i st = Some (q, r) \<Longrightarrow> (q, r) \<in> set (pb_reqs st) \<and> rq_trid r = i"
    unfolding pbreq_get_by_trid_def by fastforce
qed
lemma good_completion:
  assumes "pb_good st" and "pb_allowed (On_completion trid ok) st"
  shows "post pb_good (completion_cb E trid ok st)"
proof (cases "pbreq_get_by_trid trid st")
  case None
  then show ?thesis using assms(1) by (simp add: completion_cb_def post_Some)
next
  case (Some p)
  obtain q r where p: "p = (q, r)" by (cases p)
  note g = good_parts [OF assms(1)]
  have m: "(q, r) \<in> set (pb_reqs st)" using by_trid_mem [of trid st q r] Some p by simp
  have w: "rq_waiting r" using assms(2) Some p by (simp add: pb_allowed_def)
  have "rq_cl r \<in> fst ` set (cores st)" using g(2) m by (auto simp: reqs_ok_def)
  then obtain d o' s z where "(rq_cl r, d, o', s, z) \<in> set (cores st)" by force
  then obtain cl where cl: "get_client st (rq_cl r) = Some cl" using client_of_core by blast
  have "opens (pb_reqs st) (rtasks st) (rq_cl r) \<noteq> 0"
    using opens_answered [OF m w refl, of "rtasks st"] by simp
  then have "deciding (cores st) (rq_cl r)" using opens_none [OF g(4), of "rq_cl r"] by linarith
  then show ?thesis
    unfolding completion_cb_def Some p option.case prod.case
    by (rule good_answer [OF assms(1) cl _ m refl]) (simp_all add: w)
qed

lemma good_step:
  assumes "pb_good st" and "pb_allowed e st"
  shows "post pb_good (pb_step E e st)"
proof -
  have pen: "pb_good (st\<lparr>pb_pending := ps\<rparr>)" for ps
    by (rule good_calm [OF assms(1)]) (rule calm_pending, simp)
  have sn: "post pb_good (map_option snd r)" if "post (\<lambda>p. pb_good (snd p)) r" for r :: "(bool \<times> 'a pstate) option"
    using that by (rule post_map_option)
  have pr: "post pb_good (map_option snd (map_option (Pair b) r))" if "post pb_good r" for b :: bool and r
    using that by (simp add: post_map_option option.map_comp o_def)
  show ?thesis
  proof (cases e)
    case (On_info i args)
    have "post (\<lambda>p. pb_good (snd p)) (info E i args st)"
      using post_calm_info [OF calm_refl] by (rule post_mono) (rule good_calm [OF assms(1)])
    then show ?thesis using On_info by (simp add: pb_step_def sn)
  next
    case (On_name_changed args)
    then show ?thesis
      using assms(1) by (auto simp: pb_step_def name_changed_def client_purge_def post_Some pr good_purge
          option.map_comp o_def option.map_ident split: option.split)
  next
    case (On_hello sender path)
    then show ?thesis by (simp add: pb_step_def hello_def pr good_hello assms(1) del: option.map_comp)
  next
    case (On_goodbye sender path)
    then show ?thesis by (simp add: pb_step_def goodbye_def pr good_goodbye assms(1) del: option.map_comp)
  next
    case (On_notify sender path args)
    then show ?thesis
      using assms(1) pr [OF good_state_signal [OF assms(1)]]
      by (auto simp: pb_step_def notify_def post_Some simp del: option.map_comp split: option.split)
  next
    case (On_method msg sender m)
    then show ?thesis by (simp add: pb_step_def sn good_method assms(1))
  next
    case (On_get_reply i rply)
    then show ?thesis
      using assms(1) by (auto simp: pb_step_def Let_def post_Some good_property_replies pen
          split: pending_call.split)
  next
    case (On_set_reply i ok)
    then show ?thesis
      using assms(1) by (auto simp: pb_step_def Let_def post_Some good_property_replies pen
          split: pending_call.split)
  next
    case (On_idle i)
    then show ?thesis
      using assms(1) by (auto simp: pb_step_def post_Some split: option.split
          intro: good_idle_source [OF assms(1)] dest: map_of_SomeD)
  next
    case (On_completion trid ok)
    then show ?thesis using good_completion assms by (simp add: pb_step_def)
  next
    case (On_fact ch)
    then show ?thesis
      using good_then_calm [OF assms(1) post_calm_fact_changed [OF calm_refl]] by (simp add: pb_step_def)
  next
    case (On_enforcement_point entr name w)
    then show ?thesis
      using good_then_calm [OF assms(1) post_calm_ep_cb [OF calm_refl]] by (simp add: pb_step_def)
  qed
qed

lemma reachable_good: "pb_reachable E s0 st \<Longrightarrow> pb_good st"
proof (induction rule: pb_reachable.induct)
  case init
  show ?case
    by (simp add: pb_init_def pb_good_def pb_inv_def resting_def cores_def rtasks_def clients_ok_def
        reqs_ok_def replies_ok_def one_open_def opens_def sched_ok_def List.map_filter_simps)
next
  case (step st e st')
  then show ?case using good_step by (blast dest: postD)
qed

subsection \<open>Answers arrive\<close>

text \<open>Computations that succeed and send nothing.\<close>

definition silent :: "'s pstate \<Rightarrow> 's pstate option \<Rightarrow> bool" where
  "silent st m \<longleftrightarrow> (\<exists>st'. m = Some st' \<and> pb_log st' = pb_log st \<and> pb_reqs st' = pb_reqs st \<and>
     map fst (pb_clients st') = map fst (pb_clients st))"

lemma get_client_some: "(\<exists>cl. get_client st a = Some cl) \<longleftrightarrow> a \<in> set (map fst (pb_clients st))"
  unfolding get_client_def set_map by (metis map_of_eq_None_iff not_None_eq)

lemma upd_client_addrs [simp]: "map fst (pb_clients (upd_client a f st)) = map fst (pb_clients st)"
  by (simp add: upd_client_def split_beta')

lemma silent_schedule:
  assumes "get_client st a = Some cl"
  shows "silent st (sm_schedule_event E a ev st)"
  using assms
  by (auto simp: sm_schedule_event_def silent_def pb_alloc_def g_idle_add_def upd_sm_def Let_def)

lemma silent_if: "(b \<Longrightarrow> silent st m) \<Longrightarrow> (\<not> b \<Longrightarrow> silent st n) \<Longrightarrow> silent st (if b then m else n)"
  by simp

lemma silent_deferred:
  assumes "get_client st a = Some cl"
  shows "silent st (schedule_deferred_request E a st)"
  unfolding schedule_deferred_request_def assms bind.bind_lunit Let_def split_beta
  by (intro silent_if silent_schedule [OF assms]) (simp_all add: silent_def g_idle_add_def Let_def)

lemma match_string_field:
  "match_field L s f (n, VString (Some x)) \<noteq> None"
  unfolding match_field_def Let_def prod.case fvalue_type.simps
  by (cases "snd (get_field L s f fldtype_string (Some n))")
    (auto split: fvalue.split option.split)

lemma find_string_fields:
  assumes "\<forall>se \<in> set sel. \<exists>n x. se = (n, VString (Some x))"
  shows "find_entry L s name (Some sel) \<noteq> None"
proof -
  have "match_fields L s f sel \<noteq> None" for f
    using assms
  proof (induction sel)
    case (Cons se sel)
    then obtain n x where "se = (n, VString (Some x))" by auto
    then show ?case
      using Cons match_string_field [of L s f n x] by (auto split: option.split bool.split)
  qed simp
  then have "first_match L s (Some sel) fs \<noteq> None" for fs
    by (induction fs) (auto simp: matching_entry_def split: option.split bool.split)
  then show ?thesis by (simp add: find_entry_def)
qed

lemma init_selist_strings:
  "init_selist cl n = Some sel \<Longrightarrow> \<forall>se \<in> set sel. \<exists>n x. se = (n, VString (Some x))"
  by (auto simp: init_selist_def split: if_splits option.splits)

lemma silent_update_fact:
  assumes "get_client st a = Some cl"
  shows "silent st (update_client_fact E a n v st)"
proof (cases "init_selist cl SELIST_DIM")
  case None
  then show ?thesis
    using assms by (simp add: update_client_fact_def client_update_factstore_entry_def silent_def)
next
  case (Some sel)
  then have "find_entry (pb_lib E) (pb_fs st) FACTSTORE_PLAYBACK (Some sel) \<noteq> None"
    by (intro find_string_fields init_selist_strings)
  then show ?thesis
    using assms Some by (auto simp: update_client_fact_def client_update_factstore_entry_def
        fsif_update_factstore_entry_def silent_def split: option.split)
qed
text \<open>What the plugin sends for a decided request.\<close>

definition verdict :: "sm_evid \<Rightarrow> pbreq \<Rightarrow> pb_action" where
  "verdict e r =
     (if e = evid_playback_complete then Reply_state (rq_msg r) (rq_name r)
      else Reply_error (rq_msg r) DBUS_MAEMO_ERROR_DENIED ''state request change denied by policy'')"

definition answered_by :: "sm_evid \<Rightarrow> addr \<Rightarrow> pbreq \<Rightarrow> 's pstate \<Rightarrow> 's pstate option \<Rightarrow> bool" where
  "answered_by e q r st m \<longleftrightarrow> (\<exists>st'. m = Some st' \<and> pb_log st' = pb_log st @ [verdict e r] \<and>
     pb_reqs st' = filter (\<lambda>p. fst p \<noteq> q) (pb_reqs st) \<and>
     map fst (pb_clients st') = map fst (pb_clients st))"

lemma pbreq_destroy_reqs [simp]:
  "pb_reqs (pbreq_destroy (Some q) st) = filter (\<lambda>p. fst p \<noteq> q) (pb_reqs st)"
  "pb_log (pbreq_destroy (Some q) st) = pb_log st"
  "pb_clients (pbreq_destroy (Some q) st) = pb_clients st"
  by (simp_all add: pbreq_destroy_def split_beta')

lemma answered_reply:
  assumes "map_of (pb_reqs st) q = Some r" and "rq_type r = pbreq_state" and "\<And>l. pb_send_ok E l"
  shows "answered_by evid_playback_complete q r st (reply_pbreq E (Ev_pbreply i q) a st)"
  using assms
  by (simp add: reply_pbreq_def answered_by_def dbusif_reply_to_req_state_def pb_send_def pb_note_def
      verdict_def)

lemma answered_then_silent:
  assumes "answered_by e q r st m" and "\<And>st'. map fst (pb_clients st') = map fst (pb_clients st) \<Longrightarrow>
    silent st' (f st')"
  shows "answered_by e q r st (m \<bind> f)"
proof -
  obtain s1 where s1: "m = Some s1" "pb_log s1 = pb_log st @ [verdict e r]"
    "pb_reqs s1 = filter (\<lambda>p. fst p \<noteq> q) (pb_reqs st)" "map fst (pb_clients s1) = map fst (pb_clients st)"
    using assms(1) unfolding answered_by_def by blast
  from assms(2) [OF s1(4)] obtain s2 where "f s1 = Some s2" "pb_log s2 = pb_log s1"
    "pb_reqs s2 = pb_reqs s1" "map fst (pb_clients s2) = map fst (pb_clients s1)"
    unfolding silent_def by blast
  with s1 show ?thesis unfolding answered_by_def by simp
qed

lemma answered_deq:
  assumes "get_client st a = Some cl" and "map_of (pb_reqs st) q = Some r"
    and "rq_type r = pbreq_state" and "\<And>l. pb_send_ok E l"
  shows "answered_by evid_playback_complete q r st (reply_pbreq_deq E (Ev_pbreply i q) a st)"
  unfolding reply_pbreq_deq_def
proof (rule answered_then_silent [OF answered_reply [OF assms(2-4)]])
  fix st' :: "'a pstate" assume "map fst (pb_clients st') = map fst (pb_clients st)"
  then obtain cl' where "get_client st' a = Some cl'"
    using assms(1) get_client_some [of st' a] get_client_some [of st a] by auto
  then show "silent st' (schedule_deferred_request E a st')" by (rule silent_deferred)
qed

lemma answered_abort:
  assumes "get_client st a = Some cl" and "map_of (pb_reqs st) q = Some r"
    and "rq_type r = pbreq_state" and "\<And>l. pb_send_ok E l"
  shows "answered_by evid_playback_failed q r st (abort_pbreq_deq E (Ev_pbreply evid_playback_failed q) a st)"
proof -
  let ?v = "buf_copy (client_get_state cl client_setstate) 64"
  let ?s = "upd_client a (client_save_state client_state (Some ?v)) st"
  obtain c1 where "get_client ?s a = Some c1" using assms(1) by (simp add: get_client_upd)
  from silent_update_fact [OF this, of E "''state''" "Some ?v"]
  obtain s1 where s1: "update_client_fact E a ''state'' (Some ?v) ?s = Some s1"
    "pb_log s1 = pb_log st" "pb_reqs s1 = pb_reqs st" "map fst (pb_clients s1) = map fst (pb_clients st)"
    by (auto simp: silent_def)
  let ?s2 = "pbreq_destroy (Some q) (dbusif_reply_with_error E (rq_msg r) (Some DBUS_MAEMO_ERROR_DENIED)
    ''state request change denied by policy'' s1)"
  have e: "abort_pbreq_deq E (Ev_pbreply evid_playback_failed q) a st =
      Some ?s2 \<bind> schedule_deferred_request E a"
    using assms s1(1) by (simp add: abort_pbreq_deq_def update_state_def Let_def)
  have "answered_by evid_playback_failed q r st (Some ?s2)"
    using s1 assms(4) by (simp add: answered_by_def dbusif_reply_with_error_def pb_send_def pb_note_def
        verdict_def)
  then show ?thesis
    unfolding e
  proof (rule answered_then_silent)
    fix st' :: "'a pstate" assume "map fst (pb_clients st') = map fst (pb_clients st)"
    then obtain cl' where "get_client st' a = Some cl'"
      using assms(1) get_client_some [of st' a] get_client_some [of st a] by auto
    then show "silent st' (schedule_deferred_request E a st')" by (rule silent_deferred)
  qed
qed

lemma process_answers:
  assumes "get_client st a = Some cl" and "\<not> busy (cl_sm cl)"
    and "stid (cl_sm cl) = stid_pbreq \<or> stid (cl_sm cl) = stid_acked_pbreq"
    and "map_of (pb_reqs st) q = Some r" and "rq_type r = pbreq_state" and "\<And>l. pb_send_ok E l"
    and "e = evid_playback_complete \<or> e = evid_playback_failed"
  shows "answered_by e q r st (process E a (Ev_pbreply e q) st)"
proof -
  let ?b = "upd_sm a (busy_update (\<lambda>_. True)) st"
  obtain c1 where c1: "get_client ?b a = Some c1"
    using assms(1) by (simp add: upd_sm_def get_client_upd)
  have b: "pb_reqs ?b = pb_reqs st" "pb_log ?b = pb_log st"
    "map fst (pb_clients ?b) = map fst (pb_clients st)" by (simp_all add: upd_sm_def)
  have m: "map_of (pb_reqs ?b) q = Some r" using assms(4) b by simp
  obtain f n where f: "sm_def (stid (cl_sm cl)) e = (Some f, n)" "e \<noteq> evid_invalid"
    and a: "\<exists>m. run_transition E f (Ev_pbreply e q) a ?b = map_option (Pair True) m \<and> answered_by e q r ?b m"
    using assms(3,7) answered_reply [OF m assms(5,6)] answered_deq [OF c1 m assms(5,6)]
      answered_abort [OF c1 m assms(5,6)]
    by (elim disjE) (fastforce simp: sm_def_def run_transition_def)+
  then obtain s2 where s2: "run_transition E f (Ev_pbreply e q) a ?b = Some (True, s2)"
    "answered_by e q r ?b (Some s2)" by (auto simp: answered_by_def)
  then have "process E a (Ev_pbreply e q) st = Some (upd_sm a (\<lambda>x. x\<lparr>stid := n, busy := False\<rparr>) s2)"
    using assms(1,2) f by (simp add: process_def sm_process_event_def Let_def)
  then show ?thesis using s2(2) b by (simp add: answered_by_def upd_sm_def)
qed
lemma request_parts:
  assumes "pb_good st" and "(q, r) \<in> set (pb_reqs st)"
  shows "map_of (pb_reqs st) q = Some r" and "pbreq_get_by_trid (rq_trid r) st = Some (q, r)"
    and "rq_type r = pbreq_state" and "\<exists>cl. get_client st (rq_cl r) = Some cl"
proof -
  note g = good_parts [OF assms(1)]
  show m: "map_of (pb_reqs st) q = Some r"
    using g(2) assms(2) by (auto simp: reqs_ok_def intro: map_of_is_SomeI)
  have d: "distinct (map (\<lambda>(q, r). rq_trid r) (pb_reqs st))" using g(2) by (simp add: reqs_ok_def)
  have "find (\<lambda>(k, x). rq_trid x = rq_trid r) rs = Some (q, r)"
    if "distinct (map (\<lambda>(q, r). rq_trid r) rs)" and "(q, r) \<in> set rs" for rs
    using that by (induction rs) force+
  from this [OF d assms(2)]
  show "pbreq_get_by_trid (rq_trid r) st = Some (q, r)" by (simp add: pbreq_get_by_trid_def)
  have c: "rq_type r = pbreq_state \<and> rq_cl r \<in> fst ` set (cores st)"
    using g(2) assms(2) by (auto simp: reqs_ok_def)
  then show "rq_type r = pbreq_state" ..
  from c obtain d o' s z where "(rq_cl r, d, o', s, z) \<in> set (cores st)" by force
  then show "\<exists>cl. get_client st (rq_cl r) = Some cl" by (rule client_of_core)
qed

end
