(* ===== verification/Playback_Properties.thy ===== *)
theory Playback_Properties
  imports Playback_Requests
begin

text \<open>
  The properties of the playback plugin over the states its main loop can reach, and a concrete
  history for each: a client says hello, reports its properties and asks to play.
\<close>

subsection \<open>A history\<close>

fun pb_run :: "('s, 'f) penv \<Rightarrow> 'f pb_event list \<Rightarrow> 's pstate \<Rightarrow> 's pstate option" where
  "pb_run E [] st = Some st"
| "pb_run E (e # es) st =
     (if pb_allowed e st then do { st1 \<leftarrow> pb_step E e st; pb_run E es st1 } else None)"

lemma reachable_run: "pb_run E es st = Some st' \<Longrightarrow> pb_reachable E s0 st \<Longrightarrow> pb_reachable E s0 st'"
  by (induction es arbitrary: st) (auto simp: bind_eq_Some_conv intro: pb_reachable.step split: if_splits)

text \<open>An environment without facts, in which everything succeeds.\<close>

definition test_ohmlib :: "(unit, unit) ohmlib" where
  "test_ohmlib = \<lparr>get_facts_by_name = (\<lambda>_ _. []), store_insert = (\<lambda>_ s. (True, s)),
     store_remove = (\<lambda>_ s. s), object_unref = (\<lambda>_ s. s), fact_new = (\<lambda>_ s. (Some (), s)),
     fact_name = (\<lambda>_ _. ''''), fact_get = (\<lambda>_ _ _. None), fact_set = (\<lambda>_ _ _ s. s),
     value_from_string = (\<lambda>_. GLong 0), value_from_int = (\<lambda>_. GLong 0),
     value_from_unsigned = (\<lambda>_. GLong 0), value_from_double = (\<lambda>_. GLong 0),
     value_from_time = (\<lambda>_. GLong 0), value_from_pointer = (\<lambda>_. GLong 0)\<rparr>"

definition test_penv :: "(unit, unit) penv" where
  "test_penv = \<lparr>pb_lib = test_ohmlib, pb_malloc = (\<lambda>_. True),
     pb_idle_add = (\<lambda>ts. word_of_nat (length ts + 1)), pb_send_ok = (\<lambda>_. True),
     pb_resolve = (\<lambda>_ _ _. (1, []))\<rparr>"

definition test_setup :: "unit pb_event list" where
  "test_setup = [On_hello '':1'' ''/a'', On_get_reply 0 (Reply_value ''12''),
     On_get_reply 0 (Reply_value ''Media''), On_get_reply 0 (Reply_value ''Stop''),
     On_get_reply 0 (Reply_value ''1''), On_idle 1]"

definition test_play :: "unit pb_event" where
  "test_play = On_method 7 '':1'' (Req_state (Some (''/a'', ''Play'', ''12'', '''')))"

definition test_waiting :: "unit pstate" where
  "test_waiting = the (pb_run test_penv (test_setup @ [test_play]) (pb_init ()))"

definition test_acked :: "unit pb_event list" where
  "test_acked = test_setup @ [test_play, On_completion 1 True,
     On_notify '':1'' ''/a'' (Some (''org.maemo.Playback'', ''State'', ''Play''))]"

text \<open>The same request again is decided at once.\<close>

definition test_scheduled :: "unit pstate" where
  "test_scheduled = the (pb_run test_penv (test_acked @ [test_play]) (pb_init ()))"

text \<open>The request is repeated before the client has acknowledged the first one, so its processing is
  scheduled when the acknowledgement arrives.\<close>

definition test_deferred :: "unit pstate" where
  "test_deferred = the (pb_run test_penv (test_setup @ [test_play, On_completion 1 True, test_play,
     On_notify '':1'' ''/a'' (Some (''org.maemo.Playback'', ''State'', ''Play''))]) (pb_init ()))"

lemma test_waiting_run: "pb_run test_penv (test_setup @ [test_play]) (pb_init ()) = Some test_waiting \<and>
    pb_reqs test_waiting = [(7, \<lparr>rq_cl = 0, rq_msg = 7, rq_trid = 1, rq_waiting = True,
      rq_type = pbreq_state, rq_name = Some ''Play'', rq_pid = Some ''12'', rq_stream = None\<rparr>)]"
  by code_simp

lemma test_scheduled_run: "pb_run test_penv (test_acked @ [test_play]) (pb_init ()) = Some test_scheduled \<and>
    pb_idle test_scheduled = [(1, Fire_scheduled 0 (Ev_pbreply evid_playback_complete 8))]"
  by code_simp

lemma test_deferred_run: "pb_run test_penv (test_setup @ [test_play, On_completion 1 True, test_play,
     On_notify '':1'' ''/a'' (Some (''org.maemo.Playback'', ''State'', ''Play''))]) (pb_init ()) =
     Some test_deferred \<and>
    pb_reqs test_deferred = [(8, \<lparr>rq_cl = 0, rq_msg = 7, rq_trid = 2, rq_waiting = False,
      rq_type = pbreq_state, rq_name = Some ''Play'', rq_pid = Some ''12'', rq_stream = None\<rparr>)] \<and>
    map (\<lambda>(a, c). (a, stid (cl_sm c), sched (cl_sm c), cl_setstate c, cl_pid c)) (pb_clients test_deferred) =
      [(0, stid_idle, 1, Some ''play'', Some ''12'')]"
  by code_simp

subsection \<open>Properties\<close>


text \<open>C5. A request that waits for the policy is answered by the completion of its transaction: with
  its state on success and an error on failure, by exactly one message, and it leaves the queue.\<close>

theorem completion_answers_request:
  assumes "pb_reachable E s0 st" and "(q, r) \<in> set (pb_reqs st)" and "rq_waiting r"
    and "\<And>l. pb_send_ok E l"
  shows "\<exists>st'. pb_step E (On_completion (rq_trid r) ok) st = Some st' \<and>
    pb_log st' = pb_log st @ [if ok then Reply_state (rq_msg r) (rq_name r)
      else Reply_error (rq_msg r) DBUS_MAEMO_ERROR_DENIED ''state request change denied by policy''] \<and>
    pb_reqs st' = filter (\<lambda>p. fst p \<noteq> q) (pb_reqs st)"
proof -
  have g: "pb_good st" by (rule reachable_good [OF assms(1)])
  note p = request_parts [OF g assms(2)]
  obtain cl where cl: "get_client st (rq_cl r) = Some cl" using p(4) ..
  have "opens (pb_reqs st) (rtasks st) (rq_cl r) \<noteq> 0"
    using opens_answered [OF assms(2,3) refl, of "rtasks st"] by simp
  then have "deciding (cores st) (rq_cl r)" using opens_none [OF good_parts(4) [OF g]] by metis
  then have s: "stid (cl_sm cl) = stid_pbreq \<or> stid (cl_sm cl) = stid_acked_pbreq"
    using good_client(3) [OF g cl] by simp
  let ?e = "if ok then evid_playback_complete else evid_playback_failed"
  have "answered_by ?e q r st (process E (rq_cl r) (Ev_pbreply ?e q) st)"
    by (rule process_answers [OF cl good_client(1) [OF g cl] s p(1,3) assms(4)]) simp
  moreover have "pb_step E (On_completion (rq_trid r) ok) st =
      process E (rq_cl r) (Ev_pbreply ?e q) st"
    by (simp add: pb_step_def completion_cb_def p(2))
  ultimately show ?thesis by (auto simp: answered_by_def verdict_def)
qed

text \<open>C27. A request that is decided at once is answered when the idle source of its reply fires:
  the source belongs to a queued request of its client, exactly one message goes out, and the request
  leaves the queue.\<close>

theorem scheduled_reply_answers_request:
  assumes "pb_reachable E s0 st" and "map_of (pb_idle st) i = Some (Fire_scheduled a (Ev_pbreply e q))"
    and "\<And>l. pb_send_ok E l"
  shows "\<exists>r st'. (q, r) \<in> set (pb_reqs st) \<and> rq_cl r = a \<and> pb_step E (On_idle i) st = Some st' \<and>
    pb_log st' = pb_log st @ [if e = evid_playback_complete then Reply_state (rq_msg r) (rq_name r)
      else Reply_error (rq_msg r) DBUS_MAEMO_ERROR_DENIED ''state request change denied by policy''] \<and>
    pb_reqs st' = filter (\<lambda>p. fst p \<noteq> q) (pb_reqs st)"
proof -
  have g: "pb_good st" by (rule reachable_good [OF assms(1)])
  have t: "(i, Fire_scheduled a (Ev_pbreply e q)) \<in> set (pb_idle st)"
    using assms(2) by (rule map_of_SomeD)
  then have k: "(a, q) \<in> set (rtasks st)" unfolding rtasks_def List.map_filter_def by force
  then obtain r where r: "(q, r) \<in> set (pb_reqs st)" "rq_cl r = a"
    using replies_okD [OF good_parts(3) [OF g]] by blast
  note p = request_parts [OF g r(1)]
  obtain cl where cl: "get_client st a = Some cl" using p(4) r(2) by auto
  have e: "e = evid_playback_complete \<or> e = evid_playback_failed"
    using sched_okD [OF good_parts(5) [OF g] t] by simp
  have "opens (pb_reqs st) (rtasks st) a \<noteq> 0"
    using k by (auto simp: opens_def filter_empty_conv)
  then have "deciding (cores st) a" using opens_none [OF good_parts(4) [OF g]] by metis
  then have s: "stid (cl_sm cl) = stid_pbreq \<or> stid (cl_sm cl) = stid_acked_pbreq"
    using good_client(3) [OF g cl] by simp
  let ?s = "upd_sm a (sched_update (\<lambda>_. 0)) (g_source_remove i st)"
  have c1: "get_client ?s a = Some (cl\<lparr>cl_sm := (cl_sm cl)\<lparr>sched := 0\<rparr>\<rparr>)"
    using cl by (simp add: upd_sm_def get_client_upd)
  have f: "pb_reqs ?s = pb_reqs st" "pb_log ?s = pb_log st" by (simp_all add: upd_sm_def)
  have "answered_by e q r ?s (process E a (Ev_pbreply e q) ?s)"
    by (rule process_answers [OF c1 _ _ _ p(3) assms(3) e])
      (use good_client(1) [OF g cl] s p(1) f in simp_all)
  moreover have "pb_step E (On_idle i) st = process E a (Ev_pbreply e q) ?s"
    using assms(2) cl by (simp add: pb_step_def idle_source_def fire_scheduled_event_def)
  ultimately show ?thesis using r f by (auto simp: answered_by_def verdict_def)
qed
theorem completion_answers_request_witness:
  "\<exists>st'. pb_step test_penv (On_completion 1 True) test_waiting = Some st' \<and>
    pb_log st' = pb_log test_waiting @ [Reply_state 7 (Some ''Play'')] \<and> pb_reqs st' = []"
proof -
  have r: "pb_reachable test_penv () test_waiting"
    by (rule reachable_run [OF conjunct1 [OF test_waiting_run] pb_reachable.init])
  show ?thesis
    using completion_answers_request [OF r, where ok = True] test_waiting_run
    by (simp add: test_penv_def)
qed

theorem scheduled_reply_answers_request_witness:
  "\<exists>r st'. (8, r) \<in> set (pb_reqs test_scheduled) \<and> pb_step test_penv (On_idle 1) test_scheduled = Some st' \<and>
    pb_log st' = pb_log test_scheduled @ [Reply_state (rq_msg r) (rq_name r)]"
proof -
  have "pb_reachable test_penv () test_scheduled"
    by (rule reachable_run [OF conjunct1 [OF test_scheduled_run] pb_reachable.init])
  from scheduled_reply_answers_request [OF this, of 1 0 evid_playback_complete 8] test_scheduled_run
  show ?thesis by (auto simp: test_penv_def)
qed


text \<open>A request for the state that the policy set last is lost when an event is already scheduled
  for its client: it is processed without a decision, the reply is neither sent nor scheduled, and the
  client enters the request state, in which nothing but its departure takes it further.\<close>

theorem identical_request_is_lost:
  assumes "pb_reachable E s0 st" and "get_client st a = Some cl"
    and "stid (cl_sm cl) = stid_idle" and "sched (cl_sm cl) \<noteq> 0"
    and "pbreq_get_first a st = Some (q, r)" and "rq_name r = Some n"
    and "cl_setstate cl = Some (strncpylower n 64)"
    and "rq_pid r = cl_pid cl" and "rq_stream r = None \<or> rq_stream r = cl_stream cl"
    and "\<And>k. pb_malloc E k"
  shows "\<exists>st'. process E a (Ev evid_playback_request) st = Some st' \<and>
    map_option (stid \<circ> cl_sm) (get_client st' a) = Some stid_pbreq \<and>
    pb_log st' = pb_log st \<and> pb_idle st' = pb_idle st \<and> pb_reqs st' = pb_reqs st \<and>
    opens (pb_reqs st') (rtasks st') a = 0"
proof -
  have g: "pb_good st" by (rule reachable_good [OF assms(1)])
  note c = good_client [OF g assms(2)]
  have nd: "\<not> deciding (cores st) a" using c(3) assms(3) by simp
  have z: "opens (pb_reqs st) (rtasks st) a = 0" by (rule opens_none [OF good_parts(4) [OF g] nd])
  have m: "(q, r) \<in> set (pb_reqs st)" "rq_cl r = a" using get_first_mem [OF assms(5)] by simp_all
  have w: "\<not> rq_waiting r" using opens_answered [OF m(1) _ m(2), of "rtasks st"] z by auto
  have t: "rq_type r = pbreq_state" by (rule request_parts(3) [OF g m(1)])
  let ?b = "upd_sm a (busy_update (\<lambda>_. True)) st"
  let ?c = "cl\<lparr>cl_sm := (cl_sm cl)\<lparr>busy := True\<rparr>\<rparr>"
  have b: "get_client ?b a = Some ?c" using assms(2) by (simp add: upd_sm_def get_client_upd)
  have f: "pbreq_get_first a ?b = Some (q, r)" using assms(5) by (simp add: pbreq_get_first_def upd_sm_def)
  have u: "update_stream E (rq_pid r) (rq_stream r) v a ?b = Some ?b" for v
    using assms(8,9) b by (auto simp: update_stream_def)
  have s: "schedule_reply_event E e q a ?b = Some (True, ?b\<lparr>pb_nalloc := pb_nalloc ?b + 1\<rparr>)" for e
    using assms(4,10) b
    by (simp add: schedule_reply_event_def pb_alloc_def sm_schedule_event_def get_client_def)
  have p: "process_pbreq E a ?b = Some (True, ?b\<lparr>pb_nalloc := pb_nalloc ?b + 1\<rparr>)"
    unfolding process_pbreq_def f option.case prod.case Let_def
    using w t assms(6,7) b u s by (simp add: client_get_state_def string_or_empty_def)
  have d: "sm_def stid_idle evid_playback_request = (Some Process_pbreq, stid_pbreq)"
    by (simp add: sm_def_def)
  let ?e = "upd_sm a (\<lambda>x. x\<lparr>stid := stid_pbreq, busy := False\<rparr>) (?b\<lparr>pb_nalloc := pb_nalloc ?b + 1\<rparr>)"
  have e: "process E a (Ev evid_playback_request) st = Some ?e"
    using assms(2,3) c(1) by (simp add: process_def sm_process_event_def d run_transition_def p Let_def)
  have "get_client (?b\<lparr>pb_nalloc := pb_nalloc ?b + 1\<rparr>) a = Some ?c" using b by (simp add: get_client_def)
  then have "map_option (stid \<circ> cl_sm) (get_client ?e a) = Some stid_pbreq"
    by (simp add: upd_sm_def get_client_upd)
  moreover have "pb_log ?e = pb_log st" "pb_idle ?e = pb_idle st" "pb_reqs ?e = pb_reqs st"
    by (simp_all add: upd_sm_def)
  moreover have "rtasks ?e = rtasks st" by (simp add: rtasks_def upd_sm_def)
  ultimately show ?thesis using e z by simp
qed

theorem identical_request_is_lost_witness:
  "\<exists>st'. process test_penv 0 (Ev evid_playback_request) test_deferred = Some st' \<and>
    pb_log st' = pb_log test_deferred \<and> pb_reqs st' = pb_reqs test_deferred \<and>
    opens (pb_reqs st') (rtasks st') 0 = 0"
proof -
  have r: "pb_reachable test_penv () test_deferred"
    by (rule reachable_run [OF conjunct1 [OF test_deferred_run] pb_reachable.init])
  obtain c where c: "pb_clients test_deferred = [(0, c)]" "stid (cl_sm c) = stid_idle"
    "sched (cl_sm c) = 1" "cl_setstate c = Some ''play''" "cl_pid c = Some ''12''"
    using test_deferred_run by (auto simp: map_eq_Cons_conv)
  have m: "pb_malloc test_penv k" for k by (simp add: test_penv_def)
  have n: "strncpylower ''Play'' 64 = ''play''" by code_simp
  show ?thesis
    using identical_request_is_lost [OF r, of 0 c 8 _ "''Play''", OF _ _ _ _ _ _ _ _ m]
      test_deferred_run c n
    by (auto simp: get_client_def pbreq_get_first_def)
qed
text \<open>A client that reports a class outside the fourteen known ones crashes the plugin: in the
  setup state the reply to the query of its class has no result.\<close>

theorem unknown_class_crashes:
  assumes "pb_reachable E s0 st" and "i < length (pb_pending st)"
    and "pb_pending st ! i = Get_pending d p ''Class''"
    and "client_find_by_dbus (Some d) (Some p) st = Some a" and "get_client st a = Some cl"
    and "stid (cl_sm cl) = stid_setup" and "class_to_group v = None"
  shows "pb_step E (On_get_reply i (Reply_value v)) st = None"
proof -
  let ?s = "st\<lparr>pb_pending := take i (pb_pending st) @ drop (Suc i) (pb_pending st)\<rparr>"
  have b: "\<not> busy (cl_sm cl)"
    by (rule good_client(1) [OF reachable_good [OF assms(1)] assms(5)])
  have f: "client_find_by_dbus (Some d) (Some p) ?s = Some a"
    using assms(4) by (simp add: client_find_by_dbus_def)
  have g: "get_client ?s a = Some cl" using assms(5) by (simp add: get_client_def)
  have r: "run_transition E Save_property (Ev_property evid_property_received (Some ''Class'') (Some v)) a s = None" for s
    using assms(7) by (simp add: run_transition_def save_property_def store_property_def)
  have "process E a (Ev_property evid_property_received (Some ''Class'') (Some v)) ?s = None"
    using g b assms(6) by (simp add: process_def sm_process_event_def sm_def_def r Let_def)
  then show ?thesis
    using assms(2,3) f by (simp add: pb_step_def Let_def get_property_cb_def read_property_cb_def)
qed

definition test_class :: "unit pstate" where
  "test_class = the (pb_run test_penv [On_hello '':1'' ''/a'', On_get_reply 0 (Reply_value ''12'')] (pb_init ()))"

lemma test_class_run:
  "pb_run test_penv [On_hello '':1'' ''/a'', On_get_reply 0 (Reply_value ''12'')] (pb_init ()) = Some test_class \<and>
    pb_pending test_class = [Get_pending '':1'' ''/a'' ''Class''] \<and>
    client_find_by_dbus (Some '':1'') (Some ''/a'') test_class = Some 0 \<and>
    map_option (stid \<circ> cl_sm) (get_client test_class 0) = Some stid_setup"
  by code_simp

theorem unknown_class_crashes_witness:
  "pb_step test_penv (On_get_reply 0 (Reply_value ''Music'')) test_class = None"
proof -
  note t = test_class_run
  have r: "pb_reachable test_penv () test_class"
    by (rule reachable_run [OF conjunct1 [OF t] pb_reachable.init])
  obtain c where c: "get_client test_class 0 = Some c" "stid (cl_sm c) = stid_setup" using t by auto
  have "class_to_group ''Music'' = None" by code_simp
  then show ?thesis using unknown_class_crashes [OF r _ _ _ c, where v = "''Music''" and i = 0] t by simp
qed

text \<open>The query and the watch of the privacy override disagree: when the fact holds neither
  \<open>public\<close> nor \<open>default\<close>, the query signals an override, while the watch on the same value
  signals none for \<open>private\<close> and nothing for other values.\<close>

theorem privacy_query_disagrees:
  assumes "field_by_name E FACTSTORE_PRIVACY fldtype_string st = Some (Some (VString (Some v)))"
    and "v \<noteq> ''public''" and "v \<noteq> ''default''" and "\<And>l. pb_send_ok E l"
  shows "map_option pb_log (get_privacy E msg st) = Some (pb_log st @ [Reply_ok msg, Signal_privacy True]) \<and>
    pb_log (privacy_cb E (n, VString (Some v)) st) =
      pb_log st @ (if v = ''private'' then [Signal_privacy False] else [])"
  using assms
  by (simp_all add: get_privacy_def dbusif_signal_privacy_override_def dbusif_reply_def pb_send_def
      pb_note_def privacy_cb_def)

theorem privacy_query_disagrees_witness:
  "\<exists>E :: (unit, unit) penv. map_option pb_log (get_privacy E 3 (pb_init ())) = Some [Reply_ok 3, Signal_privacy True] \<and>
    pb_log (privacy_cb E (''value'', VString (Some ''private'')) (pb_init ())) = [Signal_privacy False]"
proof -
  let ?E = "test_penv\<lparr>pb_lib := test_ohmlib\<lparr>get_facts_by_name := \<lambda>_ _. [()],
    fact_get := \<lambda>_ _ _. Some (GString (Some ''private''))\<rparr>\<rparr>"
  have f: "field_by_name ?E FACTSTORE_PRIVACY fldtype_string (pb_init ()) = Some (Some (VString (Some ''private'')))"
    by code_simp
  have s: "pb_send_ok ?E l" for l by (simp add: test_penv_def)
  show ?thesis
    using privacy_query_disagrees [OF f _ _ s, where msg = 3 and n = "''value''"]
    by (intro exI [of _ ?E]) (simp add: pb_init_def)
qed
end
