(* ===== verification/Signaling.thy ===== *)
theory Signaling
  imports Fsif "HOL-Library.Monad_Syntax"
begin

text \<open>
  The signaling plugin, \<open>src/plugins/signaling/signaling-internal.c\<close> and \<open>signaling.c\<close>:
  policy decisions are queued per signal, sent to the enforcement points that are interested in the
  signal, and completed when all of them have answered or when the timeout fires.

  Transactions and enforcement points are GObjects; here they are records at addresses that are not
  reused, and the reference counts that say when an object can be freed are left out.  The
  environment gives the fact store library, the answers that internal enforcement points give while
  they are told about a decision, and the decisions that a completion callback queues; a callback
  queues its decisions for later.
\<close>

subsection \<open>State\<close>

record sg_tx =
  sg_txid :: u32
  sg_signal :: string
  sg_acked :: "addr list"
  sg_nacked :: "addr list"
  sg_not_answered :: "addr list"
  sg_timeout :: u32
  sg_built :: bool
  sg_facts :: "string list"
  sg_callback :: "cstring option"

record sg_ep =
  sg_uri :: string
  sg_internal :: bool
  sg_ongoing :: "addr list"
  sg_interested :: "string list"

datatype sg_task = Process_inq string | Send_ipc addr

datatype sg_action =
    Ipc_signal u32 string "string list"
  | Decision addr addr
  | Key_change addr addr
  | Complete addr
  | Callback string u32 bool
  | Register_reply bool
  | Unregister_reply bool
  | Watch_addr string bool

record 's sgstate =
  sg_fs :: 's
  sg_eps :: "addr list"
  sg_ep_of :: "addr \<Rightarrow> sg_ep option"
  sg_tx_of :: "addr \<Rightarrow> sg_tx option"
  sg_table :: "u32 \<Rightarrow> addr option"
  sg_queues :: "string \<Rightarrow> addr list option"
  sg_idle :: "sg_task list"
  sg_timers :: "addr list"
  sg_pending :: "addr list"
  sg_last_txid :: u32
  sg_ready :: bool
  sg_nalloc :: nat
  sg_log :: "sg_action list"

text \<open>A decision that \<open>signal_changed\<close> is called with: signal, transaction id (an \<open>int\<close>), facts,
  callback and timeout.\<close>

type_synonym sg_change = "string \<times> u32 \<times> string list \<times> cstring \<times> u32"

record ('s, 'f) sgenv =
  sg_lib :: "('s, 'f) ohmlib"
  sg_answer :: "sg_action list \<Rightarrow> addr \<Rightarrow> addr \<Rightarrow> bool option"
  sg_cb :: "sg_action list \<Rightarrow> string \<Rightarrow> u32 \<Rightarrow> bool \<Rightarrow> sg_change list"

definition sg_note :: "sg_action \<Rightarrow> 's sgstate \<Rightarrow> 's sgstate" where
  "sg_note x st = st\<lparr>sg_log := sg_log st @ [x]\<rparr>"

definition upd_tx :: "addr \<Rightarrow> (sg_tx \<Rightarrow> sg_tx) \<Rightarrow> 's sgstate \<Rightarrow> 's sgstate" where
  "upd_tx t f st = st\<lparr>sg_tx_of := (sg_tx_of st)(t := map_option f (sg_tx_of st t))\<rparr>"

definition upd_ep :: "addr \<Rightarrow> (sg_ep \<Rightarrow> sg_ep) \<Rightarrow> 's sgstate \<Rightarrow> 's sgstate" where
  "upd_ep e f st = st\<lparr>sg_ep_of := (sg_ep_of st)(e := map_option f (sg_ep_of st e))\<rparr>"

definition signal_queue_lookup :: "string \<Rightarrow> 's sgstate \<Rightarrow> addr list option" where
  "signal_queue_lookup s st = sg_queues st s"

definition transaction_lookup :: "u32 \<Rightarrow> 's sgstate \<Rightarrow> addr option" where
  "transaction_lookup i st = sg_table st i"

definition init_signaling :: "'s \<Rightarrow> 's sgstate" where
  "init_signaling s = \<lparr>sg_fs = s, sg_eps = [], sg_ep_of = Map.empty, sg_tx_of = Map.empty,
     sg_table = Map.empty, sg_queues = Map.empty, sg_idle = [], sg_timers = [], sg_pending = [],
     sg_last_txid = 0, sg_ready = False, sg_nalloc = 0, sg_log = []\<rparr>"

subsection \<open>Transactions\<close>

definition transaction_done :: "sg_tx \<Rightarrow> bool" where
  "transaction_done tx \<longleftrightarrow> sg_built tx \<and> sg_not_answered tx = []"

definition transaction_add_ep :: "addr \<Rightarrow> addr \<Rightarrow> 's sgstate \<Rightarrow> 's sgstate" where
  "transaction_add_ep t e st = upd_tx t (\<lambda>x. x\<lparr>sg_not_answered := e # sg_not_answered x\<rparr>) st"

definition transaction_remove_ep :: "addr \<Rightarrow> addr \<Rightarrow> 's sgstate \<Rightarrow> 's sgstate" where
  "transaction_remove_ep t e st =
     upd_tx t (\<lambda>x. x\<lparr>sg_not_answered := remove1 e (sg_not_answered x)\<rparr>) st"

definition transaction_ack_ep :: "addr \<Rightarrow> addr \<Rightarrow> bool \<Rightarrow> 's sgstate \<Rightarrow> 's sgstate" where
  "transaction_ack_ep t e ack st =
     upd_tx t (\<lambda>x. (if ack then x\<lparr>sg_acked := e # sg_acked x\<rparr> else x\<lparr>sg_nacked := e # sg_nacked x\<rparr>)
       \<lparr>sg_not_answered := remove1 e (sg_not_answered x)\<rparr>) st"

subsection \<open>The strategies of enforcement points\<close>

definition is_interested :: "sg_ep \<Rightarrow> sg_tx \<Rightarrow> bool" where
  "is_interested ep tx \<longleftrightarrow> sg_signal tx \<in> set (sg_interested ep)"

definition stop_transaction :: "addr \<Rightarrow> addr \<Rightarrow> 's sgstate \<Rightarrow> 's sgstate" where
  "stop_transaction e t st = upd_ep e (\<lambda>x. x\<lparr>sg_ongoing := remove1 t (sg_ongoing x)\<rparr>) st"

text \<open>The bookkeeping of an answer, before \<open>transaction_done\<close> is asked.\<close>

definition note_ack :: "addr \<Rightarrow> addr \<Rightarrow> bool \<Rightarrow> 's sgstate \<Rightarrow> 's sgstate" where
  "note_ack e t status st = transaction_ack_ep t e status (stop_transaction e t st)"

text \<open>An internal enforcement point is told by a GObject signal and may answer from its handler; the
  transaction is not built then, so the answer does not complete it.\<close>

definition internal_ep_send_decision ::
  "('s, 'f) sgenv \<Rightarrow> addr \<Rightarrow> addr \<Rightarrow> 's sgstate \<Rightarrow> 's sgstate option" where
  "internal_ep_send_decision E e t st =
     do {
       tx \<leftarrow> sg_tx_of st t;
       Some (if sg_txid tx = 0 then sg_note (Key_change e t) st
             else
               (let st1 = sg_note (Decision e t) (upd_ep e (\<lambda>x. x\<lparr>sg_ongoing := t # sg_ongoing x\<rparr>) st)
                in case sg_answer E (sg_log st1) e t of
                     None \<Rightarrow> st1
                   | Some ack \<Rightarrow> note_ack e t ack st1))
     }"

text \<open>External enforcement points share one IPC signal per transaction.\<close>

definition external_ep_send_decision :: "addr \<Rightarrow> addr \<Rightarrow> 's sgstate \<Rightarrow> 's sgstate" where
  "external_ep_send_decision e t st =
     upd_ep e (\<lambda>x. x\<lparr>sg_ongoing := t # sg_ongoing x\<rparr>)
       (if t \<in> set (sg_pending st) then st
        else st\<lparr>sg_pending := sg_pending st @ [t], sg_idle := sg_idle st @ [Send_ipc t]\<rparr>)"

definition enforcement_point_send_decision ::
  "('s, 'f) sgenv \<Rightarrow> addr \<Rightarrow> addr \<Rightarrow> 's sgstate \<Rightarrow> 's sgstate option" where
  "enforcement_point_send_decision E e t st =
     do {
       ep \<leftarrow> sg_ep_of st e;
       (if sg_internal ep then internal_ep_send_decision E e t st
        else Some (external_ep_send_decision e t st))
     }"

text \<open>An enforcement point that goes away is no longer waited for, but nothing is completed.\<close>

definition enforcement_point_unregister :: "addr \<Rightarrow> 's sgstate \<Rightarrow> 's sgstate option" where
  "enforcement_point_unregister e st =
     do {
       ep \<leftarrow> sg_ep_of st e;
       Some (fold (\<lambda>t s. transaction_remove_ep t e s) (sg_ongoing ep) st)
     }"

definition send_ipc_signal :: "addr \<Rightarrow> 's sgstate \<Rightarrow> 's sgstate option" where
  "send_ipc_signal t st =
     do {
       tx \<leftarrow> sg_tx_of st t;
       Some (sg_note (Ipc_signal (sg_txid tx) (sg_signal tx) (sg_facts tx))
         (st\<lparr>sg_pending := remove1 t (sg_pending st)\<rparr>))
     }"

subsection \<open>Queueing decisions\<close>

definition get_txid :: "u32 \<Rightarrow> u32" where
  "get_txid i = (if i = -1 then 1 else i + 1)"

text \<open>
  The part of \<open>queue_decision\<close> before the processing: the transaction's address, and whether the
  queue was empty.
\<close>

definition enqueue_decision ::
  "string \<Rightarrow> string list \<Rightarrow> u32 \<Rightarrow> bool \<Rightarrow> u32 \<Rightarrow> 's sgstate \<Rightarrow> addr \<times> bool \<times> 's sgstate" where
  "enqueue_decision signal facts proposed_txid need_transaction timeout st =
     (let t = sg_nalloc st;
          fresh = need_transaction \<and> proposed_txid = 0;
          last = (if fresh then get_txid (sg_last_txid st) else sg_last_txid st);
          txid = (if need_transaction then if proposed_txid = 0 then last else proposed_txid else 0);
          tx = \<lparr>sg_txid = txid, sg_signal = signal, sg_acked = [], sg_nacked = [],
            sg_not_answered = [], sg_timeout = timeout, sg_built = False, sg_facts = facts,
            sg_callback = None\<rparr>;
          q = (case signal_queue_lookup signal st of None \<Rightarrow> [] | Some q \<Rightarrow> q)
      in (t, q = [], st\<lparr>sg_nalloc := t + 1, sg_last_txid := last,
            sg_tx_of := (sg_tx_of st)(t \<mapsto> tx), sg_queues := (sg_queues st)(signal \<mapsto> q @ [t])\<rparr>))"

definition queue_deferred ::
  "string \<Rightarrow> string list \<Rightarrow> u32 \<Rightarrow> bool \<Rightarrow> u32 \<Rightarrow> 's sgstate \<Rightarrow> addr \<times> 's sgstate" where
  "queue_deferred signal facts proposed_txid need_transaction timeout st =
     (let (t, needs, st1) = enqueue_decision signal facts proposed_txid need_transaction timeout st
      in (t, if needs then st1\<lparr>sg_idle := sg_idle st1 @ [Process_inq signal]\<rparr> else st1))"

text \<open>\<open>signal_changed\<close> with an id that is not negative; for the id 0 a callback is called at once.\<close>

definition signal_changed_deferred :: "sg_change \<Rightarrow> 's sgstate \<Rightarrow> 's sgstate" where
  "signal_changed_deferred ch st =
     (let (signal, transid, facts, cb, timeout) = ch in
      if transid = 0
      then (let st1 = snd (queue_deferred signal (rev facts) 0 False 0 st)
            in case cb of None \<Rightarrow> st1 | Some c \<Rightarrow> sg_note (Callback c 0 True) st1)
      else (let (t, st1) = queue_deferred signal (rev facts) transid True timeout st
            in upd_tx t (\<lambda>x. x\<lparr>sg_callback := Some cb\<rparr>) st1))"

subsection \<open>Completion\<close>

text \<open>The first completed transaction marks the fact of the plugin.\<close>

fun mark_facts :: "('s, 'f) ohmlib \<Rightarrow> 'f list \<Rightarrow> bool \<times> 's \<Rightarrow> bool \<times> 's" where
  "mark_facts L [] p = p"
| "mark_facts L (f # fs) p =
     mark_facts L fs
       (case fact_get L (snd p) f ''name'' of
          Some (GString (Some n)) \<Rightarrow>
            if n = ''signaling''
            then (True, fact_set L f ''state'' (value_from_string L (Some ''signaled'')) (snd p))
            else p
        | _ \<Rightarrow> p)"

definition mark_ready :: "('s, 'f) sgenv \<Rightarrow> 's sgstate \<Rightarrow> 's sgstate" where
  "mark_ready E st =
     (if sg_ready st then st
      else (let (r, s) = mark_facts (sg_lib E)
                 (get_facts_by_name (sg_lib E) (sg_fs st) ''com.nokia.policy.plugin'') (False, sg_fs st)
            in st\<lparr>sg_ready := r, sg_fs := s\<rparr>))"

text \<open>
  The handler \<open>complete\<close> of \<open>signal_changed\<close>; a missing callback is called too.  Of what the callback
  queues only the deferred decisions are modelled, those with an id that is not negative.
\<close>

definition deferred :: "sg_change \<Rightarrow> bool" where
  "deferred ch \<longleftrightarrow> 0 \<le> sint (fst (snd ch))"

definition complete :: "('s, 'f) sgenv \<Rightarrow> addr \<Rightarrow> cstring \<Rightarrow> 's sgstate \<Rightarrow> 's sgstate option" where
  "complete E t cb st =
     do {
       tx \<leftarrow> sg_tx_of st t;
       c \<leftarrow> cb;
       (let ok = (sg_not_answered tx = [] \<and> sg_nacked tx = []);
            st1 = sg_note (Callback c (sg_txid tx) ok) st
        in Some (fold signal_changed_deferred (filter deferred (sg_cb E (sg_log st1) c (sg_txid tx) ok)) st1))
     }"

text \<open>
  \<open>transaction_complete\<close> up to the next element of its queue: whether there is one, and the state.
\<close>

definition finish_transaction ::
  "('s, 'f) sgenv \<Rightarrow> addr \<Rightarrow> 's sgstate \<Rightarrow> (bool \<times> 's sgstate) option" where
  "finish_transaction E t st =
     do {
       tx \<leftarrow> sg_tx_of st t;
       (let st1 = mark_ready E (fold (\<lambda>e s. stop_transaction e t s) (sg_not_answered tx) st);
            st2 = sg_note (Complete t) st1
        in do {
          st3 \<leftarrow> (case sg_callback tx of None \<Rightarrow> Some st2 | Some cb \<Rightarrow> complete E t cb st2);
          (let st4 = st3\<lparr>sg_table := (sg_table st3)(sg_txid tx := None),
                 sg_timers := remove1 t (sg_timers st3)\<rparr>
           in Some (case signal_queue_lookup (sg_signal tx) st4 of
                None \<Rightarrow> (False, st4)
              | Some q \<Rightarrow>
                  if q \<noteq> [] then (True, st4)
                  else (False, st4\<lparr>sg_queues := (sg_queues st4)(sg_signal tx := None)\<rparr>)))
        })
     }"

subsection \<open>Processing the queue of a signal\<close>

fun notify_eps :: "('s, 'f) sgenv \<Rightarrow> addr \<Rightarrow> addr list \<Rightarrow> 's sgstate \<Rightarrow> 's sgstate option" where
  "notify_eps E t [] st = Some st"
| "notify_eps E t (e # es) st =
     do {
       ep \<leftarrow> sg_ep_of st e;
       tx \<leftarrow> sg_tx_of st t;
       st1 \<leftarrow> (if is_interested ep tx
              then enforcement_point_send_decision E e t (transaction_add_ep t e st) else Some st);
       notify_eps E t es st1
     }"

text \<open>The head of the queue is taken, entered into the table and sent.\<close>

definition start_transaction ::
  "('s, 'f) sgenv \<Rightarrow> addr \<Rightarrow> string \<Rightarrow> addr list \<Rightarrow> 's sgstate \<Rightarrow> 's sgstate option" where
  "start_transaction E t signal q st =
     do {
       tx \<leftarrow> sg_tx_of st t;
       st1 \<leftarrow> notify_eps E t (sg_eps st)
         (st\<lparr>sg_queues := (sg_queues st)(signal \<mapsto> q), sg_table := (sg_table st)(sg_txid tx \<mapsto> t)\<rparr>);
       Some (upd_tx t (sg_built_update (\<lambda>_. True)) st1)
     }"

partial_function (option) process_inq ::
  "('s, 'f) sgenv \<Rightarrow> string \<Rightarrow> 's sgstate \<Rightarrow> 's sgstate option" where
  "process_inq E signal st =
     (case signal_queue_lookup signal st of
        None \<Rightarrow> Some st
      | Some [] \<Rightarrow> Some st
      | Some (t # q) \<Rightarrow>
          do {
            st1 \<leftarrow> start_transaction E t signal q st;
            tx \<leftarrow> sg_tx_of st1 t;
            (if sg_txid tx = 0 \<or> transaction_done tx
             then do {
               p \<leftarrow> finish_transaction E t st1;
               (if fst p then process_inq E (sg_signal tx) (snd p) else Some (snd p))
             }
             else Some (st1\<lparr>sg_timers := sg_timers st1 @ [t]\<rparr>))
          })"

definition sg_transaction_complete :: "('s, 'f) sgenv \<Rightarrow> addr \<Rightarrow> 's sgstate \<Rightarrow> 's sgstate option" where
  "sg_transaction_complete E t st =
     do {
       tx \<leftarrow> sg_tx_of st t;
       p \<leftarrow> finish_transaction E t st;
       (if fst p then process_inq E (sg_signal tx) (snd p) else Some (snd p))
     }"

definition timeout_transaction :: "('s, 'f) sgenv \<Rightarrow> addr \<Rightarrow> 's sgstate \<Rightarrow> 's sgstate option" where
  "timeout_transaction E t st = sg_transaction_complete E t st"

definition enforcement_point_receive_ack ::
  "('s, 'f) sgenv \<Rightarrow> addr \<Rightarrow> addr \<Rightarrow> bool \<Rightarrow> 's sgstate \<Rightarrow> 's sgstate option" where
  "enforcement_point_receive_ack E e t status st =
     (let st1 = note_ack e t status st
      in do {
        tx \<leftarrow> sg_tx_of st1 t;
        (if transaction_done tx then sg_transaction_complete E t st1 else Some st1)
      })"

subsection \<open>Decisions\<close>

definition queue_decision ::
  "('s, 'f) sgenv \<Rightarrow> string \<Rightarrow> string list \<Rightarrow> u32 \<Rightarrow> bool \<Rightarrow> u32 \<Rightarrow> bool \<Rightarrow> 's sgstate \<Rightarrow>
    (addr option \<times> 's sgstate) option" where
  "queue_decision E signal facts proposed_txid need_transaction timeout deferred_execution st =
     (if deferred_execution
      then (let (t, st1) = queue_deferred signal facts proposed_txid need_transaction timeout st
            in Some (if need_transaction then Some t else None, st1))
      else (let (t, needs, st1) = enqueue_decision signal facts proposed_txid need_transaction timeout st
            in map_option (Pair None) (if needs then process_inq E signal st1 else Some st1)))"

definition signal_changed :: "('s, 'f) sgenv \<Rightarrow> sg_change \<Rightarrow> 's sgstate \<Rightarrow> 's sgstate option" where
  "signal_changed E ch st =
     (let (signal, transid, facts, cb, timeout) = ch in
      if sint transid < 0
      then do {
        (_, st1) \<leftarrow> queue_decision E signal (rev facts) 0 False 0 False st;
        Some (case cb of None \<Rightarrow> st1 | Some c \<Rightarrow> sg_note (Callback c 0 True) st1)
      }
      else Some (signal_changed_deferred ch st))"

definition queue_policy_decision ::
  "('s, 'f) sgenv \<Rightarrow> string \<Rightarrow> string list \<Rightarrow> u32 \<Rightarrow> 's sgstate \<Rightarrow> (addr option \<times> 's sgstate) option" where
  "queue_policy_decision E signal facts timeout st = queue_decision E signal facts 0 True timeout True st"

definition queue_key_change ::
  "('s, 'f) sgenv \<Rightarrow> string \<Rightarrow> string list \<Rightarrow> 's sgstate \<Rightarrow> 's sgstate option" where
  "queue_key_change E signal facts st =
     map_option snd (queue_decision E signal facts 0 False 0 True st)"

subsection \<open>Registration\<close>

definition ENFORCEMENT_FACT_NAME :: string where
  "ENFORCEMENT_FACT_NAME = ''com.nokia.policy.enforcement_point''"

fun join_capabilities :: "string list \<Rightarrow> string \<Rightarrow> string" where
  "join_capabilities [] g = g"
| "join_capabilities (c # cs) g = join_capabilities cs (g @ (if g = [] then [] else '','') @ c)"

text \<open>\<open>g_error\<close> aborts the program.\<close>

definition register_fact ::
  "('s, 'f) ohmlib \<Rightarrow> string \<Rightarrow> cstring \<Rightarrow> bool \<Rightarrow> string list \<Rightarrow> 's \<Rightarrow> 's option" where
  "register_fact L uri name internal capabilities s =
     (case fact_new L ENFORCEMENT_FACT_NAME s of
        (None, _) \<Rightarrow> None
      | (Some f, s1) \<Rightarrow>
          (let str = (\<lambda>x. value_from_string L (Some x));
               nam = (if internal then uri else case name of None \<Rightarrow> [] | Some n \<Rightarrow> n);
               s2 = fact_set L f ''interested'' (str (join_capabilities capabilities []))
                     (fact_set L f ''name'' (str nam)
                       (fact_set L f ''type'' (str (if internal then ''internal'' else ''external''))
                         (fact_set L f ''id'' (str uri) s1)));
               (ok, s3) = store_insert L f s2
           in if ok then Some s3 else None))"

fun unregister_loop :: "('s, 'f) ohmlib \<Rightarrow> string \<Rightarrow> 'f list \<Rightarrow> 's \<Rightarrow> 's" where
  "unregister_loop L uri [] s = s"
| "unregister_loop L uri (f # fs) s =
     (case fact_get L s f ''id'' of
        Some (GString (Some u)) \<Rightarrow>
          if u = uri then object_unref L f (store_remove L f s) else unregister_loop L uri fs s
      | _ \<Rightarrow> unregister_loop L uri fs s)"

definition unregister_fact :: "('s, 'f) ohmlib \<Rightarrow> string \<Rightarrow> 's \<Rightarrow> 's" where
  "unregister_fact L uri s = unregister_loop L uri (get_facts_by_name L s ENFORCEMENT_FACT_NAME) s"

definition find_ep :: "string \<Rightarrow> 's sgstate \<Rightarrow> addr option" where
  "find_ep uri st = find (\<lambda>e. map_option sg_uri (sg_ep_of st e) = Some uri) (sg_eps st)"

definition register_enforcement_point ::
  "('s, 'f) sgenv \<Rightarrow> string \<Rightarrow> cstring \<Rightarrow> bool \<Rightarrow> string list \<Rightarrow> 's sgstate \<Rightarrow>
    (addr option \<times> 's sgstate) option" where
  "register_enforcement_point E uri name internal capabilities st =
     (case find_ep uri st of
        Some _ \<Rightarrow> Some (None, st)
      | None \<Rightarrow>
          (let e = sg_nalloc st;
               ep = \<lparr>sg_uri = uri, sg_internal = internal, sg_ongoing = [], sg_interested = capabilities\<rparr>
           in do {
             s \<leftarrow> register_fact (sg_lib E) uri name internal capabilities (sg_fs st);
             Some (Some e, st\<lparr>sg_nalloc := e + 1, sg_ep_of := (sg_ep_of st)(e \<mapsto> ep),
               sg_eps := e # sg_eps st, sg_fs := s\<rparr>)
           }))"

definition unregister_enforcement_point ::
  "('s, 'f) sgenv \<Rightarrow> string \<Rightarrow> 's sgstate \<Rightarrow> (bool \<times> 's sgstate) option" where
  "unregister_enforcement_point E uri st =
     (case find_ep uri st of
        None \<Rightarrow> Some (False, st)
      | Some e \<Rightarrow>
          do {
            st1 \<leftarrow> enforcement_point_unregister e st;
            Some (True, st1\<lparr>sg_eps := remove1 e (sg_eps st1),
              sg_fs := unregister_fact (sg_lib E) uri (sg_fs st1)\<rparr>)
          })"

definition register_internal_enforcement_point ::
  "('s, 'f) sgenv \<Rightarrow> string \<Rightarrow> string list \<Rightarrow> 's sgstate \<Rightarrow> (addr option \<times> 's sgstate) option" where
  "register_internal_enforcement_point E uri interested st =
     register_enforcement_point E uri None True (rev interested) st"

definition unregister_internal_enforcement_point ::
  "('s, 'f) sgenv \<Rightarrow> addr \<Rightarrow> 's sgstate \<Rightarrow> (bool \<times> 's sgstate) option" where
  "unregister_internal_enforcement_point E e st =
     do { ep \<leftarrow> sg_ep_of st e; unregister_enforcement_point E (sg_uri ep) st }"

subsection \<open>D-Bus\<close>

text \<open>The sender, and the name and the capabilities if they are given.\<close>

definition register_external_enforcement_point ::
  "('s, 'f) sgenv \<Rightarrow> string \<Rightarrow> cstring \<Rightarrow> string list \<Rightarrow> 's sgstate \<Rightarrow> 's sgstate option" where
  "register_external_enforcement_point E uri name capabilities st =
     do {
       (ep, st1) \<leftarrow> register_enforcement_point E uri name False (rev capabilities) st;
       Some (if ep = None then sg_note (Register_reply False) st1
             else sg_note (Register_reply True) (sg_note (Watch_addr uri True) st1))
     }"

definition unregister_external_enforcement_point ::
  "('s, 'f) sgenv \<Rightarrow> string \<Rightarrow> 's sgstate \<Rightarrow> 's sgstate option" where
  "unregister_external_enforcement_point E uri st =
     do {
       (ok, st1) \<leftarrow> unregister_enforcement_point E uri st;
       Some (sg_note (Unregister_reply ok) st1)
     }"

definition update_external_enforcement_points ::
  "('s, 'f) sgenv \<Rightarrow> (string \<times> string \<times> string) option \<Rightarrow> 's sgstate \<Rightarrow> 's sgstate option" where
  "update_external_enforcement_points E args st =
     (case args of
        None \<Rightarrow> Some st
      | Some (sender, before, after) \<Rightarrow>
          if after = []
          then do {
            (ok, st1) \<leftarrow> unregister_enforcement_point E sender st;
            Some (if ok then sg_note (Watch_addr sender False) st1 else st1)
          }
          else Some st)"

text \<open>An answer of an external enforcement point: sender, transaction and status.\<close>

definition dbus_ack ::
  "('s, 'f) sgenv \<Rightarrow> cstring \<Rightarrow> (u32 \<times> u32) option \<Rightarrow> 's sgstate \<Rightarrow> 's sgstate option" where
  "dbus_ack E sender args st =
     (case (sender, args) of
        (Some s, Some (txid, status)) \<Rightarrow>
          (case transaction_lookup txid st of
             None \<Rightarrow> Some st
           | Some t \<Rightarrow>
               do {
                 tx \<leftarrow> sg_tx_of st t;
                 (case find (\<lambda>e. map_option sg_uri (sg_ep_of st e) = Some s) (sg_not_answered tx) of
                    None \<Rightarrow> Some st
                  | Some e \<Rightarrow> enforcement_point_receive_ack E e t (status \<noteq> 0) st)
               })
      | _ \<Rightarrow> Some st)"

subsection \<open>The main loop\<close>

text \<open>An internal enforcement point answers only a decision it was told and has not answered.\<close>

datatype sg_event =
    On_signal_changed sg_change
  | On_policy_decision string "string list" u32
  | On_key_change string "string list"
  | On_register_internal string "string list"
  | On_unregister_internal addr
  | On_internal_ack addr addr bool
  | On_register_external string cstring "string list"
  | On_unregister_external string
  | On_owner_changed "(string \<times> string \<times> string) option"
  | On_status cstring "(u32 \<times> u32) option"
  | On_sg_idle nat
  | On_timer addr

definition sg_step :: "('s, 'f) sgenv \<Rightarrow> sg_event \<Rightarrow> 's sgstate \<Rightarrow> 's sgstate option" where
  "sg_step E ev st =
     (case ev of
        On_signal_changed ch \<Rightarrow> signal_changed E ch st
      | On_policy_decision s fs timeout \<Rightarrow> map_option snd (queue_policy_decision E s fs timeout st)
      | On_key_change s fs \<Rightarrow> queue_key_change E s fs st
      | On_register_internal uri caps \<Rightarrow>
          map_option snd (register_internal_enforcement_point E uri caps st)
      | On_unregister_internal e \<Rightarrow>
          (if e \<in> set (sg_eps st) then map_option snd (unregister_internal_enforcement_point E e st)
           else Some st)
      | On_internal_ack e t ack \<Rightarrow>
          (case (sg_ep_of st e, sg_tx_of st t) of
             (Some ep, Some tx) \<Rightarrow>
               if sg_internal ep \<and> e \<in> set (sg_eps st) \<and> t \<in> set (sg_ongoing ep)
               then enforcement_point_receive_ack E e t ack st else Some st
           | _ \<Rightarrow> Some st)
      | On_register_external uri name caps \<Rightarrow> register_external_enforcement_point E uri name caps st
      | On_unregister_external uri \<Rightarrow> unregister_external_enforcement_point E uri st
      | On_owner_changed args \<Rightarrow> update_external_enforcement_points E args st
      | On_status sender args \<Rightarrow> dbus_ack E sender args st
      | On_sg_idle i \<Rightarrow>
          (if i < length (sg_idle st)
           then (let st1 = st\<lparr>sg_idle := take i (sg_idle st) @ drop (Suc i) (sg_idle st)\<rparr>
                 in case sg_idle st ! i of
                      Process_inq s \<Rightarrow> process_inq E s st1
                    | Send_ipc t \<Rightarrow> send_ipc_signal t st1)
           else Some st)
      | On_timer t \<Rightarrow> (if t \<in> set (sg_timers st) then timeout_transaction E t st else Some st))"

inductive sg_reachable :: "('s, 'f) sgenv \<Rightarrow> 's \<Rightarrow> 's sgstate \<Rightarrow> bool" for E s0 where
  init: "sg_reachable E s0 (init_signaling s0)"
| step: "sg_reachable E s0 st \<Longrightarrow> sg_step E ev st = Some st' \<Longrightarrow> sg_reachable E s0 st'"

end
