(* ===== verification/Signaling_Inv.thy ===== *)
theory Signaling_Inv
  imports Signaling Option_Post
begin

text \<open>
  The invariant of the signaling plugin.  Every transaction is in exactly one place: waiting in the
  queue of its signal, in flight with a timer, completed, or (in the middle of an operation) the
  one that is being processed.  The predicates take the set \<open>X\<close> of the transactions and the set
  \<open>Y\<close> of the signals being processed; both are empty between two events.
\<close>

subsection \<open>The parts of the invariant\<close>

definition queue_of :: "'s sgstate \<Rightarrow> string \<Rightarrow> addr list" where
  "queue_of st s = (case sg_queues st s of None \<Rightarrow> [] | Some q \<Rightarrow> q)"

fun is_completion :: "sg_action \<Rightarrow> addr option" where
  "is_completion (Complete t) = Some t"
| "is_completion _ = None"

definition completed :: "'s sgstate \<Rightarrow> addr list" where
  "completed st = List.map_filter is_completion (sg_log st)"

text \<open>The number of places a transaction is found in.\<close>

definition places :: "'s sgstate \<Rightarrow> addr \<Rightarrow> nat" where
  "places st t =
     (case sg_tx_of st t of None \<Rightarrow> 0 | Some tx \<Rightarrow> count_list (queue_of st (sg_signal tx)) t) +
     count_list (sg_timers st) t + count_list (completed st) t"

definition accounted :: "addr set \<Rightarrow> 's sgstate \<Rightarrow> bool" where
  "accounted X st \<longleftrightarrow> (\<forall>t. places st t + of_bool (t \<in> X) = of_bool (sg_tx_of st t \<noteq> None))"

definition queues_ok :: "'s sgstate \<Rightarrow> bool" where
  "queues_ok st \<longleftrightarrow> (\<forall>s. \<forall>t \<in> set (queue_of st s). \<exists>tx. sg_tx_of st t = Some tx \<and> sg_signal tx = s \<and>
     \<not> sg_built tx \<and> sg_not_answered tx = [] \<and> sg_acked tx = [] \<and> sg_nacked tx = [])"

definition started :: "'s sgstate \<Rightarrow> bool" where
  "started st \<longleftrightarrow> (\<forall>t \<in> set (sg_timers st). \<exists>tx. sg_tx_of st t = Some tx \<and> sg_built tx \<and> sg_txid tx \<noteq> 0)"

text \<open>Who is waited for: the lists of the transactions and those of the enforcement points agree.\<close>

definition waits :: "'s sgstate \<Rightarrow> addr \<Rightarrow> addr list" where
  "waits st t = (case sg_tx_of st t of None \<Rightarrow> [] | Some tx \<Rightarrow> sg_not_answered tx)"

definition ongoing :: "'s sgstate \<Rightarrow> addr \<Rightarrow> addr list" where
  "ongoing st e = (case sg_ep_of st e of None \<Rightarrow> [] | Some ep \<Rightarrow> sg_ongoing ep)"

definition needs_answer :: "'s sgstate \<Rightarrow> addr \<Rightarrow> bool" where
  "needs_answer st t \<longleftrightarrow> (\<exists>tx. sg_tx_of st t = Some tx \<and> sg_txid tx \<noteq> 0)"

definition waiting :: "addr set \<Rightarrow> 's sgstate \<Rightarrow> bool" where
  "waiting X st \<longleftrightarrow>
     (\<forall>e \<in> set (sg_eps st). distinct (ongoing st e) \<and>
        (\<forall>t \<in> set (ongoing st e). t \<in> set (sg_timers st) \<union> X \<and> e \<in> set (waits st t))) \<and>
     (\<forall>t \<in> set (sg_timers st) \<union> X. distinct (waits st t) \<and>
        (\<forall>e \<in> set (waits st t). e \<in> set (sg_eps st) \<and>
          (needs_answer st t \<longrightarrow> t \<in> set (ongoing st e))))"

definition table_ok :: "addr set \<Rightarrow> 's sgstate \<Rightarrow> bool" where
  "table_ok X st \<longleftrightarrow> (\<forall>i t. sg_table st i = Some t \<longrightarrow> t \<in> set (sg_timers st) \<union> X \<and>
     map_option sg_txid (sg_tx_of st t) = Some i)"

definition in_flight :: "'s sgstate \<Rightarrow> string \<Rightarrow> bool" where
  "in_flight st s \<longleftrightarrow> (\<exists>t \<in> set (sg_timers st). map_option sg_signal (sg_tx_of st t) = Some s)"

definition served :: "string set \<Rightarrow> 's sgstate \<Rightarrow> bool" where
  "served Y st \<longleftrightarrow> (\<forall>s. queue_of st s \<noteq> [] \<longrightarrow>
     Process_inq s \<in> set (sg_idle st) \<or> in_flight st s \<or> s \<in> Y)"

fun sends :: "sg_task list \<Rightarrow> addr list" where
  "sends [] = []"
| "sends (Send_ipc t # xs) = t # sends xs"
| "sends (Process_inq s # xs) = sends xs"

definition pending_ok :: "'s sgstate \<Rightarrow> bool" where
  "pending_ok st \<longleftrightarrow> sg_pending st = sends (sg_idle st) \<and> distinct (sg_pending st) \<and>
     (\<forall>t \<in> set (sg_pending st). sg_tx_of st t \<noteq> None)"

definition eps_ok :: "'s sgstate \<Rightarrow> bool" where
  "eps_ok st \<longleftrightarrow> distinct (map (\<lambda>e. map_option sg_uri (sg_ep_of st e)) (sg_eps st)) \<and>
     (\<forall>e \<in> set (sg_eps st). sg_ep_of st e \<noteq> None)"

definition fresh_ok :: "'s sgstate \<Rightarrow> bool" where
  "fresh_ok st \<longleftrightarrow> (\<forall>a. sg_nalloc st \<le> a \<longrightarrow> sg_tx_of st a = None \<and> sg_ep_of st a = None)"

definition sg_inv :: "addr set \<Rightarrow> string set \<Rightarrow> 's sgstate \<Rightarrow> bool" where
  "sg_inv X Y st \<longleftrightarrow> accounted X st \<and> queues_ok st \<and> started st \<and> waiting X st \<and> table_ok X st \<and>
     served Y st \<and> pending_ok st \<and> eps_ok st \<and> fresh_ok st"

lemmas sg_inv_parts = accounted_def queues_ok_def started_def waiting_def table_ok_def served_def
  pending_ok_def eps_ok_def fresh_ok_def

lemmas sg_views = places_def queue_of_def waits_def ongoing_def needs_answer_def in_flight_def completed_def

subsection \<open>Views under the elementary updates\<close>

lemma sg_note_fields [simp]:
  "sg_eps (sg_note x st) = sg_eps st" "sg_ep_of (sg_note x st) = sg_ep_of st"
  "sg_tx_of (sg_note x st) = sg_tx_of st" "sg_table (sg_note x st) = sg_table st"
  "sg_queues (sg_note x st) = sg_queues st" "sg_idle (sg_note x st) = sg_idle st"
  "sg_timers (sg_note x st) = sg_timers st" "sg_pending (sg_note x st) = sg_pending st"
  "sg_nalloc (sg_note x st) = sg_nalloc st" "sg_log (sg_note x st) = sg_log st @ [x]"
  "sg_ready (sg_note x st) = sg_ready st" "sg_fs (sg_note x st) = sg_fs st"
  by (simp_all add: sg_note_def)

lemma upd_tx_fields [simp]:
  "sg_eps (upd_tx t f st) = sg_eps st" "sg_ep_of (upd_tx t f st) = sg_ep_of st"
  "sg_tx_of (upd_tx t f st) = (sg_tx_of st)(t := map_option f (sg_tx_of st t))"
  "sg_table (upd_tx t f st) = sg_table st"
  "sg_queues (upd_tx t f st) = sg_queues st" "sg_idle (upd_tx t f st) = sg_idle st"
  "sg_timers (upd_tx t f st) = sg_timers st" "sg_pending (upd_tx t f st) = sg_pending st"
  "sg_nalloc (upd_tx t f st) = sg_nalloc st" "sg_log (upd_tx t f st) = sg_log st"
  "sg_ready (upd_tx t f st) = sg_ready st" "sg_fs (upd_tx t f st) = sg_fs st"
  by (simp_all add: upd_tx_def)

lemma upd_ep_fields [simp]:
  "sg_eps (upd_ep e f st) = sg_eps st"
  "sg_ep_of (upd_ep e f st) = (sg_ep_of st)(e := map_option f (sg_ep_of st e))"
  "sg_tx_of (upd_ep e f st) = sg_tx_of st" "sg_table (upd_ep e f st) = sg_table st"
  "sg_queues (upd_ep e f st) = sg_queues st" "sg_idle (upd_ep e f st) = sg_idle st"
  "sg_timers (upd_ep e f st) = sg_timers st" "sg_pending (upd_ep e f st) = sg_pending st"
  "sg_nalloc (upd_ep e f st) = sg_nalloc st" "sg_log (upd_ep e f st) = sg_log st"
  "sg_ready (upd_ep e f st) = sg_ready st" "sg_fs (upd_ep e f st) = sg_fs st"
  by (simp_all add: upd_ep_def)

lemma completed_note [simp]:
  "completed (sg_note x st) = completed st @ (case is_completion x of None \<Rightarrow> [] | Some t \<Rightarrow> [t])"
  by (simp add: completed_def List.map_filter_def split: option.splits)

lemma completed_upd [simp]:
  "completed (upd_tx t f st) = completed st" "completed (upd_ep e g st) = completed st"
  by (simp_all add: completed_def)

lemma completed_log: "sg_log st' = sg_log st \<Longrightarrow> completed st' = completed st"
  by (simp add: completed_def)

lemma sends_append [simp]: "sends (xs @ ys) = sends xs @ sends ys"
  by (induction xs rule: sends.induct) simp_all

text \<open>The invariant sees only part of the state.\<close>

lemma sg_inv_cong:
  assumes "sg_eps st' = sg_eps st" "sg_ep_of st' = sg_ep_of st" "sg_tx_of st' = sg_tx_of st"
    "sg_table st' = sg_table st" "queue_of st' = queue_of st" "sg_idle st' = sg_idle st"
    "sg_timers st' = sg_timers st" "sg_pending st' = sg_pending st" "sg_nalloc st' = sg_nalloc st"
    "completed st' = completed st"
  shows "sg_inv X Y st' = sg_inv X Y st"
  by (simp add: sg_inv_def sg_inv_parts places_def waits_def ongoing_def needs_answer_def in_flight_def
      assms cong: option.case_cong)

lemma sg_inv_note: "is_completion x = None \<Longrightarrow> sg_inv X Y (sg_note x st) = sg_inv X Y st"
  by (rule sg_inv_cong) (simp_all add: queue_of_def fun_eq_iff)

lemma sg_inv_mono: "sg_inv X Y st \<Longrightarrow> Y \<subseteq> Y' \<Longrightarrow> sg_inv X Y' st"
  unfolding sg_inv_def served_def by blast

lemma sg_inv_served_signal:
  assumes "sg_inv X (insert s Y) st"
    and "queue_of st s = [] \<or> Process_inq s \<in> set (sg_idle st) \<or> in_flight st s"
  shows "sg_inv X Y st"
  using assms unfolding sg_inv_def served_def by blast

text \<open>A transaction that is in flight or being processed is nowhere else.\<close>

lemma count_list_0: "count_list xs x = 0 \<longleftrightarrow> x \<notin> set xs"
  by (induction xs) auto

lemma accounted_live:
  assumes "accounted X st" "queues_ok st" "t \<in> set (sg_timers st) \<union> X"
  shows "t \<notin> set (queue_of st s)" "t \<notin> set (completed st)" "sg_tx_of st t \<noteq> None"
    "t \<in> X \<Longrightarrow> t \<notin> set (sg_timers st)" "count_list (sg_timers st) t \<le> 1"
proof -
  have p: "places st t + of_bool (t \<in> X) = of_bool (sg_tx_of st t \<noteq> None)"
    using assms(1) by (simp add: accounted_def)
  have c: "count_list (sg_timers st) t > 0 \<or> t \<in> X"
    using assms(3) count_list_0 [of "sg_timers st" t] by auto
  show "sg_tx_of st t \<noteq> None"
  proof
    assume "sg_tx_of st t = None"
    then show False using p c by (auto simp: places_def)
  qed
  then obtain tx where tx: "sg_tx_of st t = Some tx" by auto
  have sum: "count_list (queue_of st (sg_signal tx)) t + count_list (sg_timers st) t +
      count_list (completed st) t + of_bool (t \<in> X) = 1"
    using p tx by (simp add: places_def)
  show "t \<notin> set (completed st)" using sum c count_list_0 [of "completed st" t] by (auto simp: of_bool_def)
  show "count_list (sg_timers st) t \<le> 1" using sum by linarith
  show "t \<in> X \<Longrightarrow> t \<notin> set (sg_timers st)"
    using sum count_list_0 [of "sg_timers st" t] by auto
  have "t \<notin> set (queue_of st (sg_signal tx))"
    using sum c count_list_0 [of "queue_of st (sg_signal tx)" t] by (auto simp: of_bool_def split: if_splits)
  then show "t \<notin> set (queue_of st s)"
    using assms(2) tx unfolding queues_ok_def by force
qed
subsection \<open>Queueing\<close>

lemma enqueue_decision_fields:
  assumes "enqueue_decision s fs i need timeout st = (t, needs, st1)"
  shows "t = sg_nalloc st" "needs \<longleftrightarrow> queue_of st s = []" "sg_eps st1 = sg_eps st"
    "sg_ep_of st1 = sg_ep_of st" "sg_table st1 = sg_table st" "sg_idle st1 = sg_idle st"
    "sg_timers st1 = sg_timers st" "sg_pending st1 = sg_pending st" "sg_log st1 = sg_log st"
    "sg_nalloc st1 = Suc t" "queue_of st1 = (queue_of st)(s := queue_of st s @ [t])"
    "sg_fs st1 = sg_fs st" "sg_ready st1 = sg_ready st"
    "\<exists>tx. sg_tx_of st1 = (sg_tx_of st)(t \<mapsto> tx) \<and> sg_signal tx = s \<and> \<not> sg_built tx \<and>
       sg_not_answered tx = [] \<and> sg_acked tx = [] \<and> sg_nacked tx = [] \<and> sg_callback tx = None"
  using assms
  by (auto simp: enqueue_decision_def Let_def queue_of_def signal_queue_lookup_def fun_eq_iff
      split: option.splits)

lemma count_list_append1: "count_list (xs @ [y]) x = count_list xs x + of_bool (x = y)"
  by (induction xs) auto

lemma inv_enqueue:
  assumes inv: "sg_inv X Y st" and X: "X \<subseteq> dom (sg_tx_of st)"
    and enq: "enqueue_decision s fs i need timeout st = (t, needs, st1)"
  shows "sg_inv X (if needs then insert s Y else Y) st1"
proof -
  note f = enqueue_decision_fields [OF enq]
  obtain tx where tx: "sg_tx_of st1 = (sg_tx_of st)(t \<mapsto> tx)" "sg_signal tx = s" "\<not> sg_built tx"
    "sg_not_answered tx = []" "sg_acked tx = []" "sg_nacked tx = []" using f(14) by blast
  have new: "sg_tx_of st t = None" "sg_ep_of st t = None"
    using inv f(1) by (auto simp: sg_inv_def fresh_ok_def)
  have acc: "accounted X st" and q: "queues_ok st" and tm: "started st" using inv by (simp_all add: sg_inv_def)
  have tX: "t \<notin> X" using X new by auto
  have z: "places st t = 0" using acc [unfolded accounted_def, rule_format, of t] new tX by simp
  have notq: "t \<notin> set (queue_of st s')" for s' using q new unfolding queues_ok_def by force
  have nt: "t \<notin> set (sg_timers st)" using tm new unfolding started_def by force
  have "accounted X st1" unfolding accounted_def
  proof
    fix u
    show "places st1 u + of_bool (u \<in> X) = of_bool (sg_tx_of st1 u \<noteq> None)"
    proof (cases "u = t")
      case True
      have "count_list (queue_of st s) t = 0" using notq count_list_0 by metis
      then show ?thesis using True z tX new tx f
        by (simp add: places_def completed_log [OF f(9)] count_list_append1)
    next
      case False
      then have "places st1 u = places st u" using tx f
        by (simp add: places_def completed_log [OF f(9)] count_list_append1 split: option.splits)
      then show ?thesis using acc False tx by (simp add: accounted_def)
    qed
  qed
  moreover have "queues_ok st1" unfolding queues_ok_def
  proof (intro allI ballI)
    fix s' u assume u: "u \<in> set (queue_of st1 s')"
    show "\<exists>tx. sg_tx_of st1 u = Some tx \<and> sg_signal tx = s' \<and> \<not> sg_built tx \<and>
        sg_not_answered tx = [] \<and> sg_acked tx = [] \<and> sg_nacked tx = []"
    proof (cases "u = t")
      case True
      then have "s' = s" using u notq f by (auto split: if_splits)
      then show ?thesis using True tx by simp
    next
      case False
      then have "u \<in> set (queue_of st s')" using u f by (auto split: if_splits)
      then show ?thesis using q False tx(1) by (simp add: queues_ok_def)
    qed
  qed
  moreover have "started st1" using tm nt tx(1) f unfolding started_def by auto
  moreover have "waiting X st1"
  proof -
    have ts: "t \<notin> set (sg_timers st) \<union> X" using nt tX by auto
    have o: "ongoing st1 = ongoing st" using f by (simp add: ongoing_def fun_eq_iff)
    have w: "waits st1 u = waits st u" for u using tx new by (simp add: waits_def)
    have n: "needs_answer st1 u = needs_answer st u" if "u \<noteq> t" for u
      using that tx by (simp add: needs_answer_def)
    have "waiting X st" using inv by (simp add: sg_inv_def)
    then show ?thesis using n ts unfolding waiting_def by (metis f(3) f(7) o w)
  qed
  moreover have "table_ok X st1"
    unfolding table_ok_def
  proof (intro allI impI)
    fix j u assume "sg_table st1 j = Some u"
    then have "sg_table st j = Some u" by (simp add: f(5))
    then have u: "u \<in> set (sg_timers st) \<union> X" "map_option sg_txid (sg_tx_of st u) = Some j"
      using inv by (simp_all add: sg_inv_def table_ok_def)
    then have "u \<noteq> t" using new by auto
    then show "u \<in> set (sg_timers st1) \<union> X \<and> map_option sg_txid (sg_tx_of st1 u) = Some j"
      using u tx(1) f(7) by simp
  qed
  moreover have "served (if needs then insert s Y else Y) st1"
  proof -
    have fl: "in_flight st1 s' = in_flight st s'" for s'
      unfolding in_flight_def f(7) tx(1) by (rule bex_cong [OF refl]) (use nt in auto)
    have "served Y st" using inv by (simp add: sg_inv_def)
    then show ?thesis using f(2,6,11) fl unfolding served_def by (auto split: if_splits)
  qed
  moreover have "pending_ok st1" using inv tx(1) f unfolding sg_inv_def pending_ok_def by auto
  moreover have "eps_ok st1" using inv f unfolding sg_inv_def eps_ok_def by simp
  moreover have "fresh_ok st1" using inv f tx(1) unfolding sg_inv_def fresh_ok_def by auto
  ultimately show ?thesis by (simp add: sg_inv_def)
qed

lemma idle_views [simp]:
  "accounted X (st\<lparr>sg_idle := xs\<rparr>) = accounted X st" "queues_ok (st\<lparr>sg_idle := xs\<rparr>) = queues_ok st"
  "started (st\<lparr>sg_idle := xs\<rparr>) = started st" "waiting X (st\<lparr>sg_idle := xs\<rparr>) = waiting X st"
  "table_ok X (st\<lparr>sg_idle := xs\<rparr>) = table_ok X st" "eps_ok (st\<lparr>sg_idle := xs\<rparr>) = eps_ok st"
  "fresh_ok (st\<lparr>sg_idle := xs\<rparr>) = fresh_ok st" "queue_of (st\<lparr>sg_idle := xs\<rparr>) = queue_of st"
  "in_flight (st\<lparr>sg_idle := xs\<rparr>) s = in_flight st s"
  by (simp_all add: accounted_def queues_ok_def started_def waiting_def table_ok_def eps_ok_def
      fresh_ok_def sg_views fun_eq_iff cong: option.case_cong)

lemma inv_add_process:
  assumes "sg_inv X (insert s Y) st"
  shows "sg_inv X Y (st\<lparr>sg_idle := sg_idle st @ [Process_inq s]\<rparr>)"
  using assms by (auto simp: sg_inv_def served_def pending_ok_def)

lemma deferred_fields:
  assumes "queue_deferred s fs i need timeout st = (t, st1)"
  shows "t = sg_nalloc st" "sg_tx_of st t = None \<Longrightarrow> dom (sg_tx_of st1) = insert t (dom (sg_tx_of st))"
    "sg_timers st1 = sg_timers st" "sg_log st1 = sg_log st"
  using assms
  by (auto simp: queue_deferred_def enqueue_decision_def Let_def split: if_splits)

lemma inv_queue_deferred:
  assumes "sg_inv X Y st" "X \<subseteq> dom (sg_tx_of st)" "queue_deferred s fs i need timeout st = (t, st1)"
  shows "sg_inv X Y st1"
proof -
  obtain needs st2 where enq: "enqueue_decision s fs i need timeout st = (t, needs, st2)"
    using assms(3) by (auto simp: queue_deferred_def split: prod.splits)
  then have "st1 = (if needs then st2\<lparr>sg_idle := sg_idle st2 @ [Process_inq s]\<rparr> else st2)"
    using assms(3) by (simp add: queue_deferred_def)
  then show ?thesis using inv_enqueue [OF assms(1,2) enq] by (auto intro: inv_add_process split: if_splits)
qed

text \<open>Fields that the invariant does not look at, such as the callback, may be set.\<close>

lemma inv_upd_tx:
  assumes "sg_inv X Y st" "\<And>x. sg_signal (f x) = sg_signal x" "\<And>x. sg_txid (f x) = sg_txid x"
    "\<And>x. sg_built (f x) = sg_built x" "\<And>x. sg_not_answered (f x) = sg_not_answered x"
    "\<And>x. sg_acked (f x) = sg_acked x" "\<And>x. sg_nacked (f x) = sg_nacked x"
  shows "sg_inv X Y (upd_tx t f st)"
proof -
  have [simp]: "queue_of (upd_tx t f st) = queue_of st" by (simp add: queue_of_def fun_eq_iff)
  have p: "places (upd_tx t f st) = places st"
    by (simp add: fun_eq_iff places_def assms split: option.splits)
  have d: "(sg_tx_of (upd_tx t f st) u = None) = (sg_tx_of st u = None)" for u by simp
  have w: "waits (upd_tx t f st) = waits st" "ongoing (upd_tx t f st) = ongoing st"
    by (simp_all add: fun_eq_iff waits_def ongoing_def assms split: option.splits)
  have n: "needs_answer (upd_tx t f st) u = needs_answer st u" for u
    by (auto simp: needs_answer_def assms)
  have g: "map_option sg_signal (sg_tx_of (upd_tx t f st) u) = map_option sg_signal (sg_tx_of st u)"
    "map_option sg_txid (sg_tx_of (upd_tx t f st) u) = map_option sg_txid (sg_tx_of st u)" for u
    by (simp_all add: assms option.map_comp comp_def)
  have fl: "in_flight (upd_tx t f st) = in_flight st" by (simp only: fun_eq_iff in_flight_def g upd_tx_fields(7)) simp
  have parts: "accounted X st" "queues_ok st" "started st" "waiting X st" "table_ok X st" "served Y st"
    "pending_ok st" "eps_ok st" "fresh_ok st"
    using assms(1) by (simp_all add: sg_inv_def)
  have "accounted X (upd_tx t f st)" using parts(1) unfolding accounted_def p d .
  moreover have "queues_ok (upd_tx t f st)"
    unfolding queues_ok_def
  proof (intro allI ballI)
    fix s u assume "u \<in> set (queue_of (upd_tx t f st) s)"
    then obtain tx where "sg_tx_of st u = Some tx" "sg_signal tx = s" "\<not> sg_built tx"
      "sg_not_answered tx = []" "sg_acked tx = []" "sg_nacked tx = []"
      using parts(2) by (auto simp: queues_ok_def)
    then show "\<exists>tx. sg_tx_of (upd_tx t f st) u = Some tx \<and> sg_signal tx = s \<and> \<not> sg_built tx \<and>
        sg_not_answered tx = [] \<and> sg_acked tx = [] \<and> sg_nacked tx = []"
      by (cases "u = t") (simp_all add: assms(2-))
  qed
  moreover have "started (upd_tx t f st)" 
    unfolding started_def
  proof
    fix u assume "u \<in> set (sg_timers (upd_tx t f st))"
    then obtain tx where "sg_tx_of st u = Some tx" "sg_built tx" "sg_txid tx \<noteq> 0"
      using parts(3) by (auto simp: started_def)
    then show "\<exists>tx. sg_tx_of (upd_tx t f st) u = Some tx \<and> sg_built tx \<and> sg_txid tx \<noteq> 0"
      by (cases "u = t") (simp_all add: assms(2-))
  qed
  moreover have "waiting X (upd_tx t f st)" using parts(4) unfolding waiting_def w n upd_tx_fields(1,7) .
  moreover have "table_ok X (upd_tx t f st)" using parts(5) unfolding table_ok_def g upd_tx_fields(4,7) .
  moreover have "served Y (upd_tx t f st)" using parts(6)
    by (simp only: served_def fl upd_tx_fields(6) \<open>queue_of (upd_tx t f st) = queue_of st\<close>)
  moreover have "pending_ok (upd_tx t f st)" using parts(7) unfolding pending_ok_def d upd_tx_fields(6,8) .
  moreover have "eps_ok (upd_tx t f st)" using parts(8) by (simp add: eps_ok_def)
  moreover have "fresh_ok (upd_tx t f st)" using parts(9) unfolding fresh_ok_def d upd_tx_fields(2,9) .
  ultimately show ?thesis by (simp add: sg_inv_def)
qed

lemma inv_signal_changed_deferred:
  assumes "sg_inv X Y st" "X \<subseteq> dom (sg_tx_of st)"
  shows "sg_inv X Y (signal_changed_deferred ch st)" "X \<subseteq> dom (sg_tx_of (signal_changed_deferred ch st))"
proof -
  obtain s i fs cb timeout where ch: "ch = (s, i, fs, cb, timeout)" by (cases ch)
  obtain t0 st0 where q0: "queue_deferred s (rev fs) 0 False 0 st = (t0, st0)" by (cases "queue_deferred s (rev fs) 0 False 0 st")
  obtain t1 st1 where q1: "queue_deferred s (rev fs) i True timeout st = (t1, st1)" by (cases "queue_deferred s (rev fs) i True timeout st")
  have new: "sg_tx_of st (sg_nalloc st) = None" using assms(1) by (simp add: sg_inv_def fresh_ok_def)
  have i0: "sg_inv X Y st0" and i1: "sg_inv X Y st1"
    using inv_queue_deferred [OF assms q0] inv_queue_deferred [OF assms q1] .
  have d0: "X \<subseteq> dom (sg_tx_of st0)" and d1: "X \<subseteq> dom (sg_tx_of st1)"
    using deferred_fields(1,2) [OF q0] deferred_fields(1,2) [OF q1] new assms(2) by auto
  show "sg_inv X Y (signal_changed_deferred ch st)"
    using i0 i1 by (auto simp: signal_changed_deferred_def ch q0 q1 sg_inv_note inv_upd_tx split: option.split)
  show "X \<subseteq> dom (sg_tx_of (signal_changed_deferred ch st))"
    using d0 d1 by (auto simp: signal_changed_deferred_def ch q0 q1 split: option.split)
qed

lemma inv_fold_changed:
  assumes "sg_inv X Y st" "X \<subseteq> dom (sg_tx_of st)"
  shows "sg_inv X Y (fold signal_changed_deferred chs st) \<and>
    X \<subseteq> dom (sg_tx_of (fold signal_changed_deferred chs st))"
  using assms by (induction chs arbitrary: st) (simp_all add: inv_signal_changed_deferred)
subsection \<open>Links between transactions and enforcement points\<close>

text \<open>
  What the operations on the lists of a live transaction and of the enforcement points have in
  common: only who is waited for changes.
\<close>

definition same_tx :: "sg_tx \<Rightarrow> sg_tx \<Rightarrow> bool" where
  "same_tx x y \<longleftrightarrow> sg_signal y = sg_signal x \<and> sg_txid y = sg_txid x \<and> (sg_built x \<longrightarrow> sg_built y) \<and>
     sg_callback y = sg_callback x \<and> sg_facts y = sg_facts x \<and> sg_timeout y = sg_timeout x"

definition relinked :: "addr \<Rightarrow> 's sgstate \<Rightarrow> 's sgstate \<Rightarrow> bool" where
  "relinked t st st' \<longleftrightarrow>
     sg_eps st' = sg_eps st \<and> sg_table st' = sg_table st \<and> sg_queues st' = sg_queues st \<and>
     sg_timers st' = sg_timers st \<and> sg_nalloc st' = sg_nalloc st \<and>
     completed st' = completed st \<and> (\<forall>u. u \<noteq> t \<longrightarrow> sg_tx_of st' u = sg_tx_of st u) \<and>
     (\<exists>x y. sg_tx_of st t = Some x \<and> sg_tx_of st' t = Some y \<and> same_tx x y) \<and>
     (\<forall>e. map_option sg_uri (sg_ep_of st' e) = map_option sg_uri (sg_ep_of st e)) \<and>
     (\<forall>e. map_option sg_internal (sg_ep_of st' e) = map_option sg_internal (sg_ep_of st e))"

lemma same_tx_refl [simp]: "same_tx x x" by (simp add: same_tx_def)

lemma same_tx_trans: "same_tx x y \<Longrightarrow> same_tx y z \<Longrightarrow> same_tx x z" by (simp add: same_tx_def)

lemma relinked_refl: "sg_tx_of st t \<noteq> None \<Longrightarrow> relinked t st st"
  by (auto simp: relinked_def)

lemma relinked_trans: "relinked t st st1 \<Longrightarrow> relinked t st1 st2 \<Longrightarrow> relinked t st st2"
  unfolding relinked_def by (elim conjE exE) (auto intro: same_tx_trans)

lemma relinked_tx: "relinked t st st' \<Longrightarrow> \<exists>x y. sg_tx_of st t = Some x \<and> sg_tx_of st' t = Some y \<and> same_tx x y"
  by (simp add: relinked_def)

lemma relinked_views:
  assumes "relinked t st st'"
  shows "queue_of st' = queue_of st" "places st' = places st"
    "(sg_tx_of st' u = None) = (sg_tx_of st u = None)"
    "(sg_ep_of st' e = None) = (sg_ep_of st e = None)"
    "needs_answer st' u = needs_answer st u" "in_flight st' = in_flight st"
    "map_option sg_signal (sg_tx_of st' u) = map_option sg_signal (sg_tx_of st u)"
    "map_option sg_txid (sg_tx_of st' u) = map_option sg_txid (sg_tx_of st u)"
    "sg_tx_of st u = Some a \<Longrightarrow> sg_built a \<Longrightarrow> \<exists>b. sg_tx_of st' u = Some b \<and> sg_built b"
proof -
  obtain x y where xy: "sg_tx_of st t = Some x" "sg_tx_of st' t = Some y" "same_tx x y"
    using relinked_tx [OF assms] by blast
  have o: "sg_tx_of st' u = sg_tx_of st u" if "u \<noteq> t" for u using assms that by (simp add: relinked_def)
  show q: "queue_of st' = queue_of st" using assms by (simp add: relinked_def queue_of_def fun_eq_iff)
  show "(sg_tx_of st' u = None) = (sg_tx_of st u = None)"
    using xy o by (cases "u = t") simp_all
  have "map_option sg_uri (sg_ep_of st' e) = map_option sg_uri (sg_ep_of st e)"
    using assms by (simp add: relinked_def)
  then show "(sg_ep_of st' e = None) = (sg_ep_of st e = None)" by (metis option.map_disc_iff)
  have g: "map_option sg_signal (sg_tx_of st' u) = map_option sg_signal (sg_tx_of st u)"
    "map_option sg_txid (sg_tx_of st' u) = map_option sg_txid (sg_tx_of st u)" for u
    using xy o by (cases "u = t"; simp add: same_tx_def)+
  show "sg_tx_of st u = Some a \<Longrightarrow> sg_built a \<Longrightarrow> \<exists>b. sg_tx_of st' u = Some b \<and> sg_built b"
    using xy o by (cases "u = t") (simp_all add: same_tx_def)
  show "map_option sg_signal (sg_tx_of st' u) = map_option sg_signal (sg_tx_of st u)"
    "map_option sg_txid (sg_tx_of st' u) = map_option sg_txid (sg_tx_of st u)" by (rule g)+
  show "needs_answer st' u = needs_answer st u"
    using xy o by (cases "u = t") (simp_all add: needs_answer_def same_tx_def)
  have tm: "sg_timers st' = sg_timers st" using assms by (simp add: relinked_def)
  show "in_flight st' = in_flight st" by (simp only: fun_eq_iff in_flight_def g tm) simp
  have c: "completed st' = completed st" using assms by (simp add: relinked_def)
  show "places st' = places st"
  proof
    fix u show "places st' u = places st u"
      using xy o by (cases "u = t") (simp_all add: places_def q tm c same_tx_def cong: option.case_cong)
  qed
qed

text \<open>The invariant but for who is waited for.\<close>

definition sg_static :: "addr set \<Rightarrow> string set \<Rightarrow> 's sgstate \<Rightarrow> bool" where
  "sg_static X Y st \<longleftrightarrow> accounted X st \<and> queues_ok st \<and> started st \<and> table_ok X st \<and>
     served Y st \<and> pending_ok st \<and> eps_ok st \<and> fresh_ok st"

lemma sg_inv_split: "sg_inv X Y st \<longleftrightarrow> sg_static X Y st \<and> waiting X st"
  by (auto simp: sg_inv_def sg_static_def)

lemma static_relinked:
  assumes inv: "sg_static X Y st" and r: "relinked t st st'" and t: "t \<in> set (sg_timers st) \<union> X"
    and idle: "sg_idle st' = sg_idle st" "sg_pending st' = sg_pending st"
  shows "sg_static X Y st'"
proof -
  note v = relinked_views [OF r]
  have f: "sg_eps st' = sg_eps st" "sg_table st' = sg_table st" "sg_timers st' = sg_timers st"
    "sg_nalloc st' = sg_nalloc st" "\<And>u. u \<noteq> t \<Longrightarrow> sg_tx_of st' u = sg_tx_of st u"
    "\<And>e. map_option sg_uri (sg_ep_of st' e) = map_option sg_uri (sg_ep_of st e)"
    using r by (simp_all add: relinked_def)
  have parts: "accounted X st" "queues_ok st" "started st" "table_ok X st" "served Y st"
    "pending_ok st" "eps_ok st" "fresh_ok st"
    using inv by (simp_all add: sg_static_def)
  have "accounted X st'" using parts(1) unfolding accounted_def v .
  moreover have "queues_ok st'" unfolding queues_ok_def
  proof (intro allI ballI)
    fix s u assume u: "u \<in> set (queue_of st' s)"
    then have "u \<noteq> t" using accounted_live(1) [OF parts(1,2) t] v(1) by auto
    then show "\<exists>tx. sg_tx_of st' u = Some tx \<and> sg_signal tx = s \<and> \<not> sg_built tx \<and>
        sg_not_answered tx = [] \<and> sg_acked tx = [] \<and> sg_nacked tx = []"
      using u parts(2) v(1) f(5) by (simp add: queues_ok_def)
  qed
  moreover have "started st'" unfolding started_def
  proof
    fix u assume "u \<in> set (sg_timers st')"
    then obtain tx where "sg_tx_of st u = Some tx" "sg_built tx" "sg_txid tx \<noteq> 0"
      using parts(3) f(3) by (auto simp: started_def)
    then show "\<exists>tx. sg_tx_of st' u = Some tx \<and> sg_built tx \<and> sg_txid tx \<noteq> 0"
      using v(8) [of u] v(9) [of u tx] by auto
  qed
  moreover have "table_ok X st'" using parts(4) unfolding table_ok_def v f .
  moreover have "served Y st'" using parts(5) unfolding served_def v idle .
  moreover have "pending_ok st'" using parts(6) unfolding pending_ok_def v idle .
  moreover have "eps_ok st'" using parts(7) unfolding eps_ok_def v f .
  moreover have "fresh_ok st'" using parts(8) unfolding fresh_ok_def v f .
  ultimately show ?thesis by (simp add: sg_static_def)
qed

lemma inv_relinked:
  assumes "sg_inv X Y st" "relinked t st st'" "t \<in> set (sg_timers st) \<union> X"
    "sg_idle st' = sg_idle st" "sg_pending st' = sg_pending st" "waiting X st'"
  shows "sg_inv X Y st'"
  using static_relinked [OF _ assms(2-5)] assms(1,6) by (simp add: sg_inv_split)

text \<open>Two lists that are linked, and two that are cut.\<close>

lemma waiting_cut:
  assumes "waiting X st" and f: "sg_eps st' = sg_eps st" "sg_timers st' = sg_timers st"
    "\<And>u. needs_answer st' u = needs_answer st u"
    and o: "\<And>d. ongoing st' d = (if d = e then remove1 t (ongoing st d) else ongoing st d)"
    and w: "\<And>u. waits st' u = (if u = t then remove1 e (waits st u) else waits st u)"
  shows "waiting X st'"
  unfolding waiting_def f(1,2)
proof (intro conjI ballI impI)
  fix d assume d: "d \<in> set (sg_eps st)"
  then have di: "distinct (ongoing st d)" and c: "\<And>u. u \<in> set (ongoing st d) \<Longrightarrow> u \<in> set (sg_timers st) \<union> X \<and> d \<in> set (waits st u)"
    using assms(1) unfolding waiting_def by (blast+)
  show "distinct (ongoing st' d)" using di by (auto simp: o)
  fix u assume u: "u \<in> set (ongoing st' d)"
  have ud: "u \<in> set (ongoing st d)" and ne: "\<not> (u = t \<and> d = e)"
    using u di by (auto simp: o split: if_splits)
  show "u \<in> set (sg_timers st) \<union> X" using c [OF ud] ..
  show "d \<in> set (waits st' u)" using c [OF ud] ne by (auto simp: w)
next
  fix u assume u: "u \<in> set (sg_timers st) \<union> X"
  then have di: "distinct (waits st u)" and c: "\<And>d. d \<in> set (waits st u) \<Longrightarrow> d \<in> set (sg_eps st)"
    "\<And>d. d \<in> set (waits st u) \<Longrightarrow> needs_answer st u \<Longrightarrow> u \<in> set (ongoing st d)"
    using assms(1) unfolding waiting_def by (blast+)
  show "distinct (waits st' u)" using di by (auto simp: w)
  fix d assume d: "d \<in> set (waits st' u)"
  have du: "d \<in> set (waits st u)" and ne: "\<not> (u = t \<and> d = e)"
    using d di by (auto simp: w split: if_splits)
  show "d \<in> set (sg_eps st)" using c(1) [OF du] .
  show "u \<in> set (ongoing st' d)" if "needs_answer st' u"
    using c(2) [OF du] that ne by (auto simp: o f(3))
qed

lemma waiting_link:
  assumes "waiting X st" and f: "sg_eps st' = sg_eps st" "sg_timers st' = sg_timers st"
    "\<And>u. needs_answer st' u = needs_answer st u"
    and t: "t \<in> set (sg_timers st) \<union> X" and e: "e \<in> set (sg_eps st)" "e \<notin> set (waits st t)"
    and o: "\<And>d. ongoing st' d = (if d = e \<and> linked then t # ongoing st d else ongoing st d)"
    and w: "\<And>u. waits st' u = (if u = t then e # waits st u else waits st u)"
    and l: "linked \<or> \<not> needs_answer st t"
  shows "waiting X st'"
  unfolding waiting_def f(1,2)
proof (intro conjI ballI impI)
  fix d assume d: "d \<in> set (sg_eps st)"
  then have di: "distinct (ongoing st d)" and c: "\<And>u. u \<in> set (ongoing st d) \<Longrightarrow> u \<in> set (sg_timers st) \<union> X \<and> d \<in> set (waits st u)"
    using assms(1) unfolding waiting_def by (blast+)
  show "distinct (ongoing st' d)" using di c e(2) by (auto simp: o)
  fix u assume u: "u \<in> set (ongoing st' d)"
  then have "u \<in> set (ongoing st d) \<or> u = t \<and> d = e" by (auto simp: o split: if_splits)
  then show "u \<in> set (sg_timers st) \<union> X" "d \<in> set (waits st' u)" using c [of u] t by (auto simp: w)
next
  fix u assume u: "u \<in> set (sg_timers st) \<union> X"
  then have di: "distinct (waits st u)" and c: "\<And>d. d \<in> set (waits st u) \<Longrightarrow> d \<in> set (sg_eps st)"
    "\<And>d. d \<in> set (waits st u) \<Longrightarrow> needs_answer st u \<Longrightarrow> u \<in> set (ongoing st d)"
    using assms(1) unfolding waiting_def by (blast+)
  show "distinct (waits st' u)" using di e(2) by (auto simp: w)
  fix d assume d: "d \<in> set (waits st' u)"
  then have du: "d \<in> set (waits st u) \<or> u = t \<and> d = e" by (auto simp: w split: if_splits)
  then show "d \<in> set (sg_eps st)" using c(1) e(1) by auto
  show "u \<in> set (ongoing st' d)" if "needs_answer st' u"
    using c(2) [of d] du that l by (auto simp: o f(3))
qed

subsection \<open>Sending and answering\<close>

lemma relinked_note_ack:
  assumes "sg_tx_of st t \<noteq> None"
  shows "relinked t st (note_ack e t ack st)"
  using assms unfolding relinked_def
  by (cases ack) (auto simp: note_ack_def transaction_ack_ep_def stop_transaction_def same_tx_def
      option.map_comp comp_def)

lemma note_ack_lists:
  assumes "sg_tx_of st t = Some tx"
  shows "ongoing (note_ack e t ack st) d = (if d = e then remove1 t (ongoing st d) else ongoing st d)"
    "waits (note_ack e t ack st) u = (if u = t then remove1 e (waits st u) else waits st u)"
    "sg_idle (note_ack e t ack st) = sg_idle st" "sg_pending (note_ack e t ack st) = sg_pending st"
    "sg_log (note_ack e t ack st) = sg_log st" "sg_timers (note_ack e t ack st) = sg_timers st"
    "sg_eps (note_ack e t ack st) = sg_eps st"
  using assms
  by (auto simp: ongoing_def waits_def note_ack_def transaction_ack_ep_def stop_transaction_def
      split: option.split)

lemma inv_note_ack:
  assumes inv: "sg_inv X Y st" and e: "e \<in> set (sg_eps st)" and t: "t \<in> set (ongoing st e)"
  shows "sg_inv X Y (note_ack e t ack st)"
proof -
  have live: "t \<in> set (sg_timers st) \<union> X" using inv e t unfolding sg_inv_def waiting_def by blast
  then have d: "sg_tx_of st t \<noteq> None"
    using accounted_live(3) [of X st t] inv by (simp add: sg_inv_def)
  then obtain tx where tx: "sg_tx_of st t = Some tx" by blast
  note r = relinked_note_ack [OF d, of e ack] and l = note_ack_lists [OF tx, of e ack]
  have "waiting X (note_ack e t ack st)"
    by (rule waiting_cut [where st = st and t = t and e = e])
      (use inv l relinked_views(5) [OF r] in \<open>simp_all add: sg_inv_def\<close>)
  then show ?thesis by (rule inv_relinked [OF inv r live l(3,4)])
qed

lemma relinked_add:
  assumes "sg_tx_of st t \<noteq> None"
  shows "relinked t st (transaction_add_ep t e st)"
    "relinked t st (upd_ep e (\<lambda>x. x\<lparr>sg_ongoing := t # sg_ongoing x\<rparr>) (transaction_add_ep t e st))"
  using assms unfolding relinked_def
  by (auto simp: transaction_add_ep_def same_tx_def option.map_comp comp_def)

lemma inv_add_ep:
  assumes inv: "sg_inv X Y st" and e: "e \<in> set (sg_eps st)" "e \<notin> set (waits st t)"
    and t: "t \<in> set (sg_timers st) \<union> X"
  shows "\<not> needs_answer st t \<Longrightarrow> sg_inv X Y (transaction_add_ep t e st)"
    "sg_inv X Y (upd_ep e (\<lambda>x. x\<lparr>sg_ongoing := t # sg_ongoing x\<rparr>) (transaction_add_ep t e st))"
proof -
  have d: "sg_tx_of st t \<noteq> None" "sg_ep_of st e \<noteq> None"
    using accounted_live(3) [of X st t] inv t e(1) by (simp_all add: sg_inv_def eps_ok_def)
  note r = relinked_add [OF d(1), of e]
  have w: "waiting X st" using inv by (simp add: sg_inv_def)
  show "sg_inv X Y (transaction_add_ep t e st)" if n: "\<not> needs_answer st t"
    by (rule inv_relinked [OF inv r(1) t])
      (simp_all add: transaction_add_ep_def, rule waiting_link [where linked = False and st = st, OF w _ _ _ t e],
       use d n in \<open>auto simp: ongoing_def waits_def needs_answer_def split: option.splits\<close>)
  show "sg_inv X Y (upd_ep e (\<lambda>x. x\<lparr>sg_ongoing := t # sg_ongoing x\<rparr>) (transaction_add_ep t e st))"
    by (rule inv_relinked [OF inv r(2) t])
      (simp_all add: transaction_add_ep_def, rule waiting_link [where linked = True and st = st, OF w _ _ _ t e],
       use d in \<open>auto simp: ongoing_def waits_def needs_answer_def split: option.splits\<close>)
qed
lemma inv_add_pending:
  assumes "sg_inv X Y st" "sg_tx_of st t \<noteq> None" "t \<notin> set (sg_pending st)"
  shows "sg_inv X Y (st\<lparr>sg_pending := sg_pending st @ [t], sg_idle := sg_idle st @ [Send_ipc t]\<rparr>)"
proof -
  let ?st = "st\<lparr>sg_pending := sg_pending st @ [t], sg_idle := sg_idle st @ [Send_ipc t]\<rparr>"
  have parts: "accounted X st" "queues_ok st" "started st" "waiting X st" "table_ok X st" "served Y st"
    "pending_ok st" "eps_ok st" "fresh_ok st"
    using assms(1) by (simp_all add: sg_inv_def)
  have v [simp]: "queue_of ?st = queue_of st" "places ?st = places st" "waits ?st = waits st"
    "ongoing ?st = ongoing st" "needs_answer ?st = needs_answer st" "in_flight ?st = in_flight st"
    by (simp_all add: fun_eq_iff sg_views cong: option.case_cong)
  have "accounted X ?st" using parts(1) by (simp add: accounted_def)
  moreover have "queues_ok ?st" using parts(2) by (simp add: queues_ok_def del: idle_views)
  moreover have "started ?st" using parts(3) by (simp add: started_def)
  moreover have "waiting X ?st = waiting X st" unfolding waiting_def v by simp
  moreover have "table_ok X ?st" using parts(5) by (simp add: table_ok_def)
  moreover have "served Y ?st" using parts(6) by (auto simp: served_def simp del: idle_views)
  moreover have "pending_ok ?st" using parts(7) assms(2,3) by (auto simp: pending_ok_def)
  moreover have "eps_ok ?st" using parts(8) by (simp add: eps_ok_def)
  moreover have "fresh_ok ?st" using parts(9) by (simp add: fresh_ok_def)
  ultimately show ?thesis using parts(4) by (simp add: sg_inv_def)
qed

lemma relinked_note: "is_completion x = None \<Longrightarrow> relinked t st (sg_note x st1) = relinked t st st1"
  by (simp add: relinked_def)

lemma waits_note [simp]: "waits (sg_note x st) = waits st" "ongoing (sg_note x st) = ongoing st"
  by (simp_all add: waits_def ongoing_def fun_eq_iff)

lemma waits_upd_ep [simp]: "waits (upd_ep e f st) = waits st"
  by (simp add: waits_def fun_eq_iff)

lemma waits_add:
  "sg_tx_of st t \<noteq> None \<Longrightarrow> waits (transaction_add_ep t e st) u = (if u = t then e # waits st u else waits st u)"
  by (auto simp: waits_def transaction_add_ep_def)

lemma inv_internal_send:
  assumes inv: "sg_inv X Y st" and e: "e \<in> set (sg_eps st)" "e \<notin> set (waits st t)"
    and t: "t \<in> set (sg_timers st) \<union> X"
  shows "post (\<lambda>st'. sg_inv X Y st' \<and> relinked t st st' \<and> set (waits st' t) \<subseteq> insert e (set (waits st t)))
    (internal_ep_send_decision E e t (transaction_add_ep t e st))"
proof -
  have d: "sg_tx_of st t \<noteq> None" "sg_ep_of st e \<noteq> None"
    using accounted_live(3) [of X st t] inv t e(1) by (simp_all add: sg_inv_def eps_ok_def)
  then obtain tx ep where tx: "sg_tx_of st t = Some tx" "sg_ep_of st e = Some ep" by blast
  let ?st1 = "upd_ep e (\<lambda>x. x\<lparr>sg_ongoing := t # sg_ongoing x\<rparr>) (transaction_add_ep t e st)"
  note w = waits_add [OF d(1)]
  have i1: "sg_inv X Y (sg_note (Decision e t) ?st1)"
    using inv_add_ep(2) [OF inv e t] by (simp add: sg_inv_note)
  have r1: "relinked t st (sg_note (Decision e t) ?st1)"
    using relinked_add(2) [OF d(1)] by (simp add: relinked_note)
  have o1: "e \<in> set (sg_eps (sg_note (Decision e t) ?st1))" "t \<in> set (ongoing (sg_note (Decision e t) ?st1) e)"
    using e(1) tx by (simp_all add: transaction_add_ep_def ongoing_def)
  obtain tx1 where tx1: "sg_tx_of (sg_note (Decision e t) ?st1) t = Some tx1"
    using relinked_tx [OF r1] by blast
  show ?thesis
  proof (cases "sg_txid tx = 0")
    case True
    then have "\<not> needs_answer st t" using tx by (simp add: needs_answer_def)
    then show ?thesis using True tx inv_add_ep(1) [OF inv e t] relinked_add(1) [OF d(1)] w
      by (simp add: internal_ep_send_decision_def transaction_add_ep_def post_def sg_inv_note relinked_note)
  next
    case False
    have n: "sg_inv X Y (note_ack e t ack (sg_note (Decision e t) ?st1)) \<and>
        relinked t st (note_ack e t ack (sg_note (Decision e t) ?st1)) \<and>
        set (waits (note_ack e t ack (sg_note (Decision e t) ?st1)) t) \<subseteq> insert e (set (waits st t))" for ack
      using inv_note_ack [OF i1 o1, of ack] relinked_trans [OF r1 relinked_note_ack, of e ack] tx1
        note_ack_lists(2) [OF tx1, of e ack t] w set_remove1_subset [of e "waits (sg_note (Decision e t) ?st1) t"]
      by auto
    have p: "sg_tx_of (transaction_add_ep t e st) t = Some (tx\<lparr>sg_not_answered := e # sg_not_answered tx\<rparr>)"
      using tx by (simp add: transaction_add_ep_def)
    show ?thesis
      unfolding internal_ep_send_decision_def p
      using False n i1 r1 w by (auto simp: post_def Let_def split: option.split)
  qed
qed

lemma inv_external_send:
  assumes inv: "sg_inv X Y st" and e: "e \<in> set (sg_eps st)" "e \<notin> set (waits st t)"
    and t: "t \<in> set (sg_timers st) \<union> X"
  shows "sg_inv X Y (external_ep_send_decision e t (transaction_add_ep t e st))"
    "relinked t st (external_ep_send_decision e t (transaction_add_ep t e st))"
    "set (waits (external_ep_send_decision e t (transaction_add_ep t e st)) t) \<subseteq> insert e (set (waits st t))"
proof -
  have d: "sg_tx_of st t \<noteq> None" using accounted_live(3) [of X st t] inv t by (simp add: sg_inv_def)
  let ?up = "\<lambda>st. upd_ep e (\<lambda>x. x\<lparr>sg_ongoing := t # sg_ongoing x\<rparr>) (transaction_add_ep t e st)"
  let ?pe = "\<lambda>st. st\<lparr>sg_pending := sg_pending st @ [t], sg_idle := sg_idle st @ [Send_ipc t]\<rparr>"
  have eq: "external_ep_send_decision e t (transaction_add_ep t e st) =
      (if t \<in> set (sg_pending st) then ?up st else ?pe (?up st))"
    by (simp add: external_ep_send_decision_def transaction_add_ep_def upd_tx_def upd_ep_def)
  have i: "sg_inv X Y (?up st)" using inv_add_ep(2) [OF inv e t] .
  have r: "relinked t st (?up st)" using relinked_add(2) [OF d] .
  have dt: "sg_tx_of (?up st) t \<noteq> None" using relinked_tx [OF r] by auto
  have pd: "sg_pending (?up st) = sg_pending st" by (simp add: transaction_add_ep_def)
  show "sg_inv X Y (external_ep_send_decision e t (transaction_add_ep t e st))"
    unfolding eq using i inv_add_pending [OF i dt] pd by auto
  have "relinked t st (?pe (?up st))" using r by (simp add: relinked_def completed_def)
  then show "relinked t st (external_ep_send_decision e t (transaction_add_ep t e st))"
    unfolding eq using r by simp
  have "waits (?pe (?up st)) t = waits (?up st) t" by (simp add: waits_def)
  then show "set (waits (external_ep_send_decision e t (transaction_add_ep t e st)) t) \<subseteq> insert e (set (waits st t))"
    unfolding eq by (simp add: waits_add [OF d])
qed

lemma inv_send:
  assumes "sg_inv X Y st" "e \<in> set (sg_eps st)" "e \<notin> set (waits st t)" "t \<in> set (sg_timers st) \<union> X"
  shows "post (\<lambda>st'. sg_inv X Y st' \<and> relinked t st st' \<and> set (waits st' t) \<subseteq> insert e (set (waits st t)))
    (enforcement_point_send_decision E e t (transaction_add_ep t e st))"
  unfolding enforcement_point_send_decision_def
  by (rule post_bind [OF post_any], rule post_if)
    (use inv_external_send [OF assms] in \<open>auto intro: inv_internal_send [OF assms] post_Some\<close>)

lemma inv_notify_eps:
  assumes "sg_inv X Y st" "set es \<subseteq> set (sg_eps st)" "distinct es" "set es \<inter> set (waits st t) = {}"
    "t \<in> set (sg_timers st) \<union> X"
  shows "post (\<lambda>st'. sg_inv X Y st' \<and> relinked t st st') (notify_eps E t es st)"
  using assms
proof (induction es arbitrary: st)
  case Nil
  have "sg_tx_of st t \<noteq> None" using accounted_live(3) [of X st t] Nil by (simp add: sg_inv_def)
  then show ?case using Nil by (simp add: post_def relinked_refl)
next
  case (Cons e es)
  have d: "sg_tx_of st t \<noteq> None" using accounted_live(3) [of X st t] Cons.prems by (simp add: sg_inv_def)
  let ?Q = "\<lambda>st'. sg_inv X Y st' \<and> relinked t st st' \<and> set (waits st' t) \<subseteq> insert e (set (waits st t))"
  have rest: "post (\<lambda>st'. sg_inv X Y st' \<and> relinked t st st') (notify_eps E t es st1)" if q: "?Q st1" for st1
  proof -
    have s: "sg_eps st1 = sg_eps st" "sg_timers st1 = sg_timers st" using q by (simp_all add: relinked_def)
    have "post (\<lambda>st'. sg_inv X Y st' \<and> relinked t st1 st') (notify_eps E t es st1)"
      by (rule Cons.IH) (use Cons.prems q s in auto)
    then show ?thesis using q by (auto simp: post_def intro: relinked_trans)
  qed
  have send: "post ?Q (enforcement_point_send_decision E e t (transaction_add_ep t e st))"
    by (rule inv_send) (use Cons.prems in auto)
  have stay: "post ?Q (Some st)" by (rule post_Some) (use Cons.prems relinked_refl [OF d] in auto)
  show ?case
    unfolding notify_eps.simps
    by (rule post_bind [OF post_any], rule post_bind [OF post_any], rule post_bind [OF post_if [OF send stay]])
      (rule rest)
qed
lemma distinct_eps: "eps_ok st \<Longrightarrow> distinct (sg_eps st)"
  by (simp add: eps_ok_def distinct_map)

lemma queues_okD:
  "queues_ok st \<Longrightarrow> t \<in> set (queue_of st s) \<Longrightarrow> \<exists>tx. sg_tx_of st t = Some tx \<and> sg_signal tx = s \<and>
     \<not> sg_built tx \<and> sg_not_answered tx = [] \<and> sg_acked tx = [] \<and> sg_nacked tx = []"
  by (simp add: queues_ok_def)

lemma waitingD:
  assumes "waiting X st"
  shows "e \<in> set (sg_eps st) \<Longrightarrow> distinct (ongoing st e)"
    "e \<in> set (sg_eps st) \<Longrightarrow> t \<in> set (ongoing st e) \<Longrightarrow> t \<in> set (sg_timers st) \<union> X"
    "e \<in> set (sg_eps st) \<Longrightarrow> t \<in> set (ongoing st e) \<Longrightarrow> e \<in> set (waits st t)"
    "t \<in> set (sg_timers st) \<union> X \<Longrightarrow> distinct (waits st t)"
    "t \<in> set (sg_timers st) \<union> X \<Longrightarrow> e \<in> set (waits st t) \<Longrightarrow> e \<in> set (sg_eps st)"
    "t \<in> set (sg_timers st) \<union> X \<Longrightarrow> e \<in> set (waits st t) \<Longrightarrow> needs_answer st t \<Longrightarrow>
      t \<in> set (ongoing st e)"
  using assms unfolding waiting_def by blast+

lemma inv_pop:
  assumes inv: "sg_inv {} Y st" and q: "queue_of st s = t # q" and tx: "sg_tx_of st t = Some tx"
  shows "sg_inv {t} (insert s Y) (st\<lparr>sg_queues := (sg_queues st)(s \<mapsto> q),
      sg_table := (sg_table st)(sg_txid tx \<mapsto> t)\<rparr>)" (is "sg_inv _ _ ?st")
    "t \<notin> set (sg_timers st)"
proof -
  have parts: "accounted {} st" "queues_ok st" "started st" "waiting {} st" "table_ok {} st" "served Y st"
    "pending_ok st" "eps_ok st" "fresh_ok st"
    using inv by (simp_all add: sg_inv_def)
  have "sg_signal tx = s \<and> sg_not_answered tx = []"
    using queues_okD [OF parts(2), of t s] q tx by auto
  then have new: "sg_signal tx = s" "sg_not_answered tx = []" by simp_all
  have qo: "queue_of ?st = (queue_of st)(s := q)" by (simp add: queue_of_def fun_eq_iff)
  have v: "waits ?st = waits st" "ongoing ?st = ongoing st" "needs_answer ?st = needs_answer st"
    "in_flight ?st = in_flight st" "completed ?st = completed st"
    by (simp_all add: fun_eq_iff sg_views cong: option.case_cong)
  have pt: "places ?st u + of_bool (u = t) = places st u" for u
    using q tx new by (cases "u = t") (auto simp: places_def qo v split: option.splits)
  then have "accounted {t} ?st" using parts(1) by (simp add: accounted_def)
  moreover have "queues_ok ?st" unfolding queues_ok_def qo
  proof (intro allI ballI)
    fix s' u assume "u \<in> set (((queue_of st)(s := q)) s')"
    then have "u \<in> set (queue_of st s')" using q by (auto split: if_splits)
    then show "\<exists>x. sg_tx_of ?st u = Some x \<and> sg_signal x = s' \<and> \<not> sg_built x \<and>
        sg_not_answered x = [] \<and> sg_acked x = [] \<and> sg_nacked x = []"
      using parts(2) by (simp add: queues_ok_def)
  qed
  moreover have "started ?st" using parts(3) by (simp add: started_def)
  moreover have "waiting {t} ?st"
  proof -
    have e: "waits st t = []" using tx new by (simp add: waits_def)
    have [simp]: "sg_eps ?st = sg_eps st" "sg_timers ?st = sg_timers st" by simp_all
    note d = waitingD [OF parts(4)]
    show ?thesis unfolding waiting_def v
    proof (intro conjI ballI impI)
      fix u assume u: "u \<in> set (sg_timers ?st) \<union> {t}"
      show "distinct (waits st u)" using d(4) [of u] e u by auto
      fix c assume c: "c \<in> set (waits st u)"
      then have u': "u \<in> set (sg_timers st) \<union> {}" using e u by auto
      show "c \<in> set (sg_eps ?st)" using d(5) [OF u' c] by simp
      show "u \<in> set (ongoing st c)" if "needs_answer st u" using d(6) [OF u' c that] .
    next
      fix c assume c: "c \<in> set (sg_eps ?st)"
      show "distinct (ongoing st c)" using d(1) c by simp
      fix u assume u: "u \<in> set (ongoing st c)"
      show "u \<in> set (sg_timers ?st) \<union> {t}" using d(2) [of c u] c u by simp
      show "c \<in> set (waits st u)" using d(3) [of c u] c u by simp
    qed
  qed
  moreover have "table_ok {t} ?st"
    using parts(5) tx by (auto simp: table_ok_def)
  moreover have "served (insert s Y) ?st" using parts(6) by (auto simp: served_def qo v)
  moreover have "pending_ok ?st" using parts(7) by (auto simp: pending_ok_def)
  moreover have "eps_ok ?st" using parts(8) by (simp add: eps_ok_def)
  moreover have "fresh_ok ?st" using parts(9) by (simp add: fresh_ok_def)
  ultimately show "sg_inv {t} (insert s Y) ?st" by (simp add: sg_inv_def)
  show "t \<notin> set (sg_timers st)"
    using accounted_live(1) [OF parts(1,2), of t s] q by auto
qed

lemma queue_of_lookup: "signal_queue_lookup s st = Some q \<Longrightarrow> queue_of st s = q"
  by (simp add: queue_of_def signal_queue_lookup_def)

lemma inv_start:
  assumes inv: "sg_inv {} Y st" and q: "queue_of st s = t # q"
  shows "post (\<lambda>st'. sg_inv {t} (insert s Y) st' \<and> sg_timers st' = sg_timers st \<and>
      completed st' = completed st \<and> queue_of st' = (queue_of st)(s := q) \<and>
      (\<forall>u. u \<noteq> t \<longrightarrow> sg_tx_of st' u = sg_tx_of st u) \<and>
      (\<exists>x y. sg_tx_of st t = Some x \<and> sg_tx_of st' t = Some y \<and> same_tx x y \<and> sg_built y \<and> sg_signal y = s))
    (start_transaction E t s q st)"
proof -
  obtain tx where tx: "sg_tx_of st t = Some tx" "sg_signal tx = s" "sg_not_answered tx = []"
    using queues_okD [of st t s] inv q by (auto simp: sg_inv_def)
  let ?st = "st\<lparr>sg_queues := (sg_queues st)(s \<mapsto> q), sg_table := (sg_table st)(sg_txid tx \<mapsto> t)\<rparr>"
  have i: "sg_inv {t} (insert s Y) ?st" using inv_pop(1) [OF inv q tx(1)] .
  have n: "post (\<lambda>st'. sg_inv {t} (insert s Y) st' \<and> relinked t ?st st') (notify_eps E t (sg_eps st) ?st)"
    by (rule inv_notify_eps [OF i])
      (use inv tx in \<open>simp_all add: distinct_eps sg_inv_def waits_def\<close>)
  have fin: "post (\<lambda>st'. sg_inv {t} (insert s Y) st' \<and> sg_timers st' = sg_timers st \<and>
      completed st' = completed st \<and> queue_of st' = (queue_of st)(s := q) \<and>
      (\<forall>u. u \<noteq> t \<longrightarrow> sg_tx_of st' u = sg_tx_of st u) \<and>
      (\<exists>x y. sg_tx_of st t = Some x \<and> sg_tx_of st' t = Some y \<and> same_tx x y \<and> sg_built y \<and> sg_signal y = s))
    (Some (upd_tx t (sg_built_update (\<lambda>_. True)) st1))"
    if st1: "sg_inv {t} (insert s Y) st1 \<and> relinked t ?st st1" for st1
  proof (rule post_Some, intro conjI)
    let ?st2 = "upd_tx t (sg_built_update (\<lambda>_. True)) st1"
    obtain y where y: "sg_tx_of st1 t = Some y" "same_tx tx y"
      using relinked_tx [of t ?st st1] st1 tx(1) by auto
    have r: "relinked t st1 ?st2" using y(1) by (auto simp: relinked_def same_tx_def)
    have w: "waiting {t} ?st2"
    proof -
      have "waits ?st2 = waits st1" "ongoing ?st2 = ongoing st1"
        using y(1) by (auto simp: waits_def ongoing_def fun_eq_iff split: option.split)
      moreover have "needs_answer ?st2 = needs_answer st1"
        using relinked_views(5) [OF r] by (simp add: fun_eq_iff)
      moreover have "waiting {t} st1" using st1 by (simp add: sg_inv_def)
      ultimately show ?thesis unfolding waiting_def upd_tx_fields(1,7) by (simp only:)
    qed
    show "sg_inv {t} (insert s Y) ?st2"
      by (rule inv_relinked [OF conjunct1 [OF st1] r _ _ _ w]) simp_all
    show "sg_timers ?st2 = sg_timers st" "completed ?st2 = completed st"
      using st1 by (simp_all add: relinked_def completed_def)
    show "queue_of ?st2 = (queue_of st)(s := q)" "\<forall>u. u \<noteq> t \<longrightarrow> sg_tx_of ?st2 u = sg_tx_of st u"
      using st1 by (simp_all add: relinked_def queue_of_def fun_eq_iff)
    show "\<exists>x y. sg_tx_of st t = Some x \<and> sg_tx_of ?st2 t = Some y \<and> same_tx x y \<and> sg_built y \<and> sg_signal y = s"
      using tx y by (simp add: same_tx_def)
  qed
  have eq: "start_transaction E t s q st =
      notify_eps E t (sg_eps st) ?st \<bind> (\<lambda>st1. Some (upd_tx t (sg_built_update (\<lambda>_. True)) st1))"
    by (simp add: start_transaction_def tx(1))
  show ?thesis unfolding eq by (rule post_bind [OF n]) (rule fin)
qed
subsection \<open>Completion\<close>

lemma stop_fields [simp]:
  "sg_eps (stop_transaction e t st) = sg_eps st" "sg_tx_of (stop_transaction e t st) = sg_tx_of st"
  "sg_table (stop_transaction e t st) = sg_table st" "sg_queues (stop_transaction e t st) = sg_queues st"
  "sg_idle (stop_transaction e t st) = sg_idle st" "sg_timers (stop_transaction e t st) = sg_timers st"
  "sg_pending (stop_transaction e t st) = sg_pending st" "sg_nalloc (stop_transaction e t st) = sg_nalloc st"
  "sg_log (stop_transaction e t st) = sg_log st" "sg_fs (stop_transaction e t st) = sg_fs st"
  "sg_ready (stop_transaction e t st) = sg_ready st"
  "map_option sg_uri (sg_ep_of (stop_transaction e t st) d) = map_option sg_uri (sg_ep_of st d)"
  "map_option sg_internal (sg_ep_of (stop_transaction e t st) d) = map_option sg_internal (sg_ep_of st d)"
  "ongoing (stop_transaction e t st) d = (if d = e then remove1 t (ongoing st d) else ongoing st d)"
  by (auto simp: stop_transaction_def option.map_comp comp_def ongoing_def split: option.split)

definition stop_all :: "addr \<Rightarrow> addr list \<Rightarrow> 's sgstate \<Rightarrow> 's sgstate" where
  "stop_all t es st = fold (\<lambda>e s. stop_transaction e t s) es st"

lemma stop_all_fields [simp]:
  "sg_eps (stop_all t es st) = sg_eps st" "sg_tx_of (stop_all t es st) = sg_tx_of st"
  "sg_table (stop_all t es st) = sg_table st" "sg_queues (stop_all t es st) = sg_queues st"
  "sg_idle (stop_all t es st) = sg_idle st" "sg_timers (stop_all t es st) = sg_timers st"
  "sg_pending (stop_all t es st) = sg_pending st" "sg_nalloc (stop_all t es st) = sg_nalloc st"
  "sg_log (stop_all t es st) = sg_log st" "sg_fs (stop_all t es st) = sg_fs st"
  "sg_ready (stop_all t es st) = sg_ready st"
  "map_option sg_uri (sg_ep_of (stop_all t es st) d) = map_option sg_uri (sg_ep_of st d)"
  "map_option sg_internal (sg_ep_of (stop_all t es st) d) = map_option sg_internal (sg_ep_of st d)"
  unfolding stop_all_def by (induction es arbitrary: st) simp_all

lemma ongoing_stop_all:
  "distinct es \<Longrightarrow> ongoing (stop_all t es st) d = (if d \<in> set es then remove1 t (ongoing st d) else ongoing st d)"
  unfolding stop_all_def by (induction es arbitrary: st) auto

text \<open>The transaction leaves the table and the timers.\<close>

definition dropped :: "addr \<Rightarrow> u32 \<Rightarrow> 's sgstate \<Rightarrow> 's sgstate" where
  "dropped t i st = st\<lparr>sg_table := (sg_table st)(i := None), sg_timers := remove1 t (sg_timers st)\<rparr>"

lemma dropped_fields [simp]:
  "sg_eps (dropped t i st) = sg_eps st" "sg_tx_of (dropped t i st) = sg_tx_of st"
  "sg_ep_of (dropped t i st) = sg_ep_of st"
  "sg_table (dropped t i st) = (sg_table st)(i := None)" "sg_queues (dropped t i st) = sg_queues st"
  "sg_idle (dropped t i st) = sg_idle st" "sg_timers (dropped t i st) = remove1 t (sg_timers st)"
  "sg_pending (dropped t i st) = sg_pending st" "sg_nalloc (dropped t i st) = sg_nalloc st"
  "sg_log (dropped t i st) = sg_log st" "sg_fs (dropped t i st) = sg_fs st"
  "sg_ready (dropped t i st) = sg_ready st"
  by (simp_all add: dropped_def)

lemma dropped_note: "dropped t i (sg_note x st) = sg_note x (dropped t i st)"
  by (simp add: dropped_def sg_note_def)

lemma dropped_queue_deferred:
  "queue_deferred s fs p need timeout (dropped t i st) =
     map_prod id (dropped t i) (queue_deferred s fs p need timeout st)"
  by (simp add: queue_deferred_def enqueue_decision_def dropped_def signal_queue_lookup_def Let_def)

lemma dropped_changed:
  "dropped t i (signal_changed_deferred ch st) = signal_changed_deferred ch (dropped t i st)"
proof -
  obtain s j fs cb timeout where ch: "ch = (s, j, fs, cb, timeout)" by (cases ch)
  have u: "dropped t i (upd_tx u f st') = upd_tx u f (dropped t i st')" for u f and st' :: "'s sgstate"
    by (simp add: dropped_def upd_tx_def)
  show ?thesis
    by (auto simp: ch signal_changed_deferred_def dropped_queue_deferred dropped_note u Let_def
        split: prod.splits option.splits)
qed

lemma dropped_fold:
  "dropped t i (fold signal_changed_deferred chs st) = fold signal_changed_deferred chs (dropped t i st)"
  by (induction chs arbitrary: st) (simp_all add: dropped_changed)

lemma mark_ready_fields [simp]:
  "sg_eps (mark_ready E st) = sg_eps st" "sg_tx_of (mark_ready E st) = sg_tx_of st"
  "sg_ep_of (mark_ready E st) = sg_ep_of st"
  "sg_table (mark_ready E st) = sg_table st" "sg_queues (mark_ready E st) = sg_queues st"
  "sg_idle (mark_ready E st) = sg_idle st" "sg_timers (mark_ready E st) = sg_timers st"
  "sg_pending (mark_ready E st) = sg_pending st" "sg_nalloc (mark_ready E st) = sg_nalloc st"
  "sg_log (mark_ready E st) = sg_log st"
  by (simp_all add: mark_ready_def split: prod.split)

text \<open>Callbacks that queue nothing.\<close>

definition quiet :: "('s, 'f) sgenv \<Rightarrow> bool" where
  "quiet E \<longleftrightarrow> (\<forall>log c i ok. sg_cb E log c i ok = [])"

lemma complete_total: "sg_tx_of st t \<noteq> None \<Longrightarrow> complete E t (Some c) st \<noteq> None"
  by (auto simp: complete_def Let_def)

lemma complete_result:
  assumes "complete E t cb st = Some st'" "sg_tx_of st t = Some tx"
  shows "\<exists>c chs. (quiet E \<longrightarrow> chs = []) \<and> cb = Some c \<and> st' = fold signal_changed_deferred chs
    (sg_note (Callback c (sg_txid tx) (sg_not_answered tx = [] \<and> sg_nacked tx = [])) st)"
proof (cases cb)
  case (Some c)
  let ?ok = "sg_not_answered tx = [] \<and> sg_nacked tx = []"
  let ?st = "sg_note (Callback c (sg_txid tx) ?ok) st"
  have "st' = fold signal_changed_deferred (filter deferred (sg_cb E (sg_log ?st) c (sg_txid tx) ?ok)) ?st"
    using assms Some by (simp add: complete_def Let_def)
  moreover have "quiet E \<longrightarrow> filter deferred (sg_cb E (sg_log ?st) c (sg_txid tx) ?ok) = []"
    by (simp add: quiet_def)
  ultimately show ?thesis using Some by blast
qed (use assms in \<open>simp add: complete_def\<close>)

text \<open>The state in which a transaction has left all places but the log.\<close>

definition finished :: "('s, 'f) sgenv \<Rightarrow> addr \<Rightarrow> sg_tx \<Rightarrow> 's sgstate \<Rightarrow> 's sgstate" where
  "finished E t tx st =
     sg_note (Complete t) (dropped t (sg_txid tx) (mark_ready E (stop_all t (sg_not_answered tx) st)))"

lemma distinct_count: "(\<And>x. count_list xs x \<le> 1) \<Longrightarrow> distinct xs"
proof (induction xs)
  case (Cons a xs)
  have "count_list xs a = 0" using Cons.prems [of a] by simp
  moreover have "count_list xs x \<le> 1" for x using Cons.prems [of x] by (simp split: if_splits)
  ultimately show ?case using Cons.IH by (simp add: count_list_0)
qed simp

lemma accounted_distinct:
  assumes "accounted X st"
  shows "distinct (sg_timers st)" "distinct (completed st)"
proof -
  have p: "places st u \<le> 1" for u
    using assms [unfolded accounted_def, rule_format, of u] by (simp add: of_bool_def split: if_splits)
  have "count_list (sg_timers st) u \<le> 1" "count_list (completed st) u \<le> 1" for u
    using p [of u] by (simp_all add: places_def)
  then show "distinct (sg_timers st)" "distinct (completed st)" by (blast intro: distinct_count)+
qed

lemma count_list_remove1_other: "u \<noteq> t \<Longrightarrow> count_list (remove1 t xs) u = count_list xs u"
  by (induction xs) auto

lemma inv_finished:
  fixes st :: "'s sgstate"
  assumes inv: "sg_inv X Y st" and tx: "sg_tx_of st t = Some tx" and t: "t \<in> set (sg_timers st) \<union> X"
  shows "sg_inv (X - {t}) (insert (sg_signal tx) Y) (finished E t tx st)"
proof -
  let ?st = "finished E t tx st"
  have parts: "accounted X st" "queues_ok st" "started st" "waiting X st" "table_ok X st" "served Y st"
    "pending_ok st" "eps_ok st" "fresh_ok st"
    using inv by (simp_all add: sg_inv_def)
  have f: "sg_eps ?st = sg_eps st" "sg_tx_of ?st = sg_tx_of st" "sg_queues ?st = sg_queues st"
    "sg_idle ?st = sg_idle st" "sg_pending ?st = sg_pending st" "sg_nalloc ?st = sg_nalloc st"
    "sg_timers ?st = remove1 t (sg_timers st)" "sg_table ?st = (sg_table st)(sg_txid tx := None)"
    "sg_log ?st = sg_log st @ [Complete t]"
    "\<And>e. map_option sg_uri (sg_ep_of ?st e) = map_option sg_uri (sg_ep_of st e)"
    by (simp_all add: finished_def)
  have q: "queue_of ?st = queue_of st" by (simp add: queue_of_def f fun_eq_iff)
  have c: "completed ?st = completed st @ [t]"
    by (simp add: completed_def f List.map_filter_def)
  have live: "\<And>s. t \<notin> set (queue_of st s)" "t \<notin> set (completed st)"
    "t \<in> X \<Longrightarrow> t \<notin> set (sg_timers st)" "count_list (sg_timers st) t \<le> 1"
    using accounted_live [OF parts(1,2) t] by auto
  have w: "waits ?st = waits st" "needs_answer ?st = needs_answer st"
    by (simp_all add: fun_eq_iff waits_def needs_answer_def f)
  have wt: "waits st t = sg_not_answered tx" using tx by (simp add: waits_def)
  note d = waitingD [OF parts(4)]
  have on: "ongoing ?st e = (if e \<in> set (waits st t) then remove1 t (ongoing st e) else ongoing st e)" for e
    using ongoing_stop_all [of "sg_not_answered tx" t st e] d(4) [OF t]
    by (simp add: finished_def wt ongoing_def)
  have tm: "u \<in> set (remove1 t (sg_timers st)) \<longleftrightarrow> u \<in> set (sg_timers st) \<and> u \<noteq> t" for u
    using accounted_distinct [OF parts(1)] by auto
  have acc: "accounted (X - {t}) ?st" unfolding accounted_def
  proof
    fix u
    have a: "places st u + of_bool (u \<in> X) = of_bool (sg_tx_of st u \<noteq> None)"
      using parts(1) by (simp add: accounted_def)
    show "places ?st u + of_bool (u \<in> X - {t}) = of_bool (sg_tx_of ?st u \<noteq> None)"
    proof (cases "u = t")
      case True
      have "count_list (queue_of st (sg_signal tx)) t = 0" "count_list (completed st) t = 0"
        "count_list (remove1 t (sg_timers st)) t = 0"
        using live(1,2) tm [of t] by (simp_all only: count_list_0) simp_all
      then show ?thesis using tx by (simp add: True places_def q f c count_list_append1)
    next
      case False
      then have "count_list (remove1 t (sg_timers st)) u = count_list (sg_timers st) u"
        by (rule count_list_remove1_other)
      then have "places ?st u = places st u"
        using False by (simp add: places_def q f c count_list_append1 cong: option.case_cong)
      then show ?thesis using a False f(2) by simp
    qed
  qed
  have st: "started ?st" using parts(3) tm unfolding started_def f by blast
  have wa: "waiting (X - {t}) ?st" unfolding waiting_def w f
  proof (intro conjI ballI impI)
    fix e assume e: "e \<in> set (sg_eps st)"
    show "distinct (ongoing ?st e)" using d(1) [OF e] by (simp add: on)
    fix u assume u: "u \<in> set (ongoing ?st e)"
    then have uo: "u \<in> set (ongoing st e)"
      using set_remove1_subset [of t "ongoing st e"] by (auto simp: on split: if_splits)
    have ut: "u \<noteq> t" using u d(1) [OF e] d(3) [OF e, of t] by (auto simp: on split: if_splits)
    show "u \<in> set (remove1 t (sg_timers st)) \<union> (X - {t})" using d(2) [OF e uo] ut tm by blast
    show "e \<in> set (waits st u)" using d(3) [OF e uo] .
  next
    fix u assume u: "u \<in> set (remove1 t (sg_timers st)) \<union> (X - {t})"
    then have ul: "u \<in> set (sg_timers st) \<union> X" and ut: "u \<noteq> t" using tm by auto
    show "distinct (waits st u)" using d(4) [OF ul] .
    fix e assume e: "e \<in> set (waits st u)"
    show "e \<in> set (sg_eps st)" using d(5) [OF ul e] .
    show "u \<in> set (ongoing ?st e)" if "needs_answer st u" using d(6) [OF ul e that] ut by (simp add: on)
  qed
  have ta: "table_ok (X - {t}) ?st" unfolding table_ok_def f
  proof (intro allI impI)
    fix j u assume "((sg_table st)(sg_txid tx := None)) j = Some u"
    then have j: "j \<noteq> sg_txid tx" "sg_table st j = Some u" by (auto split: if_splits)
    then have u: "u \<in> set (sg_timers st) \<union> X" "map_option sg_txid (sg_tx_of st u) = Some j"
      using parts(5) by (simp_all add: table_ok_def)
    then have "u \<noteq> t" using j tx by auto
    then show "u \<in> set (remove1 t (sg_timers st)) \<union> (X - {t}) \<and> map_option sg_txid (sg_tx_of st u) = Some j"
      using u tm by blast
  qed
  have "in_flight ?st s" if "in_flight st s" "s \<noteq> sg_signal tx" for s
    using that tm tx unfolding in_flight_def f by fastforce
  then have "served (insert (sg_signal tx) Y) ?st"
    using parts(6) unfolding served_def q f by blast
  moreover have "queues_ok ?st" using parts(2) unfolding queues_ok_def q f .
  moreover have "pending_ok ?st" using parts(7) unfolding pending_ok_def f .
  moreover have "eps_ok ?st" "fresh_ok ?st"
  proof -
    have e: "(sg_ep_of ?st e = None) = (sg_ep_of st e = None)" for e
      using f(10) [of e] by (metis option.map_disc_iff)
    show "eps_ok ?st" using parts(8) unfolding eps_ok_def f e .
    show "fresh_ok ?st" using parts(9) unfolding fresh_ok_def f e .
  qed
  ultimately show ?thesis using acc st wa ta by (simp add: sg_inv_def)
qed

definition after_callback :: "sg_tx \<Rightarrow> sg_change list \<Rightarrow> 's sgstate \<Rightarrow> 's sgstate" where
  "after_callback tx chs st =
     (case sg_callback tx of
        Some (Some c) \<Rightarrow> fold signal_changed_deferred chs
          (sg_note (Callback c (sg_txid tx) (sg_not_answered tx = [] \<and> sg_nacked tx = [])) st)
      | _ \<Rightarrow> st)"

lemma finish_result:
  fixes st :: "'s sgstate"
  assumes fin: "finish_transaction E t st = Some p" and tx: "sg_tx_of st t = Some tx"
  shows "\<exists>chs. (quiet E \<longrightarrow> chs = []) \<and> sg_callback tx \<noteq> Some None \<and>
    (let st4 = after_callback tx chs (finished E t tx st)
     in fst p = (queue_of st4 (sg_signal tx) \<noteq> []) \<and>
       snd p = (if signal_queue_lookup (sg_signal tx) st4 = Some []
         then st4\<lparr>sg_queues := (sg_queues st4)(sg_signal tx := None)\<rparr> else st4))"
proof -
  let ?st2 = "sg_note (Complete t) (mark_ready E (stop_all t (sg_not_answered tx) st))"
  let ?ok = "sg_not_answered tx = [] \<and> sg_nacked tx = []"
  define k where "k = (\<lambda>st4 :: 's sgstate. case signal_queue_lookup (sg_signal tx) st4 of None \<Rightarrow> (False, st4)
    | Some q \<Rightarrow> if q \<noteq> [] then (True, st4)
        else (False, st4\<lparr>sg_queues := (sg_queues st4)(sg_signal tx := None)\<rparr>))"
  have k: "fst (k st4) = (queue_of st4 (sg_signal tx) \<noteq> []) \<and>
    snd (k st4) = (if signal_queue_lookup (sg_signal tx) st4 = Some []
         then st4\<lparr>sg_queues := (sg_queues st4)(sg_signal tx := None)\<rparr> else st4)" for st4 :: "'s sgstate"
    by (simp add: k_def queue_of_def signal_queue_lookup_def split: option.split)
  have eq: "finish_transaction E t st =
      (case sg_callback tx of None \<Rightarrow> Some ?st2 | Some cb \<Rightarrow> complete E t cb ?st2) \<bind>
        (\<lambda>st3. Some (k (dropped t (sg_txid tx) st3)))"
    unfolding finish_transaction_def k_def dropped_def stop_all_def by (simp add: tx Let_def)
  obtain st3 where st3: "(case sg_callback tx of None \<Rightarrow> Some ?st2 | Some cb \<Rightarrow> complete E t cb ?st2) = Some st3"
    and p: "p = k (dropped t (sg_txid tx) st3)"
    using fin unfolding eq by (auto split: Option.bind_splits)
  have f: "dropped t (sg_txid tx) ?st2 = finished E t tx st" by (simp add: finished_def dropped_note)
  have "\<exists>chs. (quiet E \<longrightarrow> chs = []) \<and> sg_callback tx \<noteq> Some None \<and> p = k (after_callback tx chs (finished E t tx st))"
  proof (cases "sg_callback tx")
    case None
    then have "st3 = ?st2" using st3 by simp
    then show ?thesis using None p f by (simp add: after_callback_def)
  next
    case (Some cb)
    then have "complete E t cb ?st2 = Some st3" using st3 by simp
    then obtain c chs where c: "quiet E \<longrightarrow> chs = []" "cb = Some c"
      "st3 = fold signal_changed_deferred chs (sg_note (Callback c (sg_txid tx) ?ok) ?st2)"
      using complete_result [of E t cb ?st2 st3 tx] tx by auto
    have "dropped t (sg_txid tx) st3 = after_callback tx chs (finished E t tx st)"
      by (simp add: c(2,3) Some after_callback_def dropped_fold dropped_note f [unfolded dropped_note])
    then show ?thesis using Some c(1,2) p by auto
  qed
  then show ?thesis using k unfolding Let_def by blast
qed

lemma inv_after_callback:
  assumes "sg_inv {} Y st" shows "sg_inv {} Y (after_callback tx chs st)"
proof (cases "\<exists>c. sg_callback tx = Some (Some c)")
  case True
  then obtain c where c: "sg_callback tx = Some (Some c)" ..
  have "sg_inv {} Y (sg_note (Callback c (sg_txid tx) (sg_not_answered tx = [] \<and> sg_nacked tx = [])) st)"
    using assms by (simp add: sg_inv_note)
  from inv_fold_changed [OF this empty_subsetI] show ?thesis by (simp add: after_callback_def c)
next
  case False
  then show ?thesis using assms by (auto simp: after_callback_def split: option.split)
qed

lemma inv_queue_gone:
  assumes "signal_queue_lookup s st = Some []"
  shows "sg_inv X Y (st\<lparr>sg_queues := (sg_queues st)(s := None)\<rparr>) = sg_inv X Y st"
  by (rule sg_inv_cong)
    (use assms in \<open>simp_all add: queue_of_def signal_queue_lookup_def completed_def fun_eq_iff\<close>)

lemma inv_finish:
  assumes inv: "sg_inv X Y st" and tx: "sg_tx_of st t = Some tx"
    and t: "t \<in> set (sg_timers st) \<union> X" "X \<subseteq> {t}"
  shows "post (\<lambda>p. sg_inv {} (insert (sg_signal tx) Y) (snd p) \<and>
      (\<not> fst p \<longrightarrow> sg_inv {} (Y - {sg_signal tx}) (snd p)))
    (finish_transaction E t st)"
proof (rule postI)
  fix p assume "finish_transaction E t st = Some p"
  then obtain chs st4 where st4: "st4 = after_callback tx chs (finished E t tx st)"
    and p: "fst p = (queue_of st4 (sg_signal tx) \<noteq> [])"
      "snd p = (if signal_queue_lookup (sg_signal tx) st4 = Some []
         then st4\<lparr>sg_queues := (sg_queues st4)(sg_signal tx := None)\<rparr> else st4)"
    using finish_result [OF _ tx] unfolding Let_def by blast
  have "X - {t} = {}" using t(2) by blast
  then have i: "sg_inv {} (insert (sg_signal tx) Y) st4"
    using inv_finished [OF inv tx t(1), of E] unfolding st4 by (metis inv_after_callback)
  have "insert (sg_signal tx) (Y - {sg_signal tx}) = insert (sg_signal tx) Y" by blast
  then have "sg_inv {} (Y - {sg_signal tx}) st4" if "queue_of st4 (sg_signal tx) = []"
    using sg_inv_served_signal [of "{}" "sg_signal tx" "Y - {sg_signal tx}" st4] i that by simp
  then show "sg_inv {} (insert (sg_signal tx) Y) (snd p) \<and>
      (\<not> fst p \<longrightarrow> sg_inv {} (Y - {sg_signal tx}) (snd p))"
    using i by (simp add: p inv_queue_gone)
qed
subsection \<open>Processing\<close>

lemma inv_add_timer:
  assumes inv: "sg_inv {t} (insert s Y) st" and tx: "sg_tx_of st t = Some tx"
    and "sg_built tx" "sg_txid tx \<noteq> 0" "sg_signal tx = s"
  shows "sg_inv {} Y (st\<lparr>sg_timers := sg_timers st @ [t]\<rparr>)" (is "sg_inv _ _ ?st")
proof -
  have parts: "accounted {t} st" "queues_ok st" "started st" "waiting {t} st" "table_ok {t} st"
    "served (insert s Y) st" "pending_ok st" "eps_ok st" "fresh_ok st"
    using inv by (simp_all add: sg_inv_def)
  have v: "queue_of ?st = queue_of st" "waits ?st = waits st" "ongoing ?st = ongoing st"
    "needs_answer ?st = needs_answer st" "completed ?st = completed st"
    by (simp_all add: fun_eq_iff sg_views)
  have "places ?st u + of_bool (u \<in> {}) = places st u + of_bool (u \<in> {t})" for u
    by (simp add: places_def v count_list_append1 cong: option.case_cong)
  then have "accounted {} ?st" using parts(1) by (simp add: accounted_def)
  moreover have "queues_ok ?st" using parts(2) unfolding queues_ok_def v by simp
  moreover have "started ?st" using parts(3) assms by (simp add: started_def)
  moreover have e: "set (sg_timers ?st) \<union> {} = set (sg_timers st) \<union> {t}" "sg_eps ?st = sg_eps st"
    "sg_tx_of ?st = sg_tx_of st" "sg_table ?st = sg_table st" by simp_all
  have "waiting {} ?st = waiting {t} st" "table_ok {} ?st = table_ok {t} st"
    by (simp_all only: waiting_def table_ok_def v e)
  then have "waiting {} ?st" "table_ok {} ?st" using parts(4,5) by simp_all
  moreover have "in_flight ?st u \<longleftrightarrow> in_flight st u \<or> u = s" for u
    using assms by (auto simp: in_flight_def)
  then have "served Y ?st" using parts(6) by (auto simp: served_def v)
  moreover have "pending_ok ?st" using parts(7) by (auto simp: pending_ok_def)
  moreover have "eps_ok ?st" using parts(8) by (simp add: eps_ok_def)
  moreover have "fresh_ok ?st" using parts(9) by (simp add: fresh_ok_def)
  ultimately show ?thesis by (simp add: sg_inv_def)
qed

lemma sg_inv_insert: "sg_inv X Y st \<Longrightarrow> sg_inv X (insert s Y) st"
  by (rule sg_inv_mono) auto

text \<open>One round of the loop, for any continuation that keeps the invariant.\<close>

lemma inv_round:
  fixes proc :: "('s, 'f) sgenv \<Rightarrow> string \<Rightarrow> 's sgstate \<Rightarrow> 's sgstate option"
  assumes proc: "\<And>st y. proc E s st = Some y \<Longrightarrow> sg_inv {} {s} st \<Longrightarrow> sg_inv {} {} y"
    and inv: "sg_inv {} {s} st"
  shows "post (sg_inv {} {}) (case signal_queue_lookup s st of
        None \<Rightarrow> Some st
      | Some [] \<Rightarrow> Some st
      | Some (t # q) \<Rightarrow>
          do {
            st1 \<leftarrow> start_transaction E t s q st;
            tx \<leftarrow> sg_tx_of st1 t;
            (if sg_txid tx = 0 \<or> transaction_done tx
             then do {
               p \<leftarrow> finish_transaction E t st1;
               (if fst p then proc E (sg_signal tx) (snd p) else Some (snd p))
             }
             else Some (st1\<lparr>sg_timers := sg_timers st1 @ [t]\<rparr>))
          })"
proof (cases "queue_of st s")
  case Nil
  then have "sg_inv {} {} st" using sg_inv_served_signal [of "{}" s "{}" st] inv by simp
  moreover have "signal_queue_lookup s st = None \<or> signal_queue_lookup s st = Some []"
    using Nil by (auto simp: queue_of_def signal_queue_lookup_def split: option.splits)
  ultimately show ?thesis by (auto intro: post_Some)
next
  case (Cons t q)
  then have l: "signal_queue_lookup s st = Some (t # q)"
    by (simp add: queue_of_def signal_queue_lookup_def split: option.splits)
  have fin: "post (sg_inv {} {}) (finish_transaction E t st1 \<bind>
      (\<lambda>p. if fst p then proc E (sg_signal tx) (snd p) else Some (snd p)))"
    if st1: "sg_inv {t} {s} st1" "sg_tx_of st1 t = Some tx" "sg_signal tx = s" for st1 tx
  proof (rule post_bind [OF inv_finish [OF st1(1,2)]])
    fix p :: "bool \<times> 's sgstate"
    assume "sg_inv {} (insert (sg_signal tx) {s}) (snd p) \<and>
      (\<not> fst p \<longrightarrow> sg_inv {} ({s} - {sg_signal tx}) (snd p))"
    then show "post (sg_inv {} {}) (if fst p then proc E (sg_signal tx) (snd p) else Some (snd p))"
      using st1(3) proc by (auto simp: post_def)
  qed simp_all
  have rest: "post (sg_inv {} {}) (do {
            tx \<leftarrow> sg_tx_of st1 t;
            (if sg_txid tx = 0 \<or> transaction_done tx
             then do {
               p \<leftarrow> finish_transaction E t st1;
               (if fst p then proc E (sg_signal tx) (snd p) else Some (snd p))
             }
             else Some (st1\<lparr>sg_timers := sg_timers st1 @ [t]\<rparr>))
          })"
    if st1: "sg_inv {t} (insert s {s}) st1" "sg_tx_of st1 t = Some y" "sg_built y" "sg_signal y = s" for st1 y
    unfolding st1(2) Option.bind.bind_lunit
  proof (rule post_if)
    show "post (sg_inv {} {}) (finish_transaction E t st1 \<bind>
      (\<lambda>p. if fst p then proc E (sg_signal y) (snd p) else Some (snd p)))"
      using fin [of st1 y] st1 by simp
    assume "\<not> (sg_txid y = 0 \<or> transaction_done y)"
    then show "post (sg_inv {} {}) (Some (st1\<lparr>sg_timers := sg_timers st1 @ [t]\<rparr>))"
      using inv_add_timer [of t s "{}" st1 y] st1 by (intro post_Some) simp
  qed
  show ?thesis unfolding l option.case list.case
    by (rule post_bind [OF inv_start [OF inv Cons]]) (use rest in blast)
qed

lemma inv_process_inq:
  fixes st :: "'s sgstate"
  assumes "sg_inv {} {s} st" "process_inq E s st = Some st'"
  shows "sg_inv {} {} st'"
proof -
  have "sg_inv {} {s} st \<longrightarrow> sg_inv {} {} st'"
  proof (rule process_inq.raw_induct
      [where P = "\<lambda>E s st y. sg_inv {} {s} st \<longrightarrow> sg_inv {} {} y", OF _ assms(2)], intro impI, goal_cases)
    case (1 proc E s st y)
    then show ?case using inv_round [of proc E s st] by (simp add: post_def)
  qed
  then show ?thesis using assms(1) by blast
qed
lemma inv_process_more:
  "post (sg_inv {} {}) (if fst p then process_inq E (sg_signal tx) (snd p) else Some (snd p))"
  if "sg_inv {} {sg_signal tx} (snd p) \<and> (\<not> fst p \<longrightarrow> sg_inv {} {} (snd p))" for p :: "bool \<times> 's sgstate"
  using that inv_process_inq by (auto simp: post_def)

lemma inv_transaction_complete:
  fixes st :: "'s sgstate"
  assumes inv: "sg_inv {} {} st" and t: "t \<in> set (sg_timers st)"
  shows "post (sg_inv {} {}) (sg_transaction_complete E t st)"
proof -
  obtain tx where tx: "sg_tx_of st t = Some tx" using inv t by (auto simp: sg_inv_def started_def)
  have eq: "sg_transaction_complete E t st = finish_transaction E t st \<bind>
      (\<lambda>p. if fst p then process_inq E (sg_signal tx) (snd p) else Some (snd p))"
    by (simp add: sg_transaction_complete_def tx)
  show ?thesis unfolding eq
  proof (rule post_bind [OF inv_finish [OF inv tx]])
    fix p :: "bool \<times> 's sgstate"
    assume "sg_inv {} {sg_signal tx} (snd p) \<and> (\<not> fst p \<longrightarrow> sg_inv {} ({} - {sg_signal tx}) (snd p))"
    then show "post (sg_inv {} {}) (if fst p then process_inq E (sg_signal tx) (snd p) else Some (snd p))"
      by (intro inv_process_more) simp
  qed (use t in simp_all)
qed

lemma inv_receive_ack:
  assumes inv: "sg_inv {} {} st" and e: "e \<in> set (sg_eps st)" and t: "t \<in> set (ongoing st e)"
  shows "post (sg_inv {} {}) (enforcement_point_receive_ack E e t status st)"
proof -
  have tm: "t \<in> set (sg_timers st)" using waitingD(2) [of "{}" st e t] inv e t by (simp add: sg_inv_def)
  obtain tx where tx: "sg_tx_of st t = Some tx" using inv tm by (auto simp: sg_inv_def started_def)
  have i: "sg_inv {} {} (note_ack e t status st)" using inv_note_ack [OF inv e t] .
  have "t \<in> set (sg_timers (note_ack e t status st))" using tm note_ack_lists(6) [OF tx] by metis
  then show ?thesis unfolding enforcement_point_receive_ack_def Let_def
    by (intro post_bind [OF post_any] post_if post_Some inv_transaction_complete i)
qed

lemma inv_queue_decision:
  assumes "sg_inv {} {} st"
  shows "post (\<lambda>p. sg_inv {} {} (snd p)) (queue_decision E s fs i need timeout later st)"
proof -
  obtain t needs st1 where enq: "enqueue_decision s fs i need timeout st = (t, needs, st1)"
    by (metis prod_cases3)
  have "sg_inv {} (if needs then {s} else {}) st1" using inv_enqueue [OF assms _ enq] by simp
  moreover obtain u st2 where d: "queue_deferred s fs i need timeout st = (u, st2)" by (metis surj_pair)
  ultimately show ?thesis using inv_queue_deferred [OF assms _ d] inv_process_inq [of s st1 E]
    by (auto simp: queue_decision_def post_def enq d split: if_splits)
qed

lemma inv_signal_changed:
  assumes "sg_inv {} {} st"
  shows "post (sg_inv {} {}) (signal_changed E ch st)"
proof -
  obtain s i fs cb timeout where ch: "ch = (s, i, fs, cb, timeout)" by (cases ch)
  have "post (sg_inv {} {}) (queue_decision E s (rev fs) 0 False 0 False st \<bind> (\<lambda>(_, st1).
      Some (case cb of None \<Rightarrow> st1 | Some c \<Rightarrow> sg_note (Callback c 0 True) st1)))"
    by (rule post_bind_pair [OF inv_queue_decision [OF assms]])
      (auto intro: post_Some simp: sg_inv_note split: option.split)
  then show ?thesis using inv_signal_changed_deferred(1) [OF assms, of ch]
    by (simp add: signal_changed_def ch post_Some)
qed

lemma find_ep_Some: "find_ep uri st = Some e \<Longrightarrow> e \<in> set (sg_eps st)"
  by (auto simp: find_ep_def find_Some_iff)

lemma find_ep_None: "find_ep uri st = None \<Longrightarrow> e \<in> set (sg_eps st) \<Longrightarrow> map_option sg_uri (sg_ep_of st e) \<noteq> Some uri"
  by (auto simp: find_ep_def find_None_iff)

text \<open>The fact store is not looked at.\<close>

lemma sg_inv_fs: "sg_inv X Y (st\<lparr>sg_fs := s\<rparr>) = sg_inv X Y st"
  by (rule sg_inv_cong) (simp_all add: queue_of_def completed_def fun_eq_iff)

subsection \<open>Registration\<close>

lemma inv_new_ep:
  assumes inv: "sg_inv {} {} st" and new: "find_ep (sg_uri ep) st = None" "sg_ongoing ep = []"
  shows "sg_inv {} {} (st\<lparr>sg_nalloc := sg_nalloc st + 1, sg_ep_of := (sg_ep_of st)(sg_nalloc st \<mapsto> ep),
    sg_eps := sg_nalloc st # sg_eps st, sg_fs := s\<rparr>)" (is "sg_inv _ _ ?st")
proof -
  have parts: "accounted {} st" "queues_ok st" "started st" "waiting {} st" "table_ok {} st" "served {} st"
    "pending_ok st" "eps_ok st" "fresh_ok st"
    using inv by (simp_all add: sg_inv_def)
  have fr: "sg_tx_of st (sg_nalloc st) = None" "sg_ep_of st (sg_nalloc st) = None"
    using parts(9) by (simp_all add: fresh_ok_def)
  have ne: "sg_nalloc st \<notin> set (sg_eps st)" using parts(8) fr by (auto simp: eps_ok_def)
  have v: "queue_of ?st = queue_of st" "waits ?st = waits st" "needs_answer ?st = needs_answer st"
    "completed ?st = completed st" "in_flight ?st = in_flight st" "places ?st = places st"
    by (simp_all add: fun_eq_iff sg_views cong: option.case_cong)
  have on: "ongoing ?st = (ongoing st)(sg_nalloc st := [])"
    using new by (simp add: ongoing_def fun_eq_iff)
  have e: "sg_timers ?st = sg_timers st" "sg_tx_of ?st = sg_tx_of st" "sg_table ?st = sg_table st"
    "sg_idle ?st = sg_idle st" "sg_pending ?st = sg_pending st" by simp_all
  have "accounted {} ?st" using parts(1) unfolding accounted_def v e .
  moreover have "queues_ok ?st" using parts(2) unfolding queues_ok_def v e .
  moreover have "started ?st" using parts(3) unfolding started_def e .
  moreover have "table_ok {} ?st" using parts(5) unfolding table_ok_def e .
  moreover have "served {} ?st" using parts(6) unfolding served_def v e .
  moreover have "pending_ok ?st" using parts(7) unfolding pending_ok_def e .
  moreover have "eps_ok ?st"
  proof -
    let ?u = "\<lambda>st e. map_option sg_uri (sg_ep_of st e)"
    have m: "map (?u ?st) (sg_eps ?st) = Some (sg_uri ep) # map (?u st) (sg_eps st)" using ne by auto
    have "Some (sg_uri ep) \<notin> ?u st ` set (sg_eps st)"
    proof
      assume "Some (sg_uri ep) \<in> ?u st ` set (sg_eps st)"
      then obtain c where "c \<in> set (sg_eps st)" "?u st c = Some (sg_uri ep)" by (elim imageE) simp
      then show False using find_ep_None [OF new(1)] by blast
    qed
    moreover have "distinct (map (?u st) (sg_eps st))" using parts(8) by (simp add: eps_ok_def)
    ultimately have "distinct (map (?u ?st) (sg_eps ?st))" unfolding m by simp
    moreover have "\<forall>c \<in> set (sg_eps ?st). sg_ep_of ?st c \<noteq> None" using parts(8) by (simp add: eps_ok_def)
    ultimately show ?thesis by (simp add: eps_ok_def)
  qed
  moreover have "fresh_ok ?st" using parts(9) by (auto simp: fresh_ok_def)
  moreover have "waiting {} ?st" unfolding waiting_def v on e
  proof (intro conjI ballI impI)
    note d = waitingD [OF parts(4)]
    fix c assume c: "c \<in> set (sg_eps ?st)"
    then have cc: "c = sg_nalloc st \<or> c \<in> set (sg_eps st)" by auto
    then show "distinct (((ongoing st)(sg_nalloc st := [])) c)" using d(1) by auto
    fix u assume "u \<in> set (((ongoing st)(sg_nalloc st := [])) c)"
    then have u: "c \<in> set (sg_eps st)" "u \<in> set (ongoing st c)" using cc by (auto split: if_splits)
    show "u \<in> set (sg_timers st) \<union> {}" "c \<in> set (waits st u)" using d(2,3) [OF u] by simp_all
  next
    note d = waitingD [OF parts(4)]
    fix u assume u: "u \<in> set (sg_timers st) \<union> {}"
    show "distinct (waits st u)" using d(4) [OF u] .
    fix c assume c: "c \<in> set (waits st u)"
    show "c \<in> set (sg_eps ?st)" using d(5) [OF u c] by simp
    show "u \<in> set (((ongoing st)(sg_nalloc st := [])) c)" if "needs_answer st u"
      using d(5,6) [OF u c] that ne by auto
  qed
  ultimately show ?thesis by (simp add: sg_inv_def)
qed

lemma inv_register:
  assumes "sg_inv {} {} st"
  shows "post (\<lambda>p. sg_inv {} {} (snd p)) (register_enforcement_point E uri name internal caps st)"
proof (cases "find_ep uri st")
  case None
  let ?ep = "\<lparr>sg_uri = uri, sg_internal = internal, sg_ongoing = [], sg_interested = caps\<rparr>"
  have "sg_inv {} {} (st\<lparr>sg_nalloc := sg_nalloc st + 1, sg_ep_of := (sg_ep_of st)(sg_nalloc st \<mapsto> ?ep),
    sg_eps := sg_nalloc st # sg_eps st, sg_fs := s\<rparr>)" for s
    using inv_new_ep [OF assms, of ?ep] None by simp
  then show ?thesis unfolding register_enforcement_point_def None option.case Let_def
    by (intro post_bind [OF post_any] post_Some) simp
qed (simp add: register_enforcement_point_def assms post_Some)

text \<open>An enforcement point that leaves is taken off the lists of all transactions.\<close>

definition unlink_all :: "addr \<Rightarrow> addr list \<Rightarrow> 's sgstate \<Rightarrow> 's sgstate" where
  "unlink_all e ts st = fold (\<lambda>t s. transaction_remove_ep t e s) ts st"

lemma unlink_all:
  assumes "sg_static {} {} st" "set ts \<subseteq> set (sg_timers st)" "distinct ts"
  shows "sg_static {} {} (unlink_all e ts st)" "sg_eps (unlink_all e ts st) = sg_eps st"
    "sg_timers (unlink_all e ts st) = sg_timers st" "sg_ep_of (unlink_all e ts st) = sg_ep_of st"
    "sg_log (unlink_all e ts st) = sg_log st"
    "needs_answer (unlink_all e ts st) u = needs_answer st u"
    "waits (unlink_all e ts st) u = (if u \<in> set ts then remove1 e (waits st u) else waits st u)"
proof -
  have "sg_static {} {} (unlink_all e ts st) \<and> sg_eps (unlink_all e ts st) = sg_eps st \<and>
    sg_timers (unlink_all e ts st) = sg_timers st \<and> sg_ep_of (unlink_all e ts st) = sg_ep_of st \<and>
    sg_log (unlink_all e ts st) = sg_log st \<and>
    (\<forall>u. needs_answer (unlink_all e ts st) u = needs_answer st u) \<and>
    (\<forall>u. waits (unlink_all e ts st) u = (if u \<in> set ts then remove1 e (waits st u) else waits st u))"
    using assms
  proof (induction ts arbitrary: st)
    case Nil
    then show ?case by (simp add: unlink_all_def)
  next
    case (Cons t ts)
    let ?st = "transaction_remove_ep t e st"
    obtain tx where tx: "sg_tx_of st t = Some tx" using Cons.prems by (auto simp: sg_static_def started_def)
    have r: "relinked t st ?st"
      using tx by (auto simp: relinked_def transaction_remove_ep_def same_tx_def)
    have s: "sg_static {} {} ?st"
      by (rule static_relinked [OF Cons.prems(1) r]) (use Cons.prems in \<open>auto simp: transaction_remove_ep_def\<close>)
    have f: "sg_eps ?st = sg_eps st" "sg_timers ?st = sg_timers st" "sg_ep_of ?st = sg_ep_of st"
      "sg_log ?st = sg_log st" "\<And>u. waits ?st u = (if u = t then remove1 e (waits st u) else waits st u)"
      using tx by (auto simp: transaction_remove_ep_def waits_def)
    have u: "unlink_all e (t # ts) st = unlink_all e ts ?st" by (simp add: unlink_all_def)
    have "set ts \<subseteq> set (sg_timers ?st)" "distinct ts" "t \<notin> set ts" using Cons.prems f by auto
    then show ?case using Cons.IH [OF s] f relinked_views(5) [OF r] unfolding u by auto
  qed
  then show "sg_static {} {} (unlink_all e ts st)" "sg_eps (unlink_all e ts st) = sg_eps st"
    "sg_timers (unlink_all e ts st) = sg_timers st" "sg_ep_of (unlink_all e ts st) = sg_ep_of st"
    "sg_log (unlink_all e ts st) = sg_log st"
    "needs_answer (unlink_all e ts st) u = needs_answer st u"
    "waits (unlink_all e ts st) u = (if u \<in> set ts then remove1 e (waits st u) else waits st u)"
    by blast+
qed

lemma static_leave:
  assumes "sg_static {} {} st"
  shows "sg_static {} {} (st\<lparr>sg_eps := remove1 e (sg_eps st), sg_fs := s\<rparr>)" (is "sg_static _ _ ?st")
proof -
  have parts: "accounted {} st" "queues_ok st" "started st" "table_ok {} st" "served {} st"
    "pending_ok st" "eps_ok st" "fresh_ok st"
    using assms by (simp_all add: sg_static_def)
  have v: "queue_of ?st = queue_of st" "in_flight ?st = in_flight st" "places ?st = places st"
    by (simp_all add: fun_eq_iff sg_views cong: option.case_cong)
  have e: "sg_timers ?st = sg_timers st" "sg_tx_of ?st = sg_tx_of st" "sg_table ?st = sg_table st"
    "sg_idle ?st = sg_idle st" "sg_pending ?st = sg_pending st" "sg_ep_of ?st = sg_ep_of st"
    "sg_nalloc ?st = sg_nalloc st" "sg_eps ?st = remove1 e (sg_eps st)" by simp_all
  have "accounted {} ?st" using parts(1) unfolding accounted_def v e .
  moreover have "queues_ok ?st" using parts(2) unfolding queues_ok_def v e .
  moreover have "started ?st" using parts(3) unfolding started_def e .
  moreover have "table_ok {} ?st" using parts(4) unfolding table_ok_def e .
  moreover have "served {} ?st" using parts(5) unfolding served_def v e .
  moreover have "pending_ok ?st" using parts(6) unfolding pending_ok_def e .
  moreover have "eps_ok ?st"
    using parts(7) set_remove1_subset [of e "sg_eps st"] unfolding eps_ok_def e
    by (auto simp: distinct_map intro: inj_on_subset)
  moreover have "fresh_ok ?st" using parts(8) unfolding fresh_ok_def e .
  ultimately show ?thesis by (simp add: sg_static_def)
qed

lemma inv_unregister:
  assumes inv: "sg_inv {} {} st"
  shows "post (\<lambda>p. sg_inv {} {} (snd p)) (unregister_enforcement_point E uri st)"
proof (cases "find_ep uri st")
  case (Some e)
  have e: "e \<in> set (sg_eps st)" using find_ep_Some [OF Some] .
  have s: "sg_static {} {} st" and w: "waiting {} st" using inv by (simp_all add: sg_inv_split)
  obtain ep where ep: "sg_ep_of st e = Some ep" using s e by (auto simp: sg_static_def eps_ok_def)
  note d = waitingD [OF w]
  have ts: "set (ongoing st e) \<subseteq> set (sg_timers st)" "distinct (ongoing st e)"
    using d(1,2) [OF e] by auto
  note u = unlink_all [OF s ts, of e]
  let ?u = "unlink_all e (ongoing st e) st"
  have di: "distinct (sg_eps st)" using s by (simp add: sg_static_def distinct_eps)
  have na: "needs_answer st t" if "t \<in> set (sg_timers st)" for t
    using s that by (auto simp: sg_static_def started_def needs_answer_def)
  have "sg_inv {} {} (?u\<lparr>sg_eps := remove1 e (sg_eps ?u), sg_fs := fs\<rparr>)" (is "sg_inv _ _ ?st") for fs
  proof -
    have v: "waits ?st t = (if t \<in> set (ongoing st e) then remove1 e (waits st t) else waits st t)"
      "ongoing ?st c = ongoing st c" "needs_answer ?st t = needs_answer st t" for t c
      using u(4,6,7) by (simp_all add: waits_def ongoing_def needs_answer_def)
    have f: "sg_eps ?st = remove1 e (sg_eps st)" "sg_timers ?st = sg_timers st" using u(2,3) by simp_all
    have "waiting {} ?st" unfolding waiting_def v(2,3) f
    proof (intro conjI ballI impI)
      fix c assume "c \<in> set (remove1 e (sg_eps st))"
      then have c: "c \<in> set (sg_eps st)" "c \<noteq> e" using di by auto
      show "distinct (ongoing st c)" using d(1) [OF c(1)] .
      fix t assume t: "t \<in> set (ongoing st c)"
      show "t \<in> set (sg_timers st) \<union> {}" using d(2) [OF c(1) t] .
      show "c \<in> set (waits ?st t)" using d(3) [OF c(1) t] c(2) by (simp add: v(1))
    next
      fix t assume t: "t \<in> set (sg_timers st) \<union> {}"
      show "distinct (waits ?st t)" using d(4) [OF t] by (auto simp: v(1))
      fix c assume c: "c \<in> set (waits ?st t)"
      have cw: "c \<in> set (waits st t)"
        using c set_remove1_subset [of e "waits st t"] by (auto simp: v(1) split: if_splits)
      have "c \<noteq> e" using c d(4) [OF t] d(6) [OF t, of e] na [of t] t by (auto simp: v(1) split: if_splits)
      then show "c \<in> set (remove1 e (sg_eps st))" using d(5) [OF t cw] di by auto
      show "t \<in> set (ongoing st c)" if "needs_answer st t" using d(6) [OF t cw that] .
    qed
    then show ?thesis using static_leave [OF u(1)] by (simp add: sg_inv_split)
  qed
  then show ?thesis unfolding unregister_enforcement_point_def Some option.case
      enforcement_point_unregister_def ep Option.bind.bind_lunit
    by (intro post_Some) (simp add: ep unlink_all_def ongoing_def)
qed (simp add: unregister_enforcement_point_def assms post_Some)
subsection \<open>The main loop\<close>

lemma sends_remove:
  assumes "i < length xs" "distinct (sends xs)"
  shows "sends (take i xs @ drop (Suc i) xs) =
    (case xs ! i of Send_ipc t \<Rightarrow> remove1 t (sends xs) | Process_inq s \<Rightarrow> sends xs)"
proof -
  have x: "xs = take i xs @ xs ! i # drop (Suc i) xs" using assms(1) by (rule id_take_nth_drop)
  have s: "sends xs = sends (take i xs) @ sends [xs ! i] @ sends (drop (Suc i) xs)"
    by (subst x, cases "xs ! i") simp_all
  show ?thesis
  proof (cases "xs ! i")
    case (Send_ipc t)
    then have "t \<notin> set (sends (take i xs))" using assms(2) s by auto
    then show ?thesis using s Send_ipc by (simp add: remove1_append)
  qed (use s in simp)
qed

lemma inv_idle_removed:
  assumes inv: "sg_inv {} {} st" and i: "i < length (sg_idle st)"
  defines "st1 \<equiv> st\<lparr>sg_idle := take i (sg_idle st) @ drop (Suc i) (sg_idle st)\<rparr>"
  shows "sg_idle st ! i = Process_inq s \<Longrightarrow> sg_inv {} {s} st1"
    "sg_idle st ! i = Send_ipc t \<Longrightarrow> sg_inv {} {} (st1\<lparr>sg_pending := remove1 t (sg_pending st1)\<rparr>)"
proof -
  have parts: "served {} st" "pending_ok st" using inv by (simp_all add: sg_inv_def)
  have x: "sg_idle st = take i (sg_idle st) @ sg_idle st ! i # drop (Suc i) (sg_idle st)"
    using i by (rule id_take_nth_drop)
  have m: "set (sg_idle st) = insert (sg_idle st ! i) (set (sg_idle st1))"
    unfolding st1_def by (subst x) simp
  note r = sends_remove [OF i]
  have p: "sg_pending st = sends (sg_idle st)" "distinct (sends (sg_idle st))"
    "\<forall>t \<in> set (sg_pending st). sg_tx_of st t \<noteq> None"
    using parts(2) by (auto simp: pending_ok_def)
  {
    assume s: "sg_idle st ! i = Process_inq s"
    have "served {s} st1" using parts(1) m s by (auto simp: served_def st1_def)
    moreover have "pending_ok st1" using p r s by (simp add: pending_ok_def st1_def)
    ultimately show "sg_inv {} {s} st1" using inv by (simp add: sg_inv_def st1_def)
  next
    assume t: "sg_idle st ! i = Send_ipc t"
    let ?st2 = "st1\<lparr>sg_pending := remove1 t (sg_pending st1)\<rparr>"
    have "served {} st1" using parts(1) m t by (auto simp: served_def st1_def)
    then have sv: "served {} ?st2" by (simp add: served_def queue_of_def in_flight_def)
    have po: "pending_ok ?st2"
    proof -
      have "sg_pending ?st2 = remove1 t (sends (sg_idle st))" using p(1) by (simp add: st1_def)
      moreover have "sends (sg_idle ?st2) = remove1 t (sends (sg_idle st))" using r p(2) t by (simp add: st1_def)
      moreover have "sg_tx_of ?st2 = sg_tx_of st" by (simp add: st1_def)
      ultimately show ?thesis using p set_remove1_subset [of t "sends (sg_idle st)"]
        by (auto simp: pending_ok_def)
    qed
    have "accounted {} ?st2 = accounted {} st1" "queues_ok ?st2 = queues_ok st1" "started ?st2 = started st1"
      "waiting {} ?st2 = waiting {} st1" "table_ok {} ?st2 = table_ok {} st1" "eps_ok ?st2 = eps_ok st1"
      "fresh_ok ?st2 = fresh_ok st1"
      by (simp_all add: accounted_def queues_ok_def started_def waiting_def table_ok_def eps_ok_def
          fresh_ok_def sg_views cong: option.case_cong)
    then show "sg_inv {} {} ?st2" using inv sv po by (simp add: sg_inv_def st1_def)
  }
qed

lemma inv_init: "sg_inv {} {} (init_signaling s)"
  by (simp add: sg_inv_def sg_inv_parts sg_views init_signaling_def List.map_filter_def)

lemma inv_dbus_ack:
  assumes inv: "sg_inv {} {} st"
  shows "post (sg_inv {} {}) (dbus_ack E sender args st)"
proof (cases "\<exists>s i status t. sender = Some s \<and> args = Some (i, status) \<and> transaction_lookup i st = Some t")
  case True
  then obtain s i status t where a: "sender = Some s" "args = Some (i, status)" "transaction_lookup i st = Some t"
    by blast
  have t: "t \<in> set (sg_timers st)" using inv a(3) by (auto simp: sg_inv_def table_ok_def transaction_lookup_def)
  then obtain tx where tx: "sg_tx_of st t = Some tx" "sg_txid tx \<noteq> 0" using inv by (auto simp: sg_inv_def started_def)
  have w: "waiting {} st" using inv by (simp add: sg_inv_def)
  have "e \<in> set (sg_eps st) \<and> t \<in> set (ongoing st e)" if "e \<in> set (sg_not_answered tx)" for e
    using waitingD(5,6) [OF w, of t e] t tx that by (simp add: waits_def needs_answer_def)
  then have "post (sg_inv {} {}) (enforcement_point_receive_ack E e t ack st)"
    if "e \<in> set (sg_not_answered tx)" for e ack
    using that by (intro inv_receive_ack [OF inv]) simp_all
  then show ?thesis unfolding dbus_ack_def a prod.case option.case tx(1) Option.bind.bind_lunit
    by (intro post_option post_Some inv) (auto simp: find_Some_iff)
next
  case False
  then show ?thesis using inv
    by (cases "(sender, args)") (auto simp: dbus_ack_def post_Some split: option.split)
qed

lemma inv_step: "sg_inv {} {} st \<Longrightarrow> post (sg_inv {} {}) (sg_step E ev st)"
proof (cases ev)
  case (On_signal_changed ch)
  assume "sg_inv {} {} st" then show ?thesis by (simp add: sg_step_def On_signal_changed inv_signal_changed)
next
  case (On_policy_decision s fs timeout)
  assume "sg_inv {} {} st" then show ?thesis
    by (simp add: sg_step_def On_policy_decision queue_policy_decision_def post_map_option inv_queue_decision)
next
  case (On_key_change s fs)
  assume "sg_inv {} {} st" then show ?thesis
    by (simp add: sg_step_def On_key_change queue_key_change_def post_map_option inv_queue_decision)
next
  case (On_register_internal uri caps)
  assume "sg_inv {} {} st" then show ?thesis
    by (simp add: sg_step_def On_register_internal register_internal_enforcement_point_def post_map_option inv_register)
next
  case (On_unregister_internal e)
  assume inv: "sg_inv {} {} st"
  show ?thesis
    unfolding sg_step_def On_unregister_internal sg_event.case unregister_internal_enforcement_point_def
    by (intro post_if post_map_option post_bind [OF post_any] inv_unregister post_Some inv)
next
  case (On_internal_ack e t ack)
  assume inv: "sg_inv {} {} st"
  show ?thesis
    using inv inv_receive_ack [OF inv, of e t E ack]
    by (auto simp: sg_step_def On_internal_ack post_Some ongoing_def split: option.split)
next
  case (On_register_external uri name caps)
  assume inv: "sg_inv {} {} st"
  show ?thesis
    unfolding sg_step_def On_register_external sg_event.case register_external_enforcement_point_def
    by (rule post_bind_pair [OF inv_register [OF inv]], rule post_Some) (simp add: sg_inv_note)
next
  case (On_unregister_external uri)
  assume inv: "sg_inv {} {} st"
  show ?thesis
    unfolding sg_step_def On_unregister_external sg_event.case unregister_external_enforcement_point_def
    by (rule post_bind_pair [OF inv_unregister [OF inv]], rule post_Some) (simp add: sg_inv_note)
next
  case (On_owner_changed args)
  assume inv: "sg_inv {} {} st"
  have "post (sg_inv {} {}) (do { (ok, st1) \<leftarrow> unregister_enforcement_point E sender st;
      Some (if ok then sg_note (Watch_addr sender False) st1 else st1) })" for sender
    by (rule post_bind_pair [OF inv_unregister [OF inv]], rule post_Some) (simp add: sg_inv_note)
  then show ?thesis using inv
    by (simp add: sg_step_def On_owner_changed update_external_enforcement_points_def post_Some split: option.split)
next
  case (On_status sender args)
  assume "sg_inv {} {} st" then show ?thesis by (simp add: sg_step_def On_status inv_dbus_ack)
next
  case (On_sg_idle i)
  assume inv: "sg_inv {} {} st"
  let ?st1 = "st\<lparr>sg_idle := take i (sg_idle st) @ drop (Suc i) (sg_idle st)\<rparr>"
  show ?thesis
  proof (cases "i < length (sg_idle st)")
    case True
    show ?thesis
    proof (cases "sg_idle st ! i")
      case (Process_inq s)
      have "post (sg_inv {} {}) (process_inq E s ?st1)"
        by (rule postI) (rule inv_process_inq [OF inv_idle_removed(1) [OF inv True Process_inq]])
      then show ?thesis using True Process_inq by (simp add: sg_step_def On_sg_idle)
    next
      case (Send_ipc t)
      have "post (sg_inv {} {}) (send_ipc_signal t ?st1)"
        unfolding send_ipc_signal_def
        by (rule post_bind [OF post_any], rule post_Some)
          (use inv_idle_removed(2) [OF inv True Send_ipc] in \<open>simp add: sg_inv_note\<close>)
      then show ?thesis using True Send_ipc by (simp add: sg_step_def On_sg_idle)
    qed
  qed (simp add: sg_step_def On_sg_idle inv post_Some)
next
  case (On_timer t)
  assume "sg_inv {} {} st" then show ?thesis
    by (simp add: sg_step_def On_timer timeout_transaction_def inv_transaction_complete post_Some)
qed

lemma inv_reachable: "sg_reachable E s0 st \<Longrightarrow> sg_inv {} {} st"
  by (induction rule: sg_reachable.induct) (auto simp: inv_init dest: postD [OF inv_step])
end
