(* ===== verification/Signaling_Properties.thy ===== *)
theory Signaling_Properties
  imports Signaling_Inv "HOL-Library.Sublist"
begin

text \<open>
  What the signaling plugin promises: a decision is in one place until it is completed once, a
  queue that is not empty is being served, a timeout and the last answer complete a decision.
\<close>

subsection \<open>The log only grows\<close>










subsection \<open>Processing returns\<close>







subsection \<open>A history\<close>

fun sg_run :: "('s, 'f) sgenv \<Rightarrow> sg_event list \<Rightarrow> 's sgstate \<Rightarrow> 's sgstate option" where
  "sg_run E [] st = Some st"
| "sg_run E (ev # evs) st = sg_step E ev st \<bind> sg_run E evs"

lemma sg_reachable_run: "sg_run E evs st = Some st' \<Longrightarrow> sg_reachable E s0 st \<Longrightarrow> sg_reachable E s0 st'"
  by (induction evs arbitrary: st) (auto split: Option.bind_splits intro: sg_reachable.step)

text \<open>An external and an internal enforcement point, and a decision that both are interested in.\<close>

definition test_sglib :: "(unit, unit) ohmlib" where
  "test_sglib = \<lparr>get_facts_by_name = (\<lambda>_ _. []), store_insert = (\<lambda>_ s. (True, s)),
     store_remove = (\<lambda>_ s. s), object_unref = (\<lambda>_ s. s), fact_new = (\<lambda>_ s. (Some (), s)),
     fact_name = (\<lambda>_ _. []), fact_get = (\<lambda>_ _ _. None), fact_set = (\<lambda>_ _ _ s. s),
     value_from_string = GString, value_from_int = GInt, value_from_unsigned = GULong,
     value_from_double = GDouble, value_from_time = GUInt64, value_from_pointer = GPointer\<rparr>"

definition test_sgenv :: "(unit, unit) sgenv" where
  "test_sgenv = \<lparr>sg_lib = test_sglib, sg_answer = (\<lambda>_ _ _. None), sg_cb = (\<lambda>_ _ _ _. [])\<rparr>"

lemmas test_simps = test_sglib_def test_sgenv_def sg_step_def init_signaling_def
  register_external_enforcement_point_def register_internal_enforcement_point_def
  register_enforcement_point_def find_ep_def register_fact_def signal_changed_def
  signal_changed_deferred_def queue_deferred_def enqueue_decision_def signal_queue_lookup_def
  Let_def sg_note_def upd_tx_def upd_ep_def

lemmas test_process_simps = start_transaction_def is_interested_def enforcement_point_send_decision_def
  internal_ep_send_decision_def external_ep_send_decision_def transaction_add_ep_def transaction_done_def

definition test_decision :: "sg_event list" where
  "test_decision = [On_register_external '':1'' (Some ''pulse'') [''audio''],
     On_register_internal ''video'' [''audio'', ''video''],
     On_signal_changed (''audio'', 7, [''route''], Some ''cb'', 2000),
     On_signal_changed (''audio'', 8, [''route''], Some ''cb'', 2000)]"

definition test_points :: "addr list \<Rightarrow> addr \<Rightarrow> sg_ep option" where
  "test_points ongoing_internal =
     [0 \<mapsto> \<lparr>sg_uri = '':1'', sg_internal = False, sg_ongoing = [2], sg_interested = [''audio'']\<rparr>,
      1 \<mapsto> \<lparr>sg_uri = ''video'', sg_internal = True, sg_ongoing = ongoing_internal,
         sg_interested = [''video'', ''audio'']\<rparr>]"

definition test_tx :: "u32 \<Rightarrow> addr list \<Rightarrow> addr list \<Rightarrow> bool \<Rightarrow> sg_tx" where
  "test_tx i acked unanswered built = \<lparr>sg_txid = i, sg_signal = ''audio'', sg_acked = acked, sg_nacked = [],
     sg_not_answered = unanswered, sg_timeout = 2000, sg_built = built, sg_facts = [''route''],
     sg_callback = Some (Some ''cb'')\<rparr>"

text \<open>The first decision is in flight, with the answers given so far.\<close>

definition test_sgstate :: "addr list \<Rightarrow> addr list \<Rightarrow> addr list \<Rightarrow> unit sgstate" where
  "test_sgstate ongoing_internal acked unanswered =
     \<lparr>sg_fs = (), sg_eps = [1, 0], sg_ep_of = test_points ongoing_internal,
      sg_tx_of = [2 \<mapsto> test_tx 7 acked unanswered True, 3 \<mapsto> test_tx 8 [] [] False],
      sg_table = [7 \<mapsto> 2], sg_queues = [''audio'' \<mapsto> [3]], sg_idle = [Send_ipc 2], sg_timers = [2],
      sg_pending = [2], sg_last_txid = 0, sg_ready = False, sg_nalloc = 4,
      sg_log = [Watch_addr '':1'' True, Register_reply True, Decision 1 2]\<rparr>"

lemma test_flight_run:
  "sg_run test_sgenv (test_decision @ [On_sg_idle 0]) (init_signaling ()) = Some (test_sgstate [2] [] [0, 1])"
  by (simp add: test_decision_def test_simps, subst process_inq.simps)
    (simp add: test_simps test_process_simps test_sgstate_def test_points_def test_tx_def fun_eq_iff numeral_2_eq_2 [symmetric])

lemma test_answered_run:
  "sg_run test_sgenv [On_internal_ack 1 2 True] (test_sgstate [2] [] [0, 1]) = Some (test_sgstate [] [1] [0])"
  by (simp add: test_sgstate_def test_points_def test_tx_def test_simps enforcement_point_receive_ack_def
      note_ack_def stop_transaction_def transaction_ack_ep_def transaction_done_def fun_eq_iff)

lemma test_flight_reachable: "sg_reachable test_sgenv () (test_sgstate [2] [] [0, 1])"
  by (rule sg_reachable_run [OF test_flight_run sg_reachable.init])

lemma test_answered_reachable: "sg_reachable test_sgenv () (test_sgstate [] [1] [0])"
  by (rule sg_reachable_run [OF test_answered_run test_flight_reachable])

lemma test_flight:
  "sg_tx_of (test_sgstate ts as us) 2 = Some (test_tx 7 as us True)"
  "sg_tx_of (test_sgstate ts as us) 3 = Some (test_tx 8 [] [] False)"
  "sg_timers (test_sgstate ts as us) = [2]" "sg_queues (test_sgstate ts as us) = [''audio'' \<mapsto> [3]]"
  by (simp_all add: test_sgstate_def)

subsection \<open>Properties\<close>

text \<open>C3. In every state the signaling plugin can reach, a decision that was queued is in exactly one
  place: once in the queue of its signal, once among the decisions in flight, or completed exactly once.\<close>

theorem decision_in_one_place:
  assumes "sg_reachable E s0 st" and "sg_tx_of st t = Some tx"
  shows "count_list (queue_of st (sg_signal tx)) t + count_list (sg_timers st) t +
    count_list (completed st) t = 1"
proof -
  have "accounted {} st" using inv_reachable [OF assms(1)] by (simp add: sg_inv_def)
  then have "places st t + of_bool (t \<in> {}) = of_bool (sg_tx_of st t \<noteq> None)"
    unfolding accounted_def ..
  then show ?thesis using assms(2) by (simp add: places_def)
qed

theorem decision_in_one_place_witness: "count_list (completed (test_sgstate [2] [] [0, 1])) 2 = 0"
  using decision_in_one_place [OF test_flight_reachable test_flight(1)] by (simp add: test_flight)

text \<open>C7. No decision is forgotten: whenever the queue of a signal is not empty, its processing is
  scheduled in the main loop, or a decision for the signal is in flight, whose timer is set.\<close>

theorem waiting_decision_is_served:
  assumes "sg_reachable E s0 st" and "queue_of st s \<noteq> []"
  shows "Process_inq s \<in> set (sg_idle st) \<or>
    (\<exists>t \<in> set (sg_timers st). \<exists>tx. sg_tx_of st t = Some tx \<and> sg_signal tx = s \<and> sg_txid tx \<noteq> 0)"
proof -
  have "served {} st" and st: "started st" using inv_reachable [OF assms(1)] by (simp_all add: sg_inv_def)
  then have "Process_inq s \<in> set (sg_idle st) \<or> in_flight st s" using assms(2) by (simp add: served_def)
  moreover have "\<exists>t \<in> set (sg_timers st). \<exists>tx. sg_tx_of st t = Some tx \<and> sg_signal tx = s \<and> sg_txid tx \<noteq> 0"
    if "in_flight st s"
  proof -
    from that obtain t where t: "t \<in> set (sg_timers st)" "map_option sg_signal (sg_tx_of st t) = Some s"
      by (auto simp: in_flight_def)
    then show ?thesis using st unfolding started_def by (intro bexI [OF _ t(1)]) auto
  qed
  ultimately show ?thesis by blast
qed

theorem waiting_decision_is_served_witness:
  "Process_inq ''audio'' \<in> set (sg_idle (test_sgstate [2] [] [0, 1])) \<or> (\<exists>tx. sg_tx_of (test_sgstate [2] [] [0, 1]) 2 = Some tx \<and> sg_txid tx \<noteq> 0)"
  using waiting_decision_is_served [OF test_flight_reachable, of "''audio''"]
  by (auto simp: test_flight queue_of_def)

text \<open>C37. The two sides agree on who is waited for: a decision in flight waits for exactly the
  registered enforcement points that have it on their list of ongoing transactions.\<close>

theorem awaited_points_agree:
  assumes "sg_reachable E s0 st" and "t \<in> set (sg_timers st)"
  shows "\<exists>tx. sg_tx_of st t = Some tx \<and> distinct (sg_not_answered tx) \<and>
    (\<forall>e. e \<in> set (sg_not_answered tx) \<longleftrightarrow> e \<in> set (sg_eps st) \<and> t \<in> set (ongoing st e))"
proof -
  have w: "waiting {} st" and s: "started st" using inv_reachable [OF assms(1)] by (simp_all add: sg_inv_def)
  obtain tx where tx: "sg_tx_of st t = Some tx" "sg_txid tx \<noteq> 0" using s assms(2) by (auto simp: started_def)
  have l: "t \<in> set (sg_timers st) \<union> {}" using assms(2) by simp
  have v: "waits st t = sg_not_answered tx" "needs_answer st t" using tx by (simp_all add: waits_def needs_answer_def)
  have "e \<in> set (sg_not_answered tx) \<longleftrightarrow> e \<in> set (sg_eps st) \<and> t \<in> set (ongoing st e)" for e
    using waitingD(3) [OF w, of e t] waitingD(5,6) [OF w l, of e] v by auto
  then show ?thesis using tx(1) waitingD(4) [OF w l] v(1) by auto
qed

theorem awaited_points_agree_witness:
  "2 \<in> set (ongoing (test_sgstate [2] [] [0, 1]) 0) \<and> 2 \<in> set (ongoing (test_sgstate [2] [] [0, 1]) 1)"
proof -
  obtain tx where tx: "sg_tx_of (test_sgstate [2] [] [0, 1]) 2 = Some tx"
    "\<And>e. e \<in> set (sg_not_answered tx) \<longleftrightarrow> e \<in> set (sg_eps (test_sgstate [2] [] [0, 1])) \<and>
      2 \<in> set (ongoing (test_sgstate [2] [] [0, 1]) e)"
    using awaited_points_agree [OF test_flight_reachable, of 2] test_flight(3) by auto
  have "sg_not_answered tx = [0, 1]" using tx(1) by (auto simp: test_flight test_tx_def)
  then show ?thesis using tx(2) [of 0] tx(2) [of 1] by simp
qed






text \<open>An enforcement point that leaves while it is the only one a decision waits for does not complete
  the decision: nobody is waited for any more, but the decision stays in flight and nothing is done
  before its timer fires.\<close>

theorem departure_completes_nothing:
  assumes "sg_reachable E s0 st" and "t \<in> set (sg_timers st)" and "sg_tx_of st t = Some tx"
    and "find_ep uri st = Some e" and "sg_not_answered tx = [e]"
  shows "\<exists>st' tx'. unregister_enforcement_point E uri st = Some (True, st') \<and>
    sg_tx_of st' t = Some tx' \<and> transaction_done tx' \<and> t \<in> set (sg_timers st') \<and>
    sg_log st' = sg_log st \<and> sg_idle st' = sg_idle st"
proof -
  have inv: "sg_inv {} {} st" by (rule inv_reachable [OF assms(1)])
  have s: "sg_static {} {} st" and w: "waiting {} st" and "started st"
    using inv sg_inv_split [of "{}" "{}" st] by (simp_all add: sg_inv_def)
  then have b: "sg_built tx" "sg_txid tx \<noteq> 0" using assms(2,3) by (auto simp: started_def)
  have e: "e \<in> set (sg_eps st)" using find_ep_Some [OF assms(4)] .
  obtain ep where ep: "sg_ep_of st e = Some ep" using s e by (auto simp: sg_static_def eps_ok_def)
  have ts: "set (ongoing st e) \<subseteq> set (sg_timers st)" "distinct (ongoing st e)"
    using waitingD(1,2) [OF w e] by auto
  note u = unlink_all [OF s ts, of e]
  let ?u = "unlink_all e (ongoing st e) st"
  have t: "t \<in> set (ongoing st e)"
    using waitingD(6) [OF w, of t e] assms(2,3,5) b by (simp add: waits_def needs_answer_def)
  then have "waits ?u t = []" using u(7) [of t] assms(3,5) by (simp add: waits_def)
  moreover obtain tx' where tx': "sg_tx_of ?u t = Some tx'" "sg_built tx'"
    using u(1,3) assms(2) by (auto simp: sg_static_def started_def)
  ultimately have d: "transaction_done tx'" by (simp add: waits_def transaction_done_def)
  have idle: "sg_idle (unlink_all e us st') = sg_idle st'" for us and st' :: "'a sgstate"
    by (induction us arbitrary: st') (simp_all add: unlink_all_def transaction_remove_ep_def)
  have "unregister_enforcement_point E uri st = Some (True, ?u\<lparr>sg_eps := remove1 e (sg_eps ?u),
      sg_fs := unregister_fact (sg_lib E) uri (sg_fs ?u)\<rparr>)"
    using ep by (simp add: unregister_enforcement_point_def enforcement_point_unregister_def assms(4)
        unlink_all_def ongoing_def)
  then show ?thesis using tx' d assms(2) u(3,5) idle by simp
qed

theorem departure_completes_nothing_witness:
  "\<exists>st'. unregister_enforcement_point test_sgenv '':1'' (test_sgstate [] [1] [0]) = Some (True, st') \<and>
    2 \<in> set (sg_timers st')"
proof -
  have f: "find_ep '':1'' (test_sgstate [] [1] [0]) = Some 0"
    by (simp add: find_ep_def test_sgstate_def test_points_def)
  show ?thesis
    using departure_completes_nothing [OF test_answered_reachable _ test_flight(1) f]
    by (auto simp: test_flight test_tx_def)
qed

text \<open>The ids that the plugin gives itself run from 1 to 2^32 - 1 and start again at 1: the id 0, which
  means that no answer is wanted, is never given.\<close>

theorem generated_ids_cycle:
  assumes "0 < n"
  shows "unat ((get_txid ^^ n) 0) = (n - 1) mod (2 ^ 32 - 1) + 1"
  using assms
proof (induction n)
  case (Suc n)
  show ?case
  proof (cases "n = 0")
    case True
    then show ?thesis by (simp add: get_txid_def)
  next
    case False
    let ?w = "(get_txid ^^ n) 0"
    have w: "unat ?w = (n - 1) mod (2 ^ 32 - 1) + 1" using Suc.IH False by simp
    have m: "unat (-1 :: u32) = 2 ^ 32 - 1" by (simp add: unsigned_minus_1_eq_mask mask_eq_exp_minus_1)
    have sm: "n mod (2 ^ 32 - 1) = (if (n - 1) mod (2 ^ 32 - 1) + 1 = 2 ^ 32 - 1 then 0
        else (n - 1) mod (2 ^ 32 - 1) + 1)"
      using False mod_Suc [of "n - 1" "2 ^ 32 - 1"] by simp
    show ?thesis
    proof (cases "?w = -1")
      case True
      then have "(n - 1) mod (2 ^ 32 - 1) + 1 = (2 ^ 32 - 1 :: nat)" using w m by metis
      then have "n mod (2 ^ 32 - 1) = 0" using sm by simp
      moreover have "get_txid ?w = 1" by (simp add: True get_txid_def [of "-1"])
      ultimately show ?thesis by simp
    next
      case False
      then have "unat ?w \<noteq> 2 ^ 32 - 1" using m word_unat_eq_iff [of ?w "-1"] by metis
      then have "n mod (2 ^ 32 - 1) = (n - 1) mod (2 ^ 32 - 1) + 1" using w sm by simp
      moreover have "unat (get_txid ?w) = Suc (unat ?w)"
        using False unat_inc_u32 [OF False] by (simp only: get_txid_def if_False)
      ultimately show ?thesis using w by simp
    qed
  qed
qed simp

theorem generated_ids_cycle_witness: "unat ((get_txid ^^ 3) 0) = 3"
  using generated_ids_cycle [of 3] by simp
end
