(* ===== verification/Notif.thy ===== *)
theory Notif
  imports Resource_Rule "HOL-Library.Monad_Syntax"
begin

text \<open>
  The notification plugin, \<open>src/plugins/notification\<close>: requests to play a notification
  (\<open>proxy.c\<close>) acquire resources through the resource manager (\<open>resource.c\<close>), ask the rules
  (\<open>ruleif.c\<close>), are forwarded to the backend and answered over D-Bus (\<open>dbusif.c\<close>).

  The rule engine is the parameter \<open>rule_env\<close> of \<open>Resource_Rule\<close>.  The environment \<open>nenv\<close> gives
  the resource bits of libresource, its sets of resources as a function of what was sent so far,
  whether a message can be built or sent, and what an uninitialised buffer holds.  A chain of a hash
  table is the list of the proxies on it; following a proxy that was freed is the result \<open>None\<close>.
\<close>

subsection \<open>Constants and state\<close>

definition NGF_COMPLETED :: u32 where "NGF_COMPLETED = 0"
definition NGF_FAILED :: u32 where "NGF_FAILED = 1"
definition NGF_BUSY :: u32 where "NGF_BUSY = 2"
definition NGF_LONG :: u32 where "NGF_LONG = 4"
definition NGF_SHORT :: u32 where "NGF_SHORT = 8"
definition SECOND :: u32 where "SECOND = 1000"
definition MINUTE :: u32 where "MINUTE = 60 * SECOND"
definition DEFAULT_PLAY_LIMIT :: u32 where "DEFAULT_PLAY_LIMIT = 5 * MINUTE"

definition ID_HASH_DIM :: nat where "ID_HASH_DIM = 64"

definition ID_HASH_INDEX :: "u32 \<Rightarrow> nat" where
  "ID_HASH_INDEX i = unat (i AND 63)"

definition CL_HASH_INDEX :: "u32 \<Rightarrow> nat" where
  "CL_HASH_INDEX i = unat (i AND 255)"

definition SEQNO_MASK :: u32 where "SEQNO_MASK = 0x7fffffff"

definition NOTIFICATION_TYPE :: "u32 \<Rightarrow> u32" where
  "NOTIFICATION_TYPE i = drop_bit 31 i AND 1"

definition NOTIFICATION_ID :: "u32 \<Rightarrow> u32 \<Rightarrow> u32" where
  "NOTIFICATION_ID t s = push_bit 31 (t AND 1) OR (s AND SEQNO_MASK)"

definition regular_id :: u32 where "regular_id = 0"
definition rset_proclaimer :: int where "rset_proclaimer = 0"
definition rset_ringtone :: int where "rset_ringtone = 1"
definition rset_id_max :: int where "rset_id_max = 7"
definition RESOURCE_SET_BUSY :: u32 where "RESOURCE_SET_BUSY = NOT 0"

datatype proxy_state = state_created | state_acquiring | state_forwarded | state_completed
  | state_stopped | state_killed

text \<open>The events of the state machine, with their data.\<close>

datatype 'm proxy_event = resource_grant u32 | backend_status "'m option" | backend_timeout
  | client_stop "'m option" | client_died | client_pause "'m option" | client_resume "'m option"

record 'm proxy =
  px_type :: int
  px_event :: cstring
  px_id :: u32
  px_client :: string
  px_state :: proxy_state
  px_resources :: u32
  px_timeout :: nat
  px_data :: "'m option"
  px_status :: u32

text \<open>A resource set of the plugin; \<open>rs_grant\<close> is the data of the callback, if there is one.\<close>

record nset =
  rs_connected :: bool
  rs_acquire :: bool
  rs_reqno :: u32
  rs_flags :: u32
  rs_grant :: "u32 option"
  rs_events :: "string list"
  rs_users :: int

datatype nsource = Timeout_src addr u32 | Fake_grant nat u32 u32

text \<open>A message is one that was received, or one the plugin built.\<close>

datatype 'm naction =
    Status_to string u32 u32
  | Status_copy string 'm
  | Play_to u32 cstring string u32 bool bool bool bool 'm
  | Stop_copy 'm
  | Stop_to u32
  | Monitor string bool
  | Res_register nat u32 u32 u32 string
  | Res_update nat u32 u32 u32
  | Res_acquire nat u32
  | Res_release nat u32
  | Reply_id 'm u32
  | Reply_err 'm string string
  | Reply_empty 'm

record 'm nstate =
  nf_proxies :: "addr \<Rightarrow> 'm proxy option"
  nf_nalloc :: addr
  nf_idtbl :: "nat \<Rightarrow> addr list"
  nf_cltbl :: "nat \<Rightarrow> addr list"
  nf_sqlist :: "addr list"
  nf_seqno :: u32
  nf_play_limit :: u32
  nf_play_timeout :: u32
  nf_stop_timeout :: u32
  nf_sets :: "nat \<Rightarrow> nset"
  nf_reqno :: u32
  nf_sources :: "(nat \<times> nsource) list"
  nf_nsource :: nat
  nf_notreq :: int
  nf_notevnt :: int
  nf_notplsh :: int
  nf_backend :: cstring
  nf_namesig :: bool
  nf_log :: "'m naction list"

record 'm nenv =
  n_rules :: rule_env
  n_audio :: u32
  n_vibra :: u32
  n_leds :: u32
  n_blight :: u32
  n_rset :: "'m naction list \<Rightarrow> nat \<Rightarrow> u32 \<times> u32"
  n_malloc :: "'m naction list \<Rightarrow> bool"
  n_built :: "'m naction list \<Rightarrow> bool"
  n_append :: "'m naction list \<Rightarrow> 'm \<Rightarrow> bool"
  n_sent :: "'m naction list \<Rightarrow> bool"
  n_stack :: "'m naction list \<Rightarrow> string"
  n_create_stop :: "u32 \<Rightarrow> 'm"

definition nf_note :: "'m naction \<Rightarrow> 'm nstate \<Rightarrow> 'm nstate" where
  "nf_note x st = st\<lparr>nf_log := nf_log st @ [x]\<rparr>"

definition upd_proxy :: "addr \<Rightarrow> ('m proxy \<Rightarrow> 'm proxy) \<Rightarrow> 'm nstate \<Rightarrow> 'm nstate" where
  "upd_proxy a f st = st\<lparr>nf_proxies := (nf_proxies st)(a := map_option f (nf_proxies st a))\<rparr>"

definition upd_set :: "nat \<Rightarrow> (nset \<Rightarrow> nset) \<Rightarrow> 'm nstate \<Rightarrow> 'm nstate" where
  "upd_set i f st = st\<lparr>nf_sets := (nf_sets st)(i := f (nf_sets st i))\<rparr>"

definition add_source :: "nsource \<Rightarrow> 'm nstate \<Rightarrow> nat \<times> 'm nstate" where
  "add_source x st = (nf_nsource st,
     st\<lparr>nf_sources := nf_sources st @ [(nf_nsource st, x)], nf_nsource := nf_nsource st + 1\<rparr>)"

definition remove_source :: "nat \<Rightarrow> 'm nstate \<Rightarrow> 'm nstate" where
  "remove_source i st = st\<lparr>nf_sources := filter (\<lambda>(j, _). j \<noteq> i) (nf_sources st)\<rparr>"

subsection \<open>Rules\<close>

text \<open>\<open>lookup_rules\<close> numbers the three rules, if the methods of the rule engine are found.\<close>

definition notif_lookup_rules :: "'m nenv \<Rightarrow> 'm nstate \<Rightarrow> bool \<times> 'm nstate" where
  "notif_lookup_rules E st =
     (if \<not> find_methods (n_rules E) then (False, st)
      else (let r = rule_find (n_rules E) ''notification_request'' 2;
                e = rule_find (n_rules E) ''notification_events'' 2;
                p = rule_find (n_rules E) ''notification_play_short'' 2
            in (r \<ge> 0 \<and> e \<ge> 0 \<and> p \<ge> 0, st\<lparr>nf_notreq := r, nf_notevnt := e, nf_notplsh := p\<rparr>)))"

text \<open>The only row of an answer.\<close>

definition single_row :: "int \<times> row list option \<Rightarrow> row option" where
  "single_row r = (case r of (status, Some [entry]) \<Rightarrow> if status \<le> 0 then None else Some entry | _ \<Rightarrow> None)"

definition ruleif_notification_request ::
  "'m nenv \<Rightarrow> string \<Rightarrow> (string \<times> char) list \<Rightarrow> 'm nstate \<Rightarrow> (bool \<times> rvalue option list) \<times> 'm nstate" where
  "ruleif_notification_request E what args st =
     (let st1 = (if nf_notreq st < 0 then snd (notif_lookup_rules E st) else st)
      in (if nf_notreq st1 \<ge> 0
          then (case single_row (rule_eval (n_rules E) (nf_notreq st1) [RString what]) of
                  Some entry \<Rightarrow> copy_values args entry
                | None \<Rightarrow> (False, []))
          else (False, []), st1))"

fun event_values :: "row \<Rightarrow> string list" where
  "event_values [] = []"
| "event_values ((n, v) # row) =
     (case v of RString s \<Rightarrow> if n = ''value'' then s # event_values row else event_values row
      | _ \<Rightarrow> event_values row)"

definition ruleif_notification_events ::
  "'m nenv \<Rightarrow> int \<Rightarrow> 'm nstate \<Rightarrow> string list option \<times> 'm nstate" where
  "ruleif_notification_events E i st =
     (let st1 = (if nf_notreq st < 0 \<or> nf_notevnt st < 0 then snd (notif_lookup_rules E st) else st)
      in (if nf_notreq st1 \<ge> 0 \<and> nf_notevnt st1 \<ge> 0
          then (case single_row (rule_eval (n_rules E) (nf_notevnt st1) [RInteger i]) of
                  Some ((n, RString _) # row) \<Rightarrow>
                    if n = ''name'' \<and> n_malloc E (nf_log st1) then Some (event_values row) else None
                | _ \<Rightarrow> None)
          else None, st1))"

definition ruleif_notification_play_short :: "'m nenv \<Rightarrow> int \<Rightarrow> 'm nstate \<Rightarrow> int option \<times> 'm nstate" where
  "ruleif_notification_play_short E i st =
     (let st1 = (if nf_notplsh st < 0 then snd (notif_lookup_rules E st) else st)
      in (if nf_notplsh st1 \<ge> 0
          then (case single_row (rule_eval (n_rules E) (nf_notplsh st1) [RInteger i]) of
                  Some [(n, RString p), (v, RInteger play)] \<Rightarrow>
                    if n = ''name'' \<and> p = ''play'' \<and> v = ''value'' then Some play else None
                | _ \<Rightarrow> None)
          else None, st1))"

subsection \<open>Resources\<close>

definition is_valid_resource_set :: "int \<Rightarrow> bool" where
  "is_valid_resource_set i \<longleftrightarrow> 0 \<le> i \<and> i < rset_id_max"

definition fake_grant_create :: "nat \<Rightarrow> u32 \<Rightarrow> u32 \<Rightarrow> 'm nstate \<Rightarrow> 'm nstate" where
  "fake_grant_create i flags proxid st = snd (add_source (Fake_grant i flags proxid) st)"

definition next_reqno :: "'m nstate \<Rightarrow> 'm nstate" where
  "next_reqno st = st\<lparr>nf_reqno := nf_reqno st + 1\<rparr>"

text \<open>The message to the manager that asks for the resources, after an update of the set if it differs.\<close>

definition acquire_messages ::
  "'m nenv \<Rightarrow> nat \<Rightarrow> u32 \<Rightarrow> u32 \<Rightarrow> u32 \<Rightarrow> 'm nstate \<Rightarrow> bool \<times> 'm nstate" where
  "acquire_messages E i mand opt proxid st =
     (let all = mand OR opt;
          st1 = upd_set i (\<lambda>rs. rs\<lparr>rs_acquire := True, rs_grant := Some proxid\<rparr>) st;
          (fall, fopt) = n_rset E (nf_log st1) i;
          st2 = (if (all XOR fall) \<noteq> 0 \<or> (opt XOR fopt) \<noteq> 0
                 then (let s = next_reqno st1 in nf_note (Res_update i (nf_reqno s) all opt) s) else st1);
          st3 = next_reqno st2;
          st4 = nf_note (Res_acquire i (nf_reqno st3)) (upd_set i (\<lambda>rs. rs\<lparr>rs_reqno := nf_reqno st3\<rparr>) st3)
      in (n_sent E (nf_log st4), st4))"

definition resource_set_acquire ::
  "'m nenv \<Rightarrow> int \<Rightarrow> u32 \<Rightarrow> u32 \<Rightarrow> u32 \<Rightarrow> u32 \<Rightarrow> 'm nstate \<Rightarrow> bool \<times> 'm nstate" where
  "resource_set_acquire E ty mand opt allow_multiple proxid st =
     (if \<not> is_valid_resource_set ty then (False, st)
      else (let i = nat ty; rs = nf_sets st i;
                (ok, st1) =
                  (if \<not> rs_connected rs then (False, st)
                   else if mand OR opt = 0 \<or> rs_acquire rs \<and> allow_multiple = 0
                   then (True, fake_grant_create i RESOURCE_SET_BUSY proxid st)
                   else if rs_acquire rs \<and> rs_users rs > 0
                   then (True, fake_grant_create i (fst (n_rset E (nf_log st) i)) proxid st)
                   else acquire_messages E i mand opt proxid st)
            in (ok, upd_set i (\<lambda>rs. rs\<lparr>rs_users := rs_users rs + 1\<rparr>) st1)))"

definition resource_set_release :: "'m nenv \<Rightarrow> int \<Rightarrow> u32 \<Rightarrow> 'm nstate \<Rightarrow> bool \<times> 'm nstate" where
  "resource_set_release E ty proxid st =
     (if \<not> is_valid_resource_set ty \<or> \<not> rs_connected (nf_sets st (nat ty)) then (False, st)
      else (let i = nat ty;
                st1 = upd_set i (\<lambda>rs. rs\<lparr>rs_users := (if rs_users rs > 0 then rs_users rs - 1 else rs_users rs),
                        rs_grant := (if rs_grant rs = Some proxid then None else rs_grant rs)\<rparr>) st
            in (True,
                if rs_users (nf_sets st1 i) > 0 then st1
                else (let st2 = next_reqno st1
                      in nf_note (Res_release i (nf_reqno st2))
                           (upd_set i (\<lambda>rs. rs\<lparr>rs_reqno := nf_reqno st2\<rparr>) st2)))))"

text \<open>\<open>resource_flags_to_booleans\<close>: audio, vibra, leds and backlight.\<close>

definition resource_flags_to_booleans :: "'m nenv \<Rightarrow> u32 \<Rightarrow> bool \<times> bool \<times> bool \<times> bool" where
  "resource_flags_to_booleans E flags =
     (flags AND n_audio E \<noteq> 0, flags AND n_vibra E \<noteq> 0, flags AND n_leds E \<noteq> 0, flags AND n_blight E \<noteq> 0)"

definition rset_defs :: "'m nenv \<Rightarrow> (nat \<times> string \<times> u32 \<times> u32) list" where
  "rset_defs E =
     [(0, ''proclaimer'', n_audio E, 0),
      (1, ''ringtone'', n_audio E OR n_vibra E, n_blight E),
      (2, ''event'', n_leds E, 0),
      (3, ''alarm'', n_audio E OR n_vibra E, n_blight E),
      (4, ''event'', n_audio E OR n_vibra E, n_blight E),
      (5, ''ringtone'', n_leds E, 0),
      (6, ''battery'', n_audio E, 0)]"

definition connect_to_manager :: "'m nenv \<Rightarrow> 'm nstate \<Rightarrow> 'm nstate" where
  "connect_to_manager E st =
     fold (\<lambda>(i, klass, mand, opt) s.
         (let s1 = next_reqno s in nf_note (Res_register i (nf_reqno s1) (mand OR opt) opt klass) s1))
       (rset_defs E) st"

text \<open>The set that the manager's answer to the registration sets up.\<close>

definition new_nset :: "string list \<Rightarrow> nset" where
  "new_nset evs = \<lparr>rs_connected = True, rs_acquire = False, rs_reqno = 0, rs_flags = 0,
     rs_grant = None, rs_events = evs, rs_users = 0\<rparr>"

definition conn_status :: "'m nenv \<Rightarrow> nat \<Rightarrow> int \<Rightarrow> 'm nstate \<Rightarrow> 'm nstate" where
  "conn_status E i errcod st =
     (if errcod = 0 \<and> int i < rset_id_max
      then (case ruleif_notification_events E (int i) st of
              (None, st1) \<Rightarrow> st1
            | (Some evs, st1) \<Rightarrow> upd_set i (\<lambda>_. new_nset evs) st1)
      else st)"

subsection \<open>The tables of proxies\<close>

definition cl_hash_index :: "string \<Rightarrow> nat" where
  "cl_hash_index client =
     (let r = dropWhile (\<lambda>c. c \<noteq> CHR ''.'') client
      in CL_HASH_INDEX (word_of_int (fst (strtoul (case r of [] \<Rightarrow> client | _ # numstr \<Rightarrow> numstr)))))"

definition id_hash_add :: "addr \<Rightarrow> u32 \<Rightarrow> 'm nstate \<Rightarrow> 'm nstate" where
  "id_hash_add a i st =
     st\<lparr>nf_idtbl := (nf_idtbl st)(ID_HASH_INDEX i := a # nf_idtbl st (ID_HASH_INDEX i))\<rparr>"

definition id_hash_delete :: "addr \<Rightarrow> u32 \<Rightarrow> 'm nstate \<Rightarrow> 'm nstate" where
  "id_hash_delete a i st =
     st\<lparr>nf_idtbl := (nf_idtbl st)(ID_HASH_INDEX i := remove1 a (nf_idtbl st (ID_HASH_INDEX i)))\<rparr>"

definition cl_hash_add :: "addr \<Rightarrow> string \<Rightarrow> 'm nstate \<Rightarrow> 'm nstate" where
  "cl_hash_add a client st =
     st\<lparr>nf_cltbl := (nf_cltbl st)(cl_hash_index client := a # nf_cltbl st (cl_hash_index client))\<rparr>"

definition cl_hash_delete :: "addr \<Rightarrow> string \<Rightarrow> 'm nstate \<Rightarrow> 'm nstate" where
  "cl_hash_delete a client st =
     st\<lparr>nf_cltbl := (nf_cltbl st)(cl_hash_index client := remove1 a (nf_cltbl st (cl_hash_index client)))\<rparr>"

definition sq_list_add :: "addr \<Rightarrow> 'm nstate \<Rightarrow> 'm nstate" where
  "sq_list_add a st = st\<lparr>nf_sqlist := nf_sqlist st @ [a]\<rparr>"

definition sq_list_delete :: "addr \<Rightarrow> 'm nstate \<Rightarrow> 'm nstate" where
  "sq_list_delete a st = st\<lparr>nf_sqlist := remove1 a (nf_sqlist st)\<rparr>"

definition id_hash_lookup :: "u32 \<Rightarrow> 'm nstate \<Rightarrow> addr option" where
  "id_hash_lookup i st =
     find (\<lambda>a. map_option px_id (nf_proxies st a) = Some i) (nf_idtbl st (ID_HASH_INDEX i))"

definition cl_hash_lookup_client :: "string \<Rightarrow> 'm nstate \<Rightarrow> bool" where
  "cl_hash_lookup_client client st =
     list_ex (\<lambda>a. map_option px_client (nf_proxies st a) = Some client) (nf_cltbl st (cl_hash_index client))"

text \<open>
  \<open>cl_hash_lookup_proxy\<close>: the next proxy of the client after the cursor.  The outer \<open>None\<close> is a
  cursor that points to a freed proxy.
\<close>

definition cl_hash_lookup_proxy :: "string \<Rightarrow> addr option \<Rightarrow> 'm nstate \<Rightarrow> addr option option" where
  "cl_hash_lookup_proxy client cur st =
     (let chain = nf_cltbl st (cl_hash_index client);
          mine = (\<lambda>a. map_option px_client (nf_proxies st a) = Some client)
      in case cur of
           None \<Rightarrow> Some (find mine chain)
         | Some a \<Rightarrow>
             if nf_proxies st a = None then None
             else Some (find mine (tl (dropWhile (\<lambda>b. b \<noteq> a) chain))))"

subsection \<open>Timeouts\<close>

definition timeout_destroy :: "addr \<Rightarrow> 'm nstate \<Rightarrow> 'm nstate" where
  "timeout_destroy a st =
     (case nf_proxies st a of
        None \<Rightarrow> st
      | Some px \<Rightarrow> if px_timeout px = 0 then st
          else upd_proxy a (px_timeout_update (\<lambda>_. 0)) (remove_source (px_timeout px) st))"

definition timeout_create :: "addr \<Rightarrow> u32 \<Rightarrow> 'm nstate \<Rightarrow> 'm nstate" where
  "timeout_create a delay st =
     (let (i, st1) = add_source (Timeout_src a delay) (timeout_destroy a st)
      in upd_proxy a (px_timeout_update (\<lambda>_. i)) st1)"

subsection \<open>Proxies\<close>

definition proxy_init :: "cstring \<Rightarrow> 'm nstate \<Rightarrow> 'm nstate" where
  "proxy_init limit_str st =
     (let limit = (case limit_str of
          None \<Rightarrow> DEFAULT_PLAY_LIMIT
        | Some s \<Rightarrow> (let (v, rest) = strtol s; n = word_of_int v
                     in if n > 0 \<and> rest = [] then n * SECOND else DEFAULT_PLAY_LIMIT))
      in st\<lparr>nf_play_limit := limit, nf_play_timeout := limit + 30 * SECOND,
            nf_stop_timeout := 10 * SECOND\<rparr>)"

definition proxy_create ::
  "'m nenv \<Rightarrow> u32 \<Rightarrow> string \<Rightarrow> 'm \<Rightarrow> 'm nstate \<Rightarrow> addr option \<times> 'm nstate" where
  "proxy_create E i client data st =
     (if \<not> n_malloc E (nf_log st) then (None, st)
      else (let a = nf_nalloc st;
                px = \<lparr>px_type = -1, px_event = None, px_id = i, px_client = client,
                  px_state = state_created, px_resources = 0, px_timeout = 0, px_data = Some data,
                  px_status = 0\<rparr>;
                st1 = (if cl_hash_lookup_client client st then st else nf_note (Monitor client True) st)
            in (Some a, sq_list_add a (cl_hash_add a client (id_hash_add a i
                 (st1\<lparr>nf_nalloc := a + 1, nf_proxies := (nf_proxies st1)(a \<mapsto> px)\<rparr>))))))"

definition proxy_destroy :: "'m nenv \<Rightarrow> addr \<Rightarrow> 'm nstate \<Rightarrow> 'm nstate option" where
  "proxy_destroy E a st =
     do {
       px \<leftarrow> nf_proxies st a;
       (let st1 = sq_list_delete a (cl_hash_delete a (px_client px) (id_hash_delete a (px_id px)
                    (timeout_destroy a st)));
            st2 = nf_note (Monitor (px_client px) False) st1;
            st3 = snd (resource_set_release E (px_type px) (px_id px) st2)
        in Some (st3\<lparr>nf_proxies := (nf_proxies st3)(a := None)\<rparr>))
     }"

definition play_status :: "'m nenv \<Rightarrow> 'm proxy \<Rightarrow> u32 \<Rightarrow> 'm nstate \<Rightarrow> u32 \<times> 'm nstate" where
  "play_status E px granted st =
     (if granted = RESOURCE_SET_BUSY then (NGF_BUSY, st)
      else if granted \<noteq> 0 then (NGF_LONG, st)
      else if px_type px < 0 \<or> px_type px \<ge> rset_id_max then (NGF_BUSY, st)
      else (case ruleif_notification_play_short E (px_type px) st of
              (None, st1) \<Rightarrow> (NGF_BUSY, st1)
            | (Some play, st1) \<Rightarrow> (if play \<noteq> 0 then NGF_SHORT else NGF_BUSY, st1)))"

definition create_and_send_status_to_client :: "'m nenv \<Rightarrow> 'm proxy \<Rightarrow> u32 \<Rightarrow> 'm nstate \<Rightarrow> 'm nstate" where
  "create_and_send_status_to_client E px status st =
     (if px_client px = [] \<or> \<not> n_built E (nf_log st) then st
      else nf_note (Status_to (px_client px) (px_id px) status) st)"

text \<open>A message that cannot be copied is not sent.\<close>

definition forward_copy :: "'m nenv \<Rightarrow> ('m \<Rightarrow> 'm naction) \<Rightarrow> 'm option \<Rightarrow> 'm nstate \<Rightarrow> 'm nstate" where
  "forward_copy E f data st =
     (case data of None \<Rightarrow> st | Some m \<Rightarrow> if n_built E (nf_log st) then nf_note (f m) st else st)"

definition forward_play_request_to_backend ::
  "'m nenv \<Rightarrow> addr \<Rightarrow> 'm proxy \<Rightarrow> u32 \<Rightarrow> u32 \<Rightarrow> 'm nstate \<Rightarrow> bool \<times> 'm nstate" where
  "forward_play_request_to_backend E a px granted status st =
     (if status \<noteq> NGF_LONG \<and> status \<noteq> NGF_SHORT
      then (True, timeout_create a 0 (upd_proxy a (px_state_update (\<lambda>_. state_completed)) st))
      else (let (audio, vibra, leds, blight) = (if status = NGF_LONG then resource_flags_to_booleans E granted
                  else (True, False, False, False));
                mode = (if status = NGF_LONG then ''long'' else ''short'');
                limit = (if status = NGF_SHORT \<or> audio \<or> vibra \<or> blight then nf_play_limit st else 0)
            in case px_data px of
                 None \<Rightarrow> (False, st)
               | Some m \<Rightarrow>
                   if \<not> n_append E (nf_log st) m then (False, st)
                   else (let st1 = upd_proxy a (\<lambda>p. p\<lparr>px_resources := granted,
                                       px_state := state_forwarded, px_data := None\<rparr>)
                               (nf_note (Play_to (px_id px) (px_event px) mode limit audio vibra leds blight m) st)
                         in (True, if limit \<noteq> 0 then timeout_create a (nf_play_timeout st) st1 else st1))))"

definition forward_stop_request_to_backend :: "'m nenv \<Rightarrow> addr \<Rightarrow> 'm option \<Rightarrow> 'm nstate \<Rightarrow> 'm nstate" where
  "forward_stop_request_to_backend E a data st =
     upd_proxy a (px_state_update (\<lambda>_. state_stopped)) (forward_copy E Stop_copy data st)"

definition create_and_send_stop_request_to_backend :: "'m nenv \<Rightarrow> addr \<Rightarrow> 'm proxy \<Rightarrow> 'm nstate \<Rightarrow> 'm nstate" where
  "create_and_send_stop_request_to_backend E a px st =
     (if \<not> n_built E (nf_log st) then st
      else upd_proxy a (px_state_update (\<lambda>_. state_killed)) (nf_note (Stop_to (px_id px)) st))"

definition forward_pause_request_to_backend :: "'m nenv \<Rightarrow> 'm option \<Rightarrow> 'm nstate \<Rightarrow> 'm nstate" where
  "forward_pause_request_to_backend E data st = forward_copy E Stop_copy data st"

definition forward_status_to_client :: "'m nenv \<Rightarrow> addr \<Rightarrow> 'm proxy \<Rightarrow> 'm option \<Rightarrow> 'm nstate \<Rightarrow> 'm nstate" where
  "forward_status_to_client E a px data st =
     upd_proxy a (px_state_update (\<lambda>_. state_completed))
       (if px_client px = [] then st
        else timeout_create a (nf_stop_timeout st) (forward_copy E (Status_copy (px_client px)) data st))"

definition stop_if_loose_resources :: "'m nenv \<Rightarrow> addr \<Rightarrow> 'm proxy \<Rightarrow> u32 \<Rightarrow> 'm nstate \<Rightarrow> 'm nstate" where
  "stop_if_loose_resources E a px granted st =
     (if px_resources px \<noteq> 0 \<and> (granted = 0 \<or> px_resources px AND granted \<noteq> px_resources px)
      then upd_proxy a (px_state_update (\<lambda>_. state_stopped))
        (timeout_create a (nf_stop_timeout st)
          (if n_built E (nf_log st) then nf_note (Stop_to (px_id px)) st else st))
      else st)"

definition premature_stop :: "addr \<Rightarrow> 'm nstate \<Rightarrow> 'm nstate" where
  "premature_stop a st = timeout_create a 0 (upd_proxy a (px_state_update (\<lambda>_. state_completed)) st)"
subsection \<open>The state machine\<close>

definition destroyed :: "'m nenv \<Rightarrow> addr \<Rightarrow> 'm nstate \<Rightarrow> (bool \<times> 'm nstate) option" where
  "destroyed E a st = map_option (Pair True) (proxy_destroy E a st)"

text \<open>The result and the state; a proxy that is not there is a crash.\<close>

definition state_machine ::
  "'m nenv \<Rightarrow> addr \<Rightarrow> 'm proxy_event \<Rightarrow> 'm nstate \<Rightarrow> (bool \<times> 'm nstate) option" where
  "state_machine E a ev st =
     do {
       px \<leftarrow> nf_proxies st a;
       (case px_state px of
          state_created \<Rightarrow>
            (case ev of
               backend_timeout \<Rightarrow> destroyed E a (create_and_send_status_to_client E px (px_status px) st)
             | client_died \<Rightarrow> destroyed E a st
             | _ \<Rightarrow> Some (False, st))
        | state_acquiring \<Rightarrow>
            (case ev of
               resource_grant granted \<Rightarrow>
                 (let (status, st1) = play_status E px granted st;
                      st2 = create_and_send_status_to_client E px status st1;
                      (ok, st3) = forward_play_request_to_backend E a px granted status st2
                  in if ok then Some (True, st3)
                     else destroyed E a (create_and_send_status_to_client E px NGF_FAILED st3))
             | backend_timeout \<Rightarrow> destroyed E a (create_and_send_status_to_client E px NGF_COMPLETED st)
             | client_stop _ \<Rightarrow> Some (True, premature_stop a st)
             | client_died \<Rightarrow> destroyed E a st
             | _ \<Rightarrow> Some (False, st))
        | state_forwarded \<Rightarrow>
            (case ev of
               resource_grant granted \<Rightarrow> Some (True, stop_if_loose_resources E a px granted st)
             | backend_status data \<Rightarrow> destroyed E a (forward_status_to_client E a px data st)
             | backend_timeout \<Rightarrow> destroyed E a (create_and_send_status_to_client E px NGF_FAILED st)
             | client_stop data \<Rightarrow> Some (True, forward_stop_request_to_backend E a data st)
             | client_died \<Rightarrow> Some (True, create_and_send_stop_request_to_backend E a px st)
             | client_pause data \<Rightarrow> Some (True, forward_pause_request_to_backend E data st)
             | client_resume data \<Rightarrow> Some (True, forward_pause_request_to_backend E data st))
        | state_completed \<Rightarrow>
            (case ev of
               client_died \<Rightarrow> destroyed E a st
             | resource_grant _ \<Rightarrow> destroyed E a st
             | backend_timeout \<Rightarrow> destroyed E a st
             | _ \<Rightarrow> Some (False, st))
        | state_stopped \<Rightarrow>
            (case ev of
               backend_status data \<Rightarrow> destroyed E a (forward_status_to_client E a px data st)
             | client_died \<Rightarrow> destroyed E a st
             | backend_timeout \<Rightarrow> destroyed E a st
             | _ \<Rightarrow> Some (False, st))
        | state_killed \<Rightarrow>
            (case ev of
               backend_status _ \<Rightarrow> destroyed E a st
             | backend_timeout \<Rightarrow> destroyed E a st
             | _ \<Rightarrow> Some (False, st)))
     }"

definition timeout_handler :: "'m nenv \<Rightarrow> addr \<Rightarrow> 'm nstate \<Rightarrow> 'm nstate option" where
  "timeout_handler E a st =
     map_option snd (state_machine E a backend_timeout (upd_proxy a (px_timeout_update (\<lambda>_. 0)) st))"

definition proxy_grant_handler :: "'m nenv \<Rightarrow> u32 \<Rightarrow> u32 \<Rightarrow> 'm nstate \<Rightarrow> 'm nstate option" where
  "proxy_grant_handler E granted proxid st =
     (case id_hash_lookup proxid st of
        None \<Rightarrow> Some st
      | Some a \<Rightarrow> map_option snd (state_machine E a (resource_grant granted) st))"

text \<open>
  The handler of a grant of the manager.  A grant of the request that is under way is passed to the
  callback in the branch of the regular set, and once more after it.
\<close>

definition grant_handler :: "'m nenv \<Rightarrow> nat \<Rightarrow> u32 \<Rightarrow> u32 \<Rightarrow> 'm nstate \<Rightarrow> 'm nstate option" where
  "grant_handler E i reqno resrc st =
     (let rs = nf_sets st i in
      if \<not> rs_connected rs \<or> rs_reqno rs \<noteq> reqno then Some st
      else (let st1 = upd_set i (\<lambda>rs.
                  if resrc = 0 then rs\<lparr>rs_reqno := 0, rs_flags := resrc, rs_acquire := False,
                    rs_grant := None, rs_users := 0\<rparr>
                  else rs\<lparr>rs_reqno := 0, rs_flags := resrc\<rparr>) st
            in case rs_grant rs of
                 None \<Rightarrow> Some st1
               | Some proxid \<Rightarrow>
                   do {
                     st2 \<leftarrow> proxy_grant_handler E (rs_flags (nf_sets st1 i)) proxid st1;
                     proxy_grant_handler E (rs_flags (nf_sets st2 i)) proxid st2
                   }))"

definition fake_grant_handler :: "'m nenv \<Rightarrow> nat \<Rightarrow> u32 \<Rightarrow> u32 \<Rightarrow> 'm nstate \<Rightarrow> 'm nstate option" where
  "fake_grant_handler E i flags proxid st =
     (if rs_connected (nf_sets st i) then proxy_grant_handler E flags proxid st else Some st)"

subsection \<open>Requests\<close>

definition DBUS_DESCBUF_LEN :: nat where "DBUS_DESCBUF_LEN = 512"

definition strncpy_desc :: "string \<Rightarrow> string" where
  "strncpy_desc s = take (DBUS_DESCBUF_LEN - 1) s"

definition rule_args :: "(string \<times> char) list" where
  "rule_args = [(''type'', CHR ''i''), (''event'', CHR ''s''), (''error'', CHR ''s''),
     (''mandatory'', CHR ''i''), (''optional'', CHR ''i''), (''allow_multiple'', CHR ''i''),
     (''proclaimer'', CHR ''s'')]"

definition int_of_value :: "rvalue option \<Rightarrow> int" where
  "int_of_value v = (case v of Some (RInteger i) \<Rightarrow> i | _ \<Rightarrow> 0)"

definition string_of_value :: "rvalue option \<Rightarrow> cstring" where
  "string_of_value v = (case v of Some (RString s) \<Rightarrow> Some s | _ \<Rightarrow> None)"

text \<open>What the rules say of a request: rejected with a message, or accepted with the type, the
  event, the mandatory and the optional resources, whether several are allowed, and the proclaimer
  action.\<close>

datatype request_verdict = Rejected string | Accepted int string u32 u32 u32 string

definition evaluate_notification_request_rules :: "'m nenv \<Rightarrow> string \<Rightarrow> 'm nstate \<Rightarrow> request_verdict \<times> 'm nstate" where
  "evaluate_notification_request_rules E what st =
     (let ((success, vals), st1) = ruleif_notification_request E what rule_args st;
          error = (if length vals > 2 then string_of_value (vals ! 2) else None)
      in (if \<not> success \<or> int_of_value (vals ! 0) < 0
          then Rejected (strncpy_desc (case error of Some e \<Rightarrow> e | None \<Rightarrow> ''policy rejects play request''))
          else Accepted (int_of_value (vals ! 0)) (strncpy_desc (the (string_of_value (vals ! 1))))
            (word_of_int (int_of_value (vals ! 3))) (word_of_int (int_of_value (vals ! 4)))
            (word_of_int (int_of_value (vals ! 5))) (strncpy_desc (the (string_of_value (vals ! 6)))),
          st1))"

text \<open>The result of a request and the description of the error, if it writes one.\<close>

definition with_owner ::
  "'m nenv \<Rightarrow> u32 \<Rightarrow> string \<Rightarrow> string \<Rightarrow> 'm proxy_event \<Rightarrow> 'm nstate \<Rightarrow> ((bool \<times> cstring) \<times> 'm nstate) option" where
  "with_owner E i client refusal ev st =
     (case id_hash_lookup i st of
        None \<Rightarrow> Some ((False, Some ''can't find corresponding play request''), st)
      | Some a \<Rightarrow>
          do {
            px \<leftarrow> nf_proxies st a;
            (if client \<noteq> px_client px
             then Some ((False, Some ''requests is from diferrent client''), st)
             else do {
               (ok, st1) \<leftarrow> state_machine E a ev st;
               Some ((ok, if ok then None else Some refusal), st1)
             })
          })"

definition proxy_stop_request ::
  "'m nenv \<Rightarrow> u32 \<Rightarrow> string \<Rightarrow> 'm option \<Rightarrow> 'm nstate \<Rightarrow> ((bool \<times> cstring) \<times> 'm nstate) option" where
  "proxy_stop_request E i client data st =
     with_owner E i client ''can't accept in the current stage'' (client_stop data) st"

definition proxy_pause_request ::
  "'m nenv \<Rightarrow> u32 \<Rightarrow> bool \<Rightarrow> string \<Rightarrow> 'm option \<Rightarrow> 'm nstate \<Rightarrow> ((bool \<times> cstring) \<times> 'm nstate) option" where
  "proxy_pause_request E i pause client data st =
     with_owner E i client ''can't accept in the current stage''
       (if pause then client_pause data else client_resume data) st"

text \<open>The proxies of a type are stopped in the order of their creation.\<close>

fun stop_type :: "'m nenv \<Rightarrow> int \<Rightarrow> addr list \<Rightarrow> 'm nstate \<Rightarrow> 'm nstate option" where
  "stop_type E ty [] st = Some st"
| "stop_type E ty (a # as) st =
     do {
       px \<leftarrow> nf_proxies st a;
       (if px_type px = ty
        then do {
          (_, st1) \<leftarrow> proxy_stop_request E (px_id px) (px_client px)
            (if n_built E (nf_log st) then Some (n_create_stop E (px_id px)) else None) st;
          stop_type E ty as st1
        }
        else stop_type E ty as st)
     }"

definition proxy_stop_ringtone_request :: "'m nenv \<Rightarrow> 'm nstate \<Rightarrow> 'm nstate option" where
  "proxy_stop_ringtone_request E st = stop_type E rset_ringtone (nf_sqlist st) st"

definition proclaimer_handle_action :: "'m nenv \<Rightarrow> string \<Rightarrow> 'm nstate \<Rightarrow> 'm nstate option" where
  "proclaimer_handle_action E action st =
     (if take 6 action = ''cancel'' then stop_type E rset_proclaimer (nf_sqlist st) st else Some st)"

text \<open>\<open>proxy_playback_request\<close>: the id, 0 if it failed, and the description of the error.\<close>

definition start_playback ::
  "'m nenv \<Rightarrow> string \<Rightarrow> 'm \<Rightarrow> int \<Rightarrow> string \<Rightarrow> u32 \<Rightarrow> u32 \<Rightarrow> u32 \<Rightarrow> string \<Rightarrow> proxy_state \<Rightarrow> u32 \<Rightarrow>
    string \<Rightarrow> 'm nstate \<Rightarrow> ((u32 \<times> string) \<times> 'm nstate) option" where
  "start_playback E client data ty event mand opt allow_multiple proclaimer state status err st =
     do {
       st1 \<leftarrow> proclaimer_handle_action E proclaimer st;
       (let proxid = NOTIFICATION_ID regular_id (nf_seqno st1)
        in case proxy_create E proxid client data st1 of
             (None, st2) \<Rightarrow> Some ((0, ''internal proxy error''), st2)
           | (Some a, st2) \<Rightarrow>
               (let st3 = upd_proxy a (\<lambda>p. p\<lparr>px_type := ty, px_event := Some event,
                       px_state := state, px_status := status\<rparr>) st2;
                    (ok, st4) = (if mand OR opt = 0 then (True, timeout_create a 0 st3)
                       else resource_set_acquire E ty mand opt allow_multiple proxid st3)
                in if ok then Some ((proxid, err), st4\<lparr>nf_seqno := nf_seqno st4 + 1\<rparr>)
                   else do {
                     st5 \<leftarrow> proxy_destroy E a st4;
                     Some ((0, ''recource acquisition failed''), st5)
                   }))
     }"

definition proxy_playback_request ::
  "'m nenv \<Rightarrow> string \<Rightarrow> string \<Rightarrow> 'm \<Rightarrow> 'm nstate \<Rightarrow> ((u32 \<times> string) \<times> 'm nstate) option" where
  "proxy_playback_request E what client data st =
     (case evaluate_notification_request_rules E what st of
        (Accepted ty event mand opt allow_multiple proclaimer, st1) \<Rightarrow>
          start_playback E client data ty event mand opt allow_multiple proclaimer
            state_acquiring NGF_COMPLETED [] st1
      | (Rejected err, st1) \<Rightarrow>
          if err = ''Busy''
          then start_playback E client data (-1) [] 0 0 0 (n_stack E (nf_log st1)) state_created NGF_BUSY err st1
          else Some ((0, err), st1))"

definition proxy_status_request :: "'m nenv \<Rightarrow> u32 \<Rightarrow> 'm option \<Rightarrow> 'm nstate \<Rightarrow> (bool \<times> 'm nstate) option" where
  "proxy_status_request E i data st =
     (case id_hash_lookup i st of
        None \<Rightarrow> Some (False, st)
      | Some a \<Rightarrow> map_option (\<lambda>(_, st1). (True, st1)) (state_machine E a (backend_status data) st))"
subsection \<open>Clients and the backend that go away\<close>

text \<open>
  The loops return \<open>Some\<close> of the state they leave, or \<open>Some None\<close> when they follow a proxy that
  was freed; a loop that would not end is \<open>None\<close>.
\<close>

partial_function (option) client_down_loop ::
  "'m nenv \<Rightarrow> string \<Rightarrow> addr option \<Rightarrow> 'm nstate \<Rightarrow> 'm nstate option option" where
  "client_down_loop E client cur st =
     (case cl_hash_lookup_proxy client cur st of
        None \<Rightarrow> Some None
      | Some None \<Rightarrow> Some (Some st)
      | Some (Some a) \<Rightarrow>
          (case state_machine E a client_died st of
             None \<Rightarrow> Some None
           | Some (_, st1) \<Rightarrow> client_down_loop E client (Some a) st1))"

definition proxy_client_is_down :: "'m nenv \<Rightarrow> string \<Rightarrow> 'm nstate \<Rightarrow> 'm nstate option option" where
  "proxy_client_is_down E client st = client_down_loop E client None st"

text \<open>The chains of the ids from the \<open>i\<close>th on; a chain is emptied before the next one.\<close>

partial_function (option) backend_down_loop :: "'m nenv \<Rightarrow> nat \<Rightarrow> 'm nstate \<Rightarrow> 'm nstate option option" where
  "backend_down_loop E i st =
     (if i \<ge> ID_HASH_DIM then Some (Some st)
      else case nf_idtbl st i of
             [] \<Rightarrow> backend_down_loop E (i + 1) st
           | a # _ \<Rightarrow>
               (case timeout_handler E a (timeout_destroy a st) of
                  None \<Rightarrow> Some None
                | Some st1 \<Rightarrow> backend_down_loop E i st1))"

definition proxy_backend_is_down :: "'m nenv \<Rightarrow> 'm nstate \<Rightarrow> 'm nstate option option" where
  "proxy_backend_is_down E st = backend_down_loop E 0 st"

subsection \<open>The D-Bus interface\<close>

definition DBUS_NGF_ERROR_FORMAT :: string where "DBUS_NGF_ERROR_FORMAT = ''com.nokia.Error.MessageFormat''"
definition DBUS_NGF_ERROR_INTERNAL :: string where "DBUS_NGF_ERROR_INTERNAL = ''com.nokia.Error.Failed''"
definition DBUS_NGF_ERROR_DENIED :: string where "DBUS_NGF_ERROR_DENIED = ''com.nokia.Error.RequestDenied''"
definition DBUS_NGF_ERROR_NO_BACKEND :: string where
  "DBUS_NGF_ERROR_NO_BACKEND = ''com.nokia.Error.ServiceUnknown''"
definition DBUS_NGF_ERROR_BACKEND_METHOD :: string where
  "DBUS_NGF_ERROR_BACKEND_METHOD = ''com.nokia.Error.BackendMethod''"
definition DBUS_NGF_INTERFACE :: string where "DBUS_NGF_INTERFACE = ''com.nokia.NonGraphicFeedback1''"
definition DBUS_NGF_BACKEND_SERVICE :: string where
  "DBUS_NGF_BACKEND_SERVICE = ''com.nokia.NonGraphicFeedback1.Backend''"

text \<open>The arguments of a message as far as the handlers read them, and a message that was received.\<close>

datatype darg = DString string | DUint u32 | DBool bool | DOther

record 'm call =
  cl_is_call :: bool
  cl_interface :: cstring
  cl_member :: cstring
  cl_sender :: string
  cl_noreply :: bool
  cl_args :: "darg list"
  cl_msg :: 'm

definition reply_with_error :: "'m nenv \<Rightarrow> 'm \<Rightarrow> string \<Rightarrow> string \<Rightarrow> 'm nstate \<Rightarrow> 'm nstate" where
  "reply_with_error E msg err desc st =
     (let err' = (if err = [] then DBUS_NGF_ERROR_INTERNAL else err);
          desc' = (if desc = [] then ''general error'' else desc)
      in if n_built E (nf_log st) then nf_note (Reply_err msg err' desc') st else st)"

definition reply_with_id :: "'m nenv \<Rightarrow> 'm \<Rightarrow> u32 \<Rightarrow> 'm nstate \<Rightarrow> 'm nstate" where
  "reply_with_id E msg i st = (if n_built E (nf_log st) then nf_note (Reply_id msg i) st else st)"

definition reply_empty :: "'m call \<Rightarrow> 'm nstate \<Rightarrow> 'm nstate" where
  "reply_empty c st = (if cl_noreply c then st else nf_note (Reply_empty (cl_msg c)) st)"

text \<open>A handler returns the id to reply with, or 0 with the name and the description of the error.\<close>

definition handler_result ::
  "((bool \<times> cstring) \<times> 'm nstate) option \<Rightarrow> ((u32 \<times> string \<times> string) \<times> 'm nstate) option" where
  "handler_result r = map_option (\<lambda>((ok, err), st).
     (if ok then (1, [], []) else (0, DBUS_NGF_ERROR_DENIED, case err of None \<Rightarrow> [] | Some e \<Rightarrow> e), st)) r"

definition play_handler ::
  "'m nenv \<Rightarrow> 'm call \<Rightarrow> 'm nstate \<Rightarrow> ((u32 \<times> string \<times> string) \<times> 'm nstate) option" where
  "play_handler E c st =
     (case cl_args c of
        DString what # _ \<Rightarrow>
          map_option (\<lambda>((i, err), st1). ((i, if i = 0 then DBUS_NGF_ERROR_DENIED else [], err), st1))
            (proxy_playback_request E what (cl_sender c) (cl_msg c) st)
      | _ \<Rightarrow> Some ((0, DBUS_NGF_ERROR_FORMAT, ''can't obtain event from request''), st))"

definition stop_handler ::
  "'m nenv \<Rightarrow> 'm call \<Rightarrow> 'm nstate \<Rightarrow> ((u32 \<times> string \<times> string) \<times> 'm nstate) option" where
  "stop_handler E c st =
     (case cl_args c of
        DUint i # _ \<Rightarrow> handler_result (proxy_stop_request E i (cl_sender c) (Some (cl_msg c)) st)
      | _ \<Rightarrow> Some ((0, DBUS_NGF_ERROR_FORMAT, ''can't obtain id from request''), st))"

definition pause_handler ::
  "'m nenv \<Rightarrow> 'm call \<Rightarrow> 'm nstate \<Rightarrow> ((u32 \<times> string \<times> string) \<times> 'm nstate) option" where
  "pause_handler E c st =
     (case cl_args c of
        DUint i # DBool pause # _ \<Rightarrow>
          handler_result (proxy_pause_request E i pause (cl_sender c) (Some (cl_msg c)) st)
      | _ \<Rightarrow> Some ((0, DBUS_NGF_ERROR_FORMAT, ''can't obtain id or pause flag from request''), st))"

definition stop_ringtone_handler ::
  "'m nenv \<Rightarrow> 'm call \<Rightarrow> 'm nstate \<Rightarrow> ((u32 \<times> string \<times> string) \<times> 'm nstate) option" where
  "stop_ringtone_handler E c st = map_option (Pair (1, [], [])) (proxy_stop_ringtone_request E st)"

definition status_handler :: "'m nenv \<Rightarrow> 'm call \<Rightarrow> 'm nstate \<Rightarrow> 'm nstate option" where
  "status_handler E c st =
     (case cl_args c of
        DUint i # _ \<Rightarrow>
          if NOTIFICATION_TYPE i = regular_id
          then map_option snd (proxy_status_request E i (Some (cl_msg c)) st) else Some st
      | _ \<Rightarrow> Some st)"

text \<open>The table of \<open>proxy_method\<close>.\<close>

definition client_handlers ::
  "(string \<times> ('m nenv \<Rightarrow> 'm call \<Rightarrow> 'm nstate \<Rightarrow> ((u32 \<times> string \<times> string) \<times> 'm nstate) option)) list" where
  "client_handlers = [(''Play'', play_handler), (''Stop'', stop_handler), (''Pause'', pause_handler),
     (''StopRingtone'', stop_ringtone_handler)]"

definition client_method ::
  "'m nenv \<Rightarrow> ('m nenv \<Rightarrow> 'm call \<Rightarrow> 'm nstate \<Rightarrow> ((u32 \<times> string \<times> string) \<times> 'm nstate) option) \<Rightarrow>
    'm call \<Rightarrow> 'm nstate \<Rightarrow> 'm nstate option" where
  "client_method E f c st =
     (if nf_backend st = None
      then Some (reply_with_error E (cl_msg c) DBUS_NGF_ERROR_NO_BACKEND ''backend is not running'' st)
      else map_option (\<lambda>((i, err, desc), st1).
             if i = 0 then reply_with_error E (cl_msg c) err desc st1 else reply_with_id E (cl_msg c) i st1)
           (f E c st))"

text \<open>Whether the message was handled, and the state.\<close>

definition proxy_method :: "'m nenv \<Rightarrow> 'm call \<Rightarrow> 'm nstate \<Rightarrow> (bool \<times> 'm nstate) option" where
  "proxy_method E c st =
     (case (cl_interface c, cl_member c) of
        (Some iface, Some member) \<Rightarrow>
          if \<not> cl_is_call c \<or> iface \<noteq> DBUS_NGF_INTERFACE then Some (False, st)
          else (case map_of client_handlers member of
                  Some f \<Rightarrow> map_option (Pair True) (client_method E f c st)
                | None \<Rightarrow>
                    if member \<noteq> ''Status'' then Some (False, st)
                    else map_option (Pair True)
                           (if nf_backend st \<noteq> Some (cl_sender c)
                            then Some (reply_with_error E (cl_msg c) DBUS_NGF_ERROR_BACKEND_METHOD
                                   ''only backend can send this message'' st)
                            else map_option (reply_empty c) (status_handler E c st)))
      | _ \<Rightarrow> Some (False, st))"

text \<open>The answer to \<open>GetNameOwner\<close>, which counts until the first signal.\<close>

definition name_queried :: "darg list option \<Rightarrow> 'm nstate \<Rightarrow> 'm nstate" where
  "name_queried answer st =
     (case answer of
        Some (DString owner # _) \<Rightarrow> if nf_namesig st then st else st\<lparr>nf_backend := Some owner\<rparr>
      | _ \<Rightarrow> st)"

definition owner_changed :: "'m nenv \<Rightarrow> darg list \<Rightarrow> 'm nstate \<Rightarrow> 'm nstate option option" where
  "owner_changed E args st =
     (case args of
        DString sender # DString before # DString after # _ \<Rightarrow>
          if sender = DBUS_NGF_BACKEND_SERVICE
          then (let st1 = st\<lparr>nf_namesig := True\<rparr>
                in if after \<noteq> [] then Some (Some (st1\<lparr>nf_backend := Some after\<rparr>))
                   else proxy_backend_is_down E (st1\<lparr>nf_backend := None\<rparr>))
          else if after = [] then proxy_client_is_down E sender st
          else Some (Some st)
      | _ \<Rightarrow> Some (Some st))"

subsection \<open>Everything that can happen\<close>

datatype 'm nevent =
    Method "'m call"
  | Name_changed "darg list"
  | Name_queried "darg list option"
  | Grant nat u32 u32
  | Conn nat int
  | Fire nat

text \<open>A source that fires returns \<open>FALSE\<close>: it is removed.\<close>

definition fire :: "'m nenv \<Rightarrow> nat \<Rightarrow> 'm nstate \<Rightarrow> 'm nstate option" where
  "fire E i st =
     (case map_of (nf_sources st) i of
        None \<Rightarrow> Some st
      | Some (Timeout_src a _) \<Rightarrow> timeout_handler E a (remove_source i st)
      | Some (Fake_grant k flags proxid) \<Rightarrow> fake_grant_handler E k flags proxid (remove_source i st))"

fun notif_step :: "'m nenv \<Rightarrow> 'm nevent \<Rightarrow> 'm nstate \<Rightarrow> 'm nstate option option" where
  "notif_step E (Method c) st = Some (map_option snd (proxy_method E c st))"
| "notif_step E (Name_changed args) st = owner_changed E args st"
| "notif_step E (Name_queried answer) st = Some (Some (name_queried answer st))"
| "notif_step E (Grant i reqno resrc) st = Some (grant_handler E i reqno resrc st)"
| "notif_step E (Conn i errcod) st = Some (Some (conn_status E i errcod st))"
| "notif_step E (Fire i) st = Some (fire E i st)"

definition no_set :: nset where
  "no_set = \<lparr>rs_connected = False, rs_acquire = False, rs_reqno = 0, rs_flags = 0,
     rs_grant = None, rs_events = [], rs_users = 0\<rparr>"

definition notif_start :: "'m nenv \<Rightarrow> cstring \<Rightarrow> 'm nstate" where
  "notif_start E limit = connect_to_manager E (proxy_init limit
     \<lparr>nf_proxies = (\<lambda>_. None), nf_nalloc = 1, nf_idtbl = (\<lambda>_. []), nf_cltbl = (\<lambda>_. []), nf_sqlist = [],
      nf_seqno = 1, nf_play_limit = 0, nf_play_timeout = 0, nf_stop_timeout = 0,
      nf_sets = (\<lambda>_. no_set), nf_reqno = 0, nf_sources = [], nf_nsource = 1,
      nf_notreq = -1, nf_notevnt = -1, nf_notplsh = -1, nf_backend = None, nf_namesig = False,
      nf_log = []\<rparr>)"

inductive notif_reach :: "'m nenv \<Rightarrow> cstring \<Rightarrow> 'm nstate \<Rightarrow> bool" for E limit where
  start: "notif_reach E limit (notif_start E limit)"
| step: "notif_reach E limit st \<Longrightarrow> notif_step E ev st = Some (Some st') \<Longrightarrow> notif_reach E limit st'"
end
