(* ===== verification/Notif_Inv.thy ===== *)
theory Notif_Inv
  imports Notif Option_Post
begin

text \<open>
  The invariant of the notification plugin.  \<open>tables_ok\<close> says that the list of all proxies and the
  chains of the two hash tables hold exactly the live proxies, each once, on the chain of its key.
  \<open>timers_ok\<close> says that the timers of the main loop and the live proxies that wait for one belong
  together one to one.  Every operation keeps both, and fails on no proxy that is live.
\<close>

subsection \<open>The invariant\<close>

definition on_chain :: "addr list \<Rightarrow> (addr \<Rightarrow> bool) \<Rightarrow> bool" where
  "on_chain xs P \<longleftrightarrow> distinct xs \<and> (\<forall>a. a \<in> set xs \<longleftrightarrow> P a)"

definition px_key :: "'m nstate \<Rightarrow> addr \<Rightarrow> (u32 \<times> string) option" where
  "px_key st a = map_option (\<lambda>px. (px_id px, px_client px)) (nf_proxies st a)"

definition px_timer :: "'m nstate \<Rightarrow> addr \<Rightarrow> nat" where
  "px_timer st a = (case nf_proxies st a of None \<Rightarrow> 0 | Some px \<Rightarrow> px_timeout px)"

definition id_chain :: "'m nstate \<Rightarrow> nat \<Rightarrow> addr \<Rightarrow> bool" where
  "id_chain st i a \<longleftrightarrow> (case px_key st a of None \<Rightarrow> False | Some (x, _) \<Rightarrow> ID_HASH_INDEX x = i)"

definition cl_chain :: "'m nstate \<Rightarrow> nat \<Rightarrow> addr \<Rightarrow> bool" where
  "cl_chain st i a \<longleftrightarrow> (case px_key st a of None \<Rightarrow> False | Some (_, c) \<Rightarrow> cl_hash_index c = i)"

definition tables_ok :: "'m nstate \<Rightarrow> bool" where
  "tables_ok st \<longleftrightarrow>
     (\<forall>a. px_key st a \<noteq> None \<longrightarrow> a < nf_nalloc st) \<and>
     on_chain (nf_sqlist st) (\<lambda>a. px_key st a \<noteq> None) \<and>
     (\<forall>i. on_chain (nf_idtbl st i) (id_chain st i)) \<and>
     (\<forall>i. on_chain (nf_cltbl st i) (cl_chain st i))"

definition timers_ok :: "'m nstate \<Rightarrow> bool" where
  "timers_ok st \<longleftrightarrow>
     0 < nf_nsource st \<and> distinct (map fst (nf_sources st)) \<and>
     (\<forall>i x. (i, x) \<in> set (nf_sources st) \<longrightarrow> 0 < i \<and> i < nf_nsource st) \<and>
     (\<forall>i a d. (i, Timeout_src a d) \<in> set (nf_sources st) \<longrightarrow> px_timer st a = i) \<and>
     (\<forall>a. px_timer st a \<noteq> 0 \<longrightarrow> (\<exists>d. (px_timer st a, Timeout_src a d) \<in> set (nf_sources st)))"

definition notif_ok :: "'m nstate \<Rightarrow> bool" where
  "notif_ok st \<longleftrightarrow> tables_ok st \<and> timers_ok st"

lemma on_chain_remove1:
  "on_chain xs P \<Longrightarrow> on_chain (remove1 a xs) (\<lambda>b. P b \<and> b \<noteq> a)"
  by (auto simp: on_chain_def)

lemma on_chain_add: "on_chain xs P \<Longrightarrow> \<not> P a \<Longrightarrow> on_chain (a # xs) (\<lambda>b. P b \<or> b = a)"
  "on_chain xs P \<Longrightarrow> \<not> P a \<Longrightarrow> on_chain (xs @ [a]) (\<lambda>b. P b \<or> b = a)"
  by (auto simp: on_chain_def)

lemma on_chain_not: "on_chain xs P \<Longrightarrow> \<not> P a \<Longrightarrow> on_chain xs (\<lambda>b. P b \<and> b \<noteq> a)"
  by (auto simp: on_chain_def)

lemma on_chain_cong: "(\<And>a. P a = Q a) \<Longrightarrow> on_chain xs P = on_chain xs Q"
  by (simp add: on_chain_def)

lemma map_option_eq_None: "map_option f x = map_option g y \<Longrightarrow> (x = None) = (y = None)"
  by (cases x; cases y) simp_all

text \<open>What the invariant depends on.\<close>

definition nf_shape :: "'m nstate \<Rightarrow> (addr \<Rightarrow> ((u32 \<times> string) \<times> nat) option) \<times> addr \<times> (nat \<Rightarrow> addr list) \<times>
    (nat \<Rightarrow> addr list) \<times> addr list \<times> (nat \<times> nsource) list \<times> nat" where
  "nf_shape st = (\<lambda>a. map_option (\<lambda>px. ((px_id px, px_client px), px_timeout px)) (nf_proxies st a),
     nf_nalloc st, nf_idtbl st, nf_cltbl st, nf_sqlist st, nf_sources st, nf_nsource st)"

lemma px_key_shape: "px_key st a = map_option fst (fst (nf_shape st) a)"
  by (simp add: px_key_def nf_shape_def option.map_comp comp_def)

lemma px_timer_shape: "px_timer st a = (case fst (nf_shape st) a of None \<Rightarrow> 0 | Some (_, i) \<Rightarrow> i)"
  by (simp add: px_timer_def nf_shape_def split: option.split)

lemma shape_fields:
  assumes "nf_shape st' = nf_shape st"
  shows "px_key st' = px_key st" "px_timer st' = px_timer st"
    "id_chain st' = id_chain st" "cl_chain st' = cl_chain st" "nf_nalloc st' = nf_nalloc st"
    "nf_idtbl st' = nf_idtbl st" "nf_cltbl st' = nf_cltbl st" "nf_sqlist st' = nf_sqlist st"
    "nf_sources st' = nf_sources st" "nf_nsource st' = nf_nsource st"
    "\<And>a. (nf_proxies st' a = None) = (nf_proxies st a = None)"
proof -
  show key: "px_key st' = px_key st" and "px_timer st' = px_timer st"
    using assms by (simp_all add: fun_eq_iff px_key_shape px_timer_shape)
  show "id_chain st' = id_chain st" "cl_chain st' = cl_chain st"
    by (simp_all add: fun_eq_iff id_chain_def cl_chain_def key)
  show "(nf_proxies st' a = None) = (nf_proxies st a = None)" for a
    using fun_cong [OF key, of a] unfolding px_key_def by (rule map_option_eq_None)
  show "nf_nalloc st' = nf_nalloc st" "nf_idtbl st' = nf_idtbl st" "nf_cltbl st' = nf_cltbl st"
    "nf_sqlist st' = nf_sqlist st" "nf_sources st' = nf_sources st" "nf_nsource st' = nf_nsource st"
    using assms unfolding nf_shape_def prod.inject by blast+
qed

lemma shape_ok: "nf_shape st' = nf_shape st \<Longrightarrow> notif_ok st' = notif_ok st"
  unfolding notif_ok_def tables_ok_def timers_ok_def by (simp only: shape_fields [of st' st])

subsection \<open>Operations that leave the tables and the timers alone\<close>

named_theorems shape_keeps \<open>operations that keep \<open>nf_shape\<close>\<close>

lemma shape_upd_proxy:
  "(\<And>px. px_id (f px) = px_id px \<and> px_client (f px) = px_client px \<and> px_timeout (f px) = px_timeout px) \<Longrightarrow>
    nf_shape (upd_proxy a f st) = nf_shape st"
  by (auto simp: nf_shape_def upd_proxy_def fun_eq_iff option.map_comp comp_def)

lemma shape_basic [shape_keeps]:
  "nf_shape (nf_note x st) = nf_shape st"
  "nf_shape (upd_set i g st) = nf_shape st"
  "nf_shape (next_reqno st) = nf_shape st"
  "nf_shape (upd_proxy a (px_state_update h) st) = nf_shape st"
  by (simp_all add: shape_upd_proxy) (simp_all add: nf_shape_def nf_note_def upd_set_def next_reqno_def)

lemma shape_rules [shape_keeps]:
  "nf_shape (snd (notif_lookup_rules E st)) = nf_shape st"
  "nf_shape (snd (ruleif_notification_request E what args st)) = nf_shape st"
  "nf_shape (snd (ruleif_notification_events E i st)) = nf_shape st"
  "nf_shape (snd (ruleif_notification_play_short E i st)) = nf_shape st"
  by (simp_all add: nf_shape_def notif_lookup_rules_def ruleif_notification_request_def
      ruleif_notification_events_def ruleif_notification_play_short_def Let_def)

lemma shape_release [shape_keeps]: "nf_shape (snd (resource_set_release E ty i st)) = nf_shape st"
  by (simp add: resource_set_release_def Let_def shape_keeps)

lemma shape_messages [shape_keeps]:
  "nf_shape (snd (acquire_messages E i mand opt proxid st)) = nf_shape st"
  by (simp add: acquire_messages_def Let_def shape_keeps split: prod.split)

lemma shape_conn [shape_keeps]: "nf_shape (conn_status E i errcod st) = nf_shape st"
  by (simp add: conn_status_def split_beta shape_keeps split: option.split)

lemma shape_play_status [shape_keeps]: "nf_shape (snd (play_status E px granted st)) = nf_shape st"
  by (simp add: play_status_def split_beta shape_keeps split: option.split)

lemma shape_evaluate [shape_keeps]:
  "nf_shape (snd (evaluate_notification_request_rules E what st)) = nf_shape st"
  by (simp add: evaluate_notification_request_rules_def Let_def split_beta shape_keeps)

lemma shape_messages_out [shape_keeps]:
  "nf_shape (create_and_send_status_to_client E px status st) = nf_shape st"
  "nf_shape (forward_copy E f data st) = nf_shape st"
  by (simp_all add: create_and_send_status_to_client_def forward_copy_def shape_keeps split: option.split)

lemma shape_forward [shape_keeps]:
  "nf_shape (forward_stop_request_to_backend E a data st) = nf_shape st"
  "nf_shape (create_and_send_stop_request_to_backend E a px st) = nf_shape st"
  "nf_shape (forward_pause_request_to_backend E data st) = nf_shape st"
  by (simp_all add: forward_stop_request_to_backend_def create_and_send_stop_request_to_backend_def
      forward_pause_request_to_backend_def shape_keeps)

lemma shape_replies [shape_keeps]:
  "nf_shape (reply_with_error E msg err desc st) = nf_shape st"
  "nf_shape (reply_with_id E msg i st) = nf_shape st"
  "nf_shape (reply_empty c st) = nf_shape st"
  by (simp_all add: reply_with_error_def reply_with_id_def reply_empty_def Let_def shape_keeps)
subsection \<open>Timers\<close>

lemma tables_frame:
  assumes "px_key st' = px_key st" "nf_nalloc st' = nf_nalloc st" "nf_idtbl st' = nf_idtbl st"
    "nf_cltbl st' = nf_cltbl st" "nf_sqlist st' = nf_sqlist st"
  shows "tables_ok st' = tables_ok st"
proof -
  have "id_chain st' = id_chain st" "cl_chain st' = cl_chain st"
    by (simp_all add: fun_eq_iff id_chain_def cl_chain_def assms(1))
  then show ?thesis
    unfolding tables_ok_def by (simp only: assms)
qed

lemma timers_bound: "timers_ok st \<Longrightarrow> (i, x) \<in> set (nf_sources st) \<Longrightarrow> 0 < i \<and> i < nf_nsource st"
  and timers_source: "timers_ok st \<Longrightarrow> (i, Timeout_src a d) \<in> set (nf_sources st) \<Longrightarrow> px_timer st a = i"
  and timers_distinct: "timers_ok st \<Longrightarrow> distinct (map fst (nf_sources st))"
  and timers_pos: "timers_ok st \<Longrightarrow> 0 < nf_nsource st"
  unfolding timers_ok_def by blast+

lemma timers_pending:
  "timers_ok st \<Longrightarrow> px_timer st a \<noteq> 0 \<Longrightarrow> \<exists>d. (px_timer st a, Timeout_src a d) \<in> set (nf_sources st)"
  unfolding timers_ok_def by blast

lemma timers_remove:
  assumes ok: "timers_ok st" and timer: "px_timer st' = (px_timer st)(a := 0)"
    and src: "nf_sources st' = filter (\<lambda>(j, _). j \<noteq> px_timer st a) (nf_sources st)"
    and ns: "nf_nsource st' = nf_nsource st"
  shows "timers_ok st'"
proof -
  have uniq: "x = y" if "(i, x) \<in> set (nf_sources st)" "(i, y) \<in> set (nf_sources st)" for i x y
    using timers_distinct [OF ok] that by (rule eq_key_imp_eq_value)
  have mem: "(i, x) \<in> set (nf_sources st') \<longleftrightarrow> (i, x) \<in> set (nf_sources st) \<and> i \<noteq> px_timer st a" for i x
    by (auto simp: src)
  have "distinct (map fst (nf_sources st'))"
    using ok by (simp add: src timers_ok_def distinct_map_filter)
  moreover have "px_timer st' b = i" if "(i, Timeout_src b d) \<in> set (nf_sources st')" for i b d
    using ok that unfolding mem timers_ok_def timer by auto
  moreover have "\<exists>d. (px_timer st' b, Timeout_src b d) \<in> set (nf_sources st')" if "px_timer st' b \<noteq> 0" for b
  proof -
    have b: "b \<noteq> a" "px_timer st' b = px_timer st b" "px_timer st b \<noteq> 0"
      using that by (simp_all add: timer split: if_splits)
    then obtain d where d: "(px_timer st b, Timeout_src b d) \<in> set (nf_sources st)"
      using timers_pending [OF ok] by blast
    have "px_timer st b \<noteq> px_timer st a"
    proof
      assume eq: "px_timer st b = px_timer st a"
      then obtain d' where "(px_timer st b, Timeout_src a d') \<in> set (nf_sources st)"
        using timers_pending [OF ok, of a] b by auto
      from uniq [OF d this] b show False by simp
    qed
    with d show ?thesis unfolding mem b by blast
  qed
  ultimately show ?thesis
    using ok unfolding timers_ok_def ns mem by blast
qed

lemma timers_add:
  assumes ok: "timers_ok st" and idle: "px_timer st a = 0"
    and timer: "px_timer st' = (px_timer st)(a := nf_nsource st)"
    and src: "nf_sources st' = nf_sources st @ [(nf_nsource st, Timeout_src a d)]"
    and ns: "nf_nsource st' = nf_nsource st + 1"
  shows "timers_ok st'"
proof -
  have mem: "(i, x) \<in> set (nf_sources st') \<longleftrightarrow>
      (i, x) \<in> set (nf_sources st) \<or> i = nf_nsource st \<and> x = Timeout_src a d" for i x
    by (auto simp: src)
  have bounds: "0 < i \<and> i < nf_nsource st" if "(i, x) \<in> set (nf_sources st)" for i x
    using timers_bound [OF ok that] .
  have "(nf_nsource st, x) \<notin> set (nf_sources st)" for x
    using bounds [of "nf_nsource st" x] by blast
  then have "distinct (map fst (nf_sources st'))"
    using timers_distinct [OF ok] by (auto simp: src)
  moreover have "0 < i \<and> i < nf_nsource st'" if "(i, x) \<in> set (nf_sources st')" for i x
    using that bounds [of i x] timers_pos [OF ok] unfolding mem ns by auto
  moreover have "px_timer st' b = i" if "(i, Timeout_src b e) \<in> set (nf_sources st')" for i b e
    using that timers_source [OF ok, of i b e] idle bounds [of i "Timeout_src b e"] unfolding mem timer by auto
  moreover have "\<exists>e. (px_timer st' b, Timeout_src b e) \<in> set (nf_sources st')" if "px_timer st' b \<noteq> 0" for b
    using that timers_pending [OF ok, of b] unfolding mem timer by (cases "b = a") auto
  ultimately show ?thesis
    unfolding timers_ok_def by (simp add: ns)
qed

lemma timers_no_timer:
  assumes ok: "timers_ok st" and timer: "px_timer st' = px_timer st"
    and src: "\<And>i a d. (i, Timeout_src a d) \<in> set (nf_sources st') \<longleftrightarrow> (i, Timeout_src a d) \<in> set (nf_sources st)"
    and d: "distinct (map fst (nf_sources st'))" and ns: "nf_nsource st \<le> nf_nsource st'"
    and bounds: "\<And>i x. (i, x) \<in> set (nf_sources st') \<Longrightarrow> 0 < i \<and> i < nf_nsource st'"
  shows "timers_ok st'"
  using ok d ns bounds unfolding timers_ok_def timer src by (meson dual_order.strict_trans1)

lemma timeout_destroy_fields [simp]:
  "px_key (timeout_destroy a st) = px_key st"
  "nf_nalloc (timeout_destroy a st) = nf_nalloc st"
  "nf_idtbl (timeout_destroy a st) = nf_idtbl st"
  "nf_cltbl (timeout_destroy a st) = nf_cltbl st"
  "nf_sqlist (timeout_destroy a st) = nf_sqlist st"
  "nf_nsource (timeout_destroy a st) = nf_nsource st"
  "px_timer (timeout_destroy a st) = (px_timer st)(a := 0)"
  "(nf_proxies (timeout_destroy a st) b = None) = (nf_proxies st b = None)"
  by (auto simp: timeout_destroy_def px_key_def px_timer_def upd_proxy_def remove_source_def fun_eq_iff
      split: option.split)

lemma timeout_destroy_ok:
  assumes "notif_ok st"
  shows "notif_ok (timeout_destroy a st)"
proof -
  have "nf_sources (timeout_destroy a st) = filter (\<lambda>(j, _). j \<noteq> px_timer st a) (nf_sources st)"
  proof (cases "px_timer st a = 0")
    case True
    then have "nf_sources (timeout_destroy a st) = nf_sources st"
      by (simp add: timeout_destroy_def px_timer_def split: option.splits)
    moreover have "filter (\<lambda>(j, _). j \<noteq> px_timer st a) (nf_sources st) = nf_sources st"
      using assms True by (intro filter_True) (auto simp: notif_ok_def timers_ok_def)
    ultimately show ?thesis by simp
  qed (simp add: timeout_destroy_def px_timer_def upd_proxy_def remove_source_def split: option.splits)
  then have "timers_ok (timeout_destroy a st)"
    using assms timers_remove by (metis notif_ok_def timeout_destroy_fields(6,7))
  then show ?thesis
    using assms tables_frame [of "timeout_destroy a st" st] by (simp add: notif_ok_def)
qed

lemma timeout_create_fields [simp]:
  "px_key (timeout_create a d st) = px_key st"
  "nf_nalloc (timeout_create a d st) = nf_nalloc st"
  "nf_idtbl (timeout_create a d st) = nf_idtbl st"
  "nf_cltbl (timeout_create a d st) = nf_cltbl st"
  "nf_sqlist (timeout_create a d st) = nf_sqlist st"
  "(nf_proxies (timeout_create a d st) b = None) = (nf_proxies st b = None)"
  by (auto simp: timeout_create_def px_key_def upd_proxy_def add_source_def fun_eq_iff Let_def
      timeout_destroy_def remove_source_def split: option.split)

lemma timeout_create_ok:
  assumes ok: "notif_ok st" and live: "nf_proxies st a \<noteq> None"
  shows "notif_ok (timeout_create a d st)"
proof -
  let ?s = "timeout_destroy a st"
  have s: "timers_ok ?s" using timeout_destroy_ok [OF ok, of a] by (simp add: notif_ok_def)
  have p: "nf_proxies (timeout_create a d st) =
      (nf_proxies ?s)(a := map_option (px_timeout_update (\<lambda>_. nf_nsource st)) (nf_proxies ?s a))"
    by (simp add: timeout_create_def add_source_def upd_proxy_def)
  have "timers_ok (timeout_create a d st)"
  proof (rule timers_add [OF s])
    show "px_timer ?s a = 0" by simp
    have "nf_proxies ?s a \<noteq> None" using live by simp
    then show "px_timer (timeout_create a d st) = (px_timer ?s)(a := nf_nsource ?s)"
      by (auto simp: fun_eq_iff px_timer_def p simp del: timeout_destroy_fields(7) split: option.split)
  qed (simp_all add: timeout_create_def add_source_def upd_proxy_def)
  then show ?thesis
    using ok tables_frame [of "timeout_create a d st" st] by (simp add: notif_ok_def)
qed
subsection \<open>Creation and destruction of proxies\<close>

lemma shape_cong:
  assumes "nf_shape st' = nf_shape st" and "notif_ok st"
  shows "notif_ok st'"
  using shape_ok [OF assms(1)] assms(2) by simp

lemma shape_live: "nf_shape st' = nf_shape st \<Longrightarrow> nf_proxies st a \<noteq> None \<Longrightarrow> nf_proxies st' a \<noteq> None"
  using shape_fields(11) [of st' st a] by simp

lemma tables_free: "tables_ok st \<Longrightarrow> px_key st (nf_nalloc st) = None"
  unfolding tables_ok_def by blast

lemma tables_insert:
  assumes ok: "tables_ok st" and key: "px_key st' = (px_key st)(nf_nalloc st \<mapsto> (i, c))"
    and n: "nf_nalloc st' = nf_nalloc st + 1" and sq: "nf_sqlist st' = nf_sqlist st @ [nf_nalloc st]"
    and idt: "nf_idtbl st' = (nf_idtbl st)(ID_HASH_INDEX i := nf_nalloc st # nf_idtbl st (ID_HASH_INDEX i))"
    and clt: "nf_cltbl st' = (nf_cltbl st)(cl_hash_index c := nf_nalloc st # nf_cltbl st (cl_hash_index c))"
  shows "tables_ok st'"
proof -
  let ?a = "nf_nalloc st"
  have free: "px_key st ?a = None"
    using tables_free [OF ok] .
  have "on_chain (nf_sqlist st') (\<lambda>a. px_key st' a \<noteq> None)"
    using on_chain_add(2) [of "nf_sqlist st" "\<lambda>a. px_key st a \<noteq> None" ?a] ok free
    by (simp add: tables_ok_def sq key on_chain_def)
  moreover have "on_chain (nf_idtbl st' j) (id_chain st' j)" for j
    using on_chain_add(1) [of "nf_idtbl st j" "id_chain st j" ?a] ok free
    by (auto simp: tables_ok_def idt key on_chain_def id_chain_def)
  moreover have "on_chain (nf_cltbl st' j) (cl_chain st' j)" for j
    using on_chain_add(1) [of "nf_cltbl st j" "cl_chain st j" ?a] ok free
    by (auto simp: tables_ok_def clt key on_chain_def cl_chain_def)
  moreover have "a < nf_nalloc st'" if "px_key st' a \<noteq> None" for a
  proof (cases "a = ?a")
    case False
    then have "a < ?a" using that ok unfolding tables_ok_def key by simp
    then show ?thesis by (simp add: n)
  qed (simp add: n)
  ultimately show ?thesis unfolding tables_ok_def by blast
qed

lemma tables_delete:
  assumes ok: "tables_ok st" and a: "px_key st a = Some (i, c)" and key: "px_key st' = (px_key st)(a := None)"
    and n: "nf_nalloc st' = nf_nalloc st" and sq: "nf_sqlist st' = remove1 a (nf_sqlist st)"
    and idt: "nf_idtbl st' = (nf_idtbl st)(ID_HASH_INDEX i := remove1 a (nf_idtbl st (ID_HASH_INDEX i)))"
    and clt: "nf_cltbl st' = (nf_cltbl st)(cl_hash_index c := remove1 a (nf_cltbl st (cl_hash_index c)))"
  shows "tables_ok st'"
proof -
  have "on_chain (nf_sqlist st') (\<lambda>a. px_key st' a \<noteq> None)"
    using on_chain_remove1 [of "nf_sqlist st" "\<lambda>a. px_key st a \<noteq> None" a] ok
    by (simp add: tables_ok_def sq key on_chain_def)
  moreover have "on_chain (nf_idtbl st' j) (id_chain st' j)" for j
    using on_chain_remove1 [of "nf_idtbl st j" "id_chain st j" a] ok a
    by (auto simp: tables_ok_def idt key on_chain_def id_chain_def)
  moreover have "on_chain (nf_cltbl st' j) (cl_chain st' j)" for j
    using on_chain_remove1 [of "nf_cltbl st j" "cl_chain st j" a] ok a
    by (auto simp: tables_ok_def clt key on_chain_def cl_chain_def)
  moreover have "a < nf_nalloc st'" if "px_key st' a \<noteq> None" for a
    using ok that unfolding tables_ok_def key n by (metis fun_upd_apply)
  ultimately show ?thesis unfolding tables_ok_def by blast
qed

lemma proxy_create_fields:
  assumes "proxy_create E i c d st = (Some a, st')"
  shows "a = nf_nalloc st" "nf_proxies st' a \<noteq> None" "px_key st' = (px_key st)(a \<mapsto> (i, c))"
    "px_timer st' = (px_timer st)(a := 0)" "nf_nalloc st' = a + 1" "nf_sqlist st' = nf_sqlist st @ [a]"
    "nf_idtbl st' = (nf_idtbl st)(ID_HASH_INDEX i := a # nf_idtbl st (ID_HASH_INDEX i))"
    "nf_cltbl st' = (nf_cltbl st)(cl_hash_index c := a # nf_cltbl st (cl_hash_index c))"
    "nf_sources st' = nf_sources st" "nf_nsource st' = nf_nsource st"
  using assms by (auto simp: proxy_create_def Let_def nf_note_def sq_list_add_def cl_hash_add_def
      id_hash_add_def px_key_def px_timer_def fun_eq_iff split: if_splits)

lemma proxy_create_ok:
  assumes ok: "notif_ok st" and r: "proxy_create E i c d st = (Some a, st')"
  shows "notif_ok st' \<and> nf_proxies st' a \<noteq> None"
proof -
  note f = proxy_create_fields [OF r]
  from ok have t: "tables_ok st" and m: "timers_ok st" by (simp_all add: notif_ok_def)
  have "px_timer st a = 0"
    using tables_free [OF t] by (simp add: px_key_def px_timer_def f(1))
  then have timer: "px_timer st' = px_timer st"
    using f(4) by (simp add: fun_upd_idem)
  have "tables_ok st'"
    by (rule tables_insert [OF t]) (use f in simp_all)
  moreover have "timers_ok st'"
    using m unfolding timers_ok_def timer f(9) f(10) .
  ultimately show ?thesis using f(2) by (simp add: notif_ok_def)
qed

lemma proxy_create_None: "proxy_create E i c d st = (None, st') \<Longrightarrow> st' = st"
  by (simp add: proxy_create_def Let_def split: if_splits)
lemma timeout_destroy_other: "b \<noteq> a \<Longrightarrow> nf_proxies (timeout_destroy a st) b = nf_proxies st b"
  by (simp add: timeout_destroy_def upd_proxy_def remove_source_def split: option.split)

lemma release_proxies [simp]:
  "nf_proxies (snd (resource_set_release E ty i st)) = nf_proxies st"
  by (simp add: resource_set_release_def Let_def upd_set_def nf_note_def next_reqno_def)

lemma proxy_destroy_fields:
  assumes px: "nf_proxies st a = Some px" and r: "proxy_destroy E a st = Some st'"
  shows "nf_proxies st' = (nf_proxies (timeout_destroy a st))(a := None)"
    "nf_nalloc st' = nf_nalloc st" "nf_sqlist st' = remove1 a (nf_sqlist st)"
    "nf_idtbl st' = (nf_idtbl st)(ID_HASH_INDEX (px_id px) := remove1 a (nf_idtbl st (ID_HASH_INDEX (px_id px))))"
    "nf_cltbl st' = (nf_cltbl st)(cl_hash_index (px_client px) :=
       remove1 a (nf_cltbl st (cl_hash_index (px_client px))))"
    "nf_sources st' = nf_sources (timeout_destroy a st)" "nf_nsource st' = nf_nsource st"
proof -
  define s where "s = nf_note (Monitor (px_client px) False) (sq_list_delete a (cl_hash_delete a (px_client px)
    (id_hash_delete a (px_id px) (timeout_destroy a st))))"
  define s3 where "s3 = snd (resource_set_release E (px_type px) (px_id px) s)"
  have st': "st' = s3\<lparr>nf_proxies := (nf_proxies s3)(a := None)\<rparr>"
    using r px by (simp add: proxy_destroy_def s_def s3_def Let_def)
  have eq: "nf_shape s3 = nf_shape s"
    by (simp add: s3_def shape_keeps)
  note f = shape_fields(5-10) [OF eq]
  have p: "nf_proxies s3 = nf_proxies s" by (simp add: s3_def)
  note d = s_def nf_note_def sq_list_delete_def cl_hash_delete_def id_hash_delete_def
  show "nf_proxies st' = (nf_proxies (timeout_destroy a st))(a := None)"
    "nf_nalloc st' = nf_nalloc st" "nf_sqlist st' = remove1 a (nf_sqlist st)"
    "nf_idtbl st' = (nf_idtbl st)(ID_HASH_INDEX (px_id px) := remove1 a (nf_idtbl st (ID_HASH_INDEX (px_id px))))"
    "nf_cltbl st' = (nf_cltbl st)(cl_hash_index (px_client px) :=
       remove1 a (nf_cltbl st (cl_hash_index (px_client px))))"
    "nf_sources st' = nf_sources (timeout_destroy a st)" "nf_nsource st' = nf_nsource st"
    by (simp_all add: st' p f) (simp_all add: d)
qed

lemma proxy_destroy_None [simp]: "(proxy_destroy E a st = None) = (nf_proxies st a = None)"
  by (cases "nf_proxies st a") (simp_all add: proxy_destroy_def Let_def)

lemma proxy_destroy_ok:
  assumes ok: "notif_ok st" and r: "proxy_destroy E a st = Some st'"
  shows "notif_ok st'"
proof -
  obtain px where px: "nf_proxies st a = Some px"
    using r proxy_destroy_None [of E a st] by fastforce
  note f = proxy_destroy_fields [OF px r]
  let ?s = "timeout_destroy a st"
  have s: "notif_ok ?s" by (rule timeout_destroy_ok [OF ok])
  have key: "px_key st' = (px_key ?s)(a := None)"
    unfolding fun_eq_iff px_key_def f(1) by simp
  have mine: "px_key ?s a = Some (px_id px, px_client px)"
    by (subst timeout_destroy_fields(1)) (simp add: px_key_def px)
  have timer: "px_timer st' = px_timer ?s"
  proof
    show "px_timer st' b = px_timer ?s b" for b
      by (cases "b = a") (simp_all add: px_timer_def f(1) timeout_destroy_other)
  qed
  have "tables_ok st'"
    by (rule tables_delete [of ?s a "px_id px" "px_client px"])
      (use s key mine f in \<open>simp_all add: notif_ok_def\<close>)
  moreover have "timers_ok st'"
    using s unfolding notif_ok_def timers_ok_def timer f(6) f(7) timeout_destroy_fields(6) by blast
  ultimately show ?thesis by (simp add: notif_ok_def)
qed
subsection \<open>The state machine\<close>

definition live :: "'m nstate \<Rightarrow> addr \<Rightarrow> bool" where
  "live st a \<longleftrightarrow> nf_proxies st a \<noteq> None"

lemma live_timeout [simp]: "live (timeout_create a d st) b = live st b" "live (timeout_destroy a st) b = live st b"
  by (simp_all only: live_def timeout_create_fields timeout_destroy_fields not_not)

lemma live_shape: "nf_shape st' = nf_shape st \<Longrightarrow> live st a \<Longrightarrow> live st' a"
  unfolding live_def by (rule shape_live)

lemma timer_ok: "notif_ok st \<Longrightarrow> live st a \<Longrightarrow> notif_ok (timeout_create a d st)"
  unfolding live_def by (rule timeout_create_ok)

abbreviation lands_ok :: "(bool \<times> 'm nstate) option \<Rightarrow> bool" where
  "lands_ok m \<equiv> returns (\<lambda>(_, st'). notif_ok st') m"

lemma destroyed_ok: "notif_ok st \<Longrightarrow> live st a \<Longrightarrow> lands_ok (destroyed E a st)"
  using proxy_destroy_ok [of st E a] proxy_destroy_None [of E a st]
  by (cases "proxy_destroy E a st") (simp_all add: destroyed_def live_def)

lemma forward_play_ok:
  assumes ok: "notif_ok st" and a: "live st a"
    and r: "forward_play_request_to_backend E a px granted status st = (res, st')"
  shows "notif_ok st' \<and> live st' a"
proof -
  have 1: "notif_ok (timeout_create a 0 (upd_proxy a (px_state_update h) st))" for h
    by (rule timer_ok [OF shape_cong [OF shape_basic(4) ok] live_shape [OF shape_basic(4) a]])
  let ?s = "\<lambda>x. upd_proxy a (\<lambda>p. p\<lparr>px_resources := granted, px_state := state_forwarded, px_data := None\<rparr>)
    (nf_note x st)"
  have sh: "nf_shape (?s x) = nf_shape st" for x
    by (subst shape_upd_proxy) (simp_all add: shape_keeps)
  have 2: "notif_ok (?s x)" "live (?s x) a" for x
    by (rule shape_cong [OF sh ok], rule live_shape [OF sh a])
  have 3: "notif_ok (timeout_create a d (?s x))" for d x
    by (rule timer_ok [OF 2])
  have 4: "live (upd_proxy a (px_state_update h) st) a" for h
    by (rule live_shape [OF shape_basic(4) a])
  have "notif_ok (snd (forward_play_request_to_backend E a px granted status st)) \<and>
      live (snd (forward_play_request_to_backend E a px granted status st)) a"
    using 1 2 3 4 ok a
    by (simp add: forward_play_request_to_backend_def Let_def split_beta split: option.split)
  then show ?thesis by (simp add: r)
qed

lemma forward_status_ok:
  assumes "notif_ok st" and "live st a"
  shows "notif_ok (forward_status_to_client E a px data st) \<and> live (forward_status_to_client E a px data st) a"
proof -
  have "notif_ok (timeout_create a d (forward_copy E f data st))" for d f
    by (rule timer_ok [OF shape_cong [OF shape_messages_out(2) assms(1)] live_shape [OF shape_messages_out(2) assms(2)]])
  moreover have "live (timeout_create a d (forward_copy E f data st)) a" for d f
    using live_shape [OF shape_messages_out(2) assms(2)] by simp
  ultimately show ?thesis
    unfolding forward_status_to_client_def
    by (intro conjI shape_cong [OF shape_basic(4)] live_shape [OF shape_basic(4)]) (simp_all add: assms)
qed

lemma stop_loose_ok:
  assumes "notif_ok st" and "live st a"
  shows "notif_ok (stop_if_loose_resources E a px granted st)"
proof -
  let ?s = "if n_built E (nf_log st) then nf_note (Stop_to (px_id px)) st else st"
  have sh: "nf_shape ?s = nf_shape st" by (simp add: shape_keeps)
  have "notif_ok (timeout_create a d ?s)" for d
    by (rule timer_ok [OF shape_cong [OF sh assms(1)] live_shape [OF sh assms(2)]])
  from shape_cong [OF shape_basic(4) this]
  show ?thesis
    unfolding stop_if_loose_resources_def using assms(1) by (simp only: if_split simp_thms)
qed

lemma premature_ok: "notif_ok st \<Longrightarrow> live st a \<Longrightarrow> notif_ok (premature_stop a st)"
  unfolding premature_stop_def
  by (rule timer_ok [OF shape_cong [OF shape_basic(4)] live_shape [OF shape_basic(4)]])

lemma state_machine_ok:
  assumes ok: "notif_ok st" and a: "live st a"
  shows "lands_ok (state_machine E a ev st)"
proof -
  obtain px where px: "nf_proxies st a = Some px" using a unfolding live_def by blast
  have status: "lands_ok (destroyed E a (create_and_send_status_to_client E px s st'))"
    if "notif_ok st'" "live st' a" for st' s
    by (rule destroyed_ok [OF shape_cong [OF shape_messages_out(1) that(1)] live_shape [OF shape_messages_out(1) that(2)]])
  have fwd: "lands_ok (destroyed E a (forward_status_to_client E a px data st))" for data
    using forward_status_ok [OF assms] destroyed_ok by blast
  have grant: "lands_ok (if fst r then Some (True, snd r)
      else destroyed E a (create_and_send_status_to_client E px NGF_FAILED (snd r)))"
    if "r = forward_play_request_to_backend E a px granted (fst p) (create_and_send_status_to_client E px (fst p) (snd p))"
      "p = play_status E px granted st" for r p granted
  proof -
    have sh: "nf_shape (create_and_send_status_to_client E px (fst p) (snd p)) = nf_shape st"
      by (simp add: that(2) shape_keeps)
    have "notif_ok (snd r) \<and> live (snd r) a"
      by (rule forward_play_ok [OF shape_cong [OF sh ok] live_shape [OF sh a]])
        (use that(1) in \<open>simp add: prod_eq_iff\<close>)
    then show ?thesis using status by simp
  qed
  note k = shape_cong [OF shape_forward(1) ok] shape_cong [OF shape_forward(2) ok] shape_cong [OF shape_forward(3) ok]
  note facts = ok status [OF assms] fwd destroyed_ok [OF assms] stop_loose_ok [OF assms] premature_ok [OF assms] k
  show ?thesis
  proof (cases "px_state px")
    case state_acquiring
    then show ?thesis
      using facts grant by (cases ev) (simp_all add: state_machine_def px split_beta Let_def)
  qed (use facts in \<open>cases ev; simp add: state_machine_def px\<close>)+
qed
subsection \<open>Timeouts and grants\<close>

abbreviation ok_after :: "'m nstate option \<Rightarrow> bool" where
  "ok_after m \<equiv> returns notif_ok m"

lemma state_machine_snd:
  "notif_ok st \<Longrightarrow> live st a \<Longrightarrow> ok_after (map_option snd (state_machine E a ev st))"
  using state_machine_ok [of st a E ev] by (simp add: case_prod_unfold)

lemma zero_timer:
  assumes "px_timer st a = 0"
  shows "upd_proxy a (px_timeout_update (\<lambda>_. 0)) st = st"
proof -
  have "map_option (px_timeout_update (\<lambda>_. 0)) (nf_proxies st a) = nf_proxies st a"
    using assms by (cases "nf_proxies st a") (simp_all add: px_timer_def)
  then show ?thesis by (simp add: upd_proxy_def)
qed

lemma timeout_destroyed:
  "timeout_handler E a (timeout_destroy a st) =
     map_option snd (state_machine E a backend_timeout (timeout_destroy a st))"
  by (simp add: timeout_handler_def zero_timer)

lemma timeout_fired:
  assumes "timers_ok st" and "(i, Timeout_src a d) \<in> set (nf_sources st)"
  shows "timeout_handler E a (remove_source i st) = timeout_handler E a (timeout_destroy a st)" "live st a"
proof -
  have i: "px_timer st a = i" "i \<noteq> 0"
    using timers_source [OF assms] timers_bound [OF assms] by simp_all
  then show "live st a" by (auto simp: px_timer_def live_def split: option.splits)
  have eq: "upd_proxy a (px_timeout_update (\<lambda>_. 0)) (remove_source i st) = timeout_destroy a st"
    using i by (auto simp: px_timer_def timeout_destroy_def split: option.splits)
  show "timeout_handler E a (remove_source i st) = timeout_handler E a (timeout_destroy a st)"
    by (simp add: timeout_handler_def eq zero_timer)
qed

lemma timeout_ok: "notif_ok st \<Longrightarrow> live st a \<Longrightarrow> ok_after (timeout_handler E a (timeout_destroy a st))"
  unfolding timeout_destroyed by (rule state_machine_snd) (simp_all add: timeout_destroy_ok)

lemma id_lookup_live: "id_hash_lookup i st = Some a \<Longrightarrow> live st a"
  by (auto simp: id_hash_lookup_def find_Some_iff live_def)

lemma proxy_grant_ok: "notif_ok st \<Longrightarrow> ok_after (proxy_grant_handler E granted proxid st)"
  using state_machine_snd [OF _ id_lookup_live]
  by (auto simp: proxy_grant_handler_def simp del: returns_map_option split: option.split)

lemma grant_handler_ok:
  assumes "notif_ok st"
  shows "ok_after (grant_handler E i reqno resrc st)"
proof -
  have ok: "notif_ok (upd_set i f st)" for f
    by (rule shape_cong [OF shape_basic(2) assms])
  show ?thesis
    unfolding grant_handler_def Let_def
    using assms ok by (auto split: option.split intro!: returns_bind [OF proxy_grant_ok] proxy_grant_ok)
qed

lemma remove_fake_ok:
  assumes "notif_ok st" and i: "(i, Fake_grant k f p) \<in> set (nf_sources st)"
  shows "notif_ok (remove_source i st)"
proof -
  have d: "distinct (map fst (nf_sources st))" and t: "timers_ok st"
    using assms timers_distinct by (auto simp: notif_ok_def)
  have "timers_ok (remove_source i st)"
  proof (rule timers_no_timer [OF t])
    show "px_timer (remove_source i st) = px_timer st"
      by (simp add: fun_eq_iff px_timer_def remove_source_def)
    show "((j, Timeout_src a e) \<in> set (nf_sources (remove_source i st))) =
        ((j, Timeout_src a e) \<in> set (nf_sources st))" for j a e
      using eq_key_imp_eq_value [OF d i] by (auto simp: remove_source_def)
  qed (use d timers_bound [OF t] in \<open>auto simp: remove_source_def distinct_map_filter\<close>)
  moreover have "tables_ok (remove_source i st) = tables_ok st"
    by (rule tables_frame) (simp_all add: remove_source_def px_key_def fun_eq_iff)
  ultimately show ?thesis
    using assms(1) by (simp add: notif_ok_def)
qed

lemma fire_ok:
  assumes ok: "notif_ok st"
  shows "ok_after (fire E i st)"
proof (cases "map_of (nf_sources st) i")
  case (Some x)
  note mem = map_of_SomeD [OF Some]
  show ?thesis
  proof (cases x)
    case (Timeout_src a d)
    with mem ok timeout_fired(1) [of st i a d E] timeout_fired(2) [of st i a d] show ?thesis
      using timeout_ok [OF ok, of a E] by (simp add: fire_def Some notif_ok_def)
  next
    case (Fake_grant k f p)
    with mem have "notif_ok (remove_source i st)"
      using remove_fake_ok [OF ok] by blast
    then show ?thesis
      using proxy_grant_ok [of "remove_source i st" E] by (simp add: fire_def Some Fake_grant fake_grant_handler_def)
  qed
qed (simp add: fire_def ok)

subsection \<open>Requests\<close>

lemma fake_create_ok:
  assumes "notif_ok st"
  shows "notif_ok (fake_grant_create i flags proxid st)"
proof -
  let ?s = "fake_grant_create i flags proxid st"
  have t: "timers_ok st" using assms by (simp add: notif_ok_def)
  have free: "(nf_nsource st, x) \<notin> set (nf_sources st)" for x
    using timers_bound [OF t, of "nf_nsource st" x] by blast
  have src: "nf_sources ?s = nf_sources st @ [(nf_nsource st, Fake_grant i flags proxid)]"
    "nf_nsource ?s = nf_nsource st + 1"
    by (simp_all add: fake_grant_create_def add_source_def)
  have "timers_ok ?s"
  proof (rule timers_no_timer [OF t])
    show "px_timer ?s = px_timer st"
      by (simp add: fun_eq_iff px_timer_def fake_grant_create_def add_source_def)
    show "distinct (map fst (nf_sources ?s))"
      using timers_distinct [OF t] free by (auto simp: src)
    show "0 < j \<and> j < nf_nsource ?s" if "(j, x) \<in> set (nf_sources ?s)" for j x
      using that timers_bound [OF t, of j x] timers_pos [OF t] by (auto simp: src)
  qed (simp_all add: src)
  moreover have "tables_ok ?s = tables_ok st"
    by (rule tables_frame) (simp_all add: fake_grant_create_def add_source_def px_key_def fun_eq_iff)
  ultimately show ?thesis
    using assms by (simp add: notif_ok_def)
qed
lemma acquire_ok:
  assumes "notif_ok st" and "resource_set_acquire E ty mand opt multi proxid st = (ok, st')"
  shows "notif_ok st' \<and> (\<forall>b. live st b \<longrightarrow> live st' b)"
proof -
  have fake: "notif_ok (fake_grant_create i f p st)" "live (fake_grant_create i f p st) b = live st b" for i f p b
    using fake_create_ok [OF assms(1)] by (simp_all add: fake_grant_create_def add_source_def live_def)
  have msg: "notif_ok (snd (acquire_messages E i mand opt proxid st))"
      "live st b \<Longrightarrow> live (snd (acquire_messages E i mand opt proxid st)) b" for i b
    by (rule shape_cong [OF shape_messages assms(1)], rule live_shape [OF shape_messages])
  have set: "notif_ok s \<Longrightarrow> notif_ok (upd_set i f s)" "live (upd_set i f s) b = live s b" for i f s b
    using shape_ok [OF shape_basic(2) [of i f s]] by (simp_all add: live_def upd_set_def)
  have "notif_ok (snd (resource_set_acquire E ty mand opt multi proxid st)) \<and>
      (\<forall>b. live st b \<longrightarrow> live (snd (resource_set_acquire E ty mand opt multi proxid st)) b)"
    using fake msg assms(1) by (simp add: resource_set_acquire_def Let_def split_beta set)
  then show ?thesis by (simp add: assms(2))
qed

lemma client_stop_live:
  assumes "state_machine E a (client_stop data) st = Some (r, st')"
  shows "live st' b = live st b"
proof -
  obtain px where px: "nf_proxies st a = Some px"
    using assms by (cases "nf_proxies st a") (auto simp: state_machine_def)
  have fields: "live (upd_proxy a f st) b = live st b" for f
    by (simp add: live_def upd_proxy_def)
  have stop: "live (forward_stop_request_to_backend E a data st) b = live st b"
    using shape_fields(11) [OF shape_forward(1) [of E a data st], of b] by (simp add: live_def)
  show ?thesis
    using assms stop by (cases "px_state px") (auto simp: state_machine_def px premature_stop_def fields)
qed

text \<open>A stop request leaves every proxy where it is; the other requests keep the invariant.\<close>

definition keeps_live :: "'m nstate \<Rightarrow> 'm nstate \<Rightarrow> bool" where
  "keeps_live st st' \<longleftrightarrow> notif_ok st' \<and> (\<forall>b. live st b \<longrightarrow> live st' b)"

lemma with_owner_ok:
  assumes ok: "notif_ok st"
  shows "returns (\<lambda>(_, st'). notif_ok st') (with_owner E i client refusal ev st)"
proof (cases "id_hash_lookup i st")
  case (Some a)
  note a = id_lookup_live [OF Some]
  then obtain px where px: "nf_proxies st a = Some px" by (auto simp: live_def)
  from state_machine_ok [OF ok a, of E ev] obtain r st' where
    "state_machine E a ev st = Some (r, st')" "notif_ok st'"
    by (rule returnsE) auto
  then show ?thesis using ok by (simp add: with_owner_def Some px)
qed (simp add: with_owner_def ok)

lemma stop_request_ok:
  assumes ok: "notif_ok st"
  shows "returns (\<lambda>(_, st'). keeps_live st st') (proxy_stop_request E i client data st)"
proof -
  have "live st' b" if "with_owner E i client refusal (client_stop data) st = Some (r, st')" "live st b" for r st' b refusal
    using that client_stop_live [of E _ data st _ st' b]
    by (auto simp: with_owner_def split: option.splits if_splits bind_splits)
  then show ?thesis
    unfolding proxy_stop_request_def
    by (intro returns_mono [OF with_owner_ok [OF ok]]) (auto simp: keeps_live_def)
qed

lemma stop_type_ok:
  "notif_ok st \<Longrightarrow> \<forall>a \<in> set as. live st a \<Longrightarrow> returns (keeps_live st) (stop_type E ty as st)"
proof (induction "as" arbitrary: st)
  case (Cons a "as")
  then obtain px where px: "nf_proxies st a = Some px" by (auto simp: live_def)
  show ?case
  proof (cases "px_type px = ty")
    case True
    let ?r = "proxy_stop_request E (px_id px) (px_client px)
      (if n_built E (nf_log st) then Some (n_create_stop E (px_id px)) else None) st"
    from stop_request_ok [OF Cons.prems(1)] obtain r st1 where r: "?r = Some (r, st1)" and st1: "keeps_live st st1"
      by (rule returnsE) auto
    have "returns (keeps_live st1) (stop_type E ty as st1)"
      using Cons.prems st1 by (intro Cons.IH) (auto simp: keeps_live_def)
    then have "returns (keeps_live st) (stop_type E ty as st1)"
      by (rule returns_mono) (use st1 in \<open>simp add: keeps_live_def\<close>)
    then show ?thesis by (simp add: px True r)
  qed (use Cons px in simp)
qed (simp add: keeps_live_def)

lemma stop_all_ok:
  assumes "notif_ok st"
  shows "returns (keeps_live st) (stop_type E ty (nf_sqlist st) st)"
proof -
  have "\<forall>a \<in> set (nf_sqlist st). live st a"
    using assms by (auto simp: notif_ok_def tables_ok_def on_chain_def px_key_def live_def)
  with assms show ?thesis by (rule stop_type_ok)
qed

lemma start_playback_ok:
  assumes ok: "notif_ok st"
  shows "returns (\<lambda>(_, st'). notif_ok st')
    (start_playback E client data ty event mand opt multi proclaimer state status err st)"
proof -
  have "returns (keeps_live st) (proclaimer_handle_action E proclaimer st)"
    using stop_all_ok [OF ok] ok by (simp add: proclaimer_handle_action_def keeps_live_def)
  then obtain st1 where st1: "proclaimer_handle_action E proclaimer st = Some st1" "notif_ok st1"
    by (rule returnsE) (simp add: keeps_live_def)
  let ?id = "NOTIFICATION_ID regular_id (nf_seqno st1)"
  obtain res st2 where c: "proxy_create E ?id client data st1 = (res, st2)" by fastforce
  show ?thesis
  proof (cases res)
    case None
    have "notif_ok st2"
      using proxy_create_None [OF c [unfolded None]] st1(2) by simp
    then show ?thesis by (simp add: start_playback_def st1(1) c None Let_def)
  next
    case (Some a)
    let ?f = "\<lambda>p. p\<lparr>px_type := ty, px_event := Some event, px_state := state, px_status := status\<rparr>"
    have st2: "notif_ok st2" "live st2 a"
      using proxy_create_ok [OF st1(2)] c Some by (auto simp: live_def)
    have sh: "nf_shape (upd_proxy a ?f st2) = nf_shape st2" by (rule shape_upd_proxy) simp
    have st3: "notif_ok (upd_proxy a ?f st2)" "live (upd_proxy a ?f st2) a"
      by (rule shape_cong [OF sh st2(1)], rule live_shape [OF sh st2(2)])
    define r where "r = (if mand OR opt = 0 then (True, timeout_create a 0 (upd_proxy a ?f st2))
      else resource_set_acquire E ty mand opt multi ?id (upd_proxy a ?f st2))"
    have "notif_ok (snd r) \<and> live (snd r) a"
    proof (cases "mand OR opt = 0")
      case True
      then show ?thesis using timer_ok [OF st3, of 0] st3(2) by (simp add: r_def)
    next
      case False
      then have "resource_set_acquire E ty mand opt multi ?id (upd_proxy a ?f st2) = (fst r, snd r)"
        by (simp add: r_def)
      from acquire_ok [OF st3(1) this] st3(2) show ?thesis by blast
    qed
    then have r: "notif_ok (snd r)" "live (snd r) a" by blast+
    have seq: "notif_ok (snd r\<lparr>nf_seqno := n\<rparr>)" for n
      using r(1) shape_ok [of "snd r\<lparr>nf_seqno := n\<rparr>" "snd r"] by (simp add: nf_shape_def)
    obtain st5 where st5: "proxy_destroy E a (snd r) = Some st5"
      using r(2) proxy_destroy_None [of E a "snd r"] unfolding live_def by fastforce
    show ?thesis
      using seq proxy_destroy_ok [OF r(1) st5] st5
      by (simp add: start_playback_def st1 c Some Let_def r_def [symmetric] split_beta)
  qed
qed
subsection \<open>Clients and the backend that go away\<close>

text \<open>The proxies that the death of their client destroys.\<close>

definition dies_with_client :: "'m nstate \<Rightarrow> addr \<Rightarrow> bool" where
  "dies_with_client st a \<longleftrightarrow> (case nf_proxies st a of None \<Rightarrow> False
     | Some px \<Rightarrow> px_state px \<notin> {state_forwarded, state_killed})"

definition owned_by :: "string \<Rightarrow> 'm nstate \<Rightarrow> addr \<Rightarrow> bool" where
  "owned_by client st a \<longleftrightarrow> map_option px_client (nf_proxies st a) = Some client"

lemma client_died_destroys:
  assumes "dies_with_client st a" and "state_machine E a client_died st = Some (r, st')"
  shows "nf_proxies st' a = None"
proof -
  obtain px where px: "nf_proxies st a = Some px"
    using assms(1) by (auto simp: dies_with_client_def split: option.splits)
  have "proxy_destroy E a st = Some st'"
    using assms by (cases "px_state px") (auto simp: state_machine_def px dies_with_client_def destroyed_def)
  from proxy_destroy_fields(1) [OF px this] show ?thesis by simp
qed

lemma client_died_keeps:
  assumes a: "live st a" "\<not> dies_with_client st a" and r: "state_machine E a client_died st = Some (r, st')"
  shows "nf_shape st' = nf_shape st" "b \<noteq> a \<Longrightarrow> nf_proxies st' b = nf_proxies st b"
proof -
  obtain px where px: "nf_proxies st a = Some px" using a(1) by (auto simp: live_def)
  have st': "st' = st \<or> st' = create_and_send_stop_request_to_backend E a px st"
    using a(2) r by (cases "px_state px") (auto simp: state_machine_def px dies_with_client_def)
  then show "nf_shape st' = nf_shape st"
    using shape_forward(2) [of E a px st] by metis
  show "nf_proxies st' b = nf_proxies st b" if "b \<noteq> a"
    using st' that by (auto simp: create_and_send_stop_request_to_backend_def upd_proxy_def nf_note_def)
qed

lemma find_split:
  "find P xs = Some a \<Longrightarrow> \<exists>ys zs. xs = ys @ a # zs \<and> P a \<and> (\<forall>y \<in> set ys. \<not> P y)"
proof (induction xs)
  case (Cons x xs)
  show ?case
  proof (cases "P x")
    case False
    with Cons obtain ys zs where "xs = ys @ a # zs \<and> P a \<and> (\<forall>y \<in> set ys. \<not> P y)" by auto
    with False show ?thesis by (intro exI [of _ "x # ys"] exI [of _ zs]) simp
  qed (use Cons.prems in \<open>intro exI [of _ "[]"] exI [of _ xs], simp\<close>)
qed simp

lemma client_down_run:
  assumes "notif_ok st" and "nf_cltbl st (cl_hash_index client) = pre @ xs"
    and "cl_hash_lookup_proxy client cur st = Some (find (owned_by client st) xs)"
  shows "returns (\<lambda>r. (r = None \<longleftrightarrow> (\<exists>a \<in> set xs. owned_by client st a \<and> dies_with_client st a)) \<and>
      (\<forall>st'. r = Some st' \<longrightarrow> nf_shape st' = nf_shape st)) (client_down_loop E client cur st)"
  using assms
proof (induction "length xs" arbitrary: pre xs cur st rule: less_induct)
  case less
  show ?case
  proof (cases "find (owned_by client st) xs")
    case None
    with less.prems(3) have "client_down_loop E client cur st = Some (Some st)"
      by (simp add: client_down_loop.simps)
    with None show ?thesis by (auto simp: find_None_iff)
  next
    case (Some a)
    then obtain ys zs where xs: "xs = ys @ a # zs" and mine: "owned_by client st a"
      and ys: "\<forall>y \<in> set ys. \<not> owned_by client st y"
      using find_split [OF Some] by blast
    have a: "live st a" using mine by (auto simp: owned_by_def live_def)
    from state_machine_ok [OF less.prems(1) a, of E client_died]
    obtain r st1 where r: "state_machine E a client_died st = Some (r, st1)" "notif_ok st1"
      by (rule returnsE) auto
    have loop: "client_down_loop E client cur st = client_down_loop E client (Some a) st1"
      by (subst client_down_loop.simps) (simp add: less.prems(3) Some r)
    show ?thesis
    proof (cases "dies_with_client st a")
      case True
      with r have "nf_proxies st1 a = None" by (simp add: client_died_destroys)
      then have "client_down_loop E client (Some a) st1 = Some None"
        by (simp add: client_down_loop.simps cl_hash_lookup_proxy_def Let_def)
      with True mine xs loop show ?thesis by auto
    next
      case False
      note keep = client_died_keeps [OF a False r(1)]
      have chain: "nf_cltbl st1 (cl_hash_index client) = (pre @ ys @ [a]) @ zs"
        using shape_fields(7) [OF keep(1)] less.prems(2) xs by simp
      have "distinct (nf_cltbl st1 (cl_hash_index client))"
        using r(2) by (simp add: notif_ok_def tables_ok_def on_chain_def)
      then have fresh: "a \<notin> set pre" "a \<notin> set ys" "a \<notin> set zs"
        unfolding chain by auto
      have other: "owned_by client st1 b = owned_by client st b" "dies_with_client st1 b = dies_with_client st b"
        if "b \<in> set zs" for b
      proof -
        have "b \<noteq> a" using that fresh(3) by blast
        from keep(2) [OF this] show "owned_by client st1 b = owned_by client st b"
          "dies_with_client st1 b = dies_with_client st b"
          by (simp_all add: owned_by_def dies_with_client_def)
      qed
      have "live st1 a" by (rule live_shape [OF keep(1) a])
      moreover have "tl (dropWhile (\<lambda>b. b \<noteq> a) (nf_cltbl st1 (cl_hash_index client))) = zs"
        unfolding chain using fresh by (simp add: dropWhile_append)
      ultimately have lookup: "cl_hash_lookup_proxy client (Some a) st1 = Some (find (owned_by client st1) zs)"
        by (simp add: cl_hash_lookup_proxy_def Let_def live_def owned_by_def [abs_def])
      have "returns (\<lambda>r. (r = None \<longleftrightarrow> (\<exists>b \<in> set zs. owned_by client st1 b \<and> dies_with_client st1 b)) \<and>
          (\<forall>st'. r = Some st' \<longrightarrow> nf_shape st' = nf_shape st1)) (client_down_loop E client (Some a) st1)"
        by (rule less.hyps [OF _ r(2) chain lookup]) (simp add: xs)
      then show ?thesis
        unfolding loop by (rule returns_mono) (use keep(1) other xs ys False in auto)
    qed
  qed
qed

lemma client_chain_mem:
  assumes "notif_ok st" and "owned_by client st a"
  shows "a \<in> set (nf_cltbl st (cl_hash_index client))"
proof -
  have "cl_chain st (cl_hash_index client) a"
    using assms(2) by (auto simp: owned_by_def cl_chain_def px_key_def)
  then show ?thesis using assms(1) by (simp add: notif_ok_def tables_ok_def on_chain_def)
qed

lemma client_down_ok:
  assumes "notif_ok st"
  shows "returns (\<lambda>r. (r = None \<longleftrightarrow> (\<exists>a. owned_by client st a \<and> dies_with_client st a)) \<and>
      (\<forall>st'. r = Some st' \<longrightarrow> nf_shape st' = nf_shape st)) (proxy_client_is_down E client st)"
proof -
  have "cl_hash_lookup_proxy client None st = Some (find (owned_by client st) (nf_cltbl st (cl_hash_index client)))"
    by (simp add: cl_hash_lookup_proxy_def Let_def owned_by_def [abs_def])
  with assms show ?thesis
    unfolding proxy_client_is_down_def
    by (intro returns_mono [OF client_down_run [where pre = "[]"]]) (use client_chain_mem [OF assms] in auto)
qed
lemma timeout_destroys:
  assumes a: "live st a" and r: "state_machine E a backend_timeout st = Some (r, st')"
  shows "\<exists>s. nf_shape s = nf_shape st \<and> proxy_destroy E a s = Some st'"
proof -
  obtain px where px: "nf_proxies st a = Some px" using a by (auto simp: live_def)
  have status: "nf_shape (create_and_send_status_to_client E px s st) = nf_shape st" for s
    by (rule shape_messages_out)
  have "\<exists>s. (s = st \<or> (\<exists>x. s = create_and_send_status_to_client E px x st)) \<and> proxy_destroy E a s = Some st'"
    using r by (cases "px_state px") (auto simp: state_machine_def px destroyed_def)
  then show ?thesis using status by metis
qed

lemma id_chain_mem: "notif_ok st \<Longrightarrow> a \<in> set (nf_idtbl st i) \<longleftrightarrow> id_chain st i a"
  by (simp add: notif_ok_def tables_ok_def on_chain_def)

lemma idtbl_after_timeout:
  assumes ok: "notif_ok st" and chain: "nf_idtbl st i = a # xs"
    and r: "timeout_handler E a (timeout_destroy a st) = Some st'"
  shows "nf_idtbl st' = (nf_idtbl st)(i := xs)"
proof -
  have c: "id_chain st i a"
    using id_chain_mem [OF ok, of a i] by (simp add: chain)
  then have a: "live (timeout_destroy a st) a"
    by (auto simp: id_chain_def px_key_def live_def split: option.splits)
  obtain q where "state_machine E a backend_timeout (timeout_destroy a st) = Some (q, st')"
    using r by (auto simp: timeout_destroyed)
  from timeout_destroys [OF a this] obtain s where
    s: "nf_shape s = nf_shape (timeout_destroy a st)" "proxy_destroy E a s = Some st'" by blast
  note f = shape_fields [OF s(1)]
  have "live s a" by (rule live_shape [OF s(1) a])
  then obtain px where px: "nf_proxies s a = Some px" by (auto simp: live_def)
  have "id_chain s i a"
    using c unfolding f(3) by (simp add: id_chain_def)
  then have "ID_HASH_INDEX (px_id px) = i"
    by (simp add: id_chain_def px_key_def px)
  with proxy_destroy_fields(4) [OF px s(2)] show ?thesis
    unfolding f(6) by (simp add: chain)
qed

lemma backend_down_run:
  assumes "notif_ok st" and "\<And>j. j < i \<Longrightarrow> nf_idtbl st j = []"
  shows "returns (\<lambda>r. \<exists>st'. r = Some st' \<and> notif_ok st' \<and> (\<forall>j < ID_HASH_DIM. nf_idtbl st' j = []))
    (backend_down_loop E i st)"
  using assms
proof (induction "ID_HASH_DIM - i" arbitrary: i st rule: less_induct)
  case (less i st)
  note outer = less.hyps
  from less.prems show ?case
  proof (induction "nf_idtbl st i" arbitrary: st)
    case Nil
    show ?case
    proof (cases "i \<ge> ID_HASH_DIM")
      case True
      then show ?thesis using Nil.prems by (subst backend_down_loop.simps) auto
    next
      case False
      have "returns (\<lambda>r. \<exists>st'. r = Some st' \<and> notif_ok st' \<and> (\<forall>j < ID_HASH_DIM. nf_idtbl st' j = []))
          (backend_down_loop E (i + 1) st)"
        by (rule outer) (use False Nil in \<open>auto simp: less_Suc_eq\<close>)
      with False Nil.hyps show ?thesis
        by (subst backend_down_loop.simps) (simp add: Nil.hyps [symmetric])
    qed
  next
    case (Cons a xs)
    have chain: "nf_idtbl st i = a # xs" using Cons.hyps(2) by simp
    have "id_chain st i a"
      using id_chain_mem [OF Cons.prems(1), of a i] by (simp add: chain)
    then have a: "live st a"
      by (auto simp: id_chain_def px_key_def live_def split: option.splits)
    from timeout_ok [OF Cons.prems(1) a, of E]
    obtain st1 where st1: "timeout_handler E a (timeout_destroy a st) = Some st1" "notif_ok st1"
      by (rule returnsE)
    note tbl = idtbl_after_timeout [OF Cons.prems(1) chain st1(1)]
    have "returns (\<lambda>r. \<exists>st'. r = Some st' \<and> notif_ok st' \<and> (\<forall>j < ID_HASH_DIM. nf_idtbl st' j = []))
        (backend_down_loop E i st1)"
      by (rule Cons.hyps(1)) (use st1(2) Cons.prems(2) in \<open>simp_all add: tbl\<close>)
    then show ?case
      using Cons.prems(1,2) by (subst backend_down_loop.simps) (simp add: chain st1)
  qed
qed

lemma no_chain_no_proxy:
  assumes ok: "notif_ok st" and e: "\<And>j. j < ID_HASH_DIM \<Longrightarrow> nf_idtbl st j = []"
  shows "nf_proxies st a = None"
proof (rule ccontr)
  assume "nf_proxies st a \<noteq> None"
  then obtain px where px: "nf_proxies st a = Some px" by blast
  let ?i = "ID_HASH_INDEX (px_id px)"
  have "?i < ID_HASH_DIM"
    using word_and_le1 [of "px_id px" 63] by (simp add: ID_HASH_INDEX_def ID_HASH_DIM_def word_le_nat_alt)
  moreover have "id_chain st ?i a" by (simp add: id_chain_def px_key_def px)
  then have "a \<in> set (nf_idtbl st ?i)"
    using ok by (simp add: notif_ok_def tables_ok_def on_chain_def)
  ultimately show False using e [of ?i] by simp
qed

lemma backend_down_ok:
  assumes "notif_ok st"
  shows "returns (\<lambda>r. \<exists>st'. r = Some st' \<and> notif_ok st' \<and> (\<forall>a. nf_proxies st' a = None))
    (proxy_backend_is_down E st)"
  unfolding proxy_backend_is_down_def
  by (rule returns_mono [OF backend_down_run [OF assms]]) (auto intro: no_chain_no_proxy)

subsection \<open>Every event\<close>

lemma playback_ok:
  assumes "notif_ok st"
  shows "returns (\<lambda>(_, st'). notif_ok st') (proxy_playback_request E what client data st)"
proof -
  have ok: "notif_ok (snd (evaluate_notification_request_rules E what st))"
    by (rule shape_cong [OF shape_evaluate assms])
  show ?thesis
    using ok start_playback_ok [OF ok, of E client data]
    by (auto simp: proxy_playback_request_def split: prod.split request_verdict.split)
qed

lemma ok_snd: "returns (\<lambda>(_, st'). notif_ok st') m = returns (\<lambda>r. notif_ok (snd r)) m"
  by (simp add: case_prod_unfold)

lemma handler_result_ok:
  "returns (\<lambda>(_, st'). notif_ok st') r \<Longrightarrow> returns (\<lambda>(_, st'). notif_ok st') (handler_result r)"
  by (simp add: handler_result_def ok_snd case_prod_unfold)

lemma status_request_ok:
  assumes "notif_ok st"
  shows "returns (\<lambda>(_, st'). notif_ok st') (proxy_status_request E i data st)"
proof (cases "id_hash_lookup i st")
  case (Some a)
  from state_machine_ok [OF assms id_lookup_live [OF Some], of E "backend_status data"]
  show ?thesis by (simp add: proxy_status_request_def Some ok_snd case_prod_unfold)
qed (simp add: proxy_status_request_def assms)

lemma handlers_ok:
  assumes "notif_ok st"
  shows "returns (\<lambda>(_, st'). notif_ok st') (play_handler E c st)"
    "returns (\<lambda>(_, st'). notif_ok st') (stop_handler E c st)"
    "returns (\<lambda>(_, st'). notif_ok st') (pause_handler E c st)"
    "returns (\<lambda>(_, st'). notif_ok st') (stop_ringtone_handler E c st)"
    "ok_after (status_handler E c st)"
proof -
  show "returns (\<lambda>(_, st'). notif_ok st') (play_handler E c st)"
    using playback_ok [OF assms, of E] assms
    by (auto simp: play_handler_def ok_snd case_prod_unfold split: list.split darg.split)
  show "returns (\<lambda>(_, st'). notif_ok st') (stop_handler E c st)"
    using handler_result_ok [OF with_owner_ok [OF assms]] assms
    by (auto simp: stop_handler_def proxy_stop_request_def split: list.split darg.split)
  show "returns (\<lambda>(_, st'). notif_ok st') (pause_handler E c st)"
    using handler_result_ok [OF with_owner_ok [OF assms]] assms
    by (auto simp: pause_handler_def proxy_pause_request_def split: list.split darg.split)
  show "returns (\<lambda>(_, st'). notif_ok st') (stop_ringtone_handler E c st)"
    using returns_mono [OF stop_all_ok [OF assms, of E rset_ringtone], of notif_ok]
    by (simp add: stop_ringtone_handler_def proxy_stop_ringtone_request_def keeps_live_def)
  show "ok_after (status_handler E c st)"
    using status_request_ok [OF assms, of E] assms
    by (auto simp: status_handler_def ok_snd split: list.split darg.split)
qed

lemma proxy_method_ok:
  assumes ok: "notif_ok st"
  shows "ok_after (map_option snd (proxy_method E c st))"
proof -
  have reply: "notif_ok (reply_with_error E m err desc s)" "notif_ok (reply_with_id E m i s)"
    "notif_ok (reply_empty c s)" if "notif_ok s" for m err desc i s
    by (rule shape_cong [OF shape_replies(1) that], rule shape_cong [OF shape_replies(2) that],
        rule shape_cong [OF shape_replies(3) that])
  have client: "ok_after (client_method E f c st)" if "returns (\<lambda>(_, st'). notif_ok st') (f E c st)"
    for f :: "'a nenv \<Rightarrow> 'a call \<Rightarrow> 'a nstate \<Rightarrow> ((u32 \<times> string \<times> string) \<times> 'a nstate) option"
    using that reply ok
    by (auto simp: client_method_def case_prod_unfold intro: returns_mono elim!: returnsE)
  have table: "ok_after (client_method E f c st)" if "map_of client_handlers member = Some f" for f member
    by (rule client) (use that handlers_ok(1-4) [OF ok, of E c] in
      \<open>auto simp: client_handlers_def split: if_splits\<close>)
  have status: "ok_after (map_option (reply_empty c) (status_handler E c st))"
    using handlers_ok(5) [OF ok, of E c] reply by (auto elim!: returnsE)
  show ?thesis
    using table status reply ok
    by (auto simp: proxy_method_def comp_def option.map_comp split: option.split)
qed

text \<open>The events that follow a freed proxy.\<close>

definition use_after_free :: "'m nevent \<Rightarrow> 'm nstate \<Rightarrow> bool" where
  "use_after_free ev st \<longleftrightarrow>
     (\<exists>client before rest a. ev = Name_changed (DString client # DString before # DString [] # rest) \<and>
        client \<noteq> DBUS_NGF_BACKEND_SERVICE \<and> owned_by client st a \<and> dies_with_client st a)"

definition step_fine :: "'m nevent \<Rightarrow> 'm nstate \<Rightarrow> 'm nstate option \<Rightarrow> bool" where
  "step_fine ev st r \<longleftrightarrow> (\<forall>st'. r = Some st' \<longrightarrow> notif_ok st') \<and> (r = None \<longleftrightarrow> use_after_free ev st)"

lemma ok_after_fine: "ok_after r \<Longrightarrow> \<not> use_after_free ev st \<Longrightarrow> step_fine ev st r"
  by (auto simp: step_fine_def elim!: returnsE)

lemma owner_changed_ok:
  assumes ok: "notif_ok st"
  shows "returns (step_fine (Name_changed args) st) (owner_changed E args st)"
proof (cases "\<exists>client before after rest. args = DString client # DString before # DString after # rest")
  case False
  then have "owner_changed E args st = Some (Some st)"
    by (auto simp: owner_changed_def split: list.split darg.split)
  moreover have "\<not> use_after_free (Name_changed args) st"
    using False by (auto simp: use_after_free_def)
  ultimately show ?thesis using ok by (simp add: step_fine_def)
next
  case True
  then obtain client before after rest where args: "args = DString client # DString before # DString after # rest"
    by blast
  have sh: "nf_shape (st\<lparr>nf_namesig := b, nf_backend := x\<rparr>) = nf_shape st" for b x
    by (simp add: nf_shape_def)
  have fields: "notif_ok (st\<lparr>nf_namesig := b, nf_backend := x\<rparr>)" for b x
    by (rule shape_cong [OF sh ok])
  consider "client = DBUS_NGF_BACKEND_SERVICE" | "client \<noteq> DBUS_NGF_BACKEND_SERVICE" "after = []"
    | "client \<noteq> DBUS_NGF_BACKEND_SERVICE" "after \<noteq> []" by blast
  then show ?thesis
  proof cases
    case 1
    then have n: "\<not> use_after_free (Name_changed args) st"
      by (simp add: use_after_free_def args)
    then have "returns (step_fine (Name_changed args) st)
        (proxy_backend_is_down E (st\<lparr>nf_namesig := True, nf_backend := None\<rparr>))"
      by (intro returns_mono [OF backend_down_ok [OF fields]]) (auto simp: step_fine_def)
    with n 1 fields show ?thesis
      by (cases "after = []") (simp_all add: owner_changed_def args step_fine_def Let_def)
  next
    case 2
    then have u: "use_after_free (Name_changed args) st \<longleftrightarrow> (\<exists>a. owned_by client st a \<and> dies_with_client st a)"
      by (auto simp: use_after_free_def args)
    have "returns (step_fine (Name_changed args) st) (proxy_client_is_down E client st)"
      by (rule returns_mono [OF client_down_ok [OF ok]]) (auto simp: step_fine_def u dest: shape_cong [OF _ ok])
    with 2 show ?thesis by (simp add: owner_changed_def args)
  next
    case 3
    then have "\<not> use_after_free (Name_changed args) st"
      by (auto simp: use_after_free_def args)
    with 3 ok show ?thesis by (simp add: owner_changed_def args step_fine_def)
  qed
qed

lemma notif_step_ok:
  assumes ok: "notif_ok st"
  shows "returns (step_fine ev st) (notif_step E ev st)"
proof (cases ev)
  case (Name_changed args)
  with owner_changed_ok [OF ok] show ?thesis by simp
next
  case (Name_queried x)
  have "nf_shape (name_queried x st) = nf_shape st"
    by (simp add: name_queried_def nf_shape_def split: option.split list.split darg.split)
  from shape_cong [OF this ok] Name_queried show ?thesis
    by (simp add: ok_after_fine use_after_free_def)
next
  case (Conn i errcod)
  from shape_cong [OF shape_conn ok] Conn show ?thesis
    by (simp add: ok_after_fine use_after_free_def)
qed (use proxy_method_ok [OF ok] grant_handler_ok [OF ok] fire_ok [OF ok] in
  \<open>simp_all add: ok_after_fine use_after_free_def\<close>)

lemma notif_start_ok:
  fixes E :: "'m nenv"
  shows "notif_ok (notif_start E limit)"
proof -
  let ?z = "\<lparr>nf_proxies = (\<lambda>_. None), nf_nalloc = 1, nf_idtbl = (\<lambda>_. []), nf_cltbl = (\<lambda>_. []), nf_sqlist = [],
      nf_seqno = 1, nf_play_limit = 0, nf_play_timeout = 0, nf_stop_timeout = 0,
      nf_sets = (\<lambda>_. no_set), nf_reqno = 0, nf_sources = [], nf_nsource = 1,
      nf_notreq = -1, nf_notevnt = -1, nf_notplsh = -1, nf_backend = None, nf_namesig = False,
      nf_log = []\<rparr> :: 'm nstate"
  have "notif_ok ?z"
    by (simp add: notif_ok_def tables_ok_def timers_ok_def on_chain_def id_chain_def cl_chain_def
        px_key_def px_timer_def)
  moreover have "nf_shape (proxy_init limit ?z) = nf_shape ?z"
    by (simp add: proxy_init_def Let_def nf_shape_def)
  moreover have "nf_shape (connect_to_manager E s) = nf_shape s" for s :: "'m nstate"
    by (simp add: connect_to_manager_def rset_defs_def Let_def shape_keeps)
  ultimately show ?thesis
    unfolding notif_start_def using shape_cong by metis
qed

lemma reach_ok: "notif_reach E limit st \<Longrightarrow> notif_ok st"
proof (induction rule: notif_reach.induct)
  case (step st ev st')
  then show ?case using notif_step_ok [of st ev E] by (simp add: step_fine_def)
qed (rule notif_start_ok)
end
