(* ===== verification/Notif_Properties.thy ===== *)
theory Notif_Properties
  imports Notif_Inv
begin

text \<open>
  The properties of the notification plugin over its reachable states, with the witnesses: a run of
  two events on a small environment, after which one request waits for its timer.
\<close>

subsection \<open>Which proxies an operation touches\<close>

definition only :: "addr \<Rightarrow> 'm nstate \<Rightarrow> 'm nstate \<Rightarrow> bool" where
  "only a st st' \<longleftrightarrow> (\<forall>b. b \<noteq> a \<longrightarrow> nf_proxies st' b = nf_proxies st b)"



lemma only_trans: "only a s0 s1 \<Longrightarrow> only a s1 s2 \<Longrightarrow> only a s0 s2"
  by (simp add: only_def)












lemma acquire_proxies [simp]:
  "nf_proxies (snd (resource_set_acquire E ty mand opt multi proxid st)) = nf_proxies st"
  by (simp add: resource_set_acquire_def acquire_messages_def fake_grant_create_def add_source_def upd_set_def
      nf_note_def next_reqno_def Let_def split_beta)




subsection \<open>A small run\<close>

definition demo_row :: row where
  "demo_row = [(''name'', RString ''r''), (''type'', RInteger 1), (''event'', RString ''ring''), (''error'', RString []),
     (''mandatory'', RInteger 0), (''optional'', RInteger 0), (''allow_multiple'', RInteger 0),
     (''proclaimer'', RString [])]"

definition demo_env :: "unit nenv" where
  "demo_env = \<lparr>n_rules = \<lparr>find_methods = True, rule_find = (\<lambda>_ _. 0), rule_eval = (\<lambda>_ _. (1, Some [demo_row]))\<rparr>,
     n_audio = 1, n_vibra = 2, n_leds = 4, n_blight = 8, n_rset = (\<lambda>_ _. (0, 0)), n_malloc = (\<lambda>_. True),
     n_built = (\<lambda>_. True), n_append = (\<lambda>_ _. True), n_sent = (\<lambda>_. True), n_stack = (\<lambda>_. []),
     n_create_stop = (\<lambda>_. ())\<rparr>"

definition play_call :: "unit call" where
  "play_call = \<lparr>cl_is_call = True, cl_interface = Some DBUS_NGF_INTERFACE, cl_member = Some ''Play'', cl_sender = '':1.5'',
     cl_noreply = False, cl_args = [DString ''ring''], cl_msg = ()\<rparr>"

definition demo_up :: "unit nstate" where
  "demo_up = \<lparr>nf_proxies = (\<lambda>_. None), nf_nalloc = 1, nf_idtbl = (\<lambda>_. []), nf_cltbl = (\<lambda>_. []), nf_sqlist = [],
     nf_seqno = 1, nf_play_limit = 300000, nf_play_timeout = 330000, nf_stop_timeout = 10000,
     nf_sets = (\<lambda>_. no_set), nf_reqno = 7, nf_sources = [], nf_nsource = 1, nf_notreq = -1, nf_notevnt = -1,
     nf_notplsh = -1, nf_backend = Some '':1.9'', nf_namesig = False,
     nf_log = [Res_register 0 1 1 0 ''proclaimer'', Res_register 1 2 11 8 ''ringtone'', Res_register 2 3 4 0 ''event'',
       Res_register 3 4 11 8 ''alarm'', Res_register 4 5 11 8 ''event'', Res_register 5 6 4 0 ''ringtone'',
       Res_register 6 7 1 0 ''battery'']\<rparr>"

definition demo_proxy :: "unit proxy" where
  "demo_proxy = \<lparr>px_type = 1, px_event = Some ''ring'', px_id = 1, px_client = '':1.5'', px_state = state_acquiring,
     px_resources = 0, px_timeout = 1, px_data = Some (), px_status = NGF_COMPLETED\<rparr>"

definition demo_playing :: "unit nstate" where
  "demo_playing = \<lparr>nf_proxies = [1 \<mapsto> demo_proxy], nf_nalloc = 2, nf_idtbl = (\<lambda>_. [])(1 := [1]),
     nf_cltbl = (\<lambda>_. [])(5 := [1]), nf_sqlist = [1],
     nf_seqno = 2, nf_play_limit = 300000, nf_play_timeout = 330000, nf_stop_timeout = 10000,
     nf_sets = (\<lambda>_. no_set), nf_reqno = 7, nf_sources = [(1, Timeout_src 1 0)], nf_nsource = 2, nf_notreq = 0,
     nf_notevnt = 0, nf_notplsh = 0, nf_backend = Some '':1.9'', nf_namesig = False,
     nf_log = [Res_register 0 1 1 0 ''proclaimer'', Res_register 1 2 11 8 ''ringtone'', Res_register 2 3 4 0 ''event'',
       Res_register 3 4 11 8 ''alarm'', Res_register 4 5 11 8 ''event'', Res_register 5 6 4 0 ''ringtone'',
       Res_register 6 7 1 0 ''battery'', Monitor '':1.5'' True, Reply_id () 1]\<rparr>"

lemmas demo_simps = demo_row_def demo_env_def play_call_def demo_up_def demo_proxy_def demo_playing_def
  notif_start_def proxy_init_def DEFAULT_PLAY_LIMIT_def
  MINUTE_def SECOND_def connect_to_manager_def rset_defs_def next_reqno_def nf_note_def Let_def
  name_queried_def proxy_method_def client_handlers_def client_method_def play_handler_def
  proxy_playback_request_def evaluate_notification_request_rules_def ruleif_notification_request_def
  notif_lookup_rules_def single_row_def rule_args_def copy_value_def zero_value_def int_of_value_def
  string_of_value_def strncpy_desc_def DBUS_DESCBUF_LEN_def start_playback_def proclaimer_handle_action_def
  NOTIFICATION_ID_def SEQNO_MASK_def regular_id_def proxy_create_def cl_hash_lookup_client_def sq_list_add_def
  cl_hash_add_def id_hash_add_def ID_HASH_INDEX_def upd_proxy_def timeout_create_def timeout_destroy_def
  add_source_def reply_with_id_def cl_hash_index_def CL_HASH_INDEX_def strtoul_def scan_number_def is_space_def
  is_digit_def digits_value_def

lemma demo_run_up: "notif_step demo_env (Name_queried (Some [DString '':1.9''])) (notif_start demo_env None) = Some (Some demo_up)"
  by (simp add: demo_simps)

lemma demo_run_play: "notif_step demo_env (Method play_call) demo_up = Some (Some demo_playing)"
  by (simp add: demo_simps numeral_2_eq_2 [symmetric])

lemma demo_reach: "notif_reach demo_env None demo_playing"
  using notif_reach.start [of demo_env None] demo_run_up demo_run_play by (blast intro: notif_reach.step)

subsection \<open>Properties\<close>

text \<open>C13. In every reachable state the list of all requests, the hash table of the ids and the hash
  table of the clients hold exactly the live requests, each once and on the chain of its key, and the
  timers of the main loop belong one to one to the live requests that wait for them: no table and no
  timer holds a freed request.\<close>

theorem notification_tables_exact:
  assumes "notif_reach E limit st"
  shows "distinct (nf_sqlist st) \<and> (\<forall>a. a \<in> set (nf_sqlist st) \<longleftrightarrow> nf_proxies st a \<noteq> None) \<and>
    (\<forall>i. distinct (nf_idtbl st i) \<and>
      (\<forall>a. a \<in> set (nf_idtbl st i) \<longleftrightarrow> (\<exists>px. nf_proxies st a = Some px \<and> ID_HASH_INDEX (px_id px) = i))) \<and>
    (\<forall>i. distinct (nf_cltbl st i) \<and>
      (\<forall>a. a \<in> set (nf_cltbl st i) \<longleftrightarrow> (\<exists>px. nf_proxies st a = Some px \<and> cl_hash_index (px_client px) = i))) \<and>
    distinct (map fst (nf_sources st)) \<and>
    (\<forall>i a. i \<noteq> 0 \<longrightarrow> ((\<exists>d. (i, Timeout_src a d) \<in> set (nf_sources st)) \<longleftrightarrow>
      (\<exists>px. nf_proxies st a = Some px \<and> px_timeout px = i)))"
proof -
  have t: "tables_ok st" and m: "timers_ok st"
    using reach_ok [OF assms] by (simp_all add: notif_ok_def)
  have key: "px_key st a \<noteq> None \<longleftrightarrow> nf_proxies st a \<noteq> None" for a
    by (simp add: px_key_def)
  have idc: "id_chain st i a \<longleftrightarrow> (\<exists>px. nf_proxies st a = Some px \<and> ID_HASH_INDEX (px_id px) = i)" for i a
    by (auto simp: id_chain_def px_key_def split: option.split)
  have clc: "cl_chain st i a \<longleftrightarrow> (\<exists>px. nf_proxies st a = Some px \<and> cl_hash_index (px_client px) = i)" for i a
    by (auto simp: cl_chain_def px_key_def split: option.split)
  have "(\<exists>d. (i, Timeout_src a d) \<in> set (nf_sources st)) \<longleftrightarrow> px_timer st a = i" if "i \<noteq> 0" for i a
    using timers_source [OF m] timers_pending [OF m, of a] that by blast
  moreover have "px_timer st a = i \<longleftrightarrow> (\<exists>px. nf_proxies st a = Some px \<and> px_timeout px = i)" if "i \<noteq> 0" for i a
    using that by (auto simp: px_timer_def split: option.splits)
  ultimately show ?thesis
    using t timers_distinct [OF m] unfolding tables_ok_def on_chain_def key idc clc
    by (intro conjI) blast+
qed

theorem notification_tables_exact_witness:
  "distinct (nf_sqlist demo_playing) \<and> (\<exists>d. (1, Timeout_src 1 d) \<in> set (nf_sources demo_playing))"
  using notification_tables_exact [OF demo_reach] by (simp add: demo_playing_def demo_proxy_def)

text \<open>C23. When the backend leaves the bus, the loop over the hash table returns in every reachable
  state, and it leaves no request and no timer of one: every request was completed or dropped.\<close>

theorem backend_gone_clears:
  assumes "notif_reach E limit st"
  shows "\<exists>st'. notif_step E (Name_changed [DString DBUS_NGF_BACKEND_SERVICE, DString before, DString []]) st =
      Some (Some st') \<and> (\<forall>a. nf_proxies st' a = None) \<and> nf_sqlist st' = [] \<and>
      (\<forall>i a d. (i, Timeout_src a d) \<notin> set (nf_sources st'))"
proof -
  let ?s = "st\<lparr>nf_namesig := True, nf_backend := None\<rparr>"
  have "nf_shape ?s = nf_shape st" by (simp add: nf_shape_def)
  then have "notif_ok ?s" using reach_ok [OF assms] by (rule shape_cong)
  then obtain st' where r: "proxy_backend_is_down E ?s = Some (Some st')" and ok: "notif_ok st'"
    and none: "\<And>a. nf_proxies st' a = None"
    using backend_down_ok by (blast elim: returnsE)
  from ok none have "set (nf_sqlist st') = {}"
    by (auto simp: notif_ok_def tables_ok_def on_chain_def px_key_def)
  moreover have "(i, Timeout_src a d) \<notin> set (nf_sources st')" for i a d
    using ok timers_source [of st' i a d] timers_bound [of st' i "Timeout_src a d"] none
    by (auto simp: notif_ok_def px_timer_def)
  ultimately show ?thesis using r none by (auto simp: owner_changed_def Let_def)
qed

theorem backend_gone_clears_witness:
  "\<exists>st'. notif_step demo_env (Name_changed [DString DBUS_NGF_BACKEND_SERVICE, DString '':1.9'', DString []]) demo_playing =
     Some (Some st') \<and> nf_sqlist st' = []"
  using backend_gone_clears [OF demo_reach, of "'':1.9''"] by blast

text \<open>C12. Every event of the plugin is handled to its end.  It reads freed memory in exactly one case:
  a client leaves the bus while one of its requests is neither forwarded to the backend nor killed.
  The state machine then destroys this request, and the loop of proxy_client_is_down goes on from it.\<close>

theorem client_gone_use_after_free:
  assumes "notif_reach E limit st"
  shows "\<exists>r. notif_step E ev st = Some r \<and>
    (r = None \<longleftrightarrow> (\<exists>client before rest a px.
        ev = Name_changed (DString client # DString before # DString [] # rest) \<and>
        client \<noteq> DBUS_NGF_BACKEND_SERVICE \<and> nf_proxies st a = Some px \<and> px_client px = client \<and>
        px_state px \<noteq> state_forwarded \<and> px_state px \<noteq> state_killed))"
proof -
  have "use_after_free ev st \<longleftrightarrow> (\<exists>client before rest a px.
        ev = Name_changed (DString client # DString before # DString [] # rest) \<and>
        client \<noteq> DBUS_NGF_BACKEND_SERVICE \<and> nf_proxies st a = Some px \<and> px_client px = client \<and>
        px_state px \<noteq> state_forwarded \<and> px_state px \<noteq> state_killed)"
    by (fastforce simp: use_after_free_def owned_by_def dies_with_client_def split: option.splits)
  moreover obtain r where "notif_step E ev st = Some r" "r = None \<longleftrightarrow> use_after_free ev st"
    using notif_step_ok [OF reach_ok [OF assms], of ev E] unfolding step_fine_def by (blast elim: returnsE)
  ultimately show ?thesis by simp
qed

theorem client_gone_use_after_free_witness:
  "notif_step demo_env (Name_changed [DString '':1.5'', DString '':1.5'', DString []]) demo_playing = Some None"
proof -
  have "nf_proxies demo_playing 1 = Some demo_proxy" "px_client demo_proxy = '':1.5''"
    "px_state demo_proxy = state_acquiring"
    by (simp_all add: demo_playing_def demo_proxy_def)
  then have "\<exists>client before rest a px. (Name_changed [DString '':1.5'', DString '':1.5'', DString []] :: unit nevent) =
        Name_changed (DString client # DString before # DString [] # rest) \<and>
        client \<noteq> DBUS_NGF_BACKEND_SERVICE \<and> nf_proxies demo_playing a = Some px \<and> px_client px = client \<and>
        px_state px \<noteq> state_forwarded \<and> px_state px \<noteq> state_killed"
    by (intro exI [of _ "'':1.5''"] exI [of _ "[]"] exI [of _ 1] exI [of _ demo_proxy])
      (simp add: DBUS_NGF_BACKEND_SERVICE_def)
  then show ?thesis
    using client_gone_use_after_free [OF demo_reach, of "Name_changed [DString '':1.5'', DString '':1.5'', DString []]"]
    by blast
qed




end
