(* ===== verification/Telephony.thy ===== *)
theory Telephony
  imports Prelude "HOL-Library.Monad_Syntax"
begin

text \<open>
  The telephony plugin, \<open>src/plugins/telephony/ohm/telephony.c\<close>: the table of calls, the events that
  D-Bus signals and requests raise, the policy decisions on them, the facts of the calls and the
  resources of all calls together.

  The resolver, the facts it leaves in the store (\<open>t_decisions\<close>), the outcome of sending and what an
  uninitialised event holds are the environment \<open>tenv\<close>, functions of the log of what the plugin did.
  A call is a record at an address; it is on the table from its registration to its destruction.
  The table is a list here, as the order in which a hash table is walked does not matter to the code.
  The result \<open>None\<close> is a crash: a \<open>NULL\<close> or freed pointer is followed.
\<close>

subsection \<open>Calls and events\<close>

datatype call_state = STATE_UNKNOWN | STATE_PEER_HUNGUP | STATE_LOCAL_HUNGUP | STATE_DISCONNECTED
  | STATE_CREATED | STATE_CALLOUT | STATE_ACTIVE | STATE_ON_HOLD | STATE_AUTOHOLD | STATE_CONFERENCE
  | STATE_POST_CONFERENCE

datatype call_dir = DIR_UNKNOWN | DIR_INCOMING | DIR_OUTGOING

datatype call_type = CALL_TYPE_SM | CALL_TYPE_DRAFT

fun state_name :: "call_state \<Rightarrow> string" where
  "state_name STATE_UNKNOWN = ''unknown''"
| "state_name STATE_DISCONNECTED = ''disconnected''"
| "state_name STATE_PEER_HUNGUP = ''peerhungup''"
| "state_name STATE_LOCAL_HUNGUP = ''localhungup''"
| "state_name STATE_CREATED = ''created''"
| "state_name STATE_CALLOUT = ''callout''"
| "state_name STATE_ACTIVE = ''active''"
| "state_name STATE_ON_HOLD = ''onhold''"
| "state_name STATE_AUTOHOLD = ''autohold''"
| "state_name STATE_CONFERENCE = ''conference''"
| "state_name STATE_POST_CONFERENCE = ''post_conference''"

fun dir_name :: "call_dir \<Rightarrow> string" where
  "dir_name DIR_UNKNOWN = ''unknown''"
| "dir_name DIR_INCOMING = ''incoming''"
| "dir_name DIR_OUTGOING = ''outgoing''"

text \<open>The fields of the fact of a call.\<close>

datatype tval = TString string | TInt int

type_synonym tfact = "string \<rightharpoonup> tval"

record tcall =
  tc_type :: call_type
  tc_id :: int
  tc_name :: cstring
  tc_path :: string
  tc_peer :: cstring
  tc_peer_handle :: u32
  tc_local_handle :: u32
  tc_nmember :: int
  tc_dir :: call_dir
  tc_emergency :: bool
  tc_state :: call_state
  tc_conf_state :: call_state
  tc_order :: int
  tc_parent :: "addr option"
  tc_connected :: bool
  tc_fact :: "tfact option"
  tc_audio_id :: u32
  tc_audio_content :: cstring
  tc_video_id :: u32
  tc_video_content :: cstring
  tc_timeout :: nat
  tc_holdable :: bool

text \<open>What a NewChannels signal says of a channel.\<close>

record channel =
  ch_type :: call_type
  ch_peer :: cstring
  ch_members :: "string list option"
  ch_dir :: call_dir
  ch_peer_handle :: u32
  ch_emergency :: bool
  ch_localpend :: u32
  ch_nmember :: int
  ch_interfaces :: "string list option"

datatype 'm event_id =
    EVENT_UNKNOWN
  | EVENT_NEW_CHANNEL cstring string channel
  | EVENT_CHANNEL_CLOSED
  | EVENT_CALL_REQUEST 'm
  | EVENT_CALL_ENDED
  | EVENT_CALL_PEER_HUNGUP
  | EVENT_CALL_LOCAL_HUNGUP
  | EVENT_CALL_ACCEPTED
  | EVENT_CALL_HELD
  | EVENT_CALL_ACTIVATED
  | EVENT_CALL_ACCEPT_REQUEST 'm
  | EVENT_CALL_HOLD_REQUEST 'm
  | EVENT_CALL_ACTIVATE_REQUEST 'm
  | EVENT_EMERGENCY_ON 'm
  | EVENT_EMERGENCY_OFF 'm
  | EVENT_SENDING_DIALSTRING
  | EVENT_STOPPED_DIALSTRING
  | EVENT_DTMF_START 'm u32 int
  | EVENT_DTMF_STOP 'm u32

datatype hook_type = HOOK_FIRST_CALL | HOOK_LAST_CALL | HOOK_CALL_START | HOOK_CALL_END
  | HOOK_CALL_CONNECT | HOOK_CALL_ACTIVE | HOOK_CALL_ONHOLD | HOOK_CALL_OFFHOLD | HOOK_LOCAL_HUNGUP
  | HOOK_DIALSTRING_START | HOOK_DIALSTRING_END | HOOK_DTMF_START | HOOK_DTMF_END

fun resolver_hooks :: "hook_type \<Rightarrow> string" where
  "resolver_hooks HOOK_FIRST_CALL = ''telephony_first_call_hook''"
| "resolver_hooks HOOK_LAST_CALL = ''telephony_last_call_hook''"
| "resolver_hooks HOOK_CALL_START = ''telephony_call_start_hook''"
| "resolver_hooks HOOK_CALL_END = ''telephony_call_end_hook''"
| "resolver_hooks HOOK_CALL_CONNECT = ''telephony_call_connect_hook''"
| "resolver_hooks HOOK_CALL_ACTIVE = ''telephony_call_active_hook''"
| "resolver_hooks HOOK_CALL_ONHOLD = ''telephony_call_onhold_hook''"
| "resolver_hooks HOOK_CALL_OFFHOLD = ''telephony_call_offhold_hook''"
| "resolver_hooks HOOK_LOCAL_HUNGUP = ''telephony_local_hungup_hook''"
| "resolver_hooks HOOK_DIALSTRING_START = ''telephony_sending_dialstring''"
| "resolver_hooks HOOK_DIALSTRING_END = ''telephony_stopped_dialstring''"
| "resolver_hooks HOOK_DTMF_START = ''telephony_start_dtmf''"
| "resolver_hooks HOOK_DTMF_END = ''telephony_stop_dtmf''"

subsection \<open>The state\<close>

text \<open>The signals of a channel, with the arguments if they could be read; \<open>None\<close> is a malformed one.
  The arrays of MembersChanged are added, removed, local pending and remote pending, and
  \<open>mm_remoteptr\<close> tells whether libdbus left a pointer that is not \<open>NULL\<close> for the last one.\<close>

record members =
  mm_added :: "u32 list"
  mm_removed :: "u32 list"
  mm_localpend :: "u32 list"
  mm_remotepend :: "u32 list"
  mm_remoteptr :: bool
  mm_actor :: u32

datatype csignal =
    Closed
  | Members_changed "members option"
  | Stream_added "(u32 \<times> u32 \<times> u32) option"
  | Stream_removed "u32 option"
  | Content_added "(string \<times> u32) option"
  | Content_removed "string option"
  | Hold_state_changed "(u32 \<times> u32) option"
  | Call_state_changed "(u32 \<times> u32) option"
  | Call_draft_state_changed "(u32 \<times> u32 \<times> u32 \<times> u32) option"
  | Channel_merged "string option"
  | Channel_removed "string option"
  | Member_channel_added "string option"
  | Member_channel_removed "string option"
  | Sending_dialstring
  | Stopped_dialstring

datatype tsource = Call_timeout string | Event_timeout string

datatype 'm taction =
    Tp_hangup string string
  | Tp_remove_members string u32 u32
  | Tp_close string
  | Tp_request_hold string bool
  | Tp_start_tone string u32 int
  | Tp_stop_tone string u32
  | Goal string "(string \<times> string) list"
  | Reply_proceed 'm bool
  | Reply_hold 'm cstring
  | Reply_emergency 'm cstring
  | Reply_dtmf 'm cstring
  | Emergency_state bool
  | Rset_register u32
  | Rset_update u32 bool
  | Rset_acquire u32
  | Rset_release u32
  | Rset_video_pid u32 int
  | Query_pid string

record 'm tstate =
  t_calls :: "addr \<Rightarrow> tcall option"
  t_nalloc :: addr
  t_table :: "addr list"
  t_ncscall :: int
  t_nipcall :: int
  t_nvideo :: int
  t_callid :: int
  t_holdorder :: int
  t_tonegen :: bool
  t_video_pid :: int
  t_emergency :: bool
  t_deferred :: "(string \<times> (nat \<times> csignal) list) list"
  t_sources :: "(nat \<times> tsource) list"
  t_nsource :: nat
  t_rset :: bool
  t_granted :: u32
  t_releasing :: bool
  t_reqno :: u32
  t_rvideo :: bool
  t_log :: "'m taction list"

record 'm tenv =
  t_resolve :: "'m taction list \<Rightarrow> int"
  t_decisions :: "'m taction list \<Rightarrow> (string \<times> cstring) list list"
  t_fact_new :: "'m taction list \<Rightarrow> bool"
  t_fact_insert :: "'m taction list \<Rightarrow> bool"
  t_sent :: "'m taction list \<Rightarrow> bool"
  t_stack :: "'m taction list \<Rightarrow> 'm event_id"
  t_stack_channel :: "'m taction list \<Rightarrow> channel"
  t_disabled :: bool
  t_kludge :: bool
  t_audio_playback :: u32
  t_video_playback :: u32

definition t_note :: "'m taction \<Rightarrow> 'm tstate \<Rightarrow> 'm tstate" where
  "t_note x st = st\<lparr>t_log := t_log st @ [x]\<rparr>"

definition upd_call :: "addr \<Rightarrow> (tcall \<Rightarrow> tcall) \<Rightarrow> 'm tstate \<Rightarrow> 'm tstate" where
  "upd_call a f st = st\<lparr>t_calls := (t_calls st)(a := map_option f (t_calls st a))\<rparr>"

definition add_tsource :: "tsource \<Rightarrow> 'm tstate \<Rightarrow> nat \<times> 'm tstate" where
  "add_tsource x st = (t_nsource st,
     st\<lparr>t_sources := t_sources st @ [(t_nsource st, x)], t_nsource := t_nsource st + 1\<rparr>)"

definition remove_tsource :: "nat \<Rightarrow> 'm tstate \<Rightarrow> 'm tstate" where
  "remove_tsource i st = st\<lparr>t_sources := filter (\<lambda>(j, _). j \<noteq> i) (t_sources st)\<rparr>"

text \<open>A message that is sent, or not: the status is 0 if it is.\<close>

definition tp_send :: "'m tenv \<Rightarrow> 'm taction \<Rightarrow> 'm tstate \<Rightarrow> bool \<times> 'm tstate" where
  "tp_send E x st = (if t_sent E (t_log st) then (True, t_note x st) else (False, st))"

subsection \<open>Resources\<close>

definition need_video :: "'m tstate \<Rightarrow> bool" where
  "need_video st \<longleftrightarrow> t_nvideo st > 0"

definition media_active :: "'m tstate \<Rightarrow> tcall \<Rightarrow> bool" where
  "media_active st call \<longleftrightarrow>
     tc_state call \<in> {STATE_ACTIVE, STATE_ON_HOLD, STATE_AUTOHOLD} \<or>
     tc_dir call = DIR_OUTGOING \<and> tc_state call = STATE_CREATED \<or>
     tc_state call = STATE_PEER_HUNGUP \<and>
       (tc_dir call = DIR_OUTGOING \<or> tc_dir call = DIR_INCOMING \<and> tc_connected call) \<or>
     t_emergency st"

definition need_audio :: "'m tstate \<Rightarrow> bool" where
  "need_audio st \<longleftrightarrow> list_ex (\<lambda>a. case t_calls st a of None \<Rightarrow> False | Some call \<Rightarrow> media_active st call) (t_table st)"

definition resctl_has_audio :: "'m tenv \<Rightarrow> 'm tstate \<Rightarrow> bool" where
  "resctl_has_audio E st \<longleftrightarrow> \<not> t_releasing st \<and> t_granted st AND t_audio_playback E \<noteq> 0"

definition resctl_has_video :: "'m tenv \<Rightarrow> 'm tstate \<Rightarrow> bool" where
  "resctl_has_video E st \<longleftrightarrow> \<not> t_releasing st \<and> t_granted st AND t_video_playback E \<noteq> 0"

definition next_treqno :: "'m tstate \<Rightarrow> 'm tstate" where
  "next_treqno st = st\<lparr>t_reqno := t_reqno st + 1\<rparr>"

definition resctl_connect :: "bool \<Rightarrow> 'm tstate \<Rightarrow> 'm tstate" where
  "resctl_connect ok st = (next_treqno (t_note (Rset_register (t_reqno st)) st))\<lparr>t_rset := ok\<rparr>"

definition resctl_disconnect :: "'m tstate \<Rightarrow> 'm tstate" where
  "resctl_disconnect st = st\<lparr>t_rset := False, t_granted := 0, t_releasing := False, t_reqno := 0, t_rvideo := False\<rparr>"

definition resctl_unregister :: "'m tstate \<Rightarrow> 'm tstate" where
  "resctl_unregister st = st\<lparr>t_rset := False\<rparr>"

definition resctl_update :: "bool \<Rightarrow> 'm tstate \<Rightarrow> 'm tstate" where
  "resctl_update videocall st =
     (if \<not> t_rset st \<or> videocall = t_rvideo st then st
      else (next_treqno (t_note (Rset_update (t_reqno st) videocall) st))\<lparr>t_rvideo := videocall\<rparr>)"

definition resctl_acquire :: "'m tstate \<Rightarrow> 'm tstate" where
  "resctl_acquire st = (if \<not> t_rset st then st else next_treqno (t_note (Rset_acquire (t_reqno st)) st))"

definition resctl_release :: "'m tstate \<Rightarrow> 'm tstate" where
  "resctl_release st =
     (if \<not> t_rset st \<or> t_releasing st then st
      else next_treqno (t_note (Rset_release (t_reqno st)) (st\<lparr>t_releasing := True\<rparr>)))"

definition resctl_grant :: "u32 \<Rightarrow> 'm tstate \<Rightarrow> 'm tstate" where
  "resctl_grant resrc st = st\<lparr>t_granted := resrc, t_releasing := False\<rparr>"

definition resctl_video_pid :: "int \<Rightarrow> 'm tstate \<Rightarrow> 'm tstate" where
  "resctl_video_pid pid st = next_treqno (t_note (Rset_video_pid (t_reqno st) pid) st)"

definition resctl_realloc :: "'m tenv \<Rightarrow> 'm tstate \<Rightarrow> 'm tstate" where
  "resctl_realloc E st =
     (if \<not> need_audio st
      then (if resctl_has_audio E st then resctl_update False (resctl_release st) else st)\<lparr>t_nvideo := 0\<rparr>
      else (let st1 = (if need_video st \<noteq> resctl_has_video E st then resctl_update (need_video st) st else st)
            in if resctl_has_audio E st1 then st1 else resctl_acquire st1))"

text \<open>The macros that ask whether the plugin controls the resources.\<close>

definition RESCTL_REALLOC :: "'m tenv \<Rightarrow> 'm tstate \<Rightarrow> 'm tstate" where
  "RESCTL_REALLOC E st = (if t_disabled E then st else resctl_realloc E st)"

definition RESCTL_UPDATE :: "'m tenv \<Rightarrow> bool \<Rightarrow> 'm tstate \<Rightarrow> 'm tstate" where
  "RESCTL_UPDATE E video st = (if t_disabled E then st else resctl_update video st)"

definition RESCTL_VIDEO_PID :: "'m tenv \<Rightarrow> int \<Rightarrow> 'm tstate \<Rightarrow> 'm tstate" where
  "RESCTL_VIDEO_PID E pid st = (if t_disabled E then st else resctl_video_pid pid st)"

definition run_hook :: "'m tenv \<Rightarrow> hook_type \<Rightarrow> 'm tstate \<Rightarrow> 'm tstate" where
  "run_hook E which st =
     t_note (Goal (resolver_hooks which) [])
       (if which \<in> {HOOK_CALL_START, HOOK_CALL_END, HOOK_CALL_CONNECT, HOOK_CALL_ACTIVE}
        then RESCTL_REALLOC E st else st)"

subsection \<open>The facts of the calls\<close>

definition has_video :: "tcall \<Rightarrow> bool" where
  "has_video call \<longleftrightarrow> tc_video_id call \<noteq> 0 \<or> tc_video_content call \<noteq> None"

definition yes_no :: "bool \<Rightarrow> string" where
  "yes_no b = (if b then ''yes'' else ''no'')"

definition new_fact :: "addr \<Rightarrow> tcall \<Rightarrow> tfact" where
  "new_fact a call =
     [''path'' \<mapsto> TString (tc_path call), ''state'' \<mapsto> TString (state_name (tc_state call)),
      ''direction'' \<mapsto> TString (dir_name (tc_dir call)), ''id'' \<mapsto> TString (dec_of_int (tc_id call)),
      ''video'' \<mapsto> TString (yes_no (has_video call)), ''holdable'' \<mapsto> TString (yes_no (tc_holdable call))]
     ++ (if tc_parent call = Some a then [''parent'' \<mapsto> TString (dec_of_int (tc_id call))] else Map.empty)
     ++ (if tc_emergency call then [''emergency'' \<mapsto> TString ''yes''] else Map.empty)"

text \<open>The callers do not look at the results of the two operations.\<close>

definition policy_call_export :: "'m tenv \<Rightarrow> addr \<Rightarrow> 'm tstate \<Rightarrow> 'm tstate" where
  "policy_call_export E a st =
     (case t_calls st a of
        None \<Rightarrow> st
      | Some call \<Rightarrow>
          if tc_fact call \<noteq> None \<or> \<not> t_fact_new E (t_log st) \<or> \<not> t_fact_insert E (t_log st) then st
          else upd_call a (tc_fact_update (\<lambda>_. Some (new_fact a call))) st)"

datatype update = UPDATE_STATE | UPDATE_DIR | UPDATE_ORDER | UPDATE_PARENT | UPDATE_EMERG
  | UPDATE_CONNECT | UPDATE_VIDEO

text \<open>The field \<open>parent\<close> of an update: removed, or the id of the parent, which is followed.\<close>

definition parent_field :: "update set \<Rightarrow> tcall \<Rightarrow> 'm tstate \<Rightarrow> tfact \<Rightarrow> tfact option" where
  "parent_field upds call st flds =
     (if UPDATE_PARENT \<notin> upds then Some flds
      else (case tc_parent call of
              None \<Rightarrow> Some (flds(''parent'' := None))
            | Some p \<Rightarrow> map_option (\<lambda>parent. flds(''parent'' \<mapsto> TString (dec_of_int (tc_id parent)))) (t_calls st p)))"

definition set_if :: "bool \<Rightarrow> string \<Rightarrow> tval \<Rightarrow> tfact \<Rightarrow> tfact" where
  "set_if b field v flds = (if b then flds(field \<mapsto> v) else flds)"

definition policy_call_update :: "'m tenv \<Rightarrow> addr \<Rightarrow> update set \<Rightarrow> 'm tstate \<Rightarrow> 'm tstate option" where
  "policy_call_update E a upds st =
     (case t_calls st a of
        None \<Rightarrow> None
      | Some call \<Rightarrow>
          (case tc_fact call of
             None \<Rightarrow> Some (policy_call_export E a st)
           | Some flds \<Rightarrow>
               map_option (\<lambda>fact1.
                   upd_call a (tc_fact_update (\<lambda>_. Some
                     (set_if (UPDATE_VIDEO \<in> upds) ''video'' (TString (yes_no (has_video call)))
                       (set_if (UPDATE_EMERG \<in> upds \<and> tc_emergency call) ''emergency'' (TString ''yes'')
                         (set_if (UPDATE_CONNECT \<in> upds \<and> tc_connected call) ''connected'' (TString ''yes'')
                           (set_if (UPDATE_ORDER \<in> upds \<and> tc_order call \<noteq> 0) ''order'' (TInt (tc_order call))
                             (set_if (UPDATE_DIR \<in> upds) ''direction'' (TString (dir_name (tc_dir call)))
                               (set_if (UPDATE_STATE \<in> upds) ''state'' (TString (state_name (tc_state call)))
                                 fact1)))))))) st)
                 (parent_field upds call st flds)))"

definition policy_call_delete :: "addr \<Rightarrow> 'm tstate \<Rightarrow> 'm tstate" where
  "policy_call_delete a st = upd_call a (tc_fact_update (\<lambda>_. None)) st"
subsection \<open>The table of calls\<close>

definition TP_RING :: string where
  "TP_RING = ''/org/freedesktop/Telepathy/Connection/ring/tel/ring''"

definition TP_CONFERENCE :: string where
  "TP_CONFERENCE = ''com.nokia.Telepathy.Channel.Interface.Conference''"

definition TP_CHANNEL_CONF :: string where
  "TP_CHANNEL_CONF = ''org.freedesktop.Telepathy.Channel.Interface.Conference''"

definition TP_CHANNEL_HOLD :: string where
  "TP_CHANNEL_HOLD = ''org.freedesktop.Telepathy.Channel.Interface.Hold''"

definition IS_CELLULAR :: "string \<Rightarrow> bool" where
  "IS_CELLULAR p \<longleftrightarrow> take (length TP_RING) p = TP_RING"

definition IS_CONF_PARENT :: "addr \<Rightarrow> tcall \<Rightarrow> bool" where
  "IS_CONF_PARENT a call \<longleftrightarrow> tc_parent call = Some a"

definition IS_CONF_MEMBER :: "addr \<Rightarrow> tcall \<Rightarrow> bool" where
  "IS_CONF_MEMBER a call \<longleftrightarrow> tc_parent call \<noteq> None \<and> tc_parent call \<noteq> Some a"

definition has_interface :: "string list \<Rightarrow> string \<Rightarrow> bool" where
  "has_interface interfaces interface \<longleftrightarrow> interface \<in> set interfaces"

definition call_lookup :: "cstring \<Rightarrow> 'm tstate \<Rightarrow> addr option" where
  "call_lookup path st =
     (case path of None \<Rightarrow> None
      | Some p \<Rightarrow> find (\<lambda>a. map_option tc_path (t_calls st a) = Some p) (t_table st))"

definition call_find :: "int \<Rightarrow> 'm tstate \<Rightarrow> addr option" where
  "call_find i st = find (\<lambda>a. map_option tc_id (t_calls st a) = Some i) (t_table st)"

fun call_foreach :: "(addr \<Rightarrow> 'm tstate \<Rightarrow> 'm tstate option) \<Rightarrow> addr list \<Rightarrow> 'm tstate \<Rightarrow> 'm tstate option" where
  "call_foreach f [] st = Some st"
| "call_foreach f (a # as) st = f a st \<bind> call_foreach f as"

text \<open>A call that hosts a conference has no timeout.  An array of interfaces that was never set is \<open>NULL\<close>.\<close>

definition call_register ::
  "call_type \<Rightarrow> string \<Rightarrow> cstring \<Rightarrow> cstring \<Rightarrow> u32 \<Rightarrow> bool \<Rightarrow> bool \<Rightarrow> string list option \<Rightarrow> 'm tstate \<Rightarrow>
    (addr \<times> 'm tstate) option" where
  "call_register ty path name peer peer_handle conference emergency interfaces st =
     (case interfaces of
        None \<Rightarrow> None
      | Some ifs \<Rightarrow>
          let a = t_nalloc st;
              conf = (conference \<or> has_interface ifs TP_CONFERENCE \<or> has_interface ifs TP_CHANNEL_CONF);
              call = \<lparr>tc_type = ty, tc_id = t_callid st, tc_name = name, tc_path = path, tc_peer = peer,
                tc_peer_handle = peer_handle, tc_local_handle = 0, tc_nmember = 0, tc_dir = DIR_UNKNOWN,
                tc_emergency = emergency, tc_state = STATE_UNKNOWN, tc_conf_state = STATE_UNKNOWN,
                tc_order = 0, tc_parent = (if conf then Some a else None), tc_connected = False,
                tc_fact = None, tc_audio_id = 0, tc_audio_content = None, tc_video_id = 0,
                tc_video_content = None, tc_timeout = 0, tc_holdable = has_interface ifs TP_CHANNEL_HOLD\<rparr>;
              st1 = st\<lparr>t_calls := (t_calls st)(a \<mapsto> call), t_nalloc := a + 1, t_table := t_table st @ [a],
                t_callid := t_callid st + 1,
                t_ncscall := (if IS_CELLULAR path then t_ncscall st + 1 else t_ncscall st),
                t_nipcall := (if IS_CELLULAR path then t_nipcall st else t_nipcall st + 1)\<rparr>
          in if conf then Some (a, st1)
             else (let (i, st2) = add_tsource (Call_timeout path) st1
                   in Some (a, upd_call a (tc_timeout_update (\<lambda>_. i)) st2)))"

definition call_destroy :: "addr \<Rightarrow> 'm tstate \<Rightarrow> 'm tstate" where
  "call_destroy a st =
     (case t_calls st a of
        None \<Rightarrow> st
      | Some call \<Rightarrow>
          (let st1 = (if tc_timeout call \<noteq> 0 then remove_tsource (tc_timeout call) st else st)
           in st1\<lparr>t_calls := (t_calls st1)(a := None)\<rparr>))"

definition call_unregister :: "'m tenv \<Rightarrow> string \<Rightarrow> 'm tstate \<Rightarrow> 'm tstate" where
  "call_unregister E path st =
     (case call_lookup (Some path) st of
        None \<Rightarrow> st
      | Some a \<Rightarrow>
          (let st1 = call_destroy a (st\<lparr>t_table := remove1 a (t_table st)\<rparr>);
               st2 = (if IS_CELLULAR path then st1\<lparr>t_ncscall := t_ncscall st1 - 1\<rparr>
                      else st1\<lparr>t_nipcall := t_nipcall st1 - 1\<rparr>);
               st3 = run_hook E HOOK_CALL_END st2
           in if t_ncscall st3 + t_nipcall st3 = 0 then run_hook E HOOK_LAST_CALL st3 else st3))"

subsection \<open>Requests to Telepathy\<close>

definition TP_CHANGE_REASON_BUSY :: u32 where "TP_CHANGE_REASON_BUSY = 3"

definition tp_call_disconnect :: "'m tenv \<Rightarrow> tcall \<Rightarrow> u32 \<Rightarrow> 'm tstate \<Rightarrow> bool \<times> 'm tstate" where
  "tp_call_disconnect E call why st =
     tp_send E (Tp_hangup (tc_path call) (if why = TP_CHANGE_REASON_BUSY then ''Busy'' else [])) st"

definition tp_sm_disconnect :: "'m tenv \<Rightarrow> tcall \<Rightarrow> u32 \<Rightarrow> 'm tstate \<Rightarrow> bool \<times> 'm tstate" where
  "tp_sm_disconnect E call why st =
     tp_send E (Tp_remove_members (tc_path call)
       (if tc_local_handle call \<noteq> 0 then tc_local_handle call else 1) why) st"

definition tp_channel_close :: "'m tenv \<Rightarrow> tcall \<Rightarrow> 'm tstate \<Rightarrow> bool \<times> 'm tstate" where
  "tp_channel_close E call st = tp_send E (Tp_close (tc_path call)) st"

definition tp_disconnect :: "'m tenv \<Rightarrow> tcall \<Rightarrow> string \<Rightarrow> 'm tstate \<Rightarrow> bool \<times> 'm tstate" where
  "tp_disconnect E call action st =
     (if action = ''busy''
      then (if tc_type call = CALL_TYPE_DRAFT then tp_call_disconnect E call TP_CHANGE_REASON_BUSY st
            else tp_sm_disconnect E call TP_CHANGE_REASON_BUSY st)
      else tp_channel_close E call st)"

definition tp_hold :: "'m tenv \<Rightarrow> tcall \<Rightarrow> bool \<Rightarrow> 'm tstate \<Rightarrow> bool \<times> 'm tstate" where
  "tp_hold E call held st = tp_send E (Tp_request_hold (tc_path call) held) st"

definition tp_start_dtmf :: "'m tenv \<Rightarrow> tcall \<Rightarrow> u32 \<Rightarrow> int \<Rightarrow> 'm tstate \<Rightarrow> bool \<times> 'm tstate" where
  "tp_start_dtmf E call stream tone st = tp_send E (Tp_start_tone (tc_path call) stream tone) st"

definition tp_stop_dtmf :: "'m tenv \<Rightarrow> tcall \<Rightarrow> u32 \<Rightarrow> 'm tstate \<Rightarrow> bool \<times> 'm tstate" where
  "tp_stop_dtmf E call stream st = tp_send E (Tp_stop_tone (tc_path call) stream) st"

subsection \<open>Actions\<close>

text \<open>
  What an action knows of the event: its type, its call and the state that is asked for.  The
  status codes of the actions are not used by \<open>event_handler\<close>.
\<close>

type_synonym 'm tevent = "'m event_id \<times> addr option \<times> call_state"

definition remove_parent :: "'m tenv \<Rightarrow> addr \<Rightarrow> addr \<Rightarrow> 'm tstate \<Rightarrow> 'm tstate option" where
  "remove_parent E parent a st =
     do {
       call \<leftarrow> t_calls st a;
       host \<leftarrow> t_calls st parent;
       (let clear = (tc_parent call = Some parent \<and> parent \<noteq> a);
            restore = (IS_CONF_PARENT parent host \<and> tc_state call = STATE_POST_CONFERENCE);
            st1 = (if clear then upd_call a (tc_parent_update (\<lambda>_. None)) st else st);
            st2 = (if restore then upd_call a (tc_state_update (\<lambda>_. tc_conf_state call)) st1 else st1);
            update = (if clear then {UPDATE_PARENT} else {}) \<union> (if restore then {UPDATE_STATE} else {})
        in if clear \<or> restore then policy_call_update E a update st2 else Some st2)
     }"

definition call_hungup :: "'m tenv \<Rightarrow> addr \<Rightarrow> string \<Rightarrow> 'm tevent \<Rightarrow> 'm tstate \<Rightarrow> 'm tstate option" where
  "call_hungup E a action event st =
     (case event of (_, _, state) \<Rightarrow>
        policy_call_update E a {UPDATE_STATE}
          (upd_call a (\<lambda>c. c\<lparr>tc_state := state, tc_conf_state := state\<rparr>) st))"

definition call_gone :: "'m tenv \<Rightarrow> addr \<Rightarrow> tcall \<Rightarrow> 'm tstate \<Rightarrow> 'm tstate" where
  "call_gone E a call st = call_unregister E (tc_path call) (policy_call_delete a st)"

definition call_disconnect :: "'m tenv \<Rightarrow> addr \<Rightarrow> string \<Rightarrow> 'm tevent \<Rightarrow> 'm tstate \<Rightarrow> 'm tstate option" where
  "call_disconnect E a action event st =
     do {
       call \<leftarrow> t_calls st a;
       (let st1 = (if action \<noteq> ''disconnected'' then snd (tp_disconnect E call action st) else st);
            wait = (\<lambda>s. Some (if action = ''disconnected'' then snd (tp_disconnect E call action s) else s))
        in case event of (_, ecall, state) \<Rightarrow>
          if ecall \<noteq> Some a then wait st1
          else do {
            st2 \<leftarrow> (if IS_CONF_PARENT a call then call_foreach (remove_parent E a) (t_table st1) st1 else Some st1);
            (if state \<in> {STATE_CREATED, STATE_CALLOUT}
             then (case tp_disconnect E call action st2 of
                     (False, st3) \<Rightarrow> Some st3
                   | (True, st3) \<Rightarrow> Some (call_gone E a call st3))
             else if state \<in> {STATE_DISCONNECTED, STATE_PEER_HUNGUP, STATE_LOCAL_HUNGUP}
             then Some (call_gone E a call st2)
             else wait st2)
          })
     }"

definition call_hold :: "'m tenv \<Rightarrow> addr \<Rightarrow> string \<Rightarrow> 'm tevent \<Rightarrow> 'm tstate \<Rightarrow> 'm tstate option" where
  "call_hold E a action event st =
     do {
       call \<leftarrow> t_calls st a;
       (let finish = (\<lambda>s state. map_option (run_hook E HOOK_CALL_ONHOLD)
              (policy_call_update E a {UPDATE_STATE} (upd_call a (tc_state_update (\<lambda>_. state)) s)))
        in case event of (ev, ecall, _) \<Rightarrow>
          if ecall = Some a
          then (case ev of
                  EVENT_CALL_HOLD_REQUEST req \<Rightarrow>
                    (case tp_hold E call True st of
                       (False, st1) \<Rightarrow> Some (t_note (Reply_hold req (Some ''Failed to hold call'')) st1)
                     | (True, st1) \<Rightarrow> finish (t_note (Reply_hold req None) st1) STATE_ON_HOLD)
                | _ \<Rightarrow> finish st (if tc_order call = 0 then STATE_ON_HOLD else STATE_AUTOHOLD))
          else (let st1 = (if action \<in> {''autohold'', ''cmtautohold''}
                       then (upd_call a (tc_order_update (\<lambda>_. t_holdorder st)) st)\<lparr>t_holdorder := t_holdorder st + 1\<rparr>
                       else st);
                    (ok, st2) = (if action = ''autohold'' then tp_hold E call True st1 else (True, st1))
                in if ok
                   then policy_call_update E a {UPDATE_STATE, UPDATE_ORDER}
                          (upd_call a (tc_state_update (\<lambda>_. STATE_AUTOHOLD)) st2)
                   else Some st2))
     }"

definition call_held :: "'m tenv \<Rightarrow> addr \<Rightarrow> string \<Rightarrow> 'm tevent \<Rightarrow> 'm tstate \<Rightarrow> 'm tstate option" where
  "call_held E a action event st =
     (case event of (_, _, state) \<Rightarrow>
        map_option (run_hook E HOOK_CALL_ONHOLD)
          (policy_call_update E a {UPDATE_STATE}
            (upd_call a (\<lambda>c. c\<lparr>tc_state := state,
               tc_conf_state := (if IS_CONF_MEMBER a c then state else tc_conf_state c)\<rparr>) st)))"

definition call_activate :: "'m tenv \<Rightarrow> addr \<Rightarrow> string \<Rightarrow> 'm tevent \<Rightarrow> 'm tstate \<Rightarrow> 'm tstate option" where
  "call_activate E a action event st =
     do {
       call \<leftarrow> t_calls st a;
       (case event of (ev, ecall, state) \<Rightarrow>
          if ecall = Some a \<and> state = STATE_ACTIVE
          then map_option
                 (case ev of
                    EVENT_CALL_ACCEPT_REQUEST _ \<Rightarrow> run_hook E HOOK_CALL_CONNECT
                  | EVENT_CALL_ACTIVATE_REQUEST _ \<Rightarrow> run_hook E HOOK_CALL_OFFHOLD
                  | _ \<Rightarrow> if tc_connected call then id else run_hook E HOOK_CALL_ACTIVE)
                 (policy_call_update E a {UPDATE_STATE, UPDATE_ORDER, UPDATE_CONNECT}
                   (upd_call a (\<lambda>c. c\<lparr>tc_state := STATE_ACTIVE, tc_order := 0, tc_connected := True\<rparr>) st))
          else (case (if action = ''cmtautoactivate'' then (True, st) else tp_hold E call False st) of
                  (False, st1) \<Rightarrow> Some st1
                | (True, st1) \<Rightarrow> policy_call_update E a {UPDATE_STATE} (upd_call a (tc_state_update (\<lambda>_. STATE_ACTIVE)) st1)))
     }"

definition call_create :: "'m tenv \<Rightarrow> addr \<Rightarrow> string \<Rightarrow> 'm tevent \<Rightarrow> 'm tstate \<Rightarrow> 'm tstate option" where
  "call_create E a action event st =
     map_option (\<lambda>st1. run_hook E HOOK_CALL_START
         (if t_ncscall st1 + t_nipcall st1 = 1 then run_hook E HOOK_FIRST_CALL st1 else st1))
       (policy_call_update E a {UPDATE_STATE} (upd_call a (tc_state_update (\<lambda>_. STATE_CREATED)) st))"

definition call_action :: "'m tenv \<Rightarrow> addr \<Rightarrow> string \<Rightarrow> 'm tevent \<Rightarrow> 'm tstate \<Rightarrow> 'm tstate option" where
  "call_action E a action =
     (if action \<in> {''peerhungup'', ''localhungup''} then call_hungup E a action
      else if action \<in> {''disconnected'', ''busy''} then call_disconnect E a action
      else if action \<in> {''onhold'', ''autohold'', ''cmtautohold''} then call_hold E a action
      else if action \<in> {''active'', ''cmtautoactivate''} then call_activate E a action
      else if action = ''created'' then call_create E a action
      else if action = ''held'' then call_held E a action
      else (\<lambda>_. Some))"
subsection \<open>Policy decisions\<close>

definition is_emergency :: "'m event_id \<Rightarrow> bool" where
  "is_emergency ev \<longleftrightarrow> (case ev of EVENT_EMERGENCY_ON _ \<Rightarrow> True | EVENT_EMERGENCY_OFF _ \<Rightarrow> True | _ \<Rightarrow> False)"

definition emergency_activate :: "'m tenv \<Rightarrow> bool \<Rightarrow> 'm \<Rightarrow> 'm tstate \<Rightarrow> 'm tstate" where
  "emergency_activate E activate req st =
     t_note (Reply_emergency req None)
       (if activate
        then run_hook E HOOK_CALL_ACTIVE (run_hook E HOOK_CALL_START
          (if t_ncscall st + t_nipcall st = 0 then run_hook E HOOK_FIRST_CALL st else st))
        else (let st1 = run_hook E HOOK_CALL_END st
              in if t_ncscall st1 + t_nipcall st1 = 0 then run_hook E HOOK_LAST_CALL st1 else st1))"

definition policy_actions :: "'m tenv \<Rightarrow> 'm tevent \<Rightarrow> 'm tstate \<Rightarrow> (int \<times> 'm tstate) option" where
  "policy_actions E event st =
     (case event of (ev, ecall, state) \<Rightarrow>
        if is_emergency ev then Some (1, st)
        else do {
          a \<leftarrow> ecall;
          call \<leftarrow> t_calls st a;
          (let st1 = t_note (Goal ''telephony_request''
                 [(''call_id'', dec_of_int (tc_id call)), (''call_state'', state_name state)]) st
           in Some (t_resolve E (t_log st1), st1))
        })"

text \<open>A field of the fact of the decisions: the id of a call and the action on it.\<close>

definition enforce_field :: "'m tenv \<Rightarrow> 'm tevent \<Rightarrow> string \<times> cstring \<Rightarrow> 'm tstate \<Rightarrow> 'm tstate option" where
  "enforce_field E event f st =
     (case f of
        (_, None) \<Rightarrow> Some st
      | (field, Some action) \<Rightarrow>
          (let (v, rest) = strtoul field
           in if rest \<noteq> [] then Some st
              else (case call_find (sint (word_of_int v :: u32)) st of
                      None \<Rightarrow> Some st
                    | Some a \<Rightarrow> call_action E a action event st)))"

fun enforce_fields :: "'m tenv \<Rightarrow> 'm tevent \<Rightarrow> (string \<times> cstring) list \<Rightarrow> 'm tstate \<Rightarrow> 'm tstate option" where
  "enforce_fields E event [] st = Some st"
| "enforce_fields E event (f # fs) st = enforce_field E event f st \<bind> enforce_fields E event fs"

definition policy_enforce :: "'m tenv \<Rightarrow> 'm tevent \<Rightarrow> 'm tstate \<Rightarrow> 'm tstate option" where
  "policy_enforce E event st =
     (case t_decisions E (t_log st) of
        [] \<Rightarrow> (case fst event of
                  EVENT_EMERGENCY_ON req \<Rightarrow> Some (emergency_activate E True req st)
                | EVENT_EMERGENCY_OFF req \<Rightarrow> Some (emergency_activate E False req st)
                | _ \<Rightarrow> Some st)
      | [upds] \<Rightarrow> enforce_fields E event upds st
      | _ \<Rightarrow> Some st)"

definition policy_audio_update :: "'m tstate \<Rightarrow> 'm tstate" where
  "policy_audio_update st = t_note (Goal ''telephony_audio_update'' []) st"

subsection \<open>The event handler\<close>

text \<open>The end of \<open>event_handler\<close>: the policy decides on the event.\<close>

definition handle_decided :: "'m tenv \<Rightarrow> 'm tevent \<Rightarrow> 'm tstate \<Rightarrow> 'm tstate option" where
  "handle_decided E event st =
     (case event of (ev, ecall, _) \<Rightarrow>
        if ecall = None \<and> \<not> is_emergency ev then Some st
        else do {
          (status, st1) \<leftarrow> policy_actions E event st;
          (if status \<le> 0 then Some st1 else map_option policy_audio_update (policy_enforce E event st1))
        })"

text \<open>A channel that is not known is registered, that of a known call only gets its direction.\<close>

definition new_channel ::
  "'m tenv \<Rightarrow> cstring \<Rightarrow> string \<Rightarrow> channel \<Rightarrow> addr option \<Rightarrow> 'm tstate \<Rightarrow> (addr \<times> 'm tstate) option" where
  "new_channel E name path ch ecall st =
     (case ecall of
        None \<Rightarrow>
          do {
            (a, st1) \<leftarrow> call_register (ch_type ch) path name (ch_peer ch) (ch_peer_handle ch)
              (ch_members ch \<noteq> None) (ch_emergency ch) (ch_interfaces ch) st;
            Some (a, policy_call_export E a (upd_call a (\<lambda>c. c\<lparr>tc_dir := ch_dir ch,
              tc_nmember := (if ch_nmember ch > 0 then ch_nmember ch else tc_nmember c),
              tc_local_handle := (if ch_localpend ch \<noteq> 0 then ch_localpend ch else tc_local_handle c)\<rparr>) st1))
          }
      | Some a \<Rightarrow>
          map_option (Pair a) (policy_call_update E a {UPDATE_DIR} (upd_call a (tc_dir_update (\<lambda>_. ch_dir ch)) st)))"

definition emergency_active :: "'m tenv \<Rightarrow> bool \<Rightarrow> 'm tstate \<Rightarrow> 'm tstate" where
  "emergency_active E active st = t_note (Emergency_state active) (st\<lparr>t_emergency := active\<rparr>)"

definition event_handler :: "'m tenv \<Rightarrow> 'm event_id \<Rightarrow> addr option \<Rightarrow> 'm tstate \<Rightarrow> 'm tstate option" where
  "event_handler E ev ecall st =
     (case ev of
        EVENT_NEW_CHANNEL name path ch \<Rightarrow>
          do {
            (a, st1) \<leftarrow> new_channel E name path ch ecall st;
            handle_decided E (ev, Some a, if ch_dir ch = DIR_OUTGOING then STATE_CALLOUT else STATE_CREATED) st1
          }
      | EVENT_CALL_REQUEST req \<Rightarrow>
          (case ecall of
             None \<Rightarrow> Some (t_note (Reply_proceed req True) st)
           | Some a \<Rightarrow> map_option (t_note (Reply_proceed req True)) (policy_call_update E a {UPDATE_DIR} st))
      | EVENT_EMERGENCY_ON _ \<Rightarrow> handle_decided E (ev, ecall, STATE_UNKNOWN) (emergency_active E True st)
      | EVENT_EMERGENCY_OFF _ \<Rightarrow> handle_decided E (ev, ecall, STATE_UNKNOWN) (emergency_active E False st)
      | EVENT_CALL_ACCEPTED \<Rightarrow>
          (case ecall of
             None \<Rightarrow> Some st
           | Some a \<Rightarrow>
               do {
                 call \<leftarrow> t_calls st a;
                 (if IS_CONF_PARENT a call \<and> tc_state call = STATE_ACTIVE then Some st
                  else handle_decided E (ev, ecall, STATE_ACTIVE) st)
               })
      | EVENT_CALL_ACTIVATED \<Rightarrow>
          (case ecall of
             None \<Rightarrow> Some st
           | Some a \<Rightarrow>
               do {
                 call \<leftarrow> t_calls st a;
                 (if IS_CONF_MEMBER a call then Some st else handle_decided E (ev, ecall, STATE_ACTIVE) st)
               })
      | EVENT_CALL_ACCEPT_REQUEST _ \<Rightarrow> handle_decided E (ev, ecall, STATE_ACTIVE) st
      | EVENT_CALL_HOLD_REQUEST _ \<Rightarrow> handle_decided E (ev, ecall, STATE_ON_HOLD) st
      | EVENT_CALL_ACTIVATE_REQUEST _ \<Rightarrow> handle_decided E (ev, ecall, STATE_ACTIVE) st
      | EVENT_CALL_PEER_HUNGUP \<Rightarrow> handle_decided E (ev, ecall, STATE_PEER_HUNGUP) st
      | EVENT_CALL_LOCAL_HUNGUP \<Rightarrow>
          handle_decided E (ev, ecall, STATE_LOCAL_HUNGUP) (run_hook E HOOK_LOCAL_HUNGUP st)
      | EVENT_CALL_HELD \<Rightarrow> handle_decided E (ev, ecall, STATE_ON_HOLD) st
      | EVENT_CHANNEL_CLOSED \<Rightarrow> handle_decided E (ev, ecall, STATE_DISCONNECTED) st
      | EVENT_CALL_ENDED \<Rightarrow> handle_decided E (ev, ecall, STATE_DISCONNECTED) st
      | EVENT_SENDING_DIALSTRING \<Rightarrow> Some (run_hook E HOOK_DIALSTRING_START st)
      | EVENT_STOPPED_DIALSTRING \<Rightarrow> Some (run_hook E HOOK_DIALSTRING_END st)
      | EVENT_DTMF_START req stream tone \<Rightarrow>
          do {
            a \<leftarrow> ecall;
            call \<leftarrow> t_calls st a;
            Some (t_note (Reply_dtmf req None) (snd (tp_start_dtmf E call stream tone (run_hook E HOOK_DTMF_START st))))
          }
      | EVENT_DTMF_STOP req stream \<Rightarrow>
          do {
            a \<leftarrow> ecall;
            call \<leftarrow> t_calls st a;
            Some (t_note (Reply_dtmf req None) (run_hook E HOOK_DTMF_END (snd (tp_stop_dtmf E call stream st))))
          }
      | EVENT_UNKNOWN \<Rightarrow> Some st)"

subsection \<open>Deferred signals\<close>

definition deferred_of :: "string \<Rightarrow> 'm tstate \<Rightarrow> (nat \<times> csignal) list" where
  "deferred_of path st = (case map_of (t_deferred st) path of None \<Rightarrow> [] | Some es \<Rightarrow> es)"

definition set_deferred :: "string \<Rightarrow> (nat \<times> csignal) list \<Rightarrow> 'm tstate \<Rightarrow> 'm tstate" where
  "set_deferred path es st = st\<lparr>t_deferred :=
     (if es = [] then [] else [(path, es)]) @ filter (\<lambda>(p, _). p \<noteq> path) (t_deferred st)\<rparr>"

definition event_enqueue :: "string \<Rightarrow> csignal \<Rightarrow> 'm tstate \<Rightarrow> 'm tstate" where
  "event_enqueue path sig st =
     (let (i, st1) = add_tsource (Event_timeout path) st
      in set_deferred path (deferred_of path st1 @ [(i, sig)]) st1)"

text \<open>The deferred signals of a path are on a ring: the signal that timed out leaves it, and the one
  behind it becomes the first.\<close>

definition event_timeout :: "nat \<Rightarrow> string \<Rightarrow> 'm tstate \<Rightarrow> 'm tstate" where
  "event_timeout i path st =
     (let es = deferred_of path st
      in if es = [] then st
         else set_deferred path (tl (dropWhile (\<lambda>(j, _). j \<noteq> i) es) @ takeWhile (\<lambda>(j, _). j \<noteq> i) es) st)"

definition call_timeout :: "'m tenv \<Rightarrow> string \<Rightarrow> 'm tstate \<Rightarrow> 'm tstate option" where
  "call_timeout E path st =
     (case call_lookup (Some path) st of
        None \<Rightarrow> Some st
      | Some a \<Rightarrow> event_handler E EVENT_CHANNEL_CLOSED (Some a) (upd_call a (tc_timeout_update (\<lambda>_. 0)) st))"
subsection \<open>Signals of a channel\<close>

definition channel_closed :: "'m tenv \<Rightarrow> string \<Rightarrow> 'm tstate \<Rightarrow> 'm tstate option" where
  "channel_closed E path st =
     (case call_lookup (Some path) st of
        None \<Rightarrow> Some st
      | Some a \<Rightarrow> event_handler E EVENT_CHANNEL_CLOSED (Some a) st)"

text \<open>The text that \<open>members_changed\<close> writes to a buffer of 1024 bytes.  A piece that does not fit is
  cut off, but its whole length is counted, so that the next piece is written behind the buffer.\<close>

definition dump :: "string \<Rightarrow> u32 list \<Rightarrow> string" where
  "dump what xs = what @ '': {'' @ concat (map (\<lambda>i. (if i = 0 then [] else '', '') @ dec_of_int (uint (xs ! i))) [0..<length xs]) @ ''}''"

definition details :: "members \<Rightarrow> string" where
  "details m = dump ''added'' (mm_added m) @ '', '' @ dump ''removed'' (mm_removed m) @ '', '' @
     dump ''localpend'' (mm_localpend m) @ '', '' @ dump ''remotepend'' (mm_remotepend m)"

definition details_overflow :: "members \<Rightarrow> bool" where
  "details_overflow m \<longleftrightarrow> length (butlast (details m)) > 1024"

definition members_event :: "'m tenv \<Rightarrow> addr \<Rightarrow> members \<Rightarrow> 'm tstate \<Rightarrow> 'm tstate option" where
  "members_event E a m st =
     do {
       call \<leftarrow> t_calls st a;
       (let nadded = mm_added m \<noteq> []; nremoved = mm_removed m \<noteq> [];
            nlocal = mm_localpend m \<noteq> []; nremote = mm_remotepend m \<noteq> []
        in if nremoved \<and> IS_CONF_PARENT a call then Some st
           else if nadded \<and> \<not> nlocal \<and> \<not> nremote
           then (if tc_state call \<noteq> STATE_ACTIVE \<and>
                    (tc_dir call = DIR_OUTGOING \<and> tc_peer_handle call = hd (mm_added m) \<or>
                     tc_dir call = DIR_INCOMING \<and> tc_local_handle call = hd (mm_added m) \<or>
                     tc_nmember call \<ge> 2)
                 then event_handler E EVENT_CALL_ACCEPTED (Some a) st else Some st)
           else if nlocal \<or> mm_remoteptr m
           then Some (if tc_dir call = DIR_INCOMING \<and> nlocal
                      then upd_call a (tc_local_handle_update (\<lambda>_. hd (mm_localpend m))) st
                      else if tc_dir call = DIR_OUTGOING \<and> nremote
                      then upd_call a (tc_peer_handle_update (\<lambda>_. hd (mm_remotepend m))) st
                      else st)
           else if nremoved \<and> \<not> nlocal \<and> \<not> nremote
           then event_handler E
                  (if tc_peer_handle call = (if mm_actor m \<noteq> 0 then mm_actor m else hd (mm_removed m))
                   then EVENT_CALL_PEER_HUNGUP else EVENT_CALL_LOCAL_HUNGUP) (Some a) st
           else Some st)
     }"

definition members_changed :: "'m tenv \<Rightarrow> string \<Rightarrow> members option \<Rightarrow> 'm tstate \<Rightarrow> 'm tstate option" where
  "members_changed E path args st =
     (case call_lookup (Some path) st of
        None \<Rightarrow> Some (event_enqueue path (Members_changed args) st)
      | Some a \<Rightarrow>
          (case args of
             None \<Rightarrow> Some st
           | Some m \<Rightarrow>
               if details_overflow m then None
               else members_event E a m
                      (upd_call a (\<lambda>c. c\<lparr>tc_nmember := tc_nmember c + int (length (mm_added m))\<rparr>) st)))"

definition TP_STREAM_TYPE_VIDEO :: u32 where "TP_STREAM_TYPE_VIDEO = 1"

definition stop_call_timeout :: "addr \<Rightarrow> 'm tstate \<Rightarrow> 'm tstate" where
  "stop_call_timeout a st =
     (case t_calls st a of
        None \<Rightarrow> st
      | Some call \<Rightarrow>
          if tc_timeout call \<noteq> 0
          then upd_call a (tc_timeout_update (\<lambda>_. 0)) (remove_tsource (tc_timeout call) st) else st)"

definition stream_added :: "'m tenv \<Rightarrow> string \<Rightarrow> (u32 \<times> u32 \<times> u32) option \<Rightarrow> 'm tstate \<Rightarrow> 'm tstate option" where
  "stream_added E path args st =
     (case args of
        None \<Rightarrow> Some st
      | Some (i, handle, type) \<Rightarrow>
          (case call_lookup (Some path) st of
             None \<Rightarrow> Some (event_enqueue path (Stream_added args) st)
           | Some a \<Rightarrow>
               (let st1 = stop_call_timeout a st
                in if type = TP_STREAM_TYPE_VIDEO
                   then map_option (\<lambda>st2.
                          let st3 = st2\<lparr>t_nvideo := t_nvideo st2 + 1\<rparr>
                          in if t_nvideo st3 \<ge> 1 then RESCTL_UPDATE E True st3 else st3)
                        (policy_call_update E a {UPDATE_VIDEO} (upd_call a (tc_video_id_update (\<lambda>_. i)) st1))
                   else Some (upd_call a (tc_audio_id_update (\<lambda>_. i)) st1))))"

definition video_gone :: "'m tenv \<Rightarrow> 'm tstate \<Rightarrow> 'm tstate" where
  "video_gone E st =
     (let st1 = st\<lparr>t_nvideo := t_nvideo st - 1\<rparr>
      in if t_nvideo st1 \<le> 0 then RESCTL_UPDATE E False st1 else st1)"

definition stream_removed :: "'m tenv \<Rightarrow> string \<Rightarrow> u32 option \<Rightarrow> 'm tstate \<Rightarrow> 'm tstate option" where
  "stream_removed E path args st =
     (case args of
        None \<Rightarrow> Some st
      | Some i \<Rightarrow>
          (case call_lookup (Some path) st of
             None \<Rightarrow> Some (event_enqueue path (Stream_removed args) st)
           | Some a \<Rightarrow>
               do {
                 call \<leftarrow> t_calls st a;
                 (if i = tc_audio_id call then Some (upd_call a (tc_audio_id_update (\<lambda>_. 0)) st)
                  else if i = tc_video_id call
                  then map_option (video_gone E)
                         (policy_call_update E a {UPDATE_VIDEO} (upd_call a (tc_video_id_update (\<lambda>_. 0)) st))
                  else Some st)
               }))"

definition content_added :: "'m tenv \<Rightarrow> string \<Rightarrow> (string \<times> u32) option \<Rightarrow> 'm tstate \<Rightarrow> 'm tstate option" where
  "content_added E path args st =
     (case args of
        None \<Rightarrow> Some st
      | Some (content, type) \<Rightarrow>
          (case call_lookup (Some path) st of
             None \<Rightarrow> Some (event_enqueue path (Content_added args) st)
           | Some a \<Rightarrow>
               (let st1 = stop_call_timeout a st
                in if type = TP_STREAM_TYPE_VIDEO
                   then policy_call_update E a {UPDATE_VIDEO} (upd_call a (tc_video_content_update (\<lambda>_. Some content)) st1)
                   else Some (upd_call a (tc_audio_content_update (\<lambda>_. Some content)) st1))))"

definition content_removed :: "'m tenv \<Rightarrow> string \<Rightarrow> string option \<Rightarrow> 'm tstate \<Rightarrow> 'm tstate option" where
  "content_removed E path args st =
     (case args of
        None \<Rightarrow> Some st
      | Some content \<Rightarrow>
          (case call_lookup (Some path) st of
             None \<Rightarrow> Some (event_enqueue path (Content_removed args) st)
           | Some a \<Rightarrow>
               do {
                 call \<leftarrow> t_calls st a;
                 (if tc_audio_content call = Some content
                  then Some (upd_call a (tc_audio_content_update (\<lambda>_. None)) st)
                  else if tc_video_content call = Some content
                  then map_option (video_gone E)
                         (policy_call_update E a {UPDATE_VIDEO} (upd_call a (tc_video_content_update (\<lambda>_. None)) st))
                  else Some st)
               }))"

definition TP_UNHELD :: u32 where "TP_UNHELD = 0"
definition TP_HELD :: u32 where "TP_HELD = 1"

text \<open>A member of a conference only takes the state over, and so does its conference, which is followed.\<close>

definition hold_state_changed :: "'m tenv \<Rightarrow> string \<Rightarrow> (u32 \<times> u32) option \<Rightarrow> 'm tstate \<Rightarrow> 'm tstate option" where
  "hold_state_changed E path args st =
     (case call_lookup (Some path) st of
        None \<Rightarrow> Some st
      | Some a \<Rightarrow>
          (case args of
             None \<Rightarrow> Some st
           | Some (state, reason) \<Rightarrow>
               do {
                 call \<leftarrow> t_calls st a;
                 (if state \<noteq> TP_HELD \<and> state \<noteq> TP_UNHELD \<or>
                     state = TP_HELD \<and> tc_state call = STATE_ON_HOLD \<or>
                     state = TP_UNHELD \<and> tc_state call = STATE_ACTIVE then Some st
                  else if IS_CONF_MEMBER a call
                  then (let conf = (if state = TP_HELD then STATE_ON_HOLD else STATE_ACTIVE);
                            st1 = upd_call a (tc_conf_state_update (\<lambda>_. conf)) st
                        in do {
                          p \<leftarrow> tc_parent call;
                          host \<leftarrow> t_calls st1 p;
                          Some (upd_call p (tc_state_update (\<lambda>_. conf)) st1)
                        })
                  else if tc_state call = STATE_LOCAL_HUNGUP \<or> tc_state call = STATE_PEER_HUNGUP then Some st
                  else event_handler E (if state = TP_HELD then EVENT_CALL_HELD else EVENT_CALL_ACTIVATED) (Some a) st)
               }))"

text \<open>The state of the peer is only logged.\<close>

definition call_state_changed :: "'m tstate \<Rightarrow> 'm tstate option" where
  "call_state_changed st = Some st"

definition TP_CALLDRAFT_PENDING_INITIATOR :: u32 where "TP_CALLDRAFT_PENDING_INITIATOR = 1"
definition TP_CALLDRAFT_PENDING_RECEIVER :: u32 where "TP_CALLDRAFT_PENDING_RECEIVER = 2"
definition TP_CALLDRAFT_ACCEPTED :: u32 where "TP_CALLDRAFT_ACCEPTED = 3"
definition TP_CALLDRAFT_ENDED :: u32 where "TP_CALLDRAFT_ENDED = 4"
definition SELF_HANDLE :: u32 where "SELF_HANDLE = 1"

text \<open>The arguments are the state, the flags, the actor and the reason.  When no case sets the type of
  the event, it is what the stack holds.\<close>

definition call_draft_state_changed ::
  "'m tenv \<Rightarrow> string \<Rightarrow> (u32 \<times> u32 \<times> u32 \<times> u32) option \<Rightarrow> 'm tstate \<Rightarrow> 'm tstate option" where
  "call_draft_state_changed E path args st =
     (case call_lookup (Some path) st of
        None \<Rightarrow> Some (event_enqueue path (Call_draft_state_changed args) st)
      | Some a \<Rightarrow>
          (case args of
             None \<Rightarrow> Some st
           | Some (state, flags, actor, reason) \<Rightarrow>
               do {
                 call \<leftarrow> t_calls st a;
                 (if state = TP_CALLDRAFT_PENDING_INITIATOR \<or> state = TP_CALLDRAFT_PENDING_RECEIVER then Some st
                  else event_handler E
                    (if state = TP_CALLDRAFT_ACCEPTED \<and> tc_state call \<noteq> STATE_ACTIVE then EVENT_CALL_ACCEPTED
                     else if state = TP_CALLDRAFT_ENDED
                     then (if actor = tc_local_handle call \<or> actor = SELF_HANDLE
                           then EVENT_CALL_LOCAL_HUNGUP else EVENT_CALL_PEER_HUNGUP)
                     else t_stack E (t_log st)) (Some a) st)
               }))"

definition with_member ::
  "string \<Rightarrow> (string option \<Rightarrow> csignal) \<Rightarrow> string option \<Rightarrow> (addr \<Rightarrow> addr \<Rightarrow> 'm tstate \<Rightarrow> 'm tstate option) \<Rightarrow>
    'm tstate \<Rightarrow> 'm tstate option" where
  "with_member path sig args f st =
     (case args of
        None \<Rightarrow> Some st
      | Some channel \<Rightarrow>
          (case (call_lookup (Some path) st, call_lookup (Some channel) st) of
             (Some parent, Some member) \<Rightarrow> f parent member st
           | _ \<Rightarrow> Some (event_enqueue path (sig args) st)))"

definition join_conference :: "'m tenv \<Rightarrow> addr \<Rightarrow> addr \<Rightarrow> 'm tstate \<Rightarrow> 'm tstate option" where
  "join_conference E parent member st =
     policy_call_update E member {UPDATE_STATE, UPDATE_PARENT}
       (upd_call member (\<lambda>c. c\<lparr>tc_conf_state := tc_state c, tc_state := STATE_CONFERENCE, tc_parent := Some parent\<rparr>) st)"

definition leave_conference :: "'m tenv \<Rightarrow> addr \<Rightarrow> addr \<Rightarrow> 'm tstate \<Rightarrow> 'm tstate option" where
  "leave_conference E parent member st =
     policy_call_update E member {UPDATE_STATE, UPDATE_PARENT}
       (upd_call member (\<lambda>c. c\<lparr>tc_state := tc_conf_state c, tc_parent := None\<rparr>) st)"

definition channel_merged :: "'m tenv \<Rightarrow> string \<Rightarrow> string option \<Rightarrow> 'm tstate \<Rightarrow> 'm tstate option" where
  "channel_merged E path args = with_member path Channel_merged args (join_conference E)"

definition channel_removed :: "'m tenv \<Rightarrow> string \<Rightarrow> string option \<Rightarrow> 'm tstate \<Rightarrow> 'm tstate option" where
  "channel_removed E path args = with_member path Channel_removed args (leave_conference E)"

definition member_channel_added :: "'m tenv \<Rightarrow> string \<Rightarrow> string option \<Rightarrow> 'm tstate \<Rightarrow> 'm tstate option" where
  "member_channel_added E path args = with_member path Member_channel_added args (join_conference E)"

definition member_channel_removed :: "'m tenv \<Rightarrow> string \<Rightarrow> string option \<Rightarrow> 'm tstate \<Rightarrow> 'm tstate option" where
  "member_channel_removed E path args = with_member path Member_channel_removed args (leave_conference E)"

definition sending_dialstring :: "'m tenv \<Rightarrow> string \<Rightarrow> 'm tstate \<Rightarrow> 'm tstate option" where
  "sending_dialstring E path st =
     (if t_tonegen st then Some st else event_handler E EVENT_SENDING_DIALSTRING (call_lookup (Some path) st) st)"

definition stopped_dialstring :: "'m tenv \<Rightarrow> string \<Rightarrow> 'm tstate \<Rightarrow> 'm tstate option" where
  "stopped_dialstring E path st =
     (if t_tonegen st then Some st else event_handler E EVENT_STOPPED_DIALSTRING (call_lookup (Some path) st) st)"

text \<open>The part of \<open>dispatch_signal\<close> for the signals of a channel.\<close>

fun dispatch_call :: "'m tenv \<Rightarrow> string \<Rightarrow> csignal \<Rightarrow> 'm tstate \<Rightarrow> 'm tstate option" where
  "dispatch_call E path Closed = channel_closed E path"
| "dispatch_call E path (Members_changed args) = members_changed E path args"
| "dispatch_call E path (Stream_added args) = stream_added E path args"
| "dispatch_call E path (Stream_removed args) = stream_removed E path args"
| "dispatch_call E path (Content_added args) = content_added E path args"
| "dispatch_call E path (Content_removed args) = content_removed E path args"
| "dispatch_call E path (Hold_state_changed args) = hold_state_changed E path args"
| "dispatch_call E path (Call_state_changed args) = call_state_changed"
| "dispatch_call E path (Call_draft_state_changed args) = call_draft_state_changed E path args"
| "dispatch_call E path (Channel_merged args) = channel_merged E path args"
| "dispatch_call E path (Channel_removed args) = channel_removed E path args"
| "dispatch_call E path (Member_channel_added args) = member_channel_added E path args"
| "dispatch_call E path (Member_channel_removed args) = member_channel_removed E path args"
| "dispatch_call E path Sending_dialstring = sending_dialstring E path"
| "dispatch_call E path Stopped_dialstring = stopped_dialstring E path"

fun dispatch_deferred :: "'m tenv \<Rightarrow> string \<Rightarrow> (nat \<times> csignal) list \<Rightarrow> 'm tstate \<Rightarrow> 'm tstate option" where
  "dispatch_deferred E path [] st = Some st"
| "dispatch_deferred E path ((i, sig) # es) st =
     dispatch_call E path sig (remove_tsource i st) \<bind> dispatch_deferred E path es"

definition event_dequeue :: "'m tenv \<Rightarrow> string \<Rightarrow> 'm tstate \<Rightarrow> 'm tstate option" where
  "event_dequeue E path st = dispatch_deferred E path (deferred_of path st) (set_deferred path [] st)"
subsection \<open>New channels\<close>

definition TP_CHANNEL_MEDIA :: string where
  "TP_CHANNEL_MEDIA = ''org.freedesktop.Telepathy.Channel.Type.StreamedMedia''"

definition TP_CHANNEL_CALL :: string where
  "TP_CHANNEL_CALL = ''org.freedesktop.Telepathy.Channel.Type.Call1''"

definition PROP_CHANNEL_TYPE :: string where "PROP_CHANNEL_TYPE = ''org.freedesktop.Telepathy.Channel.ChannelType''"
definition PROP_TARGET_ID :: string where "PROP_TARGET_ID = ''org.freedesktop.Telepathy.Channel.TargetID''"
definition PROP_REQUESTED :: string where "PROP_REQUESTED = ''org.freedesktop.Telepathy.Channel.Requested''"
definition PROP_INITIATOR_HANDLE :: string where
  "PROP_INITIATOR_HANDLE = ''org.freedesktop.Telepathy.Channel.InitiatorHandle''"
definition PROP_TARGET_HANDLE :: string where
  "PROP_TARGET_HANDLE = ''org.freedesktop.Telepathy.Channel.TargetHandle''"
definition PROP_INITIATOR_ID :: string where "PROP_INITIATOR_ID = ''org.freedesktop.Telepathy.Channel.InitiatorID''"
definition PROP_INITIAL_MEMBERS :: string where
  "PROP_INITIAL_MEMBERS = ''com.nokia.Telepathy.Channel.Interface.Conference.InitialMembers''"
definition PROP_DRAFT_INITIAL_CHANNELS :: string where
  "PROP_DRAFT_INITIAL_CHANNELS = ''org.freedesktop.Telepathy.Channel.Interface.Conference.DRAFT.InitialChannels''"
definition PROP_INITIAL_CHANNELS :: string where
  "PROP_INITIAL_CHANNELS = ''org.freedesktop.Telepathy.Channel.Interface.Conference.InitialChannels''"
definition PROP_EMERGENCY :: string where
  "PROP_EMERGENCY = ''com.nokia.Telepathy.Channel.Interface.Emergency.InitialEmergencyService''"
definition PROP_INTERFACES :: string where "PROP_INTERFACES = ''org.freedesktop.Telepathy.Channel.Interfaces''"
definition INITIATOR_SELF :: string where "INITIATOR_SELF = ''<self>''"
definition MAX_MEMBERS :: nat where "MAX_MEMBERS = 8"
definition MAX_INTERFACES :: nat where "MAX_INTERFACES = 64"

text \<open>The values of a property as far as they are read.\<close>

datatype dvalue = DV_string string | DV_handle u32 | DV_boolean bool | DV_path string
  | DV_array "dvalue list" | DV_other

text \<open>What the loop over the properties has read so far.\<close>

record chparse =
  cp_type :: bool
  cp_requested :: "bool option"
  cp_initiator :: cstring
  cp_init_handle :: u32
  cp_target_handle :: u32
  cp_channel :: channel

fun variant_array :: "(dvalue \<Rightarrow> string option) \<Rightarrow> nat \<Rightarrow> dvalue list \<Rightarrow> string list option" where
  "variant_array f n [] = Some []"
| "variant_array f n (v # vs) =
     (if n = 0 then None
      else (case f v of None \<Rightarrow> None | Some s \<Rightarrow> map_option (Cons s) (variant_array f (n - 1) vs)))"

definition path_of :: "dvalue \<Rightarrow> string option" where
  "path_of v = (case v of DV_path s \<Rightarrow> Some s | _ \<Rightarrow> None)"

definition string_of :: "dvalue \<Rightarrow> string option" where
  "string_of v = (case v of DV_string s \<Rightarrow> Some s | _ \<Rightarrow> None)"

definition array_of :: "(dvalue \<Rightarrow> string option) \<Rightarrow> nat \<Rightarrow> dvalue \<Rightarrow> string list option" where
  "array_of f max_n v = (case v of DV_array vs \<Rightarrow> variant_array f (max_n - 1) vs | _ \<Rightarrow> None)"

definition set_channel :: "(channel \<Rightarrow> channel) \<Rightarrow> chparse \<Rightarrow> chparse" where
  "set_channel f p = p\<lparr>cp_channel := f (cp_channel p)\<rparr>"

text \<open>A property of the wrong type ends the handler.\<close>

definition parse_property :: "string \<times> dvalue \<Rightarrow> chparse \<Rightarrow> chparse option" where
  "parse_property nv p =
     (case nv of (name, v) \<Rightarrow>
        if name = PROP_CHANNEL_TYPE
        then (case string_of v of
                None \<Rightarrow> None
              | Some t \<Rightarrow>
                  if t = TP_CHANNEL_MEDIA then Some (set_channel (ch_type_update (\<lambda>_. CALL_TYPE_SM)) (p\<lparr>cp_type := True\<rparr>))
                  else if t = TP_CHANNEL_CALL then Some (set_channel (ch_type_update (\<lambda>_. CALL_TYPE_DRAFT)) (p\<lparr>cp_type := True\<rparr>))
                  else None)
        else if name = PROP_TARGET_ID
        then map_option (\<lambda>s. set_channel (ch_peer_update (\<lambda>_. Some s)) p) (string_of v)
        else if name = PROP_REQUESTED
        then (case v of
                DV_boolean b \<Rightarrow> Some (set_channel (ch_dir_update (\<lambda>_. if b then DIR_OUTGOING else DIR_INCOMING))
                  (p\<lparr>cp_requested := Some b\<rparr>))
              | _ \<Rightarrow> None)
        else if name = PROP_INITIATOR_HANDLE
        then (case v of DV_handle h \<Rightarrow> Some (p\<lparr>cp_init_handle := h\<rparr>) | _ \<Rightarrow> None)
        else if name = PROP_TARGET_HANDLE
        then (case v of DV_handle h \<Rightarrow> Some (p\<lparr>cp_target_handle := h\<rparr>) | _ \<Rightarrow> None)
        else if name = PROP_INITIATOR_ID
        then map_option (\<lambda>s. p\<lparr>cp_initiator := Some s\<rparr>) (string_of v)
        else if name \<in> {PROP_INITIAL_MEMBERS, PROP_DRAFT_INITIAL_CHANNELS, PROP_INITIAL_CHANNELS}
        then map_option (\<lambda>ps. set_channel (ch_members_update (\<lambda>_. Some ps)) p) (array_of path_of MAX_MEMBERS v)
        else if name = PROP_EMERGENCY then Some (set_channel (ch_emergency_update (\<lambda>_. True)) p)
        else if name = PROP_INTERFACES
        then map_option (\<lambda>is. set_channel (ch_interfaces_update (\<lambda>_. Some is)) p) (array_of string_of MAX_INTERFACES v)
        else Some p)"

fun parse_properties :: "(string \<times> dvalue) list \<Rightarrow> chparse \<Rightarrow> chparse option" where
  "parse_properties [] p = Some p"
| "parse_properties (nv # ps) p = parse_property nv p \<bind> parse_properties ps"

definition no_channel :: channel where
  "no_channel = \<lparr>ch_type = CALL_TYPE_SM, ch_peer = None, ch_members = None, ch_dir = DIR_UNKNOWN, ch_peer_handle = 0,
     ch_emergency = False, ch_localpend = 0, ch_nmember = 0, ch_interfaces = None\<rparr>"

definition no_parse :: chparse where
  "no_parse = \<lparr>cp_type = False, cp_requested = None, cp_initiator = None, cp_init_handle = 0, cp_target_handle = 0,
     cp_channel = no_channel\<rparr>"

definition parsed_channel :: "chparse \<Rightarrow> channel" where
  "parsed_channel p =
     (let dir = (case (cp_requested p, cp_initiator p) of
            (None, Some i) \<Rightarrow> if i = INITIATOR_SELF then DIR_OUTGOING else DIR_INCOMING
          | _ \<Rightarrow> ch_dir (cp_channel p))
      in (cp_channel p)\<lparr>ch_dir := dir,
           ch_peer_handle := (if dir = DIR_INCOMING then cp_init_handle p else cp_target_handle p)\<rparr>)"

text \<open>The signal announces several channels; what was read of one is not reset for the next, and one
  event is raised, for the path of the last one.\<close>

definition channels_new :: "'m tenv \<Rightarrow> cstring \<Rightarrow> (string \<times> (string \<times> dvalue) list) list option \<Rightarrow> 'm tstate \<Rightarrow> 'm tstate option" where
  "channels_new E sender args st =
     (case args of
        None \<Rightarrow> Some st
      | Some chans \<Rightarrow>
          (case parse_properties (concat (map snd chans)) no_parse of
             None \<Rightarrow> Some st
           | Some p \<Rightarrow>
               if \<not> cp_type p \<or> chans = [] then Some st
               else (let path = fst (last chans)
                     in event_handler E (EVENT_NEW_CHANNEL sender path (parsed_channel p)) (call_lookup (Some path) st) st
                        \<bind> event_dequeue E path)))"

text \<open>The old signal: the rest of the event is what the stack holds.\<close>

definition channel_new :: "'m tenv \<Rightarrow> cstring \<Rightarrow> (string \<times> string) option \<Rightarrow> 'm tstate \<Rightarrow> 'm tstate option" where
  "channel_new E sender args st =
     (case args of
        None \<Rightarrow> Some st
      | Some (path, type) \<Rightarrow>
          if type \<noteq> TP_CHANNEL_MEDIA \<or> call_lookup (Some path) st \<noteq> None then Some st
          else event_handler E (EVENT_NEW_CHANNEL sender path (t_stack_channel E (t_log st))) None st)"

subsection \<open>Other signals and requests\<close>

definition call_end :: "'m tenv \<Rightarrow> string option \<Rightarrow> 'm tstate \<Rightarrow> 'm tstate option" where
  "call_end E args st =
     (case args of None \<Rightarrow> Some st | Some path \<Rightarrow> event_handler E EVENT_CALL_ENDED (call_lookup (Some path) st) st)"

definition dtmf_mute :: "'m tenv \<Rightarrow> bool option \<Rightarrow> 'm tstate \<Rightarrow> 'm tstate option" where
  "dtmf_mute E args st =
     (case args of
        None \<Rightarrow> Some st
      | Some mute \<Rightarrow>
          event_handler E (if mute then EVENT_SENDING_DIALSTRING else EVENT_STOPPED_DIALSTRING) None (st\<lparr>t_tonegen := True\<rparr>))"

definition TP_STREAMENGINE_NAME :: string where "TP_STREAMENGINE_NAME = ''org.maemo.Telepathy.StreamEngine''"

definition name_owner_changed :: "'m tenv \<Rightarrow> (string \<times> string \<times> string) option \<Rightarrow> 'm tstate \<Rightarrow> 'm tstate" where
  "name_owner_changed E args st =
     (case args of
        None \<Rightarrow> st
      | Some (name, before, after) \<Rightarrow>
          if name \<noteq> TP_STREAMENGINE_NAME then st
          else if after = [] then RESCTL_VIDEO_PID E 0 (st\<lparr>t_video_pid := 0\<rparr>)
          else t_note (Query_pid after) (st\<lparr>t_video_pid := 0\<rparr>))"

definition CSD_STATUS_ACCEPTED :: u32 where "CSD_STATUS_ACCEPTED = 8"

definition find_any_call :: "'m tstate \<Rightarrow> addr option" where
  "find_any_call st = (case t_table st of [] \<Rightarrow> None | a # _ \<Rightarrow> Some a)"

definition csd_call_status :: "'m tenv \<Rightarrow> u32 option \<Rightarrow> 'm tstate \<Rightarrow> 'm tstate option" where
  "csd_call_status E args st =
     (case args of
        None \<Rightarrow> Some st
      | Some status \<Rightarrow>
          if \<not> t_kludge E \<or> status \<noteq> CSD_STATUS_ACCEPTED \<or> t_ncscall st \<noteq> 1 \<or> t_nipcall st \<noteq> 0 then Some st
          else (case find_any_call st of
                  None \<Rightarrow> Some st
                | Some a \<Rightarrow>
                    do {
                      call \<leftarrow> t_calls st a;
                      (if tc_state call = STATE_ACTIVE then Some st else event_handler E EVENT_CALL_ACCEPTED (Some a) st)
                    }))"

definition call_request :: "'m tenv \<Rightarrow> 'm \<Rightarrow> string option \<Rightarrow> 'm tstate \<Rightarrow> 'm tstate option" where
  "call_request E msg args st =
     (case args of None \<Rightarrow> Some st
      | Some path \<Rightarrow> event_handler E (EVENT_CALL_REQUEST msg) (call_lookup (Some path) st) st)"

definition accept_call_request :: "'m tenv \<Rightarrow> 'm \<Rightarrow> string option \<Rightarrow> 'm tstate \<Rightarrow> 'm tstate option" where
  "accept_call_request E msg args st =
     (case args of None \<Rightarrow> Some st
      | Some path \<Rightarrow> event_handler E (EVENT_CALL_ACCEPT_REQUEST msg) (call_lookup (Some path) st) st)"

definition hold_call_request :: "'m tenv \<Rightarrow> 'm \<Rightarrow> (string \<times> bool) option \<Rightarrow> 'm tstate \<Rightarrow> 'm tstate option" where
  "hold_call_request E msg args st =
     (case args of
        None \<Rightarrow> Some st
      | Some (path, hold) \<Rightarrow>
          (case call_lookup (Some path) st of
             None \<Rightarrow> Some (t_note (Reply_hold msg (Some ''unknown call'')) st)
           | Some a \<Rightarrow>
               event_handler E (if hold then EVENT_CALL_HOLD_REQUEST msg else EVENT_CALL_ACTIVATE_REQUEST msg) (Some a) st))"

definition dtmf_start_request :: "'m tenv \<Rightarrow> 'm \<Rightarrow> (string \<times> u32 \<times> int) option \<Rightarrow> 'm tstate \<Rightarrow> 'm tstate option" where
  "dtmf_start_request E msg args st =
     (case args of None \<Rightarrow> Some st
      | Some (path, stream, tone) \<Rightarrow> event_handler E (EVENT_DTMF_START msg stream tone) (call_lookup (Some path) st) st)"

definition dtmf_stop_request :: "'m tenv \<Rightarrow> 'm \<Rightarrow> (string \<times> u32) option \<Rightarrow> 'm tstate \<Rightarrow> 'm tstate option" where
  "dtmf_stop_request E msg args st =
     (case args of None \<Rightarrow> Some st
      | Some (path, stream) \<Rightarrow> event_handler E (EVENT_DTMF_STOP msg stream) (call_lookup (Some path) st) st)"

definition emergency_call_request :: "'m tenv \<Rightarrow> 'm \<Rightarrow> bool option \<Rightarrow> 'm tstate \<Rightarrow> 'm tstate option" where
  "emergency_call_request E msg args st =
     (case args of
        None \<Rightarrow> Some (t_note (Reply_emergency msg (Some ''Failed to parse request.'')) st)
      | Some active \<Rightarrow> event_handler E (if active then EVENT_EMERGENCY_ON msg else EVENT_EMERGENCY_OFF msg) None st)"

subsection \<open>Everything that can happen\<close>

definition call_init :: "'m tstate \<Rightarrow> 'm tstate" where
  "call_init st = st\<lparr>t_ncscall := 0, t_nipcall := 0, t_nvideo := 0, t_callid := 1, t_holdorder := 1,
     t_calls := (\<lambda>_. None), t_table := [], t_deferred := []\<rparr>"

text \<open>The tables are destroyed with the timers of what is on them.\<close>

definition call_exit :: "'m tstate \<Rightarrow> 'm tstate" where
  "call_exit st =
     (let st1 = fold call_destroy (t_table st) st;
          st2 = fold (\<lambda>(i, _). remove_tsource i) (concat (map snd (t_deferred st1))) st1
      in st2\<lparr>t_table := [], t_deferred := [], t_ncscall := 0, t_nipcall := 0\<rparr>)"

definition plugin_reconnect :: "'m tstate \<Rightarrow> 'm tstate" where
  "plugin_reconnect st = call_init (call_exit st)"

definition fire_tsource :: "'m tenv \<Rightarrow> nat \<Rightarrow> 'm tstate \<Rightarrow> 'm tstate option" where
  "fire_tsource E i st =
     (case map_of (t_sources st) i of
        None \<Rightarrow> Some st
      | Some (Call_timeout path) \<Rightarrow> call_timeout E path (remove_tsource i st)
      | Some (Event_timeout path) \<Rightarrow> Some (event_timeout i path (remove_tsource i st)))"

datatype 'm tinput =
    T_signal string csignal
  | T_new_channel cstring "(string \<times> string) option"
  | T_new_channels cstring "(string \<times> (string \<times> dvalue) list) list option"
  | T_call_end "string option"
  | T_mute "bool option"
  | T_name_owner "(string \<times> string \<times> string) option"
  | T_csd_status "u32 option"
  | T_call_request 'm "string option"
  | T_accept_request 'm "string option"
  | T_hold_request 'm "(string \<times> bool) option"
  | T_dtmf_start 'm "(string \<times> u32 \<times> int) option"
  | T_dtmf_stop 'm "(string \<times> u32) option"
  | T_emergency 'm "bool option"
  | T_timer nat
  | T_grant u32
  | T_unregister
  | T_manager_up bool
  | T_reconnect

fun tel_step :: "'m tenv \<Rightarrow> 'm tinput \<Rightarrow> 'm tstate \<Rightarrow> 'm tstate option" where
  "tel_step E (T_signal path sig) st = dispatch_call E path sig st"
| "tel_step E (T_new_channel sender args) st = channel_new E sender args st"
| "tel_step E (T_new_channels sender args) st = channels_new E sender args st"
| "tel_step E (T_call_end args) st = call_end E args st"
| "tel_step E (T_mute args) st = dtmf_mute E args st"
| "tel_step E (T_name_owner args) st = Some (name_owner_changed E args st)"
| "tel_step E (T_csd_status args) st = csd_call_status E args st"
| "tel_step E (T_call_request msg args) st = call_request E msg args st"
| "tel_step E (T_accept_request msg args) st = accept_call_request E msg args st"
| "tel_step E (T_hold_request msg args) st = hold_call_request E msg args st"
| "tel_step E (T_dtmf_start msg args) st = dtmf_start_request E msg args st"
| "tel_step E (T_dtmf_stop msg args) st = dtmf_stop_request E msg args st"
| "tel_step E (T_emergency msg args) st = emergency_call_request E msg args st"
| "tel_step E (T_timer i) st = fire_tsource E i st"
| "tel_step E (T_grant resrc) st = Some (resctl_grant resrc st)"
| "tel_step E T_unregister st = Some (resctl_unregister st)"
| "tel_step E (T_manager_up ok) st = Some (resctl_connect ok st)"
| "tel_step E T_reconnect st = Some (plugin_reconnect st)"

definition tel_start :: "'m tenv \<Rightarrow> bool \<Rightarrow> 'm tstate" where
  "tel_start E ok =
     (let st = call_init \<lparr>t_calls = (\<lambda>_. None), t_nalloc = 1, t_table = [], t_ncscall = 0, t_nipcall = 0, t_nvideo = 0,
        t_callid = 0, t_holdorder = 0, t_tonegen = False, t_video_pid = 0, t_emergency = False, t_deferred = [],
        t_sources = [], t_nsource = 1, t_rset = False, t_granted = 0, t_releasing = False, t_reqno = 0,
        t_rvideo = False, t_log = []\<rparr>
      in if t_disabled E then st else resctl_connect ok st)"

inductive tel_reach :: "'m tenv \<Rightarrow> 'm tstate \<Rightarrow> bool" for E where
  start: "tel_reach E (tel_start E ok)"
| step: "tel_reach E st \<Longrightarrow> tel_step E input st = Some st' \<Longrightarrow> tel_reach E st'"
end
