(* ===== verification/Telephony_Inv.thy ===== *)
theory Telephony_Inv
  imports Telephony Option_Post
begin

text \<open>
  The invariant of the telephony plugin: the table holds exactly the live calls, whose paths and ids
  differ, and the two counters count them.  Every operation keeps it and has a result, but for the
  situations that \<open>hazard\<close> lists.
\<close>

subsection \<open>The invariant\<close>

definition t_key :: "'m tstate \<Rightarrow> addr \<Rightarrow> (string \<times> int) option" where
  "t_key st a = map_option (\<lambda>c. (tc_path c, tc_id c)) (t_calls st a)"

definition t_live :: "'m tstate \<Rightarrow> addr \<Rightarrow> bool" where
  "t_live st a \<longleftrightarrow> t_key st a \<noteq> None"

definition cellular :: "(addr \<Rightarrow> (string \<times> int) option) \<Rightarrow> addr \<Rightarrow> bool" where
  "cellular key a \<longleftrightarrow> (case key a of None \<Rightarrow> False | Some (p, _) \<Rightarrow> IS_CELLULAR p)"

text \<open>The signals that wait for their channel.\<close>

definition deferrable :: "csignal \<Rightarrow> bool" where
  "deferrable sig \<longleftrightarrow>
     (case sig of Closed \<Rightarrow> False | Hold_state_changed _ \<Rightarrow> False | Call_state_changed _ \<Rightarrow> False
      | Sending_dialstring \<Rightarrow> False | Stopped_dialstring \<Rightarrow> False | _ \<Rightarrow> True)"

definition tel_ok :: "'m tstate \<Rightarrow> bool" where
  "tel_ok st \<longleftrightarrow>
     (\<forall>a. t_key st a \<noteq> None \<longrightarrow> a < t_nalloc st) \<and>
     distinct (t_table st) \<and>
     (\<forall>a. a \<in> set (t_table st) \<longleftrightarrow> t_key st a \<noteq> None) \<and>
     (\<forall>a b p i j. t_key st a = Some (p, i) \<longrightarrow> t_key st b = Some (p, j) \<longrightarrow> a = b) \<and>
     (\<forall>a b p q i. t_key st a = Some (p, i) \<longrightarrow> t_key st b = Some (q, i) \<longrightarrow> a = b) \<and>
     (\<forall>a p i. t_key st a = Some (p, i) \<longrightarrow> i < t_callid st) \<and>
     t_ncscall st = int (length (filter (cellular (t_key st)) (t_table st))) \<and>
     t_nipcall st = int (length (filter (\<lambda>a. \<not> cellular (t_key st) a) (t_table st))) \<and>
     list_all (\<lambda>(_, es). list_all (\<lambda>(_, sig). deferrable sig) es) (t_deferred st)"

text \<open>What the invariant speaks of.  An operation that keeps the shape keeps the invariant, which
  calls are live and what the lookups find.\<close>

type_synonym tshape = "(addr \<Rightarrow> (string \<times> int) option) \<times> addr \<times> addr list \<times> int \<times> int \<times> int \<times>
  (string \<times> (nat \<times> csignal) list) list"

definition t_shape :: "'m tstate \<Rightarrow> tshape" where
  "t_shape st = (t_key st, t_nalloc st, t_table st, t_ncscall st, t_nipcall st, t_callid st, t_deferred st)"

definition tshape_ok :: "tshape \<Rightarrow> bool" where
  "tshape_ok s \<longleftrightarrow> (case s of (key, nalloc, table, ncscall, nipcall, callid, deferred) \<Rightarrow>
     (\<forall>a. key a \<noteq> None \<longrightarrow> a < nalloc) \<and> distinct table \<and> (\<forall>a. a \<in> set table \<longleftrightarrow> key a \<noteq> None) \<and>
     (\<forall>a b p i j. key a = Some (p, i) \<longrightarrow> key b = Some (p, j) \<longrightarrow> a = b) \<and>
     (\<forall>a b p q i. key a = Some (p, i) \<longrightarrow> key b = Some (q, i) \<longrightarrow> a = b) \<and>
     (\<forall>a p i. key a = Some (p, i) \<longrightarrow> i < callid) \<and>
     ncscall = int (length (filter (cellular key) table)) \<and>
     nipcall = int (length (filter (\<lambda>a. \<not> cellular key a) table)) \<and>
     list_all (\<lambda>(_, es). list_all (\<lambda>(_, sig). deferrable sig) es) deferred)"

lemma tel_ok_shape: "tel_ok st \<longleftrightarrow> tshape_ok (t_shape st)"
  unfolding tel_ok_def tshape_ok_def t_shape_def prod.case ..

lemma tel_live_shape: "t_live st a \<longleftrightarrow> fst (t_shape st) a \<noteq> None"
  by (simp add: t_live_def t_shape_def)

lemma table_shape: "t_table st = fst (snd (snd (t_shape st)))"
  by (simp add: t_shape_def)

lemma live_iff: "t_live st a \<longleftrightarrow> (\<exists>c. t_calls st a = Some c)"
  by (auto simp: t_live_def t_key_def)

lemma liveE: "t_live st a \<Longrightarrow> (\<And>c. t_calls st a = Some c \<Longrightarrow> P) \<Longrightarrow> P"
  by (auto simp: live_iff)

lemma live_table: "tel_ok st \<Longrightarrow> a \<in> set (t_table st) \<longleftrightarrow> t_live st a"
  by (simp add: tel_ok_def t_live_def)

subsection \<open>Operations that leave the table alone\<close>

named_theorems tkeeps \<open>operations that keep \<open>t_shape\<close>\<close>

lemma tkeeps_upd_call:
  "(\<And>c. tc_path (f c) = tc_path c \<and> tc_id (f c) = tc_id c) \<Longrightarrow> t_shape (upd_call a f st) = t_shape st"
  by (auto simp: t_shape_def upd_call_def t_key_def fun_eq_iff option.map_comp comp_def)

lemma tkeeps_basic [tkeeps]:
  "t_shape (t_note x st) = t_shape st"
  "t_shape (remove_tsource i st) = t_shape st"
  "t_shape (snd (add_tsource s st)) = t_shape st"
  "t_shape (next_treqno st) = t_shape st"
  "t_shape (snd (tp_send E x st)) = t_shape st"
  by (simp_all add: t_shape_def t_note_def remove_tsource_def add_tsource_def next_treqno_def
      tp_send_def t_key_def fun_eq_iff)

lemma tkeeps_updates [tkeeps]:
  "t_shape (upd_call a (tc_state_update g1) st) = t_shape st"
  "t_shape (upd_call a (tc_conf_state_update g1) st) = t_shape st"
  "t_shape (upd_call a (tc_parent_update g2) st) = t_shape st"
  "t_shape (upd_call a (tc_order_update g3) st) = t_shape st"
  "t_shape (upd_call a (tc_fact_update g4) st) = t_shape st"
  "t_shape (upd_call a (tc_timeout_update g5) st) = t_shape st"
  "t_shape (upd_call a (tc_dir_update g6) st) = t_shape st"
  "t_shape (upd_call a (tc_local_handle_update g7) st) = t_shape st"
  "t_shape (upd_call a (tc_peer_handle_update g7) st) = t_shape st"
  "t_shape (upd_call a (tc_audio_id_update g7) st) = t_shape st"
  "t_shape (upd_call a (tc_video_id_update g7) st) = t_shape st"
  "t_shape (upd_call a (tc_audio_content_update g8) st) = t_shape st"
  "t_shape (upd_call a (tc_video_content_update g8) st) = t_shape st"
  by (simp_all add: tkeeps_upd_call)

lemma tkeeps_state_fields [tkeeps]:
  "t_shape (st\<lparr>t_rset := b\<rparr>) = t_shape st"
  "t_shape (st\<lparr>t_rvideo := b\<rparr>) = t_shape st"
  "t_shape (st\<lparr>t_releasing := b\<rparr>) = t_shape st"
  "t_shape (st\<lparr>t_granted := w\<rparr>) = t_shape st"
  "t_shape (st\<lparr>t_nvideo := n\<rparr>) = t_shape st"
  "t_shape (st\<lparr>t_holdorder := n\<rparr>) = t_shape st"
  "t_shape (st\<lparr>t_emergency := b\<rparr>) = t_shape st"
  "t_shape (st\<lparr>t_tonegen := b\<rparr>) = t_shape st"
  "t_shape (st\<lparr>t_video_pid := n\<rparr>) = t_shape st"
  by (simp_all add: t_shape_def t_key_def fun_eq_iff)

lemma tkeeps_resctl [tkeeps]:
  "t_shape (resctl_connect ok st) = t_shape st"
  "t_shape (resctl_unregister st) = t_shape st"
  "t_shape (resctl_grant w st) = t_shape st"
  "t_shape (resctl_update v st) = t_shape st"
  "t_shape (resctl_acquire st) = t_shape st"
  "t_shape (resctl_release st) = t_shape st"
  "t_shape (resctl_video_pid pid st) = t_shape st"
  by (simp_all add: resctl_connect_def resctl_unregister_def resctl_grant_def resctl_update_def
      resctl_acquire_def resctl_release_def resctl_video_pid_def tkeeps)

lemma tkeeps_realloc [tkeeps]:
  "t_shape (RESCTL_REALLOC E st) = t_shape st"
  "t_shape (RESCTL_UPDATE E v st) = t_shape st"
  "t_shape (RESCTL_VIDEO_PID E pid st) = t_shape st"
  "t_shape (run_hook E h st) = t_shape st"
  by (simp_all add: RESCTL_REALLOC_def resctl_realloc_def RESCTL_UPDATE_def RESCTL_VIDEO_PID_def run_hook_def
      Let_def tkeeps)

lemma tkeeps_facts [tkeeps]:
  "t_shape (policy_call_export E a st) = t_shape st"
  "t_shape (policy_call_delete a st) = t_shape st"
  by (simp_all add: policy_call_export_def policy_call_delete_def tkeeps split: option.split)

lemma tkeeps_tp [tkeeps]:
  "t_shape (snd (tp_disconnect E call action st)) = t_shape st"
  "t_shape (snd (tp_hold E call held st)) = t_shape st"
  "t_shape (snd (tp_start_dtmf E call stream tone st)) = t_shape st"
  "t_shape (snd (tp_stop_dtmf E call stream st)) = t_shape st"
  by (simp_all add: tp_disconnect_def tp_call_disconnect_def tp_sm_disconnect_def tp_channel_close_def
      tp_hold_def tp_start_dtmf_def tp_stop_dtmf_def tkeeps)

lemma tkeeps_misc [tkeeps]:
  "t_shape (emergency_activate E b req st) = t_shape st"
  "t_shape (policy_audio_update st) = t_shape st"
  "t_shape (emergency_active E b st) = t_shape st"
  "t_shape (stop_call_timeout a st) = t_shape st"
  "t_shape (video_gone E st) = t_shape st"
  "t_shape (name_owner_changed E args st) = t_shape st"
  by (simp_all add: emergency_activate_def policy_audio_update_def emergency_active_def
      stop_call_timeout_def video_gone_def name_owner_changed_def Let_def split_beta tkeeps
      split: option.split)


abbreviation t_keeps :: "'m tstate \<Rightarrow> 'm tstate option \<Rightarrow> bool" where
  "t_keeps st m \<equiv> returns (\<lambda>st'. t_shape st' = t_shape st) m"

lemma parent_field_returns:
  assumes "UPDATE_PARENT \<in> U \<Longrightarrow> (case tc_parent c of None \<Rightarrow> True | Some p \<Rightarrow> t_live st p)"
  shows "parent_field U c st f \<noteq> None"
  using assms by (auto simp: parent_field_def live_iff split: option.splits)

lemma policy_call_update_keeps:
  assumes "t_live st a"
    and "\<And>c. UPDATE_PARENT \<in> U \<Longrightarrow> t_calls st a = Some c \<Longrightarrow> (case tc_parent c of None \<Rightarrow> True | Some p \<Rightarrow> t_live st p)"
  shows "t_keeps st (policy_call_update E a U st)"
proof -
  obtain c where c: "t_calls st a = Some c" using assms(1) by (rule liveE)
  show ?thesis
  proof (cases "tc_fact c")
    case (Some f)
    obtain f' where "parent_field U c st f = Some f'"
      using parent_field_returns [where U = U and c = c and st = st, OF assms(2) [OF _ c]] by blast
    then show ?thesis by (simp add: policy_call_update_def c Some tkeeps)
  qed (simp add: policy_call_update_def c tkeeps)
qed

subsection \<open>Outcomes\<close>

lemma outcome_live:
  assumes "t_live st a" and "\<And>c. t_calls st a = Some c \<Longrightarrow> outcome H P (f c)"
  shows "outcome H P (t_calls st a \<bind> f)"
  using assms by (auto elim: liveE)

lemma outcome_keeps:
  assumes "t_keeps s m" and "tel_ok s"
  shows "outcome H tel_ok m"
  using assms by (auto simp: tel_ok_shape outcome_def elim: returnsE)

lemmas oc_splits = outcome_if outcome_option outcome_live

lemma call_update_ok:
  assumes "t_live s a" and "tel_ok s"
    and "\<And>c. UPDATE_PARENT \<in> U \<Longrightarrow> t_calls s a = Some c \<Longrightarrow> (case tc_parent c of None \<Rightarrow> True | Some p \<Rightarrow> t_live s p)"
  shows "outcome H tel_ok (policy_call_update E a U s)"
  by (rule outcome_keeps [OF policy_call_update_keeps]) (use assms in auto)

subsection \<open>The table\<close>

lemma call_lookup_Some:
  assumes "tel_ok st" and "call_lookup p st = Some a"
  shows "t_live st a" and "p = map_option fst (t_key st a)"
proof -
  obtain q where p: "p = Some q" and f: "find (\<lambda>a. map_option tc_path (t_calls st a) = Some q) (t_table st) = Some a"
    using assms(2) by (auto simp: call_lookup_def split: option.splits)
  from f obtain c where "a \<in> set (t_table st)" "t_calls st a = Some c" "tc_path c = q"
    by (auto simp: find_Some_iff)
  then show "t_live st a" "p = map_option fst (t_key st a)"
    by (auto simp: live_iff t_key_def p)
qed

lemma call_lookup_None:
  assumes "tel_ok st" and "call_lookup (Some p) st = None"
  shows "t_key st a \<noteq> Some (p, i)"
proof
  assume k: "t_key st a = Some (p, i)"
  then have "a \<in> set (t_table st)" by (simp add: live_table [OF assms(1)] t_live_def)
  with assms(2) k show False by (auto simp: call_lookup_def find_None_iff t_key_def)
qed

lemma call_find_live: "tel_ok st \<Longrightarrow> call_find i st = Some a \<Longrightarrow> t_live st a"
  by (auto simp: call_find_def find_Some_iff live_iff)


lemma length_filter_remove1:
  "distinct xs \<Longrightarrow> a \<in> set xs \<Longrightarrow>
    int (length (filter P (remove1 a xs))) = int (length (filter P xs)) - (if P a then 1 else 0)"
  by (induction xs) auto

lemma cellular_upd: "cellular (key(a := v)) b = (if b = a then cellular (\<lambda>_. v) b else cellular key b)"
  by (simp add: cellular_def)

lemma shape_ok_add:
  assumes ok: "tshape_ok (key, n, tab, cs, ip, cid, df)" and new: "\<And>b i. key b \<noteq> Some (path, i)"
  shows "tshape_ok (key(n \<mapsto> (path, cid)), n + 1, tab @ [n], (if IS_CELLULAR path then cs + 1 else cs),
    (if IS_CELLULAR path then ip else ip + 1), cid + 1, df)"
proof -
  have alloc: "\<And>a. key a \<noteq> None \<Longrightarrow> a < n" and dist: "distinct tab" and tab: "\<And>a. a \<in> set tab \<longleftrightarrow> key a \<noteq> None"
    and paths: "\<And>a b p i j. key a = Some (p, i) \<Longrightarrow> key b = Some (p, j) \<Longrightarrow> a = b"
    and ids: "\<And>a b p q i. key a = Some (p, i) \<Longrightarrow> key b = Some (q, i) \<Longrightarrow> a = b"
    and below: "\<And>a p i. key a = Some (p, i) \<Longrightarrow> i < cid"
    and df: "list_all (\<lambda>(_, es). list_all (\<lambda>(_, sig). deferrable sig) es) df"
    and count: "cs = int (length (filter (cellular key) tab))" "ip = int (length (filter (\<lambda>a. \<not> cellular key a) tab))"
    using ok unfolding tshape_ok_def prod.case by blast+
  have fresh: "n \<notin> set tab" using alloc tab by blast
  have cell: "filter (cellular (key(n \<mapsto> (path, cid)))) tab = filter (cellular key) tab"
    "filter (\<lambda>a. \<not> cellular (key(n \<mapsto> (path, cid))) a) tab = filter (\<lambda>a. \<not> cellular key a) tab"
    using fresh by (auto simp: cellular_upd intro!: filter_cong split: if_splits)
  have cn: "cellular (key(n \<mapsto> (path, cid))) n = IS_CELLULAR path" by (simp add: cellular_def)
  show ?thesis
    unfolding tshape_ok_def prod.case
  proof (intro conjI)
    show "\<forall>a. (key(n \<mapsto> (path, cid))) a \<noteq> None \<longrightarrow> a < n + 1"
      using alloc less_SucI by (auto simp: less_Suc_eq)
    show "distinct (tab @ [n])" using dist fresh by simp
    show "\<forall>a. a \<in> set (tab @ [n]) \<longleftrightarrow> (key(n \<mapsto> (path, cid))) a \<noteq> None" using tab by auto
    show "\<forall>a b p i j. (key(n \<mapsto> (path, cid))) a = Some (p, i) \<longrightarrow> (key(n \<mapsto> (path, cid))) b = Some (p, j) \<longrightarrow> a = b"
      using paths new by (auto split: if_splits)
    show "\<forall>a b p q i. (key(n \<mapsto> (path, cid))) a = Some (p, i) \<longrightarrow> (key(n \<mapsto> (path, cid))) b = Some (q, i) \<longrightarrow> a = b"
      using ids below by (fastforce split: if_splits)
    show "\<forall>a p i. (key(n \<mapsto> (path, cid))) a = Some (p, i) \<longrightarrow> i < cid + 1"
      using below by (auto split: if_splits intro: less_imp_le)
  qed (simp_all add: cell cn count df)
qed

lemma shape_ok_remove:
  assumes ok: "tshape_ok (key, n, tab, cs, ip, cid, df)" and a: "key a = Some (path, i)"
  shows "tshape_ok (key(a := None), n, remove1 a tab, (if IS_CELLULAR path then cs - 1 else cs),
    (if IS_CELLULAR path then ip else ip - 1), cid, df)"
proof -
  have alloc: "\<And>a. key a \<noteq> None \<Longrightarrow> a < n" and dist: "distinct tab" and tab: "\<And>a. a \<in> set tab \<longleftrightarrow> key a \<noteq> None"
    and paths: "\<And>a b p i j. key a = Some (p, i) \<Longrightarrow> key b = Some (p, j) \<Longrightarrow> a = b"
    and ids: "\<And>a b p q i. key a = Some (p, i) \<Longrightarrow> key b = Some (q, i) \<Longrightarrow> a = b"
    and below: "\<And>a p i. key a = Some (p, i) \<Longrightarrow> i < cid"
    and df: "list_all (\<lambda>(_, es). list_all (\<lambda>(_, sig). deferrable sig) es) df"
    and count: "cs = int (length (filter (cellular key) tab))" "ip = int (length (filter (\<lambda>a. \<not> cellular key a) tab))"
    using ok unfolding tshape_ok_def prod.case by blast+
  have mem: "a \<in> set tab" using tab a by blast
  have ca: "cellular key a = IS_CELLULAR path" by (simp add: cellular_def a)
  have cell: "filter (cellular (key(a := None))) (remove1 a tab) = filter (cellular key) (remove1 a tab)"
    "filter (\<lambda>b. \<not> cellular (key(a := None)) b) (remove1 a tab) = filter (\<lambda>b. \<not> cellular key b) (remove1 a tab)"
    using dist by (auto simp: cellular_upd intro!: filter_cong split: if_splits)
  show ?thesis
    unfolding tshape_ok_def prod.case
  proof (intro conjI)
    show "\<forall>b. (key(a := None)) b \<noteq> None \<longrightarrow> b < n" using alloc by auto
    show "distinct (remove1 a tab)" using dist by simp
    show "\<forall>b. b \<in> set (remove1 a tab) \<longleftrightarrow> (key(a := None)) b \<noteq> None" using tab dist by auto
    show "\<forall>b c p i j. (key(a := None)) b = Some (p, i) \<longrightarrow> (key(a := None)) c = Some (p, j) \<longrightarrow> b = c"
      using paths by (auto split: if_splits)
    show "\<forall>b c p q i. (key(a := None)) b = Some (p, i) \<longrightarrow> (key(a := None)) c = Some (q, i) \<longrightarrow> b = c"
      using ids by (auto split: if_splits)
    show "\<forall>b p i. (key(a := None)) b = Some (p, i) \<longrightarrow> i < cid" using below by (auto split: if_splits)
  qed (simp_all add: cell count df length_filter_remove1 [OF dist mem] ca)
qed

lemma call_register_ok:
  assumes "tel_ok st" and "call_lookup (Some path) st = None" and "ifs \<noteq> None"
  shows "returns (\<lambda>(a, st'). tel_ok st' \<and> t_live st' a)
    (call_register ty path name peer ph conference emergency ifs st)"
proof -
  obtain l where l: "ifs = Some l" using assms(3) by blast
  obtain a st' where r: "call_register ty path name peer ph conference emergency ifs st = Some (a, st')"
    by (cases "call_register ty path name peer ph conference emergency ifs st")
      (auto simp: call_register_def l Let_def add_tsource_def split: if_splits)
  have shape: "t_shape st' = ((t_key st)(t_nalloc st \<mapsto> (path, t_callid st)), t_nalloc st + 1,
      t_table st @ [t_nalloc st], (if IS_CELLULAR path then t_ncscall st + 1 else t_ncscall st),
      (if IS_CELLULAR path then t_nipcall st else t_nipcall st + 1), t_callid st + 1, t_deferred st)"
    and a: "a = t_nalloc st"
    using r by (auto simp: call_register_def l Let_def add_tsource_def upd_call_def t_shape_def t_key_def fun_eq_iff
        split: if_splits)
  have "tshape_ok (t_key st, t_nalloc st, t_table st, t_ncscall st, t_nipcall st, t_callid st, t_deferred st)"
    using assms(1) by (simp add: tel_ok_shape t_shape_def)
  from shape_ok_add [OF this call_lookup_None [OF assms(1,2)]]
  have "tel_ok st'" by (simp add: tel_ok_shape shape)
  moreover have "t_live st' a" by (simp add: tel_live_shape shape a)
  ultimately show ?thesis by (simp add: r)
qed

lemma call_unregister_ok:
  assumes "tel_ok st" shows "tel_ok (call_unregister E path st)"
proof (cases "call_lookup (Some path) st")
  case (Some a)
  obtain i where key: "t_key st a = Some (path, i)"
    using call_lookup_Some(2) [OF assms Some] by (cases "t_key st a") auto
  obtain c where c: "t_calls st a = Some c" using key by (auto simp: t_key_def)
  let ?st1 = "call_destroy a (st\<lparr>t_table := remove1 a (t_table st)\<rparr>)"
  let ?st2 = "if IS_CELLULAR path then ?st1\<lparr>t_ncscall := t_ncscall ?st1 - 1\<rparr> else ?st1\<lparr>t_nipcall := t_nipcall ?st1 - 1\<rparr>"
  have "t_shape ?st2 = ((t_key st)(a := None), t_nalloc st, remove1 a (t_table st),
      (if IS_CELLULAR path then t_ncscall st - 1 else t_ncscall st),
      (if IS_CELLULAR path then t_nipcall st else t_nipcall st - 1), t_callid st, t_deferred st)"
    by (auto simp: call_destroy_def c remove_tsource_def Let_def t_shape_def t_key_def fun_eq_iff)
  moreover have "tshape_ok (t_key st, t_nalloc st, t_table st, t_ncscall st, t_nipcall st, t_callid st, t_deferred st)"
    using assms by (simp add: tel_ok_shape t_shape_def)
  ultimately have "tshape_ok (t_shape ?st2)"
    using shape_ok_remove [where key = "t_key st" and a = a] key by simp
  then show ?thesis
    by (simp add: call_unregister_def Some tel_ok_shape tkeeps Let_def)
qed (simp add: call_unregister_def assms)

subsection \<open>Actions\<close>

lemma upd_call_get: "t_calls (upd_call a f st) b = (if b = a then map_option f (t_calls st a) else t_calls st b)"
  by (simp add: upd_call_def)

lemmas shape_simps = tel_ok_shape tel_live_shape tkeeps

lemma live_keeps: "t_shape s = t_shape st \<Longrightarrow> t_live st a \<Longrightarrow> t_live s a"
  by (simp add: tel_live_shape)

lemma ok_keeps: "t_shape s = t_shape st \<Longrightarrow> tel_ok st \<Longrightarrow> tel_ok s"
  by (simp add: tel_ok_shape)

lemma tkeeps_upd_record [tkeeps]:
  "t_shape (upd_call a (\<lambda>c. c\<lparr>tc_state := f1 c, tc_conf_state := f2 c\<rparr>) st) = t_shape st"
  "t_shape (upd_call a (\<lambda>c. c\<lparr>tc_state := f1 c, tc_order := f3 c, tc_connected := f4 c\<rparr>) st) = t_shape st"
  "t_shape (upd_call a (\<lambda>c. c\<lparr>tc_dir := f5 c, tc_nmember := f6 c, tc_local_handle := f7 c\<rparr>) st) = t_shape st"
  "t_shape (upd_call a (\<lambda>c. c\<lparr>tc_nmember := f6 c\<rparr>) st) = t_shape st"
  "t_shape (upd_call a (\<lambda>c. c\<lparr>tc_conf_state := f1 c, tc_state := f2 c, tc_parent := f8 c\<rparr>) st) = t_shape st"
  "t_shape (upd_call a (\<lambda>c. c\<lparr>tc_state := f1 c, tc_parent := f8 c\<rparr>) st) = t_shape st"
  by (simp_all add: tkeeps_upd_call)

lemma remove_parent_keeps:
  assumes "t_live st a" and "t_live st p"
  shows "t_keeps st (remove_parent E p a st)"
proof -
  obtain call host where c: "t_calls st a = Some call" and h: "t_calls st p = Some host"
    using assms by (blast elim: liveE)
  define clear where "clear = (tc_parent call = Some p \<and> p \<noteq> a)"
  define restore where "restore = (IS_CONF_PARENT p host \<and> tc_state call = STATE_POST_CONFERENCE)"
  define st1 where "st1 = (if clear then upd_call a (tc_parent_update (\<lambda>_. None)) st else st)"
  define st2 where "st2 = (if restore then upd_call a (tc_state_update (\<lambda>_. tc_conf_state call)) st1 else st1)"
  define U where "U = (if clear then {UPDATE_PARENT} else {}) \<union> (if restore then {UPDATE_STATE} else {})"
  have eq: "remove_parent E p a st = (if clear \<or> restore then policy_call_update E a U st2 else Some st2)"
    unfolding remove_parent_def c h bind.bind_lunit Let_def clear_def restore_def st1_def st2_def U_def ..
  have shape: "t_shape st2 = t_shape st" by (simp add: st2_def st1_def tkeeps)
  have "t_keeps st2 (policy_call_update E a U st2)"
  proof (rule policy_call_update_keeps)
    show "t_live st2 a" using live_keeps [OF shape assms(1)] .
    fix c' assume "UPDATE_PARENT \<in> U" "t_calls st2 a = Some c'"
    then show "case tc_parent c' of None \<Rightarrow> True | Some q \<Rightarrow> t_live st2 q"
      by (auto simp: U_def st2_def st1_def upd_call_get c split: if_splits)
  qed
  then show ?thesis by (simp add: eq shape)
qed

lemma call_foreach_keeps:
  fixes st s :: "'m tstate"
  assumes "\<And>x s. t_shape s = t_shape st \<Longrightarrow> x \<in> set xs \<Longrightarrow> t_keeps s (f x s)" and "t_shape s = t_shape st"
  shows "returns (\<lambda>s'. t_shape s' = t_shape st) (call_foreach f xs s)"
  using assms
proof (induction xs arbitrary: s)
  case (Cons x xs)
  show ?case
    unfolding call_foreach.simps
  proof (rule returns_bind)
    show "t_keeps s (f x s)" using Cons.prems by simp
    fix s' :: "'m tstate" assume "t_shape s' = t_shape s"
    then show "returns (\<lambda>s'. t_shape s' = t_shape st) (call_foreach f xs s')"
      using Cons.prems by (intro Cons.IH) simp_all
  qed
qed simp

lemma remove_parents_keeps:
  fixes st :: "'m tstate"
  assumes "tel_ok st" and "t_live st p"
  shows "t_keeps st (call_foreach (remove_parent E p) (t_table st) st)"
proof (rule call_foreach_keeps)
  fix x and s :: "'m tstate" assume s: "t_shape s = t_shape st" and "x \<in> set (t_table st)"
  then have "t_live s x" "t_live s p"
    using assms by (simp_all add: live_table live_keeps [OF s])
  then show "t_keeps s (remove_parent E p x s)" by (rule remove_parent_keeps)
qed simp

lemma call_update_shape:
  "t_shape s = t_shape st \<Longrightarrow> tel_ok st \<Longrightarrow> t_live st a \<Longrightarrow> UPDATE_PARENT \<notin> U \<Longrightarrow>
    outcome H tel_ok (policy_call_update E a U s)"
  by (rule call_update_ok) (simp_all add: shape_simps)

lemma outcome_map_keeps:
  assumes "outcome H tel_ok m" and "\<And>s. t_shape (f s) = t_shape s"
  shows "outcome H (\<lambda>s. tel_ok (f s)) m"
  by (rule outcome_mono [OF assms(1)]) (simp add: tel_ok_shape assms(2))

lemma call_update_then:
  assumes "t_shape s = t_shape st" and "tel_ok st" and "t_live st a" and "UPDATE_PARENT \<notin> U"
    and "\<And>s. t_shape (f s) = t_shape s"
  shows "outcome H tel_ok (map_option f (policy_call_update E a U s))"
  unfolding outcome_map_option by (rule outcome_map_keeps [OF call_update_shape [OF assms(1-4)] assms(5)])

lemma call_hungup_ok:
  "tel_ok st \<Longrightarrow> t_live st a \<Longrightarrow> outcome H tel_ok (call_hungup E a action event st)"
  by (cases event) (simp add: call_hungup_def call_update_shape [where st = st] tkeeps)

lemma call_gone_ok: "tel_ok st \<Longrightarrow> tel_ok (call_gone E a call st)"
  unfolding call_gone_def by (rule call_unregister_ok) (simp add: shape_simps)

lemma call_disconnect_ok:
  assumes ok: "tel_ok st" and live: "t_live st a"
  shows "outcome H tel_ok (call_disconnect E a action event st)"
proof -
  obtain call where call: "t_calls st a = Some call" using live by (rule liveE)
  obtain ev ecall state where event: "event = (ev, ecall, state)" by (cases event)
  define st1 where "st1 = (if action \<noteq> ''disconnected'' then snd (tp_disconnect E call action st) else st)"
  have st1: "t_shape st1 = t_shape st" by (simp add: st1_def tkeeps)
  define wait where "wait = (\<lambda>s. Some (if action = ''disconnected'' then snd (tp_disconnect E call action s) else s))"
  have wait: "outcome H tel_ok (wait s)" if "tel_ok s" for s using that by (simp add: wait_def shape_simps)
  have members: "outcome H tel_ok (if IS_CONF_PARENT a call then call_foreach (remove_parent E a) (t_table st1) st1 else Some st1)"
    using outcome_keeps [OF remove_parents_keeps [OF ok_keeps [OF st1 ok] live_keeps [OF st1 live]] ok_keeps [OF st1 ok]]
      ok_keeps [OF st1 ok] by simp
  have gone: "outcome H tel_ok (case tp_disconnect E call action s of (False, s') \<Rightarrow> Some s' | (True, s') \<Rightarrow> Some (call_gone E a call s'))"
    if "tel_ok s" for s
    using ok_keeps [OF tkeeps_tp(1) [of E call action s] that] by (auto simp: call_gone_ok split: prod.split bool.split)
  show ?thesis
    unfolding call_disconnect_def event prod.case call bind.bind_lunit st1_def [symmetric] wait_def [symmetric] Let_def
    by (intro outcome_if wait outcome_bind [OF members] gone) (simp_all add: ok_keeps [OF st1 ok] call_gone_ok ok_keeps [OF tkeeps_tp(1)])
qed

lemma outcome_sent:
  assumes "t_shape (snd p) = t_shape st"
    and "\<And>s. t_shape s = t_shape st \<Longrightarrow> outcome H Q (f s)" and "\<And>s. t_shape s = t_shape st \<Longrightarrow> outcome H Q (g s)"
  shows "outcome H Q (case p of (False, s) \<Rightarrow> f s | (True, s) \<Rightarrow> g s)"
  using assms by (cases p; cases "fst p") simp_all

lemma outcome_sent_if:
  assumes "t_shape (snd p) = t_shape st"
    and "\<And>s. t_shape s = t_shape st \<Longrightarrow> outcome H Q (f s)" and "\<And>s. t_shape s = t_shape st \<Longrightarrow> outcome H Q (g s)"
  shows "outcome H Q (case p of (ok, s) \<Rightarrow> if ok then f s else g s)"
  using assms by (cases p) simp

lemma call_hold_ok:
  assumes ok: "tel_ok st" and live: "t_live st a"
  shows "outcome H tel_ok (call_hold E a action event st)"
proof -
  obtain call where call: "t_calls st a = Some call" using live by (rule liveE)
  obtain ev ecall state where event: "event = (ev, ecall, state)" by (cases event)
  have finish: "outcome H tel_ok (map_option (run_hook E HOOK_CALL_ONHOLD)
      (policy_call_update E a {UPDATE_STATE} (upd_call a (tc_state_update (\<lambda>_. x)) s)))" if "t_shape s = t_shape st" for s x
    by (rule call_update_then [OF _ ok live]) (simp_all add: tkeeps that)
  have request: "outcome H tel_ok (case tp_hold E call True st of
        (False, st1) \<Rightarrow> Some (t_note (Reply_hold req (Some ''Failed to hold call'')) st1)
      | (True, st1) \<Rightarrow> map_option (run_hook E HOOK_CALL_ONHOLD)
          (policy_call_update E a {UPDATE_STATE} (upd_call a (tc_state_update (\<lambda>_. STATE_ON_HOLD)) (t_note (Reply_hold req None) st1))))" for req
    by (rule outcome_sent [where st = st], rule tkeeps) (unfold outcome_Some, rule ok_keeps [OF _ ok], simp add: tkeeps, rule finish, simp add: tkeeps)
  have auto: "outcome H tel_ok (case (if action = ''autohold'' then tp_hold E call True s else (True, s)) of (ok, st2) \<Rightarrow>
         if ok then policy_call_update E a {UPDATE_STATE, UPDATE_ORDER} (upd_call a (tc_state_update (\<lambda>_. STATE_AUTOHOLD)) st2)
         else Some st2)" if s: "t_shape s = t_shape st" for s
    by (rule outcome_sent_if [where st = st])
      (simp add: tkeeps s, rule call_update_shape [OF _ ok live], simp_all add: tkeeps ok_keeps [OF _ ok])
  show ?thesis
    unfolding call_hold_def event prod.case call bind.bind_lunit Let_def
  proof (rule outcome_if)
    show "outcome H tel_ok (case ev of
            EVENT_CALL_HOLD_REQUEST req \<Rightarrow>
              (case tp_hold E call True st of
                 (False, st1) \<Rightarrow> Some (t_note (Reply_hold req (Some ''Failed to hold call'')) st1)
               | (True, st1) \<Rightarrow> map_option (run_hook E HOOK_CALL_ONHOLD)
                   (policy_call_update E a {UPDATE_STATE} (upd_call a (tc_state_update (\<lambda>_. STATE_ON_HOLD)) (t_note (Reply_hold req None) st1))))
          | _ \<Rightarrow> map_option (run_hook E HOOK_CALL_ONHOLD)
                   (policy_call_update E a {UPDATE_STATE} (upd_call a
                     (tc_state_update (\<lambda>_. if tc_order call = 0 then STATE_ON_HOLD else STATE_AUTOHOLD)) st)))"
      by (cases ev) (simp_all only: event_id.case request finish)
  qed (rule auto, simp add: tkeeps)
qed

lemma call_held_ok:
  assumes "tel_ok st" and "t_live st a"
  shows "outcome H tel_ok (call_held E a action event st)"
proof -
  obtain ev ecall state where event: "event = (ev, ecall, state)" by (cases event)
  show ?thesis
    unfolding call_held_def event prod.case by (rule call_update_then [OF _ assms]) (simp_all add: tkeeps)
qed

lemma call_activate_ok:
  assumes ok: "tel_ok st" and live: "t_live st a"
  shows "outcome H tel_ok (call_activate E a action event st)"
proof -
  obtain call where call: "t_calls st a = Some call" using live by (rule liveE)
  obtain ev ecall state where event: "event = (ev, ecall, state)" by (cases event)
  define hook where "hook = (case ev of EVENT_CALL_ACCEPT_REQUEST _ \<Rightarrow> run_hook E HOOK_CALL_CONNECT
                  | EVENT_CALL_ACTIVATE_REQUEST _ \<Rightarrow> run_hook E HOOK_CALL_OFFHOLD
                  | _ \<Rightarrow> if tc_connected call then id else run_hook E HOOK_CALL_ACTIVE)"
  have hook: "t_shape (hook s) = t_shape s" for s
    by (cases ev) (simp_all add: hook_def tkeeps)
  have "t_shape (snd (if action = ''cmtautoactivate'' then (True, st) else tp_hold E call False st)) = t_shape st"
    by (simp add: tkeeps)
  then have "outcome H tel_ok (case (if action = ''cmtautoactivate'' then (True, st) else tp_hold E call False st) of
                  (False, st1) \<Rightarrow> Some st1
                | (True, st1) \<Rightarrow> policy_call_update E a {UPDATE_STATE} (upd_call a (tc_state_update (\<lambda>_. STATE_ACTIVE)) st1))"
    by (rule outcome_sent) (simp add: ok_keeps [OF _ ok], rule call_update_shape [OF _ ok live], simp_all add: tkeeps)
  moreover have "outcome H tel_ok (map_option hook (policy_call_update E a {UPDATE_STATE, UPDATE_ORDER, UPDATE_CONNECT}
      (upd_call a (\<lambda>c. c\<lparr>tc_state := STATE_ACTIVE, tc_order := 0, tc_connected := True\<rparr>) st)))"
    by (rule call_update_then [OF _ ok live]) (simp_all add: tkeeps hook)
  ultimately show ?thesis
    unfolding call_activate_def event prod.case call bind.bind_lunit hook_def [symmetric]
    by (intro outcome_if)
qed

lemma call_create_ok:
  assumes "tel_ok st" and "t_live st a"
  shows "outcome H tel_ok (call_create E a action event st)"
  unfolding call_create_def by (rule call_update_then [OF _ assms]) (simp_all add: tkeeps)

lemma call_action_ok: "tel_ok st \<Longrightarrow> t_live st a \<Longrightarrow> outcome H tel_ok (call_action E a action event st)"
  by (simp add: call_action_def call_hungup_ok call_disconnect_ok call_hold_ok call_activate_ok call_create_ok call_held_ok)

subsection \<open>Policy decisions and events\<close>

lemma enforce_field_ok: "tel_ok st \<Longrightarrow> outcome H tel_ok (enforce_field E event f st)"
  by (auto simp: enforce_field_def Let_def split_beta call_action_ok call_find_live split: option.split prod.split)

lemma enforce_fields_ok: "tel_ok st \<Longrightarrow> outcome H tel_ok (enforce_fields E event fs st)"
  by (induction fs arbitrary: st) (auto intro: outcome_bind enforce_field_ok)

lemma policy_enforce_ok: "tel_ok st \<Longrightarrow> outcome H tel_ok (policy_enforce E event st)"
  by (simp add: policy_enforce_def enforce_fields_ok ok_keeps [OF tkeeps_misc(1)] split: list.split event_id.split)

lemma policy_actions_ok:
  assumes "tel_ok st" and "ecall = None \<Longrightarrow> is_emergency ev" and "\<And>a. ecall = Some a \<Longrightarrow> t_live st a"
  shows "outcome H (\<lambda>r. tel_ok (snd r)) (policy_actions E (ev, ecall, state) st)"
proof (cases "is_emergency ev")
  case False
  then obtain a where a: "ecall = Some a" using assms(2) by auto
  obtain c where "t_calls st a = Some c" using assms(3) [OF a] by (rule liveE)
  then show ?thesis using False assms(1) by (simp add: policy_actions_def a shape_simps Let_def)
qed (simp add: policy_actions_def assms(1))

lemma handle_decided_ok:
  fixes st :: "'m tstate"
  assumes "tel_ok st" and "\<And>a. ecall = Some a \<Longrightarrow> t_live st a"
  shows "outcome H tel_ok (handle_decided E (ev, ecall, state) st)"
proof -
  have "outcome H tel_ok (policy_actions E (ev, ecall, state) st \<bind> (\<lambda>(status, st1).
      if status \<le> 0 then Some st1 else map_option policy_audio_update (policy_enforce E (ev, ecall, state) st1)))"
    if "ecall = None \<Longrightarrow> is_emergency ev"
  proof (rule outcome_bind [OF policy_actions_ok [OF assms(1) that assms(2)]])
    fix r :: "int \<times> 'm tstate" assume "tel_ok (snd r)"
    from outcome_map_keeps [OF policy_enforce_ok [OF this] tkeeps_misc(2)] \<open>tel_ok (snd r)\<close>
    show "outcome H tel_ok (case r of (status, st1) \<Rightarrow> if status \<le> 0 then Some st1
        else map_option policy_audio_update (policy_enforce E (ev, ecall, state) st1))"
      by (simp add: split_beta)
  qed
  then show ?thesis by (auto simp: handle_decided_def assms(1))
qed

lemma new_channel_ok:
  assumes "tel_ok st" and "\<And>a. ecall = Some a \<Longrightarrow> t_live st a"
    and "ecall = None \<Longrightarrow> call_lookup (Some path) st = None"
  shows "outcome (ecall = None \<and> ch_interfaces ch = None) (\<lambda>(a, st'). tel_ok st' \<and> t_live st' a)
    (new_channel E name path ch ecall st)"
proof (cases ecall)
  case None
  show ?thesis
  proof (cases "ch_interfaces ch = None")
    case False
    let ?r = "call_register (ch_type ch) path name (ch_peer ch) (ch_peer_handle ch) (ch_members ch \<noteq> None)
      (ch_emergency ch) (ch_interfaces ch) st"
    from call_register_ok [OF assms(1) assms(3) [OF None] False]
    obtain a st' where "?r = Some (a, st')" "tel_ok st'" "t_live st' a"
      by (rule returnsE) auto
    then show ?thesis
      by (simp add: new_channel_def None shape_simps tkeeps)
  qed (simp add: new_channel_def call_register_def None)
next
  case (Some a)
  let ?s = "upd_call a (tc_dir_update (\<lambda>_. ch_dir ch)) st"
  have "t_keeps ?s (policy_call_update E a {UPDATE_DIR} ?s)"
    by (rule policy_call_update_keeps) (simp_all add: live_keeps [OF _ assms(2) [OF Some]] tkeeps)
  then obtain st' where r: "policy_call_update E a {UPDATE_DIR} ?s = Some st'" and "t_shape st' = t_shape ?s"
    by (rule returnsE)
  then have "t_shape st' = t_shape st" by (simp add: tkeeps)
  then show ?thesis
    by (simp add: new_channel_def Some r ok_keeps [OF _ assms(1)] live_keeps [OF _ assms(2) [OF Some]])
qed

text \<open>The events that need a call, or what was never read of a channel.\<close>

definition event_hazard :: "'m event_id \<Rightarrow> addr option \<Rightarrow> bool" where
  "event_hazard ev ecall \<longleftrightarrow> ecall = None \<and>
     (case ev of EVENT_NEW_CHANNEL _ _ ch \<Rightarrow> ch_interfaces ch = None
      | EVENT_DTMF_START _ _ _ \<Rightarrow> True | EVENT_DTMF_STOP _ _ \<Rightarrow> True | _ \<Rightarrow> False)"

lemma event_hazard_crashes: "event_hazard ev ecall \<Longrightarrow> event_handler E ev ecall st = None"
  by (auto simp: event_hazard_def event_handler_def new_channel_def call_register_def split: event_id.splits)

lemma event_handler_ok:
  assumes ok: "tel_ok st" and live: "\<And>a. ecall = Some a \<Longrightarrow> t_live st a"
    and new: "\<And>name path ch. ev = EVENT_NEW_CHANNEL name path ch \<Longrightarrow> ecall = None \<Longrightarrow> call_lookup (Some path) st = None"
  shows "outcome (event_hazard ev ecall) tel_ok (event_handler E ev ecall st)"
proof -
  note hd = handle_decided_ok [OF ok live]
  have known: "\<exists>c. t_calls st a = Some c" if "ecall = Some a" for a
    using live [OF that] by (simp add: live_iff)
  show ?thesis
  proof (cases ev)
    case (EVENT_NEW_CHANNEL name path ch)
    show ?thesis
      unfolding event_handler_def EVENT_NEW_CHANNEL event_id.case
    proof (rule outcome_bind [OF outcome_weaken [OF new_channel_ok [OF ok live new [OF EVENT_NEW_CHANNEL]]]])
      show "ecall = None \<and> ch_interfaces ch = None \<Longrightarrow> event_hazard (EVENT_NEW_CHANNEL name path ch) ecall"
        by (simp add: event_hazard_def)
    qed (auto intro: handle_decided_ok)
  next
    case (EVENT_CALL_REQUEST req)
    have "outcome H tel_ok (map_option (t_note (Reply_proceed req True)) (policy_call_update E a {UPDATE_DIR} st))"
      if "ecall = Some a" for a H
      by (rule call_update_then [OF refl ok live [OF that]]) (simp_all add: tkeeps)
    then show ?thesis by (simp add: event_handler_def EVENT_CALL_REQUEST ok_keeps [OF _ ok] tkeeps split: option.split)
  next
    case (EVENT_DTMF_START req stream tone)
    then show ?thesis
      by (cases ecall) (auto simp: event_handler_def event_hazard_def ok_keeps [OF _ ok] tkeeps dest!: known)
  next
    case (EVENT_DTMF_STOP req stream)
    then show ?thesis
      by (cases ecall) (auto simp: event_handler_def event_hazard_def ok_keeps [OF _ ok] tkeeps dest!: known)
  next
    case EVENT_CALL_ACCEPTED
    then show ?thesis
      by (cases ecall) (auto simp: event_handler_def ok handle_decided_ok live intro!: outcome_live)
  next
    case EVENT_CALL_ACTIVATED
    then show ?thesis
      by (cases ecall) (auto simp: event_handler_def ok handle_decided_ok live intro!: outcome_live)
  qed (simp_all add: event_handler_def hd ok ok_keeps [OF _ ok] tkeeps handle_decided_ok live_keeps [OF _ live])
qed

subsection \<open>Signals of a channel\<close>

lemma event_call_ok:
  assumes "tel_ok st" and "t_live st a"
  shows "outcome H tel_ok (event_handler E ev (Some a) st)"
  by (rule outcome_weaken [OF event_handler_ok]) (use assms in \<open>simp_all add: event_hazard_def\<close>)

lemma event_any_ok:
  assumes "tel_ok st" and "\<And>ch. ev \<noteq> EVENT_NEW_CHANNEL name path ch"
    and "\<And>name path ch. ev \<noteq> EVENT_NEW_CHANNEL name path ch" and "\<not> event_hazard ev (call_lookup p st)"
  shows "outcome H tel_ok (event_handler E ev (call_lookup p st) st)"
  by (rule outcome_weaken [OF event_handler_ok]) (use assms in \<open>simp_all add: call_lookup_Some(1)\<close>)

lemma tel_ok_deferred: "tel_ok st \<Longrightarrow> (p, es) \<in> set (t_deferred st) \<Longrightarrow> (i, sig) \<in> set es \<Longrightarrow> deferrable sig"
  unfolding tel_ok_def list_all_iff by blast

lemma deferred_of_ok: "tel_ok st \<Longrightarrow> (i, sig) \<in> set (deferred_of path st) \<Longrightarrow> deferrable sig"
  by (cases "map_of (t_deferred st) path") (auto simp: deferred_of_def dest: map_of_SomeD intro: tel_ok_deferred)

lemma set_deferred_ok:
  assumes "tel_ok st" and "\<And>i sig. (i, sig) \<in> set es \<Longrightarrow> deferrable sig"
  shows "tel_ok (set_deferred path es st)"
proof -
  have key: "t_key (set_deferred path es st) = t_key st"
    by (simp add: fun_eq_iff t_key_def set_deferred_def)
  have "list_all (\<lambda>(_, es). list_all (\<lambda>(_, sig). deferrable sig) es) (t_deferred (set_deferred path es st))"
    using assms(2) tel_ok_deferred [OF assms(1)] by (auto simp: set_deferred_def list_all_iff)
  with assms(1) show ?thesis
    unfolding tel_ok_def key by (simp add: set_deferred_def)
qed

lemma in_set_tl: "x \<in> set (tl xs) \<Longrightarrow> x \<in> set xs"
  by (cases xs) simp_all

lemma event_enqueue_ok:
  assumes "tel_ok st" and "deferrable sig"
  shows "tel_ok (event_enqueue path sig st)"
proof -
  let ?st1 = "snd (add_tsource (Event_timeout path) st)"
  have ok: "tel_ok ?st1" using ok_keeps [OF tkeeps_basic(3) assms(1)] .
  show ?thesis
    unfolding event_enqueue_def Let_def split_beta
    by (rule set_deferred_ok [OF ok]) (use deferred_of_ok [OF ok] assms(2) in auto)
qed

lemma event_timeout_ok:
  assumes "tel_ok st" shows "tel_ok (event_timeout i path st)"
proof -
  have "set (tl (dropWhile P es) @ takeWhile P es) \<subseteq> set es" for P and es :: "(nat \<times> csignal) list"
    by (auto dest: in_set_tl set_dropWhileD set_takeWhileD)
  then have d: "deferrable sig" if "(j, sig) \<in> set (tl (dropWhile P (deferred_of path st)) @ takeWhile P (deferred_of path st))" for j sig P
    using that deferred_of_ok [OF assms] by blast
  show ?thesis
    unfolding event_timeout_def Let_def using assms by (cases "deferred_of path st = []") (simp, simp only: if_False, rule set_deferred_ok [OF assms], rule d)
qed

lemma tel_ok_handles [simp]:
  "tel_ok (upd_call a (tc_local_handle_update f) st) = tel_ok st"
  "tel_ok (upd_call a (tc_peer_handle_update f) st) = tel_ok st"
  by (simp_all add: shape_simps)

definition signal_overflow :: "csignal \<Rightarrow> bool" where
  "signal_overflow sig \<longleftrightarrow> (case sig of Members_changed (Some m) \<Rightarrow> details_overflow m | _ \<Rightarrow> False)"

text \<open>A change of the hold state that is to be handed on to a conference that does not exist.\<close>

definition host_gone :: "'m tstate \<Rightarrow> string \<Rightarrow> u32 \<Rightarrow> bool" where
  "host_gone st path state \<longleftrightarrow>
     (case call_lookup (Some path) st of
        None \<Rightarrow> False
      | Some a \<Rightarrow>
          (case t_calls st a of
             None \<Rightarrow> False
           | Some c \<Rightarrow>
               (state = TP_HELD \<and> tc_state c \<noteq> STATE_ON_HOLD \<or> state = TP_UNHELD \<and> tc_state c \<noteq> STATE_ACTIVE) \<and>
               (case tc_parent c of None \<Rightarrow> False | Some p \<Rightarrow> t_calls st p = None)))"

definition signal_hazard :: "'m tstate \<Rightarrow> string \<Rightarrow> csignal \<Rightarrow> bool" where
  "signal_hazard st path sig \<longleftrightarrow>
     call_lookup (Some path) st \<noteq> None \<and> signal_overflow sig \<or>
     (case sig of Hold_state_changed (Some (state, reason)) \<Rightarrow> host_gone st path state | _ \<Rightarrow> False)"

lemma members_event_ok: "tel_ok st \<Longrightarrow> t_live st a \<Longrightarrow> outcome H tel_ok (members_event E a m st)"
  by (simp add: members_event_def Let_def event_call_ok outcome_live)

lemma members_changed_ok:
  assumes "tel_ok st"
  shows "outcome (call_lookup (Some path) st \<noteq> None \<and> signal_overflow (Members_changed args)) tel_ok
    (members_changed E path args st)"
proof -
  have "outcome H tel_ok (members_event E a m (upd_call a (\<lambda>c. c\<lparr>tc_nmember := tc_nmember c + n\<rparr>) st))"
    if "call_lookup (Some path) st = Some a" for a m n H
    by (rule members_event_ok) (use that assms in \<open>simp_all add: ok_keeps [OF _ assms] live_keeps [OF _ call_lookup_Some(1)] tkeeps\<close>)
  then show ?thesis
    using assms by (auto simp: members_changed_def signal_overflow_def event_enqueue_ok deferrable_def split: option.split)
qed

lemma stop_call_timeout_ok [simp]: "tel_ok (stop_call_timeout a st) = tel_ok st"
  by (simp add: shape_simps)

lemma tel_ok_media [simp]:
  "tel_ok (upd_call a (tc_audio_id_update f1) st) = tel_ok st"
  "tel_ok (upd_call a (tc_audio_content_update f2) st) = tel_ok st"
  "tel_ok (upd_call a (tc_conf_state_update f3) st) = tel_ok st"
  "tel_ok (upd_call a (tc_state_update f4) st) = tel_ok st"
  by (simp_all add: shape_simps)

lemma video_update_ok:
  assumes "tel_ok st" and "t_live st a" and "t_shape s = t_shape st" and "\<And>s. t_shape (f s) = t_shape s"
  shows "outcome H tel_ok (map_option f (policy_call_update E a {UPDATE_VIDEO} (upd_call a (tc_video_id_update g) s)))"
    "outcome H tel_ok (map_option f (policy_call_update E a {UPDATE_VIDEO} (upd_call a (tc_video_content_update g') s)))"
  by (rule call_update_then [OF _ assms(1,2) _ assms(4)]; simp add: tkeeps assms(3))+

lemma stream_added_ok:
  assumes ok: "tel_ok st" shows "outcome H tel_ok (stream_added E path args st)"
proof (cases args)
  case (Some x)
  obtain i handle type where x: "x = (i, handle, type)" by (cases x)
  show ?thesis
  proof (cases "call_lookup (Some path) st")
    case None
    then show ?thesis by (simp add: stream_added_def Some x event_enqueue_ok ok deferrable_def)
  next
    case call: (Some a)
    note live = call_lookup_Some(1) [OF ok call]
    show ?thesis
      unfolding stream_added_def Some x call option.case prod.case Let_def
      by (rule outcome_if)
        (rule video_update_ok [OF ok live], simp_all add: tkeeps ok)
  qed
qed (simp add: stream_added_def ok)

lemma stream_removed_ok:
  assumes ok: "tel_ok st" shows "outcome H tel_ok (stream_removed E path args st)"
proof (cases args)
  case (Some i)
  show ?thesis
  proof (cases "call_lookup (Some path) st")
    case None
    then show ?thesis by (simp add: stream_removed_def Some event_enqueue_ok ok deferrable_def)
  next
    case call: (Some a)
    note live = call_lookup_Some(1) [OF ok call]
    show ?thesis
      unfolding stream_removed_def Some call option.case
      by (rule outcome_live [OF live]) (simp add: ok video_update_ok [OF ok live] tkeeps del: outcome_map_option)
  qed
qed (simp add: stream_removed_def ok)

lemma content_added_ok:
  assumes ok: "tel_ok st" shows "outcome H tel_ok (content_added E path args st)"
proof (cases args)
  case (Some x)
  obtain content type where x: "x = (content, type)" by (cases x)
  show ?thesis
  proof (cases "call_lookup (Some path) st")
    case None
    then show ?thesis by (simp add: content_added_def Some x event_enqueue_ok ok deferrable_def)
  next
    case call: (Some a)
    note live = call_lookup_Some(1) [OF ok call]
    show ?thesis
      unfolding content_added_def Some x call option.case prod.case Let_def
      by (rule outcome_if)
        (rule call_update_shape [OF _ ok live], simp_all add: tkeeps ok)
  qed
qed (simp add: content_added_def ok)

lemma content_removed_ok:
  assumes ok: "tel_ok st" shows "outcome H tel_ok (content_removed E path args st)"
proof (cases args)
  case (Some i)
  show ?thesis
  proof (cases "call_lookup (Some path) st")
    case None
    then show ?thesis by (simp add: content_removed_def Some event_enqueue_ok ok deferrable_def)
  next
    case call: (Some a)
    note live = call_lookup_Some(1) [OF ok call]
    show ?thesis
      unfolding content_removed_def Some call option.case
      by (rule outcome_live [OF live]) (simp add: ok video_update_ok [OF ok live] tkeeps del: outcome_map_option)
  qed
qed (simp add: content_removed_def ok)

lemma hold_state_changed_ok:
  assumes ok: "tel_ok st"
  shows "outcome (signal_hazard st path (Hold_state_changed args)) tel_ok (hold_state_changed E path args st)"
proof (cases "call_lookup (Some path) st")
  case call: (Some a)
  note live = call_lookup_Some(1) [OF ok call]
  show ?thesis
  proof (cases args)
    case (Some x)
    obtain state reason where x: "x = (state, reason)" by (cases x)
    obtain c where c: "t_calls st a = Some c" using live by (rule liveE)
    show ?thesis
    proof (cases "tc_parent c")
      case (Some p)
      then show ?thesis
        using ok by (cases "t_calls st p")
          (auto simp: hold_state_changed_def call \<open>args = Some x\<close> x c event_call_ok live IS_CONF_MEMBER_def Let_def upd_call_get
            signal_hazard_def host_gone_def TP_HELD_def TP_UNHELD_def)
    qed (simp add: hold_state_changed_def call Some x c event_call_ok live ok IS_CONF_MEMBER_def)
  qed (simp add: hold_state_changed_def call ok)
qed (simp add: hold_state_changed_def ok)

lemma call_draft_state_changed_ok:
  assumes ok: "tel_ok st" shows "outcome H tel_ok (call_draft_state_changed E path args st)"
proof (cases "call_lookup (Some path) st")
  case None
  then show ?thesis by (simp add: call_draft_state_changed_def event_enqueue_ok ok deferrable_def)
next
  case (Some a)
  note live = call_lookup_Some(1) [OF ok Some]
  show ?thesis
    by (cases args) (simp_all add: call_draft_state_changed_def Some ok split_beta outcome_live [OF live] event_call_ok live)
qed

lemma with_member_ok:
  assumes ok: "tel_ok st" and "deferrable (sig args)"
    and "\<And>p m. t_live st p \<Longrightarrow> t_live st m \<Longrightarrow> outcome H tel_ok (f p m st)"
  shows "outcome H tel_ok (with_member path sig args f st)"
  using assms by (auto simp: with_member_def event_enqueue_ok call_lookup_Some(1) split: option.split)

lemma join_conference_ok:
  assumes ok: "tel_ok st" and p: "t_live st p" and m: "t_live st m"
  shows "outcome H tel_ok (join_conference E p m st)"
  unfolding join_conference_def
  by (rule call_update_ok) (auto simp: live_keeps [OF _ m] live_keeps [OF _ p] ok_keeps [OF _ ok] tkeeps upd_call_get)

lemma leave_conference_ok:
  assumes ok: "tel_ok st" and m: "t_live st m"
  shows "outcome H tel_ok (leave_conference E p m st)"
  unfolding leave_conference_def
  by (rule call_update_ok) (auto simp: live_keeps [OF _ m] ok_keeps [OF _ ok] tkeeps upd_call_get)

lemma dispatch_call_ok:
  assumes ok: "tel_ok st"
  shows "outcome (signal_hazard st path sig) tel_ok (dispatch_call E path sig st)"
proof (cases sig)
  case (Members_changed args)
  then show ?thesis using outcome_weaken [OF members_changed_ok [OF ok]] by (simp add: signal_hazard_def)
next
  case (Hold_state_changed args)
  then show ?thesis using hold_state_changed_ok [OF ok] by simp
next
  case Closed
  then show ?thesis using ok by (auto simp: channel_closed_def event_call_ok call_lookup_Some(1) split: option.split)
qed (simp_all add: ok stream_added_ok stream_removed_ok content_added_ok content_removed_ok call_state_changed_def
    call_draft_state_changed_ok channel_merged_def channel_removed_def member_channel_added_def
    member_channel_removed_def with_member_ok deferrable_def join_conference_ok leave_conference_ok
    sending_dialstring_def stopped_dialstring_def event_any_ok event_hazard_def)

subsection \<open>Every step\<close>

lemma deferrable_hazard: "deferrable sig \<Longrightarrow> signal_hazard st path sig \<Longrightarrow> signal_overflow sig"
  by (simp add: signal_hazard_def deferrable_def split: csignal.splits)

lemma dispatch_deferred_ok:
  assumes "tel_ok st" and "\<And>i sig. (i, sig) \<in> set es \<Longrightarrow> deferrable sig"
  shows "outcome (list_ex (\<lambda>(_, sig). signal_overflow sig) es) tel_ok (dispatch_deferred E path es st)"
  using assms
proof (induction es arbitrary: st)
  case (Cons x es)
  obtain i sig where x: "x = (i, sig)" by (cases x)
  have "tel_ok (remove_tsource i st)" using Cons.prems(1) by (simp add: shape_simps)
  then have one: "outcome (signal_overflow sig \<or> list_ex (\<lambda>(_, sig). signal_overflow sig) es) tel_ok
      (dispatch_call E path sig (remove_tsource i st))"
    by (rule outcome_weaken [OF dispatch_call_ok]) (use Cons.prems(2) [of i sig] in \<open>auto simp: x dest: deferrable_hazard\<close>)
  have rest: "outcome (signal_overflow sig \<or> list_ex (\<lambda>(_, sig). signal_overflow sig) es) tel_ok (dispatch_deferred E path es s)"
    if "tel_ok s" for s
    by (rule outcome_weaken [OF Cons.IH [OF that]]) (use Cons.prems(2) in auto)
  show ?case using outcome_bind [OF one rest] by (simp add: x)
qed simp

lemma event_dequeue_ok:
  assumes "tel_ok st"
  shows "outcome (list_ex (\<lambda>(_, sig). signal_overflow sig) (deferred_of path st)) tel_ok (event_dequeue E path st)"
  unfolding event_dequeue_def
  by (rule dispatch_deferred_ok [OF set_deferred_ok [OF assms]]) (simp, erule deferred_of_ok [OF assms])

text \<open>What certainly crashes, and what crashes later in the handler of NewChannels: the event is raised
  and the signals that waited for the channel follow.\<close>

fun tel_crash :: "'m tenv \<Rightarrow> 'm tinput \<Rightarrow> 'm tstate \<Rightarrow> bool" where
  "tel_crash E (T_signal path sig) st = signal_hazard st path sig"
| "tel_crash E (T_new_channel sender (Some (path, type))) st =
     (type = TP_CHANNEL_MEDIA \<and> call_lookup (Some path) st = None \<and> ch_interfaces (t_stack_channel E (t_log st)) = None)"
| "tel_crash E (T_new_channels sender (Some chans)) st =
     (case parse_properties (concat (map snd chans)) no_parse of
        None \<Rightarrow> False
      | Some p \<Rightarrow> cp_type p \<and> chans \<noteq> [] \<and> call_lookup (Some (fst (last chans))) st = None \<and>
          ch_interfaces (cp_channel p) = None)"
| "tel_crash E (T_dtmf_start msg (Some (path, stream, tone))) st = (call_lookup (Some path) st = None)"
| "tel_crash E (T_dtmf_stop msg (Some (path, stream))) st = (call_lookup (Some path) st = None)"
| "tel_crash E _ st = False"

fun late_crash :: "'m tenv \<Rightarrow> 'm tinput \<Rightarrow> 'm tstate \<Rightarrow> bool" where
  "late_crash E (T_new_channels sender (Some chans)) st =
     (case parse_properties (concat (map snd chans)) no_parse of
        None \<Rightarrow> False
      | Some p \<Rightarrow>
          (let path = fst (last chans)
           in case event_handler E (EVENT_NEW_CHANNEL sender path (parsed_channel p)) (call_lookup (Some path) st) st of
                None \<Rightarrow> False
              | Some st1 \<Rightarrow> list_ex (\<lambda>(_, sig). signal_overflow sig) (deferred_of path st1)))"
| "late_crash E _ st = False"

lemma tel_start_ok: "tel_ok (tel_start E ok)"
  by (simp add: tel_start_def Let_def tel_ok_shape tkeeps)
    (simp add: call_init_def t_shape_def t_key_def tshape_ok_def)

lemma plugin_reconnect_ok: "tel_ok (plugin_reconnect st)"
  by (simp add: plugin_reconnect_def call_init_def tel_ok_def t_key_def)

lemma parsed_channel_interfaces: "ch_interfaces (parsed_channel p) = ch_interfaces (cp_channel p)"
  by (simp add: parsed_channel_def Let_def)

lemma channels_new_ok:
  fixes st :: "'m tstate"
  assumes ok: "tel_ok st"
  shows "outcome (tel_crash E (T_new_channels sender args) st \<or> late_crash E (T_new_channels sender args) st) tel_ok
    (channels_new E sender args st)"
proof (cases args)
  case (Some chans)
  show ?thesis
  proof (cases "parse_properties (concat (map snd chans)) no_parse")
    case p: (Some p)
    let ?path = "fst (last chans)"
    let ?ev = "EVENT_NEW_CHANNEL sender ?path (parsed_channel p) :: 'm event_id"
    let ?call = "call_lookup (Some ?path) st"
    show ?thesis
    proof (cases "\<not> cp_type p \<or> chans = []")
      case False
      have "outcome (event_hazard ?ev ?call) tel_ok (event_handler E ?ev ?call st)"
        by (rule event_handler_ok) (simp_all add: ok call_lookup_Some(1) [OF ok])
      then have one: "outcome (tel_crash E (T_new_channels sender args) st \<or> late_crash E (T_new_channels sender args) st) tel_ok
          (event_handler E ?ev ?call st)"
        by (rule outcome_weaken) (use False in \<open>simp add: Some p event_hazard_def parsed_channel_interfaces\<close>)
      have two: "outcome (tel_crash E (T_new_channels sender args) st \<or> late_crash E (T_new_channels sender args) st) tel_ok
          (event_dequeue E ?path st1)" if "event_handler E ?ev ?call st = Some st1" and "tel_ok st1" for st1
        by (rule outcome_weaken [OF event_dequeue_ok [OF that(2)]]) (simp add: Some p that(1) Let_def)
      show ?thesis
        using outcome_bind [OF one two] False by (simp add: channels_new_def Some p Let_def)
    qed (simp add: channels_new_def Some p ok)
  qed (simp add: channels_new_def Some ok)
qed (simp add: channels_new_def ok)

lemma tel_step_ok:
  fixes st :: "'m tstate"
  assumes ok: "tel_ok st"
  shows "outcome (tel_crash E input st \<or> late_crash E input st) tel_ok (tel_step E input st)"
proof -
  note any = call_lookup_Some(1) [OF ok]
  note simps = ok event_any_ok event_call_ok event_hazard_def shape_simps
  show ?thesis
  proof (cases input)
    case (T_signal path sig)
    then show ?thesis using outcome_weaken [OF dispatch_call_ok [OF ok]] by simp
  next
    case (T_new_channel sender args)
    show ?thesis
    proof (cases args)
      case (Some x)
      obtain path type where x: "x = (path, type)" by (cases x)
      let ?ev = "EVENT_NEW_CHANNEL sender path (t_stack_channel E (t_log st)) :: 'm event_id"
      have "outcome (event_hazard ?ev None) tel_ok (event_handler E ?ev None st)"
        if "call_lookup (Some path) st = None"
        by (rule event_handler_ok) (use that in \<open>simp_all add: ok\<close>)
      then have "outcome (ch_interfaces (t_stack_channel E (t_log st)) = None) tel_ok (event_handler E ?ev None st)"
        if "call_lookup (Some path) st = None"
        using that by (simp add: event_hazard_def)
      then show ?thesis by (auto simp: T_new_channel Some x channel_new_def ok)
    qed (simp add: T_new_channel channel_new_def ok)
  next
    case (T_new_channels sender args)
    then show ?thesis using channels_new_ok [OF ok] by simp
  next
    case (T_call_end args)
    then show ?thesis by (cases args) (simp_all add: call_end_def ok event_any_ok event_hazard_def)
  next
    case (T_mute args)
    have "outcome H tel_ok (event_handler E EVENT_SENDING_DIALSTRING None (st\<lparr>t_tonegen := True\<rparr>))"
      "outcome H tel_ok (event_handler E EVENT_STOPPED_DIALSTRING None (st\<lparr>t_tonegen := True\<rparr>))" for H
      by (simp_all add: event_handler_def ok_keeps [OF _ ok] tkeeps)
    then show ?thesis by (cases args) (simp_all add: T_mute dtmf_mute_def ok)
  next
    case (T_name_owner args)
    then show ?thesis by (simp add: ok_keeps [OF _ ok] tkeeps)
  next
    case (T_csd_status args)
    have "t_live st a" if "t_table st = a # l" for a l
      using live_table [OF ok, of a] that by simp
    then show ?thesis
      by (cases args; cases "t_table st")
        (auto simp: T_csd_status csd_call_status_def find_any_call_def ok event_call_ok intro!: outcome_live)
  next
    case (T_call_request msg args)
    then show ?thesis by (cases args) (simp_all add: call_request_def ok event_any_ok event_hazard_def)
  next
    case (T_accept_request msg args)
    then show ?thesis by (cases args) (simp_all add: accept_call_request_def ok event_any_ok event_hazard_def)
  next
    case (T_hold_request msg args)
    then show ?thesis
      by (cases args) (auto simp: hold_call_request_def ok event_call_ok any ok_keeps [OF _ ok] tkeeps split: option.split)
  next
    case (T_dtmf_start msg args)
    then show ?thesis
      using event_handler_ok [OF ok any] by (cases args) (auto simp: dtmf_start_request_def ok event_hazard_def
          intro!: outcome_weaken [OF event_handler_ok [OF ok any]])
  next
    case (T_dtmf_stop msg args)
    then show ?thesis
      using event_handler_ok [OF ok any] by (cases args) (auto simp: dtmf_stop_request_def ok event_hazard_def
          intro!: outcome_weaken [OF event_handler_ok [OF ok any]])
  next
    case (T_emergency msg args)
    have "outcome H tel_ok (event_handler E (if active then EVENT_EMERGENCY_ON msg else EVENT_EMERGENCY_OFF msg) None st)" for H active
      by (rule outcome_weaken [OF event_handler_ok [OF ok]]) (simp_all add: event_hazard_def split: if_splits)
    then show ?thesis
      by (cases args) (simp_all add: T_emergency emergency_call_request_def ok ok_keeps [OF _ ok] tkeeps)
  next
    case (T_timer i)
    have "t_live (upd_call a (tc_timeout_update f) (remove_tsource i st)) a"
      if "call_lookup (Some path) (remove_tsource i st) = Some a" for path a f
      using call_lookup_Some(1) [OF _ that] by (simp add: ok_keeps [OF _ ok] live_keeps [OF tkeeps_updates(6)] tkeeps)
    with T_timer show ?thesis
      by (auto simp: fire_tsource_def call_timeout_def ok event_timeout_ok ok_keeps [OF _ ok] tkeeps
          split: option.split tsource.split intro!: event_call_ok)
  qed (simp_all add: ok_keeps [OF _ ok] tkeeps plugin_reconnect_ok)
qed

lemma tel_reach_ok: "tel_reach E st \<Longrightarrow> tel_ok st"
proof (induction rule: tel_reach.induct)
  case (step st input st')
  then show ?case using tel_step_ok [OF step.IH, of E input] by simp
qed (rule tel_start_ok)

lemma signal_hazard_crashes:
  assumes "signal_hazard st path sig" shows "dispatch_call E path sig st = None"
proof (cases sig)
  case (Hold_state_changed args)
  then obtain state reason where args: "args = Some (state, reason)" and gone: "host_gone st path state"
    using assms by (cases args) (auto simp: signal_hazard_def signal_overflow_def)
  obtain a where a: "call_lookup (Some path) st = Some a"
    using gone by (auto simp: host_gone_def split: option.splits)
  moreover obtain c where c: "t_calls st a = Some c"
    using gone a by (auto simp: host_gone_def split: option.splits)
  moreover obtain p where p: "tc_parent c = Some p" "t_calls st p = None"
    using gone a c by (auto simp: host_gone_def split: option.splits)
  ultimately show ?thesis
    using gone by (auto simp: Hold_state_changed args hold_state_changed_def host_gone_def IS_CONF_MEMBER_def Let_def
        upd_call_get TP_HELD_def TP_UNHELD_def)
qed (use assms in \<open>auto simp: signal_hazard_def signal_overflow_def members_changed_def split: option.splits\<close>)

lemma tel_crash_crashes: "tel_crash E input st \<Longrightarrow> tel_step E input st = None"
proof (induction E input st rule: tel_crash.induct)
  case (1 E path sig st)
  then show ?case by (simp add: signal_hazard_crashes)
next
  case (3 E sender chans st)
  have "event_handler E (EVENT_NEW_CHANNEL sender path (parsed_channel p)) None st = None"
    if "ch_interfaces (cp_channel p) = None" for path p
    by (rule event_hazard_crashes) (simp add: event_hazard_def parsed_channel_interfaces that)
  with 3 show ?case by (auto simp: channels_new_def Let_def split: option.splits)
qed (simp_all add: channel_new_def dtmf_start_request_def dtmf_stop_request_def event_hazard_crashes event_hazard_def)
end
