(* ===== verification/Telephony_Properties.thy ===== *)
theory Telephony_Properties
  imports Telephony_Inv
begin

text \<open>
  The properties of the telephony plugin, with witnesses on a run that starts the plugin and
  announces one call.
\<close>

subsection \<open>A run\<close>

definition demo_channel :: channel where
  "demo_channel = \<lparr>ch_type = CALL_TYPE_SM, ch_peer = Some ''p'', ch_members = None, ch_dir = DIR_INCOMING,
     ch_peer_handle = 7, ch_emergency = False, ch_localpend = 0, ch_nmember = 0, ch_interfaces = Some []\<rparr>"

definition ring_env :: "unit tenv" where
  "ring_env = \<lparr>t_resolve = (\<lambda>_. 0), t_decisions = (\<lambda>_. []), t_fact_new = (\<lambda>_. True), t_fact_insert = (\<lambda>_. True),
     t_sent = (\<lambda>_. True), t_stack = (\<lambda>_. EVENT_UNKNOWN), t_stack_channel = (\<lambda>_. demo_channel),
     t_disabled = False, t_kludge = False, t_audio_playback = 1, t_video_playback = 2\<rparr>"

definition ring_call :: tcall where
  "ring_call = \<lparr>tc_type = CALL_TYPE_SM, tc_id = 1, tc_name = None, tc_path = ''/a'', tc_peer = Some ''p'', tc_peer_handle = 7,
     tc_local_handle = 0, tc_nmember = 0, tc_dir = DIR_INCOMING, tc_emergency = False, tc_state = STATE_UNKNOWN,
     tc_conf_state = STATE_UNKNOWN, tc_order = 0, tc_parent = None, tc_connected = False,
     tc_fact = Some [''path'' \<mapsto> TString ''/a'', ''state'' \<mapsto> TString ''unknown'',
       ''direction'' \<mapsto> TString ''incoming'', ''id'' \<mapsto> TString ''1'', ''video'' \<mapsto> TString ''no'', ''holdable'' \<mapsto> TString ''no''],
     tc_audio_id = 0, tc_audio_content = None, tc_video_id = 0, tc_video_content = None, tc_timeout = 1,
     tc_holdable = False\<rparr>"

definition ring_state :: "unit tstate" where
  "ring_state = \<lparr>t_calls = [1 \<mapsto> ring_call], t_nalloc = 2, t_table = [1], t_ncscall = 0, t_nipcall = 1, t_nvideo = 0,
     t_callid = 2, t_holdorder = 1, t_tonegen = False, t_video_pid = 0, t_emergency = False, t_deferred = [],
     t_sources = [(1, Call_timeout ''/a'')], t_nsource = 2, t_rset = True, t_granted = 0, t_releasing = False, t_reqno = 1,
     t_rvideo = False,
     t_log = [Rset_register 0, Goal ''telephony_request'' [(''call_id'', ''1''), (''call_state'', ''created'')]]\<rparr>"

lemmas ring_simps = ring_env_def demo_channel_def ring_call_def ring_state_def

lemma dec_one: "dec_of_int 1 = ''1''"
  by code_simp

lemma ring_run: "tel_step ring_env (T_new_channel None (Some (''/a'', TP_CHANNEL_MEDIA))) (tel_start ring_env True) = Some ring_state"
  by (simp add: ring_simps tel_start_def call_init_def resctl_connect_def next_treqno_def t_note_def Let_def channel_new_def
      call_lookup_def event_handler_def new_channel_def call_register_def has_interface_def IS_CELLULAR_def TP_RING_def
      add_tsource_def upd_call_def policy_call_export_def new_fact_def dec_one has_video_def yes_no_def
      handle_decided_def policy_actions_def is_emergency_def numeral_2_eq_2)

lemma ring_reach: "tel_reach ring_env ring_state"
  using tel_reach.start [of ring_env True] ring_run by (rule tel_reach.step)

subsection \<open>The table of calls\<close>

text \<open>C16. In every reachable state the table holds exactly the live calls, no two calls have the same
  path or the same id, and the two counters are the numbers of cellular and of other calls.\<close>

theorem call_table_exact:
  assumes "tel_reach E st"
  shows "distinct (t_table st) \<and>
    (\<forall>a. a \<in> set (t_table st) \<longleftrightarrow> t_calls st a \<noteq> None) \<and>
    (\<forall>a b c d. t_calls st a = Some c \<and> t_calls st b = Some d \<and> (tc_path c = tc_path d \<or> tc_id c = tc_id d) \<longrightarrow> a = b) \<and>
    t_ncscall st = int (length (filter (\<lambda>a. \<exists>c. t_calls st a = Some c \<and> IS_CELLULAR (tc_path c)) (t_table st))) \<and>
    t_nipcall st = int (length (filter (\<lambda>a. \<exists>c. t_calls st a = Some c \<and> \<not> IS_CELLULAR (tc_path c)) (t_table st)))"
proof -
  have ok: "tel_ok st" using assms by (rule tel_reach_ok)
  have dist: "distinct (t_table st)" and table: "\<And>a. a \<in> set (t_table st) \<longleftrightarrow> t_calls st a \<noteq> None"
    using ok live_table [OF ok] by (auto simp: tel_ok_def live_iff)
  have key: "t_key st a = Some (tc_path c, tc_id c)" if "t_calls st a = Some c" for a c
    using that by (simp add: t_key_def)
  have cell: "cellular (t_key st) a \<longleftrightarrow> (\<exists>c. t_calls st a = Some c \<and> IS_CELLULAR (tc_path c))" for a
    by (cases "t_calls st a") (simp_all add: cellular_def t_key_def)
  have paths: "a = b" if "t_key st a = Some (p, i)" "t_key st b = Some (p, j)" for a b p i j
    using ok that unfolding tel_ok_def by blast
  have ids: "a = b" if "t_key st a = Some (p, i)" "t_key st b = Some (q, i)" for a b p q i
    using ok that unfolding tel_ok_def by blast
  show ?thesis
  proof (intro conjI dist allI table impI)
    fix a b c d
    assume "t_calls st a = Some c \<and> t_calls st b = Some d \<and> (tc_path c = tc_path d \<or> tc_id c = tc_id d)"
    then show "a = b" using key [of a c] key [of b d] by (auto dest: paths ids)
  next
    show "t_ncscall st = int (length (filter (\<lambda>a. \<exists>c. t_calls st a = Some c \<and> IS_CELLULAR (tc_path c)) (t_table st)))"
      using ok unfolding tel_ok_def cell [symmetric] by simp
  next
    have "filter (\<lambda>a. \<exists>c. t_calls st a = Some c \<and> \<not> IS_CELLULAR (tc_path c)) (t_table st) =
        filter (\<lambda>a. \<not> cellular (t_key st) a) (t_table st)"
      using table by (intro filter_cong refl) (auto simp: cell)
    then show "t_nipcall st = int (length (filter (\<lambda>a. \<exists>c. t_calls st a = Some c \<and> \<not> IS_CELLULAR (tc_path c)) (t_table st)))"
      using ok unfolding tel_ok_def by simp
  qed
qed

theorem call_table_exact_witness: "distinct (t_table ring_state) \<and> t_nipcall ring_state = 1"
  using call_table_exact [OF ring_reach] by (simp add: ring_state_def)



subsection \<open>Resources\<close>


lemma has_audio_note [simp]: "resctl_has_audio E (t_note x st) = resctl_has_audio E st"
  by (simp add: resctl_has_audio_def t_note_def)



subsection \<open>Two mistakes\<close>

text \<open>An activated call gets the order 0, but the field of its fact keeps the order of the autohold.\<close>

theorem activated_call_keeps_order:
  assumes "t_calls st a = Some c" and "tc_fact c = Some f"
  shows "\<exists>st' c' f'. call_activate E a action (ev, Some a, STATE_ACTIVE) st = Some st' \<and> t_calls st' a = Some c' \<and>
    tc_state c' = STATE_ACTIVE \<and> tc_order c' = 0 \<and> tc_fact c' = Some f' \<and>
    f' ''state'' = Some (TString ''active'') \<and> f' ''order'' = f ''order''"
proof -
  let ?c = "c\<lparr>tc_state := STATE_ACTIVE, tc_order := 0, tc_connected := True\<rparr>"
  let ?f = "f(''state'' \<mapsto> TString ''active'', ''connected'' \<mapsto> TString ''yes'')"
  obtain s where upd: "policy_call_update E a {UPDATE_STATE, UPDATE_ORDER, UPDATE_CONNECT}
      (upd_call a (\<lambda>c. c\<lparr>tc_state := STATE_ACTIVE, tc_order := 0, tc_connected := True\<rparr>) st) = Some s"
    and s: "t_calls s a = Some (?c\<lparr>tc_fact := Some ?f\<rparr>)"
    using assms by (simp add: policy_call_update_def upd_call_get parent_field_def set_if_def)
  define hook where "hook = (case ev of EVENT_CALL_ACCEPT_REQUEST _ \<Rightarrow> run_hook E HOOK_CALL_CONNECT
                  | EVENT_CALL_ACTIVATE_REQUEST _ \<Rightarrow> run_hook E HOOK_CALL_OFFHOLD
                  | _ \<Rightarrow> if tc_connected c then id else run_hook E HOOK_CALL_ACTIVE)"
  have run: "t_calls (run_hook E h x) = t_calls x" for h x
    by (simp add: run_hook_def RESCTL_REALLOC_def resctl_realloc_def resctl_update_def resctl_release_def resctl_acquire_def
        next_treqno_def t_note_def Let_def)
  have "t_calls (hook s) = t_calls s" by (cases ev) (simp_all add: hook_def run)
  moreover have "call_activate E a action (ev, Some a, STATE_ACTIVE) st = Some (hook s)"
    unfolding call_activate_def prod.case assms(1) bind.bind_lunit hook_def by (simp add: upd)
  ultimately show ?thesis using s by simp
qed

theorem activated_call_keeps_order_witness:
  "\<exists>st'. call_activate ring_env 1 ''active'' (EVENT_CALL_ACTIVATED, Some 1, STATE_ACTIVE) ring_state = Some st'"
  using activated_call_keeps_order [of ring_state 1 ring_call _ ring_env "''active''" EVENT_CALL_ACTIVATED]
  by (auto simp: ring_state_def ring_call_def)

lemma call_lookup_live:
  assumes ok: "tel_ok st" and c: "t_calls st a = Some c"
  shows "call_lookup (Some (tc_path c)) st = Some a"
proof (cases "call_lookup (Some (tc_path c)) st")
  case None
  then show ?thesis using call_lookup_None [OF ok None, of a "tc_id c"] c by (simp add: t_key_def)
next
  case (Some b)
  obtain i where "t_key st b = Some (tc_path c, i)"
    using call_lookup_Some(2) [OF ok Some] by (cases "t_key st b") auto
  moreover have "t_key st a = Some (tc_path c, tc_id c)" using c by (simp add: t_key_def)
  ultimately have "b = a" using ok unfolding tel_ok_def by blast
  then show ?thesis using Some by simp
qed

lemma video_update_result:
  assumes "t_calls s a = Some c"
  shows "\<exists>s' f. policy_call_update E a {UPDATE_VIDEO} s = Some s' \<and> t_shape s' = t_shape s \<and>
    t_nvideo s' = t_nvideo s \<and> t_calls s' a = Some (c\<lparr>tc_fact := f\<rparr>)"
proof (cases "tc_fact c")
  case None
  have same: "c = c\<lparr>tc_fact := None\<rparr>" using None by (cases c) simp
  have "policy_call_update E a {UPDATE_VIDEO} s = Some (policy_call_export E a s)"
    using assms None by (simp add: policy_call_update_def)
  moreover have "t_nvideo (policy_call_export E a s) = t_nvideo s"
    by (simp add: policy_call_export_def upd_call_def split: option.split)
  moreover have "\<exists>f. t_calls (policy_call_export E a s) a = Some (c\<lparr>tc_fact := f\<rparr>)"
    using assms None exI [of "\<lambda>f. c = c\<lparr>tc_fact := f\<rparr>", OF same]
    by (auto simp: policy_call_export_def upd_call_def)
  ultimately show ?thesis using tkeeps_facts(1) by blast
next
  case (Some g)
  then show ?thesis
    using assms by (auto simp: policy_call_update_def parent_field_def tkeeps upd_call_get) (auto simp: upd_call_def)
qed

lemma video_gone_count: "t_nvideo (video_gone E st) = t_nvideo st - 1"
  by (simp add: video_gone_def RESCTL_UPDATE_def resctl_update_def next_treqno_def t_note_def Let_def)

text \<open>A video content that is added and removed again leaves the number of video calls one below what
  it was, as only the removal is counted.\<close>

theorem content_counted_once:
  assumes "tel_reach E st" and "t_calls st a = Some c" and "tc_audio_content c \<noteq> Some v"
  shows "\<exists>st1 st2. content_added E (tc_path c) (Some (v, TP_STREAM_TYPE_VIDEO)) st = Some st1 \<and>
    content_removed E (tc_path c) (Some v) st1 = Some st2 \<and> t_nvideo st2 = t_nvideo st - 1"
proof -
  have ok: "tel_ok st" using assms(1) by (rule tel_reach_ok)
  note look = call_lookup_live [OF ok assms(2)]
  let ?s = "upd_call a (tc_video_content_update (\<lambda>_. Some v)) (stop_call_timeout a st)"
  have "c = c\<lparr>tc_timeout := 0\<rparr>" if "tc_timeout c = 0" using that by (cases c) simp
  then have "t_calls (stop_call_timeout a st) a = Some (c\<lparr>tc_timeout := 0\<rparr>)"
    using assms(2) by (cases "tc_timeout c = 0") (simp_all add: stop_call_timeout_def upd_call_get remove_tsource_def)
  then have s: "t_calls ?s a = Some (c\<lparr>tc_timeout := 0, tc_video_content := Some v\<rparr>)"
    by (simp add: upd_call_get)
  obtain st1 f where add: "policy_call_update E a {UPDATE_VIDEO} ?s = Some st1"
    and shape: "t_shape st1 = t_shape ?s" and n1: "t_nvideo st1 = t_nvideo ?s"
    and c1: "t_calls st1 a = Some (c\<lparr>tc_timeout := 0, tc_video_content := Some v, tc_fact := f\<rparr>)"
    using video_update_result [OF s, of E] by auto
  have ok1: "tel_ok st1" by (rule ok_keeps [OF _ ok]) (simp add: shape tkeeps)
  have look1: "call_lookup (Some (tc_path c)) st1 = Some a" using call_lookup_live [OF ok1 c1] by simp
  have nvideo: "t_nvideo st1 = t_nvideo st"
    using n1 by (simp add: upd_call_def stop_call_timeout_def remove_tsource_def split: option.split)
  let ?t = "upd_call a (tc_video_content_update (\<lambda>_. None)) st1"
  obtain st2 where rem: "policy_call_update E a {UPDATE_VIDEO} ?t = Some st2" and n2: "t_nvideo st2 = t_nvideo ?t"
    using video_update_result [of ?t a _ E] c1 by (fastforce simp: upd_call_get)
  have "content_added E (tc_path c) (Some (v, TP_STREAM_TYPE_VIDEO)) st = Some st1"
    by (simp add: content_added_def look add)
  moreover have "content_removed E (tc_path c) (Some v) st1 = Some (video_gone E st2)"
    using assms(3) by (simp add: content_removed_def look1 c1 rem)
  moreover have "t_nvideo (video_gone E st2) = t_nvideo st - 1"
    using n2 nvideo by (simp add: video_gone_count upd_call_def)
  ultimately show ?thesis by blast
qed

theorem content_counted_once_witness:
  "\<exists>st1 st2. content_added ring_env ''/a'' (Some (''v'', TP_STREAM_TYPE_VIDEO)) ring_state = Some st1 \<and>
    content_removed ring_env ''/a'' (Some ''v'') st1 = Some st2 \<and> t_nvideo st2 = - 1"
  using content_counted_once [OF ring_reach, of 1 ring_call "''v''"] by (simp add: ring_state_def ring_call_def)
end
