(* ===== verification/Cgrp_Rules.thy ===== *)
theory Cgrp_Rules
  imports Prelude
begin

text \<open>
  The classification rules of the cgroups plugin (\<open>cgrp-eval.c\<close>, \<open>cgrp-procdef.c\<close> and the part of
  \<open>cgrp-process.c\<close> that reads \<open>/proc\<close>): what is known of a task while it is classified, how the
  properties of a task are read from its files, the expressions over the properties, and the rules
  that an event selects.

  The contents of \<open>/proc\<close> are a parameter \<open>proc_env\<close>; a file that cannot be opened is \<open>None\<close>.
  Process and task ids are integers.  The attribute mask, a \<open>u64\<close> with one bit per attribute, and
  the event masks are sets.  Every caller of the reading functions passes buffers for the binary,
  the command line and the arguments, so that these are never \<open>NULL\<close>.
\<close>

subsection \<open>What is known of a task\<close>

datatype proc_bit = Proc_binary | Proc_arg nat | Proc_cmdline | Proc_name | Proc_type | Proc_ppid | Proc_tgid
  | Proc_euid | Proc_egid

datatype proc_type = PROC_UNKNOWN | PROC_USER | PROC_KERNEL

fun proc_type_code :: "proc_type \<Rightarrow> u32" where
  "proc_type_code PROC_UNKNOWN = 0"
| "proc_type_code PROC_USER = 1"
| "proc_type_code PROC_KERNEL = 2"

record proc_attr =
  pa_mask :: "proc_bit set"
  pa_pid :: int
  pa_tgid :: int
  pa_ppid :: int
  pa_tracer :: int
  pa_binary :: string
  pa_name :: string
  pa_type :: proc_type
  pa_cmdline :: string
  pa_argv :: "string list"
  pa_argc :: nat
  pa_euid :: u32
  pa_egid :: u32
  pa_retry :: int
  pa_byargvx :: bool
  pa_process :: "addr option"

definition zero_attr :: proc_attr where
  "zero_attr = \<lparr>pa_mask = {}, pa_pid = 0, pa_tgid = 0, pa_ppid = 0, pa_tracer = 0, pa_binary = [], pa_name = [],
     pa_type = PROC_UNKNOWN, pa_cmdline = [], pa_argv = [], pa_argc = 0, pa_euid = 0, pa_egid = 0, pa_retry = 0,
     pa_byargvx = False, pa_process = None\<rparr>"

text \<open>The files of a task: the target of \<open>exe\<close>, \<open>cmdline\<close>, \<open>stat\<close>, \<open>status\<close>, and the owner of the directory.\<close>

record proc_env =
  pe_exe :: "int \<Rightarrow> string option"
  pe_cmdline :: "int \<Rightarrow> string option"
  pe_stat :: "int \<Rightarrow> string option"
  pe_status :: "int \<Rightarrow> string option"
  pe_owner :: "int \<Rightarrow> (u32 \<times> u32) option"

definition CGRP_MAX_ARGS :: nat where "CGRP_MAX_ARGS = 32"
definition CGRP_MAX_CMDLINE :: nat where "CGRP_MAX_CMDLINE = 32 * 64"
definition CGRP_COMM_LEN :: nat where "CGRP_COMM_LEN = 16"

abbreviation NUL :: char where "NUL \<equiv> CHR 0x00"

subsection \<open>Reading the files\<close>

definition process_get_binary :: "('a) proc_env_scheme \<Rightarrow> proc_attr \<Rightarrow> bool \<times> proc_attr" where
  "process_get_binary P attr =
     (if pa_binary attr \<noteq> [] then (True, attr)
      else case pe_exe P (pa_pid attr) of
          None \<Rightarrow> (False, attr)
        | Some exe \<Rightarrow> (True, attr\<lparr>pa_binary := exe\<rparr>))"

text \<open>
  The loop over the command line: the arguments end with a zero byte; \<open>cp\<close> collects them separated
  by single blanks, \<open>arg\<close> is the argument that is being copied.
\<close>

fun argv_loop :: "nat \<Rightarrow> string \<Rightarrow> string \<Rightarrow> string \<Rightarrow> bool \<Rightarrow> string list \<Rightarrow> string list \<times> string" where
  "argv_loop limit [] arg cp term args = (args, cp)"
| "argv_loop limit (c # s) arg cp term args =
     (if length args \<ge> limit then (args, cp)
      else if c \<noteq> NUL then argv_loop limit s (arg @ [c]) (cp @ (if term then [CHR '' ''] else []) @ [c]) False args
      else if length args < CGRP_MAX_ARGS - 1 then argv_loop limit s [] cp True (args @ [arg])
      else argv_loop limit s (arg @ [NUL]) cp True args)"

definition process_get_argv :: "('a) proc_env_scheme \<Rightarrow> nat \<Rightarrow> proc_attr \<Rightarrow> bool \<times> proc_attr" where
  "process_get_argv P max_args attr =
     (if Proc_cmdline \<in> pa_mask attr then (True, attr)
      else case pe_cmdline P (pa_pid attr) of
          None \<Rightarrow> (False, attr)
        | Some file \<Rightarrow>
            (let buf = take (CGRP_MAX_CMDLINE - 1) file
             in if buf = [] then (False, attr)
                else let (args, cmdline) = argv_loop max_args (butlast buf @ [NUL]) [] [] False []
                     in (True, attr\<lparr>pa_mask := pa_mask attr \<union> {Proc_cmdline} \<union> Proc_arg ` {..<length args},
                           pa_argv := args, pa_argc := length args, pa_cmdline := cmdline\<rparr>)))"

definition process_get_cmdline :: "('a) proc_env_scheme \<Rightarrow> proc_attr \<Rightarrow> bool \<times> proc_attr" where
  "process_get_cmdline P attr =
     (if Proc_cmdline \<in> pa_mask attr then (True, attr) else process_get_argv P CGRP_MAX_ARGS attr)"

text \<open>
  \<open>FIND_FIELD(n)\<close>: skip to the byte after the \<open>n\<close>-th blank; a search that runs into the end of what
  was read fails.
\<close>

fun FIND_FIELD :: "nat \<Rightarrow> nat \<times> string \<Rightarrow> (nat \<times> string) option" where
  "FIND_FIELD n (nfield, []) = (if nfield \<noteq> n then None else Some (nfield, []))"
| "FIND_FIELD n (nfield, c # p) =
     (if nfield < n then FIND_FIELD n (if c = CHR '' '' then Suc nfield else nfield, p)
      else if nfield \<noteq> n then None else Some (nfield, c # p))"

definition FIELD_NAME :: nat where "FIELD_NAME = 1"
definition FIELD_PPID :: nat where "FIELD_PPID = 3"
definition FIELD_NICE :: nat where "FIELD_NICE = 18"
definition FIELD_VMSIZE :: nat where "FIELD_VMSIZE = 22"

text \<open>
  The name: the bytes up to the closing parenthesis; a name that is cut by a blank keeps the blank,
  and an empty one leaves the old value.
\<close>

definition stat_name :: "string \<Rightarrow> string \<Rightarrow> string" where
  "stat_name old p =
     (let namep = (if p \<noteq> [] \<and> hd p = CHR ''('' then tl p else p);
          name = takeWhile (\<lambda>c. c \<noteq> CHR '')'' \<and> c \<noteq> CHR '' '') namep;
          rest = dropWhile (\<lambda>c. c \<noteq> CHR '')'' \<and> c \<noteq> CHR '' '') namep
      in if rest \<noteq> [] \<and> hd rest = CHR '')'' then (if name = [] then old else take (CGRP_COMM_LEN - 1) name)
         else take (CGRP_COMM_LEN - 1) (name @ (if rest = [] then [] else [hd rest])))"

text \<open>The result: success, and the name, the parent and the type as far as they have been written.\<close>

definition proc_stat_parse :: "('a) proc_env_scheme \<Rightarrow> int \<Rightarrow> string \<times> int \<times> proc_type \<Rightarrow>
    bool \<times> string \<times> int \<times> proc_type" where
  "proc_stat_parse P pid old =
     (let (name0, ppid0, type0) = old
      in case pe_stat P pid of
          None \<Rightarrow> (False, old)
        | Some file \<Rightarrow>
            (let stat = take 1023 file
             in if stat = [] then (False, old)
                else case FIND_FIELD FIELD_NAME (0, stat) of
                    None \<Rightarrow> (False, old)
                  | Some q1 \<Rightarrow>
                      (let name = stat_name name0 (snd q1)
                       in case FIND_FIELD FIELD_PPID q1 of
                          None \<Rightarrow> (False, name, ppid0, type0)
                        | Some q2 \<Rightarrow>
                            (let ppid = sint (word_of_int (fst (strtoul (snd q2))) :: 32 word)
                             in case FIND_FIELD FIELD_NICE q2 of
                                None \<Rightarrow> (False, name, ppid, type0)
                              | Some q3 \<Rightarrow>
                                  (case FIND_FIELD FIELD_VMSIZE q3 of
                                      None \<Rightarrow> (False, name, ppid, type0)
                                    | Some q4 \<Rightarrow>
                                        (True, name, ppid,
                                         if snd q4 \<noteq> [] \<and> hd (snd q4) = CHR ''0'' then PROC_KERNEL
                                         else PROC_USER))))))"

definition process_get_type :: "('a) proc_env_scheme \<Rightarrow> proc_attr \<Rightarrow> proc_type \<times> proc_attr" where
  "process_get_type P attr =
     (let (ok, name, ppid, typ) = proc_stat_parse P (pa_pid attr) (pa_name attr, pa_ppid attr, pa_type attr);
          attr1 = attr\<lparr>pa_name := name, pa_ppid := ppid, pa_type := typ\<rparr>
      in if \<not> ok then (PROC_UNKNOWN, attr1)
         else (typ, attr1\<lparr>pa_mask := pa_mask attr \<union> {Proc_name, Proc_ppid, Proc_type}\<rparr>))"

definition process_get_name :: "('a) proc_env_scheme \<Rightarrow> proc_attr \<Rightarrow> bool \<times> proc_attr" where
  "process_get_name P attr =
     (if Proc_name \<in> pa_mask attr then (True, attr)
      else let attr1 = snd (process_get_type P attr) in (Proc_name \<in> pa_mask attr1, attr1))"

definition process_get_euid :: "('a) proc_env_scheme \<Rightarrow> proc_attr \<Rightarrow> u32 \<times> proc_attr" where
  "process_get_euid P attr =
     (if Proc_euid \<in> pa_mask attr then (pa_euid attr, attr)
      else case pe_owner P (pa_pid attr) of
          None \<Rightarrow> (-1, attr)
        | Some (uid, gid) \<Rightarrow>
            (uid, attr\<lparr>pa_euid := uid, pa_egid := gid, pa_mask := pa_mask attr \<union> {Proc_euid, Proc_egid}\<rparr>))"

definition process_get_egid :: "('a) proc_env_scheme \<Rightarrow> proc_attr \<Rightarrow> u32 \<times> proc_attr" where
  "process_get_egid P attr =
     (if Proc_egid \<in> pa_mask attr then (pa_egid attr, attr)
      else let (uid, attr1) = process_get_euid P attr
           in if uid \<noteq> -1 then (pa_egid attr1, attr1) else (-1, attr1))"

definition process_get_ppid :: "('a) proc_env_scheme \<Rightarrow> proc_attr \<Rightarrow> int \<times> proc_attr" where
  "process_get_ppid P attr =
     (if Proc_ppid \<in> pa_mask attr then (pa_ppid attr, attr)
      else let (typ, attr1) = process_get_type P attr
           in if typ \<noteq> PROC_UNKNOWN then (pa_ppid attr1, attr1) else (-1, attr1))"

text \<open>
  The scan of \<open>status\<close> for a line that starts with \<open>name\<close>; \<open>at_start\<close> (\<open>next\<close> in the code) says that
  the scan is at the start of a line.  When the file ends with a line feed and the field is missing, the
  C code steps over the terminating zero and goes on in what the stack holds behind it; the model stops there.
\<close>

fun match_prefix :: "string \<Rightarrow> string \<Rightarrow> string \<times> string" where
  "match_prefix (p # ps) (c # cs) = (if p = c then match_prefix ps cs else (p # ps, c # cs))"
| "match_prefix ps cs = (ps, cs)"

lemma match_prefix_shorter: "(qs, rest) = match_prefix ps cs \<Longrightarrow> length rest \<le> length cs"
  by (induction ps cs arbitrary: qs rest rule: match_prefix.induct) (auto split: if_splits intro: le_SucI)

function find_status_field :: "string \<Rightarrow> bool \<Rightarrow> string \<Rightarrow> string option" where
  "find_status_field name at_start [] = None"
| "find_status_field name at_start (c # s) =
     (if \<not> at_start then find_status_field name (c = CHR 0x0A) s
      else if name = [] \<or> c \<noteq> hd name then find_status_field name False s
      else let (qs, rest) = match_prefix (tl name) s
           in if qs = [] then Some (dropWhile (\<lambda>x. x = CHR '' '' \<or> x = CHR 0x09) rest)
              else find_status_field name (rest \<noteq> [] \<and> hd rest = CHR 0x0A) rest)"
  by pat_completeness auto

termination find_status_field
  by (relation "measure (\<lambda>(_, _, s). length s)") (auto dest: match_prefix_shorter)

definition process_get_tgid :: "('a) proc_env_scheme \<Rightarrow> proc_attr \<Rightarrow> int \<times> proc_attr" where
  "process_get_tgid P attr =
     (if Proc_tgid \<in> pa_mask attr then (pa_tgid attr, attr)
      else case pe_status P (pa_pid attr) of
          None \<Rightarrow> (-1, attr)
        | Some file \<Rightarrow>
            (let buf = take 511 file
             in if buf = [] then (-1, attr)
                else case find_status_field ''Tgid:'' True buf of
                    Some p \<Rightarrow>
                      (let tgid = sint (word_of_int (fst (strtoul p)) :: 32 word)
                       in (tgid, attr\<lparr>pa_tgid := tgid, pa_mask := pa_mask attr \<union> {Proc_tgid}\<rparr>))
                  | None \<Rightarrow> (-1, attr\<lparr>pa_tgid := -1\<rparr>)))"

subsection \<open>Expressions\<close>

datatype cgrp_value = Value_string string | Value_u32 u32 | Value_s32 int

datatype cgrp_prop = Prop_binary | Prop_arg nat | Prop_cmdline | Prop_name | Prop_type | Prop_parent | Prop_euid
  | Prop_egid | Prop_reclassify

datatype cgrp_prop_op = Op_equal | Op_noteq | Op_less

datatype cgrp_expr = Bool_and cgrp_expr cgrp_expr | Bool_or cgrp_expr cgrp_expr | Bool_not cgrp_expr
  | Expr_prop cgrp_prop cgrp_prop_op cgrp_value

text \<open>\<open>getpwnam\<close> and \<open>getgrnam\<close> are parameters; \<open>(uid_t)-1\<close> counts as unknown.\<close>

record user_db =
  db_user :: "string \<Rightarrow> u32 option"
  db_group :: "string \<Rightarrow> u32 option"

definition cgrp_getuid :: "user_db \<Rightarrow> string \<Rightarrow> u32" where
  "cgrp_getuid D user = (case db_user D user of None \<Rightarrow> -1 | Some uid \<Rightarrow> uid)"

definition cgrp_getgid :: "user_db \<Rightarrow> string \<Rightarrow> u32" where
  "cgrp_getgid D grp = (case db_group D grp of None \<Rightarrow> -1 | Some gid \<Rightarrow> gid)"

definition prop_type_check :: "user_db \<Rightarrow> cgrp_prop \<Rightarrow> cgrp_value \<Rightarrow> bool \<times> cgrp_value" where
  "prop_type_check D p v =
     (case p of
        Prop_type \<Rightarrow>
          (case v of
             Value_string s \<Rightarrow>
               (if s = ''kernel'' then (True, Value_u32 (proc_type_code PROC_KERNEL))
                else if s = ''user'' then (True, Value_u32 (proc_type_code PROC_USER))
                else (False, v))
           | _ \<Rightarrow> (False, v))
      | Prop_euid \<Rightarrow>
          (case v of
             Value_u32 _ \<Rightarrow> (True, v)
           | Value_string s \<Rightarrow> (if cgrp_getuid D s = -1 then (False, v) else (True, Value_u32 (cgrp_getuid D s)))
           | Value_s32 _ \<Rightarrow> (False, v))
      | Prop_egid \<Rightarrow>
          (case v of
             Value_u32 _ \<Rightarrow> (True, v)
           | Value_string s \<Rightarrow> (if cgrp_getgid D s = -1 then (False, v) else (True, Value_u32 (cgrp_getgid D s)))
           | Value_s32 _ \<Rightarrow> (False, v))
      | _ \<Rightarrow> (True, v))"

text \<open>The constructor ignores the verdict of the check.\<close>

definition prop_expr :: "user_db \<Rightarrow> cgrp_prop \<Rightarrow> cgrp_prop_op \<Rightarrow> cgrp_value \<Rightarrow> cgrp_expr" where
  "prop_expr D p op v = Expr_prop p op (snd (prop_type_check D p v))"

text \<open>\<open>strcmp(a, b) < 0\<close>, which compares unsigned bytes.\<close>

fun strcmp_less :: "string \<Rightarrow> string \<Rightarrow> bool" where
  "strcmp_less _ [] = False"
| "strcmp_less [] (_ # _) = True"
| "strcmp_less (a # as) (b # bs) = ((of_char a :: nat) < of_char b \<or> a = b \<and> strcmp_less as bs)"

text \<open>The value of a property, and what reading it leaves in the attributes.\<close>

definition prop_value :: "('a) proc_env_scheme \<Rightarrow> cgrp_prop \<Rightarrow> cgrp_value \<Rightarrow> proc_attr \<Rightarrow> cgrp_value \<times> proc_attr" where
  "prop_value P p v attr =
     (case p of
        Prop_binary \<Rightarrow> (Value_string (pa_binary attr), attr)
      | Prop_arg argn \<Rightarrow>
          (let attr1 = snd (process_get_argv P (argn + 1) attr)
           in (Value_string (if argn < pa_argc attr1 then pa_argv attr1 ! argn else []), attr1))
      | Prop_cmdline \<Rightarrow>
          (let attr1 = snd (process_get_cmdline P attr)
           in (Value_string (if Proc_cmdline \<in> pa_mask attr1 then pa_cmdline attr1 else []), attr1))
      | Prop_name \<Rightarrow>
          (let attr1 = snd (process_get_name P attr)
           in (Value_string (if Proc_name \<in> pa_mask attr1 then pa_name attr1 else []), attr1))
      | Prop_type \<Rightarrow> (let attr1 = snd (process_get_type P attr) in (Value_u32 (proc_type_code (pa_type attr1)), attr1))
      | Prop_reclassify \<Rightarrow> (Value_u32 (word_of_int (pa_retry attr)), attr)
      | Prop_euid \<Rightarrow> (let attr1 = snd (process_get_euid P attr) in (Value_u32 (pa_euid attr1), attr1))
      | Prop_egid \<Rightarrow> (let attr1 = snd (process_get_egid P attr) in (Value_u32 (pa_egid attr1), attr1))
      | Prop_parent \<Rightarrow>
          (let attr1 = snd (process_get_ppid P attr)
           in case v of
                Value_string _ \<Rightarrow>
                  (case process_get_binary P (zero_attr\<lparr>pa_pid := pa_ppid attr1\<rparr>) of
                     (True, pattr) \<Rightarrow> (Value_string (pa_binary pattr), attr1)
                   | (False, _) \<Rightarrow> (Value_string [], attr1))
              | _ \<Rightarrow> (Value_u32 (word_of_int (pa_ppid attr1)), attr1)))"

fun prop_match :: "cgrp_prop_op \<Rightarrow> cgrp_value \<Rightarrow> cgrp_value \<Rightarrow> bool" where
  "prop_match Op_equal (Value_string a) (Value_string b) = (a = b)"
| "prop_match Op_equal (Value_u32 a) (Value_u32 b) = (a = b)"
| "prop_match Op_noteq (Value_string a) (Value_string b) = (a \<noteq> b)"
| "prop_match Op_noteq (Value_u32 a) (Value_u32 b) = (a \<noteq> b)"
| "prop_match Op_less (Value_string a) (Value_string b) = strcmp_less a b"
| "prop_match Op_less (Value_u32 a) (Value_u32 b) = (a < b)"
| "prop_match _ _ _ = False"

definition prop_eval :: "('a) proc_env_scheme \<Rightarrow> cgrp_prop \<Rightarrow> cgrp_prop_op \<Rightarrow> cgrp_value \<Rightarrow> proc_attr \<Rightarrow> bool \<times> proc_attr" where
  "prop_eval P p op v attr = (let (v1, attr1) = prop_value P p v attr in (prop_match op v1 v, attr1))"

text \<open>The right operand is evaluated, and its files are read, only when the left one does not decide.\<close>

fun expr_eval :: "('a) proc_env_scheme \<Rightarrow> cgrp_expr \<Rightarrow> proc_attr \<Rightarrow> bool \<times> proc_attr" where
  "expr_eval P (Bool_and e1 e2) attr =
     (let (b, attr1) = expr_eval P e1 attr in if b then expr_eval P e2 attr1 else (False, attr1))"
| "expr_eval P (Bool_or e1 e2) attr =
     (let (b, attr1) = expr_eval P e1 attr in if b then (True, attr1) else expr_eval P e2 attr1)"
| "expr_eval P (Bool_not e) attr = (let (b, attr1) = expr_eval P e attr in (\<not> b, attr1))"
| "expr_eval P (Expr_prop p op v) attr = prop_eval P p op v attr"

subsection \<open>Rules\<close>

datatype event_type = EVENT_UNKNOWN | EVENT_FORCE | EVENT_FORK | EVENT_THREAD | EVENT_EXEC | EVENT_EXIT | EVENT_UID
  | EVENT_GID | EVENT_SID | EVENT_PTRACE | EVENT_COMM

datatype cgrp_adjust = ADJ_ABSOLUTE | ADJ_RELATIVE | ADJ_LOCK | ADJ_UNLOCK | ADJ_EXTERN | ADJ_INTERN

datatype sched_policy = SCHED_OTHER | SCHED_FIFO | SCHED_RR | SCHED_BATCH

text \<open>The actions; groups are indices into the array of groups.\<close>

datatype cgrp_action =
    Action_group nat
  | Action_schedule sched_policy int
  | Action_renice int
  | Action_classify int
  | Action_priority cgrp_adjust int
  | Action_oom cgrp_adjust int
  | Action_ignore
  | Action_leads "string list"
  | Action_noop

record cgrp_stmt =
  stmt_expr :: "cgrp_expr option"
  stmt_actions :: "cgrp_action list"

record cgrp_rule =
  rule_event_mask :: "event_type set"
  rule_gids :: "u32 list option"
  rule_uids :: "u32 list option"
  rule_statements :: "cgrp_stmt list"

record cgrp_procdef =
  def_binary :: string
  def_rules :: "cgrp_rule list"

record cgrp_event =
  ev_type :: event_type
  ev_pid :: int
  ev_tgid :: int
  ev_ppid :: int
  ev_eid :: u32
  ev_tracer_pid :: int
  ev_tracer_tgid :: int

fun rule_find :: "cgrp_rule list \<Rightarrow> event_type \<Rightarrow> u32 \<Rightarrow> cgrp_rule option" where
  "rule_find [] typ eid = None"
| "rule_find (r # rs) typ eid =
     (let typ = (if typ = EVENT_FORCE then EVENT_EXEC else typ)
      in if typ \<notin> rule_event_mask r then rule_find rs typ eid
         else case typ of
             EVENT_EXEC \<Rightarrow> Some r
           | EVENT_THREAD \<Rightarrow> Some r
           | EVENT_GID \<Rightarrow>
               (case rule_gids r of
                  None \<Rightarrow> Some r
                | Some gids \<Rightarrow> if eid \<in> set gids then Some r else rule_find rs typ eid)
           | EVENT_UID \<Rightarrow>
               (case rule_uids r of
                  None \<Rightarrow> Some r
                | Some uids \<Rightarrow> if eid \<in> set uids then Some r else rule_find rs typ eid)
           | EVENT_SID \<Rightarrow> Some r
           | EVENT_COMM \<Rightarrow> Some r
           | _ \<Rightarrow> None)"

text \<open>
  The actions of the first statement whose condition holds; a statement without actions and no
  statement at all are the same \<open>NULL\<close>.
\<close>

fun stmts_eval :: "('a) proc_env_scheme \<Rightarrow> cgrp_stmt list \<Rightarrow> proc_attr \<Rightarrow> cgrp_action list \<times> proc_attr" where
  "stmts_eval P [] attr = ([], attr)"
| "stmts_eval P (s # ss) attr =
     (case stmt_expr s of
        None \<Rightarrow> (stmt_actions s, attr)
      | Some e \<Rightarrow>
          (let (b, attr1) = expr_eval P e attr
           in if b then (stmt_actions s, attr1) else stmts_eval P ss attr1))"

definition rule_eval :: "('a) proc_env_scheme \<Rightarrow> cgrp_rule \<Rightarrow> proc_attr \<Rightarrow> cgrp_action list \<times> proc_attr" where
  "rule_eval P r attr = stmts_eval P (rule_statements r) attr"

subsection \<open>The tables of rules\<close>

text \<open>
  The process definitions in the order of the configuration, the fallback rules of \<open>*\<close>, the add-on
  definitions, the two hash tables by binary, and the events that any rule asks for.
\<close>

record cgrp_rules =
  r_procdefs :: "cgrp_procdef list"
  r_fallback :: "cgrp_rule list"
  r_addons :: "cgrp_procdef list"
  r_ruletbl :: "string \<rightharpoonup> cgrp_procdef"
  r_addontbl :: "string \<rightharpoonup> cgrp_procdef"
  r_event_mask :: "event_type set"

definition rules_events :: "cgrp_procdef \<Rightarrow> event_type set" where
  "rules_events pd = \<Union> (set (map rule_event_mask (def_rules pd)))"

definition procdef_add :: "cgrp_procdef \<Rightarrow> cgrp_rules \<Rightarrow> bool \<times> cgrp_rules" where
  "procdef_add pd R =
     (let R1 = R\<lparr>r_event_mask := r_event_mask R \<union> rules_events pd\<rparr>
      in if def_binary pd = ''*''
         then (if r_fallback R1 \<noteq> [] then (False, R1) else (True, R1\<lparr>r_fallback := def_rules pd\<rparr>))
         else (True, R1\<lparr>r_procdefs := r_procdefs R1 @ [pd]\<rparr>))"

definition addon_add :: "cgrp_procdef \<Rightarrow> cgrp_rules \<Rightarrow> bool \<times> cgrp_rules" where
  "addon_add pd R =
     (if def_binary pd = ''*'' then (True, R)
      else (True, R\<lparr>r_addons := r_addons R @ [pd], r_event_mask := r_event_mask R \<union> rules_events pd\<rparr>))"

definition rule_hash_insert :: "cgrp_procdef \<Rightarrow> cgrp_rules \<Rightarrow> bool \<times> cgrp_rules" where
  "rule_hash_insert pd R =
     (if r_ruletbl R (def_binary pd) \<noteq> None then (False, R)
      else (True, R\<lparr>r_ruletbl := (r_ruletbl R)(def_binary pd \<mapsto> pd)\<rparr>))"

definition addon_hash_insert :: "cgrp_procdef \<Rightarrow> cgrp_rules \<Rightarrow> bool \<times> cgrp_rules" where
  "addon_hash_insert pd R =
     (if r_ruletbl R (def_binary pd) \<noteq> None \<or> r_addontbl R (def_binary pd) \<noteq> None then (False, R)
      else (True, R\<lparr>r_addontbl := (r_addontbl R)(def_binary pd \<mapsto> pd)\<rparr>))"

fun insert_rules :: "cgrp_procdef list \<Rightarrow> cgrp_rules \<Rightarrow> bool \<times> cgrp_rules" where
  "insert_rules [] R = (True, R)"
| "insert_rules (pd # pds) R =
     (case rule_hash_insert pd R of (False, R1) \<Rightarrow> (False, R1) | (True, R1) \<Rightarrow> insert_rules pds R1)"

definition classify_reconfig :: "cgrp_rules \<Rightarrow> bool \<times> cgrp_rules" where
  "classify_reconfig R = (True, foldl (\<lambda>S pd. snd (addon_hash_insert pd S)) R (r_addons R))"

definition classify_config :: "cgrp_rules \<Rightarrow> bool \<times> cgrp_rules" where
  "classify_config R =
     (case insert_rules (r_procdefs R) R of
        (False, R1) \<Rightarrow> (False, R1)
      | (True, R1) \<Rightarrow> (True, foldl (\<lambda>S pd. snd (addon_hash_insert pd S)) R1 (r_addons R1)))"

definition addon_reset :: "cgrp_rules \<Rightarrow> cgrp_rules" where
  "addon_reset R = R\<lparr>r_addons := []\<rparr>"

definition addon_hash_reset :: "cgrp_rules \<Rightarrow> cgrp_rules" where
  "addon_hash_reset R = R\<lparr>r_addontbl := Map.empty\<rparr>"

text \<open>The add-on files parse into definitions, each of which the parser passes to \<open>addon_add\<close>.\<close>

definition addon_reload :: "bool \<times> cgrp_procdef list \<Rightarrow> cgrp_rules \<Rightarrow> bool \<times> cgrp_rules" where
  "addon_reload parsed R =
     (let (ok, pds) = parsed;
          R1 = foldl (\<lambda>S pd. snd (addon_add pd S)) (addon_hash_reset (addon_reset R)) pds;
          (ok2, R2) = classify_reconfig R1
      in (ok \<or> ok2, R2))"

definition rules_lookup :: "cgrp_rules \<Rightarrow> string \<Rightarrow> cgrp_procdef option" where
  "rules_lookup R binary = (case r_ruletbl R binary of None \<Rightarrow> r_addontbl R binary | Some pd \<Rightarrow> Some pd)"

end
