(* ===== verification/Cgrp_Proc.thy ===== *)
theory Cgrp_Proc
  imports Cgrp_Rules Option_Post
begin

text \<open>
  The processes, groups and partitions of the cgroups plugin (\<open>cgrp-process.c\<close>, \<open>cgrp-hash.c\<close>,
  \<open>cgrp-group.c\<close>, \<open>cgrp-leader.c\<close>, \<open>cgrp-partition.c\<close>, \<open>cgrp-fact.c\<close> and \<open>curve_map\<close> of
  \<open>cgrp-curve.c\<close>).

  Processes live at addresses of a heap; a freed address is not reused.  Groups and partitions are
  never freed while the plugin runs and are indices into lists.  An intrusive list is the list of
  the addresses on it.  Operations that may not return are in the option monad: \<open>None\<close> stands for the
  use of freed memory or of a \<open>NULL\<close> pointer, and for a recursion that never ends and so runs out of stack.

  The kernel is a parameter \<open>cg_env\<close>: what \<open>/proc\<close> holds and how a system call ends is a function of the
  system calls and resolver calls made so far (the log), newest last.
\<close>

subsection \<open>Data\<close>

datatype adj_mode = Mode_default | Mode_locked | Mode_extern

record cg_track =
  tr_events :: "event_type set"
  tr_target :: string

record cg_process =
  cp_pid :: int
  cp_tgid :: int
  cp_tracer :: int
  cp_binary :: string
  cp_argv0 :: cstring
  cp_argvx :: cstring
  cp_name :: string
  cp_group :: "nat option"
  cp_partition :: "nat option"
  cp_priority :: int
  cp_prio_mode :: adj_mode
  cp_oom_adj :: int
  cp_oom_mode :: adj_mode
  cp_track :: "cg_track option"

text \<open>The priority \<open>CGRP_DEFAULT_PRIORITY\<close> of a group means that it has none.\<close>

definition CGRP_DEFAULT_PRIORITY :: int where "CGRP_DEFAULT_PRIORITY = 0xffff"

record cg_group =
  cg_name :: string
  cg_reassign :: bool
  cg_processes :: "addr list"
  cg_partition :: "nat option"
  cg_fact :: "(int \<rightharpoonup> string) option"
  cg_priority :: int

record cg_partition =
  pt_name :: string
  pt_path :: string
  pt_tasks :: bool
  pt_freeze :: bool
  pt_cpu :: bool
  pt_mem :: bool
  pt_limit_cpu :: u32
  pt_limit_mem :: "64 word"
  pt_rt_period :: int
  pt_rt_runtime :: int
  pt_settings :: "(string \<times> string) list"

record cg_ctrl =
  ct_name :: string
  ct_path :: string
  ct_settings :: "(string \<times> string) list"

record cg_curve =
  cv_min :: int
  cv_max :: int
  cv_out :: "int list"

datatype prio_preserve = PRIO_LOW | PRIO_NONE | PRIO_ALL

text \<open>What the plugin does to the outside.\<close>

datatype cg_out =
    Tasks_write nat int
  | Control_write nat string string
  | Set_priority int int
  | Set_scheduler int sched_policy int
  | Oom_write int string
  | Resolve string "(string \<times> string) list"
  | Track_resolve string int string
  | App_notify "nat \<times> nat" int "cstring \<times> cstring \<times> cstring"
  | Mount string

datatype sys_result = Sys_done | Sys_gone | Sys_failed

text \<open>The first byte of \<open>oom_adj\<close> and the result of the write, or how the file failed before.\<close>

datatype oom_file = Oom_no_entry | Oom_open_failed | Oom_read_gone | Oom_read_failed | Oom_file char sys_result

record cg_world = proc_env +
  w_tasks :: "nat \<Rightarrow> int \<Rightarrow> sys_result"
  w_open :: "string \<Rightarrow> string \<Rightarrow> bool"
  w_write :: "nat \<Rightarrow> string \<Rightarrow> string \<Rightarrow> bool"
  w_getpriority :: "int \<Rightarrow> int"
  w_setpriority :: "int \<Rightarrow> int \<Rightarrow> sys_result"
  w_setscheduler :: "int \<Rightarrow> bool"
  w_oom :: "int \<Rightarrow> oom_file"
  w_mount :: bool

type_synonym cg_env = "cg_out list \<Rightarrow> cg_world"

record cg_context =
  c_procs :: "addr \<rightharpoonup> cg_process"
  c_next :: addr
  c_proctbl :: "nat \<Rightarrow> addr list"
  c_groups :: "cg_group list"
  c_grouptbl :: "string \<rightharpoonup> nat"
  c_parts :: "cg_partition list"
  c_parttbl :: "string \<rightharpoonup> nat"
  c_root :: "nat option"
  c_desired_mount :: cstring
  c_actual_mount :: cstring
  c_controls :: "cg_ctrl list"
  c_rules :: cgrp_rules
  c_always_fallback :: bool
  c_prio_preserve :: prio_preserve
  c_active_process :: "addr option"
  c_active_group :: "nat option"
  c_leaders :: "string \<rightharpoonup> string list"
  c_timers :: "(int \<times> int) list"
  c_subscribers :: "(nat \<times> nat) list"
  c_apptrack_update :: bool
  c_prio_curve :: "cg_curve option"
  c_oom_curve :: "cg_curve option"
  c_oom_default :: int
  c_log :: "cg_out list"

definition c_note :: "cg_out \<Rightarrow> cg_context \<Rightarrow> cg_context" where
  "c_note x st = st\<lparr>c_log := c_log st @ [x]\<rparr>"

definition upd_process :: "addr \<Rightarrow> (cg_process \<Rightarrow> cg_process) \<Rightarrow> cg_context \<Rightarrow> cg_context" where
  "upd_process a f st =
     (case c_procs st a of None \<Rightarrow> st | Some p \<Rightarrow> st\<lparr>c_procs := (c_procs st)(a \<mapsto> f p)\<rparr>)"

definition upd_group :: "nat \<Rightarrow> (cg_group \<Rightarrow> cg_group) \<Rightarrow> cg_context \<Rightarrow> cg_context" where
  "upd_group g f st = st\<lparr>c_groups := (c_groups st)[g := f (c_groups st ! g)]\<rparr>"

definition upd_part :: "nat \<Rightarrow> (cg_partition \<Rightarrow> cg_partition) \<Rightarrow> cg_context \<Rightarrow> cg_context" where
  "upd_part i f st = st\<lparr>c_parts := (c_parts st)[i := f (c_parts st ! i)]\<rparr>"

subsection \<open>The process table\<close>

definition PROC_BUCKETS :: nat where "PROC_BUCKETS = 1024"

definition proc_hash_bucket :: "int \<Rightarrow> nat" where
  "proc_hash_bucket pid = nat ((pid - 1) mod int PROC_BUCKETS)"

definition proc_hash_insert :: "addr \<Rightarrow> int \<Rightarrow> cg_context \<Rightarrow> cg_context" where
  "proc_hash_insert a pid st =
     st\<lparr>c_proctbl := (c_proctbl st)(proc_hash_bucket pid := c_proctbl st (proc_hash_bucket pid) @ [a])\<rparr>"

text \<open>\<open>list_delete\<close> on the hook of the process: it leaves the list it is on.\<close>

definition proc_hash_unhash :: "addr \<Rightarrow> cg_context \<Rightarrow> cg_context" where
  "proc_hash_unhash a st = st\<lparr>c_proctbl := (\<lambda>i. remove1 a (c_proctbl st i))\<rparr>"

definition has_pid :: "cg_context \<Rightarrow> int \<Rightarrow> addr \<Rightarrow> bool" where
  "has_pid st pid a \<longleftrightarrow> (case c_procs st a of None \<Rightarrow> False | Some p \<Rightarrow> cp_pid p = pid)"

definition proc_hash_lookup :: "cg_context \<Rightarrow> int \<Rightarrow> addr option" where
  "proc_hash_lookup st pid = find (has_pid st pid) (c_proctbl st (proc_hash_bucket pid))"

definition all_processes :: "cg_context \<Rightarrow> addr list" where
  "all_processes st = concat (map (c_proctbl st) [0..<PROC_BUCKETS])"

text \<open>No callback of the code takes a process other than its own from the table, so the walk is over a snapshot.\<close>

definition proc_hash_foreach :: "(addr \<Rightarrow> cg_context \<Rightarrow> cg_context option) \<Rightarrow> cg_context \<Rightarrow> cg_context option" where
  "proc_hash_foreach f st = foldM f (all_processes st) st"

subsection \<open>Partitions follow leaders\<close>

text \<open>
  \<open>partition_add_process\<close> writes the task id to the \<open>tasks\<close> file; when the kernel takes it, the
  process now acts as a leader (\<open>leader_acts\<close>): the other tasks of its thread group with its name,
  the followers registered for its name, and its tracer are added to the same partition, each by the
  same function.  \<open>add\<close> stands for the recursive call.
\<close>

definition order_to_follow :: "(nat \<Rightarrow> addr \<Rightarrow> cg_context \<Rightarrow> (bool \<times> cg_context) option) \<Rightarrow> addr \<Rightarrow> addr \<Rightarrow>
    cg_context \<Rightarrow> cg_context option" where
  "order_to_follow add a b st =
     do { p \<leftarrow> c_procs st a; part \<leftarrow> cp_partition p; r \<leftarrow> add part b st; Some (snd r) }"

definition lead_followers :: "(nat \<Rightarrow> addr \<Rightarrow> cg_context \<Rightarrow> (bool \<times> cg_context) option) \<Rightarrow> string list option \<Rightarrow>
    addr \<Rightarrow> addr \<Rightarrow> cg_context \<Rightarrow> cg_context option" where
  "lead_followers add leader a b st =
     do { process \<leftarrow> c_procs st a; proc \<leftarrow> c_procs st b;
          if cp_partition process = cp_partition proc then Some st
          else if cp_tgid process = cp_tgid proc \<and> cp_name process = cp_name proc then order_to_follow add a b st
          else case leader of
              None \<Rightarrow> Some st
            | Some followers \<Rightarrow>
                foldM (\<lambda>name s. if name \<noteq> cp_name proc then Some s else order_to_follow add a b s) followers st }"

definition leader_acts :: "(nat \<Rightarrow> addr \<Rightarrow> cg_context \<Rightarrow> (bool \<times> cg_context) option) \<Rightarrow> addr \<Rightarrow>
    cg_context \<Rightarrow> cg_context option" where
  "leader_acts add a st =
     do { process \<leftarrow> c_procs st a;
          st1 \<leftarrow> proc_hash_foreach (lead_followers add (c_leaders st (cp_name process)) a) st;
          process1 \<leftarrow> c_procs st1 a;
          if cp_tracer process1 = 0 then Some st1
          else case proc_hash_lookup st1 (cp_tracer process1) of
              Some tracer \<Rightarrow> order_to_follow add a tracer st1
            | None \<Rightarrow> Some (upd_process a (cp_tracer_update (\<lambda>_. 0)) st1) }"

lemma order_to_follow_mono [partial_function_mono]:
  assumes "\<And>part b s. mono_option (\<lambda>f. F f part b s)"
  shows "mono_option (\<lambda>f. order_to_follow (F f) a b st)"
  unfolding order_to_follow_def by (intro bind_mono assms option.const_mono)

lemma lead_followers_mono [partial_function_mono]:
  assumes "\<And>part b s. mono_option (\<lambda>f. F f part b s)"
  shows "mono_option (\<lambda>f. lead_followers (F f) leader a b st)"
  unfolding lead_followers_def
  by (intro bind_mono option.const_mono if_mono foldM_mono order_to_follow_mono assms | cases leader; simp)+

lemma leader_acts_mono [partial_function_mono]:
  assumes "\<And>part b s. mono_option (\<lambda>f. F f part b s)"
  shows "mono_option (\<lambda>f. leader_acts (F f) a st)"
  unfolding leader_acts_def proc_hash_foreach_def
proof (intro bind_mono option.const_mono if_mono foldM_mono lead_followers_mono assms)
  fix s p
  show "mono_option (\<lambda>f. case proc_hash_lookup s (cp_tracer p) of
      Some tracer \<Rightarrow> order_to_follow (F f) a tracer s
    | None \<Rightarrow> Some (upd_process a (cp_tracer_update (\<lambda>_. 0)) s))"
    by (cases "proc_hash_lookup s (cp_tracer p)") (simp_all add: order_to_follow_mono option.const_mono assms)
qed

partial_function (option) partition_add_process :: "cg_env \<Rightarrow> nat \<Rightarrow> addr \<Rightarrow> cg_context \<Rightarrow> (bool \<times> cg_context) option" where
  "partition_add_process E part a st =
     do { process \<leftarrow> c_procs st a;
          (let st1 = c_note (Tasks_write part (cp_pid process)) st
           in case w_tasks (E (c_log st)) part (cp_pid process) of
                Sys_failed \<Rightarrow> Some (False, st1)
              | Sys_gone \<Rightarrow> Some (True, st1)
              | Sys_done \<Rightarrow>
                  do { st2 \<leftarrow> leader_acts (partition_add_process E) a
                              (upd_process a (cp_partition_update (\<lambda>_. Some part)) st1);
                       Some (True, st2) }) }"

subsection \<open>Leaders\<close>

definition leader_append :: "string list \<Rightarrow> string \<Rightarrow> string list" where
  "leader_append followers name = (if name \<in> set followers then followers else followers @ [name])"

definition leader_add_follower :: "string \<Rightarrow> string \<Rightarrow> cg_context \<Rightarrow> cg_context" where
  "leader_add_follower l name st =
     st\<lparr>c_leaders := (c_leaders st)(l \<mapsto>
        leader_append (case c_leaders st l of None \<Rightarrow> [] | Some followers \<Rightarrow> followers) name)\<rparr>"

subsection \<open>Priorities\<close>

definition curve_map :: "cg_curve option \<Rightarrow> int \<Rightarrow> int \<times> int" where
  "curve_map crv x =
     (case crv of
        None \<Rightarrow> (x, x)
      | Some c \<Rightarrow>
          (let x1 = (if x < cv_min c then cv_min c else if x > cv_max c then cv_max c else x)
           in (cv_out c ! nat (x1 - cv_min c), x1)))"

text \<open>
  The two state machines of an adjustment have the same shape: the mode after a request, and whether
  the request goes on to change the value.
\<close>

definition adjust_mode :: "adj_mode \<Rightarrow> cgrp_adjust \<Rightarrow> adj_mode \<times> bool" where
  "adjust_mode mode adjust =
     (case mode of
        Mode_default \<Rightarrow>
          (case adjust of
             ADJ_LOCK \<Rightarrow> (Mode_locked, True)
           | ADJ_EXTERN \<Rightarrow> (Mode_extern, False)
           | _ \<Rightarrow> (Mode_default, True))
      | Mode_locked \<Rightarrow>
          (case adjust of
             ADJ_UNLOCK \<Rightarrow> (Mode_default, True)
           | ADJ_LOCK \<Rightarrow> (Mode_locked, True)
           | ADJ_EXTERN \<Rightarrow> (Mode_extern, False)
           | _ \<Rightarrow> (Mode_locked, False))
      | Mode_extern \<Rightarrow>
          (case adjust of
             ADJ_INTERN \<Rightarrow> (Mode_default, True)
           | _ \<Rightarrow> (Mode_extern, False)))"

definition process_adjust_priority :: "cg_env \<Rightarrow> addr \<Rightarrow> cgrp_adjust \<Rightarrow> int \<Rightarrow> cg_context \<Rightarrow> (bool \<times> cg_context) option" where
  "process_adjust_priority E a adjust val st =
     do { p \<leftarrow> c_procs st a;
          (let priority = (if adjust = ADJ_RELATIVE then cp_priority p + val else val);
               (mode, go) = adjust_mode (cp_prio_mode p) adjust;
               st1 = upd_process a (cp_prio_mode_update (\<lambda>_. mode)) st
           in if \<not> go \<or> priority = cp_priority p then Some (True, st1)
              else let (mapped, clamped) = curve_map (c_prio_curve st) priority;
                       nice = max (-20) (min 19 mapped);
                       st2 = upd_process a (cp_priority_update (\<lambda>_. clamped)) st1
                   in Some (w_setpriority (E (c_log st)) (cp_pid p) nice \<noteq> Sys_failed,
                        c_note (Set_priority (cp_pid p) nice) st2)) }"

text \<open>With \<open>PRIO_LOW\<close> a task that has made itself nicer keeps its priority.\<close>

definition process_set_priority :: "cg_env \<Rightarrow> addr \<Rightarrow> int \<Rightarrow> prio_preserve \<Rightarrow> cg_context \<Rightarrow> (bool \<times> cg_context) option" where
  "process_set_priority E a priority preserve st =
     do { p \<leftarrow> c_procs st a;
          if (case preserve of
                PRIO_LOW \<Rightarrow> w_getpriority (E (c_log st)) (cp_pid p) > 0
              | PRIO_NONE \<Rightarrow> False
              | PRIO_ALL \<Rightarrow> True)
          then Some (True, st)
          else process_adjust_priority E a ADJ_ABSOLUTE priority st }"

text \<open>The decimal notation that \<open>process_adjust_oom\<close> writes by hand.\<close>

definition oom_digits :: "int \<Rightarrow> string" where
  "oom_digits mapped =
     (let m = (if mapped < 0 then - mapped else mapped)
      in (if mapped < 0 then ''-'' else []) @
         (if m < 10 then [char_of (48 + nat m)] else [CHR ''1'', char_of (48 + nat (m - 10))]))"

definition process_adjust_oom :: "cg_env \<Rightarrow> addr \<Rightarrow> cgrp_adjust \<Rightarrow> int \<Rightarrow> cg_context \<Rightarrow> (bool \<times> cg_context) option" where
  "process_adjust_oom E a adjust val st =
     do { p \<leftarrow> c_procs st a;
          if cp_pid p \<noteq> cp_tgid p then Some (True, st)
          else let oom_adj = (if adjust = ADJ_RELATIVE then cp_oom_adj p + val else val);
                   (mode, go) = adjust_mode (cp_oom_mode p) adjust;
                   st1 = upd_process a (cp_oom_mode_update (\<lambda>_. mode)) st
               in if \<not> go \<or> oom_adj = cp_oom_adj p then Some (True, st1)
                  else let (mapped, clamped) = curve_map (c_oom_curve st) oom_adj;
                           score = max (-17) (min 15 mapped);
                           st2 = upd_process a (cp_oom_adj_update (\<lambda>_. clamped)) st1
                       in Some (case w_oom (E (c_log st)) (cp_pid p) of
                            Oom_no_entry \<Rightarrow> (True, st2)
                          | Oom_open_failed \<Rightarrow> (False, st2)
                          | Oom_read_gone \<Rightarrow> (True, st2)
                          | Oom_read_failed \<Rightarrow> (False, st2)
                          | Oom_file c wr \<Rightarrow>
                              (if c = CHR ''-'' then (True, st2)
                               else (wr \<noteq> Sys_failed, c_note (Oom_write (cp_pid p) (oom_digits score)) st2))) }"

subsection \<open>Tracking\<close>

definition process_track_add :: "addr \<Rightarrow> string \<Rightarrow> event_type set \<Rightarrow> cg_context \<Rightarrow> (bool \<times> cg_context) option" where
  "process_track_add a target evs st =
     do { p \<leftarrow> c_procs st a;
          case cp_track p of
            Some tr \<Rightarrow>
              (if tr_events tr \<inter> evs \<noteq> {} then Some (tr_target tr = target, st)
               else Some (True, upd_process a (cp_track_update (\<lambda>_. Some (tr\<lparr>tr_events := tr_events tr \<union> evs\<rparr>))) st))
          | None \<Rightarrow>
              Some (True, upd_process a (cp_track_update (\<lambda>_. Some \<lparr>tr_events = evs, tr_target = target\<rparr>)) st) }"

definition process_track_del :: "addr \<Rightarrow> string \<Rightarrow> event_type set \<Rightarrow> cg_context \<Rightarrow> cg_context option" where
  "process_track_del a target evs st =
     do { p \<leftarrow> c_procs st a;
          case cp_track p of
            None \<Rightarrow> Some st
          | Some tr \<Rightarrow>
              (if tr_events tr \<inter> evs = {} \<or> target = [] \<or> tr_target tr \<noteq> target then Some st
               else let events = tr_events tr - evs
                    in Some (upd_process a
                         (cp_track_update (\<lambda>_. if events = {} then None else Some (tr\<lparr>tr_events := events\<rparr>))) st)) }"

fun classify_event_name :: "event_type \<Rightarrow> string" where
  "classify_event_name EVENT_FORCE = ''force''"
| "classify_event_name EVENT_FORK = ''fork''"
| "classify_event_name EVENT_THREAD = ''thread''"
| "classify_event_name EVENT_EXEC = ''exec''"
| "classify_event_name EVENT_EXIT = ''exit''"
| "classify_event_name EVENT_UID = ''uid''"
| "classify_event_name EVENT_GID = ''gid''"
| "classify_event_name EVENT_SID = ''sid''"
| "classify_event_name EVENT_PTRACE = ''ptrace''"
| "classify_event_name EVENT_COMM = ''comm''"
| "classify_event_name _ = ''unknown''"

definition process_track_notify :: "addr \<Rightarrow> event_type \<Rightarrow> cg_context \<Rightarrow> cg_context option" where
  "process_track_notify a event st =
     do { p \<leftarrow> c_procs st a;
          case cp_track p of
            None \<Rightarrow> Some st
          | Some tr \<Rightarrow>
              (if event \<notin> tr_events tr then Some st
               else Some (c_note (Track_resolve (tr_target tr) (cp_tgid p) (classify_event_name event)) st)) }"

subsection \<open>Groups\<close>

text \<open>The resolver is told of a new active group; the process only appears in debug output.\<close>

definition apptrack_cgroup_notify :: "nat option \<Rightarrow> cg_context \<Rightarrow> cg_context" where
  "apptrack_cgroup_notify new_group st =
     c_note (Resolve ''cgroup_notify''
       [(''group'', case new_group of None \<Rightarrow> ''<none>'' | Some g \<Rightarrow> cg_name (c_groups st ! g)), (''state'', ''active'')]) st"

text \<open>The value of a process in the fact of its group, cut to 255 bytes.\<close>

definition fact_value :: "cg_world \<Rightarrow> cg_process \<Rightarrow> string" where
  "fact_value W p =
     (let attr = snd (process_get_binary W (zero_attr\<lparr>pa_pid := cp_pid p, pa_binary := cp_binary p\<rparr>));
          attr1 = snd (process_get_cmdline W attr);
          bin = (if pa_binary attr1 \<noteq> [] then pa_binary attr1 else ''<unknown>'')
      in take 255 (if pa_cmdline attr1 \<noteq> [] then bin @ '' ('' @ pa_cmdline attr1 @ '')'' else bin))"

definition fact_add_process :: "cg_env \<Rightarrow> nat \<Rightarrow> cg_process \<Rightarrow> cg_context \<Rightarrow> cg_context" where
  "fact_add_process E g p st =
     upd_group g (cg_fact_update (map_option (\<lambda>f. f(cp_pid p \<mapsto> fact_value (E (c_log st)) p)))) st"

definition fact_del_process :: "nat \<Rightarrow> cg_process \<Rightarrow> cg_context \<Rightarrow> cg_context" where
  "fact_del_process g p st = upd_group g (cg_fact_update (map_option (\<lambda>f. f(cp_pid p := None)))) st"

definition leave_group :: "addr \<Rightarrow> nat \<Rightarrow> cg_context \<Rightarrow> cg_context" where
  "leave_group a g st = upd_group g (cg_processes_update (remove1 a)) st"

text \<open>
  A process that enters a group goes to the partition of the group, or back to the root when the old
  group had one; then the active group and the priority follow.
\<close>

definition group_move :: "cg_env \<Rightarrow> nat \<Rightarrow> nat option \<Rightarrow> addr \<Rightarrow> cg_context \<Rightarrow> (bool \<times> cg_context) option" where
  "group_move E g old a st =
     (case cg_partition (c_groups st ! g) of
        Some part \<Rightarrow> partition_add_process E part a st
      | None \<Rightarrow>
          (case old of
             Some o1 \<Rightarrow>
               (if cg_partition (c_groups st ! o1) \<noteq> None
                then do { root \<leftarrow> c_root st; partition_add_process E root a st }
                else Some (True, st))
           | None \<Rightarrow> Some (True, st)))"

definition group_activate :: "nat \<Rightarrow> addr \<Rightarrow> cg_context \<Rightarrow> cg_context" where
  "group_activate g a st =
     (if c_active_process st = Some a then apptrack_cgroup_notify (Some g) (st\<lparr>c_active_group := Some g\<rparr>) else st)"

definition group_default_priority :: "cg_env \<Rightarrow> nat \<Rightarrow> addr \<Rightarrow> bool \<Rightarrow> cg_context \<Rightarrow> (bool \<times> cg_context) option" where
  "group_default_priority E g a success st =
     (if cg_priority (c_groups st ! g) \<noteq> CGRP_DEFAULT_PRIORITY
      then do { (ok, st1) \<leftarrow> process_set_priority E a (cg_priority (c_groups st ! g)) (c_prio_preserve st) st;
                Some (success \<and> ok, st1) }
      else Some (success, st))"

definition group_enter :: "cg_env \<Rightarrow> nat \<Rightarrow> addr \<Rightarrow> cg_process \<Rightarrow> cg_context \<Rightarrow> cg_context" where
  "group_enter E g a p st =
     (let st1 = (case cp_group p of None \<Rightarrow> st | Some old \<Rightarrow> fact_del_process old p (leave_group a old st));
          st2 = upd_group g (cg_processes_update (\<lambda>ps. ps @ [a])) (upd_process a (cp_group_update (\<lambda>_. Some g)) st1)
      in fact_add_process E g p st2)"

definition group_add_process :: "cg_env \<Rightarrow> nat option \<Rightarrow> addr \<Rightarrow> cg_context \<Rightarrow> (bool \<times> cg_context) option" where
  "group_add_process E grp a st =
     do { p \<leftarrow> c_procs st a;
          if grp = cp_group p then Some (True, st)
          else do {
            g \<leftarrow> grp;
            (success, st4) \<leftarrow> group_move E g (cp_group p) a (group_enter E g a p st);
            group_default_priority E g a success (group_activate g a st4) } }"

definition group_del_process :: "addr \<Rightarrow> cg_context \<Rightarrow> cg_context option" where
  "group_del_process a st =
     do { p \<leftarrow> c_procs st a;
          Some (case cp_group p of
              None \<Rightarrow> st
            | Some g \<Rightarrow> leave_group a g (upd_process a (cp_group_update (\<lambda>_. None)) (fact_del_process g p st))) }"

fun for_processes :: "(addr \<Rightarrow> cg_context \<Rightarrow> (bool \<times> cg_context) option) \<Rightarrow> addr list \<Rightarrow> bool \<Rightarrow> cg_context \<Rightarrow>
    (bool \<times> cg_context) option" where
  "for_processes f [] success st = Some (success, st)"
| "for_processes f (a # as) success st =
     do { (ok, st1) \<leftarrow> f a st; for_processes f as (success \<and> ok) st1 }"

definition group_set_priority :: "cg_env \<Rightarrow> nat \<Rightarrow> int \<Rightarrow> prio_preserve \<Rightarrow> cg_context \<Rightarrow> (bool \<times> cg_context) option" where
  "group_set_priority E g priority preserve st =
     (if cg_priority (c_groups st ! g) = priority then Some (True, st)
      else let st1 = upd_group g (cg_priority_update (\<lambda>_. priority)) st
           in for_processes (\<lambda>a. process_set_priority E a priority preserve) (cg_processes (c_groups st1 ! g)) True st1)"

definition group_adjust_priority :: "cg_env \<Rightarrow> nat \<Rightarrow> cgrp_adjust \<Rightarrow> int \<Rightarrow> cg_context \<Rightarrow> (bool \<times> cg_context) option" where
  "group_adjust_priority E g adjust val st =
     for_processes (\<lambda>a. process_adjust_priority E a adjust val) (cg_processes (c_groups st ! g)) True st"

definition group_adjust_oom :: "cg_env \<Rightarrow> nat \<Rightarrow> cgrp_adjust \<Rightarrow> int \<Rightarrow> cg_context \<Rightarrow> (bool \<times> cg_context) option" where
  "group_adjust_oom E g adjust val st =
     for_processes (\<lambda>a. process_adjust_oom E a adjust val) (cg_processes (c_groups st ! g)) True st"

subsection \<open>The life of a process\<close>

definition process_create :: "proc_attr \<Rightarrow> cg_context \<Rightarrow> addr \<times> cg_context" where
  "process_create attr st =
     (let a = c_next st;
          p = \<lparr>cp_pid = pa_pid attr, cp_tgid = pa_tgid attr, cp_tracer = pa_tracer attr, cp_binary = pa_binary attr,
               cp_argv0 = None, cp_argvx = None, cp_name = pa_binary attr, cp_group = None, cp_partition = None,
               cp_priority = 0, cp_prio_mode = Mode_default,
               cp_oom_adj = (if c_oom_curve st \<noteq> None then c_oom_default st else 0), cp_oom_mode = Mode_default,
               cp_track = None\<rparr>
      in (a, proc_hash_insert a (pa_pid attr) (st\<lparr>c_procs := (c_procs st)(a \<mapsto> p), c_next := a + 1\<rparr>)))"

definition process_remove :: "addr \<Rightarrow> cg_context \<Rightarrow> cg_context option" where
  "process_remove a st =
     do { p \<leftarrow> c_procs st a;
          (let st1 = (if c_active_process st = Some a
                      then let s = st\<lparr>c_active_process := None, c_active_group := None\<rparr>
                           in if cp_group p \<noteq> None then apptrack_cgroup_notify None s else s
                      else st)
           in do { st2 \<leftarrow> (case cp_track p of None \<Rightarrow> Some st1 | Some tr \<Rightarrow> process_track_del a (tr_target tr) (tr_events tr) st1);
                   st3 \<leftarrow> group_del_process a st2;
                   (let st4 = proc_hash_unhash a st3 in Some (st4\<lparr>c_procs := (c_procs st4)(a := None)\<rparr>)) }) }"

definition process_remove_by_pid :: "int \<Rightarrow> cg_context \<Rightarrow> (bool \<times> cg_context) option" where
  "process_remove_by_pid pid st =
     (case proc_hash_lookup st pid of
        None \<Rightarrow> Some (False, st)
      | Some a \<Rightarrow> map_option (Pair True) (process_remove a st))"

definition process_ignore :: "cg_env \<Rightarrow> addr \<Rightarrow> cg_context \<Rightarrow> (bool \<times> cg_context) option" where
  "process_ignore E a st =
     do { root \<leftarrow> c_root st; (ok, st1) \<leftarrow> partition_add_process E root a st;
          st2 \<leftarrow> process_remove a st1; Some (True, st2) }"

definition process_update_state :: "addr option \<Rightarrow> string \<Rightarrow> cg_context \<Rightarrow> (bool \<times> cg_context) option" where
  "process_update_state process state st =
     (case process of
        None \<Rightarrow> Some (True, st)
      | Some a \<Rightarrow>
          do { p \<leftarrow> c_procs st a;
               Some (if state = ''active'' then (True, st\<lparr>c_active_process := Some a, c_active_group := cp_group p\<rparr>)
                 else if state = ''standby''
                 then (True, if c_active_process st = Some a then st\<lparr>c_active_process := None, c_active_group := None\<rparr> else st)
                 else (False, st)) })"

end
