(* ===== verification/Cgrp_Partition.thy ===== *)
theory Cgrp_Partition
  imports Cgrp_Proc
begin

text \<open>
  The partitions of the cgroups plugin (\<open>cgrp-partition.c\<close>): their creation and paths, the limits and
  settings written to their control files, freezing, and moving a whole group.  The descriptors a
  partition keeps are the flags that say whether they could be opened.
\<close>

subsection \<open>Control files\<close>

definition open_control :: "cg_env \<Rightarrow> cg_partition \<Rightarrow> string \<Rightarrow> cg_context \<Rightarrow> bool" where
  "open_control E part control st = w_open (E (c_log st)) (pt_path part) control"

definition write_control :: "cg_env \<Rightarrow> nat \<Rightarrow> string \<Rightarrow> string \<Rightarrow> cg_context \<Rightarrow> bool \<times> cg_context" where
  "write_control E i control text st =
     (w_write (E (c_log st)) i control text, c_note (Control_write i control text) st)"

definition partition_limit_cpu :: "cg_env \<Rightarrow> nat \<Rightarrow> u32 \<Rightarrow> cg_context \<Rightarrow> bool \<times> cg_context" where
  "partition_limit_cpu E i share st =
     (let st1 = upd_part i (pt_limit_cpu_update (\<lambda>_. share)) st
      in if pt_cpu (c_parts st ! i) \<and> share > 0
         then write_control E i ''cpu.shares'' (dec_of_int (uint share)) st1 else (True, st1))"

text \<open>The limit arrives as an \<open>unsigned int\<close>, whatever the width of the caller's value.\<close>

definition partition_limit_mem :: "cg_env \<Rightarrow> nat \<Rightarrow> u32 \<Rightarrow> cg_context \<Rightarrow> bool \<times> cg_context" where
  "partition_limit_mem E i limit st =
     (let st1 = upd_part i (pt_limit_mem_update (\<lambda>_. ucast limit)) st
      in if pt_mem (c_parts st ! i) \<and> limit > 0
         then write_control E i ''memory.limit_in_bytes'' (dec_of_int (uint limit)) st1 else (True, st1))"

definition partition_limit_rt :: "cg_env \<Rightarrow> nat \<Rightarrow> int \<Rightarrow> int \<Rightarrow> cg_context \<Rightarrow> bool \<times> cg_context" where
  "partition_limit_rt E i period runtime st =
     (if period = 0 then (True, st)
      else let st1 = upd_part i (pt_rt_runtime_update (\<lambda>_. runtime)) (upd_part i (pt_rt_period_update (\<lambda>_. period)) st)
           in if open_control E (c_parts st ! i) ''cpu.rt_period_us'' st1 \<and>
                 open_control E (c_parts st ! i) ''cpu.rt_runtime_us'' st1
              then case write_control E i ''cpu.rt_runtime_us'' (dec_of_int 0) st1 of
                     (False, st2) \<Rightarrow> (False, st2)
                   | (True, st2) \<Rightarrow>
                       (let (ok1, st3) = write_control E i ''cpu.rt_period_us'' (dec_of_int period) st2;
                            (ok2, st4) = write_control E i ''cpu.rt_runtime_us'' (dec_of_int runtime) st3
                        in (ok1 \<and> ok2, st4))
              else (False, st1))"

definition ctrl_apply :: "cg_env \<Rightarrow> nat \<Rightarrow> string \<Rightarrow> string \<Rightarrow> cg_context \<Rightarrow> bool \<times> cg_context" where
  "ctrl_apply E i name val st =
     (case find (\<lambda>c. ct_name c = name) (c_controls st) of
        None \<Rightarrow> (False, st)
      | Some ctrl \<Rightarrow>
          (case find (\<lambda>s. fst s = val) (ct_settings ctrl) of
             None \<Rightarrow> (False, st)
           | Some (_, text) \<Rightarrow>
               (if \<not> open_control E (c_parts st ! i) (ct_path ctrl) st then (False, st)
                else write_control E i (ct_path ctrl) text st)))"

text \<open>The settings of the configuration; the code negates the verdict of \<open>ctrl_apply\<close>.\<close>

fun apply_settings :: "cg_env \<Rightarrow> nat \<Rightarrow> (string \<times> string) list \<Rightarrow> bool \<Rightarrow> cg_context \<Rightarrow> bool \<times> cg_context" where
  "apply_settings E i [] success st = (success, st)"
| "apply_settings E i ((name, val) # cs) success st =
     (let (ok, st1) = ctrl_apply E i name val st in apply_settings E i cs (success \<and> \<not> ok) st1)"

definition partition_apply_settings :: "cg_env \<Rightarrow> nat \<Rightarrow> cg_context \<Rightarrow> bool \<times> cg_context" where
  "partition_apply_settings E i st = apply_settings E i (pt_settings (c_parts st ! i)) True st"

definition partition_apply_setting :: "cg_env \<Rightarrow> nat \<Rightarrow> string \<Rightarrow> string \<Rightarrow> cg_context \<Rightarrow> bool \<times> cg_context" where
  "partition_apply_setting E i name val st = ctrl_apply E i name val st"

subsection \<open>Paths and creation\<close>

definition mount_options :: "string list" where
  "mount_options = [''freezer'', ''cpu'', ''memory'', ''cpuset'']"

text \<open>
  The mount options that are set, in the order of the table, with \<open>all\<close> for none.  A mount point that
  cannot be created counts as a mount that fails.
\<close>

definition cgroup_set_option :: "string \<Rightarrow> string set \<Rightarrow> bool \<times> string set" where
  "cgroup_set_option option opts =
     (if option \<in> set mount_options then (True, insert option opts) else (False, opts))"

fun join_options :: "string list \<Rightarrow> string" where
  "join_options [] = []"
| "join_options [o1] = o1"
| "join_options (o1 # os) = o1 @ '','' @ join_options os"

definition mount_cgroupfs :: "cg_env \<Rightarrow> string set \<Rightarrow> cg_context \<Rightarrow> bool \<times> cg_context" where
  "mount_cgroupfs E opts st =
     (let os = filter (\<lambda>o1. o1 \<in> opts) mount_options;
          options = (if os = [] then ''all'' else join_options os);
          st1 = c_note (Mount options) st
      in if w_mount (E (c_log st)) then (True, st1\<lparr>c_actual_mount := c_desired_mount st\<rparr>) else (False, st1))"

definition implicit_root :: "string \<Rightarrow> string" where
  "implicit_root path = CHR ''/'' # takeWhile (\<lambda>c. c \<noteq> CHR ''/'') (tl path)"

text \<open>
  \<open>remap_path\<close>: a path below the mount point stays, another one has its first component replaced; the
  comparison uses the length of the desired mount point for both.  (A path shorter than that which
  equals the actual mount point is read behind its end; the model takes it as a match.)
\<close>

definition remap_path :: "string \<Rightarrow> cstring \<Rightarrow> string \<Rightarrow> string" where
  "remap_path desired actual_mount from =
     (let actual = (case actual_mount of None \<Rightarrow> desired | Some m \<Rightarrow> m);
          n = length desired
      in if take n from = take n actual \<and> (length from \<le> n \<or> from ! n = CHR ''/'') then from
         else if CHR ''/'' \<notin> set (tl from) then actual
         else actual @ dropWhile (\<lambda>c. c \<noteq> CHR ''/'') (tl from))"

definition partition_add :: "cg_env \<Rightarrow> string set \<Rightarrow> cg_partition \<Rightarrow> cg_context \<Rightarrow> nat option \<times> cg_context" where
  "partition_add E opts p st =
     (if c_parttbl st (pt_name p) \<noteq> None then (None, st)
      else let desired = (case c_desired_mount st of None \<Rightarrow> implicit_root (pt_path p) | Some m \<Rightarrow> m);
               st1 = st\<lparr>c_desired_mount := Some desired\<rparr>;
               st2 = (if c_actual_mount st1 = None then snd (mount_cgroupfs E opts st1) else st1);
               path = remap_path desired (c_actual_mount st2) (pt_path p);
               W = E (c_log st2);
               i = length (c_parts st2);
               part = p\<lparr>pt_path := path, pt_tasks := w_open W path ''tasks'', pt_freeze := w_open W path ''freezer.state'',
                        pt_cpu := w_open W path ''cpu.shares'', pt_mem := w_open W path ''memory.limit_in_bytes'',
                        pt_limit_cpu := 0, pt_limit_mem := 0, pt_rt_period := 0, pt_rt_runtime := 0\<rparr>;
               st3 = st2\<lparr>c_parts := c_parts st2 @ [part]\<rparr>;
               st4 = snd (partition_limit_cpu E i (pt_limit_cpu p) st3);
               st5 = snd (partition_limit_mem E i (ucast (pt_limit_mem p)) st4);
               st6 = snd (partition_limit_rt E i (pt_rt_period p) (pt_rt_runtime p) st5);
               st7 = snd (partition_apply_settings E i st6)
           in (Some i, st7\<lparr>c_parttbl := (c_parttbl st7)(pt_name p \<mapsto> i)\<rparr>))"

text \<open>The partition found by its path stands for the walk over the hash table, whose order is GLib's.\<close>

definition partition_add_root :: "cg_env \<Rightarrow> string set \<Rightarrow> cg_context \<Rightarrow> cg_context" where
  "partition_add_root E opts st =
     (let path = (case c_actual_mount st of None \<Rightarrow> c_desired_mount st | Some m \<Rightarrow> Some m)
      in case c_parttbl st ''root'' of
           Some i \<Rightarrow> st\<lparr>c_root := Some i\<rparr>
         | None \<Rightarrow>
             (case (case path of None \<Rightarrow> None
                    | Some m \<Rightarrow> find (\<lambda>i. pt_path (c_parts st ! i) = m) [0..<length (c_parts st)]) of
                Some i \<Rightarrow> st\<lparr>c_root := Some i\<rparr>
              | None \<Rightarrow>
                  (let root = \<lparr>pt_name = ''root'', pt_path = (case path of None \<Rightarrow> ''/syspart'' | Some m \<Rightarrow> m),
                         pt_tasks = False, pt_freeze = False, pt_cpu = False, pt_mem = False, pt_limit_cpu = 0,
                         pt_limit_mem = 0, pt_rt_period = 0, pt_rt_runtime = 0, pt_settings = []\<rparr>;
                       (i, st1) = partition_add E opts root st
                   in st1\<lparr>c_root := i\<rparr>)))"

subsection \<open>Groups in partitions\<close>

fun add_processes :: "cg_env \<Rightarrow> nat \<Rightarrow> int \<Rightarrow> addr list \<Rightarrow> bool \<Rightarrow> cg_context \<Rightarrow> (bool \<times> cg_context) option" where
  "add_processes E part pid [] success st = Some (success, st)"
| "add_processes E part pid (a # as) success st =
     do { p \<leftarrow> c_procs st a;
          if pid \<noteq> 0 \<and> cp_pid p \<noteq> pid \<or> cp_partition p = Some part then add_processes E part pid as success st
          else do { (ok, st1) \<leftarrow> partition_add_process E part a st;
                    add_processes E part pid as (success \<and> ok) st1 } }"

definition partition_add_group :: "cg_env \<Rightarrow> nat \<Rightarrow> nat \<Rightarrow> int \<Rightarrow> cg_context \<Rightarrow> (bool \<times> cg_context) option" where
  "partition_add_group E part g pid st =
     do { (success, st1) \<leftarrow> add_processes E part pid (cg_processes (c_groups st ! g)) True st;
          (let st2 = upd_group g (cg_partition_update (\<lambda>_. Some part)) st1
           in Some (success, if success then st2 else upd_group g (cg_reassign_update (\<lambda>_. True)) st2)) }"

definition unfreeze_group :: "cg_env \<Rightarrow> nat \<Rightarrow> nat \<Rightarrow> cg_context \<Rightarrow> cg_context option" where
  "unfreeze_group E part g st =
     (if cg_partition (c_groups st ! g) = Some part \<and> cg_reassign (c_groups st ! g)
      then do { (ok, st1) \<leftarrow> partition_add_group E part g 0 st;
                Some (upd_group g (cg_reassign_update (\<lambda>_. False)) st1) }
      else Some st)"

definition unfreeze_fixup :: "cg_env \<Rightarrow> nat \<Rightarrow> cg_context \<Rightarrow> cg_context option" where
  "unfreeze_fixup E part st = foldM (unfreeze_group E part) [0..<length (c_groups st)] st"

definition partition_freeze :: "cg_env \<Rightarrow> nat \<Rightarrow> bool \<Rightarrow> cg_context \<Rightarrow> (bool \<times> cg_context) option" where
  "partition_freeze E part freeze st =
     (if pt_freeze (c_parts st ! part)
      then let (ok, st1) = write_control E part ''freezer.state''
                 ((if freeze then ''FROZEN'' else ''THAWED'') @ [CHR 0x0A]) st
           in if \<not> freeze \<and> ok then do { st2 \<leftarrow> unfreeze_fixup E part st1; Some (ok, st2) } else Some (ok, st1)
      else Some (True, st))"

end
