(* ===== verification/Cgrp_Classify.thy ===== *)
theory Cgrp_Classify
  imports Cgrp_Partition
begin

text \<open>
  Classification in the cgroups plugin (\<open>cgrp-classify.c\<close>, \<open>cgrp-action.c\<close>, the event loop of
  \<open>cgrp-process.c\<close>): the kernel reports forks, execs, exits and changes of identity; the rules of the
  binary select actions; an action may classify the task again by one of its arguments, at most once.
\<close>

subsection \<open>Actions\<close>

definition classify_schedule :: "int \<Rightarrow> int \<Rightarrow> cg_context \<Rightarrow> cg_context" where
  "classify_schedule pid count st = st\<lparr>c_timers := c_timers st @ [(pid, count)]\<rparr>"

definition CGRP_RECLASSIFY_MAX :: int where "CGRP_RECLASSIFY_MAX = 16"

definition action_group_exec :: "cg_env \<Rightarrow> proc_attr \<Rightarrow> nat \<Rightarrow> cg_context \<Rightarrow> (bool \<times> cg_context) option" where
  "action_group_exec E attr g st =
     (let (a, st1) = (case proc_hash_lookup st (pa_pid attr) of Some a \<Rightarrow> (a, st) | None \<Rightarrow> process_create attr st)
      in do { (ok, st2) \<leftarrow> group_add_process E (Some g) a st1; Some (True, st2) })"

definition action_schedule_exec :: "cg_env \<Rightarrow> proc_attr \<Rightarrow> sched_policy \<Rightarrow> int \<Rightarrow> cg_context \<Rightarrow> bool \<times> cg_context" where
  "action_schedule_exec E attr policy priority st =
     (w_setscheduler (E (c_log st)) (pa_pid attr), c_note (Set_scheduler (pa_pid attr) policy priority) st)"

definition action_renice_exec :: "cg_env \<Rightarrow> proc_attr \<Rightarrow> int \<Rightarrow> cg_context \<Rightarrow> bool \<times> cg_context" where
  "action_renice_exec E attr priority st =
     (w_setpriority (E (c_log st)) (pa_pid attr) priority \<noteq> Sys_failed, c_note (Set_priority (pa_pid attr) priority) st)"

definition action_priority_exec :: "cg_env \<Rightarrow> proc_attr \<Rightarrow> cgrp_adjust \<Rightarrow> int \<Rightarrow> cg_context \<Rightarrow> (bool \<times> cg_context) option" where
  "action_priority_exec E attr adjust val st =
     (case pa_process attr of None \<Rightarrow> Some (False, st) | Some a \<Rightarrow> process_adjust_priority E a adjust val st)"

definition action_oom_exec :: "cg_env \<Rightarrow> proc_attr \<Rightarrow> cgrp_adjust \<Rightarrow> int \<Rightarrow> cg_context \<Rightarrow> (bool \<times> cg_context) option" where
  "action_oom_exec E attr adjust val st =
     (case pa_process attr of None \<Rightarrow> Some (False, st) | Some a \<Rightarrow> process_adjust_oom E a adjust val st)"

definition action_leads_exec :: "proc_attr \<Rightarrow> string list \<Rightarrow> cg_context \<Rightarrow> cg_context" where
  "action_leads_exec attr followers st =
     (if proc_hash_lookup st (pa_pid attr) = None then st
      else foldl (\<lambda>s name. leader_add_follower (pa_binary attr) name s) st followers)"

text \<open>
  A positive delay schedules the next try; a delay of \<open>- n - 1\<close> asks for the classification by argument
  \<open>n\<close>, which \<open>by_argvx\<close> stands for.
\<close>

definition action_classify_exec :: "(int \<Rightarrow> proc_attr \<Rightarrow> cg_context \<Rightarrow> (bool \<times> proc_attr \<times> cg_context) option) \<Rightarrow>
    cg_env \<Rightarrow> int \<Rightarrow> proc_attr \<Rightarrow> cg_context \<Rightarrow> (bool \<times> proc_attr \<times> cg_context) option" where
  "action_classify_exec by_argvx E delay attr st =
     (if delay > 0
      then (if pa_retry attr < CGRP_RECLASSIFY_MAX
            then Some (True, attr, classify_schedule (pa_pid attr) (pa_retry attr + 1) st)
            else case proc_hash_lookup st (pa_pid attr) of
                None \<Rightarrow> Some (True, attr, st)
              | Some a \<Rightarrow> do { (ok, st1) \<leftarrow> process_ignore E a st; Some (True, attr, st1) })
      else by_argvx (- delay - 1) attr st)"

fun action_run :: "(int \<Rightarrow> proc_attr \<Rightarrow> cg_context \<Rightarrow> (bool \<times> proc_attr \<times> cg_context) option) \<Rightarrow>
    cg_env \<Rightarrow> cgrp_action \<Rightarrow> proc_attr \<Rightarrow> cg_context \<Rightarrow> (bool \<times> proc_attr \<times> cg_context) option" where
  "action_run by_argvx E (Action_group g) attr st =
     map_option (\<lambda>(ok, st1). (ok, attr, st1)) (action_group_exec E attr g st)"
| "action_run by_argvx E (Action_schedule policy priority) attr st =
     (let (ok, st1) = action_schedule_exec E attr policy priority st in Some (ok, attr, st1))"
| "action_run by_argvx E (Action_renice priority) attr st =
     (let (ok, st1) = action_renice_exec E attr priority st in Some (ok, attr, st1))"
| "action_run by_argvx E (Action_classify delay) attr st = action_classify_exec by_argvx E delay attr st"
| "action_run by_argvx E (Action_priority adjust val) attr st =
     map_option (\<lambda>(ok, st1). (ok, attr, st1)) (action_priority_exec E attr adjust val st)"
| "action_run by_argvx E (Action_oom adjust val) attr st =
     map_option (\<lambda>(ok, st1). (ok, attr, st1)) (action_oom_exec E attr adjust val st)"
| "action_run by_argvx E Action_ignore attr st = Some (True, attr, st)"
| "action_run by_argvx E (Action_leads followers) attr st = Some (True, attr, action_leads_exec attr followers st)"
| "action_run by_argvx E Action_noop attr st = Some (True, attr, st)"

fun action_exec :: "(int \<Rightarrow> proc_attr \<Rightarrow> cg_context \<Rightarrow> (bool \<times> proc_attr \<times> cg_context) option) \<Rightarrow>
    cg_env \<Rightarrow> cgrp_action list \<Rightarrow> bool \<Rightarrow> proc_attr \<Rightarrow> cg_context \<Rightarrow> (bool \<times> proc_attr \<times> cg_context) option" where
  "action_exec by_argvx E [] success attr st = Some (success, attr, st)"
| "action_exec by_argvx E (x # xs) success attr st =
     do { (ok, attr1, st1) \<leftarrow> action_run by_argvx E x attr st;
          action_exec by_argvx E xs (success \<and> ok) attr1 st1 }"

subsection \<open>Rules\<close>

text \<open>
  The rules for the event, or else the fallback rules, of which only the first is ever evaluated; an
  identity event without rules of its own needs the option that always falls back.
\<close>

definition needs_own_rule :: "event_type set" where
  "needs_own_rule = {EVENT_GID, EVENT_UID, EVENT_SID, EVENT_COMM, EVENT_THREAD}"

definition select_actions :: "cg_world \<Rightarrow> cgrp_rules \<Rightarrow> cgrp_rule option \<Rightarrow> proc_attr \<Rightarrow> cgrp_action list \<times> proc_attr" where
  "select_actions W R own attr =
     (case own of
        None \<Rightarrow> (case r_fallback R of [] \<Rightarrow> ([], attr) | r # _ \<Rightarrow> rule_eval W r attr)
      | Some rule \<Rightarrow>
          (let (acts, attr1) = rule_eval W rule attr
           in if acts = [] then (case r_fallback R of [] \<Rightarrow> ([], attr1) | r # _ \<Rightarrow> rule_eval W r attr1)
              else (acts, attr1)))"

definition classify_rules :: "(int \<Rightarrow> proc_attr \<Rightarrow> cg_context \<Rightarrow> (bool \<times> proc_attr \<times> cg_context) option) \<Rightarrow>
    cg_env \<Rightarrow> event_type \<Rightarrow> u32 \<Rightarrow> proc_attr \<Rightarrow> cg_context \<Rightarrow> (bool \<times> proc_attr \<times> cg_context) option" where
  "classify_rules by_argvx E typ eid attr st =
     do { st1 \<leftarrow> (case pa_process attr of None \<Rightarrow> Some st | Some a \<Rightarrow> process_track_notify a typ st);
          (let R = c_rules st1;
               own = (case rules_lookup R (pa_binary attr) of None \<Rightarrow> None | Some d \<Rightarrow> rule_find (def_rules d) typ eid)
           in if own = None \<and> \<not> c_always_fallback st1 \<and> typ \<in> needs_own_rule then Some (True, attr, st1)
              else let (acts, attr1) = select_actions (E (c_log st1)) R own attr
                   in if acts = [] then Some (False, attr1, st1) else action_exec by_argvx E acts True attr1 st1) }"

text \<open>
  Classification by an argument.  The flag \<open>byargvx\<close> of the attributes refuses a second level, so the
  recursion over the rules is two calls deep: \<open>no_argvx\<close> is the function when the flag is set.
\<close>

definition no_argvx :: "int \<Rightarrow> proc_attr \<Rightarrow> cg_context \<Rightarrow> (bool \<times> proc_attr \<times> cg_context) option" where
  "no_argvx argn attr st = Some (False, attr, st)"

definition classify_by_argvx :: "cg_env \<Rightarrow> int \<Rightarrow> proc_attr \<Rightarrow> cg_context \<Rightarrow> (bool \<times> proc_attr \<times> cg_context) option" where
  "classify_by_argvx E argn attr st =
     (if pa_byargvx attr then no_argvx argn attr st
      else case process_get_argv (E (c_log st)) CGRP_MAX_ARGS attr of
          (False, attr1) \<Rightarrow> Some (False, attr1, st)
        | (True, attr1) \<Rightarrow>
            (if argn < 0 then None
             else let attr2 = attr1\<lparr>pa_binary := (if argn \<ge> int (pa_argc attr1) then ''<none>'' else pa_argv attr1 ! nat argn),
                                    pa_byargvx := True\<rparr>
                  in do { (ok, attr3, st1) \<leftarrow> classify_rules no_argvx E EVENT_EXEC 0 attr2 st;
                          if \<not> ok then Some (False, attr3, st1)
                          else let attr4 = (if pa_process attr3 = None
                                            then attr3\<lparr>pa_process := proc_hash_lookup st1 (pa_pid attr3)\<rparr> else attr3)
                               in case pa_process attr4 of
                                    None \<Rightarrow> Some (True, attr4, st1)
                                  | Some a \<Rightarrow>
                                      do { p \<leftarrow> c_procs st1 a;
                                           Some (True, attr4,
                                             if cp_argvx p = None
                                             then upd_process a (\<lambda>q. q\<lparr>cp_argvx := Some (pa_binary attr4), cp_name := pa_binary attr4\<rparr>) st1
                                             else st1) } }))"

definition classify_by_rules :: "cg_env \<Rightarrow> event_type \<Rightarrow> u32 \<Rightarrow> proc_attr \<Rightarrow> cg_context \<Rightarrow> (bool \<times> cg_context) option" where
  "classify_by_rules E typ eid attr st =
     map_option (\<lambda>(ok, _, st1). (ok, st1)) (classify_rules (classify_by_argvx E) E typ eid attr st)"

text \<open>The result is true also when the task is already gone; the callers ignore it.\<close>

definition classify_by_binary :: "cg_env \<Rightarrow> int \<Rightarrow> int \<Rightarrow> cg_context \<Rightarrow> (bool \<times> cg_context) option" where
  "classify_by_binary E pid reclassify st =
     (let attr = zero_attr\<lparr>pa_pid := pid, pa_retry := reclassify\<rparr>
      in case proc_hash_lookup st pid of
           None \<Rightarrow>
             (case process_get_binary (E (c_log st)) attr of
                (False, _) \<Rightarrow> Some (True, st)
              | (True, attr1) \<Rightarrow>
                  (let attr2 = snd (process_get_tgid (E (c_log st)) attr1);
                       (a, st1) = process_create attr2 st
                   in classify_by_rules E EVENT_EXEC 0 (attr2\<lparr>pa_process := Some a\<rparr>) st1))
         | Some a \<Rightarrow>
             do { p \<leftarrow> c_procs st a;
                  classify_by_rules E EVENT_EXEC 0
                    (attr\<lparr>pa_process := Some a, pa_binary := cp_binary p, pa_tgid := cp_tgid p,
                          pa_mask := {Proc_tgid, Proc_binary}\<rparr>) st })"

subsection \<open>Events of the kernel\<close>

definition classify_by_process :: "cg_env \<Rightarrow> int \<Rightarrow> int \<Rightarrow> int \<Rightarrow> cg_context \<Rightarrow> (bool \<times> cg_context) option" where
  "classify_by_process E pid tgid ppid st =
     (case proc_hash_lookup st ppid of
        None \<Rightarrow> Some (False, st)
      | Some c \<Rightarrow>
          do { classified \<leftarrow> c_procs st c;
               (let (a, st1) = process_create (zero_attr\<lparr>pa_pid := pid, pa_tgid := tgid, pa_binary := cp_binary classified,
                                                 pa_mask := {Proc_tgid, Proc_binary}\<rparr>) st
                in do { (ok, st2) \<leftarrow> group_add_process E (cp_group classified) a st1; Some (True, st2) }) })"

definition classify_by_tracee :: "cg_env \<Rightarrow> int \<Rightarrow> int \<Rightarrow> int \<Rightarrow> cg_context \<Rightarrow> (bool \<times> cg_context) option" where
  "classify_by_tracee E tracee pid tgid st =
     (case proc_hash_lookup st tracee of
        None \<Rightarrow> Some (True, st)
      | Some a \<Rightarrow>
          (if tgid \<noteq> 0
           then do { (ok, st1) \<leftarrow> classify_by_process E pid tgid tracee st;
                     if \<not> ok then Some (False, st1)
                     else do { p \<leftarrow> c_procs st1 a; Some (True, upd_process a (cp_tracer_update (\<lambda>_. tgid)) st1) } }
           else do { p \<leftarrow> c_procs st a;
                     if cp_tracer p = 0 then Some (True, st)
                     else do { (ok, st1) \<leftarrow> classify_by_binary E (cp_tracer p) 0 st;
                               q \<leftarrow> c_procs st1 a;
                               Some (True, upd_process a (cp_tracer_update (\<lambda>_. 0)) st1) } }))"

text \<open>The events that the rules classify.\<close>

definition classify_identity :: "cg_env \<Rightarrow> cgrp_event \<Rightarrow> cg_context \<Rightarrow> (bool \<times> cg_context) option" where
  "classify_identity E ev st =
     (if ev_type ev \<notin> r_event_mask (c_rules st) then Some (True, st)
      else let found = proc_hash_lookup st (ev_pid ev);
               attr = zero_attr\<lparr>pa_pid := ev_pid ev, pa_tgid := ev_tgid ev, pa_process := found\<rparr>
           in case process_get_binary (E (c_log st)) attr of
                (False, _) \<Rightarrow> Some (False, st)
              | (True, attr1) \<Rightarrow>
                  (let st1 = (case found of
                                Some a \<Rightarrow> (if ev_type ev = EVENT_EXEC
                                  then upd_process a (\<lambda>p. p\<lparr>cp_binary := pa_binary attr1, cp_name := pa_binary attr1\<rparr>) st else st)
                              | None \<Rightarrow> st)
                   in classify_by_rules E (ev_type ev) (ev_eid ev) attr1 st1))"

definition classify_event :: "cg_env \<Rightarrow> cgrp_event \<Rightarrow> cg_context \<Rightarrow> (bool \<times> cg_context) option" where
  "classify_event E ev st =
     (case ev_type ev of
        EVENT_FORK \<Rightarrow>
          do { (ok, st1) \<leftarrow> classify_by_process E (ev_pid ev) (ev_tgid ev) (ev_ppid ev) st;
               if ok then Some (True, st1) else classify_identity E ev st1 }
      | EVENT_PTRACE \<Rightarrow> classify_by_tracee E (ev_tgid ev) (ev_tracer_pid ev) (ev_tracer_tgid ev) st
      | EVENT_EXIT \<Rightarrow>
          do { st1 \<leftarrow> (case proc_hash_lookup st (ev_pid ev) of
                           None \<Rightarrow> Some st
                         | Some a \<Rightarrow> process_track_notify a EVENT_EXIT st);
               (ok, st2) \<leftarrow> process_remove_by_pid (ev_pid ev) st1; Some (True, st2) }
      | EVENT_UNKNOWN \<Rightarrow> Some (False, st)
      | _ \<Rightarrow> classify_identity E ev st)"

text \<open>\<open>process_scan_proc\<close>: the directories of \<open>/proc\<close> with the tasks of each.\<close>

definition scan_tasks :: "cg_env \<Rightarrow> int \<times> int list \<Rightarrow> cg_context \<Rightarrow> cg_context option" where
  "scan_tasks E pt st =
     do { r \<leftarrow> classify_by_binary E (fst pt) 0 st;
          foldM (\<lambda>tid s. map_option snd (classify_by_binary E tid 0 s)) (snd pt) (snd r) }"

definition process_scan_proc :: "cg_env \<Rightarrow> (int \<times> int list) list \<Rightarrow> cg_context \<Rightarrow> cg_context option" where
  "process_scan_proc E dirs st = foldM (scan_tasks E) dirs st"

definition reclassify_process :: "cg_env \<Rightarrow> nat \<Rightarrow> cg_context \<Rightarrow> cg_context option" where
  "reclassify_process E i st =
     (if i < length (c_timers st)
      then let (pid, count) = c_timers st ! i
           in map_option snd (classify_by_binary E pid count (st\<lparr>c_timers := take i (c_timers st) @ drop (Suc i) (c_timers st)\<rparr>))
      else Some st)"

end
