(* ===== verification/Cgrp_Ep.thy ===== *)
theory Cgrp_Ep
  imports Cgrp_Classify
begin

text \<open>
  What reaches the cgroups plugin from outside the kernel: the policy decisions (\<open>cgrp-ep.c\<close>), the
  notifications of active and standby applications (\<open>cgrp-apptrack.c\<close>) and the resolver methods and
  exported functions of \<open>cgrp-plugin.c\<close>; and the steps of the whole plugin.
\<close>

subsection \<open>Arguments of decisions\<close>

datatype arg_value = Arg_string string | Arg_int int | Arg_other

type_synonym decision_fact = "string \<rightharpoonup> arg_value"

text \<open>\<open>get_args\<close>: a missing field and a field of another type leave \<open>NULL\<close> or 0.\<close>

definition get_string :: "decision_fact \<Rightarrow> string \<Rightarrow> cstring" where
  "get_string f name = (case f name of Some (Arg_string s) \<Rightarrow> Some s | _ \<Rightarrow> None)"

definition get_int :: "decision_fact \<Rightarrow> string \<Rightarrow> int" where
  "get_int f name = (case f name of Some (Arg_int i) \<Rightarrow> i | _ \<Rightarrow> 0)"

subsection \<open>Actions\<close>

text \<open>A look-up with a \<open>NULL\<close> name, and a comparison with one, is a crash.\<close>

definition group_lookup :: "cg_context \<Rightarrow> string \<Rightarrow> nat option" where
  "group_lookup st name = c_grouptbl st name"

definition partition_lookup :: "cg_context \<Rightarrow> string \<Rightarrow> nat option" where
  "partition_lookup st name = c_parttbl st name"

definition reparent_action :: "cg_env \<Rightarrow> decision_fact \<Rightarrow> cg_context \<Rightarrow> (bool \<times> cg_context) option" where
  "reparent_action E f st =
     do { gname \<leftarrow> get_string f ''group'';
          case group_lookup st gname of
            None \<Rightarrow> Some (True, st)
          | Some g \<Rightarrow>
              do { pname \<leftarrow> get_string f ''partition'';
                   case partition_lookup st pname of
                     None \<Rightarrow> Some (False, st)
                   | Some part \<Rightarrow>
                       (if cg_partition (c_groups st ! g) = Some part then Some (True, st)
                        else partition_add_group E part g (get_int f ''pid'') st) } }"

definition freeze_action :: "cg_env \<Rightarrow> decision_fact \<Rightarrow> cg_context \<Rightarrow> (bool \<times> cg_context) option" where
  "freeze_action E f st =
     do { state \<leftarrow> get_string f ''state''; pname \<leftarrow> get_string f ''partition'';
          case partition_lookup st pname of
            None \<Rightarrow> Some (True, st)
          | Some part \<Rightarrow> partition_freeze E part (state = ''frozen'') st }"

definition schedule_action :: "cg_env \<Rightarrow> decision_fact \<Rightarrow> cg_context \<Rightarrow> (bool \<times> cg_context) option" where
  "schedule_action E f st =
     do { pname \<leftarrow> get_string f ''partition'';
          case partition_lookup st pname of
            None \<Rightarrow> Some (True, st)
          | Some part \<Rightarrow> Some (partition_limit_cpu E part (word_of_int (get_int f ''share'')) st) }"

definition limit_action :: "cg_env \<Rightarrow> decision_fact \<Rightarrow> cg_context \<Rightarrow> (bool \<times> cg_context) option" where
  "limit_action E f st =
     do { pname \<leftarrow> get_string f ''partition'';
          case partition_lookup st pname of
            None \<Rightarrow> Some (True, st)
          | Some part \<Rightarrow> Some (partition_limit_mem E part (word_of_int (get_int f ''limit'')) st) }"

text \<open>Without any control the names are never compared.\<close>

definition setting_action :: "cg_env \<Rightarrow> decision_fact \<Rightarrow> cg_context \<Rightarrow> (bool \<times> cg_context) option" where
  "setting_action E f st =
     do { pname \<leftarrow> get_string f ''partition'';
          case partition_lookup st pname of
            None \<Rightarrow> Some (True, st)
          | Some part \<Rightarrow>
              (if c_controls st = [] then Some (False, st)
               else do { name \<leftarrow> get_string f ''name'';
                         case find (\<lambda>c. ct_name c = name) (c_controls st) of
                           None \<Rightarrow> Some (False, st)
                         | Some ctrl \<Rightarrow>
                             (if ct_settings ctrl = [] then Some (False, st)
                              else do { val \<leftarrow> get_string f ''value'';
                                        Some (partition_apply_setting E part name val st) }) }) }"

definition renice_action :: "cg_env \<Rightarrow> decision_fact \<Rightarrow> cg_context \<Rightarrow> (bool \<times> cg_context) option" where
  "renice_action E f st =
     do { gname \<leftarrow> get_string f ''group'';
          if c_prio_preserve st = PRIO_ALL then Some (True, st)
          else case group_lookup st gname of
              None \<Rightarrow> Some (True, st)
            | Some g \<Rightarrow> group_set_priority E g (get_int f ''priority'') (c_prio_preserve st) st }"

definition parse_adjust :: "string \<Rightarrow> cgrp_adjust option" where
  "parse_adjust action =
     (if action = ''set'' then Some ADJ_ABSOLUTE
      else if action = ''adjust'' then Some ADJ_RELATIVE
      else if action = ''lock'' then Some ADJ_LOCK
      else if action = ''unlock'' then Some ADJ_UNLOCK
      else if action = ''extern'' then Some ADJ_EXTERN
      else if action = ''intern'' then Some ADJ_INTERN
      else None)"

text \<open>The empty action and \<open><...>\<close> are no-ops.\<close>

definition no_op :: "string \<Rightarrow> bool" where
  "no_op s \<longleftrightarrow> s = [] \<or> hd s = CHR ''<''"

definition proc_prio_action :: "cg_env \<Rightarrow> decision_fact \<Rightarrow> cg_context \<Rightarrow> (bool \<times> cg_context) option" where
  "proc_prio_action E f st =
     (if get_int f ''process'' = 0 then Some (True, st)
      else case proc_hash_lookup st (get_int f ''process'') of
          None \<Rightarrow> Some (True, st)
        | Some a \<Rightarrow>
            do { action \<leftarrow> get_string f ''action'';
                 case parse_adjust action of
                   None \<Rightarrow> Some (True, st)
                 | Some adjust \<Rightarrow> process_adjust_priority E a adjust (get_int f ''value'') st })"

definition proc_oom_action :: "cg_env \<Rightarrow> decision_fact \<Rightarrow> cg_context \<Rightarrow> (bool \<times> cg_context) option" where
  "proc_oom_action E f st =
     (if get_int f ''process'' = 0 then Some (True, st)
      else do { action \<leftarrow> get_string f ''action'';
                if no_op action then Some (True, st)
                else case proc_hash_lookup st (get_int f ''process'') of
                    None \<Rightarrow> Some (True, st)
                  | Some a \<Rightarrow>
                      (case parse_adjust action of
                         None \<Rightarrow> Some (True, st)
                       | Some adjust \<Rightarrow>
                           (if get_int f ''value'' = 0 \<and> adjust = ADJ_RELATIVE then Some (True, st)
                            else process_adjust_oom E a adjust (get_int f ''value'') st)) })"

definition group_prio_action :: "cg_env \<Rightarrow> decision_fact \<Rightarrow> cg_context \<Rightarrow> (bool \<times> cg_context) option" where
  "group_prio_action E f st =
     do { action \<leftarrow> get_string f ''action'';
          if no_op action then Some (True, st)
          else do {
            gname \<leftarrow> get_string f ''group'';
            case group_lookup st gname of
              None \<Rightarrow> Some (True, st)
            | Some g \<Rightarrow>
                (case parse_adjust action of
                   None \<Rightarrow> Some (True, st)
                 | Some adjust \<Rightarrow>
                     (if get_int f ''value'' = 0 \<and> adjust = ADJ_RELATIVE then Some (True, st)
                      else group_adjust_priority E g adjust (get_int f ''value'') st)) } }"

definition group_oom_action :: "cg_env \<Rightarrow> decision_fact \<Rightarrow> cg_context \<Rightarrow> (bool \<times> cg_context) option" where
  "group_oom_action E f st =
     do { action \<leftarrow> get_string f ''action'';
          if no_op action then Some (True, st)
          else do {
            gname \<leftarrow> get_string f ''group'';
            if no_op gname then Some (True, st)
            else case group_lookup st gname of
                None \<Rightarrow> Some (True, st)
              | Some g \<Rightarrow>
                  (case parse_adjust action of
                     None \<Rightarrow> Some (True, st)
                   | Some adjust \<Rightarrow>
                       (if get_int f ''value'' = 0 \<and> adjust = ADJ_RELATIVE then Some (True, st)
                        else group_adjust_oom E g adjust (get_int f ''value'') st)) } }"

datatype policy_action = Act_reparent | Act_freeze | Act_schedule | Act_limit | Act_setting | Act_renice
  | Act_proc_prio | Act_proc_oom | Act_group_prio | Act_group_oom

text \<open>The table of actions, without the common prefix \<open>com.nokia.policy.\<close> of the names.\<close>

definition policy_actions_table :: "(string \<times> policy_action) list" where
  "policy_actions_table =
     [(''cgroup_partition'', Act_reparent), (''partition_freeze'', Act_freeze), (''partition_schedule'', Act_schedule),
      (''partition_limit'', Act_limit), (''partition_setting'', Act_setting), (''cgroup_renice'', Act_renice),
      (''process_priority'', Act_proc_prio), (''process_oom'', Act_proc_oom), (''group_priority'', Act_group_prio),
      (''group_oom'', Act_group_oom)]"

fun run_policy_action :: "cg_env \<Rightarrow> policy_action \<Rightarrow> decision_fact \<Rightarrow> cg_context \<Rightarrow> (bool \<times> cg_context) option" where
  "run_policy_action E Act_reparent = reparent_action E"
| "run_policy_action E Act_freeze = freeze_action E"
| "run_policy_action E Act_schedule = schedule_action E"
| "run_policy_action E Act_limit = limit_action E"
| "run_policy_action E Act_setting = setting_action E"
| "run_policy_action E Act_renice = renice_action E"
| "run_policy_action E Act_proc_prio = proc_prio_action E"
| "run_policy_action E Act_proc_oom = proc_oom_action E"
| "run_policy_action E Act_group_prio = group_prio_action E"
| "run_policy_action E Act_group_oom = group_oom_action E"

text \<open>The facts of each name, as the fact store holds them during the decision.\<close>

fun action_parser :: "cg_env \<Rightarrow> policy_action \<Rightarrow> decision_fact list \<Rightarrow> bool \<Rightarrow> cg_context \<Rightarrow> (bool \<times> cg_context) option" where
  "action_parser E act [] success st = Some (success, st)"
| "action_parser E act (f # fs) success st =
     do { (ok, st1) \<leftarrow> run_policy_action E act f st; action_parser E act fs (success \<and> ok) st1 }"

fun parse_names :: "cg_env \<Rightarrow> (string \<Rightarrow> decision_fact list) \<Rightarrow> string list \<Rightarrow> bool \<Rightarrow> cg_context \<Rightarrow> (bool \<times> cg_context) option" where
  "parse_names E facts [] success st = Some (success, st)"
| "parse_names E facts (name # names) success st =
     (case map_of policy_actions_table name of
        None \<Rightarrow> parse_names E facts names success st
      | Some act \<Rightarrow>
          do { (ok, st1) \<leftarrow> action_parser E act (facts name) True st;
               parse_names E facts names (success \<and> ok) st1 })"

definition txparser :: "cg_env \<Rightarrow> string \<Rightarrow> string list \<Rightarrow> (string \<Rightarrow> decision_fact list) \<Rightarrow> cg_context \<Rightarrow>
    (bool \<times> cg_context) option" where
  "txparser E signal names facts st =
     (if signal = ''cgroup_actions'' then parse_names E facts names True st else Some (True, st))"

subsection \<open>Active and standby applications\<close>

definition apptrack_subscribe :: "nat \<Rightarrow> nat \<Rightarrow> cg_context \<Rightarrow> cg_context" where
  "apptrack_subscribe callback user_data st = st\<lparr>c_subscribers := c_subscribers st @ [(callback, user_data)]\<rparr>"

text \<open>0 is \<open>NULL\<close>.  The code asks whether both callbacks are there, not whether they are the same.\<close>

definition apptrack_unsubscribe :: "nat \<Rightarrow> nat \<Rightarrow> cg_context \<Rightarrow> cg_context" where
  "apptrack_unsubscribe callback user_data st =
     st\<lparr>c_subscribers := filter (\<lambda>(cb, data). \<not> (callback \<noteq> 0 \<and> cb \<noteq> 0 \<and> (user_data = 0 \<or> user_data = data)))
          (c_subscribers st)\<rparr>"

definition get_argv0 :: "cg_env \<Rightarrow> addr \<Rightarrow> cg_context \<Rightarrow> (cstring \<times> cg_context) option" where
  "get_argv0 E a st =
     do { p \<leftarrow> c_procs st a;
          Some (case cp_argv0 p of
              Some s \<Rightarrow> (Some s, st)
            | None \<Rightarrow>
                (case process_get_argv (E (c_log st)) 1 (zero_attr\<lparr>pa_pid := cp_pid p, pa_binary := cp_binary p\<rparr>) of
                   (True, attr) \<Rightarrow>
                     (let s = pa_argv attr ! 0 in (Some s, upd_process a (cp_argv0_update (\<lambda>_. Some s)) st))
                 | (False, _) \<Rightarrow> (None, st))) }"

definition group_label :: "cg_context \<Rightarrow> cg_process \<Rightarrow> string" where
  "group_label st p = (case cp_group p of None \<Rightarrow> ''<unknown>'' | Some g \<Rightarrow> cg_name (c_groups st ! g))"

definition apptrack_query :: "cg_env \<Rightarrow> cg_context \<Rightarrow> ((int \<times> cstring \<times> cstring \<times> cstring) \<times> cg_context) option" where
  "apptrack_query E st =
     (case c_active_process st of
        None \<Rightarrow> Some ((0, None, None, None), st)
      | Some a \<Rightarrow>
          do { p \<leftarrow> c_procs st a; (argv0, st1) \<leftarrow> get_argv0 E a st;
               Some ((cp_pid p, Some (cp_binary p), argv0, Some (group_label st p)), st1) })"

definition apptrack_notify :: "cg_env \<Rightarrow> cg_context \<Rightarrow> cg_context option" where
  "apptrack_notify E st =
     do { ((pid, binary, argv0, grp), st1) \<leftarrow> apptrack_query E st;
          Some (foldl (\<lambda>s sub. c_note (App_notify sub pid (binary, argv0, grp)) s) st1 (c_subscribers st1)) }"

definition update_process :: "decision_fact \<Rightarrow> string \<Rightarrow> cg_context \<Rightarrow> (addr option \<times> cg_context) option" where
  "update_process f state st =
     (case f state of
        Some (Arg_int app) \<Rightarrow>
          (if app = 0 then Some (None, st)
           else case proc_hash_lookup st app of
               None \<Rightarrow> Some (None, st)
             | Some a \<Rightarrow> do { (ok, st1) \<leftarrow> process_update_state (Some a) state st; Some (Some a, st1) })
      | _ \<Rightarrow> Some (None, st))"

definition apptrack_update :: "cg_env \<Rightarrow> decision_fact \<Rightarrow> cg_context \<Rightarrow> cg_context option" where
  "apptrack_update E f st =
     do { (old_proc, st1) \<leftarrow> update_process f ''standby'' st;
          (new_proc, st2) \<leftarrow> update_process f ''active'' st1;
          (let st3 = (if c_active_group st \<noteq> c_active_group st2 \<or> old_proc \<noteq> new_proc
                      then apptrack_cgroup_notify (c_active_group st2) st2 else st2)
           in do { st4 \<leftarrow> apptrack_notify E st3; Some (st4\<lparr>c_apptrack_update := False\<rparr>) }) }"

text \<open>
  The datagrams of the socket: a list of pids, cut to \<open>unsigned short\<close>, and states.  A malformed
  datagram ends the handler before the resolver is told of a new active group.
\<close>

definition socket_sep :: "char \<Rightarrow> bool" where
  "socket_sep c \<longleftrightarrow> c = CHR 0x0D \<or> c = CHR 0x0A \<or> c = CHR '' ''"

definition socket_item :: "string \<Rightarrow> (int \<times> string \<times> string) option" where
  "socket_item buf =
     (case strtoul buf of
        (n, c # state) \<Rightarrow>
          (if c \<noteq> CHR '' '' then None
           else Some (n mod 2 ^ 16, takeWhile (\<lambda>x. \<not> socket_sep x) state, tl (dropWhile (\<lambda>x. \<not> socket_sep x) state)))
      | (_, []) \<Rightarrow> None)"

lemma strtoul_rest: "length (snd (strtoul s)) \<le> length s"
proof -
  have drop: "length (dropWhile P xs) \<le> length xs" for P and xs :: string by (rule length_dropWhile_le)
  have "length (dropWhile is_digit (tl (dropWhile is_space s))) \<le> length s"
    using drop [of is_digit "tl (dropWhile is_space s)"] drop [of is_space s] by (simp add: le_diff_conv)
  moreover have "length (dropWhile is_digit (dropWhile is_space s)) \<le> length s"
    using drop [of is_digit "dropWhile is_space s"] drop [of is_space s] by simp
  ultimately show ?thesis by (simp add: strtoul_def scan_number_def Let_def split: option.split)
qed

lemma socket_item_shorter:
  assumes "socket_item buf = Some (pid, state, rest)"
  shows "length rest < length buf"
proof -
  from assms obtain n c s where u: "strtoul buf = (n, c # s)" and rest: "rest = tl (dropWhile (\<lambda>x. \<not> socket_sep x) s)"
    by (auto simp: socket_item_def split: prod.splits list.splits if_splits)
  have "length (dropWhile (\<lambda>x. \<not> socket_sep x) s) \<le> length s" by (rule length_dropWhile_le)
  with strtoul_rest [of buf] show ?thesis by (simp add: u rest)
qed

function socket_loop :: "cg_env \<Rightarrow> string \<Rightarrow> cg_context \<Rightarrow> (bool \<times> cg_context) option" where
  "socket_loop E buf st =
     (if buf = [] then Some (True, st)
      else case socket_item buf of
          None \<Rightarrow> Some (False, st)
        | Some (pid, state, rest) \<Rightarrow>
            do { (ok, st1) \<leftarrow> process_update_state (proc_hash_lookup st pid) state st;
                 st2 \<leftarrow> apptrack_notify E st1;
                 socket_loop E rest st2 })"
  by pat_completeness auto

termination socket_loop
  by (relation "measure (\<lambda>(_, buf, _). length buf)") (auto intro: socket_item_shorter)

declare socket_loop.simps [simp del]

definition socket_cb :: "cg_env \<Rightarrow> string \<Rightarrow> cg_context \<Rightarrow> cg_context option" where
  "socket_cb E buf st =
     do { (complete, st1) \<leftarrow> socket_loop E buf st;
          Some (if complete \<and> c_active_group st \<noteq> c_active_group st1
            then apptrack_cgroup_notify (c_active_group st1) st1 else st1) }"

subsection \<open>Resolver methods and exports\<close>

definition event_events :: "string \<Rightarrow> event_type set option" where
  "event_events event =
     (if event = ''exit'' then Some {EVENT_EXIT}
      else if event = ''exec'' then Some {EVENT_EXEC}
      else if event = ''all'' then Some {EVENT_EXIT, EVENT_EXEC}
      else None)"

definition cgrp_track_process :: "int \<Rightarrow> string \<Rightarrow> string \<Rightarrow> cg_context \<Rightarrow> (bool \<times> cg_context) option" where
  "cgrp_track_process pid event target st =
     (case event_events event of
        None \<Rightarrow> Some (False, st)
      | Some evs \<Rightarrow>
          (case proc_hash_lookup st pid of
             None \<Rightarrow> Some (False, st)
           | Some a \<Rightarrow> process_track_add a target evs st))"

text \<open>The event and the target may be missing: then all events and the empty target are meant.\<close>

definition cgrp_untrack_process :: "int \<Rightarrow> cstring \<Rightarrow> cstring \<Rightarrow> cg_context \<Rightarrow> (bool \<times> cg_context) option" where
  "cgrp_untrack_process pid event target st =
     (case event_events (case event of None \<Rightarrow> ''all'' | Some e \<Rightarrow> e) of
        None \<Rightarrow> Some (False, st)
      | Some evs \<Rightarrow>
          (case proc_hash_lookup st pid of
             None \<Rightarrow> Some (False, st)
           | Some a \<Rightarrow>
               map_option (Pair True) (process_track_del a (case target of None \<Rightarrow> [] | Some t \<Rightarrow> t) evs st)))"

definition cgrp_process_info :: "int \<Rightarrow> cg_context \<Rightarrow> (string \<times> string) option option" where
  "cgrp_process_info pid st =
     (case proc_hash_lookup st pid of
        None \<Rightarrow> Some None
      | Some a \<Rightarrow> map_option (\<lambda>p. Some (group_label st p, cp_binary p)) (c_procs st a))"

text \<open>
  The end of the start-up: the mask is meant to ask for exec and exit events, but the enumeration
  values 4 and 5 are or-ed into it as they are, which sets the bits of the unknown event and of forks.
\<close>

definition event_mask_init :: "cg_context \<Rightarrow> cg_context" where
  "event_mask_init st = st\<lparr>c_rules := (c_rules st)\<lparr>r_event_mask := r_event_mask (c_rules st) \<union> {EVENT_UNKNOWN, EVENT_FORK}\<rparr>\<rparr>"

subsection \<open>The plugin\<close>

datatype cg_input =
    G_event cgrp_event
  | G_timer nat
  | G_scan "(int \<times> int list) list"
  | G_addons "bool \<times> cgrp_procdef list"
  | G_decision string "string list" "string \<Rightarrow> decision_fact list"
  | G_apps decision_fact
  | G_socket string
  | G_track int string string
  | G_untrack int cstring cstring
  | G_subscribe nat nat
  | G_unsubscribe nat nat
  | G_query

definition cg_step :: "cg_env \<Rightarrow> cg_input \<Rightarrow> cg_context \<Rightarrow> cg_context option" where
  "cg_step E input st =
     (case input of
        G_event ev \<Rightarrow> map_option snd (classify_event E ev st)
      | G_timer i \<Rightarrow> reclassify_process E i st
      | G_scan dirs \<Rightarrow> process_scan_proc E dirs st
      | G_addons parsed \<Rightarrow> Some (st\<lparr>c_rules := snd (addon_reload parsed (c_rules st))\<rparr>)
      | G_decision signal names facts \<Rightarrow> map_option snd (txparser E signal names facts st)
      | G_apps f \<Rightarrow> apptrack_update E f st
      | G_socket buf \<Rightarrow> socket_cb E buf st
      | G_track pid event target \<Rightarrow> map_option snd (cgrp_track_process pid event target st)
      | G_untrack pid event target \<Rightarrow> map_option snd (cgrp_untrack_process pid event target st)
      | G_subscribe cb data \<Rightarrow> Some (apptrack_subscribe cb data st)
      | G_unsubscribe cb data \<Rightarrow> Some (apptrack_unsubscribe cb data st)
      | G_query \<Rightarrow> map_option snd (apptrack_query E st))"

text \<open>
  The groups of the actions exist: the parser looks each of them up.  What the configuration leaves
  behind: no processes yet, and a root partition.
\<close>

definition rules_actions :: "cgrp_rule list \<Rightarrow> cgrp_action set" where
  "rules_actions rs = (\<Union>r \<in> set rs. \<Union>s \<in> set (rule_statements r). set (stmt_actions s))"

definition known_actions :: "cgrp_rules \<Rightarrow> cgrp_action set" where
  "known_actions R =
     rules_actions (r_fallback R) \<union> (\<Union>pd \<in> set (r_addons R). rules_actions (def_rules pd)) \<union>
     (\<Union>pd \<in> ran (r_ruletbl R). rules_actions (def_rules pd)) \<union> (\<Union>pd \<in> ran (r_addontbl R). rules_actions (def_rules pd))"

definition groups_exist :: "nat \<Rightarrow> cgrp_action set \<Rightarrow> bool" where
  "groups_exist n acts \<longleftrightarrow> (\<forall>g. Action_group g \<in> acts \<longrightarrow> g < n)"

definition rules_ok :: "nat \<Rightarrow> cgrp_rules \<Rightarrow> bool" where
  "rules_ok n R \<longleftrightarrow> groups_exist n (known_actions R)"

definition cg_initial :: "cg_context \<Rightarrow> bool" where
  "cg_initial st \<longleftrightarrow>
     c_procs st = Map.empty \<and> c_proctbl st = (\<lambda>_. []) \<and> c_active_process st = None \<and> c_active_group st = None \<and>
     (\<forall>g \<in> set (c_groups st). cg_processes g = []) \<and> c_root st \<noteq> None \<and> c_timers st = [] \<and> c_leaders st = Map.empty \<and>
     (\<forall>g \<in> ran (c_grouptbl st). g < length (c_groups st)) \<and> rules_ok (length (c_groups st)) (c_rules st)"

definition cg_input_ok :: "cg_context \<Rightarrow> cg_input \<Rightarrow> bool" where
  "cg_input_ok st input =
     (case input of
        G_addons (ok, pds) \<Rightarrow> (\<forall>pd \<in> set pds. groups_exist (length (c_groups st)) (rules_actions (def_rules pd)))
      | _ \<Rightarrow> True)"

inductive cg_reach :: "cg_env \<Rightarrow> cg_context \<Rightarrow> bool" for E where
  cg_reach_start: "cg_initial st \<Longrightarrow> cg_reach E st"
| cg_reach_step: "cg_reach E st \<Longrightarrow> cg_input_ok st input \<Longrightarrow> cg_step E input st = Some st' \<Longrightarrow> cg_reach E st'"

end
