(* ===== verification/Cgrp_Inv.thy ===== *)
theory Cgrp_Inv
  imports Cgrp_Ep
begin

text \<open>
  Invariants of the cgroups plugin.  \<open>moved\<close> says all that adding a task to a partition can change:
  the partition of some processes becomes the new one and stale tracers are forgotten.  \<open>cg_ok\<close> ties the
  table of processes, the lists of the groups and the active application together.
\<close>

subsection \<open>What a move to a partition changes\<close>

definition moved_process :: "nat \<Rightarrow> cg_process \<Rightarrow> cg_process \<Rightarrow> bool" where
  "moved_process part p q \<longleftrightarrow>
     q = p\<lparr>cp_partition := cp_partition q, cp_tracer := cp_tracer q\<rparr> \<and>
     cp_partition q \<in> {cp_partition p, Some part} \<and> cp_tracer q \<in> {cp_tracer p, 0}"

text \<open>The process that traces another, as far as it is known.\<close>

definition tracer_of :: "cg_context \<Rightarrow> addr \<Rightarrow> addr option" where
  "tracer_of st a =
     (case c_procs st a of
        None \<Rightarrow> None
      | Some p \<Rightarrow> if cp_tracer p = 0 then None else proc_hash_lookup st (cp_tracer p))"

definition moved :: "nat \<Rightarrow> cg_context \<Rightarrow> cg_context \<Rightarrow> bool" where
  "moved part st st' \<longleftrightarrow>
     st' = st\<lparr>c_procs := c_procs st', c_log := c_log st'\<rparr> \<and>
     (\<forall>a. rel_option (moved_process part) (c_procs st a) (c_procs st' a)) \<and>
     (\<forall>a t. tracer_of st a = Some t \<longrightarrow> tracer_of st' a = Some t)"

lemma moved_process_refl [simp]: "moved_process part p p"
  by (simp add: moved_process_def)

lemma moved_process_trans: "moved_process part p q \<Longrightarrow> moved_process part q r \<Longrightarrow> moved_process part p r"
  by (cases p; cases q; cases r) (auto simp: moved_process_def)

lemma moved_refl [simp]: "moved part st st"
  by (simp add: moved_def option.rel_refl)

lemma moved_trans:
  assumes "moved part st st1" and "moved part st1 st2"
  shows "moved part st st2"
proof -
  have "st2 = st\<lparr>c_procs := c_procs st2, c_log := c_log st2\<rparr>"
    using assms by (cases st; cases st1; cases st2) (simp add: moved_def)
  moreover have "rel_option (moved_process part) (c_procs st a) (c_procs st2 a)" for a
  proof -
    from assms have "rel_option (moved_process part) (c_procs st a) (c_procs st1 a)"
      and "rel_option (moved_process part) (c_procs st1 a) (c_procs st2 a)"
      unfolding moved_def by blast+
    then show ?thesis by (auto elim!: option.rel_cases intro: moved_process_trans)
  qed
  ultimately show ?thesis using assms by (simp add: moved_def)
qed

lemma moved_get:
  assumes "moved part st st'" and "c_procs st a = Some p"
  obtains q where "c_procs st' a = Some q" and "moved_process part p q"
proof -
  from assms have "rel_option (moved_process part) (Some p) (c_procs st' a)" unfolding moved_def by metis
  then show thesis by (cases "c_procs st' a") (auto intro: that)
qed

lemma moved_none:
  assumes "moved part st st'"
  shows "c_procs st a = None \<longleftrightarrow> c_procs st' a = None"
proof -
  from assms have "rel_option (moved_process part) (c_procs st a) (c_procs st' a)" unfolding moved_def by blast
  then show ?thesis by (auto elim: option.rel_cases)
qed

lemma lookup_cong:
  assumes "c_proctbl st' = c_proctbl st" and "\<And>a. has_pid st' pid a = has_pid st pid a"
  shows "proc_hash_lookup st' pid = proc_hash_lookup st pid"
  using assms by (simp add: proc_hash_lookup_def cong: find_cong)

lemma lookup_upd_process:
  assumes "\<And>p. cp_pid (f p) = cp_pid p"
  shows "proc_hash_lookup (upd_process a f st) pid = proc_hash_lookup st pid"
  by (rule lookup_cong) (auto simp: upd_process_def has_pid_def assms split: option.split)

lemma lookup_note [simp]: "proc_hash_lookup (c_note x st) pid = proc_hash_lookup st pid"
  by (rule lookup_cong) (simp_all add: c_note_def has_pid_def)

lemma procs_note [simp]: "c_procs (c_note x st) = c_procs st"
  by (simp add: c_note_def)

lemma procs_upd: "c_procs (upd_process a f st) b = (if b = a then map_option f (c_procs st b) else c_procs st b)"
  by (simp add: upd_process_def split: option.split)

lemma tracer_of_note [simp]: "tracer_of (c_note x st) a = tracer_of st a"
  by (simp add: tracer_of_def split: option.split)

lemma tracer_of_upd:
  assumes "\<And>p. cp_pid (f p) = cp_pid p" and "\<And>p. cp_tracer (f p) = cp_tracer p"
  shows "tracer_of (upd_process a f st) b = tracer_of st b"
  by (simp add: tracer_of_def procs_upd lookup_upd_process [OF assms(1)] assms(2) split: option.split)

lemma upd_process_record: "upd_process a f st = st\<lparr>c_procs := c_procs (upd_process a f st), c_log := c_log (upd_process a f st)\<rparr>"
  by (simp add: upd_process_def split: option.split)

lemma moved_note [simp]: "moved part st (c_note x st)"
  unfolding moved_def by (simp add: option.rel_refl) (simp add: c_note_def)

lemma moved_upd_partition [simp]: "moved part st (upd_process a (cp_partition_update (\<lambda>_. Some part)) st)"
proof -
  have "rel_option (moved_process part) (c_procs st b) (c_procs (upd_process a (cp_partition_update (\<lambda>_. Some part)) st) b)" for b
    by (cases "b = a"; cases "c_procs st b") (auto simp: procs_upd moved_process_def)
  then show ?thesis using upd_process_record by (simp add: moved_def tracer_of_upd)
qed

lemma moved_upd_tracer:
  assumes "\<And>p. c_procs st a = Some p \<Longrightarrow> proc_hash_lookup st (cp_tracer p) = None"
  shows "moved part st (upd_process a (cp_tracer_update (\<lambda>_. 0)) st)"
proof -
  let ?s = "upd_process a (cp_tracer_update (\<lambda>_. 0)) st"
  have "rel_option (moved_process part) (c_procs st b) (c_procs ?s b)" for b
    by (cases "b = a"; cases "c_procs st b") (auto simp: procs_upd moved_process_def)
  moreover have "tracer_of ?s b = Some t" if "tracer_of st b = Some t" for b t
    using that assms by (auto simp: tracer_of_def procs_upd lookup_upd_process split: option.splits if_splits)
  ultimately show ?thesis using upd_process_record by (simp add: moved_def)
qed

text \<open>The partition that a member of \<open>part\<close> orders others into is \<open>part\<close>.\<close>

definition in_part :: "nat \<Rightarrow> addr \<Rightarrow> cg_context \<Rightarrow> bool" where
  "in_part part a st \<longleftrightarrow> (\<exists>p. c_procs st a = Some p \<and> cp_partition p = Some part)"

lemma in_part_moved: "moved part st st' \<Longrightarrow> in_part part a st \<Longrightarrow> in_part part a st'"
  unfolding in_part_def by (elim exE conjE, erule moved_get, assumption) (auto simp: moved_process_def)

lemma order_to_follow_post:
  assumes "\<And>part b s ok s'. add part b s = Some (ok, s') \<Longrightarrow> moved part s s'" and "in_part part a st"
  shows "post (moved part st) (order_to_follow add a b st)"
  using assms by (auto simp: post_def order_to_follow_def in_part_def bind_eq_Some_conv)

lemma lead_followers_post:
  assumes add: "\<And>part b s ok s'. add part b s = Some (ok, s') \<Longrightarrow> moved part s s'"
    and "in_part part a st"
  shows "post (moved part st) (lead_followers add leader a b st)"
proof -
  let ?P = "\<lambda>s. moved part st s \<and> in_part part a s"
  have order: "post (moved part s) (order_to_follow add a b s)" if "in_part part a s" for s
    by (rule order_to_follow_post [OF add that])
  have step: "post ?P (if name \<noteq> n then Some s else order_to_follow add a b s)" if "?P s" for name n :: string and s
    using that order [of s] by (auto simp: post_def intro: moved_trans in_part_moved)
  have fold: "post ?P (foldM (\<lambda>name s. if name \<noteq> n then Some s else order_to_follow add a b s) fs st)" for fs and n :: string
    by (rule foldM_post) (use step assms(2) in auto)
  show ?thesis unfolding lead_followers_def
    by (cases leader)
      (auto simp: bind_eq_Some_conv post_def dest: postD [OF order [OF assms(2)]] postD [OF fold] split: if_splits)
qed

lemma leader_fold_post:
  assumes add: "\<And>part b s ok s'. add part b s = Some (ok, s') \<Longrightarrow> moved part s s'"
    and "in_part part a st"
  shows "post (\<lambda>s. moved part st s \<and> in_part part a s) (proc_hash_foreach (lead_followers add l a) st)"
proof -
  let ?P = "\<lambda>s. moved part st s \<and> in_part part a s"
  have lead: "post (moved part s) (lead_followers add l a b s)" if "in_part part a s" for b s
    by (rule lead_followers_post [OF add that])
  have step: "post ?P (lead_followers add l a b s)" if "?P s" for b s
    using that lead [of s b] by (auto simp: post_def intro: moved_trans in_part_moved)
  show ?thesis unfolding proc_hash_foreach_def by (rule foldM_post) (use step assms(2) in auto)
qed

lemma leader_acts_post:
  assumes add: "\<And>part b s ok s'. add part b s = Some (ok, s') \<Longrightarrow> moved part s s'"
    and "in_part part a st"
  shows "post (moved part st) (leader_acts add a st)"
proof -
  let ?P = "\<lambda>s. moved part st s \<and> in_part part a s"
  have order: "post (moved part st) (order_to_follow add a t s)" if "?P s" for t s
  proof -
    have "post (moved part s) (order_to_follow add a t s)"
      by (rule order_to_follow_post [OF add]) (use that in auto)
    then show ?thesis using that by (auto simp: post_def intro: moved_trans)
  qed
  have rest: "post (moved part st) (do { process1 \<leftarrow> c_procs s a;
      if cp_tracer process1 = 0 then Some s
      else case proc_hash_lookup s (cp_tracer process1) of
          Some tracer \<Rightarrow> order_to_follow add a tracer s
        | None \<Rightarrow> Some (upd_process a (cp_tracer_update (\<lambda>_. 0)) s) })" if "?P s" for s
    by (rule post_bind [OF post_any])
      (use that in \<open>auto intro!: post_rules order intro: moved_trans [OF _ moved_upd_tracer]\<close>)
  show ?thesis
    unfolding leader_acts_def
    by (rule post_bind [OF post_any], rule post_bind [OF leader_fold_post [OF _ assms(2)]], rule add, assumption, rule rest)
qed

text \<open>After its followers a leader calls its tracer.\<close>

lemma leader_acts_tracer:
  assumes add: "\<And>part b s ok s'. add part b s = Some (ok, s') \<Longrightarrow> moved part s s'"
    and "in_part part a st" and "tracer_of st a = Some t" and "leader_acts add a st = Some st'"
  obtains s r where "moved part st s" and "add part t s = Some r"
proof -
  from assms(4) obtain p where "c_procs st a = Some p" by (auto simp: leader_acts_def bind_eq_Some_conv)
  with assms(4) obtain s where fold: "proc_hash_foreach (lead_followers add (c_leaders st (cp_name p)) a) st = Some s"
    by (auto simp: leader_acts_def bind_eq_Some_conv)
  with assms(4) \<open>c_procs st a = Some p\<close> obtain q where acts: "c_procs s a = Some q" "(if cp_tracer q = 0 then Some s
      else case proc_hash_lookup s (cp_tracer q) of Some tracer \<Rightarrow> order_to_follow add a tracer s
        | None \<Rightarrow> Some (upd_process a (cp_tracer_update (\<lambda>_. 0)) s)) = Some st'"
    by (auto simp: leader_acts_def bind_eq_Some_conv)
  have "post (\<lambda>s. moved part st s \<and> in_part part a s) (proc_hash_foreach (lead_followers add (c_leaders st (cp_name p)) a) st)"
    by (rule leader_fold_post [OF _ assms(2)]) (rule add)
  from postD [OF this fold] have mv: "moved part st s" and part: "in_part part a s" by simp_all
  have "tracer_of s a = Some t" using mv assms(3) by (simp add: moved_def)
  then have "order_to_follow add a t s = Some st'"
    using acts by (auto simp: tracer_of_def split: option.splits if_splits)
  with part obtain r where "add part t s = Some r" by (auto simp: order_to_follow_def in_part_def bind_eq_Some_conv)
  with mv show thesis by (rule that)
qed

lemma partition_add_moved:
  assumes "partition_add_process E part a st = Some (ok, st')"
  shows "moved part st st'"
proof -
  have "moved part st (snd (ok, st'))"
  proof (rule partition_add_process.raw_induct [where P = "\<lambda>E part a st r. moved part st (snd r)", OF _ assms])
    fix add :: "cg_env \<Rightarrow> nat \<Rightarrow> addr \<Rightarrow> cg_context \<Rightarrow> (bool \<times> cg_context) option" and E part a st r
    assume IH: "\<And>E part a st r. add E part a st = Some r \<Longrightarrow> moved part st (snd r)"
      and run: "c_procs st a \<bind> (\<lambda>process. let st1 = c_note (Tasks_write part (cp_pid process)) st
        in case w_tasks (E (c_log st)) part (cp_pid process) of
            Sys_done \<Rightarrow> leader_acts (add E) a (upd_process a (cp_partition_update (\<lambda>_. Some part)) st1) \<bind>
              (\<lambda>st2. Some (True, st2))
          | Sys_gone \<Rightarrow> Some (True, st1) | Sys_failed \<Rightarrow> Some (False, st1)) = Some r"
    from run obtain p where p: "c_procs st a = Some p" by (auto simp: bind_eq_Some_conv)
    have add: "moved q s s'" if "add E q b s = Some (ok, s')" for q b s ok s'
      using IH [OF that] by simp
    let ?st1 = "upd_process a (cp_partition_update (\<lambda>_. Some part)) (c_note (Tasks_write part (cp_pid p)) st)"
    have "in_part part a ?st1" by (simp add: in_part_def upd_process_def c_note_def p)
    then have "post (moved part ?st1) (leader_acts (add E) a ?st1)" by (rule leader_acts_post [rotated]) (rule add)
    then have "moved part st s" if "leader_acts (add E) a ?st1 = Some s" for s
      using that by (auto dest: postD intro: moved_trans [OF moved_trans [OF moved_note moved_upd_partition]])
    with run p show "moved part st (snd r)" by (auto simp: Let_def bind_eq_Some_conv split: sys_result.splits)
  qed
  then show ?thesis by simp
qed


subsection \<open>A cycle of tracers\<close>

definition trace_cycle :: "addr set \<Rightarrow> cg_context \<Rightarrow> bool" where
  "trace_cycle C st \<longleftrightarrow> (\<forall>c \<in> C. \<exists>t \<in> C. tracer_of st c = Some t)"

definition accepts_tasks :: "cg_env \<Rightarrow> bool" where
  "accepts_tasks E \<longleftrightarrow> (\<forall>log part pid. w_tasks (E log) part pid = Sys_done)"

lemma moved_cycle: "moved part st st' \<Longrightarrow> trace_cycle C st \<Longrightarrow> trace_cycle C st'"
  by (fastforce simp: trace_cycle_def moved_def)

lemma cycle_no_result:
  assumes "partition_add_process E part a st = Some r" and "accepts_tasks E" and "trace_cycle C st"
  shows "a \<notin> C"
proof -
  have "moved part st (snd r) \<and> (accepts_tasks E \<longrightarrow> trace_cycle C st \<longrightarrow> a \<notin> C)"
  proof (rule partition_add_process.raw_induct [where
      P = "\<lambda>E part a st r. moved part st (snd r) \<and> (accepts_tasks E \<longrightarrow> trace_cycle C st \<longrightarrow> a \<notin> C)", OF _ assms(1)])
    fix add :: "cg_env \<Rightarrow> nat \<Rightarrow> addr \<Rightarrow> cg_context \<Rightarrow> (bool \<times> cg_context) option" and E part a st r
    assume IH: "\<And>E part a st r. add E part a st = Some r \<Longrightarrow>
        moved part st (snd r) \<and> (accepts_tasks E \<longrightarrow> trace_cycle C st \<longrightarrow> a \<notin> C)"
      and run: "c_procs st a \<bind> (\<lambda>process. let st1 = c_note (Tasks_write part (cp_pid process)) st
        in case w_tasks (E (c_log st)) part (cp_pid process) of
            Sys_done \<Rightarrow> leader_acts (add E) a (upd_process a (cp_partition_update (\<lambda>_. Some part)) st1) \<bind>
              (\<lambda>st2. Some (True, st2))
          | Sys_gone \<Rightarrow> Some (True, st1) | Sys_failed \<Rightarrow> Some (False, st1)) = Some r"
    from run obtain p where p: "c_procs st a = Some p" by (auto simp: bind_eq_Some_conv)
    have add: "moved q s s'" if "add E q b s = Some (ok, s')" for q b s ok s'
      using IH [OF that] by simp
    let ?st1 = "upd_process a (cp_partition_update (\<lambda>_. Some part)) (c_note (Tasks_write part (cp_pid p)) st)"
    have mv1: "moved part st ?st1" by (rule moved_trans [OF moved_note moved_upd_partition])
    have part1: "in_part part a ?st1" by (simp add: in_part_def upd_process_def c_note_def p)
    then have "post (moved part ?st1) (leader_acts (add E) a ?st1)" by (rule leader_acts_post [rotated]) (rule add)
    then have "moved part st s" if "leader_acts (add E) a ?st1 = Some s" for s
      using that by (auto dest: postD intro: moved_trans [OF mv1])
    with run p have mv: "moved part st (snd r)" by (auto simp: Let_def bind_eq_Some_conv split: sys_result.splits)
    have "a \<notin> C" if tasks: "accepts_tasks E" and cyc: "trace_cycle C st"
    proof
      assume "a \<in> C"
      with cyc obtain t where t: "t \<in> C" "tracer_of st a = Some t" by (auto simp: trace_cycle_def)
      have tr: "tracer_of ?st1 a = Some t" using mv1 t(2) by (simp add: moved_def)
      obtain s' where lead: "leader_acts (add E) a ?st1 = Some s'"
        using run p tasks by (auto simp: Let_def accepts_tasks_def bind_eq_Some_conv)
      obtain s u where mv': "moved part ?st1 s" and u: "add E part t s = Some u"
        using leader_acts_tracer [where add = "add E", OF _ part1 tr lead] add by blast
      from IH [OF u] tasks moved_cycle [OF moved_trans [OF mv1 mv'] cyc] t(1) show False by simp
    qed
    with mv show "moved part st (snd r) \<and> (accepts_tasks E \<longrightarrow> trace_cycle C st \<longrightarrow> a \<notin> C)" by blast
  qed
  with assms show ?thesis by blast
qed

subsection \<open>A move ends when the tracers form no cycle\<close>

text \<open>A rank that decreases along the tracers rules out cycles.\<close>

definition ranked :: "(addr \<Rightarrow> nat) \<Rightarrow> cg_context \<Rightarrow> bool" where
  "ranked rank st \<longleftrightarrow> (\<forall>a b. tracer_of st a = Some b \<longrightarrow> rank b < rank a)"

definition loopfree :: "cg_context \<Rightarrow> bool" where
  "loopfree st \<longleftrightarrow> (\<exists>rank. ranked rank st)"

definition table_live :: "cg_context \<Rightarrow> bool" where
  "table_live st \<longleftrightarrow>
     finite (dom (c_procs st)) \<and> (\<forall>i. \<forall>a \<in> set (c_proctbl st i). c_procs st a \<noteq> None) \<and>
     (\<forall>followers \<in> ran (c_leaders st). distinct followers)"

lemma moved_fields:
  assumes "moved part st st'"
  shows "c_proctbl st' = c_proctbl st" "c_leaders st' = c_leaders st" "c_next st' = c_next st" "c_groups st' = c_groups st"
    "c_rules st' = c_rules st" "c_root st' = c_root st" "c_active_process st' = c_active_process st"
    "c_active_group st' = c_active_group st" "c_timers st' = c_timers st" "c_parts st' = c_parts st"
    "c_grouptbl st' = c_grouptbl st" "c_prio_preserve st' = c_prio_preserve st" "c_always_fallback st' = c_always_fallback st"
proof -
  from assms have eq: "st' = st\<lparr>c_procs := c_procs st', c_log := c_log st'\<rparr>" by (simp only: moved_def)
  show "c_proctbl st' = c_proctbl st" "c_leaders st' = c_leaders st" "c_next st' = c_next st" "c_groups st' = c_groups st"
    "c_rules st' = c_rules st" "c_root st' = c_root st" "c_active_process st' = c_active_process st"
    "c_active_group st' = c_active_group st" "c_timers st' = c_timers st" "c_parts st' = c_parts st"
    "c_grouptbl st' = c_grouptbl st" "c_prio_preserve st' = c_prio_preserve st" "c_always_fallback st' = c_always_fallback st"
    by (subst eq, simp)+
qed

lemma moved_processD:
  assumes "moved_process part p q"
  shows "cp_pid q = cp_pid p" "cp_tgid q = cp_tgid p" "cp_name q = cp_name p" "cp_group q = cp_group p"
    "cp_binary q = cp_binary p" "cp_argvx q = cp_argvx p" "cp_track q = cp_track p"
proof -
  from assms have eq: "q = p\<lparr>cp_partition := cp_partition q, cp_tracer := cp_tracer q\<rparr>" by (simp only: moved_process_def)
  show "cp_pid q = cp_pid p" "cp_tgid q = cp_tgid p" "cp_name q = cp_name p" "cp_group q = cp_group p"
    "cp_binary q = cp_binary p" "cp_argvx q = cp_argvx p" "cp_track q = cp_track p"
    by (subst eq, simp)+
qed

lemma moved_dom:
  assumes "moved part st st'"
  shows "dom (c_procs st') = dom (c_procs st)"
  by (simp add: dom_def moved_none [OF assms] del: not_None_eq)

lemma moved_pid:
  assumes "moved part st st'"
  shows "has_pid st' pid a = has_pid st pid a"
proof (cases "c_procs st a")
  case None
  then show ?thesis using moved_none [OF assms, of a] by (simp add: has_pid_def)
next
  case (Some p)
  then obtain q where "c_procs st' a = Some q" "moved_process part p q" by (rule moved_get [OF assms])
  then show ?thesis by (simp add: has_pid_def Some moved_processD)
qed

lemma moved_lookup: "moved part st st' \<Longrightarrow> proc_hash_lookup st' pid = proc_hash_lookup st pid"
  by (simp add: proc_hash_lookup_def moved_fields moved_pid cong: find_cong)

lemma moved_tracer:
  assumes "moved part st st'" and "tracer_of st' a = Some b"
  shows "tracer_of st a = Some b"
proof -
  from assms(2) obtain q where q: "c_procs st' a = Some q" and "cp_tracer q \<noteq> 0" and b: "proc_hash_lookup st' (cp_tracer q) = Some b"
    by (auto simp: tracer_of_def split: option.splits if_splits)
  from q assms(1) obtain p where p: "c_procs st a = Some p" using moved_none [OF assms(1), of a] by auto
  from moved_get [OF assms(1) p] q have "moved_process part p q" by auto
  then have "cp_tracer p = cp_tracer q" using \<open>cp_tracer q \<noteq> 0\<close> by (auto simp: moved_process_def)
  with p b \<open>cp_tracer q \<noteq> 0\<close> show ?thesis by (simp add: tracer_of_def moved_lookup [OF assms(1)])
qed

lemma moved_ranked: "moved part st st' \<Longrightarrow> ranked rank st \<Longrightarrow> ranked rank st'"
  by (auto simp: ranked_def dest: moved_tracer)

lemma moved_live:
  assumes "moved part st st'" and "table_live st"
  shows "table_live st'"
  using assms(2) moved_none [OF assms(1)] by (simp add: table_live_def moved_fields [OF assms(1)] moved_dom [OF assms(1)])

text \<open>The processes that are not in a partition yet.\<close>

definition outside :: "nat \<Rightarrow> cg_context \<Rightarrow> addr set" where
  "outside part st = {a \<in> dom (c_procs st). \<not> in_part part a st}"

lemma outside_moved: "moved part st st' \<Longrightarrow> outside part st' \<subseteq> outside part st"
  by (auto simp: outside_def moved_dom dest: in_part_moved)

lemma finite_outside: "table_live st \<Longrightarrow> finite (outside part st)"
  by (simp add: outside_def table_live_def)

lemma outside_card: "moved part st st' \<Longrightarrow> table_live st \<Longrightarrow> card (outside part st') \<le> card (outside part st)"
  by (intro card_mono finite_outside outside_moved)

lemma fold_one_follower:
  assumes "distinct followers"
  shows "foldM (\<lambda>name s. if name \<noteq> n then Some s else f s) followers st = (if n \<in> set followers then f st else Some st)"
  using assms
proof (induction followers arbitrary: st)
  case (Cons x xs)
  have skip: "foldM (\<lambda>name s. if name \<noteq> n then Some s else f s) xs s = Some s" if "n \<notin> set xs" for s
    using Cons.IH [of s] Cons.prems that by simp
  show ?case
  proof (cases "x = n")
    case True
    then have "n \<notin> set xs" using Cons.prems by simp
    then show ?thesis using True skip by (cases "f st") simp_all
  next
    case False then show ?thesis using Cons by simp
  qed
qed simp

definition move_order :: "((nat \<times> nat \<times> nat) \<times> (nat \<times> nat \<times> nat)) set" where
  "move_order = less_than <*lex*> less_than <*lex*> less_than"

lemma wf_move_order: "wf move_order"
  by (simp add: move_order_def wf_lex_prod)

definition move_measure :: "(addr \<Rightarrow> nat) \<Rightarrow> nat \<Rightarrow> addr \<Rightarrow> cg_context \<Rightarrow> nat \<times> nat \<times> nat" where
  "move_measure rank part a st = (card (outside part st), if in_part part a st then 1 else 0, rank a)"

lemma lookup_Some:
  assumes "proc_hash_lookup st pid = Some a"
  shows "a \<in> set (c_proctbl st (proc_hash_bucket pid))" and "has_pid st pid a"
  using assms by (auto simp: proc_hash_lookup_def find_Some_iff)

lemma order_returns:
  assumes "in_part part a s" and "\<exists>r. partition_add_process E part b s = Some r"
  shows "returns (moved part s) (order_to_follow (partition_add_process E) a b s)"
  using assms by (auto simp: order_to_follow_def in_part_def returns_def dest: partition_add_moved)

lemma lead_returns:
  assumes "in_part part a s" and "table_live s" and "b \<in> dom (c_procs s)"
    and leader: "\<And>followers. leader = Some followers \<Longrightarrow> distinct followers"
    and IH: "\<not> in_part part b s \<Longrightarrow> \<exists>r. partition_add_process E part b s = Some r"
  shows "returns (moved part s) (lead_followers (partition_add_process E) leader a b s)"
proof -
  from assms(1,3) obtain p q where p: "c_procs s a = Some p" "cp_partition p = Some part" and q: "c_procs s b = Some q"
    by (auto simp: in_part_def)
  have order: "returns (moved part s) (order_to_follow (partition_add_process E) a b s)" if "cp_partition q \<noteq> Some part"
    by (rule order_returns [OF assms(1) IH]) (use that q in \<open>auto simp: in_part_def\<close>)
  show ?thesis
    using order by (cases leader) (auto simp: lead_followers_def p q fold_one_follower leader)
qed

lemma partition_add_returns:
  assumes "table_live st" and "ranked rank st" and "a \<in> dom (c_procs st)"
  shows "\<exists>r. partition_add_process E part a st = Some r"
  using assms
proof (induction "move_measure rank part a st" arbitrary: a st rule: wf_induct_rule [OF wf_move_order])
  case 1
  note IH = "1.hyps" and cg_live = "1.prems"(1) and rank = "1.prems"(2)
  from "1.prems"(3) obtain p where p: "c_procs st a = Some p" by auto
  define st1 where "st1 = upd_process a (cp_partition_update (\<lambda>_. Some part)) (c_note (Tasks_write part (cp_pid p)) st)"
  have mv1: "moved part st st1" unfolding st1_def by (rule moved_trans [OF moved_note moved_upd_partition])
  have in1: "in_part part a st1" by (simp add: st1_def in_part_def upd_process_def c_note_def p)
  have smaller: "\<exists>r. partition_add_process E part b s = Some r"
    if mv: "moved part st1 s" and b: "b \<in> dom (c_procs s)" and lt: "\<not> in_part part b s \<or> rank b < rank a" for b s
  proof (rule IH)
    have mvs: "moved part st s" by (rule moved_trans [OF mv1 mv])
    show "table_live s" by (rule moved_live [OF mvs cg_live])
    show "ranked rank s" by (rule moved_ranked [OF mvs rank])
    show "b \<in> dom (c_procs s)" by fact
    have le: "card (outside part s) \<le> card (outside part st)" by (rule outside_card [OF mvs cg_live])
    show "(move_measure rank part b s, move_measure rank part a st) \<in> move_order"
    proof (cases "in_part part a st")
      case True
      with le lt show ?thesis by (auto simp: move_measure_def move_order_def)
    next
      case False
      have "a \<in> outside part st" using False p by (auto simp: outside_def)
      moreover have "a \<notin> outside part s" using in_part_moved [OF mv in1] by (simp add: outside_def)
      ultimately have "outside part s \<subset> outside part st" using outside_moved [OF mvs] by blast
      then have "card (outside part s) < card (outside part st)" by (rule psubset_card_mono [OF finite_outside [OF cg_live]])
      then show ?thesis by (simp add: move_measure_def move_order_def)
    qed
  qed
  have live1: "table_live st1" by (rule moved_live [OF mv1 cg_live])
  have lead: "returns (\<lambda>s. moved part st1 s)
      (proc_hash_foreach (lead_followers (partition_add_process E) (c_leaders st1 n) a) st1)" for n
    unfolding proc_hash_foreach_def
  proof (rule foldM_returns)
    fix b s assume mv: "moved part st1 s" and b: "b \<in> set (all_processes st1)"
    from b live1 have "b \<in> dom (c_procs st1)" by (auto simp: all_processes_def table_live_def)
    then have bs: "b \<in> dom (c_procs s)" by (simp add: moved_dom [OF mv])
    have "returns (moved part s) (lead_followers (partition_add_process E) (c_leaders st1 n) a b s)"
      by (rule lead_returns [OF in_part_moved [OF mv in1] moved_live [OF mv live1] bs _ smaller [OF mv bs]])
        (use live1 in \<open>auto simp: table_live_def ran_def\<close>)
    then show "returns (moved part st1) (lead_followers (partition_add_process E) (c_leaders st1 n) a b s)"
      by (rule returns_mono) (rule moved_trans [OF mv])
  qed simp
  have "\<exists>s. leader_acts (partition_add_process E) a st1 = Some s"
  proof -
    obtain p1 where p1: "c_procs st1 a = Some p1" using in1 by (auto simp: in_part_def)
    from lead [of "cp_name p1"] obtain s
      where s: "proc_hash_foreach (lead_followers (partition_add_process E) (c_leaders st1 (cp_name p1)) a) st1 = Some s"
        and mv: "moved part st1 s" by (auto elim: returnsE)
    from moved_get [OF mv p1] obtain q where q: "c_procs s a = Some q" by blast
    have follow: "\<exists>s'. order_to_follow (partition_add_process E) a t s = Some s'"
      if t: "proc_hash_lookup s (cp_tracer q) = Some t" and "cp_tracer q \<noteq> 0" for t
    proof -
      have "tracer_of s a = Some t" using t that(2) by (simp add: tracer_of_def q)
      then have "rank t < rank a" using moved_ranked [OF moved_trans [OF mv1 mv] rank] by (simp add: ranked_def)
      moreover have "t \<in> dom (c_procs s)"
        using lookup_Some(1) [OF t] moved_live [OF mv live1] by (auto simp: table_live_def)
      ultimately show ?thesis
        using order_returns [OF in_part_moved [OF mv in1] smaller [OF mv]] by (auto elim: returnsE)
    qed
    show ?thesis by (auto simp: leader_acts_def p1 s q follow split: option.split)
  qed
  then show ?case
    by (subst partition_add_process.simps) (auto simp: p st1_def Let_def split: sys_result.split)
qed
end
