(* ===== verification/Cgrp_Ok.thy ===== *)
theory Cgrp_Ok
  imports Cgrp_Inv
begin

text \<open>
  The invariant of the cgroups plugin: the table of processes, the lists of the groups and the active
  application describe the same set of processes.  It is stated over the part of the state it speaks of
  (\<open>cg_shape\<close>), so that an operation that keeps this part (\<open>cg_calm\<close>) needs no further proof.
\<close>

subsection \<open>The invariant\<close>

definition cg_live :: "cg_context \<Rightarrow> addr \<Rightarrow> bool" where
  "cg_live st a \<longleftrightarrow> c_procs st a \<noteq> None"

definition proc_key :: "cg_context \<Rightarrow> addr \<Rightarrow> (int \<times> nat option) option" where
  "proc_key st a = map_option (\<lambda>p. (cp_pid p, cp_group p)) (c_procs st a)"

definition cg_table_ok :: "(addr \<Rightarrow> (int \<times> nat option) option) \<Rightarrow> (nat \<Rightarrow> addr list) \<Rightarrow> addr \<Rightarrow> bool" where
  "cg_table_ok k tbl nxt \<longleftrightarrow>
     finite (dom k) \<and> (\<forall>i. distinct (tbl i)) \<and>
     (\<forall>i a. a \<in> set (tbl i) \<longleftrightarrow> (\<exists>pid g. k a = Some (pid, g) \<and> proc_hash_bucket pid = i)) \<and> (\<forall>a \<in> dom k. a < nxt)"

definition members_ok :: "(addr \<Rightarrow> (int \<times> nat option) option) \<Rightarrow> addr list list \<Rightarrow> bool" where
  "members_ok k ms \<longleftrightarrow>
     (\<forall>g < length ms. distinct (ms ! g) \<and> (\<forall>a. a \<in> set (ms ! g) \<longleftrightarrow> (\<exists>pid. k a = Some (pid, Some g)))) \<and>
     (\<forall>a pid g. k a = Some (pid, Some g) \<longrightarrow> g < length ms)"

definition active_ok :: "(addr \<Rightarrow> (int \<times> nat option) option) \<Rightarrow> addr option \<Rightarrow> nat option \<Rightarrow> bool" where
  "active_ok k act actg \<longleftrightarrow> (case act of None \<Rightarrow> actg = None | Some a \<Rightarrow> \<exists>pid. k a = Some (pid, actg))"

definition config_ok :: "nat \<Rightarrow> nat option \<Rightarrow> (string \<rightharpoonup> string list) \<Rightarrow> (string \<rightharpoonup> nat) \<Rightarrow> cgrp_rules \<Rightarrow> bool" where
  "config_ok n root leaders grps R \<longleftrightarrow>
     root \<noteq> None \<and> (\<forall>followers \<in> ran leaders. distinct followers) \<and> (\<forall>g \<in> ran grps. g < n) \<and> rules_ok n R"

definition cg_shape where
  "cg_shape st = (proc_key st, c_proctbl st, c_next st, map cg_processes (c_groups st), c_active_process st,
     c_active_group st, c_root st, c_leaders st, c_grouptbl st, c_rules st)"

definition cg_shape_ok where
  "cg_shape_ok s = (case s of (k, tbl, nxt, ms, act, actg, root, leaders, grps, R) \<Rightarrow>
     cg_table_ok k tbl nxt \<and> members_ok k ms \<and> active_ok k act actg \<and> config_ok (length ms) root leaders grps R)"

definition cg_ok :: "cg_context \<Rightarrow> bool" where
  "cg_ok st \<longleftrightarrow> cg_shape_ok (cg_shape st)"

lemma cg_okD:
  assumes "cg_ok st"
  shows "cg_table_ok (proc_key st) (c_proctbl st) (c_next st)" and "members_ok (proc_key st) (map cg_processes (c_groups st))"
    and "active_ok (proc_key st) (c_active_process st) (c_active_group st)"
    and "config_ok (length (c_groups st)) (c_root st) (c_leaders st) (c_grouptbl st) (c_rules st)"
  using assms by (simp_all add: cg_ok_def cg_shape_ok_def cg_shape_def)

lemma dom_key: "dom (proc_key st) = dom (c_procs st)"
  by (auto simp: proc_key_def dom_def)

lemma cg_live_key: "cg_live st a \<longleftrightarrow> proc_key st a \<noteq> None"
  by (simp add: cg_live_def proc_key_def)

lemma cg_live_dom: "cg_live st a \<longleftrightarrow> a \<in> dom (c_procs st)"
  by (simp add: cg_live_def dom_def)

lemma cg_table_ok_live:
  assumes "cg_table_ok (proc_key st) (c_proctbl st) nxt" and "\<forall>followers \<in> ran (c_leaders st). distinct followers"
  shows "table_live st"
  using assms by (auto simp: table_live_def cg_table_ok_def dom_key proc_key_def)

lemma cg_ok_live: "cg_ok st \<Longrightarrow> table_live st"
  by (rule cg_table_ok_live [OF cg_okD(1)]) (use cg_okD(4) in \<open>auto simp: config_ok_def\<close>)

lemma lookup_live: "cg_ok st \<Longrightarrow> proc_hash_lookup st pid = Some a \<Longrightarrow> cg_live st a"
  using lookup_Some(1) [of st pid a] cg_ok_live [of st] by (auto simp: table_live_def cg_live_def)

lemma member_live: "cg_ok st \<Longrightarrow> g < length (c_groups st) \<Longrightarrow> a \<in> set (cg_processes (c_groups st ! g)) \<Longrightarrow> cg_live st a"
  using cg_okD(2) [of st] by (auto simp: members_ok_def cg_live_key)

lemma active_live: "cg_ok st \<Longrightarrow> c_active_process st = Some a \<Longrightarrow> cg_live st a"
  using cg_okD(3) [of st] by (auto simp: active_ok_def cg_live_key)

subsection \<open>Operations that keep the shape\<close>

definition cg_calm :: "cg_context \<Rightarrow> cg_context \<Rightarrow> bool" where
  "cg_calm st st' \<longleftrightarrow> cg_shape st' = cg_shape st \<and> (\<forall>a t. tracer_of st' a = Some t \<longrightarrow> tracer_of st a = Some t)"

lemma cg_calm_refl [simp]: "cg_calm st st"
  by (simp add: cg_calm_def)

lemma cg_calm_trans: "cg_calm st st1 \<Longrightarrow> cg_calm st1 st2 \<Longrightarrow> cg_calm st st2"
  by (simp add: cg_calm_def)

lemma cg_calm_ok: "cg_calm st st' \<Longrightarrow> cg_ok st' = cg_ok st"
  by (simp add: cg_calm_def cg_ok_def)

lemma cg_calm_live: "cg_calm st st' \<Longrightarrow> cg_live st' a = cg_live st a"
  by (simp add: cg_calm_def cg_shape_def cg_live_key)

lemma cg_calm_ranked: "cg_calm st st' \<Longrightarrow> ranked rank st \<Longrightarrow> ranked rank st'"
  unfolding ranked_def cg_calm_def by blast

lemma cg_calm_loopfree: "cg_calm st st' \<Longrightarrow> loopfree st \<Longrightarrow> loopfree st'"
  unfolding loopfree_def by (blast intro: cg_calm_ranked)

lemma cg_calm_fields:
  assumes "cg_calm st st'"
  shows "c_proctbl st' = c_proctbl st" "c_active_process st' = c_active_process st" "c_root st' = c_root st"
    "c_rules st' = c_rules st" "c_grouptbl st' = c_grouptbl st" "length (c_groups st') = length (c_groups st)"
    "c_active_group st' = c_active_group st" "proc_key st' = proc_key st" "c_leaders st' = c_leaders st" "c_next st' = c_next st"
    "map cg_processes (c_groups st') = map cg_processes (c_groups st)"
  using assms map_eq_imp_length_eq by (auto simp: cg_calm_def cg_shape_def)

lemma moved_key: "moved part st st' \<Longrightarrow> proc_key st' = proc_key st"
proof
  fix a assume mv: "moved part st st'"
  show "proc_key st' a = proc_key st a"
  proof (cases "c_procs st a")
    case None then show ?thesis using moved_none [OF mv, of a] by (simp add: proc_key_def)
  next
    case (Some p)
    then obtain q where "c_procs st' a = Some q" "moved_process part p q" by (rule moved_get [OF mv])
    then show ?thesis by (simp add: proc_key_def Some moved_processD)
  qed
qed

lemma moved_calm: "moved part st st' \<Longrightarrow> cg_calm st st'"
  by (auto simp: cg_calm_def cg_shape_def moved_key moved_fields dest: moved_tracer)

lemma key_upd:
  assumes "\<And>p. cp_pid (f p) = cp_pid p" and "\<And>p. cp_group (f p) = cp_group p"
  shows "proc_key (upd_process a f st) = proc_key st"
  by (rule ext) (simp add: proc_key_def procs_upd assms option.map_comp comp_def)

lemma upd_process_fields [simp]:
  "c_proctbl (upd_process a f st) = c_proctbl st" "c_next (upd_process a f st) = c_next st"
  "c_groups (upd_process a f st) = c_groups st" "c_active_process (upd_process a f st) = c_active_process st"
  "c_active_group (upd_process a f st) = c_active_group st" "c_root (upd_process a f st) = c_root st"
  "c_leaders (upd_process a f st) = c_leaders st" "c_grouptbl (upd_process a f st) = c_grouptbl st"
  "c_rules (upd_process a f st) = c_rules st" "c_log (upd_process a f st) = c_log st"
  by (simp_all add: upd_process_def split: option.split)

lemma cg_calm_upd:
  assumes "\<And>p. cp_pid (f p) = cp_pid p" and "\<And>p. cp_group (f p) = cp_group p" and "\<And>p. cp_tracer (f p) = cp_tracer p"
  shows "cg_calm st (upd_process a f st)"
  by (simp add: cg_calm_def cg_shape_def key_upd [of f, OF assms(1,2)] tracer_of_upd [of f, OF assms(1,3)])

lemma cg_calm_upds [simp]:
  "cg_calm st (upd_process a (cp_prio_mode_update x1) st)" "cg_calm st (upd_process a (cp_priority_update x2) st)"
  "cg_calm st (upd_process a (cp_oom_mode_update x1) st)" "cg_calm st (upd_process a (cp_oom_adj_update x2) st)"
  "cg_calm st (upd_process a (cp_track_update x3) st)" "cg_calm st (upd_process a (cp_argv0_update x4) st)"
  "cg_calm st (upd_process a (\<lambda>p. p\<lparr>cp_binary := b, cp_name := n\<rparr>) st)" "cg_calm st (upd_process a (\<lambda>p. p\<lparr>cp_argvx := x5, cp_name := n\<rparr>) st)"
  by (rule cg_calm_upd; simp)+

text \<open>Updates of fields that neither the shape nor the tracers look at.\<close>

lemma tracer_of_cong:
  assumes "c_procs st' = c_procs st" and "c_proctbl st' = c_proctbl st"
  shows "tracer_of st' = tracer_of st"
proof
  fix a
  have "proc_hash_lookup st' pid = proc_hash_lookup st pid" for pid
    by (rule lookup_cong) (simp_all add: assms has_pid_def)
  then show "tracer_of st' a = tracer_of st a" by (simp add: tracer_of_def assms split: option.split)
qed

lemma cg_calm_same:
  assumes "c_procs st' = c_procs st" and "c_proctbl st' = c_proctbl st" and "c_next st' = c_next st"
    and "map cg_processes (c_groups st') = map cg_processes (c_groups st)"
    and "c_active_process st' = c_active_process st" and "c_active_group st' = c_active_group st"
    and "c_root st' = c_root st" and "c_leaders st' = c_leaders st" and "c_grouptbl st' = c_grouptbl st"
    and "c_rules st' = c_rules st"
  shows "cg_calm st st'"
proof -
  have "proc_key st' = proc_key st" by (rule ext) (simp add: proc_key_def assms(1))
  then show ?thesis using assms by (simp add: cg_calm_def cg_shape_def tracer_of_cong [OF assms(1,2)])
qed

lemma map_upd_group:
  assumes "\<And>g. cg_processes (f g) = cg_processes g"
  shows "map cg_processes ((c_groups st)[g := f (c_groups st ! g)]) = map cg_processes (c_groups st)"
  by (cases "g < length (c_groups st)") (simp_all add: map_update assms list_update_same_conv list_update_beyond)

lemma cg_calm_upd_group: "(\<And>g. cg_processes (f g) = cg_processes g) \<Longrightarrow> cg_calm st (upd_group g f st)"
  by (rule cg_calm_same) (simp_all add: upd_group_def map_upd_group)

lemma cg_calm_basic [simp]:
  "cg_calm st (c_note x st)" "cg_calm st (upd_part i f st)" "cg_calm st (st\<lparr>c_timers := ts\<rparr>)" "cg_calm st (st\<lparr>c_subscribers := ss\<rparr>)"
  "cg_calm st (st\<lparr>c_apptrack_update := b\<rparr>)" "cg_calm st (apptrack_cgroup_notify ng st)"
  by (rule cg_calm_same; simp add: c_note_def upd_part_def apptrack_cgroup_notify_def)+

lemma cg_calm_groups [simp]:
  "cg_calm st (upd_group g (cg_partition_update f1) st)" "cg_calm st (upd_group g (cg_reassign_update f2) st)"
  "cg_calm st (upd_group g (cg_priority_update f3) st)" "cg_calm st (upd_group g (cg_fact_update f4) st)"
  by (rule cg_calm_upd_group; simp)+


subsection \<open>Steps under a hazard\<close>

text \<open>
  \<open>H\<close> says that the environment has already done what can make the plugin crash; without it the tracers
  form no cycle and no process in use disappears.
\<close>

definition cg_good :: "bool \<Rightarrow> cg_context \<Rightarrow> bool" where
  "cg_good H st \<longleftrightarrow> cg_ok st \<and> (H \<or> loopfree st)"

definition next_ok :: "bool \<Rightarrow> cg_context \<Rightarrow> cg_context \<Rightarrow> bool" where
  "next_ok H st st' \<longleftrightarrow>
     cg_good H st' \<and> (H \<or> (\<forall>a. cg_live st a \<longrightarrow> cg_live st' a)) \<and> length (c_groups st') = length (c_groups st) \<and>
     c_rules st' = c_rules st"

lemma next_refl: "cg_good H st \<Longrightarrow> next_ok H st st"
  by (simp add: next_ok_def)

lemma next_trans: "next_ok H st st1 \<Longrightarrow> next_ok H st1 st2 \<Longrightarrow> next_ok H st st2"
  by (auto simp: next_ok_def)

lemma next_good: "next_ok H st st' \<Longrightarrow> cg_good H st'"
  by (simp add: next_ok_def)

lemma next_live: "next_ok H st st' \<Longrightarrow> H \<or> cg_live st a \<Longrightarrow> H \<or> cg_live st' a"
  by (auto simp: next_ok_def)

lemma cg_calm_good: "cg_calm st st' \<Longrightarrow> cg_good H st \<Longrightarrow> cg_good H st'"
  by (auto simp: cg_good_def cg_calm_ok cg_calm_loopfree)

lemma next_calm: "cg_calm st st' \<Longrightarrow> cg_good H st \<Longrightarrow> next_ok H st st'"
  by (simp add: next_ok_def cg_calm_good cg_calm_live cg_calm_fields)

lemma cg_good_ok: "cg_good H st \<Longrightarrow> cg_ok st"
  by (simp add: cg_good_def)

lemma outcome_process:
  assumes "H \<or> cg_live st a" and "\<And>p. c_procs st a = Some p \<Longrightarrow> outcome H P (f p)"
  shows "outcome H P (c_procs st a \<bind> f)"
  using assms by (cases "c_procs st a") (auto simp: cg_live_def)

lemma outcome_bind_pair:
  "outcome H (\<lambda>r. Q (snd r)) m \<Longrightarrow> (\<And>x y. m = Some (x, y) \<Longrightarrow> Q y \<Longrightarrow> outcome H P (f x y)) \<Longrightarrow>
    outcome H P (m \<bind> (\<lambda>(x, y). f x y))"
  by (cases m) (auto simp: outcome_def)

lemma outcome_calm_next:
  "outcome H (\<lambda>r. cg_calm st (snd r)) m \<Longrightarrow> cg_good H st \<Longrightarrow> outcome H (\<lambda>r. next_ok H st (snd r)) m"
  by (erule outcome_mono) (rule next_calm)

lemma outcome_next_mono:
  "outcome H (\<lambda>r. next_ok H s (snd r)) m \<Longrightarrow> next_ok H st s \<Longrightarrow> outcome H (\<lambda>r. next_ok H st (snd r)) m"
  by (erule outcome_mono) (rule next_trans)

subsection \<open>Moves and priorities\<close>

lemma partition_add_ok:
  assumes "H \<or> table_live st \<and> loopfree st \<and> cg_live st a"
  shows "outcome H (\<lambda>r. cg_calm st (snd r)) (partition_add_process E part a st)"
proof (cases "partition_add_process E part a st")
  case None
  have H
  proof (rule ccontr)
    assume "\<not> H"
    with assms obtain rank where "table_live st" "ranked rank st" "a \<in> dom (c_procs st)"
      by (auto simp: loopfree_def cg_live_dom)
    with partition_add_returns [of st rank a E part] None show False by simp
  qed
  with None show ?thesis by simp
next
  case (Some r)
  then show ?thesis using partition_add_moved [of E part a st "fst r" "snd r"] by (simp add: moved_calm)
qed

lemma adjust_priority_ok:
  assumes "H \<or> cg_live st a"
  shows "outcome H (\<lambda>r. cg_calm st (snd r)) (process_adjust_priority E a adjust v st)"
proof -
  have calm3: "cg_calm st (c_note x (upd_process a (cp_priority_update f) (upd_process a (cp_prio_mode_update g) st)))" for x f g
    by (rule cg_calm_trans [OF cg_calm_upds(1)], rule cg_calm_trans [OF cg_calm_upds(2)], rule cg_calm_basic)
  show ?thesis unfolding process_adjust_priority_def
    by (rule outcome_process [OF assms]) (auto simp: Let_def calm3 split: prod.split)
qed

lemma set_priority_ok:
  assumes "H \<or> cg_live st a"
  shows "outcome H (\<lambda>r. cg_calm st (snd r)) (process_set_priority E a priority preserve st)"
  unfolding process_set_priority_def
  by (rule outcome_process [OF assms]) (auto simp: adjust_priority_ok [OF assms])

lemma adjust_oom_ok:
  assumes "H \<or> cg_live st a"
  shows "outcome H (\<lambda>r. cg_calm st (snd r)) (process_adjust_oom E a adjust v st)"
proof -
  have calm2: "cg_calm st (upd_process a (cp_oom_adj_update f) (upd_process a (cp_oom_mode_update g) st))" for f g
    by (rule cg_calm_trans [OF cg_calm_upds(3)], rule cg_calm_upds)
  then have calm3: "cg_calm st (c_note x (upd_process a (cp_oom_adj_update f) (upd_process a (cp_oom_mode_update g) st)))" for x f g
    by (rule cg_calm_trans) (rule cg_calm_basic)
  show ?thesis unfolding process_adjust_oom_def
    by (rule outcome_process [OF assms]) (auto simp: Let_def calm2 calm3 split: prod.split oom_file.split)
qed

lemma track_ok:
  assumes "H \<or> cg_live st a"
  shows "outcome H (\<lambda>r. cg_calm st (snd r)) (process_track_add a target evs st)"
    and "outcome H (cg_calm st) (process_track_del a target evs st)"
    and "outcome H (cg_calm st) (process_track_notify a event st)"
  unfolding process_track_add_def process_track_del_def process_track_notify_def
  by (rule outcome_process [OF assms]; auto simp: Let_def split: option.split)+

lemma for_processes_ok:
  assumes "\<And>a s. a \<in> set as \<Longrightarrow> cg_calm st s \<Longrightarrow> outcome H (\<lambda>r. cg_calm s (snd r)) (f a s)"
  shows "cg_calm st s \<Longrightarrow> outcome H (\<lambda>r. cg_calm st (snd r)) (for_processes f as ok s)"
  using assms
proof (induction as arbitrary: ok s)
  case (Cons a as)
  show ?case unfolding for_processes.simps
  proof (rule outcome_bind_pair [where Q = "cg_calm st"])
    show "outcome H (\<lambda>r. cg_calm st (snd r)) (f a s)"
      using Cons.prems(2) [of a s] Cons.prems(1) by (auto intro: outcome_mono cg_calm_trans)
    fix ok' s' assume "cg_calm st s'"
    then show "outcome H (\<lambda>r. cg_calm st (snd r)) (for_processes f as (ok \<and> ok') s')"
      by (rule Cons.IH) (use Cons.prems in auto)
  qed
qed simp

text \<open>The processes of a group.\<close>

lemma group_processes_ok:
  assumes "cg_good H st" and "g < length (c_groups st)" and "cg_calm st s"
    and "\<And>a s. H \<or> cg_live s a \<Longrightarrow> outcome H (\<lambda>r. cg_calm s (snd r)) (f a s)"
  shows "outcome H (\<lambda>r. cg_calm st (snd r)) (for_processes f (cg_processes (c_groups s ! g)) ok s)"
proof (rule for_processes_ok [OF _ assms(3)])
  fix a t assume a: "a \<in> set (cg_processes (c_groups s ! g))" and t: "cg_calm st t"
  have "cg_processes (c_groups s ! g) = cg_processes (c_groups st ! g)"
    using cg_calm_fields(6,11) [OF assms(3)] assms(2) by (metis nth_map)
  then have "cg_live st a" using member_live [OF cg_good_ok [OF assms(1)] assms(2)] a by simp
  then show "outcome H (\<lambda>r. cg_calm t (snd r)) (f a t)" by (intro assms(4)) (simp add: cg_calm_live [OF t])
qed

lemma group_priority_ok:
  assumes "cg_good H st" and "g < length (c_groups st)"
  shows "outcome H (\<lambda>r. cg_calm st (snd r)) (group_set_priority E g priority preserve st)"
    and "outcome H (\<lambda>r. cg_calm st (snd r)) (group_adjust_priority E g adjust v st)"
    and "outcome H (\<lambda>r. cg_calm st (snd r)) (group_adjust_oom E g adjust v st)"
  unfolding group_set_priority_def group_adjust_priority_def group_adjust_oom_def Let_def
  by (auto intro!: outcome_if group_processes_ok [OF assms] set_priority_ok adjust_priority_ok adjust_oom_ok)

subsection \<open>Processes come and go\<close>

lemma find_append: "find P (xs @ ys) = (case find P xs of None \<Rightarrow> find P ys | Some x \<Rightarrow> Some x)"
  by (induction xs) simp_all

lemma cg_table_ok_add:
  assumes "cg_table_ok k tbl a"
  shows "cg_table_ok (k(a \<mapsto> (pid, g))) (tbl(proc_hash_bucket pid := tbl (proc_hash_bucket pid) @ [a])) (a + 1)"
proof -
  have fresh: "k a = None" using assms by (auto simp: cg_table_ok_def)
  then have "a \<notin> set (tbl i)" for i using assms by (auto simp: cg_table_ok_def)
  then show ?thesis using assms fresh by (auto simp: cg_table_ok_def less_Suc_eq)
qed

lemma members_ok_add: "members_ok k ms \<Longrightarrow> k a = None \<Longrightarrow> members_ok (k(a \<mapsto> (pid, None))) ms"
  unfolding members_ok_def by (intro conjI allI impI) (auto split: if_splits)

lemma active_ok_add: "active_ok k act actg \<Longrightarrow> k a = None \<Longrightarrow> active_ok (k(a \<mapsto> x)) act actg"
  by (auto simp: active_ok_def split: option.splits)

lemma cg_create_fields:
  assumes "process_create attr st = (a, st')"
  shows "a = c_next st" and "proc_key st' = (proc_key st)(a \<mapsto> (pa_pid attr, None))"
    and "c_proctbl st' = (c_proctbl st)(proc_hash_bucket (pa_pid attr) := c_proctbl st (proc_hash_bucket (pa_pid attr)) @ [a])"
    and "c_next st' = a + 1" and "c_groups st' = c_groups st" and "c_active_process st' = c_active_process st"
    and "c_active_group st' = c_active_group st" and "c_root st' = c_root st" and "c_leaders st' = c_leaders st"
    and "c_grouptbl st' = c_grouptbl st" and "c_rules st' = c_rules st"
    and "\<exists>p. c_procs st' = (c_procs st)(a \<mapsto> p) \<and> cp_pid p = pa_pid attr \<and> cp_tracer p = pa_tracer attr \<and>
          cp_group p = None"
  using assms by (auto simp: process_create_def Let_def proc_hash_insert_def proc_key_def fun_eq_iff)

lemma create_tracer:
  assumes ok: "cg_ok st" and new: "process_create attr st = (a, st')" and "pa_tracer attr = 0" and tr: "tracer_of st' x = Some t"
  shows "x \<noteq> a" and "t = a \<or> tracer_of st x = Some t"
proof -
  from cg_create_fields(12) [OF new] obtain p where procs: "c_procs st' = (c_procs st)(a \<mapsto> p)" and "cp_pid p = pa_pid attr"
    and "cp_tracer p = 0" using assms(3) by auto
  show xa: "x \<noteq> a" using tr procs \<open>cp_tracer p = 0\<close> by (auto simp: tracer_of_def)
  have fresh: "a \<notin> set (c_proctbl st i)" for i
    using cg_okD(1) [OF ok] cg_create_fields(1) [OF new] by (auto simp: cg_table_ok_def)
  have same: "has_pid st' pid b = has_pid st pid b" if "b \<noteq> a" for pid b
    using that by (simp add: has_pid_def procs)
  have old: "find (has_pid st' pid) (c_proctbl st i) = find (has_pid st pid) (c_proctbl st i)" for pid i
    by (rule find_cong [OF refl]) (metis fresh same)
  have lookup: "proc_hash_lookup st' pid = Some t \<Longrightarrow> t = a \<or> proc_hash_lookup st pid = Some t" for pid
    unfolding proc_hash_lookup_def cg_create_fields(3) [OF new]
    by (auto simp: find_append old split: option.splits if_splits)
  from tr xa procs obtain q where "c_procs st x = Some q" "cp_tracer q \<noteq> 0" "proc_hash_lookup st' (cp_tracer q) = Some t"
    by (auto simp: tracer_of_def split: option.splits if_splits)
  then show "t = a \<or> tracer_of st x = Some t" using lookup [of "cp_tracer q"] by (auto simp: tracer_of_def)
qed

lemma create_ok:
  assumes "cg_good H st" and new: "process_create attr st = (a, st')" and tr: "pa_tracer attr = 0"
  shows "next_ok H st st'" and "cg_live st' a" and "\<exists>p. c_procs st' a = Some p \<and> cp_group p = None"
proof -
  note f = cg_create_fields [OF new]
  have ok: "cg_ok st" using assms(1) by (rule cg_good_ok)
  have none: "proc_key st a = None" using cg_okD(1) [OF ok] f(1) by (auto simp: cg_table_ok_def)
  have "cg_ok st'"
    using cg_okD [OF ok] cg_table_ok_add [OF cg_okD(1) [OF ok], of "pa_pid attr" None] members_ok_add [OF cg_okD(2) [OF ok] none]
      active_ok_add [OF cg_okD(3) [OF ok] none] f(1)
    by (simp add: cg_ok_def cg_shape_ok_def cg_shape_def f(2-11))
  moreover have "loopfree st'" if "ranked rank st" for rank
  proof -
    have "ranked (\<lambda>x. if x = a then 0 else Suc (rank x)) st'"
      unfolding ranked_def using that create_tracer [OF ok new tr] by (fastforce simp: ranked_def)
    then show ?thesis by (auto simp: loopfree_def)
  qed
  moreover have "cg_live st b \<Longrightarrow> cg_live st' b" for b by (simp add: cg_live_key f(2))
  ultimately show "next_ok H st st'" using assms(1) by (auto simp: next_ok_def cg_good_def loopfree_def f(5,11))
  show "cg_live st' a" by (simp add: cg_live_key f(2))
  show "\<exists>p. c_procs st' a = Some p \<and> cp_group p = None" using f(12) by auto
qed

text \<open>A process changes its group.\<close>

definition regrouped :: "addr \<Rightarrow> nat option \<Rightarrow> nat \<Rightarrow> addr list list \<Rightarrow> addr list list" where
  "regrouped a old g ms =
     (let ms1 = (case old of None \<Rightarrow> ms | Some o1 \<Rightarrow> ms[o1 := remove1 a (ms ! o1)]) in ms1[g := ms1 ! g @ [a]])"

lemma cg_table_ok_regroup: "cg_table_ok k tbl nxt \<Longrightarrow> k a = Some (pid, old) \<Longrightarrow> cg_table_ok (k(a \<mapsto> (pid, g))) tbl nxt"
  unfolding cg_table_ok_def by (auto split: if_splits)

lemma active_ok_regroup:
  "active_ok k act actg \<Longrightarrow> k a = Some (pid, old) \<Longrightarrow>
    active_ok (k(a \<mapsto> (pid, g))) act (if act = Some a then g else actg)"
  by (auto simp: active_ok_def split: option.splits)

lemma members_ok_regroup:
  assumes ok: "members_ok k ms" and k: "k a = Some (pid, old)" and g: "g < length ms" "Some g \<noteq> old"
  shows "members_ok (k(a \<mapsto> (pid, Some g))) (regrouped a old g ms)"
proof -
  have notin: "a \<notin> set (ms ! g)" using ok k g by (auto simp: members_ok_def)
  have mem: "b \<in> set (ms ! h) \<longleftrightarrow> (\<exists>pid. k b = Some (pid, Some h))" and dist: "distinct (ms ! h)" if "h < length ms" for b h
    using ok that by (auto simp: members_ok_def)
  have old: "o1 < length ms" if "old = Some o1" for o1
    using ok k that by (auto simp: members_ok_def)
  have nth: "regrouped a old g ms ! h =
      (if h = g then ms ! g @ [a] else if old = Some h then remove1 a (ms ! h) else ms ! h)" if "h < length ms" for h
    using that g old by (cases old) (auto simp: regrouped_def Let_def nth_list_update)
  have len: "length (regrouped a old g ms) = length ms" by (simp add: regrouped_def Let_def split: option.split)
  show ?thesis
    unfolding members_ok_def len
  proof (intro conjI allI impI)
    fix h assume h: "h < length ms"
    show "distinct (regrouped a old g ms ! h)" using notin dist [OF h] by (auto simp: nth [OF h])
    fix b
    show "b \<in> set (regrouped a old g ms ! h) \<longleftrightarrow> (\<exists>pid'. (k(a \<mapsto> (pid, Some g))) b = Some (pid', Some h))"
      using mem [OF h] dist [OF h] k notin by (auto simp: nth [OF h])
  next
    fix b pid' h assume "(k(a \<mapsto> (pid, Some g))) b = Some (pid', Some h)"
    then show "h < length ms" using ok g(1) by (auto simp: members_ok_def split: if_splits)
  qed
qed

text \<open>\<open>entered a g p st s\<close>: from \<open>st\<close> to \<open>s\<close> the process \<open>p\<close> at \<open>a\<close> went into group \<open>g\<close>; the active group is as before.\<close>

definition entered :: "addr \<Rightarrow> nat \<Rightarrow> cg_process \<Rightarrow> cg_context \<Rightarrow> cg_context \<Rightarrow> bool" where
  "entered a g p st s \<longleftrightarrow>
     cg_shape s = ((proc_key st)(a \<mapsto> (cp_pid p, Some g)), c_proctbl st, c_next st,
       regrouped a (cp_group p) g (map cg_processes (c_groups st)), c_active_process st, c_active_group st, c_root st,
       c_leaders st, c_grouptbl st, c_rules st) \<and>
     (\<forall>b t. tracer_of s b = Some t \<longrightarrow> tracer_of st b = Some t)"

lemma entered_calm: "entered a g p st s \<Longrightarrow> cg_calm s s' \<Longrightarrow> entered a g p st s'"
  by (simp add: entered_def cg_calm_def)

lemma entered_fields:
  assumes "entered a g p st s"
  shows "c_active_process s = c_active_process st" "c_root s = c_root st" "c_proctbl s = c_proctbl st"
    "c_leaders s = c_leaders st" "proc_key s = (proc_key st)(a \<mapsto> (cp_pid p, Some g))" "c_next s = c_next st"
    "map cg_processes (c_groups s) = regrouped a (cp_group p) g (map cg_processes (c_groups st))"
    "c_grouptbl s = c_grouptbl st" "c_rules s = c_rules st" "c_active_group s = c_active_group st"
  using assms by (simp_all add: entered_def cg_shape_def)

lemma length_regrouped [simp]: "length (regrouped a old g ms) = length ms"
  by (simp add: regrouped_def Let_def split: option.split)

lemma entered_length: "entered a g p st s \<Longrightarrow> length (c_groups s) = length (c_groups st)"
  using entered_fields(7) by (metis length_map length_regrouped)

lemma key_cong: "c_procs s' = c_procs s \<Longrightarrow> proc_key s' = proc_key s"
  by (simp add: proc_key_def fun_eq_iff)

lemma cg_key_of: "c_procs st a = Some p \<Longrightarrow> proc_key st a = Some (cp_pid p, cp_group p)"
  by (simp add: proc_key_def)

lemma entered_live:
  assumes "cg_good H st" and "c_procs st a = Some p" and "entered a g p st s"
  shows "table_live s" and "H \<or> loopfree s" and "cg_live s b = cg_live st b"
proof -
  note f = entered_fields [OF assms(3)]
  have ok: "cg_ok st" using assms(1) by (rule cg_good_ok)
  show "table_live s"
  proof (rule cg_table_ok_live)
    show "cg_table_ok (proc_key s) (c_proctbl s) (c_next st)"
      unfolding f by (rule cg_table_ok_regroup [OF cg_okD(1) [OF ok] cg_key_of [OF assms(2)]])
    show "\<forall>followers \<in> ran (c_leaders s). distinct followers"
      using cg_okD(4) [OF ok] by (simp add: config_ok_def f)
  qed
  show "H \<or> loopfree s"
  proof -
    have "ranked rank s" if "ranked rank st" for rank
      using that assms(3) unfolding ranked_def entered_def by blast
    then show ?thesis using assms(1) by (auto simp: cg_good_def loopfree_def)
  qed
  show "cg_live s b = cg_live st b" using cg_key_of [OF assms(2)] by (simp add: cg_live_key f)
qed

lemma entered_done:
  assumes "cg_good H st" and p: "c_procs st a = Some p" and "g < length (c_groups st)" and "Some g \<noteq> cp_group p"
    and e: "entered a g p st s"
  defines "s' \<equiv> (if c_active_process s = Some a then apptrack_cgroup_notify (Some g) (s\<lparr>c_active_group := Some g\<rparr>) else s)"
  shows "next_ok H st s'"
proof -
  note f = entered_fields [OF e]
  have ok: "cg_ok st" using assms(1) by (rule cg_good_ok)
  have procs: "c_procs s' = c_procs s" "c_proctbl s' = c_proctbl s" "length (c_groups s') = length (c_groups s)"
    "c_rules s' = c_rules s"
    by (simp_all add: s'_def apptrack_cgroup_notify_def c_note_def)
  have "cg_shape s' = ((proc_key st)(a \<mapsto> (cp_pid p, Some g)), c_proctbl st, c_next st,
       regrouped a (cp_group p) g (map cg_processes (c_groups st)), c_active_process st,
       if c_active_process st = Some a then Some g else c_active_group st, c_root st,
       c_leaders st, c_grouptbl st, c_rules st)"
    unfolding cg_shape_def key_cong [OF procs(1)] by (simp add: s'_def f apptrack_cgroup_notify_def c_note_def)
  then have ok': "cg_ok s'"
    using cg_table_ok_regroup [OF cg_okD(1) [OF ok] cg_key_of [OF p], of "Some g"]
      members_ok_regroup [OF cg_okD(2) [OF ok] cg_key_of [OF p] _ assms(4)] assms(3)
      active_ok_regroup [OF cg_okD(3) [OF ok] cg_key_of [OF p], of "Some g"] cg_okD(4) [OF ok]
    by (simp add: cg_ok_def cg_shape_ok_def)
  have "tracer_of s' = tracer_of s" by (rule tracer_of_cong [OF procs(1,2)])
  then have "H \<or> loopfree s'" using entered_live(2) [OF assms(1) p e] by (simp add: loopfree_def ranked_def)
  moreover have "cg_live s' b = cg_live st b" for b
    using entered_live(3) [OF assms(1) p e, of b] by (simp add: cg_live_def procs)
  ultimately show ?thesis using ok' by (simp add: next_ok_def cg_good_def procs(3,4) entered_length [OF e] f)
qed

lemma upd_group_fields [simp]:
  "c_procs (upd_group g f st) = c_procs st" "c_proctbl (upd_group g f st) = c_proctbl st" "c_next (upd_group g f st) = c_next st"
  "c_active_process (upd_group g f st) = c_active_process st" "c_active_group (upd_group g f st) = c_active_group st"
  "c_root (upd_group g f st) = c_root st" "c_leaders (upd_group g f st) = c_leaders st"
  "c_grouptbl (upd_group g f st) = c_grouptbl st" "c_rules (upd_group g f st) = c_rules st"
  by (simp_all add: upd_group_def)

lemma groups_upd: "c_groups (upd_group g f st) = (c_groups st)[g := f (c_groups st ! g)]"
  by (simp add: upd_group_def)

lemma entered_regroup:
  assumes p: "c_procs st a = Some p" and g: "g < length (c_groups st)"
    and old: "\<And>old. cp_group p = Some old \<Longrightarrow> old < length (c_groups st)"
  defines "st1 \<equiv> (case cp_group p of None \<Rightarrow> st | Some old \<Rightarrow> fact_del_process old p (leave_group a old st))"
  shows "entered a g p st (fact_add_process E g p
    (upd_group g (cg_processes_update (\<lambda>ps. ps @ [a])) (upd_process a (cp_group_update (\<lambda>_. Some g)) st1)))"
proof -
  let ?st2 = "upd_group g (cg_processes_update (\<lambda>ps. ps @ [a])) (upd_process a (cp_group_update (\<lambda>_. Some g)) st1)"
  let ?st3 = "fact_add_process E g p ?st2"
  have st1: "c_procs st1 = c_procs st" "c_proctbl st1 = c_proctbl st" "c_next st1 = c_next st"
    "c_active_process st1 = c_active_process st" "c_active_group st1 = c_active_group st" "c_root st1 = c_root st"
    "c_leaders st1 = c_leaders st" "c_grouptbl st1 = c_grouptbl st" "c_rules st1 = c_rules st"
    by (simp_all add: st1_def fact_del_process_def leave_group_def split: option.split)
  have len: "length (c_groups st1) = length (c_groups st)"
    by (simp add: st1_def fact_del_process_def leave_group_def groups_upd split: option.split)
  have ms1: "map cg_processes (c_groups st1) =
      (case cp_group p of None \<Rightarrow> map cg_processes (c_groups st)
       | Some o1 \<Rightarrow> (map cg_processes (c_groups st))[o1 := remove1 a (map cg_processes (c_groups st) ! o1)])"
    using old by (auto simp: st1_def fact_del_process_def leave_group_def groups_upd map_update nth_list_update
      list_update_same_conv split: option.split)
  have ms: "map cg_processes (c_groups ?st3) = regrouped a (cp_group p) g (map cg_processes (c_groups st))"
    using g len by (simp add: fact_add_process_def groups_upd map_update regrouped_def ms1 [symmetric] Let_def
      map_upd_group list_update_same_conv nth_list_update)
  have key: "proc_key ?st3 = (proc_key st)(a \<mapsto> (cp_pid p, Some g))"
    by (rule ext) (simp add: proc_key_def fact_add_process_def procs_upd st1 p)
  have "tracer_of ?st3 = tracer_of (upd_process a (cp_group_update (\<lambda>_. Some g)) st1)"
    by (rule tracer_of_cong) (simp_all add: fact_add_process_def)
  moreover have "tracer_of (upd_process a (cp_group_update (\<lambda>_. Some g)) st1) b = tracer_of st b" for b
    using tracer_of_cong [OF st1(1,2)] by (subst tracer_of_upd) simp_all
  ultimately show ?thesis
    unfolding entered_def cg_shape_def ms key by (simp add: fact_add_process_def st1)
qed

lemma group_add_ok:
  assumes st: "cg_good H st" and a: "H \<or> cg_live st a" and g: "\<And>g. grp = Some g \<Longrightarrow> g < length (c_groups st)"
    and none: "H \<or> grp \<noteq> None \<or> (\<exists>p. c_procs st a = Some p \<and> cp_group p = None)"
  shows "outcome H (\<lambda>r. next_ok H st (snd r)) (group_add_process E grp a st)"
  unfolding group_add_process_def
proof (rule outcome_process [OF a])
  fix p assume p: "c_procs st a = Some p"
  have ok: "cg_ok st" using st by (rule cg_good_ok)
  have old: "old < length (c_groups st)" if "cp_group p = Some old" for old
    using cg_okD(2) [OF ok] cg_key_of [OF p] that by (auto simp: members_ok_def)
  show "outcome H (\<lambda>r. next_ok H st (snd r))
     (if grp = cp_group p then Some (True, st)
      else do { g \<leftarrow> grp;
                (success, st4) \<leftarrow> group_move E g (cp_group p) a (group_enter E g a p st);
                group_default_priority E g a success (group_activate g a st4) })"
  proof (cases "grp = cp_group p")
    case True then show ?thesis by (simp add: next_refl st)
  next
    case False
    show ?thesis
    proof (cases grp)
      case None
      then have H using none False p by auto
      then show ?thesis using None False by simp
    next
      case (Some g0)
      define st3 where "st3 = group_enter E g0 a p st"
      have e: "entered a g0 p st st3"
        unfolding st3_def group_enter_def Let_def by (rule entered_regroup [OF p g [OF Some] old])
      have move: "outcome H (\<lambda>r. entered a g0 p st (snd r)) (partition_add_process E part a st3)" for part
        by (rule outcome_mono [OF partition_add_ok])
          (use entered_live [OF st p e] p in \<open>auto simp: cg_live_def intro: entered_calm [OF e]\<close>)
      have "c_root st3 \<noteq> None" using cg_okD(4) [OF ok] by (simp add: config_ok_def entered_fields [OF e])
      then have moves: "outcome H (\<lambda>r. entered a g0 p st (snd r)) (group_move E g0 (cp_group p) a st3)"
        using move e by (auto simp: group_move_def split: option.split)
      have finish: "outcome H (\<lambda>r. next_ok H st (snd r)) (group_default_priority E g0 a success (group_activate g0 a st4))"
        if e4: "entered a g0 p st st4" for success st4
      proof -
        let ?st5 = "group_activate g0 a st4"
        have n5: "next_ok H st ?st5" unfolding group_activate_def
          by (rule entered_done [OF st p g [OF Some] _ e4]) (use False Some in simp)
        have "outcome H (\<lambda>r. next_ok H st (snd r)) (process_set_priority E a v w ?st5)" for v w
          by (rule outcome_next_mono [OF outcome_calm_next [OF set_priority_ok [OF next_live [OF n5 a]] next_good [OF n5]] n5])
        then show ?thesis unfolding group_default_priority_def
          by (intro outcome_if outcome_bind_pair [where Q = "next_ok H st"]) (simp_all add: n5)
      qed
      have "outcome H (\<lambda>r. next_ok H st (snd r))
        (do { (success, st4) \<leftarrow> group_move E g0 (cp_group p) a st3; group_default_priority E g0 a success (group_activate g0 a st4) })"
        by (rule outcome_bind_pair [where Q = "entered a g0 p st", OF moves]) (rule finish)
      then show ?thesis using False Some by (simp add: st3_def)
    qed
  qed
qed

text \<open>A process leaves.\<close>

lemma cg_table_ok_del:
  assumes "cg_table_ok k tbl nxt"
  shows "cg_table_ok (k(a := None)) (\<lambda>i. remove1 a (tbl i)) nxt"
  using assms unfolding cg_table_ok_def by (auto split: if_splits)

lemma members_ok_del:
  assumes "members_ok k ms" and "k a = Some (pid, old)"
  shows "members_ok (k(a := None)) (case old of None \<Rightarrow> ms | Some g \<Rightarrow> ms[g := remove1 a (ms ! g)])"
proof -
  have mem: "b \<in> set (ms ! h) \<longleftrightarrow> (\<exists>pid. k b = Some (pid, Some h))" and dist: "distinct (ms ! h)" if "h < length ms" for b h
    using assms(1) that by (auto simp: members_ok_def)
  have nth: "(case old of None \<Rightarrow> ms | Some g \<Rightarrow> ms[g := remove1 a (ms ! g)]) ! h =
      (if old = Some h then remove1 a (ms ! h) else ms ! h)" if "h < length ms" for h
    using that by (cases old) (auto simp: nth_list_update)
  have len: "length (case old of None \<Rightarrow> ms | Some g \<Rightarrow> ms[g := remove1 a (ms ! g)]) = length ms"
    by (simp split: option.split)
  show ?thesis
    unfolding members_ok_def len
  proof (intro conjI allI impI)
    fix h assume h: "h < length ms"
    show "distinct ((case old of None \<Rightarrow> ms | Some g \<Rightarrow> ms[g := remove1 a (ms ! g)]) ! h)"
      using dist [OF h] by (auto simp: nth [OF h])
    fix b
    show "b \<in> set ((case old of None \<Rightarrow> ms | Some g \<Rightarrow> ms[g := remove1 a (ms ! g)]) ! h) \<longleftrightarrow>
        (\<exists>pid'. (k(a := None)) b = Some (pid', Some h))"
      using mem [OF h] dist [OF h] assms(2) by (auto simp: nth [OF h])
  next
    fix b pid' h assume "(k(a := None)) b = Some (pid', Some h)"
    then show "h < length ms" using assms(1) by (auto simp: members_ok_def split: if_splits)
  qed
qed

lemma remove_ok:
  assumes ok: "cg_ok st" and "cg_live st a"
  shows "returns (\<lambda>s. cg_ok s \<and> length (c_groups s) = length (c_groups st) \<and> c_rules s = c_rules st) (process_remove a st)"
proof -
  from assms(2) obtain p where p: "c_procs st a = Some p" by (auto simp: cg_live_def)
  define st1 where "st1 = (if c_active_process st = Some a
    then let s = st\<lparr>c_active_process := None, c_active_group := None\<rparr>
         in if cp_group p \<noteq> None then apptrack_cgroup_notify None s else s
    else st)"
  have st1: "c_procs st1 = c_procs st" "c_proctbl st1 = c_proctbl st" "c_next st1 = c_next st" "c_groups st1 = c_groups st"
    "c_root st1 = c_root st" "c_leaders st1 = c_leaders st" "c_grouptbl st1 = c_grouptbl st" "c_rules st1 = c_rules st"
    "c_active_process st1 = (if c_active_process st = Some a then None else c_active_process st)"
    "c_active_group st1 = (if c_active_process st = Some a then None else c_active_group st)"
    by (simp_all add: st1_def Let_def apptrack_cgroup_notify_def c_note_def)
  have "outcome False (cg_calm st1) (case cp_track p of None \<Rightarrow> Some st1 | Some tr \<Rightarrow> process_track_del a (tr_target tr) (tr_events tr) st1)"
    using p by (auto simp: cg_live_def st1 split: option.split intro!: track_ok)
  then obtain st2 where st2: "(case cp_track p of None \<Rightarrow> Some st1 | Some tr \<Rightarrow> process_track_del a (tr_target tr) (tr_events tr) st1) = Some st2"
    and cg_calm: "cg_calm st1 st2" by (auto simp: outcome_def split: option.splits)
  note f = cg_calm_fields [OF cg_calm]
  have key2: "proc_key st2 = proc_key st" using key_cong [OF st1(1)] by (simp add: f)
  with cg_key_of [OF p] have "proc_key st2 a = Some (cp_pid p, cp_group p)" by simp
  then obtain p2 where p2: "c_procs st2 a = Some p2" "cp_pid p2 = cp_pid p" "cp_group p2 = cp_group p"
    by (auto simp: proc_key_def)
  define st3 where "st3 = (case cp_group p of None \<Rightarrow> st2
    | Some g \<Rightarrow> leave_group a g (upd_process a (cp_group_update (\<lambda>_. None)) (fact_del_process g p2 st2)))"
  have st3: "c_proctbl st3 = c_proctbl st" "c_next st3 = c_next st" "c_root st3 = c_root st" "c_leaders st3 = c_leaders st"
    "c_grouptbl st3 = c_grouptbl st" "c_rules st3 = c_rules st" "c_active_process st3 = c_active_process st1"
    "c_active_group st3 = c_active_group st1"
    by (simp_all add: st3_def leave_group_def fact_del_process_def f st1 split: option.split)
  have procs3: "c_procs st3 b = c_procs st2 b" if "b \<noteq> a" for b
    using that by (simp add: st3_def leave_group_def fact_del_process_def procs_upd split: option.split)
  have ms2: "map cg_processes (c_groups st2) = map cg_processes (c_groups st)" by (simp add: f st1)
  have len2: "length (c_groups st2) = length (c_groups st)" by (simp add: f st1)
  have in_range: "g < length (c_groups st)" if "cp_group p = Some g" for g
    using cg_okD(2) [OF ok] cg_key_of [OF p] that by (auto simp: members_ok_def)
  have ms3: "map cg_processes (c_groups st3) = (case cp_group p of None \<Rightarrow> map cg_processes (c_groups st)
      | Some g \<Rightarrow> (map cg_processes (c_groups st))[g := remove1 a (map cg_processes (c_groups st) ! g)])"
    using in_range
    by (auto simp: st3_def leave_group_def fact_del_process_def groups_upd map_update ms2 [symmetric] len2
      list_update_same_conv nth_list_update split: option.split)
  let ?st5 = "(proc_hash_unhash a st3)\<lparr>c_procs := (c_procs (proc_hash_unhash a st3))(a := None)\<rparr>"
  have key5: "proc_key ?st5 = (proc_key st)(a := None)"
    using key2 procs3 by (auto simp: fun_eq_iff proc_key_def proc_hash_unhash_def)
  have act: "active_ok ((proc_key st)(a := None)) (c_active_process st1) (c_active_group st1)"
    using cg_okD(3) [OF ok] by (auto simp: active_ok_def st1 split: option.splits)
  have len5: "length (map cg_processes (c_groups st3)) = length (c_groups st)"
    unfolding ms3 by (simp split: option.split)
  have "cg_ok ?st5"
    using cg_table_ok_del [OF cg_okD(1) [OF ok], of a] members_ok_del [OF cg_okD(2) [OF ok] cg_key_of [OF p]] act cg_okD(4) [OF ok] len5
    unfolding cg_ok_def cg_shape_ok_def cg_shape_def key5
    by (simp add: proc_hash_unhash_def st3 ms3)
  moreover have "process_remove a st = Some ?st5"
  proof -
    have "process_remove a st = do { st2 \<leftarrow> (case cp_track p of None \<Rightarrow> Some st1
        | Some tr \<Rightarrow> process_track_del a (tr_target tr) (tr_events tr) st1); st3 \<leftarrow> group_del_process a st2;
        (let st4 = proc_hash_unhash a st3 in Some (st4\<lparr>c_procs := (c_procs st4)(a := None)\<rparr>)) }"
      unfolding process_remove_def p st1_def Let_def by (rule Option.bind_lunit)
    then show ?thesis
      unfolding st2 by (simp add: group_del_process_def p2 st3_def Let_def)
  qed
  ultimately show ?thesis using len5 by (simp add: proc_hash_unhash_def st3)
qed
end
