(* ===== verification/Cgrp_Steps.thy ===== *)
theory Cgrp_Steps
  imports Cgrp_Ok
begin

text \<open>
  Every step of the cgroups plugin keeps its invariant, and a step without a result has a hazard: an
  action that is put off without a delay, a timer of the last try, a decision without one of its
  strings, or tracers that form a cycle.
\<close>

subsection \<open>Reading attributes\<close>

text \<open>What is read from \<open>/proc\<close> leaves alone who the task is.\<close>

definition same_task :: "proc_attr \<Rightarrow> proc_attr \<Rightarrow> bool" where
  "same_task attr attr' \<longleftrightarrow> pa_process attr' = pa_process attr \<and> pa_tracer attr' = pa_tracer attr \<and>
     pa_retry attr' = pa_retry attr \<and> pa_pid attr' = pa_pid attr \<and> pa_byargvx attr' = pa_byargvx attr"

lemma same_task_refl [simp]: "same_task attr attr"
  by (simp add: same_task_def)

lemma same_task_trans: "same_task x y \<Longrightarrow> same_task y z \<Longrightarrow> same_task x z"
  by (simp add: same_task_def)

lemma same_task_reads [simp]:
  "same_task attr (snd (process_get_binary P attr))" "same_task attr (snd (process_get_argv P n attr))"
  "same_task attr (snd (process_get_cmdline P attr))" "same_task attr (snd (process_get_type P attr))"
  "same_task attr (snd (process_get_name P attr))" "same_task attr (snd (process_get_euid P attr))"
  "same_task attr (snd (process_get_egid P attr))" "same_task attr (snd (process_get_ppid P attr))"
  "same_task attr (snd (process_get_tgid P attr))"
  by (auto simp: same_task_def process_get_binary_def process_get_argv_def process_get_cmdline_def process_get_type_def
    process_get_name_def process_get_euid_def process_get_egid_def process_get_ppid_def process_get_tgid_def Let_def
    split: option.split prod.split)

lemma same_task_prop: "same_task attr (snd (prop_value P p v attr))"
  by (auto simp: prop_value_def Let_def split: cgrp_prop.split cgrp_value.split prod.split bool.split)

lemma same_task_expr: "same_task attr (snd (expr_eval P e attr))"
proof (induction e arbitrary: attr)
  case (Bool_and e1 e2)
  show ?case using Bool_and(1) [of attr] Bool_and(2) [of "snd (expr_eval P e1 attr)"]
    by (auto simp: split_beta intro: same_task_trans)
next
  case (Bool_or e1 e2)
  show ?case using Bool_or(1) [of attr] Bool_or(2) [of "snd (expr_eval P e1 attr)"]
    by (auto simp: split_beta intro: same_task_trans)
qed (simp_all add: split_beta prop_eval_def same_task_prop)

lemma stmts_eval_ok:
  "same_task attr (snd (stmts_eval P ss attr)) \<and> set (fst (stmts_eval P ss attr)) \<subseteq> (\<Union>s \<in> set ss. set (stmt_actions s))"
proof (induction ss arbitrary: attr)
  case (Cons s ss)
  show ?case
  proof (cases "stmt_expr s")
    case (Some e)
    then show ?thesis using Cons.IH [of "snd (expr_eval P e attr)"] same_task_expr [of attr P e]
      by (auto simp: split_beta intro: same_task_trans)
  qed simp
qed simp

lemma rule_eval_ok:
  shows "same_task attr (snd (rule_eval P r attr))" and "set (fst (rule_eval P r attr)) \<subseteq> rules_actions [r]"
  using stmts_eval_ok [of attr P "rule_statements r"] by (simp_all add: rule_eval_def rules_actions_def)

lemma rule_find_in: "rule_find rs ev eid = Some r \<Longrightarrow> r \<in> set rs"
  by (induction rs arbitrary: ev) (auto simp: Let_def split: if_splits event_type.splits option.splits)

lemma rules_actions_mono: "set rs \<subseteq> set rs' \<Longrightarrow> rules_actions rs \<subseteq> rules_actions rs'"
  by (auto simp: rules_actions_def)

lemma lookup_actions:
  assumes "rules_lookup R b = Some d" shows "rules_actions (def_rules d) \<subseteq> known_actions R"
proof -
  have "d \<in> ran (r_ruletbl R) \<or> d \<in> ran (r_addontbl R)"
    using assms by (auto simp: rules_lookup_def ran_def split: option.splits)
  then show ?thesis unfolding known_actions_def by blast
qed

lemma select_actions_ok:
  assumes "\<And>r. own = Some r \<Longrightarrow> rules_actions [r] \<subseteq> known_actions R"
  shows "same_task attr (snd (select_actions W R own attr))" and "set (fst (select_actions W R own attr)) \<subseteq> known_actions R"
proof -
  have fb: "set (fst (rule_eval W r attr')) \<subseteq> known_actions R" if "r_fallback R = r # rs" for r rs attr'
    using rule_eval_ok(2) [of W r attr'] rules_actions_mono [of "[r]" "r_fallback R"] that
    unfolding known_actions_def by (auto simp: subset_iff)
  show "same_task attr (snd (select_actions W R own attr))"
    by (auto simp: select_actions_def Let_def split_beta rule_eval_ok(1)
      intro: same_task_trans [OF rule_eval_ok(1) rule_eval_ok(1)] split: option.split list.split)
  show "set (fst (select_actions W R own attr)) \<subseteq> known_actions R"
  proof (cases own)
    case None
    then show ?thesis using fb by (auto simp: select_actions_def split: list.split)
  next
    case (Some r)
    have "set (fst (rule_eval W r attr)) \<subseteq> known_actions R" using rule_eval_ok(2) [of W r attr] assms [OF Some] by blast
    then show ?thesis using fb Some by (auto simp: select_actions_def Let_def split_beta split: list.split)
  qed
qed


subsection \<open>Actions\<close>

text \<open>A state in which a step may start: the invariant, and no rule that puts a task off for no time.\<close>

definition ready :: "bool \<Rightarrow> cg_context \<Rightarrow> bool" where
  "ready H st \<longleftrightarrow> cg_good H st \<and> (H \<or> Action_classify 0 \<notin> known_actions (c_rules st))"

definition task_ok :: "bool \<Rightarrow> cg_context \<Rightarrow> proc_attr \<Rightarrow> bool" where
  "task_ok H st attr \<longleftrightarrow> pa_tracer attr = 0 \<and> (H \<or> pa_retry attr < CGRP_RECLASSIFY_MAX) \<and>
     (\<forall>a. pa_process attr = Some a \<longrightarrow> H \<or> cg_live st a)"

definition action_ok :: "bool \<Rightarrow> cg_context \<Rightarrow> bool \<times> proc_attr \<times> cg_context \<Rightarrow> bool" where
  "action_ok H st r \<longleftrightarrow> next_ok H st (snd (snd r)) \<and> task_ok H (snd (snd r)) (fst (snd r))"

definition argvx_ok :: "bool \<Rightarrow> (int \<Rightarrow> proc_attr \<Rightarrow> cg_context \<Rightarrow> (bool \<times> proc_attr \<times> cg_context) option) \<Rightarrow> bool" where
  "argvx_ok H by_argvx \<longleftrightarrow>
     (\<forall>argn attr st. ready H st \<longrightarrow> task_ok H st attr \<longrightarrow> (H \<or> argn \<ge> 0) \<longrightarrow>
        outcome H (action_ok H st) (by_argvx argn attr st))"

lemma ready_good: "ready H st \<Longrightarrow> cg_good H st"
  by (simp add: ready_def)

lemma ready_ok: "ready H st \<Longrightarrow> cg_ok st"
  by (simp add: ready_def cg_good_def)

lemma next_ready: "ready H st \<Longrightarrow> next_ok H st st' \<Longrightarrow> ready H st'"
  by (auto simp: ready_def next_ok_def)

lemma task_next: "task_ok H st attr \<Longrightarrow> next_ok H st st' \<Longrightarrow> task_ok H st' attr"
  by (auto simp: task_ok_def next_ok_def)

lemma task_same: "task_ok H st attr \<Longrightarrow> same_task attr attr' \<Longrightarrow> task_ok H st attr'"
  by (simp add: task_ok_def same_task_def)

lemma action_okI: "next_ok H st st' \<Longrightarrow> task_ok H st attr \<Longrightarrow> action_ok H st (ok, attr, st')"
  by (simp add: action_ok_def task_next)

lemma ready_group: "ready H st \<Longrightarrow> Action_group g \<in> known_actions (c_rules st) \<Longrightarrow> g < length (c_groups st)"
  using cg_okD(4) [of st] by (auto simp: ready_def cg_good_def config_ok_def rules_ok_def groups_exist_def)

lemma action_group_ok:
  assumes st: "cg_good H st" and "pa_tracer attr = 0" and g: "g < length (c_groups st)"
  shows "outcome H (\<lambda>r. next_ok H st (snd r)) (action_group_exec E attr g st)"
proof -
  obtain a st1 where new: "(case proc_hash_lookup st (pa_pid attr) of Some a \<Rightarrow> (a, st) | None \<Rightarrow> process_create attr st) = (a, st1)"
    by fastforce
  have st1: "next_ok H st st1 \<and> cg_live st1 a"
  proof (cases "proc_hash_lookup st (pa_pid attr)")
    case None
    then have "process_create attr st = (a, st1)" using new by simp
    then show ?thesis using create_ok(1,2) [OF st _ assms(2)] by blast
  next
    case (Some b)
    then show ?thesis using new lookup_live [OF cg_good_ok [OF st]] next_refl [OF st] by auto
  qed
  have "outcome H (\<lambda>r. next_ok H st1 (snd r)) (group_add_process E (Some g) a st1)"
    by (rule group_add_ok) (use st1 g in \<open>auto simp: next_ok_def\<close>)
  then have "outcome H (\<lambda>r. next_ok H st (snd r)) (group_add_process E (Some g) a st1)"
    by (rule outcome_next_mono) (use st1 in simp)
  then show ?thesis
    unfolding action_group_exec_def new Let_def prod.case by (rule outcome_bind_pair) simp
qed

lemma follower_ok:
  assumes "cg_good H st" shows "next_ok H st (leader_add_follower l name st)"
proof -
  let ?st' = "leader_add_follower l name st"
  have same: "tracer_of ?st' = tracer_of st" by (rule tracer_of_cong) (simp_all add: leader_add_follower_def)
  have ok: "cg_ok st" using assms by (rule cg_good_ok)
  have "distinct (leader_append fs name)" if "distinct fs" for fs using that by (simp add: leader_append_def)
  then have dist: "\<forall>followers \<in> ran (c_leaders ?st'). distinct followers"
    using cg_okD(4) [OF ok] by (auto simp: config_ok_def leader_add_follower_def ran_def split: option.splits)
  have key: "proc_key ?st' = proc_key st" by (rule key_cong) (simp add: leader_add_follower_def)
  have "cg_ok ?st'"
    using cg_okD [OF ok] dist unfolding cg_ok_def cg_shape_ok_def cg_shape_def key prod.case config_ok_def
    by (simp add: leader_add_follower_def)
  then show ?thesis
    using assms same by (simp add: next_ok_def cg_good_def loopfree_def ranked_def cg_live_key key) (simp add: leader_add_follower_def)
qed

lemma leads_ok: "cg_good H st \<Longrightarrow> next_ok H st (action_leads_exec attr followers st)"
proof -
  assume "cg_good H st"
  moreover have "next_ok H st s \<Longrightarrow> next_ok H st (foldl (\<lambda>s name. leader_add_follower l name s) s followers)" for l s
  proof (induction followers arbitrary: s)
    case (Cons f fs)
    have "next_ok H st (leader_add_follower l f s)"
      by (rule next_trans [OF Cons.prems follower_ok]) (rule next_good [OF Cons.prems])
    then show ?case by (simp add: Cons.IH)
  qed simp
  ultimately show ?thesis by (simp add: action_leads_exec_def next_refl)
qed

lemma ignore_ok:
  assumes H and st: "cg_good H st" shows "outcome H (\<lambda>r. next_ok H st (snd r)) (process_ignore E a st)"
proof (cases "process_ignore E a st")
  case (Some r)
  then obtain root ok st1 st2 where root: "c_root st = Some root" and mv: "partition_add_process E root a st = Some (ok, st1)"
    and rm: "process_remove a st1 = Some st2" and r: "snd r = st2"
    by (auto simp: process_ignore_def bind_eq_Some_conv)
  have cg_calm: "cg_calm st st1" using partition_add_ok [of H st a E root] \<open>H\<close> mv by simp
  then have ok: "cg_ok st1" using st by (simp add: cg_calm_ok cg_good_def)
  have "cg_live st1 a" using rm by (auto simp: process_remove_def cg_live_def bind_eq_Some_conv)
  from remove_ok [OF ok this] rm have "cg_ok st2" "length (c_groups st2) = length (c_groups st1)" "c_rules st2 = c_rules st1"
    by (simp_all add: returns_def)
  then show ?thesis using \<open>H\<close> Some r by (simp add: next_ok_def cg_good_def cg_calm_fields [OF cg_calm])
qed (use \<open>H\<close> in simp)

lemma cg_timers_ok: "cg_good H st \<Longrightarrow> next_ok H st (st\<lparr>c_timers := ts\<rparr>)"
  by (rule next_calm) simp_all

lemma action_classify_ok:
  assumes "ready H st" and "task_ok H st attr" and "H \<or> delay \<noteq> 0" and "argvx_ok H by_argvx"
  shows "outcome H (action_ok H st) (action_classify_exec by_argvx E delay attr st)"
proof (cases "delay > 0")
  case False
  then show ?thesis using assms by (auto simp: action_classify_exec_def argvx_ok_def)
next
  case True
  have st: "cg_good H st" using assms(1) by (rule ready_good)
  show ?thesis
  proof (cases "pa_retry attr < CGRP_RECLASSIFY_MAX")
    case True
    then show ?thesis using \<open>delay > 0\<close> assms(2)
      by (simp add: action_classify_exec_def classify_schedule_def action_okI cg_timers_ok st)
  next
    case False
    then have H using assms(2) by (simp add: task_ok_def)
    have "outcome H (\<lambda>r. action_ok H st (True, attr, snd r)) (process_ignore E a st)" for a
      by (rule outcome_mono [OF ignore_ok [OF \<open>H\<close> st]]) (simp add: action_okI assms(2))
    then show ?thesis using \<open>delay > 0\<close> False
      by (auto simp: action_classify_exec_def action_okI assms(2) next_refl st split: option.split
        intro!: outcome_bind [where Q = "\<lambda>r. action_ok H st (True, attr, snd r)"])
  qed
qed

lemma note_ok: "cg_good H st \<Longrightarrow> next_ok H st (c_note x st)"
  by (rule next_calm) simp_all

lemma task_process: "task_ok H st attr \<Longrightarrow> pa_process attr = Some a \<Longrightarrow> H \<or> cg_live st a"
  by (simp add: task_ok_def)

lemma action_run_ok:
  assumes r: "ready H st" and t: "task_ok H st attr" and x: "x \<in> known_actions (c_rules st)" and av: "argvx_ok H by_argvx"
  shows "outcome H (action_ok H st) (action_run by_argvx E x attr st)"
proof -
  have st: "cg_good H st" using r by (rule ready_good)
  have wrap: "outcome H (action_ok H st) (map_option (\<lambda>(ok, st1). (ok, attr, st1)) m)"
    if "outcome H (\<lambda>r. next_ok H st (snd r)) m" for m
    using that by (auto simp: split_beta intro: action_okI t elim!: outcome_mono)
  show ?thesis
  proof (cases x)
    case (Action_group g)
    have "outcome H (\<lambda>r. next_ok H st (snd r)) (action_group_exec E attr g st)"
      by (rule action_group_ok [OF st]) (use t ready_group [OF r] x Action_group in \<open>auto simp: task_ok_def\<close>)
    from wrap [OF this] show ?thesis by (simp add: Action_group)
  next
    case (Action_classify delay)
    have "H \<or> delay \<noteq> 0" using r x Action_classify by (auto simp: ready_def)
    with action_classify_ok [OF r t _ av] show ?thesis by (simp add: Action_classify)
  next
    case (Action_priority adjust v)
    have "outcome H (\<lambda>r. next_ok H st (snd r)) (action_priority_exec E attr adjust v st)"
      using outcome_calm_next [OF adjust_priority_ok st] task_process [OF t]
      by (auto simp: action_priority_exec_def next_refl st split: option.split)
    from wrap [OF this] show ?thesis by (simp add: Action_priority)
  next
    case (Action_oom adjust v)
    have "outcome H (\<lambda>r. next_ok H st (snd r)) (action_oom_exec E attr adjust v st)"
      using outcome_calm_next [OF adjust_oom_ok st] task_process [OF t]
      by (auto simp: action_oom_exec_def next_refl st split: option.split)
    from wrap [OF this] show ?thesis by (simp add: Action_oom)
  qed (simp_all add: action_schedule_exec_def action_renice_exec_def Let_def action_okI t note_ok st leads_ok next_refl)
qed

lemma action_exec_ok:
  assumes "ready H st" and "task_ok H st attr" and "set xs \<subseteq> known_actions (c_rules st)" and av: "argvx_ok H by_argvx"
  shows "outcome H (action_ok H st) (action_exec by_argvx E xs ok attr st)"
  using assms(1-3)
proof (induction xs arbitrary: ok attr st)
  case Nil
  then show ?case by (simp add: action_okI next_refl ready_good)
next
  case (Cons x xs)
  show ?case unfolding action_exec.simps
  proof (rule outcome_bind [where Q = "action_ok H st"])
    show "outcome H (action_ok H st) (action_run by_argvx E x attr st)"
      by (rule action_run_ok [OF Cons.prems(1,2) _ av]) (use Cons.prems(3) in simp)
    fix r assume "action_ok H st r"
    moreover obtain ok1 attr1 st1 where r: "r = (ok1, attr1, st1)" by (cases r)
    ultimately have n: "next_ok H st st1" and t1: "task_ok H st1 attr1" by (simp_all add: action_ok_def)
    have "outcome H (action_ok H st1) (action_exec by_argvx E xs (ok \<and> ok1) attr1 st1)"
      using Cons.prems(3) n by (intro Cons.IH next_ready [OF Cons.prems(1) n] t1) (simp add: next_ok_def)
    then have "outcome H (action_ok H st) (action_exec by_argvx E xs (ok \<and> ok1) attr1 st1)"
      by (rule outcome_mono) (auto simp: action_ok_def intro: next_trans [OF n])
    then show "outcome H (action_ok H st) (case r of (ok1, attr1, st1) \<Rightarrow> action_exec by_argvx E xs (ok \<and> ok1) attr1 st1)"
      by (simp add: r)
  qed
qed

subsection \<open>Classification\<close>

lemma classify_rules_ok:
  assumes r: "ready H st" and t: "task_ok H st attr" and av: "argvx_ok H by_argvx"
  shows "outcome H (action_ok H st) (classify_rules by_argvx E event eid attr st)"
  unfolding classify_rules_def
proof (rule outcome_bind [where Q = "cg_calm st"])
  have st: "cg_good H st" using r by (rule ready_good)
  show "outcome H (cg_calm st) (case pa_process attr of None \<Rightarrow> Some st | Some a \<Rightarrow> process_track_notify a event st)"
    using track_ok(3) task_process [OF t] by (auto split: option.split)
  fix st1 assume "cg_calm st st1"
  then have n: "next_ok H st st1" by (rule next_calm) (rule st)
  then have r1: "ready H st1" and t1: "task_ok H st1 attr" by (rule next_ready [OF r], rule task_next [OF t])
  let ?own = "case rules_lookup (c_rules st1) (pa_binary attr) of None \<Rightarrow> None | Some d \<Rightarrow> rule_find (def_rules d) event eid"
  let ?sel = "select_actions (E (c_log st1)) (c_rules st1) ?own attr"
  have "rules_actions [r] \<subseteq> known_actions (c_rules st1)" if "?own = Some r" for r
  proof -
    from that obtain d where d: "rules_lookup (c_rules st1) (pa_binary attr) = Some d" "r \<in> set (def_rules d)"
      by (auto split: option.splits dest: rule_find_in)
    then show ?thesis using lookup_actions [OF d(1)] rules_actions_mono [of "[r]" "def_rules d"] by auto
  qed
  note sel = select_actions_ok [where own = ?own and R = "c_rules st1" and attr = attr and W = "E (c_log st1)", OF this]
  have t2: "task_ok H st1 (snd ?sel)" by (rule task_same [OF t1 sel(1)])
  have "outcome H (action_ok H st1) (action_exec by_argvx E (fst ?sel) True (snd ?sel) st1)"
    by (rule action_exec_ok [OF r1 t2 sel(2) av])
  then have ex: "outcome H (action_ok H st) (action_exec by_argvx E (fst ?sel) True (snd ?sel) st1)"
    by (rule outcome_mono) (auto simp: action_ok_def intro: next_trans [OF n])
  have stay: "action_ok H st (ok, attr', st1)" if "task_ok H st1 attr'" for ok attr'
    using n that by (simp add: action_ok_def)
  show "outcome H (action_ok H st)
     (let R = c_rules st1;
          own = (case rules_lookup R (pa_binary attr) of None \<Rightarrow> None | Some d \<Rightarrow> rule_find (def_rules d) event eid)
      in if own = None \<and> \<not> c_always_fallback st1 \<and> event \<in> needs_own_rule then Some (True, attr, st1)
         else let (acts, attr1) = select_actions (E (c_log st1)) R own attr
              in if acts = [] then Some (False, attr1, st1) else action_exec by_argvx E acts True attr1 st1)"
    using ex by (auto simp: Let_def split_beta stay t1 t2)
qed

lemma no_argvx_ok: "argvx_ok H no_argvx"
  by (simp add: argvx_ok_def no_argvx_def action_okI next_refl ready_good)

lemma task_lookup: "cg_ok st \<Longrightarrow> proc_hash_lookup st pid = Some a \<Longrightarrow> H \<or> cg_live st a"
  using lookup_live by blast

lemma task_argvx:
  assumes "task_ok H st attr"
  shows "task_ok H st (attr\<lparr>pa_binary := b, pa_byargvx := v\<rparr>)"
  using assms by (simp add: task_ok_def)

lemma task_found:
  assumes "task_ok H st attr" and "cg_ok st"
  shows "task_ok H st (if pa_process attr = None then attr\<lparr>pa_process := proc_hash_lookup st (pa_pid attr)\<rparr> else attr)"
  using assms task_lookup [OF assms(2), of "pa_pid attr"] by (auto simp: task_ok_def)

lemma argvx_tail_ok:
  assumes n: "next_ok H st st1" and t: "task_ok H st1 attr"
  shows "outcome H (action_ok H st)
    (case pa_process attr of
       None \<Rightarrow> Some (True, attr, st1)
     | Some a \<Rightarrow>
         do { p \<leftarrow> c_procs st1 a;
              Some (True, attr,
                if cp_argvx p = None
                then upd_process a (\<lambda>q. q\<lparr>cp_argvx := Some (pa_binary attr), cp_name := pa_binary attr\<rparr>) st1
                else st1) })"
proof (rule outcome_option)
  show "outcome H (action_ok H st) (Some (True, attr, st1))" using n t by (simp add: action_ok_def)
  fix a assume a: "pa_process attr = Some a"
  show "outcome H (action_ok H st) (do { p \<leftarrow> c_procs st1 a;
      Some (True, attr, if cp_argvx p = None
        then upd_process a (\<lambda>q. q\<lparr>cp_argvx := Some (pa_binary attr), cp_name := pa_binary attr\<rparr>) st1 else st1) })"
  proof (rule outcome_process [OF task_process [OF t a]])
    fix p
    have c: "cg_calm st1 (if cp_argvx p = None
        then upd_process a (\<lambda>q. q\<lparr>cp_argvx := Some (pa_binary attr), cp_name := pa_binary attr\<rparr>) st1 else st1)"
      by simp
    from next_calm [OF c next_good [OF n]] show "outcome H (action_ok H st) (Some (True, attr, if cp_argvx p = None
        then upd_process a (\<lambda>q. q\<lparr>cp_argvx := Some (pa_binary attr), cp_name := pa_binary attr\<rparr>) st1 else st1))"
      by (simp add: action_ok_def next_trans [OF n] task_next [OF t])
  qed
qed

lemma by_argvx_ok: "argvx_ok H (classify_by_argvx E)"
  unfolding argvx_ok_def
proof (intro allI impI)
  fix argn :: int and attr st assume r: "ready H st" and t: "task_ok H st attr" and n: "H \<or> 0 \<le> argn"
  let ?attr1 = "snd (process_get_argv (E (c_log st)) CGRP_MAX_ARGS attr)"
  let ?attr2 = "?attr1\<lparr>pa_binary := (if argn \<ge> int (pa_argc ?attr1) then ''<none>'' else pa_argv ?attr1 ! nat argn),
                       pa_byargvx := True\<rparr>"
  have t1: "task_ok H st ?attr1" by (rule task_same [OF t]) simp
  have stay: "action_ok H st (False, attr', st)" if "task_ok H st attr'" for attr'
    using that by (simp add: action_okI next_refl ready_good [OF r])
  let ?tail = "\<lambda>r. case r of (ok, attr3, st1) \<Rightarrow>
      if \<not> ok then Some (False, attr3, st1)
      else let attr4 = (if pa_process attr3 = None then attr3\<lparr>pa_process := proc_hash_lookup st1 (pa_pid attr3)\<rparr> else attr3)
           in case pa_process attr4 of
                None \<Rightarrow> Some (True, attr4, st1)
              | Some a \<Rightarrow>
                  do { p \<leftarrow> c_procs st1 a;
                       Some (True, attr4,
                         if cp_argvx p = None
                         then upd_process a (\<lambda>q. q\<lparr>cp_argvx := Some (pa_binary attr4), cp_name := pa_binary attr4\<rparr>) st1
                         else st1) }"
  have tail: "outcome H (action_ok H st) (?tail r)" if "action_ok H st r" for r
  proof -
    obtain ok attr3 st1 where r: "r = (ok, attr3, st1)" by (cases r)
    with that have n1: "next_ok H st st1" and t3: "task_ok H st1 attr3" by (simp_all add: action_ok_def)
    have t4: "task_ok H st1 (if pa_process attr3 = None then attr3\<lparr>pa_process := proc_hash_lookup st1 (pa_pid attr3)\<rparr> else attr3)"
      by (rule task_found [OF t3 cg_good_ok [OF next_good [OF n1]]])
    show ?thesis unfolding r prod.case Let_def
      by (rule outcome_if [OF _ argvx_tail_ok [OF n1 t4]]) (simp add: action_ok_def n1 t3)
  qed
  have "outcome H (action_ok H st) (classify_rules no_argvx E EVENT_EXEC 0 ?attr2 st)"
    by (rule classify_rules_ok [OF r task_argvx [OF t1] no_argvx_ok])
  then have main: "outcome H (action_ok H st) (classify_rules no_argvx E EVENT_EXEC 0 ?attr2 st \<bind> ?tail)"
    by (rule outcome_bind) (rule tail)
  have guard: "outcome H (action_ok H st)
      (if argn < 0 then None else classify_rules no_argvx E EVENT_EXEC 0 ?attr2 st \<bind> ?tail)"
    using main n by auto
  have no: "outcome H (action_ok H st) (no_argvx argn attr st)" by (simp add: no_argvx_def stay t)
  show "outcome H (action_ok H st) (classify_by_argvx E argn attr st)"
  proof (cases "pa_byargvx attr")
    case True then show ?thesis using no by (simp add: classify_by_argvx_def)
  next
    case False
    obtain b attr1 where got: "process_get_argv (E (c_log st)) CGRP_MAX_ARGS attr = (b, attr1)" by (rule prod.exhaust)
    show ?thesis
    proof (cases b)
      case True
      have eq: "classify_by_argvx E argn attr st =
          (if argn < 0 then None else classify_rules no_argvx E EVENT_EXEC 0 ?attr2 st \<bind> ?tail)"
        using False got True by (simp add: classify_by_argvx_def Let_def cong: if_cong)
      show ?thesis unfolding eq by (rule guard)
    next
      case no: False
      then show ?thesis using False stay t1 by (simp add: classify_by_argvx_def got)
    qed
  qed
qed

lemma by_rules_ok:
  assumes "ready H st" and "task_ok H st attr"
  shows "outcome H (\<lambda>r. next_ok H st (snd r)) (classify_by_rules E event eid attr st)"
  using classify_rules_ok [OF assms by_argvx_ok, of E E event eid]
  by (auto simp: classify_by_rules_def action_ok_def elim!: outcome_mono)

lemma fresh_task: "H \<or> retry < CGRP_RECLASSIFY_MAX \<Longrightarrow> task_ok H st (zero_attr\<lparr>pa_pid := pid, pa_retry := retry\<rparr>)"
  by (simp add: task_ok_def zero_attr_def)

lemma task_known:
  assumes "task_ok H st attr" and "H \<or> cg_live st a"
  shows "task_ok H st (attr\<lparr>pa_process := Some a\<rparr>)"
  using assms by (simp add: task_ok_def)

lemma by_binary_ok:
  assumes r: "ready H st" and retry: "H \<or> reclassify < CGRP_RECLASSIFY_MAX"
  shows "outcome H (\<lambda>r. next_ok H st (snd r)) (classify_by_binary E pid reclassify st)"
proof -
  have st: "cg_good H st" and ok: "cg_ok st" using r by (auto intro: ready_good ready_ok)
  let ?attr = "zero_attr\<lparr>pa_pid := pid, pa_retry := reclassify\<rparr>"
  have t: "task_ok H st ?attr" by (rule fresh_task [OF retry])
  show ?thesis
  proof (cases "proc_hash_lookup st pid")
    case None
    obtain b attr1 where got: "process_get_binary (E (c_log st)) ?attr = (b, attr1)" by (rule prod.exhaust)
    show ?thesis
    proof (cases b)
      case False
      then show ?thesis using got None by (simp add: classify_by_binary_def next_refl st)
    next
      case True
      let ?attr2 = "snd (process_get_tgid (E (c_log st)) attr1)"
      obtain a st1 where new: "process_create ?attr2 st = (a, st1)" by (rule prod.exhaust)
      have s1: "same_task ?attr attr1" using same_task_reads(1) [of ?attr "E (c_log st)"] by (simp add: got)
      have t2: "task_ok H st ?attr2"
        by (rule task_same [OF t]) (rule same_task_trans [OF s1], simp)
      then have tr: "pa_tracer ?attr2 = 0" by (simp add: task_ok_def)
      note c = create_ok [OF st new tr]
      have "outcome H (\<lambda>r. next_ok H st1 (snd r)) (classify_by_rules E EVENT_EXEC 0 (?attr2\<lparr>pa_process := Some a\<rparr>) st1)"
        by (rule by_rules_ok [OF next_ready [OF r c(1)] task_known [OF task_next [OF t2 c(1)]]]) (simp add: c(2))
      then have "outcome H (\<lambda>r. next_ok H st (snd r)) (classify_by_rules E EVENT_EXEC 0 (?attr2\<lparr>pa_process := Some a\<rparr>) st1)"
        by (rule outcome_next_mono) (rule c(1))
      then show ?thesis using True got None by (simp add: classify_by_binary_def new Let_def)
    qed
  next
    case (Some a)
    have "outcome H (\<lambda>r. next_ok H st (snd r)) (do { p \<leftarrow> c_procs st a; classify_by_rules E EVENT_EXEC 0
        (?attr\<lparr>pa_process := Some a, pa_binary := cp_binary p, pa_tgid := cp_tgid p, pa_mask := {Proc_tgid, Proc_binary}\<rparr>) st })"
      using t task_lookup [OF ok Some, of H] by (auto intro!: outcome_process by_rules_ok r simp: task_ok_def)
    then show ?thesis using Some by (simp add: classify_by_binary_def Let_def)
  qed
qed

lemma by_process_ok:
  assumes st: "cg_good H st"
  shows "outcome H (\<lambda>r. next_ok H st (snd r)) (classify_by_process E pid tgid ppid st)"
proof (cases "proc_hash_lookup st ppid")
  case None
  then show ?thesis by (simp add: classify_by_process_def next_refl st)
next
  case (Some c)
  have ok: "cg_ok st" using st by (rule cg_good_ok)
  have "outcome H (\<lambda>r. next_ok H st (snd r))
    (let (a, st1) = process_create (zero_attr\<lparr>pa_pid := pid, pa_tgid := tgid, pa_binary := cp_binary classified,
        pa_mask := {Proc_tgid, Proc_binary}\<rparr>) st
     in do { (ok, st2) \<leftarrow> group_add_process E (cp_group classified) a st1; Some (True, st2) })"
    if cl: "c_procs st c = Some classified" for classified
  proof -
    let ?attr = "zero_attr\<lparr>pa_pid := pid, pa_tgid := tgid, pa_binary := cp_binary classified, pa_mask := {Proc_tgid, Proc_binary}\<rparr>"
    obtain a st1 where new: "process_create ?attr st = (a, st1)" by (rule prod.exhaust)
    have tr: "pa_tracer ?attr = 0" by (simp add: zero_attr_def)
    note cr = create_ok [OF st new tr]
    have g: "g < length (c_groups st1)" if "cp_group classified = Some g" for g
      using cg_okD(2) [OF ok] cg_key_of [OF cl] cr(1) that by (auto simp: members_ok_def next_ok_def)
    have "outcome H (\<lambda>r. next_ok H st1 (snd r)) (group_add_process E (cp_group classified) a st1)"
      by (rule group_add_ok [OF next_good [OF cr(1)]]) (use g cr(2,3) in auto)
    then have "outcome H (\<lambda>r. next_ok H st (snd r)) (group_add_process E (cp_group classified) a st1)"
      by (rule outcome_next_mono) (rule cr(1))
    then show ?thesis unfolding new Let_def prod.case by (rule outcome_bind_pair) simp
  qed
  then show ?thesis
    unfolding classify_by_process_def Some option.case by (rule outcome_process [OF task_lookup [OF ok Some]])
qed

lemma tracer_ok: "cg_ok (upd_process a (cp_tracer_update f) st) = cg_ok st"
  by (simp add: cg_ok_def cg_shape_def key_upd)

lemma by_tracee_ok:
  assumes r: "ready H st"
  shows "outcome H (\<lambda>r. cg_ok (snd r)) (classify_by_tracee E tracee pid tgid st)"
proof (cases "proc_hash_lookup st tracee")
  case None
  then show ?thesis by (simp add: classify_by_tracee_def ready_ok [OF r])
next
  case (Some a)
  have cg_live: "H \<or> cg_live st a" by (rule task_lookup [OF ready_ok [OF r] Some])
  have attach: "outcome H (\<lambda>r. cg_ok (snd r)) (do { (ok, st1) \<leftarrow> classify_by_process E pid tgid tracee st;
      if \<not> ok then Some (False, st1)
      else do { p \<leftarrow> c_procs st1 a; Some (True, upd_process a (cp_tracer_update (\<lambda>_. tgid)) st1) } })"
  proof (rule outcome_bind_pair [OF by_process_ok [OF ready_good [OF r]]])
    fix ok st1 assume n: "next_ok H st st1"
    then have "cg_ok st1" by (simp add: next_ok_def cg_good_def)
    then show "outcome H (\<lambda>r. cg_ok (snd r)) (if \<not> ok then Some (False, st1)
      else do { p \<leftarrow> c_procs st1 a; Some (True, upd_process a (cp_tracer_update (\<lambda>_. tgid)) st1) })"
      using next_live [OF n cg_live] by (auto intro!: outcome_process simp: tracer_ok)
  qed
  have detach: "outcome H (\<lambda>r. cg_ok (snd r)) (do { p \<leftarrow> c_procs st a;
      if cp_tracer p = 0 then Some (True, st)
      else do { (ok, st1) \<leftarrow> classify_by_binary E (cp_tracer p) 0 st;
                q \<leftarrow> c_procs st1 a;
                Some (True, upd_process a (cp_tracer_update (\<lambda>_. 0)) st1) } })"
  proof (rule outcome_process [OF cg_live], rule outcome_if)
    show "outcome H (\<lambda>r. cg_ok (snd r)) (Some (True, st))" using ready_ok [OF r] by simp
    fix p
    have zero: "H \<or> 0 < CGRP_RECLASSIFY_MAX" by (simp add: CGRP_RECLASSIFY_MAX_def)
    show "outcome H (\<lambda>r. cg_ok (snd r)) (do { (ok, st1) \<leftarrow> classify_by_binary E (cp_tracer p) 0 st;
                q \<leftarrow> c_procs st1 a; Some (True, upd_process a (cp_tracer_update (\<lambda>_. 0)) st1) })"
    proof (rule outcome_bind_pair [OF by_binary_ok [OF r zero]])
      fix ok st1 assume n: "next_ok H st st1"
      then have "cg_ok st1" by (simp add: next_ok_def cg_good_def)
      then show "outcome H (\<lambda>r. cg_ok (snd r)) (do { q \<leftarrow> c_procs st1 a; Some (True, upd_process a (cp_tracer_update (\<lambda>_. 0)) st1) })"
        using next_live [OF n cg_live] by (auto intro!: outcome_process simp: tracer_ok)
    qed
  qed
  show ?thesis unfolding classify_by_tracee_def Some option.case
    by (rule outcome_if) (rule attach, rule detach)
qed

lemma identity_ok:
  assumes r: "ready H st"
  shows "outcome H (\<lambda>r. next_ok H st (snd r)) (classify_identity E ev st)"
proof -
  have st: "cg_good H st" using r by (rule ready_good)
  let ?found = "proc_hash_lookup st (ev_pid ev)"
  let ?attr = "zero_attr\<lparr>pa_pid := ev_pid ev, pa_tgid := ev_tgid ev, pa_process := ?found\<rparr>"
  obtain b attr1 where got: "process_get_binary (E (c_log st)) ?attr = (b, attr1)" by (rule prod.exhaust)
  have "task_ok H st ?attr"
    using task_lookup [OF ready_ok [OF r]] by (auto simp: task_ok_def zero_attr_def CGRP_RECLASSIFY_MAX_def)
  then have t: "task_ok H st attr1"
    by (rule task_same) (use same_task_reads(1) [of ?attr "E (c_log st)"] in \<open>simp add: got\<close>)
  define st1 where "st1 = (case ?found of
      Some a \<Rightarrow> (if ev_type ev = EVENT_EXEC
        then upd_process a (\<lambda>p. p\<lparr>cp_binary := pa_binary attr1, cp_name := pa_binary attr1\<rparr>) st else st)
    | None \<Rightarrow> st)"
  have n: "next_ok H st st1"
    by (rule next_calm [OF _ st]) (simp add: st1_def split: option.split)
  have "outcome H (\<lambda>r. next_ok H st (snd r)) (classify_by_rules E (ev_type ev) (ev_eid ev) attr1 st1)"
    by (rule outcome_next_mono [OF by_rules_ok [OF next_ready [OF r n] task_next [OF t n]] n])
  then show ?thesis
    by (cases b) (simp_all add: classify_identity_def Let_def got next_refl st st1_def [symmetric])
qed

lemma remove_by_pid_ok:
  assumes ok: "cg_ok st" shows "returns (\<lambda>r. cg_ok (snd r)) (process_remove_by_pid pid st)"
proof (cases "proc_hash_lookup st pid")
  case (Some a)
  have "returns cg_ok (process_remove a st)" by (rule returns_mono [OF remove_ok [OF ok lookup_live [OF ok Some]]]) simp
  then show ?thesis using Some by (simp add: process_remove_by_pid_def)
qed (simp add: process_remove_by_pid_def ok)

lemma event_ok:
  assumes r: "ready H st"
  shows "outcome H (\<lambda>r. cg_ok (snd r)) (classify_event E ev st)"
proof -
  have st: "cg_good H st" and ok: "cg_ok st" using r by (auto intro: ready_good ready_ok)
  have next_cg: "outcome H (\<lambda>r. cg_ok (snd r)) m" if "outcome H (\<lambda>r. next_ok H st (snd r)) m" for m :: "(bool \<times> cg_context) option"
    using that by (rule outcome_mono) (simp add: next_ok_def cg_good_def)
  have fork: "outcome H (\<lambda>r. cg_ok (snd r)) (do { (ok, st1) \<leftarrow> classify_by_process E (ev_pid ev) (ev_tgid ev) (ev_ppid ev) st;
      if ok then Some (True, st1) else classify_identity E ev st1 })"
  proof (rule outcome_bind_pair [OF by_process_ok [OF st]])
    fix ok st1 assume n: "next_ok H st st1"
    have "outcome H (\<lambda>r. next_ok H st (snd r)) (classify_identity E ev st1)"
      by (rule outcome_next_mono [OF identity_ok [OF next_ready [OF r n]] n])
    then show "outcome H (\<lambda>r. cg_ok (snd r)) (if ok then Some (True, st1) else classify_identity E ev st1)"
      using n next_cg by (auto simp: next_ok_def cg_good_def)
  qed
  have exit: "outcome H (\<lambda>r. cg_ok (snd r)) (do {
      st1 \<leftarrow> (case proc_hash_lookup st (ev_pid ev) of None \<Rightarrow> Some st | Some a \<Rightarrow> process_track_notify a EVENT_EXIT st);
      (ok, st2) \<leftarrow> process_remove_by_pid (ev_pid ev) st1; Some (True, st2) })"
  proof (rule outcome_bind [where Q = "cg_calm st"])
    show "outcome H (cg_calm st) (case proc_hash_lookup st (ev_pid ev) of None \<Rightarrow> Some st | Some a \<Rightarrow> process_track_notify a EVENT_EXIT st)"
      using track_ok(3) task_lookup [OF ok] by (auto split: option.split)
    fix st1 assume "cg_calm st st1"
    then have "cg_ok st1" using ok by (simp add: cg_calm_ok)
    from outcome_returns [OF remove_by_pid_ok [OF this]]
    show "outcome H (\<lambda>r. cg_ok (snd r)) (do { (ok, st2) \<leftarrow> process_remove_by_pid (ev_pid ev) st1; Some (True, st2) })"
      by (rule outcome_bind_pair) simp
  qed
  show ?thesis
    using fork exit by_tracee_ok [OF r] next_cg [OF identity_ok [OF r]] ok
    by (simp add: classify_event_def split: event_type.split)
qed

subsection \<open>Scans and timers\<close>

lemma foldM_next:
  assumes "\<And>x s. ready H s \<Longrightarrow> outcome H (next_ok H s) (f x s)"
  shows "ready H st \<Longrightarrow> outcome H (next_ok H st) (foldM f xs st)"
proof (induction xs arbitrary: st)
  case (Cons x xs)
  show ?case unfolding foldM.simps
  proof (rule outcome_bind [OF assms [OF Cons.prems]])
    fix s assume n: "next_ok H st s"
    from Cons.IH [OF next_ready [OF Cons.prems n]] show "outcome H (next_ok H st) (foldM f xs s)"
      by (rule outcome_mono) (rule next_trans [OF n])
  qed
qed (simp add: next_refl ready_good)

lemma zero_retry: "H \<or> 0 < CGRP_RECLASSIFY_MAX"
  by (simp add: CGRP_RECLASSIFY_MAX_def)

lemma scan_tasks_ok:
  assumes "ready H st" shows "outcome H (next_ok H st) (scan_tasks E pt st)"
  unfolding scan_tasks_def
proof (rule outcome_bind [OF by_binary_ok [OF assms zero_retry]])
  fix r assume n: "next_ok H st (snd r)"
  have "outcome H (next_ok H (snd r)) (foldM (\<lambda>tid s. map_option snd (classify_by_binary E tid 0 s)) (snd pt) (snd r))"
    by (rule foldM_next [OF _ next_ready [OF assms n]]) (simp add: by_binary_ok zero_retry)
  then show "outcome H (next_ok H st) (foldM (\<lambda>tid s. map_option snd (classify_by_binary E tid 0 s)) (snd pt) (snd r))"
    by (rule outcome_mono) (rule next_trans [OF n])
qed

lemma scan_proc_ok: "ready H st \<Longrightarrow> outcome H (next_ok H st) (process_scan_proc E dirs st)"
  unfolding process_scan_proc_def by (rule foldM_next [OF scan_tasks_ok])

lemma reclassify_ok:
  assumes r: "ready H st" and "i < length (c_timers st) \<longrightarrow> H \<or> snd (c_timers st ! i) < CGRP_RECLASSIFY_MAX"
  shows "outcome H (next_ok H st) (reclassify_process E i st)"
proof (cases "i < length (c_timers st)")
  case True
  obtain pid count where x: "c_timers st ! i = (pid, count)" by (rule prod.exhaust)
  let ?st1 = "st\<lparr>c_timers := take i (c_timers st) @ drop (Suc i) (c_timers st)\<rparr>"
  have n: "next_ok H st ?st1" by (rule cg_timers_ok [OF ready_good [OF r]])
  have "H \<or> count < CGRP_RECLASSIFY_MAX" using assms(2) True x by simp
  from outcome_next_mono [OF by_binary_ok [OF next_ready [OF r n] this] n] show ?thesis
    using True x by (simp add: reclassify_process_def)
qed (simp add: reclassify_process_def next_refl ready_good [OF r])

subsection \<open>Partitions\<close>

lemma cg_calm_write [simp]: "cg_calm st (snd (write_control E i control text st))"
  by (simp add: write_control_def)

lemma cg_calm_write_after: "cg_calm st s \<Longrightarrow> write_control E i control text s = (ok, s') \<Longrightarrow> cg_calm st s'"
  using cg_calm_trans [of st s s'] by (auto simp: write_control_def)

lemma partition_limits_calm [simp]:
  "cg_calm st (snd (partition_limit_cpu E i share st))" "cg_calm st (snd (partition_limit_mem E i limit st))"
  by (simp_all add: partition_limit_cpu_def partition_limit_mem_def Let_def cg_calm_trans [OF cg_calm_basic(2) cg_calm_write])

lemma ctrl_apply_calm [simp]: "cg_calm st (snd (ctrl_apply E i name val st))"
  by (auto simp: ctrl_apply_def split: option.split)

lemma partition_add_good:
  assumes "cg_good H st" and "cg_calm st s" and "H \<or> cg_live st a"
  shows "outcome H (\<lambda>r. cg_calm st (snd r)) (partition_add_process E part a s)"
proof -
  have "H \<or> table_live s \<and> loopfree s \<and> cg_live s a"
    using assms cg_ok_live [of s] by (auto simp: cg_good_def cg_calm_ok cg_calm_loopfree cg_calm_live)
  from partition_add_ok [OF this] show ?thesis by (rule outcome_mono) (rule cg_calm_trans [OF assms(2)])
qed

lemma add_processes_ok:
  assumes st: "cg_good H st"
  shows "cg_calm st s \<Longrightarrow> (\<And>a. a \<in> set as \<Longrightarrow> cg_live st a) \<Longrightarrow> outcome H (\<lambda>r. cg_calm st (snd r)) (add_processes E part pid as ok s)"
proof (induction as arbitrary: ok s)
  case (Cons a as)
  have cg_live: "H \<or> cg_live s a" using Cons.prems by (simp add: cg_calm_live)
  show ?case unfolding add_processes.simps
  proof (rule outcome_process [OF cg_live], rule outcome_if)
    show "outcome H (\<lambda>r. cg_calm st (snd r)) (add_processes E part pid as ok s)" by (rule Cons.IH) (use Cons.prems in auto)
    show "outcome H (\<lambda>r. cg_calm st (snd r)) (do { (ok1, st1) \<leftarrow> partition_add_process E part a s;
        add_processes E part pid as (ok \<and> ok1) st1 })"
      by (rule outcome_bind_pair [OF partition_add_good [OF st Cons.prems(1)]]) (use Cons in auto)
  qed
qed simp

lemma partition_add_group_ok:
  assumes st: "cg_good H st" and s: "cg_calm st s" and g: "g < length (c_groups st)"
  shows "outcome H (\<lambda>r. cg_calm st (snd r)) (partition_add_group E part g pid s)"
proof -
  have "map cg_processes (c_groups s) ! g = map cg_processes (c_groups st) ! g" by (simp add: cg_calm_fields(11) [OF s])
  then have "cg_processes (c_groups s ! g) = cg_processes (c_groups st ! g)"
    using g by (simp add: cg_calm_fields(6) [OF s])
  then have "outcome H (\<lambda>r. cg_calm st (snd r)) (add_processes E part pid (cg_processes (c_groups s ! g)) True s)"
    using member_live [OF cg_good_ok [OF st] g] by (intro add_processes_ok [OF st s]) simp
  then show ?thesis unfolding partition_add_group_def Let_def
    by (rule outcome_bind_pair) (auto intro: cg_calm_trans [OF cg_calm_trans [OF _ cg_calm_groups(1)] cg_calm_groups(2)]
      cg_calm_trans [OF _ cg_calm_groups(1)])
qed

lemma unfreeze_ok:
  assumes st: "cg_good H st" and "cg_calm st s" and "set gs \<subseteq> {..<length (c_groups st)}"
  shows "outcome H (cg_calm st) (foldM (unfreeze_group E part) gs s)"
  using assms(2,3)
proof (induction gs arbitrary: s)
  case (Cons g gs)
  have "outcome H (cg_calm st) (unfreeze_group E part g s)" unfolding unfreeze_group_def
  proof (rule outcome_if)
    show "outcome H (cg_calm st) (Some s)" using Cons.prems by simp
    show "outcome H (cg_calm st) (do { (ok, st1) \<leftarrow> partition_add_group E part g 0 s; Some (upd_group g (cg_reassign_update (\<lambda>_. False)) st1) })"
      by (rule outcome_bind_pair [OF partition_add_group_ok [OF st Cons.prems(1)]])
        (use Cons.prems in \<open>auto intro: cg_calm_trans [OF _ cg_calm_groups(2)]\<close>)
  qed
  then show ?case unfolding foldM.simps by (rule outcome_bind) (use Cons in auto)
qed simp

lemma freeze_ok:
  assumes st: "cg_good H st"
  shows "outcome H (\<lambda>r. cg_calm st (snd r)) (partition_freeze E part freeze st)"
proof -
  obtain ok s where w: "write_control E part ''freezer.state'' ((if freeze then ''FROZEN'' else ''THAWED'') @ [CHR 0x0A]) st = (ok, s)"
    by (rule prod.exhaust)
  have s: "cg_calm st s" by (rule cg_calm_write_after [OF cg_calm_refl w])
  have len: "length (c_groups s) = length (c_groups st)" by (rule cg_calm_fields(6) [OF s])
  have "outcome H (cg_calm st) (unfreeze_fixup E part s)"
    unfolding unfreeze_fixup_def len by (rule unfreeze_ok [OF st s]) auto
  then have "outcome H (\<lambda>r. cg_calm st (snd r)) (do { st2 \<leftarrow> unfreeze_fixup E part s; Some (b, st2) })" for b :: bool
    by (rule outcome_bind) simp
  then show ?thesis using s by (simp add: partition_freeze_def w)
qed

subsection \<open>Decisions\<close>

text \<open>The strings that an action asks for.\<close>

fun needed_strings :: "policy_action \<Rightarrow> string list" where
  "needed_strings Act_reparent = [''group'', ''partition'']"
| "needed_strings Act_freeze = [''state'', ''partition'']"
| "needed_strings Act_schedule = [''partition'']"
| "needed_strings Act_limit = [''partition'']"
| "needed_strings Act_setting = [''partition'', ''name'', ''value'']"
| "needed_strings Act_renice = [''group'']"
| "needed_strings Act_proc_prio = [''action'']"
| "needed_strings Act_proc_oom = [''action'']"
| "needed_strings Act_group_prio = [''action'', ''group'']"
| "needed_strings Act_group_oom = [''action'', ''group'']"

definition complete_fact :: "policy_action \<Rightarrow> decision_fact \<Rightarrow> bool" where
  "complete_fact act f \<longleftrightarrow> (\<forall>n \<in> set (needed_strings act). get_string f n \<noteq> None)"

lemma outcome_string:
  "H \<or> get_string f n \<noteq> None \<Longrightarrow> (\<And>s. get_string f n = Some s \<Longrightarrow> outcome H P (k s)) \<Longrightarrow> outcome H P (get_string f n \<bind> k)"
  by (cases "get_string f n") auto

lemma group_lookup_ok: "cg_good H st \<Longrightarrow> group_lookup st name = Some g \<Longrightarrow> g < length (c_groups st)"
  using cg_okD(4) [of st] by (auto simp: cg_good_def config_ok_def group_lookup_def ran_def)

lemma policy_action_ok:
  assumes st: "cg_good H st" and c: "H \<or> complete_fact act f"
  shows "outcome H (\<lambda>r. cg_calm st (snd r)) (run_policy_action E act f st)"
proof -
  have str: "\<exists>s. get_string f n = Some s" if "n \<in> set (needed_strings act)" and "\<not> H" for n
    using c that by (auto simp: complete_fact_def)
  have known: "H \<or> cg_live st a" if "proc_hash_lookup st pid = Some a" for pid a
    by (rule task_lookup [OF cg_good_ok [OF st] that])
  note g = group_lookup_ok [OF st]
  note rules = outcome_string outcome_option outcome_if group_priority_ok [OF st] partition_add_group_ok [OF st cg_calm_refl]
    freeze_ok [OF st] adjust_priority_ok adjust_oom_ok known g
  show ?thesis
  proof (cases act)
    case Act_setting
    then show ?thesis
      by (auto simp: setting_action_def partition_apply_setting_def str intro!: rules)
  qed (auto simp: str reparent_action_def freeze_action_def schedule_action_def limit_action_def renice_action_def
      proc_prio_action_def proc_oom_action_def group_prio_action_def group_oom_action_def intro!: rules)
qed

lemma action_parser_ok:
  assumes st: "cg_good H st"
  shows "cg_calm st s \<Longrightarrow> H \<or> (\<forall>f \<in> set fs. complete_fact act f) \<Longrightarrow> outcome H (\<lambda>r. cg_calm st (snd r)) (action_parser E act fs ok s)"
proof (induction fs arbitrary: ok s)
  case (Cons f fs)
  have "outcome H (\<lambda>r. cg_calm s (snd r)) (run_policy_action E act f s)"
    by (rule policy_action_ok) (use cg_calm_good [OF Cons.prems(1) st] Cons.prems(2) in auto)
  then have "outcome H (\<lambda>r. cg_calm st (snd r)) (run_policy_action E act f s)"
    by (rule outcome_mono) (rule cg_calm_trans [OF Cons.prems(1)])
  then show ?case unfolding action_parser.simps by (rule outcome_bind_pair) (use Cons in auto)
qed simp

definition complete_names :: "string list \<Rightarrow> (string \<Rightarrow> decision_fact list) \<Rightarrow> bool" where
  "complete_names names facts \<longleftrightarrow>
     (\<forall>name \<in> set names. \<forall>act. map_of policy_actions_table name = Some act \<longrightarrow> (\<forall>f \<in> set (facts name). complete_fact act f))"

lemma parse_names_ok:
  assumes st: "cg_good H st"
  shows "cg_calm st s \<Longrightarrow> H \<or> complete_names names facts \<Longrightarrow> outcome H (\<lambda>r. cg_calm st (snd r)) (parse_names E facts names ok s)"
proof (induction names arbitrary: ok s)
  case (Cons name names)
  have rest: "H \<or> complete_names names facts" using Cons.prems(2) by (auto simp: complete_names_def)
  show ?case
  proof (cases "map_of policy_actions_table name")
    case None
    then show ?thesis using Cons.IH [OF Cons.prems(1) rest] by simp
  next
    case (Some act)
    have "outcome H (\<lambda>r. cg_calm s (snd r)) (action_parser E act (facts name) True s)"
      by (rule action_parser_ok [OF cg_calm_good [OF Cons.prems(1) st] cg_calm_refl])
        (use Cons.prems(2) Some in \<open>auto simp: complete_names_def\<close>)
    then have "outcome H (\<lambda>r. cg_calm st (snd r)) (action_parser E act (facts name) True s)"
      by (rule outcome_mono) (rule cg_calm_trans [OF Cons.prems(1)])
    then show ?thesis unfolding parse_names.simps Some option.case
      by (rule outcome_bind_pair) (rule Cons.IH [OF _ rest])
  qed
qed simp

lemma txparser_ok:
  "cg_good H st \<Longrightarrow> H \<or> complete_names names facts \<Longrightarrow> outcome H (\<lambda>r. cg_calm st (snd r)) (txparser E signal names facts st)"
  by (simp add: txparser_def parse_names_ok)

subsection \<open>Applications\<close>

lemma active_next:
  assumes st: "cg_good H st" and act: "active_ok (proc_key st) act actg"
  shows "next_ok H st (st\<lparr>c_active_process := act, c_active_group := actg\<rparr>)"
proof -
  let ?st' = "st\<lparr>c_active_process := act, c_active_group := actg\<rparr>"
  have key: "proc_key ?st' = proc_key st" by (rule key_cong) simp
  have "cg_ok ?st'" using cg_okD [OF cg_good_ok [OF st]] act by (simp add: cg_ok_def cg_shape_ok_def cg_shape_def key)
  moreover have "tracer_of ?st' = tracer_of st" by (rule tracer_of_cong) simp_all
  ultimately show ?thesis using st by (simp add: next_ok_def cg_good_def loopfree_def ranked_def cg_live_key key)
qed

lemma update_state_ok:
  assumes st: "cg_good H st" and "\<And>a. process = Some a \<Longrightarrow> H \<or> cg_live st a"
  shows "outcome H (\<lambda>r. next_ok H st (snd r)) (process_update_state process state st)"
  unfolding process_update_state_def
proof (rule outcome_option)
  show "outcome H (\<lambda>r. next_ok H st (snd r)) (Some (True, st))" by (simp add: next_refl st)
  fix a assume "process = Some a"
  then have cg_live: "H \<or> cg_live st a" by (rule assms(2))
  show "outcome H (\<lambda>r. next_ok H st (snd r)) (do { p \<leftarrow> c_procs st a;
      Some (if state = ''active'' then (True, st\<lparr>c_active_process := Some a, c_active_group := cp_group p\<rparr>)
        else if state = ''standby''
        then (True, if c_active_process st = Some a then st\<lparr>c_active_process := None, c_active_group := None\<rparr> else st)
        else (False, st)) })"
  proof (rule outcome_process [OF cg_live])
    fix p assume p: "c_procs st a = Some p"
    have "next_ok H st (st\<lparr>c_active_process := Some a, c_active_group := cp_group p\<rparr>)"
      by (rule active_next [OF st]) (simp add: active_ok_def cg_key_of [OF p])
    moreover have "next_ok H st (st\<lparr>c_active_process := None, c_active_group := None\<rparr>)"
      by (rule active_next [OF st]) (simp add: active_ok_def)
    ultimately show "outcome H (\<lambda>r. next_ok H st (snd r))
      (Some (if state = ''active'' then (True, st\<lparr>c_active_process := Some a, c_active_group := cp_group p\<rparr>)
        else if state = ''standby''
        then (True, if c_active_process st = Some a then st\<lparr>c_active_process := None, c_active_group := None\<rparr> else st)
        else (False, st)))"
      by (simp add: next_refl st)
  qed
qed

lemma argv0_ok: "H \<or> cg_live st a \<Longrightarrow> outcome H (\<lambda>r. cg_calm st (snd r)) (get_argv0 E a st)"
  unfolding get_argv0_def by (rule outcome_process) (auto simp: Let_def split: option.split prod.split bool.split)

lemma query_ok:
  assumes "cg_good H st" shows "outcome H (\<lambda>r. cg_calm st (snd r)) (apptrack_query E st)"
  unfolding apptrack_query_def
proof (rule outcome_option)
  fix a assume "c_active_process st = Some a"
  then have cg_live: "H \<or> cg_live st a" using active_live [OF cg_good_ok [OF assms]] by simp
  show "outcome H (\<lambda>r. cg_calm st (snd r)) (do { p \<leftarrow> c_procs st a; (argv0, st1) \<leftarrow> get_argv0 E a st;
      Some ((cp_pid p, Some (cp_binary p), argv0, Some (group_label st p)), st1) })"
    by (rule outcome_process [OF cg_live], rule outcome_bind_pair [OF argv0_ok [OF cg_live]]) simp
qed simp

lemma notify_calm: "cg_calm st s \<Longrightarrow> cg_calm st (foldl (\<lambda>s sub. c_note (f sub) s) s subs)"
  by (induction subs arbitrary: s) (auto intro: cg_calm_trans [OF _ cg_calm_basic(1)])

lemma notify_ok:
  assumes "cg_good H st" shows "outcome H (cg_calm st) (apptrack_notify E st)"
  unfolding apptrack_notify_def
  by (rule outcome_bind [OF query_ok [OF assms]]) (auto intro: notify_calm split: prod.split)

lemma update_process_ok:
  assumes st: "cg_good H st"
  shows "outcome H (\<lambda>r. next_ok H st (snd r)) (update_process f state st)"
proof -
  have "outcome H (\<lambda>r. next_ok H st (snd r)) (do { (ok, st1) \<leftarrow> process_update_state (Some a) state st; Some (Some a, st1) })"
    if "proc_hash_lookup st app = Some a" for app a
    by (rule outcome_bind_pair [OF update_state_ok [OF st]]) (use task_lookup [OF cg_good_ok [OF st] that] in auto)
  then show ?thesis by (auto simp: update_process_def next_refl st split: option.split arg_value.split)
qed

lemma apptrack_update_ok:
  assumes st: "cg_good H st"
  shows "outcome H (next_ok H st) (apptrack_update E f st)"
  unfolding apptrack_update_def
proof (rule outcome_bind_pair [OF update_process_ok [OF st]])
  fix old_proc st1 assume n1: "next_ok H st st1"
  show "outcome H (next_ok H st) (do { (new_proc, st2) \<leftarrow> update_process f ''active'' st1;
          (let st3 = (if c_active_group st \<noteq> c_active_group st2 \<or> old_proc \<noteq> new_proc
                      then apptrack_cgroup_notify (c_active_group st2) st2 else st2)
           in do { st4 \<leftarrow> apptrack_notify E st3; Some (st4\<lparr>c_apptrack_update := False\<rparr>) }) })"
  proof (rule outcome_bind_pair [OF update_process_ok [OF next_good [OF n1]]])
    fix new_proc st2 assume n2: "next_ok H st1 st2"
    define st3 where "st3 = (if c_active_group st \<noteq> c_active_group st2 \<or> old_proc \<noteq> new_proc
                      then apptrack_cgroup_notify (c_active_group st2) st2 else st2)"
    have "cg_calm st2 st3" by (simp add: st3_def)
    then have n3: "next_ok H st st3"
      by (rule next_trans [OF next_trans [OF n1 n2] next_calm]) (rule next_good [OF n2])
    have "outcome H (next_ok H st) (do { st4 \<leftarrow> apptrack_notify E st3; Some (st4\<lparr>c_apptrack_update := False\<rparr>) })"
    proof (rule outcome_bind [OF notify_ok [OF next_good [OF n3]]])
      fix st4 assume "cg_calm st3 st4"
      then have "cg_calm st3 (st4\<lparr>c_apptrack_update := False\<rparr>)" by (rule cg_calm_trans) simp
      then show "outcome H (next_ok H st) (Some (st4\<lparr>c_apptrack_update := False\<rparr>))"
        by (simp add: next_trans [OF n3 next_calm] next_good [OF n3])
    qed
    then show "outcome H (next_ok H st) (let st3 = (if c_active_group st \<noteq> c_active_group st2 \<or> old_proc \<noteq> new_proc
                      then apptrack_cgroup_notify (c_active_group st2) st2 else st2)
           in do { st4 \<leftarrow> apptrack_notify E st3; Some (st4\<lparr>c_apptrack_update := False\<rparr>) })"
      unfolding st3_def Let_def .
  qed
qed

lemma socket_loop_ok:
  "cg_good H st \<Longrightarrow> outcome H (\<lambda>r. next_ok H st (snd r)) (socket_loop E buf st)"
proof (induction "length buf" arbitrary: buf st rule: less_induct)
  case less
  show ?case
  proof (cases "buf = [] \<or> socket_item buf = None")
    case True
    then show ?thesis by (auto simp: socket_loop.simps next_refl less.prems)
  next
    case False
    then obtain pid state rest where item: "socket_item buf = Some (pid, state, rest)" by (auto simp: prod_cases3)
    have step: "socket_loop E buf st = do { (ok, st1) \<leftarrow> process_update_state (proc_hash_lookup st pid) state st;
        st2 \<leftarrow> apptrack_notify E st1; socket_loop E rest st2 }"
      by (subst socket_loop.simps) (use False item in simp)
    show ?thesis unfolding step
    proof (rule outcome_bind_pair [OF update_state_ok [OF less.prems]])
      show "H \<or> cg_live st a" if "proc_hash_lookup st pid = Some a" for a
        by (rule task_lookup [OF cg_good_ok [OF less.prems] that])
      fix ok st1 assume n1: "next_ok H st st1"
      show "outcome H (\<lambda>r. next_ok H st (snd r)) (do { st2 \<leftarrow> apptrack_notify E st1; socket_loop E rest st2 })"
      proof (rule outcome_bind [OF notify_ok [OF next_good [OF n1]]])
        fix st2 assume "cg_calm st1 st2"
        then have n2: "next_ok H st st2" by (rule next_trans [OF n1 next_calm]) (rule next_good [OF n1])
        show "outcome H (\<lambda>r. next_ok H st (snd r)) (socket_loop E rest st2)"
          by (rule outcome_next_mono [OF less.hyps [OF socket_item_shorter [OF item] next_good [OF n2]] n2])
      qed
    qed
  qed
qed

lemma socket_cb_ok:
  assumes "cg_good H st" shows "outcome H (next_ok H st) (socket_cb E buf st)"
  unfolding socket_cb_def
proof (rule outcome_bind_pair [OF socket_loop_ok [OF assms]])
  fix complete st1 assume n: "next_ok H st st1"
  have "next_ok H st (apptrack_cgroup_notify ng st1)" for ng
    by (rule next_trans [OF n next_calm]) (simp_all add: next_good [OF n])
  then show "outcome H (next_ok H st) (Some (if complete \<and> c_active_group st \<noteq> c_active_group st1
      then apptrack_cgroup_notify (c_active_group st1) st1 else st1))" using n by simp
qed

subsection \<open>Add-ons\<close>

lemma addon_hash_actions: "known_actions (snd (addon_hash_insert pd R)) \<subseteq> known_actions R \<union> rules_actions (def_rules pd)"
  by (auto simp: addon_hash_insert_def known_actions_def ran_def split: if_splits)

lemma reconfig_actions:
  "(\<Union>pd \<in> set pds. rules_actions (def_rules pd)) \<subseteq> known_actions R \<Longrightarrow>
    known_actions (foldl (\<lambda>S pd. snd (addon_hash_insert pd S)) R pds) \<subseteq> known_actions R"
proof (induction pds rule: rev_induct)
  case (snoc pd pds)
  then show ?case using addon_hash_actions [of pd "foldl (\<lambda>S pd. snd (addon_hash_insert pd S)) R pds"] by auto
qed simp

lemma addon_add_actions: "known_actions (snd (addon_add pd R)) \<subseteq> known_actions R \<union> rules_actions (def_rules pd)"
  by (auto simp: addon_add_def known_actions_def)

lemma addon_adds_actions:
  "known_actions (foldl (\<lambda>S pd. snd (addon_add pd S)) R pds) \<subseteq> known_actions R \<union> (\<Union>pd \<in> set pds. rules_actions (def_rules pd))"
proof (induction pds rule: rev_induct)
  case (snoc pd pds)
  then show ?case using addon_add_actions [of pd "foldl (\<lambda>S pd. snd (addon_add pd S)) R pds"] by auto
qed simp

lemma addon_reload_actions:
  "known_actions (snd (addon_reload (b, pds) R)) \<subseteq> known_actions R \<union> (\<Union>pd \<in> set pds. rules_actions (def_rules pd))"
proof -
  let ?R0 = "addon_hash_reset (addon_reset R)"
  let ?R1 = "foldl (\<lambda>S pd. snd (addon_add pd S)) ?R0 pds"
  have R0: "known_actions ?R0 \<subseteq> known_actions R"
    by (auto simp: known_actions_def addon_hash_reset_def addon_reset_def)
  have "snd (addon_reload (b, pds) R) = foldl (\<lambda>S pd. snd (addon_hash_insert pd S)) ?R1 (r_addons ?R1)"
    by (simp add: addon_reload_def classify_reconfig_def Let_def)
  moreover have "known_actions \<dots> \<subseteq> known_actions ?R1"
    by (rule reconfig_actions) (simp add: known_actions_def subset_iff)
  ultimately show ?thesis using addon_adds_actions [of ?R0 pds] R0 by auto
qed

lemma rules_cg_ok:
  assumes "cg_ok st" and "rules_ok (length (c_groups st)) R"
  shows "cg_ok (st\<lparr>c_rules := R\<rparr>)"
proof -
  have key: "proc_key (st\<lparr>c_rules := R\<rparr>) = proc_key st" by (rule key_cong) simp
  show ?thesis using cg_okD [OF assms(1)] assms(2) unfolding cg_ok_def cg_shape_def cg_shape_ok_def key config_ok_def by simp
qed

subsection \<open>Steps\<close>

definition cg_hazard :: "cg_context \<Rightarrow> cg_input \<Rightarrow> bool" where
  "cg_hazard st input \<longleftrightarrow>
     \<not> loopfree st \<or> Action_classify 0 \<in> known_actions (c_rules st) \<or>
     (case input of
        G_timer i \<Rightarrow> i < length (c_timers st) \<and> snd (c_timers st ! i) \<ge> CGRP_RECLASSIFY_MAX
      | G_decision signal names facts \<Rightarrow> \<not> complete_names names facts
      | _ \<Rightarrow> False)"

theorem cg_step_ok:
  assumes ok: "cg_ok st" and input: "cg_input_ok st input"
  shows "outcome (cg_hazard st input) cg_ok (cg_step E input st)"
proof -
  let ?H = "cg_hazard st input"
  have st: "cg_good ?H st" and r: "ready ?H st" using ok by (auto simp: cg_good_def ready_def cg_hazard_def)
  have nxt: "outcome ?H cg_ok m" if "outcome ?H (next_ok ?H st) m" for m
    using that by (rule outcome_mono) (simp add: next_ok_def cg_good_def)
  have cal: "outcome ?H cg_ok m" if "outcome ?H (cg_calm st) m" for m
    using that by (rule outcome_mono) (simp add: cg_calm_ok ok)
  have known: "proc_hash_lookup st pid = Some a \<Longrightarrow> ?H \<or> cg_live st a" for pid a by (rule task_lookup [OF ok])
  show ?thesis
  proof (cases input)
    case (G_event ev)
    then show ?thesis using event_ok [OF r] by (simp add: cg_step_def)
  next
    case (G_timer i)
    have "outcome ?H (next_ok ?H st) (reclassify_process E i st)"
      by (rule reclassify_ok [OF r]) (auto simp: cg_hazard_def G_timer)
    from nxt [OF this] show ?thesis by (simp add: cg_step_def G_timer)
  next
    case (G_scan dirs)
    from nxt [OF scan_proc_ok [OF r]] show ?thesis by (simp add: cg_step_def G_scan)
  next
    case (G_addons parsed)
    obtain b pds where p: "parsed = (b, pds)" by (cases parsed)
    have "groups_exist (length (c_groups st)) (known_actions (c_rules st))"
      using cg_okD(4) [OF ok] by (simp add: config_ok_def rules_ok_def)
    then have "rules_ok (length (c_groups st)) (snd (addon_reload parsed (c_rules st)))"
      using addon_reload_actions [of b pds "c_rules st"] input
      by (auto simp: rules_ok_def groups_exist_def cg_input_ok_def G_addons p)
    from rules_cg_ok [OF ok this] show ?thesis by (simp add: cg_step_def G_addons)
  next
    case (G_decision signal names facts)
    have "outcome ?H (\<lambda>r. cg_calm st (snd r)) (txparser E signal names facts st)"
      by (rule txparser_ok [OF st]) (auto simp: cg_hazard_def G_decision)
    then show ?thesis using cal [of "map_option snd (txparser E signal names facts st)"] by (simp add: cg_step_def G_decision)
  next
    case (G_apps f)
    from nxt [OF apptrack_update_ok [OF st]] show ?thesis by (simp add: cg_step_def G_apps)
  next
    case (G_socket buf)
    from nxt [OF socket_cb_ok [OF st]] show ?thesis by (simp add: cg_step_def G_socket)
  next
    case (G_track pid event target)
    have "outcome ?H (\<lambda>r. cg_calm st (snd r)) (cgrp_track_process pid event target st)"
      using track_ok(1) known by (auto simp: cgrp_track_process_def split: option.split)
    then show ?thesis using cal [of "map_option snd (cgrp_track_process pid event target st)"] by (simp add: cg_step_def G_track)
  next
    case (G_untrack pid event target)
    have "outcome ?H (\<lambda>r. cg_calm st (snd r)) (cgrp_untrack_process pid event target st)"
      using track_ok(2) known by (auto simp: cgrp_untrack_process_def split: option.split)
    then show ?thesis using cal [of "map_option snd (cgrp_untrack_process pid event target st)"] by (simp add: cg_step_def G_untrack)
  next
    case (G_subscribe cb data)
    have "cg_calm st (apptrack_subscribe cb data st)" by (simp add: apptrack_subscribe_def)
    then show ?thesis by (simp add: cg_step_def G_subscribe cg_calm_ok ok)
  next
    case (G_unsubscribe cb data)
    have "cg_calm st (apptrack_unsubscribe cb data st)" by (simp add: apptrack_unsubscribe_def)
    then show ?thesis by (simp add: cg_step_def G_unsubscribe cg_calm_ok ok)
  next
    case G_query
    from query_ok [OF st, of E] show ?thesis using cal [of "map_option snd (apptrack_query E st)"]
      by (simp add: cg_step_def G_query)
  qed
qed

lemma cg_initial_ok:
  assumes "cg_initial st" shows "cg_ok st"
proof -
  have key: "proc_key st = (\<lambda>_. None)" using assms by (simp add: cg_initial_def proc_key_def fun_eq_iff)
  have "map cg_processes (c_groups st) = replicate (length (c_groups st)) []"
    using assms by (intro nth_equalityI) (auto simp: cg_initial_def)
  then have "members_ok (proc_key st) (map cg_processes (c_groups st))" by (simp add: members_ok_def key)
  then show ?thesis using assms unfolding cg_ok_def cg_shape_ok_def cg_shape_def prod.case
    by (simp add: key cg_table_ok_def active_ok_def config_ok_def cg_initial_def)
qed

theorem cg_reach_ok: "cg_reach E st \<Longrightarrow> cg_ok st"
proof (induction rule: cg_reach.induct)
  case (cg_reach_step st input st')
  then show ?case using cg_step_ok [of st input E] by simp
qed (rule cg_initial_ok)
end
