(* ===== verification/Cgrp_Properties.thy ===== *)
theory Cgrp_Properties
  imports Cgrp_Steps
begin

text \<open>
  The properties of the cgroups plugin, each with the lemmas that only it needs.
\<close>

subsection \<open>Reading \<open>/proc/<pid>/stat\<close>\<close>

definition blanks :: "string list \<Rightarrow> string" where
  "blanks fs = concat (map (\<lambda>f. f @ '' '') fs)"

text \<open>The line of the kernel up to the size of the virtual memory.\<close>

definition stat_line :: "string \<Rightarrow> string \<Rightarrow> char \<Rightarrow> nat \<Rightarrow> string list \<Rightarrow> string \<Rightarrow> string \<Rightarrow> string" where
  "stat_line pid name state ppid mid start vsize =
     blanks ([pid, ''('' @ name @ '')'', [state], dec_of_int (int ppid)] @ mid @ [start]) @ vsize"

lemma blanks_simps [simp]: "blanks [] = []" "blanks (f # fs) = f @ '' '' @ blanks fs" "blanks (fs @ gs) = blanks fs @ blanks gs"
  by (simp_all add: blanks_def)

lemma FIND_FIELD_skip: "k < n \<Longrightarrow> CHR '' '' \<notin> set f \<Longrightarrow> FIND_FIELD n (k, f @ CHR '' '' # s) = FIND_FIELD n (Suc k, s)"
  by (induction f) auto

lemma FIND_FIELD_here [simp]: "FIND_FIELD n (n, s) = Some (n, s)"
  by (cases s) simp_all

lemma FIND_FIELD_blanks:
  "\<forall>f \<in> set fs. CHR '' '' \<notin> set f \<Longrightarrow> n = k + length fs \<Longrightarrow> FIND_FIELD n (k, blanks fs @ s) = Some (n, s)"
proof (induction fs arbitrary: k)
  case (Cons f fs)
  then show ?case using FIND_FIELD_skip [of k n f "blanks fs @ s"] by simp
qed simp

lemma dec_no_blank: "CHR '' '' \<notin> set (dec_of_int (int n))"
proof
  assume "CHR '' '' \<in> set (dec_of_int (int n))"
  then have "CHR '' '' \<in> set (dec_digits (nat (int n) + 1) (nat (int n)))" by (simp only: dec_of_int_def split: if_splits)
  from dec_digits_are_digits [OF this] show False by (simp add: is_digit_def)
qed

lemma ppid_read: "n < 2 ^ 31 \<Longrightarrow> sint (word_of_int (fst (strtoul (dec_of_int (int n) @ '' '' @ s))) :: 32 word) = int n"
proof -
  assume n: "n < 2 ^ 31"
  then have "strtoul (dec_of_int (int n) @ '' '' @ s) = (int n, '' '' @ s)"
    by (intro strtoul_dec) (auto simp: is_digit_def)
  then show ?thesis using n by (simp add: signed_of_nat signed_take_bit_int_eq_self)
qed


lemma FIND_FIELD_cons: "CHR '' '' \<notin> set f \<Longrightarrow> k < n \<Longrightarrow> FIND_FIELD n (k, f @ '' '' @ s) = FIND_FIELD n (Suc k, s)"
  using FIND_FIELD_skip [of k n f s] by simp

lemma stat_short: "length s \<le> 1023 \<Longrightarrow> take 1023 s = (s :: string)"
  by simp

lemma whole_name:
  assumes "CHR '' '' \<notin> set name" and "CHR '')'' \<notin> set name" and "name \<noteq> []" and "length name < CGRP_COMM_LEN"
  shows "stat_name old (''('' @ name @ '')'' @ s) = name"
proof -
  let ?P = "\<lambda>c. c \<noteq> CHR '')'' \<and> c \<noteq> CHR '' ''"
  have all: "\<forall>c \<in> set name. ?P c" using assms(1,2) by auto
  have "takeWhile ?P (name @ '')'' @ s) = name" "dropWhile ?P (name @ '')'' @ s) = '')'' @ s"
    using all by (simp_all add: takeWhile_append2 dropWhile_append2)
  then show ?thesis using assms(3,4) by (simp add: stat_name_def)
qed

lemma stat_parse_run:
  assumes "pe_stat P pid = Some file" and "file \<noteq> []" "length file \<le> 1023" and "FIND_FIELD FIELD_NAME (0, file) = Some (1, s1)"
    and "FIND_FIELD FIELD_PPID (1, s1) = Some (3, s2)" and "FIND_FIELD FIELD_NICE (3, s2) = Some (18, s3)"
    and "FIND_FIELD FIELD_VMSIZE (18, s3) = Some (22, s4)"
  shows "proc_stat_parse P pid (old, oldp, oldt) =
    (True, stat_name old s1, sint (word_of_int (fst (strtoul s2)) :: 32 word),
     if s4 \<noteq> [] \<and> hd s4 = CHR ''0'' then PROC_KERNEL else PROC_USER)"
  using assms by (simp add: proc_stat_parse_def Let_def)

lemma blanks_split: "n \<le> length fs \<Longrightarrow> blanks fs = blanks (take n fs) @ blanks (drop n fs)"
  by (metis append_take_drop_id blanks_simps(3))

text \<open>C35. For a task whose name has no blank and no parenthesis, the parser of \<open>/proc/<pid>/stat\<close> gives back the name,
  the parent and the type (a kernel thread has no virtual memory) of the line that the kernel wrote.\<close>

theorem stat_read_back:
  assumes "pe_stat P pid = Some (stat_line pidstr name state ppid mid start vsize)"
    and "length (stat_line pidstr name state ppid mid start vsize) \<le> 1023"
    and "CHR '' '' \<notin> set name" and "CHR '')'' \<notin> set name" and "name \<noteq> []" and "length name < CGRP_COMM_LEN"
    and "CHR '' '' \<notin> set pidstr" and "state \<noteq> CHR '' ''" and "ppid < 2 ^ 31" and "\<forall>f \<in> set (mid @ [start]). CHR '' '' \<notin> set f"
    and "length mid = 17" and "vsize \<noteq> []"
  shows "proc_stat_parse P pid old = (True, name, int ppid, if hd vsize = CHR ''0'' then PROC_KERNEL else PROC_USER)"
proof -
  let ?rest = "blanks (mid @ [start]) @ vsize"
  let ?s1 = "''('' @ name @ '')'' @ '' '' @ [state] @ '' '' @ dec_of_int (int ppid) @ '' '' @ ?rest"
  let ?s2 = "dec_of_int (int ppid) @ '' '' @ ?rest"
  let ?s3 = "blanks (drop 14 (mid @ [start])) @ vsize"
  obtain old1 oldp oldt where old: "old = (old1, oldp, oldt)" by (cases old)
  have line: "stat_line pidstr name state ppid mid start vsize = pidstr @ '' '' @ ?s1" by (simp add: stat_line_def)
  have f1: "FIND_FIELD FIELD_NAME (0, pidstr @ '' '' @ ?s1) = Some (1, ?s1)"
    unfolding FIELD_NAME_def by (subst FIND_FIELD_cons) (use assms(7) in simp_all)
  have f2: "FIND_FIELD FIELD_PPID (1, ?s1) = Some (3, ?s2)"
    using FIND_FIELD_cons [of "''('' @ name @ '')''" 1 3 "[state] @ '' '' @ ?s2"] FIND_FIELD_cons [of "[state]" 2 3 ?s2] assms(3,8)
    by (simp add: FIELD_PPID_def numeral_2_eq_2 numeral_3_eq_3)
  have fs: "\<forall>f \<in> set (dec_of_int (int ppid) # take 14 (mid @ [start])). CHR '' '' \<notin> set f"
    "\<forall>f \<in> set (drop 14 (mid @ [start])). CHR '' '' \<notin> set f"
    using assms(10) dec_no_blank set_take_subset [of 14 "mid @ [start]"] set_drop_subset [of 14 "mid @ [start]"]
    unfolding list.set by blast+
  have "?s2 = blanks (dec_of_int (int ppid) # take 14 (mid @ [start])) @ ?s3"
    using blanks_split [of 14 "mid @ [start]"] assms(11) by (simp del: blanks_simps(3) take_append drop_append add: blanks_simps(2))
  then have f3: "FIND_FIELD FIELD_NICE (3, ?s2) = Some (18, ?s3)"
    using FIND_FIELD_blanks [OF fs(1), of 18 3 ?s3] assms(11) by (simp add: FIELD_NICE_def)
  have f4: "FIND_FIELD FIELD_VMSIZE (18, ?s3) = Some (22, vsize)"
    using FIND_FIELD_blanks [OF fs(2), of 22 18 vsize] assms(11) by (simp add: FIELD_VMSIZE_def)
  have n1: "pidstr @ '' '' @ ?s1 \<noteq> []" by simp
  note run = stat_parse_run [OF assms(1) [unfolded line] n1 assms(2) [unfolded line] f1 f2 f3 f4]
  show ?thesis unfolding old run using whole_name [OF assms(3-6)] ppid_read [OF assms(9)] assms(12) by simp
qed

definition sample_proc :: "string \<Rightarrow> proc_env" where
  "sample_proc stat = \<lparr>pe_exe = (\<lambda>_. None), pe_cmdline = (\<lambda>_. None), pe_stat = (\<lambda>_. Some stat), pe_status = (\<lambda>_. None),
     pe_owner = (\<lambda>_. None)\<rparr>"

lemma sample_stat [simp]: "pe_stat (sample_proc stat) pid = Some stat"
  by (simp add: sample_proc_def)

lemma dec_seven: "dec_of_int 7 = ''7''"
  by code_simp

lemma length_blanks_replicate [simp]: "length (blanks (replicate n f)) = n * (length f + 1)"
  by (induction n) simp_all

theorem stat_read_back_witness:
  "proc_stat_parse (sample_proc (stat_line ''42'' ''bash'' CHR ''S'' 7 (replicate 17 ''0'') ''99'' ''5120'')) 42 ([], 0, PROC_UNKNOWN) =
     (True, ''bash'', 7, PROC_USER)"
  using stat_read_back [of "sample_proc (stat_line ''42'' ''bash'' CHR ''S'' 7 (replicate 17 ''0'') ''99'' ''5120'')" 42 "''42''"
      "''bash''" "CHR ''S''" 7 "replicate 17 ''0''" "''99''" "''5120''" "([], 0, PROC_UNKNOWN)"]
  by (simp add: stat_line_def dec_seven CGRP_COMM_LEN_def)

lemma cut_name:
  assumes "CHR '' '' \<notin> set n1" and "CHR '')'' \<notin> set n1"
  shows "stat_name old (''('' @ n1 @ '' '' @ s) = take (CGRP_COMM_LEN - 1) (n1 @ '' '')"
proof -
  let ?P = "\<lambda>c. c \<noteq> CHR '')'' \<and> c \<noteq> CHR '' ''"
  have all: "\<forall>c \<in> set n1. ?P c" using assms by auto
  have "takeWhile ?P (n1 @ '' '' @ s) = n1" "dropWhile ?P (n1 @ '' '' @ s) = '' '' @ s"
    using all by (simp_all add: takeWhile_append2 dropWhile_append2)
  then show ?thesis by (simp add: stat_name_def)
qed

lemma no_number:
  assumes "\<not> is_space c" and "\<not> is_digit c" and "c \<noteq> CHR ''-''" and "c \<noteq> CHR ''+''"
  shows "fst (strtoul (c # s)) = 0"
  using assms by (simp add: strtoul_def scan_number_def)

text \<open>A blank in the name of a task shifts every later field by one: the name is cut behind its first word, the parent is
  read from the letter of the state and is 0, and the start time decides whether the task is a kernel thread.\<close>

theorem stat_blank_shifts:
  assumes "pe_stat P pid = Some (stat_line pidstr (n1 @ '' '' @ n2) state ppid mid start vsize)"
    and "length (stat_line pidstr (n1 @ '' '' @ n2) state ppid mid start vsize) \<le> 1023"
    and "CHR '' '' \<notin> set (n1 @ n2)" and "CHR '')'' \<notin> set n1"
    and "CHR '' '' \<notin> set pidstr" and "state \<in> set ''RSDZTtXxKWPI''" and "\<forall>f \<in> set (mid @ [start]). CHR '' '' \<notin> set f"
    and "length mid = 17" and "start \<noteq> []"
  shows "proc_stat_parse P pid old =
    (True, take (CGRP_COMM_LEN - 1) (n1 @ '' ''), 0, if hd start = CHR ''0'' then PROC_KERNEL else PROC_USER)"
proof -
  let ?rest = "blanks (mid @ [start]) @ vsize"
  let ?s2 = "[state] @ '' '' @ dec_of_int (int ppid) @ '' '' @ ?rest"
  let ?s1 = "''('' @ n1 @ '' '' @ n2 @ '')'' @ '' '' @ ?s2"
  let ?s4 = "start @ '' '' @ vsize"
  let ?s3 = "blanks (drop 13 mid) @ ?s4"
  obtain old1 oldp oldt where old: "old = (old1, oldp, oldt)" by (cases old)
  have line: "stat_line pidstr (n1 @ '' '' @ n2) state ppid mid start vsize = pidstr @ '' '' @ ?s1" by (simp add: stat_line_def)
  have st: "state \<noteq> CHR '' ''" "\<not> is_space state" "\<not> is_digit state" "state \<noteq> CHR ''-''" "state \<noteq> CHR ''+''"
    using assms(6) by (auto simp: is_space_def is_digit_def Let_def)
  have f1: "FIND_FIELD FIELD_NAME (0, pidstr @ '' '' @ ?s1) = Some (1, ?s1)"
    unfolding FIELD_NAME_def by (subst FIND_FIELD_cons) (use assms(5) in simp_all)
  have f2: "FIND_FIELD FIELD_PPID (1, ?s1) = Some (3, ?s2)"
    using FIND_FIELD_cons [of "''('' @ n1" 1 3 "n2 @ '')'' @ '' '' @ ?s2"] FIND_FIELD_cons [of "n2 @ '')''" 2 3 ?s2] assms(3)
    by (simp add: FIELD_PPID_def numeral_2_eq_2 numeral_3_eq_3)
  have fs: "\<forall>f \<in> set ([state] # dec_of_int (int ppid) # take 13 mid). CHR '' '' \<notin> set f" "\<forall>f \<in> set (drop 13 mid). CHR '' '' \<notin> set f"
    using assms(7) dec_no_blank st(1) set_take_subset [of 13 mid] set_drop_subset [of 13 mid] by auto
  have "?s2 = blanks ([state] # dec_of_int (int ppid) # take 13 mid) @ ?s3"
    using blanks_split [of 13 mid] assms(8) by (simp add: blanks_simps(2))
  then have f3: "FIND_FIELD FIELD_NICE (3, ?s2) = Some (18, ?s3)"
    using FIND_FIELD_blanks [OF fs(1), of 18 3 ?s3] assms(8) by (simp add: FIELD_NICE_def)
  have f4: "FIND_FIELD FIELD_VMSIZE (18, ?s3) = Some (22, ?s4)"
    using FIND_FIELD_blanks [OF fs(2), of 22 18 ?s4] assms(8) by (simp add: FIELD_VMSIZE_def)
  have n1: "pidstr @ '' '' @ ?s1 \<noteq> []" by simp
  note run = stat_parse_run [OF assms(1) [unfolded line] n1 assms(2) [unfolded line] f1 f2 f3 f4]
  have n2: "CHR '' '' \<notin> set n1" using assms(3) by simp
  have "fst (strtoul ?s2) = 0" using no_number [OF st(2-5)] by simp
  then show ?thesis unfolding old run using cut_name [OF n2 assms(4), of old1 "n2 @ '')'' @ '' '' @ ?s2"] assms(9) by simp
qed

theorem stat_blank_shifts_witness:
  "proc_stat_parse (sample_proc (stat_line ''42'' ''tmux: client'' CHR ''S'' 7 (replicate 17 ''0'') ''99'' ''5120'')) 42 ([], 0, PROC_UNKNOWN) =
     (True, ''tmux: '', 0, PROC_USER)"
  using stat_blank_shifts [of "sample_proc (stat_line ''42'' ''tmux: client'' CHR ''S'' 7 (replicate 17 ''0'') ''99'' ''5120'')" 42 "''42''"
      "''tmux:''" "''client''" "CHR ''S''" 7 "replicate 17 ''0''" "''99''" "''5120''" "([], 0, PROC_UNKNOWN)"]
  by (simp add: stat_line_def dec_seven CGRP_COMM_LEN_def)

subsection \<open>Expressions\<close>

text \<open>The values that a property can be compared with: the parent is compared as its binary or as its pid.\<close>

definition value_fits :: "cgrp_prop \<Rightarrow> cgrp_value \<Rightarrow> bool" where
  "value_fits p v \<longleftrightarrow>
     (case v of
        Value_string _ \<Rightarrow> p \<notin> {Prop_type, Prop_euid, Prop_egid, Prop_reclassify}
      | Value_u32 _ \<Rightarrow> p \<in> {Prop_type, Prop_euid, Prop_egid, Prop_reclassify, Prop_parent}
      | Value_s32 _ \<Rightarrow> False)"

lemma parent_value: "\<exists>s. fst (prop_value P Prop_parent (Value_string w) attr) = Value_string s"
  by (cases "process_get_binary P (zero_attr\<lparr>pa_pid := pa_ppid (snd (process_get_ppid P attr))\<rparr>)" rule: prod.exhaust)
    (simp add: prop_value_def Let_def split: bool.split)

lemma value_kind:
  "value_fits p w = (case w of Value_string _ \<Rightarrow> \<exists>s. fst (prop_value P p w attr) = Value_string s
    | Value_u32 _ \<Rightarrow> \<exists>n. fst (prop_value P p w attr) = Value_u32 n | Value_s32 _ \<Rightarrow> False)"
  "fst (prop_value P p w attr) \<noteq> Value_s32 i"
proof -
  have "value_fits p w = (case w of Value_string _ \<Rightarrow> \<exists>s. fst (prop_value P p w attr) = Value_string s
      | Value_u32 _ \<Rightarrow> \<exists>n. fst (prop_value P p w attr) = Value_u32 n | Value_s32 _ \<Rightarrow> False) \<and>
    fst (prop_value P p w attr) \<noteq> Value_s32 i"
  proof (cases "p = Prop_parent")
    case True
    then show ?thesis using parent_value [of P _ attr] by (cases w) (auto simp: value_fits_def prop_value_def Let_def)
  next
    case False
    then show ?thesis by (cases p; cases w; simp add: value_fits_def prop_value_def Let_def)
  qed
  then show "value_fits p w = (case w of Value_string _ \<Rightarrow> \<exists>s. fst (prop_value P p w attr) = Value_string s
      | Value_u32 _ \<Rightarrow> \<exists>n. fst (prop_value P p w attr) = Value_u32 n | Value_s32 _ \<Rightarrow> False)"
    and "fst (prop_value P p w attr) \<noteq> Value_s32 i" by simp_all
qed

text \<open>C34. Comparisons are typed: with a value of the kind of the property exactly one of \<open>==\<close> and \<open>!=\<close> holds, with any other
  value none of the three comparisons does; what the check of the constructor accepts for the types, users and
  groups is of the right kind.\<close>

theorem typed_comparison:
  "let holds = (\<lambda>op. fst (expr_eval P (prop_expr D p op v) attr)); stored = snd (prop_type_check D p v)
   in (value_fits p stored \<longrightarrow> holds Op_equal \<noteq> holds Op_noteq) \<and>
      (\<not> value_fits p stored \<longrightarrow> \<not> holds Op_equal \<and> \<not> holds Op_noteq \<and> \<not> holds Op_less) \<and>
      (p \<in> {Prop_type, Prop_euid, Prop_egid} \<and> fst (prop_type_check D p v) \<longrightarrow> value_fits p stored)"
proof -
  define holds where "holds = (\<lambda>op. fst (expr_eval P (prop_expr D p op v) attr))"
  define stored where "stored = snd (prop_type_check D p v)"
  have holds: "holds op = prop_match op (fst (prop_value P p stored attr)) stored" for op
    by (simp add: holds_def stored_def prop_expr_def prop_eval_def split_beta)
  have "value_fits p stored" if "p \<in> {Prop_type, Prop_euid, Prop_egid}" "fst (prop_type_check D p v)"
    using that by (cases p; cases v; simp add: value_fits_def stored_def prop_type_check_def split: if_splits)
  moreover have "holds Op_equal \<noteq> holds Op_noteq" if "value_fits p stored"
    using that unfolding value_kind(1) [of p stored P attr] holds by (cases stored) auto
  moreover have "\<not> holds Op_equal \<and> \<not> holds Op_noteq \<and> \<not> holds Op_less" if "\<not> value_fits p stored"
    using that value_kind(2) [of P p stored attr] unfolding value_kind(1) [of p stored P attr] holds by (cases stored; cases "fst (prop_value P p stored attr)") auto
  ultimately show ?thesis unfolding holds_def stored_def Let_def by blast
qed

theorem typed_comparison_witness:
  "fst (expr_eval (sample_proc []) (prop_expr \<lparr>db_user = (\<lambda>_. Some 1000), db_group = (\<lambda>_. None)\<rparr> Prop_euid Op_equal (Value_string ''nemo'')) zero_attr) \<noteq>
   fst (expr_eval (sample_proc []) (prop_expr \<lparr>db_user = (\<lambda>_. Some 1000), db_group = (\<lambda>_. None)\<rparr> Prop_euid Op_noteq (Value_string ''nemo'')) zero_attr)"
  using typed_comparison [of "sample_proc []" "\<lparr>db_user = (\<lambda>_. Some 1000), db_group = (\<lambda>_. None)\<rparr>" Prop_euid "Value_string ''nemo''" zero_attr, unfolded Let_def]
  by (simp add: prop_type_check_def cgrp_getuid_def value_fits_def)

text \<open>The arguments that were asked for first.\<close>

lemma argv_loop_bound: "length (fst (argv_loop limit s arg cp term args)) \<le> max limit (length args)"
proof (induction limit s arg cp "term" args rule: argv_loop.induct)
  case (2 limit c s arg cp "term" args)
  then show ?case by (auto simp: Let_def)
qed simp

text \<open>The arguments of a task are read once: after a rule has looked at argument \<open>n\<close>, every later argument is empty for
  the rest of the classification, whatever the command line is.\<close>

theorem later_argument_empty:
  assumes "Proc_cmdline \<notin> pa_mask attr" and "pe_cmdline P (pa_pid attr) = Some file" and "file \<noteq> []" and "n < m"
  shows "fst (prop_value P (Prop_arg m) v (snd (prop_value P (Prop_arg n) w attr))) = Value_string []"
proof -
  let ?attr1 = "snd (process_get_argv P (n + 1) attr)"
  obtain args cmd where run: "argv_loop (n + 1) (butlast (take (CGRP_MAX_CMDLINE - 1) file) @ [NUL]) [] [] False [] = (args, cmd)"
    by (rule prod.exhaust)
  have len: "length args \<le> n + 1" using argv_loop_bound [of "n + 1" _ "[]" "[]" False "[]"] run by (metis fst_conv list.size(3) max_0R)
  have "take (CGRP_MAX_CMDLINE - 1) file \<noteq> []" using assms(3) by (simp add: CGRP_MAX_CMDLINE_def)
  then have attr1: "pa_argc ?attr1 = length args" "Proc_cmdline \<in> pa_mask ?attr1"
    using assms(1,2) run by (simp_all add: process_get_argv_def Let_def)
  then have "process_get_argv P (m + 1) ?attr1 = (True, ?attr1)" by (simp add: process_get_argv_def)
  then show ?thesis using attr1(1) len assms(4) by (simp add: prop_value_def Let_def)
qed

theorem later_argument_empty_witness:
  "fst (prop_value (sample_proc []\<lparr>pe_cmdline := (\<lambda>_. Some (''sh'' @ [NUL] @ ''-c'' @ [NUL]))\<rparr>) (Prop_arg 1) (Value_string ''-c'')
     (snd (prop_value (sample_proc []\<lparr>pe_cmdline := (\<lambda>_. Some (''sh'' @ [NUL] @ ''-c'' @ [NUL]))\<rparr>) (Prop_arg 0) (Value_string ''sh'') zero_attr))) =
   Value_string []"
  by (rule later_argument_empty [of _ _ "''sh'' @ [NUL] @ ''-c'' @ [NUL]"]) (simp_all add: zero_attr_def)

subsection \<open>Add-on rules\<close>




subsection \<open>Priorities\<close>



subsection \<open>Limits\<close>

lemma nth_upd_part: "i < length (c_parts st) \<Longrightarrow> c_parts (upd_part i f st) ! j = (if j = i then f (c_parts st ! i) else c_parts st ! j)"
  by (simp add: upd_part_def nth_list_update)

text \<open>What the later settings of a new partition leave alone.\<close>

definition same_limit :: "nat \<Rightarrow> cg_context \<Rightarrow> cg_context \<Rightarrow> bool" where
  "same_limit i s s' \<longleftrightarrow> length (c_parts s') = length (c_parts s) \<and> pt_limit_mem (c_parts s' ! i) = pt_limit_mem (c_parts s ! i)"

lemma same_limit_trans: "same_limit i s s' \<Longrightarrow> same_limit i s' s'' \<Longrightarrow> same_limit i s s''"
  by (simp add: same_limit_def)

lemma same_limit_write: "same_limit i s s1 \<Longrightarrow> same_limit i s (snd (write_control E j control str s1))"
  by (simp add: same_limit_def write_control_def c_note_def)

lemma same_limit_cpu: "i < length (c_parts s) \<Longrightarrow> same_limit i s (snd (partition_limit_cpu E i share s))"
  by (auto simp: partition_limit_cpu_def Let_def nth_upd_part intro!: same_limit_write)
    (simp_all add: same_limit_def upd_part_def)

lemma same_limit_rt:
  assumes "i < length (c_parts s)" shows "same_limit i s (snd (partition_limit_rt E i period runtime s))"
proof -
  let ?st1 = "upd_part i (pt_rt_runtime_update (\<lambda>_. runtime)) (upd_part i (pt_rt_period_update (\<lambda>_. period)) s)"
  have st1: "same_limit i s ?st1" and stay: "same_limit i s s" using assms by (simp_all add: same_limit_def upd_part_def)
  show ?thesis
    by (simp add: partition_limit_rt_def Let_def split_beta stay st1 same_limit_write split: bool.split)
qed

lemma same_limit_ctrl: "same_limit i s s1 \<Longrightarrow> same_limit i s (snd (ctrl_apply E j name val s1))"
  by (auto simp: ctrl_apply_def same_limit_write split: option.split)

lemma same_limit_settings: "same_limit i s s1 \<Longrightarrow> same_limit i s (snd (apply_settings E j cs ok s1))"
proof (induction cs arbitrary: ok s1)
  case (Cons c cs)
  show ?case using Cons.IH [OF same_limit_ctrl [OF Cons.prems]] by (cases c) (simp add: split_beta)
qed simp

lemma limit_mem_set: "i < length (c_parts s) \<Longrightarrow>
    pt_limit_mem (c_parts (snd (partition_limit_mem E i limit s)) ! i) = ucast limit \<and>
    length (c_parts (snd (partition_limit_mem E i limit s))) = length (c_parts s)"
  by (simp add: partition_limit_mem_def Let_def write_control_def c_note_def nth_upd_part) (simp add: upd_part_def)

text \<open>C40. A new partition keeps only the low 32 bits of its memory limit: a configured limit of 4 GiB is no limit.\<close>

theorem memory_limit_cut:
  assumes "partition_add E opts p st = (Some i, st')"
  shows "i < length (c_parts st') \<and> uint (pt_limit_mem (c_parts st' ! i)) = uint (pt_limit_mem p) mod 2 ^ 32"
proof -
  define desired where "desired = (case c_desired_mount st of None \<Rightarrow> implicit_root (pt_path p) | Some m \<Rightarrow> m)"
  define st1 where "st1 = st\<lparr>c_desired_mount := Some desired\<rparr>"
  define st2 where "st2 = (if c_actual_mount st1 = None then snd (mount_cgroupfs E opts st1) else st1)"
  define path where "path = remap_path desired (c_actual_mount st2) (pt_path p)"
  define st3 where "st3 = st2\<lparr>c_parts := c_parts st2 @ [p\<lparr>pt_path := path, pt_tasks := w_open (E (c_log st2)) path ''tasks'',
      pt_freeze := w_open (E (c_log st2)) path ''freezer.state'', pt_cpu := w_open (E (c_log st2)) path ''cpu.shares'',
      pt_mem := w_open (E (c_log st2)) path ''memory.limit_in_bytes'', pt_limit_cpu := 0, pt_limit_mem := 0,
      pt_rt_period := 0, pt_rt_runtime := 0\<rparr>]\<rparr>"
  have none: "c_parttbl st (pt_name p) = None" using assms by (simp add: partition_add_def Let_def split: if_splits)
  have "i = length (c_parts st2)" and st': "c_parts st' = c_parts (snd (partition_apply_settings E i (snd (partition_limit_rt E i
      (pt_rt_period p) (pt_rt_runtime p) (snd (partition_limit_mem E i (ucast (pt_limit_mem p)) (snd (partition_limit_cpu E i
      (pt_limit_cpu p) st3))))))))"
    using assms unfolding partition_add_def Let_def desired_def [symmetric] st1_def [symmetric] st2_def [symmetric]
      path_def [symmetric] st3_def [symmetric] by (auto simp: none)
  then have i: "i < length (c_parts st3)" by (simp add: st3_def)
  let ?s4 = "snd (partition_limit_cpu E i (pt_limit_cpu p) st3)"
  let ?s5 = "snd (partition_limit_mem E i (ucast (pt_limit_mem p)) ?s4)"
  let ?s6 = "snd (partition_limit_rt E i (pt_rt_period p) (pt_rt_runtime p) ?s5)"
  have i4: "i < length (c_parts ?s4)" using i same_limit_cpu [OF i, of E "pt_limit_cpu p"] by (simp add: same_limit_def)
  note s5 = limit_mem_set [OF i4, of E "ucast (pt_limit_mem p)"]
  then have i5: "i < length (c_parts ?s5)" using i4 by simp
  have "same_limit i ?s5 (snd (partition_apply_settings E i ?s6))"
    unfolding partition_apply_settings_def by (rule same_limit_settings [OF same_limit_rt [OF i5]])
  then show ?thesis using s5 i5 unfolding same_limit_def st' by (simp add: unsigned_ucast_eq take_bit_eq_mod uint_mod_distrib)
qed

subsection \<open>Moves\<close>


lemma add_moved: "partition_add_process E part a st = Some r \<Longrightarrow> moved part st (snd r)"
  using partition_add_moved [of E part a st "fst r" "snd r"] by simp









subsection \<open>A sample plugin\<close>

definition sample_world :: cg_world where
  "sample_world = \<lparr>pe_exe = (\<lambda>_. Some ''/bin/app''), pe_cmdline = (\<lambda>_. None), pe_stat = (\<lambda>_. None), pe_status = (\<lambda>_. None),
     pe_owner = (\<lambda>_. None), w_tasks = (\<lambda>_ _. Sys_done), w_open = (\<lambda>_ _. True), w_write = (\<lambda>_ _ _. True),
     w_getpriority = (\<lambda>_. 0), w_setpriority = (\<lambda>_ _. Sys_done), w_setscheduler = (\<lambda>_. True),
     w_oom = (\<lambda>_. Oom_no_entry), w_mount = True\<rparr>"

definition sample_part :: cg_partition where
  "sample_part = \<lparr>pt_name = ''root'', pt_path = ''/syspart'', pt_tasks = True, pt_freeze = True, pt_cpu = True, pt_mem = True,
     pt_limit_cpu = 0, pt_limit_mem = 0x100000005, pt_rt_period = 0, pt_rt_runtime = 0, pt_settings = []\<rparr>"

definition sample_rules :: cgrp_rules where
  "sample_rules = \<lparr>r_procdefs = [], r_fallback = [], r_addons = [], r_ruletbl = Map.empty, r_addontbl = Map.empty,
     r_event_mask = {}\<rparr>"

definition sample_state :: cg_context where
  "sample_state = \<lparr>c_procs = Map.empty, c_next = 0, c_proctbl = (\<lambda>_. []), c_groups = [], c_grouptbl = Map.empty, c_parts = [],
     c_parttbl = Map.empty, c_root = Some 0, c_desired_mount = Some ''/syspart'', c_actual_mount = Some ''/syspart'',
     c_controls = [], c_rules = sample_rules, c_always_fallback = False, c_prio_preserve = PRIO_NONE,
     c_active_process = None, c_active_group = None, c_leaders = Map.empty, c_timers = [], c_subscribers = [],
     c_apptrack_update = False, c_prio_curve = None, c_oom_curve = None, c_oom_default = 0, c_log = []\<rparr>"

text \<open>Two tasks of one thread group, and who traces them.\<close>

definition sample_process :: "int \<Rightarrow> int \<Rightarrow> adj_mode \<Rightarrow> cg_process" where
  "sample_process pid tracer mode = \<lparr>cp_pid = pid, cp_tgid = 1, cp_tracer = tracer, cp_binary = ''/bin/app'', cp_argv0 = None,
     cp_argvx = None, cp_name = ''/bin/app'', cp_group = None, cp_partition = None, cp_priority = 0, cp_prio_mode = mode,
     cp_oom_adj = 0, cp_oom_mode = Mode_default, cp_track = None\<rparr>"

definition sample_pair :: "int \<Rightarrow> int \<Rightarrow> cg_context" where
  "sample_pair tracer1 tracer2 = sample_state\<lparr>
     c_procs := [0 \<mapsto> sample_process 1 tracer1 Mode_default, 1 \<mapsto> sample_process 2 tracer2 Mode_locked], c_next := 2,
     c_proctbl := (\<lambda>i. if i = 0 then [0] else if i = 1 then [1] else [])\<rparr>"

lemma sample_initial: "cg_initial sample_state"
  by (simp add: cg_initial_def sample_state_def sample_rules_def rules_ok_def groups_exist_def known_actions_def rules_actions_def)

lemma sample_buckets: "proc_hash_bucket 1 = 0" "proc_hash_bucket 2 = 1"
  by (simp_all add: proc_hash_bucket_def PROC_BUCKETS_def)



lemma sample_accepts: "accepts_tasks (\<lambda>_. sample_world)"
  by (simp add: accepts_tasks_def sample_world_def)


theorem memory_limit_cut_witness:
  "uint (pt_limit_mem (c_parts (snd (partition_add (\<lambda>_. sample_world) {} sample_part sample_state)) ! 0)) = 5"
proof -
  have "fst (partition_add (\<lambda>_. sample_world) {} sample_part sample_state) = Some 0"
    by (simp add: partition_add_def Let_def sample_state_def)
  then have "partition_add (\<lambda>_. sample_world) {} sample_part sample_state =
      (Some 0, snd (partition_add (\<lambda>_. sample_world) {} sample_part sample_state))"
    by (simp add: prod_eq_iff)
  from memory_limit_cut [OF this] show ?thesis by (simp add: sample_part_def)
qed

subsection \<open>The plugin as a whole\<close>

text \<open>C8. In every reachable state of the cgroups plugin the process table holds each process exactly once, in the bucket of its pid;
  each group lists exactly the processes that have it as their group, without duplicates; and the active application is
  a process of the table whose group is the active group.\<close>

theorem cgroups_tables_exact:
  assumes "cg_reach E st"
  shows "(\<forall>i. distinct (c_proctbl st i)) \<and>
    (\<forall>i a. a \<in> set (c_proctbl st i) \<longleftrightarrow> (\<exists>p. c_procs st a = Some p \<and> proc_hash_bucket (cp_pid p) = i)) \<and>
    (\<forall>g < length (c_groups st). distinct (cg_processes (c_groups st ! g)) \<and>
       (\<forall>a. a \<in> set (cg_processes (c_groups st ! g)) \<longleftrightarrow> (\<exists>p. c_procs st a = Some p \<and> cp_group p = Some g))) \<and>
    (case c_active_process st of None \<Rightarrow> c_active_group st = None
     | Some a \<Rightarrow> \<exists>p. c_procs st a = Some p \<and> c_active_group st = cp_group p)"
proof -
  note ok = cg_okD [OF cg_reach_ok [OF assms]]
  show ?thesis
  proof (intro conjI allI impI)
    show "distinct (c_proctbl st i)" for i using ok(1) by (simp add: cg_table_ok_def)
    show "a \<in> set (c_proctbl st i) \<longleftrightarrow> (\<exists>p. c_procs st a = Some p \<and> proc_hash_bucket (cp_pid p) = i)" for i a
      using ok(1) by (auto simp: cg_table_ok_def proc_key_def)
    show "case c_active_process st of None \<Rightarrow> c_active_group st = None
     | Some a \<Rightarrow> \<exists>p. c_procs st a = Some p \<and> c_active_group st = cp_group p"
      using ok(3) by (auto simp: active_ok_def proc_key_def split: option.splits)
    fix g assume g: "g < length (c_groups st)"
    then show "distinct (cg_processes (c_groups st ! g))" using ok(2) by (simp add: members_ok_def)
    show "a \<in> set (cg_processes (c_groups st ! g)) \<longleftrightarrow> (\<exists>p. c_procs st a = Some p \<and> cp_group p = Some g)" for a
      using ok(2) g by (auto simp: members_ok_def proc_key_def)
  qed
qed

theorem cgroups_tables_exact_witness: "\<forall>i. distinct (c_proctbl sample_state i)"
  using cgroups_tables_exact [OF cg_reach_start [OF sample_initial, of "\<lambda>_. sample_world"]] by blast

text \<open>C9. When the plugin crashes or never returns from a step in a reachable state, then tracers form a cycle, or an action puts a
  task off for no time, or the timer of the last retry fired, or a decision lacks one of the strings its action
  asks for.\<close>

theorem cgroups_crash_causes:
  assumes "cg_reach E st" and "cg_input_ok st input" and "cg_step E input st = None"
  shows "\<not> loopfree st \<or> Action_classify 0 \<in> known_actions (c_rules st) \<or>
    (\<exists>i. input = G_timer i \<and> i < length (c_timers st) \<and> snd (c_timers st ! i) \<ge> CGRP_RECLASSIFY_MAX) \<or>
    (\<exists>signal names facts name act f. input = G_decision signal names facts \<and> name \<in> set names \<and>
       map_of policy_actions_table name = Some act \<and> f \<in> set (facts name) \<and> \<not> complete_fact act f)"
  using cg_step_ok [OF cg_reach_ok [OF assms(1)] assms(2), of E] assms(3)
  by (auto simp: cg_hazard_def complete_names_def split: cg_input.splits)

theorem cgroups_crash_causes_witness:
  "\<exists>act. \<not> complete_fact act Map.empty"
proof -
  have "cg_step (\<lambda>_. sample_world) (G_decision ''cgroup_actions'' [''cgroup_partition''] (\<lambda>_. [Map.empty])) sample_state = None"
    by (simp add: cg_step_def txparser_def policy_actions_table_def reparent_action_def get_string_def)
  from cgroups_crash_causes [OF cg_reach_start [OF sample_initial] _ this] show ?thesis
    by (auto simp: cg_input_ok_def loopfree_def ranked_def tracer_of_def known_actions_def rules_actions_def sample_state_def sample_rules_def)
qed

subsection \<open>Moving a task\<close>



text \<open>C19. Two tasks that trace each other, or any cycle of tracers: moving one of them to a partition whose \<open>tasks\<close> file takes the
  writes never returns.\<close>

theorem traced_cycle_never_moves:
  assumes "accepts_tasks E" and "\<forall>c \<in> C. \<exists>t \<in> C. tracer_of st c = Some t" and "a \<in> C"
  shows "partition_add_process E part a st = None"
  using cycle_no_result [of E part a st _ C] assms by (cases "partition_add_process E part a st") (auto simp: trace_cycle_def)

theorem traced_cycle_never_moves_witness:
  "partition_add_process (\<lambda>_. sample_world) 0 0 (sample_pair 2 1) = None"
proof (rule traced_cycle_never_moves [OF sample_accepts])
  have "proc_hash_lookup (sample_pair 2 1) 2 = Some 1" "proc_hash_lookup (sample_pair 2 1) 1 = Some 0"
    by (simp_all add: proc_hash_lookup_def sample_buckets has_pid_def sample_pair_def sample_process_def)
  moreover have "c_procs (sample_pair 2 1) 0 = Some (sample_process 1 2 Mode_default)"
    "c_procs (sample_pair 2 1) 1 = Some (sample_process 2 1 Mode_locked)"
    by (simp_all add: sample_pair_def)
  ultimately have "tracer_of (sample_pair 2 1) 0 = Some 1" "tracer_of (sample_pair 2 1) 1 = Some 0"
    by (simp_all add: tracer_of_def sample_process_def)
  then show "\<forall>c \<in> {0, 1}. \<exists>t \<in> {0, 1}. tracer_of (sample_pair 2 1) c = Some t" by blast
qed simp

subsection \<open>Entering a group\<close>





end
