(* ===== verification/Dbus.thy ===== *)
theory Dbus
  imports Prelude Option_Post "HOL-Library.AList"
begin

text \<open>
  The dbus plugin (\<open>src/plugins/dbus\<close>): the other plugins register the methods they export, the
  signals they listen for and the bus names they watch; the plugin routes what libdbus delivers to
  them and subscribes with the bus for it, on the session bus as soon as that is announced.

  The tables of GLib are association lists by key; what they and the lists point to lives at
  addresses that are never used again, so that reading memory that was freed is the result
  \<open>None\<close>.  A handler of another plugin is a number, its effect the calls of the exported functions
  that it makes (\<open>dv_cmds\<close>, a function of the log).  Allocation does not fail.
\<close>

subsection \<open>The state\<close>

datatype bus_type = DBUS_BUS_SESSION | DBUS_BUS_SYSTEM | DBUS_BUS_STARTER

text \<open>The handlers of signals: the plugin's own one for the announced session bus, and those of clients.\<close>

datatype signal_fun = Session_bus_up | Client_handler nat

text \<open>The callbacks of a bus, one in each of \<open>dbus-watch.c\<close>, \<open>dbus-method.c\<close> and \<open>dbus-signal.c\<close>, and the message filters.\<close>

datatype bus_callback = Watch_bus_event | Method_bus_event | Signal_bus_event

datatype bus_filter = Watch_filter | Signal_filter

record bus =
  b_conn :: "nat option"
  b_watches :: "(string \<times> addr) list"
  b_objects :: "(string \<times> addr) list"
  b_signals :: "(string \<times> addr) list"
  b_notify :: "bus_callback list"

record watchlist =
  wl_name :: string
  wl_watches :: "addr list"

record watch =
  wt_handler :: nat
  wt_data :: nat

record siglist =
  sl_key :: string
  sl_rule :: string
  sl_signals :: "addr list"

record signal_node =
  si_signature :: cstring
  si_path :: cstring
  si_sender :: cstring
  si_handler :: signal_fun
  si_data :: nat

record dbus_method =
  me_interface :: cstring
  me_member :: string
  me_signature :: cstring
  me_handler :: nat
  me_data :: nat

record dbus_object =
  ob_path :: string
  ob_bus :: bus_type
  ob_methods :: "(string \<times> dbus_method) list"

text \<open>A message as libdbus presents it; \<open>dm_strings\<close> are the arguments up to the first one that is not a string.\<close>

record dbus_msg =
  dm_signal :: bool
  dm_path :: cstring
  dm_interface :: cstring
  dm_member :: cstring
  dm_signature :: cstring
  dm_sender :: cstring
  dm_strings :: "string list"

datatype dbus_out =
    Connect cstring
  | Register_bus nat
  | Add_filter nat bus_filter
  | Remove_filter nat bus_filter
  | Add_match nat string
  | Remove_match nat string
  | Register_path nat string addr
  | Unregister_path nat string
  | Release nat
  | Signal_call signal_fun nat dbus_msg
  | Method_call nat nat dbus_msg
  | Watch_call nat nat string string string

text \<open>The exported functions with their arguments.\<close>

datatype dbus_cmd =
    Cmd_add_method bus_type string cstring cstring cstring nat nat
  | Cmd_del_method bus_type string cstring cstring cstring nat nat
  | Cmd_add_signal bus_type cstring cstring cstring cstring cstring nat nat
  | Cmd_del_signal bus_type cstring cstring cstring cstring cstring nat nat
  | Cmd_add_watch bus_type string nat nat
  | Cmd_del_watch bus_type string nat nat

text \<open>
  What libdbus and the clients do: the connection that opening an address or getting a well known bus gives,
  whether registering with the bus and registering a path succeed, in which order GLib walks a table, whether the uninitialised error of
  \<open>watchlist_add_match\<close> looks like one that is set, and the calls that a handler makes.
\<close>

record dbus_env =
  dv_open :: "dbus_out list \<Rightarrow> string \<Rightarrow> nat option"
  dv_get :: "dbus_out list \<Rightarrow> bus_type \<Rightarrow> nat option"
  dv_register :: "dbus_out list \<Rightarrow> nat \<Rightarrow> bool"
  dv_path :: "dbus_out list \<Rightarrow> nat \<Rightarrow> string \<Rightarrow> bool"
  dv_order :: "(string \<times> addr) list \<Rightarrow> (string \<times> addr) list"
  dv_junk :: "dbus_out list \<Rightarrow> bool"
  dv_cmds :: "dbus_out list \<Rightarrow> dbus_cmd list"

record dbus_state =
  d_system :: "bus option"
  d_session :: "bus option"
  d_watchlists :: "addr \<rightharpoonup> watchlist"
  d_watches :: "addr \<rightharpoonup> watch"
  d_siglists :: "addr \<rightharpoonup> siglist"
  d_signals :: "addr \<rightharpoonup> signal_node"
  d_objects :: "addr \<rightharpoonup> dbus_object"
  d_next :: addr
  d_refs :: int
  d_log :: "dbus_out list"

definition d_note :: "dbus_out \<Rightarrow> dbus_state \<Rightarrow> dbus_state" where
  "d_note x st = st\<lparr>d_log := d_log st @ [x]\<rparr>"

subsection \<open>Buses\<close>

fun bus_by_type :: "bus_type \<Rightarrow> dbus_state \<Rightarrow> bus option" where
  "bus_by_type DBUS_BUS_SYSTEM st = d_system st"
| "bus_by_type DBUS_BUS_SESSION st = d_session st"
| "bus_by_type DBUS_BUS_STARTER st = None"

fun set_bus :: "bus_type \<Rightarrow> bus \<Rightarrow> dbus_state \<Rightarrow> dbus_state" where
  "set_bus DBUS_BUS_SYSTEM b st = st\<lparr>d_system := Some b\<rparr>"
| "set_bus DBUS_BUS_SESSION b st = st\<lparr>d_session := Some b\<rparr>"
| "set_bus DBUS_BUS_STARTER b st = st"

definition upd_bus :: "bus_type \<Rightarrow> (bus \<Rightarrow> bus) \<Rightarrow> dbus_state \<Rightarrow> dbus_state" where
  "upd_bus t f st = (case bus_by_type t st of None \<Rightarrow> st | Some b \<Rightarrow> set_bus t (f b) st)"

text \<open>The connection of a bus, which the operations on the lists test.\<close>

definition bus_conn :: "bus_type \<Rightarrow> dbus_state \<Rightarrow> nat option" where
  "bus_conn t st = (case bus_by_type t st of None \<Rightarrow> None | Some b \<Rightarrow> b_conn b)"

definition on_conn :: "bus_type \<Rightarrow> (nat \<Rightarrow> dbus_out) \<Rightarrow> dbus_state \<Rightarrow> dbus_state" where
  "on_conn t f st = (case bus_conn t st of None \<Rightarrow> st | Some c \<Rightarrow> d_note (f c) st)"

definition bus_by_connection :: "nat \<Rightarrow> dbus_state \<Rightarrow> bus_type option" where
  "bus_by_connection c st =
     (if bus_conn DBUS_BUS_SYSTEM st = Some c then Some DBUS_BUS_SYSTEM
      else if bus_conn DBUS_BUS_SESSION st = Some c then Some DBUS_BUS_SESSION
      else None)"

text \<open>The loop that looks for a node reads each node up to the one it finds.\<close>

fun find_node :: "(addr \<rightharpoonup> 'n) \<Rightarrow> ('n \<Rightarrow> bool) \<Rightarrow> addr list \<Rightarrow> addr option option" where
  "find_node heap P [] = Some None"
| "find_node heap P (a # as) = do { x \<leftarrow> heap a; if P x then Some (Some a) else find_node heap P as }"

text \<open>The buffers of the keys and rules hold 1024 bytes.\<close>

definition text_or_empty :: "cstring \<Rightarrow> string" where
  "text_or_empty s = (case s of None \<Rightarrow> [] | Some s \<Rightarrow> s)"

definition dbus_buf :: "string \<Rightarrow> string" where
  "dbus_buf s = take 1023 s"

subsection \<open>Signals\<close>

definition signal_key :: "cstring \<Rightarrow> cstring \<Rightarrow> string" where
  "signal_key interface member = dbus_buf (text_or_empty interface @ ''.'' @ text_or_empty member)"

definition rule_match :: "string \<Rightarrow> cstring \<Rightarrow> string" where
  "rule_match what val = (case val of None \<Rightarrow> [] | Some v \<Rightarrow> '','' @ what @ ''='' @ [CHR 0x27] @ v @ [CHR 0x27])"

definition signal_rule :: "cstring \<Rightarrow> cstring \<Rightarrow> cstring \<Rightarrow> string" where
  "signal_rule interface member path =
     dbus_buf (''type='' @ [CHR 0x27] @ ''signal'' @ [CHR 0x27] @ rule_match ''interface'' interface @
       rule_match ''member'' member @ rule_match ''path'' path)"

definition field_matches :: "cstring \<Rightarrow> cstring \<Rightarrow> bool" where
  "field_matches x y \<longleftrightarrow> x = None \<or> y = None \<or> x = y"

definition signal_matches :: "signal_node \<Rightarrow> cstring \<Rightarrow> cstring \<Rightarrow> cstring \<Rightarrow> bool" where
  "signal_matches sig signature path sender \<longleftrightarrow>
     field_matches (si_signature sig) signature \<and> field_matches (si_path sig) path \<and> field_matches (si_sender sig) sender"

definition siglist_lookup :: "bus_type \<Rightarrow> string \<Rightarrow> dbus_state \<Rightarrow> addr option" where
  "siglist_lookup t key st = (case bus_by_type t st of None \<Rightarrow> None | Some b \<Rightarrow> map_of (b_signals b) key)"

definition siglist_add_match :: "bus_type \<Rightarrow> string \<Rightarrow> dbus_state \<Rightarrow> dbus_state" where
  "siglist_add_match t rule st = on_conn t (\<lambda>c. Add_match c rule) st"

definition siglist_del_match :: "bus_type \<Rightarrow> string \<Rightarrow> dbus_state \<Rightarrow> dbus_state" where
  "siglist_del_match t rule st = on_conn t (\<lambda>c. Remove_match c rule) st"

definition siglist_add :: "bus_type \<Rightarrow> string \<Rightarrow> string \<Rightarrow> dbus_state \<Rightarrow> addr \<times> dbus_state" where
  "siglist_add t key rule st =
     (let l = d_next st;
          st1 = st\<lparr>d_next := l + 1, d_siglists := (d_siglists st)(l \<mapsto> \<lparr>sl_key = key, sl_rule = rule, sl_signals = []\<rparr>)\<rparr>;
          st2 = upd_bus t (b_signals_update (\<lambda>ts. ts @ [(key, l)])) st1
      in (l, siglist_add_match t rule st2))"

text \<open>The destructor of the table: the nodes, and then the list itself, are freed.\<close>

definition siglist_purge :: "addr \<Rightarrow> dbus_state \<Rightarrow> dbus_state option" where
  "siglist_purge l st =
     do { sl \<leftarrow> d_siglists st l;
          Some (st\<lparr>d_signals := d_signals st |` (- set (sl_signals sl)), d_siglists := (d_siglists st)(l := None)\<rparr>) }"

definition siglist_del :: "bus_type \<Rightarrow> addr \<Rightarrow> dbus_state \<Rightarrow> dbus_state option" where
  "siglist_del t l st =
     do { sl \<leftarrow> d_siglists st l;
          siglist_purge l (upd_bus t (b_signals_update (AList.delete (sl_key sl))) (siglist_del_match t (sl_rule sl) st)) }"

definition signal_add :: "bus_type \<Rightarrow> cstring \<Rightarrow> cstring \<Rightarrow> cstring \<Rightarrow> cstring \<Rightarrow> cstring \<Rightarrow> signal_fun \<Rightarrow> nat \<Rightarrow>
    dbus_state \<Rightarrow> (bool \<times> dbus_state) option" where
  "signal_add t path interface member signature sender handler data st =
     (if bus_by_type t st = None then Some (False, st)
      else
        (let s = d_next st;
             st1 = st\<lparr>d_next := s + 1, d_signals := (d_signals st)(s \<mapsto> \<lparr>si_signature = signature, si_path = path,
               si_sender = sender, si_handler = handler, si_data = data\<rparr>)\<rparr>;
             key = signal_key interface member;
             (l, st2) = (case siglist_lookup t key st1 of
                 Some l \<Rightarrow> (l, st1)
               | None \<Rightarrow> siglist_add t key (signal_rule interface member path) st1)
         in do { sl \<leftarrow> d_siglists st2 l;
                 Some (True, st2\<lparr>d_siglists := (d_siglists st2)(l \<mapsto> sl\<lparr>sl_signals := sl_signals sl @ [s]\<rparr>)\<rparr>) }))"

definition signal_del :: "bus_type \<Rightarrow> cstring \<Rightarrow> cstring \<Rightarrow> cstring \<Rightarrow> cstring \<Rightarrow> cstring \<Rightarrow> signal_fun \<Rightarrow> nat \<Rightarrow>
    dbus_state \<Rightarrow> (bool \<times> dbus_state) option" where
  "signal_del t path interface member signature sender handler data st =
     (case siglist_lookup t (signal_key interface member) st of
        None \<Rightarrow> Some (False, st)
      | Some l \<Rightarrow>
          do { sl \<leftarrow> d_siglists st l;
               found \<leftarrow> find_node (d_signals st)
                 (\<lambda>sig. signal_matches sig signature path sender \<and> si_handler sig = handler \<and> si_data sig = data) (sl_signals sl);
               case found of
                 None \<Rightarrow> Some (False, st)
               | Some s \<Rightarrow>
                   (let rest = remove1 s (sl_signals sl);
                        st1 = st\<lparr>d_siglists := (d_siglists st)(l \<mapsto> sl\<lparr>sl_signals := rest\<rparr>),
                          d_signals := (d_signals st)(s := None)\<rparr>
                    in if rest = [] then map_option (Pair True) (siglist_del t l st1) else Some (True, st1)) })"

subsection \<open>Name watches\<close>

definition watch_rule :: "string \<Rightarrow> string" where
  "watch_rule name =
     (let q = [CHR 0x27]
      in dbus_buf (''sender='' @ q @ ''org.freedesktop.DBus'' @ q @ '',path='' @ q @ ''/org/freedesktop/DBus'' @ q @
        '',interface='' @ q @ ''org.freedesktop.DBus'' @ q @ '',member='' @ q @ ''NameOwnerChanged'' @ q @
        '',arg0='' @ q @ name @ q))"

definition watchlist_lookup :: "bus_type \<Rightarrow> string \<Rightarrow> dbus_state \<Rightarrow> addr option" where
  "watchlist_lookup t name st = (case bus_by_type t st of None \<Rightarrow> None | Some b \<Rightarrow> map_of (b_watches b) name)"

text \<open>The error that libdbus fills in is not initialised; content that looks like an error is printed and freed.\<close>

definition watchlist_add_match :: "dbus_env \<Rightarrow> bus_type \<Rightarrow> string \<Rightarrow> dbus_state \<Rightarrow> dbus_state option" where
  "watchlist_add_match E t name st =
     (case bus_conn t st of
        None \<Rightarrow> Some st
      | Some c \<Rightarrow> if dv_junk E (d_log st) then None else Some (d_note (Add_match c (watch_rule name)) st))"

definition watchlist_del_match :: "bus_type \<Rightarrow> string \<Rightarrow> dbus_state \<Rightarrow> dbus_state" where
  "watchlist_del_match t name st = on_conn t (\<lambda>c. Remove_match c (watch_rule name)) st"

definition watchlist_add :: "dbus_env \<Rightarrow> bus_type \<Rightarrow> string \<Rightarrow> dbus_state \<Rightarrow> (addr \<times> dbus_state) option" where
  "watchlist_add E t name st =
     (let l = d_next st;
          st1 = st\<lparr>d_next := l + 1, d_watchlists := (d_watchlists st)(l \<mapsto> \<lparr>wl_name = name, wl_watches = []\<rparr>)\<rparr>;
          st2 = upd_bus t (b_watches_update (\<lambda>ts. ts @ [(name, l)])) st1
      in map_option (Pair l) (watchlist_add_match E t name st2))"

text \<open>The destructor frees the nodes and the name, but not the list itself.\<close>

definition watchlist_purge :: "addr \<Rightarrow> dbus_state \<Rightarrow> dbus_state option" where
  "watchlist_purge l st =
     do { wl \<leftarrow> d_watchlists st l;
          Some (st\<lparr>d_watches := d_watches st |` (- set (wl_watches wl)),
            d_watchlists := (d_watchlists st)(l \<mapsto> wl\<lparr>wl_watches := []\<rparr>)\<rparr>) }"

definition watchlist_del :: "bus_type \<Rightarrow> addr \<Rightarrow> dbus_state \<Rightarrow> dbus_state option" where
  "watchlist_del t l st =
     do { wl \<leftarrow> d_watchlists st l;
          watchlist_purge l (upd_bus t (b_watches_update (AList.delete (wl_name wl))) (watchlist_del_match t (wl_name wl) st)) }"

definition watch_add :: "dbus_env \<Rightarrow> bus_type \<Rightarrow> string \<Rightarrow> nat \<Rightarrow> nat \<Rightarrow> dbus_state \<Rightarrow> (bool \<times> dbus_state) option" where
  "watch_add E t name handler data st =
     (if bus_by_type t st = None then Some (False, st)
      else
        (let w = d_next st;
             st1 = st\<lparr>d_next := w + 1, d_watches := (d_watches st)(w \<mapsto> \<lparr>wt_handler = handler, wt_data = data\<rparr>)\<rparr>
         in do { (l, st2) \<leftarrow> (case watchlist_lookup t name st1 of
                    Some l \<Rightarrow> Some (l, st1)
                  | None \<Rightarrow> watchlist_add E t name st1);
                 wl \<leftarrow> d_watchlists st2 l;
                 Some (True, st2\<lparr>d_watchlists := (d_watchlists st2)(l \<mapsto> wl\<lparr>wl_watches := wl_watches wl @ [w]\<rparr>)\<rparr>) }))"

definition watch_del :: "bus_type \<Rightarrow> string \<Rightarrow> nat \<Rightarrow> nat \<Rightarrow> dbus_state \<Rightarrow> (bool \<times> dbus_state) option" where
  "watch_del t name handler data st =
     (case watchlist_lookup t name st of
        None \<Rightarrow> Some (False, st)
      | Some l \<Rightarrow>
          do { wl \<leftarrow> d_watchlists st l;
               found \<leftarrow> find_node (d_watches st) (\<lambda>w. wt_handler w = handler \<and> wt_data w = data) (wl_watches wl);
               case found of
                 None \<Rightarrow> Some (False, st)
               | Some w \<Rightarrow>
                   (let rest = remove1 w (wl_watches wl);
                        st1 = st\<lparr>d_watchlists := (d_watchlists st)(l \<mapsto> wl\<lparr>wl_watches := rest\<rparr>),
                          d_watches := (d_watches st)(w := None)\<rparr>
                    in if rest = [] then map_option (Pair True) (watchlist_del t l st1) else Some (True, st1)) })"

subsection \<open>Methods\<close>

definition method_key :: "cstring \<Rightarrow> cstring \<Rightarrow> cstring \<Rightarrow> string" where
  "method_key interface member signature =
     dbus_buf (text_or_empty interface @ ''.'' @ text_or_empty member @ ''/'' @ text_or_empty signature)"

definition object_lookup :: "bus_type \<Rightarrow> string \<Rightarrow> dbus_state \<Rightarrow> addr option" where
  "object_lookup t path st = (case bus_by_type t st of None \<Rightarrow> None | Some b \<Rightarrow> map_of (b_objects b) path)"

definition object_register :: "dbus_env \<Rightarrow> addr \<Rightarrow> dbus_state \<Rightarrow> (bool \<times> dbus_state) option" where
  "object_register E a st =
     do { ob \<leftarrow> d_objects st a;
          case bus_conn (ob_bus ob) st of
            None \<Rightarrow> Some (True, st)
          | Some c \<Rightarrow> Some (dv_path E (d_log st) c (ob_path ob), d_note (Register_path c (ob_path ob) a) st) }"

definition object_unregister :: "addr \<Rightarrow> dbus_state \<Rightarrow> dbus_state option" where
  "object_unregister a st =
     do { ob \<leftarrow> d_objects st a; Some (on_conn (ob_bus ob) (\<lambda>c. Unregister_path c (ob_path ob)) st) }"

text \<open>
  The destructor of the table of methods is \<open>object_purge\<close>, although its values are methods.  Read as an
  object, a method has its member as the bus, its interface as the path and its signature as the table of
  methods.  The connection of the bus is the second machine word behind the member: a member that is too short is read behind its
  end, and otherwise the bytes are no connection, which is used when the path is there.  With neither an
  interface nor a signature the method is freed, its member is lost.
\<close>

definition BUS_CONN_END :: nat where "BUS_CONN_END = 16"

definition method_destroyed :: "dbus_method \<Rightarrow> bool" where
  "method_destroyed m \<longleftrightarrow>
     me_interface m = None \<and> me_signature m = None \<and> length (me_member m) + 1 \<ge> BUS_CONN_END"

definition object_purge :: "addr \<Rightarrow> dbus_state \<Rightarrow> dbus_state option" where
  "object_purge a st =
     do { ob \<leftarrow> d_objects st a;
          st1 \<leftarrow> object_unregister a st;
          if \<forall>(k, m) \<in> set (ob_methods ob). method_destroyed m
          then Some (st1\<lparr>d_objects := (d_objects st1)(a := None)\<rparr>) else None }"

definition object_del :: "addr \<Rightarrow> dbus_state \<Rightarrow> dbus_state option" where
  "object_del a st =
     do { ob \<leftarrow> d_objects st a;
          object_purge a (upd_bus (ob_bus ob) (b_objects_update (AList.delete (ob_path ob))) st) }"

definition object_add :: "dbus_env \<Rightarrow> bus_type \<Rightarrow> string \<Rightarrow> dbus_state \<Rightarrow> (addr option \<times> dbus_state) option" where
  "object_add E t path st =
     (let a = d_next st;
          st1 = st\<lparr>d_next := a + 1, d_objects := (d_objects st)(a \<mapsto> \<lparr>ob_path = path, ob_bus = t, ob_methods = []\<rparr>)\<rparr>;
          st2 = upd_bus t (b_objects_update (\<lambda>ts. ts @ [(path, a)])) st1
      in do { (ok, st3) \<leftarrow> object_register E a st2;
              if ok then Some (Some a, st3)
              else map_option (Pair None) (object_purge a (upd_bus t (b_objects_update (AList.delete path)) st3)) })"

definition method_add :: "dbus_env \<Rightarrow> bus_type \<Rightarrow> string \<Rightarrow> cstring \<Rightarrow> cstring \<Rightarrow> cstring \<Rightarrow> nat \<Rightarrow> nat \<Rightarrow>
    dbus_state \<Rightarrow> (bool \<times> dbus_state) option" where
  "method_add E t path interface member signature handler data st =
     (if bus_by_type t st = None then Some (False, st)
      else
        (let m = \<lparr>me_interface = interface, me_member = text_or_empty member, me_signature = signature,
               me_handler = handler, me_data = data\<rparr>;
             key = method_key interface member signature
         in do { (obj, st1) \<leftarrow> (case object_lookup t path st of
                    None \<Rightarrow> object_add E t path st
                  | Some a \<Rightarrow> do { ob \<leftarrow> d_objects st a;
                                  if map_of (ob_methods ob) key \<noteq> None then Some (None, st) else Some (Some a, st) });
                 case obj of
                   None \<Rightarrow> Some (False, st1)
                 | Some a \<Rightarrow>
                     do { ob \<leftarrow> d_objects st1 a;
                          Some (True, st1\<lparr>d_objects := (d_objects st1)(a \<mapsto> ob\<lparr>ob_methods := ob_methods ob @ [(key, m)]\<rparr>)\<rparr>) } }))"

definition method_del :: "bus_type \<Rightarrow> string \<Rightarrow> cstring \<Rightarrow> cstring \<Rightarrow> cstring \<Rightarrow> nat \<Rightarrow> nat \<Rightarrow>
    dbus_state \<Rightarrow> (bool \<times> dbus_state) option" where
  "method_del t path interface member signature handler data st =
     (let key = method_key interface member signature
      in case object_lookup t path st of
           None \<Rightarrow> Some (False, st)
         | Some a \<Rightarrow>
             do { ob \<leftarrow> d_objects st a;
                  case map_of (ob_methods ob) key of
                    None \<Rightarrow> Some (False, st)
                  | Some m \<Rightarrow>
                      if me_handler m \<noteq> handler \<or> me_data m \<noteq> data then Some (False, st)
                      else if \<not> method_destroyed m then None
                      else
                        (let rest = AList.delete key (ob_methods ob);
                             st1 = st\<lparr>d_objects := (d_objects st)(a \<mapsto> ob\<lparr>ob_methods := rest\<rparr>)\<rparr>
                         in if rest = [] then do { st2 \<leftarrow> object_unregister a st1; map_option (Pair True) (object_del a st2) }
                            else Some (True, st1)) })"


subsection \<open>Connecting\<close>

text \<open>The tables of a bus in the order in which GLib walks them.\<close>

definition table_addrs :: "dbus_env \<Rightarrow> (string \<times> addr) list \<Rightarrow> addr list" where
  "table_addrs E tab = map snd (dv_order E tab)"

definition watch_bus_event :: "dbus_env \<Rightarrow> bus_type \<Rightarrow> dbus_state \<Rightarrow> dbus_state option" where
  "watch_bus_event E t st =
     do { b \<leftarrow> bus_by_type t st;
          foldM (\<lambda>l s. do { wl \<leftarrow> d_watchlists s l; watchlist_add_match E t (wl_name wl) s })
            (table_addrs E (b_watches b)) (on_conn t (\<lambda>c. Add_filter c Watch_filter) st) }"

definition method_bus_event :: "dbus_env \<Rightarrow> bus_type \<Rightarrow> dbus_state \<Rightarrow> dbus_state option" where
  "method_bus_event E t st =
     do { b \<leftarrow> bus_by_type t st;
          foldM (\<lambda>a s. map_option snd (object_register E a s)) (table_addrs E (b_objects b)) st }"

definition signal_bus_event :: "dbus_env \<Rightarrow> bus_type \<Rightarrow> dbus_state \<Rightarrow> dbus_state option" where
  "signal_bus_event E t st =
     do { b \<leftarrow> bus_by_type t st;
          foldM (\<lambda>l s. do { sl \<leftarrow> d_siglists s l; Some (siglist_add_match t (sl_rule sl) s) })
            (table_addrs E (b_signals b)) (on_conn t (\<lambda>c. Add_filter c Signal_filter) st) }"

fun run_bus_callback :: "dbus_env \<Rightarrow> bus_type \<Rightarrow> bus_callback \<Rightarrow> dbus_state \<Rightarrow> dbus_state option" where
  "run_bus_callback E t Watch_bus_event st = watch_bus_event E t st"
| "run_bus_callback E t Method_bus_event st = method_bus_event E t st"
| "run_bus_callback E t Signal_bus_event st = signal_bus_event E t st"

text \<open>The only event is that the bus is connected.\<close>

definition bus_event :: "dbus_env \<Rightarrow> bus_type \<Rightarrow> dbus_state \<Rightarrow> dbus_state option" where
  "bus_event E t st = do { b \<leftarrow> bus_by_type t st; foldM (run_bus_callback E t) (b_notify b) st }"

definition bus_watch_add :: "bus_type \<Rightarrow> bus_callback \<Rightarrow> dbus_state \<Rightarrow> dbus_state" where
  "bus_watch_add t cb st = upd_bus t (b_notify_update (\<lambda>cbs. cbs @ [cb])) st"

definition bus_watch_del :: "bus_type \<Rightarrow> bus_callback \<Rightarrow> dbus_state \<Rightarrow> dbus_state" where
  "bus_watch_del t cb st = upd_bus t (b_notify_update (remove1 cb)) st"

text \<open>
  The message on an address that cannot be opened has two places and one argument.  A connection
  that the bus refuses is kept all the same.
\<close>

definition bus_connect :: "dbus_env \<Rightarrow> bus_type \<Rightarrow> cstring \<Rightarrow> dbus_state \<Rightarrow> (bool \<times> dbus_state) option" where
  "bus_connect E t address st =
     (let log = d_log st; st1 = d_note (Connect address) st
      in case address of
           Some addr \<Rightarrow>
             (case dv_open E log addr of
                None \<Rightarrow> None
              | Some c \<Rightarrow>
                  (let st2 = d_note (Register_bus c) (upd_bus t (b_conn_update (\<lambda>_. Some c)) st1)
                   in if dv_register E (d_log st1) c then map_option (Pair True) (bus_event E t st2) else Some (False, st2)))
         | None \<Rightarrow>
             (let st2 = upd_bus t (b_conn_update (\<lambda>_. dv_get E log t)) st1
              in if dv_get E log t = None then Some (False, st2) else map_option (Pair True) (bus_event E t st2)))"

subsection \<open>The exported functions\<close>

text \<open>Each successful call of a function takes or drops a reference of the plugin.\<close>

definition export :: "int \<Rightarrow> (bool \<times> dbus_state) option \<Rightarrow> dbus_state option" where
  "export n r = map_option (\<lambda>(ok, st). if ok then st\<lparr>d_refs := d_refs st + n\<rparr> else st) r"

fun run_cmd :: "dbus_env \<Rightarrow> dbus_cmd \<Rightarrow> dbus_state \<Rightarrow> dbus_state option" where
  "run_cmd E (Cmd_add_method t path interface member signature handler data) st =
     export 1 (method_add E t path interface member signature handler data st)"
| "run_cmd E (Cmd_del_method t path interface member signature handler data) st =
     export (- 1) (method_del t path interface member signature handler data st)"
| "run_cmd E (Cmd_add_signal t path interface member signature sender handler data) st =
     export 1 (signal_add t path interface member signature sender (Client_handler handler) data st)"
| "run_cmd E (Cmd_del_signal t path interface member signature sender handler data) st =
     export (- 1) (signal_del t path interface member signature sender (Client_handler handler) data st)"
| "run_cmd E (Cmd_add_watch t name handler data) st = export 1 (watch_add E t name handler data st)"
| "run_cmd E (Cmd_del_watch t name handler data) st = export (- 1) (watch_del t name handler data st)"

subsection \<open>Dispatching\<close>

definition session_bus_up :: "dbus_env \<Rightarrow> dbus_msg \<Rightarrow> dbus_state \<Rightarrow> dbus_state option" where
  "session_bus_up E msg st =
     (if d_session st = None then Some st
      else case dm_strings msg of
          [] \<Rightarrow> Some st
        | address # _ \<Rightarrow> map_option snd (bus_connect E DBUS_BUS_SESSION (Some address) st))"

definition client_call :: "dbus_env \<Rightarrow> dbus_out \<Rightarrow> dbus_state \<Rightarrow> dbus_state option" where
  "client_call E call st = (let st1 = d_note call st in foldM (run_cmd E) (dv_cmds E (d_log st1)) st1)"

definition call_signal_handler :: "dbus_env \<Rightarrow> signal_node \<Rightarrow> dbus_msg \<Rightarrow> dbus_state \<Rightarrow> dbus_state option" where
  "call_signal_handler E sig msg st =
     (let call = Signal_call (si_handler sig) (si_data sig) msg
      in case si_handler sig of
           Session_bus_up \<Rightarrow> session_bus_up E msg (d_note call st)
         | Client_handler _ \<Rightarrow> client_call E call st)"

text \<open>
  The loop over a list keeps the current position and the next one.  After the body it goes to the next
  position and reads that node, or the head of the list, for the one that follows.
\<close>

datatype list_pos = Node addr | Head

definition first_pos :: "addr list \<Rightarrow> list_pos" where
  "first_pos as = (case as of [] \<Rightarrow> Head | a # _ \<Rightarrow> Node a)"

definition pos_after :: "addr \<Rightarrow> addr list \<Rightarrow> list_pos" where
  "pos_after a as = first_pos (tl (dropWhile (\<lambda>b. b \<noteq> a) as))"

definition next_signal :: "addr \<Rightarrow> list_pos \<Rightarrow> dbus_state \<Rightarrow> list_pos option" where
  "next_signal l p st =
     do { sl \<leftarrow> d_siglists st l;
          case p of
            Head \<Rightarrow> Some (first_pos (sl_signals sl))
          | Node a \<Rightarrow> do { _ \<leftarrow> d_signals st a; Some (pos_after a (sl_signals sl)) } }"

definition signal_body :: "dbus_env \<Rightarrow> dbus_msg \<Rightarrow> addr \<Rightarrow> dbus_state \<Rightarrow> dbus_state option" where
  "signal_body E msg a st =
     do { sig \<leftarrow> d_signals st a;
          if signal_matches sig (dm_signature msg) (dm_path msg) (dm_sender msg) then call_signal_handler E sig msg st
          else Some st }"

partial_function (option) signal_loop :: "dbus_env \<Rightarrow> dbus_msg \<Rightarrow> addr \<Rightarrow> list_pos \<Rightarrow> list_pos \<Rightarrow> dbus_state \<Rightarrow> dbus_state option" where
  "signal_loop E msg l p n st =
     (case p of
        Head \<Rightarrow> Some st
      | Node a \<Rightarrow> do { st1 \<leftarrow> signal_body E msg a st; n' \<leftarrow> next_signal l n st1; signal_loop E msg l n n' st1 })"

definition signal_dispatch_handle :: "dbus_env \<Rightarrow> bus_type \<Rightarrow> dbus_msg \<Rightarrow> string \<Rightarrow> dbus_state \<Rightarrow> dbus_state option" where
  "signal_dispatch_handle E t msg key st =
     (case siglist_lookup t key st of
        None \<Rightarrow> Some st
      | Some l \<Rightarrow>
          do { sl \<leftarrow> d_siglists st l;
               n \<leftarrow> next_signal l (first_pos (sl_signals sl)) st;
               signal_loop E msg l (first_pos (sl_signals sl)) n st })"

definition signal_dispatch :: "dbus_env \<Rightarrow> nat \<Rightarrow> dbus_msg \<Rightarrow> dbus_state \<Rightarrow> dbus_state option" where
  "signal_dispatch E c msg st =
     (case bus_by_connection c st of
        None \<Rightarrow> Some st
      | Some t \<Rightarrow>
          do { st1 \<leftarrow> signal_dispatch_handle E t msg (signal_key (dm_interface msg) (dm_member msg)) st;
               signal_dispatch_handle E t msg (signal_key None (dm_member msg)) st1 })"

definition next_watch :: "addr \<Rightarrow> list_pos \<Rightarrow> dbus_state \<Rightarrow> list_pos option" where
  "next_watch l p st =
     do { wl \<leftarrow> d_watchlists st l;
          case p of
            Head \<Rightarrow> Some (first_pos (wl_watches wl))
          | Node a \<Rightarrow> do { _ \<leftarrow> d_watches st a; Some (pos_after a (wl_watches wl)) } }"

definition watch_body :: "dbus_env \<Rightarrow> string \<Rightarrow> string \<Rightarrow> string \<Rightarrow> addr \<Rightarrow> dbus_state \<Rightarrow> dbus_state option" where
  "watch_body E name previous current a st =
     do { w \<leftarrow> d_watches st a; client_call E (Watch_call (wt_handler w) (wt_data w) name previous current) st }"

partial_function (option) watch_loop :: "dbus_env \<Rightarrow> string \<Rightarrow> string \<Rightarrow> string \<Rightarrow> addr \<Rightarrow> list_pos \<Rightarrow> list_pos \<Rightarrow> dbus_state \<Rightarrow>
    dbus_state option" where
  "watch_loop E name previous current l p n st =
     (case p of
        Head \<Rightarrow> Some st
      | Node a \<Rightarrow>
          do { st1 \<leftarrow> watch_body E name previous current a st; n' \<leftarrow> next_watch l n st1;
               watch_loop E name previous current l n n' st1 })"

definition watch_dispatch :: "dbus_env \<Rightarrow> nat \<Rightarrow> dbus_msg \<Rightarrow> dbus_state \<Rightarrow> dbus_state option" where
  "watch_dispatch E c msg st =
     (case bus_by_connection c st of
        None \<Rightarrow> Some st
      | Some t \<Rightarrow>
          if dm_signal msg \<and> dm_interface msg = Some ''org.freedesktop.DBus'' \<and> dm_member msg = Some ''NameOwnerChanged''
          then (case dm_strings msg of
                  name # previous # current # _ \<Rightarrow>
                    (case watchlist_lookup t name st of
                       None \<Rightarrow> Some st
                     | Some l \<Rightarrow>
                         do { wl \<leftarrow> d_watchlists st l;
                              n \<leftarrow> next_watch l (first_pos (wl_watches wl)) st;
                              watch_loop E name previous current l (first_pos (wl_watches wl)) n st })
                | _ \<Rightarrow> Some st)
          else Some st)"

text \<open>libdbus passes the object that was registered for the path.\<close>

definition method_handler :: "dbus_object \<Rightarrow> dbus_msg \<Rightarrow> dbus_method option option" where
  "method_handler ob msg =
     (case map_of (ob_methods ob) (method_key (dm_interface msg) (dm_member msg) (dm_signature msg)) of
        Some m \<Rightarrow> Some (Some m)
      | None \<Rightarrow>
          (case map_of (ob_methods ob) (method_key (dm_interface msg) (dm_member msg) None) of
             Some m \<Rightarrow> Some (Some m)
           | None \<Rightarrow> (case dm_member msg of None \<Rightarrow> None | Some member \<Rightarrow> Some (map_of (ob_methods ob) member))))"

definition method_dispatch :: "dbus_env \<Rightarrow> nat \<Rightarrow> addr \<Rightarrow> dbus_msg \<Rightarrow> dbus_state \<Rightarrow> dbus_state option" where
  "method_dispatch E c a msg st =
     (if bus_by_connection c st = None then Some st
      else do { ob \<leftarrow> d_objects st a;
                found \<leftarrow> method_handler ob msg;
                case found of
                  None \<Rightarrow> Some st
                | Some m \<Rightarrow> client_call E (Method_call (me_handler m) (me_data m) msg) st })"

subsection \<open>Start and shutdown\<close>

definition empty_bus :: bus where
  "empty_bus = \<lparr>b_conn = None, b_watches = [], b_objects = [], b_signals = [], b_notify = []\<rparr>"

definition dbus_start :: dbus_state where
  "dbus_start = \<lparr>d_system = None, d_session = None, d_watchlists = Map.empty, d_watches = Map.empty, d_siglists = Map.empty,
     d_signals = Map.empty, d_objects = Map.empty, d_next = 0, d_refs = 0, d_log = []\<rparr>"

definition dbus_bus_init :: "dbus_env \<Rightarrow> dbus_state \<Rightarrow> (bool \<times> dbus_state) option" where
  "dbus_bus_init E st =
     do { (ok, st1) \<leftarrow> bus_connect E DBUS_BUS_SYSTEM None (st\<lparr>d_system := Some empty_bus\<rparr>);
          if ok then Some (True, st1\<lparr>d_session := Some empty_bus\<rparr>)
          else Some (False, st1\<lparr>d_system := None\<rparr>) }"

text \<open>Without a system bus only the tables of methods and signals report success, for there is nothing to set up.\<close>

definition watch_init :: "dbus_state \<Rightarrow> bool \<times> dbus_state" where
  "watch_init st =
     (if d_system st = None then (False, st)
      else (let st1 = on_conn DBUS_BUS_SYSTEM (\<lambda>c. Add_filter c Watch_filter) st
            in if d_session st1 = None then (False, st1) else (True, bus_watch_add DBUS_BUS_SESSION Watch_bus_event st1)))"

definition method_init :: "dbus_state \<Rightarrow> bool \<times> dbus_state" where
  "method_init st = (True, if d_session st = None then st else bus_watch_add DBUS_BUS_SESSION Method_bus_event st)"

definition signal_init :: "dbus_state \<Rightarrow> bool \<times> dbus_state" where
  "signal_init st =
     (let st1 = on_conn DBUS_BUS_SYSTEM (\<lambda>c. Add_filter c Signal_filter) st
      in (True, if d_session st1 = None then st1 else bus_watch_add DBUS_BUS_SESSION Signal_bus_event st1))"

text \<open>The start of the plugin; \<open>None\<close> is the end of the daemon by \<open>exit\<close>.\<close>

definition dbus_plugin_init :: "dbus_env \<Rightarrow> dbus_state option" where
  "dbus_plugin_init E =
     do { (_, st1) \<leftarrow> dbus_bus_init E dbus_start;
          (ok, st2) \<leftarrow> signal_add DBUS_BUS_SYSTEM None (Some ''com.nokia.policy'') (Some ''NewSession'') (Some ''s'') None
            Session_bus_up 0 (snd (signal_init (snd (method_init (snd (watch_init st1))))));
          if ok then Some st2 else None }"

text \<open>The tables that are destroyed are empty afterwards.\<close>

definition signal_exit_bus :: "dbus_env \<Rightarrow> bus_type \<Rightarrow> dbus_state \<Rightarrow> dbus_state option" where
  "signal_exit_bus E t st =
     (case bus_by_type t st of
        None \<Rightarrow> Some st
      | Some b \<Rightarrow> map_option (upd_bus t (b_signals_update (\<lambda>_. [])))
          (foldM siglist_purge (table_addrs E (b_signals b)) (on_conn t (\<lambda>c. Remove_filter c Signal_filter) st)))"

definition signal_exit :: "dbus_env \<Rightarrow> dbus_state \<Rightarrow> dbus_state option" where
  "signal_exit E st =
     do { st1 \<leftarrow> signal_exit_bus E DBUS_BUS_SYSTEM st;
          signal_exit_bus E DBUS_BUS_SESSION (bus_watch_del DBUS_BUS_SESSION Signal_bus_event st1) }"

definition method_exit_bus :: "dbus_env \<Rightarrow> bus_type \<Rightarrow> dbus_state \<Rightarrow> dbus_state option" where
  "method_exit_bus E t st =
     (case bus_by_type t st of
        None \<Rightarrow> Some st
      | Some b \<Rightarrow> map_option (upd_bus t (b_objects_update (\<lambda>_. [])))
          (foldM object_purge (table_addrs E (b_objects b)) st))"

definition method_exit :: "dbus_env \<Rightarrow> dbus_state \<Rightarrow> dbus_state option" where
  "method_exit E st =
     do { st1 \<leftarrow> method_exit_bus E DBUS_BUS_SYSTEM st;
          method_exit_bus E DBUS_BUS_SESSION (bus_watch_del DBUS_BUS_SESSION Method_bus_event st1) }"

definition watch_exit_bus :: "dbus_env \<Rightarrow> bus_type \<Rightarrow> dbus_state \<Rightarrow> dbus_state option" where
  "watch_exit_bus E t st =
     (case bus_by_type t st of
        None \<Rightarrow> Some st
      | Some b \<Rightarrow> map_option (upd_bus t (b_watches_update (\<lambda>_. [])))
          (foldM watchlist_purge (table_addrs E (b_watches b)) (on_conn t (\<lambda>c. Remove_filter c Watch_filter) st)))"

definition watch_exit :: "dbus_env \<Rightarrow> dbus_state \<Rightarrow> dbus_state option" where
  "watch_exit E st =
     do { st1 \<leftarrow> watch_exit_bus E DBUS_BUS_SYSTEM st;
          watch_exit_bus E DBUS_BUS_SESSION (bus_watch_del DBUS_BUS_SESSION Watch_bus_event st1) }"

definition dbus_bus_exit :: "dbus_state \<Rightarrow> dbus_state" where
  "dbus_bus_exit st =
     (on_conn DBUS_BUS_SESSION Release (on_conn DBUS_BUS_SYSTEM Release st))\<lparr>d_system := None, d_session := None\<rparr>"

text \<open>The handler of the announcement was added on the system bus and is asked for on the session bus.\<close>

definition dbus_plugin_exit :: "dbus_env \<Rightarrow> dbus_state \<Rightarrow> dbus_state option" where
  "dbus_plugin_exit E st =
     do { (_, st1) \<leftarrow> signal_del DBUS_BUS_SESSION None (Some ''com.nokia.policy'') (Some ''NewSession'') (Some ''s'') None
            Session_bus_up 0 st;
          st2 \<leftarrow> signal_exit E st1;
          st3 \<leftarrow> method_exit E st2;
          st4 \<leftarrow> watch_exit E st3;
          Some (dbus_bus_exit st4) }"

subsection \<open>Runs\<close>

text \<open>
  What libdbus delivers to a filter and to a registered path, and the calls of clients.
\<close>

datatype dbus_input =
    In_filter bus_filter nat dbus_msg
  | In_method nat addr dbus_msg
  | In_cmd dbus_cmd

fun dbus_step :: "dbus_env \<Rightarrow> dbus_input \<Rightarrow> dbus_state \<Rightarrow> dbus_state option" where
  "dbus_step E (In_filter Signal_filter c msg) st = signal_dispatch E c msg st"
| "dbus_step E (In_filter Watch_filter c msg) st = watch_dispatch E c msg st"
| "dbus_step E (In_method c a msg) st = method_dispatch E c a msg st"
| "dbus_step E (In_cmd cmd) st = run_cmd E cmd st"

inductive dbus_reach :: "dbus_env \<Rightarrow> dbus_state \<Rightarrow> bool" for E where
  dbus_reach_start: "dbus_plugin_init E = Some st \<Longrightarrow> dbus_reach E st"
| dbus_reach_step: "dbus_reach E st \<Longrightarrow> dbus_step E input st = Some st' \<Longrightarrow> dbus_reach E st'"

end
