(* ===== verification/Dbus_Inv.thy ===== *)
theory Dbus_Inv
  imports Dbus "HOL-Library.Multiset"
begin

text \<open>
  The invariant of the dbus plugin: the tables hold the live lists under their keys, no node is in two
  lists, and a connection has exactly the match rules of the tables of its bus.
\<close>

subsection \<open>What the updates leave alone\<close>

definition sig_tab :: "bus_type \<Rightarrow> dbus_state \<Rightarrow> (string \<times> addr) list" where
  "sig_tab t st = (case bus_by_type t st of None \<Rightarrow> [] | Some b \<Rightarrow> b_signals b)"

definition wat_tab :: "bus_type \<Rightarrow> dbus_state \<Rightarrow> (string \<times> addr) list" where
  "wat_tab t st = (case bus_by_type t st of None \<Rightarrow> [] | Some b \<Rightarrow> b_watches b)"

definition notify_of :: "bus_type \<Rightarrow> dbus_state \<Rightarrow> bus_callback list" where
  "notify_of t st = (case bus_by_type t st of None \<Rightarrow> [] | Some b \<Rightarrow> b_notify b)"

lemma bus_upd [simp]:
  "bus_by_type t (upd_bus t' f st) = (if t = t' then map_option f (bus_by_type t st) else bus_by_type t st)"
  by (cases t; cases t') (simp_all add: upd_bus_def split: option.split)

lemma upd_bus_fields [simp]:
  "d_watchlists (upd_bus t f st) = d_watchlists st" "d_watches (upd_bus t f st) = d_watches st"
  "d_siglists (upd_bus t f st) = d_siglists st" "d_signals (upd_bus t f st) = d_signals st"
  "d_objects (upd_bus t f st) = d_objects st" "d_next (upd_bus t f st) = d_next st"
  "d_refs (upd_bus t f st) = d_refs st" "d_log (upd_bus t f st) = d_log st"
  by (cases t; simp add: upd_bus_def split: option.split)+

text \<open>An update of the state that does not touch the buses.\<close>

lemma bus_fields [simp]:
  "bus_by_type t (st\<lparr>d_watchlists := a\<rparr>) = bus_by_type t st" "bus_by_type t (st\<lparr>d_watches := b\<rparr>) = bus_by_type t st"
  "bus_by_type t (st\<lparr>d_siglists := c\<rparr>) = bus_by_type t st" "bus_by_type t (st\<lparr>d_signals := e\<rparr>) = bus_by_type t st"
  "bus_by_type t (st\<lparr>d_objects := g\<rparr>) = bus_by_type t st" "bus_by_type t (st\<lparr>d_next := n\<rparr>) = bus_by_type t st"
  "bus_by_type t (st\<lparr>d_refs := r\<rparr>) = bus_by_type t st" "bus_by_type t (st\<lparr>d_log := l\<rparr>) = bus_by_type t st"
  by (cases t; simp)+

lemma note_fields [simp]:
  "d_watchlists (d_note x st) = d_watchlists st" "d_watches (d_note x st) = d_watches st"
  "d_siglists (d_note x st) = d_siglists st" "d_signals (d_note x st) = d_signals st"
  "d_objects (d_note x st) = d_objects st" "d_next (d_note x st) = d_next st" "bus_by_type t (d_note x st) = bus_by_type t st"
  "d_log (d_note x st) = d_log st @ [x]" "d_refs (d_note x st) = d_refs st"
  by (simp_all add: d_note_def)

lemma on_conn_fields [simp]:
  "d_watchlists (on_conn t f st) = d_watchlists st" "d_watches (on_conn t f st) = d_watches st"
  "d_siglists (on_conn t f st) = d_siglists st" "d_signals (on_conn t f st) = d_signals st"
  "d_objects (on_conn t f st) = d_objects st" "d_next (on_conn t f st) = d_next st"
  "bus_by_type t' (on_conn t f st) = bus_by_type t' st" "d_refs (on_conn t f st) = d_refs st"
  "d_log (on_conn t f st) = d_log st @ (case bus_conn t st of None \<Rightarrow> [] | Some c \<Rightarrow> [f c])"
  by (simp_all add: on_conn_def split: option.split)

text \<open>What is derived from the buses alone.\<close>

lemma bus_derived_cong:
  assumes "bus_by_type t st' = bus_by_type t st"
  shows "bus_conn t st' = bus_conn t st" "sig_tab t st' = sig_tab t st" "wat_tab t st' = wat_tab t st"
    "siglist_lookup t key st' = siglist_lookup t key st" "watchlist_lookup t key st' = watchlist_lookup t key st"
    "object_lookup t key st' = object_lookup t key st" "notify_of t st' = notify_of t st"
  using assms by (simp_all add: bus_conn_def notify_of_def sig_tab_def wat_tab_def siglist_lookup_def watchlist_lookup_def object_lookup_def)

lemma siglist_lookup_tab: "siglist_lookup t key st = map_of (sig_tab t st) key"
  by (simp add: siglist_lookup_def sig_tab_def split: option.split)

lemma watchlist_lookup_tab: "watchlist_lookup t key st = map_of (wat_tab t st) key"
  by (simp add: watchlist_lookup_def wat_tab_def split: option.split)

subsection \<open>Match rules\<close>

text \<open>The rules that are set at a connection after a history.\<close>

fun match_effect :: "nat \<Rightarrow> dbus_out \<Rightarrow> string multiset \<Rightarrow> string multiset" where
  "match_effect c (Add_match d r) M = (if c = d then add_mset r M else M)"
| "match_effect c (Remove_match d r) M = (if c = d then M - {#r#} else M)"
| "match_effect c _ M = M"

definition matches_at :: "nat \<Rightarrow> dbus_out list \<Rightarrow> string multiset" where
  "matches_at c log = fold (match_effect c) log {#}"

lemma matches_at_simps [simp]:
  "matches_at c [] = {#}" "matches_at c (log @ [x]) = match_effect c x (matches_at c log)"
  by (simp_all add: matches_at_def)

definition rule_of :: "dbus_state \<Rightarrow> addr \<Rightarrow> string" where
  "rule_of st l = (case d_siglists st l of None \<Rightarrow> [] | Some sl \<Rightarrow> sl_rule sl)"

definition rules_of :: "bus_type \<Rightarrow> dbus_state \<Rightarrow> string multiset" where
  "rules_of t st = mset (map (\<lambda>e. rule_of st (snd e)) (sig_tab t st)) + mset (map (\<lambda>e. watch_rule (fst e)) (wat_tab t st))"

subsection \<open>The invariant\<close>

definition sig_ok :: "dbus_state \<Rightarrow> bool" where
  "sig_ok st \<longleftrightarrow>
     (\<forall>l sl. d_siglists st l = Some sl \<longrightarrow> l < d_next st \<and> distinct (sl_signals sl) \<and> (\<forall>a \<in> set (sl_signals sl). d_signals st a \<noteq> None)) \<and>
     (\<forall>a s. d_signals st a = Some s \<longrightarrow> a < d_next st) \<and>
     (\<forall>l l' sl sl'. d_siglists st l = Some sl \<longrightarrow> d_siglists st l' = Some sl' \<longrightarrow> l \<noteq> l' \<longrightarrow> set (sl_signals sl) \<inter> set (sl_signals sl') = {}) \<and>
     (\<forall>t. distinct (map fst (sig_tab t st))) \<and>
     (\<forall>t k l. (k, l) \<in> set (sig_tab t st) \<longrightarrow> (\<exists>sl. d_siglists st l = Some sl \<and> sl_key sl = k \<and> sl_signals sl \<noteq> [])) \<and>
     (\<forall>t t' k k' l. (k, l) \<in> set (sig_tab t st) \<longrightarrow> (k', l) \<in> set (sig_tab t' st) \<longrightarrow> t = t')"

definition wat_ok :: "dbus_state \<Rightarrow> bool" where
  "wat_ok st \<longleftrightarrow>
     (\<forall>l wl. d_watchlists st l = Some wl \<longrightarrow> l < d_next st) \<and>
     (\<forall>t. distinct (map fst (wat_tab t st))) \<and>
     (\<forall>t k l. (k, l) \<in> set (wat_tab t st) \<longrightarrow> (\<exists>wl. d_watchlists st l = Some wl \<and> wl_name wl = k))"

definition obj_ok :: "dbus_state \<Rightarrow> bool" where
  "obj_ok st \<longleftrightarrow> (\<forall>a ob k m. d_objects st a = Some ob \<longrightarrow> (k, m) \<in> set (ob_methods ob) \<longrightarrow>
     k = method_key (me_interface m) (Some (me_member m)) (me_signature m))"

definition mirrored :: "nat \<Rightarrow> dbus_state \<Rightarrow> bool" where
  "mirrored c st \<longleftrightarrow> bus_conn DBUS_BUS_SYSTEM st = Some c \<and> bus_conn DBUS_BUS_SESSION st \<noteq> Some c \<and>
     matches_at c (d_log st) = rules_of DBUS_BUS_SYSTEM st"

text \<open>The connections in \<open>C\<close> are those whose match rules are followed.\<close>

definition db_inv :: "nat set \<Rightarrow> dbus_state \<Rightarrow> bool" where
  "db_inv C st \<longleftrightarrow> sig_ok st \<and> wat_ok st \<and> obj_ok st \<and> (\<forall>c \<in> C. mirrored c st) \<and>
     notify_of DBUS_BUS_SESSION st = [Watch_bus_event, Method_bus_event, Signal_bus_event]"

text \<open>An operation that changes neither the lists nor their tables, and no match rules.\<close>

definition same_lists :: "dbus_state \<Rightarrow> dbus_state \<Rightarrow> bool" where
  "same_lists st st' \<longleftrightarrow> (\<forall>t. sig_tab t st' = sig_tab t st \<and> wat_tab t st' = wat_tab t st \<and> notify_of t st' = notify_of t st) \<and>
     d_siglists st' = d_siglists st \<and> d_signals st' = d_signals st \<and> d_watchlists st' = d_watchlists st \<and>
     d_next st \<le> d_next st'"

lemma same_lists_ok:
  assumes "same_lists st st'"
  shows "sig_ok st \<Longrightarrow> sig_ok st'" and "wat_ok st \<Longrightarrow> wat_ok st'" and "rules_of t st' = rules_of t st"
proof -
  note s = assms [unfolded same_lists_def]
  have n: "l < d_next st \<Longrightarrow> l < d_next st'" for l using s by simp
  show "sig_ok st \<Longrightarrow> sig_ok st'" unfolding sig_ok_def using s by (simp add: n)
  show "wat_ok st \<Longrightarrow> wat_ok st'" unfolding wat_ok_def using s by (simp add: n)
  show "rules_of t st' = rules_of t st" using s by (simp add: rules_of_def rule_of_def)
qed

lemma same_lists_refl [simp]: "same_lists st st"
  by (simp add: same_lists_def)

lemma same_lists_trans: "same_lists st st' \<Longrightarrow> same_lists st' st'' \<Longrightarrow> same_lists st st''"
  by (auto simp: same_lists_def)


subsection \<open>Signals\<close>

lemma tab_upd [simp]:
  "sig_tab t' (upd_bus t (b_watches_update w) st) = sig_tab t' st" "wat_tab t' (upd_bus t (b_signals_update g) st) = wat_tab t' st"
  "sig_tab t' (upd_bus t (b_objects_update w) st) = sig_tab t' st" "wat_tab t' (upd_bus t (b_objects_update g) st) = wat_tab t' st"
  "sig_tab t' (upd_bus t (b_conn_update h) st) = sig_tab t' st" "wat_tab t' (upd_bus t (b_conn_update h) st) = wat_tab t' st"
  "bus_conn t' (upd_bus t (b_watches_update w) st) = bus_conn t' st" "bus_conn t' (upd_bus t (b_signals_update g) st) = bus_conn t' st"
  "bus_conn t' (upd_bus t (b_objects_update w) st) = bus_conn t' st"
  "notify_of t' (upd_bus t (b_watches_update w) st) = notify_of t' st" "notify_of t' (upd_bus t (b_signals_update g) st) = notify_of t' st"
  "notify_of t' (upd_bus t (b_objects_update w) st) = notify_of t' st" "notify_of t' (upd_bus t (b_conn_update h) st) = notify_of t' st"
  by (simp_all add: sig_tab_def wat_tab_def bus_conn_def notify_of_def split: option.split)

lemma sig_tab_upd:
  "bus_by_type t st \<noteq> None \<Longrightarrow> sig_tab t' (upd_bus t (b_signals_update f) st) = (if t' = t then f (sig_tab t st) else sig_tab t' st)"
  by (auto simp: sig_tab_def split: option.split)

lemma wat_tab_upd:
  "bus_by_type t st \<noteq> None \<Longrightarrow> wat_tab t' (upd_bus t (b_watches_update f) st) = (if t' = t then f (wat_tab t st) else wat_tab t' st)"
  by (auto simp: wat_tab_def split: option.split)

lemma sig_tab_delete:
  "sig_tab t' (upd_bus t (b_signals_update (AList.delete k)) st) = (if t' = t then AList.delete k (sig_tab t st) else sig_tab t' st)"
  by (simp add: sig_tab_def split: option.split)

lemma wat_tab_delete:
  "wat_tab t' (upd_bus t (b_watches_update (AList.delete k)) st) = (if t' = t then AList.delete k (wat_tab t st) else wat_tab t' st)"
  by (simp add: wat_tab_def split: option.split)

text \<open>The buses are what they were when only the other parts of the state change.\<close>

lemma derived_fields [simp]:
  "bus_conn t (st\<lparr>d_watchlists := a\<rparr>) = bus_conn t st" "bus_conn t (st\<lparr>d_watches := b\<rparr>) = bus_conn t st"
  "bus_conn t (st\<lparr>d_siglists := c\<rparr>) = bus_conn t st" "bus_conn t (st\<lparr>d_signals := e\<rparr>) = bus_conn t st"
  "bus_conn t (st\<lparr>d_objects := g\<rparr>) = bus_conn t st" "bus_conn t (st\<lparr>d_next := n\<rparr>) = bus_conn t st"
  "bus_conn t (st\<lparr>d_refs := r\<rparr>) = bus_conn t st" "bus_conn t (d_note x st) = bus_conn t st"
  "sig_tab t (st\<lparr>d_watchlists := a\<rparr>) = sig_tab t st" "sig_tab t (st\<lparr>d_watches := b\<rparr>) = sig_tab t st"
  "sig_tab t (st\<lparr>d_siglists := c\<rparr>) = sig_tab t st" "sig_tab t (st\<lparr>d_signals := e\<rparr>) = sig_tab t st"
  "sig_tab t (st\<lparr>d_objects := g\<rparr>) = sig_tab t st" "sig_tab t (st\<lparr>d_next := n\<rparr>) = sig_tab t st"
  "sig_tab t (st\<lparr>d_refs := r\<rparr>) = sig_tab t st" "sig_tab t (d_note x st) = sig_tab t st"
  "wat_tab t (st\<lparr>d_watchlists := a\<rparr>) = wat_tab t st" "wat_tab t (st\<lparr>d_watches := b\<rparr>) = wat_tab t st"
  "wat_tab t (st\<lparr>d_siglists := c\<rparr>) = wat_tab t st" "wat_tab t (st\<lparr>d_signals := e\<rparr>) = wat_tab t st"
  "wat_tab t (st\<lparr>d_objects := g\<rparr>) = wat_tab t st" "wat_tab t (st\<lparr>d_next := n\<rparr>) = wat_tab t st"
  "wat_tab t (st\<lparr>d_refs := r\<rparr>) = wat_tab t st" "wat_tab t (d_note x st) = wat_tab t st"
  "bus_conn t (on_conn t' f st) = bus_conn t st" "sig_tab t (on_conn t' f st) = sig_tab t st"
  "wat_tab t (on_conn t' f st) = wat_tab t st"
  "notify_of t (st\<lparr>d_watchlists := a\<rparr>) = notify_of t st" "notify_of t (st\<lparr>d_watches := b\<rparr>) = notify_of t st"
  "notify_of t (st\<lparr>d_siglists := c\<rparr>) = notify_of t st" "notify_of t (st\<lparr>d_signals := e\<rparr>) = notify_of t st"
  "notify_of t (st\<lparr>d_objects := g\<rparr>) = notify_of t st" "notify_of t (st\<lparr>d_next := n\<rparr>) = notify_of t st"
  "notify_of t (st\<lparr>d_refs := r\<rparr>) = notify_of t st" "notify_of t (d_note x st) = notify_of t st"
  "notify_of t (on_conn t' f st) = notify_of t st"
  by (simp_all add: bus_conn_def sig_tab_def wat_tab_def notify_of_def)

lemma sig_okD:
  assumes "sig_ok st"
  shows "d_siglists st l = Some sl \<Longrightarrow> l < d_next st" "d_siglists st l = Some sl \<Longrightarrow> distinct (sl_signals sl)"
    "d_siglists st l = Some sl \<Longrightarrow> a \<in> set (sl_signals sl) \<Longrightarrow> \<exists>s. d_signals st a = Some s"
    "d_signals st a = Some s \<Longrightarrow> a < d_next st"
    "d_siglists st l = Some sl \<Longrightarrow> d_siglists st l' = Some sl' \<Longrightarrow> a \<in> set (sl_signals sl) \<Longrightarrow> a \<in> set (sl_signals sl') \<Longrightarrow> l = l'"
    "distinct (map fst (sig_tab t st))"
    "(k, l) \<in> set (sig_tab t st) \<Longrightarrow> \<exists>sl. d_siglists st l = Some sl \<and> sl_key sl = k \<and> sl_signals sl \<noteq> []"
    "(k, l) \<in> set (sig_tab t st) \<Longrightarrow> (k', l) \<in> set (sig_tab t' st) \<Longrightarrow> t = t'"
  using assms unfolding sig_ok_def by (blast, blast, blast, blast, blast, blast, blast, blast)

lemma new_siglist_ok:
  assumes ok: "sig_ok st" and key: "map_of (sig_tab t st) key = None"
    and heap: "d_signals st' = (d_signals st)(d_next st \<mapsto> s)"
      "d_siglists st' = (d_siglists st)(l \<mapsto> \<lparr>sl_key = key, sl_rule = rule, sl_signals = [d_next st]\<rparr>)"
    and l: "l = d_next st + 1" "d_next st' = l + 1"
    and tab: "\<And>t'. sig_tab t' st' = (if t' = t then sig_tab t st @ [(key, l)] else sig_tab t' st)"
  shows "sig_ok st'"
proof -
  note D = sig_okD [OF ok]
  have fresh: "(k, l) \<notin> set (sig_tab t' st)" for k t' using D(1,7) l by fastforce
  have lists: "(k, m) \<in> set (sig_tab t' st) \<Longrightarrow> m \<noteq> l" for k m t' using fresh by blast
  have nodes: "d_siglists st m = Some sl \<Longrightarrow> d_next st \<notin> set (sl_signals sl)" for m sl using D(3,4) by fastforce
  have keys: "key \<notin> fst ` set (sig_tab t st)" using key by (simp add: map_of_eq_None_iff)
  show ?thesis unfolding sig_ok_def heap tab l(2)
  proof (intro conjI allI impI, goal_cases)
    case (1 m sl) then show ?case using D(1) l by (auto split: if_splits dest: D(1))
  next
    case (2 m sl) then show ?case using D(2) by (auto split: if_splits)
  next
    case (3 m sl) then show ?case using D(3) by (auto split: if_splits)
  next
    case (4 a s) then show ?case using D(4) l by (auto split: if_splits dest: D(4))
  next
    case (5 m m' sl sl') then show ?case using D(5) nodes by (auto split: if_splits)
  next
    case (6 t') then show ?case using D(6) keys by simp
  next
    case (7 t' k m) then show ?case by (auto simp: fresh split: if_splits dest: D(7))
  next
    case (8 t' t'' k k' m) then show ?case using D(8) lists by (auto split: if_splits)
  qed
qed

lemma grown_siglist_ok:
  assumes ok: "sig_ok st" and sl: "d_siglists st l = Some sl"
    and heap: "d_signals st' = (d_signals st)(d_next st \<mapsto> s)"
      "d_siglists st' = (d_siglists st)(l \<mapsto> sl\<lparr>sl_signals := sl_signals sl @ [d_next st]\<rparr>)"
    and n: "d_next st' = d_next st + 1" and tab: "\<And>t'. sig_tab t' st' = sig_tab t' st"
  shows "sig_ok st'"
proof -
  note D = sig_okD [OF ok]
  have nodes: "d_siglists st m = Some sl \<Longrightarrow> d_next st \<notin> set (sl_signals sl)" for m sl using D(3,4) by fastforce
  show ?thesis unfolding sig_ok_def heap tab n
  proof (intro conjI allI impI, goal_cases)
    case (1 m sl') then show ?case using D(1) [OF sl] by (auto split: if_splits dest: D(1))
  next
    case (2 m sl') then show ?case using D(2) nodes sl by (auto split: if_splits)
  next
    case (3 m sl') then show ?case using D(3) sl by (auto split: if_splits)
  next
    case (4 a s) then show ?case by (auto split: if_splits dest: D(4))
  next
    case (5 m m' sl1 sl2) then show ?case using D(5) nodes sl by (fastforce split: if_splits)
  next
    case (6 t') then show ?case using D(6) by simp
  next
    case (7 t' k m) then show ?case using D(7) sl by (fastforce split: if_splits)
  next
    case (8 t' t'' k k' m) then show ?case using D(8) by blast
  qed
qed

text \<open>The match rules follow the tables.\<close>

lemma rules_of_cong:
  assumes "sig_tab t st' = sig_tab t st" and "map fst (wat_tab t st') = map fst (wat_tab t st)"
    and "\<And>k l. (k, l) \<in> set (sig_tab t st) \<Longrightarrow> rule_of st' l = rule_of st l"
  shows "rules_of t st' = rules_of t st"
proof -
  have w: "map (\<lambda>e. watch_rule (fst e)) (wat_tab t st') = map (\<lambda>e. watch_rule (fst e)) (wat_tab t st)"
    using arg_cong [OF assms(2), of "map watch_rule"] by (simp add: comp_def)
  have "map (\<lambda>e. rule_of st' (snd e)) (sig_tab t st) = map (\<lambda>e. rule_of st (snd e)) (sig_tab t st)"
    by (rule map_cong [OF refl]) (use assms(3) in auto)
  with w show ?thesis by (simp only: rules_of_def assms(1))
qed

lemma db_inv_cong:
  assumes "db_inv C st" and "sig_ok st'" and "d_watchlists st' = d_watchlists st" and "\<And>t. wat_tab t st' = wat_tab t st"
    and "d_objects st' = d_objects st" and "d_next st \<le> d_next st'" and "\<And>c. c \<in> C \<Longrightarrow> mirrored c st \<Longrightarrow> mirrored c st'"
    and "notify_of DBUS_BUS_SESSION st' = notify_of DBUS_BUS_SESSION st"
  shows "db_inv C st'"
proof -
  have "wat_ok st'" using assms(1,6) by (fastforce simp: db_inv_def wat_ok_def assms(3,4))
  moreover have "obj_ok st'" using assms(1) by (simp add: db_inv_def obj_ok_def assms(5))
  ultimately show ?thesis using assms by (simp add: db_inv_def)
qed

lemma mirrored_step:
  assumes "mirrored c st" and "\<And>t. bus_conn t st' = bus_conn t st"
    and "matches_at c (d_log st') = matches_at c (d_log st) + M" and "rules_of DBUS_BUS_SYSTEM st' = rules_of DBUS_BUS_SYSTEM st + M"
  shows "mirrored c st'"
  using assms by (simp add: mirrored_def)

lemma match_effect_on_conn:
  assumes "mirrored c st"
  shows "matches_at c (d_log st @ (case bus_conn t st of None \<Rightarrow> [] | Some d \<Rightarrow> [Add_match d r])) =
      matches_at c (d_log st) + (if t = DBUS_BUS_SYSTEM then {#r#} else {#})"
    and "matches_at c (d_log st @ (case bus_conn t st of None \<Rightarrow> [] | Some d \<Rightarrow> [Remove_match d r])) =
      matches_at c (d_log st) - (if t = DBUS_BUS_SYSTEM then {#r#} else {#})"
  using assms by (cases t; auto simp: mirrored_def bus_conn_def split: option.splits)+

lemma signal_add_inv:
  assumes inv: "db_inv C st"
  shows "post (\<lambda>r. db_inv C (snd r)) (signal_add t path interface member signature sender handler data st)"
proof (cases "bus_by_type t st = None")
  case True
  then show ?thesis using inv by (simp add: signal_add_def post_def)
next
  case bus: False
  let ?key = "signal_key interface member" and ?s = "d_next st" and ?rule = "signal_rule interface member path"
  have ok: "sig_ok st" using inv by (simp add: db_inv_def)
  note D = sig_okD [OF ok]
  show ?thesis
  proof (rule postI)
    fix r assume run: "signal_add t path interface member signature sender handler data st = Some r"
    show "db_inv C (snd r)"
    proof (cases "map_of (sig_tab t st) ?key")
      case None
      let ?l = "?s + 1"
      have st': "\<And>t'. sig_tab t' (snd r) = (if t' = t then sig_tab t st @ [(?key, ?l)] else sig_tab t' st)"
        "d_siglists (snd r) = (d_siglists st)(?l \<mapsto> \<lparr>sl_key = ?key, sl_rule = ?rule, sl_signals = [?s]\<rparr>)"
        "d_next (snd r) = ?l + 1" "d_watchlists (snd r) = d_watchlists st" "d_objects (snd r) = d_objects st"
        "\<And>t. wat_tab t (snd r) = wat_tab t st" "\<And>t. bus_conn t (snd r) = bus_conn t st"
        "d_log (snd r) = d_log st @ (case bus_conn t st of None \<Rightarrow> [] | Some d \<Rightarrow> [Add_match d ?rule])"
        "notify_of DBUS_BUS_SESSION (snd r) = notify_of DBUS_BUS_SESSION st"
        and "\<exists>x. d_signals (snd r) = (d_signals st)(?s \<mapsto> x)"
        using run None bus by (auto simp: signal_add_def siglist_lookup_tab siglist_add_def siglist_add_match_def Let_def sig_tab_upd)
      then obtain x where x: "d_signals (snd r) = (d_signals st)(?s \<mapsto> x)" by blast
      show ?thesis
      proof (rule db_inv_cong [OF inv])
        show "sig_ok (snd r)"
          by (rule new_siglist_ok [OF ok None x st'(2) refl st'(3) st'(1)])
        fix c assume m: "mirrored c st"
        have old: "rule_of (snd r) m = rule_of st m" if "(k, m) \<in> set (sig_tab u st)" for k m u
          using D(1,7) that by (fastforce simp: rule_of_def st'(2))
        have "mset (map (\<lambda>e. rule_of (snd r) (snd e)) (sig_tab u st)) = mset (map (\<lambda>e. rule_of st (snd e)) (sig_tab u st))" for u
          by (rule arg_cong [of _ _ mset], rule map_cong [OF refl]) (use old in auto)
        then have "rules_of DBUS_BUS_SYSTEM (snd r) = rules_of DBUS_BUS_SYSTEM st + (if t = DBUS_BUS_SYSTEM then {#?rule#} else {#})"
          by (simp add: rules_of_def st'(1,6)) (simp add: rule_of_def st'(2))
        then show "mirrored c (snd r)"
          by (intro mirrored_step [OF m st'(7)]) (simp_all only: st'(8) match_effect_on_conn [OF m])
      qed (simp_all add: st')
    next
      case (Some l)
      then obtain sl where sl: "d_siglists st l = Some sl" using D(7) map_of_SomeD by fastforce
      have st': "\<And>t'. sig_tab t' (snd r) = sig_tab t' st"
        "d_siglists (snd r) = (d_siglists st)(l \<mapsto> sl\<lparr>sl_signals := sl_signals sl @ [?s]\<rparr>)"
        "d_next (snd r) = ?s + 1" "d_watchlists (snd r) = d_watchlists st" "d_objects (snd r) = d_objects st"
        "\<And>t. wat_tab t (snd r) = wat_tab t st" "\<And>t. bus_conn t (snd r) = bus_conn t st" "d_log (snd r) = d_log st"
        "notify_of DBUS_BUS_SESSION (snd r) = notify_of DBUS_BUS_SESSION st"
        and "\<exists>x. d_signals (snd r) = (d_signals st)(?s \<mapsto> x)"
        using run Some bus sl by (auto simp: signal_add_def siglist_lookup_tab Let_def)
      then obtain x where x: "d_signals (snd r) = (d_signals st)(?s \<mapsto> x)" by blast
      show ?thesis
      proof (rule db_inv_cong [OF inv])
        show "sig_ok (snd r)" by (rule grown_siglist_ok [OF ok sl x st'(2,3,1)])
        fix c assume m: "mirrored c st"
        have "rules_of DBUS_BUS_SYSTEM (snd r) = rules_of DBUS_BUS_SYSTEM st"
          by (rule rules_of_cong) (use sl in \<open>auto simp: st' rule_of_def\<close>)
        then show "mirrored c (snd r)" by (intro mirrored_step [OF m st'(7), of "{#}"]) (simp_all add: st'(8))
      qed (simp_all add: st')
    qed
  qed
qed

lemma find_node_Some: "find_node heap P as = Some (Some a) \<Longrightarrow> a \<in> set as \<and> (\<exists>x. heap a = Some x \<and> P x)"
  by (induction as) (auto simp: bind_eq_Some_conv split: if_splits)

lemma shrunk_siglist_ok:
  assumes ok: "sig_ok st" and sl: "d_siglists st l = Some sl" and rest: "remove1 s (sl_signals sl) \<noteq> []"
    and heap: "d_signals st' = (d_signals st)(s := None)" "d_siglists st' = (d_siglists st)(l \<mapsto> sl\<lparr>sl_signals := remove1 s (sl_signals sl)\<rparr>)"
    and s: "s \<in> set (sl_signals sl)" and n: "d_next st' = d_next st" and tab: "\<And>t'. sig_tab t' st' = sig_tab t' st"
  shows "sig_ok st'"
proof -
  note D = sig_okD [OF ok]
  have own: "d_siglists st m = Some sl' \<Longrightarrow> m \<noteq> l \<Longrightarrow> s \<notin> set (sl_signals sl')" for m sl' using D(5) sl s by blast
  have sub: "a \<in> set (remove1 s (sl_signals sl)) \<Longrightarrow> a \<in> set (sl_signals sl) \<and> a \<noteq> s" for a using D(2) [OF sl] by simp
  show ?thesis unfolding sig_ok_def heap tab n
  proof (intro conjI allI impI, goal_cases)
    case (1 m sl') then show ?case using D(1) sl by (auto split: if_splits)
  next
    case (2 m sl') then show ?case using D(2) sl by (auto split: if_splits)
  next
    case (3 m sl')
    then show ?case
    proof (cases "m = l")
      case True
      then have sl': "sl' = sl\<lparr>sl_signals := remove1 s (sl_signals sl)\<rparr>" using 3 by simp
      have "a \<in> set (remove1 s (sl_signals sl)) \<Longrightarrow> a \<noteq> s \<and> (\<exists>x. d_signals st a = Some x)" for a
        using D(3) [OF sl] sub by blast
      then show ?thesis unfolding sl' by auto
    next
      case False
      then have "d_siglists st m = Some sl'" using 3 by simp
      then have "a \<in> set (sl_signals sl') \<Longrightarrow> a \<noteq> s \<and> (\<exists>x. d_signals st a = Some x)" for a
        using D(3) [of m sl'] own [of m sl'] False by blast
      then show ?thesis by auto
    qed
  next
    case (4 a s) then show ?case by (auto split: if_splits dest: D(4))
  next
    case (5 m m' sl1 sl2)
    have old: "\<exists>x. d_siglists st m = Some x \<and> set (sl_signals y) \<subseteq> set (sl_signals x)"
      if "((d_siglists st)(l \<mapsto> sl\<lparr>sl_signals := remove1 s (sl_signals sl)\<rparr>)) m = Some y" for m y
      using that sl set_remove1_subset [of s "sl_signals sl"] by (cases "m = l") auto
    from old [OF 5(1)] old [OF 5(2)] D(5) 5(3) show ?case by blast
  next
    case (6 t') then show ?case using D(6) by simp
  next
    case (7 t' k m) then show ?case using D(7) [of k m t'] sl rest by auto
  next
    case (8 t' t'' k k' m) then show ?case using D(8) by blast
  qed
qed

lemma in_delete: "(x, y) \<in> set (AList.delete k ts) \<longleftrightarrow> (x, y) \<in> set ts \<and> x \<noteq> k"
  by (simp add: AList.delete_eq) auto

lemma dropped_siglist_ok:
  assumes ok: "sig_ok st" and sl: "d_siglists st l = Some sl" and rest: "remove1 s (sl_signals sl) = []"
    and heap: "d_signals st' = (d_signals st)(s := None)" "d_siglists st' = (d_siglists st)(l := None)"
    and s: "s \<in> set (sl_signals sl)" and l: "(sl_key sl, l) \<in> set (sig_tab t st)" and n: "d_next st' = d_next st"
    and tab: "\<And>t'. sig_tab t' st' = (if t' = t then AList.delete (sl_key sl) (sig_tab t st) else sig_tab t' st)"
  shows "sig_ok st'"
proof -
  note D = sig_okD [OF ok]
  have own: "d_siglists st m = Some sl' \<Longrightarrow> m \<noteq> l \<Longrightarrow> s \<notin> set (sl_signals sl')" for m sl' using D(5) sl s by blast
  have here: "k = sl_key sl" if "(k, l) \<in> set (sig_tab u st)" for k u using D(7) [OF that] sl by simp
  have other: "m \<noteq> l \<and> (k, m) \<in> set (sig_tab t' st)" if "(k, m) \<in> set (sig_tab t' st')" for k m t'
    using that here D(8) [OF l] unfolding tab by (cases "t' = t") (auto simp: in_delete)
  show ?thesis unfolding sig_ok_def heap n
  proof (intro conjI allI impI, goal_cases)
    case (1 m sl') then show ?case using D(1) by (auto split: if_splits)
  next
    case (2 m sl') then show ?case using D(2) by (auto split: if_splits)
  next
    case (3 m sl') then show ?case using D(3) own by (fastforce split: if_splits)
  next
    case (4 a s) then show ?case by (auto split: if_splits dest: D(4))
  next
    case (5 m m' sl1 sl2) then show ?case using D(5) by (fastforce split: if_splits)
  next
    case (6 t') then show ?case using D(6) by (simp add: tab distinct_delete)
  next
    case (7 t' k m) then show ?case using D(7) other by fastforce
  next
    case (8 t' t'' k k' m) then show ?case using D(8) other by blast
  qed
qed

lemma mset_delete:
  assumes "distinct (map fst ts)" and "(k, v) \<in> set ts"
  shows "mset (map f (AList.delete k ts)) = mset (map f ts) - {#f (k, v)#}"
  using assms
proof (induction ts)
  case (Cons e ts)
  then show ?case
  proof (cases "fst e = k")
    case True
    then have k: "k \<notin> fst ` set ts" using Cons.prems(1) by auto
    then have "e = (k, v)" using Cons.prems(2) by force
    then show ?thesis using k by (simp add: AList.delete_idem)
  next
    case False
    then have "(k, v) \<in> set ts" using Cons.prems(2) by auto
    then have "f (k, v) \<in># mset (map f ts)" by auto
    then show ?thesis using Cons False \<open>(k, v) \<in> set ts\<close> by (cases e) simp
  qed
qed simp

lemma siglist_del_run:
  assumes "d_siglists st l = Some sl" and "sl_signals sl = []" and "siglist_del t l st = Some st'"
  shows "d_siglists st' = (d_siglists st)(l := None)" "d_signals st' = d_signals st"
    "\<And>t'. sig_tab t' st' = (if t' = t then AList.delete (sl_key sl) (sig_tab t st) else sig_tab t' st)"
    "d_next st' = d_next st" "d_watchlists st' = d_watchlists st" "d_objects st' = d_objects st"
    "\<And>t'. wat_tab t' st' = wat_tab t' st" "\<And>t'. bus_conn t' st' = bus_conn t' st"
    "d_log st' = d_log st @ (case bus_conn t st of None \<Rightarrow> [] | Some d \<Rightarrow> [Remove_match d (sl_rule sl)])"
    "notify_of t' st' = notify_of t' st"
  using assms by (auto simp: siglist_del_def siglist_purge_def siglist_del_match_def sig_tab_delete)

lemma signal_del_inv:
  assumes inv: "db_inv C st"
  shows "post (\<lambda>r. db_inv C (snd r)) (signal_del t path interface member signature sender handler data st)"
proof (rule postI)
  let ?key = "signal_key interface member"
  let ?P = "\<lambda>sig. signal_matches sig signature path sender \<and> si_handler sig = handler \<and> si_data sig = data"
  fix r assume run: "signal_del t path interface member signature sender handler data st = Some r"
  have ok: "sig_ok st" using inv by (simp add: db_inv_def)
  note D = sig_okD [OF ok]
  show "db_inv C (snd r)"
  proof (cases "map_of (sig_tab t st) ?key")
    case None
    then show ?thesis using run inv by (auto simp: signal_del_def siglist_lookup_tab)
  next
    case (Some l)
    then obtain sl where sl: "d_siglists st l = Some sl" and key: "sl_key sl = ?key" using D(7) map_of_SomeD by fastforce
    from run Some sl obtain found where found: "find_node (d_signals st) ?P (sl_signals sl) = Some found"
      by (auto simp: signal_del_def siglist_lookup_tab bind_eq_Some_conv)
    show ?thesis
    proof (cases found)
      case None
      then show ?thesis using run inv Some sl found by (auto simp: signal_del_def siglist_lookup_tab)
    next
      case f: (Some s)
      have s: "s \<in> set (sl_signals sl)" using find_node_Some found f by blast
      let ?rest = "remove1 s (sl_signals sl)"
      let ?st1 = "st\<lparr>d_siglists := (d_siglists st)(l \<mapsto> sl\<lparr>sl_signals := ?rest\<rparr>), d_signals := (d_signals st)(s := None)\<rparr>"
      have r: "Some r = (if ?rest = [] then map_option (Pair True) (siglist_del t l ?st1) else Some (True, ?st1))"
        using run Some sl found f by (simp add: signal_del_def siglist_lookup_tab Let_def)
      show ?thesis
      proof (cases "?rest = []")
        case False
        then have st': "snd r = ?st1" using r by simp
        show ?thesis unfolding st'
        proof (rule db_inv_cong [OF inv])
          show "sig_ok ?st1" by (rule shrunk_siglist_ok [OF ok sl False _ _ s]) simp_all
          fix c assume m: "mirrored c st"
          have "rules_of DBUS_BUS_SYSTEM ?st1 = rules_of DBUS_BUS_SYSTEM st"
            by (rule rules_of_cong) (use sl in \<open>auto simp: rule_of_def\<close>)
          then show "mirrored c ?st1" by (intro mirrored_step [OF m, of _ "{#}"]) simp_all
        qed simp_all
      next
        case True
        then have "Some r = map_option (Pair True) (siglist_del t l ?st1)" using r by (metis (no_types))
        then obtain st2 where del: "siglist_del t l ?st1 = Some st2" and st2: "snd r = st2" by (cases "siglist_del t l ?st1") auto
        have sl1: "d_siglists ?st1 l = Some (sl\<lparr>sl_signals := ?rest\<rparr>)" by simp
        have "sl_signals (sl\<lparr>sl_signals := ?rest\<rparr>) = []" using True by simp
        note st' = siglist_del_run [OF sl1 this del, simplified]
        have l: "(sl_key sl, l) \<in> set (sig_tab t st)" using Some map_of_SomeD key by metis
        show ?thesis unfolding st2
        proof (rule db_inv_cong [OF inv])
          show "sig_ok st2" by (rule dropped_siglist_ok [OF ok sl True _ _ s l]) (simp_all add: st')
          fix c assume m: "mirrored c st"
          have here: "k = sl_key sl" if "(k, l) \<in> set (sig_tab u st)" for k u using D(7) [OF that] sl by simp
          have "m \<noteq> l" if "(k, m) \<in> set (sig_tab u st2)" for k m u
            using that here D(8) [OF l] unfolding st'(3) by (cases "u = t") (auto simp: in_delete)
          then have other: "(k, m) \<in> set (sig_tab u st2) \<Longrightarrow> rule_of st2 m = rule_of st m" for k m u
            by (auto simp: rule_of_def st')
          have "mset (map (\<lambda>e. rule_of st2 (snd e)) (sig_tab u st2)) = mset (map (\<lambda>e. rule_of st (snd e)) (sig_tab u st2))" for u
            by (rule arg_cong [of _ _ mset], rule map_cong [OF refl]) (use other in auto)
          then have eq: "mset (map (\<lambda>e. rule_of st2 (snd e)) (sig_tab u st2)) =
              mset (map (\<lambda>e. rule_of st (snd e)) (sig_tab u st)) - (if u = t then {#sl_rule sl#} else {#})" for u
            using mset_delete [OF D(6) l, of "\<lambda>e. rule_of st (snd e)"] sl by (simp add: st'(3) rule_of_def)
          have "rule_of st l \<in> set (map (\<lambda>e. rule_of st (snd e)) (sig_tab t st))" using l by force
          then have mem: "sl_rule sl \<in># mset (map (\<lambda>e. rule_of st (snd e)) (sig_tab t st))" using sl by (simp add: rule_of_def)
          have "rules_of DBUS_BUS_SYSTEM st2 = rules_of DBUS_BUS_SYSTEM st - (if t = DBUS_BUS_SYSTEM then {#sl_rule sl#} else {#})"
            unfolding rules_of_def eq st'(7) using diff_union_single_conv [OF mem]
            by (cases "t = DBUS_BUS_SYSTEM") (simp_all add: add.commute)
          moreover have "matches_at c (d_log st2) = matches_at c (d_log st) - (if t = DBUS_BUS_SYSTEM then {#sl_rule sl#} else {#})"
            using match_effect_on_conn(2) [OF m, where t = t and r = "sl_rule sl"] by (simp add: st'(9) cong: option.case_cong)
          ultimately show "mirrored c st2" using m by (simp add: mirrored_def st')
        qed (simp_all add: st')
      qed
    qed
  qed
qed

subsection \<open>Name watches and methods\<close>

lemma wat_okD:
  assumes "wat_ok st"
  shows "d_watchlists st l = Some wl \<Longrightarrow> l < d_next st" "distinct (map fst (wat_tab t st))"
    "(k, l) \<in> set (wat_tab t st) \<Longrightarrow> \<exists>wl. d_watchlists st l = Some wl \<and> wl_name wl = k"
  using assms unfolding wat_ok_def by (blast, blast, blast)

text \<open>An operation on the watches leaves the signals and objects alone.\<close>

lemma watch_step_inv:
  assumes inv: "db_inv C st" and "wat_ok st'" and "d_siglists st' = d_siglists st" and "d_signals st' = d_signals st"
    and "\<And>t. sig_tab t st' = sig_tab t st" and "d_objects st' = d_objects st" and "d_next st \<le> d_next st'"
    and "\<And>t. bus_conn t st' = bus_conn t st"
    and "\<And>c. mirrored c st \<Longrightarrow> matches_at c (d_log st') = rules_of DBUS_BUS_SYSTEM st'"
    and "notify_of DBUS_BUS_SESSION st' = notify_of DBUS_BUS_SESSION st"
  shows "db_inv C st'"
proof -
  have n: "l < d_next st \<Longrightarrow> l < d_next st'" for l using assms(7) by simp
  have "sig_ok st'" using inv unfolding db_inv_def sig_ok_def assms(3-5) by (simp add: n)
  moreover have "obj_ok st'" using inv by (simp add: db_inv_def obj_ok_def assms(6))
  ultimately show ?thesis using inv assms(2,8-10) by (simp add: db_inv_def mirrored_def)
qed

lemma rules_of_watches:
  assumes "d_siglists st' = d_siglists st" and "\<And>t. sig_tab t st' = sig_tab t st"
  shows "rules_of t st' = mset (map (\<lambda>e. rule_of st (snd e)) (sig_tab t st)) + mset (map (\<lambda>e. watch_rule (fst e)) (wat_tab t st'))"
  by (simp add: rules_of_def rule_of_def assms)

lemma watch_add_inv:
  assumes inv: "db_inv C st"
  shows "post (\<lambda>r. db_inv C (snd r)) (watch_add E t name handler data st)"
proof (cases "bus_by_type t st = None")
  case True
  then show ?thesis using inv by (simp add: watch_add_def post_def)
next
  case bus: False
  have ok: "wat_ok st" using inv by (simp add: db_inv_def)
  note D = wat_okD [OF ok]
  show ?thesis
  proof (rule postI)
    fix r assume run: "watch_add E t name handler data st = Some r"
    show "db_inv C (snd r)"
    proof (cases "map_of (wat_tab t st) name")
      case None
      let ?l = "d_next st + 1"
      have st': "\<And>t'. wat_tab t' (snd r) = (if t' = t then wat_tab t st @ [(name, ?l)] else wat_tab t' st)"
        "d_next (snd r) = ?l + 1" "d_siglists (snd r) = d_siglists st" "d_signals (snd r) = d_signals st"
        "\<And>t. sig_tab t (snd r) = sig_tab t st" "d_objects (snd r) = d_objects st" "\<And>t. bus_conn t (snd r) = bus_conn t st"
        "d_log (snd r) = d_log st @ (case bus_conn t st of None \<Rightarrow> [] | Some d \<Rightarrow> [Add_match d (watch_rule name)])"
        "notify_of DBUS_BUS_SESSION (snd r) = notify_of DBUS_BUS_SESSION st"
        and "\<exists>wl. d_watchlists (snd r) = (d_watchlists st)(?l \<mapsto> wl) \<and> wl_name wl = name"
        using run None bus
        by (auto simp: watch_add_def watchlist_lookup_tab watchlist_add_def watchlist_add_match_def Let_def wat_tab_upd
          split: option.splits if_splits)
      then obtain wl where wl: "d_watchlists (snd r) = (d_watchlists st)(?l \<mapsto> wl)" "wl_name wl = name" by blast
      show ?thesis
      proof (rule watch_step_inv [OF inv])
        have key: "name \<notin> fst ` set (wat_tab t st)" using None by (simp add: map_of_eq_None_iff)
        have new: "(k, ?l) \<notin> set (wat_tab u st)" for k u using D(1,3) by fastforce
        have old: "d_watchlists st m = Some x \<Longrightarrow> m < ?l + 1" for m x using D(1) by fastforce
        show "wat_ok (snd r)" unfolding wat_ok_def st'(1,2) wl(1)
        proof (intro conjI allI impI, goal_cases)
          case (1 m x) then show ?case using old by (auto split: if_splits)
        next
          case (2 u) then show ?case using D(2) key by simp
        next
          case (3 u k m) then show ?case using D(3) new wl(2) by (auto split: if_splits)
        qed
        show "matches_at c (d_log (snd r)) = rules_of DBUS_BUS_SYSTEM (snd r)" if "mirrored c st" for c
        proof -
          have "matches_at c (d_log st) = rules_of DBUS_BUS_SYSTEM st" using that by (simp add: mirrored_def)
          then show ?thesis
            using match_effect_on_conn(1) [OF that, where t = t and r = "watch_rule name"]
            by (simp add: st'(8) rules_of_watches [OF st'(3,5)] st'(1)) (simp add: rules_of_def)
        qed
      qed (simp_all add: st')
    next
      case (Some l)
      then obtain wl where wl: "d_watchlists st l = Some wl" using D(3) map_of_SomeD by fastforce
      have st': "\<And>t'. wat_tab t' (snd r) = wat_tab t' st" "d_next (snd r) = d_next st + 1"
        "d_siglists (snd r) = d_siglists st" "d_signals (snd r) = d_signals st"
        "\<And>t. sig_tab t (snd r) = sig_tab t st" "d_objects (snd r) = d_objects st" "\<And>t. bus_conn t (snd r) = bus_conn t st"
        "d_log (snd r) = d_log st"
        "d_watchlists (snd r) = (d_watchlists st)(l \<mapsto> wl\<lparr>wl_watches := wl_watches wl @ [d_next st]\<rparr>)"
        "notify_of DBUS_BUS_SESSION (snd r) = notify_of DBUS_BUS_SESSION st"
        using run Some bus wl by (auto simp: watch_add_def watchlist_lookup_tab Let_def)
      show ?thesis
      proof (rule watch_step_inv [OF inv])
        show "wat_ok (snd r)" unfolding wat_ok_def st'
          using D wl by (fastforce split: if_splits)
        show "matches_at c (d_log (snd r)) = rules_of DBUS_BUS_SYSTEM (snd r)" if "mirrored c st" for c
          using that by (simp add: st'(8) rules_of_watches [OF st'(3,5)] st'(1)) (simp add: mirrored_def rules_of_def)
      qed (simp_all add: st')
    qed
  qed
qed

lemma watchlist_del_run:
  assumes "d_watchlists st l = Some wl" and "watchlist_del t l st = Some st'"
  shows "d_watchlists st' = (d_watchlists st)(l \<mapsto> wl\<lparr>wl_watches := []\<rparr>)"
    "\<And>t'. wat_tab t' st' = (if t' = t then AList.delete (wl_name wl) (wat_tab t st) else wat_tab t' st)"
    "d_next st' = d_next st" "d_siglists st' = d_siglists st" "d_signals st' = d_signals st" "d_objects st' = d_objects st"
    "\<And>t'. sig_tab t' st' = sig_tab t' st" "\<And>t'. bus_conn t' st' = bus_conn t' st"
    "d_log st' = d_log st @ (case bus_conn t st of None \<Rightarrow> [] | Some d \<Rightarrow> [Remove_match d (watch_rule (wl_name wl))])"
    "notify_of t' st' = notify_of t' st"
  using assms by (auto simp: watchlist_del_def watchlist_purge_def watchlist_del_match_def wat_tab_delete)

lemma watch_del_inv:
  assumes inv: "db_inv C st"
  shows "post (\<lambda>r. db_inv C (snd r)) (watch_del t name handler data st)"
proof (rule postI)
  fix r assume run: "watch_del t name handler data st = Some r"
  have ok: "wat_ok st" using inv by (simp add: db_inv_def)
  note D = wat_okD [OF ok]
  show "db_inv C (snd r)"
  proof (cases "snd r = st")
    case changed: False
    from run changed obtain l where l: "map_of (wat_tab t st) name = Some l"
      by (auto simp: watch_del_def watchlist_lookup_tab split: option.splits)
    then have mem: "(name, l) \<in> set (wat_tab t st)" by (rule map_of_SomeD)
    from D(3) [OF mem] obtain wl where wl: "d_watchlists st l = Some wl" "wl_name wl = name" by blast
    from run l wl(1) obtain found where
      f: "find_node (d_watches st) (\<lambda>w. wt_handler w = handler \<and> wt_data w = data) (wl_watches wl) = Some found"
      by (auto simp: watch_del_def watchlist_lookup_tab bind_eq_Some_conv)
    have "found \<noteq> None" using run l wl(1) changed f by (cases found) (auto simp: watch_del_def watchlist_lookup_tab)
    then obtain w where w: "found = Some w" by blast
    let ?rest = "remove1 w (wl_watches wl)"
    let ?st1 = "st\<lparr>d_watchlists := (d_watchlists st)(l \<mapsto> wl\<lparr>wl_watches := ?rest\<rparr>), d_watches := (d_watches st)(w := None)\<rparr>"
    have r: "Some r = (if ?rest = [] then map_option (Pair True) (watchlist_del t l ?st1) else Some (True, ?st1))"
      using run l wl(1) f w by (simp add: watch_del_def watchlist_lookup_tab Let_def)
    show ?thesis
    proof (cases "?rest = []")
      case False
      then have st': "snd r = ?st1" using r by simp
      show ?thesis unfolding st'
      proof (rule watch_step_inv [OF inv])
        show "wat_ok ?st1" unfolding wat_ok_def using D wl by (fastforce split: if_splits)
        show "matches_at c (d_log ?st1) = rules_of DBUS_BUS_SYSTEM ?st1" if "mirrored c st" for c
          using that by (simp add: mirrored_def rules_of_def rule_of_def)
      qed simp_all
    next
      case True
      then have "Some r = map_option (Pair True) (watchlist_del t l ?st1)" using r by (metis (no_types))
      then obtain st2 where del: "watchlist_del t l ?st1 = Some st2" and st2: "snd r = st2"
        by (cases "watchlist_del t l ?st1") auto
      have wl1: "d_watchlists ?st1 l = Some (wl\<lparr>wl_watches := ?rest\<rparr>)" by simp
      note st' = watchlist_del_run [OF wl1 del, simplified, unfolded wl(2)]
      show ?thesis unfolding st2
      proof (rule watch_step_inv [OF inv])
        show "wat_ok st2" unfolding wat_ok_def st'(1-3)
        proof (intro conjI allI impI, goal_cases)
          case (1 m x) then show ?case using D(1) wl(1) by (auto split: if_splits)
        next
          case (2 u) then show ?case using D(2) by (simp add: distinct_delete)
        next
          case (3 u k m) then show ?case using D(3) wl by (fastforce simp: in_delete split: if_splits)
        qed
        show "matches_at c (d_log st2) = rules_of DBUS_BUS_SYSTEM st2" if "mirrored c st" for c
        proof -
          let ?W = "\<lambda>u. mset (map (\<lambda>e. watch_rule (fst e)) (wat_tab u st))"
          have eq: "mset (map (\<lambda>e. watch_rule (fst e)) (wat_tab u st2)) = ?W u - (if u = t then {#watch_rule name#} else {#})" for u
            using mset_delete [OF D(2) mem, of "\<lambda>e. watch_rule (fst e)"] by (simp add: st'(2) wl(2))
          have "watch_rule name \<in> set (map (\<lambda>e. watch_rule (fst e)) (wat_tab t st))" using mem by force
          then have m: "watch_rule name \<in># ?W t" by simp
          have "rules_of DBUS_BUS_SYSTEM st2 = rules_of DBUS_BUS_SYSTEM st - (if t = DBUS_BUS_SYSTEM then {#watch_rule name#} else {#})"
            unfolding rules_of_watches [OF st'(4,7)] eq unfolding rules_of_def using diff_union_single_conv [OF m]
            by (cases "t = DBUS_BUS_SYSTEM") simp_all
          then show ?thesis
            using match_effect_on_conn(2) [OF that, where t = t and r = "watch_rule name"] that by (simp add: st'(9) mirrored_def wl(2) cong: option.case_cong)
        qed
      qed (simp_all add: st')
    qed
  qed (use inv in simp)
qed

text \<open>The objects: a step that changes them, registers or unregisters a path.\<close>

lemma object_step_inv:
  assumes inv: "db_inv C st" and "same_lists st st'" and "obj_ok st'" and "\<And>t. bus_conn t st' = bus_conn t st"
    and "\<And>c. matches_at c (d_log st') = matches_at c (d_log st)"
  shows "db_inv C st'"
  using inv same_lists_ok [OF assms(2)] assms(2-5) by (simp add: db_inv_def mirrored_def same_lists_def)

text \<open>What an operation on the objects leaves alone.\<close>

definition db_quiet :: "dbus_state \<Rightarrow> dbus_state \<Rightarrow> bool" where
  "db_quiet st st' \<longleftrightarrow> same_lists st st' \<and> (\<forall>t. bus_conn t st' = bus_conn t st) \<and>
     (\<forall>c. matches_at c (d_log st') = matches_at c (d_log st))"

lemma db_quiet_refl [simp]: "db_quiet st st"
  by (simp add: db_quiet_def)

lemma db_quiet_trans: "db_quiet st st' \<Longrightarrow> db_quiet st' st'' \<Longrightarrow> db_quiet st st''"
  by (auto simp: db_quiet_def intro: same_lists_trans)

lemma db_quiet_inv: "db_inv C st \<Longrightarrow> db_quiet st st' \<Longrightarrow> obj_ok st' \<Longrightarrow> db_inv C st'"
  using object_step_inv by (auto simp: db_quiet_def)

lemma db_quiet_object [simp]:
  "db_quiet st (st\<lparr>d_objects := g\<rparr>)" "db_quiet st (upd_bus t (b_objects_update f) st)" "db_quiet st (st\<lparr>d_refs := n\<rparr>)"
  by (simp_all add: db_quiet_def same_lists_def)

lemma db_quiet_note [simp]:
  "db_quiet st (d_note (Register_path c p a) st)" "db_quiet st (d_note (Unregister_path c p) st)"
  "db_quiet st (d_note (Connect x) st)" "db_quiet st (d_note (Register_bus c) st)"
  "db_quiet st (d_note (Signal_call h n msg) st)" "db_quiet st (d_note (Method_call m n msg) st)"
  "db_quiet st (d_note (Watch_call m n u v w) st)" "db_quiet st (d_note (Add_filter c g) st)"
  by (simp_all add: db_quiet_def same_lists_def)

lemma db_quiet_on_conn [simp]:
  "db_quiet st (on_conn t (\<lambda>c. Unregister_path c p) st)" "db_quiet st (on_conn t (\<lambda>c. Add_filter c g) st)"
  by (simp_all add: on_conn_def split: option.split)

lemma obj_okD: "obj_ok st \<Longrightarrow> d_objects st a = Some ob \<Longrightarrow> (k, m) \<in> set (ob_methods ob) \<Longrightarrow>
    k = method_key (me_interface m) (Some (me_member m)) (me_signature m)"
  unfolding obj_ok_def by blast

lemma obj_ok_fields:
  "d_objects st' = d_objects st \<Longrightarrow> obj_ok st' = obj_ok st"
  "obj_ok st \<Longrightarrow> d_objects st' = (d_objects st)(a := None) \<Longrightarrow> obj_ok st'"
  "obj_ok st \<Longrightarrow> d_objects st' = (d_objects st)(a \<mapsto> ob) \<Longrightarrow>
    (\<And>k m. (k, m) \<in> set (ob_methods ob) \<Longrightarrow> k = method_key (me_interface m) (Some (me_member m)) (me_signature m)) \<Longrightarrow> obj_ok st'"
  unfolding obj_ok_def by (auto split: if_splits)

definition db_quiet_ok :: "dbus_state \<Rightarrow> dbus_state \<Rightarrow> bool" where
  "db_quiet_ok st st' \<longleftrightarrow> db_quiet st st' \<and> (obj_ok st \<longrightarrow> obj_ok st')"

lemma db_quiet_ok_refl [simp]: "db_quiet_ok st st"
  by (simp add: db_quiet_ok_def)

lemma db_quiet_ok_trans: "db_quiet_ok st st' \<Longrightarrow> db_quiet_ok st' st'' \<Longrightarrow> db_quiet_ok st st''"
  unfolding db_quiet_ok_def using db_quiet_trans by blast

lemma db_quiet_okI: "db_quiet st st' \<Longrightarrow> d_objects st' = d_objects st \<Longrightarrow> db_quiet_ok st st'"
  unfolding db_quiet_ok_def by (rule conjI, assumption, rule impI) (subst obj_ok_fields(1) [of st' st]; assumption)

lemma db_quiet_ok_inv: "db_inv C st \<Longrightarrow> db_quiet_ok st st' \<Longrightarrow> db_inv C st'"
  using db_quiet_inv unfolding db_quiet_ok_def db_inv_def by blast

lemma object_register_quiet: "post (\<lambda>r. db_quiet_ok st (snd r)) (object_register E a st)"
  unfolding object_register_def
  by (cases "d_objects st a") (auto simp: post_def intro: db_quiet_okI split: option.splits)

lemma object_unregister_quiet: "post (db_quiet_ok st) (object_unregister a st)"
  by (cases "d_objects st a") (auto simp: object_unregister_def post_def intro: db_quiet_okI)

lemma object_purge_quiet: "post (db_quiet_ok st) (object_purge a st)"
proof (rule postI)
  fix st' assume "object_purge a st = Some st'"
  then obtain st1 where "object_unregister a st = Some st1" and st': "st' = st1\<lparr>d_objects := (d_objects st1)(a := None)\<rparr>"
    by (auto simp: object_purge_def bind_eq_Some_conv split: if_splits)
  then have "db_quiet_ok st st1" using object_unregister_quiet by (auto simp: post_def)
  moreover have "db_quiet_ok st1 st'" unfolding st' by (simp add: db_quiet_ok_def) (auto intro: obj_ok_fields(2))
  ultimately show "db_quiet_ok st st'" by (rule db_quiet_ok_trans)
qed

lemma object_del_quiet: "post (db_quiet_ok st) (object_del a st)"
proof (rule postI)
  fix st' assume "object_del a st = Some st'"
  then obtain ob :: dbus_object where "object_purge a (upd_bus (ob_bus ob) (b_objects_update (AList.delete (ob_path ob))) st) = Some st'"
    unfolding object_del_def bind_eq_Some_conv by blast
  then have "db_quiet_ok (upd_bus (ob_bus ob) (b_objects_update (AList.delete (ob_path ob))) st) st'"
    using object_purge_quiet by (auto simp: post_def)
  then show "db_quiet_ok st st'" by (rule db_quiet_ok_trans [rotated]) (simp add: db_quiet_okI)
qed

lemma object_add_quiet: "post (\<lambda>r. db_quiet_ok st (snd r)) (object_add E t path st)"
proof (rule postI)
  fix r assume run: "object_add E t path st = Some r"
  let ?st2 = "upd_bus t (b_objects_update (\<lambda>ts. ts @ [(path, d_next st)])) (st\<lparr>d_next := d_next st + 1,
    d_objects := (d_objects st)(d_next st \<mapsto> \<lparr>ob_path = path, ob_bus = t, ob_methods = []\<rparr>)\<rparr>)"
  have q2: "db_quiet_ok st ?st2"
    by (auto simp: db_quiet_ok_def db_quiet_def same_lists_def intro: obj_ok_fields(3))
  obtain ok st3 where reg: "object_register E (d_next st) ?st2 = Some (ok, st3)"
    and r: "(if ok then Some (Some (d_next st), st3)
      else map_option (Pair None) (object_purge (d_next st) (upd_bus t (b_objects_update (AList.delete path)) st3))) = Some r"
    using run by (auto simp: object_add_def Let_def bind_eq_Some_conv)
  have q3: "db_quiet_ok ?st2 st3" using postD [OF object_register_quiet reg] by simp
  show "db_quiet_ok st (snd r)"
  proof (cases ok)
    case True
    then show ?thesis using r db_quiet_ok_trans [OF q2 q3] by auto
  next
    case False
    then obtain st4 where purge: "object_purge (d_next st) (upd_bus t (b_objects_update (AList.delete path)) st3) = Some st4"
      and "snd r = st4" using r by auto
    moreover have "db_quiet_ok st3 (upd_bus t (b_objects_update (AList.delete path)) st3)" by (simp add: db_quiet_okI)
    ultimately show ?thesis
      using db_quiet_ok_trans [OF db_quiet_ok_trans [OF db_quiet_ok_trans [OF q2 q3]] postD [OF object_purge_quiet purge]] by simp
  qed
qed

lemma method_key_member: "method_key interface (Some (text_or_empty member)) signature = method_key interface member signature"
  by (simp add: method_key_def text_or_empty_def split: option.split)

lemma method_add_quiet: "post (\<lambda>r. db_quiet_ok st (snd r)) (method_add E t path interface member signature handler data st)"
proof (rule postI)
  let ?key = "method_key interface member signature"
  let ?m = "\<lparr>me_interface = interface, me_member = text_or_empty member, me_signature = signature, me_handler = handler, me_data = data\<rparr>"
  fix r assume run: "method_add E t path interface member signature handler data st = Some r"
  show "db_quiet_ok st (snd r)"
  proof (cases "bus_by_type t st = None")
    case True
    then show ?thesis using run by (auto simp: method_add_def)
  next
    case False
    then obtain obj st1 where add: "(case object_lookup t path st of None \<Rightarrow> object_add E t path st
          | Some a \<Rightarrow> do { ob \<leftarrow> d_objects st a;
               if map_of (ob_methods ob) ?key \<noteq> None then Some (None, st) else Some (Some a, st) }) = Some (obj, st1)"
      and r: "(case obj of None \<Rightarrow> Some (False, st1)
          | Some a \<Rightarrow> do { ob \<leftarrow> d_objects st1 a;
               Some (True, st1\<lparr>d_objects := (d_objects st1)(a \<mapsto> ob\<lparr>ob_methods := ob_methods ob @ [(?key, ?m)]\<rparr>)\<rparr>) }) = Some r"
      using run by (auto simp: method_add_def Let_def bind_eq_Some_conv)
    have q: "db_quiet_ok st st1"
    proof (cases "object_lookup t path st")
      case None
      then show ?thesis using add postD [OF object_add_quiet, of E t path st "(obj, st1)"] by simp
    next
      case (Some a)
      then show ?thesis using add by (auto simp: bind_eq_Some_conv split: if_splits)
    qed
    show ?thesis
    proof (cases obj)
      case None
      then show ?thesis using r q by auto
    next
      case (Some a)
      then obtain ob where ob: "d_objects st1 a = Some ob"
        and st': "snd r = st1\<lparr>d_objects := (d_objects st1)(a \<mapsto> ob\<lparr>ob_methods := ob_methods ob @ [(?key, ?m)]\<rparr>)\<rparr>"
        using r by (auto simp: bind_eq_Some_conv)
      have "obj_ok (snd r)" if o: "obj_ok st1" unfolding st'
        by (rule obj_ok_fields(3) [OF o, of _ a "ob\<lparr>ob_methods := ob_methods ob @ [(?key, ?m)]\<rparr>"])
          (use obj_okD [OF o ob] in \<open>auto simp: method_key_member\<close>)
      then have "db_quiet_ok st1 (snd r)" by (simp add: db_quiet_ok_def st')
      with q show ?thesis by (rule db_quiet_ok_trans)
    qed
  qed
qed

lemma method_del_quiet: "post (\<lambda>r. db_quiet_ok st (snd r)) (method_del t path interface member signature handler data st)"
proof (rule postI)
  fix r assume run: "method_del t path interface member signature handler data st = Some r"
  show "db_quiet_ok st (snd r)"
  proof (cases "snd r = st")
    case changed: False
    obtain a where a: "object_lookup t path st = Some a"
      using run changed by (cases "object_lookup t path st") (auto simp: method_del_def)
    obtain ob where ob: "d_objects st a = Some ob" using run a by (cases "d_objects st a") (auto simp: method_del_def)
    let ?key = "method_key interface member signature"
    let ?rest = "AList.delete ?key (ob_methods ob)"
    let ?st1 = "st\<lparr>d_objects := (d_objects st)(a \<mapsto> ob\<lparr>ob_methods := ?rest\<rparr>)\<rparr>"
    obtain m where m: "map_of (ob_methods ob) ?key = Some m"
      using run a ob changed by (cases "map_of (ob_methods ob) ?key") (auto simp: method_del_def)
    have r: "(if ?rest = [] then do { st2 \<leftarrow> object_unregister a ?st1; map_option (Pair True) (object_del a st2) }
        else Some (True, ?st1)) = Some r"
      using run a ob m changed by (auto simp: method_del_def Let_def split: if_splits)
    have "obj_ok ?st1" if o: "obj_ok st"
      by (rule obj_ok_fields(3) [OF o, of _ a "ob\<lparr>ob_methods := ?rest\<rparr>"]) (use obj_okD [OF o ob] in \<open>auto simp: in_delete\<close>)
    then have q1: "db_quiet_ok st ?st1" by (simp add: db_quiet_ok_def)
    show ?thesis
    proof (cases "?rest = []")
      case True
      then have "do { st2 \<leftarrow> object_unregister a ?st1; map_option (Pair True) (object_del a st2) } = Some r" using r by (metis (no_types))
      then obtain st2 st3 where "object_unregister a ?st1 = Some st2" "object_del a st2 = Some st3" "snd r = st3"
        by (auto simp: bind_eq_Some_conv simp del: fun_upd_apply)
      note runs = this
      show ?thesis unfolding runs(3)
        by (rule db_quiet_ok_trans [OF db_quiet_ok_trans [OF q1 postD [OF object_unregister_quiet runs(1)]] postD [OF object_del_quiet runs(2)]])
    next
      case False
      then show ?thesis using r q1 by auto
    qed
  qed simp
qed

subsection \<open>Connecting\<close>

lemma db_inv_quiet_note:
  assumes "db_inv C st" and "db_quiet st (d_note x st)"
  shows "db_inv C (d_note x st)"
  by (rule db_quiet_ok_inv [OF assms(1)]) (rule db_quiet_okI [OF assms(2)], simp)

text \<open>Match rules at the connection of the session bus are no match rules of the system bus.\<close>

lemma session_match_inv:
  assumes inv: "db_inv C st" and "bus_conn DBUS_BUS_SESSION st = Some d"
  shows "db_inv C (d_note (Add_match d r) st)"
proof (rule db_inv_cong [OF inv])
  show "sig_ok (d_note (Add_match d r) st)" using inv by (simp add: db_inv_def sig_ok_def)
  fix c assume m: "mirrored c st"
  have "rules_of DBUS_BUS_SYSTEM (d_note (Add_match d r) st) = rules_of DBUS_BUS_SYSTEM st"
    by (simp add: rules_of_def rule_of_def)
  then show "mirrored c (d_note (Add_match d r) st)"
    using m assms(2) by (auto simp: mirrored_def)
qed simp_all

definition session_up :: "nat set \<Rightarrow> nat \<Rightarrow> dbus_state \<Rightarrow> bool" where
  "session_up C d st \<longleftrightarrow> db_inv C st \<and> bus_conn DBUS_BUS_SESSION st = Some d"

lemma session_callback_inv:
  assumes "session_up C d st"
  shows "post (session_up C d) (run_bus_callback E DBUS_BUS_SESSION cb st)"
proof -
  have filt: "session_up C d (on_conn DBUS_BUS_SESSION (\<lambda>c. Add_filter c g) st)" for g
    using assms db_inv_quiet_note [of C st "Add_filter d g"] by (simp add: session_up_def on_conn_def)
  have watch: "post (session_up C d) (do { wl \<leftarrow> d_watchlists s l; watchlist_add_match E DBUS_BUS_SESSION (wl_name wl) s })"
    if "session_up C d s" for l s
    using that session_match_inv [of C s d] by (auto simp: session_up_def watchlist_add_match_def post_def bind_eq_Some_conv split: if_splits)
  have signal: "post (session_up C d) (do { sl \<leftarrow> d_siglists s l; Some (siglist_add_match DBUS_BUS_SESSION (sl_rule sl) s) })"
    if "session_up C d s" for l s
    using that session_match_inv [of C s d] by (auto simp: session_up_def siglist_add_match_def on_conn_def post_def bind_eq_Some_conv)
  have object: "post (session_up C d) (map_option snd (object_register E a s))" if s: "session_up C d s" for a s
  proof (rule postI)
    fix s' assume "map_option snd (object_register E a s) = Some s'"
    then obtain r where r: "object_register E a s = Some r" "s' = snd r" by auto
    have "db_quiet_ok s s'" using postD [OF object_register_quiet r(1)] r(2) by simp
    moreover from this have "bus_conn DBUS_BUS_SESSION s' = bus_conn DBUS_BUS_SESSION s" by (simp add: db_quiet_ok_def db_quiet_def)
    ultimately show "session_up C d s'" using s db_quiet_ok_inv by (simp add: session_up_def) blast
  qed
  show ?thesis
  proof (cases cb)
    case Watch_bus_event
    have "post (session_up C d) (watch_bus_event E DBUS_BUS_SESSION st)"
      unfolding watch_bus_event_def by (rule post_bind [OF post_any]) (rule foldM_post [OF watch filt])
    then show ?thesis by (simp add: Watch_bus_event)
  next
    case Method_bus_event
    have "post (session_up C d) (method_bus_event E DBUS_BUS_SESSION st)"
      unfolding method_bus_event_def by (rule post_bind [OF post_any]) (rule foldM_post [OF object assms])
    then show ?thesis by (simp add: Method_bus_event)
  next
    case Signal_bus_event
    have "post (session_up C d) (signal_bus_event E DBUS_BUS_SESSION st)"
      unfolding signal_bus_event_def by (rule post_bind [OF post_any]) (rule foldM_post [OF signal filt])
    then show ?thesis by (simp add: Signal_bus_event)
  qed
qed

lemma session_event_inv: "session_up C d st \<Longrightarrow> post (session_up C d) (bus_event E DBUS_BUS_SESSION st)"
  unfolding bus_event_def by (rule post_bind [OF post_any]) (rule foldM_post [OF session_callback_inv])

text \<open>libdbus does not open one of the followed connections again.\<close>

definition opens_others :: "nat set \<Rightarrow> dbus_env \<Rightarrow> bool" where
  "opens_others C E \<longleftrightarrow> (\<forall>log addr c. dv_open E log addr = Some c \<longrightarrow> c \<notin> C)"

lemma session_conn_inv:
  assumes inv: "db_inv C st" and "d \<notin> C"
  shows "db_inv C (upd_bus DBUS_BUS_SESSION (b_conn_update (\<lambda>_. Some d)) st)"
proof (rule db_inv_cong [OF inv])
  let ?st' = "upd_bus DBUS_BUS_SESSION (b_conn_update (\<lambda>_. Some d)) st"
  show "sig_ok ?st'" using inv by (simp add: db_inv_def sig_ok_def)
  fix c assume m: "mirrored c st" and c: "c \<in> C"
  have "rules_of DBUS_BUS_SYSTEM ?st' = rules_of DBUS_BUS_SYSTEM st" by (simp add: rules_of_def rule_of_def)
  moreover have "bus_conn DBUS_BUS_SYSTEM ?st' = bus_conn DBUS_BUS_SYSTEM st" by (simp add: bus_conn_def)
  moreover have "bus_conn DBUS_BUS_SESSION ?st' \<noteq> Some c" using c assms(2) by (auto simp: bus_conn_def split: option.split)
  ultimately show "mirrored c ?st'" using m by (simp add: mirrored_def)
qed simp_all

lemma session_bus_up_inv:
  assumes inv: "db_inv C st" and E: "opens_others C E"
  shows "post (db_inv C) (session_bus_up E msg st)"
proof (rule postI)
  fix st' assume run: "session_bus_up E msg st = Some st'"
  show "db_inv C st'"
  proof (cases "d_session st = None \<or> dm_strings msg = []")
    case True
    then show ?thesis using run inv by (auto simp: session_bus_up_def split: if_splits)
  next
    case False
    then obtain address rest where msg: "dm_strings msg = address # rest" by (cases "dm_strings msg") auto
    obtain r where r: "bus_connect E DBUS_BUS_SESSION (Some address) st = Some r" and st': "st' = snd r"
      using run False msg by (auto simp: session_bus_up_def)
    obtain c where c: "dv_open E (d_log st) address = Some c" using r by (cases "dv_open E (d_log st) address") (auto simp: bus_connect_def)
    let ?st1 = "d_note (Connect (Some address)) st"
    let ?st2 = "d_note (Register_bus c) (upd_bus DBUS_BUS_SESSION (b_conn_update (\<lambda>_. Some c)) ?st1)"
    have "c \<notin> C" using E c by (auto simp: opens_others_def)
    then have inv2: "db_inv C ?st2"
      by (intro db_inv_quiet_note session_conn_inv inv) simp_all
    have r': "Some r = (if dv_register E (d_log ?st1) c then map_option (Pair True) (bus_event E DBUS_BUS_SESSION ?st2) else Some (False, ?st2))"
      using r c by (simp add: bus_connect_def Let_def)
    show ?thesis
    proof (cases "dv_register E (d_log ?st1) c")
      case True
      then have "Some r = map_option (Pair True) (bus_event E DBUS_BUS_SESSION ?st2)" using r' by simp
      then have ev: "bus_event E DBUS_BUS_SESSION ?st2 = Some st'"
        unfolding st' by (cases "bus_event E DBUS_BUS_SESSION ?st2") auto
      have "d_session st \<noteq> None" using False by simp
      then have "session_up C c ?st2" using inv2 by (auto simp: session_up_def bus_conn_def)
      then show ?thesis using postD [OF session_event_inv ev] by (simp add: session_up_def)
    next
      case no: False
      then show ?thesis using r' inv2 st' by simp
    qed
  qed
qed

subsection \<open>Steps\<close>

lemma export_inv: "post (\<lambda>r. db_inv C (snd r)) m \<Longrightarrow> post (db_inv C) (export n m)"
proof (rule postI)
  fix st' assume p: "post (\<lambda>r. db_inv C (snd r)) m" and run: "export n m = Some st'"
  then obtain ok st where m: "m = Some (ok, st)" and st': "st' = (if ok then st\<lparr>d_refs := d_refs st + n\<rparr> else st)"
    by (auto simp: export_def)
  have "db_inv C st" using postD [OF p m] by simp
  moreover have "db_quiet_ok st st'" unfolding st' by (auto intro: db_quiet_okI)
  ultimately show "db_inv C st'" by (rule db_quiet_ok_inv)
qed

lemma quiet_post: "db_inv C st \<Longrightarrow> post (\<lambda>r. db_quiet_ok st (snd r)) m \<Longrightarrow> post (\<lambda>r. db_inv C (snd r)) m"
  by (auto simp: post_def intro: db_quiet_ok_inv)

lemma run_cmd_inv: "db_inv C st \<Longrightarrow> post (db_inv C) (run_cmd E cmd st)"
  by (cases cmd) (simp_all add: export_inv quiet_post method_add_quiet method_del_quiet signal_add_inv signal_del_inv watch_add_inv watch_del_inv)

text \<open>What the exported functions, the announcement of the session bus and the calls of handlers keep, every input keeps.\<close>

definition dbus_keeps :: "dbus_env \<Rightarrow> (dbus_state \<Rightarrow> bool) \<Rightarrow> bool" where
  "dbus_keeps E I \<longleftrightarrow>
     (\<forall>cmd st. I st \<longrightarrow> post I (run_cmd E cmd st)) \<and> (\<forall>msg st. I st \<longrightarrow> post I (session_bus_up E msg st)) \<and>
     (\<forall>x st. I st \<longrightarrow> db_quiet st (d_note x st) \<longrightarrow> I (d_note x st))"

lemma dbus_keepsD:
  assumes "dbus_keeps E I" and "I st"
  shows "post I (run_cmd E cmd st)" "post I (session_bus_up E msg st)" "db_quiet st (d_note x st) \<Longrightarrow> I (d_note x st)"
  using assms unfolding dbus_keeps_def by blast+

lemma client_call_keeps:
  assumes "dbus_keeps E I" and "I st" and "db_quiet st (d_note x st)"
  shows "post I (client_call E x st)"
  unfolding client_call_def Let_def
  by (rule foldM_post [OF dbus_keepsD(1) [OF assms(1)] dbus_keepsD(3) [OF assms]])

lemma signal_body_keeps:
  assumes "dbus_keeps E I" and "I st"
  shows "post I (signal_body E msg a st)"
  unfolding signal_body_def call_signal_handler_def Let_def
  by (intro post_bind [OF post_any] post_if post_Some assms)
    (use assms in \<open>simp add: client_call_keeps dbus_keepsD split: signal_fun.split\<close>)

lemma signal_loop_keeps:
  assumes "signal_loop E msg l p n st = Some st'" and "dbus_keeps E I" and "I st"
  shows "I st'"
proof -
  have "dbus_keeps E I \<longrightarrow> I st \<longrightarrow> I st'"
  proof (rule signal_loop.raw_induct [where P = "\<lambda>E msg l p n st r. dbus_keeps E I \<longrightarrow> I st \<longrightarrow> I r", OF _ assms(1)],
      intro impI)
    fix loop :: "dbus_env \<Rightarrow> dbus_msg \<Rightarrow> addr \<Rightarrow> list_pos \<Rightarrow> list_pos \<Rightarrow> dbus_state \<Rightarrow> dbus_state option" and E msg l p n st r
    assume IH: "\<And>E msg l p n st r. loop E msg l p n st = Some r \<Longrightarrow> dbus_keeps E I \<longrightarrow> I st \<longrightarrow> I r"
      and run: "(case p of Head \<Rightarrow> Some st
        | Node a \<Rightarrow> do { st1 \<leftarrow> signal_body E msg a st; n' \<leftarrow> next_signal l n st1; loop E msg l n n' st1 }) = Some r"
      and E: "dbus_keeps E I" and inv: "I st"
    show "I r"
    proof (cases p)
      case Head
      then show ?thesis using run inv by simp
    next
      case (Node a)
      then obtain st1 n' where "signal_body E msg a st = Some st1" "loop E msg l n n' st1 = Some r"
        using run by (auto simp: bind_eq_Some_conv)
      then show ?thesis using IH E postD [OF signal_body_keeps [OF E inv]] by blast
    qed
  qed
  then show ?thesis using assms by blast
qed

lemma watch_loop_keeps:
  assumes "watch_loop E name previous current l p n st = Some st'" and "dbus_keeps E I" and "I st"
  shows "I st'"
proof -
  have "dbus_keeps E I \<longrightarrow> I st \<longrightarrow> I st'"
  proof (rule watch_loop.raw_induct [where P = "\<lambda>E name previous current l p n st r. dbus_keeps E I \<longrightarrow> I st \<longrightarrow> I r",
      OF _ assms(1)], intro impI)
    fix loop :: "dbus_env \<Rightarrow> string \<Rightarrow> string \<Rightarrow> string \<Rightarrow> addr \<Rightarrow> list_pos \<Rightarrow> list_pos \<Rightarrow> dbus_state \<Rightarrow> dbus_state option"
      and E name previous current l p n st r
    assume IH: "\<And>E name previous current l p n st r.
        loop E name previous current l p n st = Some r \<Longrightarrow> dbus_keeps E I \<longrightarrow> I st \<longrightarrow> I r"
      and run: "(case p of Head \<Rightarrow> Some st
        | Node a \<Rightarrow> do { st1 \<leftarrow> watch_body E name previous current a st; n' \<leftarrow> next_watch l n st1;
             loop E name previous current l n n' st1 }) = Some r"
      and E: "dbus_keeps E I" and inv: "I st"
    show "I r"
    proof (cases p)
      case Head
      then show ?thesis using run inv by simp
    next
      case (Node a)
      then obtain st1 n' where b: "watch_body E name previous current a st = Some st1" and l: "loop E name previous current l n n' st1 = Some r"
        using run by (auto simp: bind_eq_Some_conv)
      have "post I (watch_body E name previous current a st)"
        unfolding watch_body_def by (rule post_bind [OF post_any]) (simp add: client_call_keeps E inv)
      then show ?thesis using IH [OF l] E b by (auto simp: post_def)
    qed
  qed
  then show ?thesis using assms by blast
qed

lemma dispatch_handle_keeps:
  assumes "dbus_keeps E I" and "I st"
  shows "post I (signal_dispatch_handle E t msg key st)"
  unfolding signal_dispatch_handle_def
  by (intro post_option post_bind [OF post_any] post_Some assms) (auto intro!: postI intro: signal_loop_keeps assms)

lemma dbus_step_keeps:
  assumes keeps: "dbus_keeps E I" and inv: "I st"
  shows "post I (dbus_step E input st)"
proof (cases input)
  case (In_filter f c msg)
  show ?thesis
  proof (cases f)
    case Watch_filter
    have "post I (watch_dispatch E c msg st)" unfolding watch_dispatch_def post_def
      by (auto simp: inv bind_eq_Some_conv watch_loop_keeps [OF _ keeps inv] split: list.splits option.splits if_splits)
    then show ?thesis by (simp add: In_filter Watch_filter)
  next
    case Signal_filter
    have "post I (signal_dispatch E c msg st)" unfolding signal_dispatch_def
      by (intro post_option post_bind [OF dispatch_handle_keeps [OF keeps inv]] post_Some inv dispatch_handle_keeps [OF keeps])
    then show ?thesis by (simp add: In_filter Signal_filter)
  qed
next
  case (In_method c a msg)
  have "post I (method_dispatch E c a msg st)" unfolding method_dispatch_def
    by (auto simp: post_Some inv client_call_keeps [OF keeps inv] intro!: post_if post_bind [OF post_any] split: option.split)
  then show ?thesis by (simp add: In_method)
next
  case (In_cmd cmd)
  then show ?thesis using dbus_keepsD(1) [OF keeps inv] by simp
qed

lemma db_inv_kept: "opens_others C E \<Longrightarrow> dbus_keeps E (db_inv C)"
  by (simp add: dbus_keeps_def run_cmd_inv session_bus_up_inv db_inv_quiet_note)

subsection \<open>Reachable states\<close>

lemma empty_tables_inv:
  assumes "\<And>t. sig_tab t st = []" "\<And>t. wat_tab t st = []" "d_siglists st = Map.empty" "d_signals st = Map.empty"
    "d_watchlists st = Map.empty" "d_objects st = Map.empty" "bus_conn DBUS_BUS_SYSTEM st = Some c"
    "bus_conn DBUS_BUS_SESSION st = None" "matches_at c (d_log st) = {#}"
    "notify_of DBUS_BUS_SESSION st = [Watch_bus_event, Method_bus_event, Signal_bus_event]"
  shows "db_inv {c} st"
  by (simp add: db_inv_def sig_ok_def wat_ok_def obj_ok_def mirrored_def rules_of_def assms)

lemma plugin_init_inv:
  assumes "dbus_plugin_init E = Some st"
  shows "\<exists>c. dv_get E [] DBUS_BUS_SYSTEM = Some c \<and> db_inv {c} st"
proof -
  let ?st0 = "dbus_start\<lparr>d_system := Some empty_bus\<rparr>"
  let ?init = "\<lambda>st1. snd (signal_init (snd (method_init (snd (watch_init st1)))))"
  obtain ok st1 where init: "dbus_bus_init E dbus_start = Some (ok, st1)"
    and add: "post (\<lambda>r. fst r \<longrightarrow> st = snd r) (signal_add DBUS_BUS_SYSTEM None (Some ''com.nokia.policy'') (Some ''NewSession'')
      (Some ''s'') None Session_bus_up 0 (?init st1))"
    and none: "signal_add DBUS_BUS_SYSTEM None (Some ''com.nokia.policy'') (Some ''NewSession'')
      (Some ''s'') None Session_bus_up 0 (?init st1) = Some (True, st)"
    using assms by (auto simp: dbus_plugin_init_def bind_eq_Some_conv post_def split: if_splits)
  show ?thesis
  proof (cases "dv_get E [] DBUS_BUS_SYSTEM")
    case None
    then have "d_system st1 = None" "d_session st1 = None"
      using init by (auto simp: dbus_bus_init_def bus_connect_def dbus_start_def Let_def d_note_def upd_bus_def)
    then have "bus_by_type DBUS_BUS_SYSTEM (?init st1) = None"
      by (simp add: watch_init_def method_init_def signal_init_def on_conn_def bus_conn_def Let_def)
    then show ?thesis using none by (simp add: signal_add_def)
  next
    case (Some c)
    then have st1: "st1 = dbus_start\<lparr>d_system := Some (empty_bus\<lparr>b_conn := Some c\<rparr>), d_session := Some empty_bus,
        d_log := [Connect None]\<rparr>"
      using init by (auto simp: dbus_bus_init_def bus_connect_def dbus_start_def empty_bus_def Let_def d_note_def upd_bus_def bus_event_def)
    have "sig_tab t (?init st1) = [] \<and> wat_tab t (?init st1) = []" for t
      by (cases t) (auto simp: st1 watch_init_def method_init_def signal_init_def on_conn_def bus_conn_def Let_def d_note_def
        bus_watch_add_def upd_bus_def dbus_start_def empty_bus_def sig_tab_def wat_tab_def split: option.split)
    then have "db_inv {c} (?init st1)"
      by (intro empty_tables_inv)
        (auto simp: st1 watch_init_def method_init_def signal_init_def on_conn_def bus_conn_def Let_def d_note_def bus_watch_add_def
          upd_bus_def dbus_start_def empty_bus_def matches_at_def notify_of_def split: option.split)
    from postD [OF signal_add_inv [OF this] none] Some show ?thesis by simp
  qed
qed

theorem dbus_reach_inv:
  assumes "dbus_reach E st"
  shows "db_inv {} st" and "dv_get E [] DBUS_BUS_SYSTEM = Some c \<Longrightarrow> opens_others {c} E \<Longrightarrow> db_inv {c} st"
proof -
  have "db_inv {} st \<and> (dv_get E [] DBUS_BUS_SYSTEM = Some c \<longrightarrow> opens_others {c} E \<longrightarrow> db_inv {c} st)"
    using assms
  proof induction
    case (dbus_reach_start st)
    from plugin_init_inv [OF this] obtain d where "dv_get E [] DBUS_BUS_SYSTEM = Some d" "db_inv {d} st" by blast
    then show ?case by (auto simp: db_inv_def)
  next
    case (dbus_reach_step st input st')
    have "opens_others {} E" by (simp add: opens_others_def)
    with dbus_reach_step postD [OF dbus_step_keeps [OF db_inv_kept]] show ?case by blast
  qed
  then show "db_inv {} st" and "dv_get E [] DBUS_BUS_SYSTEM = Some c \<Longrightarrow> opens_others {c} E \<Longrightarrow> db_inv {c} st" by simp_all
qed

end
