(* ===== verification/Dbus_Objects.thy ===== *)
theory Dbus_Objects
  imports Dbus_Inv
begin

text \<open>
  The second invariant of the dbus plugin: the table of objects of a bus holds live objects of that
  bus under their paths.  With it the announcement of a bus can register every object again.
\<close>

definition obj_tab :: "bus_type \<Rightarrow> dbus_state \<Rightarrow> (string \<times> addr) list" where
  "obj_tab t st = (case bus_by_type t st of None \<Rightarrow> [] | Some b \<Rightarrow> b_objects b)"

lemma object_lookup_tab: "object_lookup t key st = map_of (obj_tab t st) key"
  by (simp add: object_lookup_def obj_tab_def split: option.split)

lemma obj_tab_fields [simp]:
  "obj_tab t (st\<lparr>d_watchlists := a\<rparr>) = obj_tab t st" "obj_tab t (st\<lparr>d_watches := b\<rparr>) = obj_tab t st"
  "obj_tab t (st\<lparr>d_siglists := c\<rparr>) = obj_tab t st" "obj_tab t (st\<lparr>d_signals := e\<rparr>) = obj_tab t st"
  "obj_tab t (st\<lparr>d_objects := g\<rparr>) = obj_tab t st" "obj_tab t (st\<lparr>d_next := n\<rparr>) = obj_tab t st"
  "obj_tab t (st\<lparr>d_refs := r\<rparr>) = obj_tab t st" "obj_tab t (d_note x st) = obj_tab t st"
  "obj_tab t (on_conn t' f st) = obj_tab t st"
  "obj_tab t (upd_bus t' (b_watches_update w) st) = obj_tab t st" "obj_tab t (upd_bus t' (b_signals_update s) st) = obj_tab t st"
  "obj_tab t (upd_bus t' (b_conn_update h) st) = obj_tab t st"
  by (simp_all add: obj_tab_def split: option.split)

lemma obj_tab_upd:
  "bus_by_type t st \<noteq> None \<Longrightarrow> obj_tab t' (upd_bus t (b_objects_update f) st) = (if t' = t then f (obj_tab t st) else obj_tab t' st)"
  by (auto simp: obj_tab_def split: option.split)

lemma obj_tab_delete:
  "obj_tab t' (upd_bus t (b_objects_update (AList.delete k)) st) = (if t' = t then AList.delete k (obj_tab t st) else obj_tab t' st)"
  by (simp add: obj_tab_def split: option.split)

definition obj_live :: "dbus_state \<Rightarrow> bool" where
  "obj_live st \<longleftrightarrow>
     (\<forall>a ob. d_objects st a = Some ob \<longrightarrow> a < d_next st) \<and>
     (\<forall>t. distinct (map fst (obj_tab t st))) \<and>
     (\<forall>t k a. (k, a) \<in> set (obj_tab t st) \<longrightarrow> (\<exists>ob. d_objects st a = Some ob \<and> ob_path ob = k \<and> ob_bus ob = t))"

lemma obj_liveD:
  assumes "obj_live st"
  shows "d_objects st a = Some ob \<Longrightarrow> a < d_next st" "distinct (map fst (obj_tab t st))"
    "(k, a) \<in> set (obj_tab t st) \<Longrightarrow> \<exists>ob. d_objects st a = Some ob \<and> ob_path ob = k \<and> ob_bus ob = t"
  using assms unfolding obj_live_def by blast+

subsection \<open>The operations that do not touch the objects\<close>

definition obj_same :: "dbus_state \<Rightarrow> dbus_state \<Rightarrow> bool" where
  "obj_same st st' \<longleftrightarrow> d_objects st' = d_objects st \<and> (\<forall>t. obj_tab t st' = obj_tab t st) \<and> d_next st \<le> d_next st'"

lemma obj_same_live: "obj_live st \<Longrightarrow> obj_same st st' \<Longrightarrow> obj_live st'"
  unfolding obj_live_def obj_same_def using order_less_le_trans by metis

lemma obj_same_refl [simp]: "obj_same st st"
  by (simp add: obj_same_def)

lemma obj_same_trans: "obj_same st st' \<Longrightarrow> obj_same st' st'' \<Longrightarrow> obj_same st st''"
  by (auto simp: obj_same_def)

lemma signal_add_same: "post (\<lambda>r. obj_same st (snd r)) (signal_add t path interface member signature sender handler data st)"
  by (auto simp: signal_add_def siglist_add_def siglist_add_match_def Let_def obj_same_def post_def bind_eq_Some_conv
    split: if_splits option.splits)

lemma siglist_del_same: "post (obj_same st) (siglist_del t l st)"
  by (auto simp: siglist_del_def siglist_purge_def siglist_del_match_def obj_same_def post_def bind_eq_Some_conv)

lemma signal_del_same: "post (\<lambda>r. obj_same st (snd r)) (signal_del t path interface member signature sender handler data st)"
proof -
  have del: "post (\<lambda>st'. obj_same st st') (siglist_del t l (st\<lparr>d_siglists := x, d_signals := y\<rparr>))" for l x y
    by (rule post_mono [OF siglist_del_same]) (simp add: obj_same_def)
  show ?thesis unfolding signal_del_def Let_def
    by (intro post_option post_bind [OF post_any] post_if post_map_option post_Some) (simp_all add: del, simp_all add: obj_same_def)
qed

lemma watch_add_same: "post (\<lambda>r. obj_same st (snd r)) (watch_add E t name handler data st)"
  by (auto simp: watch_add_def watchlist_add_def watchlist_add_match_def Let_def obj_same_def post_def bind_eq_Some_conv
    split: if_splits option.splits)

lemma watchlist_del_same: "post (obj_same st) (watchlist_del t l st)"
  by (auto simp: watchlist_del_def watchlist_purge_def watchlist_del_match_def obj_same_def post_def bind_eq_Some_conv)

lemma watch_del_same: "post (\<lambda>r. obj_same st (snd r)) (watch_del t name handler data st)"
proof -
  have del: "post (\<lambda>st'. obj_same st st') (watchlist_del t l (st\<lparr>d_watchlists := x, d_watches := y\<rparr>))" for l x y
    by (rule post_mono [OF watchlist_del_same]) (simp add: obj_same_def)
  show ?thesis unfolding watch_del_def Let_def
    by (intro post_option post_bind [OF post_any] post_if post_map_option post_Some) (simp_all add: del, simp_all add: obj_same_def)
qed

subsection \<open>The operations on objects\<close>

lemma obj_update_live:
  assumes "obj_live st" and "d_objects st a = Some ob" and "ob_path ob' = ob_path ob" and "ob_bus ob' = ob_bus ob"
  shows "obj_live (st\<lparr>d_objects := (d_objects st)(a \<mapsto> ob')\<rparr>)"
proof -
  note D = obj_liveD [OF assms(1)]
  have "\<exists>o'. ((d_objects st)(a \<mapsto> ob')) x = Some o' \<and> ob_path o' = k \<and> ob_bus o' = t" if "(k, x) \<in> set (obj_tab t st)" for k x t
    using D(3) [OF that] assms(2-4) by auto
  then show ?thesis unfolding obj_live_def using D(1,2) assms(2) by (simp split: if_split) blast
qed

lemma object_register_same: "post (\<lambda>r. obj_same st (snd r)) (object_register E a st)"
  by (auto simp: object_register_def post_def bind_eq_Some_conv obj_same_def split: option.splits)

lemma object_unregister_same: "post (obj_same st) (object_unregister a st)"
  by (auto simp: object_unregister_def post_def bind_eq_Some_conv obj_same_def)

lemma object_purge_live:
  assumes "obj_live st" and "\<And>t k. (k, a) \<notin> set (obj_tab t st)"
  shows "post obj_live (object_purge a st)"
proof (rule postI)
  fix st' assume "object_purge a st = Some st'"
  then obtain st1 where "object_unregister a st = Some st1" and st': "st' = st1\<lparr>d_objects := (d_objects st1)(a := None)\<rparr>"
    by (auto simp: object_purge_def bind_eq_Some_conv split: if_splits)
  then have same: "obj_same st st1" using object_unregister_same by (auto simp: post_def)
  then have live: "obj_live st1" using assms(1) obj_same_live by blast
  have "(k, a) \<notin> set (obj_tab t st1)" for t k using assms(2) same by (simp add: obj_same_def)
  then have "(k, x) \<in> set (obj_tab t st1) \<Longrightarrow> x \<noteq> a" for k x t by blast
  then show "obj_live st'" unfolding st' obj_live_def using obj_liveD [OF live] by (simp, blast)
qed

lemma object_drop_live:
  assumes "obj_live st" and "(path, a) \<in> set (obj_tab t st)"
  defines "st' \<equiv> upd_bus t (b_objects_update (AList.delete path)) st"
  shows "obj_live st'" and "(k, a) \<notin> set (obj_tab t' st')"
proof -
  note D = obj_liveD [OF assms(1)]
  have tab: "obj_tab t' st' = (if t' = t then AList.delete path (obj_tab t st) else obj_tab t' st)" for t'
    unfolding st'_def by (rule obj_tab_delete)
  have "distinct (map fst (obj_tab t' st'))" for t' using D(2) by (simp add: tab distinct_delete)
  moreover have "(k, x) \<in> set (obj_tab t' st') \<Longrightarrow> (k, x) \<in> set (obj_tab t' st)" for k x t'
    by (auto simp: tab in_delete split: if_splits)
  ultimately show "obj_live st'" unfolding obj_live_def using D by (simp add: st'_def)
  show "(k, a) \<notin> set (obj_tab t' st')"
  proof
    assume k: "(k, a) \<in> set (obj_tab t' st')"
    then have "(k, a) \<in> set (obj_tab t' st)" by (auto simp: tab in_delete split: if_splits)
    from D(3) [OF this] D(3) [OF assms(2)] have "k = path \<and> t' = t" by auto
    with k show False by (simp add: tab in_delete)
  qed
qed

lemma object_del_live:
  assumes live: "obj_live st" and mem: "(path, a) \<in> set (obj_tab t st)"
  shows "post obj_live (object_del a st)"
proof -
  obtain ob where ob: "d_objects st a = Some ob" "ob_path ob = path" "ob_bus ob = t" using obj_liveD(3) [OF assms] by blast
  then show ?thesis using object_purge_live [OF object_drop_live [OF assms]] by (simp add: object_del_def)
qed

lemma object_add_live:
  assumes live: "obj_live st" and bus: "bus_by_type t st \<noteq> None" and new: "map_of (obj_tab t st) path = None"
  shows "post (\<lambda>r. obj_live (snd r)) (object_add E t path st)"
proof (rule postI)
  note D = obj_liveD [OF live]
  let ?a = "d_next st"
  let ?ob = "\<lparr>ob_path = path, ob_bus = t, ob_methods = []\<rparr>"
  let ?st1 = "st\<lparr>d_next := Suc ?a, d_objects := (d_objects st)(?a \<mapsto> ?ob)\<rparr>"
  let ?st2 = "upd_bus t (b_objects_update (\<lambda>ts. ts @ [(path, ?a)])) ?st1"
  fix r assume "object_add E t path st = Some r"
  then obtain ok st3 where reg: "object_register E ?a ?st2 = Some (ok, st3)"
    and r: "(if ok then Some (Some ?a, st3)
      else map_option (Pair None) (object_purge ?a (upd_bus t (b_objects_update (AList.delete path)) st3))) = Some r"
    by (auto simp: object_add_def Let_def bind_eq_Some_conv)
  have tab: "obj_tab t' ?st2 = (if t' = t then obj_tab t st @ [(path, ?a)] else obj_tab t' st)" for t'
    using bus by (subst obj_tab_upd) simp_all
  have "path \<notin> fst ` set (obj_tab t st)" using new by (simp add: map_of_eq_None_iff)
  then have "distinct (map fst (obj_tab t' ?st2))" for t' using D(2) by (simp add: tab)
  moreover have "\<exists>ob. d_objects ?st2 x = Some ob \<and> ob_path ob = k \<and> ob_bus ob = t'" if "(k, x) \<in> set (obj_tab t' ?st2)" for k x t'
  proof (cases "x = ?a")
    case True
    then have "(k, x) \<notin> set (obj_tab t' st)" using D(1) D(3) [of k x t'] by fastforce
    then have "k = path \<and> t' = t" using that by (simp add: tab split: if_splits)
    then show ?thesis using True by simp
  next
    case False
    then have "(k, x) \<in> set (obj_tab t' st)" using that by (auto simp: tab split: if_splits)
    then show ?thesis using D(3) False by simp
  qed
  moreover have "\<forall>x ob. d_objects ?st2 x = Some ob \<longrightarrow> x < d_next ?st2" using D(1) by (auto simp: less_Suc_eq)
  ultimately have live2: "obj_live ?st2" unfolding obj_live_def by blast
  have same: "obj_same ?st2 st3" using postD [OF object_register_same reg] by simp
  then have live3: "obj_live st3" and mem: "(path, ?a) \<in> set (obj_tab t st3)"
    using obj_same_live [OF live2] by (auto simp: obj_same_def tab)
  show "obj_live (snd r)"
  proof (cases ok)
    case True
    then show ?thesis using r live3 by auto
  next
    case False
    then show ?thesis using r postD [OF object_purge_live [OF object_drop_live [OF live3 mem]]] by auto
  qed
qed

lemma method_add_live:
  assumes live: "obj_live st"
  shows "post (\<lambda>r. obj_live (snd r)) (method_add E t path interface member signature handler data st)"
proof (rule postI)
  let ?key = "method_key interface member signature"
  fix r assume run: "method_add E t path interface member signature handler data st = Some r"
  show "obj_live (snd r)"
  proof (cases "bus_by_type t st = None")
    case True
    then show ?thesis using run live by (auto simp: method_add_def)
  next
    case bus: False
    then obtain obj st1 m where add: "(case object_lookup t path st of None \<Rightarrow> object_add E t path st
          | Some a \<Rightarrow> do { ob \<leftarrow> d_objects st a;
               if map_of (ob_methods ob) ?key \<noteq> None then Some (None, st) else Some (Some a, st) }) = Some (obj, st1)"
      and r: "(case obj of None \<Rightarrow> Some (False, st1)
          | Some a \<Rightarrow> do { ob \<leftarrow> d_objects st1 a;
               Some (True, st1\<lparr>d_objects := (d_objects st1)(a \<mapsto> ob\<lparr>ob_methods := ob_methods ob @ [(?key, m)]\<rparr>)\<rparr>) }) = Some r"
      using run by (auto simp: method_add_def Let_def bind_eq_Some_conv)
    have live1: "obj_live st1"
    proof (cases "map_of (obj_tab t st) path")
      case None
      then show ?thesis using add postD [OF object_add_live [OF live bus None], of E "(obj, st1)"] by (simp add: object_lookup_tab)
    next
      case (Some a)
      then show ?thesis using add live by (auto simp: object_lookup_tab bind_eq_Some_conv split: if_splits)
    qed
    then show ?thesis using r by (cases obj) (auto simp: bind_eq_Some_conv obj_update_live)
  qed
qed

lemma method_del_live:
  assumes live: "obj_live st"
  shows "post (\<lambda>r. obj_live (snd r)) (method_del t path interface member signature handler data st)"
proof (rule postI)
  fix r assume run: "method_del t path interface member signature handler data st = Some r"
  show "obj_live (snd r)"
  proof (cases "snd r = st")
    case changed: False
    obtain a where a: "map_of (obj_tab t st) path = Some a"
      using run changed by (cases "map_of (obj_tab t st) path") (auto simp: method_del_def object_lookup_tab)
    obtain ob where ob: "d_objects st a = Some ob" using run a by (cases "d_objects st a") (auto simp: method_del_def object_lookup_tab)
    let ?key = "method_key interface member signature"
    let ?rest = "AList.delete ?key (ob_methods ob)"
    let ?st1 = "st\<lparr>d_objects := (d_objects st)(a \<mapsto> ob\<lparr>ob_methods := ?rest\<rparr>)\<rparr>"
    obtain m where m: "map_of (ob_methods ob) ?key = Some m"
      using run a ob changed by (cases "map_of (ob_methods ob) ?key") (auto simp: method_del_def object_lookup_tab)
    have r: "(if ?rest = [] then do { st2 \<leftarrow> object_unregister a ?st1; map_option (Pair True) (object_del a st2) }
        else Some (True, ?st1)) = Some r"
      using run a ob m changed by (auto simp: method_del_def object_lookup_tab Let_def split: if_splits)
    have live1: "obj_live ?st1" by (rule obj_update_live [OF live ob]) simp_all
    show ?thesis
    proof (cases "?rest = []")
      case True
      then have "do { st2 \<leftarrow> object_unregister a ?st1; map_option (Pair True) (object_del a st2) } = Some r" using r by (metis (no_types))
      then obtain st2 st3 where runs: "object_unregister a ?st1 = Some st2" "object_del a st2 = Some st3" "snd r = st3"
        by (auto simp: bind_eq_Some_conv simp del: fun_upd_apply)
      have same: "obj_same ?st1 st2" by (rule postD [OF object_unregister_same runs(1)])
      have "(path, a) \<in> set (obj_tab t st2)" using same map_of_SomeD [OF a] by (simp add: obj_same_def)
      from postD [OF object_del_live [OF obj_same_live [OF live1 same] this] runs(2)] show ?thesis by (simp add: runs(3))
    next
      case False
      then show ?thesis using r live1 by auto
    qed
  qed (use live in simp)
qed

subsection \<open>Every run\<close>

lemma on_conn_same [simp]: "obj_same st (on_conn t f st)"
  by (simp add: obj_same_def)

lemma note_same [simp]: "obj_same st (d_note x st)"
  by (simp add: obj_same_def)

lemma foldM_same:
  assumes "\<And>x s. post (obj_same s) (f x s)"
  shows "post (obj_same st) (foldM f xs st)"
proof (rule foldM_post)
  fix x s assume "obj_same st s"
  then show "post (obj_same st) (f x s)" using assms obj_same_trans by (auto simp: post_def)
qed simp

lemma callback_same: "post (obj_same st) (run_bus_callback E t cb st)"
proof -
  have start: "post (obj_same st) (foldM f xs (on_conn t g st))" if "\<And>x s. post (obj_same s) (f x s)" for f xs g
    by (rule post_mono [OF foldM_same [OF that]]) (rule obj_same_trans [OF on_conn_same])
  have watch: "post (obj_same s) (do { wl \<leftarrow> d_watchlists s l; watchlist_add_match E t (wl_name wl) s })" for l s
    by (auto simp: watchlist_add_match_def post_def bind_eq_Some_conv split: option.splits if_splits)
  have signal: "post (obj_same s) (do { sl \<leftarrow> d_siglists s l; Some (siglist_add_match t (sl_rule sl) s) })" for l s
    by (auto simp: siglist_add_match_def post_def bind_eq_Some_conv)
  have object: "post (obj_same s) (map_option snd (object_register E a s))" for a s
    by (rule post_map_option) (rule object_register_same)
  show ?thesis
    by (cases cb) (auto simp: watch_bus_event_def method_bus_event_def signal_bus_event_def
      intro!: post_bind [OF post_any] start foldM_same watch signal object)
qed

lemma bus_event_same: "post (obj_same st) (bus_event E t st)"
  unfolding bus_event_def by (rule post_bind [OF post_any]) (rule foldM_same [OF callback_same])

lemma bus_connect_same: "post (\<lambda>r. obj_same st (snd r)) (bus_connect E t address st)"
proof -
  have event: "post (obj_same st) (bus_event E t s)" if "obj_same st s" for s
    by (rule post_mono [OF bus_event_same]) (rule obj_same_trans [OF that])
  have up: "obj_same st (upd_bus t (b_conn_update h) (d_note x st))" "obj_same st (d_note y (upd_bus t (b_conn_update h) (d_note x st)))"
    for h x y by (simp_all add: obj_same_def)
  show ?thesis unfolding bus_connect_def Let_def
    by (intro post_option post_if post_None post_Some post_map_option) (simp_all add: event up)
qed

lemma session_bus_up_same: "post (obj_same st) (session_bus_up E msg st)"
  unfolding session_bus_up_def
  by (auto simp: post_Some intro!: post_map_option bus_connect_same split: list.split)

lemma same_live_post: "obj_live st \<Longrightarrow> post (\<lambda>r. obj_same st (snd r)) m \<Longrightarrow> post (\<lambda>r. obj_live (snd r)) m"
  by (auto simp: post_def intro: obj_same_live)

lemma export_live: "post (\<lambda>r. obj_live (snd r)) m \<Longrightarrow> post obj_live (export n m)"
  by (auto simp: export_def post_def obj_live_def)

lemma obj_live_kept: "dbus_keeps E obj_live"
  unfolding dbus_keeps_def
proof (intro conjI allI impI)
  fix st assume live: "obj_live st"
  show "post obj_live (run_cmd E cmd st)" for cmd
    by (cases cmd) (auto intro!: export_live intro: method_add_live [OF live] method_del_live [OF live]
      same_live_post [OF live signal_add_same] same_live_post [OF live signal_del_same]
      same_live_post [OF live watch_add_same] same_live_post [OF live watch_del_same])
  show "post obj_live (session_bus_up E msg st)" for msg
    by (rule post_mono [OF session_bus_up_same]) (rule obj_same_live [OF live])
  show "obj_live (d_note x st)" for x by (rule obj_same_live [OF live note_same])
qed

definition no_objects :: "dbus_state \<Rightarrow> bool" where
  "no_objects st \<longleftrightarrow> d_objects st = Map.empty \<and> (\<forall>t. obj_tab t st = [])"

lemma no_objects_live: "no_objects st \<Longrightarrow> obj_live st"
  by (simp add: no_objects_def obj_live_def)

lemma no_objects_same: "no_objects st \<Longrightarrow> obj_same st st' \<Longrightarrow> no_objects st'"
  by (simp add: no_objects_def obj_same_def)

lemma no_objects_bus [simp]:
  "no_objects st \<Longrightarrow> no_objects (st\<lparr>d_session := Some empty_bus\<rparr>)" "no_objects st \<Longrightarrow> no_objects (st\<lparr>d_system := None\<rparr>)"
  "no_objects st \<Longrightarrow> no_objects (bus_watch_add t cb st)" "no_objects st \<Longrightarrow> no_objects (on_conn t f st)"
proof -
  assume n: "no_objects st"
  have tab: "obj_tab t st = []" for t using n by (simp add: no_objects_def)
  have "obj_tab t (st\<lparr>d_session := Some empty_bus\<rparr>) = []" for t
    using tab [of t] by (cases t) (simp_all add: obj_tab_def empty_bus_def)
  moreover have "obj_tab t (st\<lparr>d_system := None\<rparr>) = []" for t
    using tab [of t] by (cases t) (simp_all add: obj_tab_def)
  ultimately show "no_objects (st\<lparr>d_session := Some empty_bus\<rparr>)" "no_objects (st\<lparr>d_system := None\<rparr>)" using n by (simp_all add: no_objects_def)
  show "no_objects (bus_watch_add t cb st)" "no_objects (on_conn t f st)"
    using n by (simp_all add: no_objects_def bus_watch_add_def obj_tab_def split: option.splits)
qed

lemma plugin_init_live:
  assumes "dbus_plugin_init E = Some st"
  shows "obj_live st"
proof -
  let ?st0 = "dbus_start\<lparr>d_system := Some empty_bus\<rparr>"
  have "obj_tab t ?st0 = []" for t by (cases t) (simp_all add: obj_tab_def dbus_start_def empty_bus_def)
  then have none: "no_objects ?st0" by (simp add: no_objects_def dbus_start_def)
  obtain ok st1 r where init: "dbus_bus_init E dbus_start = Some (ok, st1)"
    and add: "signal_add DBUS_BUS_SYSTEM None (Some ''com.nokia.policy'') (Some ''NewSession'')
      (Some ''s'') None Session_bus_up 0 (snd (signal_init (snd (method_init (snd (watch_init st1)))))) = Some r" and st: "snd r = st"
    using assms by (auto simp: dbus_plugin_init_def bind_eq_Some_conv split: if_splits)
  obtain c st2 where con: "bus_connect E DBUS_BUS_SYSTEM None ?st0 = Some (c, st2)"
    and st1: "st1 = (if c then st2\<lparr>d_session := Some empty_bus\<rparr> else st2\<lparr>d_system := None\<rparr>)"
    using init by (auto simp: dbus_bus_init_def bind_eq_Some_conv split: if_splits)
  have "no_objects st2" using no_objects_same [OF none postD [OF bus_connect_same con]] by simp
  then have "no_objects (snd (signal_init (snd (method_init (snd (watch_init st1))))))"
    by (simp add: st1 signal_init_def method_init_def watch_init_def Let_def)
  then show ?thesis using obj_same_live [OF no_objects_live postD [OF signal_add_same add]] by (simp add: st)
qed

lemma dbus_reach_live: "dbus_reach E st \<Longrightarrow> obj_live st"
proof (induction rule: dbus_reach.induct)
  case (dbus_reach_step st input st')
  then show ?case using postD [OF dbus_step_keeps [OF obj_live_kept]] by blast
qed (rule plugin_init_live)

end
