(* ===== verification/Dbus_Properties.thy ===== *)
theory Dbus_Properties
  imports Dbus_Objects
begin

text \<open>
  The properties of the dbus plugin: what it subscribes for, whom it calls for a signal, and the
  operations that fail.
\<close>

subsection \<open>What the announcement of the session bus does\<close>

lemma foldM_notes:
  assumes "\<And>x log. x \<in> set xs \<Longrightarrow> f x (st\<lparr>d_log := log\<rparr>) = Some (st\<lparr>d_log := log @ [g x]\<rparr>)"
  shows "foldM f xs (st\<lparr>d_log := log\<rparr>) = Some (st\<lparr>d_log := log @ map g xs\<rparr>)"
  using assms by (induction xs arbitrary: log) simp_all

lemma matches_at_adds: "fold (match_effect c) (map (\<lambda>x. Add_match c (g x)) xs) M = M + mset (map g xs)"
  by (induction xs arbitrary: M) simp_all

lemma matches_at_paths: "fold (match_effect c) (map (\<lambda>x. Register_path c (f x) (g x)) xs) M = M"
  by (induction xs arbitrary: M) simp_all

text \<open>What a bus that is connected as \<open>c\<close> is told.\<close>

definition connect_log :: "dbus_env \<Rightarrow> nat \<Rightarrow> bus_type \<Rightarrow> dbus_state \<Rightarrow> dbus_out list" where
  "connect_log E c t st =
     Add_filter c Watch_filter # map (\<lambda>e. Add_match c (watch_rule (fst e))) (dv_order E (wat_tab t st)) @
     map (\<lambda>e. Register_path c (fst e) (snd e)) (dv_order E (obj_tab t st)) @
     Add_filter c Signal_filter # map (\<lambda>e. Add_match c (rule_of st (snd e))) (dv_order E (sig_tab t st))"

lemma note_log: "d_note x st = st\<lparr>d_log := d_log st @ [x]\<rparr>"
  by (simp add: d_note_def)

lemma on_conn_log: "bus_conn t st = Some c \<Longrightarrow> on_conn t f st = st\<lparr>d_log := d_log st @ [f c]\<rparr>"
  by (simp add: on_conn_def d_note_def)

lemma conn_log [simp]: "bus_conn t (st\<lparr>d_log := log\<rparr>) = bus_conn t st"
  by (simp add: bus_conn_def)

lemma table_order:
  assumes "\<forall>tab. mset (dv_order E tab) = mset tab"
  shows "set (dv_order E tab) = set tab"
  by (rule mset_eq_setD) (simp add: assms)

lemma watch_event_log:
  assumes conn: "bus_conn t st = Some c" and ok: "wat_ok st" and junk: "\<forall>log. \<not> dv_junk E log"
    and order: "\<forall>tab. mset (dv_order E tab) = mset tab"
  shows "watch_bus_event E t (st\<lparr>d_log := log\<rparr>) =
    Some (st\<lparr>d_log := log @ Add_filter c Watch_filter # map (\<lambda>e. Add_match c (watch_rule (fst e))) (dv_order E (wat_tab t st))\<rparr>)"
proof -
  obtain b where b: "bus_by_type t st = Some b" using conn by (cases "bus_by_type t st") (auto simp: bus_conn_def)
  let ?f = "\<lambda>l s. do { wl \<leftarrow> d_watchlists s l; watchlist_add_match E t (wl_name wl) s }"
  let ?g = "\<lambda>l. Add_match c (watch_rule (case d_watchlists st l of None \<Rightarrow> [] | Some wl \<Rightarrow> wl_name wl))"
  have list: "\<exists>wl. d_watchlists st l = Some wl \<and> wl_name wl = k" if "(k, l) \<in> set (dv_order E (b_watches b))" for k l
    using that b wat_okD(3) [OF ok, of k l t] unfolding table_order [OF order] by (auto simp: wat_tab_def)
  have "?f l (st\<lparr>d_log := log\<rparr>) = Some (st\<lparr>d_log := log @ [?g l]\<rparr>)" if l: "l \<in> set (map snd (dv_order E (b_watches b)))" for l log
  proof -
    obtain k where "(k, l) \<in> set (dv_order E (b_watches b))" using l by auto
    then obtain wl where "d_watchlists st l = Some wl" using list by blast
    then show ?thesis using junk conn by (simp add: watchlist_add_match_def note_log)
  qed
  then have "foldM ?f (map snd (dv_order E (b_watches b))) (st\<lparr>d_log := log @ [Add_filter c Watch_filter]\<rparr>) =
      Some (st\<lparr>d_log := (log @ [Add_filter c Watch_filter]) @ map ?g (map snd (dv_order E (b_watches b)))\<rparr>)" by (rule foldM_notes)
  moreover have "map ?g (map snd (dv_order E (b_watches b))) = map (\<lambda>e. Add_match c (watch_rule (fst e))) (dv_order E (wat_tab t st))"
    using list b by (force simp: wat_tab_def)
  ultimately show ?thesis using b conn by (simp add: watch_bus_event_def table_addrs_def on_conn_log)
qed

lemma signal_event_log:
  assumes conn: "bus_conn t st = Some c" and ok: "sig_ok st" and order: "\<forall>tab. mset (dv_order E tab) = mset tab"
  shows "signal_bus_event E t (st\<lparr>d_log := log\<rparr>) =
    Some (st\<lparr>d_log := log @ Add_filter c Signal_filter # map (\<lambda>e. Add_match c (rule_of st (snd e))) (dv_order E (sig_tab t st))\<rparr>)"
proof -
  obtain b where b: "bus_by_type t st = Some b" using conn by (cases "bus_by_type t st") (auto simp: bus_conn_def)
  let ?f = "\<lambda>l s. do { sl \<leftarrow> d_siglists s l; Some (siglist_add_match t (sl_rule sl) s) }"
  have list: "\<exists>sl. d_siglists st l = Some sl" if "(k, l) \<in> set (dv_order E (b_signals b))" for k l
    using that b sig_okD(7) [OF ok, of k l t] unfolding table_order [OF order] by (auto simp: sig_tab_def)
  have "?f l (st\<lparr>d_log := log\<rparr>) = Some (st\<lparr>d_log := log @ [Add_match c (rule_of st l)]\<rparr>)"
    if "l \<in> set (map snd (dv_order E (b_signals b)))" for l log
    using that list conn by (fastforce simp: siglist_add_match_def on_conn_log rule_of_def)
  then have "foldM ?f (map snd (dv_order E (b_signals b))) (st\<lparr>d_log := log @ [Add_filter c Signal_filter]\<rparr>) =
      Some (st\<lparr>d_log := (log @ [Add_filter c Signal_filter]) @ map (\<lambda>l. Add_match c (rule_of st l)) (map snd (dv_order E (b_signals b)))\<rparr>)"
    by (rule foldM_notes)
  then show ?thesis using b conn by (simp add: signal_bus_event_def table_addrs_def on_conn_log sig_tab_def comp_def)
qed

lemma method_event_log:
  assumes conn: "bus_conn t st = Some c" and live: "obj_live st" and order: "\<forall>tab. mset (dv_order E tab) = mset tab"
  shows "method_bus_event E t (st\<lparr>d_log := log\<rparr>) =
    Some (st\<lparr>d_log := log @ map (\<lambda>e. Register_path c (fst e) (snd e)) (dv_order E (obj_tab t st))\<rparr>)"
proof -
  obtain b where b: "bus_by_type t st = Some b" using conn by (cases "bus_by_type t st") (auto simp: bus_conn_def)
  let ?f = "\<lambda>a s. map_option snd (object_register E a s)"
  let ?g = "\<lambda>a. Register_path c (case d_objects st a of None \<Rightarrow> [] | Some ob \<Rightarrow> ob_path ob) a"
  have list: "\<exists>ob. d_objects st a = Some ob \<and> ob_path ob = k \<and> ob_bus ob = t" if "(k, a) \<in> set (dv_order E (b_objects b))" for k a
    using that b obj_liveD(3) [OF live, of k a t] unfolding table_order [OF order] by (auto simp: obj_tab_def)
  have "?f a (st\<lparr>d_log := log\<rparr>) = Some (st\<lparr>d_log := log @ [?g a]\<rparr>)" if "a \<in> set (map snd (dv_order E (b_objects b)))" for a log
    using that list conn by (fastforce simp: object_register_def note_log)
  then have "foldM ?f (map snd (dv_order E (b_objects b))) (st\<lparr>d_log := log\<rparr>) =
      Some (st\<lparr>d_log := log @ map ?g (map snd (dv_order E (b_objects b)))\<rparr>)" by (rule foldM_notes)
  moreover have "map ?g (map snd (dv_order E (b_objects b))) = map (\<lambda>e. Register_path c (fst e) (snd e)) (dv_order E (obj_tab t st))"
    using list b by (force simp: obj_tab_def)
  ultimately show ?thesis using b by (simp add: method_bus_event_def table_addrs_def)
qed

lemma upd_bus_log: "upd_bus t f (st\<lparr>d_log := log\<rparr>) = (upd_bus t f st)\<lparr>d_log := log\<rparr>"
  by (cases t) (simp_all add: upd_bus_def split: option.split)

lemma session_event_log:
  assumes inv: "db_inv {} st" and live: "obj_live st" and conn: "bus_conn DBUS_BUS_SESSION st = Some c"
    and junk: "\<forall>log. \<not> dv_junk E log" and order: "\<forall>tab. mset (dv_order E tab) = mset tab"
  shows "bus_event E DBUS_BUS_SESSION (st\<lparr>d_log := log\<rparr>) = Some (st\<lparr>d_log := log @ connect_log E c DBUS_BUS_SESSION st\<rparr>)"
proof -
  have ok: "sig_ok st" "wat_ok st" and "notify_of DBUS_BUS_SESSION st = [Watch_bus_event, Method_bus_event, Signal_bus_event]"
    using inv by (simp_all add: db_inv_def)
  then obtain b where "d_session st = Some b" "b_notify b = [Watch_bus_event, Method_bus_event, Signal_bus_event]"
    by (auto simp: notify_of_def split: option.splits)
  then show ?thesis
    by (simp add: bus_event_def watch_event_log [OF conn ok(2) junk order] method_event_log [OF conn live order]
      signal_event_log [OF conn ok(1) order] connect_log_def)
qed

lemma matches_at_append: "matches_at c (xs @ ys) = fold (match_effect c) ys (matches_at c xs)"
  by (simp add: matches_at_def)

lemma connect_log_matches:
  assumes "\<forall>tab. mset (dv_order E tab) = mset tab"
  shows "fold (match_effect c) (connect_log E c t st) M = M + rules_of t st"
  by (simp add: connect_log_def matches_at_adds matches_at_paths rules_of_def assms)

lemma session_conn_log:
  fixes c :: nat
  assumes "db_inv {} st" and "obj_live st"
  defines "up \<equiv> upd_bus DBUS_BUS_SESSION (b_conn_update (\<lambda>_. Some c)) st"
  shows "db_inv {} up" "obj_live up" "bus_conn DBUS_BUS_SESSION up = Some c" "connect_log E c t up = connect_log E c t st"
    "rules_of t up = rules_of t st"
proof -
  show "db_inv {} up" unfolding up_def by (rule session_conn_inv [OF assms(1)]) simp
  show "obj_live up" by (rule obj_same_live [OF assms(2)]) (simp add: up_def obj_same_def)
  have "notify_of DBUS_BUS_SESSION st \<noteq> []" using assms(1) by (simp add: db_inv_def)
  then show "bus_conn DBUS_BUS_SESSION up = Some c" by (auto simp: up_def bus_conn_def notify_of_def split: option.splits)
  show "connect_log E c t up = connect_log E c t st" "rules_of t up = rules_of t st"
    by (simp_all add: up_def connect_log_def rules_of_def rule_of_def)
qed

subsection \<open>Subscriptions\<close>

text \<open>C10. On every run, the match rules set at the connection of the system bus are exactly the
  rules of its lists of signal handlers and of its watched names, each as often as there are lists: none is
  missing, none is left behind, and no key has two lists.\<close>

theorem system_matches_exact:
  assumes "dbus_reach E st" and "dv_get E [] DBUS_BUS_SYSTEM = Some c" and "\<forall>log address. dv_open E log address \<noteq> Some c"
  shows "bus_conn DBUS_BUS_SYSTEM st = Some c \<and> matches_at c (d_log st) = rules_of DBUS_BUS_SYSTEM st \<and>
    distinct (map fst (sig_tab DBUS_BUS_SYSTEM st)) \<and> distinct (map fst (wat_tab DBUS_BUS_SYSTEM st)) \<and>
    (\<forall>k l. (k, l) \<in> set (sig_tab DBUS_BUS_SYSTEM st) \<longrightarrow> (\<exists>sl. d_siglists st l = Some sl \<and> sl_signals sl \<noteq> []))"
proof -
  have "opens_others {c} E" using assms(3) by (auto simp: opens_others_def)
  from dbus_reach_inv(2) [OF assms(1,2) this]
  have "sig_ok st" "wat_ok st" "mirrored c st" by (simp_all add: db_inv_def)
  then show ?thesis using sig_okD(6,7) [OF \<open>sig_ok st\<close>] wat_okD(2) [OF \<open>wat_ok st\<close>] by (fastforce simp: mirrored_def)
qed

text \<open>A bus daemon that gives connection 0 for the system bus and 1 for every address, and no handler that calls back.\<close>

definition witness_env :: dbus_env where
  "witness_env = \<lparr>dv_open = \<lambda>_ _. Some 1, dv_get = \<lambda>_ t. if t = DBUS_BUS_SYSTEM then Some 0 else None,
     dv_register = \<lambda>_ _. True, dv_path = \<lambda>_ _ _. True, dv_order = rev, dv_junk = \<lambda>_. False, dv_cmds = \<lambda>_. []\<rparr>"

definition dbus_run :: "dbus_env \<Rightarrow> dbus_input list \<Rightarrow> dbus_state option" where
  "dbus_run E inputs = (dbus_plugin_init E \<bind> foldM (dbus_step E) inputs)"

lemma returns_code [code]: "returns P m \<longleftrightarrow> (case m of None \<Rightarrow> False | Some x \<Rightarrow> P x)"
  by (simp add: returns_def split: option.split)

lemma foldM_reach: "dbus_reach E st \<Longrightarrow> foldM (dbus_step E) inputs st = Some st' \<Longrightarrow> dbus_reach E st'"
  by (induction inputs arbitrary: st) (auto simp: bind_eq_Some_conv intro: dbus_reach_step)

lemma dbus_run_reach: "dbus_run E inputs = Some st \<Longrightarrow> dbus_reach E st"
  by (auto simp: dbus_run_def bind_eq_Some_conv intro: foldM_reach dbus_reach_start)

lemma witness_env_simps [simp]:
  "dv_open witness_env log address = Some 1" "dv_get witness_env log DBUS_BUS_SYSTEM = Some 0"
  "dv_junk witness_env log = False" "dv_order witness_env tab = rev tab" "dv_register witness_env log c = True" "dv_cmds witness_env log = []"
  by (simp_all add: witness_env_def)

theorem system_matches_exact_witness:
  "\<exists>st. dbus_run witness_env [In_cmd (Cmd_add_signal DBUS_BUS_SYSTEM (Some ''/p'') (Some ''i'') (Some ''m'') None None 1 2),
      In_cmd (Cmd_add_watch DBUS_BUS_SYSTEM ''n'' 3 4), In_cmd (Cmd_del_watch DBUS_BUS_SYSTEM ''n'' 3 4)] = Some st \<and>
    matches_at 0 (d_log st) = rules_of DBUS_BUS_SYSTEM st \<and> size (rules_of DBUS_BUS_SYSTEM st) = 2"
proof -
  let ?run = "dbus_run witness_env [In_cmd (Cmd_add_signal DBUS_BUS_SYSTEM (Some ''/p'') (Some ''i'') (Some ''m'') None None 1 2),
      In_cmd (Cmd_add_watch DBUS_BUS_SYSTEM ''n'' 3 4), In_cmd (Cmd_del_watch DBUS_BUS_SYSTEM ''n'' 3 4)]"
  have "returns (\<lambda>st. length (sig_tab DBUS_BUS_SYSTEM st) = 2 \<and> wat_tab DBUS_BUS_SYSTEM st = []) ?run" by code_simp
  then obtain st where st: "?run = Some st" "length (sig_tab DBUS_BUS_SYSTEM st) = 2 \<and> wat_tab DBUS_BUS_SYSTEM st = []" by (rule returnsE)
  from system_matches_exact [OF dbus_run_reach [OF st(1)], of 0] st show ?thesis by (simp add: rules_of_def)
qed

lemma rules_unchanged [simp]:
  "rules_of t (st\<lparr>d_log := log\<rparr>) = rules_of t st" "rules_of t (upd_bus t' (b_conn_update h) st) = rules_of t st"
  by (simp_all add: rules_of_def rule_of_def) (simp add: sig_tab_def wat_tab_def)

text \<open>C11. When the session bus is announced, its connection is opened and registered, the filters are
  added, and it is told about everything that was registered before it existed: the
  watched names, the objects and the lists of signal handlers, in this order and each exactly once.  Afterwards the
  match rules of a connection that had none are exactly those of the lists of the session bus.  Nothing else changes.\<close>

theorem session_up_subscribes:
  assumes reach: "dbus_reach E st" and msg: "dm_strings msg = address # rest"
    and open_it: "dv_open E (d_log st) address = Some c" and registered: "\<forall>log. dv_register E log c"
    and junk: "\<forall>log. \<not> dv_junk E log" and order: "\<forall>tab. mset (dv_order E tab) = mset tab"
  shows "\<exists>st'. session_bus_up E msg st = Some st' \<and>
    st' = (upd_bus DBUS_BUS_SESSION (b_conn_update (\<lambda>_. Some c)) st)\<lparr>d_log := d_log st @ [Connect (Some address), Register_bus c] @
      connect_log E c DBUS_BUS_SESSION st\<rparr> \<and>
    bus_conn DBUS_BUS_SESSION st' = Some c \<and>
    (matches_at c (d_log st) = {#} \<longrightarrow> matches_at c (d_log st') = rules_of DBUS_BUS_SESSION st')"
proof -
  let ?up = "upd_bus DBUS_BUS_SESSION (b_conn_update (\<lambda>_. Some c)) st"
  let ?log = "d_log st @ [Connect (Some address), Register_bus c]"
  let ?st' = "?up\<lparr>d_log := ?log @ connect_log E c DBUS_BUS_SESSION st\<rparr>"
  have inv: "db_inv {} st" and live: "obj_live st" using dbus_reach_inv(1) [OF reach] dbus_reach_live [OF reach] .
  note up = session_conn_log [OF inv live]
  have "d_session st \<noteq> None" using inv by (auto simp: db_inv_def notify_of_def split: option.splits)
  moreover have "bus_event E DBUS_BUS_SESSION (?up\<lparr>d_log := ?log\<rparr>) = Some ?st'"
    using session_event_log [OF up(1,2,3) junk order] up(4) by simp
  ultimately have "session_bus_up E msg st = Some ?st'"
    by (auto simp: session_bus_up_def msg bus_connect_def open_it registered note_log upd_bus_log)
  moreover have "rules_of t ?st' = rules_of t st" for t using up(5) by simp
  then have "matches_at c (d_log st) = {#} \<longrightarrow> matches_at c (d_log ?st') = rules_of DBUS_BUS_SESSION ?st'"
    by (simp add: matches_at_append connect_log_matches [OF order])
  ultimately show ?thesis using up(3) by (intro exI [of _ ?st']) simp
qed

definition witness_announced :: dbus_msg where
  "witness_announced = \<lparr>dm_signal = True, dm_path = Some ''/com/nokia/policy'', dm_interface = Some ''com.nokia.policy'',
     dm_member = Some ''NewSession'', dm_signature = Some ''s'', dm_sender = None, dm_strings = [''unix:path=/s'']\<rparr>"

theorem session_up_subscribes_witness:
  "\<exists>st st'. dbus_run witness_env [In_cmd (Cmd_add_signal DBUS_BUS_SESSION (Some ''/p'') (Some ''i'') (Some ''m'') None None 1 2),
      In_cmd (Cmd_add_watch DBUS_BUS_SESSION ''n'' 3 4),
      In_cmd (Cmd_add_method DBUS_BUS_SESSION ''/o'' (Some ''i'') (Some ''f'') None 5 6)] = Some st \<and>
    session_bus_up witness_env witness_announced st = Some st' \<and>
    matches_at 1 (d_log st') = rules_of DBUS_BUS_SESSION st' \<and> size (matches_at 1 (d_log st')) = 2"
proof -
  let ?run = "dbus_run witness_env [In_cmd (Cmd_add_signal DBUS_BUS_SESSION (Some ''/p'') (Some ''i'') (Some ''m'') None None 1 2),
      In_cmd (Cmd_add_watch DBUS_BUS_SESSION ''n'' 3 4),
      In_cmd (Cmd_add_method DBUS_BUS_SESSION ''/o'' (Some ''i'') (Some ''f'') None 5 6)]"
  let ?P = "\<lambda>st. length (sig_tab DBUS_BUS_SESSION st) = 1 \<and> length (wat_tab DBUS_BUS_SESSION st) = 1 \<and>
      (\<forall>x \<in> set (d_log st). case x of Add_match c _ \<Rightarrow> c = 0 | Remove_match c _ \<Rightarrow> c = 0 | _ \<Rightarrow> True)"
  have "returns ?P ?run" by code_simp
  then obtain st where st: "?run = Some st" "?P st" by (rule returnsE)
  have none: "fold (match_effect 1) log {#} = {#}"
    if "\<forall>x \<in> set log. case x of Add_match c _ \<Rightarrow> c = 0 | Remove_match c _ \<Rightarrow> c = 0 | _ \<Rightarrow> True" for log
    using that by (induction log) (auto split: dbus_out.splits)
  then have empty: "matches_at 1 (d_log st) = {#}" using st(2) by (simp add: matches_at_def)
  from session_up_subscribes [OF dbus_run_reach [OF st(1)], of witness_announced "''unix:path=/s''" "[]" 1]
  obtain st' where st': "session_bus_up witness_env witness_announced st = Some st'"
    "st' = (upd_bus DBUS_BUS_SESSION (b_conn_update (\<lambda>_. Some 1)) st)\<lparr>d_log := d_log st @ [Connect (Some ''unix:path=/s''), Register_bus 1] @
      connect_log witness_env 1 DBUS_BUS_SESSION st\<rparr>"
    "matches_at 1 (d_log st') = rules_of DBUS_BUS_SESSION st'"
    using empty by (auto simp: witness_announced_def)
  have "rules_of DBUS_BUS_SESSION st' = rules_of DBUS_BUS_SESSION st"
    unfolding st'(2) by simp
  then show ?thesis using st st' by (simp add: rules_of_def)
qed

subsection \<open>Dispatching\<close>


definition signal_call :: "dbus_msg \<Rightarrow> signal_node \<Rightarrow> dbus_out" where
  "signal_call msg sig = Signal_call (si_handler sig) (si_data sig) msg"


lemma pos_after_middle: "distinct (pre @ a # as) \<Longrightarrow> pos_after a (pre @ a # as) = first_pos as"
proof -
  assume "distinct (pre @ a # as)"
  then have "\<forall>b \<in> set pre. b \<noteq> a" by auto
  then have "dropWhile (\<lambda>b. b \<noteq> a) (pre @ a # as) = a # as" by (simp add: dropWhile_append)
  then show ?thesis by (simp add: pos_after_def)
qed




definition witness_msg :: dbus_msg where
  "witness_msg = \<lparr>dm_signal = True, dm_path = Some ''/a'', dm_interface = Some ''i'', dm_member = Some ''m'',
     dm_signature = Some [], dm_sender = None, dm_strings = []\<rparr>"


text \<open>C21. A handler of a signal that unregisters itself while it is called, and is the only one of its
  interface and member, makes the dispatcher read memory that is freed: its list goes away with it, and the loop
  reads the head of the list for the node that follows.  Outside of the dispatcher the same call is harmless.\<close>

theorem self_removal_reads_freed:
  assumes reach: "dbus_reach E st" and bus: "bus_by_connection c st = Some t"
    and lookup: "siglist_lookup t (signal_key (dm_interface msg) (dm_member msg)) st = Some l"
    and sl: "d_siglists st l = Some sl" and only: "sl_signals sl = [a]" and sig: "d_signals st a = Some sig"
    and suits: "signal_matches sig (dm_signature msg) (dm_path msg) (dm_sender msg)" and client: "si_handler sig = Client_handler h"
    and del: "del = Cmd_del_signal t (si_path sig) (dm_interface msg) (dm_member msg) (si_signature sig) (si_sender sig) h (si_data sig)"
    and calls: "dv_cmds E (d_log st @ [signal_call msg sig]) = [del]"
  shows "signal_dispatch E c msg st = None \<and> run_cmd E del st \<noteq> None"
proof -
  let ?key = "signal_key (dm_interface msg) (dm_member msg)"
  have key: "sl_key sl = ?key"
    using sig_okD(7) [of st ?key l t] dbus_reach_inv(1) [OF reach] map_of_SomeD lookup sl by (fastforce simp: db_inv_def siglist_lookup_tab)
  have gone: "\<exists>st'. run_cmd E del (st\<lparr>d_log := log\<rparr>) = Some st' \<and> d_siglists st' l = None" for log
  proof -
    have same: "signal_matches sig (si_signature sig) (si_path sig) (si_sender sig)" by (simp add: signal_matches_def field_matches_def)
    have look: "siglist_lookup t ?key (st\<lparr>d_log := log\<rparr>) = Some l" using lookup by (simp add: siglist_lookup_def)
    have "signal_del t (si_path sig) (dm_interface msg) (dm_member msg) (si_signature sig) (si_sender sig) (Client_handler h) (si_data sig)
        (st\<lparr>d_log := log\<rparr>) = map_option (Pair True) (siglist_del t l (st\<lparr>d_log := log,
          d_siglists := (d_siglists st)(l \<mapsto> sl\<lparr>sl_signals := []\<rparr>), d_signals := (d_signals st)(a := None)\<rparr>))"
      by (simp add: signal_del_def look sl only sig same client)
    then show ?thesis by (simp add: del export_def siglist_del_def siglist_purge_def siglist_del_match_def)
  qed
  obtain st1 where st1: "run_cmd E del (st\<lparr>d_log := d_log st @ [signal_call msg sig]\<rparr>) = Some st1" "d_siglists st1 l = None" using gone by blast
  then have "signal_body E msg a st = Some st1"
    using calls client by (simp add: signal_body_def sig suits call_signal_handler_def client_call_def signal_call_def note_log Let_def)
  moreover have "next_signal l Head st1 = None" by (simp add: next_signal_def st1(2))
  ultimately have "signal_loop E msg l (Node a) Head st = None" by (subst signal_loop.simps) simp
  moreover have "next_signal l (Node a) st = Some Head"
    using pos_after_middle [of "[]" a "[]"] by (simp add: next_signal_def sl only sig first_pos_def)
  ultimately have "signal_dispatch E c msg st = None"
    by (simp add: signal_dispatch_def bus signal_dispatch_handle_def lookup sl only first_pos_def)
  moreover have "run_cmd E del st \<noteq> None" using gone [of "d_log st"] by auto
  ultimately show ?thesis by simp
qed

text \<open>Handler 1 unregisters itself.\<close>

definition self_removing :: dbus_env where
  "self_removing = witness_env\<lparr>dv_cmds := \<lambda>log. case last log of
     Signal_call (Client_handler h) d msg \<Rightarrow> if h = 1 then [Cmd_del_signal DBUS_BUS_SYSTEM None (Some ''i'') (Some ''m'') None None 1 d] else []
   | _ \<Rightarrow> []\<rparr>"

theorem self_removal_reads_freed_witness:
  "\<exists>st. dbus_reach self_removing st \<and> signal_dispatch self_removing 0 witness_msg st = None"
proof -
  let ?run = "dbus_run self_removing [In_cmd (Cmd_add_signal DBUS_BUS_SYSTEM None (Some ''i'') (Some ''m'') None None 1 2)]"
  let ?sig = "\<lparr>si_signature = None, si_path = None, si_sender = None, si_handler = Client_handler 1, si_data = 2\<rparr>"
  let ?P = "\<lambda>st. bus_by_connection 0 st = Some DBUS_BUS_SYSTEM \<and>
    (case siglist_lookup DBUS_BUS_SYSTEM (signal_key (Some ''i'') (Some ''m'')) st of None \<Rightarrow> False
     | Some l \<Rightarrow> (case d_siglists st l of None \<Rightarrow> False
         | Some sl \<Rightarrow> (case sl_signals sl of [a] \<Rightarrow> d_signals st a = Some ?sig | _ \<Rightarrow> False)))"
  have "returns ?P ?run" by code_simp
  then obtain st where st: "?run = Some st" "?P st" by (rule returnsE)
  then obtain l sl a where list: "siglist_lookup DBUS_BUS_SYSTEM (signal_key (Some ''i'') (Some ''m'')) st = Some l"
    "d_siglists st l = Some sl" "sl_signals sl = [a]" "d_signals st a = Some ?sig" by (auto split: option.splits list.splits)
  have reach: "dbus_reach self_removing st" by (rule dbus_run_reach [OF st(1)])
  have "signal_dispatch self_removing 0 witness_msg st = None"
    using self_removal_reads_freed [OF reach, of 0 DBUS_BUS_SYSTEM witness_msg l sl a ?sig 1] st(2) list
    by (simp add: witness_msg_def signal_matches_def field_matches_def self_removing_def signal_call_def)
  with reach show ?thesis by blast
qed

subsection \<open>Adding and removing\<close>

text \<open>C36. A handler for an interface and member that already have one is added without a
  match rule, also when it names another object path than the first one did: the bus is asked for
  the path of the first handler only, so the signals of the second path are not delivered.\<close>

theorem second_path_unsubscribed:
  assumes reach: "dbus_reach E st" and lookup: "siglist_lookup t (signal_key interface member) st = Some l"
  shows "\<exists>st'. signal_add t path interface member signature sender handler data st = Some (True, st') \<and>
    d_log st' = d_log st \<and> (\<forall>t'. rules_of t' st' = rules_of t' st) \<and>
    map_option sl_signals (d_siglists st' l) = map_option (\<lambda>sl. sl_signals sl @ [d_next st]) (d_siglists st l)"
proof -
  have bus: "bus_by_type t st \<noteq> None" using lookup by (auto simp: siglist_lookup_def split: option.splits)
  have "(signal_key interface member, l) \<in> set (sig_tab t st)" using lookup by (simp add: siglist_lookup_tab map_of_SomeD)
  then obtain sl where sl: "d_siglists st l = Some sl"
    using dbus_reach_inv(1) [OF reach] sig_okD(7) [of st "signal_key interface member" l t] by (auto simp: db_inv_def)
  have look: "siglist_lookup t (signal_key interface member) (st\<lparr>d_next := n, d_signals := x\<rparr>) = Some l" for n x
    using lookup by (simp add: siglist_lookup_def)
  obtain st' where add: "signal_add t path interface member signature sender handler data st = Some (True, st')"
    and st': "d_log st' = d_log st" "\<And>t. sig_tab t st' = sig_tab t st" "\<And>t. wat_tab t st' = wat_tab t st"
      "d_siglists st' = (d_siglists st)(l \<mapsto> sl\<lparr>sl_signals := sl_signals sl @ [d_next st]\<rparr>)"
    using bus by (simp add: signal_add_def Let_def look [simplified] sl)
  have "rule_of st' x = rule_of st x" for x using sl by (simp add: rule_of_def st'(4))
  then have "rules_of t' st' = rules_of t' st" for t' by (simp add: rules_of_def st'(2,3))
  with add st' sl show ?thesis by simp
qed

theorem second_path_unsubscribed_witness:
  "\<exists>st st'. dbus_run witness_env [In_cmd (Cmd_add_signal DBUS_BUS_SYSTEM (Some ''/a'') (Some ''i'') (Some ''m'') None None 1 2)] = Some st \<and>
    signal_add DBUS_BUS_SYSTEM (Some ''/b'') (Some ''i'') (Some ''m'') None None (Client_handler 3) 4 st = Some (True, st') \<and>
    Add_match 0 (signal_rule (Some ''i'') (Some ''m'') (Some ''/b'')) \<notin> set (d_log st')"
proof -
  let ?run = "dbus_run witness_env [In_cmd (Cmd_add_signal DBUS_BUS_SYSTEM (Some ''/a'') (Some ''i'') (Some ''m'') None None 1 2)]"
  let ?P = "\<lambda>st. siglist_lookup DBUS_BUS_SYSTEM (signal_key (Some ''i'') (Some ''m'')) st \<noteq> None \<and>
    filter (\<lambda>x. x = Add_match 0 (signal_rule (Some ''i'') (Some ''m'') (Some ''/b''))) (d_log st) = []"
  have "returns ?P ?run" by code_simp
  then obtain st where st: "?run = Some st" "?P st" by (rule returnsE)
  then obtain l where l: "siglist_lookup DBUS_BUS_SYSTEM (signal_key (Some ''i'') (Some ''m'')) st = Some l" by blast
  from second_path_unsubscribed [OF dbus_run_reach [OF st(1)] l, of "Some ''/b''" None None "Client_handler 3" 4]
  obtain st' where "signal_add DBUS_BUS_SYSTEM (Some ''/b'') (Some ''i'') (Some ''m'') None None (Client_handler 3) 4 st = Some (True, st')"
    "d_log st' = d_log st" by blast
  with st show ?thesis by (auto simp: filter_empty_conv)
qed

lemma delete_appended: "map_of ts k = None \<Longrightarrow> AList.delete k (ts @ [(k, x)]) = ts"
  by (induction ts) (auto split: if_splits)

text \<open>Removing the only handler of an interface and member restores what was before it was added: the
  same lists, nodes and tables, and the match rule is taken back.\<close>

theorem signal_add_del:
  assumes reach: "dbus_reach E st" and bus: "bus_by_type t st \<noteq> None" and new: "siglist_lookup t (signal_key interface member) st = None"
  shows "\<exists>st1 st2. signal_add t path interface member signature sender handler data st = Some (True, st1) \<and>
    signal_del t path interface member signature sender handler data st1 = Some (True, st2) \<and>
    d_siglists st2 = d_siglists st \<and> d_signals st2 = d_signals st \<and> (\<forall>t'. bus_by_type t' st2 = bus_by_type t' st) \<and>
    d_log st2 = d_log st @ (case bus_conn t st of None \<Rightarrow> [] | Some c \<Rightarrow> [Add_match c (signal_rule interface member path),
      Remove_match c (signal_rule interface member path)])"
proof -
  let ?key = "signal_key interface member"
  let ?n = "d_next st"
  let ?rule = "signal_rule interface member path"
  let ?sig = "\<lparr>si_signature = signature, si_path = path, si_sender = sender, si_handler = handler, si_data = data\<rparr>"
  have ok: "sig_ok st" using dbus_reach_inv(1) [OF reach] by (simp add: db_inv_def)
  have fresh: "d_signals st ?n = None" "d_siglists st (Suc ?n) = None"
    using sig_okD(1,4) [OF ok] by (metis less_irrefl not_Some_eq, metis Suc_n_not_le_n less_imp_le not_Some_eq)
  obtain b where b: "bus_by_type t st = Some b" using bus by blast
  then have key: "map_of (b_signals b) ?key = None" using new by (simp add: siglist_lookup_def)
  then have del: "AList.delete ?key (b_signals b @ [(?key, Suc ?n)]) = b_signals b"
    by (rule delete_appended)
  obtain st1 where add: "signal_add t path interface member signature sender handler data st = Some (True, st1)"
    and st1: "\<And>t'. bus_by_type t' st1 = (if t' = t then Some (b_signals_update (\<lambda>ts. ts @ [(?key, Suc ?n)]) b) else bus_by_type t' st)"
      "d_siglists st1 = (d_siglists st)(Suc ?n \<mapsto> \<lparr>sl_key = ?key, sl_rule = ?rule, sl_signals = [?n]\<rparr>)"
      "d_signals st1 = (d_signals st)(?n \<mapsto> ?sig)"
      "d_log st1 = d_log st @ (case bus_conn t st of None \<Rightarrow> [] | Some c \<Rightarrow> [Add_match c ?rule])"
    using new b by (simp add: signal_add_def siglist_add_def siglist_add_match_def Let_def siglist_lookup_def bus_conn_def cong: if_cong)
  have look: "siglist_lookup t ?key st1 = Some (Suc ?n)" using key by (simp add: siglist_lookup_def st1(1) map_add_def)
  have conn: "bus_conn t st1 = bus_conn t st" by (simp add: bus_conn_def st1(1) b)
  have same: "signal_matches ?sig signature path sender" by (simp add: signal_matches_def field_matches_def)
  have "\<exists>st2. signal_del t path interface member signature sender handler data st1 = Some (True, st2) \<and>
      d_siglists st2 = (d_siglists st)(Suc ?n := None) \<and> d_signals st2 = (d_signals st)(?n := None) \<and>
      (\<forall>t'. bus_by_type t' st2 = bus_by_type t' st) \<and>
      d_log st2 = d_log st1 @ (case bus_conn t st of None \<Rightarrow> [] | Some c \<Rightarrow> [Remove_match c ?rule])"
    by (simp add: signal_del_def look st1(2,3) same siglist_del_def siglist_purge_def siglist_del_match_def conn)
      (auto simp: st1(1) del b conn bus_conn_def split: option.splits)
  then show ?thesis using add fresh by (auto simp: st1(4) fun_upd_idem split: option.split)
qed

theorem signal_add_del_witness:
  "\<exists>st st1 st2. dbus_run witness_env [] = Some st \<and>
    signal_add DBUS_BUS_SYSTEM None (Some ''i'') (Some ''m'') None None (Client_handler 3) 4 st = Some (True, st1) \<and>
    signal_del DBUS_BUS_SYSTEM None (Some ''i'') (Some ''m'') None None (Client_handler 3) 4 st1 = Some (True, st2) \<and>
    d_siglists st2 = d_siglists st \<and> length (d_log st2) = length (d_log st) + 2"
proof -
  let ?P = "\<lambda>st. siglist_lookup DBUS_BUS_SYSTEM (signal_key (Some ''i'') (Some ''m'')) st = None \<and> bus_conn DBUS_BUS_SYSTEM st = Some 0"
  have "returns ?P (dbus_run witness_env [])" by code_simp
  then obtain st where st: "dbus_run witness_env [] = Some st" "?P st" by (rule returnsE)
  then have "bus_by_type DBUS_BUS_SYSTEM st \<noteq> None" by (auto simp: bus_conn_def split: option.splits)
  from signal_add_del [OF dbus_run_reach [OF st(1)] this, of "Some ''i''" "Some ''m''" None None None "Client_handler 3" 4] st
  show ?thesis by fastforce
qed

text \<open>C22. A method that was added with an interface or a signature cannot be removed: the
  table of methods destroys its values as if they were objects, so taking the method out of it reads the method's strings as a
  bus, its connection and a table.\<close>

theorem method_removal_crashes:
  assumes add: "method_add E t path interface member signature handler data st = Some (True, st')"
    and typed: "interface \<noteq> None \<or> signature \<noteq> None"
  shows "method_del t path interface member signature handler data st' = None"
proof -
  let ?key = "method_key interface member signature"
  let ?m = "\<lparr>me_interface = interface, me_member = text_or_empty member, me_signature = signature, me_handler = handler, me_data = data\<rparr>"
  have bus: "bus_by_type t st \<noteq> None" using add by (cases "bus_by_type t st = None") (simp_all add: method_add_def)
  then obtain obj st1 where first: "(case object_lookup t path st of None \<Rightarrow> object_add E t path st
        | Some a \<Rightarrow> do { ob \<leftarrow> d_objects st a;
             if map_of (ob_methods ob) ?key \<noteq> None then Some (None, st) else Some (Some a, st) }) = Some (obj, st1)"
    and second: "(case obj of None \<Rightarrow> Some (False, st1)
        | Some a \<Rightarrow> do { ob \<leftarrow> d_objects st1 a;
             Some (True, st1\<lparr>d_objects := (d_objects st1)(a \<mapsto> ob\<lparr>ob_methods := ob_methods ob @ [(?key, ?m)]\<rparr>)\<rparr>) }) = Some (True, st')"
    using add by (auto simp: method_add_def Let_def bind_eq_Some_conv)
  obtain a ob where obj: "obj = Some a" "d_objects st1 a = Some ob"
    "st' = st1\<lparr>d_objects := (d_objects st1)(a \<mapsto> ob\<lparr>ob_methods := ob_methods ob @ [(?key, ?m)]\<rparr>)\<rparr>"
    using second by (auto simp: bind_eq_Some_conv split: option.splits)
  have "map_of (obj_tab t st1) path = Some a \<and> map_of (ob_methods ob) ?key = None"
  proof (cases "map_of (obj_tab t st) path")
    case (Some b)
    then show ?thesis using first obj(1,2) by (auto simp: object_lookup_tab bind_eq_Some_conv split: if_splits)
  next
    case None
    let ?ob = "\<lparr>ob_path = path, ob_bus = t, ob_methods = []\<rparr>"
    let ?st2 = "upd_bus t (b_objects_update (\<lambda>ts. ts @ [(path, d_next st)]))
      (st\<lparr>d_next := Suc (d_next st), d_objects := (d_objects st)(d_next st \<mapsto> ?ob)\<rparr>)"
    have "object_add E t path st = Some (obj, st1)" using first None by (simp add: object_lookup_tab)
    then obtain ok st3 where reg3: "object_register E (d_next st) ?st2 = Some (ok, st3)"
      and r: "(if ok then Some (Some (d_next st), st3)
        else map_option (Pair None) (object_purge (d_next st) (upd_bus t (b_objects_update (AList.delete path)) st3))) = Some (obj, st1)"
      by (auto simp: object_add_def Let_def bind_eq_Some_conv)
    have reg: "object_register E a ?st2 = Some (ok, st1)" "a = d_next st"
      using reg3 r obj(1) by (cases ok; simp)+
    have "obj_tab t ?st2 = obj_tab t st @ [(path, d_next st)]" using bus by (subst obj_tab_upd) simp_all
    with postD [OF object_register_same reg(1)] show ?thesis
      using None reg(2) obj(2) by (auto simp: obj_same_def map_add_def)
  qed
  then show ?thesis using typed
    by (auto simp: method_del_def object_lookup_tab obj(3) map_add_def method_destroyed_def)
qed

theorem method_removal_crashes_witness:
  "\<exists>st st'. dbus_run witness_env [] = Some st \<and>
    method_add witness_env DBUS_BUS_SYSTEM ''/o'' (Some ''i'') (Some ''f'') None 1 2 st = Some (True, st') \<and>
    method_del DBUS_BUS_SYSTEM ''/o'' (Some ''i'') (Some ''f'') None 1 2 st' = None"
proof -
  let ?P = "\<lambda>st. returns (\<lambda>r. fst r) (method_add witness_env DBUS_BUS_SYSTEM ''/o'' (Some ''i'') (Some ''f'') None 1 2 st)"
  have "returns ?P (dbus_run witness_env [])" by code_simp
  then obtain st where st: "dbus_run witness_env [] = Some st" "?P st" by (rule returnsE)
  then obtain st' where "method_add witness_env DBUS_BUS_SYSTEM ''/o'' (Some ''i'') (Some ''f'') None 1 2 st = Some (True, st')"
    by (auto elim!: returnsE)
  with method_removal_crashes [OF this] st(1) show ?thesis by blast
qed

text \<open>A method that was added without an interface is never called for a message that has
  one: the keys of such methods begin with a dot, and neither the key of the message nor its bare member, which is looked up last,
  does.\<close>

theorem interfaceless_method_unreachable:
  assumes reach: "dbus_reach E st" and ob: "d_objects st a = Some ob" and found: "method_handler ob msg = Some (Some m)"
    and interface: "dm_interface msg = Some (x # i)" "x \<noteq> CHR ''.''" and member: "dm_member msg = Some (y # n)" "y \<noteq> CHR ''.''"
  shows "me_interface m \<noteq> None"
proof
  assume none: "me_interface m = None"
  have "obj_ok st" using dbus_reach_inv(1) [OF reach] by (simp add: db_inv_def)
  note keys = obj_okD [OF this ob]
  obtain k where k: "map_of (ob_methods ob) k = Some m" and hd_k: "k \<noteq> []" "hd k \<noteq> CHR ''.''"
    using found interface member by (auto simp: method_handler_def method_key_def dbus_buf_def text_or_empty_def split: option.splits)
  from keys [OF map_of_SomeD [OF k]] none have "hd k = CHR ''.''" by (simp add: method_key_def dbus_buf_def text_or_empty_def)
  with hd_k show False by simp
qed

theorem interfaceless_method_unreachable_witness:
  "\<exists>st a ob m. dbus_run witness_env [In_cmd (Cmd_add_method DBUS_BUS_SYSTEM ''/o'' None (Some ''m'') None 1 2),
      In_cmd (Cmd_add_method DBUS_BUS_SYSTEM ''/o'' (Some ''i'') (Some ''m'') None 3 4)] = Some st \<and>
    d_objects st a = Some ob \<and> length (ob_methods ob) = 2 \<and> method_handler ob witness_msg = Some (Some m) \<and> me_interface m \<noteq> None"
proof -
  let ?run = "dbus_run witness_env [In_cmd (Cmd_add_method DBUS_BUS_SYSTEM ''/o'' None (Some ''m'') None 1 2),
      In_cmd (Cmd_add_method DBUS_BUS_SYSTEM ''/o'' (Some ''i'') (Some ''m'') None 3 4)]"
  let ?P = "\<lambda>st. case object_lookup DBUS_BUS_SYSTEM ''/o'' st of None \<Rightarrow> False
    | Some a \<Rightarrow> (case d_objects st a of None \<Rightarrow> False
        | Some ob \<Rightarrow> length (ob_methods ob) = 2 \<and> (case method_handler ob witness_msg of Some (Some m) \<Rightarrow> True | _ \<Rightarrow> False))"
  have "returns ?P ?run" by code_simp
  then obtain st where st: "?run = Some st" "?P st" by (rule returnsE)
  then obtain a ob m where ob: "d_objects st a = Some ob" "length (ob_methods ob) = 2" "method_handler ob witness_msg = Some (Some m)"
    by (auto split: option.splits)
  have "me_interface m \<noteq> None"
    by (rule interfaceless_method_unreachable [OF dbus_run_reach [OF st(1)] ob(1,3), of "CHR ''i''" "[]" "CHR ''m''" "[]"])
      (simp_all add: witness_msg_def)
  with st(1) ob show ?thesis by blast
qed

end
