(* ===== verification/Spec2Isabelle.thy ===== *)
theory Spec2Isabelle
  imports Transaction Ptr_Queue Fsif Resource_Spec Resource_Set Resource_Auth Resource_Rule Resource_Manager
    Playback_Properties Signaling_Properties Notif_Properties
    Telephony_Properties Cgrp_Properties Dbus_Properties
begin

text \<open>
  Verification of the OHM policy plugins (\<open>ohm-plugins-misc\<close>).

  The program is a set of plugins of the OHM daemon, all C, that share the daemon's fact store and
  its GLib main loop.  The plugins that take decisions receive requests from clients, ask the policy
  resolver (dres), which changes facts, and tell the clients what the facts say.  Everything is single
  threaded: a component is a state, an operation is a function that returns the state it leaves, and
  a crash (a \<open>NULL\<close> or dangling pointer that is followed) is the result \<open>None\<close>.

  \<^bold>\<open>Outside code.\<close>  The fact store of OHM, the resolver, the rule engine, libresource, libdbus and
  the outcome of \<open>malloc\<close> and of sending are records of functions that the operations take as
  their first argument (\<open>ohmlib\<close>, \<open>renv\<close>, \<open>menv\<close>, \<open>penv\<close>, \<open>sgenv\<close>, \<open>nenv\<close>, \<open>tenv\<close>, \<open>proc_env\<close>, \<open>cg_env\<close>).  A resolver
  call returns its status and the list of facts it changes; the model then runs the field watches of
  the plugin on each change, as the fact store does.

  \<^bold>\<open>Theories.\<close>
  \<^item> \<open>Prelude\<close>: machine types, shared rule collections, facts on words, lists and maps.
  \<^item> \<open>Transaction\<close>: \<open>src/plugins/resource/transaction.c\<close>, the table of transactions and the
    in-order delivery of their completions (abstract machine, refinement, safety and liveness).
  \<^item> \<open>Ptr_Queue\<close>: the linked queue of \<open>resource-set.c\<close> on a heap of nodes, a locale of first
    in, first out queues and its interpretation.
  \<^item> \<open>Fsif\<close>: \<open>src/plugins/fsif/fsif.c\<close>, facts, fields, selectors and watches, a locale for the
    map interface that the facts with a key implement.
  \<^item> \<open>Resource_Spec\<close>, \<open>Resource_Set\<close>, \<open>Resource_Auth\<close>, \<open>Resource_Rule\<close>,
    \<open>Resource_Manager\<close>: \<open>resource-spec.c\<close>, \<open>resource-set.c\<close>, \<open>auth.c\<close>,
    \<open>ruleif.c\<close> and \<open>manager.c\<close> of the resource plugin; the last one shows that every request
    is answered once.
  \<^item> \<open>Playback_Client\<close>, \<open>Playback_Sm\<close>, \<open>Playback_Media\<close>, \<open>Playback_Dbusif\<close>: the
    playback plugin, \<open>client.c\<close> and \<open>pbreq.c\<close>, \<open>sm.c\<close> with \<open>dresif.c\<close>, \<open>media.c\<close>
    and \<open>dbusif.c\<close>; \<open>pb_step\<close> is one iteration of the main loop and \<open>pb_reachable\<close> the
    states it can reach.
  \<^item> \<open>Signaling\<close>, \<open>Signaling_Inv\<close>, \<open>Signaling_Properties\<close>: the signaling plugin,
    \<open>signaling-internal.c\<close> and \<open>signaling.c\<close>, its events \<open>sg_step\<close>, the invariant and the
    properties: no decision is lost or completed twice, a timeout or the last answer completes it.
  \<^item> \<open>Notif\<close>, \<open>Notif_Inv\<close>, \<open>Notif_Properties\<close>: the notification plugin, \<open>proxy.c\<close>,
    \<open>resource.c\<close>, \<open>ruleif.c\<close> and \<open>dbusif.c\<close>, its events \<open>notif_step\<close>, the invariant on
    the tables and the timers, which events read freed memory, and who may change a request.
  \<^item> \<open>Telephony\<close>, \<open>Telephony_Inv\<close>, \<open>Telephony_Properties\<close>: the telephony plugin,
    \<open>telephony.c\<close>: signals, requests and timers are the inputs of \<open>tel_step\<close>; the invariant on
    the table of calls, the complete list of what crashes, and the release of the resources.
  \<^item> \<open>Cgrp_Rules\<close>, \<open>Cgrp_Proc\<close>, \<open>Cgrp_Partition\<close>, \<open>Cgrp_Classify\<close>, \<open>Cgrp_Ep\<close>: the cgroups
    plugin, in this order the rules and the reading of \<open>/proc\<close> (\<open>cgrp-eval.c\<close>, \<open>cgrp-procdef.c\<close>, the
    first half of \<open>cgrp-process.c\<close>, the rule tables of \<open>cgrp-hash.c\<close>); processes, groups, leaders, facts
    and priorities (\<open>cgrp-process.c\<close>, \<open>cgrp-group.c\<close>, \<open>cgrp-leader.c\<close>, \<open>cgrp-hash.c\<close>, \<open>cgrp-fact.c\<close>,
    \<open>cgrp-curve.c\<close>); \<open>cgrp-partition.c\<close>; \<open>cgrp-classify.c\<close> with the actions of \<open>cgrp-action.c\<close>; and the
    actions of the policy, tracking and the application tracker (\<open>cgrp-ep.c\<close>, \<open>cgrp-plugin.c\<close>,
    \<open>cgrp-apptrack.c\<close>), with \<open>cg_step\<close>, one event of the main loop.  What the kernel answers is a
    function of the log of everything that was written to it so far.
  \<^item> \<open>Cgrp_Inv\<close>, \<open>Cgrp_Ok\<close>, \<open>Cgrp_Steps\<close>, \<open>Cgrp_Properties\<close>: the invariant of the plugin on the
    process table, the groups, the active application and the rules (\<open>cg_ok\<close>), that each operation and
    each event keeps it, what can make an event crash or run forever (\<open>cg_hazard\<close>), and the properties.
    A move of a task moves its group, its followers and its tracer by recursion; it is a
    \<open>partial_function\<close>, shown to return while tracers form no cycle, and not to return when they do.
  \<^item> \<open>Dbus\<close>: the dbus plugin (\<open>dbus-bus.c\<close>, \<open>dbus-signal.c\<close>, \<open>dbus-watch.c\<close>,
    \<open>dbus-method.c\<close>), which routes messages to the handlers of the other plugins; the loops over handlers are
    \<open>partial_function\<close>s, for a handler may change the list that is walked.
  \<^item> \<open>Dbus_Inv\<close>, \<open>Dbus_Objects\<close>, \<open>Dbus_Properties\<close>: the tables and the match rules of a
    connection agree (\<open>db_inv\<close>), the tables of objects hold live objects (\<open>obj_live\<close>), both kept by everything
    the plugin does (\<open>dbus_keeps\<close>), and the properties: the subscriptions on both buses, whom a signal
    reaches, and the calls that read freed memory.
  \<^item> \<open>Option_Post\<close>: partial and total correctness rules for the option monad.
  \<^item> \<open>Playback_Inv\<close>, \<open>Playback_Requests\<close>, \<open>Playback_Properties\<close>: what an operation of the
    playback plugin leaves alone, the invariant on requests and replies, and the properties.

  \<^bold>\<open>Bounds.\<close>  Counters that are \<open>uint32_t\<close> are words and wrap around; the loop that ends the
  transactions is a \<open>partial_function\<close>, shown to return below 2^32 - 1 transactions; so is the loop over the queue of a signal in the
  signaling plugin, shown to return when the completion callbacks queue nothing more, and so are the
  loops of the notification plugin over the requests of a client and of the backend, shown to return
  in every reachable state.  The
  transaction ids of the playback plugin are a C \<open>int\<close> and unbounded here.

  \<^bold>\<open>Not modelled.\<close>  Set-up of the D-Bus connections and marshalling, plugin registration, debug
  output, timestamps; the enforcement points that drive X11, MCE, sysfs and evdev; generated parsers;
  in the cgroups plugin the netlink socket, the construction of the curves, the console and the load
  monitor.  The plugins that only pass values between the fact store and an outside service (media,
  route, profile, gconf, hal, backlight and others) have little logic of their own.
  The list of components says why for each.
\<close>

end
